(* ===== verification/Prelude.thy ===== *)
theory Prelude
  imports Complex_Main "HOL-Library.Product_Lexorder" "HOL-Library.List_Lexorder"
    "HOL-Library.Char_ord"
begin

text \<open>
  What every component shares: the hint collections of the development, database tables as
  lists of rows with the queryset operations the services use on them, and error results.

  A table is the list of its rows in primary-key order. The queryset operations are those the
  sources call: \<open>filter(...)\<close> is \<^const>\<open>List.filter\<close>, \<open>order_by\<close> is \<^const>\<open>sort_key\<close> (reversed for
  a leading minus), \<open>first()\<close> is \<open>first\<close>, \<open>exists()\<close> is \<^const>\<open>list_ex\<close>,
  \<open>count()\<close> is \<open>count_where\<close>, \<open>update(...)\<close> is \<open>update_where\<close>, and \<open>create(...)\<close> appends a row
  under \<open>fresh_id\<close>.
\<close>

named_theorems table_simps "rewriting of table operations"
named_theorems wf_intros "preservation of table invariants"

subsection \<open>Querysets over tables\<close>

definition first :: "'a list \<Rightarrow> 'a option" where
  "first xs = (case xs of [] \<Rightarrow> None | x # _ \<Rightarrow> Some x)"

definition count_where :: "('a \<Rightarrow> bool) \<Rightarrow> 'a list \<Rightarrow> nat" where
  "count_where P xs = length (filter P xs)"

definition update_where :: "('a \<Rightarrow> bool) \<Rightarrow> ('a \<Rightarrow> 'a) \<Rightarrow> 'a list \<Rightarrow> 'a list" where
  "update_where P f xs = map (\<lambda>x. if P x then f x else x) xs"

definition fresh_id :: "('a \<Rightarrow> nat) \<Rightarrow> 'a list \<Rightarrow> nat" where
  "fresh_id key xs = Suc (fold max (map key xs) 0)"

definition latest_by :: "('a \<Rightarrow> 'k::linorder) \<Rightarrow> 'a list \<Rightarrow> 'a option" where
  "latest_by key xs = first (rev (sort_key key xs))"

definition earliest_by :: "('a \<Rightarrow> 'k::linorder) \<Rightarrow> 'a list \<Rightarrow> 'a option" where
  "earliest_by key xs = first (sort_key key xs)"

lemma first_simps [simp]:
  "first [] = None"
  "first (x # xs) = Some x"
  by (simp_all add: first_def)

lemma first_None [simp]: "first xs = None \<longleftrightarrow> xs = []"
  by (cases xs) simp_all

lemma first_append: "first (xs @ ys) = (if xs = [] then first ys else first xs)"
  by (cases xs) simp_all

lemma first_SomeD: "first xs = Some x \<Longrightarrow> x \<in> set xs"
  by (cases xs) simp_all

lemma first_filter_SomeD: "first (filter P xs) = Some x \<Longrightarrow> x \<in> set xs \<and> P x"
  by (auto dest: first_SomeD)

lemma first_filter_None: "first (filter P xs) = None \<longleftrightarrow> (\<forall>x \<in> set xs. \<not> P x)"
  by (simp add: filter_empty_conv)

lemma count_where_simps [table_simps]:
  "count_where P [] = 0"
  "count_where P (x # xs) = (if P x then Suc (count_where P xs) else count_where P xs)"
  "count_where P (xs @ ys) = count_where P xs + count_where P ys"
  by (simp_all add: count_where_def)

lemma count_where_zero: "count_where P xs = 0 \<longleftrightarrow> (\<forall>x \<in> set xs. \<not> P x)"
  by (simp add: count_where_def filter_empty_conv)

lemma count_where_cong:
  "(\<And>x. x \<in> set xs \<Longrightarrow> P x = Q x) \<Longrightarrow> count_where P xs = count_where Q xs"
  by (simp add: count_where_def cong: filter_cong)

lemma count_where_mono:
  "(\<And>x. x \<in> set xs \<Longrightarrow> P x \<Longrightarrow> Q x) \<Longrightarrow> count_where P xs \<le> count_where Q xs"
  by (induction xs) (auto simp: table_simps le_SucI)

lemma length_update_where [simp]: "length (update_where P f xs) = length xs"
  by (simp add: update_where_def)

lemma update_where_simps [table_simps]:
  "update_where P f [] = []"
  "update_where P f (x # xs) = (if P x then f x else x) # update_where P f xs"
  "update_where P f (xs @ ys) = update_where P f xs @ update_where P f ys"
  by (simp_all add: update_where_def)

lemma update_where_none: "(\<And>x. x \<in> set xs \<Longrightarrow> \<not> P x) \<Longrightarrow> update_where P f xs = xs"
  by (induction xs) (auto simp: table_simps)

lemma set_update_where: "set (update_where P f xs) = (\<lambda>x. if P x then f x else x) ` set xs"
  by (simp add: update_where_def)

lemma map_update_where:
  "(\<And>x. P x \<Longrightarrow> g (f x) = g x) \<Longrightarrow> map g (update_where P f xs) = map g xs"
  by (induction xs) (auto simp: table_simps)

lemma count_update_where:
  "count_where Q (update_where P f xs) = count_where (\<lambda>x. if P x then Q (f x) else Q x) xs"
  by (induction xs) (auto simp: table_simps)

lemma list_ex_update_where:
  "list_ex Q (update_where P f xs) = list_ex (\<lambda>x. if P x then Q (f x) else Q x) xs"
  by (induction xs) (auto simp: table_simps)

lemma update_where_key_none: "key r \<notin> key ` set xs \<Longrightarrow> update_where (\<lambda>x. key x = key r) f xs = xs"
  by (rule update_where_none) (metis image_eqI)

text \<open>Updating the one row with a given key changes a total by what it changes of that row.\<close>

lemma sum_update_where:
  fixes g :: "'a \<Rightarrow> 'b::ab_group_add"
  assumes "distinct (map key xs)" "r \<in> set xs"
  shows "(\<Sum>x\<leftarrow>update_where (\<lambda>x. key x = key r) f xs. g x) = (\<Sum>x\<leftarrow>xs. g x) + (g (f r) - g r)"
  using assms
proof (induction xs)
  case (Cons a xs)
  show ?case
  proof (cases "a = r")
    case True
    with Cons.prems have "key r \<notin> key ` set xs" by simp
    with True show ?thesis by (simp add: table_simps update_where_key_none)
  next
    case False
    with Cons.prems have "r \<in> set xs" "key a \<noteq> key r" by auto
    with Cons show ?thesis by (simp add: table_simps)
  qed
qed simp

text \<open>Totals by group add up to the total, whatever order the groups are in.\<close>

lemma sum_over_groups:
  fixes g :: "'a \<Rightarrow> 'b::comm_monoid_add"
  assumes "distinct ks" "f ` set xs \<subseteq> set ks"
  shows "(\<Sum>k\<leftarrow>ks. \<Sum>x\<leftarrow>filter (\<lambda>x. f x = k) xs. g x) = (\<Sum>x\<leftarrow>xs. g x)"
  using assms(2)
proof (induction xs)
  case Nil
  then show ?case by (induction ks) simp_all
next
  case (Cons x xs)
  have "(\<Sum>k\<leftarrow>ks. \<Sum>y\<leftarrow>filter (\<lambda>y. f y = k) (x # xs). g y)
      = (\<Sum>k\<leftarrow>ks. (if f x = k then g x else 0) + (\<Sum>y\<leftarrow>filter (\<lambda>y. f y = k) xs. g y))"
    by (intro arg_cong [where f = sum_list] map_cong) auto
  also have "\<dots> = (\<Sum>k\<leftarrow>ks. if f x = k then g x else 0) + (\<Sum>y\<leftarrow>xs. g y)"
    using Cons by (simp add: sum_list_addf)
  also have "(\<Sum>k\<leftarrow>ks. if f x = k then g x else 0) = g x"
    using assms(1) Cons.prems by (simp add: sum_list_distinct_conv_sum_set)
  finally show ?case by simp
qed

lemma first_filter_update:
  assumes "distinct (map key xs)" "x \<in> set xs" "key y = key x" "P y = P x"
  shows "first (filter P (update_where (\<lambda>z. key z = key x) (\<lambda>_. y) xs))
    = (case first (filter P xs) of None \<Rightarrow> None | Some z \<Rightarrow> Some (if z = x then y else z))"
  using assms(1,2)
proof (induction xs)
  case (Cons a xs)
  show ?case
  proof (cases "a = x")
    case True
    with Cons.prems have "key x \<notin> key ` set xs" by simp
    then have u: "update_where (\<lambda>z. key z = key x) (\<lambda>_. y) xs = xs" by (rule update_where_key_none)
    have ne: "first (filter P xs) \<noteq> Some x"
      using \<open>key x \<notin> key ` set xs\<close> first_filter_SomeD [of P xs x] by blast
    show ?thesis
    proof (cases "P x")
      case True
      with \<open>a = x\<close> assms(4) show ?thesis by (simp add: table_simps)
    next
      case False
      with \<open>a = x\<close> assms(4) ne u show ?thesis by (auto simp: table_simps split: option.split)
    qed
  next
    case False
    with Cons.prems have "x \<in> set xs" "key a \<noteq> key x" by auto
    with Cons False show ?thesis by (simp add: table_simps)
  qed
qed simp

subsection \<open>Primary keys\<close>

lemma fold_max_ge: "(m::nat) \<le> fold max ns m"
proof (induction ns arbitrary: m)
  case Nil
  then show ?case by simp
next
  case (Cons a ns)
  have "m \<le> max a m" by simp
  also have "\<dots> \<le> fold max ns (max a m)" by (rule Cons.IH)
  finally show ?case by simp
qed

lemma fold_max_member: "n \<in> set ns \<Longrightarrow> (n::nat) \<le> fold max ns m"
proof (induction ns arbitrary: m)
  case Nil
  then show ?case by simp
next
  case (Cons a ns)
  show ?case
  proof (cases "n = a")
    case True
    have "n \<le> max a m" using True by simp
    also have "\<dots> \<le> fold max ns (max a m)" by (rule fold_max_ge)
    finally show ?thesis by simp
  next
    case False
    with Cons show ?thesis by simp
  qed
qed

lemma fresh_id_gt: "x \<in> set xs \<Longrightarrow> key x < fresh_id key xs"
  by (simp add: fresh_id_def less_Suc_eq_le fold_max_member)

lemma fresh_id_notin: "fresh_id key xs \<notin> key ` set xs"
  by (auto dest: fresh_id_gt [where key = key])

lemma fresh_id_neq [simp]: "x \<in> set xs \<Longrightarrow> fresh_id key xs \<noteq> key x" "x \<in> set xs \<Longrightarrow> key x \<noteq> fresh_id key xs"
  by (auto dest: fresh_id_gt [where key = key])

lemma distinct_fresh: "distinct (map key xs) \<Longrightarrow> key x = fresh_id key xs \<Longrightarrow>
    distinct (map key (xs @ [x]))"
  using fresh_id_notin [of key xs] by simp

subsection \<open>Ordered lookups\<close>

lemma latest_by_None [simp]: "latest_by key xs = None \<longleftrightarrow> xs = []"
  by (simp add: latest_by_def) (metis length_0_conv length_sort)

lemma earliest_by_None [simp]: "earliest_by key xs = None \<longleftrightarrow> xs = []"
  by (simp add: earliest_by_def) (metis length_0_conv length_sort)

lemma latest_by_Nil [simp]: "latest_by key [] = None" "earliest_by key [] = None"
  by (simp_all add: latest_by_def earliest_by_def)

lemma latest_by_in: "latest_by key xs = Some x \<Longrightarrow> x \<in> set xs"
  using first_SomeD by (fastforce simp: latest_by_def)

lemma earliest_by_in: "earliest_by key xs = Some x \<Longrightarrow> x \<in> set xs"
  using first_SomeD by (fastforce simp: earliest_by_def)

lemma sorted_last_max: "sorted (map key xs) \<Longrightarrow> xs \<noteq> [] \<Longrightarrow> y \<in> set xs \<Longrightarrow> key y \<le> key (last xs)"
  by (induction xs) auto

lemma latest_by_max: "latest_by key xs = Some x \<Longrightarrow> y \<in> set xs \<Longrightarrow> key y \<le> key x"
proof -
  assume a: "latest_by key xs = Some x" and y: "y \<in> set xs"
  let ?ys = "sort_key key xs"
  have ne: "?ys \<noteq> []" using y by (metis empty_iff list.set(1) set_sort)
  have "x = last ?ys"
    using a ne by (cases ?ys rule: rev_cases) (auto simp: latest_by_def)
  moreover have "y \<in> set ?ys" using y by simp
  ultimately show ?thesis using sorted_last_max [OF sorted_sort_key ne] by simp
qed

lemma earliest_by_min: "earliest_by key xs = Some x \<Longrightarrow> y \<in> set xs \<Longrightarrow> key x \<le> key y"
proof -
  assume a: "earliest_by key xs = Some x" and y: "y \<in> set xs"
  let ?ys = "sort_key key xs"
  have s: "sorted (map key ?ys)" by (rule sorted_sort_key)
  have m: "y \<in> set ?ys" using y by simp
  from a obtain zs where "?ys = x # zs"
    by (cases ?ys) (auto simp: earliest_by_def)
  with s m show ?thesis by auto
qed

subsection \<open>Error results\<close>

text \<open>A call that may raise returns \<open>Inl\<close> the error or \<open>Inr\<close> the value; \<open>bind_r\<close> is "and then".\<close>

definition bind_r :: "'e + 'a \<Rightarrow> ('a \<Rightarrow> 'e + 'b) \<Rightarrow> 'e + 'b" where
  "bind_r r f = (case r of Inl e \<Rightarrow> Inl e | Inr x \<Rightarrow> f x)"

lemma bind_r_simps [simp]:
  "bind_r (Inl e) f = Inl e"
  "bind_r (Inr x) f = f x"
  by (simp_all add: bind_r_def)

lemma bind_r_Inr: "bind_r r f = Inr y \<longleftrightarrow> (\<exists>x. r = Inr x \<and> f x = Inr y)"
  by (cases r) auto

lemma bind_r_Inl: "bind_r r f = Inl e \<longleftrightarrow> r = Inl e \<or> (\<exists>x. r = Inr x \<and> f x = Inl e)"
  by (cases r) auto

subsection \<open>State machines\<close>

text \<open>
  What several components of the platform are: a relation of steps that keeps an invariant. The
  law of the interface is the single step; its consequence is about any number of them.
\<close>

locale state_machine =
  fixes step :: "'s \<Rightarrow> 's \<Rightarrow> bool"
    and inv_ok :: "'s \<Rightarrow> bool"
  assumes step_inv: "inv_ok s \<Longrightarrow> step s s' \<Longrightarrow> inv_ok s'"
begin

lemma reachable_inv: "step\<^sup>*\<^sup>* s s' \<Longrightarrow> inv_ok s \<Longrightarrow> inv_ok s'"
  by (induction rule: rtranclp_induct) (auto intro: step_inv)

lemma reachable_mono:
  fixes f :: "'s \<Rightarrow> nat"
  assumes "\<And>s s'. inv_ok s \<Longrightarrow> step s s' \<Longrightarrow> f s \<le> f s'"
  shows "step\<^sup>*\<^sup>* s s' \<Longrightarrow> inv_ok s \<Longrightarrow> f s \<le> f s'"
proof (induction rule: rtranclp_induct)
  case (step t u)
  from reachable_inv [OF step.hyps(1) step.prems] assms [OF _ step.hyps(2)] step.IH [OF step.prems] show ?case by simp
qed simp

end

end
