(* ===== verification/Text.thy ===== *)
theory Text
  imports Prelude
begin

text \<open>
  The \<open>str\<close> operations of Python the services use, on strings of the characters U+0000 to
  U+00FF (HOL's \<^typ>\<open>string\<close>). \<open>isdigit\<close> answers true for the superscripts one, two and three
  as well as for the ten digits, as Python's does, and \<open>int\<close> refuses them: \<open>int_of\<close> is
  \<open>None\<close> where \<open>int\<close> raises \<open>ValueError\<close>. \<open>int_of\<close> is only asked about texts \<open>isdigit\<close>
  accepted, so signs, blanks and underscores do not arise. Letters outside ASCII are left
  alone by \<open>upper\<close>; the services only apply it to currency and country codes.
\<close>

definition ascii_digit :: "char \<Rightarrow> bool" where
  "ascii_digit c \<longleftrightarrow> 48 \<le> (of_char c :: nat) \<and> (of_char c :: nat) \<le> 57"

definition digit_char :: "char \<Rightarrow> bool" where
  "digit_char c \<longleftrightarrow> ascii_digit c \<or> (of_char c :: nat) \<in> {178, 179, 185}"

definition isdigit :: "string \<Rightarrow> bool" where
  "isdigit s \<longleftrightarrow> s \<noteq> [] \<and> list_all digit_char s"

definition digit_value :: "char \<Rightarrow> nat" where
  "digit_value c = of_char c - 48"

definition int_of :: "string \<Rightarrow> nat option" where
  "int_of s = (if s \<noteq> [] \<and> list_all ascii_digit s
     then Some (fold (\<lambda>c n. 10 * n + digit_value c) s 0) else None)"

definition show_digit :: "nat \<Rightarrow> char" where
  "show_digit d = char_of (48 + d)"

fun show_nat :: "nat \<Rightarrow> string" where
  "show_nat n = (if n < 10 then [show_digit n] else show_nat (n div 10) @ [show_digit (n mod 10)])"

declare show_nat.simps [simp del]

definition startswith :: "string \<Rightarrow> string \<Rightarrow> bool" where
  "startswith p s \<longleftrightarrow> take (length p) s = p"

text \<open>\<open>s.partition(sep)\<close> and \<open>s.rpartition(sep)\<close> for a separator of one character.\<close>

fun partition :: "char \<Rightarrow> string \<Rightarrow> string \<times> bool \<times> string" where
  "partition sep [] = ([], False, [])"
| "partition sep (c # s) = (if c = sep then ([], True, s)
     else let (a, f, b) = partition sep s in (c # a, f, b))"

definition rpartition :: "char \<Rightarrow> string \<Rightarrow> string \<times> bool \<times> string" where
  "rpartition sep s = (let (a, f, b) = partition sep (rev s)
     in if f then (rev b, True, rev a) else ([], False, s))"

definition whitespace :: "char \<Rightarrow> bool" where
  "whitespace c \<longleftrightarrow> (of_char c :: nat) \<in> {9, 10, 11, 12, 13, 28, 29, 30, 31, 32, 133, 160}"

definition strip :: "string \<Rightarrow> string" where
  "strip s = rev (dropWhile whitespace (rev (dropWhile whitespace s)))"

definition upper_char :: "char \<Rightarrow> char" where
  "upper_char c = (if 97 \<le> (of_char c :: nat) \<and> (of_char c :: nat) \<le> 122
     then char_of ((of_char c :: nat) - 32) else c)"

definition upper :: "string \<Rightarrow> string" where
  "upper = map upper_char"

definition lower_letter :: "char \<Rightarrow> bool" where
  "lower_letter c \<longleftrightarrow> 97 \<le> (of_char c :: nat) \<and> (of_char c :: nat) \<le> 122"

definition upper_letter :: "char \<Rightarrow> bool" where
  "upper_letter c \<longleftrightarrow> 65 \<le> (of_char c :: nat) \<and> (of_char c :: nat) \<le> 90"

definition lower_of :: "char \<Rightarrow> char" where
  "lower_of c = (if upper_letter c then char_of ((of_char c :: nat) + 32) else c)"

definition lower :: "string \<Rightarrow> string" where
  "lower = map lower_of"

text \<open>\<open>isalpha\<close>, with the letters of Latin-1.\<close>

definition alpha_char :: "char \<Rightarrow> bool" where
  "alpha_char c \<longleftrightarrow> lower_letter c \<or> upper_letter c \<or> (let n = (of_char c :: nat) in
     n = 170 \<or> n = 181 \<or> n = 186 \<or> 192 \<le> n \<and> n \<noteq> 215 \<and> n \<noteq> 247)"

definition isalpha :: "string \<Rightarrow> bool" where
  "isalpha s \<longleftrightarrow> s \<noteq> [] \<and> list_all alpha_char s"

text \<open>\<open>a or b\<close> of two strings: the empty string is false.\<close>

definition or_else :: "string \<Rightarrow> string \<Rightarrow> string" where
  "or_else a b = (if a = [] then b else a)"

text \<open>\<open>s.split(sep)\<close> for a separator of one character.\<close>

fun split_on :: "char \<Rightarrow> string \<Rightarrow> string list" where
  "split_on sep [] = [[]]"
| "split_on sep (c # s) = (if c = sep then [] # split_on sep s else (case split_on sep s of [] \<Rightarrow> [[c]] | w # ws \<Rightarrow> (c # w) # ws))"

text \<open>\<open>in\<close>, \<open>endswith\<close> and \<open>replace\<close> of one character.\<close>

fun contains :: "string \<Rightarrow> string \<Rightarrow> bool" where
  "contains p [] \<longleftrightarrow> p = []"
| "contains p (c # s) \<longleftrightarrow> startswith p (c # s) \<or> contains p s"

definition endswith :: "string \<Rightarrow> string \<Rightarrow> bool" where
  "endswith p s \<longleftrightarrow> startswith (rev p) (rev s)"

definition replace_char :: "char \<Rightarrow> char \<Rightarrow> string \<Rightarrow> string" where
  "replace_char a b s = map (\<lambda>c. if c = a then b else c) s"

subsection \<open>Numerals\<close>

lemma show_digit_simps [simp]:
  "show_digit 0 = CHR ''0''" "show_digit 1 = CHR ''1''" "show_digit (Suc 0) = CHR ''1''"
  "show_digit 2 = CHR ''2''" "show_digit 3 = CHR ''3''" "show_digit 4 = CHR ''4''"
  "show_digit 5 = CHR ''5''" "show_digit 6 = CHR ''6''" "show_digit 7 = CHR ''7''"
  "show_digit 8 = CHR ''8''" "show_digit 9 = CHR ''9''"
  by (simp_all add: show_digit_def char_of_def bit_iff_odd)

lemma show_nat_eval:
  "n < 10 \<Longrightarrow> show_nat n = [show_digit n]"
  "10 \<le> n \<Longrightarrow> show_nat n = show_nat (n div 10) @ [show_digit (n mod 10)]"
  by (subst show_nat.simps, simp)+

lemma of_char_show_digit: "d < 10 \<Longrightarrow> (of_char (show_digit d) :: nat) = 48 + d"
  by (simp add: show_digit_def)

lemma ascii_show_digit [simp]: "d < 10 \<Longrightarrow> ascii_digit (show_digit d)"
  by (simp add: ascii_digit_def of_char_show_digit)

lemma show_digit_value [simp]: "d < 10 \<Longrightarrow> digit_value (show_digit d) = d"
  by (simp add: digit_value_def of_char_show_digit)

lemma show_nat_nonempty [simp]: "show_nat n \<noteq> []"
  by (subst show_nat.simps) simp

lemma show_nat_ascii [simp]: "list_all ascii_digit (show_nat n)"
proof (induction n rule: show_nat.induct)
  case (1 n)
  then show ?case by (subst show_nat.simps) (cases "n < 10"; simp)
qed

lemma ascii_isdigit: "s \<noteq> [] \<Longrightarrow> list_all ascii_digit s \<Longrightarrow> isdigit s"
  unfolding isdigit_def digit_char_def list_all_iff by blast

lemma show_nat_isdigit [simp]: "isdigit (show_nat n)"
  by (simp add: ascii_isdigit)

lemma int_of_snoc: "list_all ascii_digit (s @ [c]) \<Longrightarrow> s \<noteq> [] \<Longrightarrow>
    int_of (s @ [c]) = map_option (\<lambda>n. 10 * n + digit_value c) (int_of s)"
  by (simp add: int_of_def)

lemma int_of_show_nat [simp]: "int_of (show_nat n) = Some n"
proof (induction n rule: show_nat.induct)
  case (1 n)
  show ?case
  proof (cases "n < 10")
    case True
    then have "show_nat n = [show_digit n]" by (subst show_nat.simps) simp
    with True show ?thesis by (simp add: int_of_def)
  next
    case False
    then have "show_nat n = show_nat (n div 10) @ [show_digit (n mod 10)]"
      by (subst show_nat.simps) simp
    with 1 False show ?thesis by (simp add: int_of_snoc)
  qed
qed

lemma show_nat_inject [simp]: "show_nat m = show_nat n \<longleftrightarrow> m = n"
  by (metis int_of_show_nat option.inject)

text \<open>A character that is no digit does not occur in a numeral.\<close>

lemma show_nat_no: "\<not> ascii_digit c \<Longrightarrow> c \<notin> set (show_nat n)"
  using show_nat_ascii [of n] by (auto simp: list_all_iff)

lemma minus_no_digit [simp]: "\<not> ascii_digit CHR ''-''" "CHR ''-'' \<notin> set (show_nat n)"
proof -
  show "\<not> ascii_digit CHR ''-''" by (simp add: ascii_digit_def)
  then show "CHR ''-'' \<notin> set (show_nat n)" by (rule show_nat_no)
qed

subsection \<open>Splitting\<close>

lemma partition_append: "sep \<notin> set a \<Longrightarrow> partition sep (a @ sep # b) = (a, True, b)"
  by (induction a) auto

lemma partition_none: "sep \<notin> set a \<Longrightarrow> partition sep a = (a, False, [])"
  by (induction a) auto

lemma partition_SomeD: "partition sep s = (a, True, b) \<Longrightarrow> s = a @ sep # b \<and> sep \<notin> set a"
  by (induction s arbitrary: a) (auto split: if_splits prod.splits)

lemma rpartition_append: "sep \<notin> set b \<Longrightarrow> rpartition sep (a @ sep # b) = (a, True, b)"
  using partition_append [of sep "rev b" "rev a"] by (simp add: rpartition_def)

lemma rpartition_SomeD: "rpartition sep s = (a, True, b) \<Longrightarrow> s = a @ sep # b \<and> sep \<notin> set b"
  by (auto simp: rpartition_def Let_def split: prod.splits if_splits dest!: partition_SomeD)
    (metis append.assoc append_Cons append_Nil rev.simps(2) rev_append rev_rev_ident)

lemma startswith_append [simp]: "startswith p (p @ s)"
  by (simp add: startswith_def)

lemma startswith_iff: "startswith p s \<longleftrightarrow> (\<exists>t. s = p @ t)"
  unfolding startswith_def by (metis append_eq_conv_conj append_take_drop_id)

subsection \<open>Stripping and upper case\<close>

lemma upper_char_code:
  assumes "97 \<le> (of_char c :: nat)" "(of_char c :: nat) \<le> 122"
  shows "of_char (upper_char c) = (of_char c :: nat) - 32" "65 \<le> (of_char c :: nat) - 32"
    "(of_char c :: nat) - 32 \<le> 90"
proof -
  obtain n where n: "n = (of_char c :: nat)" by simp
  show "65 \<le> (of_char c :: nat) - 32" "(of_char c :: nat) - 32 \<le> 90" using assms unfolding n [symmetric] by auto
  then have "((of_char c :: nat) - 32) mod 256 = of_char c - 32" by simp
  then show "of_char (upper_char c) = (of_char c :: nat) - 32" using assms by (simp add: upper_char_def)
qed

lemma upper_char_whitespace [simp]: "whitespace (upper_char c) = whitespace c"
proof (cases "97 \<le> (of_char c :: nat) \<and> (of_char c :: nat) \<le> 122")
  case True
  then show ?thesis using upper_char_code [of c] by (auto simp: whitespace_def)
next
  case False
  then have "upper_char c = c" by (auto simp: upper_char_def)
  then show ?thesis by simp
qed

lemma upper_char_idem [simp]: "upper_char (upper_char c) = upper_char c"
proof (cases "97 \<le> (of_char c :: nat) \<and> (of_char c :: nat) \<le> 122")
  case True
  then show ?thesis using upper_char_code [of c] unfolding upper_char_def [of "upper_char c"] by simp
next
  case False
  then have "upper_char c = c" by (auto simp: upper_char_def)
  then show ?thesis by simp
qed

lemma strip_upper: "strip (upper s) = upper (strip s)"
  by (simp add: strip_def upper_def dropWhile_map rev_map comp_def)

lemma dropWhile_idem: "dropWhile P (dropWhile P xs) = dropWhile P xs"
  by (induction xs) auto

lemma dropWhile_rev_keep:
  assumes "dropWhile P xs = xs" shows "dropWhile P (rev (dropWhile P (rev xs))) = rev (dropWhile P (rev xs))"
proof (cases xs)
  case (Cons a ys)
  with assms have "\<not> P a" by (metis dropWhile.simps(2) impossible_Cons length_dropWhile_le)
  with Cons show ?thesis by (cases "\<forall>x \<in> set ys. P x") (auto simp: dropWhile_append)
qed simp

lemma strip_idem [simp]: "strip (strip s) = strip s"
  by (simp add: strip_def dropWhile_rev_keep dropWhile_idem)

end
