(* ===== verification/Decimals.thy ===== *)
theory Decimals
  imports Prelude
begin

text \<open>
  Python's \<open>decimal.Decimal\<close> as rational numbers. Sums, differences and products of the values
  the columns hold stay far below the 28 significant digits of Python's default context, so
  they are exact there as they are here; only \<open>quantize\<close> rounds, and it is written out for
  the two modes the services use. A quotient that does not terminate is rounded by Python at
  its 28th digit and is exact here; every such quotient is quantised to eight places or fewer
  before it is stored.

  The contract of a rounding mode is the locale \<open>rounding\<close>; both modes are interpretations.
\<close>

text \<open>
  What \<open>Decimal(str(value))\<close> makes of a value somebody entered: an exception for one that is no
  number, an infinity, or a number.
\<close>

datatype number = Not_A_Number | Not_Finite | Number rat

subsection \<open>The two rounding modes\<close>

text \<open>\<open>ROUND_HALF_UP\<close> rounds a half away from zero.\<close>

definition round_half_up :: "rat \<Rightarrow> int" where
  "round_half_up x = (if 0 \<le> x then \<lfloor>x + 1/2\<rfloor> else - \<lfloor>1/2 - x\<rfloor>)"

text \<open>\<open>ROUND_HALF_EVEN\<close>, the mode of \<open>quantize\<close> when none is named.\<close>

definition round_half_even :: "rat \<Rightarrow> int" where
  "round_half_even x = (let f = \<lfloor>x\<rfloor>; d = x - of_int f in
     if d < 1/2 then f else if 1/2 < d then f + 1 else if even f then f else f + 1)"

definition quantize_half_up :: "nat \<Rightarrow> rat \<Rightarrow> rat" where
  "quantize_half_up places x = of_int (round_half_up (x * 10 ^ places)) / 10 ^ places"

definition quantize_half_even :: "nat \<Rightarrow> rat \<Rightarrow> rat" where
  "quantize_half_even places x = of_int (round_half_even (x * 10 ^ places)) / 10 ^ places"

text \<open>A number written with at most \<open>places\<close> decimal places.\<close>

definition on_grid :: "nat \<Rightarrow> rat \<Rightarrow> bool" where
  "on_grid places x \<longleftrightarrow> of_int \<lfloor>x * 10 ^ places\<rfloor> = x * 10 ^ places"

subsection \<open>Evaluating floors of numerals\<close>

lemma floor_rat_numeral [simp]:
  "\<lfloor>(numeral a :: rat) / numeral b\<rfloor> = numeral a div numeral b"
  "\<lfloor>(1 :: rat) / numeral b\<rfloor> = 1 div numeral b"
  "\<lfloor>- ((numeral a :: rat) / numeral b)\<rfloor> = - numeral a div numeral b"
  "\<lfloor>- ((1 :: rat) / numeral b)\<rfloor> = - 1 div numeral b"
  using floor_divide_of_int_eq [of "numeral a" "numeral b", where 'a = rat]
    floor_divide_of_int_eq [of 1 "numeral b", where 'a = rat]
    floor_divide_of_int_eq [of "- numeral a" "numeral b", where 'a = rat]
    floor_divide_of_int_eq [of "- 1" "numeral b", where 'a = rat]
  by simp_all

subsection \<open>Rounding an exact multiple, error and monotonicity\<close>

lemma round_half_up_int [simp]: "round_half_up (of_int n) = n"
proof (cases "0 \<le> n")
  case True
  then show ?thesis by (simp add: round_half_up_def floor_unique)
next
  case False
  then show ?thesis by (auto simp: round_half_up_def intro!: floor_unique)
qed

lemma round_half_even_int [simp]: "round_half_even (of_int n) = n"
  by (simp add: round_half_even_def)

lemma half_step: "a \<le> x + 1/2 \<Longrightarrow> x + 1/2 < a + 1 \<Longrightarrow> 2 * \<bar>a - x\<bar> \<le> 1" for a x :: rat
  by (cases "0 \<le> a - x") simp_all

lemma round_half_up_err: "2 * \<bar>of_int (round_half_up x) - x\<bar> \<le> 1"
proof (cases "0 \<le> x")
  case True
  have "of_int \<lfloor>x + 1/2\<rfloor> \<le> x + 1/2" "x + 1/2 < of_int \<lfloor>x + 1/2\<rfloor> + 1"
    using floor_correct [of "x + 1/2"] by (simp_all only: of_int_add of_int_1)
  then have "2 * \<bar>of_int \<lfloor>x + 1/2\<rfloor> - x\<bar> \<le> 1" by (rule half_step)
  with True show ?thesis by (simp only: round_half_up_def if_True)
next
  case False
  have "of_int \<lfloor>1/2 - x\<rfloor> \<le> 1/2 - x" "1/2 - x < of_int \<lfloor>1/2 - x\<rfloor> + 1"
    using floor_correct [of "1/2 - x"] by (simp_all only: of_int_add of_int_1)
  then have "2 * \<bar>of_int \<lfloor>1/2 - x\<rfloor> - - x\<bar> \<le> 1" by (intro half_step) simp_all
  moreover have "\<bar>of_int (- \<lfloor>1/2 - x\<rfloor>) - x\<bar> = \<bar>of_int \<lfloor>1/2 - x\<rfloor> - - x\<bar>"
    unfolding of_int_minus by linarith
  ultimately have "2 * \<bar>of_int (- \<lfloor>1/2 - x\<rfloor>) - x\<bar> \<le> 1" by simp
  with False show ?thesis by (simp only: round_half_up_def if_False)
qed

lemma round_half_even_err: "2 * \<bar>of_int (round_half_even x) - x\<bar> \<le> 1"
  using floor_correct [of x] by (auto simp: round_half_even_def Let_def abs_le_iff)

lemma round_half_up_mono: "x \<le> y \<Longrightarrow> round_half_up x \<le> round_half_up y"
proof -
  assume xy: "x \<le> y"
  consider "0 \<le> x" | "x < 0" "0 \<le> y" | "y < 0" using xy by linarith
  then show ?thesis
  proof cases
    case 1
    with xy show ?thesis by (simp add: round_half_up_def floor_mono)
  next
    case 2
    have "0 \<le> \<lfloor>1/2 - x\<rfloor>" "0 \<le> \<lfloor>y + 1/2\<rfloor>" using 2 by simp_all
    then have "- \<lfloor>1/2 - x\<rfloor> \<le> \<lfloor>y + 1/2\<rfloor>" by linarith
    with 2 show ?thesis by (simp only: round_half_up_def if_True if_False not_le [symmetric])
  next
    case 3
    have "\<lfloor>1/2 - y\<rfloor> \<le> \<lfloor>1/2 - x\<rfloor>" using xy by (intro floor_mono) simp
    with 3 xy show ?thesis by (simp add: round_half_up_def)
  qed
qed

lemma round_half_even_mono: "x \<le> y \<Longrightarrow> round_half_even x \<le> round_half_even y"
proof -
  assume xy: "x \<le> y"
  then have f: "\<lfloor>x\<rfloor> \<le> \<lfloor>y\<rfloor>" by (rule floor_mono)
  show ?thesis
  proof (cases "\<lfloor>x\<rfloor> = \<lfloor>y\<rfloor>")
    case True
    with xy show ?thesis by (auto simp: round_half_even_def Let_def)
  next
    case False
    with f have "\<lfloor>x\<rfloor> + 1 \<le> \<lfloor>y\<rfloor>" by simp
    then show ?thesis by (auto simp: round_half_even_def Let_def)
  qed
qed

subsection \<open>The contract of a rounding mode\<close>

locale rounding =
  fixes rnd :: "rat \<Rightarrow> int"
    and q :: "nat \<Rightarrow> rat \<Rightarrow> rat"
  assumes q_rnd: "q p x = of_int (rnd (x * 10 ^ p)) / 10 ^ p"
    and rnd_int: "rnd (of_int n) = n"
    and rnd_err: "2 * \<bar>of_int (rnd x) - x\<bar> \<le> 1"
    and rnd_mono: "x \<le> y \<Longrightarrow> rnd x \<le> rnd y"
begin

lemma q_exact: "on_grid p x \<Longrightarrow> q p x = x"
proof -
  assume "on_grid p x"
  then obtain n where n: "x * 10 ^ p = of_int n" by (metis on_grid_def)
  then have "x = of_int n / 10 ^ p" by (simp add: field_simps)
  with n show ?thesis by (simp add: q_rnd rnd_int)
qed

lemma q_on_grid: "on_grid p (q p x)"
  by (simp add: on_grid_def q_rnd)

lemma q_idem: "q p (q p x) = q p x"
  by (rule q_exact) (rule q_on_grid)

lemma q_zero [simp]: "q p 0 = 0"
  using rnd_int [of 0] by (simp add: q_rnd)

lemma q_mono: "x \<le> y \<Longrightarrow> q p x \<le> q p y"
  by (simp add: q_rnd divide_right_mono rnd_mono)

lemma q_nonneg: "0 \<le> x \<Longrightarrow> 0 \<le> q p x"
  using q_mono [of 0 x p] by simp

lemma q_nonpos: "x \<le> 0 \<Longrightarrow> q p x \<le> 0"
  using q_mono [of x 0 p] by simp

lemma q_err: "\<bar>q p x - x\<bar> \<le> 1 / (2 * 10 ^ p)"
proof -
  have "q p x - x = (of_int (rnd (x * 10 ^ p)) - x * 10 ^ p) / 10 ^ p"
    by (simp add: q_rnd field_simps)
  then have "\<bar>q p x - x\<bar> = \<bar>of_int (rnd (x * 10 ^ p)) - x * 10 ^ p\<bar> / 10 ^ p"
    by (simp add: abs_divide)
  also have "\<dots> \<le> (1/2) / 10 ^ p"
    using rnd_err [of "x * 10 ^ p"] by (intro divide_right_mono) simp_all
  finally show ?thesis by simp
qed

text \<open>Rounding every line of a list moves the total by at most half a step per line.\<close>

lemma q_sum_err: "\<bar>(\<Sum>x\<leftarrow>xs. q p x) - sum_list xs\<bar> \<le> of_nat (length xs) / (2 * 10 ^ p)"
proof (induction xs)
  case Nil
  then show ?case by simp
next
  case (Cons x xs)
  have "\<bar>(\<Sum>y\<leftarrow>x # xs. q p y) - sum_list (x # xs)\<bar>
      \<le> \<bar>q p x - x\<bar> + \<bar>(\<Sum>y\<leftarrow>xs. q p y) - sum_list xs\<bar>"
    by simp
  also have "\<dots> \<le> 1 / (2 * 10 ^ p) + of_nat (length xs) / (2 * 10 ^ p)"
    by (intro add_mono q_err Cons.IH)
  finally show ?case by (simp add: add_divide_distrib)
qed

end

interpretation half_up: rounding round_half_up quantize_half_up
  by unfold_locales
    (simp_all add: quantize_half_up_def round_half_up_err round_half_up_mono)

interpretation half_even: rounding round_half_even quantize_half_even
  by unfold_locales
    (simp_all add: quantize_half_even_def round_half_even_err round_half_even_mono)

lemma on_grid_add: "on_grid p x \<Longrightarrow> on_grid p y \<Longrightarrow> on_grid p (x + y)"
  by (simp add: on_grid_def distrib_right) (metis floor_of_int of_int_add)

lemma on_grid_uminus: "on_grid p x \<Longrightarrow> on_grid p (- x)"
  by (simp add: on_grid_def) (metis floor_of_int of_int_minus)

lemma on_grid_zero [simp]: "on_grid p 0"
  by (simp add: on_grid_def)

lemma on_grid_min: "on_grid p x \<Longrightarrow> on_grid p y \<Longrightarrow> on_grid p (min x y)"
  by (simp add: min_def)

lemma on_grid_sum_list: "(\<And>x. x \<in> set xs \<Longrightarrow> on_grid p x) \<Longrightarrow> on_grid p (sum_list xs)"
  by (induction xs) (simp_all add: on_grid_add)

text \<open>A half is rounded away from zero by the first mode and to the even neighbour by the second.\<close>

lemma quantize_half_up_examples:
  "quantize_half_up 2 (1005/1000) = 101/100"
  "quantize_half_up 2 (- 1005/1000) = - 101/100"
  "quantize_half_even 2 (1005/1000) = 1"
  by (simp_all add: quantize_half_up_def quantize_half_even_def round_half_up_def
      round_half_even_def Let_def)

end
