(* ===== verification/Calendar.thy ===== *)
theory Calendar
  imports Prelude
begin

text \<open>
  Python's \<open>datetime\<close> as the services use it. A date is its proleptic Gregorian ordinal
  (\<open>date.toordinal\<close>), an aware moment is the number of microseconds since midnight UTC of
  day 0; a \<open>timedelta\<close> is a difference of either. Comparison, addition and
  subtraction are then those of the integers. The year, month and day of a date are computed
  by the divisions \<open>datetime.fromordinal\<close> makes, and proved to be inverse to \<open>ordinal\<close>.
  Python refuses years outside 1 to 9999; the calendar here has no ends, and no definition
  of the development depends on reaching one.
\<close>

type_synonym date = int
type_synonym moment = int

subsection \<open>Ordinals\<close>

definition is_leap :: "int \<Rightarrow> bool" where
  "is_leap y \<longleftrightarrow> y mod 4 = 0 \<and> (y mod 100 \<noteq> 0 \<or> y mod 400 = 0)"

definition leap_day :: "int \<Rightarrow> int" where
  "leap_day y = (if is_leap y then 1 else 0)"

definition days_before_year :: "int \<Rightarrow> int" where
  "days_before_year y = (let k = y - 1 in k * 365 + k div 4 - k div 100 + k div 400)"

definition days_in_month :: "int \<Rightarrow> int \<Rightarrow> int" where
  "days_in_month y m = (if m = 2 then 28 + leap_day y
     else if m = 4 \<or> m = 6 \<or> m = 9 \<or> m = 11 then 30 else 31)"

definition days_before_month :: "int \<Rightarrow> int \<Rightarrow> int" where
  "days_before_month y m = (let l = leap_day y in
     if m \<le> 1 then 0 else if m = 2 then 31 else if m = 3 then 59 + l else if m = 4 then 90 + l
     else if m = 5 then 120 + l else if m = 6 then 151 + l else if m = 7 then 181 + l
     else if m = 8 then 212 + l else if m = 9 then 243 + l else if m = 10 then 273 + l
     else if m = 11 then 304 + l else 334 + l)"

definition valid_ymd :: "int \<Rightarrow> int \<Rightarrow> int \<Rightarrow> bool" where
  "valid_ymd y m d \<longleftrightarrow> 1 \<le> m \<and> m \<le> 12 \<and> 1 \<le> d \<and> d \<le> days_in_month y m"

definition ordinal :: "int \<Rightarrow> int \<Rightarrow> int \<Rightarrow> date" where
  "ordinal y m d = days_before_year y + days_before_month y m + d"

text \<open>The year and the zero-based day of the year of an ordinal, by 400, 100, 4 and 1 years.\<close>

definition year_day :: "date \<Rightarrow> int \<times> int" where
  "year_day n = (let k = n - 1; n400 = k div 146097; k = k mod 146097;
      n100 = k div 36524; k = k mod 36524; n4 = k div 1461; k = k mod 1461;
      n1 = k div 365; k = k mod 365; y = n400 * 400 + n100 * 100 + n4 * 4 + n1 + 1
    in if n1 = 4 \<or> n100 = 4 then (y - 1, 365) else (y, k))"

definition month_of_day :: "int \<Rightarrow> int \<Rightarrow> int" where
  "month_of_day y k = (let l = leap_day y in
     if k < 31 then 1 else if k < 59 + l then 2 else if k < 90 + l then 3
     else if k < 120 + l then 4 else if k < 151 + l then 5 else if k < 181 + l then 6
     else if k < 212 + l then 7 else if k < 243 + l then 8 else if k < 273 + l then 9
     else if k < 304 + l then 10 else if k < 334 + l then 11 else 12)"

definition civil :: "date \<Rightarrow> int \<times> int \<times> int" where
  "civil n = (let (y, k) = year_day n; m = month_of_day y k
     in (y, m, k - days_before_month y m + 1))"

subsection \<open>The two directions are inverse\<close>

lemma leap_day_cases: "leap_day y = 0 \<or> leap_day y = 1"
  by (simp add: leap_day_def)

lemma div_mod_unique:
  fixes k q c r :: int
  assumes "k = q * c + r" "0 \<le> r" "r < c"
  shows "k div c = q" "k mod c = r"
  using assms by (simp_all add: div_pos_pos_trivial mod_pos_pos_trivial)

lemma div_step: "(y::int) div c = (y - 1) div c + (if y mod c = 0 then 1 else 0)" if c: "0 < c"
proof -
  define q r where "q = (y - 1) div c" and "r = (y - 1) mod c"
  have y: "y = q * c + (r + 1)" using div_mult_mod_eq [of "y - 1" c] by (simp add: q_def r_def)
  have r: "0 \<le> r" "r < c" using c by (simp_all add: r_def)
  show ?thesis
  proof (cases "r + 1 = c")
    case True
    with y have yc: "y = (q + 1) * c" by (simp add: distrib_right)
    have "y div c = q + 1" "y mod c = 0" using c unfolding yc by simp_all
    then show ?thesis by (simp add: q_def)
  next
    case False
    with r have s: "0 \<le> r + 1" "r + 1 < c" by auto
    then have "y div c = q" "y mod c = r + 1"
      using c unfolding y by (simp_all add: div_pos_pos_trivial mod_pos_pos_trivial)
    with r show ?thesis by (simp add: q_def)
  qed
qed

lemma leap_day_steps:
  "leap_day y = (if y mod 4 = 0 then 1 else 0) - (if y mod 100 = 0 then 1 else 0)
     + (if y mod 400 = 0 then 1 else 0)"
proof -
  have "100 dvd y \<Longrightarrow> 4 dvd y" "400 dvd y \<Longrightarrow> 100 dvd y"
    using dvd_trans [of 4 100 y] dvd_trans [of 100 400 y] by simp_all
  then show ?thesis
    unfolding leap_day_def is_leap_def dvd_eq_mod_eq_0 [symmetric]
    by (cases "4 dvd y"; cases "100 dvd y"; cases "400 dvd y") simp_all
qed

lemma days_before_year_Suc: "days_before_year (y + 1) = days_before_year y + 365 + leap_day y"
proof -
  have sum: "\<lbrakk>a = a' + x; b = b' + z; c = c' + w\<rbrakk>
      \<Longrightarrow> (y + 1 - 1) * 365 + a - b + c = (y - 1) * 365 + a' - b' + c' + 365 + (x - z + w)"
    for a a' b b' c c' x z w :: int by simp
  have "y div 4 = (y - 1) div 4 + (if y mod 4 = 0 then 1 else 0)"
    and "y div 100 = (y - 1) div 100 + (if y mod 100 = 0 then 1 else 0)"
    and "y div 400 = (y - 1) div 400 + (if y mod 400 = 0 then 1 else 0)"
    by (rule div_step, simp)+
  from sum [OF this] show ?thesis
    unfolding days_before_year_def Let_def leap_day_steps by (simp only: add_diff_cancel_right')
qed

lemma days_before_year_parts:
  assumes "0 \<le> c" "c \<le> 3" "0 \<le> q" "q \<le> 24" "0 \<le> t" "t \<le> 3"
  shows "days_before_year (a * 400 + c * 100 + q * 4 + t + 1)
    = 146097 * a + 36524 * c + 1461 * q + 365 * t"
proof -
  let ?k = "a * 400 + c * 100 + q * 4 + t"
  have "?k = (100 * a + 25 * c + q) * 4 + t" "?k = (4 * a + c) * 100 + (q * 4 + t)"
    "?k = a * 400 + (c * 100 + q * 4 + t)" by simp_all
  moreover have "x * 4 + t = k \<Longrightarrow> k div 4 = x" "x * 100 + (q * 4 + t) = k \<Longrightarrow> k div 100 = x"
    "x * 400 + (c * 100 + q * 4 + t) = k \<Longrightarrow> k div 400 = x" for x k
    using assms by (auto simp: div_pos_pos_trivial)
  ultimately have "?k div 4 = 100 * a + 25 * c + q" "?k div 100 = 4 * a + c" "?k div 400 = a"
    by metis+
  then show ?thesis
    unfolding days_before_year_def Let_def add_diff_cancel_right' by simp
qed

lemma leap_day_multiples:
  "leap_day (b * 400) = 1"
  "0 \<le> q \<Longrightarrow> q \<le> 23 \<Longrightarrow> leap_day (a * 400 + c * 100 + q * 4 + 4) = 1"
proof -
  have "b * 400 mod 4 = 0" using mod_mod_cancel [of 4 400 "b * 400"] by simp
  then show "leap_day (b * 400) = 1" by (simp add: leap_day_def is_leap_def)
  assume q: "0 \<le> q" "q \<le> 23"
  let ?y = "a * 400 + c * 100 + q * 4 + 4"
  have "?y = (a * 100 + c * 25 + q + 1) * 4" "?y = (a * 4 + c) * 100 + (q * 4 + 4)" by simp_all
  moreover have "x * 4 = k \<Longrightarrow> k mod 4 = 0" "x * 100 + (q * 4 + 4) = k \<Longrightarrow> k mod 100 = q * 4 + 4"
    for x k :: int using q by (auto simp: mod_pos_pos_trivial)
  ultimately have "?y mod 4 = 0" "?y mod 100 = q * 4 + 4" by metis+
  then show "leap_day ?y = 1" using q by (simp add: leap_day_def is_leap_def)
qed

lemma year_day_sound:
  assumes "year_day n = (y, k)"
  shows "n - 1 = days_before_year y + k \<and> 0 \<le> k \<and> k < 365 + leap_day y"
proof -
  define a r where "a = (n - 1) div 146097" and "r = (n - 1) mod 146097"
  define c r2 where "c = r div 36524" and "r2 = r mod 36524"
  define q r3 where "q = r2 div 1461" and "r3 = r2 mod 1461"
  define t r4 where "t = r3 div 365" and "r4 = r3 mod 365"
  have n: "n - 1 = 146097 * a + r" "r = 36524 * c + r2" "r2 = 1461 * q + r3" "r3 = 365 * t + r4"
    by (simp_all only: a_def r_def c_def r2_def q_def r3_def t_def r4_def mult_div_mod_eq)
  have b: "0 \<le> r" "r < 146097" "0 \<le> r2" "r2 < 36524" "0 \<le> r3" "r3 < 1461" "0 \<le> r4" "r4 < 365"
    unfolding r_def r2_def r3_def r4_def by (simp_all only: pos_mod_sign pos_mod_bound zero_less_numeral)
  have p: "0 \<le> c" "c \<le> 4" "0 \<le> q" "q \<le> 24" "0 \<le> t" "t \<le> 4" using n b by linarith+
  let ?y = "a * 400 + c * 100 + q * 4 + t + 1"
  have yk: "(y, k) = (if t = 4 \<or> c = 4 then (?y - 1, 365) else (?y, r4))"
    unfolding assms [symmetric] year_day_def Let_def a_def r_def c_def r2_def q_def r3_def t_def r4_def
    by (rule refl)
  consider "c = 4" | "c \<le> 3" "t = 4" | "c \<le> 3" "t \<le> 3" using p by linarith
  then show ?thesis
  proof cases
    case 1
    with n b p have z: "q = 0" "t = 0" "r4 = 0" by linarith+
    with 1 yk have y: "y = (a + 1) * 400" "k = 365" by simp_all
    have "days_before_year (y + 1) = 146097 * (a + 1)"
      using days_before_year_parts [of 0 0 0 "a + 1"] by (simp add: y)
    then have "days_before_year y = 146097 * a + 145731"
      using days_before_year_Suc [of y] leap_day_multiples(1) [of "a + 1"] y by simp
    with n b 1 z y show ?thesis using leap_day_multiples(1) [of "a + 1"] by simp
  next
    case 2
    with n b p have z: "r4 = 0" "q \<le> 23" by linarith+
    from 2 yk have y: "y = a * 400 + c * 100 + q * 4 + 4" "k = 365" by simp_all
    have "days_before_year y = 146097 * a + 36524 * c + 1461 * q + 1095"
      using days_before_year_parts [of c q 3 a] 2 p by (simp add: y ac_simps)
    with n z y 2 show ?thesis using leap_day_multiples(2) [of q a c] p by simp
  next
    case 3
    from 3 yk have y: "y = ?y" "k = r4" by simp_all
    have "days_before_year y = 146097 * a + 36524 * c + 1461 * q + 365 * t"
      unfolding y using days_before_year_parts [of c q t a] 3 p by simp
    with n b y show ?thesis using leap_day_cases [of y] by auto
  qed
qed

lemma month_of_day_sound:
  assumes "0 \<le> k" "k < 365 + leap_day y"
  defines "m \<equiv> month_of_day y k"
  shows "1 \<le> m \<and> m \<le> 12 \<and> days_before_month y m \<le> k \<and> k < days_before_month y m + days_in_month y m"
  using assms(1,2) leap_day_cases [of y]
  by (auto simp: m_def month_of_day_def days_before_month_def days_in_month_def Let_def)

lemma civil_sound:
  assumes "civil n = (y, m, d)"
  shows "valid_ymd y m d \<and> ordinal y m d = n"
proof -
  obtain k where k: "year_day n = (y, k)" and m: "m = month_of_day y k"
    and d: "d = k - days_before_month y m + 1"
    using assms by (auto simp: civil_def Let_def split: prod.splits)
  from year_day_sound [OF k] have s: "n - 1 = days_before_year y + k" "0 \<le> k" "k < 365 + leap_day y"
    by simp_all
  from month_of_day_sound [OF s(2,3)] s(1) m d show ?thesis
    by (simp add: valid_ymd_def ordinal_def)
qed

lemma days_before_year_mono: "y < z \<Longrightarrow> days_before_year (y + 1) \<le> days_before_year z"
proof -
  assume "y < z"
  then have "y + 1 \<le> z" by simp
  then show ?thesis
  proof (induction z rule: int_ge_induct)
    case base
    then show ?case by simp
  next
    case (step i)
    then show ?case using days_before_year_Suc [of i] leap_day_cases [of i] by auto
  qed
qed

lemma days_before_month_Suc:
  "1 \<le> m \<Longrightarrow> m < 12 \<Longrightarrow> days_before_month y (m + 1) = days_before_month y m + days_in_month y m"
proof -
  assume m: "1 \<le> m" "m < 12"
  then have "m = 1 \<or> m = 2 \<or> m = 3 \<or> m = 4 \<or> m = 5 \<or> m = 6 \<or> m = 7 \<or> m = 8 \<or> m = 9
    \<or> m = 10 \<or> m = 11" by arith
  then show ?thesis
    by (elim disjE) (simp_all add: days_before_month_def days_in_month_def Let_def)
qed

lemma days_in_month_range: "28 \<le> days_in_month y m" "days_in_month y m \<le> 31"
  using leap_day_cases [of y] by (auto simp: days_in_month_def)

lemma days_before_month_mono:
  assumes "1 \<le> m" "m < m'" "m' \<le> 12"
  shows "days_before_month y m + days_in_month y m \<le> days_before_month y m'"
proof -
  from assms(2) have "m + 1 \<le> m'" by simp
  then have "m' \<le> 12 \<longrightarrow> ?thesis"
  proof (induction m' rule: int_ge_induct)
    case base
    then show ?case using assms(1) days_before_month_Suc [of m y] by simp
  next
    case (step i)
    then show ?case
      using assms(1) days_before_month_Suc [of i y] days_in_month_range(1) [of y i] by linarith
  qed
  with assms(3) show ?thesis by simp
qed

lemma day_of_year_bounds:
  assumes "valid_ymd y m d"
  shows "1 \<le> days_before_month y m + d \<and> days_before_month y m + d \<le> 365 + leap_day y"
proof -
  have m: "1 \<le> m" "m \<le> 12" and d: "1 \<le> d" "d \<le> days_in_month y m"
    using assms by (simp_all add: valid_ymd_def)
  have "days_before_month y 12 = 334 + leap_day y" "days_in_month y 12 = 31" "days_before_month y 1 = 0"
    by (simp_all add: days_before_month_def days_in_month_def Let_def)
  moreover have "m = 12 \<or> days_before_month y m + days_in_month y m \<le> days_before_month y 12"
    using days_before_month_mono [of m 12 y] m by linarith
  moreover have "m = 1 \<or> days_before_month y 1 \<le> days_before_month y m"
    using days_before_month_mono [of 1 m y] days_in_month_range(1) [of y 1] m by linarith
  ultimately show ?thesis using d by auto
qed

text \<open>Dates are ordered as their years, then their months, then their days.\<close>

lemma ordinal_less:
  assumes "valid_ymd y m d" "valid_ymd y' m' d'"
    and "y < y' \<or> y = y' \<and> (m < m' \<or> m = m' \<and> d < d')"
  shows "ordinal y m d < ordinal y' m' d'"
proof -
  consider "y < y'" | "y = y'" "m < m'" | "y = y'" "m = m'" "d < d'" using assms(3) by blast
  then show ?thesis
  proof cases
    case 1
    then show ?thesis
      using days_before_year_mono [OF 1] days_before_year_Suc [of y]
        day_of_year_bounds [OF assms(1)] day_of_year_bounds [OF assms(2)]
      by (simp add: ordinal_def)
  next
    case 2
    then show ?thesis
      using days_before_month_mono [of m m' y] assms(1,2) by (simp add: ordinal_def valid_ymd_def)
  next
    case 3
    then show ?thesis by (simp add: ordinal_def)
  qed
qed

lemma ordinal_inject:
  assumes "valid_ymd y m d" "valid_ymd y' m' d'" "ordinal y m d = ordinal y' m' d'"
  shows "y = y' \<and> m = m' \<and> d = d'"
  using ordinal_less [OF assms(1,2)] ordinal_less [OF assms(2,1)] assms(3) by force

lemma civil_ordinal [simp]: "valid_ymd y m d \<Longrightarrow> civil (ordinal y m d) = (y, m, d)"
proof -
  assume v: "valid_ymd y m d"
  obtain y' m' d' where c: "civil (ordinal y m d) = (y', m', d')" by (metis prod_cases3)
  with civil_sound [OF c] v show ?thesis using ordinal_inject [of y' m' d' y m d] by simp
qed

subsection \<open>Months\<close>

definition year_of :: "date \<Rightarrow> int" where "year_of n = fst (civil n)"
definition month_of :: "date \<Rightarrow> int" where "month_of n = fst (snd (civil n))"
definition day_of_month :: "date \<Rightarrow> int" where "day_of_month n = snd (snd (civil n))"

text \<open>\<open>day.replace(day=1)\<close>.\<close>

definition first_of_month :: "date \<Rightarrow> date" where
  "first_of_month n = ordinal (year_of n) (month_of n) 1"

text \<open>Months counted from year 0, which orders the months of all years.\<close>

definition month_index :: "date \<Rightarrow> int" where
  "month_index n = year_of n * 12 + (month_of n - 1)"

definition first_of_index :: "int \<Rightarrow> date" where
  "first_of_index i = ordinal (i div 12) (i mod 12 + 1) 1"

lemma civil_parts: "valid_ymd (year_of n) (month_of n) (day_of_month n)"
  "ordinal (year_of n) (month_of n) (day_of_month n) = n"
proof -
  obtain y m d where c: "civil n = (y, m, d)" by (metis prod_cases3)
  then show "valid_ymd (year_of n) (month_of n) (day_of_month n)"
    "ordinal (year_of n) (month_of n) (day_of_month n) = n"
    using civil_sound [OF c] by (simp_all add: year_of_def month_of_def day_of_month_def)
qed

lemma parts_ordinal [simp]:
  assumes "valid_ymd y m d"
  shows "year_of (ordinal y m d) = y" "month_of (ordinal y m d) = m" "day_of_month (ordinal y m d) = d"
  using civil_ordinal [OF assms] by (simp_all add: year_of_def month_of_def day_of_month_def)

lemma valid_day_1: "1 \<le> m \<Longrightarrow> m \<le> 12 \<Longrightarrow> valid_ymd y m 1"
  using leap_day_cases [of y] by (auto simp: valid_ymd_def days_in_month_def)

lemma month_range: "1 \<le> month_of n" "month_of n \<le> 12"
  using civil_parts(1) [of n] by (simp_all add: valid_ymd_def)

lemma month_index_parts:
  "month_index n div 12 = year_of n" "month_index n mod 12 + 1 = month_of n"
  using month_range [of n]
  by (simp_all add: month_index_def div_pos_pos_trivial mod_pos_pos_trivial)

lemma first_of_month_index: "first_of_month n = first_of_index (month_index n)"
  by (simp add: first_of_month_def first_of_index_def month_index_parts)

lemma valid_first_of_index: "valid_ymd (i div 12) (i mod 12 + 1) 1"
proof (rule valid_day_1)
  show "1 \<le> i mod 12 + 1" "i mod 12 + 1 \<le> 12" using pos_mod_bound [of 12 i] by simp_all
qed

lemma month_index_first [simp]: "month_index (first_of_index i) = i"
  unfolding first_of_index_def month_index_def parts_ordinal [OF valid_first_of_index]
  by simp

lemma first_of_index_Suc:
  "first_of_index (i + 1) = first_of_index i + days_in_month (i div 12) (i mod 12 + 1)"
proof -
  define y m where "y = i div 12" and "m = i mod 12"
  have i: "i = y * 12 + m" "0 \<le> m" "m < 12" by (simp_all add: y_def m_def)
  show ?thesis
  proof (cases "m = 11")
    case True
    then have "(i + 1) div 12 = y + 1" "(i + 1) mod 12 = 0" unfolding i(1) by simp_all
    then show ?thesis
      using True days_before_year_Suc [of y]
      by (simp add: first_of_index_def ordinal_def days_before_month_def days_in_month_def Let_def
          flip: y_def m_def)
  next
    case False
    with i have "i + 1 = y * 12 + (m + 1)" "0 \<le> m + 1" "m + 1 < 12" by simp_all
    from div_mod_unique [OF this] show ?thesis
      using days_before_month_Suc [of "m + 1" y] i False
      by (simp add: first_of_index_def ordinal_def flip: y_def m_def)
  qed
qed

lemma first_of_index_step: "first_of_index i + 28 \<le> first_of_index (i + 1)"
  "first_of_index (i + 1) \<le> first_of_index i + 31"
  using days_in_month_range [of "i div 12" "i mod 12 + 1"] by (simp_all add: first_of_index_Suc)

lemma first_of_index_mono: "i \<le> j \<Longrightarrow> first_of_index i \<le> first_of_index j"
proof (induction j rule: int_ge_induct)
  case (step j)
  with first_of_index_step(1) [of j] show ?case by simp
qed simp

text \<open>A day is in month \<open>i\<close> exactly when it lies between the first of it and the first of the next.\<close>

lemma month_index_eq: "month_index n = i \<longleftrightarrow> first_of_index i \<le> n \<and> n < first_of_index (i + 1)"
proof -
  have own: "first_of_index (month_index n) \<le> n \<and> n < first_of_index (month_index n + 1)" for n
    using civil_parts [of n]
    by (simp add: first_of_index_Suc month_index_parts valid_ymd_def)
      (simp add: first_of_index_def month_index_parts ordinal_def)
  show ?thesis
  proof
    assume r: "first_of_index i \<le> n \<and> n < first_of_index (i + 1)"
    have "\<not> month_index n < i" "\<not> i < month_index n"
      using own [of n] r first_of_index_mono [of "month_index n + 1" i]
        first_of_index_mono [of "i + 1" "month_index n"] by auto
    then show "month_index n = i" by simp
  qed (use own in auto)
qed

lemma first_of_month_le: "first_of_month n \<le> n" "n < first_of_month n + 31"
  using month_index_eq [of n "month_index n"] first_of_index_step [of "month_index n"]
  by (simp_all add: first_of_month_index)

lemma next_month_index: "month_index (first_of_month n + 32) = month_index n + 1"
  using first_of_index_step [of "month_index n"] first_of_index_step [of "month_index n + 1"]
  by (simp add: month_index_eq first_of_month_index)

lemma month_index_mono: "m \<le> n \<Longrightarrow> month_index m \<le> month_index n"
proof (rule ccontr)
  assume "m \<le> n" "\<not> month_index m \<le> month_index n"
  then show False
    using month_index_eq [of m "month_index m"] month_index_eq [of n "month_index n"]
      first_of_index_mono [of "month_index n + 1" "month_index m"] by auto
qed

subsection \<open>Moments\<close>

abbreviation day_us :: int where "day_us \<equiv> 86400000000"

definition day_of :: "moment \<Rightarrow> date" where
  "day_of t = t div day_us"

text \<open>\<open>datetime.combine(day, time.min, tzinfo=utc)\<close>, and the two \<open>timedelta\<close> units.\<close>

definition midnight :: "date \<Rightarrow> moment" where
  "midnight d = d * day_us"

definition days_delta :: "int \<Rightarrow> int" where
  "days_delta n = n * day_us"

definition seconds_delta :: "int \<Rightarrow> int" where
  "seconds_delta n = n * 1000000"

lemma day_of_midnight [simp]: "day_of (midnight d) = d"
  by (simp add: day_of_def midnight_def)

lemma midnight_mono [simp]: "midnight d \<le> midnight e \<longleftrightarrow> d \<le> e" "midnight d < midnight e \<longleftrightarrow> d < e"
  by (simp_all add: midnight_def)

lemma midnight_le: "midnight d \<le> t \<longleftrightarrow> d \<le> day_of t"
proof
  assume "midnight d \<le> t"
  then show "d \<le> day_of t" using zdiv_mono1 [of "midnight d" t day_us] by (simp add: midnight_def day_of_def)
next
  assume "d \<le> day_of t"
  then have "midnight d \<le> midnight (day_of t)" by simp
  also have "\<dots> \<le> t" using div_mult_mod_eq [of t day_us] pos_mod_sign [of day_us t]
    unfolding midnight_def day_of_def by simp
  finally show "midnight d \<le> t" .
qed

lemma less_midnight: "t < midnight d \<longleftrightarrow> day_of t < d"
  using midnight_le [of d t] by (simp add: not_le [symmetric])

lemma day_of_mono: "s \<le> t \<Longrightarrow> day_of s \<le> day_of t"
  by (simp add: day_of_def zdiv_mono1)

lemma day_of_midnight_plus: "0 \<le> r \<Longrightarrow> r < day_us \<Longrightarrow> day_of (midnight d + r) = d"
  unfolding day_of_def midnight_def by (rule div_mod_unique(1)) (rule refl)

subsection \<open>Whole months on\<close>

definition add_months :: "moment \<Rightarrow> int \<Rightarrow> moment" where
  "add_months t months = (let (y, m, d) = civil (day_of t); index = m - 1 + months;
       year = y + index div 12; month = index mod 12 + 1
     in midnight (ordinal year month (min d (days_in_month year month))) + t mod day_us)"

lemma add_months_civil:
  fixes t :: moment and k :: int
  defines "d \<equiv> day_of t"
  defines "i \<equiv> month_index d + k"
  shows "civil (day_of (add_months t k))
      = (i div 12, i mod 12 + 1, min (day_of_month d) (days_in_month (i div 12) (i mod 12 + 1)))"
    and "add_months t k mod day_us = t mod day_us"
    and "midnight (day_of (add_months t k)) + t mod day_us = add_months t k"
proof -
  let ?j = "month_of d - 1 + k"
  let ?y = "year_of d + ?j div 12" and ?m = "?j mod 12 + 1"
  have i: "i = ?j + year_of d * 12" by (simp add: i_def month_index_def)
  have ym: "i div 12 = ?y" "i mod 12 + 1 = ?m" unfolding i by simp_all
  let ?d = "min (day_of_month d) (days_in_month ?y ?m)"
  have c: "civil d = (year_of d, month_of d, day_of_month d)"
    by (simp add: year_of_def month_of_def day_of_month_def)
  have a: "add_months t k = midnight (ordinal ?y ?m ?d) + t mod day_us"
    using c by (simp add: add_months_def Let_def d_def)
  have r: "0 \<le> t mod day_us" "t mod day_us < day_us" by simp_all
  have v: "valid_ymd ?y ?m ?d"
    using civil_parts(1) [of d] days_in_month_range(1) [of ?y ?m] pos_mod_bound [of 12 ?j]
    by (auto simp: valid_ymd_def)
  have dd: "day_of (add_months t k) = ordinal ?y ?m ?d"
    unfolding a by (rule day_of_midnight_plus) (rule r)+
  with v show "civil (day_of (add_months t k))
      = (i div 12, i mod 12 + 1, min (day_of_month d) (days_in_month (i div 12) (i mod 12 + 1)))"
    by (simp add: ym)
  show "midnight (day_of (add_months t k)) + t mod day_us = add_months t k"
    by (subst dd) (rule a [symmetric])
  show "add_months t k mod day_us = t mod day_us"
    unfolding a midnight_def by simp
qed

lemma month_index_add_months: "month_index (day_of (add_months t k)) = month_index (day_of t) + k"
  unfolding month_index_def [of "day_of (add_months t k)"] year_of_def month_of_def
    add_months_civil(1) by simp

lemma add_months_later: "0 < k \<Longrightarrow> t < add_months t k"
proof (rule ccontr)
  assume k: "0 < k" and "\<not> t < add_months t k"
  then have "add_months t k \<le> t" by simp
  from month_index_mono [OF day_of_mono [OF this]] k show False
    by (simp add: month_index_add_months)
qed

lemma civil_example: "civil (ordinal 2024 2 29) = (2024, 2, 29)"
  "day_of (add_months (midnight (ordinal 2025 1 31)) 1) = ordinal 2025 2 28"
  by code_simp+

end
