(* ===== verification/Rendering.thy ===== *)
theory Rendering
  imports Text Decimals Calendar
begin

text \<open>
  How numbers and dates are written into invoice numbers, line descriptions and reports:
  \<open>format(value, "f")\<close> of a decimal of known scale, the same after \<open>normalize()\<close>,
  \<open>%Y-%m\<close>, \<open>%Y%m\<close> and \<open>isoformat()\<close>. Years have four digits, as every year from 1000 to 9999 has.
  The em dash of the descriptions, which is outside the characters of \<^typ>\<open>string\<close>, is
  written as the character Windows-1252 gives it.
\<close>

definition em_dash :: string where
  "em_dash = [char_of (151::nat)]"

fun zero_pad :: "nat \<Rightarrow> nat \<Rightarrow> string" where
  "zero_pad 0 n = []"
| "zero_pad (Suc w) n = zero_pad w (n div 10) @ [show_digit (n mod 10)]"

text \<open>\<open>show_scaled p n\<close> writes \<open>n / 10^p\<close> to exactly \<open>p\<close> places.\<close>

definition show_scaled :: "nat \<Rightarrow> int \<Rightarrow> string" where
  "show_scaled p n = (if n < 0 then ''-'' else '''') @ show_nat (nat \<bar>n\<bar> div 10 ^ p)
     @ (if p = 0 then '''' else CHR ''.'' # zero_pad p (nat \<bar>n\<bar> mod 10 ^ p))"

definition show_fixed :: "nat \<Rightarrow> rat \<Rightarrow> string" where
  "show_fixed p x = show_scaled p (round_half_even (x * 10 ^ p))"

fun trim_zeros :: "nat \<Rightarrow> int \<Rightarrow> nat \<times> int" where
  "trim_zeros 0 n = (0, n)"
| "trim_zeros (Suc p) n = (if n mod 10 = 0 then trim_zeros p (n div 10) else (Suc p, n))"

text \<open>\<open>format(value.normalize(), "f")\<close> of a decimal with at most \<open>p\<close> places.\<close>

definition show_normal :: "nat \<Rightarrow> rat \<Rightarrow> string" where
  "show_normal p x = (let (q, n) = trim_zeros p (round_half_even (x * 10 ^ p)) in show_scaled q n)"

definition show_year_month :: "date \<Rightarrow> string" where
  "show_year_month d = zero_pad 4 (nat (year_of d)) @ zero_pad 2 (nat (month_of d))"

definition show_month :: "date \<Rightarrow> string" where
  "show_month d = zero_pad 4 (nat (year_of d)) @ ''-'' @ zero_pad 2 (nat (month_of d))"

definition isoformat :: "date \<Rightarrow> string" where
  "isoformat d = show_month d @ ''-'' @ zero_pad 2 (nat (day_of_month d))"

lemma zero_pad_numeral [simp]:
  "zero_pad (numeral k) n = zero_pad (pred_numeral k) (n div 10) @ [show_digit (n mod 10)]"
  using zero_pad.simps(2) [of "pred_numeral k" n] by (simp only: numeral_eq_Suc [symmetric])

lemma trim_zeros_numeral [simp]:
  "trim_zeros (numeral k) n =
    (if n mod 10 = 0 then trim_zeros (pred_numeral k) (n div 10) else (numeral k, n))"
  using trim_zeros.simps(2) [of "pred_numeral k" n] by (simp only: numeral_eq_Suc [symmetric])

lemma length_zero_pad [simp]: "length (zero_pad w n) = w"
  by (induction w arbitrary: n) simp_all

lemma zero_pad_ascii [simp]: "list_all ascii_digit (zero_pad w n)"
  by (induction w arbitrary: n) simp_all

lemma int_of_zero_pad: "0 < w \<Longrightarrow> n < 10 ^ w \<Longrightarrow> int_of (zero_pad w n) = Some n"
proof (induction w arbitrary: n)
  case 0
  then show ?case by simp
next
  case (Suc w)
  show ?case
  proof (cases "w = 0")
    case True
    with Suc.prems show ?thesis by (simp add: int_of_def)
  next
    case False
    then have ne: "zero_pad w (n div 10) \<noteq> []" by (metis length_zero_pad list.size(3))
    have "n div 10 < 10 ^ w" using Suc.prems by (simp add: less_mult_imp_div_less)
    with Suc.IH False have "int_of (zero_pad w (n div 10)) = Some (n div 10)" by simp
    with ne show ?thesis by (simp add: int_of_snoc)
  qed
qed

lemma length_show_year_month [simp]: "length (show_year_month d) = 6"
  by (simp add: show_year_month_def)

lemma show_year_month_ascii [simp]: "list_all ascii_digit (show_year_month d)"
  by (simp add: show_year_month_def)

lemma show_normal_examples:
  "show_normal 4 (25/2) = ''12.5''" "show_normal 4 100 = ''100''" "show_fixed 6 (3/2) = ''1.500000''"
  "show_fixed 2 (- 1/20) = ''-0.05''"
  by (simp_all add: show_normal_def show_fixed_def show_scaled_def round_half_even_def Let_def
      show_nat.simps)

lemma isoformat_example: "isoformat (ordinal 2025 3 9) = ''2025-03-09''"
  by (simp add: isoformat_def show_month_def valid_ymd_def days_in_month_def)

end
