(* ===== verification/Platform_Data.thy ===== *)
theory Platform_Data
  imports Rendering
begin

text \<open>
  The rows the platform services read and write, as records of the columns the services use,
  and the database as one record of tables. Foreign keys hold the key of the row they point
  to. Bookkeeping columns no service reads (\<open>created_at\<close> and \<open>updated_at\<close> of most rows, the
  descriptions of a plan, the symbol of a currency) are left out. A service call that runs in
  \<open>transaction.atomic\<close> answers an error or the new database; what it queues with \<open>on_commit\<close>
  is applied to the database it answers.
\<close>

subsection \<open>Workspaces, their people and their extensions\<close>

record workspace_settings =
  default_currency :: string
  country :: string
  theme :: "string option"

record workspace =
  ws_id :: nat
  ws_slug :: string
  ws_name :: string
  ws_active :: bool
  ws_settings :: "workspace_settings option"

text \<open>\<open>WorkspacePlatformProfile\<close>; the workspace is empty for a standalone profile.\<close>

record profile =
  pf_id :: nat
  pf_workspace :: "nat option"
  remote_uuid :: "string option"
  pf_cluster :: "string option"
  placement_fence :: nat
  monthly_usage_cap_points :: "rat option"
  trial_points_used_at :: "moment option"

datatype role = Role_Owner | Role_Staff

record membership =
  mb_id :: nat
  mb_user :: nat
  mb_profile :: nat
  mb_role :: role
  mb_active :: bool
  mb_created_at :: moment

record customer =
  cu_id :: nat
  cu_workspace :: nat
  cu_user :: nat

datatype ext_status = Ext_Active | Ext_Paused | Ext_Inactive | Ext_Archiving | Ext_Archived | Ext_Restoring

text \<open>\<open>WorkspaceExtension\<close>; a configuration is a JSON object, of which only the text is kept.\<close>

record ext_record =
  xr_id :: nat
  xr_workspace :: nat
  xr_key :: string
  xr_status :: ext_status
  xr_reason :: string
  xr_config :: string
  xr_changed_at :: moment
  xr_changed_by :: "nat option"
  xr_activated_at :: "moment option"

text \<open>
  One entry of the audit log (\<open>AuditService.log_update\<close> on an extension record): the status
  before and after when it changed, and whether the configuration did.
\<close>

record audit_entry =
  au_workspace :: nat
  au_user :: "nat option"
  au_record :: nat
  au_status :: "(ext_status \<times> ext_status) option"
  au_config :: bool
  au_description :: string

subsection \<open>What is sold and what is owed\<close>

record plan =
  pl_id :: nat
  pl_workspace :: nat
  pl_name :: string
  pl_code :: string
  pl_price :: rat
  pl_interval :: string
  pl_interval_count :: nat
  trial_period_days :: nat
  pl_active :: bool

datatype ent_source = Purchased | Granted
datatype ent_status = Ent_Active | Ent_Grace | Ent_Ended

record entitlement =
  en_id :: nat
  en_workspace :: nat
  en_key :: string
  en_plan :: "nat option"
  en_source :: ent_source
  starts_at :: moment
  current_period_end :: "moment option"
  grace_until :: "moment option"
  en_status :: ent_status
  en_reason :: string
  ended_reason :: string

record meter_price =
  mp_id :: nat
  mp_meter :: string
  vendor_cost :: rat
  unit_size :: nat
  margin :: "rat option"
  effective_from :: moment

record usage_record =
  ur_id :: nat
  ur_workspace :: nat
  ur_meter :: string
  ur_day :: date
  ur_price :: nat
  ur_quantity :: rat
  ur_points :: rat

record currency =
  cur_id :: nat
  cur_code :: string
  cur_name :: string
  decimal_places :: nat
  cur_active :: bool

datatype rate_source = Rate_Feed | Rate_Manual

record exchange_rate =
  er_id :: nat
  from_currency :: nat
  to_currency :: nat
  er_rate :: rat
  effective_date :: date
  er_source :: rate_source
  entered_by :: "nat option"

record tax_rate =
  tr_id :: nat
  tr_workspace :: nat
  tr_name :: string
  tr_country :: string
  tr_state :: string
  tr_rate :: rat
  tr_active :: bool

datatype inv_status = Inv_Draft | Inv_Sent | Inv_Paid | Inv_Overdue | Inv_Cancelled

record invoice =
  inv_id :: nat
  inv_workspace :: nat
  inv_customer :: nat
  inv_number :: string
  inv_status :: inv_status
  inv_subtotal :: rat
  inv_tax :: rat
  inv_total :: rat
  inv_currency :: nat
  issue_date :: date
  due_date :: date
  paid_date :: "date option"
  inv_notes :: string

datatype tax_type = Tax_Default | No_Tax

record invoice_item =
  it_id :: nat
  it_invoice :: nat
  it_description :: string
  it_quantity :: rat
  it_unit_price :: rat
  it_subtotal :: rat
  it_tax :: rat
  it_tax_type :: tax_type

subsection \<open>The database, the cache and the deployment\<close>

datatype cache_value = Cache_Int int | Cache_Keys "string list"

type_synonym cache = "string \<Rightarrow> (cache_value \<times> moment) option"

record platform_db =
  workspaces :: "workspace list"
  profiles :: "profile list"
  memberships :: "membership list"
  customers :: "customer list"
  ext_records :: "ext_record list"
  audit_log :: "audit_entry list"
  plans :: "plan list"
  entitlements :: "entitlement list"
  meter_prices :: "meter_price list"
  usage_records :: "usage_record list"
  currencies :: "currency list"
  exchange_rates :: "exchange_rate list"
  tax_rates :: "tax_rate list"
  invoices :: "invoice list"
  invoice_items :: "invoice_item list"
  cached :: cache

text \<open>
  What a call reads besides the database: the clock, the settings module and the platform
  variables (the values \<open>get_variable\<close> answers; see \<open>Platform_Variables\<close>).
\<close>

record env =
  now :: moment
  platform_slug :: string
  read_only_when_unentitled :: bool
  cache_ttl :: int
  usage_margin :: rat
  grace_days :: nat
  default_cap_points :: rat
  trial_points :: rat
  invoice_due_days :: nat

definition today :: "env \<Rightarrow> date" where
  "today e = day_of (now e)"

subsection \<open>The cache\<close>

text \<open>An entry answers until the moment it expires; \<open>set\<close> with a timeout, \<open>delete\<close>.\<close>

definition cache_get :: "moment \<Rightarrow> string \<Rightarrow> cache \<Rightarrow> cache_value option" where
  "cache_get t k c = (case c k of Some (v, expiry) \<Rightarrow> if t < expiry then Some v else None | None \<Rightarrow> None)"

definition cache_set :: "moment \<Rightarrow> string \<Rightarrow> cache_value \<Rightarrow> int \<Rightarrow> cache \<Rightarrow> cache" where
  "cache_set t k v secs c = c(k \<mapsto> (v, t + seconds_delta secs))"

definition cache_delete :: "string \<Rightarrow> cache \<Rightarrow> cache" where
  "cache_delete k c = c(k := None)"

lemma cache_get_delete [simp]: "cache_get t k (cache_delete k' c) = (if k = k' then None else cache_get t k c)"
  by (simp add: cache_get_def cache_delete_def)

lemma cache_get_set: "0 < secs \<Longrightarrow>
    cache_get t k (cache_set t k' v secs c) = (if k = k' then Some v else cache_get t k c)"
  by (simp add: cache_get_def cache_set_def seconds_delta_def)

lemma cache_get_set_later: "t \<le> u \<Longrightarrow> u < t + seconds_delta secs \<Longrightarrow>
    cache_get u k (cache_set t k v secs c) = Some v"
  by (simp add: cache_get_def cache_set_def)

lemma cache_get_expired: "t + seconds_delta secs \<le> u \<Longrightarrow> cache_get u k (cache_set t k v secs c) = None"
  by (simp add: cache_get_def cache_set_def)

subsection \<open>Workspaces\<close>

definition workspace_by_id :: "platform_db \<Rightarrow> nat \<Rightarrow> workspace option" where
  "workspace_by_id db i = first (filter (\<lambda>w. ws_id w = i) (workspaces db))"

text \<open>\<open>get_platform_workspace\<close> and \<open>is_platform_workspace\<close>; the slug of a workspace is unique.\<close>

definition get_platform_workspace :: "env \<Rightarrow> platform_db \<Rightarrow> workspace option" where
  "get_platform_workspace e db = (if platform_slug e = [] then None
     else first (filter (\<lambda>w. ws_slug w = platform_slug e) (workspaces db)))"

definition is_platform_workspace :: "env \<Rightarrow> workspace \<Rightarrow> bool" where
  "is_platform_workspace e w \<longleftrightarrow> platform_slug e \<noteq> [] \<and> ws_slug w = platform_slug e"

definition get_default_currency_for_workspace :: "workspace option \<Rightarrow> string" where
  "get_default_currency_for_workspace w = (case w of None \<Rightarrow> ''USD''
     | Some w \<Rightarrow> (case ws_settings w of
         Some s \<Rightarrow> if default_currency s \<noteq> [] then default_currency s else ''USD''
       | None \<Rightarrow> ''USD''))"

definition get_default_country_for_workspace :: "workspace option \<Rightarrow> string" where
  "get_default_country_for_workspace w = (case w of None \<Rightarrow> ''''
     | Some w \<Rightarrow> (case ws_settings w of Some s \<Rightarrow> country s | None \<Rightarrow> ''''))"

lemma platform_workspace_in: "get_platform_workspace e db = Some w \<Longrightarrow>
    w \<in> set (workspaces db) \<and> is_platform_workspace e w"
  by (auto simp: get_platform_workspace_def is_platform_workspace_def split: if_splits
      dest: first_filter_SomeD)

text \<open>\<open>profile.workspace\<close> is one to one: \<open>get_or_create(workspace=...)\<close>.\<close>

definition new_profile :: "platform_db \<Rightarrow> nat \<Rightarrow> profile" where
  "new_profile db w = \<lparr>pf_id = fresh_id pf_id (profiles db), pf_workspace = Some w, remote_uuid = None,
     pf_cluster = None, placement_fence = 0, monthly_usage_cap_points = None,
     trial_points_used_at = None\<rparr>"

definition profile_of :: "platform_db \<Rightarrow> nat \<Rightarrow> profile option" where
  "profile_of db w = first (filter (\<lambda>p. pf_workspace p = Some w) (profiles db))"

definition get_or_create_profile :: "platform_db \<Rightarrow> nat \<Rightarrow> profile \<times> platform_db" where
  "get_or_create_profile db w = (case profile_of db w of Some p \<Rightarrow> (p, db)
     | None \<Rightarrow> let p = new_profile db w in (p, db\<lparr>profiles := profiles db @ [p]\<rparr>))"

definition save_profile :: "profile \<Rightarrow> platform_db \<Rightarrow> platform_db" where
  "save_profile p db = db\<lparr>profiles := update_where (\<lambda>q. pf_id q = pf_id p) (\<lambda>_. p) (profiles db)\<rparr>"

lemma save_profile_profiles: "profiles (save_profile p db)
    = update_where (\<lambda>q. pf_id q = pf_id p) (\<lambda>_. p) (profiles db)"
  by (simp add: save_profile_def)

lemma profile_of_Some: "profile_of db w = Some p \<Longrightarrow> p \<in> set (profiles db) \<and> pf_workspace p = Some w"
  by (auto simp: profile_of_def dest: first_filter_SomeD)

text \<open>One profile per workspace and distinct keys.\<close>

definition profiles_ok :: "platform_db \<Rightarrow> bool" where
  "profiles_ok db \<longleftrightarrow> distinct (map pf_id (profiles db)) \<and>
     distinct (map pf_workspace (filter (\<lambda>p. pf_workspace p \<noteq> None) (profiles db)))"

lemma profile_of_save:
  assumes "profiles_ok db" "profile_of db w = Some p" "pf_id p' = pf_id p" "pf_workspace p' = pf_workspace p"
  shows "profile_of (save_profile p' db) v = (if v = w then Some p' else profile_of db v)"
proof -
  have p: "p \<in> set (profiles db)" "pf_workspace p = Some w"
    using profile_of_Some [OF assms(2)] by simp_all
  have "profile_of (save_profile p' db) v = (case profile_of db v of None \<Rightarrow> None
      | Some z \<Rightarrow> Some (if z = p then p' else z))"
    unfolding profile_of_def save_profile_profiles assms(3)
    by (rule first_filter_update [OF _ p(1) assms(3)]) (use assms p in \<open>simp_all add: profiles_ok_def\<close>)
  then show ?thesis using assms(2) p(2) profile_of_Some [of db v] by (auto split: option.splits)
qed

lemma profiles_ok_save:
  assumes "profiles_ok db" "profile_of db w = Some p" "pf_id p' = pf_id p" "pf_workspace p' = pf_workspace p"
  shows "profiles_ok (save_profile p' db)"
proof -
  have p: "p \<in> set (profiles db)" using profile_of_Some [OF assms(2)] by simp
  have m: "update_where (\<lambda>q. pf_id q = pf_id p) (\<lambda>_. p') qs
      = map (\<lambda>q. if q = p then p' else q) qs" if "set qs \<subseteq> set (profiles db)" for qs
    using assms(1) p that unfolding update_where_def profiles_ok_def
    by (intro map_cong refl) (auto simp: distinct_map inj_on_def)
  have "map pf_id (map (\<lambda>q. if q = p then p' else q) qs) = map pf_id qs"
    "map pf_workspace (filter (\<lambda>q. pf_workspace q \<noteq> None) (map (\<lambda>q. if q = p then p' else q) qs))
      = map pf_workspace (filter (\<lambda>q. pf_workspace q \<noteq> None) qs)" for qs
    using assms(3,4) by (induction qs) auto
  then show ?thesis
    using assms(1) by (simp only: profiles_ok_def save_profile_profiles assms(3) m [OF order_refl])
qed

lemma get_or_create_profile_spec:
  assumes "get_or_create_profile db w = (p, db')" "profiles_ok db"
  shows "profiles_ok db' \<and> profile_of db' w = Some p \<and> (\<forall>v. v \<noteq> w \<longrightarrow> profile_of db' v = profile_of db v)
    \<and> (profile_of db w = None \<longrightarrow> p = new_profile db w) \<and> (profile_of db w \<noteq> None \<longrightarrow> profile_of db w = Some p \<and> db' = db)"
proof (cases "profile_of db w")
  case None
  then have n: "p = new_profile db w" "db' = db\<lparr>profiles := profiles db @ [new_profile db w]\<rparr>"
    using assms(1) by (auto simp: get_or_create_profile_def Let_def)
  have none: "\<forall>q \<in> set (profiles db). pf_workspace q \<noteq> Some w"
    using None by (simp add: profile_of_def filter_empty_conv)
  have "profiles_ok db'"
    using assms(2) none distinct_fresh [of pf_id "profiles db" "new_profile db w"]
    by (auto simp: profiles_ok_def n(2) new_profile_def)
  moreover have "profile_of db' v = (if v = w then Some p else profile_of db v)" for v
    using none by (auto simp: profile_of_def n new_profile_def filter_empty_conv first_def
        split: list.splits)
  ultimately show ?thesis using n None by simp
next
  case (Some q)
  then show ?thesis using assms by (auto simp: get_or_create_profile_def)
qed

end
