(* ===== verification/Bill_Numbers.thy ===== *)
theory Bill_Numbers
  imports Rendering
begin

text \<open>
  The two shapes of a platform invoice's number (\<open>services/billing.py\<close>) and the shape of an
  extension key (\<open>extensions/manifest.py\<close>). A number is the only link from an invoice to the
  workspace it bills, so each shape is a \<open>bill_scheme\<close>: its numbers are read back to what
  they were made from and carry a prefix no other workspace's numbers have.
\<close>

subsection \<open>Extension keys\<close>

text \<open>
  \<open>^[a-z][a-z0-9_]{0,63}$\<close>, as \<open>re.match\<close> reads it: the dollar also matches before a line feed
  that ends the text.
\<close>

definition key_char :: "char \<Rightarrow> bool" where
  "key_char c \<longleftrightarrow> lower_letter c \<or> ascii_digit c \<or> c = CHR ''_''"

definition key_body :: "string \<Rightarrow> bool" where
  "key_body s \<longleftrightarrow> (case s of [] \<Rightarrow> False
     | c # r \<Rightarrow> lower_letter c \<and> list_all key_char r \<and> length r \<le> 63)"

definition is_extension_key :: "string \<Rightarrow> bool" where
  "is_extension_key s \<longleftrightarrow> key_body s \<or>
     (s \<noteq> [] \<and> of_char (last s) = (10::nat) \<and> key_body (butlast s))"

subsection \<open>The numbers\<close>

definition invoice_prefix :: string where
  "invoice_prefix = ''PLAT-''"

definition invoice_number_prefix :: "nat \<Rightarrow> string" where
  "invoice_number_prefix w = invoice_prefix @ show_nat w @ ''-''"

definition invoice_number_for :: "nat \<Rightarrow> date \<Rightarrow> string" where
  "invoice_number_for w period_start = invoice_number_prefix w @ show_year_month period_start"

definition billed_workspace_and_period :: "string \<Rightarrow> (nat \<times> date) option" where
  "billed_workspace_and_period n =
    (if \<not> startswith invoice_prefix n then None
     else let (w, sep, period) = partition CHR ''-'' (drop (length invoice_prefix) n) in
       if \<not> sep \<or> \<not> isdigit w \<or> length period \<noteq> 6 \<or> \<not> isdigit period then None
       else case (int_of w, int_of (take 4 period), int_of (drop 4 period)) of
           (Some w, Some y, Some m) \<Rightarrow>
             if 1 \<le> y \<and> 1 \<le> m \<and> m \<le> 12 then Some (w, ordinal (int y) (int m) 1) else None
         | _ \<Rightarrow> None)"

definition acquisition_number_prefix :: "nat \<Rightarrow> string \<Rightarrow> string" where
  "acquisition_number_prefix w key = invoice_number_prefix w @ ''ADD'' @ ''-'' @ key @ ''-''"

definition acquisition_number :: "nat \<Rightarrow> string \<Rightarrow> nat \<Rightarrow> string" where
  "acquisition_number w key sequence = acquisition_number_prefix w key @ show_nat sequence"

text \<open>\<open>int(workspace)\<close> stands outside any \<open>try\<close> here, so its \<open>ValueError\<close> leaves the function.\<close>

datatype value_error = Value_Error

definition acquired_workspace_and_key :: "string \<Rightarrow> value_error + (nat \<times> string) option" where
  "acquired_workspace_and_key n =
    (if \<not> startswith invoice_prefix n then Inr None
     else let (w, sep, rest) = partition CHR ''-'' (drop (length invoice_prefix) n) in
       if \<not> sep \<or> \<not> isdigit w then Inr None
       else let (marker, sep, rest) = partition CHR ''-'' rest in
         if marker \<noteq> ''ADD'' \<or> \<not> sep then Inr None
         else let (key, sep, sequence) = rpartition CHR ''-'' rest in
           if \<not> sep \<or> \<not> isdigit sequence \<or> \<not> is_extension_key key then Inr None
           else case int_of w of None \<Rightarrow> Inl Value_Error | Some w \<Rightarrow> Inr (Some (w, key)))"

definition is_platform_bill :: "string \<Rightarrow> value_error + bool" where
  "is_platform_bill n =
    (if billed_workspace_and_period n \<noteq> None then Inr True
     else bind_r (acquired_workspace_and_key n) (\<lambda>r. Inr (r \<noteq> None)))"

subsection \<open>Prefixes\<close>

lemma length_invoice_prefix [simp]: "length invoice_prefix = 5"
  by (simp add: invoice_prefix_def)

lemma split_workspace: "partition CHR ''-'' (show_nat w @ CHR ''-'' # s) = (show_nat w, True, s)"
  by (rule partition_append) simp

lemma prefix_apart:
  assumes "startswith (invoice_number_prefix v) s" "startswith (invoice_number_prefix w) s"
  shows "v = w"
proof -
  from assms obtain a b where "s = invoice_number_prefix v @ a" "s = invoice_number_prefix w @ b"
    unfolding startswith_iff by blast
  then have "show_nat v @ CHR ''-'' # a = show_nat w @ CHR ''-'' # b"
    by (simp add: invoice_number_prefix_def)
  from arg_cong [OF this, of "partition CHR ''-''"] show ?thesis by (simp add: split_workspace)
qed

lemma acquisition_in_workspace:
  "startswith (acquisition_number_prefix w key) s \<Longrightarrow> startswith (invoice_number_prefix w) s"
  by (auto simp: startswith_iff acquisition_number_prefix_def)

lemma lower_not_minus: "lower_letter c \<Longrightarrow> c \<noteq> CHR ''-''"
  by (auto simp: lower_letter_def)

lemma key_char_not_minus: "key_char c \<Longrightarrow> c \<noteq> CHR ''-''"
  by (auto simp: key_char_def lower_letter_def ascii_digit_def)

lemma key_no_minus: "is_extension_key k \<Longrightarrow> CHR ''-'' \<notin> set k"
proof -
  have body: "key_body s \<Longrightarrow> CHR ''-'' \<notin> set s" for s
    using lower_not_minus key_char_not_minus by (cases s) (auto simp: key_body_def list_all_iff)
  assume "is_extension_key k"
  then consider "key_body k" | "k \<noteq> []" "of_char (last k) = (10::nat)" "key_body (butlast k)"
    by (auto simp: is_extension_key_def)
  then show ?thesis
  proof cases
    case 2
    then have "last k \<noteq> CHR ''-''" by auto
    moreover have "set k = insert (last k) (set (butlast k))"
      using 2(1) by (metis append_butlast_last_id list.simps(15) rotate1.simps(2) set_rotate1)
    ultimately show ?thesis using body [OF 2(3)] by auto
  qed (rule body)
qed

lemma acquisition_prefix_apart:
  assumes "startswith (acquisition_number_prefix w k) s" "startswith (acquisition_number_prefix w l) s"
    and "is_extension_key k" "is_extension_key l"
  shows "k = l"
proof -
  from assms(1,2) obtain a b where "s = acquisition_number_prefix w k @ a" "s = acquisition_number_prefix w l @ b"
    unfolding startswith_iff by blast
  then have "k @ CHR ''-'' # a = l @ CHR ''-'' # b"
    by (simp add: acquisition_number_prefix_def)
  from arg_cong [OF this, of "partition CHR ''-''"] assms(3,4) show ?thesis
    by (simp add: partition_append key_no_minus)
qed

subsection \<open>Reading numbers back\<close>

definition bill_period :: "date \<Rightarrow> bool" where
  "bill_period p \<longleftrightarrow> first_of_month p = p \<and> 1 \<le> year_of p \<and> year_of p \<le> 9999"

lemma first_of_month_day_1: "first_of_month p = p \<Longrightarrow> ordinal (year_of p) (month_of p) 1 = p"
  by (simp add: first_of_month_def)

lemma billed_number:
  assumes "bill_period p"
  shows "billed_workspace_and_period (invoice_number_for w p) = Some (w, p)"
proof -
  let ?y = "nat (year_of p)" and ?m = "nat (month_of p)"
  have b: "1 \<le> ?y" "?y < 10 ^ 4" "1 \<le> ?m" "?m \<le> 12" "?m < 10 ^ 2"
    using assms month_range [of p] by (auto simp: bill_period_def nat_less_iff)
  have split: "take 4 (show_year_month p) = zero_pad 4 ?y" "drop 4 (show_year_month p) = zero_pad 2 ?m"
    unfolding show_year_month_def using length_zero_pad [of 4 ?y] by (simp_all del: zero_pad_numeral length_zero_pad)
  have ints: "int_of (zero_pad 4 ?y) = Some ?y" "int_of (zero_pad 2 ?m) = Some ?m"
    by (rule int_of_zero_pad; use b in simp)+
  have dig: "isdigit (show_year_month p)"
    by (rule ascii_isdigit) (simp_all add: show_year_month_def)
  have ord: "ordinal (int ?y) (int ?m) 1 = p"
    using assms b first_of_month_day_1 [of p] by (auto simp: bill_period_def)
  show ?thesis
    using b dig ord
    by (simp add: billed_workspace_and_period_def invoice_number_for_def invoice_number_prefix_def
        split_workspace split ints Let_def del: zero_pad_numeral)
qed

lemma acquired_number:
  assumes "is_extension_key k"
  shows "acquired_workspace_and_key (acquisition_number w k n) = Inr (Some (w, k))"
proof -
  have marker: "partition CHR ''-'' (''ADD-'' @ s) = (''ADD'', True, s)" for s
    using partition_append [of "CHR ''-''" "''ADD''" s] by simp
  have tail: "rpartition CHR ''-'' (k @ CHR ''-'' # show_nat n) = (k, True, show_nat n)"
    by (rule rpartition_append) simp
  show ?thesis
    using assms marker tail
    by (simp add: acquired_workspace_and_key_def acquisition_number_def acquisition_number_prefix_def
        invoice_number_prefix_def split_workspace Let_def)
qed

text \<open>Neither reads the other's.\<close>

lemma billed_acquisition: "billed_workspace_and_period (acquisition_number w k n) = None"
  by (simp add: billed_workspace_and_period_def acquisition_number_def acquisition_number_prefix_def
      invoice_number_prefix_def split_workspace isdigit_def digit_char_def ascii_digit_def Let_def)

lemma acquired_monthly: "acquired_workspace_and_key (invoice_number_for w p) = Inr None"
proof -
  have "CHR ''-'' \<notin> set (show_year_month p)"
    using show_year_month_ascii [of p] by (auto simp: list_all_iff)
  from partition_none [OF this] show ?thesis
    by (simp add: acquired_workspace_and_key_def invoice_number_for_def invoice_number_prefix_def
        split_workspace Let_def)
qed

lemma billed_first_of_month: "billed_workspace_and_period n = Some (w, p) \<Longrightarrow> first_of_month p = p"
proof -
  assume "billed_workspace_and_period n = Some (w, p)"
  then obtain y m where "p = ordinal y m 1" "1 \<le> m" "m \<le> 12"
    by (auto simp: billed_workspace_and_period_def Let_def split: if_splits option.splits prod.splits)
  then show ?thesis by (simp add: first_of_month_def valid_day_1)
qed

lemma number_prefixes:
  "startswith (invoice_number_prefix w) (invoice_number_for w p)"
  "startswith (acquisition_number_prefix w k) (acquisition_number w k n)"
  "startswith (invoice_number_prefix w) (acquisition_number w k n)"
proof -
  show acq: "startswith (acquisition_number_prefix w k) (acquisition_number w k n)"
    by (simp add: acquisition_number_def)
  then show "startswith (invoice_number_prefix w) (acquisition_number w k n)"
    by (rule acquisition_in_workspace)
qed (simp add: invoice_number_for_def)

subsection \<open>The contract of a numbering scheme\<close>

locale bill_scheme =
  fixes number :: "nat \<Rightarrow> 'p \<Rightarrow> string"
    and read_back :: "string \<Rightarrow> (nat \<times> 'p) option"
    and ok :: "'p \<Rightarrow> bool"
    and prefix :: "nat \<Rightarrow> string"
  assumes read_number: "ok p \<Longrightarrow> read_back (number w p) = Some (w, p)"
    and number_prefix: "startswith (prefix w) (number w p)"
    and apart: "startswith (prefix v) s \<Longrightarrow> startswith (prefix w) s \<Longrightarrow> v = w"
begin

lemma number_inject: "ok p \<Longrightarrow> ok q \<Longrightarrow> number v p = number w q \<longleftrightarrow> v = w \<and> p = q"
  by (metis Pair_inject option.inject read_number)

lemma number_other_prefix: "startswith (prefix v) (number w p) \<longleftrightarrow> v = w"
  using apart number_prefix by blast

lemma distinct_numbers: "ok p \<Longrightarrow> distinct ws \<Longrightarrow> distinct (map (\<lambda>w. number w p) ws)"
  by (simp add: distinct_map inj_on_def number_inject)

end

interpretation monthly: bill_scheme invoice_number_for billed_workspace_and_period bill_period
  invoice_number_prefix
  by unfold_locales (simp add: billed_number, rule number_prefixes, rule prefix_apart)

definition read_acquisition :: "string \<Rightarrow> (nat \<times> string) option" where
  "read_acquisition n = (case acquired_workspace_and_key n of Inr r \<Rightarrow> r | Inl _ \<Rightarrow> None)"

interpretation acquisition: bill_scheme "\<lambda>w k. acquisition_number w k n" read_acquisition
  is_extension_key invoice_number_prefix for n
  by unfold_locales (simp add: read_acquisition_def acquired_number, rule number_prefixes, rule prefix_apart)

subsection \<open>Properties\<close>

text \<open>
  C30: a number says which bill it is. The monthly number of a workspace and month is read back
  as that workspace and month and by nothing else, the acquisition number as that workspace and
  add-on; and a number carries the prefix of its own workspace only, so a reader that selects
  invoices by prefix sees one workspace's bills and no other's.
\<close>

theorem bill_numbers_identify:
  assumes "bill_period p" "is_extension_key k"
  shows "billed_workspace_and_period (invoice_number_for w p) = Some (w, p) \<and>
    acquired_workspace_and_key (invoice_number_for w p) = Inr None \<and>
    acquired_workspace_and_key (acquisition_number w k n) = Inr (Some (w, k)) \<and>
    billed_workspace_and_period (acquisition_number w k n) = None \<and>
    (startswith (invoice_number_prefix v) (invoice_number_for w p) \<longleftrightarrow> v = w) \<and>
    (startswith (invoice_number_prefix v) (acquisition_number w k n) \<longleftrightarrow> v = w)"
  using assms by (simp add: billed_number acquired_monthly acquired_number billed_acquisition
      monthly.number_other_prefix acquisition.number_other_prefix)

text \<open>
  one number is one bill: two bills have the same number only when they are for the same
  workspace and month, or for the same acquisition (workspace, add-on and count).
\<close>

theorem bill_numbers_unique:
  assumes "bill_period p" "bill_period q" "is_extension_key k" "is_extension_key l"
  shows "(invoice_number_for v p = invoice_number_for w q \<longleftrightarrow> v = w \<and> p = q) \<and>
    (acquisition_number v k m = acquisition_number w l n \<longleftrightarrow> v = w \<and> k = l \<and> m = n) \<and>
    invoice_number_for v p \<noteq> acquisition_number w k n"
proof (intro conjI)
  show "invoice_number_for v p = invoice_number_for w q \<longleftrightarrow> v = w \<and> p = q"
    using assms(1,2) by (rule monthly.number_inject)
  show "acquisition_number v k m = acquisition_number w l n \<longleftrightarrow> v = w \<and> k = l \<and> m = n"
  proof
    assume a: "acquisition_number v k m = acquisition_number w l n"
    from arg_cong [OF this, of acquired_workspace_and_key] assms(3,4) have "v = w" "k = l"
      by (simp_all add: acquired_number)
    with a show "v = w \<and> k = l \<and> m = n" by (simp add: acquisition_number_def)
  qed simp
  show "invoice_number_for v p \<noteq> acquisition_number w k n"
    using assms(1) billed_number [of p v] billed_acquisition [of w k n] by auto
qed

text \<open>
  Three numbers nothing here issues, and what becomes of them: a superscript digit passes
  \<open>isdigit\<close> and makes \<open>int\<close> raise out of \<open>is_platform_bill\<close>; a leading zero is read as the
  workspace without it; a key with a line feed at its end is still a key.
\<close>

lemma superscript_workspace_raises:
  "is_platform_bill (''PLAT-'' @ [char_of (178::nat)] @ ''-ADD-foo-1'') = Inl Value_Error"
  by code_simp

lemma leading_zero_is_read:
  "billed_workspace_and_period ''PLAT-007-202401'' = Some (7, ordinal 2024 1 1) \<and>
   invoice_number_for 7 (ordinal 2024 1 1) \<noteq> ''PLAT-007-202401''"
  by code_simp

lemma key_with_line_feed: "is_extension_key (''foo'' @ [char_of (10::nat)])"
  by code_simp

end
