(* ===== verification/Manifest.thy ===== *)
theory Manifest
  imports Platform_Data Bill_Numbers
begin

text \<open>
  \<open>extensions/manifest.py\<close> and \<open>extensions/registry.py\<close>: what an extension declares, the checks
  a manifest makes of itself, and the deployed manifests. The scope, pricing, visibility and
  activation policy are texts, as they are in the code, since refusing unknown ones is one of
  the checks. The callables of a manifest (the conditions it wants met, its configuration check
  and its two hooks) are functions of the database; a hook may raise, and answers the new
  database otherwise.
\<close>

definition SCOPE_WORKSPACE :: string where "SCOPE_WORKSPACE = ''workspace''"
definition SCOPE_PLATFORM :: string where "SCOPE_PLATFORM = ''platform''"
definition SCOPE_TOOLING :: string where "SCOPE_TOOLING = ''tooling''"
definition PRICING_CORE :: string where "PRICING_CORE = ''core''"
definition PRICING_ADDON :: string where "PRICING_ADDON = ''addon''"
definition VISIBILITY_PUBLIC :: string where "VISIBILITY_PUBLIC = ''public''"
definition VISIBILITY_PRIVATE :: string where "VISIBILITY_PRIVATE = ''private''"
definition VISIBILITY_INTERNAL :: string where "VISIBILITY_INTERNAL = ''internal''"
definition ACTIVATION_WORKSPACE_OWNER :: string where "ACTIVATION_WORKSPACE_OWNER = ''workspace_owner''"
definition ACTIVATION_PLATFORM_ADMIN :: string where "ACTIVATION_PLATFORM_ADMIN = ''platform_admin''"
definition ACTIVATION_SYSTEM :: string where "ACTIVATION_SYSTEM = ''system''"

lemmas manifest_constants = SCOPE_WORKSPACE_def SCOPE_PLATFORM_def SCOPE_TOOLING_def PRICING_CORE_def
  PRICING_ADDON_def VISIBILITY_PUBLIC_def VISIBILITY_PRIVATE_def VISIBILITY_INTERNAL_def
  ACTIVATION_WORKSPACE_OWNER_def ACTIVATION_PLATFORM_ADMIN_def ACTIVATION_SYSTEM_def

record prerequisite =
  pq_code :: string
  pq_message :: string
  is_met :: "platform_db \<Rightarrow> nat \<Rightarrow> bool"

type_synonym hook = "platform_db \<Rightarrow> nat \<Rightarrow> ext_record \<Rightarrow> string + platform_db"

record manifest =
  mf_key :: string
  mf_name :: string
  admin_url :: string
  scope :: string
  pricing :: string
  visibility :: string
  activation_policy :: string
  surfaces :: "string list"
  requires :: "string list"
  prerequisites :: "prerequisite list"
  meters :: "string list"
  clean_config :: "(string \<Rightarrow> string + string) option"
  storefront_skins :: "string list"
  default_storefront_skin :: string
  on_activate :: "hook option"
  on_deactivate :: "hook option"
  app_label :: string

datatype manifest_error = Bad_Key | Unknown_Scope | Unknown_Pricing | Unknown_Visibility
  | Unknown_Policy | Internal_Not_System | Private_Owner | Requires_Itself | Requires_Unscoped
  | Bad_Admin_Url | Duplicate_Skins | Bad_Skin | Undeclared_Skin

text \<open>\<open>^[a-z][a-z0-9_-]{0,63}$\<close>, with the same reading of the dollar as for keys.\<close>

definition skin_body :: "string \<Rightarrow> bool" where
  "skin_body s \<longleftrightarrow> (case s of [] \<Rightarrow> False
     | c # r \<Rightarrow> lower_letter c \<and> list_all (\<lambda>c. key_char c \<or> c = CHR ''-'') r \<and> length r \<le> 63)"

definition is_skin_name :: "string \<Rightarrow> bool" where
  "is_skin_name s \<longleftrightarrow> skin_body s \<or> (s \<noteq> [] \<and> of_char (last s) = (10::nat) \<and> skin_body (butlast s))"

definition backslash :: char where
  "backslash = char_of (92::nat)"

text \<open>
  \<open>__post_init__\<close>: the manifest with its pricing filled in, or the first check it fails;
  \<open>later_problem\<close> is the chain of checks made once the pricing is there.
\<close>

definition later_problem :: "manifest \<Rightarrow> manifest_error option" where
  "later_problem m =
    (if pricing m \<notin> {PRICING_CORE, PRICING_ADDON} then Some Unknown_Pricing
     else if visibility m \<notin> {VISIBILITY_PUBLIC, VISIBILITY_PRIVATE, VISIBILITY_INTERNAL} then Some Unknown_Visibility
     else if activation_policy m \<notin> {ACTIVATION_WORKSPACE_OWNER, ACTIVATION_PLATFORM_ADMIN, ACTIVATION_SYSTEM}
       then Some Unknown_Policy
     else if visibility m = VISIBILITY_INTERNAL \<and> activation_policy m \<noteq> ACTIVATION_SYSTEM then Some Internal_Not_System
     else if visibility m = VISIBILITY_PRIVATE \<and> activation_policy m = ACTIVATION_WORKSPACE_OWNER then Some Private_Owner
     else if mf_key m \<in> set (requires m) then Some Requires_Itself
     else if requires m \<noteq> [] \<and> scope m \<noteq> SCOPE_WORKSPACE then Some Requires_Unscoped
     else if admin_url m \<noteq> [] \<and> (\<not> startswith ''/'' (admin_url m) \<or> startswith ''//'' (admin_url m)
         \<or> startswith [CHR ''/'', backslash] (admin_url m)) then Some Bad_Admin_Url
     else if length (remdups (storefront_skins m)) \<noteq> length (storefront_skins m) then Some Duplicate_Skins
     else if \<not> list_all is_skin_name (storefront_skins m) then Some Bad_Skin
     else if default_storefront_skin m \<noteq> [] \<and> default_storefront_skin m \<notin> set (storefront_skins m)
       then Some Undeclared_Skin
     else None)"

definition fill_pricing :: "manifest \<Rightarrow> manifest" where
  "fill_pricing m = (if pricing m = []
     then m\<lparr>pricing := if scope m = SCOPE_WORKSPACE then PRICING_ADDON else PRICING_CORE\<rparr> else m)"

definition post_init :: "manifest \<Rightarrow> manifest_error + manifest" where
  "post_init m =
    (if \<not> is_extension_key (mf_key m) then Inl Bad_Key
     else if scope m \<notin> {SCOPE_WORKSPACE, SCOPE_PLATFORM, SCOPE_TOOLING} then Inl Unknown_Scope
     else case later_problem (fill_pricing m) of Some p \<Rightarrow> Inl p | None \<Rightarrow> Inr (fill_pricing m))"

definition is_activatable :: "manifest \<Rightarrow> bool" where
  "is_activatable m \<longleftrightarrow> scope m = SCOPE_WORKSPACE"

definition has_public_surface :: "manifest \<Rightarrow> bool" where
  "has_public_surface m \<longleftrightarrow> list_ex (\<lambda>s. s \<in> {''storefront'', ''account'', ''miniprogram''}) (surfaces m)"

subsection \<open>The registry\<close>

text \<open>
  What discovery makes of the manifests the installed apps ship, in the order of the apps: a
  key declared a second time is ignored, and each manifest is labelled with its app.
\<close>

definition discover :: "(string \<times> manifest) list \<Rightarrow> manifest list" where
  "discover apps = fold (\<lambda>(label, m) ms. if mf_key m \<in> mf_key ` set ms then ms else ms @ [m\<lparr>app_label := label\<rparr>])
     apps []"

definition all_manifests :: "manifest list \<Rightarrow> manifest list" where
  "all_manifests reg = sort_key mf_key reg"

definition get_manifest :: "manifest list \<Rightarrow> string \<Rightarrow> manifest option" where
  "get_manifest reg key = first (filter (\<lambda>m. mf_key m = key) reg)"

definition manifest_for_app :: "manifest list \<Rightarrow> string \<Rightarrow> manifest option" where
  "manifest_for_app reg label = first (filter (\<lambda>m. app_label m = label) reg)"

definition registry_ok :: "manifest list \<Rightarrow> bool" where
  "registry_ok reg \<longleftrightarrow> distinct (map mf_key reg)"

lemma discover_ok: "registry_ok (discover apps)"
proof -
  have "registry_ok ms \<Longrightarrow> registry_ok (fold (\<lambda>(label, m) ms. if mf_key m \<in> mf_key ` set ms then ms
      else ms @ [m\<lparr>app_label := label\<rparr>]) apps ms)" for ms
    by (induction apps arbitrary: ms) (auto simp: registry_ok_def)
  then show ?thesis by (simp add: discover_def registry_ok_def)
qed

lemma get_manifest_Some: "get_manifest reg k = Some m \<Longrightarrow> m \<in> set reg \<and> mf_key m = k"
  by (auto simp: get_manifest_def dest: first_filter_SomeD)

lemma get_manifest_mem: "registry_ok reg \<Longrightarrow> m \<in> set reg \<Longrightarrow> get_manifest reg (mf_key m) = Some m"
proof -
  assume ok: "registry_ok reg" and m: "m \<in> set reg"
  then obtain x where x: "get_manifest reg (mf_key m) = Some x"
    by (cases "get_manifest reg (mf_key m)") (auto simp: get_manifest_def filter_empty_conv)
  from get_manifest_Some [OF x] ok m have "x = m" by (auto simp: registry_ok_def distinct_map inj_on_def)
  with x show ?thesis by simp
qed

lemma set_all_manifests [simp]: "set (all_manifests reg) = set reg"
  by (simp add: all_manifests_def)

text \<open>What a manifest that was made has passed.\<close>

lemma later_problem_None:
  assumes "later_problem m = None"
  shows "visibility m = VISIBILITY_INTERNAL \<longrightarrow> activation_policy m = ACTIVATION_SYSTEM"
    "visibility m = VISIBILITY_PRIVATE \<longrightarrow> activation_policy m \<noteq> ACTIVATION_WORKSPACE_OWNER"
    "mf_key m \<notin> set (requires m)" "requires m = [] \<or> scope m = SCOPE_WORKSPACE"
    "pricing m \<in> {PRICING_CORE, PRICING_ADDON}"
    "visibility m \<in> {VISIBILITY_PUBLIC, VISIBILITY_PRIVATE, VISIBILITY_INTERNAL}"
  using assms unfolding later_problem_def by (simp_all split: if_splits del: insert_iff)

lemma post_init_Inr: "post_init m = Inr m' \<Longrightarrow>
    m' = fill_pricing m \<and> later_problem m' = None \<and> is_extension_key (mf_key m') \<and> mf_key m' = mf_key m"
  unfolding post_init_def by (auto simp: fill_pricing_def split: if_splits option.splits)

end
