(* ===== verification/Extensions.thy ===== *)
theory Extensions
  imports Manifest
begin

text \<open>
  \<open>extensions/services.py\<close> and \<open>extensions/storefront_skins.py\<close>: which extensions a workspace
  may use, what is available to it, and switching an extension on and off.

  The deployment's entitlement check (\<open>BFG_EXTENSION_ENTITLEMENT_CHECK\<close>) is a parameter: \<open>None\<close>
  when none is configured, and otherwise a function of the database that may raise. The
  registry is the list of deployed manifests. Locks and the races they settle are not modelled:
  each call is one transaction.
\<close>

type_synonym ent_check = "(platform_db \<Rightarrow> nat \<Rightarrow> manifest \<Rightarrow> string + bool) option"

text \<open>
  \<open>ExtensionError\<close> with its code and the names in its details; an exception of a hook or of the
  entitlement check; a skin that is refused.
\<close>

datatype ext_error = Ext_Error string "string list" | Raised string | Unknown_Skin string

datatype config_value = Not_Object | Object string

subsection \<open>Availability\<close>

definition ext_entitled :: "ent_check \<Rightarrow> platform_db \<Rightarrow> nat \<Rightarrow> manifest \<Rightarrow> string + bool" where
  "ext_entitled check db w m = (case check of None \<Rightarrow> Inr True | Some f \<Rightarrow> f db w m)"

definition entitled_or_unavailable :: "ent_check \<Rightarrow> platform_db \<Rightarrow> nat \<Rightarrow> manifest \<Rightarrow> bool" where
  "entitled_or_unavailable check db w m = (case ext_entitled check db w m of Inr b \<Rightarrow> b | Inl _ \<Rightarrow> False)"

definition compute_entitled_keys :: "manifest list \<Rightarrow> ent_check \<Rightarrow> platform_db \<Rightarrow> nat \<Rightarrow> string list" where
  "compute_entitled_keys reg check db w =
     map mf_key (filter (entitled_or_unavailable check db w) (all_manifests reg))"

definition active_keys :: "platform_db \<Rightarrow> nat \<Rightarrow> string list" where
  "active_keys db w = map xr_key (filter (\<lambda>r. xr_workspace r = w \<and> xr_status r = Ext_Active) (ext_records db))"

text \<open>The keys the pruning loop starts from.\<close>

definition candidate_keys :: "manifest list \<Rightarrow> ent_check \<Rightarrow> platform_db \<Rightarrow> nat option \<Rightarrow> string list option \<Rightarrow> string list" where
  "candidate_keys reg check db w entitled =
     map mf_key (filter (\<lambda>m. scope m \<noteq> SCOPE_WORKSPACE) (all_manifests reg)) @
     (case w of None \<Rightarrow> []
      | Some w \<Rightarrow> filter (\<lambda>k. case get_manifest reg k of None \<Rightarrow> False
            | Some m \<Rightarrow> scope m = SCOPE_WORKSPACE \<and>
                (case entitled of Some ks \<Rightarrow> k \<in> set ks | None \<Rightarrow> entitled_or_unavailable check db w m))
          (active_keys db w))"

definition requires_of :: "manifest list \<Rightarrow> string \<Rightarrow> string list" where
  "requires_of reg k = (case get_manifest reg k of Some m \<Rightarrow> requires m | None \<Rightarrow> [])"

text \<open>One pass over a snapshot of the keys, each discarded as soon as it is found wanting.\<close>

definition prune_pass :: "(string \<Rightarrow> string list) \<Rightarrow> string list \<Rightarrow> string list" where
  "prune_pass req ks = fold (\<lambda>k av. if list_ex (\<lambda>r. r \<notin> set av) (req k) then removeAll k av else av) ks ks"

lemma prune_fold_subset: "set (fold (\<lambda>k av. if list_ex (\<lambda>r. r \<notin> set av) (req k) then removeAll k av else av) ks av)
    \<subseteq> set av"
proof (induction ks arbitrary: av)
  case (Cons k ks)
  show ?case using Cons [of av] Cons [of "removeAll k av"] by auto
qed simp

lemma prune_pass_subset: "set (prune_pass req ks) \<subseteq> set ks"
  unfolding prune_pass_def by (rule prune_fold_subset)

function prune :: "(string \<Rightarrow> string list) \<Rightarrow> string list \<Rightarrow> string list" where
  "prune req ks = (let ks' = prune_pass req ks in if set ks' = set ks then ks' else prune req ks')"
  by pat_completeness auto
termination
proof (relation "measure (\<lambda>(req, ks). card (set ks))")
  fix req :: "string \<Rightarrow> string list" and ks x :: "string list"
  assume "x = prune_pass req ks" "set x \<noteq> set ks"
  then have "set x \<subset> set ks" using prune_pass_subset by blast
  then have "card (set x) < card (set ks)" by (simp add: psubset_card_mono)
  then show "((req, x), req, ks) \<in> measure (\<lambda>(req, ks). card (set ks))" by simp
qed simp

declare prune.simps [simp del]

definition compute_available_keys :: "manifest list \<Rightarrow> ent_check \<Rightarrow> platform_db \<Rightarrow> nat option \<Rightarrow> string list option \<Rightarrow> string list" where
  "compute_available_keys reg check db w entitled =
     prune (requires_of reg) (candidate_keys reg check db w entitled)"

definition available_cache_key :: "nat \<Rightarrow> string" where
  "available_cache_key w = ''extensions:available:'' @ show_nat w"

definition available_keys :: "env \<Rightarrow> manifest list \<Rightarrow> ent_check \<Rightarrow> platform_db \<Rightarrow> nat option \<Rightarrow> string list \<times> platform_db" where
  "available_keys e reg check db w = (case w of
     None \<Rightarrow> (compute_available_keys reg check db None None, db)
   | Some i \<Rightarrow> (case cache_get (now e) (available_cache_key i) (cached db) of
         Some (Cache_Keys ks) \<Rightarrow> (ks, db)
       | _ \<Rightarrow> let ks = compute_available_keys reg check db w None in
           (ks, db\<lparr>cached := cache_set (now e) (available_cache_key i) (Cache_Keys (sort (remdups ks)))
              (cache_ttl e) (cached db)\<rparr>)))"

definition is_available :: "env \<Rightarrow> manifest list \<Rightarrow> ent_check \<Rightarrow> platform_db \<Rightarrow> nat option \<Rightarrow> string \<Rightarrow> bool \<times> platform_db" where
  "is_available e reg check db w key = (case get_manifest reg key of
     None \<Rightarrow> (False, db)
   | Some m \<Rightarrow> if scope m \<noteq> SCOPE_WORKSPACE then (True, db)
       else if w = None then (False, db)
       else let (ks, db) = available_keys e reg check db w in (key \<in> set ks, db))"

definition availability :: "env \<Rightarrow> manifest list \<Rightarrow> ent_check \<Rightarrow> platform_db \<Rightarrow> nat option \<Rightarrow> bool
    \<Rightarrow> (string list \<times> string list) \<times> platform_db" where
  "availability e reg check db w public_only =
    (let ms = filter (\<lambda>m. visibility m = VISIBILITY_PUBLIC) (all_manifests reg);
         ms = (if public_only then filter has_public_surface ms else ms);
         (live, db) = available_keys e reg check db w
     in ((sort (map mf_key (filter (\<lambda>m. mf_key m \<in> set live) ms)),
          sort (map mf_key (filter is_activatable ms))), db))"

text \<open>\<open>workspaces_with\<close> asks about each active workspace in turn, filling the cache as it goes.\<close>

definition workspaces_with :: "env \<Rightarrow> manifest list \<Rightarrow> ent_check \<Rightarrow> platform_db \<Rightarrow> string \<Rightarrow> nat list \<times> platform_db" where
  "workspaces_with e reg check db key = (case get_manifest reg key of
     None \<Rightarrow> ([], db)
   | Some m \<Rightarrow>
       let ws = filter ws_active (sort_key ws_id (workspaces db));
           ws = (if scope m = SCOPE_WORKSPACE
             then filter (\<lambda>w. key \<in> set (active_keys db (ws_id w))) ws else ws)
       in fold (\<lambda>w (found, db). let (yes, db) = is_available e reg check db (Some (ws_id w)) key
            in (if yes then found @ [ws_id w] else found, db)) ws ([], db))"

text \<open>The rows \<open>where_available\<close> keeps, as a predicate on the workspace of a row.\<close>

definition where_available :: "manifest list \<Rightarrow> platform_db \<Rightarrow> string \<Rightarrow> nat \<Rightarrow> bool" where
  "where_available reg db key w = (case get_manifest reg key of
     None \<Rightarrow> False
   | Some m \<Rightarrow> if scope m \<noteq> SCOPE_WORKSPACE then True else key \<in> set (active_keys db w))"

definition unavailable_apps :: "env \<Rightarrow> manifest list \<Rightarrow> ent_check \<Rightarrow> platform_db \<Rightarrow> nat option \<Rightarrow> string list \<times> platform_db" where
  "unavailable_apps e reg check db w = (let (live, db) = available_keys e reg check db w
     in (map app_label (filter (\<lambda>m. mf_key m \<notin> set live) (all_manifests reg)), db))"

definition storefront_cache_key :: "nat \<Rightarrow> string \<Rightarrow> string" where
  "storefront_cache_key w lang = ''storefront_config:'' @ show_nat w @ '':'' @ lang"

definition invalidate_storefront :: "nat \<Rightarrow> platform_db \<Rightarrow> platform_db" where
  "invalidate_storefront w db = db\<lparr>cached := fold (\<lambda>lang. cache_delete (storefront_cache_key w lang))
     [''en'', ''zh-hans'', ''zh-hant''] (cached db)\<rparr>"

definition invalidate :: "nat \<Rightarrow> platform_db \<Rightarrow> platform_db" where
  "invalidate w db = invalidate_storefront w
     (db\<lparr>cached := cache_delete (available_cache_key w) (cached db)\<rparr>)"

subsection \<open>What pruning leaves\<close>

definition closed_under :: "(string \<Rightarrow> string list) \<Rightarrow> string set \<Rightarrow> bool" where
  "closed_under req S \<longleftrightarrow> (\<forall>k \<in> S. set (req k) \<subseteq> S)"

lemma prune_fold_keeps:
  "closed_under req S \<Longrightarrow> S \<subseteq> set av \<Longrightarrow>
    S \<subseteq> set (fold (\<lambda>k av. if list_ex (\<lambda>r. r \<notin> set av) (req k) then removeAll k av else av) ks av)"
proof (induction ks arbitrary: av)
  case (Cons k ks)
  have "S \<subseteq> set (if list_ex (\<lambda>r. r \<notin> set av) (req k) then removeAll k av else av)"
  proof (cases "list_ex (\<lambda>r. r \<notin> set av) (req k)")
    case True
    then have "k \<notin> S" using Cons.prems by (auto simp: closed_under_def list_ex_iff)
    with True Cons.prems show ?thesis by auto
  qed (use Cons.prems in simp)
  from Cons.IH [OF Cons.prems(1) this] show ?case by simp
qed simp

lemma prune_fold_fix:
  "set (fold (\<lambda>k av. if list_ex (\<lambda>r. r \<notin> set av) (req k) then removeAll k av else av) ks av) = set av \<Longrightarrow>
    k \<in> set ks \<Longrightarrow> k \<in> set av \<Longrightarrow> set (req k) \<subseteq> set av"
proof (induction ks arbitrary: av)
  case (Cons a ks)
  let ?f = "\<lambda>k av. if list_ex (\<lambda>r. r \<notin> set av) (req k) then removeAll k av else av"
  have same: "set (fold ?f ks (?f a av)) = set av" using Cons.prems(1) by (simp only: fold_simps)
  have "set (fold ?f ks (?f a av)) \<subseteq> set (?f a av)" by (rule prune_fold_subset)
  moreover have "set (?f a av) \<subseteq> set av" by (simp split: if_split)
  ultimately have a: "set (?f a av) = set av" using same by blast
  show ?case
  proof (cases "k = a")
    case True
    have "\<not> list_ex (\<lambda>r. r \<notin> set av) (req a)"
    proof
      assume l: "list_ex (\<lambda>r. r \<notin> set av) (req a)"
      with a have "set (removeAll a av) = set av" by (simp only: if_True)
      with True Cons.prems(3) show False by auto
    qed
    with True show ?thesis by (auto simp: list_ex_iff)
  next
    case False
    then have "k \<in> set ks" using Cons.prems(2) by simp
    from Cons.IH [of "?f a av", OF _ this] a same Cons.prems(3) show ?thesis by simp
  qed
qed simp

lemma prune_subset: "set (prune req ks) \<subseteq> set ks"
proof (induction req ks rule: prune.induct)
  case (1 req ks)
  show ?case
    using 1 prune_pass_subset [of req ks] by (subst prune.simps) (auto simp: Let_def)
qed

lemma prune_closed: "closed_under req (set (prune req ks))"
proof (induction req ks rule: prune.induct)
  case (1 req ks)
  show ?case
  proof (cases "set (prune_pass req ks) = set ks")
    case True
    then have "prune req ks = prune_pass req ks" by (subst prune.simps) (simp add: Let_def)
    with True prune_fold_fix [of req ks ks] show ?thesis
      unfolding closed_under_def by (simp add: prune_pass_def)
  next
    case False
    with 1 show ?thesis by (subst prune.simps) (simp add: Let_def)
  qed
qed

lemma prune_greatest: "closed_under req S \<Longrightarrow> S \<subseteq> set ks \<Longrightarrow> S \<subseteq> set (prune req ks)"
proof (induction req ks rule: prune.induct)
  case (1 req ks)
  have "S \<subseteq> set (prune_pass req ks)"
    using prune_fold_keeps [OF 1(2,3), of ks] by (simp add: prune_pass_def)
  with 1 show ?case by (subst prune.simps) (simp add: Let_def)
qed

lemma compute_available_mono:
  assumes "set (candidate_keys reg check db w x) \<subseteq> set (candidate_keys reg check' db' w' x')"
  shows "set (compute_available_keys reg check db w x) \<subseteq> set (compute_available_keys reg check' db' w' x')"
  unfolding compute_available_keys_def
  by (rule prune_greatest [OF prune_closed]) (use assms prune_subset in blast)

subsection \<open>The cached answer\<close>

lemma cached_invalidate [simp]: "cache_get t (available_cache_key v) (cached (invalidate w db))
    = (if v = w then None else cache_get t (available_cache_key v) (cached db))"
  by (simp add: invalidate_def invalidate_storefront_def available_cache_key_def storefront_cache_key_def)

lemma invalidate_tables [simp]: "ext_records (invalidate w db) = ext_records db"
  "entitlements (invalidate w db) = entitlements db" "workspaces (invalidate w db) = workspaces db"
  "audit_log (invalidate w db) = audit_log db" "invoices (invalidate w db) = invoices db"
  by (simp_all add: invalidate_def invalidate_storefront_def)

lemma available_after_invalidate:
  "fst (available_keys e reg check (invalidate w db) (Some w))
     = compute_available_keys reg check (invalidate w db) (Some w) None"
  by (simp add: available_keys_def Let_def)

subsection \<open>Properties\<close>

text \<open>
  C28: an extension is only as available as what it requires, all the way down, and nothing is
  left out for want of more: the available keys are the greatest set of candidates (always
  available, or active and entitled) in which every key finds all it requires.
\<close>

theorem available_keys_greatest:
  "set (compute_available_keys reg check db w x) \<subseteq> set (candidate_keys reg check db w x) \<and>
   closed_under (requires_of reg) (set (compute_available_keys reg check db w x)) \<and>
   (\<forall>S. S \<subseteq> set (candidate_keys reg check db w x) \<and> closed_under (requires_of reg) S \<longrightarrow>
      S \<subseteq> set (compute_available_keys reg check db w x))"
  using prune_subset prune_closed prune_greatest unfolding compute_available_keys_def by blast

end
