(* ===== verification/Activation.thy ===== *)
theory Activation
  imports Extensions
begin

text \<open>
  The state changes of \<open>extensions/services.py\<close>: who may learn of and change an extension,
  \<open>activate\<close>, \<open>deactivate\<close> and \<open>update_config\<close>, with the storefront skin an activation may set
  (\<open>extensions/storefront_skins.py\<close>). Each is one transaction: \<open>Inl\<close> leaves the database as it was.
\<close>

subsection \<open>Who may see and change what\<close>

definition can_discover :: "manifest \<Rightarrow> string \<Rightarrow> bool" where
  "can_discover m actor =
    (if actor = ACTIVATION_SYSTEM then True
     else if actor = ACTIVATION_PLATFORM_ADMIN then visibility m \<noteq> VISIBILITY_INTERNAL
     else actor = ACTIVATION_WORKSPACE_OWNER \<and> visibility m = VISIBILITY_PUBLIC)"

definition can_manage :: "manifest \<Rightarrow> string \<Rightarrow> bool" where
  "can_manage m actor =
    (if \<not> can_discover m actor then False
     else if actor = ACTIVATION_SYSTEM then True
     else if actor = ACTIVATION_PLATFORM_ADMIN then activation_policy m \<noteq> ACTIVATION_SYSTEM
     else activation_policy m = ACTIVATION_WORKSPACE_OWNER)"

definition require_manageable :: "manifest list \<Rightarrow> string \<Rightarrow> string \<Rightarrow> ext_error + manifest" where
  "require_manageable reg key actor = (case get_manifest reg key of
     None \<Rightarrow> Inl (Ext_Error ''unknown_extension'' [])
   | Some m \<Rightarrow> if \<not> can_manage m actor then Inl (Ext_Error ''unknown_extension'' [])
       else if \<not> is_activatable m then Inl (Ext_Error ''not_activatable'' [])
       else Inr m)"

definition clean_config_of :: "manifest \<Rightarrow> config_value \<Rightarrow> ext_error + string" where
  "clean_config_of m config = (case config of
     Not_Object \<Rightarrow> Inl (Ext_Error ''invalid_config'' [])
   | Object c \<Rightarrow> (case clean_config m of None \<Rightarrow> Inr c
       | Some f \<Rightarrow> (case f c of Inl _ \<Rightarrow> Inl (Ext_Error ''invalid_config'' []) | Inr c' \<Rightarrow> Inr c')))"

subsection \<open>Storefront skins\<close>

definition available_storefront_skins :: "manifest list \<Rightarrow> string list option \<Rightarrow> string list" where
  "available_storefront_skins reg keys = [''store'', ''website''] @
     concat (map storefront_skins (filter (\<lambda>m. case keys of None \<Rightarrow> True | Some ks \<Rightarrow> mf_key m \<in> set ks)
       (all_manifests reg)))"

definition validate_storefront_skin :: "manifest list \<Rightarrow> string \<Rightarrow> string list option \<Rightarrow> ext_error + string" where
  "validate_storefront_skin reg value keys = (let skin = strip value in
     if skin = [] then Inr [] else if skin \<notin> set (available_storefront_skins reg keys) then Inl (Unknown_Skin skin)
     else Inr skin)"

definition new_settings :: workspace_settings where
  "new_settings = \<lparr>default_currency = ''USD'', country = '''', theme = None\<rparr>"

definition settings_of :: "platform_db \<Rightarrow> nat \<Rightarrow> workspace_settings" where
  "settings_of db w = (case workspace_by_id db w of
     Some v \<Rightarrow> (case ws_settings v of Some s \<Rightarrow> s | None \<Rightarrow> new_settings) | None \<Rightarrow> new_settings)"

definition save_settings :: "nat \<Rightarrow> workspace_settings \<Rightarrow> platform_db \<Rightarrow> platform_db" where
  "save_settings w s db = db\<lparr>workspaces := update_where (\<lambda>v. ws_id v = w) (\<lambda>v. v\<lparr>ws_settings := Some s\<rparr>) (workspaces db)\<rparr>"

definition set_storefront_skin :: "manifest list \<Rightarrow> platform_db \<Rightarrow> nat \<Rightarrow> string \<Rightarrow> string list option \<Rightarrow> bool
    \<Rightarrow> ext_error + (bool \<times> platform_db)" where
  "set_storefront_skin reg db w skin keys only_if_empty =
     bind_r (validate_storefront_skin reg skin keys) (\<lambda>skin.
       if skin = [] then Inr (False, db)
       else let s = settings_of db w; db = save_settings w s db in
         if only_if_empty \<and> \<not> (case theme s of None \<Rightarrow> True | Some t \<Rightarrow> strip t = []) then Inr (False, db)
         else if theme s = Some skin then Inr (False, db)
         else Inr (True, invalidate_storefront w (save_settings w (s\<lparr>theme := Some skin\<rparr>) db)))"

subsection \<open>Records\<close>

definition record_of :: "platform_db \<Rightarrow> nat \<Rightarrow> string \<Rightarrow> ext_record option" where
  "record_of db w key = first (filter (\<lambda>r. xr_workspace r = w \<and> xr_key r = key) (ext_records db))"

text \<open>\<open>_locked_records(workspace, keys, ensure=key)[key]\<close>: the record, made inactive when there is none.\<close>

definition ensure_record :: "env \<Rightarrow> platform_db \<Rightarrow> nat \<Rightarrow> string \<Rightarrow> ext_record \<times> platform_db" where
  "ensure_record e db w key = (case record_of db w key of Some r \<Rightarrow> (r, db)
     | None \<Rightarrow> let r = \<lparr>xr_id = fresh_id xr_id (ext_records db), xr_workspace = w, xr_key = key,
           xr_status = Ext_Inactive, xr_reason = '''', xr_config = ''{}'', xr_changed_at = now e,
           xr_changed_by = None, xr_activated_at = None\<rparr>
         in (r, db\<lparr>ext_records := ext_records db @ [r]\<rparr>))"

definition save_record :: "ext_record \<Rightarrow> platform_db \<Rightarrow> platform_db" where
  "save_record r db = db\<lparr>ext_records := update_where (\<lambda>x. xr_id x = xr_id r) (\<lambda>_. r) (ext_records db)\<rparr>"

definition audit_change :: "nat \<Rightarrow> nat option \<Rightarrow> ext_record \<Rightarrow> (ext_status \<times> ext_status) option \<Rightarrow> bool \<Rightarrow> string
    \<Rightarrow> platform_db \<Rightarrow> platform_db" where
  "audit_change w user r status config text db = db\<lparr>audit_log := audit_log db @
     [\<lparr>au_workspace = w, au_user = user, au_record = xr_id r, au_status = status, au_config = config,
       au_description = text\<rparr>]\<rparr>"

definition run_hook :: "hook option \<Rightarrow> platform_db \<Rightarrow> nat \<Rightarrow> ext_record \<Rightarrow> ext_error + platform_db" where
  "run_hook h db w r = (case h of None \<Rightarrow> Inr db
     | Some f \<Rightarrow> (case f db w r of Inl msg \<Rightarrow> Inl (Raised msg) | Inr db' \<Rightarrow> Inr db'))"

subsection \<open>Activating\<close>

text \<open>What \<open>activate\<close> checks, in its order, once the record is locked.\<close>

definition activation_refusal :: "manifest list \<Rightarrow> ent_check \<Rightarrow> platform_db \<Rightarrow> nat \<Rightarrow> manifest \<Rightarrow> ext_record
    \<Rightarrow> ext_error option" where
  "activation_refusal reg check db w m r =
    (if xr_status r \<in> {Ext_Archiving, Ext_Restoring} then Some (Ext_Error ''busy'' [])
     else if xr_status r = Ext_Archived then Some (Ext_Error ''archived'' [])
     else let available = compute_available_keys reg check db (Some w) None;
          missing = filter (\<lambda>k. k \<notin> set available) (requires m) in
       if missing \<noteq> [] then Some (Ext_Error ''requires_inactive'' missing)
       else let unmet = filter (\<lambda>p. \<not> is_met p db w) (prerequisites m) in
         if unmet \<noteq> [] then Some (Ext_Error ''prerequisite_failed'' (map pq_code unmet))
         else case ext_entitled check db w m of
             Inl msg \<Rightarrow> Some (Raised msg)
           | Inr b \<Rightarrow> if \<not> b then Some (Ext_Error ''not_entitled'' []) else None)"

definition activated :: "env \<Rightarrow> nat option \<Rightarrow> string option \<Rightarrow> ext_record \<Rightarrow> ext_record" where
  "activated e user config r = r\<lparr>xr_config := (case config of Some c \<Rightarrow> c | None \<Rightarrow> xr_config r),
     xr_status := Ext_Active, xr_reason := '''', xr_changed_at := now e, xr_changed_by := user,
     xr_activated_at := Some (now e)\<rparr>"

text \<open>The second half of \<open>activate\<close>: from \<open>record.save()\<close> of the changed record \<open>r'\<close> on.\<close>

definition switch_on :: "manifest list \<Rightarrow> platform_db \<Rightarrow> nat \<Rightarrow> string \<Rightarrow> nat option \<Rightarrow> bool \<Rightarrow> manifest
    \<Rightarrow> ext_status \<Rightarrow> ext_record \<Rightarrow> ext_error + (ext_record \<times> platform_db)" where
  "switch_on reg db w key user config_changed m old_status r' =
     bind_r (run_hook (on_activate m) (audit_change w user r' (Some (old_status, Ext_Active)) config_changed
         (''Activated extension '' @ key @ ''.'') (save_record r' db)) w r') (\<lambda>db.
     bind_r (if default_storefront_skin m = [] then Inr db
        else bind_r (set_storefront_skin reg db w (default_storefront_skin m) (Some [mf_key m]) True)
          (\<lambda>(_, db). Inr db)) (\<lambda>db.
     Inr (r', invalidate w db)))"

definition activate :: "env \<Rightarrow> manifest list \<Rightarrow> ent_check \<Rightarrow> platform_db \<Rightarrow> nat \<Rightarrow> string \<Rightarrow> nat option
    \<Rightarrow> config_value option \<Rightarrow> string \<Rightarrow> ext_error + (ext_record \<times> platform_db)" where
  "activate e reg check db w key user config actor =
     bind_r (require_manageable reg key actor) (\<lambda>m.
       let (r, db) = ensure_record e db w key in
       if xr_status r = Ext_Active then Inr (r, db)
       else case activation_refusal reg check db w m r of Some err \<Rightarrow> Inl err
       | None \<Rightarrow>
         bind_r (case config of None \<Rightarrow> Inr None | Some c \<Rightarrow> bind_r (clean_config_of m c) (\<lambda>c. Inr (Some c))) (\<lambda>cfg.
           switch_on reg db w key user (config \<noteq> None) m (xr_status r) (activated e user cfg r)))"

subsection \<open>Deactivating and configuring\<close>

definition dependent_keys :: "manifest list \<Rightarrow> string \<Rightarrow> string list" where
  "dependent_keys reg key = map mf_key (filter (\<lambda>m. key \<in> set (requires m)) (all_manifests reg))"

definition deactivated :: "env \<Rightarrow> nat option \<Rightarrow> string \<Rightarrow> ext_record \<Rightarrow> ext_record" where
  "deactivated e user reason r = r\<lparr>xr_status := Ext_Inactive, xr_reason := reason, xr_changed_at := now e,
     xr_changed_by := user\<rparr>"

definition deactivate :: "env \<Rightarrow> manifest list \<Rightarrow> platform_db \<Rightarrow> nat \<Rightarrow> string \<Rightarrow> nat option \<Rightarrow> string \<Rightarrow> string
    \<Rightarrow> ext_error + (ext_record option \<times> platform_db)" where
  "deactivate e reg db w key user reason actor =
     bind_r (require_manageable reg key actor) (\<lambda>m.
       case record_of db w key of None \<Rightarrow> Inr (None, db)
       | Some r \<Rightarrow>
         if xr_status r \<notin> {Ext_Active, Ext_Paused} then Inr (Some r, db)
         else let dependents = sort (filter (\<lambda>k. case record_of db w k of None \<Rightarrow> False
                 | Some d \<Rightarrow> xr_status d = Ext_Active) (dependent_keys reg key)) in
           if dependents \<noteq> [] then Inl (Ext_Error ''required_by_active'' dependents)
           else let r' = deactivated e user reason r;
                    db = audit_change w user r' (Some (xr_status r, Ext_Inactive)) False
                      (''Deactivated extension '' @ key @ ''.'') (save_record r' db)
             in bind_r (run_hook (on_deactivate m) db w r') (\<lambda>db. Inr (Some r', invalidate w db)))"

definition update_config :: "env \<Rightarrow> manifest list \<Rightarrow> platform_db \<Rightarrow> nat \<Rightarrow> string \<Rightarrow> config_value \<Rightarrow> nat option
    \<Rightarrow> string \<Rightarrow> ext_error + (ext_record \<times> platform_db)" where
  "update_config e reg db w key config user actor =
     bind_r (require_manageable reg key actor) (\<lambda>m.
     bind_r (clean_config_of m config) (\<lambda>cleaned.
       let (r, db) = ensure_record e db w key; r' = r\<lparr>xr_config := cleaned\<rparr>
       in Inr (r', invalidate w (audit_change w user r' None True
            (''Updated configuration for extension '' @ key @ ''.'') (save_record r' db)))))"

subsection \<open>The table of records\<close>

definition ext_ok :: "platform_db \<Rightarrow> bool" where
  "ext_ok db \<longleftrightarrow> distinct (map xr_id (ext_records db)) \<and>
     distinct (map (\<lambda>r. (xr_workspace r, xr_key r)) (ext_records db))"

lemma record_of_Some: "record_of db w k = Some r \<Longrightarrow> r \<in> set (ext_records db) \<and> xr_workspace r = w \<and> xr_key r = k"
  by (auto simp: record_of_def dest: first_filter_SomeD)

lemma record_of_mem:
  assumes "ext_ok db" "r \<in> set (ext_records db)"
  shows "record_of db (xr_workspace r) (xr_key r) = Some r"
proof -
  from assms(2) obtain x where x: "record_of db (xr_workspace r) (xr_key r) = Some x"
    by (cases "record_of db (xr_workspace r) (xr_key r)") (auto simp: record_of_def filter_empty_conv)
  from record_of_Some [OF x] assms have "x = r" by (auto simp: ext_ok_def distinct_map inj_on_def)
  with x show ?thesis by simp
qed

lemma active_keys_iff:
  assumes "ext_ok db"
  shows "k \<in> set (active_keys db w) \<longleftrightarrow> (\<exists>r. record_of db w k = Some r \<and> xr_status r = Ext_Active)"
  using record_of_mem [OF assms] record_of_Some [of db w k] by (auto simp: active_keys_def)

lemma active_keys_cong: "ext_records db' = ext_records db \<Longrightarrow> active_keys db' w = active_keys db w"
  by (simp add: active_keys_def)

lemma record_of_cong: "ext_records db' = ext_records db \<Longrightarrow> record_of db' w k = record_of db w k"
  by (simp add: record_of_def)

lemma ensure_record_spec:
  assumes "ensure_record e db w k = (r, db')" "ext_ok db"
  shows "ext_ok db'" "record_of db' w k = Some r" "xr_workspace r = w" "xr_key r = k"
    "(v, l) \<noteq> (w, k) \<Longrightarrow> record_of db' v l = record_of db v l"
    "record_of db w k = None \<Longrightarrow> xr_status r = Ext_Inactive"
    "record_of db w k \<noteq> None \<Longrightarrow> record_of db w k = Some r \<and> db' = db"
    "db' = db\<lparr>ext_records := ext_records db'\<rparr>"
proof -
  have "ext_ok db' \<and> record_of db' w k = Some r \<and> xr_workspace r = w \<and> xr_key r = k \<and>
    ((v, l) \<noteq> (w, k) \<longrightarrow> record_of db' v l = record_of db v l) \<and>
    (record_of db w k = None \<longrightarrow> xr_status r = Ext_Inactive) \<and>
    (record_of db w k \<noteq> None \<longrightarrow> record_of db w k = Some r \<and> db' = db) \<and>
    db' = db\<lparr>ext_records := ext_records db'\<rparr>"
  proof (cases "record_of db w k")
    case None
    then have r: "xr_id r = fresh_id xr_id (ext_records db)" "xr_workspace r = w" "xr_key r = k"
        "xr_status r = Ext_Inactive" and db': "db' = db\<lparr>ext_records := ext_records db @ [r]\<rparr>"
      using assms(1) by (auto simp: ensure_record_def Let_def)
    have none: "\<forall>x \<in> set (ext_records db). \<not> (xr_workspace x = w \<and> xr_key x = k)"
      using None by (simp add: record_of_def filter_empty_conv)
    have "ext_ok db'" using assms(2) none r by (auto simp: ext_ok_def db')
    moreover have "record_of db' w k = Some r" using None r
      by (simp add: record_of_def db' first_append)
    moreover have "(v, l) \<noteq> (w, k) \<longrightarrow> record_of db' v l = record_of db v l" using r
      by (auto simp: record_of_def db' first_append)
    ultimately show ?thesis using None r db' by simp
  next
    case (Some x)
    with assms record_of_Some [OF Some] show ?thesis by (auto simp: ensure_record_def)
  qed
  then show "ext_ok db'" "record_of db' w k = Some r" "xr_workspace r = w" "xr_key r = k"
    "(v, l) \<noteq> (w, k) \<Longrightarrow> record_of db' v l = record_of db v l"
    "record_of db w k = None \<Longrightarrow> xr_status r = Ext_Inactive"
    "record_of db w k \<noteq> None \<Longrightarrow> record_of db w k = Some r \<and> db' = db"
    "db' = db\<lparr>ext_records := ext_records db'\<rparr>" by blast+
qed

lemma save_record_spec:
  assumes "ext_ok db" "record_of db w k = Some r" "xr_id r' = xr_id r" "xr_workspace r' = w" "xr_key r' = k"
  shows "ext_ok (save_record r' db)"
    "record_of (save_record r' db) v l = (if (v, l) = (w, k) then Some r' else record_of db v l)"
proof -
  note r = record_of_Some [OF assms(2)]
  have up: "update_where (\<lambda>x. xr_id x = xr_id r) (\<lambda>_. r') xs = map (\<lambda>x. if x = r then r' else x) xs"
    if "set xs \<subseteq> set (ext_records db)" for xs
  proof -
    have "xr_id x = xr_id r \<longleftrightarrow> x = r" if "x \<in> set (ext_records db)" for x
      using assms(1) r that by (auto simp: ext_ok_def distinct_map inj_on_def)
    with that show ?thesis by (auto simp: update_where_def)
  qed
  have keys: "map xr_id (map (\<lambda>x. if x = r then r' else x) xs) = map xr_id xs"
    "map (\<lambda>r. (xr_workspace r, xr_key r)) (map (\<lambda>x. if x = r then r' else x) xs)
      = map (\<lambda>r. (xr_workspace r, xr_key r)) xs" for xs
    using r assms(3-5) by simp_all
  have rows: "ext_records (save_record r' db) = map (\<lambda>x. if x = r then r' else x) (ext_records db)"
    by (simp add: save_record_def assms(3) up)
  show "ext_ok (save_record r' db)"
    using assms(1) unfolding ext_ok_def rows keys .
  have tab: "ext_records (save_record r' db) = update_where (\<lambda>x. xr_id x = xr_id r) (\<lambda>_. r') (ext_records db)"
    by (simp add: save_record_def assms(3))
  have "record_of (save_record r' db) v l
      = (case record_of db v l of None \<Rightarrow> None | Some x \<Rightarrow> Some (if x = r then r' else x))"
    unfolding record_of_def tab
    by (rule first_filter_update) (use assms r in \<open>simp_all add: ext_ok_def\<close>)
  then show "record_of (save_record r' db) v l = (if (v, l) = (w, k) then Some r' else record_of db v l)"
    using assms(2) r record_of_Some [of db v l] by (auto split: option.splits)
qed

subsection \<open>What an activation does\<close>

text \<open>
  A hook that only touches tables of its own: it leaves the activation records and the
  entitlements as they are.
\<close>

definition quiet :: "hook option \<Rightarrow> bool" where
  "quiet h \<longleftrightarrow> (\<forall>f db w r db'. h = Some f \<and> f db w r = Inr db' \<longrightarrow>
     ext_records db' = ext_records db \<and> entitlements db' = entitlements db)"

lemma run_hook_quiet: "quiet h \<Longrightarrow> run_hook h db w r = Inr db' \<Longrightarrow>
    ext_records db' = ext_records db \<and> entitlements db' = entitlements db"
  unfolding quiet_def run_hook_def by (auto split: option.splits sum.splits)

lemma set_skin_tables: "set_storefront_skin reg db w s ks b = Inr (x, db') \<Longrightarrow>
    ext_records db' = ext_records db \<and> entitlements db' = entitlements db"
  by (auto simp: set_storefront_skin_def bind_r_Inr Let_def save_settings_def invalidate_storefront_def
      split: if_splits)

lemma activation_refusal_None:
  assumes "activation_refusal reg check db w m r = None"
  shows "\<forall>k \<in> set (requires m). k \<in> set (compute_available_keys reg check db (Some w) None)"
    "ext_entitled check db w m = Inr True" "\<forall>p \<in> set (prerequisites m). is_met p db w"
    "xr_status r \<notin> {Ext_Archiving, Ext_Restoring, Ext_Archived}"
  using assms by (auto simp: activation_refusal_def Let_def filter_empty_conv split: if_splits sum.splits)

lemma require_manageable_Inr: "require_manageable reg key actor = Inr m \<longleftrightarrow>
    get_manifest reg key = Some m \<and> can_manage m actor \<and> is_activatable m"
  by (auto simp: require_manageable_def split: option.splits if_splits)

lemma ensure_record_entitlements: "ensure_record e db w k = (r, db') \<Longrightarrow> entitlements db' = entitlements db"
  by (auto simp: ensure_record_def Let_def split: option.splits)

lemma switch_on_Inr:
  assumes "switch_on reg db w key user b m old r' = Inr (r, db')" "quiet (on_activate m)"
  shows "r = r' \<and> ext_records db' = ext_records (save_record r' db) \<and> entitlements db' = entitlements db \<and>
    (\<exists>db1. db' = invalidate w db1)"
proof -
  from assms(1) obtain db1 db2 where
    h: "run_hook (on_activate m) (audit_change w user r' (Some (old, Ext_Active)) b
         (''Activated extension '' @ key @ ''.'') (save_record r' db)) w r' = Inr db1"
    and s: "(if default_storefront_skin m = [] then Inr db1
        else bind_r (set_storefront_skin reg db1 w (default_storefront_skin m) (Some [mf_key m]) True)
          (\<lambda>(_, db). Inr db)) = Inr db2"
    and db': "r = r'" "db' = invalidate w db2"
    unfolding switch_on_def bind_r_Inr by blast
  have "ext_records db1 = ext_records (save_record r' db) \<and> entitlements db1 = entitlements db"
    using run_hook_quiet [OF assms(2) h] by (simp add: audit_change_def save_record_def)
  moreover have "ext_records db2 = ext_records db1 \<and> entitlements db2 = entitlements db1"
    using s set_skin_tables by (auto simp: bind_r_Inr split: if_splits)
  ultimately show ?thesis using db' by auto
qed

lemma activate_cases:
  assumes "activate e reg check db w key user config actor = Inr (r, db')"
    and "require_manageable reg key actor = Inr m" and "ext_ok db" and "quiet (on_activate m)"
  obtains (already) "record_of db w key = Some r" "xr_status r = Ext_Active" "db' = db"
  | (switched) r0 db0 where "ensure_record e db w key = (r0, db0)" "xr_status r0 \<noteq> Ext_Active"
      "activation_refusal reg check db0 w m r0 = None" "xr_status r = Ext_Active"
      "xr_id r = xr_id r0" "xr_workspace r = w" "xr_key r = key"
      "ext_records db' = ext_records (save_record r db0)" "entitlements db' = entitlements db"
      "\<exists>db1. db' = invalidate w db1"
proof -
  obtain r0 db0 where en: "ensure_record e db w key = (r0, db0)" by fastforce
  note sp = ensure_record_spec [OF en assms(3)]
  show ?thesis
  proof (cases "xr_status r0 = Ext_Active")
    case True
    have "r0 = r" "db0 = db'" using True assms(1,2) en by (simp_all add: activate_def)
    moreover have "record_of db w key = Some r0 \<and> db0 = db"
      using sp(6,7) True by (cases "record_of db w key") auto
    ultimately show ?thesis using True by (intro already) auto
  next
    case False
    have ref: "activation_refusal reg check db0 w m r0 = None"
      using assms(1,2) en False by (auto simp: activate_def split: option.splits)
    with assms(1,2) en False obtain cfg where
      "switch_on reg db0 w key user (config \<noteq> None) m (xr_status r0) (activated e user cfg r0) = Inr (r, db')"
      by (auto simp: activate_def bind_r_Inr)
    from switch_on_Inr [OF this assms(4)] show ?thesis
      using switched [OF en False ref] sp(3,4) ensure_record_entitlements [OF en]
      by (auto simp: activated_def)
  qed
qed

lemma switched_records:
  assumes "ensure_record e db w key = (r0, db0)" "ext_ok db" "xr_id r = xr_id r0" "xr_workspace r = w" "xr_key r = key"
    and "ext_records db' = ext_records (save_record r db0)"
  shows "ext_ok db'" "record_of db' v l = (if (v, l) = (w, key) then Some r else record_of db v l)"
proof -
  note sp = ensure_record_spec [OF assms(1,2)]
  note sv = save_record_spec [OF sp(1,2) assms(3-5)]
  show "ext_ok db'" using sv(1) by (simp add: ext_ok_def assms(6))
  show "record_of db' v l = (if (v, l) = (w, key) then Some r else record_of db v l)"
    using sv(2) [of v l] sp(5) [of v l] record_of_cong [OF assms(6)] by simp
qed

lemma deactivate_cases:
  assumes "deactivate e reg db w key user reason actor = Inr (res, db')"
    and "require_manageable reg key actor = Inr m" and "ext_ok db" and "quiet (on_deactivate m)"
  obtains (same) "db' = db" "res = record_of db w key"
      "\<And>r. res = Some r \<Longrightarrow> xr_status r \<notin> {Ext_Active, Ext_Paused}"
  | (switched) r0 r where "record_of db w key = Some r0" "res = Some r" "xr_status r = Ext_Inactive"
      "xr_workspace r = w" "xr_key r = key" "ext_ok db'"
      "\<And>v l. record_of db' v l = (if (v, l) = (w, key) then Some r else record_of db v l)"
      "\<And>d. d \<in> set (dependent_keys reg key) \<Longrightarrow> d \<notin> set (active_keys db w)"
      "entitlements db' = entitlements db" "\<exists>db1. db' = invalidate w db1"
proof (cases "record_of db w key")
  case None
  with assms(1,2) same show ?thesis by (simp add: deactivate_def)
next
  case (Some r0)
  show ?thesis
  proof (cases "xr_status r0 \<in> {Ext_Active, Ext_Paused}")
    case False
    with assms(1,2) Some same show ?thesis by (simp add: deactivate_def)
  next
    case True
    let ?r = "deactivated e user reason r0"
    let ?ds = "sort (filter (\<lambda>k. case record_of db w k of None \<Rightarrow> False
                 | Some d \<Rightarrow> xr_status d = Ext_Active) (dependent_keys reg key))"
    have ds: "?ds = []" using assms(1,2) Some True by (auto simp: deactivate_def Let_def split: if_splits)
    with assms(1,2) Some True obtain db1 where
      h: "run_hook (on_deactivate m) (audit_change w user ?r (Some (xr_status r0, Ext_Inactive)) False
          (''Deactivated extension '' @ key @ ''.'') (save_record ?r db)) w ?r = Inr db1"
      and res: "res = Some ?r" "db' = invalidate w db1"
      by (auto simp: deactivate_def Let_def bind_r_Inr)
    from run_hook_quiet [OF assms(4) h] have recs: "ext_records db' = ext_records (save_record ?r db)"
      and ents: "entitlements db' = entitlements db"
      by (simp_all add: res audit_change_def save_record_def)
    note r0 = record_of_Some [OF Some]
    have "xr_id ?r = xr_id r0" "xr_workspace ?r = w" "xr_key ?r = key" using r0 by (simp_all add: deactivated_def)
    note sv = save_record_spec [OF assms(3) Some this]
    have "set ?ds = {}" using ds by simp
    then have dep: "d \<in> set (dependent_keys reg key) \<Longrightarrow> d \<notin> set (active_keys db w)" for d
      by (auto simp: active_keys_iff [OF assms(3)] split: option.splits)
    show ?thesis
    proof (rule switched [OF Some res(1)])
      show "ext_ok db'" using sv(1) by (simp add: ext_ok_def recs)
      show "record_of db' v l = (if (v, l) = (w, key) then Some ?r else record_of db v l)" for v l
        using sv(2) [of v l] record_of_cong [OF recs] by simp
    qed (use r0 dep ents res in \<open>auto simp: deactivated_def\<close>)
  qed
qed

subsection \<open>The contract of an entitlement check\<close>

text \<open>
  What switching an extension on relies on: the deployment's check does not read the
  activation records or anything else activation writes.
\<close>

locale entitlement_backend =
  fixes entitled :: "platform_db \<Rightarrow> nat \<Rightarrow> manifest \<Rightarrow> string + bool"
  assumes frame: "entitlements db' = entitlements db \<Longrightarrow> entitled db' w m = entitled db w m"
begin

lemma entitled_cong: "entitlements db' = entitlements db \<Longrightarrow>
    entitled_or_unavailable (Some entitled) db' w m = entitled_or_unavailable (Some entitled) db w m"
  using frame [of db' db w m] by (simp add: entitled_or_unavailable_def ext_entitled_def)

lemma candidates_mono:
  assumes "entitlements db' = entitlements db" "set (active_keys db w) \<subseteq> set (active_keys db' w)"
  shows "set (candidate_keys reg (Some entitled) db (Some w) None)
    \<subseteq> set (candidate_keys reg (Some entitled) db' (Some w) None)"
  using assms(2) by (auto simp: candidate_keys_def entitled_cong [OF assms(1)] split: option.splits)

lemma activate_available:
  assumes "activate e reg (Some entitled) db w key user config actor = Inr (r, db')"
    and "require_manageable reg key actor = Inr m" "ext_ok db" "quiet (on_activate m)"
    and "key \<notin> set (active_keys db w)"
  shows "xr_status r = Ext_Active \<and> fst (is_available e' reg (Some entitled) db' (Some w) key)"
  using assms(1-4)
proof (cases rule: activate_cases)
  case already
  then have "key \<in> set (active_keys db w)" by (simp add: active_keys_iff assms(3))
  with assms(5) show ?thesis by simp
next
  case (switched r0 db0)
  note sp = ensure_record_spec [OF switched(1) assms(3)]
  note rec = switched_records [OF switched(1) assms(3) switched(5-8)]
  have m: "get_manifest reg key = Some m" "scope m = SCOPE_WORKSPACE"
    using assms(2) by (simp_all add: require_manageable_Inr is_activatable_def)
  have act: "l \<in> set (active_keys db' w)" if "l \<in> set (active_keys db0 w)" for l
  proof (cases "l = key")
    case True
    with rec switched(4) show ?thesis by (simp add: active_keys_iff)
  next
    case False
    with that sp(1) sp(5) [of w l] rec show ?thesis by (auto simp: active_keys_iff)
  qed
  have ent: "entitlements db' = entitlements db0"
    using switched(9) ensure_record_entitlements [OF switched(1)] by simp
  let ?C = "set (candidate_keys reg (Some entitled) db' (Some w) None)"
  let ?R = "set (compute_available_keys reg (Some entitled) db0 (Some w) None)"
  have "?R \<subseteq> ?C"
    using candidates_mono [OF ent, of w reg] act prune_subset unfolding compute_available_keys_def by blast
  moreover have "key \<in> ?C"
  proof -
    have "key \<in> set (active_keys db' w)" using rec switched(4) by (simp add: active_keys_iff)
    moreover have "entitled_or_unavailable (Some entitled) db' w m"
      unfolding entitled_cong [OF ent] using activation_refusal_None(2) [OF switched(3)]
      by (simp add: entitled_or_unavailable_def)
    ultimately show ?thesis using m by (simp add: candidate_keys_def)
  qed
  moreover have "closed_under (requires_of reg) (insert key ?R)"
  proof -
    have "set (requires m) \<subseteq> ?R" using activation_refusal_None(1) [OF switched(3)] by blast
    then show ?thesis
      using prune_closed [of "requires_of reg" "candidate_keys reg (Some entitled) db0 (Some w) None"] m(1)
      unfolding closed_under_def compute_available_keys_def by (auto simp: requires_of_def)
  qed
  ultimately have "insert key ?R \<subseteq> set (compute_available_keys reg (Some entitled) db' (Some w) None)"
    unfolding compute_available_keys_def by (intro prune_greatest) simp_all
  moreover from switched(10) obtain db1 where "db' = invalidate w db1" by blast
  ultimately show ?thesis
    using m switched(4) available_after_invalidate
    by (simp add: is_available_def case_prod_beta)
qed

end

subsection \<open>Properties\<close>

text \<open>
  a manifest's activation policy alone decides who may change its extension. Of a manifest
  that passed its own checks, the workspace owner may change it exactly under the owner policy,
  a platform administrator exactly when the policy is not \<open>system\<close>, system callers always and
  any other actor never; and whoever may change it may also learn that it is there.
\<close>

theorem management_follows_policy:
  assumes "post_init m0 = Inr m"
  shows "(can_manage m ACTIVATION_WORKSPACE_OWNER \<longleftrightarrow> activation_policy m = ACTIVATION_WORKSPACE_OWNER) \<and>
    (can_manage m ACTIVATION_PLATFORM_ADMIN \<longleftrightarrow> activation_policy m \<noteq> ACTIVATION_SYSTEM) \<and>
    can_manage m ACTIVATION_SYSTEM \<and>
    (actor \<notin> {ACTIVATION_WORKSPACE_OWNER, ACTIVATION_PLATFORM_ADMIN, ACTIVATION_SYSTEM} \<longrightarrow> \<not> can_discover m actor) \<and>
    (can_manage m actor \<longrightarrow> can_discover m actor)"
proof -
  have "later_problem m = None" using post_init_Inr [OF assms] by blast
  note ok = later_problem_None [OF this]
  have "ACTIVATION_SYSTEM \<noteq> ACTIVATION_PLATFORM_ADMIN" "ACTIVATION_SYSTEM \<noteq> ACTIVATION_WORKSPACE_OWNER"
    "ACTIVATION_PLATFORM_ADMIN \<noteq> ACTIVATION_WORKSPACE_OWNER"
    by (simp_all add: manifest_constants)
  with ok(1,2,6) show ?thesis by (auto simp: can_manage_def can_discover_def)
qed

text \<open>Every workspace extension an active extension requires is active too.\<close>

definition requirements_active :: "manifest list \<Rightarrow> platform_db \<Rightarrow> nat \<Rightarrow> bool" where
  "requirements_active reg db w \<longleftrightarrow> (\<forall>k \<in> set (active_keys db w). \<forall>q \<in> set (requires_of reg k).
     (case get_manifest reg q of Some m \<Rightarrow> scope m = SCOPE_WORKSPACE | None \<Rightarrow> False) \<longrightarrow>
       q \<in> set (active_keys db w))"

lemma available_active:
  assumes "q \<in> set (compute_available_keys reg check db (Some w) None)" "registry_ok reg"
    and "get_manifest reg q = Some m" "scope m = SCOPE_WORKSPACE"
  shows "q \<in> set (active_keys db w)"
proof -
  have "q \<in> set (candidate_keys reg check db (Some w) None)"
    using assms(1) prune_subset unfolding compute_available_keys_def by blast
  then show ?thesis
    using assms(2-4) get_manifest_mem [OF assms(2)] by (auto simp: candidate_keys_def)
qed

text \<open>
  what is switched on never lacks what it requires. Neither activating nor deactivating an
  extension leaves an active extension of the workspace whose required workspace extension is
  not active; deactivating refuses while an active one depends on it.
\<close>

theorem requirements_stay_active:
  assumes "ext_ok db" "registry_ok reg" "requirements_active reg db w"
    and "require_manageable reg key actor = Inr m" "quiet (on_activate m)" "quiet (on_deactivate m)"
  shows "(case activate e reg check db w key user config actor of
      Inr (r, db') \<Rightarrow> requirements_active reg db' w | Inl _ \<Rightarrow> True) \<and>
    (case deactivate e reg db w key user reason actor of
      Inr (r, db') \<Rightarrow> requirements_active reg db' w | Inl _ \<Rightarrow> True)"
proof -
  have "requirements_active reg db' w"
    if a: "activate e reg check db w key user config actor = Inr (r, db')" for r db'
    using a assms(4,1,5)
  proof (cases rule: activate_cases)
    case already
    with assms(3) show ?thesis by simp
  next
    case (switched r0 db0)
    note sp = ensure_record_spec [OF switched(1) assms(1)]
    note rec = switched_records [OF switched(1) assms(1) switched(5-8)]
    have act: "k \<in> set (active_keys db' w) \<longleftrightarrow> k = key \<or> k \<in> set (active_keys db w)" for k
      using rec switched(4) by (auto simp: active_keys_iff assms(1))
    have "k \<in> set (active_keys db0 w) \<Longrightarrow> k \<in> set (active_keys db' w)" for k
      using sp(1) sp(5) [of w k] act by (cases "k = key") (auto simp: active_keys_iff assms(1))
    moreover have "requires_of reg key = requires m" using assms(4) by (simp add: require_manageable_Inr requires_of_def)
    moreover note activation_refusal_None(1) [OF switched(3)] available_active [OF _ assms(2)]
    ultimately show ?thesis
      using assms(3) act unfolding requirements_active_def by (auto split: option.splits) blast+
  qed
  moreover have "requirements_active reg db' w"
    if d: "deactivate e reg db w key user reason actor = Inr (r, db')" for r db'
    using d assms(4,1,6)
  proof (cases rule: deactivate_cases)
    case same
    with assms(3) show ?thesis by simp
  next
    case (switched r0 r1)
    have act: "k \<in> set (active_keys db' w) \<longleftrightarrow> k \<noteq> key \<and> k \<in> set (active_keys db w)" for k
      using switched by (auto simp: active_keys_iff assms(1))
    have "key \<notin> set (requires_of reg k)" if "k \<in> set (active_keys db w)" for k
      using switched(8) [of k] that get_manifest_Some [of reg k]
      by (cases "get_manifest reg k") (auto simp: dependent_keys_def requires_of_def)
    with assms(3) act show ?thesis unfolding requirements_active_def by fastforce
  qed
  ultimately show ?thesis by (auto split: sum.splits)
qed

text \<open>
  an extension that was switched off is not available any more, to the very next request:
  its record is inactive, the cached answer is gone, and no other extension's record changed.
\<close>

theorem deactivated_unavailable:
  assumes "deactivate e reg db w key user reason actor = Inr (Some r, db')"
    and "require_manageable reg key actor = Inr m" "ext_ok db" "quiet (on_deactivate m)" "registry_ok reg"
    and "key \<in> set (active_keys db w)"
  shows "xr_status r = Ext_Inactive \<and> \<not> fst (is_available e' reg check db' (Some w) key) \<and>
    (\<forall>v k. (v, k) \<noteq> (w, key) \<longrightarrow> record_of db' v k = record_of db v k)"
  using assms(1-4)
proof (cases rule: deactivate_cases)
  case same
  then show ?thesis using assms(3,6) by (auto simp: active_keys_iff)
next
  case (switched r0 r1)
  have "key \<notin> set (active_keys db' w)" using switched by (simp add: active_keys_iff)
  then have "key \<notin> set (compute_available_keys reg check db' (Some w) None)"
    using available_active [OF _ assms(5)] assms(2) by (auto simp: require_manageable_Inr is_activatable_def)
  moreover from switched obtain db1 where "db' = invalidate w db1" by blast
  ultimately show ?thesis
    using assms(2) switched available_after_invalidate [of e' reg check w db1]
    by (auto simp: is_available_def case_prod_beta require_manageable_Inr is_activatable_def)
qed

end
