(* ===== verification/Cached_Answers.thy ===== *)
theory Cached_Answers
  imports Platform_Data
begin

text \<open>
  Two services keep a yes or no about a workspace in the cache for a minute: whether it owes an
  overdue bill (\<open>services/billing.py\<close>) and whether it is read only (\<open>services/read_only.py\<close>).
  Their contract is the locale \<open>cached_answer\<close>: the first question asks the database and keeps
  the answer, the questions of the next sixty seconds get that answer, and whatever has made it
  wrong drops it, so that the next question is a fresh one.
\<close>

definition truthy :: "cache_value \<Rightarrow> bool" where
  "truthy v = (case v of Cache_Int n \<Rightarrow> n \<noteq> 0 | Cache_Keys ks \<Rightarrow> ks \<noteq> [])"

locale cached_answer =
  fixes key :: "nat \<Rightarrow> string"
    and answer :: "env \<Rightarrow> platform_db \<Rightarrow> nat \<Rightarrow> bool"
    and ask :: "env \<Rightarrow> platform_db \<Rightarrow> nat \<Rightarrow> bool \<times> platform_db"
    and forget :: "nat \<Rightarrow> platform_db \<Rightarrow> platform_db"
  assumes ask_fresh: "cache_get (now e) (key w) (cached db) = None \<Longrightarrow>
      ask e db w = (answer e db w, db\<lparr>cached := cache_set (now e) (key w)
        (Cache_Int (if answer e db w then 1 else 0)) 60 (cached db)\<rparr>)"
    and ask_cached: "cache_get (now e) (key w) (cached db) = Some v \<Longrightarrow> ask e db w = (truthy v, db)"
    and forget_key: "forget w db = db\<lparr>cached := cache_delete (key w) (cached db)\<rparr>"
    and frame: "answer e (db\<lparr>cached := c\<rparr>) w = answer e db w"
begin

lemma ask_after_forget: "fst (ask e (forget w db) w) = answer e db w"
  using ask_fresh [of e w "forget w db"] by (simp add: forget_key frame)

lemma ask_tables: "\<exists>c. snd (ask e db w) = db\<lparr>cached := c\<rparr>"
proof (cases "cache_get (now e) (key w) (cached db)")
  case None
  from ask_fresh [OF this] show ?thesis by auto
next
  case (Some v)
  have "db = db\<lparr>cached := cached db\<rparr>" by simp
  with ask_cached [OF Some] show ?thesis by (metis snd_conv)
qed

text \<open>The answer is kept for a minute whatever becomes of the database, and no longer.\<close>

lemma ask_within_minute:
  assumes "cache_get (now e) (key w) (cached db) = None" "ask e db w = (b, db1)"
    and "cached db2 = cached db1" "now e \<le> now e'" "now e' < now e + seconds_delta 60"
  shows "ask e' db2 w = (b, db2)"
proof -
  from ask_fresh [OF assms(1)] assms(2,3)
  have "cached db2 = cache_set (now e) (key w) (Cache_Int (if b then 1 else 0)) 60 (cached db)" by auto
  with assms(4,5) have "cache_get (now e') (key w) (cached db2) = Some (Cache_Int (if b then 1 else 0))"
    by (simp add: cache_get_set_later)
  from ask_cached [OF this] show ?thesis by (simp add: truthy_def)
qed

lemma ask_after_minute:
  assumes "cache_get (now e) (key w) (cached db) = None" "ask e db w = (b, db1)"
    and "cached db2 = cached db1" "now e + seconds_delta 60 \<le> now e'"
  shows "fst (ask e' db2 w) = answer e' db2 w"
proof -
  from ask_fresh [OF assms(1)] assms(2,3)
  have "cached db2 = cache_set (now e) (key w) (Cache_Int (if b then 1 else 0)) 60 (cached db)" by auto
  with assms(4) have "cache_get (now e') (key w) (cached db2) = None" by (simp add: cache_get_expired)
  from ask_fresh [OF this] show ?thesis by simp
qed

end

end
