(* ===== verification/Entitlements.thy ===== *)
theory Entitlements
  imports Activation Cached_Answers
begin

text \<open>
  \<open>services/entitlements.py\<close>, \<open>models/entitlement.py\<close> and \<open>services/read_only.py\<close>: when an
  entitlement grants use of its key, granting one, the sweep that settles periods that have run
  out and pauses what they paid for, and read-only mode.

  \<open>live\<close> is the one rule (\<open>live_filter\<close>). \<open>entitlement_check\<close> is the deployment's entitlement check
  for extensions, an interpretation of \<open>entitlement_backend\<close>.
\<close>

definition KEY_BASE_PLAN :: string where
  "KEY_BASE_PLAN = ''''"

definition live :: "env \<Rightarrow> moment \<Rightarrow> entitlement \<Rightarrow> bool" where
  "live e t r = (let cutoff = t - days_delta (int (grace_days e)) in
     (en_status r = Ent_Active \<and> (case current_period_end r of None \<Rightarrow> True | Some p \<Rightarrow> cutoff \<le> p)) \<or>
     (en_status r = Ent_Grace \<and> (case grace_until r of None \<Rightarrow> True | Some g \<Rightarrow> t \<le> g)))"

definition is_live :: "env \<Rightarrow> platform_db \<Rightarrow> entitlement \<Rightarrow> moment option \<Rightarrow> bool" where
  "is_live e db row moment = (let t = (case moment of Some t \<Rightarrow> t | None \<Rightarrow> now e) in
     list_ex (\<lambda>r. en_id r = en_id row \<and> live e t r) (entitlements db))"

definition entitled_at :: "env \<Rightarrow> moment \<Rightarrow> platform_db \<Rightarrow> nat \<Rightarrow> string \<Rightarrow> bool" where
  "entitled_at e t db w key = list_ex (\<lambda>r. en_workspace r = w \<and> en_key r = key \<and> live e t r) (entitlements db)"

definition is_entitled :: "env \<Rightarrow> platform_db \<Rightarrow> nat option \<Rightarrow> string \<Rightarrow> bool" where
  "is_entitled e db w key = (case w of None \<Rightarrow> False | Some w \<Rightarrow> entitled_at e (now e) db w key)"

subsection \<open>Read-only mode\<close>

definition read_only_key :: "nat \<Rightarrow> string" where
  "read_only_key w = ''platform:read-only:'' @ show_nat w"

text \<open>
  \<open>ask_read_only\<close> is \<open>is_read_only\<close> behind its switch. \<open>entitled\<close> stands for the call of
  \<open>is_entitled\<close>, which may raise: that is answered with "not read only" and not cached.
\<close>

definition ask_read_only :: "(platform_db \<Rightarrow> nat \<Rightarrow> string + bool) \<Rightarrow> env \<Rightarrow> platform_db \<Rightarrow> nat \<Rightarrow> bool \<times> platform_db" where
  "ask_read_only entitled e db w = (case cache_get (now e) (read_only_key w) (cached db) of
     Some v \<Rightarrow> (truthy v, db)
   | None \<Rightarrow> (case entitled db w of
       Inl _ \<Rightarrow> (False, db)
     | Inr yes \<Rightarrow> (\<not> yes, db\<lparr>cached := cache_set (now e) (read_only_key w)
          (Cache_Int (if yes then 0 else 1)) 60 (cached db)\<rparr>)))"

definition is_read_only :: "(platform_db \<Rightarrow> nat \<Rightarrow> string + bool) \<Rightarrow> env \<Rightarrow> platform_db \<Rightarrow> nat option \<Rightarrow> bool \<times> platform_db" where
  "is_read_only entitled e db w =
    (if \<not> read_only_when_unentitled e then (False, db)
     else case w of None \<Rightarrow> (False, db) | Some w \<Rightarrow> ask_read_only entitled e db w)"

definition forget_read_only :: "nat \<Rightarrow> platform_db \<Rightarrow> platform_db" where
  "forget_read_only w db = db\<lparr>cached := cache_delete (read_only_key w) (cached db)\<rparr>"

text \<open>The question as the deployment asks it, of a database that answers.\<close>

definition base_plan_entitled :: "env \<Rightarrow> platform_db \<Rightarrow> nat \<Rightarrow> string + bool" where
  "base_plan_entitled e db w = Inr (is_entitled e db (Some w) KEY_BASE_PLAN)"

subsection \<open>Granting\<close>

definition new_entitlement :: "platform_db \<Rightarrow> nat \<Rightarrow> string \<Rightarrow> nat option \<Rightarrow> ent_source \<Rightarrow> moment
    \<Rightarrow> moment option \<Rightarrow> string \<Rightarrow> entitlement" where
  "new_entitlement db w key pl src start period_end reason = \<lparr>en_id = fresh_id en_id (entitlements db),
     en_workspace = w, en_key = key, en_plan = pl, en_source = src, starts_at = start,
     current_period_end = period_end, grace_until = None, en_status = Ent_Active, en_reason = reason,
     ended_reason = ''''\<rparr>"

definition grant :: "env \<Rightarrow> platform_db \<Rightarrow> nat \<Rightarrow> string \<Rightarrow> int option \<Rightarrow> nat option \<Rightarrow> string
    \<Rightarrow> entitlement \<times> platform_db" where
  "grant e db w key months pl reason =
    (let period_end = (case months of None \<Rightarrow> None
           | Some n \<Rightarrow> if n = 0 then None else Some (add_months (now e) n));
         row = new_entitlement db w key pl Granted (now e) period_end reason
     in (row, forget_read_only w (db\<lparr>entitlements := entitlements db @ [row]\<rparr>)))"

definition entitlement_check :: "env \<Rightarrow> platform_db \<Rightarrow> nat \<Rightarrow> manifest \<Rightarrow> string + bool" where
  "entitlement_check e db w m =
     Inr (if pricing m = PRICING_CORE then True else is_entitled e db (Some w) (mf_key m))"

subsection \<open>The sweep\<close>

definition ENDED_REASON :: string where
  "ENDED_REASON = ''grace period ended without a renewal''"

definition PAUSED_REASON :: string where
  "PAUSED_REASON = ''entitlement_ended''"

definition paused :: "moment \<Rightarrow> ext_record \<Rightarrow> ext_record" where
  "paused t r = r\<lparr>xr_status := Ext_Paused, xr_reason := PAUSED_REASON, xr_changed_at := t,
     xr_changed_by := None\<rparr>"

definition pause_extensions :: "env \<Rightarrow> platform_db \<Rightarrow> (nat \<times> string) list \<Rightarrow> moment \<Rightarrow> nat \<times> platform_db" where
  "pause_extensions e db pairs t =
    (let wanted = filter (\<lambda>p. snd p \<noteq> KEY_BASE_PLAN) pairs;
         lapsed = filter (\<lambda>(w, k). \<not> entitled_at e t db w k) wanted;
         hit = (\<lambda>r. xr_status r = Ext_Active \<and> (xr_workspace r, xr_key r) \<in> set lapsed);
         affected = sort (remdups (map xr_workspace (filter hit (ext_records db))))
     in (count_where hit (ext_records db),
         fold invalidate affected (db\<lparr>ext_records := update_where hit (paused t) (ext_records db)\<rparr>)))"

definition due_for_grace :: "moment \<Rightarrow> entitlement \<Rightarrow> bool" where
  "due_for_grace t r \<longleftrightarrow> en_status r = Ent_Active \<and>
     (case current_period_end r of None \<Rightarrow> False | Some p \<Rightarrow> p < t)"

definition to_grace :: "env \<Rightarrow> entitlement \<Rightarrow> entitlement" where
  "to_grace e r = r\<lparr>en_status := Ent_Grace,
     grace_until := map_option (\<lambda>p. p + days_delta (int (grace_days e))) (current_period_end r)\<rparr>"

definition grace_lapsed :: "moment \<Rightarrow> entitlement \<Rightarrow> bool" where
  "grace_lapsed t r \<longleftrightarrow> en_status r = Ent_Grace \<and> (case grace_until r of None \<Rightarrow> False | Some g \<Rightarrow> g < t)"

definition to_ended :: "entitlement \<Rightarrow> entitlement" where
  "to_ended r = r\<lparr>en_status := Ent_Ended, ended_reason := ENDED_REASON\<rparr>"

record sweep_counts =
  moved_to_grace :: nat
  ended :: nat
  extensions_paused :: nat

definition close_due_periods :: "env \<Rightarrow> platform_db \<Rightarrow> moment option \<Rightarrow> sweep_counts \<times> platform_db" where
  "close_due_periods e db moment =
    (let t = (case moment of Some t \<Rightarrow> t | None \<Rightarrow> now e);
         moved = count_where (due_for_grace t) (entitlements db);
         db = db\<lparr>entitlements := update_where (due_for_grace t) (to_grace e) (entitlements db)\<rparr>;
         lapsed = filter (grace_lapsed t) (entitlements db)
     in if lapsed = [] then (\<lparr>moved_to_grace = moved, ended = 0, extensions_paused = 0\<rparr>, db)
        else let hit = (\<lambda>r. en_id r \<in> en_id ` set lapsed \<and> en_status r = Ent_Grace);
             settled = count_where hit (entitlements db);
             db = db\<lparr>entitlements := update_where hit to_ended (entitlements db)\<rparr>;
             (n, db) = pause_extensions e db (map (\<lambda>r. (en_workspace r, en_key r)) lapsed) t
        in (\<lparr>moved_to_grace = moved, ended = settled, extensions_paused = n\<rparr>, db))"

subsection \<open>The two contracts\<close>

interpretation platform_backend: entitlement_backend "entitlement_check e" for e
  by unfold_locales (simp add: entitlement_check_def is_entitled_def entitled_at_def)

interpretation read_only: cached_answer read_only_key
  "\<lambda>e db w. \<not> is_entitled e db (Some w) KEY_BASE_PLAN" "\<lambda>e. ask_read_only (base_plan_entitled e) e"
  forget_read_only
  by unfold_locales (auto simp: ask_read_only_def base_plan_entitled_def forget_read_only_def
      is_entitled_def entitled_at_def)

subsection \<open>What the sweep does to a row\<close>

definition sweep_row :: "env \<Rightarrow> moment \<Rightarrow> entitlement \<Rightarrow> entitlement" where
  "sweep_row e t r = (let r1 = if due_for_grace t r then to_grace e r else r
     in if grace_lapsed t r1 then to_ended r1 else r1)"

lemma sweep_row_fields [simp]:
  "en_id (sweep_row e t r) = en_id r" "en_workspace (sweep_row e t r) = en_workspace r"
  "en_key (sweep_row e t r) = en_key r" "en_plan (sweep_row e t r) = en_plan r"
  "en_source (sweep_row e t r) = en_source r" "current_period_end (sweep_row e t r) = current_period_end r"
  by (simp_all add: sweep_row_def to_grace_def to_ended_def Let_def)

lemma live_sweep_row: "live e t (sweep_row e t r) = live e t r"
  by (auto simp: sweep_row_def live_def due_for_grace_def grace_lapsed_def to_grace_def to_ended_def Let_def
      split: option.splits)

lemma sweep_row_settled: "\<not> due_for_grace t (sweep_row e t r)" "\<not> grace_lapsed t (sweep_row e t r)"
  by (auto simp: sweep_row_def due_for_grace_def grace_lapsed_def to_grace_def to_ended_def Let_def)

text \<open>Active, then grace, then ended: the order a row moves in.\<close>

definition stage :: "ent_status \<Rightarrow> nat" where
  "stage s = (case s of Ent_Active \<Rightarrow> 0 | Ent_Grace \<Rightarrow> 1 | Ent_Ended \<Rightarrow> 2)"

lemma sweep_row_stage: "stage (en_status r) \<le> stage (en_status (sweep_row e t r))"
  by (auto simp: sweep_row_def due_for_grace_def grace_lapsed_def to_grace_def to_ended_def stage_def Let_def
      split: ent_status.splits)

definition ent_ok :: "platform_db \<Rightarrow> bool" where
  "ent_ok db \<longleftrightarrow> distinct (map en_id (entitlements db))"

lemma fold_invalidate_tables: "entitlements (fold invalidate ws db) = entitlements db"
  "ext_records (fold invalidate ws db) = ext_records db"
  "workspaces (fold invalidate ws db) = workspaces db" "invoices (fold invalidate ws db) = invoices db"
  by (induction ws arbitrary: db) simp_all

lemma fold_invalidate_cache: "cache_get t (available_cache_key w) (cached (fold invalidate ws db))
    = (if w \<in> set ws then None else cache_get t (available_cache_key w) (cached db))"
  by (induction ws arbitrary: db) simp_all

lemma update_ids_lapsed:
  assumes "distinct (map en_id rows)"
  shows "update_where (\<lambda>r. en_id r \<in> en_id ` set (filter (grace_lapsed t) rows) \<and> en_status r = Ent_Grace) f rows
    = update_where (grace_lapsed t) f rows"
proof -
  have "(en_id r \<in> en_id ` set (filter (grace_lapsed t) rows) \<and> en_status r = Ent_Grace) = grace_lapsed t r"
    if "r \<in> set rows" for r
    using that assms by (auto simp: distinct_map inj_on_def grace_lapsed_def)
  then show ?thesis by (simp add: update_where_def)
qed

text \<open>The pairs the sweep ends an entitlement of, and the records it pauses for them.\<close>

definition swept_pair :: "env \<Rightarrow> moment \<Rightarrow> platform_db \<Rightarrow> nat \<Rightarrow> string \<Rightarrow> bool" where
  "swept_pair e t db w k \<longleftrightarrow> (\<exists>r \<in> set (entitlements db). en_workspace r = w \<and> en_key r = k \<and>
     en_status r \<noteq> Ent_Ended \<and> en_status (sweep_row e t r) = Ent_Ended)"

definition pauses :: "env \<Rightarrow> moment \<Rightarrow> platform_db \<Rightarrow> ext_record \<Rightarrow> bool" where
  "pauses e t db x \<longleftrightarrow> xr_status x = Ext_Active \<and> xr_key x \<noteq> KEY_BASE_PLAN \<and>
     swept_pair e t db (xr_workspace x) (xr_key x) \<and> \<not> entitled_at e t db (xr_workspace x) (xr_key x)"

lemma entitled_at_sweep: "entitlements db' = map (sweep_row e t) (entitlements db) \<Longrightarrow>
    entitled_at e t db' w k = entitled_at e t db w k"
  by (simp add: entitled_at_def list_ex_iff live_sweep_row)

lemma sweep_rows_two_steps:
  "update_where (grace_lapsed t) to_ended (update_where (due_for_grace t) (to_grace e) rows) = map (sweep_row e t) rows"
  by (simp add: update_where_def sweep_row_def Let_def)

lemma lapsed_pairs:
  "(w, k) \<in> set (map (\<lambda>r. (en_workspace r, en_key r))
      (filter (grace_lapsed t) (update_where (due_for_grace t) (to_grace e) (entitlements db)))) \<longleftrightarrow> swept_pair e t db w k"
proof -
  have a: "en_workspace (if due_for_grace t r then to_grace e r else r) = en_workspace r"
    "en_key (if due_for_grace t r then to_grace e r else r) = en_key r" for r
    by (simp_all add: to_grace_def)
  have b: "grace_lapsed t (if due_for_grace t r then to_grace e r else r) \<longleftrightarrow>
      en_status r \<noteq> Ent_Ended \<and> en_status (sweep_row e t r) = Ent_Ended" for r
    by (cases "en_status r") (auto simp: sweep_row_def Let_def grace_lapsed_def to_ended_def to_grace_def due_for_grace_def)
  have c: "(w, k) \<in> set (map p (filter L (map g xs))) \<longleftrightarrow> (\<exists>r \<in> set xs. L (g r) \<and> p (g r) = (w, k))"
    for p :: "entitlement \<Rightarrow> nat \<times> string" and L g xs by (auto simp: image_iff)
  show ?thesis unfolding swept_pair_def update_where_def c a b by auto
qed

lemma pause_extensions_spec:
  fixes t :: moment
  assumes "pause_extensions e db1 pairs t = (n, db')"
    and "\<And>w k. (w, k) \<in> set pairs \<longleftrightarrow> swept_pair e t db w k"
    and "\<And>w k. entitled_at e t db1 w k = entitled_at e t db w k" and "ext_records db1 = ext_records db"
  shows "ext_records db' = update_where (pauses e t db) (paused t) (ext_records db) \<and>
    n = count_where (pauses e t db) (ext_records db) \<and> entitlements db' = entitlements db1 \<and>
    workspaces db' = workspaces db1 \<and> invoices db' = invoices db1 \<and>
    (\<forall>s w. cache_get s (available_cache_key w) (cached db')
      = (if \<exists>x \<in> set (ext_records db). pauses e t db x \<and> xr_workspace x = w then None
         else cache_get s (available_cache_key w) (cached db1)))"
proof -
  let ?lapsed = "filter (\<lambda>(w, k). \<not> entitled_at e t db1 w k) (filter (\<lambda>p. snd p \<noteq> KEY_BASE_PLAN) pairs)"
  have hit: "(xr_status r = Ext_Active \<and> (xr_workspace r, xr_key r) \<in> set ?lapsed) = pauses e t db r" for r
    using assms(2) [of "xr_workspace r" "xr_key r"] assms(3) by (auto simp: pauses_def)
  have d: "n = count_where (pauses e t db) (ext_records db)"
    "db' = fold invalidate (sort (remdups (map xr_workspace (filter (pauses e t db) (ext_records db)))))
      (db1\<lparr>ext_records := update_where (pauses e t db) (paused t) (ext_records db)\<rparr>)"
    using assms(1) unfolding pause_extensions_def Let_def hit assms(4) by auto
  show ?thesis unfolding d(2) fold_invalidate_tables fold_invalidate_cache using d(1) by auto
qed

lemma close_due_periods_spec:
  assumes "close_due_periods e db (Some t) = (c, db')" "ent_ok db"
  shows "entitlements db' = map (sweep_row e t) (entitlements db)"
    "ext_records db' = update_where (pauses e t db) (paused t) (ext_records db)"
    "moved_to_grace c = count_where (due_for_grace t) (entitlements db)"
    "extensions_paused c = count_where (pauses e t db) (ext_records db)"
    "workspaces db' = workspaces db" "invoices db' = invoices db"
    "cache_get s (available_cache_key w) (cached db')
      = (if \<exists>x \<in> set (ext_records db). pauses e t db x \<and> xr_workspace x = w then None
         else cache_get s (available_cache_key w) (cached db))"
proof -
  let ?rows = "update_where (due_for_grace t) (to_grace e) (entitlements db)"
  let ?db1 = "db\<lparr>entitlements := ?rows\<rparr>"
  let ?db2 = "db\<lparr>entitlements := map (sweep_row e t) (entitlements db)\<rparr>"
  let ?lapsed = "filter (grace_lapsed t) ?rows"
  let ?all = "entitlements db' = map (sweep_row e t) (entitlements db) \<and>
    ext_records db' = update_where (pauses e t db) (paused t) (ext_records db) \<and>
    moved_to_grace c = count_where (due_for_grace t) (entitlements db) \<and>
    extensions_paused c = count_where (pauses e t db) (ext_records db) \<and>
    workspaces db' = workspaces db \<and> invoices db' = invoices db \<and>
    (\<forall>s w. cache_get s (available_cache_key w) (cached db')
      = (if \<exists>x \<in> set (ext_records db). pauses e t db x \<and> xr_workspace x = w then None
         else cache_get s (available_cache_key w) (cached db)))"
  have ids: "distinct (map en_id ?rows)"
    using assms(2) by (simp add: ent_ok_def map_update_where to_grace_def)
  have two: "update_where (grace_lapsed t) to_ended ?rows = map (sweep_row e t) (entitlements db)"
    by (rule sweep_rows_two_steps)
  have ?all
  proof (cases "?lapsed = []")
    case True
    then have "update_where (grace_lapsed t) to_ended ?rows = ?rows"
      by (intro update_where_none) (simp add: filter_empty_conv)
    with two have rows: "?rows = map (sweep_row e t) (entitlements db)" by simp
    have "\<not> swept_pair e t db w k" for w k using lapsed_pairs [of w k t e db] True by simp
    then have np: "\<not> pauses e t db x" for x by (simp add: pauses_def)
    from assms(1) True have "db' = ?db1" "c = \<lparr>moved_to_grace = count_where (due_for_grace t) (entitlements db),
        ended = 0, extensions_paused = 0\<rparr>" by (auto simp: close_due_periods_def Let_def)
    then show ?thesis using rows np by (simp add: update_where_none count_where_def)
  next
    case False
    obtain n db3 where p: "pause_extensions e ?db2 (map (\<lambda>r. (en_workspace r, en_key r)) ?lapsed) t = (n, db3)"
      by fastforce
    have "pause_extensions e ?db2 (map (\<lambda>r. (en_workspace r, en_key r)) ?lapsed) t = (extensions_paused c, db')
      \<and> moved_to_grace c = count_where (due_for_grace t) (entitlements db)"
      using assms(1) False p by (auto simp: close_due_periods_def Let_def
          update_ids_lapsed [OF ids, simplified] two)
    note r = this
    have "ext_records db' = update_where (pauses e t db) (paused t) (ext_records db) \<and>
      extensions_paused c = count_where (pauses e t db) (ext_records db) \<and> entitlements db' = entitlements ?db2 \<and>
      workspaces db' = workspaces ?db2 \<and> invoices db' = invoices ?db2 \<and>
      (\<forall>s w. cache_get s (available_cache_key w) (cached db')
        = (if \<exists>x \<in> set (ext_records db). pauses e t db x \<and> xr_workspace x = w then None
           else cache_get s (available_cache_key w) (cached ?db2)))"
      by (rule pause_extensions_spec [OF conjunct1 [OF r]])
        (rule lapsed_pairs, rule entitled_at_sweep, simp_all)
    with r show ?thesis by simp blast
  qed
  then show "entitlements db' = map (sweep_row e t) (entitlements db)"
    "ext_records db' = update_where (pauses e t db) (paused t) (ext_records db)"
    "moved_to_grace c = count_where (due_for_grace t) (entitlements db)"
    "extensions_paused c = count_where (pauses e t db) (ext_records db)"
    "workspaces db' = workspaces db" "invoices db' = invoices db"
    "cache_get s (available_cache_key w) (cached db')
      = (if \<exists>x \<in> set (ext_records db). pauses e t db x \<and> xr_workspace x = w then None
         else cache_get s (available_cache_key w) (cached db))"
    by blast+
qed

subsection \<open>Properties\<close>

text \<open>
  C32: the sweep delays the pause, never the expiry. It changes nobody's answer: at the moment it
  runs for, every workspace is entitled to exactly the keys it was entitled to before, and every
  row keeps its workspace, key, plan and period and only moves from active to grace to ended.
\<close>

theorem sweep_changes_no_answer:
  assumes "close_due_periods e db (Some t) = (c, db')" "ent_ok db"
  shows "entitled_at e t db' w k = entitled_at e t db w k \<and>
    list_all2 (\<lambda>r r'. en_id r' = en_id r \<and> en_workspace r' = en_workspace r \<and> en_key r' = en_key r \<and>
      en_plan r' = en_plan r \<and> current_period_end r' = current_period_end r \<and>
      stage (en_status r) \<le> stage (en_status r') \<and> live e t r' = live e t r) (entitlements db) (entitlements db')"
  using close_due_periods_spec(1) [OF assms] entitled_at_sweep [of db' e t db]
  by (simp add: list_all2_map2 list_all2_same sweep_row_stage live_sweep_row)

text \<open>
  the sweep is idempotent: run again for the same moment it settles nothing, pauses nothing
  and leaves the database, cache included, exactly as it is.
\<close>

theorem sweep_idempotent:
  assumes "close_due_periods e db (Some t) = (c, db')" "ent_ok db"
  shows "close_due_periods e db' (Some t) = (\<lparr>moved_to_grace = 0, ended = 0, extensions_paused = 0\<rparr>, db')"
proof -
  note rows = close_due_periods_spec(1) [OF assms]
  have none: "\<forall>r \<in> set (entitlements db'). \<not> due_for_grace t r \<and> \<not> grace_lapsed t r"
    by (simp add: rows sweep_row_settled)
  then have "update_where (due_for_grace t) (to_grace e) (entitlements db') = entitlements db'"
    "count_where (due_for_grace t) (entitlements db') = 0" "filter (grace_lapsed t) (entitlements db') = []"
    by (simp_all add: update_where_none count_where_zero filter_empty_conv)
  then show ?thesis by (simp add: close_due_periods_def Let_def)
qed

text \<open>
  C26: an extension is paused exactly when it was active, an entitlement to it ended in this very
  sweep and no live one is left; every other record, and the base plan, is untouched, and the
  cached list of available extensions is dropped for the workspaces concerned.
\<close>

theorem sweep_pauses_exactly_the_lapsed:
  assumes "close_due_periods e db (Some t) = (c, db')" "ent_ok db"
  shows "list_all2 (\<lambda>x x'. x' = (if xr_status x = Ext_Active \<and> xr_key x \<noteq> KEY_BASE_PLAN \<and>
        (\<exists>r \<in> set (entitlements db). en_workspace r = xr_workspace x \<and> en_key r = xr_key x \<and>
          en_status r \<noteq> Ent_Ended \<and> en_status (sweep_row e t r) = Ent_Ended) \<and>
        \<not> entitled_at e t db (xr_workspace x) (xr_key x) then paused t x else x))
      (ext_records db) (ext_records db') \<and>
    (\<forall>x \<in> set (ext_records db). pauses e t db x \<longrightarrow>
      cache_get s (available_cache_key (xr_workspace x)) (cached db') = None)"
proof
  show "list_all2 (\<lambda>x x'. x' = (if xr_status x = Ext_Active \<and> xr_key x \<noteq> KEY_BASE_PLAN \<and>
        (\<exists>r \<in> set (entitlements db). en_workspace r = xr_workspace x \<and> en_key r = xr_key x \<and>
          en_status r \<noteq> Ent_Ended \<and> en_status (sweep_row e t r) = Ent_Ended) \<and>
        \<not> entitled_at e t db (xr_workspace x) (xr_key x) then paused t x else x))
      (ext_records db) (ext_records db')"
    unfolding close_due_periods_spec(2) [OF assms] update_where_def
    by (simp add: list_all2_map2 list_all2_same pauses_def swept_pair_def)
  show "\<forall>x \<in> set (ext_records db). pauses e t db x \<longrightarrow>
      cache_get s (available_cache_key (xr_workspace x)) (cached db') = None"
    using close_due_periods_spec(7) [OF assms] by auto
qed

lemma active_keys_after_sweep:
  assumes "close_due_periods e db (Some t) = (c, db')" "ent_ok db"
  shows "k \<in> set (active_keys db' w) \<Longrightarrow> k \<in> set (active_keys db w)"
    "k \<in> set (active_keys db w) \<Longrightarrow> k \<notin> set (active_keys db' w) \<Longrightarrow>
       \<not> entitled_at e t db w k \<and> (\<exists>r \<in> set (entitlements db). en_key r = k)"
  using close_due_periods_spec(2) [OF assms]
  by (auto simp: active_keys_def set_update_where paused_def pauses_def swept_pair_def)

text \<open>
  pausing takes nothing away that was still available. With the platform's entitlement
  check, the extensions available to a workspace at the moment of the sweep are the same before
  and after it, as long as only add-ons have entitlements.
\<close>

theorem sweep_keeps_availability:
  assumes "close_due_periods e db (Some (now e)) = (c, db')" "ent_ok db"
    and "\<forall>r \<in> set (entitlements db). \<forall>m. get_manifest reg (en_key r) = Some m \<longrightarrow> pricing m \<noteq> PRICING_CORE"
  shows "set (compute_available_keys reg (Some (entitlement_check e)) db' (Some w) None)
    = set (compute_available_keys reg (Some (entitlement_check e)) db (Some w) None)"
proof -
  let ?C = "\<lambda>db. set (candidate_keys reg (Some (entitlement_check e)) db (Some w) None)"
  have ent: "entitled_or_unavailable (Some (entitlement_check e)) db' w m
      = entitled_or_unavailable (Some (entitlement_check e)) db w m" for m
    using entitled_at_sweep [OF close_due_periods_spec(1) [OF assms(1,2)]]
    by (simp add: entitled_or_unavailable_def ext_entitled_def entitlement_check_def is_entitled_def)
  have "k \<in> set (active_keys db' w)"
    if "k \<in> set (active_keys db w)" "get_manifest reg k = Some m"
      "entitled_or_unavailable (Some (entitlement_check e)) db w m" for k m
  proof (rule ccontr)
    assume "k \<notin> set (active_keys db' w)"
    from active_keys_after_sweep(2) [OF assms(1,2) that(1) this] assms(3) that(2,3) get_manifest_Some [OF that(2)]
    show False
      by (auto simp: entitled_or_unavailable_def ext_entitled_def entitlement_check_def is_entitled_def)
  qed
  with active_keys_after_sweep(1) [OF assms(1,2)] have "?C db' = ?C db"
    by (auto simp: candidate_keys_def ent split: option.splits)
  then show ?thesis by (intro equalityI compute_available_mono) simp_all
qed

text \<open>
  a grant counts at once: the workspace is entitled to the key from the moment it is granted
  (for a period that is not negative), and a workspace that was read only for want of a base plan
  is writable on its next request, whatever the cache held.
\<close>

theorem grant_unlocks:
  assumes "grant e db w key months pl reason = (row, db')" "case months of Some n \<Rightarrow> 0 \<le> n | None \<Rightarrow> True"
  shows "is_entitled e db' (Some w) key \<and> row \<in> set (entitlements db') \<and> en_source row = Granted \<and>
    (key = KEY_BASE_PLAN \<longrightarrow> \<not> fst (is_read_only (base_plan_entitled e) e db' (Some w)))"
proof -
  have row: "row \<in> set (entitlements db')" "en_workspace row = w" "en_key row = key" "en_status row = Ent_Active"
    "en_source row = Granted"
    using assms(1) by (auto simp: grant_def Let_def new_entitlement_def forget_read_only_def)
  have "case current_period_end row of None \<Rightarrow> True | Some p \<Rightarrow> now e \<le> p"
    using assms add_months_later [of _ "now e"]
    by (auto simp: grant_def Let_def new_entitlement_def less_imp_le split: option.splits if_splits)
  then have "live e (now e) row"
    using row by (auto simp: live_def Let_def days_delta_def split: option.splits)
  with row have ent: "is_entitled e db' (Some w) key"
    by (auto simp: is_entitled_def entitled_at_def list_ex_iff)
  moreover let ?db1 = "db\<lparr>entitlements := entitlements db @ [row]\<rparr>"
  have "db' = forget_read_only w ?db1" using assms(1) by (auto simp: grant_def Let_def)
  moreover from this ent have "is_entitled e ?db1 (Some w) key"
    by (simp add: forget_read_only_def is_entitled_def entitled_at_def)
  ultimately show ?thesis
    using row read_only.ask_after_forget [of e w ?db1] by (auto simp: is_read_only_def)
qed

text \<open>
  read-only mode is off unless it is switched on, and fails open. With the switch off no
  question is asked and nothing changes; when the question cannot be answered the workspace is
  writable and nothing is cached, so the next request asks again.
\<close>

theorem read_only_fails_open:
  assumes "\<not> read_only_when_unentitled e \<or> w = None \<or>
    (\<exists>v x. w = Some v \<and> cache_get (now e) (read_only_key v) (cached db) = None \<and> entitled db v = Inl x)"
  shows "is_read_only entitled e db w = (False, db)"
  using assms by (auto simp: is_read_only_def ask_read_only_def split: option.splits)

end
