(* ===== verification/Exchange_Rates.thy ===== *)
theory Exchange_Rates
  imports Platform_Data
begin

text \<open>
  \<open>services/exchange_rates.py\<close>, with \<open>ensure_currency\<close> and \<open>get_currency_profile\<close> of the
  onboarding code: the currencies of a deployment, the rates stored for a day, and converting an
  amount at the latest rate stored on or before a day.

  The answer of the rates service is a parameter: nothing when it could not be read, and
  otherwise its rates by code and its date. A text that has the form of a date but names no day
  makes \<open>parse_date\<close> raise.
\<close>

datatype rate_error =
    Exchange_Rate_Not_Found string string date
  | Invalid_Exchange_Rate
  | Rate_Value_Error

subsection \<open>Currencies\<close>

definition clean_code :: "string \<Rightarrow> string" where
  "clean_code code = upper (strip code)"

definition currency_profiles :: "(string \<times> string \<times> nat) list" where
  "currency_profiles = [
    (''AED'', ''UAE Dirham'', 2), (''AUD'', ''Australian Dollar'', 2), (''CAD'', ''Canadian Dollar'', 2),
    (''CHF'', ''Swiss Franc'', 2), (''CNY'', ''Chinese Yuan'', 2), (''EUR'', ''Euro'', 2),
    (''GBP'', ''Pound Sterling'', 2), (''HKD'', ''Hong Kong Dollar'', 2), (''IDR'', ''Indonesian Rupiah'', 0),
    (''INR'', ''Indian Rupee'', 2), (''JPY'', ''Japanese Yen'', 0), (''KRW'', ''South Korean Won'', 0),
    (''MYR'', ''Malaysian Ringgit'', 2), (''NZD'', ''New Zealand Dollar'', 2), (''PHP'', ''Philippine Peso'', 2),
    (''SGD'', ''Singapore Dollar'', 2), (''THB'', ''Thai Baht'', 2), (''TWD'', ''New Taiwan Dollar'', 2),
    (''USD'', ''US Dollar'', 2), (''VND'', ''Vietnamese Dong'', 0)]"

definition get_currency_profile :: "string \<Rightarrow> string \<times> nat" where
  "get_currency_profile code = (let c = take 3 (clean_code code) in
     case map_of currency_profiles c of Some p \<Rightarrow> p | None \<Rightarrow> (c, 2))"

definition find_currency :: "platform_db \<Rightarrow> string \<Rightarrow> currency option" where
  "find_currency db code = first (filter (\<lambda>c. cur_code c = code \<and> cur_active c) (currencies db))"

text \<open>\<open>Currency.objects.update_or_create(code=code, defaults={..., 'is_active': True})\<close>.\<close>

definition upsert_currency :: "string \<Rightarrow> string \<times> nat \<Rightarrow> currency list \<Rightarrow> currency list" where
  "upsert_currency code prof cs = (case first (filter (\<lambda>c. cur_code c = code) cs) of
       Some r \<Rightarrow> update_where (\<lambda>c. cur_id c = cur_id r)
         (\<lambda>c. c\<lparr>cur_name := fst prof, decimal_places := snd prof, cur_active := True\<rparr>) cs
     | None \<Rightarrow> cs @ [\<lparr>cur_id = fresh_id cur_id cs, cur_code = code, cur_name = fst prof,
         decimal_places = snd prof, cur_active = True\<rparr>])"

definition ensure_currency :: "platform_db \<Rightarrow> string \<Rightarrow> bool \<Rightarrow> bool \<times> platform_db" where
  "ensure_currency db code dry_run = (let c = take 3 (clean_code code) in
     if c = [] \<or> find_currency db c \<noteq> None then (False, db)
     else (True, if dry_run then db
       else db\<lparr>currencies := upsert_currency c (get_currency_profile c) (currencies db)\<rparr>))"

definition rate_currency :: "platform_db \<Rightarrow> string \<Rightarrow> currency option \<times> platform_db" where
  "rate_currency db code = (let c = clean_code code in
     case find_currency db c of Some r \<Rightarrow> (Some r, db)
     | None \<Rightarrow> let (_, db) = ensure_currency db c False in (find_currency db c, db))"

subsection \<open>Storing rates\<close>

definition upsert_rate :: "nat \<Rightarrow> nat \<Rightarrow> date \<Rightarrow> rat \<Rightarrow> rate_source \<Rightarrow> nat option
    \<Rightarrow> platform_db \<Rightarrow> exchange_rate \<times> platform_db" where
  "upsert_rate f t day rate src who db =
    (let rs = exchange_rates db;
         same = (\<lambda>r. from_currency r = f \<and> to_currency r = t \<and> effective_date r = day)
     in case first (filter same rs) of
          Some r \<Rightarrow> let r' = r\<lparr>er_rate := rate, er_source := src, entered_by := who\<rparr>
            in (r', db\<lparr>exchange_rates := update_where (\<lambda>x. er_id x = er_id r) (\<lambda>_. r') rs\<rparr>)
        | None \<Rightarrow> let r = \<lparr>er_id = fresh_id er_id rs, from_currency = f, to_currency = t, er_rate = rate,
              effective_date = day, er_source = src, entered_by = who\<rparr>
            in (r, db\<lparr>exchange_rates := rs @ [r]\<rparr>))"

definition wanted_symbols :: "platform_db \<Rightarrow> string \<Rightarrow> string list option \<Rightarrow> string list" where
  "wanted_symbols db base symbols = (let codes = (case symbols of
         None \<Rightarrow> map cur_code (filter cur_active (currencies db))
       | Some ss \<Rightarrow> map clean_code (filter (\<lambda>s. strip s \<noteq> []) ss))
     in sort (remdups (filter (\<lambda>c. c \<noteq> base) codes)))"

datatype published_date = No_Date | Bad_Date | Day date

record payload =
  published_rates :: "(string \<times> number) list"
  published_on :: published_date

definition store_published :: "currency \<Rightarrow> date \<Rightarrow> (string \<times> number) \<Rightarrow> nat \<times> platform_db \<Rightarrow> nat \<times> platform_db" where
  "store_published base day cv acc = (case acc of (written, db) \<Rightarrow>
     case rate_currency db (fst cv) of
       (None, db) \<Rightarrow> (written, db)
     | (Some t, db) \<Rightarrow> (case snd cv of
           Number x \<Rightarrow> (Suc written, snd (upsert_rate (cur_id base) (cur_id t) day
             (quantize_half_up 6 x) Rate_Feed None db))
         | _ \<Rightarrow> (written, db)))"

definition refresh_rates :: "env \<Rightarrow> (string \<Rightarrow> payload option) \<Rightarrow> platform_db \<Rightarrow> string
    \<Rightarrow> string list option \<Rightarrow> (rate_error + nat) \<times> platform_db" where
  "refresh_rates e fetch db base symbols = (let base = clean_code base; wanted = wanted_symbols db base symbols in
     if wanted = [] then (Inr 0, db)
     else case fetch base of None \<Rightarrow> (Inr 0, db)
     | Some p \<Rightarrow>
         let rates = concat (map (\<lambda>c. case map_of (published_rates p) c of
               None \<Rightarrow> [] | Some v \<Rightarrow> [(c, v)]) wanted)
         in case published_on p of Bad_Date \<Rightarrow> (Inl Rate_Value_Error, db)
            | d \<Rightarrow>
              let day = (case d of Day x \<Rightarrow> x | _ \<Rightarrow> today e) in
              (case rate_currency db base of
                 (None, db) \<Rightarrow> (Inr 0, db)
               | (Some f, db) \<Rightarrow> (let (n, db) = fold (store_published f day) rates (0, db) in (Inr n, db))))"

definition as_day :: "env \<Rightarrow> date option \<Rightarrow> date" where
  "as_day e d = (case d of Some d \<Rightarrow> d | None \<Rightarrow> today e)"

definition currency_code_ok :: "string \<Rightarrow> bool" where
  "currency_code_ok c \<longleftrightarrow> length c = 3 \<and> isalpha c"

definition set_rate :: "env \<Rightarrow> platform_db \<Rightarrow> string \<Rightarrow> string \<Rightarrow> number \<Rightarrow> date option \<Rightarrow> nat option
    \<Rightarrow> (rate_error + exchange_rate) \<times> platform_db" where
  "set_rate e db from_code to_code rate day user =
    (let f = clean_code from_code; t = clean_code to_code in
     if \<not> currency_code_ok f \<or> \<not> currency_code_ok t then (Inl Invalid_Exchange_Rate, db)
     else if f = t then (Inl Invalid_Exchange_Rate, db)
     else case rate of
       Number x \<Rightarrow>
         if x \<le> 0 then (Inl Invalid_Exchange_Rate, db)
         else let amount = quantize_half_up 6 x in
           if amount \<le> 0 then (Inl Invalid_Exchange_Rate, db)
           else let (fc, db) = rate_currency db f; (tc, db) = rate_currency db t in
             (case (fc, tc) of
                (Some fr, Some tr) \<Rightarrow>
                  (let (r, db) = upsert_rate (cur_id fr) (cur_id tr) (as_day e day) amount Rate_Manual user db
                   in (Inr r, db))
              | _ \<Rightarrow> (Inl Invalid_Exchange_Rate, db))
     | _ \<Rightarrow> (Inl Invalid_Exchange_Rate, db))"

subsection \<open>Converting\<close>

definition code_of :: "platform_db \<Rightarrow> nat \<Rightarrow> string option" where
  "code_of db i = map_option cur_code (first (filter (\<lambda>c. cur_id c = i) (currencies db)))"

definition quotes :: "platform_db \<Rightarrow> string \<Rightarrow> string \<Rightarrow> date \<Rightarrow> exchange_rate \<Rightarrow> bool" where
  "quotes db f t day r \<longleftrightarrow> code_of db (from_currency r) = Some f \<and> code_of db (to_currency r) = Some t
     \<and> effective_date r \<le> day"

definition convert :: "env \<Rightarrow> platform_db \<Rightarrow> rat \<Rightarrow> string \<Rightarrow> string \<Rightarrow> date option \<Rightarrow> rate_error + rat" where
  "convert e db amount from_code to_code on_day =
    (let f = clean_code from_code; t = clean_code to_code in
     if f = t then Inr amount
     else let day = as_day e on_day in
       case latest_by (\<lambda>r. (effective_date r, er_id r)) (filter (quotes db f t day) (exchange_rates db)) of
         None \<Rightarrow> Inl (Exchange_Rate_Not_Found f t day)
       | Some r \<Rightarrow> Inr (amount * er_rate r))"

lemma clean_code_idem [simp]: "clean_code (clean_code c) = clean_code c"
  by (simp add: clean_code_def strip_upper) (simp add: upper_def)

subsection \<open>Currencies keep their codes\<close>

text \<open>
  The integrity of the two tables: distinct keys and currency codes, one rate for a pair and a
  day, and rates that point to currencies there are.
\<close>

definition rate_key :: "exchange_rate \<Rightarrow> nat \<times> nat \<times> date" where
  "rate_key r = (from_currency r, to_currency r, effective_date r)"

definition currencies_ok :: "currency list \<Rightarrow> bool" where
  "currencies_ok cs \<longleftrightarrow> distinct (map cur_id cs) \<and> distinct (map cur_code cs)"

definition rates_ok :: "platform_db \<Rightarrow> bool" where
  "rates_ok db \<longleftrightarrow> currencies_ok (currencies db) \<and> distinct (map er_id (exchange_rates db)) \<and>
     distinct (map rate_key (exchange_rates db)) \<and>
     (\<forall>r \<in> set (exchange_rates db). from_currency r \<in> cur_id ` set (currencies db) \<and>
        to_currency r \<in> cur_id ` set (currencies db))"

text \<open>\<open>db'\<close> has the rates of \<open>db\<close> and its currencies, perhaps with more of the latter.\<close>

definition currencies_extend :: "platform_db \<Rightarrow> platform_db \<Rightarrow> bool" where
  "currencies_extend db db' \<longleftrightarrow> cur_id ` set (currencies db) \<subseteq> cur_id ` set (currencies db') \<and>
     (\<forall>i \<in> cur_id ` set (currencies db). code_of db' i = code_of db i)"

lemma currencies_extend_refl [simp]: "currencies_extend db db"
  by (simp add: currencies_extend_def)

lemma currencies_extend_trans: "currencies_extend a b \<Longrightarrow> currencies_extend b c \<Longrightarrow> currencies_extend a c"
  unfolding currencies_extend_def by (metis subset_iff)

lemma currencies_extend_rates [simp]:
  "currencies_extend a (b\<lparr>exchange_rates := rs\<rparr>) = currencies_extend a b"
  by (simp add: currencies_extend_def code_of_def)

lemma find_currency_Some: "find_currency db c = Some r \<Longrightarrow>
    r \<in> set (currencies db) \<and> cur_code r = c \<and> cur_active r"
  by (auto simp: find_currency_def dest: first_filter_SomeD)

lemma code_of_mem: "currencies_ok (currencies db) \<Longrightarrow> c \<in> set (currencies db) \<Longrightarrow>
    code_of db (cur_id c) = Some (cur_code c)"
proof -
  assume ok: "currencies_ok (currencies db)" and c: "c \<in> set (currencies db)"
  then obtain d where d: "first (filter (\<lambda>x. cur_id x = cur_id c) (currencies db)) = Some d"
    by (cases "first (filter (\<lambda>x. cur_id x = cur_id c) (currencies db))") (auto simp: filter_empty_conv)
  from first_filter_SomeD [OF d] have "d = c"
    using ok c by (auto simp: currencies_ok_def distinct_map inj_on_def)
  with d show ?thesis by (simp add: code_of_def)
qed

lemma code_of_Some: "code_of db i = Some c \<Longrightarrow> \<exists>x \<in> set (currencies db). cur_id x = i \<and> cur_code x = c"
  by (auto simp: code_of_def dest: first_filter_SomeD)

lemma code_of_inject: "currencies_ok (currencies db) \<Longrightarrow> code_of db i = Some c \<Longrightarrow> code_of db j = Some c \<Longrightarrow> i = j"
  by (auto dest!: code_of_Some simp: currencies_ok_def distinct_map inj_on_def)

lemma upsert_currency_ok:
  "currencies_ok cs \<Longrightarrow> currencies_ok (upsert_currency c p cs)"
  using distinct_fresh [of cur_id cs]
  by (auto simp: currencies_ok_def upsert_currency_def map_update_where filter_empty_conv
      split: option.split)

lemma upsert_currency_ids: "cur_id ` set cs \<subseteq> cur_id ` set (upsert_currency c p cs)"
proof (cases "first (filter (\<lambda>x. cur_code x = c) cs)")
  case None
  then show ?thesis by (auto simp: upsert_currency_def filter_empty_conv)
next
  case (Some r)
  then have "map cur_id (upsert_currency c p cs) = map cur_id cs"
    by (simp add: upsert_currency_def map_update_where)
  then show ?thesis by (metis order_refl set_map)
qed

lemma code_of_upsert:
  assumes "i \<in> cur_id ` set (currencies db)"
  shows "code_of (db\<lparr>currencies := upsert_currency c p (currencies db)\<rparr>) i = code_of db i"
proof -
  from assms have ne: "filter (\<lambda>x. cur_id x = i) (currencies db) \<noteq> []"
    by (auto simp: filter_empty_conv)
  have upd: "map_option cur_code (first (filter (\<lambda>x. cur_id x = i) (update_where (\<lambda>x. cur_id x = k) f cs)))
      = map_option cur_code (first (filter (\<lambda>x. cur_id x = i) cs))"
    if "\<And>x. cur_id (f x) = cur_id x \<and> cur_code (f x) = cur_code x" for k f and cs :: "currency list"
    by (induction cs) (simp_all add: table_simps that)
  show ?thesis
    by (cases "first (filter (\<lambda>x. cur_code x = c) (currencies db))")
      (simp_all add: code_of_def upsert_currency_def first_append ne upd del: first_None)
qed

lemma currencies_extend_upsert:
  "currencies_extend db (db\<lparr>currencies := upsert_currency c p (currencies db)\<rparr>)"
  unfolding currencies_extend_def using upsert_currency_ids [of "currencies db" c p]
  by (auto intro!: code_of_upsert)

lemma rates_ok_extend: "rates_ok db \<Longrightarrow> currencies_ok (currencies db') \<Longrightarrow> currencies_extend db db' \<Longrightarrow>
    exchange_rates db' = exchange_rates db \<Longrightarrow> rates_ok db'"
  by (simp add: rates_ok_def currencies_extend_def) (meson subsetD)

lemma ensure_currency_spec:
  assumes "ensure_currency db c dry = (b, db')" "rates_ok db"
  shows "rates_ok db' \<and> currencies_extend db db' \<and> exchange_rates db' = exchange_rates db"
proof -
  let ?c = "take 3 (clean_code c)"
  let ?db = "db\<lparr>currencies := upsert_currency ?c (get_currency_profile ?c) (currencies db)\<rparr>"
  have "db' = db \<or> db' = ?db"
    using assms(1) by (auto simp: ensure_currency_def Let_def split: if_splits)
  moreover have "rates_ok ?db"
    using assms(2) by (intro rates_ok_extend [OF assms(2)] currencies_extend_upsert)
      (simp_all add: rates_ok_def upsert_currency_ok)
  ultimately show ?thesis using assms(2) currencies_extend_upsert [of db ?c "get_currency_profile ?c"] by auto
qed

lemma rate_currency_spec:
  assumes "rate_currency db c = (o1, db')" "rates_ok db"
  shows "rates_ok db' \<and> currencies_extend db db' \<and> exchange_rates db' = exchange_rates db \<and>
    (\<forall>r. o1 = Some r \<longrightarrow> r \<in> set (currencies db') \<and> cur_code r = clean_code c)"
proof (cases "find_currency db (clean_code c)")
  case None
  obtain b db1 where e: "ensure_currency db (clean_code c) False = (b, db1)" by fastforce
  with None assms(1) have "o1 = find_currency db1 (clean_code c)" "db' = db1"
    by (auto simp: rate_currency_def Let_def)
  with ensure_currency_spec [OF e assms(2)] find_currency_Some [of db1 "clean_code c"] show ?thesis by simp
next
  case (Some r)
  with assms find_currency_Some [OF Some] show ?thesis by (auto simp: rate_currency_def Let_def)
qed

subsection \<open>Storing and reading rates\<close>

lemma upsert_rate_spec:
  assumes "upsert_rate f t day x src who db = (r, db')" "rates_ok db"
    and "f \<in> cur_id ` set (currencies db)" "t \<in> cur_id ` set (currencies db)"
  shows "rates_ok db'" "rate_key r = (f, t, day)" "er_rate r = x" "er_source r = src" "entered_by r = who"
    "r \<in> set (exchange_rates db')" "currencies db' = currencies db"
    "filter (\<lambda>r. rate_key r \<noteq> (f, t, day)) (exchange_rates db')
      = filter (\<lambda>r. rate_key r \<noteq> (f, t, day)) (exchange_rates db)"
proof -
  let ?rs = "exchange_rates db"
  let ?same = "\<lambda>r. from_currency r = f \<and> to_currency r = t \<and> effective_date r = day"
  have "rates_ok db' \<and> rate_key r = (f, t, day) \<and> er_rate r = x \<and> er_source r = src \<and> entered_by r = who
    \<and> r \<in> set (exchange_rates db') \<and> currencies db' = currencies db \<and>
    filter (\<lambda>r. rate_key r \<noteq> (f, t, day)) (exchange_rates db') = filter (\<lambda>r. rate_key r \<noteq> (f, t, day)) ?rs"
  proof (cases "first (filter ?same ?rs)")
    case None
    then have r: "r = \<lparr>er_id = fresh_id er_id ?rs, from_currency = f, to_currency = t, er_rate = x,
        effective_date = day, er_source = src, entered_by = who\<rparr>" and db': "db' = db\<lparr>exchange_rates := ?rs @ [r]\<rparr>"
      using assms(1) by (auto simp: upsert_rate_def Let_def)
    from None have "\<forall>y \<in> set ?rs. rate_key y \<noteq> (f, t, day)"
      by (auto simp: filter_empty_conv rate_key_def)
    with assms(2-4) show ?thesis
      by (auto simp: r db' rates_ok_def) (auto simp: rate_key_def)
  next
    case (Some y)
    let ?r = "y\<lparr>er_rate := x, er_source := src, entered_by := who\<rparr>"
    from first_filter_SomeD [OF Some] have y: "y \<in> set ?rs" "?same y" by simp_all
    from Some assms(1) have r: "r = ?r"
      and db': "db' = db\<lparr>exchange_rates := update_where (\<lambda>z. er_id z = er_id y) (\<lambda>_. ?r) ?rs\<rparr>"
      by (auto simp: upsert_rate_def Let_def)
    have ids: "er_id z = er_id y \<longleftrightarrow> z = y" if "z \<in> set ?rs" for z
      using assms(2) y(1) that by (auto simp: rates_ok_def distinct_map inj_on_def)
    have up: "update_where (\<lambda>z. er_id z = er_id y) (\<lambda>_. ?r) ?rs = map (\<lambda>z. if z = y then ?r else z) ?rs"
      using ids by (simp add: update_where_def)
    have keys: "map rate_key (map (\<lambda>z. if z = y then ?r else z) ?rs) = map rate_key ?rs"
      "map er_id (map (\<lambda>z. if z = y then ?r else z) ?rs) = map er_id ?rs"
      by (simp_all add: rate_key_def)
    have "filter (\<lambda>r. rate_key r \<noteq> (f, t, day)) (map (\<lambda>z. if z = y then ?r else z) zs)
        = filter (\<lambda>r. rate_key r \<noteq> (f, t, day)) zs" for zs
      using y(2) by (induction zs) (auto simp: rate_key_def)
    moreover have "rates_ok db'"
      using assms(2) y unfolding rates_ok_def db' up by (simp add: keys del: map_map) auto
    ultimately show ?thesis using y r db' up by (auto simp: rate_key_def)
  qed
  then show "rates_ok db'" "rate_key r = (f, t, day)" "er_rate r = x" "er_source r = src" "entered_by r = who"
    "r \<in> set (exchange_rates db')" "currencies db' = currencies db"
    "filter (\<lambda>r. rate_key r \<noteq> (f, t, day)) (exchange_rates db')
      = filter (\<lambda>r. rate_key r \<noteq> (f, t, day)) (exchange_rates db)"
    by simp_all
qed

lemma code_of_extend: "currencies_extend db db' \<Longrightarrow> i \<in> cur_id ` set (currencies db) \<Longrightarrow>
    code_of db' i = code_of db i"
  unfolding currencies_extend_def by blast

lemma quotes_extend:
  assumes "rates_ok db" "currencies_extend db db'" "r \<in> set (exchange_rates db)"
  shows "quotes db' f t d r = quotes db f t d r"
proof -
  have "from_currency r \<in> cur_id ` set (currencies db)" "to_currency r \<in> cur_id ` set (currencies db)"
    using assms(1,3) by (simp_all add: rates_ok_def)
  then show ?thesis by (simp only: quotes_def code_of_extend [OF assms(2)])
qed

lemma convert_cong:
  assumes "filter (quotes db (clean_code f) (clean_code t) (as_day e d)) (exchange_rates db)
    = filter (quotes db' (clean_code f) (clean_code t) (as_day e d)) (exchange_rates db')"
  shows "convert e db a f t d = convert e db' a f t d"
  using assms by (simp add: convert_def Let_def)

text \<open>
  What an upsert of one pair and day leaves alone: a conversion of another pair, and one on an
  earlier day.
\<close>

lemma filter_filter_sub: "(\<And>x. Q x \<Longrightarrow> P x) \<Longrightarrow> filter Q (filter P xs) = filter Q xs"
  by (induction xs) auto

lemma convert_unchanged:
  assumes ok: "rates_ok db" and ext: "currencies_extend db db'"
    and same: "filter (\<lambda>r. \<not> K r) (exchange_rates db') = filter (\<lambda>r. \<not> K r) (exchange_rates db)"
    and other: "\<And>r. r \<in> set (exchange_rates db') \<union> set (exchange_rates db) \<Longrightarrow> K r \<Longrightarrow>
      \<not> quotes db' (clean_code f) (clean_code t) (as_day e d) r"
  shows "convert e db' a f t d = convert e db a f t d"
proof (rule convert_cong)
  let ?q = "quotes db' (clean_code f) (clean_code t) (as_day e d)"
  have drop: "filter ?q xs = filter ?q (filter (\<lambda>r. \<not> K r) xs)"
    if "set xs \<subseteq> set (exchange_rates db') \<union> set (exchange_rates db)" for xs
    using that other by (induction xs) auto
  have "filter ?q (exchange_rates db') = filter ?q (exchange_rates db)"
    using drop [of "exchange_rates db'"] drop [of "exchange_rates db"] same by simp
  also have "\<dots> = filter (quotes db (clean_code f) (clean_code t) (as_day e d)) (exchange_rates db)"
    by (rule filter_cong [OF refl]) (rule quotes_extend [OF ok ext])
  finally show "filter ?q (exchange_rates db') =
      filter (quotes db (clean_code f) (clean_code t) (as_day e d)) (exchange_rates db)" .
qed

lemma convert_row:
  assumes "rates_ok db" "clean_code f \<noteq> clean_code t" "r \<in> set (exchange_rates db)"
    and "quotes db (clean_code f) (clean_code t) (as_day e d) r"
    and "\<And>s. s \<in> set (exchange_rates db) \<Longrightarrow> quotes db (clean_code f) (clean_code t) (as_day e d) s \<Longrightarrow>
        s \<noteq> r \<Longrightarrow> effective_date s < effective_date r"
  shows "convert e db a f t d = Inr (a * er_rate r)"
proof -
  let ?q = "quotes db (clean_code f) (clean_code t) (as_day e d)"
  let ?l = "latest_by (\<lambda>r. (effective_date r, er_id r)) (filter ?q (exchange_rates db))"
  have "r \<in> set (filter ?q (exchange_rates db))" using assms(3,4) by simp
  then obtain s where s: "?l = Some s" by (cases ?l) (auto simp del: set_filter)
  from latest_by_in [OF s] latest_by_max [OF s, of r] assms(3,4) assms(5) [of s] have "s = r" by force
  with s assms(2) show ?thesis by (simp add: convert_def Let_def)
qed

lemma store_published_spec:
  assumes "rates_ok db" "b \<in> cur_id ` set (currencies db)"
    and "store_published base day cv (n, db) = (m, db')" "b = cur_id base"
  shows "rates_ok db' \<and> currencies_extend db db' \<and>
    filter (\<lambda>r. effective_date r \<noteq> day) (exchange_rates db') = filter (\<lambda>r. effective_date r \<noteq> day) (exchange_rates db)"
proof -
  obtain o1 db1 where c: "rate_currency db (fst cv) = (o1, db1)" by fastforce
  note sp = rate_currency_spec [OF c assms(1)]
  show ?thesis
  proof (cases "\<exists>t x. o1 = Some t \<and> snd cv = Number x")
    case False
    then show ?thesis using assms(3) c sp by (auto simp: store_published_def split: option.splits number.splits)
  next
    case True
    then obtain t x where t: "o1 = Some t" "snd cv = Number x" by blast
    obtain r db2 where u: "upsert_rate b (cur_id t) day (quantize_half_up 6 x) Rate_Feed None db1 = (r, db2)"
      by fastforce
    have db': "db' = db2" using assms(3,4) c t u by (simp add: store_published_def)
    have ids: "b \<in> cur_id ` set (currencies db1)" "cur_id t \<in> cur_id ` set (currencies db1)"
      using sp t assms(2) by (auto simp: currencies_extend_def)
    have ok: "rates_ok db1" using sp by simp
    note us = upsert_rate_spec [OF u ok ids]
    let ?Q = "\<lambda>r. effective_date r \<noteq> day" and ?P = "\<lambda>r. rate_key r \<noteq> (b, cur_id t, day)"
    have Q: "?Q r \<Longrightarrow> ?P r" for r by (simp add: rate_key_def)
    have "filter ?Q (exchange_rates db2) = filter ?Q (filter ?P (exchange_rates db2))"
      by (rule filter_filter_sub [symmetric]) (rule Q)
    also have "\<dots> = filter ?Q (filter ?P (exchange_rates db1))" by (simp only: us(8))
    also have "\<dots> = filter ?Q (exchange_rates db1)" by (rule filter_filter_sub) (rule Q)
    finally have "filter ?Q (exchange_rates db2) = filter ?Q (exchange_rates db)" using sp by simp
    moreover have "currencies_extend db db2"
      using sp us(7) by (simp add: currencies_extend_def code_of_def)
    ultimately show ?thesis using us(1) db' by simp
  qed
qed

lemma fold_store_published_spec:
  assumes "fold (store_published base day) cvs (n, db) = (m, db')"
    and "rates_ok db" "cur_id base \<in> cur_id ` set (currencies db)"
  shows "rates_ok db' \<and> currencies_extend db db' \<and>
    filter (\<lambda>r. effective_date r \<noteq> day) (exchange_rates db') = filter (\<lambda>r. effective_date r \<noteq> day) (exchange_rates db)"
  using assms
proof (induction cvs arbitrary: n db)
  case (Cons cv cvs)
  obtain n1 db1 where st: "store_published base day cv (n, db) = (n1, db1)" by fastforce
  note sp = store_published_spec [OF Cons.prems(2,3) st refl]
  have "cur_id base \<in> cur_id ` set (currencies db1)"
    using sp Cons.prems(3) by (auto simp: currencies_extend_def)
  with Cons.IH [of n1 db1] Cons.prems(1) sp st currencies_extend_trans [of db db1 db'] show ?case by simp
qed simp

subsection \<open>Properties\<close>

text \<open>
  converting crosses currencies only at a stored rate: a currency into itself is the
  amount, another pair is the amount at the latest rate stored on or before the day, and the
  call fails exactly when the pair has no rate by then (the inverse pair is never used).
\<close>

theorem convert_latest_rate:
  "case convert e db a f t (Some d) of
     Inr x \<Rightarrow> (if clean_code f = clean_code t then x = a
       else \<exists>r \<in> set (exchange_rates db). quotes db (clean_code f) (clean_code t) d r \<and> x = a * er_rate r \<and>
         (\<forall>s \<in> set (exchange_rates db). quotes db (clean_code f) (clean_code t) d s \<longrightarrow>
            effective_date s \<le> effective_date r))
   | Inl err \<Rightarrow> err = Exchange_Rate_Not_Found (clean_code f) (clean_code t) d \<and> clean_code f \<noteq> clean_code t \<and>
       (\<forall>s \<in> set (exchange_rates db). \<not> quotes db (clean_code f) (clean_code t) d s)"
proof (cases "clean_code f = clean_code t")
  case True
  then show ?thesis by (simp add: convert_def)
next
  case False
  let ?q = "quotes db (clean_code f) (clean_code t) d"
  let ?l = "latest_by (\<lambda>r. (effective_date r, er_id r)) (filter ?q (exchange_rates db))"
  show ?thesis
  proof (cases ?l)
    case None
    with False show ?thesis by (simp add: convert_def as_day_def Let_def filter_empty_conv)
  next
    case (Some r)
    have "effective_date s \<le> effective_date r" if "s \<in> set (exchange_rates db)" "?q s" for s
      using latest_by_max [OF Some, of s] that by auto
    with latest_by_in [OF Some] False Some show ?thesis
      by (auto simp: convert_def as_day_def Let_def)
  qed
qed

text \<open>
  a rate entered by hand is stored once for its pair and day, positive and to six places,
  and is the rate amounts are converted at from that day until a later one; conversions of any
  other pair, and on any earlier day, stay as they were.
\<close>

theorem set_rate_in_force:
  assumes "set_rate e db f t (Number x) (Some d) who = (Inr r, db')" "rates_ok db"
  shows "rates_ok db' \<and> 0 < er_rate r \<and> er_rate r = quantize_half_up 6 x \<and> er_source r = Rate_Manual \<and>
    convert e db' a f t (Some d) = Inr (a * er_rate r) \<and>
    (clean_code f' \<noteq> clean_code f \<or> clean_code t' \<noteq> clean_code t \<or> d' < d \<longrightarrow>
      convert e db' a f' t' (Some d') = convert e db a f' t' (Some d'))"
proof -
  obtain fc db1 where f: "rate_currency db (clean_code f) = (fc, db1)" by fastforce
  obtain tc db2 where t: "rate_currency db1 (clean_code t) = (tc, db2)" by fastforce
  let ?x = "quantize_half_up 6 x"
  from assms(1) f t obtain fr tr where ft: "fc = Some fr" "tc = Some tr" "clean_code f \<noteq> clean_code t" "0 < ?x"
    and u: "upsert_rate (cur_id fr) (cur_id tr) d ?x Rate_Manual who db2 = (r, db')"
    by (auto simp: set_rate_def Let_def as_day_def split: if_splits option.splits prod.splits)
  note s1 = rate_currency_spec [OF f assms(2)]
  then have s2: "rates_ok db2 \<and> currencies_extend db1 db2 \<and> exchange_rates db2 = exchange_rates db1 \<and>
      (\<forall>r. tc = Some r \<longrightarrow> r \<in> set (currencies db2) \<and> cur_code r = clean_code (clean_code t))"
    using rate_currency_spec [OF t] by blast
  have ids: "cur_id fr \<in> cur_id ` set (currencies db2)" "cur_id tr \<in> cur_id ` set (currencies db2)"
    using s1 s2 ft by (auto simp: currencies_extend_def)
  note us = upsert_rate_spec [OF u conjunct1 [OF s2] ids]
  have ok: "rates_ok db'" by (rule us(1))
  then have cok: "currencies_ok (currencies db')" by (simp add: rates_ok_def)
  have ext: "currencies_extend db db'"
    using s1 s2 us(7) currencies_extend_trans [of db db1 db2] by (simp add: currencies_extend_def code_of_def)
  have "code_of db1 (cur_id fr) = Some (clean_code f)"
    using s1 ft code_of_mem [of db1 fr] by (simp add: rates_ok_def)
  moreover have "code_of db2 (cur_id fr) = code_of db1 (cur_id fr)"
    using s1 s2 ft by (intro code_of_extend) auto
  moreover have "code_of db2 (cur_id tr) = Some (clean_code t)"
    using s2 ft code_of_mem [of db2 tr] by (simp add: rates_ok_def)
  ultimately have codes: "code_of db' (cur_id fr) = Some (clean_code f)" "code_of db' (cur_id tr) = Some (clean_code t)"
    by (simp_all add: code_of_def us(7))
  have key: "from_currency r = cur_id fr" "to_currency r = cur_id tr" "effective_date r = d"
    using us(2) by (simp_all add: rate_key_def)
  have "convert e db' a f t (Some d) = Inr (a * er_rate r)"
  proof (rule convert_row [OF ok ft(3) us(6)])
    show "quotes db' (clean_code f) (clean_code t) (as_day e (Some d)) r"
      by (simp add: quotes_def as_day_def key codes)
    fix s assume s: "s \<in> set (exchange_rates db')" "quotes db' (clean_code f) (clean_code t) (as_day e (Some d)) s" "s \<noteq> r"
    then have "from_currency s = cur_id fr" "to_currency s = cur_id tr" "effective_date s \<le> d"
      using code_of_inject [OF cok] codes by (auto simp: quotes_def as_day_def)
    moreover have "rate_key s \<noteq> rate_key r"
      using ok s us(6) by (auto simp: rates_ok_def distinct_map inj_on_def)
    ultimately show "effective_date s < effective_date r" by (auto simp: rate_key_def key)
  qed
  moreover have "convert e db' a f' t' (Some d') = convert e db a f' t' (Some d')"
    if "clean_code f' \<noteq> clean_code f \<or> clean_code t' \<noteq> clean_code t \<or> d' < d"
  proof (rule convert_unchanged [where K = "\<lambda>r. rate_key r = (cur_id fr, cur_id tr, d)"])
    show "filter (\<lambda>r. \<not> rate_key r = (cur_id fr, cur_id tr, d)) (exchange_rates db')
        = filter (\<lambda>r. \<not> rate_key r = (cur_id fr, cur_id tr, d)) (exchange_rates db)"
      using us(8) s1 s2 by simp
    show "\<not> quotes db' (clean_code f') (clean_code t') (as_day e (Some d')) s"
      if "rate_key s = (cur_id fr, cur_id tr, d)" for s
      using that codes \<open>_ \<or> _ \<or> d' < d\<close> by (auto simp: rate_key_def quotes_def as_day_def)
  qed (use assms(2) ext in simp_all)
  ultimately show ?thesis using ok ft(4) us(3,4) by simp
qed

lemma refresh_rates_cases:
  assumes "refresh_rates e fetch db base symbols = (res, db')" "rates_ok db"
  obtains (same) "db' = db"
  | (stored) p day b db1 cvs n where "fetch (clean_code base) = Some p"
      "day = (case published_on p of Day x \<Rightarrow> x | _ \<Rightarrow> today e)" "rate_currency db (clean_code base) = (Some b, db1)"
      "fold (store_published b day) cvs (0, db1) = (n, db')" "res = Inr n"
  | (none) db1 where "rate_currency db (clean_code base) = (None, db1)" "db' = db1"
  using assms(1)
  by (auto simp: refresh_rates_def Let_def split: if_splits option.splits prod.splits published_date.splits)

text \<open>
  a refresh never rewrites history. Whatever the feed answers, the rate tables stay well
  formed and an amount converts on any day before the published one as it did before.
\<close>

theorem refresh_keeps_history:
  assumes "refresh_rates e fetch db base symbols = (res, db')" "rates_ok db"
    and "\<And>p. fetch (clean_code base) = Some p \<Longrightarrow>
      d < (case published_on p of Day x \<Rightarrow> x | _ \<Rightarrow> today e)"
  shows "rates_ok db' \<and> convert e db' a f t (Some d) = convert e db a f t (Some d)"
  using assms(1,2)
proof (cases rule: refresh_rates_cases)
  case same
  with assms(2) show ?thesis by simp
next
  case (none db1)
  from rate_currency_spec [OF none(1) assms(2)] none(2) show ?thesis
    using convert_unchanged [of db db' "\<lambda>_. False"] assms(2) by simp
next
  case (stored p day b db1 cvs n)
  note s1 = rate_currency_spec [OF stored(3) assms(2)]
  then have s2: "rates_ok db' \<and> currencies_extend db1 db' \<and>
      filter (\<lambda>r. effective_date r \<noteq> day) (exchange_rates db') = filter (\<lambda>r. effective_date r \<noteq> day) (exchange_rates db1)"
    by (intro fold_store_published_spec [OF stored(4)]) auto
  have "convert e db' a f t (Some d) = convert e db a f t (Some d)"
  proof (rule convert_unchanged [where K = "\<lambda>r. effective_date r = day"])
    show "currencies_extend db db'" using s1 s2 currencies_extend_trans by blast
    show "\<not> quotes db' (clean_code f) (clean_code t) (as_day e (Some d)) r" if "effective_date r = day" for r
      using that assms(3) [OF stored(1)] stored(2) by (simp add: quotes_def as_day_def)
  qed (use s1 s2 assms(2) in simp_all)
  with s2 show ?thesis by simp
qed

end
