(* ===== verification/Pricing_Usage.thy ===== *)
theory Pricing_Usage
  imports Platform_Data
begin

text \<open>
  \<open>services/pricing.py\<close> and \<open>services/usage.py\<close>: what a metered call costs, the daily usage
  rows, and the monthly cap.
\<close>

datatype pricing_error =
    Meter_Not_Priced string moment
  | Invalid_Meter_Price string
  | Invalid_Usage_Cap

subsection \<open>Prices\<close>

definition price_for :: "env \<Rightarrow> platform_db \<Rightarrow> string \<Rightarrow> moment option \<Rightarrow> pricing_error + meter_price" where
  "price_for e db meter asof = (let moment = (case asof of Some t \<Rightarrow> t | None \<Rightarrow> now e) in
     case latest_by (\<lambda>p. (effective_from p, mp_id p))
         (filter (\<lambda>p. mp_meter p = meter \<and> effective_from p \<le> moment) (meter_prices db)) of
       None \<Rightarrow> Inl (Meter_Not_Priced meter moment)
     | Some p \<Rightarrow> Inr p)"

text \<open>
  A decimal column holds a number of at most \<open>digits - places\<close> whole digits and \<open>places\<close> decimal
  places. \<open>price_problems\<close> lists the columns \<open>full_clean\<close> refuses, in the order of the model;
  \<open>int_max\<close> is the largest value of the database's positive integer column.
\<close>

definition fits_column :: "nat \<Rightarrow> nat \<Rightarrow> rat \<Rightarrow> bool" where
  "fits_column digits places x \<longleftrightarrow> on_grid places x \<and> \<bar>x\<bar> < 10 ^ (digits - places)"

definition price_problems :: "nat \<Rightarrow> meter_price \<Rightarrow> string list" where
  "price_problems int_max p =
     (if mp_meter p = [] \<or> 100 < length (mp_meter p) then [''meter''] else [])
     @ (if fits_column 12 6 (vendor_cost p) then [] else [''vendor_cost''])
     @ (if 1 \<le> unit_size p \<and> unit_size p \<le> int_max then [] else [''unit_size''])
     @ (case margin p of None \<Rightarrow> [] | Some m \<Rightarrow> if fits_column 6 4 m then [] else [''margin''])"

definition add_price :: "nat \<Rightarrow> env \<Rightarrow> platform_db \<Rightarrow> string \<Rightarrow> rat \<Rightarrow> nat \<Rightarrow> rat option
    \<Rightarrow> moment option \<Rightarrow> pricing_error + (meter_price \<times> platform_db)" where
  "add_price int_max e db meter cost units marg eff =
    (if cost < 0 then Inl (Invalid_Meter_Price ''vendor_cost'')
     else if (case marg of None \<Rightarrow> False | Some m \<Rightarrow> m < 0) then Inl (Invalid_Meter_Price ''margin'')
     else let p = \<lparr>mp_id = fresh_id mp_id (meter_prices db), mp_meter = strip meter,
            vendor_cost = cost, unit_size = units, margin = marg,
            effective_from = (case eff of Some t \<Rightarrow> t | None \<Rightarrow> now e)\<rparr>
       in case price_problems int_max p of
            f # _ \<Rightarrow> Inl (Invalid_Meter_Price f)
          | [] \<Rightarrow> Inr (p, db\<lparr>meter_prices := meter_prices db @ [p]\<rparr>))"

definition points_per_unit :: "meter_price \<Rightarrow> rat \<Rightarrow> rat" where
  "points_per_unit p default_margin =
     (vendor_cost p / of_nat (unit_size p)) * (1 + (case margin p of Some m \<Rightarrow> m | None \<Rightarrow> default_margin))"

definition points_at :: "env \<Rightarrow> meter_price \<Rightarrow> rat \<Rightarrow> rat" where
  "points_at e p quantity = quantize_half_up 8 (points_per_unit p (usage_margin e) * quantity)"

definition points_for :: "env \<Rightarrow> platform_db \<Rightarrow> string \<Rightarrow> rat \<Rightarrow> moment option \<Rightarrow> meter_price option
    \<Rightarrow> pricing_error + rat" where
  "points_for e db meter quantity asof price =
     bind_r (case price of Some p \<Rightarrow> Inr p | None \<Rightarrow> price_for e db meter asof)
       (\<lambda>p. Inr (points_at e p quantity))"

subsection \<open>Usage\<close>

text \<open>\<open>month_bounds\<close>: the first of the month and the first of the next, by way of day 33.\<close>

definition month_bounds :: "env \<Rightarrow> date option \<Rightarrow> date \<times> date" where
  "month_bounds e month = (let f = first_of_month (case month of Some d \<Rightarrow> d | None \<Rightarrow> today e)
     in (f, first_of_month (f + 32)))"

definition same_usage :: "nat \<Rightarrow> string \<Rightarrow> date \<Rightarrow> nat \<Rightarrow> usage_record \<Rightarrow> bool" where
  "same_usage w meter day price r \<longleftrightarrow>
     ur_workspace r = w \<and> ur_meter r = meter \<and> ur_day r = day \<and> ur_price r = price"

definition record_usage :: "env \<Rightarrow> platform_db \<Rightarrow> nat \<Rightarrow> string \<Rightarrow> rat \<Rightarrow> moment option
    \<Rightarrow> pricing_error + (usage_record \<times> platform_db)" where
  "record_usage e db w meter quantity asof =
    (let moment = (case asof of Some t \<Rightarrow> t | None \<Rightarrow> now e) in
     bind_r (price_for e db meter (Some moment)) (\<lambda>price.
     bind_r (points_for e db meter quantity asof (Some price)) (\<lambda>points.
       let same = same_usage w meter (day_of moment) (mp_id price) in
       case first (filter same (usage_records db)) of
         None \<Rightarrow>
           let r = \<lparr>ur_id = fresh_id ur_id (usage_records db), ur_workspace = w, ur_meter = meter,
                 ur_day = day_of moment, ur_price = mp_id price, ur_quantity = quantity, ur_points = points\<rparr>
           in Inr (r, db\<lparr>usage_records := usage_records db @ [r]\<rparr>)
       | Some r \<Rightarrow>
           let r' = r\<lparr>ur_quantity := ur_quantity r + quantity, ur_points := ur_points r + points\<rparr>
           in Inr (r', db\<lparr>usage_records :=
                 update_where (\<lambda>x. ur_id x = ur_id r)
                   (\<lambda>x. x\<lparr>ur_quantity := ur_quantity x + quantity, ur_points := ur_points x + points\<rparr>)
                   (usage_records db)\<rparr>))))"

definition usage_in :: "env \<Rightarrow> platform_db \<Rightarrow> nat \<Rightarrow> date option \<Rightarrow> usage_record list" where
  "usage_in e db w month = (let (f, n) = month_bounds e month in
     filter (\<lambda>r. ur_workspace r = w \<and> f \<le> ur_day r \<and> ur_day r < n) (usage_records db))"

definition points_used :: "env \<Rightarrow> platform_db \<Rightarrow> nat \<Rightarrow> date option \<Rightarrow> rat" where
  "points_used e db w month = (\<Sum>r\<leftarrow>usage_in e db w month. ur_points r)"

text \<open>\<open>GROUP BY day, meter\<close> with both sums, ordered by day and meter.\<close>

definition usage_groups :: "usage_record list \<Rightarrow> (date \<times> string) list" where
  "usage_groups rows = sort (remdups (map (\<lambda>r. (ur_day r, ur_meter r)) rows))"

definition usage_by_day :: "env \<Rightarrow> platform_db \<Rightarrow> nat \<Rightarrow> date option
    \<Rightarrow> (date \<times> string \<times> rat \<times> rat) list" where
  "usage_by_day e db w month = (let rows = usage_in e db w month in
     map (\<lambda>(d, m). let g = filter (\<lambda>r. (ur_day r, ur_meter r) = (d, m)) rows
            in (d, m, (\<Sum>r\<leftarrow>g. ur_quantity r), (\<Sum>r\<leftarrow>g. ur_points r)))
       (usage_groups rows))"

subsection \<open>The cap\<close>

definition monthly_cap :: "env \<Rightarrow> platform_db \<Rightarrow> nat \<Rightarrow> rat" where
  "monthly_cap e db w = (case profile_of db w of
       Some p \<Rightarrow> (case monthly_usage_cap_points p of Some c \<Rightarrow> c | None \<Rightarrow> default_cap_points e)
     | None \<Rightarrow> default_cap_points e)"

definition as_cap :: "number \<Rightarrow> pricing_error + rat" where
  "as_cap points = (case points of
       Not_A_Number \<Rightarrow> Inl Invalid_Usage_Cap
     | Not_Finite \<Rightarrow> Inl Invalid_Usage_Cap
     | Number cap \<Rightarrow> if cap < 0 then Inl Invalid_Usage_Cap
         else if 10 ^ (12 - 2) \<le> cap then Inl Invalid_Usage_Cap
         else Inr (quantize_half_even 2 cap))"

definition set_monthly_cap :: "platform_db \<Rightarrow> nat \<Rightarrow> number option
    \<Rightarrow> pricing_error + (rat option \<times> platform_db)" where
  "set_monthly_cap db w points =
     bind_r (case points of None \<Rightarrow> Inr None | Some p \<Rightarrow> bind_r (as_cap p) (\<lambda>c. Inr (Some c)))
       (\<lambda>cap. let (p, db) = get_or_create_profile db w
          in Inr (cap, save_profile (p\<lparr>monthly_usage_cap_points := cap\<rparr>) db))"

record allowance =
  al_used :: rat
  al_cap :: rat
  al_remaining :: rat

definition allowance_of :: "env \<Rightarrow> platform_db \<Rightarrow> nat \<Rightarrow> date option \<Rightarrow> allowance" where
  "allowance_of e db w month = (let u = points_used e db w month; c = monthly_cap e db w
     in \<lparr>al_used = u, al_cap = c, al_remaining = max (c - u) 0\<rparr>)"

subsection \<open>Laws of prices\<close>

lemma price_for_Inr: "price_for e db meter (Some t) = Inr p \<Longrightarrow>
    p \<in> set (meter_prices db) \<and> mp_meter p = meter \<and> effective_from p \<le> t"
  by (auto simp: price_for_def Let_def split: option.splits dest!: latest_by_in)

lemma price_for_latest: "price_for e db meter (Some t) = Inr p \<Longrightarrow> q \<in> set (meter_prices db) \<Longrightarrow>
    mp_meter q = meter \<Longrightarrow> effective_from q \<le> t \<Longrightarrow> (effective_from q, mp_id q) \<le> (effective_from p, mp_id p)"
  by (auto simp: price_for_def Let_def split: option.splits dest!: latest_by_max)

lemma price_for_Inl: "price_for e db meter (Some t) = Inl x \<longleftrightarrow>
    x = Meter_Not_Priced meter t \<and> (\<forall>q \<in> set (meter_prices db). mp_meter q = meter \<longrightarrow> t < effective_from q)"
  by (auto simp: price_for_def Let_def filter_empty_conv not_le split: option.splits
      dest!: latest_by_in)

lemma price_for_cong:
  "filter (\<lambda>p. mp_meter p = meter \<and> effective_from p \<le> t) (meter_prices db)
     = filter (\<lambda>p. mp_meter p = meter \<and> effective_from p \<le> t) (meter_prices db') \<Longrightarrow>
   price_for e db meter (Some t) = price_for e db' meter (Some t)"
  by (simp add: price_for_def)

lemma add_price_Inr:
  assumes "add_price int_max e db meter cost units marg eff = Inr (p, db')"
  shows "db' = db\<lparr>meter_prices := meter_prices db @ [p]\<rparr>" "mp_id p = fresh_id mp_id (meter_prices db)"
    "price_problems int_max p = []" "0 \<le> vendor_cost p" "case margin p of Some m \<Rightarrow> 0 \<le> m | None \<Rightarrow> True"
  using assms by (auto simp: add_price_def Let_def split: if_splits list.splits option.splits)

lemma price_problems_unit: "price_problems int_max p = [] \<Longrightarrow> 0 < unit_size p"
  by (simp add: price_problems_def split: if_splits)

lemma points_at_nonneg:
  assumes "0 \<le> vendor_cost p" "case margin p of Some m \<Rightarrow> 0 \<le> m | None \<Rightarrow> True"
    and "0 \<le> usage_margin e" "0 \<le> q"
  shows "0 \<le> points_at e p q"
  unfolding points_at_def points_per_unit_def using assms
  by (intro half_up.q_nonneg mult_nonneg_nonneg divide_nonneg_nonneg) (auto split: option.splits)

subsection \<open>Laws of usage\<close>

lemma month_bounds_eq: "month_bounds e (Some d)
    = (first_of_index (month_index d), first_of_index (month_index d + 1))"
proof -
  have "first_of_month (first_of_month d + 32) = first_of_index (month_index (first_of_month d + 32))"
    by (rule first_of_month_index)
  also have "\<dots> = first_of_index (month_index d + 1)" by (simp only: next_month_index)
  finally show ?thesis
    by (simp only: month_bounds_def Let_def option.case) (metis first_of_month_index)
qed

lemma in_month: "fst (month_bounds e (Some d)) \<le> x \<and> x < snd (month_bounds e (Some d))
    \<longleftrightarrow> month_index x = month_index d"
  by (simp add: month_bounds_eq month_index_eq)

definition counts_for :: "nat \<Rightarrow> date \<Rightarrow> usage_record \<Rightarrow> bool" where
  "counts_for w d r \<longleftrightarrow> ur_workspace r = w \<and> month_index (ur_day r) = month_index d"

lemma usage_in_eq: "usage_in e db w (Some d) = filter (counts_for w d) (usage_records db)"
proof -
  have "usage_in e db w (Some d) = filter (\<lambda>r. ur_workspace r = w \<and>
      fst (month_bounds e (Some d)) \<le> ur_day r \<and> ur_day r < snd (month_bounds e (Some d))) (usage_records db)"
    by (simp add: usage_in_def case_prod_beta)
  then show ?thesis by (simp only: in_month counts_for_def [abs_def])
qed

lemma points_used_eq: "points_used e db w (Some d)
    = (\<Sum>r\<leftarrow>usage_records db. if counts_for w d r then ur_points r else 0)"
  by (simp add: points_used_def usage_in_eq sum_list_map_filter')

text \<open>The usage table: rows have their own keys, one per workspace, meter, day and price.\<close>

definition usage_key :: "usage_record \<Rightarrow> nat \<times> string \<times> date \<times> nat" where
  "usage_key r = (ur_workspace r, ur_meter r, ur_day r, ur_price r)"

definition usage_ok :: "platform_db \<Rightarrow> bool" where
  "usage_ok db \<longleftrightarrow> distinct (map ur_id (usage_records db)) \<and> distinct (map usage_key (usage_records db))"

lemma same_usage_key: "same_usage w meter day price r \<longleftrightarrow> usage_key r = (w, meter, day, price)"
  by (auto simp: same_usage_def usage_key_def)

lemma record_usage_Inr:
  assumes "record_usage e db w meter q asof = Inr (r, db')"
  obtains p where "price_for e db meter (Some (case asof of Some t \<Rightarrow> t | None \<Rightarrow> now e)) = Inr p"
    and "points_for e db meter q asof (Some p) = Inr (points_at e p q)"
  using assms by (auto simp: record_usage_def Let_def bind_r_Inr points_for_def)

lemma record_usage_cases:
  assumes "record_usage e db w meter q asof = Inr (r, db')"
    and p: "price_for e db meter (Some t) = Inr p" and t: "t = (case asof of Some t \<Rightarrow> t | None \<Rightarrow> now e)"
  obtains (new) "\<forall>x \<in> set (usage_records db). usage_key x \<noteq> (w, meter, day_of t, mp_id p)"
      "r = \<lparr>ur_id = fresh_id ur_id (usage_records db), ur_workspace = w, ur_meter = meter,
         ur_day = day_of t, ur_price = mp_id p, ur_quantity = q, ur_points = points_at e p q\<rparr>"
      "db' = db\<lparr>usage_records := usage_records db @ [r]\<rparr>"
  | (old) x where "x \<in> set (usage_records db)" "usage_key x = (w, meter, day_of t, mp_id p)"
      "r = x\<lparr>ur_quantity := ur_quantity x + q, ur_points := ur_points x + points_at e p q\<rparr>"
      "db' = db\<lparr>usage_records := update_where (\<lambda>y. ur_id y = ur_id x)
         (\<lambda>y. y\<lparr>ur_quantity := ur_quantity y + q, ur_points := ur_points y + points_at e p q\<rparr>)
         (usage_records db)\<rparr>"
proof -
  let ?same = "same_usage w meter (day_of t) (mp_id p)"
  show ?thesis
  proof (cases "first (filter ?same (usage_records db))")
    case None
    then have "\<forall>x \<in> set (usage_records db). usage_key x \<noteq> (w, meter, day_of t, mp_id p)"
      by (simp add: same_usage_key filter_empty_conv)
    moreover have "Inr (r, db') = record_usage e db w meter q asof" using assms(1) by simp
    ultimately show ?thesis using p None
      by (intro new) (simp_all add: record_usage_def points_for_def Let_def t [symmetric])
  next
    case (Some x)
    from first_filter_SomeD [OF this] show ?thesis using assms(1) p old Some
      by (auto simp: record_usage_def points_for_def Let_def t [symmetric] same_usage_key)
  qed
qed

lemma record_usage_ok [wf_intros]:
  assumes "record_usage e db w meter q asof = Inr (r, db')" "usage_ok db"
  shows "usage_ok db'"
proof -
  let ?t = "case asof of Some t \<Rightarrow> t | None \<Rightarrow> now e"
  from record_usage_Inr [OF assms(1)] obtain p where p: "price_for e db meter (Some ?t) = Inr p" by blast
  from assms(1) p refl show ?thesis
  proof (cases rule: record_usage_cases)
    case new
    then show ?thesis using assms(2) distinct_fresh [of ur_id "usage_records db" r]
      by (auto simp: usage_ok_def usage_key_def)
  next
    case (old x)
    then show ?thesis using assms(2)
      by (simp add: usage_ok_def map_update_where usage_key_def)
  qed
qed

lemma points_at_counts:
  assumes "record_usage e db w meter q asof = Inr (r, db')" "usage_ok db"
    and p: "price_for e db meter (Some t) = Inr p" and t: "t = (case asof of Some t \<Rightarrow> t | None \<Rightarrow> now e)"
  shows "points_used e db' w' (Some d) = points_used e db w' (Some d)
    + (if w' = w \<and> month_index (day_of t) = month_index d then points_at e p q else 0)"
  using assms(1) p t
proof (cases rule: record_usage_cases)
  case new
  then show ?thesis by (simp add: points_used_eq counts_for_def)
next
  case (old x)
  then have "ur_workspace x = w" "ur_day x = day_of t" by (simp_all add: usage_key_def)
  with old assms(2) show ?thesis
    by (simp add: points_used_eq counts_for_def usage_ok_def sum_update_where [where r = x])
qed

subsection \<open>Laws of the cap\<close>

lemma as_cap_Inr: "as_cap n = Inr c \<longleftrightarrow>
    (\<exists>x. n = Number x \<and> 0 \<le> x \<and> x < 10 ^ 10 \<and> c = quantize_half_even 2 x)"
  by (auto simp: as_cap_def split: number.splits)

subsection \<open>Properties\<close>

text \<open>
  prices are never edited. A price that was added changes what any meter costs only at
  moments from its own \<open>effective_from\<close> on, and from then on it is the price in force unless a
  later one had already been entered.
\<close>

theorem add_price_history:
  assumes "add_price int_max e db meter cost units marg eff = Inr (p, db')"
  shows "(t < effective_from p \<or> m \<noteq> mp_meter p \<longrightarrow>
      price_for e db' m (Some t) = price_for e db m (Some t)) \<and>
    (effective_from p \<le> t \<and> (\<forall>q \<in> set (meter_prices db). mp_meter q = mp_meter p \<and>
        effective_from q \<le> t \<longrightarrow> effective_from q \<le> effective_from p)
      \<longrightarrow> price_for e db' (mp_meter p) (Some t) = Inr p)"
proof (intro conjI impI)
  note new = add_price_Inr [OF assms]
  show "t < effective_from p \<or> m \<noteq> mp_meter p \<Longrightarrow>
      price_for e db' m (Some t) = price_for e db m (Some t)"
    by (rule price_for_cong) (auto simp: new(1))
  assume a: "effective_from p \<le> t \<and> (\<forall>q \<in> set (meter_prices db). mp_meter q = mp_meter p \<and>
        effective_from q \<le> t \<longrightarrow> effective_from q \<le> effective_from p)"
  show "price_for e db' (mp_meter p) (Some t) = Inr p"
  proof (cases "price_for e db' (mp_meter p) (Some t)")
    case (Inl x)
    with a show ?thesis by (auto simp: price_for_Inl new(1))
  next
    case (Inr q)
    have "(effective_from p, mp_id p) \<le> (effective_from q, mp_id q)"
      using price_for_latest [OF Inr, of p] a by (simp add: new(1))
    moreover have "q = p \<or> q \<in> set (meter_prices db) \<and> mp_id q < mp_id p"
      using price_for_Inr [OF Inr] fresh_id_gt [of q "meter_prices db" mp_id] by (auto simp: new(1,2))
    ultimately have "q = p" using a price_for_Inr [OF Inr] by auto
    with Inr show ?thesis by simp
  qed
qed

text \<open>
  recording usage adds exactly what the call came to: the day's row is the only one of its
  workspace, meter, day and price, the month of the call is worth the call's points more to that
  workspace, and no other month or workspace changes.
\<close>

theorem record_usage_adds:
  assumes "record_usage e db w meter q asof = Inr (r, db')" "usage_ok db"
  shows "usage_ok db' \<and> (\<exists>p t. t = (case asof of Some t \<Rightarrow> t | None \<Rightarrow> now e) \<and>
      price_for e db meter (Some t) = Inr p \<and> usage_key r = (w, meter, day_of t, mp_id p) \<and>
      (\<forall>w' d. points_used e db' w' (Some d) = points_used e db w' (Some d)
        + (if w' = w \<and> month_index (day_of t) = month_index d then points_at e p q else 0)))"
proof -
  let ?t = "case asof of Some t \<Rightarrow> t | None \<Rightarrow> now e"
  from record_usage_Inr [OF assms(1)] obtain p where p: "price_for e db meter (Some ?t) = Inr p" by blast
  from assms(1) p refl have "usage_key r = (w, meter, day_of ?t, mp_id p)"
    by (cases rule: record_usage_cases) (simp_all add: usage_key_def)
  with p record_usage_ok [OF assms] points_at_counts [OF assms p refl] show ?thesis by blast
qed

text \<open>
  the month's breakdown by day and meter holds every point exactly once: its entries are in
  strictly increasing order and their points add up to the month's total.
\<close>

theorem usage_by_day_total:
  "(\<Sum>(d, m, q, p)\<leftarrow>usage_by_day e db w month. p) = points_used e db w month \<and>
   sorted_wrt (<) (map (\<lambda>(d, m, q, p). (d, m)) (usage_by_day e db w month))"
proof
  let ?rows = "usage_in e db w month"
  let ?key = "\<lambda>r. (ur_day r, ur_meter r)"
  have "(\<Sum>k\<leftarrow>usage_groups ?rows. \<Sum>r\<leftarrow>filter (\<lambda>r. ?key r = k) ?rows. ur_points r)
      = (\<Sum>r\<leftarrow>?rows. ur_points r)"
    by (rule sum_over_groups) (auto simp: usage_groups_def)
  then show "(\<Sum>(d, m, q, p)\<leftarrow>usage_by_day e db w month. p) = points_used e db w month"
    by (simp add: usage_by_day_def points_used_def Let_def comp_def case_prod_beta prod_eq_iff)
  have "map (\<lambda>(d, m, q, p). (d, m)) (usage_by_day e db w month) = usage_groups ?rows"
    by (simp add: usage_by_day_def Let_def comp_def case_prod_beta)
  then show "sorted_wrt (<) (map (\<lambda>(d, m, q, p). (d, m)) (usage_by_day e db w month))"
    by (simp add: usage_groups_def strict_sorted_iff)
qed

text \<open>
  a cap that is set is the cap in force for that workspace and for no other. It is a
  non-negative number of whole cents within half a cent of what was asked for; anything
  negative, not finite or of more than ten whole digits is refused.
\<close>

theorem set_monthly_cap_in_force:
  assumes "profiles_ok db"
  shows "case set_monthly_cap db w (Some n) of
      Inl _ \<Rightarrow> (\<forall>x. n = Number x \<longrightarrow> x < 0 \<or> 10 ^ 10 \<le> x)
    | Inr (c, db') \<Rightarrow> (\<exists>x. n = Number x \<and> c = Some (monthly_cap e db' w) \<and> 0 \<le> monthly_cap e db' w \<and>
        on_grid 2 (monthly_cap e db' w) \<and> \<bar>monthly_cap e db' w - x\<bar> \<le> 1 / 200) \<and>
        (\<forall>v. v \<noteq> w \<longrightarrow> monthly_cap e db' v = monthly_cap e db v)"
proof (cases "as_cap n")
  case (Inl x)
  then show ?thesis by (auto simp: set_monthly_cap_def as_cap_def split: number.splits if_splits)
next
  case (Inr c)
  then obtain x where x: "n = Number x" "0 \<le> x" "c = quantize_half_even 2 x" by (auto simp: as_cap_Inr)
  obtain p db1 where p: "get_or_create_profile db w = (p, db1)" by fastforce
  note sp = get_or_create_profile_spec [OF p assms]
  let ?db = "save_profile (p\<lparr>monthly_usage_cap_points := Some c\<rparr>) db1"
  have po: "profile_of ?db v = (if v = w then Some (p\<lparr>monthly_usage_cap_points := Some c\<rparr>) else profile_of db1 v)" for v
    by (rule profile_of_save [where p = p]) (use sp in simp_all)
  have "set_monthly_cap db w (Some n) = Inr (Some c, ?db)" using Inr p by (simp add: set_monthly_cap_def)
  moreover have "monthly_cap e ?db w = c" using po [of w] by (simp add: monthly_cap_def)
  moreover have "v \<noteq> w \<longrightarrow> monthly_cap e ?db v = monthly_cap e db v" for v
    using po [of v] sp by (simp add: monthly_cap_def)
  moreover have "0 \<le> c" "on_grid 2 c" "\<bar>c - x\<bar> \<le> 1 / 200"
    using x half_even.q_nonneg half_even.q_on_grid half_even.q_err [of 2 x] by simp_all
  ultimately show ?thesis using x by simp
qed

text \<open>
  The limit is checked before the number is rounded to cents: a number just below ten whole
  digits passes the check and is rounded up to one the column (12 digits, 2 places) cannot hold.
\<close>

lemma as_cap_overflow:
  "as_cap (Number (9999999999 + 995/1000)) = Inr 10000000000 \<and> \<not> fits_column 12 2 10000000000"
  by (simp add: as_cap_def fits_column_def quantize_half_even_def round_half_even_def Let_def)

end
