(* ===== verification/Ownership.thy ===== *)
theory Ownership
  imports Platform_Data
begin

text \<open>
  \<open>services/ownership.py\<close>: a workspace's owner is the user with an active membership of role
  owner on the workspace's platform profile. Nothing in the tables limits a profile to one such
  membership; \<open>assign_workspace_owner\<close> does, and \<open>one_owner\<close> is the invariant it keeps. A user is
  the key of an authenticated user; \<open>None\<close> is anybody else.
\<close>

definition active_owner :: "membership \<Rightarrow> bool" where
  "active_owner m \<longleftrightarrow> mb_role m = Role_Owner \<and> mb_active m"

text \<open>The workspace a membership is for (\<open>profile__workspace_id\<close>).\<close>

definition membership_workspace :: "platform_db \<Rightarrow> membership \<Rightarrow> nat option" where
  "membership_workspace db m = (case first (filter (\<lambda>p. pf_id p = mb_profile m) (profiles db)) of
     None \<Rightarrow> None | Some p \<Rightarrow> pf_workspace p)"

definition owned_workspace_ids :: "platform_db \<Rightarrow> nat option \<Rightarrow> nat list" where
  "owned_workspace_ids db user = (case user of None \<Rightarrow> []
     | Some u \<Rightarrow> sort (map (\<lambda>m. the (membership_workspace db m))
         (filter (\<lambda>m. mb_user m = u \<and> active_owner m \<and> membership_workspace db m \<noteq> None) (memberships db))))"

definition is_workspace_owner :: "platform_db \<Rightarrow> nat option \<Rightarrow> nat option \<Rightarrow> bool" where
  "is_workspace_owner db user w = (case (user, w) of
     (Some u, Some w) \<Rightarrow> list_ex (\<lambda>m. mb_user m = u \<and> membership_workspace db m = Some w \<and> active_owner m) (memberships db)
   | _ \<Rightarrow> False)"

text \<open>\<open>owners.setdefault\<close> over the memberships, earliest first.\<close>

definition workspace_owners :: "platform_db \<Rightarrow> nat list \<Rightarrow> (nat \<times> nat) list" where
  "workspace_owners db ids =
    (let ms = sort_key (\<lambda>m. (mb_created_at m, mb_id m))
           (filter (\<lambda>m. active_owner m \<and> (case membership_workspace db m of None \<Rightarrow> False | Some w \<Rightarrow> w \<in> set ids))
             (memberships db))
     in fold (\<lambda>m owners. let w = the (membership_workspace db m) in
          if w \<in> fst ` set owners then owners else owners @ [(w, mb_user m)]) ms [])"

datatype ownership_error = Workspace_Already_Owned nat nat

definition assign_workspace_owner :: "env \<Rightarrow> platform_db \<Rightarrow> nat \<Rightarrow> nat \<Rightarrow> ownership_error + (membership \<times> platform_db)" where
  "assign_workspace_owner e db w user =
    (let (p, db) = get_or_create_profile db w in
     case first (filter (\<lambda>m. mb_profile m = pf_id p \<and> active_owner m \<and> mb_user m \<noteq> user) (memberships db)) of
       Some other \<Rightarrow> Inl (Workspace_Already_Owned w (mb_user other))
     | None \<Rightarrow>
         (case first (filter (\<lambda>m. mb_user m = user \<and> mb_profile m = pf_id p) (memberships db)) of
            None \<Rightarrow> let m = \<lparr>mb_id = fresh_id mb_id (memberships db), mb_user = user, mb_profile = pf_id p,
                mb_role = Role_Owner, mb_active = True, mb_created_at = now e\<rparr>
              in Inr (m, db\<lparr>memberships := memberships db @ [m]\<rparr>)
          | Some m \<Rightarrow> if active_owner m then Inr (m, db)
              else let m' = m\<lparr>mb_role := Role_Owner, mb_active := True\<rparr>
                in Inr (m', db\<lparr>memberships := update_where (\<lambda>x. mb_id x = mb_id m) (\<lambda>_. m') (memberships db)\<rparr>)))"

subsection \<open>One active owner\<close>

definition memberships_ok :: "platform_db \<Rightarrow> bool" where
  "memberships_ok db \<longleftrightarrow> distinct (map mb_id (memberships db)) \<and>
     distinct (map (\<lambda>m. (mb_user m, mb_profile m)) (memberships db)) \<and>
     (\<forall>m \<in> set (memberships db). mb_profile m \<in> pf_id ` set (profiles db))"

definition one_owner :: "platform_db \<Rightarrow> bool" where
  "one_owner db \<longleftrightarrow> (\<forall>m \<in> set (memberships db). \<forall>n \<in> set (memberships db).
     active_owner m \<and> active_owner n \<and> mb_profile m = mb_profile n \<longrightarrow> m = n)"

lemma profile_by_id:
  assumes "profiles_ok db" "p \<in> set (profiles db)" "mb_profile m = pf_id p"
  shows "membership_workspace db m = pf_workspace p"
proof -
  from assms(2,3) obtain q where q: "first (filter (\<lambda>p. pf_id p = mb_profile m) (profiles db)) = Some q"
    by (cases "first (filter (\<lambda>p. pf_id p = mb_profile m) (profiles db))") (auto simp: filter_empty_conv)
  from first_filter_SomeD [OF q] assms have "q = p" by (auto simp: profiles_ok_def distinct_map inj_on_def)
  with q show ?thesis by (simp add: membership_workspace_def)
qed

lemma assign_cases:
  assumes "assign_workspace_owner e db w user = Inr (m, db')" "get_or_create_profile db w = (p, db1)"
    and "memberships db1 = memberships db"
  obtains (new) "db' = db1\<lparr>memberships := memberships db @ [m]\<rparr>" "mb_id m = fresh_id mb_id (memberships db)"
      "mb_user m = user" "mb_profile m = pf_id p" "active_owner m"
      "\<forall>x \<in> set (memberships db). mb_profile x = pf_id p \<longrightarrow> \<not> active_owner x \<and> mb_user x \<noteq> user"
  | (kept) "db' = db1" "m \<in> set (memberships db)" "active_owner m" "mb_user m = user" "mb_profile m = pf_id p"
  | (raised) x where "x \<in> set (memberships db)" "mb_user x = user" "mb_profile x = pf_id p" "\<not> active_owner x"
      "m = x\<lparr>mb_role := Role_Owner, mb_active := True\<rparr>"
      "db' = db1\<lparr>memberships := update_where (\<lambda>y. mb_id y = mb_id x) (\<lambda>_. m) (memberships db)\<rparr>"
      "\<forall>y \<in> set (memberships db). mb_profile y = pf_id p \<longrightarrow> active_owner y \<longrightarrow> mb_user y = user"
proof -
  let ?other = "first (filter (\<lambda>m. mb_profile m = pf_id p \<and> active_owner m \<and> mb_user m \<noteq> user) (memberships db))"
  let ?own = "first (filter (\<lambda>m. mb_user m = user \<and> mb_profile m = pf_id p) (memberships db))"
  have o1: "?other = None" using assms by (cases ?other) (auto simp: assign_workspace_owner_def)
  then have others: "\<forall>x \<in> set (memberships db). mb_profile x = pf_id p \<longrightarrow> active_owner x \<longrightarrow> mb_user x = user"
    by (auto simp: filter_empty_conv)
  show ?thesis
  proof (cases ?own)
    case None
    then have "\<forall>x \<in> set (memberships db). mb_profile x = pf_id p \<longrightarrow> mb_user x \<noteq> user"
      by (auto simp: filter_empty_conv)
    with others None o1 assms show ?thesis
      by (intro new) (auto simp: assign_workspace_owner_def Let_def active_owner_def)
  next
    case (Some x)
    note x = first_filter_SomeD [OF Some]
    show ?thesis
    proof (cases "active_owner x")
      case True
      with Some o1 assms x show ?thesis by (intro kept) (auto simp: assign_workspace_owner_def)
    next
      case False
      with Some o1 assms x others show ?thesis
        by (intro raised [of x]) (auto simp: assign_workspace_owner_def Let_def)
    qed
  qed
qed

lemma update_where_map:
  assumes "distinct (map key xs)" "x \<in> set xs" "set ys \<subseteq> set xs"
  shows "update_where (\<lambda>y. key y = key x) (\<lambda>_. z) ys = map (\<lambda>y. if y = x then z else y) ys"
proof -
  have "key y = key x \<longleftrightarrow> y = x" if "y \<in> set ys" for y
    using assms that by (auto simp: distinct_map inj_on_def)
  then show ?thesis by (simp add: update_where_def)
qed

lemma profile_tables: "get_or_create_profile db w = (p, db1) \<Longrightarrow> memberships db1 = memberships db"
  by (auto simp: get_or_create_profile_def Let_def split: option.splits)

lemma get_or_create_profile_mem: "get_or_create_profile db w = (p, db1) \<Longrightarrow>
    p \<in> set (profiles db1) \<and> set (profiles db) \<subseteq> set (profiles db1) \<and> pf_workspace p = Some w"
  by (auto simp: get_or_create_profile_def Let_def new_profile_def split: option.splits dest: profile_of_Some)

lemma membership_workspace_extend:
  assumes "get_or_create_profile db w = (p, db1)" "profiles_ok db" "mb_profile m \<in> pf_id ` set (profiles db)"
  shows "membership_workspace db1 m = membership_workspace db m"
proof -
  from assms(3) obtain q where q: "q \<in> set (profiles db)" "mb_profile m = pf_id q" by blast
  have "q \<in> set (profiles db1)" "profiles_ok db1"
    using q get_or_create_profile_mem [OF assms(1)] get_or_create_profile_spec [OF assms(1,2)] by auto
  with q assms(2) show ?thesis by (simp add: profile_by_id)
qed

lemma membership_workspace_cong: "profiles db' = profiles db \<Longrightarrow> membership_workspace db' m = membership_workspace db m"
  by (simp add: membership_workspace_def)

lemma profile_of_workspace: "profiles_ok db \<Longrightarrow> profile_of db w = Some p \<Longrightarrow> q \<in> set (profiles db) \<Longrightarrow>
    pf_workspace q = Some w \<longleftrightarrow> q = p"
  using profile_of_Some [of db w p] by (auto simp: profiles_ok_def distinct_map inj_on_def)

text \<open>A membership is for the workspace exactly when it is on its profile.\<close>

lemma membership_on_profile:
  assumes "profiles_ok db" "profile_of db w = Some p" "mb_profile m \<in> pf_id ` set (profiles db)"
  shows "membership_workspace db m = Some w \<longleftrightarrow> mb_profile m = pf_id p"
proof -
  from assms(3) obtain q where q: "q \<in> set (profiles db)" "mb_profile m = pf_id q" by blast
  have "pf_id q = pf_id p \<longleftrightarrow> q = p"
    using assms(1) q(1) profile_of_Some [OF assms(2)] by (auto simp: profiles_ok_def distinct_map inj_on_def)
  with q assms profile_of_workspace [OF assms(1,2) q(1)] profile_by_id [OF assms(1) q] show ?thesis by simp
qed

subsection \<open>Properties\<close>

text \<open>
  a workspace keeps one active owner. Assigning an owner to a workspace whose memberships
  obey that either makes the user its one active owner, or is refused because somebody else is;
  who owns any other workspace does not change.
\<close>

theorem assign_keeps_one_owner:
  assumes "profiles_ok db" "memberships_ok db" "one_owner db"
  shows "case assign_workspace_owner e db w user of
      Inr (m, db') \<Rightarrow> one_owner db' \<and> memberships_ok db' \<and> is_workspace_owner db' (Some user) (Some w) \<and>
        (\<forall>u. is_workspace_owner db' (Some u) (Some w) \<longrightarrow> u = user) \<and>
        (\<forall>u v. v \<noteq> w \<longrightarrow> is_workspace_owner db' (Some u) (Some v) = is_workspace_owner db (Some u) (Some v))
    | Inl (Workspace_Already_Owned v other) \<Rightarrow> v = w \<and> other \<noteq> user \<and> is_workspace_owner db (Some other) (Some w)"
proof -
  obtain p db1 where p: "get_or_create_profile db w = (p, db1)" by fastforce
  note sp = get_or_create_profile_spec [OF p assms(1)]
  note mem = get_or_create_profile_mem [OF p] and tab = profile_tables [OF p]
  have ok1: "profiles_ok db1" and po: "profile_of db1 w = Some p" using sp by simp_all
  have fk: "mb_profile m \<in> pf_id ` set (profiles db1)" if "m \<in> set (memberships db)" for m
    using assms(2) that mem by (auto simp: memberships_ok_def)
  have ext: "membership_workspace db1 m = membership_workspace db m" if "m \<in> set (memberships db)" for m
    using membership_workspace_extend [OF p assms(1)] assms(2) that by (simp add: memberships_ok_def)
  show ?thesis
  proof (cases "assign_workspace_owner e db w user")
    case (Inl err)
    then obtain x where x: "first (filter (\<lambda>m. mb_profile m = pf_id p \<and> active_owner m \<and> mb_user m \<noteq> user)
        (memberships db)) = Some x" "err = Workspace_Already_Owned w (mb_user x)"
      using p tab by (auto simp: assign_workspace_owner_def Let_def split: option.splits if_splits)
    from first_filter_SomeD [OF x(1)] have m: "x \<in> set (memberships db)" "mb_profile x = pf_id p"
      "active_owner x" "mb_user x \<noteq> user" by simp_all
    from membership_on_profile [OF ok1 po fk [OF m(1)]] ext [OF m(1)] m(2)
    have "membership_workspace db x = Some w" by simp
    with m Inl x(2) show ?thesis by (auto simp: is_workspace_owner_def list_ex_iff)
  next
    case (Inr r)
    obtain m db' where r: "r = (m, db')" by (cases r)
    have a: "assign_workspace_owner e db w user = Inr (m, db')" using Inr r by simp
    let ?ms = "memberships db'"
    have "m \<in> set ?ms \<and> active_owner m \<and> mb_user m = user \<and> mb_profile m = pf_id p \<and> profiles db' = profiles db1 \<and>
        distinct (map mb_id ?ms) \<and> distinct (map (\<lambda>m. (mb_user m, mb_profile m)) ?ms) \<and>
        (\<forall>y \<in> set ?ms. mb_profile y = pf_id p \<longrightarrow> active_owner y \<longrightarrow> y = m) \<and>
        filter (\<lambda>y. mb_profile y \<noteq> pf_id p) ?ms = filter (\<lambda>y. mb_profile y \<noteq> pf_id p) (memberships db)"
      using a p tab
    proof (cases rule: assign_cases)
      case new
      then show ?thesis using assms(2) by (auto simp: memberships_ok_def)
    next
      case kept
      then show ?thesis using assms(2,3) tab by (auto simp: memberships_ok_def one_owner_def)
    next
      case (raised x)
      have up: "?ms = map (\<lambda>y. if y = x then m else y) (memberships db)"
        using raised assms(2) update_where_map [of mb_id "memberships db" x "memberships db" m]
        by (simp add: memberships_ok_def)
      have keys: "map mb_id ?ms = map mb_id (memberships db)"
        "map (\<lambda>m. (mb_user m, mb_profile m)) ?ms = map (\<lambda>m. (mb_user m, mb_profile m)) (memberships db)"
        unfolding up using raised(5) by simp_all
      have same: "y = x" if "y \<in> set (memberships db)" "mb_profile y = pf_id p" "active_owner y" for y
        using raised(1-3,7) that assms(2) by (auto simp: memberships_ok_def distinct_map inj_on_def)
      have "filter (\<lambda>y. mb_profile y \<noteq> pf_id p) (map (\<lambda>y. if y = x then m else y) ys)
          = filter (\<lambda>y. mb_profile y \<noteq> pf_id p) ys" for ys
        using raised(3,5) by (induction ys) auto
      then have rest: "filter (\<lambda>y. mb_profile y \<noteq> pf_id p) ?ms = filter (\<lambda>y. mb_profile y \<noteq> pf_id p) (memberships db)"
        unfolding up .
      have mem: "y \<in> set ?ms \<longleftrightarrow> y = m \<or> (y \<in> set (memberships db) \<and> y \<noteq> x)" for y
        unfolding up using raised(1) by auto
      have m: "active_owner m" "mb_user m = user" "mb_profile m = pf_id p"
        using raised(2,3,5) by (simp_all add: active_owner_def)
      have "y = m" if "y \<in> set ?ms" "mb_profile y = pf_id p" "active_owner y" for y
        using that mem [of y] same [of y] by blast
      moreover have "distinct (map mb_id ?ms) \<and> distinct (map (\<lambda>m. (mb_user m, mb_profile m)) ?ms)"
        unfolding keys using assms(2) by (simp add: memberships_ok_def)
      moreover have "m \<in> set ?ms" unfolding mem by simp
      moreover have "profiles db' = profiles db1" unfolding raised(6) by simp
      ultimately show ?thesis using m rest by blast
    qed
    note res = this
    then have m: "m \<in> set ?ms" "active_owner m" "mb_user m = user" "mb_profile m = pf_id p"
      and pr: "profiles db' = profiles db1"
      and only: "\<And>y. y \<in> set ?ms \<Longrightarrow> mb_profile y = pf_id p \<Longrightarrow> active_owner y \<Longrightarrow> y = m"
      and rest: "filter (\<lambda>y. mb_profile y \<noteq> pf_id p) ?ms = filter (\<lambda>y. mb_profile y \<noteq> pf_id p) (memberships db)"
      by simp_all
    have other: "y \<in> set ?ms \<longleftrightarrow> y \<in> set (memberships db)" if "mb_profile y \<noteq> pf_id p" for y
      using arg_cong [OF rest, of set] that by (auto simp: set_eq_iff)
    have fk': "mb_profile y \<in> pf_id ` set (profiles db1)" if "y \<in> set ?ms" for y
      using that other [of y] fk mem by (cases "mb_profile y = pf_id p") auto
    have on: "membership_workspace db' y = Some w \<longleftrightarrow> mb_profile y = pf_id p" if "y \<in> set ?ms" for y
      using membership_on_profile [OF ok1 po fk' [OF that]] membership_workspace_cong [OF pr] by simp
    have old: "membership_workspace db' y = membership_workspace db y" if "y \<in> set (memberships db)" for y
      using ext [OF that] membership_workspace_cong [OF pr] by simp
    have "memberships_ok db'" using res fk' pr by (simp add: memberships_ok_def)
    moreover have "one_owner db'"
      unfolding one_owner_def
    proof (intro ballI impI)
      fix x y assume x: "x \<in> set ?ms" and y: "y \<in> set ?ms"
        and a: "active_owner x \<and> active_owner y \<and> mb_profile x = mb_profile y"
      show "x = y"
      proof (cases "mb_profile x = pf_id p")
        case True
        with a only [OF x] only [OF y] show ?thesis by simp
      next
        case False
        with a x y other have "x \<in> set (memberships db)" "y \<in> set (memberships db)" by auto
        with assms(3) a show ?thesis by (simp add: one_owner_def)
      qed
    qed
    moreover have "is_workspace_owner db' (Some user) (Some w)"
      using m on [OF m(1)] by (auto simp: is_workspace_owner_def list_ex_iff)
    moreover have "u = user" if "is_workspace_owner db' (Some u) (Some w)" for u
      using that on only m(3) by (auto simp: is_workspace_owner_def list_ex_iff)
    moreover have "is_workspace_owner db' (Some u) (Some v) = is_workspace_owner db (Some u) (Some v)" if "v \<noteq> w" for u v
    proof -
      have "(y \<in> set ?ms \<and> membership_workspace db' y = Some v) \<longleftrightarrow>
          (y \<in> set (memberships db) \<and> membership_workspace db y = Some v)" for y
      proof (cases "mb_profile y = pf_id p")
        case True
        have "membership_workspace db y = Some w" if "y \<in> set (memberships db)"
          using membership_on_profile [OF ok1 po fk [OF that]] ext [OF that] True by simp
        with True on [of y] \<open>v \<noteq> w\<close> show ?thesis by auto
      next
        case False
        with other old show ?thesis by auto
      qed
      then show ?thesis by (auto simp: is_workspace_owner_def list_ex_iff)
    qed
    ultimately have "one_owner db' \<and> memberships_ok db' \<and> is_workspace_owner db' (Some user) (Some w) \<and>
        (\<forall>u. is_workspace_owner db' (Some u) (Some w) \<longrightarrow> u = user) \<and>
        (\<forall>u v. v \<noteq> w \<longrightarrow> is_workspace_owner db' (Some u) (Some v) = is_workspace_owner db (Some u) (Some v))"
      by blast
    then show ?thesis unfolding Inr r sum.case prod.case .
  qed
qed

end
