(* ===== verification/Billing.thy ===== *)
theory Billing
  imports Entitlements Exchange_Rates Pricing_Usage Ownership
begin

text \<open>
  \<open>services/billing.py\<close> after the invoice numbers: the lines of a bill, the monthly run, and the
  question whether a workspace is behind on its bills; with \<open>usage.may_meter\<close>, which asks it.

  The dictionaries the run memoises its lookups in are not modelled: what they hold cannot
  change during a run, since it writes no rate, no tax rate and no existing currency. An
  invoice whose number is taken is the \<open>IntegrityError\<close> of the unique index on (workspace,
  number). Reasons for skipping a workspace are the constructors of \<open>skip\<close> instead of sentences.
\<close>

definition POINT_CURRENCY :: string where
  "POINT_CURRENCY = ''USD''"

definition unpaid :: "inv_status \<Rightarrow> bool" where
  "unpaid s \<longleftrightarrow> s \<in> {Inv_Draft, Inv_Sent, Inv_Overdue}"

definition round_to :: "rat \<Rightarrow> nat \<Rightarrow> rat" where
  "round_to amount places = quantize_half_up places amount"

definition previous_month :: "date \<Rightarrow> date" where
  "previous_month d = first_of_month d - 1"

definition renewal_period_bounds :: "env \<Rightarrow> date \<Rightarrow> moment \<times> moment" where
  "renewal_period_bounds e period_start = (let (f, n) = month_bounds e (Some period_start)
     in (midnight f, midnight n))"

definition tax_percent :: "platform_db \<Rightarrow> string \<Rightarrow> nat \<Rightarrow> rat" where
  "tax_percent db ctry platform =
    (if ctry \<noteq> ''NZ'' then 0
     else case earliest_by tr_id (filter (\<lambda>r. tr_workspace r = platform \<and> tr_country r = ''NZ'' \<and> tr_active r) (tax_rates db)) of
       None \<Rightarrow> 0 | Some r \<Rightarrow> tr_rate r)"

definition currency_row :: "platform_db \<Rightarrow> string \<Rightarrow> bool \<Rightarrow> currency option \<times> platform_db" where
  "currency_row db code create = (case find_currency db code of Some c \<Rightarrow> (Some c, db)
     | None \<Rightarrow> if \<not> create then (None, db)
         else let (_, db) = ensure_currency db code False in (find_currency db code, db))"

subsection \<open>Lines\<close>

record bill_line =
  bl_description :: string
  bl_quantity :: rat
  bl_unit_price :: rat
  bl_subtotal :: rat
  bl_tax :: rat
  bl_tax_type :: tax_type

definition bill_line_of :: "string \<Rightarrow> rat \<Rightarrow> rat \<Rightarrow> rat \<Rightarrow> bill_line" where
  "bill_line_of text q u s = \<lparr>bl_description = text, bl_quantity = q, bl_unit_price = u, bl_subtotal = s,
     bl_tax = 0, bl_tax_type = No_Tax\<rparr>"

definition plan_by_id :: "platform_db \<Rightarrow> nat option \<Rightarrow> plan option" where
  "plan_by_id db i = (case i of None \<Rightarrow> None | Some i \<Rightarrow> first (filter (\<lambda>p. pl_id p = i) (plans db)))"

text \<open>The entitlements a renewal line is written for.\<close>

definition chargeable :: "platform_db \<Rightarrow> entitlement \<Rightarrow> bool" where
  "chargeable db r \<longleftrightarrow> en_source r \<noteq> Granted \<and> plan_by_id db (en_plan r) \<noteq> None"

definition renewal_line :: "plan \<Rightarrow> string \<Rightarrow> rat \<Rightarrow> nat \<Rightarrow> bill_line" where
  "renewal_line p key rate places = (let price = round_to (pl_price p * rate) places in
     bill_line_of (take 255 (pl_name p @ '' '' @ em_dash @ '' '' @ or_else key ''base plan'' @ '' renewal'')) 1 price price)"

fun renewal_lines_of :: "platform_db \<Rightarrow> (string \<Rightarrow> string \<Rightarrow> rate_error + rat) \<Rightarrow> string \<Rightarrow> nat \<Rightarrow> entitlement list
    \<Rightarrow> rate_error + bill_line list" where
  "renewal_lines_of db rate_for code places [] = Inr []"
| "renewal_lines_of db rate_for code places (r # rs) =
    (if en_source r = Granted then renewal_lines_of db rate_for code places rs
     else case plan_by_id db (en_plan r) of
       None \<Rightarrow> renewal_lines_of db rate_for code places rs
     | Some p \<Rightarrow>
         bind_r (rate_for (get_default_currency_for_workspace (workspace_by_id db (pl_workspace p))) code) (\<lambda>rate.
         bind_r (renewal_lines_of db rate_for code places rs) (\<lambda>ls.
           Inr (renewal_line p (en_key r) rate places # ls))))"

definition renewal_lines :: "platform_db \<Rightarrow> (string \<Rightarrow> string \<Rightarrow> rate_error + rat) \<Rightarrow> string \<Rightarrow> nat \<Rightarrow> entitlement list
    \<Rightarrow> rate_error + bill_line list" where
  "renewal_lines db rate_for code places rows =
     renewal_lines_of db rate_for code places (sort_key (\<lambda>r. (en_key r, en_id r)) rows)"

text \<open>A meter of the month with its calls and its points.\<close>

record meter_total =
  mt_meter :: string
  mt_quantity :: rat
  mt_points :: rat

definition usage_lines :: "meter_total list \<Rightarrow> rat \<Rightarrow> nat \<Rightarrow> bill_line list" where
  "usage_lines totals rate places = concat (map (\<lambda>m.
     let points = quantize_half_up 2 (mt_points m) in
     if points \<le> 0 then []
     else [bill_line_of (take 255 (mt_meter m @ '' '' @ em_dash @ '' '' @ show_normal 4 (mt_quantity m) @ '' metered units''))
       points (round_to rate places) (round_to (points * rate) places)])
     (sort_key mt_meter totals))"

definition trial_line :: "rat \<Rightarrow> rat \<Rightarrow> rat \<Rightarrow> nat \<Rightarrow> bill_line option" where
  "trial_line points rate charge places = (let credit = min (round_to (points * rate) places) charge in
     if credit \<le> 0 then None
     else Some (bill_line_of (''Trial credit ('' @ show_normal 28 points @ '' points)'') 1 (- credit) (- credit)))"

definition taxed :: "rat \<Rightarrow> nat \<Rightarrow> bill_line \<Rightarrow> bill_line" where
  "taxed percent places l = l\<lparr>bl_tax := round_to (bl_subtotal l * percent / 100) places,
     bl_tax_type := (if percent \<noteq> 0 then Tax_Default else No_Tax)\<rparr>"

subsection \<open>What a run reads before it starts\<close>

definition metered_rows :: "platform_db \<Rightarrow> date \<times> date \<Rightarrow> usage_record list" where
  "metered_rows db period = filter (\<lambda>r. fst period \<le> ur_day r \<and> ur_day r < snd period) (usage_records db)"

definition metered_for :: "platform_db \<Rightarrow> date \<times> date \<Rightarrow> nat \<Rightarrow> meter_total list" where
  "metered_for db period w = (let rows = filter (\<lambda>r. ur_workspace r = w) (metered_rows db period) in
     map (\<lambda>m. let g = filter (\<lambda>r. ur_meter r = m) rows
        in \<lparr>mt_meter = m, mt_quantity = (\<Sum>r\<leftarrow>g. ur_quantity r), mt_points = (\<Sum>r\<leftarrow>g. ur_points r)\<rparr>)
       (sort (remdups (map ur_meter rows))))"

definition in_bounds :: "moment \<times> moment \<Rightarrow> entitlement \<Rightarrow> bool" where
  "in_bounds b r \<longleftrightarrow> (case current_period_end r of None \<Rightarrow> False | Some p \<Rightarrow> fst b \<le> p \<and> p < snd b)"

definition renewals_for :: "platform_db \<Rightarrow> moment \<times> moment \<Rightarrow> nat \<Rightarrow> entitlement list" where
  "renewals_for db b w = sort_key (\<lambda>r. (en_key r, en_id r))
     (filter (\<lambda>r. in_bounds b r \<and> en_workspace r = w) (entitlements db))"

definition bill_candidates :: "platform_db \<Rightarrow> date \<times> date \<Rightarrow> moment \<times> moment \<Rightarrow> nat list" where
  "bill_candidates db period b = sort (remdups (map ur_workspace (metered_rows db period)
     @ map en_workspace (filter (in_bounds b) (entitlements db))))"

subsection \<open>One workspace's bill\<close>

datatype skip = Is_Platform | Already_Billed | No_Owner_To_Bill | Not_A_Currency string
  | No_Rate string string | Missing_Rate string string | Nothing_Chargeable

record bill_entry =
  be_workspace :: nat
  be_workspace_name :: string
  be_number :: string
  be_period :: string
  be_currency :: string
  be_lines :: "bill_line list"
  be_subtotal :: rat
  be_tax :: rat
  be_total :: rat
  be_issued :: bool
  be_skipped :: "skip option"

text \<open>What is fixed for a whole run.\<close>

record bill_run =
  rn_platform :: workspace
  rn_start :: date
  rn_next :: date
  rn_due :: date
  rn_dry :: bool

definition bill_currency :: "workspace \<Rightarrow> string" where
  "bill_currency w = upper (or_else (get_default_currency_for_workspace (Some w)) POINT_CURRENCY)"

definition blank_entry :: "bill_run \<Rightarrow> workspace \<Rightarrow> bill_entry" where
  "blank_entry r w = \<lparr>be_workspace = ws_id w, be_workspace_name = ws_name w,
     be_number = invoice_number_for (ws_id w) (rn_start r), be_period = show_month (rn_start r),
     be_currency = bill_currency w, be_lines = [], be_subtotal = 0, be_tax = 0, be_total = 0,
     be_issued = False, be_skipped = None\<rparr>"

definition bill_places :: "currency option \<Rightarrow> nat" where
  "bill_places c = min (case c of Some c \<Rightarrow> decimal_places c | None \<Rightarrow> 2) 2"

text \<open>\<open>rate_or_refuse\<close>: the error names the codes as they were asked for.\<close>

definition rate_or_refuse :: "env \<Rightarrow> platform_db \<Rightarrow> string \<Rightarrow> string \<Rightarrow> rate_error + rat" where
  "rate_or_refuse e db f t = (case convert e db 1 f t (Some (today e)) of
     Inl _ \<Rightarrow> Inl (Exchange_Rate_Not_Found f t (today e)) | Inr x \<Rightarrow> Inr x)"

text \<open>
  The charges of a workspace's bill and the rate. \<open>db0\<close> is the database the run started from, which
  the usage, the renewals and the profile were read from; \<open>db\<close> is the one it is at.
\<close>

definition charge_lines :: "env \<Rightarrow> platform_db \<Rightarrow> platform_db \<Rightarrow> bill_run \<Rightarrow> workspace \<Rightarrow> nat
    \<Rightarrow> skip + (bill_line list \<times> rat)" where
  "charge_lines e db0 db r w places = (let code = bill_currency w in
     case convert e db 1 POINT_CURRENCY code (Some (today e)) of
       Inl _ \<Rightarrow> Inl (No_Rate POINT_CURRENCY code)
     | Inr rate \<Rightarrow>
       (case renewal_lines db (rate_or_refuse e db) code places
            (renewals_for db0 (renewal_period_bounds e (rn_start r)) (ws_id w)) of
          Inl (Exchange_Rate_Not_Found f t _) \<Rightarrow> Inl (Missing_Rate f t)
        | Inl _ \<Rightarrow> Inl (Missing_Rate [] [])
        | Inr renewals \<Rightarrow>
          (let ls = renewals @ usage_lines (metered_for db0 (rn_start r, rn_next r) (ws_id w)) rate places in
           if ls = [] then Inl Nothing_Chargeable else Inr (ls, rate))))"

definition trial_credit :: "env \<Rightarrow> platform_db \<Rightarrow> nat \<Rightarrow> rat \<Rightarrow> bill_line list \<Rightarrow> nat \<Rightarrow> bill_line option" where
  "trial_credit e db0 w rate ls places =
     (if 0 < trial_points e \<and> (case profile_of db0 w of None \<Rightarrow> True | Some p \<Rightarrow> trial_points_used_at p = None)
      then trial_line (trial_points e) rate (\<Sum>l\<leftarrow>ls. bl_subtotal l) places else None)"

text \<open>The taxed lines, whether the trial credit is one of them, and the rate.\<close>

definition bill_lines :: "env \<Rightarrow> platform_db \<Rightarrow> platform_db \<Rightarrow> bill_run \<Rightarrow> workspace \<Rightarrow> nat
    \<Rightarrow> skip + (bill_line list \<times> bool \<times> rat)" where
  "bill_lines e db0 db r w places = bind_r (charge_lines e db0 db r w places) (\<lambda>(ls, rate).
     let credit = trial_credit e db0 (ws_id w) rate ls places;
         ls = ls @ (case credit of None \<Rightarrow> [] | Some l \<Rightarrow> [l]);
         percent = tax_percent db (upper (get_default_country_for_workspace (Some w))) (ws_id (rn_platform r))
     in Inr (map (taxed percent places) ls, credit \<noteq> None, rate))"

definition customer_of :: "platform_db \<Rightarrow> nat \<Rightarrow> nat \<Rightarrow> customer option" where
  "customer_of db w u = first (filter (\<lambda>c. cu_workspace c = w \<and> cu_user c = u) (customers db))"

definition get_or_create_customer :: "platform_db \<Rightarrow> nat \<Rightarrow> nat \<Rightarrow> customer \<times> platform_db" where
  "get_or_create_customer db w u = (case customer_of db w u of Some c \<Rightarrow> (c, db)
     | None \<Rightarrow> let c = \<lparr>cu_id = fresh_id cu_id (customers db), cu_workspace = w, cu_user = u\<rparr>
         in (c, db\<lparr>customers := customers db @ [c]\<rparr>))"

definition invoice_taken :: "platform_db \<Rightarrow> nat \<Rightarrow> string \<Rightarrow> bool" where
  "invoice_taken db w number = list_ex (\<lambda>i. inv_workspace i = w \<and> inv_number i = number) (invoices db)"

text \<open>\<open>Invoice.all_objects.create\<close>, refused when the workspace has used the number.\<close>

datatype integrity_error = Integrity_Error

definition create_invoice :: "invoice \<Rightarrow> platform_db \<Rightarrow> integrity_error + (invoice \<times> platform_db)" where
  "create_invoice i db = (if invoice_taken db (inv_workspace i) (inv_number i) then Inl Integrity_Error
     else let i = i\<lparr>inv_id := fresh_id inv_id (invoices db)\<rparr> in Inr (i, db\<lparr>invoices := invoices db @ [i]\<rparr>))"

definition item_of :: "nat \<Rightarrow> nat \<Rightarrow> bill_line \<Rightarrow> invoice_item" where
  "item_of i bill l = \<lparr>it_id = i, it_invoice = bill, it_description = bl_description l, it_quantity = bl_quantity l,
     it_unit_price = bl_unit_price l, it_subtotal = bl_subtotal l, it_tax = bl_tax l, it_tax_type = bl_tax_type l\<rparr>"

definition create_items :: "nat \<Rightarrow> bill_line list \<Rightarrow> platform_db \<Rightarrow> platform_db" where
  "create_items bill ls db = (let i = fresh_id it_id (invoice_items db) in
     db\<lparr>invoice_items := invoice_items db @ map (\<lambda>(k, l). item_of (i + k) bill l) (enumerate 0 ls)\<rparr>)"

definition lines_subtotal :: "bill_line list \<Rightarrow> rat" where
  "lines_subtotal ls = (\<Sum>l\<leftarrow>ls. bl_subtotal l)"

definition lines_tax :: "bill_line list \<Rightarrow> rat" where
  "lines_tax ls = (\<Sum>l\<leftarrow>ls. bl_tax l)"

definition rate_note :: "string \<Rightarrow> string \<Rightarrow> rat \<Rightarrow> date \<Rightarrow> string" where
  "rate_note f t rate day = ''1 '' @ f @ '' = '' @ (if clean_code f = clean_code t then ''1'' else show_fixed 6 rate)
     @ '' '' @ t @ '' on '' @ isoformat day @ ''.''"

definition monthly_notes :: "bill_run \<Rightarrow> workspace \<Rightarrow> rat \<Rightarrow> date \<Rightarrow> string" where
  "monthly_notes r w rate day = ws_name w @ '' (workspace '' @ show_nat (ws_id w) @ '') '' @ em_dash @
     '' usage and renewals for '' @ show_month (rn_start r) @ ''. '' @ rate_note POINT_CURRENCY (bill_currency w) rate day"

definition spend_trial :: "env \<Rightarrow> nat \<Rightarrow> platform_db \<Rightarrow> platform_db" where
  "spend_trial e w db = (let (p, db) = get_or_create_profile db w in
     save_profile (p\<lparr>trial_points_used_at := Some (now e)\<rparr>) db)"

text \<open>The transaction that writes one bill.\<close>

definition write_bill :: "env \<Rightarrow> bill_run \<Rightarrow> workspace \<Rightarrow> nat \<Rightarrow> currency \<Rightarrow> bill_line list \<Rightarrow> bool \<Rightarrow> rat
    \<Rightarrow> platform_db \<Rightarrow> integrity_error + platform_db" where
  "write_bill e r w owner cur ls credit rate db =
    (let platform = ws_id (rn_platform r); (c, db) = get_or_create_customer db platform owner in
     bind_r (create_invoice \<lparr>inv_id = 0, inv_workspace = platform, inv_customer = cu_id c,
         inv_number = invoice_number_for (ws_id w) (rn_start r), inv_status = Inv_Sent,
         inv_subtotal = lines_subtotal ls, inv_tax = lines_tax ls, inv_total = lines_subtotal ls + lines_tax ls,
         inv_currency = cur_id cur, issue_date = today e, due_date = rn_due r, paid_date = None,
         inv_notes = monthly_notes r w rate (today e)\<rparr> db) (\<lambda>(i, db).
       let db = create_items (inv_id i) ls db
       in Inr (if credit then spend_trial e (ws_id w) db else db)))"

text \<open>One turn of the loop: the entry for a workspace and the database after it, from the end back.\<close>

definition issue_entry :: "env \<Rightarrow> bill_run \<Rightarrow> workspace \<Rightarrow> nat \<Rightarrow> currency option \<Rightarrow> bill_line list \<Rightarrow> bool \<Rightarrow> rat
    \<Rightarrow> platform_db \<Rightarrow> bill_entry \<times> platform_db" where
  "issue_entry e r w owner cur ls credit rate db =
    (let entry = (blank_entry r w)\<lparr>be_lines := ls, be_subtotal := lines_subtotal ls, be_tax := lines_tax ls,
           be_total := lines_subtotal ls + lines_tax ls\<rparr> in
     if rn_dry r then (entry, db)
     else case cur of None \<Rightarrow> (entry, db)
       | Some c \<Rightarrow> (case write_bill e r w owner c ls credit rate db of
           Inl _ \<Rightarrow> (entry\<lparr>be_skipped := Some Already_Billed\<rparr>, db)
         | Inr db \<Rightarrow> (entry\<lparr>be_issued := True\<rparr>, db)))"

definition price_entry :: "env \<Rightarrow> platform_db \<Rightarrow> bill_run \<Rightarrow> workspace \<Rightarrow> nat \<Rightarrow> platform_db \<Rightarrow> bill_entry \<times> platform_db" where
  "price_entry e db0 r w owner db =
    (let skipped = (\<lambda>why. (blank_entry r w)\<lparr>be_skipped := Some why\<rparr>);
         (cur, db) = currency_row db (bill_currency w) (\<not> rn_dry r) in
     if cur = None \<and> \<not> rn_dry r then (skipped (Not_A_Currency (bill_currency w)), db)
     else case bill_lines e db0 db r w (bill_places cur) of
         Inl why \<Rightarrow> (skipped why, db)
       | Inr (ls, credit, rate) \<Rightarrow> issue_entry e r w owner cur ls credit rate db)"

definition bill_workspace :: "env \<Rightarrow> platform_db \<Rightarrow> bill_run \<Rightarrow> workspace \<Rightarrow> platform_db \<Rightarrow> bill_entry \<times> platform_db" where
  "bill_workspace e db0 r w db =
    (let entry = blank_entry r w; skipped = (\<lambda>why. entry\<lparr>be_skipped := Some why\<rparr>) in
     if is_platform_workspace e w then (skipped Is_Platform, db)
     else if invoice_taken db0 (ws_id (rn_platform r)) (be_number entry) then (skipped Already_Billed, db)
     else case map_of (workspace_owners db0 (bill_candidates db0 (rn_start r, rn_next r)
             (renewal_period_bounds e (rn_start r)))) (ws_id w) of
         None \<Rightarrow> (skipped No_Owner_To_Bill, db)
       | Some owner \<Rightarrow> price_entry e db0 r w owner db)"

datatype bill_error = Platform_Workspace_Missing

definition bill_period_of :: "env \<Rightarrow> date option \<Rightarrow> date \<times> date" where
  "bill_period_of e month = month_bounds e (Some (case month of Some d \<Rightarrow> d | None \<Rightarrow> previous_month (today e)))"

definition run_of :: "env \<Rightarrow> workspace \<Rightarrow> date option \<Rightarrow> bool \<Rightarrow> bill_run" where
  "run_of e platform month dry = (let (start, next) = bill_period_of e month in
     \<lparr>rn_platform = platform, rn_start = start, rn_next = next,
      rn_due = today e + int (invoice_due_days e), rn_dry = dry\<rparr>)"

definition bill_targets :: "env \<Rightarrow> platform_db \<Rightarrow> bill_run \<Rightarrow> workspace list" where
  "bill_targets e db r = List.map_filter (workspace_by_id db)
     (bill_candidates db (rn_start r, rn_next r) (renewal_period_bounds e (rn_start r)))"

definition bill_turn :: "env \<Rightarrow> platform_db \<Rightarrow> bill_run \<Rightarrow> workspace \<Rightarrow> bill_entry list \<times> platform_db
    \<Rightarrow> bill_entry list \<times> platform_db" where
  "bill_turn e db0 r w s = (let (entry, db) = bill_workspace e db0 r w (snd s) in (fst s @ [entry], db))"

definition issue_monthly_bills :: "env \<Rightarrow> platform_db \<Rightarrow> date option \<Rightarrow> bool \<Rightarrow> bill_error + (bill_entry list \<times> platform_db)" where
  "issue_monthly_bills e db month dry_run = (case get_platform_workspace e db of
     None \<Rightarrow> Inl Platform_Workspace_Missing
   | Some platform \<Rightarrow> let r = run_of e platform month dry_run
       in Inr (fold (bill_turn e db r) (bill_targets e db r) ([], db)))"

subsection \<open>Being behind on a bill\<close>

definition overdue_cache_key :: "nat \<Rightarrow> string" where
  "overdue_cache_key w = ''platform:overdue:'' @ show_nat w"

definition forget_overdue :: "nat \<Rightarrow> platform_db \<Rightarrow> platform_db" where
  "forget_overdue w db = db\<lparr>cached := cache_delete (overdue_cache_key w) (cached db)\<rparr>"

text \<open>The query: a join on the slug of the invoice's workspace.\<close>

definition owes :: "env \<Rightarrow> platform_db \<Rightarrow> nat \<Rightarrow> bool" where
  "owes e db w = list_ex (\<lambda>i.
     (case workspace_by_id db (inv_workspace i) of Some v \<Rightarrow> ws_slug v = platform_slug e | None \<Rightarrow> False) \<and>
     startswith (invoice_number_prefix w) (inv_number i) \<and> unpaid (inv_status i) \<and>
     due_date i < today e \<and> 0 < inv_total i) (invoices db)"

definition ask_overdue :: "env \<Rightarrow> platform_db \<Rightarrow> nat \<Rightarrow> bool \<times> platform_db" where
  "ask_overdue e db w = (case cache_get (now e) (overdue_cache_key w) (cached db) of
     Some v \<Rightarrow> (truthy v, db)
   | None \<Rightarrow> let yes = owes e db w in
       (yes, db\<lparr>cached := cache_set (now e) (overdue_cache_key w) (Cache_Int (if yes then 1 else 0)) 60 (cached db)\<rparr>))"

definition has_overdue_invoice :: "env \<Rightarrow> platform_db \<Rightarrow> nat option \<Rightarrow> bool \<times> platform_db" where
  "has_overdue_invoice e db w = (case w of None \<Rightarrow> (False, db)
     | Some w \<Rightarrow> if platform_slug e = [] then (False, db) else ask_overdue e db w)"

definition may_meter :: "env \<Rightarrow> platform_db \<Rightarrow> nat \<Rightarrow> date option \<Rightarrow> bool \<times> platform_db" where
  "may_meter e db w month = (let (behind, db) = has_overdue_invoice e db (Some w) in
     if behind then (False, db) else (0 < al_remaining (allowance_of e db w month), db))"

interpretation overdue: cached_answer overdue_cache_key owes ask_overdue forget_overdue
  by unfold_locales (auto simp: ask_overdue_def forget_overdue_def owes_def workspace_by_id_def Let_def)

subsection \<open>Invoices and their items\<close>

definition invoices_ok :: "platform_db \<Rightarrow> bool" where
  "invoices_ok db \<longleftrightarrow> distinct (map inv_id (invoices db)) \<and>
     distinct (map (\<lambda>i. (inv_workspace i, inv_number i)) (invoices db)) \<and>
     (\<forall>t \<in> set (invoice_items db). it_invoice t \<in> inv_id ` set (invoices db))"

lemma create_invoice_Inr:
  assumes "create_invoice i db = Inr (j, db')" "invoices_ok db"
  shows "j = i\<lparr>inv_id := fresh_id inv_id (invoices db)\<rparr>" "db' = db\<lparr>invoices := invoices db @ [j]\<rparr>"
    "invoices_ok db'" "\<not> invoice_taken db (inv_workspace i) (inv_number i)"
    "\<forall>t \<in> set (invoice_items db). it_invoice t \<noteq> inv_id j"
proof -
  show j: "j = i\<lparr>inv_id := fresh_id inv_id (invoices db)\<rparr>" "db' = db\<lparr>invoices := invoices db @ [j]\<rparr>"
    and n: "\<not> invoice_taken db (inv_workspace i) (inv_number i)"
    using assms(1) by (auto simp: create_invoice_def Let_def split: if_splits)
  have "inv_id j = fresh_id inv_id (invoices db)" "inv_workspace j = inv_workspace i" "inv_number j = inv_number i"
    by (simp_all add: j)
  with assms(2) n show "invoices_ok db'" "\<forall>t \<in> set (invoice_items db). it_invoice t \<noteq> inv_id j"
    by (auto simp: invoices_ok_def j(2) invoice_taken_def list_ex_iff)
qed

lemma create_invoice_tables: "create_invoice i db = Inr (j, db') \<Longrightarrow> invoice_items db' = invoice_items db \<and>
    profiles db' = profiles db \<and> plans db' = plans db \<and> exchange_rates db' = exchange_rates db \<and>
    entitlements db' = entitlements db \<and> cached db' = cached db"
  by (auto simp: create_invoice_def Let_def split: if_splits)

text \<open>What is on file of one bill: its items, in their order.\<close>

definition items_of :: "platform_db \<Rightarrow> invoice \<Rightarrow> invoice_item list" where
  "items_of db i = filter (\<lambda>t. it_invoice t = inv_id i) (invoice_items db)"

definition adds_up :: "platform_db \<Rightarrow> invoice \<Rightarrow> bool" where
  "adds_up db i \<longleftrightarrow> (\<Sum>t\<leftarrow>items_of db i. it_subtotal t) = inv_subtotal i \<and>
     (\<Sum>t\<leftarrow>items_of db i. it_tax t) = inv_tax i \<and> inv_total i = inv_subtotal i + inv_tax i"

lemma new_items: "filter (\<lambda>t. it_invoice t = b) (map (\<lambda>(k, l). item_of (i + k) c l) kls)
    = (if b = c then map (\<lambda>(k, l). item_of (i + k) c l) kls else [])"
  by (induction kls) (auto simp: item_of_def)

lemma item_of_sums:
  "(\<Sum>t\<leftarrow>map (\<lambda>(k, l). item_of (i + k) c l) (enumerate n ls). it_subtotal t) = lines_subtotal ls"
  "(\<Sum>t\<leftarrow>map (\<lambda>(k, l). item_of (i + k) c l) (enumerate n ls). it_tax t) = lines_tax ls"
  by (induction ls arbitrary: n) (simp_all add: item_of_def lines_subtotal_def lines_tax_def comp_def case_prod_beta)

lemma items_after_create: "items_of (create_items b ls db) i =
    items_of db i @ (if inv_id i = b
      then map (\<lambda>(k, l). item_of (fresh_id it_id (invoice_items db) + k) b l) (enumerate 0 ls) else [])"
  by (simp add: items_of_def create_items_def Let_def new_items)

lemma create_items_tables: "invoices (create_items b ls db) = invoices db"
  "profiles (create_items b ls db) = profiles db"
  by (simp_all add: create_items_def Let_def)

lemma spend_trial_tables: "invoices (spend_trial e w db) = invoices db"
  "invoice_items (spend_trial e w db) = invoice_items db"
  by (simp_all add: spend_trial_def get_or_create_profile_def save_profile_def Let_def split: option.split prod.split)

lemma customer_tables: "get_or_create_customer db w u = (c, db') \<Longrightarrow>
    invoices db' = invoices db \<and> invoice_items db' = invoice_items db \<and> profiles db' = profiles db \<and>
    plans db' = plans db \<and> exchange_rates db' = exchange_rates db"
  by (auto simp: get_or_create_customer_def Let_def split: option.splits)

text \<open>The effect of writing one bill.\<close>

lemma write_bill_Inr:
  assumes "write_bill e r w owner cur ls credit rate db = Inr db'" "invoices_ok db"
  obtains i where "invoices db' = invoices db @ [i]" "invoices_ok db'" "adds_up db' i"
    "\<not> invoice_taken db (ws_id (rn_platform r)) (invoice_number_for (ws_id w) (rn_start r))"
    "inv_workspace i = ws_id (rn_platform r)" "inv_number i = invoice_number_for (ws_id w) (rn_start r)"
    "inv_subtotal i = lines_subtotal ls" "inv_tax i = lines_tax ls" "inv_status i = Inv_Sent"
    "issue_date i = today e" "due_date i = rn_due r" "inv_id i = fresh_id inv_id (invoices db)"
    "\<And>j. j \<in> set (invoices db) \<Longrightarrow> items_of db' j = items_of db j"
proof -
  obtain c db1 where c: "get_or_create_customer db (ws_id (rn_platform r)) owner = (c, db1)" by fastforce
  note ct = customer_tables [OF c]
  let ?i = "\<lparr>inv_id = 0, inv_workspace = ws_id (rn_platform r), inv_customer = cu_id c,
         inv_number = invoice_number_for (ws_id w) (rn_start r), inv_status = Inv_Sent,
         inv_subtotal = lines_subtotal ls, inv_tax = lines_tax ls, inv_total = lines_subtotal ls + lines_tax ls,
         inv_currency = cur_id cur, issue_date = today e, due_date = rn_due r, paid_date = None,
         inv_notes = monthly_notes r w rate (today e)\<rparr>"
  from assms(1) c obtain i db2 where i: "create_invoice ?i db1 = Inr (i, db2)"
    and db': "db' = (if credit then spend_trial e (ws_id w) (create_items (inv_id i) ls db2)
        else create_items (inv_id i) ls db2)"
    by (auto simp: write_bill_def Let_def bind_r_Inr)
  have ok1: "invoices_ok db1" using assms(2) ct by (simp add: invoices_ok_def)
  note ci = create_invoice_Inr [OF i ok1]
  have inv: "invoices db' = invoices db @ [i]"
    using ct by (simp add: db' create_items_tables spend_trial_tables ci(2))
  have its: "items_of db' j = items_of (create_items (inv_id i) ls db2) j" for j
    by (simp add: db' items_of_def spend_trial_tables)
  have none: "items_of db2 i = []" using ci(5) by (simp add: items_of_def ci(2) filter_empty_conv)
  have "adds_up db' i"
    unfolding adds_up_def its items_after_create none using item_of_sums by (simp add: ci(1))
  moreover have "invoices_ok db'"
  proof -
    have "set (invoice_items db') = set (invoice_items db2) \<union>
        set (map (\<lambda>(k, l). item_of (fresh_id it_id (invoice_items db2) + k) (inv_id i) l) (enumerate 0 ls))"
      by (simp add: db' spend_trial_tables create_items_def Let_def)
    moreover have "it_invoice t = inv_id i"
      if "t \<in> set (map (\<lambda>(k, l). item_of (fresh_id it_id (invoice_items db2) + k) (inv_id i) l) (enumerate 0 ls))" for t
      using that by (auto simp: item_of_def)
    moreover have "invoices db' = invoices db2" using inv ct by (simp add: ci(2))
    ultimately show ?thesis using ci(3) inv ct by (auto simp: invoices_ok_def ci(2))
  qed
  moreover have "items_of db' j = items_of db j" if "j \<in> set (invoices db)" for j
  proof -
    have "inv_id j \<noteq> inv_id i" using that ct by (simp add: ci(1))
    with ct show ?thesis unfolding its items_after_create by (simp add: items_of_def ci(2))
  qed
  ultimately show ?thesis
    using that [OF inv] ci(1,4) ct by (simp add: invoice_taken_def)
qed

end
