(* ===== verification/Billing_Run.thy ===== *)
theory Billing_Run
  imports Billing "HOL-Library.Multiset"
begin

text \<open>
  What a monthly run promises (\<open>issue_monthly_bills\<close>): every invoice it issues is the sum of its
  items, no month is billed twice, the trial credit is given once in a workspace's life and never
  turns a bill negative, and a dry run writes nothing.
\<close>

subsection \<open>One turn of the loop\<close>

text \<open>\<open>db'\<close> differs from \<open>db\<close> in its currencies at most.\<close>

definition same_but_currencies :: "platform_db \<Rightarrow> platform_db \<Rightarrow> bool" where
  "same_but_currencies db db' \<longleftrightarrow> db' = db\<lparr>currencies := currencies db'\<rparr>"

lemma same_but_currencies_tables:
  assumes "same_but_currencies db db'"
  shows "invoices db' = invoices db" "invoice_items db' = invoice_items db" "profiles db' = profiles db"
    "exchange_rates db' = exchange_rates db" "plans db' = plans db" "workspaces db' = workspaces db"
  using assms unfolding same_but_currencies_def by (metis platform_db.simps platform_db.select_convs platform_db.surjective)+

lemma currency_row_same: "currency_row db code create = (c, db') \<Longrightarrow> same_but_currencies db db'"
  by (auto simp: currency_row_def ensure_currency_def same_but_currencies_def Let_def split: option.splits if_splits)

lemma currency_row_read: "currency_row db code False = (c, db') \<Longrightarrow> db' = db"
  by (auto simp: currency_row_def split: option.splits)

text \<open>An entry names its workspace and its number, and its total is its subtotal and its tax.\<close>

definition entry_ok :: "bill_run \<Rightarrow> workspace \<Rightarrow> bill_entry \<Rightarrow> bool" where
  "entry_ok r w x \<longleftrightarrow> be_workspace x = ws_id w \<and> be_number x = invoice_number_for (ws_id w) (rn_start r) \<and>
     be_subtotal x = lines_subtotal (be_lines x) \<and> be_tax x = lines_tax (be_lines x) \<and>
     be_total x = be_subtotal x + be_tax x"

lemma entry_ok_blank: "entry_ok r w (blank_entry r w)" "entry_ok r w ((blank_entry r w)\<lparr>be_skipped := s\<rparr>)"
  by (simp_all add: entry_ok_def blank_entry_def lines_subtotal_def lines_tax_def)

text \<open>Either nothing is issued and only a currency may be new, or one bill is written.\<close>

definition left_alone :: "bill_run \<Rightarrow> workspace \<Rightarrow> platform_db \<Rightarrow> bill_entry \<Rightarrow> platform_db \<Rightarrow> bool" where
  "left_alone r w db x db' \<longleftrightarrow> entry_ok r w x \<and> \<not> be_issued x \<and> same_but_currencies db db' \<and> (rn_dry r \<longrightarrow> db' = db)"

definition one_issued :: "env \<Rightarrow> platform_db \<Rightarrow> bill_run \<Rightarrow> workspace \<Rightarrow> platform_db \<Rightarrow> bill_entry \<Rightarrow> platform_db \<Rightarrow> bool" where
  "one_issued e db0 r w db x db' \<longleftrightarrow> entry_ok r w x \<and> be_issued x \<and> \<not> rn_dry r \<and>
     (\<exists>db1 owner c places ls credit rate. be_lines x = ls \<and> same_but_currencies db db1 \<and>
        bill_lines e db0 db1 r w places = Inr (ls, credit, rate) \<and>
        write_bill e r w owner c ls credit rate db1 = Inr db')"

lemma left_alone_skipped: "same_but_currencies db db' \<Longrightarrow> (rn_dry r \<Longrightarrow> db' = db) \<Longrightarrow>
    left_alone r w db ((blank_entry r w)\<lparr>be_skipped := s\<rparr>) db'"
  by (simp add: left_alone_def entry_ok_blank) (simp add: blank_entry_def)

lemma issue_entry_split:
  assumes "(x, db') = (if dry then (y, db1) else case cur of None \<Rightarrow> (y, db1)
      | Some c \<Rightarrow> (case f c of Inl (_::integrity_error) \<Rightarrow> (y1, db1) | Inr db \<Rightarrow> (y2, db)))"
  obtains "x = y" "db' = db1" | "x = y1" "db' = db1" | c where "\<not> dry" "f c = Inr db'" "x = y2"
  using assms by (auto split: if_splits option.splits sum.splits)

lemma issue_entry_cases:
  assumes "issue_entry e r w owner cur ls credit rate db1 = (x, db')"
    "bill_lines e db0 db1 r w places = Inr (ls, credit, rate)" "same_but_currencies db db1" "rn_dry r \<Longrightarrow> db1 = db"
  shows "left_alone r w db x db' \<or> one_issued e db0 r w db x db'"
proof -
  let ?x = "(blank_entry r w)\<lparr>be_lines := ls, be_subtotal := lines_subtotal ls, be_tax := lines_tax ls,
      be_total := lines_subtotal ls + lines_tax ls\<rparr>"
  have ok: "entry_ok r w ?x" "\<not> be_issued ?x" by (simp_all add: entry_ok_def blank_entry_def)
  then have oks: "entry_ok r w (?x\<lparr>be_skipped := s\<rparr>)" "entry_ok r w (?x\<lparr>be_issued := b\<rparr>)" for s b
    by (simp_all add: entry_ok_def)
  have alone: "left_alone r w db ?x db1" "left_alone r w db (?x\<lparr>be_skipped := s\<rparr>) db1" for s
    using assms(3,4) ok(2) by (simp_all add: left_alone_def ok(1) oks(1))
  have res: "(x, db') = (if rn_dry r then (?x, db1) else case cur of None \<Rightarrow> (?x, db1)
      | Some c \<Rightarrow> (case write_bill e r w owner c ls credit rate db1 of
          Inl _ \<Rightarrow> (?x\<lparr>be_skipped := Some Already_Billed\<rparr>, db1) | Inr db \<Rightarrow> (?x\<lparr>be_issued := True\<rparr>, db)))"
    unfolding assms(1) [symmetric] issue_entry_def Let_def ..
  consider "x = ?x" "db' = db1" | "x = ?x\<lparr>be_skipped := Some Already_Billed\<rparr>" "db' = db1"
    | (w) c where "\<not> rn_dry r" "write_bill e r w owner c ls credit rate db1 = Inr db'" "x = ?x\<lparr>be_issued := True\<rparr>"
    by (rule issue_entry_split [OF res])
  then show ?thesis
  proof cases
    case w
    have "be_lines x = ls" "be_issued x" by (simp_all add: w(3))
    with w assms(2,3) oks show ?thesis unfolding one_issued_def by blast
  qed (use alone in simp_all)
qed

lemma price_entry_cases:
  assumes "price_entry e db0 r w owner db = (x, db')"
  shows "left_alone r w db x db' \<or> one_issued e db0 r w db x db'"
proof -
  obtain cur db1 where cr: "currency_row db (bill_currency w) (\<not> rn_dry r) = (cur, db1)" by fastforce
  have same: "same_but_currencies db db1" by (rule currency_row_same [OF cr])
  have dry: "rn_dry r \<Longrightarrow> db1 = db" using cr currency_row_read by auto
  consider why where "x = (blank_entry r w)\<lparr>be_skipped := Some why\<rparr>" "db' = db1"
    | (i) ls credit rate where "bill_lines e db0 db1 r w (bill_places cur) = Inr (ls, credit, rate)"
      "issue_entry e r w owner cur ls credit rate db1 = (x, db')"
    using assms cr by (auto simp: price_entry_def Let_def split: if_splits sum.splits)
  then show ?thesis
  proof cases
    case i
    from issue_entry_cases [OF i(2,1) same dry] show ?thesis .
  qed (use left_alone_skipped [OF same dry] in simp)
qed

lemma bill_workspace_cases:
  assumes "bill_workspace e db0 r w db = (x, db')"
  shows "left_alone r w db x db' \<or> one_issued e db0 r w db x db' \<and> \<not> is_platform_workspace e w \<and>
    \<not> invoice_taken db0 (ws_id (rn_platform r)) (be_number x)"
proof -
  have self: "left_alone r w db ((blank_entry r w)\<lparr>be_skipped := s\<rparr>) db" for s
    by (rule left_alone_skipped) (simp_all add: same_but_currencies_def)
  have num: "be_number (blank_entry r w) = invoice_number_for (ws_id w) (rn_start r)"
    by (simp add: blank_entry_def)
  consider why where "x = (blank_entry r w)\<lparr>be_skipped := Some why\<rparr>" "db' = db"
    | (p) owner where "price_entry e db0 r w owner db = (x, db')" "\<not> is_platform_workspace e w"
      "\<not> invoice_taken db0 (ws_id (rn_platform r)) (invoice_number_for (ws_id w) (rn_start r))"
    using assms num by (auto simp: bill_workspace_def Let_def split: if_splits option.splits)
  then show ?thesis
  proof cases
    case p
    have "one_issued e db0 r w db x db' \<Longrightarrow> be_number x = invoice_number_for (ws_id w) (rn_start r)"
      by (simp add: one_issued_def entry_ok_def)
    with price_entry_cases [OF p(1)] p(2,3) show ?thesis by auto
  qed (use self in simp)
qed

subsection \<open>The whole run\<close>

text \<open>The invoice an issued entry stands for, on file in \<open>db\<close>.\<close>

definition bill_for :: "env \<Rightarrow> nat \<Rightarrow> platform_db \<Rightarrow> bill_entry \<Rightarrow> invoice \<Rightarrow> bool" where
  "bill_for e platform db x i \<longleftrightarrow> inv_workspace i = platform \<and> inv_number i = be_number x \<and>
     inv_subtotal i = be_subtotal x \<and> inv_tax i = be_tax x \<and> inv_total i = be_total x \<and>
     inv_status i = Inv_Sent \<and> issue_date i = today e \<and> due_date i = today e + int (invoice_due_days e) \<and> adds_up db i"

definition files_kept :: "platform_db \<Rightarrow> platform_db \<Rightarrow> bool" where
  "files_kept db db' \<longleftrightarrow> invoices_ok db' \<and> (\<exists>news. invoices db' = invoices db @ news) \<and>
     (\<forall>j \<in> set (invoices db). items_of db' j = items_of db j)"

lemma adds_up_kept: "(\<And>j. j \<in> set (invoices db) \<Longrightarrow> items_of db' j = items_of db j) \<Longrightarrow> i \<in> set (invoices db) \<Longrightarrow>
    adds_up db' i = adds_up db i"
  by (simp add: adds_up_def)

lemma left_alone_files: "left_alone r w db x db' \<Longrightarrow> invoices db' = invoices db \<and> items_of db' j = items_of db j \<and>
    invoices_ok db' = invoices_ok db \<and> profiles db' = profiles db \<and> adds_up db' i = adds_up db i"
  using same_but_currencies_tables [of db db']
  by (simp add: left_alone_def items_of_def invoices_ok_def adds_up_def)

definition run_ok :: "env \<Rightarrow> platform_db \<Rightarrow> bill_run \<Rightarrow> bill_entry list \<times> platform_db \<Rightarrow> bool" where
  "run_ok e db0 r s \<longleftrightarrow> (case s of (es, db) \<Rightarrow> invoices_ok db \<and>
     (\<exists>news. invoices db = invoices db0 @ news \<and>
        list_all2 (bill_for e (ws_id (rn_platform r)) db) (filter be_issued es) news) \<and>
     (\<forall>j \<in> set (invoices db0). items_of db j = items_of db0 j))"

lemma one_issued_files:
  assumes "one_issued e db0 r w db x db'" "invoices_ok db"
    "rn_due r = today e + int (invoice_due_days e)"
  obtains i where "invoices db' = invoices db @ [i]" "invoices_ok db'" "bill_for e (ws_id (rn_platform r)) db' x i"
    "\<And>j. j \<in> set (invoices db) \<Longrightarrow> items_of db' j = items_of db j"
proof -
  from assms(1) obtain db1 owner c ls credit rate where o: "entry_ok r w x" "be_lines x = ls"
    "same_but_currencies db db1" and w: "write_bill e r w owner c ls credit rate db1 = Inr db'"
    unfolding one_issued_def by blast
  note t = same_but_currencies_tables [OF o(3)]
  have ok: "invoices_ok db1" using assms(2) by (simp add: invoices_ok_def t)
  from w ok show ?thesis
  proof (rule write_bill_Inr, goal_cases)
    case (1 i)
    have "bill_for e (ws_id (rn_platform r)) db' x i"
      using 1 o(1,2) assms(3) by (simp add: bill_for_def entry_ok_def adds_up_def)
    moreover have "items_of db' j = items_of db j" if "j \<in> set (invoices db)" for j
      using 1(13) [of j] that by (simp add: t items_of_def)
    ultimately show ?thesis using that [of i] 1(1,2) by (simp add: t)
  qed
qed

lemma run_ok_step:
  assumes "run_ok e db0 r (es, db)" "bill_workspace e db0 r w db = (x, db')"
    "rn_due r = today e + int (invoice_due_days e)"
  shows "run_ok e db0 r (es @ [x], db')"
proof -
  from assms(1) obtain news where n: "invoices_ok db" "invoices db = invoices db0 @ news"
    "list_all2 (bill_for e (ws_id (rn_platform r)) db) (filter be_issued es) news"
    "\<forall>j \<in> set (invoices db0). items_of db j = items_of db0 j"
    by (auto simp: run_ok_def)
  from bill_workspace_cases [OF assms(2)] show ?thesis
  proof
    assume l: "left_alone r w db x db'"
    then have "\<not> be_issued x" by (simp add: left_alone_def)
    moreover have "bill_for e p db' = bill_for e p db" for p
      using left_alone_files [OF l] by (intro ext) (simp add: bill_for_def)
    ultimately show ?thesis using n left_alone_files [OF l] by (simp add: run_ok_def)
  next
    assume o: "one_issued e db0 r w db x db' \<and> \<not> is_platform_workspace e w \<and>
      \<not> invoice_taken db0 (ws_id (rn_platform r)) (be_number x)"
    then have o1: "one_issued e db0 r w db x db'" "be_issued x" by (simp_all add: one_issued_def)
    from o1(1) n(1) assms(3) obtain i where i: "invoices db' = invoices db @ [i]" "invoices_ok db'"
      "bill_for e (ws_id (rn_platform r)) db' x i" "\<And>j. j \<in> set (invoices db) \<Longrightarrow> items_of db' j = items_of db j"
      by (rule one_issued_files) blast
    have "bill_for e (ws_id (rn_platform r)) db' y j"
      if "j \<in> set news" "bill_for e (ws_id (rn_platform r)) db y j" for y j
      using that adds_up_kept [OF i(4)] n(2) by (simp add: bill_for_def)
    then have "list_all2 (bill_for e (ws_id (rn_platform r)) db') (filter be_issued es) news"
      using n(3) by (auto simp: list_all2_conv_all_nth)
    then have "list_all2 (bill_for e (ws_id (rn_platform r)) db') (filter be_issued (es @ [x])) (news @ [i])"
      using i(3) o1(2) by (simp add: list_all2_appendI)
    with i n show ?thesis by (auto simp: run_ok_def)
  qed
qed

text \<open>An invariant of the turns is one of the run.\<close>

lemma bill_turn_invariant:
  assumes "issue_monthly_bills e db0 month dry = Inr (es, db')" "get_platform_workspace e db0 = Some p"
    "P ([], db0)" "\<And>es db w x db'. P (es, db) \<Longrightarrow> bill_workspace e db0 (run_of e p month dry) w db = (x, db') \<Longrightarrow>
      P (es @ [x], db')"
  shows "P (es, db')"
proof -
  let ?r = "run_of e p month dry"
  have step: "P (bill_turn e db0 ?r w s)" if "P s" for w s
    using that assms(4) [of "fst s" "snd s" w] by (simp add: bill_turn_def case_prod_beta)
  have "P (fold (bill_turn e db0 ?r) ws s)" if "P s" for ws s
    using that step by (induction ws arbitrary: s) simp_all
  then show ?thesis using assms(1-3) by (simp add: issue_monthly_bills_def Let_def) (metis)
qed

lemma run_of_simps [simp]: "rn_platform (run_of e p month dry) = p" "rn_dry (run_of e p month dry) = dry"
  "rn_due (run_of e p month dry) = today e + int (invoice_due_days e)"
  "rn_start (run_of e p month dry) = fst (bill_period_of e month)"
  "rn_next (run_of e p month dry) = snd (bill_period_of e month)"
  by (simp_all add: run_of_def case_prod_beta)

lemma run_files:
  assumes "issue_monthly_bills e db month dry = Inr (es, db')" "invoices_ok db"
    "get_platform_workspace e db = Some p"
  shows "invoices_ok db' \<and> (\<forall>j \<in> set (invoices db). items_of db' j = items_of db j) \<and>
    (\<exists>news. invoices db' = invoices db @ news \<and> list_all2 (bill_for e (ws_id p) db') (filter be_issued es) news)"
proof -
  have "run_ok e db (run_of e p month dry) (es, db')"
    by (rule bill_turn_invariant [OF assms(1,3)], simp add: run_ok_def assms(2), erule run_ok_step) simp_all
  then show ?thesis by (auto simp: run_ok_def)
qed

text \<open>
  C1: A run files one invoice for each entry it reports as issued, in order, after the invoices
  there were, whose own items it leaves alone: issued by the platform under the entry's number, with
  the entry's subtotal, tax and total, dated today and due the deployment's days later; its items
  add up to its subtotal and its tax, and these to its total.
\<close>

theorem bills_add_up:
  assumes "issue_monthly_bills e db month dry = Inr (es, db')" "invoices_ok db"
    "get_platform_workspace e db = Some p"
  shows "invoices_ok db' \<and> (\<forall>j \<in> set (invoices db). items_of db' j = items_of db j) \<and>
    (\<exists>news. invoices db' = invoices db @ news \<and> list_all2 (bill_for e (ws_id p) db') (filter be_issued es) news)"
  using assms by (rule run_files)

subsection \<open>No month is billed twice\<close>

lemma taken_append: "invoices db' = invoices db @ news \<Longrightarrow> invoice_taken db w n \<Longrightarrow> invoice_taken db' w n"
  by (simp add: invoice_taken_def)

definition issued_new :: "platform_db \<Rightarrow> bill_run \<Rightarrow> bill_entry list \<times> platform_db \<Rightarrow> bool" where
  "issued_new db0 r s \<longleftrightarrow> (\<forall>x \<in> set (fst s). be_number x = invoice_number_for (be_workspace x) (rn_start r) \<and>
     (be_issued x \<longrightarrow> \<not> invoice_taken db0 (ws_id (rn_platform r)) (be_number x)))"

lemma issued_new_step:
  assumes "issued_new db0 r (es, db)" "bill_workspace e db0 r w db = (x, db')"
  shows "issued_new db0 r (es @ [x], db')"
  using assms(1) bill_workspace_cases [OF assms(2)]
  by (auto simp: issued_new_def left_alone_def one_issued_def entry_ok_def)

lemma issued_numbers:
  assumes "issue_monthly_bills e db month dry = Inr (es, db')" "get_platform_workspace e db = Some p"
    "x \<in> set es"
  shows "be_number x = invoice_number_for (be_workspace x) (fst (bill_period_of e month))"
    "be_issued x \<Longrightarrow> \<not> invoice_taken db (ws_id p) (be_number x)"
proof -
  have "issued_new db (run_of e p month dry) (es, db')"
    by (rule bill_turn_invariant [OF assms(1,2)], simp add: issued_new_def, erule issued_new_step)
  then show "be_number x = invoice_number_for (be_workspace x) (fst (bill_period_of e month))"
    "be_issued x \<Longrightarrow> \<not> invoice_taken db (ws_id p) (be_number x)"
    using assms(3) by (auto simp: issued_new_def)
qed

lemma issued_taken:
  assumes "issue_monthly_bills e db month dry = Inr (es, db')" "invoices_ok db"
    "get_platform_workspace e db = Some p" "x \<in> set es" "be_issued x"
  shows "invoice_taken db' (ws_id p) (be_number x)"
proof -
  from run_files [OF assms(1-3)] obtain news where n: "invoices db' = invoices db @ news"
    "list_all2 (bill_for e (ws_id p) db') (filter be_issued es) news" by blast
  have "x \<in> set (filter be_issued es)" using assms(4,5) by simp
  with n(2) obtain i where "i \<in> set news" "bill_for e (ws_id p) db' x i"
    by (metis (no_types, lifting) in_set_conv_nth list_all2_conv_all_nth)
  with n(1) show ?thesis by (auto simp: invoice_taken_def bill_for_def list_ex_iff)
qed

text \<open>
  C2: A workspace is billed for a month once, however often the month is run and whatever is done
  to the invoices in between, short of taking one away: an entry issued by a run is issued by no
  later run of the same month for the same workspace.
\<close>

theorem never_billed_twice:
  assumes "issue_monthly_bills e db month dry = Inr (es, db1)" "invoices_ok db"
    "issue_monthly_bills e' db2 month' dry' = Inr (es', db3)"
    "get_platform_workspace e db = Some p" "get_platform_workspace e' db2 = Some p'" "ws_id p' = ws_id p"
    "fst (bill_period_of e month) = fst (bill_period_of e' month')"
    "\<And>n. invoice_taken db1 (ws_id p) n \<Longrightarrow> invoice_taken db2 (ws_id p) n"
    "x \<in> set es" "be_issued x" "y \<in> set es'" "be_workspace y = be_workspace x"
  shows "\<not> be_issued y"
  using issued_taken [OF assms(1,2,4,9,10)] issued_numbers [OF assms(1,4,9)] issued_numbers [OF assms(3,5,11)]
    assms(6-8,12) by metis

text \<open>A dry run answers what a run would consider and writes nothing, and issues nothing.\<close>

theorem dry_run_writes_nothing:
  assumes "issue_monthly_bills e db month True = Inr (es, db')" "get_platform_workspace e db = Some p"
  shows "db' = db \<and> (\<forall>x \<in> set es. \<not> be_issued x)"
proof -
  have "(\<lambda>(es :: bill_entry list, d). d = db \<and> (\<forall>x \<in> set es. \<not> be_issued x)) (es, db')"
  proof (rule bill_turn_invariant [OF assms])
    fix es :: "bill_entry list" and d w x d'
    assume "case (es, d) of (es, d) \<Rightarrow> d = db \<and> (\<forall>x \<in> set es. \<not> be_issued x)"
      "bill_workspace e db (run_of e p month True) w d = (x, d')"
    with bill_workspace_cases [OF this(2)]
    show "case (es @ [x], d') of (es, d) \<Rightarrow> d = db \<and> (\<forall>x \<in> set es. \<not> be_issued x)"
      by (auto simp: left_alone_def one_issued_def)
  qed simp
  then show ?thesis by simp
qed

subsection \<open>The trial credit\<close>

definition has_used_trial :: "platform_db \<Rightarrow> nat \<Rightarrow> bool" where
  "has_used_trial db w \<longleftrightarrow> (case profile_of db w of Some p \<Rightarrow> trial_points_used_at p \<noteq> None | None \<Rightarrow> False)"

definition credited :: "bill_entry \<Rightarrow> bool" where
  "credited x \<longleftrightarrow> (\<exists>l \<in> set (be_lines x). bl_subtotal l < 0)"

text \<open>Prices and rates are not negative (\<open>PositiveDecimal\<close> validators and \<open>set_rate\<close>'s check).\<close>

definition prices_ok :: "platform_db \<Rightarrow> bool" where
  "prices_ok db \<longleftrightarrow> (\<forall>p \<in> set (plans db). 0 \<le> pl_price p) \<and> (\<forall>r \<in> set (exchange_rates db). 0 \<le> er_rate r)"

lemma convert_nonneg: "prices_ok db \<Longrightarrow> 0 \<le> a \<Longrightarrow> convert e db a f t d = Inr x \<Longrightarrow> 0 \<le> x"
  by (auto simp: convert_def prices_ok_def Let_def split: if_splits option.splits dest!: latest_by_in)

lemma round_to_nonneg: "0 \<le> x \<Longrightarrow> 0 \<le> round_to x p"
  unfolding round_to_def by (rule half_up.q_nonneg)

lemma plan_by_id_Some: "plan_by_id db i = Some p \<Longrightarrow> p \<in> set (plans db) \<and> i = Some (pl_id p)"
  by (auto simp: plan_by_id_def split: option.splits dest: first_filter_SomeD)

lemma renewal_lines_of_nonneg:
  assumes "prices_ok db" "\<And>f t x. rate_for f t = Inr x \<Longrightarrow> 0 \<le> x"
    "renewal_lines_of db rate_for code places rs = Inr ls" "l \<in> set ls"
  shows "0 \<le> bl_subtotal l"
  using assms(3,4)
proof (induction rs arbitrary: ls)
  case (Cons r rs)
  show ?case
  proof (cases "en_source r = Granted \<or> plan_by_id db (en_plan r) = None")
    case True
    with Cons show ?thesis by (auto split: if_splits)
  next
    case False
    then obtain p where p: "en_source r \<noteq> Granted" "plan_by_id db (en_plan r) = Some p" by auto
    with Cons.prems(1) obtain rate ls1 where c: "rate_for (get_default_currency_for_workspace
        (workspace_by_id db (pl_workspace p))) code = Inr rate" "renewal_lines_of db rate_for code places rs = Inr ls1"
        "ls = renewal_line p (en_key r) rate places # ls1" by (auto simp: bind_r_Inr)
    have "0 \<le> pl_price p * rate" using plan_by_id_Some [OF p(2)] assms(1) assms(2) [OF c(1)] by (simp add: prices_ok_def)
    then have "0 \<le> bl_subtotal (renewal_line p (en_key r) rate places)"
      by (simp add: renewal_line_def bill_line_of_def Let_def round_to_nonneg)
    with Cons c show ?thesis by auto
  qed
qed simp

lemma usage_lines_nonneg: "0 \<le> rate \<Longrightarrow> l \<in> set (usage_lines ms rate places) \<Longrightarrow> 0 \<le> bl_subtotal l"
  by (auto simp: usage_lines_def bill_line_of_def Let_def round_to_nonneg split: if_splits)

lemma trial_line_bounds: "trial_line points rate charge places = Some l \<Longrightarrow>
    bl_subtotal l < 0 \<and> 0 \<le> charge + bl_subtotal l"
  by (auto simp: trial_line_def bill_line_of_def Let_def min_def split: if_splits)

lemma taxed_subtotal [simp]: "bl_subtotal (taxed p n l) = bl_subtotal l"
  by (simp add: taxed_def)

lemma taxed_lines [simp]: "lines_subtotal (map (taxed p n) ls) = lines_subtotal ls"
  "(\<exists>l \<in> set (map (taxed p n) ls). bl_subtotal l < 0) = (\<exists>l \<in> set ls. bl_subtotal l < 0)"
  by (simp_all add: lines_subtotal_def comp_def)

text \<open>The charges of a bill, and what a credit does to them.\<close>

lemma charge_lines_nonneg:
  assumes "charge_lines e db0 db r w places = Inr (ls, rate)" "prices_ok db" "l \<in> set ls"
  shows "0 \<le> bl_subtotal l"
proof -
  from assms(1) obtain renewals where rate: "convert e db 1 POINT_CURRENCY (bill_currency w) (Some (today e)) = Inr rate"
    and rl: "renewal_lines db (rate_or_refuse e db) (bill_currency w) places
      (renewals_for db0 (renewal_period_bounds e (rn_start r)) (ws_id w)) = Inr renewals"
    and ls: "ls = renewals @ usage_lines (metered_for db0 (rn_start r, rn_next r) (ws_id w)) rate places"
    by (auto simp: charge_lines_def Let_def split: sum.splits rate_error.splits if_splits)
  have rate0: "0 \<le> rate" by (rule convert_nonneg [OF assms(2) _ rate]) simp
  have pos: "rate_or_refuse e db f t = Inr x \<Longrightarrow> 0 \<le> x" for f t x
    using convert_nonneg [OF assms(2), of 1 e f t "Some (today e)"] by (auto simp: rate_or_refuse_def split: sum.splits)
  show ?thesis
    using renewal_lines_of_nonneg [OF assms(2) pos rl [unfolded renewal_lines_def]] usage_lines_nonneg [OF rate0]
      assms(3) by (auto simp: ls)
qed

lemma trial_credit_Some:
  assumes "trial_credit e db0 w rate ls places = Some l"
  shows "\<not> has_used_trial db0 w" "bl_subtotal l < 0" "0 \<le> lines_subtotal ls + bl_subtotal l"
  using assms trial_line_bounds
  by (auto simp: trial_credit_def has_used_trial_def lines_subtotal_def split: if_splits option.splits)

lemma bill_lines_credit:
  assumes "bill_lines e db0 db r w places = Inr (ls, credit, rate)" "prices_ok db"
  shows "0 \<le> lines_subtotal ls" "credit \<longleftrightarrow> (\<exists>l \<in> set ls. bl_subtotal l < 0)"
    "credit \<Longrightarrow> \<not> has_used_trial db0 (ws_id w)"
proof -
  from assms(1) obtain cs where cs: "charge_lines e db0 db r w places = Inr (cs, rate)"
    by (auto simp: bill_lines_def bind_r_Inr Let_def)
  let ?credit = "trial_credit e db0 (ws_id w) rate cs places"
  let ?pc = "tax_percent db (upper (get_default_country_for_workspace (Some w))) (ws_id (rn_platform r))"
  from assms(1) cs have ls: "ls = map (taxed ?pc places) (cs @ (case ?credit of None \<Rightarrow> [] | Some l \<Rightarrow> [l]))"
    and cr: "credit \<longleftrightarrow> ?credit \<noteq> None"
    by (auto simp: bill_lines_def Let_def)
  have nn: "\<And>l. l \<in> set cs \<Longrightarrow> 0 \<le> bl_subtotal l" by (rule charge_lines_nonneg [OF cs assms(2)])
  have sum0: "0 \<le> lines_subtotal cs" unfolding lines_subtotal_def by (rule sum_list_nonneg) (use nn in auto)
  show "0 \<le> lines_subtotal ls"
    unfolding ls taxed_lines using sum0 trial_credit_Some(3) [of e db0 "ws_id w" rate cs places]
    by (cases ?credit) (simp_all add: lines_subtotal_def)
  show "credit \<longleftrightarrow> (\<exists>l \<in> set ls. bl_subtotal l < 0)"
    unfolding ls taxed_lines cr using nn trial_credit_Some(2) [of e db0 "ws_id w" rate cs places]
    by (cases ?credit) (auto simp: not_less)
  show "credit \<Longrightarrow> \<not> has_used_trial db0 (ws_id w)" using cr trial_credit_Some(1) by blast
qed

lemma spend_trial_profiles:
  assumes "profiles_ok db"
  shows "profiles_ok (spend_trial e w db)" "has_used_trial (spend_trial e w db) v \<longleftrightarrow> has_used_trial db v \<or> v = w"
proof -
  obtain p db1 where g: "get_or_create_profile db w = (p, db1)" by fastforce
  note sp = get_or_create_profile_spec [OF g assms]
  let ?p = "p\<lparr>trial_points_used_at := Some (now e)\<rparr>"
  have db: "spend_trial e w db = save_profile ?p db1" using g by (simp add: spend_trial_def)
  have po: "profile_of (save_profile ?p db1) v = (if v = w then Some ?p else profile_of db1 v)" for v
    by (rule profile_of_save) (use sp in simp_all)
  show "profiles_ok (spend_trial e w db)"
    unfolding db by (rule profiles_ok_save) (use sp in auto)
  show "has_used_trial (spend_trial e w db) v \<longleftrightarrow> has_used_trial db v \<or> v = w"
    unfolding db has_used_trial_def po using sp by (auto split: option.splits)
qed

lemma write_bill_trial:
  assumes "write_bill e r w owner c ls credit rate db = Inr db'" "profiles_ok db"
  shows "profiles_ok db'" "has_used_trial db' v \<longleftrightarrow> has_used_trial db v \<or> credit \<and> v = ws_id w"
    "prices_ok db' = prices_ok db"
proof -
  obtain c1 db0 where c: "get_or_create_customer db (ws_id (rn_platform r)) owner = (c1, db0)" by fastforce
  from assms(1) c obtain bill i db1 where i: "create_invoice bill db0 = Inr (i, db1)"
    and db': "db' = (if credit then spend_trial e (ws_id w) (create_items (inv_id i) ls db1) else create_items (inv_id i) ls db1)"
    by (auto simp: write_bill_def bind_r_Inr Let_def)
  have d: "profiles db1 = profiles db" "plans db1 = plans db" "exchange_rates db1 = exchange_rates db"
    using create_invoice_tables [OF i] customer_tables [OF c] by simp_all
  let ?db2 = "create_items (inv_id i) ls db1"
  have t: "profiles_ok ?db2 = profiles_ok db" "has_used_trial ?db2 v = has_used_trial db v" "prices_ok ?db2 = prices_ok db"
    by (simp_all add: profiles_ok_def has_used_trial_def profile_of_def prices_ok_def create_items_def Let_def d)
  have "prices_ok (spend_trial e (ws_id w) ?db2) = prices_ok ?db2"
    by (simp add: prices_ok_def spend_trial_def save_profile_def get_or_create_profile_def Let_def
        split: option.split)
  then show "profiles_ok db'" "has_used_trial db' v \<longleftrightarrow> has_used_trial db v \<or> credit \<and> v = ws_id w"
    "prices_ok db' = prices_ok db"
    using t assms(2) spend_trial_profiles [of ?db2] by (simp_all add: db')
qed

definition trial_ok :: "platform_db \<Rightarrow> bill_entry list \<times> platform_db \<Rightarrow> bool" where
  "trial_ok db0 s \<longleftrightarrow> (case s of (es, db) \<Rightarrow> profiles_ok db \<and> prices_ok db \<and>
     (\<forall>v. has_used_trial db0 v \<longrightarrow> has_used_trial db v) \<and>
     (\<forall>x \<in> set es. be_issued x \<longrightarrow> 0 \<le> be_subtotal x \<and>
        (credited x \<longrightarrow> \<not> has_used_trial db0 (be_workspace x) \<and> has_used_trial db (be_workspace x))))"

lemma same_but_currencies_trial:
  assumes "same_but_currencies db db'"
  shows "profiles_ok db' = profiles_ok db" "prices_ok db' = prices_ok db" "has_used_trial db' v = has_used_trial db v"
  using same_but_currencies_tables [OF assms]
  by (simp_all add: profiles_ok_def prices_ok_def has_used_trial_def profile_of_def)

lemma trial_ok_step:
  assumes "trial_ok db0 (es, db)" "bill_workspace e db0 r w db = (x, db')"
  shows "trial_ok db0 (es @ [x], db')"
  using bill_workspace_cases [OF assms(2)]
proof
  assume l: "left_alone r w db x db'"
  then have "\<not> be_issued x" "same_but_currencies db db'" by (simp_all add: left_alone_def)
  with assms(1) same_but_currencies_trial [of db db'] show ?thesis by (simp add: trial_ok_def)
next
  assume "one_issued e db0 r w db x db' \<and> \<not> is_platform_workspace e w \<and>
    \<not> invoice_taken db0 (ws_id (rn_platform r)) (be_number x)"
  then obtain db1 owner c places ls credit rate where o: "entry_ok r w x" "be_lines x = ls" "same_but_currencies db db1"
      "bill_lines e db0 db1 r w places = Inr (ls, credit, rate)" "write_bill e r w owner c ls credit rate db1 = Inr db'"
    unfolding one_issued_def by blast
  note t = same_but_currencies_trial [OF o(3)]
  have ok: "profiles_ok db1" "prices_ok db1" using assms(1) t by (simp_all add: trial_ok_def)
  note bl = bill_lines_credit [OF o(4) ok(2)] and wb = write_bill_trial [OF o(5) ok(1)]
  have x: "be_workspace x = ws_id w" "be_subtotal x = lines_subtotal ls" "credited x \<longleftrightarrow> credit"
    using o(1,2) bl(2) by (simp_all add: entry_ok_def credited_def)
  show ?thesis using assms(1) bl wb ok t x by (simp add: trial_ok_def)
qed

text \<open>
  The trial credit is given once in a workspace's life and is never more than the bill. In a
  run a subtotal is never negative; an issued bill with a credit is of a workspace whose trial was
  unspent before the run, and it is spent after; and a trial spent before the run stays spent, so
  that no later run gives it again.
\<close>

theorem trial_credit_once:
  assumes "issue_monthly_bills e db month dry = Inr (es, db')" "get_platform_workspace e db = Some p"
    "profiles_ok db" "prices_ok db"
  shows "(\<forall>x \<in> set es. be_issued x \<longrightarrow> 0 \<le> be_subtotal x \<and>
      (credited x \<longrightarrow> \<not> has_used_trial db (be_workspace x) \<and> has_used_trial db' (be_workspace x))) \<and>
    (\<forall>v. has_used_trial db v \<longrightarrow> has_used_trial db' v) \<and> profiles_ok db' \<and> prices_ok db'"
proof -
  have "trial_ok db (es, db')"
    by (rule bill_turn_invariant [OF assms(1,2)], simp add: trial_ok_def assms(3,4), erule trial_ok_step)
  then show ?thesis by (simp add: trial_ok_def)
qed

subsection \<open>What a month comes to\<close>

lemma renewal_lines_of_rows: "renewal_lines_of db rate_for code places rs = Inr ls \<Longrightarrow>
    list_all2 (\<lambda>row l. \<exists>p x. plan_by_id db (en_plan row) = Some p \<and>
        rate_for (get_default_currency_for_workspace (workspace_by_id db (pl_workspace p))) code = Inr x \<and>
        l = renewal_line p (en_key row) x places) (filter (chargeable db) rs) ls"
proof (induction rs arbitrary: ls)
  case (Cons r rs)
  then show ?case by (cases "plan_by_id db (en_plan r)") (auto simp: chargeable_def bind_r_Inr split: if_splits)
qed simp

definition usage_charge :: "rat \<Rightarrow> nat \<Rightarrow> meter_total \<Rightarrow> rat" where
  "usage_charge rate places m = (let points = quantize_half_up 2 (mt_points m) in
     if points \<le> 0 then 0 else round_to (points * rate) places)"

lemma usage_lines_total: "lines_subtotal (usage_lines ms rate places) = (\<Sum>m\<leftarrow>ms. usage_charge rate places m)"
proof -
  have "(\<Sum>l\<leftarrow>concat (map (\<lambda>m. let points = quantize_half_up 2 (mt_points m) in
      if points \<le> 0 then [] else [bill_line_of (t m) points (round_to rate places) (round_to (points * rate) places)]) xs). bl_subtotal l)
    = (\<Sum>m\<leftarrow>xs. usage_charge rate places m)" for xs t
    by (induction xs) (simp_all add: usage_charge_def bill_line_of_def Let_def)
  then have "lines_subtotal (usage_lines ms rate places) = (\<Sum>m\<leftarrow>sort_key mt_meter ms. usage_charge rate places m)"
    unfolding usage_lines_def lines_subtotal_def .
  also have "mset (map (usage_charge rate places) (sort_key mt_meter ms)) = mset (map (usage_charge rate places) ms)"
    by simp
  then have "(\<Sum>m\<leftarrow>sort_key mt_meter ms. usage_charge rate places m) = (\<Sum>m\<leftarrow>ms. usage_charge rate places m)"
    by (metis sum_mset_sum_list)
  finally show ?thesis .
qed

lemma usage_charge_near:
  assumes "0 \<le> rate" "0 \<le> mt_points m"
  shows "\<bar>usage_charge rate places m - mt_points m * rate\<bar> \<le> rate / 200 + 1 / (2 * 10 ^ places)"
proof -
  let ?q = "quantize_half_up 2 (mt_points m)"
  have q: "\<bar>?q - mt_points m\<bar> \<le> 1 / 200" using half_up.q_err [of 2 "mt_points m"] by simp
  have "\<bar>?q * rate - mt_points m * rate\<bar> = \<bar>?q - mt_points m\<bar> * rate"
    using assms(1) by (simp add: left_diff_distrib [symmetric] abs_mult)
  with mult_right_mono [OF q assms(1)] have qr: "\<bar>?q * rate - mt_points m * rate\<bar> \<le> rate / 200" by simp
  have r: "\<bar>round_to (?q * rate) places - ?q * rate\<bar> \<le> 1 / (2 * 10 ^ places)"
    unfolding round_to_def by (rule half_up.q_err)
  have p: "(0::rat) \<le> 1 / (2 * 10 ^ places)" by simp
  have q0: "0 \<le> ?q" by (rule half_up.q_nonneg [OF assms(2)])
  show ?thesis
  proof (cases "?q \<le> 0")
    case True
    with q0 have "?q = 0" by simp
    with qr have "\<bar>0 - mt_points m * rate\<bar> \<le> rate / 200" by simp
    moreover have "usage_charge rate places m = 0" using True by (simp add: usage_charge_def)
    ultimately show ?thesis using p by linarith
  next
    case False
    have "\<bar>round_to (?q * rate) places - mt_points m * rate\<bar>
        \<le> \<bar>round_to (?q * rate) places - ?q * rate\<bar> + \<bar>?q * rate - mt_points m * rate\<bar>"
      using abs_triangle_ineq [of "round_to (?q * rate) places - ?q * rate" "?q * rate - mt_points m * rate"] by simp
    moreover have "usage_charge rate places m = round_to (?q * rate) places" using False by (simp add: usage_charge_def)
    ultimately show ?thesis using qr r by linarith
  qed
qed

lemma usage_charges_near:
  assumes "0 \<le> rate" "\<And>m. m \<in> set ms \<Longrightarrow> 0 \<le> mt_points m"
  shows "\<bar>(\<Sum>m\<leftarrow>ms. usage_charge rate places m) - (\<Sum>m\<leftarrow>ms. mt_points m) * rate\<bar>
    \<le> of_nat (length ms) * (rate / 200 + 1 / (2 * 10 ^ places))"
  using assms(2)
proof (induction ms)
  case (Cons m ms)
  let ?c = "rate / 200 + 1 / (2 * 10 ^ places)"
  from Cons have one: "\<bar>usage_charge rate places m - mt_points m * rate\<bar> \<le> ?c"
    and rest: "\<bar>(\<Sum>m\<leftarrow>ms. usage_charge rate places m) - (\<Sum>m\<leftarrow>ms. mt_points m) * rate\<bar> \<le> of_nat (length ms) * ?c"
    using usage_charge_near [OF assms(1)] by simp_all
  have "(\<Sum>m\<leftarrow>m # ms. usage_charge rate places m) - (\<Sum>m\<leftarrow>m # ms. mt_points m) * rate
      = (usage_charge rate places m - mt_points m * rate)
        + ((\<Sum>m\<leftarrow>ms. usage_charge rate places m) - (\<Sum>m\<leftarrow>ms. mt_points m) * rate)"
    by (simp add: distrib_right)
  moreover have "of_nat (length (m # ms)) * ?c = ?c + of_nat (length ms) * ?c"
  proof -
    have "of_nat (length (m # ms)) = 1 + (of_nat (length ms) :: rat)" by simp
    then show ?thesis by (simp only: distrib_right mult_1)
  qed
  ultimately show ?case using one rest by linarith
qed simp

lemma metered_points:
  "(\<Sum>m\<leftarrow>metered_for db period w. mt_points m) = (\<Sum>u\<leftarrow>filter (\<lambda>u. ur_workspace u = w) (metered_rows db period). ur_points u)"
  using sum_over_groups [of "sort (remdups (map ur_meter (filter (\<lambda>u. ur_workspace u = w) (metered_rows db period))))"
      ur_meter "filter (\<lambda>u. ur_workspace u = w) (metered_rows db period)" ur_points]
  by (simp add: metered_for_def Let_def comp_def)

lemma metered_nonneg:
  assumes "\<And>u. u \<in> set (usage_records db) \<Longrightarrow> 0 \<le> ur_points u" "m \<in> set (metered_for db period w)"
  shows "0 \<le> mt_points m"
  using assms(2) by (auto simp: metered_for_def Let_def metered_rows_def intro!: sum_list_nonneg assms(1))

text \<open>
  The charges of a month are one line for each entitlement of the workspace whose period ended
  in the month and that is chargeable, at its plan's price converted and rounded, and lines for what
  was metered, which come to the month's points at the day's rate but for at most half a cent's
  worth of points and half a unit of the currency's last place per meter.
\<close>

theorem charges_of_a_month:
  assumes "charge_lines e db0 db r w places = Inr (ls, rate)" "prices_ok db"
    "\<And>u. u \<in> set (usage_records db0) \<Longrightarrow> 0 \<le> ur_points u"
  shows "\<exists>rs us. ls = rs @ us \<and>
    list_all2 (\<lambda>row l. \<exists>p x. plan_by_id db (en_plan row) = Some p \<and>
        rate_or_refuse e db (get_default_currency_for_workspace (workspace_by_id db (pl_workspace p))) (bill_currency w) = Inr x \<and>
        l = renewal_line p (en_key row) x places)
      (filter (chargeable db) (renewals_for db0 (renewal_period_bounds e (rn_start r)) (ws_id w))) rs \<and>
    \<bar>lines_subtotal us - (\<Sum>u\<leftarrow>filter (\<lambda>u. ur_workspace u = ws_id w) (metered_rows db0 (rn_start r, rn_next r)). ur_points u) * rate\<bar>
      \<le> of_nat (length (metered_for db0 (rn_start r, rn_next r) (ws_id w))) * (rate / 200 + 1 / (2 * 10 ^ places))"
proof -
  let ?rows = "renewals_for db0 (renewal_period_bounds e (rn_start r)) (ws_id w)"
  let ?ms = "metered_for db0 (rn_start r, rn_next r) (ws_id w)"
  from assms(1) obtain renewals where rate: "convert e db 1 POINT_CURRENCY (bill_currency w) (Some (today e)) = Inr rate"
    and rl: "renewal_lines db (rate_or_refuse e db) (bill_currency w) places ?rows = Inr renewals"
    and ls: "ls = renewals @ usage_lines ?ms rate places"
    by (auto simp: charge_lines_def Let_def split: sum.splits rate_error.splits if_splits)
  have rate0: "0 \<le> rate" by (rule convert_nonneg [OF assms(2) _ rate]) simp
  have "sort_key (\<lambda>r. (en_key r, en_id r)) ?rows = ?rows"
    unfolding renewals_for_def by (rule sort_key_id_if_sorted) (rule sorted_sort_key)
  with rl have "renewal_lines_of db (rate_or_refuse e db) (bill_currency w) places ?rows = Inr renewals"
    by (simp add: renewal_lines_def)
  note rows = renewal_lines_of_rows [OF this]
  have near: "\<bar>lines_subtotal (usage_lines ?ms rate places) - (\<Sum>m\<leftarrow>?ms. mt_points m) * rate\<bar>
      \<le> of_nat (length ?ms) * (rate / 200 + 1 / (2 * 10 ^ places))"
    unfolding usage_lines_total by (rule usage_charges_near [OF rate0 metered_nonneg [OF assms(3)]])
  from rows near ls show ?thesis unfolding metered_points by blast
qed

subsection \<open>Whether a workspace may meter\<close>

text \<open>
  Once the cached answer has been dropped, metering is allowed exactly when the workspace owes
  no overdue bill to the platform and has used fewer points than its cap for the month.
\<close>

theorem may_meter_iff:
  "fst (may_meter e (forget_overdue w db) w month) \<longleftrightarrow>
    \<not> (platform_slug e \<noteq> [] \<and> owes e db w) \<and> points_used e db w month < monthly_cap e db w"
proof -
  have cached: "points_used e (d\<lparr>cached := c\<rparr>) w month = points_used e d w month"
    "monthly_cap e (d\<lparr>cached := c\<rparr>) w = monthly_cap e d w" for d c
    by (simp_all add: points_used_def usage_in_def monthly_cap_def profile_of_def)
  from overdue.ask_tables [of e "forget_overdue w db" w] obtain c
    where "snd (ask_overdue e (forget_overdue w db) w) = (forget_overdue w db)\<lparr>cached := c\<rparr>" ..
  with overdue.ask_after_forget [of e w db]
  have a: "ask_overdue e (forget_overdue w db) w = (owes e db w, (forget_overdue w db)\<lparr>cached := c\<rparr>)"
    by (intro prod_eqI) simp_all
  have al: "0 < al_remaining (allowance_of e ((forget_overdue w db)\<lparr>cached := d\<rparr>) w month)
      \<longleftrightarrow> points_used e db w month < monthly_cap e db w" for d
    unfolding allowance_of_def Let_def cached forget_overdue_def by (auto simp: cached)
  have al0: "0 < al_remaining (allowance_of e (forget_overdue w db) w month)
      \<longleftrightarrow> points_used e db w month < monthly_cap e db w"
    unfolding allowance_of_def Let_def cached forget_overdue_def by auto
  show ?thesis
    by (cases "platform_slug e = []"; cases "owes e db w")
      (simp_all add: may_meter_def has_overdue_invoice_def a al al0)
qed

end
