(* ===== verification/Acquisitions.thy ===== *)
theory Acquisitions
  imports Billing_Run Activation
begin

text \<open>
  \<open>services/acquisitions.py\<close>: getting a workspace an add-on it does not have, for nothing, on
  trial, ahead of its bill, or against a bill to pay. The free ones switch the extension on in the
  transaction that writes the entitlement (\<open>entitle\<close>); the billed ones write an invoice and nothing
  else (\<open>issue_bill\<close>). A call answers beside its outcome the database after it, since a refusal
  may leave a currency row behind.
\<close>

datatype refusal = Not_An_Addon | Already_Entitled | No_Plan | No_Owner | Unknown_Currency | Key_Too_Long

datatype acq_error = Refused refusal | Ext_Failed ext_error | No_Exchange_Rate rate_error
  | Number_Not_Read | Number_Clash

record acquisition =
  aq_entitlement :: "entitlement option"
  aq_invoice :: "invoice option"
  aq_invoice_is_new :: bool
  aq_trial_days :: nat
  aq_billed_later :: bool

definition PLAN_CODE_BASE_PLAN :: string where
  "PLAN_CODE_BASE_PLAN = KEY_BASE_PLAN"

definition DEFERRED_MONTHS :: int where
  "DEFERRED_MONTHS = 1"

definition NUMBER_ATTEMPTS :: nat where
  "NUMBER_ATTEMPTS = 3"

text \<open>\<open>Invoice.invoice_number.max_length\<close>.\<close>

definition number_limit :: nat where
  "number_limit = 50"

definition plan_for :: "env \<Rightarrow> platform_db \<Rightarrow> string \<Rightarrow> plan option" where
  "plan_for e db key = (case get_platform_workspace e db of None \<Rightarrow> None
     | Some platform \<Rightarrow> earliest_by pl_id
         (filter (\<lambda>p. pl_workspace p = ws_id platform \<and> pl_code p = key \<and> pl_active p) (plans db)))"

definition trial_days_of :: "plan \<Rightarrow> bool \<Rightarrow> nat" where
  "trial_days_of plan already_held = (let days = trial_period_days plan in
     if already_held \<or> days = 0 then 0 else days)"

definition has_held :: "platform_db \<Rightarrow> nat \<Rightarrow> string \<Rightarrow> bool" where
  "has_held db w key = list_ex (\<lambda>r. en_workspace r = w \<and> en_key r = key) (entitlements db)"

definition currency_code_of :: "workspace option \<Rightarrow> string" where
  "currency_code_of w = upper (or_else (get_default_currency_for_workspace w) POINT_CURRENCY)"

subsection \<open>The price list\<close>

record price_row =
  pr_plan :: string
  pr_amount :: string
  pr_currency :: string
  pr_interval :: string
  pr_interval_count :: nat
  pr_trial_days :: nat
  pr_workspace_amount :: "string option"
  pr_workspace_currency :: string

definition price_row_of :: "string \<Rightarrow> string \<Rightarrow> rat option \<Rightarrow> nat \<Rightarrow> string list \<Rightarrow> plan \<Rightarrow> price_row" where
  "price_row_of plan_currency code rate places held p = \<lparr>pr_plan = pl_name p, pr_amount = show_fixed 2 (pl_price p),
     pr_currency = plan_currency, pr_interval = pl_interval p, pr_interval_count = pl_interval_count p,
     pr_trial_days = trial_days_of p (pl_code p \<in> set held),
     pr_workspace_amount = map_option (\<lambda>r. show_fixed places (round_to (pl_price p * r) places)) rate,
     pr_workspace_currency = code\<rparr>"

text \<open>\<open>entries.setdefault(plan.code, ...)\<close>: the earliest plan of a code is the one shown.\<close>

definition price_list :: "env \<Rightarrow> platform_db \<Rightarrow> workspace \<Rightarrow> (string \<times> price_row) list" where
  "price_list e db w = (case get_platform_workspace e db of None \<Rightarrow> []
     | Some platform \<Rightarrow>
       let ps = sort_key pl_id (filter (\<lambda>p. pl_workspace p = ws_id platform \<and> pl_active p
             \<and> pl_code p \<noteq> PLAN_CODE_BASE_PLAN) (plans db));
           held = map en_key (filter (\<lambda>r. en_workspace r = ws_id w) (entitlements db));
           plan_currency = currency_code_of (Some platform); code = currency_code_of (Some w);
           places = bill_places (fst (currency_row db code False));
           rate = (case convert e db 1 plan_currency code (Some (today e)) of Inl _ \<Rightarrow> None | Inr r \<Rightarrow> Some r)
       in fold (\<lambda>p entries. if pl_code p \<in> fst ` set entries then entries
            else entries @ [(pl_code p, price_row_of plan_currency code rate places held p)]) ps [])"

subsection \<open>Entitling\<close>

definition entitle :: "env \<Rightarrow> manifest list \<Rightarrow> ent_check \<Rightarrow> platform_db \<Rightarrow> workspace \<Rightarrow> string \<Rightarrow> plan \<Rightarrow> nat option
    \<Rightarrow> moment option \<Rightarrow> moment option \<Rightarrow> string \<Rightarrow> (acq_error + entitlement) \<times> platform_db" where
  "entitle e reg check db w key plan user start period_end actor =
    (let r = new_entitlement db (ws_id w) key (Some (pl_id plan)) Purchased
           (case start of Some t \<Rightarrow> t | None \<Rightarrow> now e) period_end '''' in
     case activate e reg check (db\<lparr>entitlements := entitlements db @ [r]\<rparr>) (ws_id w) key user None actor of
       Inl err \<Rightarrow> (Inl (Ext_Failed err), db)
     | Inr (_, db') \<Rightarrow> (Inr r, db'))"

subsection \<open>Billing\<close>

definition outstanding_invoice :: "env \<Rightarrow> platform_db \<Rightarrow> nat \<Rightarrow> string \<Rightarrow> invoice option" where
  "outstanding_invoice e db w key = (case get_platform_workspace e db of None \<Rightarrow> None
     | Some platform \<Rightarrow> latest_by inv_id (filter (\<lambda>i. inv_workspace i = ws_id platform \<and>
         startswith (acquisition_number_prefix w key) (inv_number i) \<and> unpaid (inv_status i)) (invoices db)))"

definition used_numbers :: "platform_db \<Rightarrow> nat \<Rightarrow> string \<Rightarrow> string list" where
  "used_numbers db platform prefix = map inv_number
     (filter (\<lambda>i. inv_workspace i = platform \<and> startswith prefix (inv_number i)) (invoices db))"

fun highest_tail :: "string \<Rightarrow> string list \<Rightarrow> nat \<Rightarrow> nat option" where
  "highest_tail prefix [] highest = Some highest"
| "highest_tail prefix (n # ns) highest = (let tail = drop (length prefix) n in
     if \<not> isdigit tail then highest_tail prefix ns highest
     else case int_of tail of None \<Rightarrow> None | Some k \<Rightarrow> highest_tail prefix ns (max highest k))"

definition next_number :: "platform_db \<Rightarrow> nat \<Rightarrow> nat \<Rightarrow> string \<Rightarrow> acq_error + string" where
  "next_number db platform w key = (let prefix = acquisition_number_prefix w key in
     case highest_tail prefix (used_numbers db platform prefix) 0 of
       None \<Rightarrow> Inl Number_Not_Read
     | Some highest \<Rightarrow> let number = acquisition_number w key (highest + 1) in
         if number_limit < length number then Inl (Refused Key_Too_Long) else Inr number)"

text \<open>One bill to be written: what \<open>_issue_bill\<close> has worked out before it tries for a number.\<close>

record addon_bill =
  ab_platform :: nat
  ab_owner :: nat
  ab_currency :: nat
  ab_price :: rat
  ab_tax :: rat
  ab_tax_type :: tax_type
  ab_due :: date
  ab_notes :: string
  ab_text :: string

definition write_addon_bill :: "env \<Rightarrow> addon_bill \<Rightarrow> string \<Rightarrow> platform_db \<Rightarrow> integrity_error + (invoice \<times> platform_db)" where
  "write_addon_bill e b number db =
    (let (c, db) = get_or_create_customer db (ab_platform b) (ab_owner b) in
     bind_r (create_invoice \<lparr>inv_id = 0, inv_workspace = ab_platform b, inv_customer = cu_id c, inv_number = number,
         inv_status = Inv_Sent, inv_subtotal = ab_price b, inv_tax = ab_tax b, inv_total = ab_price b + ab_tax b,
         inv_currency = ab_currency b, issue_date = today e, due_date = ab_due b, paid_date = None,
         inv_notes = ab_notes b\<rparr> db) (\<lambda>(i, db).
       Inr (i, create_items (inv_id i) [\<lparr>bl_description = ab_text b, bl_quantity = 1, bl_unit_price = ab_price b,
         bl_subtotal = ab_price b, bl_tax = ab_tax b, bl_tax_type = ab_tax_type b\<rparr>] db)))"

text \<open>The loop over attempts: a number that is taken is counted past by the next one.\<close>

fun try_numbers :: "env \<Rightarrow> addon_bill \<Rightarrow> nat \<Rightarrow> string \<Rightarrow> nat \<Rightarrow> platform_db \<Rightarrow> (acq_error + invoice) \<times> platform_db" where
  "try_numbers e b w key 0 db = (Inl Number_Clash, db)"
| "try_numbers e b w key (Suc n) db = (case next_number db (ab_platform b) w key of
     Inl err \<Rightarrow> (Inl err, db)
   | Inr number \<Rightarrow> (case write_addon_bill e b number db of
       Inl _ \<Rightarrow> try_numbers e b w key n db
     | Inr (i, db') \<Rightarrow> (Inr i, db')))"

definition addon_bill_of :: "env \<Rightarrow> platform_db \<Rightarrow> workspace \<Rightarrow> nat \<Rightarrow> workspace \<Rightarrow> string \<Rightarrow> plan \<Rightarrow> currency \<Rightarrow> rat \<Rightarrow> addon_bill" where
  "addon_bill_of e db platform owner w key plan cur rate =
    (let places = min (decimal_places cur) 2; price = round_to (pl_price plan * rate) places;
         percent = tax_percent db (upper (get_default_country_for_workspace (Some w))) (ws_id platform);
         what = or_else key ''base plan'' in
     \<lparr>ab_platform = ws_id platform, ab_owner = owner, ab_currency = cur_id cur, ab_price = price,
      ab_tax = round_to (price * percent / 100) places,
      ab_tax_type = (if percent \<noteq> 0 then Tax_Default else No_Tax),
      ab_due = today e + int (invoice_due_days e),
      ab_notes = ws_name w @ '' (workspace '' @ show_nat (ws_id w) @ '') '' @ em_dash @ '' '' @ what @
        '' acquired on '' @ isoformat (today e) @ ''. '' @
        rate_note (currency_code_of (workspace_by_id db (pl_workspace plan))) (currency_code_of (Some w)) rate (today e),
      ab_text = take 255 (pl_name plan @ '' '' @ em_dash @ '' '' @ what @ '', first month'')\<rparr>)"

text \<open>
  \<open>_issue_bill\<close>. \<open>acquire\<close> only calls it with a plan of the platform workspace, so there is one:
  the first branch is not reached.
\<close>

definition issue_bill :: "env \<Rightarrow> platform_db \<Rightarrow> workspace \<Rightarrow> string \<Rightarrow> plan \<Rightarrow> (acq_error + invoice) \<times> platform_db" where
  "issue_bill e db w key plan = (case get_platform_workspace e db of
     None \<Rightarrow> (Inl (Refused No_Plan), db)
   | Some platform \<Rightarrow>
     (case map_of (workspace_owners db [ws_id w]) (ws_id w) of
        None \<Rightarrow> (Inl (Refused No_Owner), db)
      | Some owner \<Rightarrow>
        let code = currency_code_of (Some w); (cur, db) = currency_row db code True in
        (case cur of None \<Rightarrow> (Inl (Refused Unknown_Currency), db)
         | Some cur \<Rightarrow>
           (case convert e db 1 (currency_code_of (workspace_by_id db (pl_workspace plan))) code (Some (today e)) of
              Inl missing \<Rightarrow> (Inl (No_Exchange_Rate missing), db)
            | Inr rate \<Rightarrow> try_numbers e (addon_bill_of e db platform owner w key plan cur rate) (ws_id w) key
                NUMBER_ATTEMPTS db))))"

subsection \<open>Acquiring\<close>

definition entitled_answer :: "(acq_error + entitlement) \<times> platform_db \<Rightarrow> nat \<Rightarrow> bool
    \<Rightarrow> (acq_error + acquisition) \<times> platform_db" where
  "entitled_answer res days later = (case res of (Inl err, db) \<Rightarrow> (Inl err, db)
     | (Inr r, db) \<Rightarrow> (Inr \<lparr>aq_entitlement = Some r, aq_invoice = None, aq_invoice_is_new = True,
         aq_trial_days = days, aq_billed_later = later\<rparr>, db))"

definition invoice_answer :: "invoice \<Rightarrow> bool \<Rightarrow> acquisition" where
  "invoice_answer i is_new = \<lparr>aq_entitlement = None, aq_invoice = Some i, aq_invoice_is_new = is_new,
     aq_trial_days = 0, aq_billed_later = False\<rparr>"

text \<open>From the plan on.\<close>

definition acquire_priced :: "env \<Rightarrow> manifest list \<Rightarrow> ent_check \<Rightarrow> platform_db \<Rightarrow> workspace \<Rightarrow> string \<Rightarrow> plan
    \<Rightarrow> nat option \<Rightarrow> string \<Rightarrow> (acq_error + acquisition) \<times> platform_db" where
  "acquire_priced e reg check db w key plan user actor =
    (let days = trial_days_of plan (has_held db (ws_id w) key) in
     if days \<noteq> 0 then
       entitled_answer (entitle e reg check db w key plan user (Some (now e))
         (Some (now e + days_delta (int days))) actor) days False
     else case issue_bill e db w key plan of
         (Inr i, db) \<Rightarrow> (Inr (invoice_answer i True), db)
       | (Inl (No_Exchange_Rate _), db) \<Rightarrow>
           entitled_answer (entitle e reg check db w key plan user (Some (now e))
             (Some (add_months (now e) DEFERRED_MONTHS)) actor) 0 True
       | (Inl err, db) \<Rightarrow> (Inl err, db))"

definition acquire :: "env \<Rightarrow> manifest list \<Rightarrow> ent_check \<Rightarrow> platform_db \<Rightarrow> workspace \<Rightarrow> string \<Rightarrow> nat option \<Rightarrow> string
    \<Rightarrow> (acq_error + acquisition) \<times> platform_db" where
  "acquire e reg check db w key user actor = (case require_manageable reg key actor of
     Inl err \<Rightarrow> (Inl (Ext_Failed err), db)
   | Inr m \<Rightarrow>
     if pricing m \<noteq> PRICING_ADDON then (Inl (Refused Not_An_Addon), db)
     else if is_entitled e db (Some (ws_id w)) key then (Inl (Refused Already_Entitled), db)
     else case plan_for e db key of
       None \<Rightarrow> (Inl (Refused No_Plan), db)
     | Some plan \<Rightarrow>
         if pl_price plan \<le> 0 then entitled_answer (entitle e reg check db w key plan user None None actor) 0 False
         else case outstanding_invoice e db (ws_id w) key of
             Some i \<Rightarrow> (Inr (invoice_answer i False), db)
           | None \<Rightarrow> acquire_priced e reg check db w key plan user actor)"

subsection \<open>Plan packs\<close>

definition pack_obtain :: "env \<Rightarrow> manifest list \<Rightarrow> ent_check \<Rightarrow> platform_db \<Rightarrow> workspace \<Rightarrow> manifest
    \<Rightarrow> (acq_error + bool) \<times> platform_db" where
  "pack_obtain e reg check db w m = (case plan_for e db (mf_key m) of
     None \<Rightarrow> (Inr False, db)
   | Some plan \<Rightarrow> if 0 < pl_price plan then (Inr False, db)
     else case acquire e reg check db w (mf_key m) None ACTIVATION_SYSTEM of
         (Inr _, db) \<Rightarrow> (Inr True, db)
       | (Inl (Refused _), db) \<Rightarrow> (Inr False, db)
       | (Inl (Ext_Failed (Ext_Error _ _)), db) \<Rightarrow> (Inr False, db)
       | (Inl err, db) \<Rightarrow> (Inl err, db))"

subsection \<open>Numbers and bills\<close>

text \<open>What writing a bill leaves alone.\<close>

definition bill_frame :: "platform_db \<Rightarrow> platform_db \<Rightarrow> bool" where
  "bill_frame db db' \<longleftrightarrow> workspaces db' = workspaces db \<and> profiles db' = profiles db \<and>
     memberships db' = memberships db \<and> ext_records db' = ext_records db \<and> plans db' = plans db \<and>
     entitlements db' = entitlements db \<and> exchange_rates db' = exchange_rates db \<and> cached db' = cached db"

lemma bill_frame_trans: "bill_frame a b \<Longrightarrow> bill_frame b c \<Longrightarrow> bill_frame a c"
  by (simp add: bill_frame_def)

lemma bill_frame_intros:
  "currency_row db code create = (c, db') \<Longrightarrow> bill_frame db db'"
  "get_or_create_customer db w u = (cu, db') \<Longrightarrow> bill_frame db db'"
  "create_invoice i db = Inr (j, db') \<Longrightarrow> bill_frame db db'"
  "bill_frame db (create_items b ls db)"
  by (auto simp: bill_frame_def currency_row_def ensure_currency_def get_or_create_customer_def create_invoice_def
      create_items_def Let_def split: option.splits if_splits)

lemma plan_for_frame: "bill_frame db db' \<Longrightarrow> plan_for e db' key = plan_for e db key"
  "bill_frame db db' \<Longrightarrow> get_platform_workspace e db' = get_platform_workspace e db"
  "bill_frame db db' \<Longrightarrow> is_entitled e db' w key = is_entitled e db w key"
  by (simp_all add: plan_for_def get_platform_workspace_def bill_frame_def is_entitled_def entitled_at_def
      split: option.split)

lemma highest_tail_ge: "highest_tail prefix ns h0 = Some h \<Longrightarrow> h0 \<le> h \<and>
    (\<forall>n \<in> set ns. \<forall>k. isdigit (drop (length prefix) n) \<longrightarrow> int_of (drop (length prefix) n) = Some k \<longrightarrow> k \<le> h)"
proof (induction ns arbitrary: h0)
  case (Cons n ns)
  then show ?case
    by (cases "isdigit (drop (length prefix) n)"; cases "int_of (drop (length prefix) n)") fastforce+
qed simp

lemma next_number_fresh:
  assumes "next_number db platform w key = Inr number"
  obtains k where "number = acquisition_number w key k" "0 < k" "length number \<le> number_limit"
    "\<not> invoice_taken db platform number"
proof -
  let ?p = "acquisition_number_prefix w key"
  from assms obtain h where h: "highest_tail ?p (used_numbers db platform ?p) 0 = Some h"
    and n: "number = acquisition_number w key (h + 1)" "length number \<le> number_limit"
    by (auto simp: next_number_def Let_def split: option.splits if_splits)
  have "\<not> invoice_taken db platform number"
  proof
    assume "invoice_taken db platform number"
    then obtain i where i: "i \<in> set (invoices db)" "inv_workspace i = platform" "inv_number i = number"
      by (auto simp: invoice_taken_def list_ex_iff)
    moreover have "startswith ?p number" unfolding n(1) by (rule number_prefixes)
    ultimately have "number \<in> set (used_numbers db platform ?p)" by (force simp: used_numbers_def)
    with highest_tail_ge [OF h] show False
      by (auto simp: n(1) acquisition_number_def)
  qed
  with n that [of "h + 1"] show ?thesis by simp
qed

lemma write_addon_bill_fresh:
  assumes "\<not> invoice_taken db (ab_platform b) number"
  shows "\<exists>i db'. write_addon_bill e b number db = Inr (i, db')"
proof -
  obtain c db1 where c: "get_or_create_customer db (ab_platform b) (ab_owner b) = (c, db1)" by fastforce
  have "invoices db1 = invoices db" using customer_tables [OF c] by simp
  with assms c show ?thesis by (simp add: write_addon_bill_def create_invoice_def invoice_taken_def Let_def)
qed

lemma write_addon_bill_Inr:
  assumes "write_addon_bill e b number db = Inr (i, db')" "invoices_ok db"
  shows "bill_frame db db'" "invoices db' = invoices db @ [i]" "invoices_ok db'" "adds_up db' i"
    "inv_number i = number" "inv_workspace i = ab_platform b" "inv_status i = Inv_Sent"
    "inv_id i = fresh_id inv_id (invoices db)" "inv_subtotal i = ab_price b" "inv_tax i = ab_tax b"
    "issue_date i = today e" "due_date i = ab_due b"
    "\<And>j. j \<in> set (invoices db) \<Longrightarrow> items_of db' j = items_of db j"
proof -
  obtain c db1 where c: "get_or_create_customer db (ab_platform b) (ab_owner b) = (c, db1)" by fastforce
  note ct = customer_tables [OF c]
  let ?i = "\<lparr>inv_id = 0, inv_workspace = ab_platform b, inv_customer = cu_id c, inv_number = number,
         inv_status = Inv_Sent, inv_subtotal = ab_price b, inv_tax = ab_tax b, inv_total = ab_price b + ab_tax b,
         inv_currency = ab_currency b, issue_date = today e, due_date = ab_due b, paid_date = None,
         inv_notes = ab_notes b\<rparr>"
  let ?ls = "[\<lparr>bl_description = ab_text b, bl_quantity = 1, bl_unit_price = ab_price b,
         bl_subtotal = ab_price b, bl_tax = ab_tax b, bl_tax_type = ab_tax_type b\<rparr>]"
  from assms(1) c obtain db2 where i: "create_invoice ?i db1 = Inr (i, db2)" and db': "db' = create_items (inv_id i) ?ls db2"
    by (auto simp: write_addon_bill_def Let_def bind_r_Inr)
  have ok1: "invoices_ok db1" using assms(2) ct by (simp add: invoices_ok_def)
  note ci = create_invoice_Inr [OF i ok1]
  show "bill_frame db db'"
    using bill_frame_intros(2) [OF c] bill_frame_intros(3) [OF i] bill_frame_intros(4) bill_frame_trans unfolding db' by blast
  show "invoices db' = invoices db @ [i]" using ct by (simp add: db' create_items_tables ci(2))
  show "inv_number i = number" "inv_workspace i = ab_platform b" "inv_status i = Inv_Sent"
    "inv_id i = fresh_id inv_id (invoices db)" "inv_subtotal i = ab_price b" "inv_tax i = ab_tax b"
    "issue_date i = today e" "due_date i = ab_due b"
    using ct by (simp_all add: ci(1))
  have none: "items_of db2 i = []" using ci(5) by (simp add: items_of_def ci(2) filter_empty_conv)
  show "adds_up db' i"
    unfolding adds_up_def db' items_after_create none using item_of_sums [of _ "inv_id i" 0 ?ls]
    by (simp add: ci(1) lines_subtotal_def lines_tax_def)
  show "invoices_ok db'"
    using ci(3) by (auto simp: db' invoices_ok_def create_items_def item_of_def Let_def ci(2))
  show "items_of db' j = items_of db j" if "j \<in> set (invoices db)" for j
  proof -
    have "inv_id j \<noteq> inv_id i" using that ct by (simp add: ci(1))
    with ct show ?thesis unfolding db' items_after_create by (simp add: items_of_def ci(2))
  qed
qed

text \<open>The first attempt is enough when nobody else is writing.\<close>

lemma try_numbers_first:
  "try_numbers e b w key (Suc n) db = (case next_number db (ab_platform b) w key of
     Inl err \<Rightarrow> (Inl err, db)
   | Inr number \<Rightarrow> (case write_addon_bill e b number db of Inl _ \<Rightarrow> (Inl Number_Clash, db) | Inr (i, db') \<Rightarrow> (Inr i, db')))"
proof (cases "next_number db (ab_platform b) w key")
  case (Inr number)
  then obtain k where "\<not> invoice_taken db (ab_platform b) number" by (rule next_number_fresh)
  from write_addon_bill_fresh [OF this, of e] obtain i db' where "write_addon_bill e b number db = Inr (i, db')" by blast
  with Inr show ?thesis by simp
qed simp

lemma next_number_no_clash: "next_number db p w key \<noteq> Inl Number_Clash"
  by (auto simp: next_number_def Let_def split: option.splits)

text \<open>What an issued add-on bill is.\<close>

definition addon_bill_ok :: "env \<Rightarrow> platform_db \<Rightarrow> workspace \<Rightarrow> string \<Rightarrow> invoice \<Rightarrow> platform_db \<Rightarrow> bool" where
  "addon_bill_ok e db w key i db' \<longleftrightarrow> invoices db' = invoices db @ [i] \<and> invoices_ok db' \<and> adds_up db' i \<and>
     inv_status i = Inv_Sent \<and> inv_id i = fresh_id inv_id (invoices db) \<and> issue_date i = today e \<and>
     due_date i = today e + int (invoice_due_days e) \<and>
     (case get_platform_workspace e db of None \<Rightarrow> False
      | Some p \<Rightarrow> inv_workspace i = ws_id p \<and> \<not> invoice_taken db (ws_id p) (inv_number i)) \<and>
     (\<exists>k > 0. inv_number i = acquisition_number (ws_id w) key k) \<and> length (inv_number i) \<le> number_limit"

lemma issue_bill_cases:
  assumes "issue_bill e db w key plan = (res, db')" "invoices_ok db"
  shows "bill_frame db db' \<and> res \<noteq> Inl Number_Clash \<and>
    (case res of Inl _ \<Rightarrow> invoices db' = invoices db \<and> invoice_items db' = invoice_items db
      | Inr i \<Rightarrow> addon_bill_ok e db w key i db')"
proof -
  have frame0: "bill_frame db db" by (simp add: bill_frame_def)
  consider err where "res = Inl err" "err \<noteq> Number_Clash" "db' = db"
    | platform owner cur db1 where "get_platform_workspace e db = Some platform"
      "currency_row db (currency_code_of (Some w)) True = (cur, db1)"
      "(\<exists>err. res = Inl err \<and> err \<noteq> Number_Clash \<and> db' = db1) \<or>
       (\<exists>c rate. try_numbers e (addon_bill_of e db1 platform owner w key plan c rate) (ws_id w) key NUMBER_ATTEMPTS db1 = (res, db'))"
  proof (cases "get_platform_workspace e db")
    case None
    with assms(1) that(1) show ?thesis by (auto simp: issue_bill_def)
  next
    case (Some platform)
    show ?thesis
    proof (cases "map_of (workspace_owners db [ws_id w]) (ws_id w)")
      case None
      with assms(1) Some that(1) show ?thesis by (auto simp: issue_bill_def)
    next
      case owner: (Some owner)
      obtain cur db1 where c: "currency_row db (currency_code_of (Some w)) True = (cur, db1)" by fastforce
      show ?thesis
        by (rule that(2) [OF Some c, of owner])
          (use assms(1) Some owner c in \<open>auto simp: issue_bill_def Let_def split: option.splits sum.splits\<close>)
    qed
  qed
  then show ?thesis
  proof cases
    case 1
    with frame0 show ?thesis by simp
  next
    case (2 platform owner cur db1)
    note f1 = bill_frame_intros(1) [OF 2(2)]
    note t1 = same_but_currencies_tables [OF currency_row_same [OF 2(2)]]
    have ok1: "invoices_ok db1" using assms(2) by (simp add: invoices_ok_def t1)
    from 2(3) show ?thesis
    proof (elim disjE exE)
      fix err assume "res = Inl err \<and> err \<noteq> Number_Clash \<and> db' = db1"
      with f1 t1 show ?thesis by simp
    next
      fix c rate
      let ?b = "addon_bill_of e db1 platform owner w key plan c rate"
      assume t: "try_numbers e ?b (ws_id w) key NUMBER_ATTEMPTS db1 = (res, db')"
      have b: "ab_platform ?b = ws_id platform" "ab_due ?b = today e + int (invoice_due_days e)"
        by (simp_all add: addon_bill_of_def Let_def)
      have att: "NUMBER_ATTEMPTS = Suc 2" by (simp add: NUMBER_ATTEMPTS_def)
      show ?thesis
      proof (cases "next_number db1 (ws_id platform) (ws_id w) key")
        case (Inl err)
        with t next_number_no_clash [of db1 "ws_id platform" "ws_id w" key] f1 t1 show ?thesis
          unfolding att try_numbers_first b by auto
      next
        case (Inr number)
        from next_number_fresh [OF Inr] obtain k where n: "number = acquisition_number (ws_id w) key k" "0 < k"
          "length number \<le> number_limit" "\<not> invoice_taken db1 (ws_id platform) number" .
        from write_addon_bill_fresh [of db1 ?b number e] n(4) b(1) obtain i db2 where
          w: "write_addon_bill e ?b number db1 = Inr (i, db2)" by auto
        with t Inr have res: "res = Inr i" "db' = db2" unfolding att try_numbers_first b by simp_all
        note wi = write_addon_bill_Inr [OF w ok1]
        have "\<not> invoice_taken db (ws_id platform) number" using n(4) by (simp add: invoice_taken_def t1)
        then have "addon_bill_ok e db w key i db2"
          using wi n 2(1) by (auto simp: addon_bill_ok_def t1 b)
        with res bill_frame_trans [OF f1 wi(1)] show ?thesis by simp
      qed
    qed
  qed
qed

subsection \<open>Outcomes\<close>

text \<open>The entitlement an acquisition writes.\<close>

definition bought :: "workspace \<Rightarrow> string \<Rightarrow> plan \<Rightarrow> entitlement \<Rightarrow> bool" where
  "bought w key plan r \<longleftrightarrow> en_workspace r = ws_id w \<and> en_key r = key \<and> en_plan r = Some (pl_id plan) \<and>
     en_source r = Purchased \<and> en_status r = Ent_Active"

lemma entitle_Inr:
  assumes "entitle e reg check db w key plan user start pe actor = (Inr r, db')"
    "require_manageable reg key actor = Inr m" "ext_ok db" "quiet (on_activate m)"
  shows "bought w key plan r" "current_period_end r = pe" "entitlements db' = entitlements db @ [r]"
    "starts_at r = (case start of Some t \<Rightarrow> t | None \<Rightarrow> now e)"
    "\<exists>x. activate e reg check (db\<lparr>entitlements := entitlements db @ [r]\<rparr>) (ws_id w) key user None actor = Inr (x, db')"
proof -
  let ?r = "new_entitlement db (ws_id w) key (Some (pl_id plan)) Purchased
      (case start of Some t \<Rightarrow> t | None \<Rightarrow> now e) pe ''''"
  let ?db = "db\<lparr>entitlements := entitlements db @ [?r]\<rparr>"
  from assms(1) obtain x where a: "activate e reg check ?db (ws_id w) key user None actor = Inr (x, db')" and r: "r = ?r"
    by (auto simp: entitle_def Let_def split: sum.splits)
  show "bought w key plan r" "current_period_end r = pe" "starts_at r = (case start of Some t \<Rightarrow> t | None \<Rightarrow> now e)"
    by (simp_all add: r bought_def new_entitlement_def)
  show "\<exists>x. activate e reg check (db\<lparr>entitlements := entitlements db @ [r]\<rparr>) (ws_id w) key user None actor = Inr (x, db')"
    using a by (auto simp: r)
  have ok: "ext_ok ?db" using assms(3) by (simp add: ext_ok_def)
  from activate_cases [OF a assms(2) ok assms(4)] have "entitlements db' = entitlements ?db" by cases simp_all
  then show "entitlements db' = entitlements db @ [r]" by (simp add: r)
qed

lemma acquire_cases:
  assumes "acquire e reg check db w key user actor = (Inr a, db')" "invoices_ok db"
  obtains (free) plan r where "plan_for e db key = Some plan" "pl_price plan \<le> 0"
      "entitle e reg check db w key plan user None None actor = (Inr r, db')"
      "a = \<lparr>aq_entitlement = Some r, aq_invoice = None, aq_invoice_is_new = True, aq_trial_days = 0, aq_billed_later = False\<rparr>"
  | (old) plan i where "plan_for e db key = Some plan" "0 < pl_price plan"
      "outstanding_invoice e db (ws_id w) key = Some i" "a = invoice_answer i False" "db' = db"
  | (trial) plan r where "plan_for e db key = Some plan" "0 < pl_price plan" "outstanding_invoice e db (ws_id w) key = None"
      "trial_days_of plan (has_held db (ws_id w) key) = aq_trial_days a" "0 < aq_trial_days a"
      "entitle e reg check db w key plan user (Some (now e)) (Some (now e + days_delta (int (aq_trial_days a)))) actor = (Inr r, db')"
      "aq_entitlement a = Some r" "aq_invoice a = None" "\<not> aq_billed_later a"
  | (bill) plan i where "plan_for e db key = Some plan" "0 < pl_price plan" "outstanding_invoice e db (ws_id w) key = None"
      "trial_days_of plan (has_held db (ws_id w) key) = 0" "issue_bill e db w key plan = (Inr i, db')" "a = invoice_answer i True"
  | (later) plan r db1 x where "plan_for e db key = Some plan" "0 < pl_price plan" "outstanding_invoice e db (ws_id w) key = None"
      "trial_days_of plan (has_held db (ws_id w) key) = 0" "issue_bill e db w key plan = (Inl (No_Exchange_Rate x), db1)"
      "entitle e reg check db1 w key plan user (Some (now e)) (Some (add_months (now e) DEFERRED_MONTHS)) actor = (Inr r, db')"
      "a = \<lparr>aq_entitlement = Some r, aq_invoice = None, aq_invoice_is_new = True, aq_trial_days = 0, aq_billed_later = True\<rparr>"
proof -
  from assms(1) obtain plan where p: "plan_for e db key = Some plan"
    and res: "(if pl_price plan \<le> 0 then entitled_answer (entitle e reg check db w key plan user None None actor) 0 False
         else case outstanding_invoice e db (ws_id w) key of
             Some i \<Rightarrow> (Inr (invoice_answer i False), db)
           | None \<Rightarrow> acquire_priced e reg check db w key plan user actor) = (Inr a, db')"
    by (auto simp: acquire_def split: sum.splits if_splits option.splits)
  have ent: "entitled_answer r d l = (Inr a, db') \<Longrightarrow> \<exists>x. r = (Inr x, db') \<and>
      a = \<lparr>aq_entitlement = Some x, aq_invoice = None, aq_invoice_is_new = True, aq_trial_days = d, aq_billed_later = l\<rparr>" for r d l
    by (auto simp: entitled_answer_def split: prod.splits sum.splits)
  show ?thesis
  proof (cases "pl_price plan \<le> 0")
    case True
    with res ent [of "entitle e reg check db w key plan user None None actor" 0 False] free [OF p True] show ?thesis by auto
  next
    case priced: False
    then have pos: "0 < pl_price plan" by simp
    show ?thesis
    proof (cases "outstanding_invoice e db (ws_id w) key")
      case (Some i)
      with res priced old [OF p pos Some] show ?thesis by simp
    next
      case None
      with res priced have ap: "acquire_priced e reg check db w key plan user actor = (Inr a, db')" by simp
      let ?d = "trial_days_of plan (has_held db (ws_id w) key)"
      show ?thesis
      proof (cases "?d = 0")
        case False
        with ap have "entitled_answer (entitle e reg check db w key plan user (Some (now e))
         (Some (now e + days_delta (int ?d))) actor) ?d False = (Inr a, db')" by (simp add: acquire_priced_def Let_def)
        from ent [OF this] obtain r where "entitle e reg check db w key plan user (Some (now e))
            (Some (now e + days_delta (int ?d))) actor = (Inr r, db')" "aq_trial_days a = ?d" "aq_entitlement a = Some r"
          "aq_invoice a = None" "\<not> aq_billed_later a" by auto
        with trial [OF p pos None] False show ?thesis by simp
      next
        case True
        obtain res1 db1 where ib: "issue_bill e db w key plan = (res1, db1)" by fastforce
        show ?thesis
        proof (cases res1)
          case (Inr i)
          with ap True ib bill [OF p pos None True] show ?thesis by (simp add: acquire_priced_def)
        next
          case (Inl err)
          with ap True ib obtain x where x: "err = No_Exchange_Rate x"
            by (cases err) (simp_all add: acquire_priced_def)
          with Inl ap True ib have "entitled_answer (entitle e reg check db1 w key plan user (Some (now e))
             (Some (add_months (now e) DEFERRED_MONTHS)) actor) 0 True = (Inr a, db')" by (simp add: acquire_priced_def)
          from ent [OF this] obtain r where "entitle e reg check db1 w key plan user (Some (now e))
             (Some (add_months (now e) DEFERRED_MONTHS)) actor = (Inr r, db')"
            "a = \<lparr>aq_entitlement = Some r, aq_invoice = None, aq_invoice_is_new = True, aq_trial_days = 0, aq_billed_later = True\<rparr>"
            by auto
          with later [OF p pos None True] ib Inl x show ?thesis by simp
        qed
      qed
    qed
  qed
qed

text \<open>
  C27: An acquisition is an entitlement or a bill and never both. A free add-on is entitled without
  an end; a priced one is either billed, and then nothing but the bill is written, or it is entitled
  up to an end: on trial, or for a month when there was no rate to bill at. Whichever entitlement it
  is, it is a purchased row for the add-on and its plan, and the only new one.
\<close>

theorem acquire_outcome:
  assumes "acquire e reg check db w key user actor = (Inr a, db')" "invoices_ok db"
    "require_manageable reg key actor = Inr m" "ext_ok db" "quiet (on_activate m)"
  shows "\<exists>plan. plan_for e db key = Some plan \<and>
    (case (aq_entitlement a, aq_invoice a) of
       (Some r, None) \<Rightarrow> entitlements db' = entitlements db @ [r] \<and> bought w key plan r \<and>
         (current_period_end r = None \<longleftrightarrow> pl_price plan \<le> 0) \<and>
         (0 < pl_price plan \<longrightarrow> current_period_end r = Some (if aq_billed_later a then add_months (now e) 1
            else now e + days_delta (int (trial_period_days plan))))
     | (None, Some i) \<Rightarrow> 0 < pl_price plan \<and> bill_frame db db' \<and>
         (if aq_invoice_is_new a then addon_bill_ok e db w key i db'
          else db' = db \<and> outstanding_invoice e db (ws_id w) key = Some i)
     | _ \<Rightarrow> False)"
  using assms(1,2)
proof (cases rule: acquire_cases)
  case (free plan r)
  with entitle_Inr [OF free(3) assms(3-5)] show ?thesis by auto
next
  case (old plan i)
  then show ?thesis by (auto simp: invoice_answer_def bill_frame_def)
next
  case (trial plan r)
  with entitle_Inr [OF trial(6) assms(3-5)] show ?thesis
    by (auto simp: trial_days_of_def Let_def split: if_splits)
next
  case (bill plan i)
  with issue_bill_cases [OF bill(5) assms(2)] show ?thesis by (auto simp: invoice_answer_def)
next
  case (later plan r db1 x)
  have f: "bill_frame db db1" using issue_bill_cases [OF later(5) assms(2)] by simp
  then have "ext_ok db1" using assms(4) by (simp add: bill_frame_def ext_ok_def)
  with later f entitle_Inr [OF later(6) assms(3) _ assms(5)] show ?thesis by (auto simp: bill_frame_def DEFERRED_MONTHS_def)
qed

lemma outstanding_after:
  assumes "addon_bill_ok e db w key i db'" "bill_frame db db'"
  shows "outstanding_invoice e db' (ws_id w) key = Some i"
proof -
  from assms(1) obtain p k where p: "get_platform_workspace e db = Some p" "inv_workspace i = ws_id p"
    "inv_number i = acquisition_number (ws_id w) key k" "inv_status i = Inv_Sent"
    "invoices db' = invoices db @ [i]" "inv_id i = fresh_id inv_id (invoices db)"
    by (auto simp: addon_bill_ok_def split: option.splits)
  let ?P = "\<lambda>i. inv_workspace i = ws_id p \<and> startswith (acquisition_number_prefix (ws_id w) key) (inv_number i) \<and> unpaid (inv_status i)"
  have i: "i \<in> set (filter ?P (invoices db'))"
    using p number_prefixes(2) by (simp add: unpaid_def)
  then obtain j where j: "latest_by inv_id (filter ?P (invoices db')) = Some j"
    by (cases "latest_by inv_id (filter ?P (invoices db'))") (auto simp: filter_empty_conv)
  from latest_by_max [OF j i] latest_by_in [OF j] fresh_id_gt [of j "invoices db" inv_id] p(5,6) have "j = i" by (auto split: if_splits)
  with j p(1) plan_for_frame(2) [OF assms(2)] show ?thesis by (simp add: outstanding_invoice_def)
qed

text \<open>
  Asking twice is one bill: as long as nothing else happens, the second request is answered with
  the invoice the first one was, and writes nothing.
\<close>

theorem asking_twice_is_one_bill:
  assumes "acquire e reg check db w key user actor = (Inr a, db')" "invoices_ok db" "aq_invoice a = Some i"
  shows "acquire e reg check db' w key user actor = (Inr (invoice_answer i False), db')"
proof -
  from assms(1) obtain m where m: "require_manageable reg key actor = Inr m" "pricing m = PRICING_ADDON"
    "\<not> is_entitled e db (Some (ws_id w)) key"
    by (auto simp: acquire_def split: sum.splits if_splits)
  have "\<exists>plan. plan_for e db key = Some plan \<and> 0 < pl_price plan \<and> bill_frame db db' \<and>
      outstanding_invoice e db' (ws_id w) key = Some i"
    using assms(1,2)
  proof (cases rule: acquire_cases)
    case (old plan j)
    with assms(3) show ?thesis by (simp add: invoice_answer_def bill_frame_def)
  next
    case (bill plan j)
    with issue_bill_cases [OF bill(5) assms(2)] outstanding_after assms(3) show ?thesis
      by (auto simp: invoice_answer_def)
  qed (use assms(3) in simp_all)
  then obtain plan where "plan_for e db key = Some plan" "0 < pl_price plan" "bill_frame db db'"
    "outstanding_invoice e db' (ws_id w) key = Some i" by blast
  then show ?thesis using m plan_for_frame [of db db'] by (simp add: acquire_def)
qed

text \<open>
  A new bill for an add-on can be told from every other: its number is one the platform has not
  used, fits its column, and is read back as this workspace and this add-on by what settles it. And
  working the number out never loses to a bill already there, so the retries are for races only.
\<close>

theorem addon_bill_number:
  assumes "acquire e reg check db w key user actor = (res, db')" "invoices_ok db" "is_extension_key key"
    "get_platform_workspace e db = Some p"
  shows "res \<noteq> Inl Number_Clash \<and> (\<forall>a i. res = Inr a \<and> aq_invoice a = Some i \<and> aq_invoice_is_new a \<longrightarrow>
    \<not> invoice_taken db (ws_id p) (inv_number i) \<and> length (inv_number i) \<le> number_limit \<and>
    acquired_workspace_and_key (inv_number i) = Inr (Some (ws_id w, key)) \<and>
    billed_workspace_and_period (inv_number i) = None \<and> is_platform_bill (inv_number i) = Inr True)"
proof
  show "res \<noteq> Inl Number_Clash"
    using assms(1) issue_bill_cases [OF _ assms(2), of e w key]
    by (auto simp: acquire_def acquire_priced_def entitled_answer_def entitle_def Let_def
        split: sum.splits if_splits option.splits prod.splits acq_error.splits)
  have "\<not> invoice_taken db (ws_id p) (inv_number i) \<and> length (inv_number i) \<le> number_limit \<and>
      acquired_workspace_and_key (inv_number i) = Inr (Some (ws_id w, key)) \<and>
      billed_workspace_and_period (inv_number i) = None \<and> is_platform_bill (inv_number i) = Inr True"
    if "res = Inr a" "aq_invoice a = Some i" "aq_invoice_is_new a" for a i
    using assms(1) [unfolded that(1)] assms(2)
  proof (cases rule: acquire_cases)
    case (bill plan j)
    with that issue_bill_cases [OF bill(5) assms(2)] have "addon_bill_ok e db w key i db'"
      by (simp add: invoice_answer_def)
    with assms(3,4) show ?thesis
      by (auto simp: addon_bill_ok_def acquired_number billed_acquisition is_platform_bill_def)
  qed (use that in \<open>simp_all add: invoice_answer_def\<close>)
  then show "\<forall>a i. res = Inr a \<and> aq_invoice a = Some i \<and> aq_invoice_is_new a \<longrightarrow>
    \<not> invoice_taken db (ws_id p) (inv_number i) \<and> length (inv_number i) \<le> number_limit \<and>
    acquired_workspace_and_key (inv_number i) = Inr (Some (ws_id w, key)) \<and>
    billed_workspace_and_period (inv_number i) = None \<and> is_platform_bill (inv_number i) = Inr True" by blast
qed

text \<open>
  A trial is had once: after an acquisition that gave one, no later acquisition of the same
  add-on by the same workspace gives another, whatever became of the entitlement, as long as its
  row has not been deleted.
\<close>

theorem trial_had_once:
  assumes "acquire e reg check db w key user actor = (Inr a, db')" "invoices_ok db" "0 < aq_trial_days a"
    "require_manageable reg key actor = Inr m" "ext_ok db" "quiet (on_activate m)"
    "\<And>r. r \<in> set (entitlements db') \<Longrightarrow> \<exists>r' \<in> set (entitlements db2). en_workspace r' = en_workspace r \<and> en_key r' = en_key r"
    "acquire e2 reg2 check2 db2 w key user2 actor2 = (Inr a2, db3)" "invoices_ok db2"
  shows "\<not> has_held db (ws_id w) key \<and> aq_trial_days a2 = 0"
proof -
  have "\<not> has_held db (ws_id w) key \<and> has_held db' (ws_id w) key"
    using assms(1,2)
  proof (cases rule: acquire_cases)
    case (trial plan r)
    with entitle_Inr [OF trial(6) assms(4-6)] show ?thesis
      by (auto simp: trial_days_of_def has_held_def bought_def Let_def split: if_splits)
  qed (use assms(3) in \<open>simp_all add: invoice_answer_def\<close>)
  moreover from this have held: "has_held db2 (ws_id w) key" using assms(7) by (fastforce simp: has_held_def list_ex_iff)
  have "aq_trial_days a2 = 0"
    using assms(8,9)
  proof (cases rule: acquire_cases)
    case (trial plan r)
    with held show ?thesis by (simp add: trial_days_of_def)
  qed (simp_all add: invoice_answer_def)
  ultimately show ?thesis by simp
qed

text \<open>
  What a workspace has been told it has is there: when an acquisition entitles, the workspace is
  entitled at that moment and the extension is available to its next request.
\<close>

theorem acquired_is_usable:
  assumes "acquire e reg (Some (entitlement_check e)) db w key user actor = (Inr a, db')" "invoices_ok db"
    "require_manageable reg key actor = Inr m" "ext_ok db" "quiet (on_activate m)" "aq_entitlement a = Some r"
    "key \<notin> set (active_keys db (ws_id w))"
  shows "is_entitled e db' (Some (ws_id w)) key \<and>
    fst (is_available e' reg (Some (entitlement_check e)) db' (Some (ws_id w)) key)"
proof -
  have main: "is_entitled e db' (Some (ws_id w)) key \<and>
      fst (is_available e' reg (Some (entitlement_check e)) db' (Some (ws_id w)) key)"
    if t: "entitle e reg (Some (entitlement_check e)) db1 w key plan user start pe actor = (Inr r, db')"
      and f: "ext_records db1 = ext_records db" and pe: "case pe of None \<Rightarrow> True | Some t \<Rightarrow> now e \<le> t"
    for db1 plan start pe
  proof -
    have ok1: "ext_ok db1" using assms(4) f by (simp add: ext_ok_def)
    note en = entitle_Inr [OF t assms(3) ok1 assms(5)]
    let ?db = "db1\<lparr>entitlements := entitlements db1 @ [r]\<rparr>"
    from en(5) obtain x where a: "activate e reg (Some (entitlement_check e)) ?db (ws_id w) key user None actor = Inr (x, db')" ..
    have ok2: "ext_ok ?db" using ok1 by (simp add: ext_ok_def)
    have na: "key \<notin> set (active_keys ?db (ws_id w))" using assms(7) active_keys_cong [of ?db db "ws_id w"] f by simp
    have "live e (now e) r"
      using en(1,2) pe by (auto simp: live_def bought_def days_delta_def Let_def split: option.splits)
    then have "is_entitled e db' (Some (ws_id w)) key"
      using en(1,3) by (simp add: is_entitled_def entitled_at_def bought_def)
    with platform_backend.activate_available [OF a assms(3) ok2 assms(5) na] show ?thesis by blast
  qed
  from assms(1,2) show ?thesis
  proof (cases rule: acquire_cases)
    case (free plan r')
    with main assms(6) show ?thesis by simp
  next
    case (trial plan r')
    with main assms(6) show ?thesis by (simp add: days_delta_def)
  next
    case (later plan r' db1 x)
    have "ext_records db1 = ext_records db" using issue_bill_cases [OF later(5) assms(2)] by (simp add: bill_frame_def)
    moreover have "now e \<le> add_months (now e) DEFERRED_MONTHS" using add_months_later [of 1 "now e"] by (simp add: DEFERRED_MONTHS_def)
    moreover have "r' = r" using later(7) assms(6) by simp
    ultimately show ?thesis using main later(6) by simp
  qed (use assms(6) in \<open>simp_all add: invoice_answer_def\<close>)
qed

subsection \<open>What is shown and what is charged\<close>

lemma setdefault_fold:
  "map_of (fold (\<lambda>p entries. if c p \<in> fst ` set entries then entries else entries @ [(c p, f p)]) ps es) k
    = (case map_of es k of Some x \<Rightarrow> Some x | None \<Rightarrow> map_option f (first (filter (\<lambda>p. c p = k) ps)))"
proof (induction ps arbitrary: es)
  case Nil
  show ?case by (simp split: option.split)
next
  case (Cons p ps)
  show ?case
  proof (cases "c p \<in> fst ` set es")
    case True
    then have "c p = k \<Longrightarrow> map_of es k \<noteq> None" by (simp add: map_of_eq_None_iff)
    with Cons True show ?thesis by (auto split: option.splits)
  next
    case False
    then have "map_of es (c p) = None" by (simp add: map_of_eq_None_iff)
    with Cons False show ?thesis by (auto simp: map_add_def split: option.splits)
  qed
qed

lemma price_list_plan:
  assumes "map_of (price_list e db w) key = Some row" "get_platform_workspace e db = Some platform"
  obtains plan where "plan_for e db key = Some plan" "row = price_row_of (currency_code_of (Some platform))
      (currency_code_of (Some w)) (case convert e db 1 (currency_code_of (Some platform)) (currency_code_of (Some w)) (Some (today e)) of
        Inl _ \<Rightarrow> None | Inr r \<Rightarrow> Some r)
      (bill_places (fst (currency_row db (currency_code_of (Some w)) False)))
      (map en_key (filter (\<lambda>r. en_workspace r = ws_id w) (entitlements db))) plan"
proof -
  let ?ps = "sort_key pl_id (filter (\<lambda>p. pl_workspace p = ws_id platform \<and> pl_active p
             \<and> pl_code p \<noteq> PLAN_CODE_BASE_PLAN) (plans db))"
  let ?f = "price_row_of (currency_code_of (Some platform))
      (currency_code_of (Some w)) (case convert e db 1 (currency_code_of (Some platform)) (currency_code_of (Some w)) (Some (today e)) of
        Inl _ \<Rightarrow> None | Inr r \<Rightarrow> Some r)
      (bill_places (fst (currency_row db (currency_code_of (Some w)) False)))
      (map en_key (filter (\<lambda>r. en_workspace r = ws_id w) (entitlements db)))"
  have "map_of (price_list e db w) key = map_option ?f (first (filter (\<lambda>p. pl_code p = key) ?ps))"
    using assms(2) by (simp add: price_list_def Let_def setdefault_fold)
  with assms(1) obtain plan where f: "first (filter (\<lambda>p. pl_code p = key) ?ps) = Some plan" and row: "row = ?f plan"
    by auto
  have ne: "key \<noteq> PLAN_CODE_BASE_PLAN" using first_filter_SomeD [OF f] by auto
  have "filter (\<lambda>p. pl_code p = key) ?ps = sort_key pl_id (filter (\<lambda>p. pl_workspace p = ws_id platform \<and> pl_code p = key \<and> pl_active p) (plans db))"
    unfolding filter_sort filter_filter by (rule arg_cong [where f = "sort_key pl_id"], rule filter_cong) (use ne in auto)
  with f assms(2) have "plan_for e db key = Some plan" by (simp add: plan_for_def earliest_by_def)
  with row that show ?thesis by blast
qed

text \<open>The workspaces table: a key each.\<close>

definition workspaces_ok :: "platform_db \<Rightarrow> bool" where
  "workspaces_ok db \<longleftrightarrow> distinct (map ws_id (workspaces db))"

lemma workspace_by_id_mem: "workspaces_ok db \<Longrightarrow> v \<in> set (workspaces db) \<Longrightarrow> workspace_by_id db (ws_id v) = Some v"
proof -
  assume ok: "workspaces_ok db" and v: "v \<in> set (workspaces db)"
  then obtain u where u: "workspace_by_id db (ws_id v) = Some u"
    by (cases "workspace_by_id db (ws_id v)") (auto simp: workspace_by_id_def filter_empty_conv)
  then have "u \<in> set (workspaces db)" "ws_id u = ws_id v" by (auto simp: workspace_by_id_def dest: first_filter_SomeD)
  with ok v have "u = v" by (auto simp: workspaces_ok_def distinct_map inj_on_def)
  with u show ?thesis by simp
qed

lemma issue_bill_price:
  assumes "issue_bill e db w key plan = (Inr i, db')" "invoices_ok db" "get_platform_workspace e db = Some platform"
    "find_currency db (currency_code_of (Some w)) = Some cur"
  shows "\<exists>rate. convert e db 1 (currency_code_of (workspace_by_id db (pl_workspace plan))) (currency_code_of (Some w)) (Some (today e)) = Inr rate \<and>
    inv_subtotal i = round_to (pl_price plan * rate) (min (decimal_places cur) 2)"
proof -
  have cr: "currency_row db (currency_code_of (Some w)) True = (Some cur, db)" using assms(4) by (simp add: currency_row_def)
  from assms(1,3) cr obtain owner rate where rate: "convert e db 1 (currency_code_of (workspace_by_id db (pl_workspace plan)))
      (currency_code_of (Some w)) (Some (today e)) = Inr rate"
    and t: "try_numbers e (addon_bill_of e db platform owner w key plan cur rate) (ws_id w) key NUMBER_ATTEMPTS db = (Inr i, db')"
    by (auto simp: issue_bill_def Let_def split: option.splits sum.splits)
  have att: "NUMBER_ATTEMPTS = Suc 2" by (simp add: NUMBER_ATTEMPTS_def)
  from t obtain number where w: "write_addon_bill e (addon_bill_of e db platform owner w key plan cur rate) number db = Inr (i, db')"
    unfolding att try_numbers_first by (auto split: sum.splits)
  from write_addon_bill_Inr(9) [OF w assms(2)] rate show ?thesis by (auto simp: addon_bill_of_def Let_def)
qed

text \<open>
  What a workspace is shown is what it gets. For an add-on on its price list whose price is more
  than nothing and that it has no unpaid bill for, the trial shown is the trial given; and the month
  it is billed for is the amount shown in its own currency, once that currency is on file.
\<close>

theorem price_list_is_charged:
  assumes "map_of (price_list e db w) key = Some row" "acquire e reg check db w key user actor = (Inr a, db')"
    "invoices_ok db" "workspaces_ok db" "get_platform_workspace e db = Some platform"
    "plan_for e db key = Some plan" "0 < pl_price plan" "outstanding_invoice e db (ws_id w) key = None"
  shows "aq_trial_days a = pr_trial_days row \<and>
    (\<forall>i cur. aq_invoice a = Some i \<and> find_currency db (currency_code_of (Some w)) = Some cur \<longrightarrow>
       pr_workspace_amount row = Some (show_fixed (min (decimal_places cur) 2) (inv_subtotal i)))"
proof -
  from price_list_plan [OF assms(1,5)] assms(6) obtain held where
    row: "row = price_row_of (currency_code_of (Some platform))
      (currency_code_of (Some w)) (case convert e db 1 (currency_code_of (Some platform)) (currency_code_of (Some w)) (Some (today e)) of
        Inl _ \<Rightarrow> None | Inr r \<Rightarrow> Some r) (bill_places (fst (currency_row db (currency_code_of (Some w)) False))) held plan"
    and held: "held = map en_key (filter (\<lambda>r. en_workspace r = ws_id w) (entitlements db))" by auto
  have code: "pl_code plan = key" "pl_workspace plan = ws_id platform"
    using assms(5,6) by (auto simp: plan_for_def dest!: earliest_by_in)
  have h: "(pl_code plan \<in> set held) = has_held db (ws_id w) key"
    by (auto simp: held code has_held_def list_ex_iff)
  have pw: "workspace_by_id db (pl_workspace plan) = Some platform"
    using workspace_by_id_mem [OF assms(4)] platform_workspace_in [OF assms(5)] by (simp add: code)
  from assms(2,3) show ?thesis
  proof (cases rule: acquire_cases)
    case (bill plan' i)
    with assms(6) have "plan' = plan" by simp
    with bill have b: "issue_bill e db w key plan = (Inr i, db')" "trial_days_of plan (has_held db (ws_id w) key) = 0" by simp_all
    have "pr_workspace_amount row = Some (show_fixed (min (decimal_places cur) 2) (inv_subtotal i))"
      if c: "find_currency db (currency_code_of (Some w)) = Some cur" for cur
      using issue_bill_price [OF b(1) assms(3,5) c] c
      by (auto simp: row price_row_of_def pw currency_row_def bill_places_def)
    with bill b h show ?thesis by (simp add: row price_row_of_def invoice_answer_def)
  qed (use assms(6-8) h in \<open>auto simp: row price_row_of_def\<close>)
qed

end
