(* ===== verification/Renewals.thy ===== *)
theory Renewals
  imports Acquisitions
begin

text \<open>
  \<open>services/renewals.py\<close> and \<open>platform/handlers.py\<close>: what a paid bill of the platform buys. A month's
  bill gives each entitlement it charged for its next period; an add-on's bill gives the first.
  The query that decides what is charged here and the one the bill was priced by are two pieces of
  code; a property below shows they choose the same rows.
\<close>

definition RENEWAL_MONTHS :: int where
  "RENEWAL_MONTHS = 1"

definition RENEWED_REASON :: string where
  "RENEWED_REASON = ''renewed for the following period''"

definition already_renewed :: "platform_db \<Rightarrow> nat \<Rightarrow> string \<Rightarrow> moment \<Rightarrow> bool" where
  "already_renewed db w key period_end = list_ex (\<lambda>r. en_workspace r = w \<and> en_key r = key \<and>
     en_source r = Purchased \<and> current_period_end r = Some period_end) (entitlements db)"

definition write_first_period :: "env \<Rightarrow> platform_db \<Rightarrow> nat \<Rightarrow> string \<Rightarrow> date \<Rightarrow> entitlement list \<times> platform_db" where
  "write_first_period e db w key issued =
    (let period_end = add_months (midnight issued) RENEWAL_MONTHS in
     if already_renewed db w key period_end then ([], db)
     else let r = new_entitlement db w key (map_option pl_id (plan_for e db key)) Purchased
            (midnight issued) (Some period_end) ''''
       in ([r], db\<lparr>entitlements := entitlements db @ [r]\<rparr>))"

definition charged_rows :: "env \<Rightarrow> platform_db \<Rightarrow> nat \<Rightarrow> date \<Rightarrow> entitlement list" where
  "charged_rows e db w period_start = sort_key (\<lambda>r. (en_key r, en_id r))
     (filter (\<lambda>r. en_workspace r = w \<and> in_bounds (renewal_period_bounds e period_start) r \<and>
        en_source r = Purchased \<and> en_plan r \<noteq> None) (entitlements db))"

definition period_after :: "entitlement \<Rightarrow> moment" where
  "period_after r = add_months (the (current_period_end r)) RENEWAL_MONTHS"

definition next_period :: "nat \<Rightarrow> nat \<Rightarrow> entitlement \<Rightarrow> entitlement" where
  "next_period i w r = \<lparr>en_id = i, en_workspace = w, en_key = en_key r, en_plan = en_plan r,
     en_source = Purchased, starts_at = the (current_period_end r), current_period_end = Some (period_after r),
     grace_until = None, en_status = Ent_Active, en_reason = '''', ended_reason = ''''\<rparr>"

definition settle :: "entitlement \<Rightarrow> entitlement" where
  "settle r = r\<lparr>en_status := Ent_Ended, ended_reason := RENEWED_REASON\<rparr>"

definition write_next_periods :: "env \<Rightarrow> platform_db \<Rightarrow> nat \<Rightarrow> date \<Rightarrow> entitlement list \<times> platform_db" where
  "write_next_periods e db w period_start =
    (let due = filter (\<lambda>r. \<not> already_renewed db w (en_key r) (period_after r)) (charged_rows e db w period_start);
         i = fresh_id en_id (entitlements db);
         written = map (\<lambda>(k, r). next_period (i + k) w r) (enumerate 0 due);
         settled = map en_id (filter (\<lambda>r. en_status r = Ent_Grace) due) in
     if written = [] then ([], db)
     else (written, db\<lparr>entitlements := update_where (\<lambda>r. en_id r \<in> set settled \<and> en_status r = Ent_Grace) settle
       (entitlements db @ written)\<rparr>))"

text \<open>The two answers a workspace is stopped by, dropped once the transaction has committed.\<close>

definition forget_answers :: "nat \<Rightarrow> platform_db \<Rightarrow> platform_db" where
  "forget_answers w db = forget_read_only w (forget_overdue w db)"

definition invoice_by_id :: "platform_db \<Rightarrow> nat \<Rightarrow> invoice option" where
  "invoice_by_id db i = first (filter (\<lambda>v. inv_id v = i) (invoices db))"

text \<open>The read before the lock: who the bill is for and what it bought.\<close>

datatype bought_by_bill = A_Month date | An_Addon string date

definition bill_buys :: "env \<Rightarrow> platform_db \<Rightarrow> nat \<Rightarrow> value_error + (string \<times> nat \<times> bought_by_bill) option" where
  "bill_buys e db i = (case get_platform_workspace e db of
     None \<Rightarrow> Inr None
   | Some platform \<Rightarrow>
     (case first (filter (\<lambda>v. inv_id v = i \<and> inv_workspace v = ws_id platform) (invoices db)) of
        None \<Rightarrow> Inr None
      | Some v \<Rightarrow>
        (case billed_workspace_and_period (inv_number v) of
           Some (w, p) \<Rightarrow> Inr (Some (inv_number v, w, A_Month p))
         | None \<Rightarrow> bind_r (acquired_workspace_and_key (inv_number v)) (\<lambda>a.
             Inr (map_option (\<lambda>(w, k). (inv_number v, w, An_Addon k (issue_date v))) a)))))"

definition renew_for_invoice :: "env \<Rightarrow> platform_db \<Rightarrow> nat \<Rightarrow> value_error + (entitlement list \<times> platform_db)" where
  "renew_for_invoice e db i = bind_r (bill_buys e db i) (\<lambda>b. case b of
     None \<Rightarrow> Inr ([], db)
   | Some (number, w, what) \<Rightarrow>
       if map_option inv_status (invoice_by_id db i) \<noteq> Some Inv_Paid then Inr ([], db)
       else let (rows, db) = (case what of A_Month p \<Rightarrow> write_next_periods e db w p
              | An_Addon k issued \<Rightarrow> write_first_period e db w k issued)
         in Inr (rows, forget_answers w db))"

subsection \<open>The listeners\<close>

text \<open>\<open>after_commit\<close> logs what the renewal raises instead of raising it.\<close>

definition queue_renewal :: "env \<Rightarrow> platform_db \<Rightarrow> nat option \<Rightarrow> platform_db" where
  "queue_renewal e db i = (case i of None \<Rightarrow> db
     | Some i \<Rightarrow> (case renew_for_invoice e db i of Inl _ \<Rightarrow> db | Inr (_, db') \<Rightarrow> db'))"

definition on_invoice_paid :: "env \<Rightarrow> platform_db \<Rightarrow> invoice option \<Rightarrow> platform_db" where
  "on_invoice_paid e db v = queue_renewal e db (map_option inv_id v)"

text \<open>The payment's invoice, when it has one.\<close>

definition on_payment_completed :: "env \<Rightarrow> platform_db \<Rightarrow> nat option \<Rightarrow> platform_db" where
  "on_payment_completed e db payment_invoice = queue_renewal e db payment_invoice"

definition on_invoice_saved :: "env \<Rightarrow> platform_db \<Rightarrow> invoice \<Rightarrow> bool \<Rightarrow> value_error + platform_db" where
  "on_invoice_saved e db v raw = (if raw \<or> inv_status v \<noteq> Inv_Paid then Inr db
     else bind_r (is_platform_bill (inv_number v)) (\<lambda>b.
       Inr (if \<not> b then db else queue_renewal e db (Some (inv_id v)))))"

subsection \<open>Periods and months\<close>

lemma in_bounds_month: "in_bounds (renewal_period_bounds e d) r \<longleftrightarrow>
    (\<exists>p. current_period_end r = Some p \<and> month_index (day_of p) = month_index d)"
  using in_month [of e d] by (auto simp: in_bounds_def renewal_period_bounds_def case_prod_beta Let_def midnight_le
      less_midnight split: option.splits)

lemma charged_row:
  assumes "r \<in> set (charged_rows e db w d)"
  shows "r \<in> set (entitlements db)" "en_workspace r = w" "en_source r = Purchased" "en_plan r \<noteq> None"
    "current_period_end r = Some (the (current_period_end r))" "month_index (day_of (the (current_period_end r))) = month_index d"
    "month_index (day_of (period_after r)) = month_index d + 1" "the (current_period_end r) < period_after r"
  using assms by (auto simp: charged_rows_def in_bounds_month period_after_def month_index_add_months RENEWAL_MONTHS_def
      add_months_later)

text \<open>Every plan an entitlement points to is on file.\<close>

definition plans_linked :: "platform_db \<Rightarrow> bool" where
  "plans_linked db \<longleftrightarrow> (\<forall>r \<in> set (entitlements db). en_plan r \<noteq> None \<longrightarrow> plan_by_id db (en_plan r) \<noteq> None)"

lemma charged_chargeable:
  assumes "plans_linked db"
  shows "charged_rows e db w d = filter (chargeable db) (renewals_for db (renewal_period_bounds e d) w)"
proof -
  have "chargeable db r \<longleftrightarrow> en_source r = Purchased \<and> en_plan r \<noteq> None" if "r \<in> set (entitlements db)" for r
    using assms that by (cases "en_source r"; cases "en_plan r") (auto simp: chargeable_def plans_linked_def plan_by_id_def)
  then show ?thesis
    unfolding charged_rows_def renewals_for_def filter_sort filter_filter
    by (intro arg_cong [where f = "sort_key (\<lambda>r. (en_key r, en_id r))"] filter_cong) auto
qed

text \<open>
  What a paid month renews is what its bill charged for: the rows the renewal chooses are, in
  the same order, the rows the monthly run wrote a renewal line for.
\<close>

theorem charged_is_billed:
  assumes "plans_linked db"
  shows "charged_rows e db w d = filter (chargeable db) (renewals_for db (renewal_period_bounds e d) w)"
  using assms by (rule charged_chargeable)

subsection \<open>What is written\<close>

definition due_rows :: "env \<Rightarrow> platform_db \<Rightarrow> nat \<Rightarrow> date \<Rightarrow> entitlement list" where
  "due_rows e db w d = filter (\<lambda>r. \<not> already_renewed db w (en_key r) (period_after r)) (charged_rows e db w d)"

lemma due_row: "r \<in> set (due_rows e db w d) \<Longrightarrow> r \<in> set (charged_rows e db w d) \<and>
    \<not> already_renewed db w (en_key r) (period_after r)"
  by (simp add: due_rows_def)

lemma settle_fields [simp]: "en_id (settle r) = en_id r" "en_workspace (settle r) = en_workspace r"
  "en_key (settle r) = en_key r" "en_plan (settle r) = en_plan r" "en_source (settle r) = en_source r"
  "current_period_end (settle r) = current_period_end r"
  by (simp_all add: settle_def)

lemma next_period_fields [simp]: "en_id (next_period i w r) = i" "en_workspace (next_period i w r) = w"
  "en_key (next_period i w r) = en_key r" "en_plan (next_period i w r) = en_plan r"
  "en_source (next_period i w r) = Purchased" "current_period_end (next_period i w r) = Some (period_after r)"
  "starts_at (next_period i w r) = the (current_period_end r)" "en_status (next_period i w r) = Ent_Active"
  by (simp_all add: next_period_def)

lemma write_next_periods_spec:
  assumes "write_next_periods e db w d = (rows, db')" "ent_ok db"
  shows "rows = map (\<lambda>(k, r). next_period (fresh_id en_id (entitlements db) + k) w r) (enumerate 0 (due_rows e db w d))"
    "entitlements db' = update_where (\<lambda>r. r \<in> set (due_rows e db w d) \<and> en_status r = Ent_Grace) settle (entitlements db) @ rows"
    "db' = db\<lparr>entitlements := entitlements db'\<rparr>"
proof -
  let ?due = "due_rows e db w d" and ?i = "fresh_id en_id (entitlements db)"
  let ?written = "map (\<lambda>(k, r). next_period (?i + k) w r) (enumerate 0 ?due)"
  let ?S = "set (map en_id (filter (\<lambda>r. en_status r = Ent_Grace) ?due))"
  have res: "(rows, db') = (if ?written = [] then ([], db)
      else (?written, db\<lparr>entitlements := update_where (\<lambda>r. en_id r \<in> ?S \<and> en_status r = Ent_Grace) settle (entitlements db @ ?written)\<rparr>))"
    unfolding assms(1) [symmetric] write_next_periods_def Let_def due_rows_def [symmetric] ..
  have sub: "set ?due \<subseteq> set (entitlements db)" using due_row charged_row(1) by blast
  have old: "update_where (\<lambda>r. en_id r \<in> ?S \<and> en_status r = Ent_Grace) settle (entitlements db)
      = update_where (\<lambda>r. r \<in> set ?due \<and> en_status r = Ent_Grace) settle (entitlements db)"
  proof -
    have "en_id r \<in> ?S \<longleftrightarrow> r \<in> set ?due \<and> en_status r = Ent_Grace"
      if "r \<in> set (entitlements db)" "en_status r = Ent_Grace" for r
      using that sub assms(2) by (auto simp: ent_ok_def distinct_map inj_on_def)
    then show ?thesis unfolding update_where_def by (intro map_cong refl if_cong) blast+
  qed
  have new: "update_where (\<lambda>r. en_id r \<in> ?S \<and> en_status r = Ent_Grace) settle ?written = ?written"
  proof (rule update_where_none)
    fix n assume "n \<in> set ?written"
    then have "en_status n = Ent_Active" by auto
    then show "\<not> (en_id n \<in> ?S \<and> en_status n = Ent_Grace)" by simp
  qed
  show rows: "rows = ?written" using res by (auto split: if_splits)
  show "entitlements db' = update_where (\<lambda>r. r \<in> set ?due \<and> en_status r = Ent_Grace) settle (entitlements db) @ rows"
  proof (cases "?due = []")
    case True
    with res show ?thesis by (simp add: update_where_none)
  next
    case False
    then have "?written \<noteq> []" by (cases ?due) simp_all
    with res have "entitlements db' = update_where (\<lambda>r. en_id r \<in> ?S \<and> en_status r = Ent_Grace) settle (entitlements db @ ?written)"
      by (simp only: if_False Pair_inject) simp
    then show ?thesis by (simp only: update_where_simps old new rows)
  qed
  show "db' = db\<lparr>entitlements := entitlements db'\<rparr>" using res by (auto split: if_splits)
qed

lemma rows_after:
  assumes "write_next_periods e db w d = (rows, db')" "ent_ok db"
  shows "list_all2 (\<lambda>r n. \<exists>i. n = next_period i w r) (due_rows e db w d) rows"
    "r \<in> set (due_rows e db w d) \<Longrightarrow> \<exists>n \<in> set rows. \<exists>i. n = next_period i w r"
    "n \<in> set rows \<Longrightarrow> \<exists>r \<in> set (due_rows e db w d). \<exists>i. n = next_period i w r"
proof -
  show a: "list_all2 (\<lambda>r n. \<exists>i. n = next_period i w r) (due_rows e db w d) rows"
    unfolding write_next_periods_spec(1) [OF assms] by (auto simp: list_all2_conv_all_nth nth_enumerate_eq)
  show "r \<in> set (due_rows e db w d) \<Longrightarrow> \<exists>n \<in> set rows. \<exists>i. n = next_period i w r"
    "n \<in> set rows \<Longrightarrow> \<exists>r \<in> set (due_rows e db w d). \<exists>i. n = next_period i w r"
    using a by (fastforce simp: list_all2_conv_all_nth in_set_conv_nth)+
qed

text \<open>Nothing a renewal wrote is renewed again by the same bill.\<close>

lemma due_rows_again:
  assumes "write_next_periods e db w d = (rows, db')" "ent_ok db" "entitlements db2 = entitlements db'"
  shows "due_rows e2 db2 w d = []"
proof (rule ccontr)
  assume "due_rows e2 db2 w d \<noteq> []"
  then obtain r where "r \<in> set (due_rows e2 db2 w d)" by (meson last_in_set)
  note r = due_row [OF this]
  note c = charged_row [OF conjunct1 [OF r]]
  note sp = write_next_periods_spec [OF assms(1,2)]
  have new: "n \<in> set rows \<Longrightarrow> n \<in> set (entitlements db2)" for n by (simp add: assms(3) sp(2))
  have kept: "already_renewed db w k p \<Longrightarrow> already_renewed db2 w k p" for k p
    unfolding already_renewed_def assms(3) sp(2) list_ex_append list_ex_update_where
    by (simp add: list_ex_iff) blast
  from c(1) consider "r \<in> set rows" | r0 where "r0 \<in> set (entitlements db)" "r = r0 \<or> r = settle r0"
    by (auto simp: assms(3) sp(2) set_update_where split: if_splits)
  then show False
  proof cases
    case 1
    from rows_after(3) [OF assms(1,2) this] obtain q i where "q \<in> set (due_rows e db w d)" "r = next_period i w q" by blast
    with charged_row(7) [of q e db w d] due_row [of q e db w d] c(6) show False by simp
  next
    case (2 r0)
    have same: "en_key r0 = en_key r" "period_after r0 = period_after r" "r0 \<in> set (charged_rows e db w d)"
      using 2 conjunct1 [OF r] by (auto simp: period_after_def charged_rows_def in_bounds_month)
    show False
    proof (cases "already_renewed db w (en_key r0) (period_after r0)")
      case True
      with kept same r show False by simp
    next
      case False
      with same have "r0 \<in> set (due_rows e db w d)" by (simp add: due_rows_def)
      from rows_after(2) [OF assms(1,2) this] obtain n i where "n \<in> set rows" "n = next_period i w r0" by blast
      with new have "already_renewed db2 w (en_key r0) (period_after r0)"
        by (auto simp: already_renewed_def list_ex_iff intro!: bexI [of _ n])
      with same r show False by simp
    qed
  qed
qed

lemma write_next_again:
  assumes "write_next_periods e db w d = (rows, db')" "ent_ok db" "entitlements db2 = entitlements db'"
  shows "write_next_periods e2 db2 w d = ([], db2)"
  using due_rows_again [OF assms] unfolding write_next_periods_def due_rows_def [symmetric] by simp

lemma write_first_again:
  assumes "write_first_period e db w k issued = (rows, db')" "entitlements db2 = entitlements db'"
  shows "write_first_period e2 db2 w k issued = ([], db2)"
  using assms by (auto simp: write_first_period_def Let_def already_renewed_def new_entitlement_def split: if_splits)

lemma forget_answers_again: "forget_answers w (forget_answers w db) = forget_answers w db"
  by (simp add: forget_answers_def forget_read_only_def forget_overdue_def cache_delete_def fun_upd_twist)

lemma forget_answers_tables [simp]: "entitlements (forget_answers w db) = entitlements db"
  "invoices (forget_answers w db) = invoices db" "workspaces (forget_answers w db) = workspaces db"
  "plans (forget_answers w db) = plans db" "invoice_items (forget_answers w db) = invoice_items db"
  by (simp_all add: forget_answers_def forget_read_only_def forget_overdue_def)

lemma bill_buys_cong: "invoices db' = invoices db \<Longrightarrow> workspaces db' = workspaces db \<Longrightarrow> platform_slug e' = platform_slug e \<Longrightarrow>
    bill_buys e' db' i = bill_buys e db i"
  by (simp add: bill_buys_def get_platform_workspace_def cong: option.case_cong)

lemma renew_for_invoice_cases:
  assumes "renew_for_invoice e db i = Inr (rows, db')"
  obtains (idle) "rows = []" "db' = db" "\<And>n w what. bill_buys e db i = Inr (Some (n, w, what)) \<Longrightarrow>
      map_option inv_status (invoice_by_id db i) \<noteq> Some Inv_Paid"
  | (month) n w d db1 where "bill_buys e db i = Inr (Some (n, w, A_Month d))" "map_option inv_status (invoice_by_id db i) = Some Inv_Paid"
      "write_next_periods e db w d = (rows, db1)" "db' = forget_answers w db1"
  | (addon) n w k issued db1 where "bill_buys e db i = Inr (Some (n, w, An_Addon k issued))"
      "map_option inv_status (invoice_by_id db i) = Some Inv_Paid"
      "write_first_period e db w k issued = (rows, db1)" "db' = forget_answers w db1"
proof -
  from assms obtain b where b: "bill_buys e db i = Inr b" by (auto simp: renew_for_invoice_def bind_r_Inr)
  show ?thesis
  proof (cases "b = None \<or> map_option inv_status (invoice_by_id db i) \<noteq> Some Inv_Paid")
    case True
    have *: "rows = [] \<and> db' = db" using assms b True by (cases b) (auto simp: renew_for_invoice_def)
    show ?thesis by (rule idle) (use * b True in auto)
  next
    case False
    then obtain n w what where bb: "b = Some (n, w, what)" by (cases b) auto
    show ?thesis
    proof (cases what)
      case (A_Month d)
      obtain r1 db1 where "write_next_periods e db w d = (r1, db1)" by fastforce
      with assms b bb False A_Month month show ?thesis by (auto simp: renew_for_invoice_def)
    next
      case (An_Addon k issued)
      obtain r1 db1 where "write_first_period e db w k issued = (r1, db1)" by fastforce
      with assms b bb False An_Addon addon show ?thesis by (auto simp: renew_for_invoice_def)
    qed
  qed
qed

lemma write_first_tables: "write_first_period e db w k issued = (rows, db1) \<Longrightarrow> db1 = db\<lparr>entitlements := entitlements db1\<rparr>"
  by (auto simp: write_first_period_def Let_def split: if_splits)

lemma renew_again:
  assumes "renew_for_invoice e db i = Inr (rows, db')" "ent_ok db" "platform_slug e' = platform_slug e"
  shows "renew_for_invoice e' db' i = Inr ([], db')"
  using assms(1)
proof (cases rule: renew_for_invoice_cases)
  case idle
  from assms(1) obtain b where "bill_buys e db i = Inr b" by (auto simp: renew_for_invoice_def bind_r_Inr)
  with bill_buys_cong [of db db e' e i] assms(3) idle(3) show ?thesis
    unfolding idle(2) by (cases b) (auto simp: renew_for_invoice_def)
next
  case (month n w d db1)
  have t: "invoices db1 = invoices db" "workspaces db1 = workspaces db"
    using write_next_periods_spec(3) [OF month(3) assms(2)] by (metis platform_db.select_convs platform_db.surjective platform_db.update_convs(8))+
  have "bill_buys e' db' i = Inr (Some (n, w, A_Month d))"
    using month(1) bill_buys_cong [of db' db e' e i] assms(3) by (simp add: month(4) t)
  moreover have "invoice_by_id db' i = invoice_by_id db i" by (simp add: invoice_by_id_def month(4) t)
  moreover have "write_next_periods e' db' w d = ([], db')"
    by (rule write_next_again [OF month(3) assms(2)]) (simp add: month(4))
  ultimately show ?thesis using month(2,4) by (simp add: renew_for_invoice_def forget_answers_again)
next
  case (addon n w k issued db1)
  have t: "invoices db1 = invoices db" "workspaces db1 = workspaces db"
    using write_first_tables [OF addon(3)] by (metis platform_db.select_convs platform_db.surjective platform_db.update_convs(8))+
  have "bill_buys e' db' i = Inr (Some (n, w, An_Addon k issued))"
    using addon(1) bill_buys_cong [of db' db e' e i] assms(3) by (simp add: addon(4) t)
  moreover have "invoice_by_id db' i = invoice_by_id db i" by (simp add: invoice_by_id_def addon(4) t)
  moreover have "write_first_period e' db' w k issued = ([], db')"
    by (rule write_first_again [OF addon(3)]) (simp add: addon(4))
  ultimately show ?thesis using addon(2,4) by (simp add: renew_for_invoice_def forget_answers_again)
qed

text \<open>
  C3: A payment reported twice buys once: the second report of the same paid bill, whenever it
  comes, writes nothing at all.
\<close>

theorem renewal_idempotent:
  assumes "renew_for_invoice e db i = Inr (rows, db')" "ent_ok db" "platform_slug e' = platform_slug e"
  shows "renew_for_invoice e' db' i = Inr ([], db')"
  using assms by (rule renew_again)

text \<open>
  Only a paid bill of the platform buys anything: an invoice of anybody else, one whose number
  no bill of ours has, and one that is not paid yet or has been cancelled since, leave everything as
  it was.
\<close>

theorem only_paid_bills_buy:
  assumes "platform_slug e = [] \<or> (\<forall>v \<in> set (invoices db). inv_id v = i \<longrightarrow>
      inv_status v \<noteq> Inv_Paid \<or>
      (\<forall>p. get_platform_workspace e db = Some p \<longrightarrow> inv_workspace v \<noteq> ws_id p) \<or>
      is_platform_bill (inv_number v) = Inr False)"
    "renew_for_invoice e db i = Inr (rows, db')" "invoices_ok db"
  shows "rows = [] \<and> db' = db"
proof (rule ccontr)
  assume not: "\<not> (rows = [] \<and> db' = db)"
  from assms(2) obtain n w what where b: "bill_buys e db i = Inr (Some (n, w, what))"
      and paid: "map_option inv_status (invoice_by_id db i) = Some Inv_Paid"
    by (cases rule: renew_for_invoice_cases) (use not in auto)
  from b obtain p v where p: "get_platform_workspace e db = Some p" "v \<in> set (invoices db)" "inv_id v = i" "inv_workspace v = ws_id p"
    and num: "is_platform_bill (inv_number v) = Inr True"
    by (auto simp: bill_buys_def is_platform_bill_def bind_r_Inr split: option.splits dest!: first_filter_SomeD)
  from paid obtain u where u: "u \<in> set (invoices db)" "inv_id u = i" "inv_status u = Inv_Paid"
    by (auto simp: invoice_by_id_def dest!: first_filter_SomeD)
  then have "u = v" using p(2,3) assms(3) by (auto simp: invoices_ok_def distinct_map inj_on_def)
  with assms(1) p num u show False by (auto simp: get_platform_workspace_def)
qed

lemma write_first_spec:
  assumes "write_first_period e db w k issued = (rows, db')"
  shows "\<exists>olds. entitlements db' = entitlements db @ rows \<and> (rows = [] \<or> rows = [new_entitlement db w k
    (map_option pl_id (plan_for e db k)) Purchased (midnight issued) (Some (add_months (midnight issued) RENEWAL_MONTHS)) ''''])"
  using assms by (auto simp: write_first_period_def Let_def split: if_splits)

text \<open>
  C29: A paid month buys exactly one more month of each entitlement it charged for, unless it has
  been bought already. The new row carries the same plan, is purchased and starts at the moment the
  old period ended; it ends a month later, which is inside the month that follows the one billed,
  so that the next bill charges for it. Of the old rows nothing changes but that those in grace
  are settled.
\<close>

theorem paid_month_renews:
  assumes "renew_for_invoice e db i = Inr (rows, db')" "bill_buys e db i = Inr (Some (n, w, A_Month d))"
    "map_option inv_status (invoice_by_id db i) = Some Inv_Paid" "ent_ok db" "plans_linked db"
    "month_index d2 = month_index d + 1"
  shows "list_all2 (\<lambda>r n. en_workspace n = w \<and> en_key n = en_key r \<and> en_plan n = en_plan r \<and> en_source n = Purchased \<and>
      en_status n = Ent_Active \<and> Some (starts_at n) = current_period_end r \<and>
      current_period_end n = Some (add_months (starts_at n) 1) \<and>
      n \<in> set (charged_rows e2 db' w d2))
    (filter (\<lambda>r. \<not> already_renewed db w (en_key r) (add_months (the (current_period_end r)) 1))
      (filter (chargeable db) (renewals_for db (renewal_period_bounds e d) w))) rows \<and>
    (\<exists>olds. entitlements db' = olds @ rows \<and>
      list_all2 (\<lambda>r r'. r' = r \<or> en_status r = Ent_Grace \<and> r' = settle r) (entitlements db) olds)"
  using assms(1)
proof (cases rule: renew_for_invoice_cases)
  case (month n' w' d' db1)
  with assms(2) have m: "write_next_periods e db w d = (rows, db1)" "db' = forget_answers w db1" by simp_all
  note sp = write_next_periods_spec [OF m(1) assms(4)] and ra = rows_after [OF m(1) assms(4)]
  have due: "filter (\<lambda>r. \<not> already_renewed db w (en_key r) (add_months (the (current_period_end r)) 1))
      (filter (chargeable db) (renewals_for db (renewal_period_bounds e d) w)) = due_rows e db w d"
    by (simp only: charged_chargeable [OF assms(5), symmetric] due_rows_def period_after_def RENEWAL_MONTHS_def)
  have in_new: "n \<in> set rows \<Longrightarrow> n \<in> set (entitlements db')" for n by (simp add: m(2) sp(2))
  have "en_workspace n = w \<and> en_key n = en_key r \<and> en_plan n = en_plan r \<and> en_source n = Purchased \<and>
      en_status n = Ent_Active \<and> Some (starts_at n) = current_period_end r \<and>
      current_period_end n = Some (add_months (starts_at n) 1) \<and> n \<in> set (charged_rows e2 db' w d2)"
    if "r \<in> set (due_rows e db w d)" "n \<in> set rows" "\<exists>i. n = next_period i w r" for r n
  proof -
    from that(3) obtain i where n: "n = next_period i w r" ..
    note c = charged_row [OF conjunct1 [OF due_row [OF that(1)]]]
    have "n \<in> set (charged_rows e2 db' w d2)"
      using in_new [OF that(2)] c(4,7) assms(6) by (simp add: charged_rows_def in_bounds_month n)
    then show ?thesis using c(5) by (simp add: n period_after_def RENEWAL_MONTHS_def)
  qed
  with ra(1) have "list_all2 (\<lambda>r n. en_workspace n = w \<and> en_key n = en_key r \<and> en_plan n = en_plan r \<and> en_source n = Purchased \<and>
      en_status n = Ent_Active \<and> Some (starts_at n) = current_period_end r \<and>
      current_period_end n = Some (add_months (starts_at n) 1) \<and> n \<in> set (charged_rows e2 db' w d2)) (due_rows e db w d) rows"
    unfolding list_all2_conv_all_nth by (metis nth_mem)
  moreover have "list_all2 (\<lambda>r r'. r' = r \<or> en_status r = Ent_Grace \<and> r' = settle r) (entitlements db)
      (update_where (\<lambda>r. r \<in> set (due_rows e db w d) \<and> en_status r = Ent_Grace) settle (entitlements db))"
    by (simp add: list_all2_conv_all_nth update_where_def)
  ultimately show ?thesis unfolding due using sp(2) by (auto simp: m(2))
qed (use assms(2,3) in auto)

lemma live_new_period: "t \<le> the (current_period_end n) + days_delta (int (grace_days e)) \<Longrightarrow> en_status n = Ent_Active \<Longrightarrow>
    current_period_end n = Some p \<Longrightarrow> live e t n"
  by (auto simp: live_def Let_def)

text \<open>
  C34: Paying never takes anything away and gives what it bought at once: whatever the workspace was
  entitled to it is still entitled to after, and it is entitled to each renewed key until the end of
  the new period. Grace periods in the table are those a sweep writes.
\<close>

theorem paying_keeps_and_gives:
  assumes "renew_for_invoice e db i = Inr (rows, db')" "ent_ok db"
    "\<And>r. r \<in> set (entitlements db) \<Longrightarrow> en_status r = Ent_Grace \<Longrightarrow>
      (\<exists>p g. current_period_end r = Some p \<and> grace_until r = Some g \<and> g \<le> p + days_delta (int (grace_days e)))"
  shows "(entitled_at e t db v k \<longrightarrow> entitled_at e t db' v k) \<and>
    (\<forall>n \<in> set rows. t \<le> the (current_period_end n) \<longrightarrow> entitled_at e t db' (en_workspace n) (en_key n))"
  using assms(1)
proof (cases rule: renew_for_invoice_cases)
  case idle
  then show ?thesis by simp
next
  case (addon n w key issued db1)
  from write_first_spec [OF addon(3)] have ents: "entitlements db' = entitlements db @ rows" by (simp add: addon(4))
  have "live e t n" if "n \<in> set rows" "t \<le> the (current_period_end n)" for n
    using that write_first_spec [OF addon(3)] by (auto simp: new_entitlement_def live_def days_delta_def Let_def)
  with ents show ?thesis by (auto simp: entitled_at_def list_ex_iff)
next
  case (month n w d db1)
  note sp = write_next_periods_spec [OF month(3) assms(2)] and ra = rows_after [OF month(3) assms(2)]
  have ents: "entitlements db' = entitlements db1" by (simp add: month(4))
  have new: "n \<in> set rows \<Longrightarrow> n \<in> set (entitlements db')" for n by (simp add: ents sp(2))
  have live: "live e t n" if "n \<in> set rows" "t \<le> the (current_period_end n) + days_delta (int (grace_days e))" for n
  proof -
    from ra(3) [OF that(1)] obtain r i where "n = next_period i w r" by blast
    with that(2) show ?thesis by (intro live_new_period) simp_all
  qed
  have "entitled_at e t db' v k" if en: "entitled_at e t db v k"
  proof -
    from en obtain r where r: "r \<in> set (entitlements db)" "en_workspace r = v" "en_key r = k" "live e t r"
      by (auto simp: entitled_at_def list_ex_iff)
    show ?thesis
    proof (cases "r \<in> set (due_rows e db w d) \<and> en_status r = Ent_Grace")
      case False
      with r(1) have "r \<in> set (entitlements db')" by (force simp: ents sp(2) set_update_where)
      with r show ?thesis by (auto simp: entitled_at_def list_ex_iff)
    next
      case True
      note c = charged_row [OF conjunct1 [OF due_row [OF conjunct1 [OF True]]]]
      from ra(2) [OF conjunct1 [OF True]] obtain n i where n: "n \<in> set rows" "n = next_period i w r" by blast
      from assms(3) [OF r(1) conjunct2 [OF True]] obtain p g where g: "current_period_end r = Some p" "grace_until r = Some g"
        "g \<le> p + days_delta (int (grace_days e))" by blast
      have "t \<le> g" using r(4) g True by (simp add: live_def Let_def)
      with c(8) g n(2) have "t \<le> the (current_period_end n) + days_delta (int (grace_days e))" by simp
      from live [OF n(1) this] new [OF n(1)] n(2) r c(2) show ?thesis
        by (auto simp: entitled_at_def list_ex_iff intro!: bexI [of _ n])
    qed
  qed
  moreover have "entitled_at e t db' (en_workspace n) (en_key n)" if "n \<in> set rows" "t \<le> the (current_period_end n)" for n
    using live [OF that(1)] that(2) new [OF that(1)] by (auto simp: entitled_at_def list_ex_iff days_delta_def)
  ultimately show ?thesis by blast
qed

text \<open>
  A workspace that has just paid is stopped no longer than the facts say: after the renewal of a
  paid bill of its, the next questions whether it owes anything and whether it is read only are
  answered from the database and not from the cache.
\<close>

theorem paying_drops_the_answers:
  assumes "renew_for_invoice e db i = Inr (rows, db')" "bill_buys e db i = Inr (Some (n, w, what))"
    "map_option inv_status (invoice_by_id db i) = Some Inv_Paid"
  shows "fst (ask_overdue e2 db' w) = owes e2 db' w \<and>
    fst (ask_read_only (base_plan_entitled e2) e2 db' w) = (\<not> is_entitled e2 db' (Some w) KEY_BASE_PLAN)"
proof -
  from assms(1) obtain db1 where db': "db' = forget_answers w db1"
    by (cases rule: renew_for_invoice_cases) (use assms(2,3) in auto)
  have fo: "overdue_cache_key w \<noteq> read_only_key w" by (simp add: overdue_cache_key_def read_only_key_def)
  have none: "cache_get (now e2) (overdue_cache_key w) (cached db') = None"
    "cache_get (now e2) (read_only_key w) (cached db') = None"
    by (simp_all add: db' forget_answers_def forget_read_only_def forget_overdue_def)
  from overdue.ask_fresh [OF none(1)] read_only.ask_fresh [OF none(2)] show ?thesis by simp
qed

text \<open>
  A bill settled in several ways at once is heard as often and acted on once: after the event
  of its payment, neither the gateway's event nor the save of the paid row changes anything.
\<close>

theorem heard_more_than_once:
  assumes "inv_status v = Inv_Paid" "ent_ok db" "db1 = on_invoice_paid e db (Some v)"
    "is_platform_bill (inv_number v) = Inr b"
  shows "on_payment_completed e db1 (Some (inv_id v)) = db1 \<and> on_invoice_saved e db1 v False = Inr db1"
proof -
  have "queue_renewal e db1 (Some (inv_id v)) = db1"
  proof (cases "renew_for_invoice e db (inv_id v)")
    case (Inl x)
    with assms(3) show ?thesis by (simp add: on_invoice_paid_def queue_renewal_def)
  next
    case (Inr s)
    obtain rows db' where s: "s = (rows, db')" by fastforce
    have "db1 = db'" using assms(3) Inr s by (simp add: on_invoice_paid_def queue_renewal_def)
    with renew_again [OF Inr [unfolded s] assms(2) refl] show ?thesis by (simp add: queue_renewal_def)
  qed
  with assms(1,4) show ?thesis by (simp add: on_payment_completed_def on_invoice_saved_def)
qed

end
