(* ===== verification/Placement_Queue.thy ===== *)
theory Placement_Queue
  imports Platform_Data
begin

text \<open>
  \<open>services/placement_queue.py\<close>: reservations of room in a cluster for workspaces that are in none
  (\<open>models/cluster.py\<close>, \<open>models/control.py\<close>). A workspace's profile carries a fence that every change of
  its reservation raises, so that a worker holding the fence of an earlier reservation can be told
  apart; the queue itself never places a workspace. The rows of the control plane stand beside
  the platform's tables in \<open>control_db\<close>. The keys of requests, which are random, are handed out in
  order, which only decides between reservations that expire at the same moment.
\<close>

record cluster =
  cl_id :: string
  max_workspaces :: int
  is_accepting_new :: bool
  cl_active :: bool

datatype request_status = Reserved | Rolled_Back | Expired

record placement_request =
  rq_id :: nat
  rq_workspace :: nat
  rq_source :: "string option"
  rq_target :: string
  profile_fence :: nat
  rq_status :: request_status
  reservation_expires_at :: moment
  rq_created_by :: "nat option"
  rolled_back_at :: "moment option"

text \<open>What an event says, of the details the queue puts in one.\<close>

record placement_event =
  ev_request :: nat
  ev_sequence :: nat
  ev_type :: string
  ev_fence :: "nat option"
  ev_target :: "string option"
  ev_expires :: "moment option"

record control_audit =
  ca_action :: string
  ca_target :: nat
  ca_reason :: string
  ca_request :: nat
  ca_before :: request_status
  ca_cluster :: string
  ca_after :: request_status
  ca_fence :: nat

record control_db =
  platform :: platform_db
  clusters :: "cluster list"
  requests :: "placement_request list"
  events :: "placement_event list"
  control_audits :: "control_audit list"

datatype placement_error = Fence_Required | Target_Required | Target_Not_Found | Fence_Conflict
  | Live_Migration_Unsupported | Requires_Data_Plane | Already_Reserved | Target_Unavailable
  | Capacity_Reserved | Not_Active | No_Such_Request

definition DEFAULT_RESERVATION_SECONDS :: int where "DEFAULT_RESERVATION_SECONDS = 60 * 60"
definition MIN_RESERVATION_SECONDS :: int where "MIN_RESERVATION_SECONDS = 5 * 60"
definition MAX_RESERVATION_SECONDS :: int where "MAX_RESERVATION_SECONDS = 24 * 60 * 60"

text \<open>The configured value is \<open>None\<close> when \<open>int\<close> refuses it.\<close>

definition reservation_seconds :: "int option \<Rightarrow> int" where
  "reservation_seconds configured = (let value = (case configured of Some n \<Rightarrow> n | None \<Rightarrow> DEFAULT_RESERVATION_SECONDS)
     in max MIN_RESERVATION_SECONDS (min MAX_RESERVATION_SECONDS value))"

subsection \<open>Rows\<close>

definition event :: "nat \<Rightarrow> string \<Rightarrow> nat option \<Rightarrow> string option \<Rightarrow> moment option \<Rightarrow> control_db \<Rightarrow> control_db" where
  "event r kind fence target expires db = db\<lparr>events := events db @
     [\<lparr>ev_request = r, ev_sequence = count_where (\<lambda>v. ev_request v = r) (events db) + 1, ev_type = kind,
       ev_fence = fence, ev_target = target, ev_expires = expires\<rparr>]\<rparr>"

definition profile_for_update :: "nat \<Rightarrow> control_db \<Rightarrow> profile \<times> control_db" where
  "profile_for_update w db = (let (p, base) = get_or_create_profile (platform db) w in (p, db\<lparr>platform := base\<rparr>))"

definition save_fence :: "profile \<Rightarrow> control_db \<Rightarrow> control_db" where
  "save_fence p db = db\<lparr>platform := save_profile p (platform db)\<rparr>"

definition raised :: "profile \<Rightarrow> profile" where
  "raised p = p\<lparr>placement_fence := placement_fence p + 1\<rparr>"

definition save_request :: "placement_request \<Rightarrow> control_db \<Rightarrow> control_db" where
  "save_request r db = db\<lparr>requests := update_where (\<lambda>x. rq_id x = rq_id r) (\<lambda>_. r) (requests db)\<rparr>"

definition cluster_by_id :: "control_db \<Rightarrow> string \<Rightarrow> cluster option" where
  "cluster_by_id db c = first (filter (\<lambda>x. cl_id x = c) (clusters db))"

subsection \<open>Expiring\<close>

definition expire_request :: "placement_request \<Rightarrow> control_db \<Rightarrow> placement_request \<times> control_db" where
  "expire_request r db =
    (let (p, db) = profile_for_update (rq_workspace r) db; p = raised p; db = save_fence p db;
         r' = r\<lparr>rq_status := Expired\<rparr>; db = save_request r' db;
         db = event (rq_id r) ''reservation_expired'' (Some (placement_fence p)) None None db
     in (r', db\<lparr>control_audits := control_audits db @ [\<lparr>ca_action = ''workspace.placement_expired'',
          ca_target = rq_workspace r, ca_reason = ''Placement reservation TTL elapsed'', ca_request = rq_id r,
          ca_before = Reserved, ca_cluster = rq_target r, ca_after = Expired, ca_fence = placement_fence p\<rparr>]\<rparr>))"

definition due_for_target :: "string \<Rightarrow> moment \<Rightarrow> control_db \<Rightarrow> placement_request list" where
  "due_for_target c t db = sort_key (\<lambda>r. (reservation_expires_at r, rq_id r))
     (filter (\<lambda>r. rq_target r = c \<and> rq_status r = Reserved \<and> reservation_expires_at r \<le> t) (requests db))"

fun expire_all :: "placement_request list \<Rightarrow> control_db \<Rightarrow> placement_request list \<times> control_db" where
  "expire_all [] db = ([], db)"
| "expire_all (r # rs) db = (let (r', db) = expire_request r db; (rs', db) = expire_all rs db in (r' # rs', db))"

definition expire_reserved_for_target :: "string \<Rightarrow> moment \<Rightarrow> nat option \<Rightarrow> control_db \<Rightarrow> placement_request list \<times> control_db" where
  "expire_reserved_for_target c t limit db = (let due = due_for_target c t db
     in expire_all (case limit of None \<Rightarrow> due | Some n \<Rightarrow> take n due) db)"

fun expire_targets :: "moment \<Rightarrow> nat \<Rightarrow> string list \<Rightarrow> placement_request list \<Rightarrow> control_db \<Rightarrow> placement_request list \<times> control_db" where
  "expire_targets t limit [] expired db = (expired, db)"
| "expire_targets t limit (c # cs) expired db =
    (if limit \<le> length expired then (expired, db)
     else case cluster_by_id db c of None \<Rightarrow> expire_targets t limit cs expired db
       | Some _ \<Rightarrow> let (rs, db) = expire_reserved_for_target c t (Some (limit - length expired)) db
           in expire_targets t limit cs (expired @ rs) db)"

datatype limit_error = Bad_Limit

text \<open>The limit is \<open>None\<close> when \<open>int\<close> refuses it.\<close>

definition expire_due_reservations :: "env \<Rightarrow> int option \<Rightarrow> control_db \<Rightarrow> limit_error + (placement_request list \<times> control_db)" where
  "expire_due_reservations e limit db = (case limit of None \<Rightarrow> Inl Bad_Limit
     | Some n \<Rightarrow> if \<not> (1 \<le> n \<and> n \<le> 1000) then Inl Bad_Limit
       else Inr (expire_targets (now e) (nat n) (sort (remdups (map rq_target
         (filter (\<lambda>r. rq_status r = Reserved \<and> reservation_expires_at r \<le> now e) (requests db))))) [] db))"

subsection \<open>Reserving and releasing\<close>

definition assigned :: "control_db \<Rightarrow> string \<Rightarrow> nat" where
  "assigned db c = count_where (\<lambda>p. pf_cluster p = Some c) (profiles (platform db))"

definition live_reserved :: "control_db \<Rightarrow> moment \<Rightarrow> string \<Rightarrow> nat" where
  "live_reserved db t c = count_where (\<lambda>r. rq_target r = c \<and> rq_status r = Reserved \<and> t < reservation_expires_at r) (requests db)"

text \<open>What is asked of the workspace and the target, in order.\<close>

definition reservation_refusal :: "control_db \<Rightarrow> moment \<Rightarrow> nat \<Rightarrow> profile \<Rightarrow> nat \<Rightarrow> cluster \<Rightarrow> placement_error option" where
  "reservation_refusal db t w p expected target =
    (if placement_fence p \<noteq> expected then Some Fence_Conflict
     else if (case pf_cluster p of None \<Rightarrow> False | Some c \<Rightarrow> c \<noteq> []) then Some Live_Migration_Unsupported
     else if (case remote_uuid p of None \<Rightarrow> False | Some u \<Rightarrow> u \<noteq> []) then Some Requires_Data_Plane
     else if list_ex (\<lambda>r. rq_workspace r = w \<and> rq_status r = Reserved) (requests db) then Some Already_Reserved
     else if \<not> cl_active target \<or> \<not> is_accepting_new target then Some Target_Unavailable
     else if max_workspaces target \<le> int (assigned db (cl_id target) + live_reserved db t (cl_id target))
       then Some Capacity_Reserved
     else None)"

definition new_request :: "control_db \<Rightarrow> nat \<Rightarrow> string \<Rightarrow> nat \<Rightarrow> moment \<Rightarrow> nat option \<Rightarrow> placement_request" where
  "new_request db w target fence expires user = \<lparr>rq_id = fresh_id rq_id (requests db), rq_workspace = w, rq_source = None,
     rq_target = target, profile_fence = fence, rq_status = Reserved, reservation_expires_at = expires,
     rq_created_by = user, rolled_back_at = None\<rparr>"

definition write_reservation :: "env \<Rightarrow> int option \<Rightarrow> nat \<Rightarrow> profile \<Rightarrow> string \<Rightarrow> nat option \<Rightarrow> control_db
    \<Rightarrow> placement_request \<times> control_db" where
  "write_reservation e ttl w p target user db =
    (let p = raised p; db = save_fence p db;
         r = new_request db w target (placement_fence p) (now e + seconds_delta (reservation_seconds ttl)) user;
         db = db\<lparr>requests := requests db @ [r]\<rparr>;
         db = event (rq_id r) ''requested'' (Some (placement_fence p)) (Some target) None db
     in (r, event (rq_id r) ''capacity_reserved'' None None (Some (reservation_expires_at r)) db))"

text \<open>The expected fence is \<open>None\<close> when \<open>int\<close> refuses it.\<close>

definition create_reservation :: "env \<Rightarrow> int option \<Rightarrow> nat \<Rightarrow> string \<Rightarrow> int option \<Rightarrow> nat option \<Rightarrow> control_db
    \<Rightarrow> placement_error + (placement_request \<times> control_db)" where
  "create_reservation e ttl w target_cluster_id expected user db = (case expected of
     None \<Rightarrow> Inl Fence_Required
   | Some f \<Rightarrow>
     if f < 0 then Inl Fence_Required
     else let c = strip target_cluster_id in
       if c = [] \<or> 32 < length c then Inl Target_Required
       else case cluster_by_id db c of
         None \<Rightarrow> Inl Target_Not_Found
       | Some target \<Rightarrow>
         let (_, db) = expire_reserved_for_target c (now e) None db; (p, db) = profile_for_update w db in
         case reservation_refusal db (now e) w p (nat f) target of
           Some err \<Rightarrow> Inl err
         | None \<Rightarrow> Inr (write_reservation e ttl w p (cl_id target) user db))"

definition rollback_reservation :: "env \<Rightarrow> nat \<Rightarrow> control_db \<Rightarrow> placement_error + (placement_request \<times> control_db)" where
  "rollback_reservation e i db = (case first (filter (\<lambda>r. rq_id r = i) (requests db)) of
     None \<Rightarrow> Inl No_Such_Request
   | Some r \<Rightarrow>
     if rq_status r \<noteq> Reserved then Inl Not_Active
     else let (p, db) = profile_for_update (rq_workspace r) db;
              db = event i ''rollback_requested'' None None None db; p = raised p; db = save_fence p db;
              r' = r\<lparr>rq_status := Rolled_Back, rolled_back_at := Some (now e)\<rparr>; db = save_request r' db
       in Inr (r', event i ''capacity_released'' (Some (placement_fence p)) None None db))"

subsection \<open>Fences\<close>

definition fence :: "control_db \<Rightarrow> nat \<Rightarrow> nat" where
  "fence db w = (case profile_of (platform db) w of Some p \<Rightarrow> placement_fence p | None \<Rightarrow> 0)"

text \<open>A request in force holds its workspace's fence; any other holds an earlier one.\<close>

definition token_ok :: "control_db \<Rightarrow> placement_request \<Rightarrow> bool" where
  "token_ok db r \<longleftrightarrow> (if rq_status r = Reserved then profile_fence r = fence db (rq_workspace r)
     else profile_fence r < fence db (rq_workspace r))"

definition queue_ok :: "control_db \<Rightarrow> bool" where
  "queue_ok db \<longleftrightarrow> profiles_ok (platform db) \<and> distinct (map rq_id (requests db)) \<and>
     distinct (map rq_workspace (filter (\<lambda>r. rq_status r = Reserved) (requests db))) \<and>
     (\<forall>r \<in> set (requests db). token_ok db r)"

text \<open>The tables the queue's laws are about; events and audit entries are not among them.\<close>

definition same_queue :: "control_db \<Rightarrow> control_db \<Rightarrow> bool" where
  "same_queue db db' \<longleftrightarrow> platform db' = platform db \<and> requests db' = requests db \<and> clusters db' = clusters db"

lemma event_tables [simp]: "platform (event r k f c x db) = platform db" "requests (event r k f c x db) = requests db"
  "clusters (event r k f c x db) = clusters db"
  by (simp_all add: event_def)

lemma same_queue_laws:
  assumes "same_queue db db'"
  shows "fence db' = fence db" "queue_ok db' = queue_ok db" "assigned db' = assigned db"
    "live_reserved db' = live_reserved db" "cluster_by_id db' = cluster_by_id db"
  using assms by (auto simp: same_queue_def fence_def [abs_def] queue_ok_def token_ok_def assigned_def [abs_def]
      live_reserved_def [abs_def] cluster_by_id_def [abs_def])

lemma profile_for_update_spec:
  assumes "profile_for_update w db = (p, db')" "profiles_ok (platform db)"
  shows "profiles_ok (platform db')" "profile_of (platform db') w = Some p" "placement_fence p = fence db w"
    "fence db' v = fence db v" "requests db' = requests db" "clusters db' = clusters db"
    "assigned db' c = assigned db c" "events db' = events db" "control_audits db' = control_audits db"
proof -
  obtain base where g: "get_or_create_profile (platform db) w = (p, base)" and db': "db' = db\<lparr>platform := base\<rparr>"
    using assms(1) by (auto simp: profile_for_update_def split: prod.splits)
  note sp = get_or_create_profile_spec [OF g assms(2)]
  show "profiles_ok (platform db')" "profile_of (platform db') w = Some p" using sp by (simp_all add: db')
  show "placement_fence p = fence db w"
    using sp by (cases "profile_of (platform db) w") (auto simp: fence_def new_profile_def)
  show "fence db' v = fence db v"
    using sp by (cases "profile_of (platform db) w"; cases "v = w") (auto simp: fence_def db' new_profile_def)
  show "requests db' = requests db" "clusters db' = clusters db" "events db' = events db" "control_audits db' = control_audits db"
    by (simp_all add: db')
  show "assigned db' c = assigned db c"
    using g by (auto simp: db' assigned_def get_or_create_profile_def new_profile_def table_simps Let_def split: option.splits)
qed

lemma save_fence_spec:
  assumes "profiles_ok (platform db)" "profile_of (platform db) w = Some p"
  shows "profiles_ok (platform (save_fence (raised p) db))"
    "fence (save_fence (raised p) db) v = (if v = w then Suc (placement_fence p) else fence db v)"
    "requests (save_fence (raised p) db) = requests db" "clusters (save_fence (raised p) db) = clusters db"
    "assigned (save_fence (raised p) db) c = assigned db c" "events (save_fence (raised p) db) = events db"
proof -
  have r: "pf_id (raised p) = pf_id p" "pf_workspace (raised p) = pf_workspace p" "pf_cluster (raised p) = pf_cluster p"
    by (simp_all add: raised_def)
  show "profiles_ok (platform (save_fence (raised p) db))"
    using profiles_ok_save [OF assms r(1,2)] by (simp add: save_fence_def)
  show "fence (save_fence (raised p) db) v = (if v = w then Suc (placement_fence p) else fence db v)"
    using profile_of_save [OF assms r(1,2)] by (simp add: save_fence_def fence_def raised_def)
  show "requests (save_fence (raised p) db) = requests db" "clusters (save_fence (raised p) db) = clusters db"
    "events (save_fence (raised p) db) = events db"
    by (simp_all add: save_fence_def)
  have p: "p \<in> set (profiles (platform db))" using profile_of_Some [OF assms(2)] by simp
  have "pf_cluster p = pf_cluster q" if "q \<in> set (profiles (platform db))" "pf_id q = pf_id p" for q
    using that p assms(1) by (auto simp: profiles_ok_def distinct_map inj_on_def)
  then show "assigned (save_fence (raised p) db) c = assigned db c"
    by (simp add: assigned_def save_fence_def save_profile_profiles count_update_where r(1)) (rule count_where_cong, auto simp: r)
qed

subsection \<open>Releasing\<close>

text \<open>What expiring and rolling back have in common: the fence is raised and the request is closed.\<close>

definition released :: "placement_request \<Rightarrow> control_db \<Rightarrow> control_db" where
  "released r' db = (let (p, db) = profile_for_update (rq_workspace r') db
     in save_request r' (save_fence (raised p) db))"

definition closes :: "placement_request \<Rightarrow> placement_request \<Rightarrow> bool" where
  "closes r r' \<longleftrightarrow> rq_id r' = rq_id r \<and> rq_workspace r' = rq_workspace r \<and> rq_target r' = rq_target r \<and>
     profile_fence r' = profile_fence r \<and> reservation_expires_at r' = reservation_expires_at r \<and> rq_status r' \<noteq> Reserved"

lemma expire_request_released:
  assumes "expire_request r db = (r', db')"
  shows "r' = r\<lparr>rq_status := Expired\<rparr>" "same_queue (released r' db) db'"
  using assms by (auto simp: expire_request_def released_def same_queue_def save_request_def Let_def split: prod.splits)

lemma update_request:
  assumes "queue_ok db" "r \<in> set (requests db)" "closes r r'"
  shows "update_where (\<lambda>x. rq_id x = rq_id r') (\<lambda>_. r') (requests db) = map (\<lambda>x. if x = r then r' else x) (requests db)"
  using assms unfolding update_where_def queue_ok_def closes_def
  by (intro map_cong refl) (auto simp: distinct_map inj_on_def)

lemma reserved_after_close:
  assumes "rq_status r' \<noteq> Reserved"
  shows "filter (\<lambda>x. rq_status x = Reserved) (map (\<lambda>x. if x = r then r' else x) rs)
    = filter (\<lambda>x. x \<noteq> r) (filter (\<lambda>x. rq_status x = Reserved) rs)"
  using assms by (induction rs) auto

lemma count_after_close:
  assumes "rq_status r' \<noteq> Reserved"
  shows "count_where (\<lambda>x. rq_target x = c \<and> rq_status x = Reserved \<and> t < reservation_expires_at x)
      (map (\<lambda>x. if x = r then r' else x) rs)
    = count_where (\<lambda>x. x \<noteq> r \<and> rq_target x = c \<and> rq_status x = Reserved \<and> t < reservation_expires_at x) rs"
  using assms by (induction rs) (auto simp: table_simps)

lemma distinct_map_filter_sub: "distinct (map f xs) \<Longrightarrow> distinct (map f (filter P xs))"
  by (induction xs) auto

lemma released_spec:
  assumes "queue_ok db" "r \<in> set (requests db)" "rq_status r = Reserved" "closes r r'"
  shows "queue_ok (released r' db)"
    "fence (released r' db) v = (if v = rq_workspace r then Suc (fence db v) else fence db v)"
    "requests (released r' db) = map (\<lambda>x. if x = r then r' else x) (requests db)"
    "clusters (released r' db) = clusters db" "assigned (released r' db) c = assigned db c"
    "live_reserved (released r' db) t c \<le> live_reserved db t c"
proof -
  obtain p db1 where u: "profile_for_update (rq_workspace r) db = (p, db1)" by fastforce
  have ok: "profiles_ok (platform db)" using assms(1) by (simp add: queue_ok_def)
  note pu = profile_for_update_spec [OF u ok]
  note sf = save_fence_spec [OF pu(1,2)]
  have w: "rq_workspace r' = rq_workspace r" using assms(4) by (simp add: closes_def)
  have rel: "released r' db = save_request r' (save_fence (raised p) db1)"
    by (simp add: released_def w u)
  show reqs: "requests (released r' db) = map (\<lambda>x. if x = r then r' else x) (requests db)"
    using update_request [OF assms(1,2,4)] by (simp add: rel save_request_def sf(3) pu(5))
  show f: "fence (released r' db) v = (if v = rq_workspace r then Suc (fence db v) else fence db v)" for v
    using sf(2) [of v] pu(3,4) by (simp add: rel save_request_def fence_def)
  show "clusters (released r' db) = clusters db" by (simp add: rel save_request_def sf(4) pu(6))
  show "assigned (released r' db) c = assigned db c"
    using sf(5) [of c] pu(7) [of c] by (simp add: rel save_request_def assigned_def)
  have st: "rq_status r' \<noteq> Reserved" using assms(4) by (simp add: closes_def)
  have "live_reserved (released r' db) t c = count_where (\<lambda>x. x \<noteq> r \<and> rq_target x = c \<and> rq_status x = Reserved
      \<and> t < reservation_expires_at x) (requests db)"
    unfolding live_reserved_def reqs by (rule count_after_close [OF st])
  also have "\<dots> \<le> live_reserved db t c" unfolding live_reserved_def by (rule count_where_mono) simp
  finally show "live_reserved (released r' db) t c \<le> live_reserved db t c" .
  have "profiles_ok (platform (released r' db))" using sf(1) by (simp add: rel save_request_def)
  moreover have "distinct (map rq_id (requests (released r' db)))"
  proof -
    have "map rq_id (requests (released r' db)) = map rq_id (requests db)"
      unfolding reqs using assms(4) by (auto simp: closes_def)
    with assms(1) show ?thesis by (simp add: queue_ok_def)
  qed
  moreover have "distinct (map rq_workspace (filter (\<lambda>x. rq_status x = Reserved) (requests (released r' db))))"
    unfolding reqs reserved_after_close [OF st] using assms(1) by (simp add: queue_ok_def distinct_map_filter_sub del: filter_filter)
  moreover have "token_ok (released r' db) x" if "x \<in> set (requests (released r' db))" for x
  proof -
    have old: "y \<in> set (requests db) \<Longrightarrow> token_ok db y" for y using assms(1) by (simp add: queue_ok_def)
    from that reqs consider "x = r'" | "x \<in> set (requests db)" "x \<noteq> r" by auto
    then show ?thesis
    proof cases
      case 1
      with old [OF assms(2)] assms(3,4) st show ?thesis by (simp add: token_ok_def f closes_def)
    next
      case 2
      have "rq_status x = Reserved \<Longrightarrow> rq_workspace x \<noteq> rq_workspace r"
        using 2 assms(1-3) by (auto simp: queue_ok_def distinct_map inj_on_def)
      with old [OF 2(1)] show ?thesis by (auto simp: token_ok_def f)
    qed
  qed
  ultimately show "queue_ok (released r' db)" by (simp add: queue_ok_def)
qed

subsection \<open>Expiring, rolling back and reserving\<close>

definition expired_row :: "placement_request \<Rightarrow> placement_request" where
  "expired_row r = r\<lparr>rq_status := Expired\<rparr>"

lemma closes_expired: "closes r (expired_row r)"
  by (simp add: closes_def expired_row_def)

lemma expire_request_spec:
  assumes "expire_request r db = (r', db')" "queue_ok db" "r \<in> set (requests db)" "rq_status r = Reserved"
  shows "r' = expired_row r" "queue_ok db'"
    "fence db' v = (if v = rq_workspace r then Suc (fence db v) else fence db v)"
    "requests db' = map (\<lambda>x. if x = r then expired_row r else x) (requests db)"
    "clusters db' = clusters db" "assigned db' c = assigned db c" "live_reserved db' t c \<le> live_reserved db t c"
proof -
  note er = expire_request_released [OF assms(1)]
  show r': "r' = expired_row r" using er(1) by (simp add: expired_row_def)
  have cl: "closes r r'" using closes_expired r' by simp
  note rs = released_spec [OF assms(2-4) cl] and sl = same_queue_laws [OF er(2)]
  show "queue_ok db'" "fence db' v = (if v = rq_workspace r then Suc (fence db v) else fence db v)"
    "assigned db' c = assigned db c" "live_reserved db' t c \<le> live_reserved db t c"
    using rs(1,2,5,6) by (simp_all add: sl)
  show "requests db' = map (\<lambda>x. if x = r then expired_row r else x) (requests db)" "clusters db' = clusters db"
    using rs(3,4) er(2) r' by (simp_all add: same_queue_def)
qed

lemma expire_all_spec:
  assumes "expire_all rs db = (es, db')" "queue_ok db" "set rs \<subseteq> set (requests db)" "\<forall>r \<in> set rs. rq_status r = Reserved" "distinct rs"
  shows "es = map expired_row rs \<and> queue_ok db' \<and> (\<forall>v. fence db' v = fence db v + (if v \<in> rq_workspace ` set rs then 1 else 0)) \<and>
    requests db' = map (\<lambda>x. if x \<in> set rs then expired_row x else x) (requests db) \<and> clusters db' = clusters db \<and>
    (\<forall>c. assigned db' c = assigned db c) \<and> (\<forall>t c. live_reserved db' t c \<le> live_reserved db t c)"
  using assms
proof (induction rs arbitrary: db es)
  case Nil
  then show ?case by simp
next
  case (Cons r rs)
  obtain r' db1 where x: "expire_request r db = (r', db1)" by fastforce
  obtain es1 where e: "expire_all rs db1 = (es1, db')" and es: "es = r' # es1"
    using Cons.prems(1) x by (auto split: prod.splits)
  have r: "r \<in> set (requests db)" "rq_status r = Reserved" "r \<notin> set rs" using Cons.prems by auto
  note xs = expire_request_spec [OF x Cons.prems(2) r(1,2)]
  have sub: "set rs \<subseteq> set (requests db1)" using Cons.prems(3) r(3) by (auto simp: xs(4))
  have IH: "es1 = map expired_row rs \<and> queue_ok db' \<and> (\<forall>v. fence db' v = fence db1 v + (if v \<in> rq_workspace ` set rs then 1 else 0)) \<and>
    requests db' = map (\<lambda>x. if x \<in> set rs then expired_row x else x) (requests db1) \<and> clusters db' = clusters db1 \<and>
    (\<forall>c. assigned db' c = assigned db1 c) \<and> (\<forall>t c. live_reserved db' t c \<le> live_reserved db1 t c)"
    by (rule Cons.IH [OF e xs(2) sub]) (use Cons.prems in auto)
  have ws: "rq_workspace r \<notin> rq_workspace ` set rs"
  proof
    assume "rq_workspace r \<in> rq_workspace ` set rs"
    then obtain q where "q \<in> set rs" "rq_workspace q = rq_workspace r" by auto
    moreover from this have "q \<in> set (filter (\<lambda>x. rq_status x = Reserved) (requests db))"
      "r \<in> set (filter (\<lambda>x. rq_status x = Reserved) (requests db))" using Cons.prems(3,4) r by auto
    ultimately have "q = r" using Cons.prems(2) by (metis distinct_map inj_onD queue_ok_def)
    with \<open>q \<in> set rs\<close> r(3) show False by simp
  qed
  have "expired_row r \<notin> set rs" using Cons.prems(4) by (auto simp: expired_row_def)
  then have "requests db' = map (\<lambda>x. if x \<in> set (r # rs) then expired_row x else x) (requests db)"
    using IH r(3) by (auto simp: xs(4))
  moreover have "live_reserved db' t c \<le> live_reserved db t c" for t c using IH xs(7) order_trans by blast
  moreover have "fence db' v = fence db v + (if v \<in> rq_workspace ` set (r # rs) then 1 else 0)" for v
    using IH xs(3) ws by auto
  ultimately show ?case using IH xs by (simp add: es)
qed

lemma due_for_target_rows:
  assumes "queue_ok db"
  shows "set (due_for_target c t db) = {r \<in> set (requests db). rq_target r = c \<and> rq_status r = Reserved \<and> reservation_expires_at r \<le> t}"
    "distinct (due_for_target c t db)"
  using assms by (auto simp: due_for_target_def queue_ok_def distinct_map intro!: distinct_filter)

lemma expire_reserved_spec:
  assumes "expire_reserved_for_target c t limit db = (es, db')" "queue_ok db"
  obtains rs where "rs = (case limit of None \<Rightarrow> due_for_target c t db | Some n \<Rightarrow> take n (due_for_target c t db))"
    "es = map expired_row rs" "queue_ok db'" "\<And>v. fence db' v = fence db v + (if v \<in> rq_workspace ` set rs then 1 else 0)"
    "requests db' = map (\<lambda>x. if x \<in> set rs then expired_row x else x) (requests db)" "clusters db' = clusters db"
    "\<And>c. assigned db' c = assigned db c" "\<And>t c. live_reserved db' t c \<le> live_reserved db t c"
proof -
  let ?rs = "case limit of None \<Rightarrow> due_for_target c t db | Some n \<Rightarrow> take n (due_for_target c t db)"
  have sub: "set ?rs \<subseteq> set (due_for_target c t db)" by (auto split: option.split dest: in_set_takeD)
  have "distinct ?rs" using due_for_target_rows(2) [OF assms(2)] by (simp split: option.split)
  moreover have "expire_all ?rs db = (es, db')" using assms(1) by (simp add: expire_reserved_for_target_def Let_def)
  moreover have "set ?rs \<subseteq> set (requests db)" "\<forall>r \<in> set ?rs. rq_status r = Reserved"
    using sub due_for_target_rows(1) [OF assms(2)] by auto
  ultimately show ?thesis using that [OF refl] expire_all_spec [OF _ assms(2)] by blast
qed

lemma rollback_spec:
  assumes "rollback_reservation e i db = Inr (r', db')" "queue_ok db"
  obtains r where "r \<in> set (requests db)" "rq_id r = i" "rq_status r = Reserved" "rq_status r' = Rolled_Back" "closes r r'"
    "queue_ok db'" "\<And>v. fence db' v = (if v = rq_workspace r then Suc (fence db v) else fence db v)"
    "requests db' = map (\<lambda>x. if x = r then r' else x) (requests db)" "clusters db' = clusters db"
    "\<And>c. assigned db' c = assigned db c" "\<And>t c. live_reserved db' t c \<le> live_reserved db t c"
proof -
  from assms(1) obtain r where f: "first (filter (\<lambda>r. rq_id r = i) (requests db)) = Some r" and st: "rq_status r = Reserved"
    and r': "r' = r\<lparr>rq_status := Rolled_Back, rolled_back_at := Some (now e)\<rparr>" and sq: "same_queue (released r' db) db'"
    by (auto simp: rollback_reservation_def released_def same_queue_def save_request_def save_fence_def event_def Let_def
        split: option.splits if_splits prod.splits)
  from first_filter_SomeD [OF f] have r: "r \<in> set (requests db)" "rq_id r = i" by simp_all
  have cl: "closes r r'" "rq_status r' = Rolled_Back" by (simp_all add: r' closes_def)
  note rs = released_spec [OF assms(2) r(1) st cl(1)] and sl = same_queue_laws [OF sq]
  have "requests db' = map (\<lambda>x. if x = r then r' else x) (requests db)" "clusters db' = clusters db"
    using rs(3,4) sq by (simp_all add: same_queue_def)
  then show ?thesis
    using that [OF r st cl(2,1)] rs(1,2,5,6) by (simp add: sl)
qed

lemma create_spec:
  assumes "create_reservation e ttl w c0 f user db = Inr (r, db')" "queue_ok db"
  obtains target es db1 where "cluster_by_id db (strip c0) = Some target"
    "expire_reserved_for_target (strip c0) (now e) None db = (es, db1)" "queue_ok db1"
    "f = Some (int (fence db1 w))" "profile_fence r = Suc (fence db1 w)" "rq_workspace r = w" "rq_target r = cl_id target"
    "rq_status r = Reserved" "reservation_expires_at r = now e + seconds_delta (reservation_seconds ttl)"
    "requests db' = requests db1 @ [r]" "queue_ok db'" "clusters db' = clusters db"
    "\<And>v. fence db' v = (if v = w then Suc (fence db1 v) else fence db1 v)"
    "\<And>x. assigned db' x = assigned db x" "\<forall>q \<in> set (requests db1). rq_workspace q = w \<longrightarrow> rq_status q \<noteq> Reserved"
    "cl_active target" "is_accepting_new target"
    "int (assigned db (cl_id target) + live_reserved db1 (now e) (cl_id target)) < max_workspaces target"
proof -
  from assms(1) obtain n target es db1 p db2 where n: "f = Some n" "0 \<le> n"
    and tg: "cluster_by_id db (strip c0) = Some target" and ex: "expire_reserved_for_target (strip c0) (now e) None db = (es, db1)"
    and pu: "profile_for_update w db1 = (p, db2)" and ref: "reservation_refusal db2 (now e) w p (nat n) target = None"
    and wr: "write_reservation e ttl w p (cl_id target) user db2 = (r, db')"
    by (auto simp: create_reservation_def Let_def split: option.splits if_splits prod.splits)
  from expire_reserved_spec [OF ex assms(2)] have ok1: "queue_ok db1" and cl1: "clusters db1 = clusters db"
    and as1: "assigned db1 x = assigned db x" for x by metis+
  have pok: "profiles_ok (platform db1)" using ok1 by (simp add: queue_ok_def)
  note ps = profile_for_update_spec [OF pu pok]
  note sf = save_fence_spec [OF ps(1,2)]
  from ref ps(3,5,7) have chk: "nat n = fence db1 w" "\<forall>q \<in> set (requests db1). rq_workspace q = w \<longrightarrow> rq_status q \<noteq> Reserved"
    "cl_active target" "is_accepting_new target"
    "int (assigned db1 (cl_id target) + live_reserved db1 (now e) (cl_id target)) < max_workspaces target"
    by (auto simp: reservation_refusal_def live_reserved_def list_ex_iff split: if_splits)
  let ?p = "raised p" and ?db = "save_fence (raised p) db2"
  let ?r = "new_request ?db w (cl_id target) (placement_fence ?p) (now e + seconds_delta (reservation_seconds ttl)) user"
  have r: "r = ?r" and sq: "same_queue (?db\<lparr>requests := requests ?db @ [?r]\<rparr>) db'"
    using wr by (auto simp: write_reservation_def Let_def same_queue_def)
  have fields: "rq_workspace r = w" "rq_target r = cl_id target" "rq_status r = Reserved" "rq_id r = fresh_id rq_id (requests db1)"
    "reservation_expires_at r = now e + seconds_delta (reservation_seconds ttl)" "profile_fence r = Suc (fence db1 w)"
    using sf(3) ps(3,5) by (simp_all add: r new_request_def raised_def)
  have reqs: "requests db' = requests db1 @ [r]" using sq sf(3) ps(5) by (simp add: same_queue_def r)
  have fen: "fence db' v = (if v = w then Suc (fence db1 v) else fence db1 v)" for v
    using sq sf(2) [of v] ps(3,4) by (simp add: same_queue_def fence_def)
  have as': "assigned db' x = assigned db x" for x
    using sq sf(5) [of x] ps(7) [of x] as1 [of x] by (simp add: same_queue_def assigned_def)
  have "queue_ok db'"
  proof -
    have "profiles_ok (platform db')" using sq sf(1) by (simp add: same_queue_def)
    moreover have "distinct (map rq_id (requests db'))" using ok1 fields(4) by (simp add: reqs queue_ok_def fresh_id_notin)
    moreover have "distinct (map rq_workspace (filter (\<lambda>r. rq_status r = Reserved) (requests db')))"
      using ok1 fields(1,3) chk(2) by (auto simp: reqs queue_ok_def)
    moreover have "token_ok db' q" if "q \<in> set (requests db')" for q
    proof (cases "q = r")
      case True
      with fields show ?thesis by (simp add: token_ok_def fen)
    next
      case False
      with that reqs have q: "q \<in> set (requests db1)" by simp
      with ok1 have "token_ok db1 q" by (simp add: queue_ok_def)
      with chk(2) q show ?thesis by (auto simp: token_ok_def fen)
    qed
    ultimately show ?thesis by (simp add: queue_ok_def)
  qed
  moreover have "clusters db' = clusters db" using sq sf(4) ps(6) cl1 by (simp add: same_queue_def)
  moreover have "f = Some (int (fence db1 w))" using n chk(1) by simp
  ultimately show ?thesis
    using that [OF tg ex ok1] fields reqs fen as' chk as1 by simp
qed

lemma expire_targets_spec:
  assumes "expire_targets t limit cs expired db = (es, db')" "queue_ok db"
  obtains news where "es = expired @ news" "length expired \<le> limit \<Longrightarrow> length es \<le> limit" "\<forall>r \<in> set news. rq_status r = Expired"
    "queue_ok db'" "\<And>v. fence db v \<le> fence db' v" "clusters db' = clusters db" "\<And>c. assigned db' c = assigned db c"
    "\<And>t c. live_reserved db' t c \<le> live_reserved db t c"
    "length (requests db') = length (requests db)"
    "\<And>k. k < length (requests db) \<Longrightarrow> requests db' ! k = requests db ! k \<or>
       rq_status (requests db ! k) = Reserved \<and> reservation_expires_at (requests db ! k) \<le> t \<and>
       requests db' ! k = expired_row (requests db ! k)"
    "\<And>r. length es < limit \<Longrightarrow> r \<in> set (requests db') \<Longrightarrow> rq_target r \<in> set cs \<Longrightarrow> cluster_by_id db (rq_target r) \<noteq> None \<Longrightarrow>
       rq_status r = Reserved \<Longrightarrow> t < reservation_expires_at r"
  using assms
proof (induction cs arbitrary: expired db thesis)
  case Nil
  then show ?case by (intro Nil.prems(1) [of "[]"]) auto
next
  case (Cons c cs)
  consider "limit \<le> length expired" | "length expired < limit" "cluster_by_id db c = None"
    | x where "length expired < limit" "cluster_by_id db c = Some x" by (cases "limit \<le> length expired"; cases "cluster_by_id db c") auto
  then show ?case
  proof cases
    case 1
    with Cons.prems(2) have "es = expired" "db' = db" by simp_all
    with 1 Cons.prems(3) show ?thesis by (intro Cons.prems(1) [of "[]"]) auto
  next
    case 2
    with Cons.prems(2) have e: "expire_targets t limit cs expired db = (es, db')" by simp
    show ?thesis
    proof (rule Cons.IH [OF _ e Cons.prems(3)], goal_cases)
      case (1 news)
      show ?case
      proof (rule Cons.prems(1) [OF 1(1-10)])
        fix r assume r: "length es < limit" "r \<in> set (requests db')" "rq_target r \<in> set (c # cs)"
          "cluster_by_id db (rq_target r) \<noteq> None" "rq_status r = Reserved"
        have "rq_target r \<noteq> c" using r(4) 2(2) by metis
        with r(3) have "rq_target r \<in> set cs" by simp
        with r show "t < reservation_expires_at r" by (intro 1(11))
      qed
    qed
  next
    case (3 x)
    obtain rs db1 where ex: "expire_reserved_for_target c t (Some (limit - length expired)) db = (rs, db1)" by fastforce
    with 3 Cons.prems(2) have e: "expire_targets t limit cs (expired @ rs) db1 = (es, db')" by simp
    from ex Cons.prems(3) obtain due where d0: "due = (case Some (limit - length expired) of None \<Rightarrow> due_for_target c t db
        | Some n \<Rightarrow> take n (due_for_target c t db))" and d:
      "rs = map expired_row due" "queue_ok db1" "\<And>v. fence db1 v = fence db v + (if v \<in> rq_workspace ` set due then 1 else 0)"
      "requests db1 = map (\<lambda>x. if x \<in> set due then expired_row x else x) (requests db)" "clusters db1 = clusters db"
      "\<And>c. assigned db1 c = assigned db c" "\<And>t c. live_reserved db1 t c \<le> live_reserved db t c"
      by (rule expire_reserved_spec) (rule that; assumption)
    have d1: "due = take (limit - length expired) (due_for_target c t db)" using d0 by simp
    have due_in: "q \<in> set due \<Longrightarrow> rq_status q = Reserved \<and> reservation_expires_at q \<le> t" for q
      using d1 due_for_target_rows(1) [OF Cons.prems(3), of c t] by (auto dest: in_set_takeD)
    have cb: "cluster_by_id db1 = cluster_by_id db" using d(5) by (simp add: cluster_by_id_def [abs_def])
    show ?thesis
    proof (rule Cons.IH [OF _ e d(2)], goal_cases)
      case (1 news)
      have len: "length (expired @ rs) \<le> limit" using 3(1) d1 d(1) by simp
      have rows: "requests db' ! k = requests db ! k \<or> rq_status (requests db ! k) = Reserved \<and>
          reservation_expires_at (requests db ! k) \<le> t \<and> requests db' ! k = expired_row (requests db ! k)"
        if "k < length (requests db)" for k
        using 1(10) [of k] that due_in [of "requests db ! k"]
        by (cases "requests db ! k \<in> set due") (auto simp: d(4) expired_row_def)
      have none: "t < reservation_expires_at r" if a: "length es < limit" "r \<in> set (requests db')" "rq_target r \<in> set (c # cs)"
        "cluster_by_id db (rq_target r) \<noteq> None" "rq_status r = Reserved" for r
      proof (cases "rq_target r = c \<and> reservation_expires_at r \<le> t")
        case True
        from a(2) obtain k where k: "k < length (requests db')" "requests db' ! k = r" by (auto simp: in_set_conv_nth)
        with 1(9) have k1: "k < length (requests db1)" by simp
        from 1(10) [OF k1] k(2) a(5) have r1: "r \<in> set (requests db1)" using k1 by (auto simp: expired_row_def)
        then have "r \<in> set (requests db)" "r \<notin> set due" using a(5) by (auto simp: d(4) expired_row_def split: if_splits)
        with True a(5) due_for_target_rows(1) [OF Cons.prems(3), of c t] have "r \<in> set (due_for_target c t db)" by simp
        with \<open>r \<notin> set due\<close> d1 have "limit - length expired < length (due_for_target c t db)"
          by (metis leI take_all)
        with d1 d(1) have "length (expired @ rs) = limit" using 3(1) by simp
        with 1(1) a(1) show ?thesis by simp
      next
        case False
        with a 1(11) [of r] cb show ?thesis by (cases "rq_target r \<in> set cs") auto
      qed
      show ?case
      proof (rule Cons.prems(1) [of "rs @ news"])
        show "es = expired @ rs @ news" using 1(1) by simp
        show "length es \<le> limit" using 1(2) [OF len] .
        show "\<forall>r \<in> set (rs @ news). rq_status r = Expired" using 1(3) d(1) by (auto simp: expired_row_def)
        show "fence db v \<le> fence db' v" for v using 1(5) [of v] d(3) [of v] by (simp split: if_splits)
        show "live_reserved db' t c \<le> live_reserved db t c" for t c using 1(8) d(7) order_trans by blast
        show "length (requests db') = length (requests db)" using 1(9) d(4) by simp
      qed (use 1 d rows none in auto)
    qed
  qed
qed

subsection \<open>The queue as a state machine\<close>

text \<open>
  A state is the time and the database. Time passes; and the three entry points run, each in its own
  transaction, one after the other, since each locks the rows it decides on. A call that raises is
  no step, because its transaction is rolled back.
\<close>

inductive queue_step :: "int option \<Rightarrow> moment \<times> control_db \<Rightarrow> moment \<times> control_db \<Rightarrow> bool" for ttl where
  tick: "t \<le> t' \<Longrightarrow> queue_step ttl (t, db) (t', db)"
| reserve: "create_reservation e ttl w c f user db = Inr (r, db') \<Longrightarrow> queue_step ttl (now e, db) (now e, db')"
| rollback: "rollback_reservation e i db = Inr (r, db') \<Longrightarrow> queue_step ttl (now e, db) (now e, db')"
| expire: "expire_due_reservations e limit db = Inr (rs, db') \<Longrightarrow> queue_step ttl (now e, db) (now e, db')"

inductive_cases queue_stepE: "queue_step ttl s s'"
inductive_simps queue_step_iff: "queue_step ttl (t, db) (t', db')"

text \<open>No cluster has more workspaces in it and reserved for it than it takes.\<close>

definition capacity_ok :: "moment \<times> control_db \<Rightarrow> bool" where
  "capacity_ok s \<longleftrightarrow> (case s of (t, db) \<Rightarrow> distinct (map cl_id (clusters db)) \<and> (\<forall>c \<in> set (clusters db).
     int (assigned db (cl_id c) + live_reserved db t (cl_id c)) \<le> max_workspaces c))"

definition machine_ok :: "moment \<times> control_db \<Rightarrow> bool" where
  "machine_ok s \<longleftrightarrow> queue_ok (snd s) \<and> capacity_ok s"

lemma live_reserved_later: "t \<le> t' \<Longrightarrow> live_reserved db t' c \<le> live_reserved db t c"
  unfolding live_reserved_def by (rule count_where_mono) auto

lemma capacity_mono:
  assumes "capacity_ok (t, db)" "clusters db' = clusters db" "\<And>c. assigned db' c = assigned db c"
    "\<And>c. live_reserved db' t' c \<le> live_reserved db t c"
  shows "capacity_ok (t', db')"
proof -
  have "int (assigned db' (cl_id c) + live_reserved db' t' (cl_id c)) \<le> max_workspaces c" if "c \<in> set (clusters db)" for c
  proof -
    have "int (assigned db (cl_id c) + live_reserved db t (cl_id c)) \<le> max_workspaces c"
      using assms(1) that by (simp add: capacity_ok_def)
    with assms(4) [of "cl_id c"] show ?thesis by (simp add: assms(3))
  qed
  then show ?thesis using assms(1,2) by (simp add: capacity_ok_def)
qed

lemma expire_due_spec:
  assumes "expire_due_reservations e limit db = Inr (es, db')" "queue_ok db"
  obtains n where "limit = Some (int n)" "1 \<le> n" "n \<le> 1000" "length es \<le> n" "\<forall>r \<in> set es. rq_status r = Expired" "queue_ok db'"
    "\<And>v. fence db v \<le> fence db' v" "clusters db' = clusters db" "\<And>c. assigned db' c = assigned db c"
    "\<And>t c. live_reserved db' t c \<le> live_reserved db t c" "length (requests db') = length (requests db)"
    "\<And>k. k < length (requests db) \<Longrightarrow> requests db' ! k = requests db ! k \<or>
       rq_status (requests db ! k) = Reserved \<and> reservation_expires_at (requests db ! k) \<le> now e \<and>
       requests db' ! k = expired_row (requests db ! k)"
    "\<And>r. length es < n \<Longrightarrow> r \<in> set (requests db') \<Longrightarrow> cluster_by_id db (rq_target r) \<noteq> None \<Longrightarrow>
       rq_status r = Reserved \<Longrightarrow> now e < reservation_expires_at r"
proof -
  let ?cs = "sort (remdups (map rq_target (filter (\<lambda>r. rq_status r = Reserved \<and> reservation_expires_at r \<le> now e) (requests db))))"
  from assms(1) obtain l where l: "limit = Some l" "1 \<le> l" "l \<le> 1000" and e: "expire_targets (now e) (nat l) ?cs [] db = (es, db')"
    by (auto simp: expire_due_reservations_def split: option.splits if_splits)
  show ?thesis
  proof (rule expire_targets_spec [OF e assms(2)], goal_cases)
    case (1 news)
    have rest: "now e < reservation_expires_at r" if r: "length es < nat l" "r \<in> set (requests db')"
      "cluster_by_id db (rq_target r) \<noteq> None" "rq_status r = Reserved" for r
    proof (rule ccontr)
      assume "\<not> now e < reservation_expires_at r"
      then have due: "reservation_expires_at r \<le> now e" by simp
      from r(2) obtain k where k: "k < length (requests db')" "requests db' ! k = r" by (auto simp: in_set_conv_nth)
      from 1(10) [of k] k 1(9) r(4) have "r \<in> set (requests db)" by (auto simp: expired_row_def)
      with due r(4) have "rq_target r \<in> set ?cs" by auto
      from 1(11) [OF r(1,2) this r(3,4)] due show False by simp
    qed
    show ?case
      by (rule that [of "nat l", OF _ _ _ _ _ 1(4-10) rest]) (use l 1(1-3) in auto)
  qed
qed

lemma step_laws:
  assumes "queue_step ttl s s'" "queue_ok (snd s)"
  shows "queue_ok (snd s')" "capacity_ok s \<Longrightarrow> capacity_ok s'" "fence (snd s) w \<le> fence (snd s') w"
    "assigned (snd s') c = assigned (snd s) c"
proof -
  have "queue_ok (snd s') \<and> (capacity_ok s \<longrightarrow> capacity_ok s') \<and> fence (snd s) w \<le> fence (snd s') w
    \<and> assigned (snd s') c = assigned (snd s) c"
    using assms
  proof (cases rule: queue_step.cases)
    case (tick t t' db)
    with assms(2) live_reserved_later [of t t' db] show ?thesis by (auto intro: capacity_mono)
  next
    case (reserve e w' c' f user db r db')
    have ok: "queue_ok db" using assms(2) reserve by simp
    obtain target es db1 where tg: "cluster_by_id db (strip c') = Some target"
      and ex: "expire_reserved_for_target (strip c') (now e) None db = (es, db1)"
      and r: "rq_target r = cl_id target" "rq_status r = Reserved" "reservation_expires_at r = now e + seconds_delta (reservation_seconds ttl)"
        "requests db' = requests db1 @ [r]"
      and ok': "queue_ok db'" and cl: "clusters db' = clusters db"
      and fe: "\<And>v. fence db' v = (if v = w' then Suc (fence db1 v) else fence db1 v)"
      and as: "\<And>x. assigned db' x = assigned db x"
      and room: "int (assigned db (cl_id target) + live_reserved db1 (now e) (cl_id target)) < max_workspaces target"
      by (rule create_spec [OF reserve(3) ok]) (rule that; assumption)
    obtain due :: "placement_request list" where f0: "\<And>v. fence db1 v = fence db v + (if v \<in> rq_workspace ` set due then 1 else 0)"
      and le1: "\<And>t c. live_reserved db1 t c \<le> live_reserved db t c"
      by (rule expire_reserved_spec [OF ex ok]) (rule that; assumption)
    have f1: "fence db v \<le> fence db1 v" for v using f0 [of v] by simp
    have tg_in: "target \<in> set (clusters db)" using tg by (auto simp: cluster_by_id_def dest: first_filter_SomeD)
    have live: "live_reserved db' t c = live_reserved db1 t c + (if rq_target r = c \<and> t < reservation_expires_at r then 1 else 0)" for t c
      using r(2,4) by (simp add: live_reserved_def table_simps)
    have "capacity_ok (now e, db')" if cap: "capacity_ok (now e, db)"
    proof -
      have "int (assigned db' (cl_id x) + live_reserved db' (now e) (cl_id x)) \<le> max_workspaces x"
        if x: "x \<in> set (clusters db)" for x
      proof (cases "cl_id x = cl_id target")
        case True
        with x tg_in cap have "x = target" by (auto simp: capacity_ok_def distinct_map inj_on_def)
        with room show ?thesis by (simp add: live as)
      next
        case False
        from cap x have "int (assigned db (cl_id x) + live_reserved db (now e) (cl_id x)) \<le> max_workspaces x"
          by (simp add: capacity_ok_def)
        with False le1 [of "now e" "cl_id x"] show ?thesis by (simp add: live as r(1))
      qed
      with cap cl show ?thesis by (simp add: capacity_ok_def)
    qed
    moreover have "fence db w \<le> fence db' w" using f1 [of w] fe [of w] by (cases "w = w'") auto
    ultimately show ?thesis using ok' as reserve(1,2) by simp
  next
    case (rollback e i db r db')
    have ok: "queue_ok db" using assms(2) rollback by simp
    obtain q :: placement_request where rb: "queue_ok db'"
      "\<And>v. fence db' v = (if v = rq_workspace q then Suc (fence db v) else fence db v)" "clusters db' = clusters db"
      "\<And>c. assigned db' c = assigned db c" "\<And>t c. live_reserved db' t c \<le> live_reserved db t c"
      by (rule rollback_spec [OF rollback(3) ok]) (rule that; assumption)
    have "capacity_ok (now e, db) \<Longrightarrow> capacity_ok (now e, db')" by (erule capacity_mono) (use rb in auto)
    with rollback(1,2) rb show ?thesis by simp
  next
    case (expire e limit db rs db')
    have ok: "queue_ok db" using assms(2) expire by simp
    obtain n where x: "queue_ok db'" "\<And>v. fence db v \<le> fence db' v" "clusters db' = clusters db"
      "\<And>c. assigned db' c = assigned db c" "\<And>t c. live_reserved db' t c \<le> live_reserved db t c"
      by (rule expire_due_spec [OF expire(3) ok]) (rule that; assumption)
    have "capacity_ok (now e, db) \<Longrightarrow> capacity_ok (now e, db')" by (erule capacity_mono) (use x in auto)
    with expire(1,2) x show ?thesis by simp
  qed
  then show "queue_ok (snd s')" "capacity_ok s \<Longrightarrow> capacity_ok s'" "fence (snd s) w \<le> fence (snd s') w"
    "assigned (snd s') c = assigned (snd s) c" by blast+
qed

interpretation queue: state_machine "queue_step ttl" machine_ok for ttl
  by unfold_locales (auto simp: machine_ok_def intro: step_laws)

subsection \<open>Properties\<close>

text \<open>
  C4: However the entry points of the queue follow each other and however long between them, no
  cluster is ever promised to more workspaces than it takes, no workspace holds two reservations,
  and a worker can tell from its fence alone whether its reservation is still in force: the fence of
  a request in force is its workspace's, and that of any other is lower.
\<close>

theorem queue_invariants:
  assumes "(queue_step ttl)\<^sup>*\<^sup>* (t, db) (t', db')" "queue_ok db" "capacity_ok (t, db)"
  shows "(\<forall>c \<in> set (clusters db'). int (assigned db' (cl_id c) + live_reserved db' t' (cl_id c)) \<le> max_workspaces c) \<and>
    (\<forall>r \<in> set (requests db'). \<forall>q \<in> set (requests db'). rq_status r = Reserved \<and> rq_status q = Reserved \<and>
       rq_workspace r = rq_workspace q \<longrightarrow> r = q) \<and>
    (\<forall>r \<in> set (requests db'). profile_fence r \<le> fence db' (rq_workspace r) \<and>
       (profile_fence r = fence db' (rq_workspace r) \<longleftrightarrow> rq_status r = Reserved))"
proof -
  from queue.reachable_inv [OF assms(1)] assms(2,3) have ok: "queue_ok db'" and cap: "capacity_ok (t', db')"
    by (simp_all add: machine_ok_def)
  have tok: "\<forall>r \<in> set (requests db'). profile_fence r \<le> fence db' (rq_workspace r) \<and>
       (profile_fence r = fence db' (rq_workspace r) \<longleftrightarrow> rq_status r = Reserved)"
    using ok by (auto simp: queue_ok_def token_ok_def split: if_splits)
  have inj: "inj_on rq_workspace (set (filter (\<lambda>r. rq_status r = Reserved) (requests db')))"
    using ok by (simp add: queue_ok_def distinct_map)
  have "\<forall>r \<in> set (requests db'). \<forall>q \<in> set (requests db'). rq_status r = Reserved \<and> rq_status q = Reserved \<and>
       rq_workspace r = rq_workspace q \<longrightarrow> r = q"
    using inj by (simp add: inj_on_def)
  with cap tok show ?thesis by (simp add: capacity_ok_def)
qed

text \<open>
  Fences only rise, so that a fence a worker has been given and that was passed stays passed;
  and the queue places no workspace: what is assigned to a cluster is what was.
\<close>

theorem fences_only_rise:
  assumes "(queue_step ttl)\<^sup>*\<^sup>* (t, db) (t', db')" "queue_ok db" "capacity_ok (t, db)"
  shows "fence db w \<le> fence db' w \<and> assigned db' c = assigned db c"
proof -
  have start: "machine_ok (t, db)" using assms(2,3) by (simp add: machine_ok_def)
  have "fence (snd s) w \<le> fence (snd s') w" if "machine_ok s" "queue_step ttl s s'" for s s'
    using step_laws(3) [OF that(2)] that(1) by (simp add: machine_ok_def)
  from queue.reachable_mono [where f = "\<lambda>s. fence (snd s) w", OF this assms(1) start]
  have "fence db w \<le> fence db' w" by simp
  moreover have "assigned (snd s') c = assigned (snd (t, db)) c" if "(queue_step ttl)\<^sup>*\<^sup>* (t, db) s'" for s'
    using that
  proof (induction rule: rtranclp_induct)
    case (step s s')
    from queue.reachable_inv [OF step.hyps(1) start] step_laws(4) [OF step.hyps(2)] step.IH show ?case
      by (simp add: machine_ok_def)
  qed simp
  ultimately show ?thesis using assms(1) by fastforce
qed

text \<open>
  A reservation that was made holds: the target was taking workspaces and had room for it, the
  caller had read the fence that was in force, the workspace had no other reservation, and now holds
  exactly this one, under a fence raised by one and for the deployment's bounded time.
\<close>

theorem reservation_made:
  assumes "create_reservation e ttl w c f user db = Inr (r, db')" "queue_ok db"
  shows "\<exists>target. cluster_by_id db (strip c) = Some target \<and> cl_active target \<and> is_accepting_new target \<and>
    rq_target r = cl_id target \<and> rq_workspace r = w \<and> rq_status r = Reserved \<and>
    int (assigned db' (cl_id target) + live_reserved db' (now e) (cl_id target)) \<le> max_workspaces target \<and>
    f = Some (int (profile_fence r) - 1) \<and> fence db' w = profile_fence r \<and>
    now e + seconds_delta MIN_RESERVATION_SECONDS \<le> reservation_expires_at r \<and>
    reservation_expires_at r \<le> now e + seconds_delta MAX_RESERVATION_SECONDS \<and>
    filter (\<lambda>q. rq_workspace q = w \<and> rq_status q = Reserved) (requests db') = [r]"
proof -
  have ttl: "MIN_RESERVATION_SECONDS \<le> reservation_seconds ttl" "reservation_seconds ttl \<le> MAX_RESERVATION_SECONDS"
    by (auto simp: reservation_seconds_def MIN_RESERVATION_SECONDS_def MAX_RESERVATION_SECONDS_def Let_def)
  show ?thesis
    using assms
  proof (rule create_spec, goal_cases)
    case (1 target es db1)
    have "live_reserved db' (now e) (cl_id target) \<le> Suc (live_reserved db1 (now e) (cl_id target))"
      using 1(7,8,10) by (simp add: live_reserved_def table_simps)
    moreover have "filter (\<lambda>q. rq_workspace q = w \<and> rq_status q = Reserved) (requests db1) = []"
      using 1(15) by (simp add: filter_empty_conv)
    ultimately show ?case
      using 1(1,4-10,13,14,16-18) ttl by (intro exI [of _ target]) (auto simp: seconds_delta_def)
  qed
qed

text \<open>
  Rolling back or expiring ends a reservation for good. After a rollback, a second one is refused,
  the fence the reservation was given is no longer the workspace's, and no room it held is counted.
\<close>

theorem rollback_is_final:
  assumes "rollback_reservation e i db = Inr (r, db')" "queue_ok db"
  shows "rollback_reservation e' i db' = Inl Not_Active \<and> profile_fence r < fence db' (rq_workspace r) \<and>
    (\<forall>q \<in> set (requests db'). rq_id q = i \<longrightarrow> q = r \<and> rq_status q = Rolled_Back) \<and>
    live_reserved db' t (rq_target r) \<le> live_reserved db t (rq_target r)"
  using assms
proof (rule rollback_spec, goal_cases)
  case (1 q)
  have r: "r \<in> set (requests db')" "rq_id r = i" using 1(1,2,5,8) by (auto simp: closes_def)
  have uniq: "x = r" if "x \<in> set (requests db')" "rq_id x = i" for x
    using that r 1(6) by (auto simp: queue_ok_def distinct_map inj_on_def)
  obtain x where x: "first (filter (\<lambda>r. rq_id r = i) (requests db')) = Some x"
    using r by (cases "first (filter (\<lambda>r. rq_id r = i) (requests db'))") (auto simp: filter_empty_conv)
  with uniq first_filter_SomeD [OF x] have "x = r" by simp
  then have "rollback_reservation e' i db' = Inl Not_Active" using x 1(4) by (simp add: rollback_reservation_def)
  moreover have "profile_fence r < fence db' (rq_workspace r)"
    using r(1) 1(4,6) by (auto simp: queue_ok_def token_ok_def)
  ultimately show ?case using uniq 1(4,11) by auto
qed

text \<open>
  The scheduled sweep is bounded and complete. It releases at most as many reservations as it was
  allowed, each of them expired and due; when it released fewer, no reservation that is due is left
  on any cluster there is.
\<close>

theorem sweep_bounded_and_complete:
  assumes "expire_due_reservations e limit db = Inr (es, db')" "queue_ok db"
  shows "\<exists>n. limit = Some (int n) \<and> 1 \<le> n \<and> n \<le> 1000 \<and> length es \<le> n \<and> (\<forall>r \<in> set es. rq_status r = Expired) \<and>
    list_all2 (\<lambda>r r'. r' = r \<or> rq_status r = Reserved \<and> reservation_expires_at r \<le> now e \<and> r' = r\<lparr>rq_status := Expired\<rparr>)
      (requests db) (requests db') \<and>
    (length es < n \<longrightarrow> (\<forall>r \<in> set (requests db'). cluster_by_id db (rq_target r) \<noteq> None \<and> rq_status r = Reserved \<longrightarrow>
       now e < reservation_expires_at r))"
  using assms
proof (rule expire_due_spec, goal_cases)
  case (1 n)
  have "list_all2 (\<lambda>r r'. r' = r \<or> rq_status r = Reserved \<and> reservation_expires_at r \<le> now e \<and> r' = r\<lparr>rq_status := Expired\<rparr>)
      (requests db) (requests db')"
    using 1(11,12) by (simp add: list_all2_conv_all_nth expired_row_def)
  with 1(1-5,13) show ?case by (intro exI [of _ n]) blast
qed

text \<open>
  A workspace whose reservation has run out cannot reserve room in the same cluster by the fence
  it has, whatever it reloads, until the expired reservation is swept or rolled back: the call
  expires it, which raises the fence it is about to compare, refuses, and rolls the expiry back.
\<close>

theorem own_expired_reservation_blocks:
  assumes "queue_ok db" "r \<in> set (requests db)" "rq_status r = Reserved" "reservation_expires_at r \<le> now e"
    "cluster_by_id db (rq_target r) = Some target" "strip (rq_target r) = rq_target r" "rq_target r \<noteq> []"
    "length (rq_target r) \<le> 32"
  shows "create_reservation e ttl (rq_workspace r) (rq_target r) (Some (int (fence db (rq_workspace r)))) user db
    = Inl Fence_Conflict"
proof -
  obtain es db1 where ex: "expire_reserved_for_target (rq_target r) (now e) None db = (es, db1)" by fastforce
  obtain due where due: "due = (case None of None \<Rightarrow> due_for_target (rq_target r) (now e) db
      | Some n \<Rightarrow> take n (due_for_target (rq_target r) (now e) db))"
    and d: "queue_ok db1" "\<And>v. fence db1 v = fence db v + (if v \<in> rq_workspace ` set due then 1 else 0)"
    by (rule expire_reserved_spec [OF ex assms(1)]) (rule that; assumption)
  have "r \<in> set due" using assms due_for_target_rows(1) [OF assms(1)] by (simp add: due)
  then have f: "fence db1 (rq_workspace r) = Suc (fence db (rq_workspace r))" using d(2) by simp
  obtain p db2 where pu: "profile_for_update (rq_workspace r) db1 = (p, db2)" by fastforce
  have "placement_fence p = Suc (fence db (rq_workspace r))"
    using profile_for_update_spec(3) [OF pu] d(1) f by (simp add: queue_ok_def)
  with assms ex pu show ?thesis
    by (simp add: create_reservation_def Let_def reservation_refusal_def)
qed

end
