(* ===== verification/Platform_Variables.thy ===== *)
theory Platform_Variables
  imports Platform_Data
begin

text \<open>
  \<open>services/platform_variables.py\<close> (\<open>models/variables.py\<close>): the numbers a deployment can set, of which
  \<^typ>\<open>env\<close> holds those the other services read. A value is what JSON or an operator can supply:
  a boolean, a number (however it was written), not-a-number, an infinity, or anything else. The
  conversion of a decimal to the float that is stored and back through its shortest
  representation is the parameter \<open>via_float\<close>; numbers beyond the largest float are not modelled.
  The entries of the cache under this module's keys are kept beside its tables.
\<close>

datatype kind = Kind_Decimal | Kind_Int | Kind_Bool

datatype var_value = V_Bool bool | V_Num rat | V_NaN | V_Infinity bool | V_Other

datatype setting = S_Bool bool | S_Int int | S_Decimal rat | S_Infinity

datatype var_error = Unknown_Variable | Invalid_Variable | Invalid_Operation | Overflow_Error

record variable_spec =
  vs_key :: string
  vs_kind :: kind
  vs_default :: var_value

definition VARIABLES :: "variable_spec list" where
  "VARIABLES =
    [\<lparr>vs_key = ''usage_margin'', vs_kind = Kind_Decimal, vs_default = V_Num (3 / 10)\<rparr>,
     \<lparr>vs_key = ''yearly_discount'', vs_kind = Kind_Decimal, vs_default = V_Num (1 / 10)\<rparr>,
     \<lparr>vs_key = ''grace_days'', vs_kind = Kind_Int, vs_default = V_Num 14\<rparr>,
     \<lparr>vs_key = ''archive_after_days'', vs_kind = Kind_Int, vs_default = V_Num 30\<rparr>,
     \<lparr>vs_key = ''archive_retention_days'', vs_kind = Kind_Int, vs_default = V_Num 365\<rparr>,
     \<lparr>vs_key = ''monthly_usage_cap_points'', vs_kind = Kind_Decimal, vs_default = V_Num 20\<rparr>,
     \<lparr>vs_key = ''trial_points'', vs_kind = Kind_Decimal, vs_default = V_Num 1\<rparr>,
     \<lparr>vs_key = ''invoice_due_days'', vs_kind = Kind_Int, vs_default = V_Num 14\<rparr>]"

record variable_row =
  vr_id :: nat
  vr_key :: string
  vr_value :: var_value
  vr_updated_by :: "nat option"

record variable_change =
  vc_variable :: nat
  vc_old :: var_value
  vc_new :: var_value
  vc_by :: "nat option"
  vc_at :: moment
  vc_reason :: string

record variables_db =
  variables :: "variable_row list"
  changes :: "variable_change list"
  var_cache :: "string \<Rightarrow> (var_value \<times> moment) option"

definition CACHE_SECONDS :: int where
  "CACHE_SECONDS = 60"

definition spec_of :: "string \<Rightarrow> var_error + variable_spec" where
  "spec_of key = (case first (filter (\<lambda>s. vs_key s = key) VARIABLES) of None \<Rightarrow> Inl Unknown_Variable | Some s \<Rightarrow> Inr s)"

definition variable_cache_key :: "string \<Rightarrow> string" where
  "variable_cache_key key = ''platform:variable:'' @ key"

subsection \<open>Values\<close>

text \<open>
  \<open>_coerce\<close>. Comparing not-a-number with zero raises \<open>decimal.InvalidOperation\<close>, outside the \<open>try\<close>;
  \<open>int\<close> of an infinity raises \<open>OverflowError\<close>.
\<close>

definition coerce :: "kind \<Rightarrow> var_value \<Rightarrow> var_error + setting" where
  "coerce k v = (case k of
     Kind_Bool \<Rightarrow> (case v of V_Bool b \<Rightarrow> Inr (S_Bool b) | _ \<Rightarrow> Inl Invalid_Variable)
   | _ \<Rightarrow> (case v of
       V_Bool _ \<Rightarrow> Inl Invalid_Variable
     | V_Other \<Rightarrow> Inl Invalid_Variable
     | V_NaN \<Rightarrow> Inl Invalid_Operation
     | V_Infinity negative \<Rightarrow> if negative then Inl Invalid_Variable
         else if k = Kind_Int then Inl Overflow_Error else Inr S_Infinity
     | V_Num x \<Rightarrow> if x < 0 then Inl Invalid_Variable
         else if k = Kind_Int then (if x \<noteq> of_int \<lfloor>x\<rfloor> then Inl Invalid_Variable else Inr (S_Int \<lfloor>x\<rfloor>))
         else Inr (S_Decimal x)))"

definition to_json :: "(rat \<Rightarrow> rat) \<Rightarrow> setting \<Rightarrow> var_value" where
  "to_json via_float s = (case s of S_Bool b \<Rightarrow> V_Bool b | S_Int n \<Rightarrow> V_Num (of_int n)
     | S_Decimal x \<Rightarrow> V_Num (via_float x) | S_Infinity \<Rightarrow> V_Infinity False)"

subsection \<open>Reading and setting\<close>

definition var_cache_get :: "moment \<Rightarrow> string \<Rightarrow> variables_db \<Rightarrow> var_value option" where
  "var_cache_get t key db = (case var_cache db (variable_cache_key key) of
     Some (v, expiry) \<Rightarrow> if t < expiry then Some v else None | None \<Rightarrow> None)"

definition variable_row_of :: "variables_db \<Rightarrow> string \<Rightarrow> variable_row option" where
  "variable_row_of db key = first (filter (\<lambda>r. vr_key r = key) (variables db))"

definition get_variable :: "(rat \<Rightarrow> rat) \<Rightarrow> moment \<Rightarrow> string \<Rightarrow> variables_db \<Rightarrow> var_error + (setting \<times> variables_db)" where
  "get_variable via_float t key db = bind_r (spec_of key) (\<lambda>spec.
     case var_cache_get t key db of
       Some v \<Rightarrow> bind_r (coerce (vs_kind spec) v) (\<lambda>s. Inr (s, db))
     | None \<Rightarrow>
       let stored = (case variable_row_of db key of None \<Rightarrow> vs_default spec | Some r \<Rightarrow> vr_value r) in
       bind_r (case coerce (vs_kind spec) stored of
           Inl Invalid_Variable \<Rightarrow> coerce (vs_kind spec) (vs_default spec)
         | res \<Rightarrow> res) (\<lambda>value.
         Inr (value, db\<lparr>var_cache := (var_cache db)(variable_cache_key key \<mapsto>
           (to_json via_float value, t + seconds_delta CACHE_SECONDS))\<rparr>)))"

text \<open>A row is saved by its key, or added under a fresh one.\<close>

definition put_row :: "variable_row \<Rightarrow> variable_row list \<Rightarrow> variable_row list" where
  "put_row r rows = (if list_ex (\<lambda>x. vr_id x = vr_id r) rows
     then update_where (\<lambda>x. vr_id x = vr_id r) (\<lambda>_. r) rows else rows @ [r])"

text \<open>The row to be written: the one there is, or a new one that holds the default.\<close>

definition row_to_set :: "(rat \<Rightarrow> rat) \<Rightarrow> variable_spec \<Rightarrow> variables_db \<Rightarrow> var_error + variable_row" where
  "row_to_set via_float spec db = (case variable_row_of db (vs_key spec) of Some r \<Rightarrow> Inr r
     | None \<Rightarrow> bind_r (coerce (vs_kind spec) (vs_default spec)) (\<lambda>d.
         Inr \<lparr>vr_id = fresh_id vr_id (variables db), vr_key = vs_key spec, vr_value = to_json via_float d,
           vr_updated_by = None\<rparr>))"

definition set_variable :: "(rat \<Rightarrow> rat) \<Rightarrow> moment \<Rightarrow> string \<Rightarrow> var_value \<Rightarrow> nat option \<Rightarrow> string \<Rightarrow> variables_db
    \<Rightarrow> var_error + (setting \<times> variables_db)" where
  "set_variable via_float t key value user reason db =
     bind_r (spec_of key) (\<lambda>spec. bind_r (coerce (vs_kind spec) value) (\<lambda>coerced.
     bind_r (row_to_set via_float spec db) (\<lambda>row.
       let stored = to_json via_float coerced; row' = row\<lparr>vr_value := stored, vr_updated_by := user\<rparr> in
       Inr (coerced, \<lparr>variables = put_row row' (variables db),
         changes = changes db @ [\<lparr>vc_variable = vr_id row, vc_old = vr_value row, vc_new = stored, vc_by = user,
           vc_at = t, vc_reason = reason\<rparr>],
         var_cache = (var_cache db)(variable_cache_key key := None)\<rparr>))))"

fun get_each :: "(rat \<Rightarrow> rat) \<Rightarrow> moment \<Rightarrow> string list \<Rightarrow> variables_db \<Rightarrow> var_error + ((string \<times> setting) list \<times> variables_db)" where
  "get_each via_float t [] db = Inr ([], db)"
| "get_each via_float t (k # ks) db = bind_r (get_variable via_float t k db) (\<lambda>(v, db).
     bind_r (get_each via_float t ks db) (\<lambda>(vs, db). Inr ((k, v) # vs, db)))"

definition all_variables :: "(rat \<Rightarrow> rat) \<Rightarrow> moment \<Rightarrow> variables_db \<Rightarrow> var_error + ((string \<times> setting) list \<times> variables_db)" where
  "all_variables via_float t db = get_each via_float t (sort (map vs_key VARIABLES)) db"

subsection \<open>What the conversion to a float promises\<close>

text \<open>
  A decimal of at most fifteen digits comes back from a float as it went in; what has come back
  goes through unchanged; and a number that is not negative stays so.
\<close>

definition short :: "rat \<Rightarrow> bool" where
  "short x \<longleftrightarrow> (\<exists>k \<le> 15. \<exists>m. x = of_int m / 10 ^ k \<and> \<bar>m\<bar> < 10 ^ 15)"

definition float_laws :: "(rat \<Rightarrow> rat) \<Rightarrow> bool" where
  "float_laws via_float \<longleftrightarrow> (\<forall>x. short x \<longrightarrow> via_float x = x) \<and> (\<forall>x. via_float (via_float x) = via_float x) \<and>
     (\<forall>x. 0 \<le> x \<longrightarrow> 0 \<le> via_float x)"

text \<open>What is read back of a setting that was stored.\<close>

definition stored :: "(rat \<Rightarrow> rat) \<Rightarrow> setting \<Rightarrow> setting" where
  "stored via_float s = (case s of S_Decimal x \<Rightarrow> S_Decimal (via_float x) | _ \<Rightarrow> s)"

definition fits :: "kind \<Rightarrow> setting \<Rightarrow> bool" where
  "fits k s \<longleftrightarrow> (case s of S_Bool _ \<Rightarrow> k = Kind_Bool | S_Int n \<Rightarrow> k = Kind_Int \<and> 0 \<le> n
     | S_Decimal x \<Rightarrow> k = Kind_Decimal \<and> 0 \<le> x | S_Infinity \<Rightarrow> k = Kind_Decimal)"

lemma coerce_fits: "coerce k v = Inr s \<Longrightarrow> fits k s"
  by (auto simp: coerce_def fits_def split: kind.splits var_value.splits if_splits)

lemma coerce_to_json: "float_laws via_float \<Longrightarrow> fits k s \<Longrightarrow> coerce k (to_json via_float s) = Inr (stored via_float s)"
  by (cases s; cases k) (auto simp: coerce_def fits_def to_json_def stored_def float_laws_def)

lemma to_json_stored: "float_laws via_float \<Longrightarrow> to_json via_float (stored via_float s) = to_json via_float s"
  by (cases s) (auto simp: to_json_def stored_def float_laws_def)

lemma stored_again: "float_laws via_float \<Longrightarrow> stored via_float (stored via_float s) = stored via_float s"
  by (cases s) (auto simp: stored_def float_laws_def)

lemma fits_stored: "float_laws via_float \<Longrightarrow> fits k s \<Longrightarrow> fits k (stored via_float s)"
  by (cases s) (auto simp: fits_def stored_def float_laws_def)

lemma spec_of_Inr: "spec_of key = Inr s \<Longrightarrow> s \<in> set VARIABLES \<and> vs_key s = key"
  by (auto simp: spec_of_def split: option.splits dest: first_filter_SomeD)

lemma distinct_keys: "distinct (map vs_key VARIABLES)"
  by (simp add: VARIABLES_def)

lemma default_coerces: "s \<in> set VARIABLES \<Longrightarrow> \<exists>d. coerce (vs_kind s) (vs_default s) = Inr d"
  by (auto simp: VARIABLES_def coerce_def)

subsection \<open>The tables\<close>

definition vars_ok :: "variables_db \<Rightarrow> bool" where
  "vars_ok db \<longleftrightarrow> distinct (map vr_id (variables db)) \<and> distinct (map vr_key (variables db)) \<and>
     (\<forall>s \<in> set VARIABLES. \<forall>v x. var_cache db (variable_cache_key (vs_key s)) = Some (v, x) \<longrightarrow>
        (\<exists>r. coerce (vs_kind s) v = Inr r))"

lemma put_row_ids: "r \<in> set rows \<Longrightarrow> vr_id r' = vr_id r \<Longrightarrow>
    put_row r' rows = update_where (\<lambda>x. vr_id x = vr_id r) (\<lambda>_. r') rows"
  by (auto simp: put_row_def list_ex_iff)

lemma put_row_fresh: "vr_id r = fresh_id vr_id rows \<Longrightarrow> put_row r rows = rows @ [r]"
  by (auto simp: put_row_def list_ex_iff)

lemma put_row_mem: "x \<in> set (put_row r rows) \<Longrightarrow> x = r \<or> x \<in> set rows \<and> vr_id x \<noteq> vr_id r"
  by (auto simp: put_row_def set_update_where list_ex_iff split: if_splits)

lemma put_row_keys: "vr_id ` set (put_row r rows) = insert (vr_id r) (vr_id ` set rows)"
  by (auto simp: put_row_def set_update_where list_ex_iff image_iff)

text \<open>The row a setting is written to, and the table after it.\<close>

lemma set_variable_Inr:
  assumes "set_variable via_float t key v user reason db = Inr (c, db')" "vars_ok db" "float_laws via_float"
  obtains s row where "spec_of key = Inr s" "coerce (vs_kind s) v = Inr c" "vr_key row = key"
    "variable_row_of db key = Some row \<or> variable_row_of db key = None \<and> vr_id row = fresh_id vr_id (variables db) \<and>
       (\<exists>d. coerce (vs_kind s) (vs_default s) = Inr d \<and> vr_value row = to_json via_float d)"
    "variable_row_of db' key = Some (row\<lparr>vr_value := to_json via_float c, vr_updated_by := user\<rparr>)"
    "\<And>k. k \<noteq> key \<Longrightarrow> variable_row_of db' k = variable_row_of db k"
    "changes db' = changes db @ [\<lparr>vc_variable = vr_id row, vc_old = vr_value row, vc_new = to_json via_float c,
       vc_by = user, vc_at = t, vc_reason = reason\<rparr>]"
    "var_cache db' = (var_cache db)(variable_cache_key key := None)" "vars_ok db'"
    "variables db' = put_row (row\<lparr>vr_value := to_json via_float c, vr_updated_by := user\<rparr>) (variables db)"
proof -
  from assms(1) obtain s row where s: "spec_of key = Inr s" and c: "coerce (vs_kind s) v = Inr c"
    and rw: "row_to_set via_float s db = Inr row"
    and db': "db' = \<lparr>variables = put_row (row\<lparr>vr_value := to_json via_float c, vr_updated_by := user\<rparr>) (variables db),
       changes = changes db @ [\<lparr>vc_variable = vr_id row, vc_old = vr_value row, vc_new = to_json via_float c,
         vc_by = user, vc_at = t, vc_reason = reason\<rparr>], var_cache = (var_cache db)(variable_cache_key key := None)\<rparr>"
    by (auto simp: set_variable_def bind_r_Inr Let_def)
  have row: "variable_row_of db key = Some row \<or> variable_row_of db key = None \<and> vr_id row = fresh_id vr_id (variables db) \<and>
       vr_key row = key \<and> (\<exists>d. coerce (vs_kind s) (vs_default s) = Inr d \<and> vr_value row = to_json via_float d)"
    using rw spec_of_Inr [OF s] by (auto simp: row_to_set_def bind_r_Inr split: option.splits)
  let ?r = "row\<lparr>vr_value := to_json via_float c, vr_updated_by := user\<rparr>"
  have ok: "distinct (map vr_id (variables db))" "distinct (map vr_key (variables db))" using assms(2) by (simp_all add: vars_ok_def)
  have key: "vr_key row = key" using row by (auto simp: variable_row_of_def dest: first_filter_SomeD)
  have tab: "variable_row_of db' k = (if k = key then Some ?r else variable_row_of db k) \<and>
      distinct (map vr_id (variables db')) \<and> distinct (map vr_key (variables db'))" for k
  proof (cases "variable_row_of db key")
    case None
    with row have i: "vr_id row = fresh_id vr_id (variables db)" by simp
    then have v: "variables db' = variables db @ [?r]" by (simp add: db' put_row_fresh)
    have none: "\<forall>x \<in> set (variables db). vr_key x \<noteq> key" using None by (simp add: variable_row_of_def filter_empty_conv)
    then have "key \<notin> vr_key ` set (variables db)" by auto
    then show ?thesis
      using ok key i none None by (auto simp: v variable_row_of_def first_append fresh_id_notin filter_empty_conv)
  next
    case (Some r)
    with row have r: "row = r" by simp
    from Some have mem: "r \<in> set (variables db)" by (auto simp: variable_row_of_def dest: first_filter_SomeD)
    have v: "variables db' = update_where (\<lambda>x. vr_id x = vr_id r) (\<lambda>_. ?r) (variables db)"
      using put_row_ids [OF mem, of ?r] by (simp add: db' r)
    have row': "variable_row_of db' k = (case variable_row_of db k of None \<Rightarrow> None | Some z \<Rightarrow> Some (if z = r then ?r else z))"
      unfolding variable_row_of_def v by (rule first_filter_update [OF ok(1) mem]) (simp_all add: r)
    have up: "map f (update_where (\<lambda>x. vr_id x = vr_id r) (\<lambda>_. ?r) (variables db)) = map f (variables db)" if "f ?r = f r" for f :: "variable_row \<Rightarrow> 'b"
      using ok(1) mem that by (auto simp: update_where_def distinct_map inj_on_def)
    have "variable_row_of db k = Some r \<Longrightarrow> k = key" using key by (auto simp: variable_row_of_def r dest: first_filter_SomeD)
    moreover have "map vr_id (variables db') = map vr_id (variables db)" unfolding v by (rule up) (simp add: r)
    moreover have "map vr_key (variables db') = map vr_key (variables db)" unfolding v by (rule up) (simp add: r)
    ultimately show ?thesis using row' Some ok by (cases "variable_row_of db k") (auto simp: r)
  qed
  have "vars_ok db'" using assms(2) tab [of key] by (auto simp: vars_ok_def db')
  then show ?thesis using that [OF s c key] row tab by (auto simp: db')
qed

lemma get_variable_row:
  assumes "spec_of key = Inr s" "var_cache_get t key db = None" "variable_row_of db key = Some r"
    "coerce (vs_kind s) (vr_value r) = Inr x"
  shows "get_variable via_float t key db = Inr (x, db\<lparr>var_cache := (var_cache db)(variable_cache_key key \<mapsto>
    (to_json via_float x, t + seconds_delta CACHE_SECONDS))\<rparr>)"
  using assms by (simp add: get_variable_def Let_def)

text \<open>
  What an operator sets is in force at once and stays: the next reading, at any time, gives the
  value that was set, as do those of the minute after it from the cache. It is the very value for a
  whole number, a boolean, and a decimal of no more than fifteen digits.
\<close>

theorem set_is_in_force:
  assumes "set_variable via_float t key v user reason db = Inr (c, db')" "vars_ok db" "float_laws via_float"
    "t1 \<le> t2" "t2 < t1 + seconds_delta 60"
  shows "\<exists>db1. get_variable via_float t1 key db' = Inr (stored via_float c, db1) \<and>
    get_variable via_float t2 key db1 = Inr (stored via_float c, db1) \<and>
    (case c of S_Decimal x \<Rightarrow> short x \<longrightarrow> stored via_float c = c | _ \<Rightarrow> stored via_float c = c)"
  using assms(1-3)
proof (rule set_variable_Inr, goal_cases)
  case (1 s row)
  have fit: "fits (vs_kind s) c" by (rule coerce_fits [OF 1(2)])
  have none: "var_cache_get t1 key db' = None" by (simp add: var_cache_get_def 1(8))
  let ?db1 = "db'\<lparr>var_cache := (var_cache db')(variable_cache_key key \<mapsto>
    (to_json via_float (stored via_float c), t1 + seconds_delta CACHE_SECONDS))\<rparr>"
  have g1: "get_variable via_float t1 key db' = Inr (stored via_float c, ?db1)"
    by (rule get_variable_row [OF 1(1) none 1(5)]) (simp add: coerce_to_json [OF assms(3) fit])
  have "var_cache_get t2 key ?db1 = Some (to_json via_float c)"
    using assms(4,5) to_json_stored [OF assms(3)] by (simp add: var_cache_get_def CACHE_SECONDS_def)
  then have "get_variable via_float t2 key ?db1 = Inr (stored via_float c, ?db1)"
    by (simp add: get_variable_def 1(1) coerce_to_json [OF assms(3) fit])
  moreover have "case c of S_Decimal x \<Rightarrow> short x \<longrightarrow> stored via_float c = c | _ \<Rightarrow> stored via_float c = c"
    using assms(3) by (auto simp: stored_def float_laws_def split: setting.split)
  ultimately show ?case using g1 by blast
qed

text \<open>
  Billing does not stop for a bad row: whatever a row holds but not-a-number and an infinity,
  reading a variable the deployment defines answers a value of its kind, not negative, falling back
  to the default; and what it caches can be read again.
\<close>

lemma get_variable_answers:
  assumes "spec_of key = Inr s" "vars_ok db" "float_laws via_float"
    "\<And>r. variable_row_of db key = Some r \<Longrightarrow> vr_value r \<noteq> V_NaN \<and> vr_value r \<noteq> V_Infinity False"
  shows "\<exists>x db'. get_variable via_float t key db = Inr (x, db') \<and> fits (vs_kind s) x \<and> vars_ok db'"
proof (cases "var_cache_get t key db")
  case (Some v)
  then obtain y where "var_cache db (variable_cache_key key) = Some (v, y)"
    by (auto simp: var_cache_get_def split: option.splits if_splits)
  with assms(2) spec_of_Inr [OF assms(1)] obtain x where "coerce (vs_kind s) v = Inr x" unfolding vars_ok_def by blast
  with assms(1,2) Some coerce_fits show ?thesis by (auto simp: get_variable_def)
next
  case None
  obtain d where d: "coerce (vs_kind s) (vs_default s) = Inr d" using default_coerces spec_of_Inr [OF assms(1)] by blast
  let ?v = "case variable_row_of db key of None \<Rightarrow> vs_default s | Some r \<Rightarrow> vr_value r"
  have "\<exists>x. (case coerce (vs_kind s) ?v of Inl Invalid_Variable \<Rightarrow> coerce (vs_kind s) (vs_default s) | res \<Rightarrow> res) = Inr x \<and> fits (vs_kind s) x"
  proof (cases "coerce (vs_kind s) ?v")
    case (Inr x)
    with coerce_fits show ?thesis by auto
  next
    case (Inl err)
    have "err = Invalid_Variable"
      using Inl d assms(4) by (cases "variable_row_of db key")
        (auto simp: coerce_def split: kind.splits var_value.splits if_splits)
    with Inl d coerce_fits show ?thesis by auto
  qed
  then obtain x where x: "(case coerce (vs_kind s) ?v of Inl Invalid_Variable \<Rightarrow> coerce (vs_kind s) (vs_default s) | res \<Rightarrow> res) = Inr x"
    "fits (vs_kind s) x" by blast
  let ?db = "db\<lparr>var_cache := (var_cache db)(variable_cache_key key \<mapsto> (to_json via_float x, t + seconds_delta CACHE_SECONDS))\<rparr>"
  have "get_variable via_float t key db = Inr (x, ?db)" using assms(1) None x(1) by (simp add: get_variable_def Let_def)
  moreover have "vars_ok ?db"
  proof -
    have "s' = s" if "s' \<in> set VARIABLES" "vs_key s' = key" for s'
      using that spec_of_Inr [OF assms(1)] distinct_keys by (auto simp: distinct_map inj_on_def)
    with assms(2) coerce_to_json [OF assms(3) x(2)] show ?thesis by (auto simp: vars_ok_def variable_cache_key_def)
  qed
  ultimately show ?thesis using x(2) by blast
qed

theorem reading_falls_back:
  assumes "spec_of key = Inr s" "vars_ok db" "float_laws via_float"
    "\<And>r. variable_row_of db key = Some r \<Longrightarrow> vr_value r \<noteq> V_NaN \<and> vr_value r \<noteq> V_Infinity False"
  shows "\<exists>x db'. get_variable via_float t key db = Inr (x, db') \<and> fits (vs_kind s) x \<and> vars_ok db'"
  using assms by (rule get_variable_answers)

text \<open>The row that does stop it.\<close>

lemma nan_row_raises:
  assumes "spec_of key = Inr s" "vs_kind s \<noteq> Kind_Bool" "var_cache_get t key db = None"
    "variable_row_of db key = Some r" "vr_value r = V_NaN"
  shows "get_variable via_float t key db = Inl Invalid_Operation"
  using assms by (cases "vs_kind s") (simp_all add: get_variable_def coerce_def Let_def)

subsection \<open>The log of changes\<close>

definition last_change :: "variables_db \<Rightarrow> nat \<Rightarrow> variable_change option" where
  "last_change db i = first (rev (filter (\<lambda>c. vc_variable c = i) (changes db)))"

text \<open>Every row has the value its last change says, if it was ever changed.\<close>

definition log_ok :: "variables_db \<Rightarrow> bool" where
  "log_ok db \<longleftrightarrow> (\<forall>r \<in> set (variables db). \<forall>c. last_change db (vr_id r) = Some c \<longrightarrow> vr_value r = vc_new c) \<and>
     (\<forall>c \<in> set (changes db). vc_variable c \<in> vr_id ` set (variables db))"

text \<open>
  The log of changes has no gap. Each setting adds one change, which says who and why and leads
  from the value the last change of the variable led to, or from the default when it had never been
  changed, to the value now stored.
\<close>

theorem change_log_unbroken:
  assumes "set_variable via_float t key v user reason db = Inr (c, db')" "vars_ok db" "float_laws via_float" "log_ok db"
  shows "log_ok db' \<and> (\<exists>ch r. changes db' = changes db @ [ch] \<and> variable_row_of db' key = Some r \<and> vc_variable ch = vr_id r \<and>
    vc_new ch = vr_value r \<and> vc_by ch = user \<and> vc_at ch = t \<and> vc_reason ch = reason \<and>
    (case last_change db (vr_id r) of Some l \<Rightarrow> vc_old ch = vc_new l
     | None \<Rightarrow> variable_row_of db key = None \<longrightarrow> (\<exists>s d. spec_of key = Inr s \<and> coerce (vs_kind s) (vs_default s) = Inr d \<and>
         vc_old ch = to_json via_float d)))"
  using assms(1-3)
proof (rule set_variable_Inr, goal_cases)
  case (1 s row)
  let ?r = "row\<lparr>vr_value := to_json via_float c, vr_updated_by := user\<rparr>"
  let ?ch = "\<lparr>vc_variable = vr_id row, vc_old = vr_value row, vc_new = to_json via_float c, vc_by = user, vc_at = t, vc_reason = reason\<rparr>"
  have rows: "r = ?r \<or> r \<in> set (variables db) \<and> vr_id r \<noteq> vr_id row" if r: "r \<in> set (variables db')" for r
    using put_row_mem [of r ?r "variables db"] r by (simp add: 1(10))
  have ids: "vr_id ` set (variables db') = insert (vr_id row) (vr_id ` set (variables db))"
    using put_row_keys [of ?r "variables db"] by (simp add: 1(10))
  have lc: "last_change db' i = (if i = vr_id row then Some ?ch else last_change db i)" for i
    by (simp add: last_change_def 1(7))
  have "log_ok db'" using assms(4) rows ids by (fastforce simp: log_ok_def lc 1(7))
  moreover have "case last_change db (vr_id row) of Some l \<Rightarrow> vr_value row = vc_new l
     | None \<Rightarrow> variable_row_of db key = None \<longrightarrow> (\<exists>s d. spec_of key = Inr s \<and> coerce (vs_kind s) (vs_default s) = Inr d \<and>
         vr_value row = to_json via_float d)"
  proof (cases "variable_row_of db key")
    case None
    then have i: "vr_id row \<notin> vr_id ` set (variables db)" using 1(4) by (auto simp: fresh_id_notin)
    have "last_change db (vr_id row) = None"
    proof (cases "last_change db (vr_id row)")
      case (Some l)
      then have "l \<in> set (changes db)" "vc_variable l = vr_id row" by (auto simp: last_change_def dest!: first_SomeD)
      with assms(4) have "vr_id row \<in> vr_id ` set (variables db)" unfolding log_ok_def by metis
      with i show ?thesis by blast
    qed simp
    with None 1(1,4) show ?thesis by auto
  next
    case (Some r)
    with 1(4) have "row \<in> set (variables db)" by (auto simp: variable_row_of_def dest: first_filter_SomeD)
    with assms(4) Some show ?thesis by (auto simp: log_ok_def split: option.split)
  qed
  ultimately show ?case using 1(5,7) by (intro conjI exI [of _ ?ch] exI [of _ ?r]) (simp_all split: option.splits)
qed

end
