(* ===== verification/Samples.thy ===== *)
theory Samples
  imports Renewals Placement_Queue Platform_Variables
begin

text \<open>
  A small deployment the properties are applied to: the platform's own workspace (1), a customer's
  (2) with one owner (user 7), the currencies and the tax they are billed in, a priced meter with
  usage in July 2025, two add-ons on sale and one of them bought until the middle of July. It is
  the third of August.
\<close>

definition july :: date where "july = 739433"
definition noon :: moment where "noon = midnight 739466 + 43200000000"

definition env0 :: env where
  "env0 = \<lparr>now = noon, platform_slug = ''platform'', read_only_when_unentitled = True, cache_ttl = 60,
     usage_margin = 3 / 10, grace_days = 14, default_cap_points = 20, trial_points = 1, invoice_due_days = 14\<rparr>"

definition platform_ws :: workspace where
  "platform_ws = \<lparr>ws_id = 1, ws_slug = ''platform'', ws_name = ''Platform'', ws_active = True,
     ws_settings = Some \<lparr>default_currency = ''USD'', country = ''NZ'', theme = None\<rparr>\<rparr>"

definition acme :: workspace where
  "acme = \<lparr>ws_id = 2, ws_slug = ''acme'', ws_name = ''Acme'', ws_active = True,
     ws_settings = Some \<lparr>default_currency = ''NZD'', country = ''NZ'', theme = None\<rparr>\<rparr>"

definition acme_profile :: profile where
  "acme_profile = \<lparr>pf_id = 1, pf_workspace = Some 2, remote_uuid = None, pf_cluster = None, placement_fence = 0,
     monthly_usage_cap_points = None, trial_points_used_at = None\<rparr>"

definition blog_plan :: plan where
  "blog_plan = \<lparr>pl_id = 1, pl_workspace = 1, pl_name = ''Blog'', pl_code = ''blog'', pl_price = 10,
     pl_interval = ''month'', pl_interval_count = 1, trial_period_days = 0, pl_active = True\<rparr>"

definition shop_plan :: plan where
  "shop_plan = \<lparr>pl_id = 2, pl_workspace = 1, pl_name = ''Shop'', pl_code = ''shop'', pl_price = 20,
     pl_interval = ''month'', pl_interval_count = 1, trial_period_days = 7, pl_active = True\<rparr>"

definition blog_month :: entitlement where
  "blog_month = \<lparr>en_id = 1, en_workspace = 2, en_key = ''blog'', en_plan = Some 1, en_source = Purchased,
     starts_at = midnight 739416, current_period_end = Some (midnight 739447), grace_until = None,
     en_status = Ent_Active, en_reason = '''', ended_reason = ''''\<rparr>"

definition blog_record :: ext_record where
  "blog_record = \<lparr>xr_id = 1, xr_workspace = 2, xr_key = ''blog'', xr_status = Ext_Active, xr_reason = '''',
     xr_config = ''{}'', xr_changed_at = midnight 739416, xr_changed_by = Some 7,
     xr_activated_at = Some (midnight 739416)\<rparr>"

definition db0 :: platform_db where
  "db0 = \<lparr>workspaces = [platform_ws, acme], profiles = [acme_profile],
     memberships = [\<lparr>mb_id = 1, mb_user = 7, mb_profile = 1, mb_role = Role_Owner, mb_active = True, mb_created_at = 0\<rparr>],
     customers = [], ext_records = [blog_record], audit_log = [], plans = [blog_plan, shop_plan],
     entitlements = [blog_month],
     meter_prices = [\<lparr>mp_id = 1, mp_meter = ''chat'', vendor_cost = 1 / 100, unit_size = 1, margin = None, effective_from = 0\<rparr>],
     usage_records = [\<lparr>ur_id = 1, ur_workspace = 2, ur_meter = ''chat'', ur_day = 739442, ur_price = 1,
        ur_quantity = 200, ur_points = 13 / 5\<rparr>],
     currencies = [\<lparr>cur_id = 1, cur_code = ''USD'', cur_name = ''US Dollar'', decimal_places = 2, cur_active = True\<rparr>,
       \<lparr>cur_id = 2, cur_code = ''NZD'', cur_name = ''New Zealand Dollar'', decimal_places = 2, cur_active = True\<rparr>],
     exchange_rates = [\<lparr>er_id = 1, from_currency = 1, to_currency = 2, er_rate = 17 / 10, effective_date = 739000,
        er_source = Rate_Feed, entered_by = None\<rparr>],
     tax_rates = [\<lparr>tr_id = 1, tr_workspace = 1, tr_name = ''GST'', tr_country = ''NZ'', tr_state = '''', tr_rate = 15, tr_active = True\<rparr>],
     invoices = [], invoice_items = [], cached = (\<lambda>_. None)\<rparr>"

definition addon :: "string \<Rightarrow> manifest" where
  "addon key = \<lparr>mf_key = key, mf_name = key, admin_url = '''', scope = SCOPE_WORKSPACE, pricing = PRICING_ADDON,
     visibility = VISIBILITY_PUBLIC, activation_policy = ACTIVATION_WORKSPACE_OWNER, surfaces = [], requires = [],
     prerequisites = [], meters = [], clean_config = None, storefront_skins = [], default_storefront_skin = '''',
     on_activate = None, on_deactivate = None, app_label = key\<rparr>"

definition registry :: "manifest list" where
  "registry = [addon ''blog'', addon ''shop'', (addon ''news'')\<lparr>requires := [''blog'']\<rparr>]"

lemma env0_simps [simp]:
  "now env0 = noon" "platform_slug env0 = ''platform''" "read_only_when_unentitled env0" "cache_ttl env0 = 60"
  "usage_margin env0 = 3 / 10" "grace_days env0 = 14" "default_cap_points env0 = 20" "trial_points env0 = 1"
  "invoice_due_days env0 = 14"
  by (simp_all add: env0_def)

lemma workspace_simps [simp]:
  "ws_id platform_ws = 1" "ws_slug platform_ws = ''platform''" "ws_name platform_ws = ''Platform''"
  "ws_settings platform_ws = Some \<lparr>default_currency = ''USD'', country = ''NZ'', theme = None\<rparr>"
  "ws_id acme = 2" "ws_slug acme = ''acme''" "ws_name acme = ''Acme''" "ws_active acme"
  "ws_settings acme = Some \<lparr>default_currency = ''NZD'', country = ''NZ'', theme = None\<rparr>"
  by (simp_all add: platform_ws_def acme_def)

lemma db0_simps [simp]:
  "workspaces db0 = [platform_ws, acme]" "profiles db0 = [acme_profile]" "customers db0 = []"
  "ext_records db0 = [blog_record]" "plans db0 = [blog_plan, shop_plan]" "entitlements db0 = [blog_month]"
  "invoices db0 = []" "invoice_items db0 = []" "cached db0 = (\<lambda>_. None)" "profile_of db0 2 = Some acme_profile"
  by (simp_all add: db0_def profile_of_def acme_profile_def)

lemma db0_usage: "usage_records db0 = [\<lparr>ur_id = 1, ur_workspace = 2, ur_meter = ''chat'', ur_day = 739442, ur_price = 1,
    ur_quantity = 200, ur_points = 13 / 5\<rparr>]"
  by (simp add: db0_def)

lemma clock_simps [simp]: "day_of 63889905600000000 = 739466" "today env0 = 739466" "noon = 63889905600000000"
  by (simp_all add: noon_def day_of_def midnight_def today_def)

lemma texts [simp]: "clean_code ''USD'' = ''USD''" "clean_code ''NZD'' = ''NZD''" "upper ''USD'' = ''USD''"
  "upper ''NZD'' = ''NZD''" "upper ''NZ'' = ''NZ''"
  by (simp_all add: clean_code_def upper_def upper_char_def strip_def whitespace_def)

lemma dates [simp]: "first_of_month 739433 = 739433 \<and> first_of_month 739465 = 739464 \<and>
    year_of 739433 = 2025 \<and> month_of 739433 = 7"
  by code_simp

lemma texts_of_dates [simp]: "show_year_month 739433 = ''202507''" "show_month 739433 = ''2025-07''" "show_nat 2 = ''2''"
  by (simp_all add: show_year_month_def show_month_def show_nat_eval)

lemma month_of_july [simp]: "month_bounds env0 (Some 739433) = (739433, 739464)"
  by (simp add: month_bounds_def)

lemma plan_simps [simp]: "pl_id blog_plan = 1" "pl_workspace blog_plan = 1" "pl_price blog_plan = 10" "pl_code blog_plan = ''blog''"
  "pl_active blog_plan" "trial_period_days blog_plan = 0"
  "pl_id shop_plan = 2" "pl_workspace shop_plan = 1" "pl_price shop_plan = 20" "pl_code shop_plan = ''shop''"
  "pl_active shop_plan" "trial_period_days shop_plan = 7"
  by (simp_all add: blog_plan_def shop_plan_def)

lemma month_simps [simp]: "en_id blog_month = 1" "en_workspace blog_month = 2" "en_key blog_month = ''blog''"
  "en_plan blog_month = Some 1" "en_source blog_month = Purchased" "current_period_end blog_month = Some (midnight 739447)"
  "en_status blog_month = Ent_Active" "grace_until blog_month = None"
  by (simp_all add: blog_month_def)

lemma rows [simp]: "workspace_by_id db0 (Suc 0) = Some platform_ws" "workspace_by_id db0 2 = Some acme"
  "get_platform_workspace env0 db0 = Some platform_ws" "plan_by_id db0 (Some (Suc 0)) = Some blog_plan"
  "is_platform_workspace env0 platform_ws" "\<not> is_platform_workspace env0 acme"
  by (simp_all add: workspace_by_id_def get_platform_workspace_def plan_by_id_def is_platform_workspace_def)

lemma homes [simp]: "get_default_currency_for_workspace (Some platform_ws) = ''USD''"
  "get_default_currency_for_workspace (Some acme) = ''NZD''" "get_default_country_for_workspace (Some acme) = ''NZ''"
  "bill_currency acme = ''NZD''"
  by (simp_all add: get_default_currency_for_workspace_def get_default_country_for_workspace_def bill_currency_def or_else_def)

lemma sample_convert [simp]: "convert env0 db0 1 ''USD'' ''NZD'' (Some 739466) = Inr (17 / 10)"
  by (simp add: convert_def as_day_def quotes_def code_of_def latest_by_def db0_def)

lemma sample_renewals [simp]:
  "renewals_for db0 (midnight 739433, midnight 739464) 2 = [blog_month]"
  by (simp add: renewals_for_def in_bounds_def midnight_def)

lemma sample_metered [simp]:
  "metered_for db0 (739433, 739464) 2 = [\<lparr>mt_meter = ''chat'', mt_quantity = 200, mt_points = 13 / 5\<rparr>]"
  by (simp add: metered_for_def metered_rows_def db0_def)

definition july_run :: bill_run where
  "july_run = run_of env0 platform_ws (Some july) False"

lemma july_run_eq [simp]: "july_run = \<lparr>rn_platform = platform_ws, rn_start = 739433, rn_next = 739464,
    rn_due = 739480, rn_dry = False\<rparr>"
  by (simp add: july_run_def run_of_def bill_period_of_def july_def)

definition july_charges :: "bill_line list" where
  "july_charges = renewal_line blog_plan ''blog'' (17 / 10) 2
     # usage_lines [\<lparr>mt_meter = ''chat'', mt_quantity = 200, mt_points = 13 / 5\<rparr>] (17 / 10) 2"

lemma line_simps [simp]: "bl_subtotal (bill_line_of t q u s) = s" "bl_subtotal (taxed p n l) = bl_subtotal l"
  "bl_subtotal (renewal_line pl k r n) = round_to (pl_price pl * r) n"
  by (simp_all add: bill_line_of_def taxed_def renewal_line_def Let_def)

lemma usage_price: "map bl_subtotal (usage_lines [\<lparr>mt_meter = ''chat'', mt_quantity = 200, mt_points = 13 / 5\<rparr>] (17 / 10) 2) = [221 / 50]"
  by (simp add: usage_lines_def round_to_def quantize_half_up_def round_half_up_def Let_def)

lemma july_charged: "map bl_subtotal july_charges = [17, 221 / 50]"
  using usage_price
  by (simp add: july_charges_def round_to_def quantize_half_up_def round_half_up_def Let_def)

lemma sample_charges: "charge_lines env0 db0 db0 july_run acme 2 = Inr (july_charges, 17 / 10)"
  by (simp add: charge_lines_def POINT_CURRENCY_def renewal_period_bounds_def renewal_lines_def rate_or_refuse_def
      july_charges_def)

text \<open>The July bill: the renewal and the usage, less the trial credit of one point, and 15\% on each line.\<close>

definition july_lines :: "bill_line list" where
  "july_lines = map (taxed 15 2) (july_charges @ [bill_line_of (''Trial credit ('' @ show_normal 28 1 @ '' points)'') 1 (- (17 / 10)) (- (17 / 10))])"

lemma july_subtotals: "map bl_subtotal july_lines = [17, 221 / 50, - (17 / 10)]"
  using july_charged by (simp add: july_lines_def comp_def)

lemma july_sums: "(\<Sum>l\<leftarrow>july_charges. bl_subtotal l) = 1071 / 50"
  by (simp add: july_charged)

lemma sample_tax: "tax_percent db0 ''NZ'' 1 = 15"
  by (simp add: tax_percent_def db0_def earliest_by_def)

lemma sample_credit: "trial_credit env0 db0 2 (17 / 10) july_charges 2
    = Some (bill_line_of (''Trial credit ('' @ show_normal 28 1 @ '' points)'') 1 (- (17 / 10)) (- (17 / 10)))"
  by (simp add: trial_credit_def trial_line_def july_sums acme_profile_def round_to_def quantize_half_up_def round_half_up_def Let_def)

lemma sample_bill_lines: "bill_lines env0 db0 db0 july_run acme 2 = Inr (july_lines, True, 17 / 10)"
  using sample_tax by (simp add: bill_lines_def sample_charges [simplified] sample_credit july_lines_def Let_def)

lemma sample_candidates: "bill_candidates db0 (739433, 739464) (midnight 739433, midnight 739464) = [2]"
  by (simp add: bill_candidates_def metered_rows_def in_bounds_def midnight_def db0_def)

lemma sample_owner: "workspace_owners db0 [2] = [(2, 7)]"
  by (simp add: workspace_owners_def db0_def active_owner_def membership_workspace_def acme_profile_def)

lemma sample_turn: "bill_workspace env0 db0 july_run acme db0 = price_entry env0 db0 july_run acme 7 db0"
  by (simp add: bill_workspace_def blank_entry_def invoice_taken_def renewal_period_bounds_def sample_candidates sample_owner)

definition nzd :: currency where
  "nzd = \<lparr>cur_id = 2, cur_code = ''NZD'', cur_name = ''New Zealand Dollar'', decimal_places = 2, cur_active = True\<rparr>"

lemma sample_currency: "currency_row db0 ''NZD'' c = (Some nzd, db0)"
  by (simp add: currency_row_def find_currency_def db0_def nzd_def)

lemma sample_price: "price_entry env0 db0 july_run acme 7 db0 = issue_entry env0 july_run acme 7 (Some nzd) july_lines True (17 / 10) db0"
  using sample_bill_lines
  by (simp add: price_entry_def sample_currency bill_places_def nzd_def)

lemma sample_targets: "bill_targets env0 db0 july_run = [acme]"
  by (simp add: bill_targets_def renewal_period_bounds_def sample_candidates List.map_filter_simps)

lemma sample_run: "issue_monthly_bills env0 db0 (Some july) False =
    Inr (let (x, db) = issue_entry env0 july_run acme 7 (Some nzd) july_lines True (17 / 10) db0 in ([x], db))"
  using sample_targets sample_turn sample_price
  by (simp add: issue_monthly_bills_def july_run_def [symmetric] bill_turn_def del: july_run_eq)

text \<open>The bill that run writes, the database after it, and the same with the bill paid.\<close>

definition july_entry :: bill_entry where
  "july_entry = (blank_entry july_run acme)\<lparr>be_lines := july_lines, be_subtotal := lines_subtotal july_lines,
     be_tax := lines_tax july_lines, be_total := lines_subtotal july_lines + lines_tax july_lines, be_issued := True\<rparr>"

definition july_invoice :: invoice where
  "july_invoice = \<lparr>inv_id = 1, inv_workspace = 1, inv_customer = 1, inv_number = ''PLAT-2-202507'',
     inv_status = Inv_Sent, inv_subtotal = lines_subtotal july_lines, inv_tax = lines_tax july_lines,
     inv_total = lines_subtotal july_lines + lines_tax july_lines, inv_currency = 2, issue_date = 739466,
     due_date = 739480, paid_date = None, inv_notes = monthly_notes july_run acme (17 / 10) 739466\<rparr>"

definition july_items :: "invoice_item list" where
  "july_items = map (\<lambda>(k, l). item_of (1 + k) 1 l) (enumerate 0 july_lines)"

definition july_db :: platform_db where
  "july_db = db0\<lparr>customers := [\<lparr>cu_id = 1, cu_workspace = 1, cu_user = 7\<rparr>], invoices := [july_invoice],
     invoice_items := july_items, profiles := [acme_profile\<lparr>trial_points_used_at := Some noon\<rparr>]\<rparr>"

lemma sample_number [simp]: "invoice_number_for 2 739433 = ''PLAT-2-202507''"
  by (simp add: invoice_number_for_def invoice_number_prefix_def invoice_prefix_def)

lemma sample_issued: "issue_entry env0 july_run acme 7 (Some nzd) july_lines True (17 / 10) db0 = (july_entry, july_db)"
  by (simp add: issue_entry_def write_bill_def get_or_create_customer_def customer_of_def create_invoice_def invoice_taken_def
      july_entry_def july_db_def july_invoice_def july_items_def create_items_def fresh_id_def nzd_def spend_trial_def
      get_or_create_profile_def save_profile_def update_where_def profile_of_def acme_profile_def Let_def)


lemma sample_july: "issue_monthly_bills env0 db0 (Some july) False = Inr ([july_entry], july_db)"
  by (simp only: sample_run sample_issued Let_def prod.case)

lemma july_db_simps [simp]:
  "workspaces july_db = [platform_ws, acme]" "profiles july_db = [acme_profile\<lparr>trial_points_used_at := Some noon\<rparr>]"
  "ext_records july_db = [blog_record]" "plans july_db = [blog_plan, shop_plan]" "entitlements july_db = [blog_month]"
  "invoices july_db = [july_invoice]" "invoice_items july_db = july_items" "usage_records july_db = usage_records db0"
  "memberships july_db = memberships db0" "exchange_rates july_db = exchange_rates db0" "tax_rates july_db = tax_rates db0"
  "currencies july_db = currencies db0" "cached july_db = (\<lambda>_. None)"
  by (simp_all add: july_db_def)

lemma july_entry_simps [simp]: "be_issued july_entry" "be_workspace july_entry = 2" "be_number july_entry = ''PLAT-2-202507''"
  "be_lines july_entry = july_lines" "be_subtotal july_entry = 493 / 25"
  using july_subtotals by (simp_all add: july_entry_def blank_entry_def lines_subtotal_def del: july_run_eq) simp_all

lemma july_invoice_simps [simp]: "inv_id july_invoice = 1" "inv_workspace july_invoice = 1" "inv_number july_invoice = ''PLAT-2-202507''"
  "inv_status july_invoice = Inv_Sent" "inv_subtotal july_invoice = 493 / 25" "issue_date july_invoice = 739466"
  "due_date july_invoice = 739480"
  using july_subtotals by (simp_all add: july_invoice_def lines_subtotal_def)

lemma db0_ok: "invoices_ok db0" "profiles_ok db0" "prices_ok db0" "usage_ok db0" "ent_ok db0" "ext_ok db0" "rates_ok db0"
  "memberships_ok db0" "one_owner db0" "workspaces_ok db0"
  by (simp_all add: invoices_ok_def profiles_ok_def prices_ok_def usage_ok_def ent_ok_def ext_ok_def rates_ok_def
      currencies_ok_def memberships_ok_def one_owner_def workspaces_ok_def db0_def acme_profile_def)

lemma db0_plans: "plans_linked db0"
  by (simp add: plans_linked_def)

definition paid_db :: platform_db where
  "paid_db = july_db\<lparr>invoices := [july_invoice\<lparr>inv_status := Inv_Paid\<rparr>]\<rparr>"

definition blog_august :: entitlement where
  "blog_august = next_period (Suc (Suc 0)) 2 blog_month"

lemma blog_august_simps [simp]: "en_key blog_august = ''blog''" "en_workspace blog_august = 2" "starts_at blog_august = midnight 739447"
  by (simp_all add: blog_august_def next_period_def)

lemma paid_db_simps [simp]:
  "workspaces paid_db = [platform_ws, acme]" "entitlements paid_db = [blog_month]" "plans paid_db = [blog_plan, shop_plan]"
  "invoices paid_db = [july_invoice\<lparr>inv_status := Inv_Paid\<rparr>]" "ext_records paid_db = [blog_record]"
  by (simp_all add: paid_db_def)

lemma paid_ok: "ent_ok paid_db" "plans_linked paid_db" "invoices_ok paid_db"
  by (simp_all add: ent_ok_def plans_linked_def plan_by_id_def invoices_ok_def paid_db_def july_items_def item_of_def image_iff split_beta)

lemma july_number [simp]: "billed_workspace_and_period ''PLAT-2-202507'' = Some (2, 739433)"
  using billed_number [of 739433 2] by (simp add: bill_period_def)

lemma july_buys: "bill_buys env0 paid_db 1 = Inr (Some (''PLAT-2-202507'', 2, A_Month 739433))"
  by (simp add: bill_buys_def get_platform_workspace_def)

lemma july_renewals: "renewal_period_bounds env0 739433 = (midnight 739433, midnight 739464)"
  by (simp add: renewal_period_bounds_def)

lemma july_charged_rows: "charged_rows env0 paid_db 2 739433 = [blog_month]"
  by (simp add: charged_rows_def july_renewals in_bounds_def midnight_def)

lemma july_due: "\<not> already_renewed paid_db 2 ''blog'' (period_after blog_month)"
  using add_months_later [of 1 "midnight 739447"]
  by (simp add: already_renewed_def period_after_def RENEWAL_MONTHS_def)

lemma july_paid: "renew_for_invoice env0 paid_db 1
    = Inr ([blog_august], forget_answers 2 (paid_db\<lparr>entitlements := [blog_month, blog_august]\<rparr>))"
  by (simp add: renew_for_invoice_def july_buys [simplified] invoice_by_id_def write_next_periods_def july_charged_rows july_due
      fresh_id_def blog_august_def update_where_def Let_def)

end
