(* ===== verification/Witnesses.thy ===== *)
theory Witnesses
  imports Samples
begin

text \<open>
  The properties of billing, buying and renewing, applied to the sample deployment: each says that
  the situation the property is about exists, and what the property comes to there.
\<close>

subsection \<open>Billing\<close>

theorem bills_add_up_witness:
  "issue_monthly_bills env0 db0 (Some july) False = Inr ([july_entry], july_db) \<and> invoices_ok july_db \<and>
    bill_for env0 1 july_db july_entry july_invoice \<and> inv_subtotal july_invoice = 493 / 25"
  using bills_add_up [OF sample_july db0_ok(1) rows(3)] sample_july by simp

lemma second_candidates: "bill_candidates july_db p b = bill_candidates db0 p b"
  by (simp add: bill_candidates_def metered_rows_def)

lemma second_workspace [simp]: "workspace_by_id july_db 2 = Some acme"
  by (simp add: workspace_by_id_def)

lemma second_targets: "bill_targets env0 july_db july_run = [acme]"
  by (simp add: bill_targets_def second_candidates sample_candidates renewal_period_bounds_def List.map_filter_simps)

lemma second_run: "\<exists>x. issue_monthly_bills env0 july_db (Some july) False = Inr ([x], july_db) \<and> be_workspace x = 2"
proof -
  have p: "get_platform_workspace env0 july_db = Some platform_ws" by (simp add: get_platform_workspace_def)
  have "bill_workspace env0 july_db july_run acme july_db
      = ((blank_entry july_run acme)\<lparr>be_skipped := Some Already_Billed\<rparr>, july_db)"
    by (simp add: bill_workspace_def blank_entry_def invoice_taken_def)
  with p second_targets show ?thesis
    by (simp add: issue_monthly_bills_def july_run_def [symmetric] bill_turn_def del: july_run_eq) (simp add: blank_entry_def)
qed

theorem never_billed_twice_witness:
  "be_issued july_entry \<and> (\<exists>x. issue_monthly_bills env0 july_db (Some july) False = Inr ([x], july_db) \<and>
     be_workspace x = 2 \<and> \<not> be_issued x)"
proof -
  have p: "get_platform_workspace env0 july_db = Some platform_ws" by (simp add: get_platform_workspace_def)
  from second_run obtain x where "issue_monthly_bills env0 july_db (Some july) False = Inr ([x], july_db)" "be_workspace x = 2"
    by blast
  with never_billed_twice [OF sample_july db0_ok(1) this(1) rows(3) p refl refl, of july_entry x] show ?thesis by simp
qed

lemma dry_july: "\<exists>es db. issue_monthly_bills env0 db0 (Some july) True = Inr (es, db)"
  by (simp add: issue_monthly_bills_def Let_def)

theorem dry_run_writes_nothing_witness: "\<exists>es. issue_monthly_bills env0 db0 (Some july) True = Inr (es, db0)"
  using dry_july dry_run_writes_nothing [OF _ rows(3)] by metis

theorem trial_credit_once_witness:
  "issue_monthly_bills env0 db0 (Some july) False = Inr ([july_entry], july_db) \<and> credited july_entry \<and>
    \<not> has_used_trial db0 2 \<and> has_used_trial july_db 2 \<and> 0 \<le> be_subtotal july_entry"
proof -
  have "- (17 / 10 :: rat) \<in> set (map bl_subtotal july_lines)" by (simp only: july_subtotals) simp
  then have c: "credited july_entry" by (force simp: credited_def)
  with trial_credit_once [OF sample_july rows(3) db0_ok(2,3)] sample_july show ?thesis by simp
qed

theorem charges_of_a_month_witness:
  "\<exists>us. july_charges = [renewal_line blog_plan ''blog'' (17 / 10) 2] @ us \<and>
    \<bar>lines_subtotal us - 13 / 5 * (17 / 10)\<bar> \<le> 17 / 2000 + 1 / 200"
proof -
  have "\<And>u. u \<in> set (usage_records db0) \<Longrightarrow> 0 \<le> ur_points u" by (simp add: db0_def)
  from charges_of_a_month [OF sample_charges db0_ok(3) this]
  obtain rs us where c: "july_charges = rs @ us"
      "list_all2 (\<lambda>row l. \<exists>p x. plan_by_id db0 (en_plan row) = Some p \<and>
        rate_or_refuse env0 db0 (get_default_currency_for_workspace (workspace_by_id db0 (pl_workspace p))) ''NZD'' = Inr x \<and>
        l = renewal_line p (en_key row) x 2) [blog_month] rs"
      "\<bar>lines_subtotal us - (\<Sum>u\<leftarrow>filter (\<lambda>u. ur_workspace u = 2) (metered_rows db0 (739433, 739464)). ur_points u) * (17 / 10)\<bar>
        \<le> 1 * (17 / 10 / 200 + 1 / (2 * 10 ^ 2))"
    by (auto simp: chargeable_def renewal_period_bounds_def)
  have "filter (\<lambda>u. ur_workspace u = 2) (metered_rows db0 (739433, 739464)) = usage_records db0"
    by (simp add: metered_rows_def db0_def)
  with c(3) have u: "\<bar>lines_subtotal us - 13 / 5 * (17 / 10)\<bar> \<le> 17 / 2000 + 1 / 200" by (simp add: db0_usage)
  from c(2) obtain x where "rate_or_refuse env0 db0 ''USD'' ''NZD'' = Inr x" "rs = [renewal_line blog_plan ''blog'' x 2]"
    by (auto simp: list_all2_Cons1)
  moreover have "rate_or_refuse env0 db0 ''USD'' ''NZD'' = Inr (17 / 10)" by (simp add: rate_or_refuse_def)
  ultimately have "rs = [renewal_line blog_plan ''blog'' (17 / 10) 2]" by (metis sum.inject(2))
  with c(1) u show ?thesis by (intro exI [of _ us]) simp
qed

theorem may_meter_iff_witness:
  "fst (may_meter env0 (forget_overdue 2 db0) 2 (Some july)) \<and> \<not> owes env0 db0 2 \<and>
    points_used env0 db0 2 (Some july) = 13 / 5 \<and> monthly_cap env0 db0 2 = 20"
proof -
  have "\<not> owes env0 db0 2" by (simp add: owes_def)
  moreover have "points_used env0 db0 2 (Some july) = 13 / 5"
    by (simp add: points_used_def usage_in_def july_def db0_def)
  moreover have "monthly_cap env0 db0 2 = 20" by (simp add: monthly_cap_def acme_profile_def)
  ultimately show ?thesis using may_meter_iff [of env0 2 db0 "Some july"] by simp
qed

subsection \<open>Renewing\<close>

theorem renewal_idempotent_witness:
  "\<exists>db. renew_for_invoice env0 paid_db 1 = Inr ([blog_august], db) \<and> renew_for_invoice env0 db 1 = Inr ([], db)"
  using july_paid renewal_idempotent [OF july_paid paid_ok(1) refl] by blast

theorem only_paid_bills_buy_witness:
  "inv_status july_invoice = Inv_Sent \<and> renew_for_invoice env0 july_db 1 = Inr ([], july_db)"
proof -
  have ok: "invoices_ok july_db" using paid_ok(3) by (simp add: invoices_ok_def paid_db_def)
  obtain rows db where r: "renew_for_invoice env0 july_db 1 = Inr (rows, db)"
    by (simp add: renew_for_invoice_def bill_buys_def get_platform_workspace_def invoice_by_id_def)
  have "rows = [] \<and> db = july_db"
    by (rule only_paid_bills_buy [OF _ r ok]) simp
  with r show ?thesis by simp
qed

theorem paid_month_renews_witness:
  "\<exists>db. renew_for_invoice env0 paid_db 1 = Inr ([blog_august], db) \<and> entitlements db = [blog_month, blog_august] \<and>
    current_period_end blog_august = Some (add_months (midnight 739447) 1) \<and> blog_august \<in> set (charged_rows env0 db 2 739464)"
proof -
  have m: "month_index 739464 = month_index 739433 + 1" by code_simp
  have p: "map_option inv_status (invoice_by_id paid_db 1) = Some Inv_Paid" by (simp add: invoice_by_id_def)
  have d: "filter (\<lambda>r. \<not> already_renewed paid_db 2 (en_key r) (add_months (the (current_period_end r)) 1)) [blog_month] = [blog_month]"
    using july_due by (simp add: period_after_def RENEWAL_MONTHS_def)
  have r: "filter (chargeable paid_db) (renewals_for paid_db (renewal_period_bounds env0 739433) 2) = [blog_month]"
    by (simp add: renewals_for_def in_bounds_def july_renewals midnight_def chargeable_def plan_by_id_def)
  from paid_month_renews [OF july_paid july_buys p paid_ok(1,2) m, of env0, unfolded r d] july_paid show ?thesis
    by (simp add: forget_answers_def forget_read_only_def forget_overdue_def)
qed

theorem paying_keeps_and_gives_witness:
  "\<exists>db. renew_for_invoice env0 paid_db 1 = Inr ([blog_august], db) \<and>
     \<not> entitled_at env0 noon paid_db 2 ''blog'' \<and> entitled_at env0 noon db 2 ''blog''"
proof -
  obtain db where r: "renew_for_invoice env0 paid_db 1 = Inr ([blog_august], db)" using july_paid by blast
  have "midnight 739478 \<le> add_months (midnight 739447) 1" by code_simp
  then have "noon \<le> the (current_period_end blog_august)"
    by (simp add: blog_august_def next_period_def period_after_def RENEWAL_MONTHS_def midnight_def)
  with paying_keeps_and_gives [OF r paid_ok(1), of noon 2 "''blog''"]
  have "entitled_at env0 noon db 2 ''blog''" by simp
  moreover have "\<not> entitled_at env0 noon paid_db 2 ''blog''"
    by (simp add: entitled_at_def live_def midnight_def days_delta_def)
  ultimately show ?thesis using r by blast
qed

theorem heard_more_than_once_witness:
  "\<exists>db. on_invoice_paid env0 paid_db (Some (july_invoice\<lparr>inv_status := Inv_Paid\<rparr>)) = db \<and> entitlements db = [blog_month, blog_august] \<and>
    on_payment_completed env0 db (Some 1) = db \<and> on_invoice_saved env0 db (july_invoice\<lparr>inv_status := Inv_Paid\<rparr>) False = Inr db"
proof -
  let ?v = "july_invoice\<lparr>inv_status := Inv_Paid\<rparr>"
  let ?db = "on_invoice_paid env0 paid_db (Some ?v)"
  have "is_platform_bill (inv_number ?v) = Inr True" by (simp add: is_platform_bill_def)
  from heard_more_than_once [OF _ paid_ok(1) refl this] have
    "on_payment_completed env0 ?db (Some 1) = ?db \<and> on_invoice_saved env0 ?db ?v False = Inr ?db" by simp
  moreover have "entitlements ?db = [blog_month, blog_august]"
    using july_paid by (simp add: on_invoice_paid_def queue_renewal_def forget_answers_def forget_read_only_def forget_overdue_def)
  ultimately show ?thesis by blast
qed

end
