(* ===== verification/Samples_Buying.thy ===== *)
theory Samples_Buying
  imports Samples
begin

text \<open>
  The same workspace buys: the blog again, whose month ran out, which is billed; and the shop, which
  comes with a trial.
\<close>

abbreviation check0 :: ent_check where
  "check0 \<equiv> Some (entitlement_check env0)"

lemma addon_simps [simp]: "mf_key (addon k) = k" "scope (addon k) = SCOPE_WORKSPACE" "pricing (addon k) = PRICING_ADDON"
  "visibility (addon k) = VISIBILITY_PUBLIC" "activation_policy (addon k) = ACTIVATION_WORKSPACE_OWNER"
  "requires (addon k) = []" "prerequisites (addon k) = []" "on_activate (addon k) = None" "on_deactivate (addon k) = None"
  "default_storefront_skin (addon k) = ''''" "clean_config (addon k) = None"
  by (simp_all add: addon_def)

lemma registered [simp]: "get_manifest registry ''blog'' = Some (addon ''blog'')"
  "get_manifest registry ''shop'' = Some (addon ''shop'')"
  "get_manifest registry ''news'' = Some ((addon ''news'')\<lparr>requires := [''blog'']\<rparr>)"
  by (simp_all add: get_manifest_def registry_def)

lemma manageable: "require_manageable registry ''blog'' ACTIVATION_SYSTEM = Inr (addon ''blog'')"
  "require_manageable registry ''shop'' ACTIVATION_SYSTEM = Inr (addon ''shop'')"
  by (simp_all add: require_manageable_def can_manage_def can_discover_def is_activatable_def)

lemma priced: "plan_for env0 db0 ''blog'' = Some blog_plan" "plan_for env0 db0 ''shop'' = Some shop_plan"
  by (simp_all add: plan_for_def earliest_by_def)

lemma blog_lapsed: "\<not> is_entitled env0 db0 (Some 2) ''blog''" "\<not> is_entitled env0 db0 (Some 2) ''shop''"
  by (simp_all add: is_entitled_def entitled_at_def live_def midnight_def days_delta_def)

definition blog_ab :: addon_bill where
  "blog_ab = addon_bill_of env0 db0 platform_ws 7 acme ''blog'' blog_plan nzd (17 / 10)"

definition blog_bill :: invoice where
  "blog_bill = \<lparr>inv_id = 1, inv_workspace = 1, inv_customer = 1, inv_number = acquisition_number 2 ''blog'' 1,
     inv_status = Inv_Sent, inv_subtotal = ab_price blog_ab, inv_tax = ab_tax blog_ab,
     inv_total = ab_price blog_ab + ab_tax blog_ab, inv_currency = ab_currency blog_ab, issue_date = 739466,
     due_date = ab_due blog_ab, paid_date = None, inv_notes = ab_notes blog_ab\<rparr>"

lemma blog_ab_simps: "ab_platform blog_ab = 1" "ab_owner blog_ab = 7" "ab_price blog_ab = 17" "ab_tax blog_ab = 51 / 20"
  using sample_tax
  by (simp_all add: blog_ab_def addon_bill_of_def Let_def nzd_def round_to_def quantize_half_up_def round_half_up_def)

lemma blog_number: "next_number db0 1 2 ''blog'' = Inr (acquisition_number 2 ''blog'' 1)"
  by (simp add: next_number_def used_numbers_def number_limit_def acquisition_number_def acquisition_number_prefix_def
      invoice_number_prefix_def invoice_prefix_def show_nat_eval)

lemma blog_issued: "\<exists>db. try_numbers env0 blog_ab 2 ''blog'' NUMBER_ATTEMPTS db0 = (Inr blog_bill, db)"
  by (simp add: NUMBER_ATTEMPTS_def numeral_3_eq_3 blog_number [simplified] blog_ab_simps write_addon_bill_def get_or_create_customer_def
      customer_of_def create_invoice_def invoice_taken_def Let_def fresh_id_def blog_bill_def)

lemma homes_upper [simp]: "currency_code_of (Some acme) = ''NZD''" "currency_code_of (Some platform_ws) = ''USD''"
  by (simp_all add: currency_code_of_def or_else_def)

lemma blog_acquired: "\<exists>db. acquire env0 registry check0 db0 acme ''blog'' (Some 7) ACTIVATION_SYSTEM
    = (Inr (invoice_answer blog_bill True), db)"
proof -
  obtain db where "try_numbers env0 blog_ab 2 ''blog'' NUMBER_ATTEMPTS db0 = (Inr blog_bill, db)" using blog_issued by blast
  then have "issue_bill env0 db0 acme ''blog'' blog_plan = (Inr blog_bill, db)"
    by (simp add: issue_bill_def sample_owner sample_currency blog_ab_def Let_def)
  then show ?thesis
    by (simp add: acquire_def manageable blog_lapsed priced outstanding_invoice_def acquire_priced_def trial_days_of_def Let_def)
qed

definition shop_trial :: entitlement where
  "shop_trial = new_entitlement db0 2 ''shop'' (Some 2) Purchased noon (Some (noon + days_delta 7)) ''''"

lemma shop_record: "record_of db0 2 ''shop'' = None"
  by (simp add: record_of_def blog_record_def)

lemma shop_switched: "\<exists>r db. activate env0 registry check0 (db0\<lparr>entitlements := [blog_month, shop_trial]\<rparr>) 2 ''shop'' (Some 7) None ACTIVATION_SYSTEM
    = Inr (r, db)"
proof -
  have "is_entitled env0 (db0\<lparr>entitlements := [blog_month, shop_trial], ext_records := x\<rparr>) (Some 2) ''shop''" for x
    by (simp add: is_entitled_def entitled_at_def live_def shop_trial_def new_entitlement_def days_delta_def)
  then show ?thesis
    by (simp add: activate_def manageable ensure_record_def record_of_def blog_record_def activation_refusal_def ext_entitled_def
        entitlement_check_def switch_on_def run_hook_def Let_def)
qed

lemma shop_acquired: "\<exists>db. acquire env0 registry check0 db0 acme ''shop'' (Some 7) ACTIVATION_SYSTEM
    = (Inr \<lparr>aq_entitlement = Some shop_trial, aq_invoice = None, aq_invoice_is_new = True, aq_trial_days = 7, aq_billed_later = False\<rparr>, db)"
proof -
  have t: "new_entitlement db0 2 ''shop'' (Some 2) Purchased 63889905600000000 (Some 63890510400000000) '''' = shop_trial"
    by (simp add: shop_trial_def days_delta_def)
  obtain r db where "activate env0 registry check0 (db0\<lparr>entitlements := [blog_month, shop_trial]\<rparr>) 2 ''shop'' (Some 7) None ACTIVATION_SYSTEM
    = Inr (r, db)" using shop_switched by blast
  then have "entitle env0 registry check0 db0 acme ''shop'' shop_plan (Some 7) (Some noon) (Some (noon + days_delta 7)) ACTIVATION_SYSTEM
      = (Inr shop_trial, db)"
    by (simp add: entitle_def shop_trial_def [symmetric] t days_delta_def)
  then show ?thesis
    by (simp add: acquire_def manageable blog_lapsed priced outstanding_invoice_def acquire_priced_def trial_days_of_def has_held_def
        entitled_answer_def Let_def)
qed

end
