(* ===== verification/Witnesses_Buying.thy ===== *)
theory Witnesses_Buying
  imports Samples_Buying
begin

text \<open>The properties of acquisitions, applied to the workspace that buys two add-ons.\<close>

lemma no_hooks: "quiet (on_activate (addon k))" "quiet (on_deactivate (addon k))"
  by (simp_all add: quiet_def)

theorem acquire_outcome_witness:
  "(\<exists>db. acquire env0 registry check0 db0 acme ''blog'' (Some 7) ACTIVATION_SYSTEM = (Inr (invoice_answer blog_bill True), db) \<and>
     bill_frame db0 db \<and> addon_bill_ok env0 db0 acme ''blog'' blog_bill db)"
proof -
  obtain db where a: "acquire env0 registry check0 db0 acme ''blog'' (Some 7) ACTIVATION_SYSTEM
    = (Inr (invoice_answer blog_bill True), db)" using blog_acquired by blast
  from acquire_outcome [OF a db0_ok(1) manageable(1) db0_ok(6) no_hooks(1)] a show ?thesis
    by (auto simp: invoice_answer_def)
qed

theorem asking_twice_is_one_bill_witness:
  "\<exists>db. acquire env0 registry check0 db0 acme ''blog'' (Some 7) ACTIVATION_SYSTEM = (Inr (invoice_answer blog_bill True), db) \<and>
     acquire env0 registry check0 db acme ''blog'' (Some 7) ACTIVATION_SYSTEM = (Inr (invoice_answer blog_bill False), db)"
proof -
  obtain db where a: "acquire env0 registry check0 db0 acme ''blog'' (Some 7) ACTIVATION_SYSTEM
    = (Inr (invoice_answer blog_bill True), db)" using blog_acquired by blast
  from asking_twice_is_one_bill [OF a db0_ok(1), of blog_bill] a show ?thesis by (simp add: invoice_answer_def)
qed

theorem addon_bill_number_witness:
  "\<exists>db. acquire env0 registry check0 db0 acme ''blog'' (Some 7) ACTIVATION_SYSTEM = (Inr (invoice_answer blog_bill True), db) \<and>
     inv_number blog_bill = ''PLAT-2-ADD-blog-1'' \<and> acquired_workspace_and_key (inv_number blog_bill) = Inr (Some (2, ''blog''))"
proof -
  obtain db where a: "acquire env0 registry check0 db0 acme ''blog'' (Some 7) ACTIVATION_SYSTEM
    = (Inr (invoice_answer blog_bill True), db)" using blog_acquired by blast
  have k: "is_extension_key ''blog''" by (simp add: is_extension_key_def key_body_def key_char_def lower_letter_def)
  have "inv_number blog_bill = ''PLAT-2-ADD-blog-1''"
    by (simp add: blog_bill_def acquisition_number_def acquisition_number_prefix_def invoice_number_prefix_def invoice_prefix_def
        show_nat_eval)
  with addon_bill_number [OF a db0_ok(1) k rows(3)] a show ?thesis by (simp add: invoice_answer_def)
qed

theorem acquired_is_usable_witness:
  "\<exists>a db. acquire env0 registry check0 db0 acme ''shop'' (Some 7) ACTIVATION_SYSTEM = (Inr a, db) \<and>
     aq_entitlement a = Some shop_trial \<and> is_entitled env0 db (Some 2) ''shop'' \<and> fst (is_available env0 registry check0 db (Some 2) ''shop'')"
proof -
  let ?a = "\<lparr>aq_entitlement = Some shop_trial, aq_invoice = None, aq_invoice_is_new = True, aq_trial_days = 7, aq_billed_later = False\<rparr>"
  obtain db where a: "acquire env0 registry check0 db0 acme ''shop'' (Some 7) ACTIVATION_SYSTEM = (Inr ?a, db)"
    using shop_acquired by blast
  have "''shop'' \<notin> set (active_keys db0 (ws_id acme))" by (simp add: active_keys_def blog_record_def)
  from acquired_is_usable [OF a db0_ok(1) manageable(2) db0_ok(6) no_hooks(1) _ this] a show ?thesis by auto
qed

end
