(* ===== verification/Witnesses_Platform.thy ===== *)
theory Witnesses_Platform
  imports Samples_Buying
begin

text \<open>
  The properties of numbers, usage, rates, ownership, entitlements, extensions, placement and
  variables, applied to the sample deployment.
\<close>

subsection \<open>Numbers, usage, rates and owners\<close>

lemma blog_key: "is_extension_key ''blog''"
  by (simp add: is_extension_key_def key_body_def key_char_def lower_letter_def)

lemma july_period: "bill_period 739433"
  by (simp add: bill_period_def)

theorem bill_numbers_identify_witness:
  "invoice_number_for 2 739433 = ''PLAT-2-202507'' \<and> billed_workspace_and_period ''PLAT-2-202507'' = Some (2, 739433) \<and>
    acquired_workspace_and_key ''PLAT-2-202507'' = Inr None \<and>
    acquired_workspace_and_key (acquisition_number 2 ''blog'' 1) = Inr (Some (2, ''blog''))"
  using bill_numbers_identify [OF july_period blog_key, of 2 1] by simp

definition chat_price :: meter_price where
  "chat_price = \<lparr>mp_id = 1, mp_meter = ''chat'', vendor_cost = 1 / 100, unit_size = 1, margin = None, effective_from = 0\<rparr>"

lemma chat_priced: "price_for env0 db0 ''chat'' (Some noon) = Inr chat_price"
  by (simp add: price_for_def latest_by_def db0_def chat_price_def)

theorem record_usage_adds_witness:
  "\<exists>r db. record_usage env0 db0 2 ''chat'' 100 None = Inr (r, db) \<and>
     points_used env0 db 2 (Some 739466) = points_used env0 db0 2 (Some 739466) + 13 / 10 \<and>
     points_used env0 db 2 (Some 739433) = points_used env0 db0 2 (Some 739433)"
proof -
  obtain r db where r: "record_usage env0 db0 2 ''chat'' 100 None = Inr (r, db)"
    using chat_priced by (simp add: record_usage_def points_for_def same_usage_def db0_usage chat_price_def Let_def)
  have p: "points_at env0 chat_price 100 = 13 / 10"
    by (simp add: points_at_def points_per_unit_def chat_price_def quantize_half_up_def round_half_up_def)
  have m: "month_index 739466 = month_index 739466 \<and> month_index 739466 \<noteq> month_index 739433" by code_simp
  from record_usage_adds [OF r db0_ok(4)] chat_priced
  have "points_used env0 db w' (Some d) = points_used env0 db0 w' (Some d)
      + (if w' = 2 \<and> month_index 739466 = month_index d then points_at env0 chat_price 100 else 0)" for w' d
    by auto
  with r p m show ?thesis by auto
qed

theorem add_price_history_witness:
  "\<exists>p db. add_price 2147483647 env0 db0 ''chat'' 2 1 None None = Inr (p, db) \<and> effective_from p = noon \<and>
     price_for env0 db ''chat'' (Some 1) = Inr chat_price \<and> price_for env0 db ''chat'' (Some noon) = Inr p"
proof -
  obtain p db where p: "add_price 2147483647 env0 db0 ''chat'' 2 1 None None = Inr (p, db)" "effective_from p = noon" "mp_meter p = ''chat''"
    by (simp add: add_price_def price_problems_def fits_column_def on_grid_def strip_def whitespace_def Let_def)
  have "price_for env0 db0 ''chat'' (Some 1) = Inr chat_price"
    by (simp add: price_for_def latest_by_def db0_def chat_price_def)
  with add_price_history [OF p(1), of 1 "''chat''"] add_price_history [OF p(1), of noon "''chat''"] p show ?thesis
    by (auto simp: db0_def)
qed

theorem set_monthly_cap_in_force_witness:
  "\<exists>db. set_monthly_cap db0 2 (Some (Number 5)) = Inr (Some 5, db) \<and> monthly_cap env0 db 2 = 5 \<and> monthly_cap env0 db 3 = monthly_cap env0 db0 3"
proof -
  obtain db where s: "set_monthly_cap db0 2 (Some (Number 5)) = Inr (Some 5, db)"
    by (simp add: set_monthly_cap_def as_cap_def quantize_half_even_def round_half_even_def get_or_create_profile_def Let_def)
  from set_monthly_cap_in_force [OF db0_ok(2), where w = 2 and n = "Number 5" and e = env0] s show ?thesis by simp
qed

theorem convert_latest_rate_witness:
  "convert env0 db0 10 ''USD'' ''NZD'' (Some 739466) = Inr 17 \<and>
   (\<exists>r. r \<in> set (exchange_rates db0) \<and> quotes db0 ''USD'' ''NZD'' 739466 r \<and> 17 = 10 * er_rate r)"
proof -
  have c: "convert env0 db0 10 ''USD'' ''NZD'' (Some 739466) = Inr 17"
    by (simp add: convert_def as_day_def quotes_def code_of_def latest_by_def db0_def)
  with convert_latest_rate [where e = env0 and db = db0 and a = 10 and f = "''USD''" and t = "''NZD''" and d = 739466] show ?thesis by auto
qed

definition usd :: currency where
  "usd = \<lparr>cur_id = 1, cur_code = ''USD'', cur_name = ''US Dollar'', decimal_places = 2, cur_active = True\<rparr>"

theorem set_rate_in_force_witness:
  "\<exists>r db. set_rate env0 db0 ''USD'' ''NZD'' (Number 2) (Some 739466) None = (Inr r, db) \<and> er_rate r = 2 \<and>
     convert env0 db 10 ''USD'' ''NZD'' (Some 739466) = Inr 20 \<and>
     convert env0 db 10 ''USD'' ''NZD'' (Some 739465) = convert env0 db0 10 ''USD'' ''NZD'' (Some 739465)"
proof -
  have "rate_currency db0 ''USD'' = (Some usd, db0)" "rate_currency db0 ''NZD'' = (Some nzd, db0)"
    by (simp_all add: rate_currency_def find_currency_def db0_def usd_def nzd_def Let_def)
  then obtain r db where s: "set_rate env0 db0 ''USD'' ''NZD'' (Number 2) (Some 739466) None = (Inr r, db)"
    by (cases "upsert_rate (cur_id usd) (cur_id nzd) 739466 2 Rate_Manual None db0")
      (simp add: set_rate_def currency_code_ok_def isalpha_def alpha_char_def upper_letter_def lower_letter_def quantize_half_up_def
        round_half_up_def as_day_def Let_def)
  from set_rate_in_force [OF s db0_ok(7)] have
    "er_rate r = 2" "convert env0 db 10 ''USD'' ''NZD'' (Some 739466) = Inr (10 * er_rate r)"
    "convert env0 db 10 ''USD'' ''NZD'' (Some 739465) = convert env0 db0 10 ''USD'' ''NZD'' (Some 739465)"
    by (auto simp: quantize_half_up_def round_half_up_def)
  with s show ?thesis by auto
qed

theorem assign_keeps_one_owner_witness:
  "assign_workspace_owner env0 db0 2 8 = Inl (Workspace_Already_Owned 2 7) \<and> is_workspace_owner db0 (Some 7) (Some 2) \<and>
   (\<exists>m db. assign_workspace_owner env0 db0 1 8 = Inr (m, db) \<and> is_workspace_owner db (Some 8) (Some 1) \<and> one_owner db)"
proof -
  have a: "assign_workspace_owner env0 db0 2 8 = Inl (Workspace_Already_Owned 2 7)"
    by (simp add: assign_workspace_owner_def get_or_create_profile_def acme_profile_def active_owner_def db0_def profile_of_def)
  obtain m db where b: "assign_workspace_owner env0 db0 1 8 = Inr (m, db)"
    by (simp add: assign_workspace_owner_def get_or_create_profile_def acme_profile_def active_owner_def db0_def profile_of_def
        new_profile_def fresh_id_def Let_def)
  from assign_keeps_one_owner [OF db0_ok(2,8,9), where e = env0 and w = 2 and user = 8] a assign_keeps_one_owner [OF db0_ok(2,8,9), where e = env0 and w = 1 and user = 8] b
  show ?thesis by auto
qed

subsection \<open>Entitlements\<close>

text \<open>On the third of August the blog's month and its grace of fourteen days are over.\<close>

lemma sample_sweep: "\<exists>db. close_due_periods env0 db0 (Some noon)
    = (\<lparr>moved_to_grace = 1, ended = 1, extensions_paused = 1\<rparr>, db) \<and> ext_records db = [paused noon blog_record]"
  by (simp add: close_due_periods_def due_for_grace_def to_grace_def grace_lapsed_def to_ended_def update_where_def
      count_where_def pause_extensions_def KEY_BASE_PLAN_def entitled_at_def live_def days_delta_def midnight_def blog_record_def
      invalidate_def invalidate_storefront_def Let_def)

theorem sweep_changes_no_answer_witness:
  "\<exists>c db. close_due_periods env0 db0 (Some noon) = (c, db) \<and> ended c = 1 \<and>
     \<not> entitled_at env0 noon db0 2 ''blog'' \<and> \<not> entitled_at env0 noon db 2 ''blog''"
proof -
  obtain c db where s: "close_due_periods env0 db0 (Some noon) = (c, db)" "ended c = 1" using sample_sweep by auto
  moreover have "\<not> entitled_at env0 noon db0 2 ''blog''" by (simp add: entitled_at_def live_def days_delta_def midnight_def)
  ultimately show ?thesis using sweep_changes_no_answer [OF s(1) db0_ok(5), of 2 "''blog''"] by blast
qed

theorem sweep_idempotent_witness:
  "\<exists>db. close_due_periods env0 db0 (Some noon) = (\<lparr>moved_to_grace = 1, ended = 1, extensions_paused = 1\<rparr>, db) \<and>
     close_due_periods env0 db (Some noon) = (\<lparr>moved_to_grace = 0, ended = 0, extensions_paused = 0\<rparr>, db)"
  using sample_sweep sweep_idempotent [OF _ db0_ok(5)] by metis

theorem sweep_pauses_exactly_the_lapsed_witness:
  "\<exists>c db. close_due_periods env0 db0 (Some noon) = (c, db) \<and> ext_records db = [paused noon blog_record] \<and>
     cache_get noon (available_cache_key 2) (cached db) = None"
proof -
  obtain c db where s: "close_due_periods env0 db0 (Some noon) = (c, db)" "ext_records db = [paused noon blog_record]"
    using sample_sweep by auto
  have "pauses env0 noon db0 blog_record"
    by (simp add: pauses_def swept_pair_def sweep_row_def due_for_grace_def to_grace_def grace_lapsed_def to_ended_def
        blog_record_def KEY_BASE_PLAN_def entitled_at_def live_def days_delta_def midnight_def)
  with sweep_pauses_exactly_the_lapsed [OF s(1) db0_ok(5), of noon] s show ?thesis by (auto simp: blog_record_def)
qed

theorem sweep_keeps_availability_witness:
  "\<exists>c db. close_due_periods env0 db0 (Some (now env0)) = (c, db) \<and> ended c = 1 \<and>
     set (compute_available_keys registry check0 db (Some 2) None) = set (compute_available_keys registry check0 db0 (Some 2) None)"
proof -
  obtain c db where s: "close_due_periods env0 db0 (Some (now env0)) = (c, db)" "ended c = 1" using sample_sweep by auto
  have "PRICING_ADDON \<noteq> PRICING_CORE" by (simp add: PRICING_ADDON_def PRICING_CORE_def)
  then have "\<forall>r \<in> set (entitlements db0). \<forall>m. get_manifest registry (en_key r) = Some m \<longrightarrow> pricing m \<noteq> PRICING_CORE" by simp
  from sweep_keeps_availability [OF s(1) db0_ok(5) this, of 2] s show ?thesis by blast
qed

subsection \<open>Extensions\<close>

theorem available_keys_greatest_witness:
  "set (compute_available_keys registry None db0 (Some 2) None) = {''blog''}"
proof -
  have c: "set (candidate_keys registry None db0 (Some 2) None) = {''blog''}"
    by (simp add: candidate_keys_def active_keys_def blog_record_def all_manifests_def registry_def entitled_or_unavailable_def
        ext_entitled_def get_manifest_def)
  have "closed_under (requires_of registry) {''blog''}" by (simp add: closed_under_def requires_of_def)
  with available_keys_greatest [of registry None db0 "Some 2" None] c show ?thesis by blast
qed

theorem management_follows_policy_witness:
  "post_init (addon ''blog'') = Inr (addon ''blog'') \<and> can_manage (addon ''blog'') ACTIVATION_WORKSPACE_OWNER \<and>
     \<not> can_discover (addon ''blog'') ''anyone''"
proof -
  have p: "post_init (addon ''blog'') = Inr (addon ''blog'')"
    using blog_key by (simp add: post_init_def fill_pricing_def later_problem_def addon_def SCOPE_WORKSPACE_def SCOPE_PLATFORM_def
      SCOPE_TOOLING_def PRICING_ADDON_def PRICING_CORE_def VISIBILITY_PUBLIC_def VISIBILITY_PRIVATE_def VISIBILITY_INTERNAL_def
      ACTIVATION_WORKSPACE_OWNER_def ACTIVATION_PLATFORM_ADMIN_def ACTIVATION_SYSTEM_def)
  have "''anyone'' \<notin> {ACTIVATION_WORKSPACE_OWNER, ACTIVATION_PLATFORM_ADMIN, ACTIVATION_SYSTEM}"
    by (simp add: ACTIVATION_WORKSPACE_OWNER_def ACTIVATION_PLATFORM_ADMIN_def ACTIVATION_SYSTEM_def)
  with p management_follows_policy [OF p, of "''anyone''"] show ?thesis by simp
qed

lemma registry_keys: "registry_ok registry"
  by (simp add: registry_ok_def registry_def)

lemma blog_needs_nothing: "requirements_active registry db0 2"
  by (simp add: requirements_active_def active_keys_def blog_record_def requires_of_def)

theorem requirements_stay_active_witness:
  "\<exists>r db. activate env0 registry check0 (db0\<lparr>entitlements := [blog_month, shop_trial]\<rparr>) 2 ''shop'' (Some 7) None ACTIVATION_SYSTEM = Inr (r, db) \<and>
     requirements_active registry db 2"
proof -
  let ?db = "db0\<lparr>entitlements := [blog_month, shop_trial]\<rparr>"
  obtain r db where a: "activate env0 registry check0 ?db 2 ''shop'' (Some 7) None ACTIVATION_SYSTEM = Inr (r, db)"
    using shop_switched by blast
  have "ext_ok ?db" "requirements_active registry ?db 2"
    using db0_ok(6) blog_needs_nothing by (simp_all add: ext_ok_def requirements_active_def active_keys_def)
  from requirements_stay_active [OF this(1) registry_keys this(2) manageable(2), where e = env0 and check = check0 and user = "Some 7" and config = None]
    a show ?thesis by (auto simp: quiet_def)
qed

lemma blog_dependents: "dependent_keys registry ''blog'' = [''news'']"
  by (simp add: dependent_keys_def all_manifests_def registry_def addon_def)

lemma blog_rows: "record_of db0 2 ''blog'' = Some blog_record" "record_of db0 2 ''news'' = None"
  "xr_status blog_record = Ext_Active"
  by (simp_all add: record_of_def blog_record_def)

theorem deactivated_unavailable_witness:
  "\<exists>r db. deactivate env0 registry db0 2 ''blog'' (Some 7) ''off'' ACTIVATION_SYSTEM = Inr (Some r, db) \<and>
     xr_status r = Ext_Inactive \<and> \<not> fst (is_available env0 registry None db (Some 2) ''blog'')"
proof -
  obtain r db where d: "deactivate env0 registry db0 2 ''blog'' (Some 7) ''off'' ACTIVATION_SYSTEM = Inr (Some r, db)"
    by (simp add: deactivate_def manageable blog_dependents blog_rows run_hook_def Let_def)
  have "''blog'' \<in> set (active_keys db0 2)" by (simp add: active_keys_def blog_record_def)
  from deactivated_unavailable [OF d manageable(1) db0_ok(6) _ registry_keys this, of env0 None] d show ?thesis
    by (auto simp: quiet_def)
qed

end
