(* ===== verification/Witnesses_Control.thy ===== *)
theory Witnesses_Control
  imports Samples
begin

text \<open>
  The properties of the placement queue and of the platform's variables, applied to the sample
  deployment with one cluster that takes a single workspace, and to an empty table of variables.
\<close>

subsection \<open>The placement queue\<close>

definition c1 :: cluster where
  "c1 = \<lparr>cl_id = ''c1'', max_workspaces = 1, is_accepting_new = True, cl_active = True\<rparr>"

definition control0 :: control_db where
  "control0 = \<lparr>platform = db0, clusters = [c1], requests = [], events = [], control_audits = []\<rparr>"

lemma control0_simps [simp]: "platform control0 = db0" "clusters control0 = [c1]" "requests control0 = []" "events control0 = []"
  "cl_id c1 = ''c1''" "max_workspaces c1 = 1" "is_accepting_new c1" "cl_active c1"
  by (simp_all add: control0_def c1_def)

lemma control0_ok: "queue_ok control0" "capacity_ok (noon, control0)"
  using db0_ok(2) by (simp_all add: queue_ok_def capacity_ok_def assigned_def live_reserved_def acme_profile_def count_where_def)

lemma c1_id: "strip ''c1'' = ''c1''" "cluster_by_id control0 ''c1'' = Some c1"
  by (simp_all add: strip_def whitespace_def cluster_by_id_def)

definition reserved0 :: "placement_request \<times> control_db" where
  "reserved0 = write_reservation env0 None 2 acme_profile ''c1'' None control0"

lemma acme_created: "profile_for_update 2 control0 = (acme_profile, control0)"
  by (simp add: profile_for_update_def get_or_create_profile_def control0_def)

lemma none_due: "expire_reserved_for_target ''c1'' noon None control0 = ([], control0)"
  by (simp add: expire_reserved_for_target_def due_for_target_def)

lemma room: "reservation_refusal control0 noon 2 acme_profile 0 c1 = None"
  by (simp add: reservation_refusal_def acme_profile_def assigned_def live_reserved_def count_where_def)

lemma sample_reservation: "create_reservation env0 None 2 ''c1'' (Some 0) None control0 = Inr reserved0"
  using none_due room by (simp add: create_reservation_def c1_id acme_created reserved0_def del: noon_def)

theorem reservation_made_witness:
  "\<exists>r db. create_reservation env0 None 2 ''c1'' (Some 0) None control0 = Inr (r, db) \<and> rq_status r = Reserved \<and>
     profile_fence r = 1 \<and> fence db 2 = 1 \<and> filter (\<lambda>q. rq_workspace q = 2 \<and> rq_status q = Reserved) (requests db) = [r]"
proof -
  obtain r db where d: "create_reservation env0 None 2 ''c1'' (Some 0) None control0 = Inr (r, db)"
    using sample_reservation by (cases reserved0) simp
  from reservation_made [OF this control0_ok(1)] d show ?thesis by auto
qed

lemma reserved_queue:
  assumes "create_reservation env0 None 2 ''c1'' (Some 0) None control0 = Inr (r, db)"
  shows "(queue_step None)\<^sup>*\<^sup>* (noon, control0) (noon, db)" "queue_ok db" "r \<in> set (requests db)"
proof -
  have s: "queue_step None (noon, control0) (noon, db)" using queue_step.reserve [OF assms] by simp
  then show "(queue_step None)\<^sup>*\<^sup>* (noon, control0) (noon, db)" by blast
  show "queue_ok db" using step_laws(1) [OF s] control0_ok(1) by simp
  show "r \<in> set (requests db)" using assms sample_reservation
    by (auto simp: reserved0_def write_reservation_def event_def Let_def)
qed

theorem queue_invariants_witness:
  "\<exists>r db. create_reservation env0 None 2 ''c1'' (Some 0) None control0 = Inr (r, db) \<and>
     assigned db ''c1'' + live_reserved db noon ''c1'' \<le> 1 \<and> profile_fence r \<le> fence db (rq_workspace r)"
proof -
  obtain r db where d: "create_reservation env0 None 2 ''c1'' (Some 0) None control0 = Inr (r, db)"
    using sample_reservation by (cases reserved0) simp
  have "clusters db = [c1]" using d sample_reservation
    by (auto simp: reserved0_def write_reservation_def event_def save_fence_def Let_def)
  with queue_invariants [OF reserved_queue(1) [OF d] control0_ok] d reserved_queue(3) [OF d] show ?thesis by auto
qed

theorem fences_only_rise_witness:
  "\<exists>r db. create_reservation env0 None 2 ''c1'' (Some 0) None control0 = Inr (r, db) \<and>
     fence control0 2 \<le> fence db 2 \<and> assigned db ''c1'' = 0"
proof -
  obtain r db where d: "create_reservation env0 None 2 ''c1'' (Some 0) None control0 = Inr (r, db)"
    using sample_reservation by (cases reserved0) simp
  have "assigned control0 ''c1'' = 0" by (simp add: assigned_def count_where_def acme_profile_def)
  with fences_only_rise [OF reserved_queue(1) [OF d] control0_ok, of 2 "''c1''"] d show ?thesis by auto
qed

theorem rollback_is_final_witness:
  "\<exists>r db r' db'. create_reservation env0 None 2 ''c1'' (Some 0) None control0 = Inr (r, db) \<and>
     rollback_reservation env0 (rq_id r) db = Inr (r', db') \<and> rollback_reservation env0 (rq_id r) db' = Inl Not_Active"
proof -
  obtain r db where d: "create_reservation env0 None 2 ''c1'' (Some 0) None control0 = Inr (r, db)"
    using sample_reservation by (cases reserved0) simp
  have "requests db = [r]" "rq_status r = Reserved" using d sample_reservation
    by (auto simp: reserved0_def write_reservation_def event_def save_fence_def new_request_def Let_def)
  then obtain r' db' where rb: "rollback_reservation env0 (rq_id r) db = Inr (r', db')"
    by (cases "profile_for_update (rq_workspace r) db") (auto simp: rollback_reservation_def Let_def)
  from rollback_is_final [OF rb reserved_queue(2) [OF d], of env0] d rb show ?thesis by auto
qed

subsection \<open>The platform's variables\<close>

definition variables0 :: variables_db where
  "variables0 = \<lparr>variables = [], changes = [], var_cache = (\<lambda>_. None)\<rparr>"

lemma variables0_ok: "vars_ok variables0" "log_ok variables0" "float_laws (\<lambda>x. x)"
  by (simp_all add: vars_ok_def log_ok_def float_laws_def variables0_def)

lemma trial_spec: "spec_of ''trial_points'' = Inr \<lparr>vs_key = ''trial_points'', vs_kind = Kind_Decimal, vs_default = V_Num 1\<rparr>"
  by (simp add: spec_of_def VARIABLES_def)

lemma two_points: "\<exists>db. set_variable (\<lambda>x. x) noon ''trial_points'' (V_Num 2) (Some 7) ''more'' variables0 = Inr (S_Decimal 2, db)"
  by (simp add: set_variable_def trial_spec coerce_def row_to_set_def variable_row_of_def variables0_def Let_def)

theorem set_is_in_force_witness:
  "\<exists>db db1. set_variable (\<lambda>x. x) noon ''trial_points'' (V_Num 2) (Some 7) ''more'' variables0 = Inr (S_Decimal 2, db) \<and>
     get_variable (\<lambda>x. x) noon ''trial_points'' db = Inr (S_Decimal 2, db1)"
proof -
  obtain db where d: "set_variable (\<lambda>x. x) noon ''trial_points'' (V_Num 2) (Some 7) ''more'' variables0 = Inr (S_Decimal 2, db)"
    using two_points by blast
  from set_is_in_force [OF this variables0_ok(1,3), of noon noon] d show ?thesis by (auto simp: stored_def seconds_delta_def)
qed

theorem change_log_unbroken_witness:
  "\<exists>db ch. set_variable (\<lambda>x. x) noon ''trial_points'' (V_Num 2) (Some 7) ''more'' variables0 = Inr (S_Decimal 2, db) \<and>
     changes db = [ch] \<and> vc_by ch = Some 7 \<and> vc_reason ch = ''more'' \<and> log_ok db"
proof -
  obtain db where d: "set_variable (\<lambda>x. x) noon ''trial_points'' (V_Num 2) (Some 7) ''more'' variables0 = Inr (S_Decimal 2, db)"
    using two_points by blast
  from change_log_unbroken [OF this variables0_ok(1,3,2)] d show ?thesis by (auto simp: variables0_def)
qed

end
