(* ===== verification/Stock.thy ===== *)
theory Stock
  imports Platform_Data "HOL-Library.Multiset"
begin

text \<open>
  The stock of a shop (\<open>shop/services/inventory_service.py\<close>): how many pieces of a product variant each
  warehouse holds and how many of them are promised to orders, the operations that move them, and
  the split of a wanted quantity over the warehouses that have some.

  The rows of the shop tables the stock and order services use are records of the columns they
  use. A service works for one workspace, the first argument of what checks it; an exception is
  an error, and what ran in \<open>transaction.atomic\<close> before it is undone. \<open>emitted\<close> is the events a call
  dispatched, \<open>committed\<close> those it dispatched after the commit.
\<close>

subsection \<open>Rows\<close>

record warehouse =
  wh_id :: nat
  wh_workspace :: nat
  wh_name :: string
  wh_active :: bool
  wh_default :: bool

record product =
  pd_id :: nat
  pd_workspace :: nat
  pd_name :: string
  pd_sku :: string
  pd_price :: rat
  pd_categories :: "nat list"
  pd_active :: bool
  pd_track :: bool
  pd_stock :: int
  pd_weight :: "rat option"
  pd_low :: int

record variant =
  va_id :: nat
  va_product :: nat
  va_sku :: string
  va_name :: string
  va_price :: "rat option"
  va_stock :: int
  va_weight :: "rat option"
  va_active :: bool

record inventory =
  iv_id :: nat
  iv_variant :: nat
  iv_warehouse :: nat
  iv_quantity :: int
  iv_reserved :: int

record order_row =
  od_id :: nat
  od_workspace :: nat
  od_customer :: nat
  od_store :: nat
  od_number :: string
  od_status :: string
  od_payment :: string
  od_fulfillment :: string
  od_pickup_point :: "nat option"
  od_subtotal :: rat
  od_shipping :: rat
  od_tax :: rat
  od_discount :: rat
  od_total :: rat
  od_coupon :: "nat option"
  od_ship_to :: "nat option"
  od_bill_to :: "nat option"
  deduction_event :: string
  deducted_at :: "moment option"
  stock_error :: string
  reservations_managed :: bool
  paid_at :: "moment option"
  shipped_at :: "moment option"
  delivered_at :: "moment option"
  admin_note :: string

record order_item =
  oi_id :: nat
  oi_order :: nat
  oi_product :: nat
  oi_variant :: "nat option"
  oi_product_name :: string
  oi_variant_name :: string
  oi_sku :: string
  oi_quantity :: int
  oi_price :: rat
  oi_subtotal :: rat

datatype reservation_state = Held | Consumed | Let_Go

record stock_reservation =
  sr_id :: nat
  sr_item :: nat
  sr_inventory :: nat
  sr_quantity :: int
  sr_state :: reservation_state
  sr_closed_at :: "moment option"

record shop_audit =
  sa_order :: nat
  sa_field :: string
  sa_old :: string
  sa_new :: string

record shop_db =
  warehouses :: "warehouse list"
  products :: "product list"
  variants :: "variant list"
  inventories :: "inventory list"
  orders :: "order_row list"
  order_items :: "order_item list"
  reservations :: "stock_reservation list"
  shop_audits :: "shop_audit list"
  emitted :: "(string \<times> nat) list"
  committed :: "(string \<times> nat) list"

text \<open>
  What a call raises: too little stock, a row that is not there, a check constraint, an object of
  another workspace, an order that cannot be cancelled any more, or a \<open>ValueError\<close> with its message.
\<close>

datatype shop_error = Insufficient_Stock | Does_Not_Exist | Check_Failed | Permission_Denied | Not_Cancellable
  | Value_Raised string

subsection \<open>One warehouse\<close>

definition available_in :: "inventory \<Rightarrow> int" where
  "available_in i = iv_quantity i - iv_reserved i"

definition find_inventory :: "shop_db \<Rightarrow> nat \<Rightarrow> nat \<Rightarrow> inventory option" where
  "find_inventory db v wh = first (filter (\<lambda>i. iv_variant i = v \<and> iv_warehouse i = wh) (inventories db))"

definition get_variant_inventory :: "nat \<Rightarrow> nat \<Rightarrow> shop_db \<Rightarrow> inventory \<times> shop_db" where
  "get_variant_inventory v wh db = (case find_inventory db v wh of Some i \<Rightarrow> (i, db)
     | None \<Rightarrow> let i = \<lparr>iv_id = fresh_id iv_id (inventories db), iv_variant = v, iv_warehouse = wh, iv_quantity = 0,
         iv_reserved = 0\<rparr> in (i, db\<lparr>inventories := inventories db @ [i]\<rparr>))"

definition save_inventory :: "inventory \<Rightarrow> shop_db \<Rightarrow> shop_db" where
  "save_inventory i db = db\<lparr>inventories := update_where (\<lambda>x. iv_id x = iv_id i) (\<lambda>_. i) (inventories db)\<rparr>"

text \<open>The variant's own stock is what its warehouses hold together.\<close>

definition total_quantity :: "shop_db \<Rightarrow> nat \<Rightarrow> int" where
  "total_quantity db v = (\<Sum>i\<leftarrow>filter (\<lambda>i. iv_variant i = v) (inventories db). iv_quantity i)"

definition recount :: "nat \<Rightarrow> shop_db \<Rightarrow> shop_db" where
  "recount v db = db\<lparr>variants := update_where (\<lambda>x. va_id x = v) (\<lambda>x. x\<lparr>va_stock := total_quantity db v\<rparr>) (variants db)\<rparr>"

definition adjust_stock :: "nat \<Rightarrow> nat \<Rightarrow> int \<Rightarrow> shop_db \<Rightarrow> inventory \<times> shop_db" where
  "adjust_stock v wh change db = (let (i, db) = get_variant_inventory v wh db;
       i' = i\<lparr>iv_quantity := iv_quantity i + change\<rparr>
     in (i', recount v (save_inventory i' db)))"

definition reserve_stock :: "nat \<Rightarrow> nat \<Rightarrow> int \<Rightarrow> shop_db \<Rightarrow> shop_error + (inventory \<times> shop_db)" where
  "reserve_stock v wh q db = (let (i, db) = get_variant_inventory v wh db in
     if available_in i < q then Inl Insufficient_Stock
     else let i' = i\<lparr>iv_reserved := iv_reserved i + q\<rparr> in Inr (i', save_inventory i' db))"

definition release_reservation :: "nat \<Rightarrow> nat \<Rightarrow> int \<Rightarrow> shop_db \<Rightarrow> inventory \<times> shop_db" where
  "release_reservation v wh q db = (let (i, db) = get_variant_inventory v wh db;
       i' = i\<lparr>iv_reserved := max 0 (iv_reserved i - q)\<rparr>
     in (i', save_inventory i' db))"

definition fulfill_reservation :: "nat \<Rightarrow> nat \<Rightarrow> int \<Rightarrow> shop_db \<Rightarrow> inventory \<times> shop_db" where
  "fulfill_reservation v wh q db = (let (i, db) = get_variant_inventory v wh db;
       i' = i\<lparr>iv_quantity := iv_quantity i - q, iv_reserved := iv_reserved i - q\<rparr>
     in (i', recount v (save_inventory i' db)))"

subsection \<open>Over the warehouses\<close>

definition get_available_warehouses :: "nat \<Rightarrow> int \<Rightarrow> shop_db \<Rightarrow> inventory list" where
  "get_available_warehouses v least db =
     filter (\<lambda>i. iv_variant i = v \<and> iv_reserved i + least \<le> iv_quantity i) (inventories db)"

fun take_from :: "inventory list \<Rightarrow> int \<Rightarrow> (nat \<times> int) list" where
  "take_from [] remaining = []"
| "take_from (i # is) remaining = (if remaining \<le> 0 then []
     else let allocated = min (iv_quantity i - iv_reserved i) remaining
       in (iv_warehouse i, allocated) # take_from is (remaining - allocated))"

definition allocate_stock :: "nat \<Rightarrow> int \<Rightarrow> shop_db \<Rightarrow> shop_error + (nat \<times> int) list" where
  "allocate_stock v required db =
    (let found = sort_key (\<lambda>i. - iv_quantity i) (get_available_warehouses v 1 db)
     in if (\<Sum>i\<leftarrow>found. iv_quantity i - iv_reserved i) < required then Inl Insufficient_Stock
        else Inr (take_from found required))"

lemma take_from_split:
  assumes "\<forall>i \<in> set is. 0 < available_in i" "r \<le> (\<Sum>i\<leftarrow>is. available_in i)"
  shows "\<exists>n. list_all2 (\<lambda>i (w, q). w = iv_warehouse i \<and> 0 < q \<and> q \<le> available_in i) (take n is) (take_from is r) \<and>
    (\<Sum>(w, q)\<leftarrow>take_from is r. q) = max 0 r"
  using assms
proof (induction "is" arbitrary: r)
  case (Cons i "is")
  show ?case
  proof (cases "r \<le> 0")
    case True
    then show ?thesis by (intro exI [of _ 0]) simp
  next
    case False
    let ?a = "min (iv_quantity i - iv_reserved i) r"
    from Cons.prems have "0 < available_in i" "r - ?a \<le> (\<Sum>i\<leftarrow>is. available_in i) \<or> r - ?a = 0" by (auto simp: available_in_def min_def)
    moreover have "0 \<le> (\<Sum>i\<leftarrow>is. available_in i)" using Cons.prems(1) by (intro sum_list_nonneg) auto
    ultimately have "r - ?a \<le> (\<Sum>i\<leftarrow>is. available_in i)" by auto
    with Cons obtain n where "list_all2 (\<lambda>i (w, q). w = iv_warehouse i \<and> 0 < q \<and> q \<le> available_in i) (take n is) (take_from is (r - ?a))"
      "(\<Sum>(w, q)\<leftarrow>take_from is (r - ?a). q) = max 0 (r - ?a)" by auto
    with False \<open>0 < available_in i\<close> show ?thesis by (intro exI [of _ "Suc n"]) (auto simp: Let_def available_in_def)
  qed
qed simp

text \<open>Taking the most first: every warehouse but the last is emptied.\<close>

lemma take_from_greedy:
  "take_from is r = xs @ [x] @ ys \<Longrightarrow> ys \<noteq> [] \<Longrightarrow> \<forall>i \<in> set is. 0 < available_in i \<Longrightarrow>
    \<exists>i \<in> set is. x = (iv_warehouse i, available_in i)"
proof (induction "is" arbitrary: r xs)
  case (Cons i "is")
  then have r: "\<not> r \<le> 0" by auto
  let ?a = "min (iv_quantity i - iv_reserved i) r"
  from Cons.prems(1) r have t: "(iv_warehouse i, ?a) # take_from is (r - ?a) = xs @ [x] @ ys" by (simp add: Let_def)
  show ?case
  proof (cases xs)
    case Nil
    with t have x: "x = (iv_warehouse i, ?a)" and rest: "take_from is (r - ?a) = ys" by auto
    have "\<not> r - ?a \<le> 0"
    proof
      assume "r - ?a \<le> 0"
      then have "take_from is (r - ?a) = []" by (cases "is") auto
      with rest Cons.prems(2) show False by simp
    qed
    with x show ?thesis by (auto simp: available_in_def min_def split: if_splits)
  next
    case (Cons y zs)
    with t have "take_from is (r - ?a) = zs @ [x] @ ys" by simp
    with Cons.IH [OF this Cons.prems(2)] Cons.prems(3) show ?thesis by auto
  qed
qed simp

subsection \<open>Properties\<close>

text \<open>
  a wanted quantity is split over the warehouses that have some, the fullest first, or refused
  for want of stock. The parts add up to what was asked for (none for nothing), each is of at least
  one piece and no more than its warehouse has free, every one but the last is all it has free, and
  the call is refused exactly when the variant has fewer pieces free than were asked for.
\<close>

theorem allocation_adds_up:
  "case allocate_stock v required db of
     Inl err \<Rightarrow> err = Insufficient_Stock \<and> (\<Sum>i\<leftarrow>get_available_warehouses v 1 db. available_in i) < required
   | Inr parts \<Rightarrow> required \<le> (\<Sum>i\<leftarrow>get_available_warehouses v 1 db. available_in i) \<and>
       (\<Sum>(w, q)\<leftarrow>parts. q) = max 0 required \<and>
       (\<exists>is. mset is \<subseteq># mset (get_available_warehouses v 1 db) \<and> sorted_wrt (\<lambda>i j. iv_quantity j \<le> iv_quantity i) is \<and>
         list_all2 (\<lambda>i (w, q). w = iv_warehouse i \<and> 0 < q \<and> q \<le> available_in i) is parts) \<and>
       (\<forall>(w, q) \<in> set (butlast parts). \<exists>i \<in> set (get_available_warehouses v 1 db). w = iv_warehouse i \<and> q = available_in i)"
proof -
  let ?free = "get_available_warehouses v 1 db" and ?found = "sort_key (\<lambda>i. - iv_quantity i) (get_available_warehouses v 1 db)"
  have sum: "(\<Sum>i\<leftarrow>?found. iv_quantity i - iv_reserved i) = (\<Sum>i\<leftarrow>?free. available_in i)"
  proof -
    have "mset (map available_in ?found) = mset (map available_in ?free)" by simp
    then show ?thesis unfolding available_in_def [abs_def] by (metis sum_mset_sum_list)
  qed
  have pos: "\<forall>i \<in> set ?found. 0 < available_in i" by (auto simp: get_available_warehouses_def available_in_def)
  show ?thesis
  proof (cases "(\<Sum>i\<leftarrow>?free. available_in i) < required")
    case True
    then show ?thesis by (simp add: allocate_stock_def Let_def sum)
  next
    case False
    then have a: "allocate_stock v required db = Inr (take_from ?found required)" by (simp add: allocate_stock_def Let_def sum)
    have "required \<le> (\<Sum>i\<leftarrow>?found. available_in i)" using False sum by (simp add: available_in_def)
    from take_from_split [OF pos this] obtain n where
      n: "list_all2 (\<lambda>i (w, q). w = iv_warehouse i \<and> 0 < q \<and> q \<le> available_in i) (take n ?found) (take_from ?found required)"
         "(\<Sum>(w, q)\<leftarrow>take_from ?found required. q) = max 0 required" by blast
    have "mset (take n ?found) \<subseteq># mset ?found" by (metis append_take_drop_id mset_append mset_subset_eq_add_left)
    then have "mset (take n ?found) \<subseteq># mset ?free" by simp
    moreover have "sorted_wrt (\<lambda>i j. iv_quantity j \<le> iv_quantity i) (take n ?found)"
    proof -
      have "sorted (map (\<lambda>i. - iv_quantity i) ?found)" by (rule sorted_sort_key)
      then have "sorted_wrt (\<lambda>i j. iv_quantity j \<le> iv_quantity i) ?found" by (simp add: sorted_wrt_map)
      then show ?thesis by (rule sorted_wrt_take)
    qed
    moreover have "\<exists>i \<in> set ?free. x = (iv_warehouse i, available_in i)" if "x \<in> set (butlast (take_from ?found required))" for x
    proof -
      from that obtain xs ys where "butlast (take_from ?found required) = xs @ x # ys" by (meson split_list)
      moreover have "take_from ?found required \<noteq> []" using that by auto
      ultimately have "take_from ?found required = xs @ [x] @ (ys @ [last (take_from ?found required)])"
        by (metis append.assoc append_Cons append_Nil append_butlast_last_id)
      from take_from_greedy [OF this _ pos] show ?thesis by simp
    qed
    ultimately show ?thesis using n False by (fastforce simp: a)
  qed
qed

end
