(* ===== verification/Order_Stock.thy ===== *)
theory Order_Stock
  imports Stock
begin

text \<open>
  The stock side of an order (\<open>shop/services/order_service.py\<close>): reserving what its items need when
  it is placed, deducting it once when it is paid for, letting go of it when it is cancelled. A
  reservation belongs to one item; the service never touches a piece it does not own.

  The calls take the order as the caller holds it, and read it again under a lock where the code
  does; \<open>update_order_status\<close> saves the caller's row whole unless it cancels.
\<close>

subsection \<open>Rows\<close>

definition order_of :: "shop_db \<Rightarrow> nat \<Rightarrow> nat \<Rightarrow> order_row option" where
  "order_of db w j = first (filter (\<lambda>r. od_id r = j \<and> od_workspace r = w) (orders db))"

definition save_order :: "order_row \<Rightarrow> shop_db \<Rightarrow> shop_db" where
  "save_order r db = db\<lparr>orders := update_where (\<lambda>x. od_id x = od_id r) (\<lambda>_. r) (orders db)\<rparr>"

definition items_of_order :: "shop_db \<Rightarrow> nat \<Rightarrow> order_item list" where
  "items_of_order db j = sort_key (\<lambda>i. (oi_product i, oi_id i)) (filter (\<lambda>i. oi_order i = j) (order_items db))"

definition product_of :: "shop_db \<Rightarrow> nat \<Rightarrow> product option" where
  "product_of db p = first (filter (\<lambda>x. pd_id x = p) (products db))"

definition product_in :: "shop_db \<Rightarrow> nat \<Rightarrow> nat \<Rightarrow> product option" where
  "product_in db w p = first (filter (\<lambda>x. pd_id x = p \<and> pd_workspace x = w) (products db))"

definition variant_in :: "shop_db \<Rightarrow> nat \<Rightarrow> nat \<Rightarrow> variant option" where
  "variant_in db p v = first (filter (\<lambda>x. va_id x = v \<and> va_product x = p) (variants db))"

definition inventory_by_id :: "shop_db \<Rightarrow> nat \<Rightarrow> inventory option" where
  "inventory_by_id db i = first (filter (\<lambda>x. iv_id x = i) (inventories db))"

definition warehouse_workspace :: "shop_db \<Rightarrow> nat \<Rightarrow> nat option" where
  "warehouse_workspace db wh = map_option wh_workspace (first (filter (\<lambda>x. wh_id x = wh) (warehouses db)))"

definition reservation_of :: "shop_db \<Rightarrow> nat \<Rightarrow> stock_reservation option" where
  "reservation_of db i = first (filter (\<lambda>x. sr_item x = i) (reservations db))"

definition save_reservation :: "stock_reservation \<Rightarrow> shop_db \<Rightarrow> shop_db" where
  "save_reservation r db = db\<lparr>reservations := update_where (\<lambda>x. sr_id x = sr_id r) (\<lambda>_. r) (reservations db)\<rparr>"

text \<open>\<open>order_by('-is_default', 'name').first()\<close>: the default warehouse first.\<close>

definition working_warehouse :: "shop_db \<Rightarrow> nat \<Rightarrow> warehouse option" where
  "working_warehouse db w = first (sort_key (\<lambda>x. (\<not> wh_default x, wh_name x))
     (filter (\<lambda>x. wh_workspace x = w \<and> wh_active x) (warehouses db)))"

subsection \<open>Errors\<close>

definition error_detail :: "shop_error \<Rightarrow> string" where
  "error_detail err = (case err of Value_Raised s \<Rightarrow> take 255 s
     | _ \<Rightarrow> ''Stock update failed; reconcile inventory.'')"

definition record_stock_error :: "nat \<Rightarrow> nat \<Rightarrow> shop_error \<Rightarrow> shop_db \<Rightarrow> shop_db" where
  "record_stock_error w j err db = db\<lparr>orders := update_where (\<lambda>r. od_id r = j \<and> od_workspace r = w)
     (\<lambda>r. r\<lparr>stock_error := error_detail err\<rparr>) (orders db)\<rparr>"

subsection \<open>Reserving\<close>

definition keep_reservation :: "shop_db \<Rightarrow> nat \<Rightarrow> order_item \<Rightarrow> nat \<Rightarrow> stock_reservation \<Rightarrow> shop_error + shop_db" where
  "keep_reservation db w item v r = (case inventory_by_id db (sr_inventory r) of
     None \<Rightarrow> Inl Does_Not_Exist
   | Some i \<Rightarrow>
     if sr_quantity r \<noteq> oi_quantity item \<or> iv_variant i \<noteq> v \<or> warehouse_workspace db (iv_warehouse i) \<noteq> Some w
     then Inl (Value_Raised ''Order stock reservation no longer matches its item; reconcile manually.'')
     else if sr_state r \<noteq> Held
     then Inl (Value_Raised ''Order stock reservation was already consumed or released; reconcile manually.'')
     else Inr db)"

definition add_reservation :: "order_item \<Rightarrow> nat \<Rightarrow> shop_db \<Rightarrow> shop_error + shop_db" where
  "add_reservation item i db = (if oi_quantity item < 1 then Inl Check_Failed
     else Inr (db\<lparr>reservations := reservations db @ [\<lparr>sr_id = fresh_id sr_id (reservations db), sr_item = oi_id item,
       sr_inventory = i, sr_quantity = oi_quantity item, sr_state = Held, sr_closed_at = None\<rparr>]\<rparr>))"

definition new_reservation :: "nat \<Rightarrow> order_item \<Rightarrow> nat \<Rightarrow> shop_db \<Rightarrow> shop_error + shop_db" where
  "new_reservation w item v db = (case working_warehouse db w of
     None \<Rightarrow> Inl (Value_Raised ''Configure an active warehouse before reserving stock.'')
   | Some wh \<Rightarrow> let (i, db) = get_variant_inventory v (wh_id wh) db in
       bind_r (reserve_stock v (wh_id wh) (oi_quantity item) db) (\<lambda>(_, db). add_reservation item (iv_id i) db))"

definition reserve_item :: "nat \<Rightarrow> order_item \<Rightarrow> shop_db \<Rightarrow> shop_error + shop_db" where
  "reserve_item w item db = (case product_in db w (oi_product item) of
     None \<Rightarrow> Inl Does_Not_Exist
   | Some p \<Rightarrow> (case oi_variant item of
       None \<Rightarrow> Inr db
     | Some v \<Rightarrow> if \<not> pd_track p then Inr db
         else (case variant_in db (pd_id p) v of
           None \<Rightarrow> Inl Does_Not_Exist
         | Some _ \<Rightarrow> (case reservation_of db (oi_id item) of
             Some r \<Rightarrow> keep_reservation db w item v r
           | None \<Rightarrow> new_reservation w item v db))))"

fun reserve_items :: "nat \<Rightarrow> order_item list \<Rightarrow> shop_db \<Rightarrow> shop_error + shop_db" where
  "reserve_items w [] db = Inr db"
| "reserve_items w (i # is) db = bind_r (reserve_item w i db) (reserve_items w is)"

definition has_tracked_variant :: "shop_db \<Rightarrow> nat \<Rightarrow> bool" where
  "has_tracked_variant db j = list_ex (\<lambda>i. oi_order i = j \<and> oi_variant i \<noteq> None \<and>
     (case product_of db (oi_product i) of Some p \<Rightarrow> pd_track p | None \<Rightarrow> False)) (order_items db)"

definition reserve_locked :: "nat \<Rightarrow> order_row \<Rightarrow> shop_db \<Rightarrow> shop_error + (order_row \<times> shop_db)" where
  "reserve_locked w order db =
    (if deducted_at order \<noteq> None then Inr (order, db)
     else if od_status order \<in> {''cancelled'', ''refunded''} \<or> od_payment order = ''refunded''
     then Inl (Value_Raised ''Order was cancelled or refunded; reconcile it manually.'')
     else if \<not> reservations_managed order \<and> has_tracked_variant db (od_id order)
     then Inl (Value_Raised ''Legacy stock reservation has no recorded warehouse; reconcile this order manually.'')
     else bind_r (reserve_items w (items_of_order db (od_id order)) db) (\<lambda>db.
       let order' = order\<lparr>reservations_managed := True, stock_error := ''''\<rparr> in Inr (order', save_order order' db)))"

definition locked :: "nat \<Rightarrow> order_row \<Rightarrow> shop_db \<Rightarrow> (order_row \<Rightarrow> shop_error + 'a) \<Rightarrow> shop_error + 'a" where
  "locked w given db act = (if od_workspace given \<noteq> w then Inl Permission_Denied
     else case order_of db w (od_id given) of None \<Rightarrow> Inl Does_Not_Exist | Some order \<Rightarrow> act order)"

definition reserve_stock_atomic :: "nat \<Rightarrow> order_row \<Rightarrow> shop_db \<Rightarrow> shop_error + (order_row \<times> shop_db)" where
  "reserve_stock_atomic w given db = locked w given db (\<lambda>order. reserve_locked w order db)"

definition reserve_stock_for_order :: "nat \<Rightarrow> order_row \<Rightarrow> shop_db \<Rightarrow> (shop_error + order_row) \<times> shop_db" where
  "reserve_stock_for_order w given db = (case reserve_stock_atomic w given db of
     Inr (order, db') \<Rightarrow> (Inr order, db') | Inl err \<Rightarrow> (Inl err, record_stock_error w (od_id given) err db))"

subsection \<open>Deducting\<close>

definition deduct_variant :: "env \<Rightarrow> order_item \<Rightarrow> variant \<Rightarrow> shop_db \<Rightarrow> shop_error + shop_db" where
  "deduct_variant e item v db = (case reservation_of db (oi_id item) of
     None \<Rightarrow> Inl Does_Not_Exist
   | Some r \<Rightarrow> (case inventory_by_id db (sr_inventory r) of
       None \<Rightarrow> Inl Does_Not_Exist
     | Some i \<Rightarrow>
       if sr_state r \<noteq> Held \<or> sr_quantity r \<noteq> oi_quantity item \<or> iv_reserved i < oi_quantity item
       then Inl (Value_Raised ''Owned stock reservation is inconsistent; reconcile the order.'')
       else if iv_quantity i < oi_quantity item
       then Inl (Value_Raised ''Insufficient variant stock; reconcile the order.'')
       else let (_, db') = fulfill_reservation (va_id v) (iv_warehouse i) (oi_quantity item) db in
         if map_option va_stock (variant_in db' (va_product v) (va_id v)) \<noteq> Some (va_stock v - oi_quantity item)
         then Inl (Value_Raised ''Existing order inventory update did not complete.'')
         else Inr (save_reservation (r\<lparr>sr_state := Consumed, sr_closed_at := Some (now e)\<rparr>) db')))"

definition deduct_product :: "nat \<Rightarrow> order_item \<Rightarrow> product \<Rightarrow> shop_db \<Rightarrow> shop_error + shop_db" where
  "deduct_product w item p db =
    (if \<not> list_ex (\<lambda>x. wh_workspace x = w \<and> wh_active x) (warehouses db)
     then Inl (Value_Raised ''Configure an active warehouse before deducting stock.'')
     else if pd_stock p < oi_quantity item then Inl (Value_Raised ''Insufficient stock; reconcile this order.'')
     else Inr (db\<lparr>products := update_where (\<lambda>x. pd_id x = pd_id p \<and> pd_workspace x = w)
       (\<lambda>x. x\<lparr>pd_stock := pd_stock x - oi_quantity item\<rparr>) (products db)\<rparr>))"

definition deduct_item :: "env \<Rightarrow> nat \<Rightarrow> order_item \<Rightarrow> shop_db \<Rightarrow> shop_error + shop_db" where
  "deduct_item e w item db = (case product_in db w (oi_product item) of
     None \<Rightarrow> Inl Does_Not_Exist
   | Some p \<Rightarrow> if \<not> pd_track p then Inr db
       else (case oi_variant item of
         Some v \<Rightarrow> (case variant_in db (pd_id p) v of None \<Rightarrow> Inl Does_Not_Exist | Some x \<Rightarrow> deduct_variant e item x db)
       | None \<Rightarrow> deduct_product w item p db))"

fun deduct_items :: "env \<Rightarrow> nat \<Rightarrow> order_item list \<Rightarrow> shop_db \<Rightarrow> shop_error + shop_db" where
  "deduct_items e w [] db = Inr db"
| "deduct_items e w (i # is) db = bind_r (deduct_item e w i db) (deduct_items e w is)"

definition deduct_locked :: "env \<Rightarrow> nat \<Rightarrow> order_row \<Rightarrow> shop_db \<Rightarrow> shop_error + (order_row \<times> shop_db)" where
  "deduct_locked e w order db = (if deducted_at order \<noteq> None then Inr (order, db)
     else bind_r (reserve_stock_atomic w order db) (\<lambda>(order, db).
       bind_r (deduct_items e w (items_of_order db (od_id order)) db) (\<lambda>db.
         let order' = order\<lparr>deducted_at := Some (now e), stock_error := ''''\<rparr>; db = save_order order' db
         in Inr (order', db\<lparr>committed := committed db @ [(''order.stock_deducted'', od_id order')]\<rparr>))))"

definition deduct_stock_atomic :: "env \<Rightarrow> nat \<Rightarrow> order_row \<Rightarrow> shop_db \<Rightarrow> shop_error + (order_row \<times> shop_db)" where
  "deduct_stock_atomic e w given db = locked w given db (\<lambda>order. deduct_locked e w order db)"

definition deduct_stock :: "env \<Rightarrow> nat \<Rightarrow> order_row \<Rightarrow> shop_db \<Rightarrow> (shop_error + order_row) \<times> shop_db" where
  "deduct_stock e w given db = (case deduct_stock_atomic e w given db of
     Inr (order, db') \<Rightarrow> (Inr order, db') | Inl err \<Rightarrow> (Inl err, record_stock_error w (od_id given) err db))"

subsection \<open>Letting go\<close>

fun release_each :: "env \<Rightarrow> nat \<Rightarrow> stock_reservation list \<Rightarrow> shop_db \<Rightarrow> shop_error + shop_db" where
  "release_each e w [] db = Inr db"
| "release_each e w (r # rs) db = (case inventory_by_id db (sr_inventory r) of
     None \<Rightarrow> Inl Does_Not_Exist
   | Some i \<Rightarrow>
     if warehouse_workspace db (iv_warehouse i) \<noteq> Some w \<or> iv_reserved i < sr_quantity r
     then Inl (Value_Raised ''Owned stock reservation is inconsistent; reconcile the order.'')
     else let (_, db) = release_reservation (iv_variant i) (iv_warehouse i) (sr_quantity r) db
       in release_each e w rs (save_reservation (r\<lparr>sr_state := Let_Go, sr_closed_at := Some (now e)\<rparr>) db))"

definition held_by_order :: "shop_db \<Rightarrow> nat \<Rightarrow> stock_reservation list" where
  "held_by_order db j = filter (\<lambda>r. sr_state r = Held \<and>
     (\<exists>i \<in> set (order_items db). oi_id i = sr_item r \<and> oi_order i = j)) (reservations db)"

definition release_locked :: "env \<Rightarrow> nat \<Rightarrow> order_row \<Rightarrow> shop_db \<Rightarrow> shop_error + (order_row \<times> shop_db)" where
  "release_locked e w order db = bind_r (release_each e w (held_by_order db (od_id order)) db) (\<lambda>db.
     if \<not> reservations_managed order \<and> has_tracked_variant db (od_id order)
     then let order' = order\<lparr>stock_error :=
            ''Legacy stock reservation has no recorded warehouse; release it manually after reconciliation.''\<rparr>
       in Inr (order', save_order order' db)
     else Inr (order, db))"

definition release_stock_reservations :: "env \<Rightarrow> nat \<Rightarrow> order_row \<Rightarrow> shop_db \<Rightarrow> shop_error + (order_row \<times> shop_db)" where
  "release_stock_reservations e w given db = locked w given db (\<lambda>order. release_locked e w order db)"

subsection \<open>The life of an order\<close>

definition emit :: "string \<Rightarrow> nat \<Rightarrow> shop_db \<Rightarrow> shop_db" where
  "emit name j db = db\<lparr>emitted := emitted db @ [(name, j)]\<rparr>"

definition audit_order :: "nat \<Rightarrow> string \<Rightarrow> string \<Rightarrow> string \<Rightarrow> shop_db \<Rightarrow> shop_db" where
  "audit_order j field old new db = db\<lparr>shop_audits := shop_audits db @
     [\<lparr>sa_order = j, sa_field = field, sa_old = old, sa_new = new\<rparr>]\<rparr>"

text \<open>
  \<open>deduct_stock\<close> may fail without stopping the payment; the row that is returned is then the paid
  one with the error that was recorded.
\<close>

definition mark_locked :: "env \<Rightarrow> nat \<Rightarrow> bool \<Rightarrow> order_row \<Rightarrow> shop_db \<Rightarrow> order_row \<times> shop_db" where
  "mark_locked e w update_inventory order db =
    (if od_payment order = ''paid'' then (order, db)
     else let paid = order\<lparr>od_payment := ''paid'', paid_at := Some (now e)\<rparr>; db = save_order paid db;
              (order', db) = (if update_inventory \<and> deduction_event paid = ''payment_confirmed''
                then (case deduct_stock e w paid db of
                    (Inr r, db) \<Rightarrow> (r, db)
                  | (Inl err, db) \<Rightarrow> (paid\<lparr>stock_error := error_detail err\<rparr>, db))
                else (paid, db))
       in (order', emit ''order.paid'' (od_id order)
            (audit_order (od_id order) ''payment_status'' (od_payment order) ''paid'' db)))"

definition mark_as_paid :: "env \<Rightarrow> nat \<Rightarrow> order_row \<Rightarrow> bool \<Rightarrow> shop_db \<Rightarrow> shop_error + (order_row \<times> shop_db)" where
  "mark_as_paid e w given update_inventory db =
     locked w given db (\<lambda>order. Inr (mark_locked e w update_inventory order db))"

definition cancelled :: "string \<Rightarrow> order_row \<Rightarrow> order_row" where
  "cancelled reason order = order\<lparr>od_status := ''cancelled'', admin_note := (if reason = [] then admin_note order
     else ''Cancelled: '' @ reason @ [CHR 10] @ admin_note order)\<rparr>"

definition cancel_order :: "env \<Rightarrow> nat \<Rightarrow> order_row \<Rightarrow> string \<Rightarrow> shop_db \<Rightarrow> shop_error + (order_row \<times> shop_db)" where
  "cancel_order e w given reason db =
    (if od_workspace given \<noteq> w then Inl Permission_Denied
     else if od_status given \<in> {''delivered'', ''cancelled'', ''refunded''} then Inl Not_Cancellable
     else bind_r (release_stock_reservations e w given db) (\<lambda>(order, db).
       let order' = cancelled reason order;
           db = emit ''order.cancelled'' (od_id order) (save_order order' db)
       in Inr (order', audit_order (od_id order) ''status'' (od_status order) ''cancelled'' db)))"

definition status_event :: "string \<Rightarrow> order_row \<Rightarrow> string option" where
  "status_event new order =
    (if new = ''shipped'' \<and> shipped_at order = None then Some ''order.shipped''
     else if new = ''ready_for_pickup'' \<and> shipped_at order = None then Some ''order.ready_for_pickup''
     else if new = ''delivered'' \<and> delivered_at order = None then Some ''order.delivered''
     else if new = ''processing'' \<and> od_status order = ''pending'' then Some ''order.processing''
     else if new = ''cancelled'' then Some ''order.cancelled''
     else if new = ''refunded'' then Some ''order.refunded''
     else None)"

definition moved_to :: "env \<Rightarrow> string \<Rightarrow> order_row \<Rightarrow> order_row" where
  "moved_to e new order = order\<lparr>od_status := new,
     shipped_at := (if new \<in> {''shipped'', ''ready_for_pickup''} \<and> shipped_at order = None then Some (now e) else shipped_at order),
     delivered_at := (if new = ''delivered'' \<and> delivered_at order = None then Some (now e) else delivered_at order)\<rparr>"

definition update_order_status :: "env \<Rightarrow> nat \<Rightarrow> order_row \<Rightarrow> string \<Rightarrow> shop_db \<Rightarrow> shop_error + (order_row \<times> shop_db)" where
  "update_order_status e w given new db =
    (if od_workspace given \<noteq> w then Inl Permission_Denied
     else bind_r (if new = ''cancelled'' then release_stock_reservations e w given db else Inr (given, db)) (\<lambda>(order, db).
       let order' = moved_to e new order;
           db = (case status_event new order of None \<Rightarrow> db | Some name \<Rightarrow> emit name (od_id order) db);
           db = save_order order' db
       in Inr (order', audit_order (od_id order) ''status'' (od_status order) new db)))"

subsection \<open>What is promised and what is there\<close>

text \<open>
  The pieces of an inventory row, the pieces of it orders hold and the pieces orders have taken.
  The tables are well formed when keys are unique, a variant has one row per warehouse, an item
  has one reservation, and a reservation is of at least one piece of a row that is there.
\<close>

definition quantity_at :: "shop_db \<Rightarrow> nat \<Rightarrow> int" where
  "quantity_at db j = (\<Sum>x\<leftarrow>inventories db. if iv_id x = j then iv_quantity x else 0)"

definition reserved_at :: "shop_db \<Rightarrow> nat \<Rightarrow> int" where
  "reserved_at db j = (\<Sum>x\<leftarrow>inventories db. if iv_id x = j then iv_reserved x else 0)"

definition in_state :: "reservation_state \<Rightarrow> shop_db \<Rightarrow> nat \<Rightarrow> int" where
  "in_state s db j = (\<Sum>r\<leftarrow>reservations db. if sr_inventory r = j \<and> sr_state r = s then sr_quantity r else 0)"

definition shop_ok :: "shop_db \<Rightarrow> bool" where
  "shop_ok db \<longleftrightarrow> distinct (map iv_id (inventories db)) \<and>
     distinct (map (\<lambda>i. (iv_variant i, iv_warehouse i)) (inventories db)) \<and>
     distinct (map sr_id (reservations db)) \<and> distinct (map sr_item (reservations db)) \<and>
     (\<forall>r \<in> set (reservations db). sr_inventory r \<in> iv_id ` set (inventories db) \<and> 1 \<le> sr_quantity r)"

definition never_oversold :: "shop_db \<Rightarrow> bool" where
  "never_oversold db \<longleftrightarrow> (\<forall>j. in_state Held db j \<le> reserved_at db j \<and> reserved_at db j \<le> quantity_at db j)"

text \<open>
  The law of every move of an order: what leaves a row is what its orders take, and what of it is
  promised to others stays promised.
\<close>

definition conserves :: "shop_db \<Rightarrow> shop_db \<Rightarrow> bool" where
  "conserves db db' \<longleftrightarrow> (\<forall>j. quantity_at db' j + in_state Consumed db' j = quantity_at db j + in_state Consumed db j \<and>
     reserved_at db' j - in_state Held db' j = reserved_at db j - in_state Held db j)"

definition same_catalogue :: "shop_db \<Rightarrow> shop_db \<Rightarrow> bool" where
  "same_catalogue db db' \<longleftrightarrow> warehouses db' = warehouses db \<and> order_items db' = order_items db"

lemma conserves_refl [simp]: "conserves db db" "same_catalogue db db"
  by (simp_all add: conserves_def same_catalogue_def)

lemma conserves_trans: "conserves a b \<Longrightarrow> conserves b c \<Longrightarrow> conserves a c"
  by (simp add: conserves_def)

lemma same_catalogue_trans: "same_catalogue a b \<Longrightarrow> same_catalogue b c \<Longrightarrow> same_catalogue a c"
  by (simp add: same_catalogue_def)

lemma stock_of_other_tables [simp]:
  "quantity_at (db\<lparr>orders := x\<rparr>) = quantity_at db" "quantity_at (db\<lparr>reservations := s\<rparr>) = quantity_at db"
  "quantity_at (db\<lparr>variants := v\<rparr>) = quantity_at db" "quantity_at (db\<lparr>products := p\<rparr>) = quantity_at db"
  "reserved_at (db\<lparr>orders := x\<rparr>) = reserved_at db" "reserved_at (db\<lparr>reservations := s\<rparr>) = reserved_at db"
  "reserved_at (db\<lparr>variants := v\<rparr>) = reserved_at db" "reserved_at (db\<lparr>products := p\<rparr>) = reserved_at db"
  "in_state t (db\<lparr>orders := x\<rparr>) = in_state t db" "in_state t (db\<lparr>inventories := y\<rparr>) = in_state t db"
  "in_state t (db\<lparr>variants := v\<rparr>) = in_state t db" "in_state t (db\<lparr>products := p\<rparr>) = in_state t db"
  "quantity_at (db\<lparr>emitted := m\<rparr>) = quantity_at db" "quantity_at (db\<lparr>committed := m\<rparr>) = quantity_at db"
  "reserved_at (db\<lparr>emitted := m\<rparr>) = reserved_at db" "reserved_at (db\<lparr>committed := m\<rparr>) = reserved_at db"
  "in_state t (db\<lparr>emitted := m\<rparr>) = in_state t db" "in_state t (db\<lparr>committed := m\<rparr>) = in_state t db"
  "quantity_at (db\<lparr>shop_audits := a\<rparr>) = quantity_at db" "reserved_at (db\<lparr>shop_audits := a\<rparr>) = reserved_at db"
  "in_state t (db\<lparr>shop_audits := a\<rparr>) = in_state t db"
  by (simp_all add: fun_eq_iff quantity_at_def reserved_at_def in_state_def)

lemma sum_absent: "j \<notin> iv_id ` set xs \<Longrightarrow> (\<Sum>x\<leftarrow>xs. if iv_id x = j then f x else (0::int)) = 0"
  by (induction xs) auto

lemma save_inventory_at:
  assumes "distinct (map iv_id (inventories db))" "i \<in> set (inventories db)" "iv_id i' = iv_id i"
  shows "quantity_at (save_inventory i' db) j = quantity_at db j + (if j = iv_id i then iv_quantity i' - iv_quantity i else 0)"
    "reserved_at (save_inventory i' db) j = reserved_at db j + (if j = iv_id i then iv_reserved i' - iv_reserved i else 0)"
    "in_state s (save_inventory i' db) j = in_state s db j"
proof -
  note u = sum_update_where [OF assms(1,2), where f = "\<lambda>_. i'"]
  show "quantity_at (save_inventory i' db) j = quantity_at db j + (if j = iv_id i then iv_quantity i' - iv_quantity i else 0)"
    using u [of "\<lambda>x. if iv_id x = j then iv_quantity x else 0"] assms(3) by (simp add: quantity_at_def save_inventory_def)
  show "reserved_at (save_inventory i' db) j = reserved_at db j + (if j = iv_id i then iv_reserved i' - iv_reserved i else 0)"
    using u [of "\<lambda>x. if iv_id x = j then iv_reserved x else 0"] assms(3) by (simp add: reserved_at_def save_inventory_def)
  show "in_state s (save_inventory i' db) j = in_state s db j" by (simp add: save_inventory_def)
qed

lemma at_row:
  assumes "distinct (map iv_id (inventories db))" "i \<in> set (inventories db)"
  shows "quantity_at db (iv_id i) = iv_quantity i" "reserved_at db (iv_id i) = iv_reserved i"
  using assms unfolding quantity_at_def reserved_at_def
  by (induction "inventories db" arbitrary: db) (auto simp: sum_absent dest: split_list)

lemma map_save_inventory:
  assumes "distinct (map iv_id (inventories db))" "i \<in> set (inventories db)" "iv_id i' = iv_id i" "k i' = k i"
  shows "map k (inventories (save_inventory i' db)) = map k (inventories db)"
proof -
  have "x = i" if "x \<in> set (inventories db)" "iv_id x = iv_id i" for x
    using assms(1,2) that by (auto simp: distinct_map dest: inj_onD)
  with assms(3,4) show ?thesis by (auto simp: save_inventory_def update_where_def)
qed

lemma save_inventory_ok:
  assumes "shop_ok db" "i \<in> set (inventories db)" "iv_id i' = iv_id i" "iv_variant i' = iv_variant i" "iv_warehouse i' = iv_warehouse i"
  shows "shop_ok (save_inventory i' db)"
proof -
  have dist: "distinct (map iv_id (inventories db))" using assms(1) by (simp add: shop_ok_def)
  note k = map_save_inventory [OF dist assms(2,3)]
  have ids: "iv_id ` set (inventories (save_inventory i' db)) = iv_id ` set (inventories db)"
    using k [of iv_id] assms(3) by (metis list.set_map)
  show ?thesis
    using assms(1) k [of iv_id] k [of "\<lambda>x. (iv_variant x, iv_warehouse x)"] assms(3-5) ids
    by (simp add: shop_ok_def) (simp add: save_inventory_def)
qed

lemma get_variant_inventory_spec:
  assumes "get_variant_inventory v wh db = (i, db')" "shop_ok db"
  shows "shop_ok db'" "i \<in> set (inventories db')" "iv_variant i = v" "iv_warehouse i = wh"
    "quantity_at db' = quantity_at db" "reserved_at db' = reserved_at db" "in_state s db' = in_state s db"
    "get_variant_inventory v wh db' = (i, db')" "db' = db\<lparr>inventories := inventories db'\<rparr>"
    "i \<in> set (inventories db) \<Longrightarrow> db' = db"
proof -
  have "shop_ok db' \<and> i \<in> set (inventories db') \<and> iv_variant i = v \<and> iv_warehouse i = wh \<and>
    quantity_at db' = quantity_at db \<and> reserved_at db' = reserved_at db \<and> in_state s db' = in_state s db \<and>
    get_variant_inventory v wh db' = (i, db') \<and> db' = db\<lparr>inventories := inventories db'\<rparr> \<and>
    (i \<in> set (inventories db) \<longrightarrow> db' = db)"
  proof (cases "find_inventory db v wh")
    case None
    then have n: "\<forall>x \<in> set (inventories db). (iv_variant x, iv_warehouse x) \<noteq> (v, wh)"
      by (simp add: find_inventory_def filter_empty_conv)
    from None assms(1) have i: "i = \<lparr>iv_id = fresh_id iv_id (inventories db), iv_variant = v, iv_warehouse = wh, iv_quantity = 0,
        iv_reserved = 0\<rparr>" and d: "db' = db\<lparr>inventories := inventories db @ [i]\<rparr>"
      by (auto simp: get_variant_inventory_def Let_def)
    have "find_inventory db' v wh = Some i" using n by (simp add: d i find_inventory_def first_append filter_empty_conv)
    moreover have "iv_id i \<notin> iv_id ` set (inventories db)" using fresh_id_notin [of iv_id "inventories db"] by (simp add: i)
    ultimately show ?thesis using n assms(2)
      by (auto simp: d get_variant_inventory_def shop_ok_def quantity_at_def reserved_at_def fun_eq_iff i)
  next
    case (Some x)
    then have "x \<in> set (inventories db) \<and> iv_variant x = v \<and> iv_warehouse x = wh"
      by (auto simp: find_inventory_def dest: first_filter_SomeD)
    with Some assms show ?thesis by (auto simp: get_variant_inventory_def)
  qed
  then show "shop_ok db'" "i \<in> set (inventories db')" "iv_variant i = v" "iv_warehouse i = wh"
    "quantity_at db' = quantity_at db" "reserved_at db' = reserved_at db" "in_state s db' = in_state s db"
    "get_variant_inventory v wh db' = (i, db')" "db' = db\<lparr>inventories := inventories db'\<rparr>"
    "i \<in> set (inventories db) \<Longrightarrow> db' = db" by blast+
qed

text \<open>The row of a reservation is the one its variant has in its warehouse.\<close>

lemma get_variant_inventory_same:
  assumes "shop_ok db" "i \<in> set (inventories db)"
  shows "get_variant_inventory (iv_variant i) (iv_warehouse i) db = (i, db)"
proof -
  have "inj_on (\<lambda>i. (iv_variant i, iv_warehouse i)) (set (inventories db))"
    using assms(1) by (simp add: shop_ok_def distinct_map)
  then have u: "x = i" if "x \<in> set (inventories db)" "iv_variant x = iv_variant i" "iv_warehouse x = iv_warehouse i" for x
    using that assms(2) by (auto dest: inj_onD)
  have "find_inventory db (iv_variant i) (iv_warehouse i) \<noteq> None"
    using assms(2) by (auto simp: find_inventory_def filter_empty_conv)
  then obtain x where "find_inventory db (iv_variant i) (iv_warehouse i) = Some x" by blast
  with u show ?thesis by (auto simp: get_variant_inventory_def find_inventory_def dest: first_filter_SomeD)
qed

lemma reserve_stock_spec:
  assumes "reserve_stock v wh q db = Inr (i, db')" "shop_ok db"
  obtains i0 db1 where "get_variant_inventory v wh db = (i0, db1)" "q \<le> available_in i0" "iv_id i = iv_id i0"
    "shop_ok db'" "i \<in> set (inventories db')"
    "\<And>j. quantity_at db' j = quantity_at db j" "\<And>j. reserved_at db' j = reserved_at db j + (if j = iv_id i then q else 0)"
    "\<And>s j. in_state s db' j = in_state s db j" "db' = db\<lparr>inventories := inventories db'\<rparr>"
    "db' = save_inventory (i0\<lparr>iv_reserved := iv_reserved i0 + q\<rparr>) db1"
proof -
  obtain i0 db1 where g: "get_variant_inventory v wh db = (i0, db1)" by fastforce
  note sp = get_variant_inventory_spec [OF g assms(2)]
  from assms(1) g have q: "q \<le> available_in i0" and i: "i = i0\<lparr>iv_reserved := iv_reserved i0 + q\<rparr>"
    and d: "db' = save_inventory i db1" by (auto simp: reserve_stock_def Let_def split: if_splits)
  have dist: "distinct (map iv_id (inventories db1))" using sp(1) by (simp add: shop_ok_def)
  have at: "iv_id i = iv_id i0" by (simp add: i)
  note mv = save_inventory_at [OF dist sp(2) at]
  show thesis
  proof (rule that [OF g q at])
    show "shop_ok db'" unfolding d by (rule save_inventory_ok [OF sp(1,2)]) (simp_all add: i)
    show "i \<in> set (inventories db')" using sp(2) at by (auto simp: d save_inventory_def set_update_where image_iff)
    show "quantity_at db' j = quantity_at db j" for j using mv(1) [of j] sp(5) by (simp add: d i)
    show "reserved_at db' j = reserved_at db j + (if j = iv_id i then q else 0)" for j
      using mv(2) [of j] sp(6) by (simp add: d i)
    show "in_state s db' j = in_state s db j" for s j using mv(3) [of s j] sp(7) [of s] by (simp add: d)
    show "db' = db\<lparr>inventories := inventories db'\<rparr>"
      by (subst (1) d, subst sp(9)) (simp add: save_inventory_def d)
    show "db' = save_inventory (i0\<lparr>iv_reserved := iv_reserved i0 + q\<rparr>) db1" by (simp add: d i)
  qed
qed

subsection \<open>Reserving keeps the law\<close>

definition stock_ok :: "shop_db \<Rightarrow> bool" where
  "stock_ok db \<longleftrightarrow> shop_ok db \<and> never_oversold db"

text \<open>One more reservation of an item that has none, of a row that is there.\<close>

lemma add_reservation_spec:
  assumes "add_reservation item i db = Inr db'" "shop_ok db" "reservation_of db (oi_id item) = None"
    "i \<in> iv_id ` set (inventories db)"
  shows "shop_ok db'" "\<And>s j. in_state s db' j = in_state s db j + (if s = Held \<and> j = i then oi_quantity item else 0)"
    "\<And>j. quantity_at db' j = quantity_at db j" "\<And>j. reserved_at db' j = reserved_at db j" "1 \<le> oi_quantity item"
    "db' = db\<lparr>reservations := reservations db'\<rparr>"
    "\<exists>r. reservations db' = reservations db @ [r] \<and> sr_item r = oi_id item \<and> sr_state r = Held \<and> sr_inventory r = i \<and>
       sr_quantity r = oi_quantity item"
proof -
  have "oi_id item \<notin> sr_item ` set (reservations db)"
    using assms(3) by (auto simp: reservation_of_def filter_empty_conv)
  with assms fresh_id_notin [of sr_id "reservations db"] show "shop_ok db'"
    by (auto simp: add_reservation_def shop_ok_def split: if_splits)
  from assms(1) show "\<And>s j. in_state s db' j = in_state s db j + (if s = Held \<and> j = i then oi_quantity item else 0)"
    "\<And>j. quantity_at db' j = quantity_at db j" "\<And>j. reserved_at db' j = reserved_at db j" "1 \<le> oi_quantity item"
    "db' = db\<lparr>reservations := reservations db'\<rparr>"
    "\<exists>r. reservations db' = reservations db @ [r] \<and> sr_item r = oi_id item \<and> sr_state r = Held \<and> sr_inventory r = i \<and>
       sr_quantity r = oi_quantity item"
    by (auto simp: add_reservation_def in_state_def split: if_splits)
qed

text \<open>Rows are only added and keep what they are a row of.\<close>

definition rows :: "shop_db \<Rightarrow> (nat \<times> nat \<times> nat) set" where
  "rows db = (\<lambda>i. (iv_id i, iv_variant i, iv_warehouse i)) ` set (inventories db)"

lemma rows_save_inventory:
  assumes "distinct (map iv_id (inventories db))" "i \<in> set (inventories db)" "iv_id i' = iv_id i" "iv_variant i' = iv_variant i"
    "iv_warehouse i' = iv_warehouse i"
  shows "rows (save_inventory i' db) = rows db"
proof -
  have "map (\<lambda>i. (iv_id i, iv_variant i, iv_warehouse i)) (inventories (save_inventory i' db))
      = map (\<lambda>i. (iv_id i, iv_variant i, iv_warehouse i)) (inventories db)"
    by (rule map_save_inventory [OF assms(1-3)]) (simp add: assms(3-5))
  from arg_cong [OF this, where f = set] show ?thesis by (simp add: rows_def)
qed

lemma rows_get: "get_variant_inventory v wh db = (i, db') \<Longrightarrow> rows db \<subseteq> rows db'"
  by (auto simp: get_variant_inventory_def rows_def Let_def split: option.splits)

definition reserves_more :: "order_item list \<Rightarrow> shop_db \<Rightarrow> shop_db \<Rightarrow> bool" where
  "reserves_more is db db' \<longleftrightarrow> stock_ok db' \<and> conserves db db' \<and>
     (\<forall>j. quantity_at db' j = quantity_at db j \<and> in_state Consumed db' j = in_state Consumed db j) \<and>
     rows db \<subseteq> rows db' \<and>
     (\<exists>news. reservations db' = reservations db @ news \<and> (\<forall>r \<in> set news. sr_item r \<in> oi_id ` set is \<and> sr_state r = Held)) \<and>
     db' = db\<lparr>inventories := inventories db', reservations := reservations db'\<rparr>"

lemma reserves_more_refl: "stock_ok db \<Longrightarrow> reserves_more is db db"
  by (simp add: reserves_more_def)

lemma reserves_more_step:
  assumes "reserves_more [i] db db1" "reserves_more is db1 db2"
  shows "reserves_more (i # is) db db2"
proof -
  from assms(1) obtain n1 where n1: "reservations db1 = reservations db @ n1" "\<forall>r \<in> set n1. sr_item r = oi_id i \<and> sr_state r = Held"
    by (auto simp: reserves_more_def)
  from assms(2) obtain n2 where n2: "reservations db2 = reservations db1 @ n2"
      "\<forall>r \<in> set n2. sr_item r \<in> oi_id ` set is \<and> sr_state r = Held"
    by (auto simp: reserves_more_def)
  have r: "db1 = db\<lparr>inventories := inventories db1, reservations := reservations db1\<rparr>"
    "db2 = db1\<lparr>inventories := inventories db2, reservations := reservations db2\<rparr>"
    using assms by (simp_all add: reserves_more_def)
  have "db2 = db\<lparr>inventories := inventories db2, reservations := reservations db2\<rparr>"
    by (subst r(2), subst r(1)) simp
  moreover have "\<exists>news. reservations db2 = reservations db @ news \<and>
      (\<forall>r \<in> set news. sr_item r \<in> oi_id ` set (i # is) \<and> sr_state r = Held)"
    using n1 n2 by (intro exI [of _ "n1 @ n2"]) auto
  ultimately show ?thesis using assms conserves_trans by (auto simp: reserves_more_def)
qed

lemma new_reservation_spec:
  assumes "new_reservation w item v db = Inr db'" "stock_ok db" "reservation_of db (oi_id item) = None"
  shows "reserves_more [item] db db' \<and>
    (\<exists>r wh. reservation_of db' (oi_id item) = Some r \<and> sr_quantity r = oi_quantity item \<and> (sr_inventory r, v, wh) \<in> rows db')"
proof -
  from assms(1) obtain wh :: warehouse and i db0 i1 db1 where g: "get_variant_inventory v (wh_id wh) db = (i, db0)"
    and rs: "reserve_stock v (wh_id wh) (oi_quantity item) db0 = Inr (i1, db1)"
    and ad: "add_reservation item (iv_id i) db1 = Inr db'"
    by (auto simp: new_reservation_def Let_def bind_r_Inr split: option.splits prod.splits)
  have ok: "shop_ok db" and no: "never_oversold db" using assms(2) by (simp_all add: stock_ok_def)
  note sp = get_variant_inventory_spec [OF g ok]
  obtain i0 db01 where r: "get_variant_inventory v (wh_id wh) db0 = (i0, db01)" "oi_quantity item \<le> available_in i0"
      "iv_id i1 = iv_id i0" "shop_ok db1" "i1 \<in> set (inventories db1)"
      "\<And>j. quantity_at db1 j = quantity_at db0 j"
      "\<And>j. reserved_at db1 j = reserved_at db0 j + (if j = iv_id i1 then oi_quantity item else 0)"
      "\<And>s j. in_state s db1 j = in_state s db0 j" "db1 = db0\<lparr>inventories := inventories db1\<rparr>"
      "db1 = save_inventory (i0\<lparr>iv_reserved := iv_reserved i0 + oi_quantity item\<rparr>) db01"
    by (rule reserve_stock_spec [OF rs sp(1)]) (rule that; assumption)
  have i0: "i0 = i" using r(1) sp(8) by simp
  have res: "reservations db1 = reservations db" by (subst r(9), subst sp(9)) simp
  have rn: "reservation_of db1 (oi_id item) = None" using assms(3) by (simp add: reservation_of_def res)
  have there: "iv_id i \<in> iv_id ` set (inventories db1)" using r(3,5) i0 by (metis image_eqI)
  note a = add_reservation_spec [OF ad r(4) rn there]
  have dist: "distinct (map iv_id (inventories db0))" using sp(1) by (simp add: shop_ok_def)
  note row = at_row [OF dist sp(2)]
  have q: "quantity_at db' j = quantity_at db j" and h: "in_state s db' j = in_state s db j + (if s = Held \<and> j = iv_id i then oi_quantity item else 0)"
    and v: "reserved_at db' j = reserved_at db j + (if j = iv_id i then oi_quantity item else 0)" for j s
    using a(2-4) r(3,6-8) sp(5,6) sp(7) [of s] by (simp_all add: i0)
  have "never_oversold db'"
    unfolding never_oversold_def
  proof
    fix j
    from no have j: "in_state Held db j \<le> reserved_at db j" "reserved_at db j \<le> quantity_at db j" by (simp_all add: never_oversold_def)
    have "oi_quantity item \<le> quantity_at db (iv_id i) - reserved_at db (iv_id i)"
      using r(2) row sp(5,6) by (simp add: i0 available_in_def)
    with j show "in_state Held db' j \<le> reserved_at db' j \<and> reserved_at db' j \<le> quantity_at db' j" by (auto simp: q h v)
  qed
  moreover have "db' = db\<lparr>inventories := inventories db', reservations := reservations db'\<rparr>"
  proof -
    have "inventories db' = inventories db1" by (subst a(6)) simp
    then show ?thesis by (subst (1) a(6), subst (1) r(9), subst sp(9)) simp
  qed
  moreover have ro: "rows db' = rows db0"
  proof -
    have "db01 = db0" using r(1) sp(8) by simp
    with dist sp(2) have "rows db1 = rows db0" unfolding r(10) i0 by (simp add: rows_save_inventory)
    moreover have "rows db' = rows db1" by (subst a(6)) (simp add: rows_def)
    ultimately show ?thesis by simp
  qed
  moreover have "rows db \<subseteq> rows db0" by (rule rows_get [OF g])
  moreover have "\<exists>r wh. reservation_of db' (oi_id item) = Some r \<and> sr_quantity r = oi_quantity item \<and> (sr_inventory r, v, wh) \<in> rows db'"
  proof -
    from a(7) obtain r where "reservations db' = reservations db1 @ [r]" "sr_item r = oi_id item" "sr_inventory r = iv_id i"
      "sr_quantity r = oi_quantity item" by blast
    with rn have "reservation_of db' (oi_id item) = Some r" "sr_inventory r = iv_id i" "sr_quantity r = oi_quantity item"
      by (simp_all add: reservation_of_def first_append)
    moreover have "(iv_id i, v, wh_id wh) \<in> rows db0" using sp(2-4) by (auto simp: rows_def)
    ultimately show ?thesis unfolding ro by metis
  qed
  ultimately show ?thesis using a(1,7) res q h v
    by (auto simp: reserves_more_def stock_ok_def conserves_def)
qed

lemma reserve_item_spec:
  assumes "reserve_item w item db = Inr db'" "stock_ok db"
  shows "reserves_more [item] db db'"
  using assms new_reservation_spec [of w item _ db db']
  by (auto simp: reserve_item_def keep_reservation_def reserves_more_refl split: option.splits if_splits)

lemma reserve_items_spec:
  "reserve_items w is db = Inr db' \<Longrightarrow> stock_ok db \<Longrightarrow> reserves_more is db db'"
proof (induction "is" arbitrary: db)
  case (Cons i "is")
  from Cons.prems(1) obtain db1 where s: "reserve_item w i db = Inr db1" "reserve_items w is db1 = Inr db'"
    by (auto simp: bind_r_Inr)
  have m: "reserves_more [i] db db1" by (rule reserve_item_spec [OF s(1) Cons.prems(2)])
  then have "stock_ok db1" by (simp add: reserves_more_def)
  with s(2) Cons.IH have "reserves_more is db1 db'" by blast
  with m show ?case by (rule reserves_more_step)
qed (simp add: reserves_more_refl)

subsection \<open>Taking and letting go keep the law\<close>

lemma reservation_of_Some: "reservation_of db j = Some r \<Longrightarrow> r \<in> set (reservations db) \<and> sr_item r = j"
  by (auto simp: reservation_of_def dest: first_filter_SomeD)

lemma inventory_by_id_Some: "inventory_by_id db j = Some i \<Longrightarrow> i \<in> set (inventories db) \<and> iv_id i = j"
  by (auto simp: inventory_by_id_def dest: first_filter_SomeD)

text \<open>A reservation that is closed, consumed or let go.\<close>

definition closed_as :: "reservation_state \<Rightarrow> moment \<Rightarrow> stock_reservation \<Rightarrow> stock_reservation" where
  "closed_as s t r = r\<lparr>sr_state := s, sr_closed_at := Some t\<rparr>"

lemma closed_as_simps [simp]: "sr_id (closed_as s t r) = sr_id r" "sr_item (closed_as s t r) = sr_item r"
  "sr_inventory (closed_as s t r) = sr_inventory r" "sr_quantity (closed_as s t r) = sr_quantity r" "sr_state (closed_as s t r) = s"
  by (simp_all add: closed_as_def)

lemma save_closed:
  fixes t :: moment
  assumes "shop_ok db" "r \<in> set (reservations db)" "sr_state r = Held" "s \<noteq> Held"
  defines "db' \<equiv> save_reservation (closed_as s t r) db"
  shows "shop_ok db'"
    "in_state q db' j = in_state q db j + (if j = sr_inventory r then (if q = s then sr_quantity r else 0) - (if q = Held then sr_quantity r else 0) else 0)"
    "quantity_at db' = quantity_at db" "reserved_at db' = reserved_at db" "rows db' = rows db"
    "reservations db' = map (\<lambda>x. if x = r then closed_as s t r else x) (reservations db)"
    "db' = db\<lparr>reservations := reservations db'\<rparr>"
proof -
  have ids: "distinct (map sr_id (reservations db))" using assms(1) by (simp add: shop_ok_def)
  then have u: "x = r" if "x \<in> set (reservations db)" "sr_id x = sr_id r" for x
    using assms(2) that by (auto simp: distinct_map dest: inj_onD)
  show m: "reservations db' = map (\<lambda>x. if x = r then closed_as s t r else x) (reservations db)"
    using u by (auto simp: db'_def save_reservation_def update_where_def)
  show f: "db' = db\<lparr>reservations := reservations db'\<rparr>" by (simp add: db'_def save_reservation_def)
  show "quantity_at db' = quantity_at db" "reserved_at db' = reserved_at db" "rows db' = rows db"
    by (subst f, simp add: rows_def)+
  have k: "map k (reservations db') = map k (reservations db)" if "k (closed_as s t r) = k r" for k :: "stock_reservation \<Rightarrow> nat"
    unfolding m using that by simp
  have "inventories db' = inventories db" by (subst f) simp
  moreover have "distinct (map sr_id (reservations db'))" "distinct (map sr_item (reservations db'))"
    using k [of sr_id] k [of sr_item] assms(1) by (simp_all only: shop_ok_def closed_as_simps)
  moreover have "sr_inventory x \<in> iv_id ` set (inventories db) \<and> 1 \<le> sr_quantity x" if "x \<in> set (reservations db')" for x
    using that assms(1,2) by (auto simp: m shop_ok_def split: if_splits)
  ultimately show "shop_ok db'" using assms(1) by (simp add: shop_ok_def)
  show "in_state q db' j = in_state q db j + (if j = sr_inventory r then (if q = s then sr_quantity r else 0) - (if q = Held then sr_quantity r else 0) else 0)"
    using sum_update_where [OF ids assms(2), where f = "\<lambda>_. closed_as s t r" and
        g = "\<lambda>r. if sr_inventory r = j \<and> sr_state r = q then sr_quantity r else 0"] assms(3,4)
    by (auto simp: in_state_def db'_def save_reservation_def)
qed

text \<open>What a call did when it closed some of the reservations that were held, and nothing else of them.\<close>

definition closes_some :: "(stock_reservation \<Rightarrow> bool) \<Rightarrow> reservation_state \<Rightarrow> moment \<Rightarrow> shop_db \<Rightarrow> shop_db \<Rightarrow> bool" where
  "closes_some P s t db db' \<longleftrightarrow> stock_ok db' \<and> conserves db db' \<and> rows db' = rows db \<and>
     (s = Let_Go \<longrightarrow> (\<forall>j. quantity_at db' j = quantity_at db j)) \<and>
     reservations db' = map (\<lambda>x. if P x then closed_as s t x else x) (reservations db) \<and>
     (\<forall>x \<in> set (reservations db). P x \<longrightarrow> sr_state x = Held) \<and>
     db' = db\<lparr>inventories := inventories db', reservations := reservations db', variants := variants db', products := products db'\<rparr>"

lemma closes_some_none: "stock_ok db \<Longrightarrow> closes_some (\<lambda>_. False) s t db db"
  by (simp add: closes_some_def)

lemma closes_some_step:
  assumes "closes_some P s t db db1" "closes_some Q s t db1 db2" "s \<noteq> Held"
  shows "closes_some (\<lambda>x. P x \<or> Q x) s t db db2"
proof -
  have r: "reservations db1 = map (\<lambda>x. if P x then closed_as s t x else x) (reservations db)"
    "reservations db2 = map (\<lambda>x. if Q x then closed_as s t x else x) (reservations db1)"
    using assms by (simp_all add: closes_some_def)
  have h: "sr_state x = Held" if "x \<in> set (reservations db1)" "Q x" for x
    using assms(2) that by (auto simp: closes_some_def)
  have nq: "\<not> Q (closed_as s t x)" if "x \<in> set (reservations db)" "P x" for x
    using h [of "closed_as s t x"] that assms(3) by (auto simp: r(1) image_iff)
  have "reservations db2 = map (\<lambda>x. if P x \<or> Q x then closed_as s t x else x) (reservations db)"
    unfolding r using nq by auto
  moreover have "\<forall>x \<in> set (reservations db). P x \<or> Q x \<longrightarrow> sr_state x = Held"
  proof (intro ballI impI)
    fix x assume x: "x \<in> set (reservations db)" "P x \<or> Q x"
    show "sr_state x = Held"
    proof (cases "P x")
      case True
      with x assms(1) show ?thesis by (simp add: closes_some_def)
    next
      case False
      with x have "x \<in> set (reservations db1)" "Q x" by (auto simp: r(1) image_iff intro!: bexI [of _ x])
      then show ?thesis by (rule h)
    qed
  qed
  moreover have "db2 = db\<lparr>inventories := inventories db2, reservations := reservations db2, variants := variants db2,
      products := products db2\<rparr>"
  proof -
    have a: "db1 = db\<lparr>inventories := inventories db1, reservations := reservations db1, variants := variants db1, products := products db1\<rparr>"
      "db2 = db1\<lparr>inventories := inventories db2, reservations := reservations db2, variants := variants db2, products := products db2\<rparr>"
      using assms(1,2) unfolding closes_some_def by blast+
    show ?thesis by (subst a(2), subst a(1)) simp
  qed
  moreover have "stock_ok db2" "rows db2 = rows db" "conserves db db1" "conserves db1 db2"
    "s = Let_Go \<longrightarrow> (\<forall>j. quantity_at db2 j = quantity_at db j)"
    using assms(1,2) unfolding closes_some_def by (blast, argo, blast, blast, simp)
  ultimately show ?thesis using conserves_trans unfolding closes_some_def by blast
qed

text \<open>
  Both ways of closing one reservation: pieces leave its row or not, and it is no longer held. The
  row is \<open>i\<close> before and \<open>i'\<close> after.
\<close>

lemma close_one:
  fixes t :: moment
  assumes ok: "stock_ok db" and r: "r \<in> set (reservations db)" "sr_state r = Held" and i: "i \<in> set (inventories db)" "iv_id i = sr_inventory r"
    and i': "i' = i\<lparr>iv_quantity := iv_quantity i - a, iv_reserved := iv_reserved i - sr_quantity r\<rparr>"
    and s: "s = Consumed \<and> a = sr_quantity r \<or> s = Let_Go \<and> a = 0"
    and d: "db' = save_reservation (closed_as s t r) (save_inventory i' db\<lparr>variants := vs\<rparr>)"
  shows "closes_some (\<lambda>x. x = r) s t db db'"
proof -
  have sok: "shop_ok db" and no: "never_oversold db" using ok by (simp_all add: stock_ok_def)
  have dist: "distinct (map iv_id (inventories db))" using sok by (simp add: shop_ok_def)
  let ?db1 = "save_inventory i' db\<lparr>variants := vs\<rparr>"
  have fr: "?db1 = db\<lparr>inventories := inventories ?db1, variants := vs\<rparr>" by (simp add: save_inventory_def)
  have ok1: "shop_ok ?db1"
    using save_inventory_ok [OF sok i(1), of i'] by (simp add: i' shop_ok_def)
  have r1: "r \<in> set (reservations ?db1)" using r(1) by (simp add: save_inventory_def)
  have s': "s \<noteq> Held" using s by auto
  note sc = save_closed [OF ok1 r1 r(2) s', where t = t, folded d]
  have at: "iv_id i' = iv_id i" by (simp add: i')
  note mv = save_inventory_at [OF dist i(1) at]
  have q: "quantity_at db' j = quantity_at db j - (if j = sr_inventory r then a else 0)" for j
    unfolding sc(3) using mv(1) [of j] i(2) by (simp add: i')
  have v: "reserved_at db' j = reserved_at db j - (if j = sr_inventory r then sr_quantity r else 0)" for j
    unfolding sc(4) using mv(2) [of j] i(2) by (simp add: i')
  have h: "in_state x db' j = in_state x db j + (if j = sr_inventory r then (if x = s then sr_quantity r else 0)
      - (if x = Held then sr_quantity r else 0) else 0)" for x j
    unfolding sc(2) using mv(3) [of x j] by simp
  have pos: "1 \<le> sr_quantity r" using sok r(1) by (simp add: shop_ok_def)
  have "never_oversold db'"
    unfolding never_oversold_def
  proof
    fix j
    from no have "in_state Held db j \<le> reserved_at db j" "reserved_at db j \<le> quantity_at db j" by (simp_all add: never_oversold_def)
    with s pos show "in_state Held db' j \<le> reserved_at db' j \<and> reserved_at db' j \<le> quantity_at db' j" by (auto simp: q v h)
  qed
  moreover have "rows db' = rows db"
  proof -
    have "rows db' = rows ?db1" by (rule sc(5))
    also have "\<dots> = rows (save_inventory i' db)" by (simp add: rows_def)
    also have "\<dots> = rows db" by (rule rows_save_inventory [OF dist i(1)]) (simp_all add: i')
    finally show ?thesis .
  qed
  moreover have "reservations db' = map (\<lambda>x. if x = r then closed_as s t x else x) (reservations db)"
    using sc(6) by (simp add: save_inventory_def cong: if_cong)
  moreover have "db' = db\<lparr>inventories := inventories db', reservations := reservations db', variants := variants db',
      products := products db'\<rparr>"
    by (simp add: d save_reservation_def save_inventory_def)
  moreover have "conserves db db'" using s by (auto simp: conserves_def q v h)
  moreover have "s = Let_Go \<longrightarrow> (\<forall>j. quantity_at db' j = quantity_at db j)" using s by (auto simp: q)
  ultimately show ?thesis using sc(1) r(2) unfolding closes_some_def stock_ok_def by blast
qed

lemma deduct_variant_spec:
  assumes "deduct_variant e item v db = Inr db'" "stock_ok db" "reservation_of db (oi_id item) = Some r"
    "(sr_inventory r, va_id v, wh) \<in> rows db"
  shows "closes_some (\<lambda>x. x = r) Consumed (now e) db db'"
proof -
  from assms(1,3) obtain i where i: "inventory_by_id db (sr_inventory r) = Some i" and st: "sr_state r = Held"
    and q: "sr_quantity r = oi_quantity item"
    and d: "db' = save_reservation (r\<lparr>sr_state := Consumed, sr_closed_at := Some (now e)\<rparr>)
      (snd (fulfill_reservation (va_id v) (iv_warehouse i) (oi_quantity item) db))"
    by (auto simp: deduct_variant_def Let_def split: option.splits if_splits prod.splits)
  have sok: "shop_ok db" using assms(2) by (simp add: stock_ok_def)
  from inventory_by_id_Some [OF i] have ii: "i \<in> set (inventories db)" "iv_id i = sr_inventory r" by auto
  have "iv_variant i = va_id v"
  proof -
    from assms(4) obtain k where k: "k \<in> set (inventories db)" "iv_id k = sr_inventory r" "iv_variant k = va_id v"
      by (auto simp: rows_def)
    have "inj_on iv_id (set (inventories db))" using sok by (simp add: shop_ok_def distinct_map)
    with k(1,2) ii have "k = i" by (simp add: inj_on_def)
    with k show ?thesis by simp
  qed
  with get_variant_inventory_same [OF sok ii(1)] have g: "get_variant_inventory (va_id v) (iv_warehouse i) db = (i, db)" by simp
  let ?i' = "i\<lparr>iv_quantity := iv_quantity i - oi_quantity item, iv_reserved := iv_reserved i - oi_quantity item\<rparr>"
  obtain vs where "snd (fulfill_reservation (va_id v) (iv_warehouse i) (oi_quantity item) db) = save_inventory ?i' db\<lparr>variants := vs\<rparr>"
    using g by (simp add: fulfill_reservation_def recount_def Let_def)
  with d have "db' = save_reservation (closed_as Consumed (now e) r) (save_inventory ?i' db\<lparr>variants := vs\<rparr>)"
    by (simp add: closed_as_def)
  moreover have "r \<in> set (reservations db)" using reservation_of_Some [OF assms(3)] by simp
  ultimately show ?thesis
    using close_one [OF assms(2) _ st ii, of "?i'" "oi_quantity item" Consumed db' "now e" vs] q by simp
qed

lemma release_each_spec:
  "release_each e w rs db = Inr db' \<Longrightarrow> stock_ok db \<Longrightarrow> distinct rs \<Longrightarrow> set rs \<subseteq> set (reservations db) \<Longrightarrow>
    (\<And>r. r \<in> set rs \<Longrightarrow> sr_state r = Held) \<Longrightarrow> closes_some (\<lambda>x. x \<in> set rs) Let_Go (now e) db db'"
proof (induction rs arbitrary: db)
  case (Cons r rs)
  from Cons.prems(1) obtain i where i: "inventory_by_id db (sr_inventory r) = Some i" and le: "sr_quantity r \<le> iv_reserved i"
    and rest: "release_each e w rs (save_reservation (closed_as Let_Go (now e) r)
      (snd (release_reservation (iv_variant i) (iv_warehouse i) (sr_quantity r) db))) = Inr db'" (is "release_each e w rs ?db1 = _")
    by (auto simp: closed_as_def split: option.splits if_splits prod.splits)
  have sok: "shop_ok db" using Cons.prems(2) by (simp add: stock_ok_def)
  from inventory_by_id_Some [OF i] have ii: "i \<in> set (inventories db)" "iv_id i = sr_inventory r" by auto
  have "snd (release_reservation (iv_variant i) (iv_warehouse i) (sr_quantity r) db)
      = save_inventory (i\<lparr>iv_quantity := iv_quantity i - 0, iv_reserved := iv_reserved i - sr_quantity r\<rparr>) db\<lparr>variants := variants db\<rparr>"
    using get_variant_inventory_same [OF sok ii(1)] le by (simp add: release_reservation_def save_inventory_def Let_def)
  then have one: "closes_some (\<lambda>x. x = r) Let_Go (now e) db ?db1"
    using Cons.prems(4,5) by (intro close_one [OF Cons.prems(2) _ _ ii refl]) auto
  then have "stock_ok ?db1" and m: "reservations ?db1 = map (\<lambda>x. if x = r then closed_as Let_Go (now e) x else x) (reservations db)"
    unfolding closes_some_def by blast+
  moreover have "set rs \<subseteq> set (reservations ?db1)"
  proof
    fix x assume "x \<in> set rs"
    with Cons.prems(3,4) have "x \<in> set (reservations db)" "x \<noteq> r" by auto
    then show "x \<in> set (reservations ?db1)" unfolding m by (auto simp: image_iff intro!: bexI [of _ x])
  qed
  ultimately have "closes_some (\<lambda>x. x \<in> set rs) Let_Go (now e) ?db1 db'"
    using Cons.prems by (intro Cons.IH [OF rest]) auto
  from closes_some_step [OF one this] show ?case by simp
qed (auto simp: closes_some_none)

subsection \<open>The items of an order\<close>

text \<open>The items whose variant is counted, and that such an item has a reservation of its own variant.\<close>

definition tracked :: "shop_db \<Rightarrow> nat \<Rightarrow> nat \<Rightarrow> bool" where
  "tracked db w p \<longleftrightarrow> (case product_in db w p of Some x \<Rightarrow> pd_track x | None \<Rightarrow> False)"

definition counted :: "shop_db \<Rightarrow> nat \<Rightarrow> order_item \<Rightarrow> bool" where
  "counted db w item \<longleftrightarrow> oi_variant item \<noteq> None \<and> tracked db w (oi_product item)"

definition matched :: "shop_db \<Rightarrow> nat \<Rightarrow> order_item \<Rightarrow> bool" where
  "matched db w item \<longleftrightarrow> (counted db w item \<longrightarrow> (\<exists>r wh. reservation_of db (oi_id item) = Some r \<and>
     sr_quantity r = oi_quantity item \<and> (sr_inventory r, the (oi_variant item), wh) \<in> rows db))"

lemma reserve_item_matched:
  assumes "reserve_item w item db = Inr db'" "stock_ok db"
  shows "matched db' w item"
proof -
  have d: "db' = db\<lparr>inventories := inventories db', reservations := reservations db'\<rparr>"
    using reserve_item_spec [OF assms] by (simp add: reserves_more_def)
  have t: "tracked db' w p = tracked db w p" for p by (subst d) (simp add: tracked_def product_in_def)
  show ?thesis
    unfolding matched_def counted_def t
  proof (intro impI, elim conjE)
    assume v: "oi_variant item \<noteq> None" and tr: "tracked db w (oi_product item)"
    from v obtain v where v: "oi_variant item = Some v" by blast
    with assms(1) tr consider r where "reservation_of db (oi_id item) = Some r" "keep_reservation db w item v r = Inr db'"
      | "reservation_of db (oi_id item) = None" "new_reservation w item v db = Inr db'"
      by (auto simp: reserve_item_def tracked_def split: option.splits)
    then show "\<exists>r wh. reservation_of db' (oi_id item) = Some r \<and> sr_quantity r = oi_quantity item \<and> (sr_inventory r, the (oi_variant item), wh) \<in> rows db'"
    proof cases
      case (1 r)
      then have "db' = db" "sr_quantity r = oi_quantity item" "\<exists>i. inventory_by_id db (sr_inventory r) = Some i \<and> iv_variant i = v"
        by (auto simp: keep_reservation_def split: option.splits if_splits)
      with 1 v show ?thesis by (force simp: rows_def dest: inventory_by_id_Some)
    next
      case 2
      with new_reservation_spec [OF 2(2) assms(2) 2(1)] v show ?thesis by simp
    qed
  qed
qed

lemma matched_more:
  assumes "matched db w item" "reserves_more is db db'"
  shows "matched db' w item"
proof -
  have d: "db' = db\<lparr>inventories := inventories db', reservations := reservations db'\<rparr>"
    using assms(2) by (simp add: reserves_more_def)
  have t: "counted db' w item = counted db w item" by (subst d) (simp add: counted_def tracked_def product_in_def)
  from assms(2) have "reservation_of db j = Some r \<Longrightarrow> reservation_of db' j = Some r" for j r
    by (auto simp: reserves_more_def reservation_of_def first_append)
  moreover have "rows db \<subseteq> rows db'" using assms(2) by (simp add: reserves_more_def)
  ultimately show ?thesis using assms(1) unfolding matched_def t by blast
qed

lemma reserve_items_matched:
  "reserve_items w is db = Inr db' \<Longrightarrow> stock_ok db \<Longrightarrow> item \<in> set is \<Longrightarrow> matched db' w item"
proof (induction "is" arbitrary: db)
  case (Cons i "is")
  from Cons.prems(1) obtain db1 where s: "reserve_item w i db = Inr db1" "reserve_items w is db1 = Inr db'"
    by (auto simp: bind_r_Inr)
  have "stock_ok db1" using reserve_item_spec [OF s(1) Cons.prems(2)] by (simp add: reserves_more_def)
  with Cons.IH s matched_more [OF reserve_item_matched [OF s(1) Cons.prems(2)] reserve_items_spec [OF s(2)]] Cons.prems(3)
  show ?case by auto
qed simp

lemma closes_some_cong:
  "(\<And>x. x \<in> set (reservations db) \<Longrightarrow> P x = Q x) \<Longrightarrow> closes_some P s t db db' = closes_some Q s t db db'"
  by (simp add: closes_some_def cong: map_cong)

lemma closes_reservation_of:
  assumes "closes_some P s t db db'"
  shows "reservation_of db' j = map_option (\<lambda>x. if P x then closed_as s t x else x) (reservation_of db j)"
proof -
  have "first (filter (\<lambda>x. sr_item x = j) (map (\<lambda>x. if P x then closed_as s t x else x) rs))
      = map_option (\<lambda>x. if P x then closed_as s t x else x) (first (filter (\<lambda>x. sr_item x = j) rs))" for rs
    by (induction rs) auto
  then show ?thesis using assms by (simp add: reservation_of_def closes_some_def)
qed

lemma matched_closes:
  assumes "matched db w item" "closes_some P s t db db'" "counted db' w item = counted db w item"
  shows "matched db' w item"
  using assms(1) unfolding matched_def assms(3) closes_reservation_of [OF assms(2)]
  using assms(2) by (fastforce simp: closes_some_def)

text \<open>The reservations of the counted ones among some items.\<close>

definition of_items :: "shop_db \<Rightarrow> nat \<Rightarrow> order_item list \<Rightarrow> stock_reservation \<Rightarrow> bool" where
  "of_items db w is x \<longleftrightarrow> (\<exists>i \<in> set is. counted db w i \<and> sr_item x = oi_id i)"

lemma of_items_simps: "of_items db w [] = (\<lambda>_. False)"
  "of_items db w (i # is) = (\<lambda>x. of_items db w [i] x \<or> of_items db w is x)"
  by (auto simp: of_items_def fun_eq_iff)

lemma tracked_products:
  assumes "\<And>x. x \<in> set (products db) \<Longrightarrow> pd_id (f x) = pd_id x \<and> pd_workspace (f x) = pd_workspace x \<and> pd_track (f x) = pd_track x"
  shows "tracked (db\<lparr>products := map f (products db)\<rparr>) w p = tracked db w p"
proof -
  have "(\<And>x. x \<in> set ps \<Longrightarrow> pd_id (f x) = pd_id x \<and> pd_workspace (f x) = pd_workspace x \<and> pd_track (f x) = pd_track x) \<Longrightarrow>
    first (filter (\<lambda>x. pd_id x = p \<and> pd_workspace x = w) (map f ps))
      = map_option f (first (filter (\<lambda>x. pd_id x = p \<and> pd_workspace x = w) ps)) \<and>
    (\<forall>x. first (filter (\<lambda>x. pd_id x = p \<and> pd_workspace x = w) ps) = Some x \<longrightarrow> pd_track (f x) = pd_track x)" for ps
    by (induction ps) auto
  from this [OF assms] show ?thesis
    by (auto simp: tracked_def product_in_def split: option.splits)
qed

lemma counted_other_tables [simp]: "counted (db\<lparr>inventories := a, reservations := b, variants := c\<rparr>) w i = counted db w i"
  "counted (db\<lparr>inventories := a, reservations := b\<rparr>) w i = counted db w i"
  by (simp_all add: counted_def tracked_def product_in_def)

lemma deduct_item_spec:
  assumes "deduct_item e w item db = Inr db'" "stock_ok db" "matched db w item"
  shows "closes_some (of_items db w [item]) Consumed (now e) db db'" "\<And>p. tracked db' w p = tracked db w p"
proof -
  have sok: "shop_ok db" using assms(2) by (simp add: stock_ok_def)
  obtain p where p: "product_in db w (oi_product item) = Some p" using assms(1) by (auto simp: deduct_item_def split: option.splits)
  have "closes_some (of_items db w [item]) Consumed (now e) db db' \<and> (\<forall>q. tracked db' w q = tracked db w q)"
  proof (cases "counted db w item")
    case True
    then obtain v where v: "oi_variant item = Some v" "pd_track p" using p by (auto simp: counted_def tracked_def)
    with assms(1) p obtain x where x: "variant_in db (pd_id p) v = Some x" "deduct_variant e item x db = Inr db'"
      by (auto simp: deduct_item_def split: option.splits)
    have xv: "va_id x = v" using x(1) by (auto simp: variant_in_def dest: first_filter_SomeD)
    from assms(3) True v obtain r wh where r: "reservation_of db (oi_id item) = Some r" "(sr_inventory r, v, wh) \<in> rows db"
      by (auto simp: matched_def)
    have c: "closes_some (\<lambda>y. y = r) Consumed (now e) db db'"
      by (rule deduct_variant_spec [OF x(2) assms(2) r(1)]) (use r(2) xv in simp)
    have "inj_on sr_item (set (reservations db))" using sok by (simp add: shop_ok_def distinct_map)
    with reservation_of_Some [OF r(1)] True have "(y = r) = of_items db w [item] y" if "y \<in> set (reservations db)" for y
      using that by (auto simp: of_items_def inj_on_def)
    with c have "closes_some (of_items db w [item]) Consumed (now e) db db'"
      using closes_some_cong [of db "\<lambda>y. y = r" "of_items db w [item]"] by simp
    moreover have "products db' = products db"
      using x(2) by (auto simp: deduct_variant_def Let_def save_reservation_def fulfill_reservation_def recount_def save_inventory_def
          get_variant_inventory_def split: option.splits if_splits prod.splits)
    ultimately show ?thesis by (simp add: tracked_def product_in_def)
  next
    case False
    then have of: "of_items db w [item] = (\<lambda>_. False)" by (auto simp: of_items_def fun_eq_iff)
    show ?thesis
    proof (cases "pd_track p")
      case True
      with False p assms(1) have "deduct_product w item p db = Inr db'"
        by (auto simp: deduct_item_def counted_def tracked_def split: option.splits)
      then obtain f where d: "db' = db\<lparr>products := map f (products db)\<rparr>"
          and f: "\<And>x. pd_id (f x) = pd_id x \<and> pd_workspace (f x) = pd_workspace x \<and> pd_track (f x) = pd_track x"
        by (auto simp: deduct_product_def update_where_def split: if_splits)
      have "closes_some (\<lambda>_. False) Consumed (now e) db db'" using assms(2)
        by (auto simp: d closes_some_def stock_ok_def shop_ok_def never_oversold_def conserves_def rows_def)
      with tracked_products [of db f w] f show ?thesis by (simp add: of d)
    next
      case False
      with assms(1) p have "db' = db" by (simp add: deduct_item_def)
      with of assms(2) show ?thesis by (simp add: closes_some_none)
    qed
  qed
  then show "closes_some (of_items db w [item]) Consumed (now e) db db'" "\<And>p. tracked db' w p = tracked db w p" by blast+
qed

lemma deduct_items_spec:
  "deduct_items e w is db = Inr db' \<Longrightarrow> stock_ok db \<Longrightarrow> (\<And>i. i \<in> set is \<Longrightarrow> matched db w i) \<Longrightarrow>
    closes_some (of_items db w is) Consumed (now e) db db'"
proof (induction "is" arbitrary: db)
  case (Cons i "is")
  from Cons.prems(1) obtain db1 where s: "deduct_item e w i db = Inr db1" "deduct_items e w is db1 = Inr db'"
    by (auto simp: bind_r_Inr)
  have m: "matched db w i" using Cons.prems(3) by simp
  note one = deduct_item_spec [OF s(1) Cons.prems(2) m]
  have ok1: "stock_ok db1" using one(1) by (simp add: closes_some_def)
  have c: "counted db1 w k = counted db w k" for k using one(2) by (simp add: counted_def)
  have "matched db1 w k" if "k \<in> set is" for k
    by (rule matched_closes [OF _ one(1) c]) (use Cons.prems(3) that in simp)
  with Cons.IH [OF s(2) ok1] have "closes_some (of_items db1 w is) Consumed (now e) db1 db'" by blast
  moreover have "of_items db1 w is = of_items db w is" using c by (simp add: of_items_def fun_eq_iff)
  ultimately have "closes_some (of_items db w is) Consumed (now e) db1 db'" by simp
  from closes_some_step [OF one(1) this] show ?case by (subst of_items_simps(2)) simp
qed (simp add: closes_some_none of_items_simps)

subsection \<open>Whole calls\<close>

lemma stock_frame:
  assumes "inventories db' = inventories db" "reservations db' = reservations db"
  shows "stock_ok db' = stock_ok db" "conserves db db'" "rows db' = rows db" "quantity_at db' = quantity_at db"
    "reserved_at db' = reserved_at db" "in_state s db' = in_state s db"
  using assms by (simp_all add: stock_ok_def shop_ok_def never_oversold_def quantity_at_def reserved_at_def in_state_def
      conserves_def rows_def fun_eq_iff)

lemma save_order_simps [simp]: "inventories (save_order r db) = inventories db" "reservations (save_order r db) = reservations db"
  "order_items (save_order r db) = order_items db" "products (save_order r db) = products db"
  by (simp_all add: save_order_def)

lemma error_simps [simp]: "inventories (record_stock_error w j err db) = inventories db"
  "reservations (record_stock_error w j err db) = reservations db"
  by (simp_all add: record_stock_error_def)

lemma trace_simps [simp]: "inventories (emit n j db) = inventories db" "reservations (emit n j db) = reservations db"
  "inventories (audit_order j f x y db) = inventories db" "reservations (audit_order j f x y db) = reservations db"
  "orders (emit n j db) = orders db" "orders (audit_order j f x y db) = orders db"
  "order_items (emit n j db) = order_items db" "order_items (audit_order j f x y db) = order_items db"
  by (simp_all add: emit_def audit_order_def)

lemma locked_Inr: "locked w given db act = Inr x \<longleftrightarrow>
    od_workspace given = w \<and> (\<exists>order. order_of db w (od_id given) = Some order \<and> act order = Inr x)"
  by (auto simp: locked_def split: option.splits)

lemma order_of_Some: "order_of db w j = Some r \<Longrightarrow> r \<in> set (orders db) \<and> od_id r = j \<and> od_workspace r = w"
  by (auto simp: order_of_def dest: first_filter_SomeD)

lemma order_of_save:
  assumes "distinct (map od_id (orders db))" "order_of db w j = Some r" "od_id r' = j" "od_workspace r' = w"
  shows "order_of (save_order r' db) w j = Some r'" "distinct (map od_id (orders (save_order r' db)))"
proof -
  have r: "r \<in> set (orders db)" "od_id r = j" "od_workspace r = w" using order_of_Some [OF assms(2)] by auto
  have k: "map od_id (orders (save_order r' db)) = map od_id (orders db)"
    using assms(3) r(2) by (simp add: save_order_def update_where_def)
  with assms(1) show "distinct (map od_id (orders (save_order r' db)))" by simp
  have "first (filter (\<lambda>x. od_id x = j \<and> od_workspace x = w) (update_where (\<lambda>z. od_id z = od_id r) (\<lambda>_. r') (orders db)))
      = (case first (filter (\<lambda>x. od_id x = j \<and> od_workspace x = w) (orders db)) of None \<Rightarrow> None | Some z \<Rightarrow> Some (if z = r then r' else z))"
    by (rule first_filter_update [OF assms(1) r(1)]) (use assms(3,4) r in simp_all)
  with assms(2) show "order_of (save_order r' db) w j = Some r'"
    by (simp add: order_of_def save_order_def assms(3) r(2))
qed

lemma reserve_locked_spec:
  assumes "reserve_locked w order db = Inr (order', db')" "stock_ok db" "deducted_at order = None"
  obtains db1 where "reserve_items w (items_of_order db (od_id order)) db = Inr db1"
    "reserves_more (items_of_order db (od_id order)) db db1" "db' = save_order order' db1"
    "order' = order\<lparr>reservations_managed := True, stock_error := ''''\<rparr>"
    "\<And>i. i \<in> set (items_of_order db (od_id order)) \<Longrightarrow> matched db1 w i"
proof -
  from assms(1,3) obtain db1 where s: "reserve_items w (items_of_order db (od_id order)) db = Inr db1" "db' = save_order order' db1"
    "order' = order\<lparr>reservations_managed := True, stock_error := ''''\<rparr>"
    by (auto simp: reserve_locked_def bind_r_Inr Let_def split: if_splits)
  show thesis
    by (rule that [OF s(1) reserve_items_spec [OF s(1) assms(2)] s(2,3)]) (rule reserve_items_matched [OF s(1) assms(2)])
qed

lemma reserve_atomic_spec:
  assumes "reserve_stock_atomic w given db = Inr (order, db')" "stock_ok db"
  shows "stock_ok db' \<and> conserves db db'"
proof -
  from assms(1) obtain r where r: "order_of db w (od_id given) = Some r" "reserve_locked w r db = Inr (order, db')"
    by (auto simp: reserve_stock_atomic_def locked_Inr)
  show ?thesis
  proof (cases "deducted_at r")
    case None
    from reserve_locked_spec [OF r(2) assms(2) None] obtain db1 where "reserves_more (items_of_order db (od_id r)) db db1"
        "db' = save_order order db1" by metis
    then show ?thesis using stock_frame(1) [of db' db1] stock_frame(2) [of db' db1] conserves_trans [of db db1 db']
      by (simp add: reserves_more_def)
  next
    case Some
    with r(2) have "db' = db" by (simp add: reserve_locked_def)
    with assms(2) show ?thesis by simp
  qed
qed

text \<open>A deduction: what the order reserves first, then everything its counted items hold.\<close>

lemma deduct_locked_spec:
  assumes "deduct_locked e w order db = Inr (order', db')" "stock_ok db" "deducted_at order = None" "od_workspace order = w"
    "order_of db w (od_id order) = Some order" "distinct (map od_id (orders db))"
  obtains db1 db2 where "reserves_more (items_of_order db (od_id order)) db db1"
    "closes_some (of_items db1 w (items_of_order db (od_id order))) Consumed (now e) db1 db2"
    "\<And>i. i \<in> set (items_of_order db (od_id order)) \<Longrightarrow> matched db1 w i"
    "inventories db' = inventories db2" "reservations db' = reservations db2" "products db' = products db2"
    "order' = order\<lparr>reservations_managed := True, deducted_at := Some (now e), stock_error := ''''\<rparr>"
    "order_of db' w (od_id order) = Some order'" "distinct (map od_id (orders db'))" "order_items db' = order_items db"
proof -
  from assms(1,3) obtain r dbr db3 where rs: "reserve_stock_atomic w order db = Inr (r, dbr)"
    and de: "deduct_items e w (items_of_order dbr (od_id r)) dbr = Inr db3"
    and o': "order' = r\<lparr>deducted_at := Some (now e), stock_error := ''''\<rparr>"
    and d': "db' = save_order order' db3\<lparr>committed := committed db3 @ [(''order.stock_deducted'', od_id order')]\<rparr>"
    by (auto simp: deduct_locked_def bind_r_Inr Let_def save_order_def)
  from rs assms(5) have rl: "reserve_locked w order db = Inr (r, dbr)" by (simp add: reserve_stock_atomic_def locked_Inr)
  obtain db1 where m: "reserves_more (items_of_order db (od_id order)) db db1" and sv: "dbr = save_order r db1"
    and r: "r = order\<lparr>reservations_managed := True, stock_error := ''''\<rparr>"
    and mt: "\<And>i. i \<in> set (items_of_order db (od_id order)) \<Longrightarrow> matched db1 w i"
    by (rule reserve_locked_spec [OF rl assms(2,3)]) (rule that; assumption)
  have fr: "db1 = db\<lparr>inventories := inventories db1, reservations := reservations db1\<rparr>" using m by (simp add: reserves_more_def)
  have it: "order_items db1 = order_items db" "orders db1 = orders db" by (subst fr, simp)+
  have items: "items_of_order dbr (od_id r) = items_of_order db (od_id order)" by (simp add: items_of_order_def sv it r)
  have cnt: "counted dbr w i = counted db1 w i" for i by (simp add: sv save_order_def counted_def tracked_def product_in_def)
  have mt': "matched dbr w i" if "i \<in> set (items_of_order db (od_id order))" for i
    using mt [OF that] unfolding matched_def cnt by (simp add: sv reservation_of_def rows_def)
  have ok: "stock_ok dbr" using m stock_frame(1) [of dbr db1] by (simp add: sv reserves_more_def)
  have "closes_some (of_items dbr w (items_of_order db (od_id order))) Consumed (now e) dbr db3"
    by (rule deduct_items_spec [OF de [unfolded items] ok]) (rule mt')
  then have c: "closes_some (of_items db1 w (items_of_order db (od_id order))) Consumed (now e) dbr db3"
    using cnt by (simp add: of_items_def [abs_def])
  have f3: "db3 = dbr\<lparr>inventories := inventories db3, reservations := reservations db3, variants := variants db3, products := products db3\<rparr>"
    using c unfolding closes_some_def by blast
  have o3: "orders db3 = orders (save_order r db1)" "order_items db3 = order_items db" by (subst f3, simp add: sv it)+
  let ?db2 = "db1\<lparr>inventories := inventories db3, reservations := reservations db3, variants := variants db3, products := products db3\<rparr>"
  have c2: "closes_some (of_items db1 w (items_of_order db (od_id order))) Consumed (now e) db1 ?db2"
    using c stock_frame [of ?db2 db3] stock_frame [of dbr db1]
    by (simp add: closes_some_def conserves_def sv)
  have s1: "order_of db1 w (od_id order) = Some order" "distinct (map od_id (orders db1))"
    using assms(5,6) by (simp_all add: order_of_def it)
  note sv1 = order_of_save [OF s1(2,1), of r]
  have s3: "order_of db3 w (od_id order) = Some r" "distinct (map od_id (orders db3))"
    using sv1 assms(4) by (simp_all add: order_of_def o3 r)
  note sv3 = order_of_save [OF s3(2,1), of order']
  show thesis
  proof (rule that [OF m c2 mt])
    show "order' = order\<lparr>reservations_managed := True, deducted_at := Some (now e), stock_error := ''''\<rparr>" by (simp add: o' r)
    show "order_of db' w (od_id order) = Some order'" "distinct (map od_id (orders db'))"
      using sv3 assms(4) by (simp_all add: d' order_of_def o' r)
  qed (simp_all add: d' o3)
qed

definition sound :: "shop_db \<Rightarrow> bool" where
  "sound db \<longleftrightarrow> stock_ok db \<and> distinct (map od_id (orders db))"

lemma order_ids [simp]: "map od_id (orders (save_order r db)) = map od_id (orders db)"
  "map od_id (orders (record_stock_error w j err db)) = map od_id (orders db)"
  by (simp_all add: save_order_def record_stock_error_def update_where_def)

lemma sound_frame:
  assumes "sound db" "inventories db' = inventories db" "reservations db' = reservations db" "map od_id (orders db') = map od_id (orders db)"
  shows "sound db' \<and> conserves db db'"
  using assms stock_frame(1,2) [OF assms(2,3)] by (simp add: sound_def)

lemma sound_trans: "sound b \<and> conserves a b \<Longrightarrow> sound c \<and> conserves b c \<Longrightarrow> sound c \<and> conserves a c"
  using conserves_trans by blast

lemma reserve_locked_sound:
  assumes "reserve_locked w order db = Inr (order', db')" "sound db"
  shows "sound db' \<and> conserves db db'"
proof (cases "deducted_at order")
  case None
  have ok: "stock_ok db" using assms(2) by (simp add: sound_def)
  from reserve_locked_spec [OF assms(1) ok None] obtain db1 where m: "reserves_more (items_of_order db (od_id order)) db db1"
    and d: "db' = save_order order' db1" by metis
  have "orders db1 = orders db"
  proof -
    have f: "db1 = db\<lparr>inventories := inventories db1, reservations := reservations db1\<rparr>" using m by (simp add: reserves_more_def)
    show ?thesis by (subst f) simp
  qed
  then have "sound db1 \<and> conserves db db1" using m assms(2) by (simp add: sound_def reserves_more_def)
  moreover have "sound db' \<and> conserves db1 db'" using calculation by (intro sound_frame) (simp_all add: d)
  ultimately show ?thesis by (rule sound_trans)
next
  case Some
  with assms show ?thesis by (simp add: reserve_locked_def)
qed

lemma reserve_sound: "reserve_stock_for_order w given db = (res, db') \<Longrightarrow> sound db \<Longrightarrow> sound db' \<and> conserves db db'"
  using reserve_locked_sound sound_frame [of db]
  by (auto simp: reserve_stock_for_order_def reserve_stock_atomic_def locked_Inr split: sum.splits prod.splits)

lemma deduct_sound:
  assumes "deduct_stock e w given db = (res, db')" "sound db"
  shows "sound db' \<and> conserves db db'"
proof (cases "deduct_stock_atomic e w given db")
  case (Inl err)
  with assms(1) have "db' = record_stock_error w (od_id given) err db" by (auto simp: deduct_stock_def)
  with sound_frame [OF assms(2), of db'] show ?thesis by simp
next
  case (Inr x)
  with assms(1) have "deduct_stock_atomic e w given db = Inr (fst x, db')" by (auto simp: deduct_stock_def split: prod.splits)
  then obtain order where o: "order_of db w (od_id given) = Some order" and d: "deduct_locked e w order db = Inr (fst x, db')"
    by (auto simp: deduct_stock_atomic_def locked_Inr)
  have ok: "stock_ok db" "distinct (map od_id (orders db))" using assms(2) by (simp_all add: sound_def)
  show ?thesis
  proof (cases "deducted_at order")
    case None
    have ow: "od_workspace order = w" "od_id order = od_id given" using order_of_Some [OF o] by auto
    from deduct_locked_spec [OF d ok(1) None ow(1) _ ok(2)] o ow(2) obtain db1 db2 where
      s: "reserves_more (items_of_order db (od_id order)) db db1"
         "closes_some (of_items db1 w (items_of_order db (od_id order))) Consumed (now e) db1 db2"
         "inventories db' = inventories db2" "reservations db' = reservations db2" "distinct (map od_id (orders db'))" by metis
    then have "stock_ok db2" "conserves db db1" "conserves db1 db2" by (auto simp: reserves_more_def closes_some_def)
    with stock_frame(1,2) [OF s(3,4)] s(5) conserves_trans show ?thesis by (metis sound_def)
  next
    case Some
    with d assms(2) show ?thesis by (simp add: deduct_locked_def)
  qed
qed

lemma held_by_order_laws: "set (held_by_order db j) \<subseteq> set (reservations db)" "r \<in> set (held_by_order db j) \<Longrightarrow> sr_state r = Held"
  by (auto simp: held_by_order_def)

lemma release_locked_spec:
  assumes "release_locked e w order db = Inr (order', db')" "sound db"
  obtains db1 where "closes_some (\<lambda>x. x \<in> set (held_by_order db (od_id order))) Let_Go (now e) db db1"
    "inventories db' = inventories db1" "reservations db' = reservations db1" "order_items db' = order_items db"
    "sound db'" "conserves db db'" "od_id order' = od_id order" "od_workspace order' = od_workspace order"
proof -
  from assms(1) obtain db1 where s: "release_each e w (held_by_order db (od_id order)) db = Inr db1"
    and d: "db' = db1 \<and> order' = order \<or> db' = save_order order' db1 \<and> od_id order' = od_id order \<and> od_workspace order' = od_workspace order"
    by (auto simp: release_locked_def bind_r_Inr Let_def split: if_splits)
  have ok: "stock_ok db" using assms(2) by (simp add: sound_def)
  then have "distinct (reservations db)" by (simp add: stock_ok_def shop_ok_def distinct_map)
  then have dist: "distinct (held_by_order db (od_id order))" by (simp add: held_by_order_def)
  have c: "closes_some (\<lambda>x. x \<in> set (held_by_order db (od_id order))) Let_Go (now e) db db1"
    by (rule release_each_spec [OF s ok dist held_by_order_laws(1)]) (rule held_by_order_laws(2))
  have f: "db1 = db\<lparr>inventories := inventories db1, reservations := reservations db1, variants := variants db1, products := products db1\<rparr>"
    using c unfolding closes_some_def by blast
  have o: "orders db1 = orders db" "order_items db1 = order_items db" by (subst f, simp)+
  have s1: "sound db1 \<and> conserves db db1" using c assms(2) by (simp add: sound_def closes_some_def o)
  then have s2: "sound db' \<and> conserves db1 db'" using d sound_frame [of db1 "save_order order' db1"] by auto
  show thesis
    by (rule that [OF c]) (use d o sound_trans [OF s1 s2] in auto)
qed

lemma release_sound:
  assumes "release_stock_reservations e w given db = Inr (order, db')" "sound db"
  shows "sound db' \<and> conserves db db'"
  using assms release_locked_spec by (fastforce simp: release_stock_reservations_def locked_Inr)

lemma mark_locked_sound:
  assumes "mark_locked e w b order db = (order', db')" "sound db"
  shows "sound db' \<and> conserves db db'"
proof (cases "od_payment order = ''paid''")
  case True
  with assms show ?thesis by (simp add: mark_locked_def)
next
  case False
  let ?paid = "order\<lparr>od_payment := ''paid'', paid_at := Some (now e)\<rparr>"
  let ?db = "save_order ?paid db"
  have s0: "sound ?db \<and> conserves db ?db" by (rule sound_frame [OF assms(2)]) simp_all
  obtain res db2 where ds: "deduct_stock e w ?paid ?db = (res, db2)" by fastforce
  have s2: "sound db2 \<and> conserves ?db db2" by (rule deduct_sound [OF ds]) (use s0 in simp)
  have "snd (mark_locked e w b order db) = emit ''order.paid'' (od_id order) (audit_order (od_id order) ''payment_status'' (od_payment order) ''paid''
      (if b \<and> deduction_event order = ''payment_confirmed'' then db2 else ?db))"
    unfolding mark_locked_def using False ds by (cases res) (simp_all add: Let_def split_beta)
  then have "db' = emit ''order.paid'' (od_id order) (audit_order (od_id order) ''payment_status'' (od_payment order) ''paid'' ?db) \<or>
      db' = emit ''order.paid'' (od_id order) (audit_order (od_id order) ''payment_status'' (od_payment order) ''paid'' db2)"
    using assms(1) by simp
  moreover have t: "sound x \<and> conserves y x \<Longrightarrow> sound (emit n j (audit_order j f p q x)) \<and> conserves y (emit n j (audit_order j f p q x))"
    for x y n j f p q
    by (rule sound_trans [of x y]) (simp, rule sound_frame, simp_all)
  ultimately show ?thesis using s0 sound_trans [OF s0 s2] by auto
qed

lemma pay_sound: "mark_as_paid e w given b db = Inr (order, db') \<Longrightarrow> sound db \<Longrightarrow> sound db' \<and> conserves db db'"
  using mark_locked_sound by (fastforce simp: mark_as_paid_def locked_Inr)

lemma cancelled_simps [simp]: "od_id (cancelled reason order) = od_id order" "od_workspace (cancelled reason order) = od_workspace order"
  "od_status (cancelled reason order) = ''cancelled''"
  by (simp_all add: cancelled_def)

lemma cancel_cases:
  assumes "cancel_order e w given reason db = Inr (order', db')"
  obtains order db1 where "release_stock_reservations e w given db = Inr (order, db1)" "order' = cancelled reason order"
    "db' = audit_order (od_id order) ''status'' (od_status order) ''cancelled''
      (emit ''order.cancelled'' (od_id order) (save_order order' db1))"
proof -
  from assms obtain order db1 where r: "release_stock_reservations e w given db = Inr (order, db1)"
    unfolding cancel_order_def by (auto simp: bind_r_Inr split: if_splits)
  from assms r have "order' = cancelled reason order \<and> db' = audit_order (od_id order) ''status'' (od_status order) ''cancelled''
      (emit ''order.cancelled'' (od_id order) (save_order (cancelled reason order) db1))"
    unfolding cancel_order_def by (auto simp: Let_def split: if_split_asm)
  with r that show thesis by blast
qed

lemma cancel_sound:
  assumes "cancel_order e w given reason db = Inr (order', db')" "sound db"
  shows "sound db' \<and> conserves db db'"
proof -
  from assms(1) obtain order db1 where s: "release_stock_reservations e w given db = Inr (order, db1)"
    "db' = audit_order (od_id order) ''status'' (od_status order) ''cancelled'' (emit ''order.cancelled'' (od_id order) (save_order order' db1))"
    by (rule cancel_cases)
  have s1: "sound db1 \<and> conserves db db1" by (rule release_sound [OF s(1) assms(2)])
  show ?thesis by (rule sound_trans [OF s1], rule sound_frame) (use s1 in \<open>simp_all add: s(2)\<close>)
qed

lemma status_sound:
  assumes "update_order_status e w given new db = Inr (order', db')" "sound db"
  shows "sound db' \<and> conserves db db'"
proof -
  from assms(1) obtain order db1 where s: "(if new = ''cancelled'' then release_stock_reservations e w given db else Inr (given, db)) = Inr (order, db1)"
    "db' = audit_order (od_id order) ''status'' (od_status order) new (save_order (moved_to e new order)
       (case status_event new order of None \<Rightarrow> db1 | Some name \<Rightarrow> emit name (od_id order) db1))"
    by (auto simp: update_order_status_def bind_r_Inr Let_def split: if_splits)
  have s1: "sound db1 \<and> conserves db db1" using s(1) release_sound assms(2) by (auto split: if_splits)
  show ?thesis by (rule sound_trans [OF s1], rule sound_frame) (use s1 in \<open>simp_all add: s(2) split: option.split\<close>)
qed

text \<open>More pieces only make more room.\<close>

lemma restock_sound:
  assumes "adjust_stock v wh n db = (i, db')" "0 \<le> n" "sound db"
  shows "sound db'" "quantity_at db j \<le> quantity_at db' j" "in_state s db' j = in_state s db j"
    "reserved_at db' j = reserved_at db j"
proof -
  obtain i0 db1 where g: "get_variant_inventory v wh db = (i0, db1)" by fastforce
  have ok: "shop_ok db" "never_oversold db" using assms(3) by (simp_all add: sound_def stock_ok_def)
  note sp = get_variant_inventory_spec [OF g ok(1)]
  let ?i = "i0\<lparr>iv_quantity := iv_quantity i0 + n\<rparr>"
  from assms(1) g have d: "db' = recount v (save_inventory ?i db1)" by (auto simp: adjust_stock_def Let_def)
  have dist: "distinct (map iv_id (inventories db1))" using sp(1) by (simp add: shop_ok_def)
  have at: "iv_id ?i = iv_id i0" by simp
  note mv = save_inventory_at [OF dist sp(2) at]
  have q: "quantity_at db' j = quantity_at db j + (if j = iv_id i0 then n else 0)" "reserved_at db' j = reserved_at db j"
    "in_state s db' j = in_state s db j" for j s
    using mv(1) [of j] mv(2) [of j] mv(3) [of s j] sp(5,6) sp(7) [of s] by (simp_all add: d recount_def)
  have "shop_ok db'" using save_inventory_ok [OF sp(1,2), of ?i] by (simp add: d recount_def shop_ok_def)
  moreover have "never_oversold db'"
    unfolding never_oversold_def
  proof
    fix j
    show "in_state Held db' j \<le> reserved_at db' j \<and> reserved_at db' j \<le> quantity_at db' j"
      using ok(2) assms(2) unfolding never_oversold_def q by (auto intro: order_trans)
  qed
  moreover have "orders db' = orders db" by (subst d, simp add: recount_def save_inventory_def, subst sp(9), simp)
  ultimately show "sound db'" using assms(3) by (simp add: sound_def stock_ok_def)
  show "quantity_at db j \<le> quantity_at db' j" "in_state s db' j = in_state s db j" "reserved_at db' j = reserved_at db j"
    using assms(2) by (simp_all add: q)
qed

subsection \<open>Orders as a state machine\<close>

inductive order_step :: "shop_db \<Rightarrow> shop_db \<Rightarrow> bool" where
  reserve: "reserve_stock_for_order w given db = (res, db') \<Longrightarrow> order_step db db'"
| deduct: "deduct_stock e w given db = (res, db') \<Longrightarrow> order_step db db'"
| pay: "mark_as_paid e w given b db = Inr (order, db') \<Longrightarrow> order_step db db'"
| cancel: "cancel_order e w given reason db = Inr (order, db') \<Longrightarrow> order_step db db'"
| move: "update_order_status e w given new db = Inr (order, db') \<Longrightarrow> order_step db db'"
| restock: "adjust_stock v wh n db = (i, db') \<Longrightarrow> 0 \<le> n \<Longrightarrow> order_step db db'"

inductive_cases order_stepE: "order_step db db'"

lemma order_step_laws:
  assumes "order_step db db'" "sound db"
  shows "sound db'" "quantity_at db j + in_state Consumed db j \<le> quantity_at db' j + in_state Consumed db' j"
    "reserved_at db' j - in_state Held db' j = reserved_at db j - in_state Held db j"
proof -
  have "sound db' \<and> quantity_at db j + in_state Consumed db j \<le> quantity_at db' j + in_state Consumed db' j \<and>
    reserved_at db' j - in_state Held db' j = reserved_at db j - in_state Held db j"
    using assms
  proof (cases rule: order_step.cases)
    case (restock v wh n i)
    with restock_sound [OF restock(1,2) assms(2)] show ?thesis by simp
  qed (use assms(2) in \<open>auto simp: conserves_def dest!: reserve_sound deduct_sound pay_sound cancel_sound status_sound\<close>)
  then show "sound db'" "quantity_at db j + in_state Consumed db j \<le> quantity_at db' j + in_state Consumed db' j"
    "reserved_at db' j - in_state Held db' j = reserved_at db j - in_state Held db j" by blast+
qed

interpretation order_machine: state_machine order_step sound
  by unfold_locales (rule order_step_laws(1))

subsection \<open>What closing does to the totals\<close>

definition held_at :: "stock_reservation list \<Rightarrow> nat \<Rightarrow> int" where
  "held_at rs j = (\<Sum>r\<leftarrow>rs. if sr_inventory r = j then sr_quantity r else 0)"

lemma held_at_simps [simp]: "held_at [] j = 0"
  "held_at (r # rs) j = (if sr_inventory r = j then sr_quantity r else 0) + held_at rs j"
  by (simp_all add: held_at_def)

lemma closes_in_state:
  assumes "closes_some P s t db db'" "s \<noteq> Held"
  shows "in_state Held db' j = in_state Held db j - held_at (filter P (reservations db)) j"
    "in_state s db' j = in_state s db j + held_at (filter P (reservations db)) j"
proof -
  have "(\<forall>x \<in> set rs. P x \<longrightarrow> sr_state x = Held) \<Longrightarrow>
    (\<Sum>r\<leftarrow>map (\<lambda>x. if P x then closed_as s t x else x) rs. if sr_inventory r = j \<and> sr_state r = Held then sr_quantity r else 0)
      = (\<Sum>r\<leftarrow>rs. if sr_inventory r = j \<and> sr_state r = Held then sr_quantity r else 0) - held_at (filter P rs) j \<and>
    (\<Sum>r\<leftarrow>map (\<lambda>x. if P x then closed_as s t x else x) rs. if sr_inventory r = j \<and> sr_state r = s then sr_quantity r else 0)
      = (\<Sum>r\<leftarrow>rs. if sr_inventory r = j \<and> sr_state r = s then sr_quantity r else 0) + held_at (filter P rs) j" for rs
    using assms(2) by (induction rs) auto
  with assms(1) show "in_state Held db' j = in_state Held db j - held_at (filter P (reservations db)) j"
    "in_state s db' j = in_state s db j + held_at (filter P (reservations db)) j"
    by (simp_all add: closes_some_def in_state_def)
qed

lemma held_at_closed: "held_at (filter P (map (\<lambda>x. if Q x then closed_as s t x else x) rs)) j
    = held_at (filter (\<lambda>x. P (if Q x then closed_as s t x else x)) rs) j"
  by (induction rs) auto

subsection \<open>Properties\<close>

text \<open>
  C6: whatever happens to the orders of the shop, in whatever order (reserving, deducting, paying,
  cancelling, moving to a status, new stock arriving), no warehouse promises more pieces than it
  has or fewer than its orders hold, no piece leaves a warehouse but to an order that takes it, and
  what is promised besides what orders hold stays as it is.
\<close>

theorem never_oversold_ever:
  assumes "order_step\<^sup>*\<^sup>* db db'" "sound db"
  shows "(\<forall>i \<in> set (inventories db'). in_state Held db' (iv_id i) \<le> iv_reserved i \<and> iv_reserved i \<le> iv_quantity i) \<and>
    quantity_at db j + in_state Consumed db j \<le> quantity_at db' j + in_state Consumed db' j \<and>
    reserved_at db' j - in_state Held db' j = reserved_at db j - in_state Held db j"
proof -
  have "sound db'" by (rule order_machine.reachable_inv [OF assms])
  then have "shop_ok db'" and no: "never_oversold db'" by (simp_all add: sound_def stock_ok_def)
  then have dist: "distinct (map iv_id (inventories db'))" by (simp add: shop_ok_def)
  have "in_state Held db' (iv_id i) \<le> iv_reserved i \<and> iv_reserved i \<le> iv_quantity i" if "i \<in> set (inventories db')" for i
    using no at_row [OF dist that] by (metis never_oversold_def)
  moreover have "quantity_at db j + in_state Consumed db j \<le> quantity_at db' j + in_state Consumed db' j \<and>
    reserved_at db' j - in_state Held db' j = reserved_at db j - in_state Held db j"
    using assms
  proof (induction rule: rtranclp_induct)
    case (step b c)
    from order_step_laws(2,3) [OF step.hyps(2) order_machine.reachable_inv [OF step.hyps(1) step.prems], of j] step.IH [OF step.prems]
    show ?case by linarith
  qed simp
  ultimately show ?thesis by blast
qed

lemma deduct_cases:
  assumes "deduct_stock e w given db = (Inr order, db')" "order_of db w (od_id given) = Some before"
  shows "od_workspace given = w \<and> deduct_locked e w before db = Inr (order, db')"
  using assms by (auto simp: deduct_stock_def deduct_stock_atomic_def locked_Inr split: sum.splits prod.splits)

text \<open>
  an order takes its pieces once. After a deduction every item whose variant is counted has
  taken its quantity from the row it had reserved, each row has lost exactly that, the order says
  when, and deducting again changes nothing.
\<close>

theorem deduct_takes_once:
  assumes "deduct_stock e w given db = (Inr order, db')" "sound db" "order_of db w (od_id given) = Some before"
    "deducted_at before = None"
  shows "(\<forall>i \<in> set (items_of_order db (od_id given)). counted db w i \<longrightarrow>
      (\<exists>r. reservation_of db' (oi_id i) = Some r \<and> sr_state r = Consumed \<and> sr_quantity r = oi_quantity i)) \<and>
    (\<forall>j. quantity_at db' j = quantity_at db j
      - held_at (filter (of_items db w (items_of_order db (od_id given))) (reservations db')) j) \<and>
    deducted_at order = Some (now e) \<and> deduct_stock e' w order db' = (Inr order, db')"
proof -
  let ?is = "items_of_order db (od_id given)"
  have ok: "stock_ok db" "distinct (map od_id (orders db))" using assms(2) by (simp_all add: sound_def)
  have b: "od_id before = od_id given" "od_workspace before = w" using order_of_Some [OF assms(3)] by auto
  from deduct_cases [OF assms(1,3)] have d: "deduct_locked e w before db = Inr (order, db')" by simp
  have bo: "order_of db w (od_id before) = Some before" using assms(3) b by simp
  obtain db1 db2 where m: "reserves_more ?is db db1" and c: "closes_some (of_items db1 w ?is) Consumed (now e) db1 db2"
    and mt: "\<And>i. i \<in> set ?is \<Longrightarrow> matched db1 w i" and fr: "inventories db' = inventories db2" "reservations db' = reservations db2"
    and o: "order = before\<lparr>reservations_managed := True, deducted_at := Some (now e), stock_error := ''''\<rparr>"
      "order_of db' w (od_id before) = Some order"
    by (rule deduct_locked_spec [OF d ok(1) assms(4) b(2) bo ok(2), unfolded b(1)]) (rule that; simp add: b)
  have "db1 = db\<lparr>inventories := inventories db1, reservations := reservations db1\<rparr>" using m by (simp add: reserves_more_def)
  then have cnt: "counted db1 w i = counted db w i" for i by (metis counted_other_tables(2))
  then have of: "of_items db1 w ?is = of_items db w ?is" by (simp add: of_items_def fun_eq_iff)
  have res: "reservation_of db' k = reservation_of db2 k" for k by (simp add: reservation_of_def fr)
  have "\<exists>r. reservation_of db' (oi_id i) = Some r \<and> sr_state r = Consumed \<and> sr_quantity r = oi_quantity i"
    if i: "i \<in> set ?is" "counted db w i" for i
  proof -
    from mt [OF i(1)] i(2) cnt obtain r where r: "reservation_of db1 (oi_id i) = Some r" "sr_quantity r = oi_quantity i"
      by (auto simp: matched_def)
    moreover have "of_items db w ?is r" using i reservation_of_Some [OF r(1)] by (auto simp: of_items_def)
    ultimately show ?thesis by (simp add: res closes_reservation_of [OF c] of)
  qed
  moreover have "quantity_at db' j = quantity_at db j - held_at (filter (of_items db w ?is) (reservations db')) j" for j
  proof -
    have "quantity_at db2 j + in_state Consumed db2 j = quantity_at db1 j + in_state Consumed db1 j"
      "quantity_at db1 j = quantity_at db j" using c m by (simp_all add: closes_some_def conserves_def reserves_more_def)
    moreover have "in_state Consumed db2 j = in_state Consumed db1 j + held_at (filter (of_items db w ?is) (reservations db1)) j"
      using closes_in_state(2) [OF c] by (simp add: of)
    moreover have "held_at (filter (of_items db w ?is) (reservations db')) j = held_at (filter (of_items db w ?is) (reservations db1)) j"
    proof -
      have "reservations db' = map (\<lambda>x. if of_items db w ?is x then closed_as Consumed (now e) x else x) (reservations db1)"
        using c by (simp add: fr closes_some_def of)
      moreover have "of_items db w ?is (if Q then closed_as Consumed t x else x) = of_items db w ?is x" for Q t x
        by (simp add: of_items_def)
      ultimately show ?thesis by (simp add: held_at_closed)
    qed
    moreover have "quantity_at db' j = quantity_at db2 j" by (simp add: quantity_at_def fr)
    ultimately show ?thesis by linarith
  qed
  moreover have "deduct_stock e' w order db' = (Inr order, db')"
    using o b by (simp add: deduct_stock_def deduct_stock_atomic_def locked_def deduct_locked_def)
  ultimately show ?thesis using o(1) by simp
qed

lemma cancel_spec:
  assumes "cancel_order e w given reason db = Inr (order, db')" "sound db"
  obtains db1 where "closes_some (\<lambda>x. x \<in> set (held_by_order db (od_id given))) Let_Go (now e) db db1"
    "inventories db' = inventories db1" "reservations db' = reservations db1" "order_items db' = order_items db"
    "od_status order = ''cancelled''"
proof -
  from assms(1) obtain r db0 where s: "release_stock_reservations e w given db = Inr (r, db0)" and o: "order = cancelled reason r"
    and d: "db' = audit_order (od_id r) ''status'' (od_status r) ''cancelled'' (emit ''order.cancelled'' (od_id r) (save_order order db0))"
    by (rule cancel_cases)
  from s obtain b where b: "order_of db w (od_id given) = Some b" and rl: "release_locked e w b db = Inr (r, db0)"
    by (auto simp: release_stock_reservations_def locked_Inr)
  have id: "od_id b = od_id given" using order_of_Some [OF b] by simp
  obtain db1 where "closes_some (\<lambda>x. x \<in> set (held_by_order db (od_id given))) Let_Go (now e) db db1"
    "inventories db0 = inventories db1" "reservations db0 = reservations db1" "order_items db0 = order_items db"
    by (rule release_locked_spec [OF rl assms(2), unfolded id]) (rule that; assumption)
  then show thesis by (intro that) (simp_all add: d o)
qed

lemma held_at_ordered: "held_at (held_by_order db j) i
    = held_at (filter (\<lambda>x. x \<in> set (held_by_order db j)) (reservations db)) i"
proof -
  have "filter (\<lambda>x. x \<in> set (filter P xs)) xs = filter P xs" for P and xs :: "stock_reservation list"
    by (rule filter_cong) auto
  then show ?thesis unfolding held_by_order_def by simp
qed

text \<open>
  cancelling gives back what the order held and nothing else. Each row keeps its pieces, those
  taken already are not put back, and is promised less by exactly what the order still held of it;
  the order holds nothing any more and no other reservation has changed.
\<close>

theorem cancel_gives_back:
  assumes "cancel_order e w given reason db = Inr (order, db')" "sound db"
  shows "quantity_at db' j = quantity_at db j \<and>
    reserved_at db' j = reserved_at db j - held_at (held_by_order db (od_id given)) j \<and>
    held_by_order db' (od_id given) = [] \<and> od_status order = ''cancelled'' \<and>
    (\<forall>r \<in> set (reservations db). r \<notin> set (held_by_order db (od_id given)) \<longrightarrow> r \<in> set (reservations db'))"
proof -
  let ?P = "\<lambda>x. x \<in> set (held_by_order db (od_id given))"
  obtain db1 where c: "closes_some ?P Let_Go (now e) db db1" and fr: "inventories db' = inventories db1"
      "reservations db' = reservations db1" "order_items db' = order_items db" and st: "od_status order = ''cancelled''"
    by (rule cancel_spec [OF assms]) (rule that; assumption)
  have q: "quantity_at db' = quantity_at db1" "reserved_at db' = reserved_at db1" by (simp_all add: quantity_at_def reserved_at_def fr fun_eq_iff)
  have "in_state Held db1 j = in_state Held db j - held_at (held_by_order db (od_id given)) j"
    using closes_in_state(1) [OF c] held_at_ordered by simp
  moreover have "reserved_at db1 j - in_state Held db1 j = reserved_at db j - in_state Held db j" "quantity_at db1 j = quantity_at db j"
    using c by (simp_all add: closes_some_def conserves_def)
  ultimately have "quantity_at db' j = quantity_at db j"
    "reserved_at db' j = reserved_at db j - held_at (held_by_order db (od_id given)) j" unfolding q by linarith+
  moreover have m: "reservations db' = map (\<lambda>x. if ?P x then closed_as Let_Go (now e) x else x) (reservations db)"
    using c by (simp add: fr closes_some_def)
  have "held_by_order db' (od_id given) = []"
  proof (rule ccontr)
    assume "held_by_order db' (od_id given) \<noteq> []"
    then obtain y where y: "y \<in> set (reservations db')" "sr_state y = Held" "\<exists>i \<in> set (order_items db). oi_id i = sr_item y \<and> oi_order i = od_id given"
      by (auto simp: held_by_order_def filter_empty_conv fr)
    then obtain x where x: "x \<in> set (reservations db)" "y = (if ?P x then closed_as Let_Go (now e) x else x)" unfolding m by auto
    with y(2) have "\<not> ?P x" "y = x" by (auto split: if_splits)
    with x(1) y(2,3) show False by (auto simp: held_by_order_def)
  qed
  moreover have "\<forall>r \<in> set (reservations db). \<not> ?P r \<longrightarrow> r \<in> set (reservations db')" unfolding m by (auto simp: image_iff)
  ultimately show ?thesis using st by blast
qed

text \<open>
  reserving and then cancelling is as if nothing had been ordered: for an order without
  reservations of its own, every row of every warehouse ends with the pieces and the promises it
  began with.
\<close>

theorem reserve_then_cancel:
  assumes "reserve_stock_for_order w given db = (Inr order, db1)" "cancel_order e w order reason db1 = Inr (final, db2)" "sound db"
    "\<forall>i \<in> set (order_items db). oi_order i = od_id given \<longrightarrow> reservation_of db (oi_id i) = None"
  shows "quantity_at db2 j = quantity_at db j \<and> reserved_at db2 j = reserved_at db j"
proof -
  have ok: "stock_ok db" using assms(3) by (simp add: sound_def)
  have s1: "sound db1" using reserve_sound [OF assms(1,3)] by simp
  from assms(1) obtain b where b: "order_of db w (od_id given) = Some b" and rl: "reserve_locked w b db = Inr (order, db1)"
    by (auto simp: reserve_stock_for_order_def reserve_stock_atomic_def locked_Inr split: sum.splits prod.splits)
  have id: "od_id b = od_id given" using order_of_Some [OF b] by simp
  have none: "held_by_order db (od_id given) = []"
  proof (rule ccontr)
    assume "held_by_order db (od_id given) \<noteq> []"
    then obtain r i where ri: "r \<in> set (reservations db)" "i \<in> set (order_items db)" "oi_id i = sr_item r" "oi_order i = od_id given"
      by (auto simp: held_by_order_def filter_empty_conv)
    from ri(2,4) assms(4) have "\<forall>x \<in> set (reservations db). sr_item x \<noteq> oi_id i"
      unfolding reservation_of_def first_filter_None by blast
    with ri(1) show False unfolding ri(3) by blast
  qed
  have "quantity_at db1 j = quantity_at db j \<and> reserved_at db1 j = reserved_at db j + held_at (held_by_order db1 (od_id given)) j \<and>
    od_id order = od_id given"
  proof (cases "deducted_at b")
    case None
    from reserve_locked_spec [OF rl ok None] obtain db0 where m: "reserves_more (items_of_order db (od_id given)) db db0"
      and d: "db1 = save_order order db0" and o: "order = b\<lparr>reservations_managed := True, stock_error := ''''\<rparr>" unfolding id by metis
    from m obtain news where n: "reservations db0 = reservations db @ news"
        "\<forall>r \<in> set news. sr_item r \<in> oi_id ` set (items_of_order db (od_id given)) \<and> sr_state r = Held" by (auto simp: reserves_more_def)
    have oi: "order_items db1 = order_items db"
    proof -
      have f: "db0 = db\<lparr>inventories := inventories db0, reservations := reservations db0\<rparr>" using m by (simp add: reserves_more_def)
      have "order_items db0 = order_items db" by (subst f) simp
      then show ?thesis by (simp add: d)
    qed
    have ex: "\<exists>i \<in> set (order_items db). oi_id i = sr_item r \<and> oi_order i = od_id given" if "r \<in> set news" for r
      using n(2) that by (fastforce simp: items_of_order_def)
    have "held_by_order db1 (od_id given) = held_by_order db (od_id given) @
        filter (\<lambda>r. sr_state r = Held \<and> (\<exists>i \<in> set (order_items db). oi_id i = sr_item r \<and> oi_order i = od_id given)) news"
      using oi by (simp add: held_by_order_def d n(1))
    also have "\<dots> = news" unfolding none using n(2) ex by (simp add: filter_id_conv)
    finally have "held_by_order db1 (od_id given) = news" .
    moreover have "in_state Held db0 j = in_state Held db j + held_at news j"
    proof -
      have "(\<forall>r \<in> set ns. sr_state r = Held) \<Longrightarrow> (\<Sum>r\<leftarrow>ns. if sr_inventory r = j \<and> sr_state r = Held then sr_quantity r else 0) = held_at ns j" for ns
        by (induction ns) auto
      with n show ?thesis by (simp add: in_state_def)
    qed
    moreover have "reserved_at db0 j - in_state Held db0 j = reserved_at db j - in_state Held db j" "quantity_at db0 j = quantity_at db j"
      using m by (simp_all add: reserves_more_def conserves_def)
    moreover have "quantity_at db1 = quantity_at db0" "reserved_at db1 = reserved_at db0"
      by (simp_all add: d quantity_at_def reserved_at_def fun_eq_iff)
    ultimately show ?thesis by (simp add: o id)
  next
    case Some
    with rl have "db1 = db" "order = b" by (simp_all add: reserve_locked_def)
    with none id show ?thesis by simp
  qed
  with cancel_gives_back [OF assms(2) s1, of j] show ?thesis by simp
qed

text \<open>Every refusal says something.\<close>

lemma detail_simps: "error_detail Insufficient_Stock \<noteq> []" "error_detail Does_Not_Exist \<noteq> []" "error_detail Check_Failed \<noteq> []"
  "error_detail Permission_Denied \<noteq> []" "error_detail Not_Cancellable \<noteq> []" "error_detail (Value_Raised s) = [] \<longleftrightarrow> s = []"
  by (simp_all add: error_detail_def)

lemma reserve_item_error: "reserve_item w i db = Inl err \<Longrightarrow> error_detail err \<noteq> []"
  by (auto simp: reserve_item_def keep_reservation_def new_reservation_def reserve_stock_def add_reservation_def bind_r_Inl Let_def detail_simps
      split: option.splits if_splits prod.splits)

lemma reserve_items_error: "reserve_items w is db = Inl err \<Longrightarrow> error_detail err \<noteq> []"
  by (induction "is" arbitrary: db) (auto simp: bind_r_Inl dest: reserve_item_error)

lemma reserve_atomic_error: "reserve_stock_atomic w given db = Inl err \<Longrightarrow> error_detail err \<noteq> []"
  by (auto simp: reserve_stock_atomic_def locked_def reserve_locked_def bind_r_Inl detail_simps Let_def dest: reserve_items_error
      split: option.splits if_splits)

lemma deduct_item_error: "deduct_item e w i db = Inl err \<Longrightarrow> error_detail err \<noteq> []"
  by (auto simp: deduct_item_def deduct_variant_def deduct_product_def Let_def detail_simps split: option.splits if_splits prod.splits)

lemma deduct_items_error: "deduct_items e w is db = Inl err \<Longrightarrow> error_detail err \<noteq> []"
  by (induction "is" arbitrary: db) (auto simp: bind_r_Inl dest: deduct_item_error)

lemma deduct_atomic_error: "deduct_stock_atomic e w given db = Inl err \<Longrightarrow> error_detail err \<noteq> []"
  by (auto simp: deduct_stock_atomic_def locked_def deduct_locked_def bind_r_Inl detail_simps Let_def
      dest: deduct_items_error reserve_atomic_error split: option.splits if_splits)

lemma first_filter_update_where:
  "(\<And>x. P (f x) = P x) \<Longrightarrow> first (filter P (update_where P f xs)) = map_option f (first (filter P xs))"
  by (induction xs) (auto simp: table_simps)

lemma order_of_error:
  assumes "order_of db w j = Some r"
  shows "order_of (record_stock_error w j err db) w j = Some (r\<lparr>stock_error := error_detail err\<rparr>)"
  using assms by (simp add: order_of_def record_stock_error_def first_filter_update_where)

lemma order_of_trace [simp]: "order_of (emit n j db) w k = order_of db w k" "order_of (audit_order j f x y db) w k = order_of db w k"
  by (simp_all add: order_of_def)

text \<open>
  C36: a payment that was confirmed stands, whatever the stock says: marking an unpaid order of the workspace as
  paid never fails. The order is paid from then on; one that deducts on payment has either had its stock
  deducted or, when that was refused, carries what the refusal said; and a payment reported again, at any time, changes nothing.
\<close>

theorem payment_stands:
  assumes "od_workspace given = w" "sound db" "order_of db w (od_id given) = Some before"
    "od_payment before \<noteq> ''paid''" "deduction_event before = ''payment_confirmed''"
  shows "\<exists>order db'. mark_as_paid e w given True db = Inr (order, db') \<and>
    order_of db' w (od_id given) = Some order \<and> od_payment order = ''paid'' \<and>
    (deducted_at order = None \<longrightarrow> stock_error order \<noteq> []) \<and>
    (let paid = before\<lparr>od_payment := ''paid'', paid_at := Some (now e)\<rparr> in
       \<forall>err. deduct_stock_atomic e w paid (save_order paid db) = Inl err \<longrightarrow> order = paid\<lparr>stock_error := error_detail err\<rparr>) \<and>
    (\<forall>e' b. mark_as_paid e' w given b db' = Inr (order, db'))"
proof -
  have b: "od_id before = od_id given" "od_workspace before = w" and gw: "od_workspace given = w"
    using order_of_Some [OF assms(3)] assms(1) by auto
  let ?paid = "before\<lparr>od_payment := ''paid'', paid_at := Some (now e)\<rparr>"
  let ?db = "save_order ?paid db"
  have dist: "distinct (map od_id (orders db))" using assms(2) by (simp add: sound_def)
  have saved: "order_of ?db w (od_id given) = Some ?paid" "distinct (map od_id (orders ?db))"
    using order_of_save [OF dist assms(3), of ?paid] b by simp_all
  have ok: "stock_ok ?db" using assms(2) stock_frame(1) [of ?db db] by (simp add: sound_def)
  obtain res db2 where ds: "deduct_stock e w ?paid ?db = (res, db2)" by fastforce
  define order where "order = (case res of Inr r \<Rightarrow> r | Inl err \<Rightarrow> ?paid\<lparr>stock_error := error_detail err\<rparr>)"
  define db' where "db' = emit ''order.paid'' (od_id before) (audit_order (od_id before) ''payment_status'' (od_payment before) ''paid'' db2)"
  note out = order_def db'_def
  have run: "mark_as_paid e w given True db = Inr (order, db')"
    using assms(3-5) ds gw by (cases res) (auto simp: mark_as_paid_def locked_def mark_locked_def Let_def out)
  have "order_of db2 w (od_id given) = Some order \<and> od_payment order = ''paid'' \<and> (deducted_at order = None \<longrightarrow> stock_error order \<noteq> [])"
  proof (cases res)
    case (Inl err)
    with ds have "deduct_stock_atomic e w ?paid ?db = Inl err" and d: "db2 = record_stock_error w (od_id given) err ?db"
      by (auto simp: deduct_stock_def b split: sum.splits prod.splits)
    with deduct_atomic_error order_of_error [OF saved(1)] out Inl show ?thesis by simp
  next
    case (Inr r)
    with ds out have dl: "deduct_locked e w ?paid ?db = Inr (order, db2)"
      using deduct_cases [of e w ?paid ?db order db2 ?paid] saved(1) b by simp
    show ?thesis
    proof (cases "deducted_at before")
      case None
      obtain "order = ?paid\<lparr>reservations_managed := True, deducted_at := Some (now e), stock_error := ''''\<rparr>"
        "order_of db2 w (od_id ?paid) = Some order"
        by (rule deduct_locked_spec [OF dl ok]) (use None saved b in auto)
      then show ?thesis by (simp add: b)
    next
      case Some
      with dl have "order = ?paid" "db2 = ?db" by (auto simp: deduct_locked_def)
      with saved Some show ?thesis by simp
    qed
  qed
  then have kept: "order_of db' w (od_id given) = Some order" "od_payment order = ''paid''" "deducted_at order = None \<longrightarrow> stock_error order \<noteq> []"
    by (simp_all add: db'_def)
  have again: "\<forall>e' b. mark_as_paid e' w given b db' = Inr (order, db')"
    using kept gw by (simp add: mark_as_paid_def locked_def mark_locked_def)
  have refused: "\<forall>err. deduct_stock_atomic e w ?paid ?db = Inl err \<longrightarrow> order = ?paid\<lparr>stock_error := error_detail err\<rparr>"
    using ds by (auto simp: deduct_stock_def order_def)
  show ?thesis unfolding Let_def
    by (intro exI [of _ order] exI [of _ db'] conjI run kept again refused)
qed

text \<open>
  A status written by \<open>update_order_status\<close> is the caller's row, saved whole: what happened to the
  order since it was read, a payment for one, is overwritten.
\<close>

lemma status_saves_the_given_row:
  assumes "sound db" "order_of db w (od_id given) = Some before" "od_workspace given = w" "new \<noteq> ''cancelled''"
  shows "\<exists>db'. update_order_status e w given new db = Inr (moved_to e new given, db') \<and>
    order_of db' w (od_id given) = Some (moved_to e new given) \<and> od_payment (moved_to e new given) = od_payment given"
proof -
  have dist: "distinct (map od_id (orders db))" using assms(1) by (simp add: sound_def)
  have k: "order_of (save_order (moved_to e new given) db) w (od_id given) = Some (moved_to e new given)"
    using order_of_save(1) [OF dist assms(2), of "moved_to e new given"] assms(3) by (simp add: moved_to_def)
  have "order_of (save_order (moved_to e new given) (emit n j db)) w (od_id given) = Some (moved_to e new given)" for n j
    using k by (simp add: order_of_def save_order_def)
  with k assms(3,4) show ?thesis
    by (auto simp: update_order_status_def Let_def split: option.split) (simp add: moved_to_def)+
qed

end
