(* ===== verification/Witnesses_Shop.thy ===== *)
theory Witnesses_Shop
  imports Samples Order_Stock
begin

text \<open>
  The properties of stock, applied to a shop (workspace 5) with two warehouses and one product with
  one variant, of which the first has five pieces and the second three, and one order of two.
\<close>

definition shirt :: product where
  "shirt = \<lparr>pd_id = 1, pd_workspace = 5, pd_name = ''Shirt'', pd_sku = ''S'', pd_price = 20, pd_categories = [3], pd_active = True,
     pd_track = True, pd_stock = 0, pd_weight = Some (1/2), pd_low = 10\<rparr>"

definition two_shirts :: order_item where
  "two_shirts = \<lparr>oi_id = 1, oi_order = 1, oi_product = 1, oi_variant = Some 1, oi_product_name = ''Shirt'', oi_variant_name = ''Red'',
     oi_sku = ''S-R'', oi_quantity = 2, oi_price = 20, oi_subtotal = 40\<rparr>"

definition order1 :: order_row where
  "order1 = \<lparr>od_id = 1, od_workspace = 5, od_customer = 1, od_store = 1, od_number = ''ORD-1'', od_status = ''pending'',
     od_payment = ''pending'', od_fulfillment = ''shipping'', od_pickup_point = None, od_subtotal = 40, od_shipping = 0, od_tax = 0,
     od_discount = 0, od_total = 40, od_coupon = None, od_ship_to = None, od_bill_to = None,
     deduction_event = ''payment_confirmed'', deducted_at = None, stock_error = '''', reservations_managed = True,
     paid_at = None, shipped_at = None, delivered_at = None, admin_note = ''''\<rparr>"

definition north :: inventory where
  "north = \<lparr>iv_id = 1, iv_variant = 1, iv_warehouse = 1, iv_quantity = 5, iv_reserved = 0\<rparr>"

definition south :: inventory where
  "south = \<lparr>iv_id = 2, iv_variant = 1, iv_warehouse = 2, iv_quantity = 3, iv_reserved = 0\<rparr>"

definition shop0 :: shop_db where
  "shop0 = \<lparr>warehouses = [\<lparr>wh_id = 1, wh_workspace = 5, wh_name = ''North'', wh_active = True, wh_default = True\<rparr>,
       \<lparr>wh_id = 2, wh_workspace = 5, wh_name = ''South'', wh_active = True, wh_default = False\<rparr>],
     products = [shirt], variants = [\<lparr>va_id = 1, va_product = 1, va_sku = ''S-R'', va_name = ''Red'', va_price = None,
       va_stock = 8, va_weight = None, va_active = True\<rparr>], inventories = [north, south],
     orders = [order1], order_items = [two_shirts], reservations = [], shop_audits = [], emitted = [], committed = []\<rparr>"

lemmas shop_rows = shirt_def two_shirts_def order1_def north_def south_def shop0_def

lemma shop0_ok: "sound shop0" "order_of shop0 5 1 = Some order1"
  by (simp_all add: sound_def stock_ok_def shop_ok_def never_oversold_def in_state_def quantity_at_def reserved_at_def order_of_def shop_rows)

lemma shop0_unreserved: "\<forall>i \<in> set (order_items shop0). oi_order i = od_id order1 \<longrightarrow> reservation_of shop0 (oi_id i) = None"
  by (simp add: reservation_of_def shop_rows)

lemmas stock_calls = reserve_stock_for_order_def reserve_stock_atomic_def locked_def order_of_def reserve_locked_def items_of_order_def
  reserve_item_def product_in_def variant_in_def reservation_of_def new_reservation_def working_warehouse_def
  get_variant_inventory_def find_inventory_def reserve_stock_def available_in_def save_inventory_def update_where_def
  add_reservation_def fresh_id_def save_order_def Let_def

lemma sample_reserved: "\<exists>r db. reserve_stock_for_order 5 order1 shop0 = (Inr r, db) \<and> od_id r = 1 \<and> od_workspace r = 5 \<and>
    od_status r = ''pending'' \<and> order_of db 5 1 = Some r"
  by (simp add: stock_calls shop_rows)
definition shop1 :: shop_db where
  "shop1 = shop0\<lparr>inventories := [north\<lparr>iv_reserved := 2\<rparr>, south], reservations := [\<lparr>sr_id = 1, sr_item = 1, sr_inventory = 1,
     sr_quantity = 2, sr_state = Held, sr_closed_at = None\<rparr>]\<rparr>"

lemma reserved1: "reserve_stock_for_order 5 order1 shop0 = (Inr order1, shop1)"
  by (simp add: stock_calls shop_rows shop1_def)

lemma shop1_ok: "sound shop1"
  using reserve_sound [OF reserved1 shop0_ok(1)] by simp

lemma cancelled1: "\<exists>r db. cancel_order env0 5 order1 '''' shop1 = Inr (r, db)"
  by (simp add: cancel_order_def release_stock_reservations_def release_locked_def held_by_order_def release_reservation_def inventory_by_id_def
      warehouse_workspace_def has_tracked_variant_def stock_calls shop_rows shop1_def)

lemma deducted1: "\<exists>r db. deduct_stock env0 5 order1 shop0 = (Inr r, db)"
  by (simp add: deduct_stock_def deduct_stock_atomic_def deduct_locked_def deduct_item_def deduct_variant_def inventory_by_id_def
      fulfill_reservation_def recount_def total_quantity_def save_reservation_def stock_calls shop_rows)

theorem allocation_adds_up_witness:
  "allocate_stock 1 6 shop0 = Inr [(1, 5), (2, 1)] \<and> (\<Sum>(w, q)\<leftarrow>[(1::nat, 5), (2, 1)]. q) = (6::int)"
proof -
  have "allocate_stock 1 6 shop0 = Inr [(1, 5), (2, 1)]"
    by (simp add: allocate_stock_def get_available_warehouses_def shop_rows)
  with allocation_adds_up [where v = 1 and required = 6 and db = shop0] show ?thesis by simp
qed

theorem never_oversold_ever_witness:
  "\<exists>db. order_step shop0 db \<and> (\<forall>i \<in> {north\<lparr>iv_reserved := 2\<rparr>, south}. in_state Held db (iv_id i) \<le> iv_reserved i)"
proof -
  have s: "order_step shop0 shop1" by (rule order_step.reserve [OF reserved1])
  then have "order_step\<^sup>*\<^sup>* shop0 shop1" by blast
  from never_oversold_ever [OF this shop0_ok(1), of 1] s show ?thesis by (intro exI [of _ shop1]) (simp add: shop1_def)
qed

theorem deduct_takes_once_witness:
  "\<exists>r db. deduct_stock env0 5 order1 shop0 = (Inr r, db) \<and> deducted_at r = Some (now env0) \<and> deduct_stock env0 5 r db = (Inr r, db)"
proof -
  obtain r db where d: "deduct_stock env0 5 order1 shop0 = (Inr r, db)" using deducted1 by blast
  have "order_of shop0 5 (od_id order1) = Some order1" "deducted_at order1 = None" using shop0_ok(2) by (simp_all add: order1_def)
  from deduct_takes_once [OF d shop0_ok(1) this, where e' = env0] d show ?thesis by blast
qed

theorem cancel_gives_back_witness:
  "\<exists>r db. cancel_order env0 5 order1 '''' shop1 = Inr (r, db) \<and> reserved_at db 1 = 0 \<and> quantity_at db 1 = 5"
proof -
  obtain r db where c: "cancel_order env0 5 order1 '''' shop1 = Inr (r, db)" using cancelled1 by blast
  from cancel_gives_back [OF c shop1_ok, of 1] c show ?thesis
    by (simp add: quantity_at_def reserved_at_def held_by_order_def shop1_def shop_rows)
qed

theorem reserve_then_cancel_witness:
  "\<exists>r db. cancel_order env0 5 order1 '''' shop1 = Inr (r, db) \<and> reserved_at db 1 = reserved_at shop0 1"
proof -
  obtain r db where c: "cancel_order env0 5 order1 '''' shop1 = Inr (r, db)" using cancelled1 by blast
  from reserve_then_cancel [OF reserved1 c shop0_ok(1) shop0_unreserved, of 1] c show ?thesis by blast
qed

text \<open>One shirt is left, and two were sold: the payment is kept, and the order says what is missing.\<close>

definition poor_shop :: shop_db where
  "poor_shop = shop0\<lparr>inventories := [north\<lparr>iv_quantity := 1\<rparr>, south\<lparr>iv_quantity := 0\<rparr>]\<rparr>"

lemma poor_ok: "sound poor_shop" "order_of poor_shop 5 (od_id order1) = Some order1"
  by (simp_all add: sound_def stock_ok_def shop_ok_def never_oversold_def in_state_def quantity_at_def reserved_at_def order_of_def
      shop_rows poor_shop_def)

lemma poor_refused: "\<exists>err. deduct_stock_atomic env0 5 (order1\<lparr>od_payment := ''paid'', paid_at := Some noon\<rparr>)
    (save_order (order1\<lparr>od_payment := ''paid'', paid_at := Some noon\<rparr>) poor_shop) = Inl err"
  by (simp add: deduct_stock_atomic_def deduct_locked_def deduct_item_def deduct_variant_def inventory_by_id_def
      fulfill_reservation_def recount_def total_quantity_def save_reservation_def stock_calls shop_rows poor_shop_def)

theorem payment_stands_witness:
  "\<exists>r db err. mark_as_paid env0 5 order1 True poor_shop = Inr (r, db) \<and> od_payment r = ''paid'' \<and> deducted_at r = None \<and>
     stock_error r = error_detail err \<and> stock_error r \<noteq> [] \<and> mark_as_paid env0 5 order1 False db = Inr (r, db)"
proof -
  have "od_workspace order1 = 5" "od_payment order1 \<noteq> ''paid''" "deduction_event order1 = ''payment_confirmed''" "deducted_at order1 = None"
    by (simp_all add: order1_def)
  note stands = payment_stands [OF this(1) poor_ok this(2,3), where e = env0, unfolded Let_def env0_simps] this(4)
  obtain err where "deduct_stock_atomic env0 5 (order1\<lparr>od_payment := ''paid'', paid_at := Some noon\<rparr>)
    (save_order (order1\<lparr>od_payment := ''paid'', paid_at := Some noon\<rparr>) poor_shop) = Inl err" using poor_refused by blast
  with stands show ?thesis by fastforce
qed

end
