(* ===== verification/Payments.thy ===== *)
theory Payments
  imports Order_Stock Renewals
begin

text \<open>
  Taking and giving back money (\<open>finance/services/payment_service.py\<close>). A payment is an attempt to
  settle an order, an invoice or both through a gateway of the workspace; it is processed in three
  transactions, the claim, the gateway's answer and the completion, so that a success the gateway
  reported is stored before anything is booked. A refund gives back part of a completed payment
  under a key of the caller's.

  The gateway plugins speak to a service: what one answers, \<open>None\<close> where it raises, is a
  parameter. Drawing digits at random is the parameter \<open>draw\<close>, the sequence of what is drawn; the
  search for a number nobody has may not end, and is \<open>None\<close> then. \<open>excluded_ids\<close> is what extensions
  exclude from a consignment update; no extension wraps the finance operations in a context of its own. What is queued for after the
  commit, the platform's listeners among it (\<open>platform/handlers.py\<close>), has run in the database that is
  answered.
\<close>

subsection \<open>Rows\<close>

record gateway =
  gw_id :: nat
  gw_workspace :: nat
  gw_name :: string
  gw_type :: string
  gw_active :: bool

record payment_method =
  pm_workspace :: nat
  pm_customer :: nat
  pm_gateway :: nat
  pm_active :: bool

datatype pay_status = Pay_Pending | Pay_Processing | Pay_Completed | Pay_Failed | Pay_Refunded

text \<open>
  What is read of a gateway's answer: \<open>success\<close>, \<open>status\<close> and the reference, which is
  \<open>transaction_id\<close> or \<open>refund_id\<close>; the empty string when there is none.
\<close>

record response =
  rp_success :: bool
  rp_status :: string
  rp_reference :: string

record payment =
  py_id :: nat
  py_workspace :: nat
  py_customer :: nat
  py_invoice :: "nat option"
  py_order :: "nat option"
  py_number :: string
  py_gateway :: "nat option"
  py_amount :: rat
  py_currency :: nat
  py_status :: pay_status
  py_reference :: string
  py_response :: response
  py_completed_at :: "moment option"

datatype refund_status = Rf_Pending | Rf_Processing | Rf_Completed | Rf_Failed

record refund =
  rf_id :: nat
  rf_payment :: nat
  rf_key :: string
  rf_amount :: rat
  rf_reason :: string
  rf_status :: refund_status
  rf_reference :: string
  rf_completed_at :: "moment option"

record ledger_row =
  lg_payment :: nat
  lg_type :: string
  lg_amount :: rat
  lg_customer :: nat
  lg_currency :: nat
  lg_invoice :: "nat option"

record consignment =
  cs_id :: nat
  cs_workspace :: nat
  cs_orders :: "nat list"
  cs_state :: string

record fin_db =
  base :: platform_db
  shop :: shop_db
  invoice_orders :: "(nat \<times> nat) list"
  gateways :: "gateway list"
  payments :: "payment list"
  refunds :: "refund list"
  ledger :: "ledger_row list"
  consignments :: "consignment list"
  freight_codes :: "(nat \<times> string) list"
  pay_audits :: "(nat \<times> pay_status) list"
  fin_events :: "(string \<times> nat) list"

datatype pay_error = Wrong_Workspace | Row_Missing | Gateway_Inactive | Amount_Not_Positive | Not_Your_Order | Not_The_Order_Total
  | Order_Already_Paid | Order_Closed | Order_Has_Attempt | Not_Your_Invoice | Not_The_Invoice_Total | Not_The_Orders_Invoice
  | Invoice_Already_Paid | Invoice_Has_Attempt | Wrong_Currency | Bad_Method | Number_Taken | In_Progress | Gateway_Gone
  | Gateway_Failed | Not_Confirmed | No_Success_Stored | Stock_Raised shop_error | Number_Raised | No_Freight_Status
  | Bad_Key | Key_Reused | Not_Completed | Over_Refund | Bad_Minor_Units

subsection \<open>The gateway plugins\<close>

record event_answer =
  ev_success :: bool
  ev_intent :: string
  ev_minor :: "int option"
  ev_currency :: string

record plugin =
  confirm_payment :: "payment \<Rightarrow> string \<Rightarrow> response option"
  refund_payment :: "payment \<Rightarrow> rat \<Rightarrow> string \<Rightarrow> nat \<Rightarrow> response option"
  read_event :: "string \<Rightarrow> string \<Rightarrow> event_answer"
  open_intent :: "payment \<Rightarrow> string option"

record outside =
  plugin_of :: "gateway \<Rightarrow> plugin option"
  excluded_ids :: "nat \<Rightarrow> nat list \<Rightarrow> string \<Rightarrow> nat list"

definition payment_of :: "fin_db \<Rightarrow> nat \<Rightarrow> nat \<Rightarrow> payment option" where
  "payment_of db w i = first (filter (\<lambda>p. py_id p = i \<and> py_workspace p = w) (payments db))"

definition save_payment :: "payment \<Rightarrow> fin_db \<Rightarrow> fin_db" where
  "save_payment p db = db\<lparr>payments := update_where (\<lambda>x. py_id x = py_id p) (\<lambda>_. p) (payments db)\<rparr>"

definition save_refund :: "refund \<Rightarrow> fin_db \<Rightarrow> fin_db" where
  "save_refund r db = db\<lparr>refunds := update_where (\<lambda>x. rf_id x = rf_id r) (\<lambda>_. r) (refunds db)\<rparr>"

definition order_by_id :: "shop_db \<Rightarrow> nat \<Rightarrow> order_row option" where
  "order_by_id db j = first (filter (\<lambda>r. od_id r = j) (orders db))"

definition gateway_by_id :: "fin_db \<Rightarrow> nat \<Rightarrow> gateway option" where
  "gateway_by_id db g = first (filter (\<lambda>x. gw_id x = g) (gateways db))"

subsection \<open>Starting a payment\<close>

definition check :: "(bool \<times> pay_error) list \<Rightarrow> pay_error + unit" where
  "check cs = (case first (filter fst cs) of None \<Rightarrow> Inr () | Some c \<Rightarrow> Inl (snd c))"

definition attempts :: "fin_db \<Rightarrow> nat \<Rightarrow> pay_status set \<Rightarrow> (payment \<Rightarrow> bool) \<Rightarrow> bool" where
  "attempts db w sts which = list_ex (\<lambda>p. py_workspace p = w \<and> which p \<and> py_status p \<in> sts) (payments db)"

definition order_to_pay :: "fin_db \<Rightarrow> nat \<Rightarrow> nat \<Rightarrow> rat \<Rightarrow> order_row option \<Rightarrow> pay_error + order_row option" where
  "order_to_pay db w customer amount given = (case given of None \<Rightarrow> Inr None
   | Some g \<Rightarrow> if od_workspace g \<noteq> w then Inl Wrong_Workspace
       else case order_of (shop db) w (od_id g) of None \<Rightarrow> Inl Row_Missing
       | Some r \<Rightarrow> bind_r (check
           [(od_customer r \<noteq> customer, Not_Your_Order), (amount \<noteq> od_total r, Not_The_Order_Total),
            (od_payment r = ''paid'' \<or> attempts db w {Pay_Completed} (\<lambda>p. py_order p = Some (od_id r)), Order_Already_Paid),
            (od_status r \<in> {''cancelled'', ''refunded''}, Order_Closed),
            (attempts db w {Pay_Pending, Pay_Processing} (\<lambda>p. py_order p = Some (od_id r)), Order_Has_Attempt)])
         (\<lambda>_. Inr (Some r)))"

text \<open>An order without an invoice named is paid with the newest invoice it has.\<close>

definition newest_invoice :: "fin_db \<Rightarrow> nat \<Rightarrow> invoice option" where
  "newest_invoice db j = latest_by inv_id (filter (\<lambda>v. map_of (invoice_orders db) (inv_id v) = Some j) (invoices (base db)))"

definition invoice_to_pay :: "fin_db \<Rightarrow> nat \<Rightarrow> nat \<Rightarrow> rat \<Rightarrow> order_row option \<Rightarrow> invoice option \<Rightarrow> pay_error + invoice option" where
  "invoice_to_pay db w customer amount order given =
    (case (case given of Some v \<Rightarrow> Some v | None \<Rightarrow> (case order of None \<Rightarrow> None | Some r \<Rightarrow> newest_invoice db (od_id r))) of
       None \<Rightarrow> Inr None
     | Some g \<Rightarrow> if inv_workspace g \<noteq> w then Inl Wrong_Workspace
       else case first (filter (\<lambda>v. inv_id v = inv_id g \<and> inv_workspace v = w) (invoices (base db))) of None \<Rightarrow> Inl Row_Missing
       | Some v \<Rightarrow> bind_r (check
           [(inv_customer v \<noteq> customer, Not_Your_Invoice), (amount \<noteq> inv_total v, Not_The_Invoice_Total),
            (case order of None \<Rightarrow> False | Some r \<Rightarrow> map_of (invoice_orders db) (inv_id v) \<noteq> Some (od_id r), Not_The_Orders_Invoice),
            (inv_status v = Inv_Paid \<or> attempts db w {Pay_Completed} (\<lambda>p. py_invoice p = Some (inv_id v)), Invoice_Already_Paid),
            (attempts db w {Pay_Pending, Pay_Processing} (\<lambda>p. py_invoice p = Some (inv_id v)), Invoice_Has_Attempt)])
         (\<lambda>_. Inr (Some v)))"

definition currency_fits :: "fin_db \<Rightarrow> nat \<Rightarrow> invoice option \<Rightarrow> currency \<Rightarrow> bool" where
  "currency_fits db w bill cur = (case bill of Some v \<Rightarrow> cur_id cur = inv_currency v
     | None \<Rightarrow> cur_code cur = get_default_currency_for_workspace (workspace_by_id (base db) w))"

definition method_fits :: "nat \<Rightarrow> nat \<Rightarrow> nat \<Rightarrow> payment_method option \<Rightarrow> pay_error + unit" where
  "method_fits w customer g pm = (case pm of None \<Rightarrow> Inr ()
     | Some m \<Rightarrow> check [(pm_workspace m \<noteq> w, Wrong_Workspace), (pm_customer m \<noteq> customer \<or> pm_gateway m \<noteq> g, Bad_Method),
         (\<not> pm_active m, Bad_Method)])"

text \<open>Digits are drawn until the number is none of the workspace's.\<close>

partial_function (option) pick_number :: "(nat \<Rightarrow> string) \<Rightarrow> string list \<Rightarrow> nat \<Rightarrow> string option" where
  "pick_number draw used k = (if draw k \<in> set used then pick_number draw used (Suc k) else Some (draw k))"

lemma pick_number_Some:
  assumes "pick_number draw used k = Some n"
  shows "\<exists>m \<ge> k. n = draw m \<and> draw m \<notin> set used \<and> (\<forall>j \<in> {k ..< m}. draw j \<in> set used)"
proof (rule pick_number.raw_induct [OF _ assms, where P = "\<lambda>draw used k n. \<exists>m \<ge> k. n = draw m \<and> draw m \<notin> set used \<and> (\<forall>j \<in> {k ..< m}. draw j \<in> set used)"])
  fix f :: "(nat \<Rightarrow> string) \<Rightarrow> string list \<Rightarrow> nat \<Rightarrow> string option" and draw used k n
  assume IH: "\<And>draw used k n. f draw used k = Some n \<Longrightarrow> \<exists>m \<ge> k. n = draw m \<and> draw m \<notin> set used \<and> (\<forall>j \<in> {k ..< m}. draw j \<in> set used)"
    and run: "(if draw k \<in> set used then f draw used (Suc k) else Some (draw k)) = Some n"
  show "\<exists>m \<ge> k. n = draw m \<and> draw m \<notin> set used \<and> (\<forall>j \<in> {k ..< m}. draw j \<in> set used)"
  proof (cases "draw k \<in> set used")
    case True
    with run IH [of draw used "Suc k" n] obtain m where "Suc k \<le> m" "n = draw m" "draw m \<notin> set used" "\<forall>j \<in> {Suc k ..< m}. draw j \<in> set used"
      by auto
    with True show ?thesis by (intro exI [of _ m]) (auto simp: Suc_le_eq le_less)
  qed (use run in auto)
qed

lemma pick_number_skips:
  "(\<And>j. j < m \<Longrightarrow> draw (k + j) \<in> set used) \<Longrightarrow> draw (k + m) \<notin> set used \<Longrightarrow> pick_number draw used k = Some (draw (k + m))"
proof (induction m arbitrary: k)
  case 0
  then show ?case by (simp add: pick_number.simps)
next
  case (Suc m)
  have "draw k \<in> set used" using Suc.prems(1) [of 0] by simp
  moreover have "pick_number draw used (Suc k) = Some (draw (Suc k + m))"
    by (rule Suc.IH) (use Suc.prems(1) [of "Suc _"] Suc.prems(2) in simp_all)
  ultimately show ?case by (subst pick_number.simps) simp
qed

lemma number_drawn: "draw m \<notin> set used \<Longrightarrow> \<exists>j. pick_number draw used 0 = Some (draw j) \<and> draw j \<notin> set used \<and> (\<forall>i < j. draw i \<in> set used)"
proof -
  assume "draw m \<notin> set used"
  then have "\<exists>m. draw m \<notin> set used" by blast
  then obtain j where "draw j \<notin> set used" "\<forall>i < j. draw i \<in> set used" unfolding exists_least_iff [of "\<lambda>m. draw m \<notin> set used"] by auto
  with pick_number_skips [of j draw 0 used] show ?thesis by auto
qed

definition number_head :: "env \<Rightarrow> string" where
  "number_head e = ''PAY-'' @ show_year_month (today e) @ zero_pad 2 (nat (day_of_month (today e))) @ ''-''"

definition generate_payment_number :: "env \<Rightarrow> (nat \<Rightarrow> string) \<Rightarrow> nat \<Rightarrow> fin_db \<Rightarrow> string option" where
  "generate_payment_number e draw w db = pick_number (\<lambda>k. number_head e @ draw k)
     (map py_number (filter (\<lambda>p. py_workspace p = w) (payments db))) 0"

definition no_response :: response where
  "no_response = \<lparr>rp_success = False, rp_status = '''', rp_reference = ''''\<rparr>"

text \<open>The number is unique on the whole deployment.\<close>

definition insert_payment :: "payment \<Rightarrow> fin_db \<Rightarrow> pay_error + (payment \<times> fin_db)" where
  "insert_payment p db = (if py_number p \<in> py_number ` set (payments db) then Inl Number_Taken
     else Inr (p, db\<lparr>payments := payments db @ [p]\<rparr>))"

definition create_payment :: "env \<Rightarrow> (nat \<Rightarrow> string) \<Rightarrow> nat \<Rightarrow> customer \<Rightarrow> rat \<Rightarrow> currency \<Rightarrow> gateway \<Rightarrow> order_row option
    \<Rightarrow> invoice option \<Rightarrow> payment_method option \<Rightarrow> fin_db \<Rightarrow> (pay_error + (payment \<times> fin_db)) option" where
  "create_payment e draw w customer amount cur gw order bill pm db =
    (case bind_r (check [(cu_workspace customer \<noteq> w, Wrong_Workspace), (gw_workspace gw \<noteq> w, Wrong_Workspace),
           (\<not> gw_active gw, Gateway_Inactive), (amount \<le> 0, Amount_Not_Positive)]) (\<lambda>_.
         bind_r (order_to_pay db w (cu_id customer) amount order) (\<lambda>order.
         bind_r (invoice_to_pay db w (cu_id customer) amount order bill) (\<lambda>bill.
         bind_r (check [(\<not> currency_fits db w bill cur, Wrong_Currency)]) (\<lambda>_.
         bind_r (method_fits w (cu_id customer) (gw_id gw) pm) (\<lambda>_. Inr (order, bill)))))) of
       Inl err \<Rightarrow> Some (Inl err)
     | Inr (order, bill) \<Rightarrow> map_option (\<lambda>number. insert_payment
         \<lparr>py_id = fresh_id py_id (payments db), py_workspace = w, py_customer = cu_id customer,
          py_invoice = map_option inv_id bill, py_order = map_option od_id order, py_number = number,
          py_gateway = Some (gw_id gw), py_amount = amount, py_currency = cur_id cur, py_status = Pay_Pending,
          py_reference = '''', py_response = no_response, py_completed_at = None\<rparr> db) (generate_payment_number e draw w db))"

subsection \<open>Processing\<close>

definition response_succeeded :: "response \<Rightarrow> bool" where
  "response_succeeded rp \<longleftrightarrow> rp_success rp \<and> lower (rp_status rp) \<in> {''succeeded'', ''completed'', ''paid''}"

definition total_of_order :: "fin_db \<Rightarrow> payment \<Rightarrow> rat option" where
  "total_of_order db p = (case py_order p of None \<Rightarrow> None | Some j \<Rightarrow> map_option od_total (order_by_id (shop db) j))"

definition total_of_invoice :: "fin_db \<Rightarrow> payment \<Rightarrow> rat option" where
  "total_of_invoice db p = (case py_invoice p of None \<Rightarrow> None | Some i \<Rightarrow> map_option inv_total (invoice_by_id (base db) i))"

definition linked_gateway :: "fin_db \<Rightarrow> payment \<Rightarrow> gateway option" where
  "linked_gateway db p = (case py_gateway p of None \<Rightarrow> None | Some g \<Rightarrow> gateway_by_id db g)"

datatype claim = Already payment | Stored pay_status | Claimed payment gateway pay_status

definition claim_payment :: "nat \<Rightarrow> nat \<Rightarrow> bool \<Rightarrow> fin_db \<Rightarrow> pay_error + (claim \<times> fin_db)" where
  "claim_payment w i manual db = (case payment_of db w i of None \<Rightarrow> Inl Row_Missing
   | Some p \<Rightarrow> if py_status p = Pay_Completed then Inr (Already p, db)
     else if response_succeeded (py_response p) then Inr (Stored (py_status p), db)
     else bind_r (check [(py_status p = Pay_Processing \<and> \<not> manual, In_Progress), (linked_gateway db p = None, Gateway_Gone),
            (py_amount p \<le> 0, Amount_Not_Positive), (total_of_order db p \<notin> {None, Some (py_amount p)}, Not_The_Order_Total),
            (total_of_invoice db p \<notin> {None, Some (py_amount p)}, Not_The_Invoice_Total)]) (\<lambda>_.
          let p' = p\<lparr>py_status := Pay_Processing\<rparr>
          in Inr (Claimed p' (the (linked_gateway db p)) (py_status p), save_payment p' db)))"

record details =
  dt_intent :: string
  dt_reference :: string

definition call_payment_gateway :: "outside \<Rightarrow> gateway \<Rightarrow> payment \<Rightarrow> details \<Rightarrow> response option" where
  "call_payment_gateway out gw p d = (case plugin_of out gw of None \<Rightarrow> None
     | Some plugin \<Rightarrow> confirm_payment plugin p (if dt_intent d = [] then py_reference p else dt_intent d))"

definition gateway_answer :: "outside \<Rightarrow> bool \<Rightarrow> gateway \<Rightarrow> payment \<Rightarrow> details \<Rightarrow> response option" where
  "gateway_answer out manual gw p d =
    (if manual then
       (if gw_type gw \<notin> {''bank_transfer'', ''pay_in_store'', ''custom''} then None
        else Some \<lparr>rp_success = True, rp_status = ''completed'', rp_reference = dt_reference d\<rparr>)
     else call_payment_gateway out gw p d)"

definition record_failure :: "nat \<Rightarrow> nat \<Rightarrow> bool \<Rightarrow> fin_db \<Rightarrow> fin_db" where
  "record_failure w i manual db = (case payment_of db w i of None \<Rightarrow> db
     | Some p \<Rightarrow> save_payment (p\<lparr>py_status := (if manual then Pay_Failed else Pay_Processing), py_response := no_response\<rparr>) db)"

definition answered_status :: "response \<Rightarrow> pay_status" where
  "answered_status rp = (if response_succeeded rp then Pay_Processing
     else if lower (rp_status rp) = ''pending'' then Pay_Pending
     else if lower (rp_status rp) \<in> {''processing'', ''requires_action''} then Pay_Processing else Pay_Failed)"

definition record_answer :: "nat \<Rightarrow> nat \<Rightarrow> response \<Rightarrow> fin_db \<Rightarrow> pay_error + (payment \<times> fin_db)" where
  "record_answer w i rp db = (case payment_of db w i of None \<Rightarrow> Inl Row_Missing
     | Some p \<Rightarrow> let p' = p\<lparr>py_reference := rp_reference rp, py_response := rp, py_status := answered_status rp\<rparr>
         in Inr (p', save_payment p' db))"

subsection \<open>Completing\<close>

definition announce :: "string \<Rightarrow> nat \<Rightarrow> fin_db \<Rightarrow> fin_db" where
  "announce name i db = db\<lparr>fin_events := fin_events db @ [(name, i)]\<rparr>"

definition create_transaction :: "payment \<Rightarrow> string \<Rightarrow> rat \<Rightarrow> fin_db \<Rightarrow> fin_db" where
  "create_transaction p type amount db = db\<lparr>ledger := ledger db @
     [\<lparr>lg_payment = py_id p, lg_type = type, lg_amount = amount, lg_customer = py_customer p,
       lg_currency = py_currency p, lg_invoice = py_invoice p\<rparr>]\<rparr>"

definition update_consignment_status :: "outside \<Rightarrow> nat \<Rightarrow> nat \<Rightarrow> string \<Rightarrow> fin_db \<Rightarrow> pay_error + fin_db" where
  "update_consignment_status out w i new db =
    (let linked = (case map_of (invoice_orders db) i of None \<Rightarrow> []
           | Some j \<Rightarrow> map cs_id (filter (\<lambda>c. cs_workspace c = w \<and> j \<in> set (cs_orders c)) (consignments db)));
         left = filter (\<lambda>c. c \<notin> set (excluded_ids out w linked new)) linked in
     if left = [] then Inr db
     else if (w, new) \<notin> set (freight_codes db) then Inl No_Freight_Status
     else Inr (db\<lparr>consignments := update_where (\<lambda>c. cs_id c \<in> set left) (\<lambda>c. c\<lparr>cs_state := new\<rparr>) (consignments db)\<rparr>))"

definition settle_order :: "env \<Rightarrow> nat \<Rightarrow> payment \<Rightarrow> fin_db \<Rightarrow> pay_error + fin_db" where
  "settle_order e w p db = (case py_order p of None \<Rightarrow> Inr db
     | Some j \<Rightarrow> (case order_by_id (shop db) j of None \<Rightarrow> Inr db
       | Some order \<Rightarrow> (case mark_as_paid e w order True (shop db) of
           Inl err \<Rightarrow> Inl (Stock_Raised err) | Inr (_, s) \<Rightarrow> Inr (db\<lparr>shop := s\<rparr>))))"

definition paid_invoice :: "date \<Rightarrow> invoice \<Rightarrow> invoice" where
  "paid_invoice d v = v\<lparr>inv_status := Inv_Paid, paid_date := Some d\<rparr>"

definition invoice_marked :: "env \<Rightarrow> nat \<Rightarrow> platform_db \<Rightarrow> platform_db" where
  "invoice_marked e i db = db\<lparr>invoices := update_where (\<lambda>v. inv_id v = i) (paid_invoice (today e)) (invoices db)\<rparr>"

definition settle_invoice :: "env \<Rightarrow> outside \<Rightarrow> nat \<Rightarrow> payment \<Rightarrow> fin_db \<Rightarrow> pay_error + fin_db" where
  "settle_invoice e out w p db = (case py_invoice p of None \<Rightarrow> Inr db
     | Some i \<Rightarrow> (case invoice_by_id (base db) i of None \<Rightarrow> Inr db
       | Some v \<Rightarrow> (case on_invoice_saved e (invoice_marked e i (base db)) (paid_invoice (today e) v) False of
           Inl _ \<Rightarrow> Inl Number_Raised
         | Inr b \<Rightarrow> bind_r (update_consignment_status out w i ''PAID'' (db\<lparr>base := b\<rparr>)) (\<lambda>db.
             Inr (announce ''invoice.paid'' i (db\<lparr>base := on_invoice_paid e (base db) (invoice_by_id (base db) i)\<rparr>))))))"

definition complete_confirmed_payment :: "env \<Rightarrow> outside \<Rightarrow> nat \<Rightarrow> nat \<Rightarrow> pay_status \<Rightarrow> fin_db \<Rightarrow> pay_error + (payment \<times> fin_db)" where
  "complete_confirmed_payment e out w i old db = (case payment_of db w i of None \<Rightarrow> Inl Row_Missing
   | Some p \<Rightarrow> if py_status p = Pay_Completed then Inr (p, db)
     else if \<not> response_succeeded (py_response p) then Inl No_Success_Stored
     else let p' = p\<lparr>py_status := Pay_Completed, py_completed_at := Some (now e)\<rparr>;
              db = create_transaction p' ''payment'' (py_amount p') (save_payment p' db)
       in bind_r (settle_order e w p' db) (\<lambda>db. bind_r (settle_invoice e out w p' db) (\<lambda>db.
          Inr (p', announce ''payment.completed'' i (db\<lparr>pay_audits := pay_audits db @ [(i, old)],
            base := on_payment_completed e (base db) (py_invoice p')\<rparr>)))))"

text \<open>A call whose last transaction is rolled back keeps what the earlier ones committed.\<close>

definition then_finish :: "fin_db \<Rightarrow> pay_error + ('a \<times> fin_db) \<Rightarrow> (pay_error + 'a) \<times> fin_db" where
  "then_finish db res = (case res of Inl err \<Rightarrow> (Inl err, db) | Inr (x, db') \<Rightarrow> (Inr x, db'))"

definition process_payment :: "env \<Rightarrow> outside \<Rightarrow> nat \<Rightarrow> payment \<Rightarrow> details \<Rightarrow> bool \<Rightarrow> fin_db \<Rightarrow> (pay_error + payment) \<times> fin_db" where
  "process_payment e out w given d manual db =
    (if py_workspace given \<noteq> w then (Inl Wrong_Workspace, db)
     else (case claim_payment w (py_id given) manual db of
         Inl err \<Rightarrow> (Inl err, db)
       | Inr (Already p, db) \<Rightarrow> (Inr p, db)
       | Inr (Stored old, db) \<Rightarrow> then_finish db (complete_confirmed_payment e out w (py_id given) old db)
       | Inr (Claimed p gw old, db) \<Rightarrow> (case gateway_answer out manual gw p d of
           None \<Rightarrow> (Inl Gateway_Failed, record_failure w (py_id given) manual db)
         | Some rp \<Rightarrow> (case record_answer w (py_id given) rp db of
             Inl err \<Rightarrow> (Inl err, db)
           | Inr (p, db) \<Rightarrow>
               if response_succeeded rp then then_finish db (complete_confirmed_payment e out w (py_id given) old db)
               else if py_status p = Pay_Failed then (Inl Not_Confirmed, db) else (Inr p, db)))))"

subsection \<open>Giving back\<close>

definition refunds_of :: "fin_db \<Rightarrow> nat \<Rightarrow> refund list" where
  "refunds_of db i = filter (\<lambda>r. rf_payment r = i) (refunds db)"

definition refunded_in :: "refund_status set \<Rightarrow> fin_db \<Rightarrow> nat \<Rightarrow> rat" where
  "refunded_in sts db i = (\<Sum>r\<leftarrow>refunds db. if rf_payment r = i \<and> rf_status r \<in> sts then rf_amount r else 0)"

datatype refund_claim = Replayed refund | Confirmed refund | Asked refund payment gateway

text \<open>
  The first transaction: an attempt under the key is answered again, finished or asked again; a new
  one is reserved against what is left of the payment. The caller learns from \<open>_idempotent_replay\<close>
  whether the attempt was already there.
\<close>

definition prepare_refund :: "nat \<Rightarrow> nat \<Rightarrow> rat \<Rightarrow> string \<Rightarrow> string \<Rightarrow> fin_db \<Rightarrow> pay_error + (refund_claim \<times> fin_db)" where
  "prepare_refund w i amount reason key db = (case payment_of db w i of None \<Rightarrow> Inl Row_Missing
   | Some p \<Rightarrow>
     let existing = first (filter (\<lambda>r. rf_key r = key) (refunds_of db i)) in
     if (case existing of None \<Rightarrow> False | Some r \<Rightarrow> rf_amount r \<noteq> amount \<or> rf_reason r \<noteq> reason) then Inl Key_Reused
     else if (case existing of None \<Rightarrow> False | Some r \<Rightarrow> rf_status r \<in> {Rf_Completed, Rf_Pending, Rf_Failed})
       then Inr (Replayed (the existing), db)
     else bind_r (check [(py_status p \<noteq> Pay_Completed, Not_Completed), (linked_gateway db p = None, Gateway_Gone)]) (\<lambda>_.
       let gw = the (linked_gateway db p) in
       case existing of
         Some r \<Rightarrow> Inr (if rf_reference r \<noteq> [] then Confirmed r else Asked r p gw, db)
       | None \<Rightarrow>
           if refunded_in {Rf_Pending, Rf_Processing, Rf_Completed} db i + amount > py_amount p then Inl Over_Refund
           else let r = \<lparr>rf_id = fresh_id rf_id (refunds db), rf_payment = i, rf_key = key, rf_amount = amount,
                  rf_reason = reason, rf_status = Rf_Processing, rf_reference = '''', rf_completed_at = None\<rparr>
             in Inr (Asked r p gw, db\<lparr>refunds := refunds db @ [r]\<rparr>)))"

definition call_refund_gateway :: "outside \<Rightarrow> gateway \<Rightarrow> payment \<Rightarrow> refund \<Rightarrow> response option" where
  "call_refund_gateway out gw p r = (case plugin_of out gw of None \<Rightarrow> None
     | Some plugin \<Rightarrow> refund_payment plugin p (rf_amount r) (rf_reason r) (rf_id r))"

definition refund_by_id :: "fin_db \<Rightarrow> nat \<Rightarrow> refund option" where
  "refund_by_id db k = first (filter (\<lambda>r. rf_id r = k) (refunds db))"

definition refund_confirmed :: "response \<Rightarrow> bool" where
  "refund_confirmed rp \<longleftrightarrow> rp_success rp \<and> lower (rp_status rp) \<in> {''succeeded'', ''completed'', ''refunded''}"

definition confirmed_reference :: "nat \<Rightarrow> response \<Rightarrow> string" where
  "confirmed_reference k rp = (if rp_reference rp = [] then ''confirmed-'' @ show_nat k else rp_reference rp)"

definition set_refund :: "nat \<Rightarrow> (refund \<Rightarrow> refund) \<Rightarrow> fin_db \<Rightarrow> pay_error + (refund \<times> fin_db)" where
  "set_refund k f db = (case refund_by_id db k of None \<Rightarrow> Inl Row_Missing
     | Some r \<Rightarrow> Inr (f r, save_refund (f r) db))"

definition complete_confirmed_refund :: "env \<Rightarrow> payment \<Rightarrow> refund \<Rightarrow> string \<Rightarrow> fin_db \<Rightarrow> refund \<times> fin_db" where
  "complete_confirmed_refund e p r reference db =
    (if rf_status r = Rf_Completed then (r, db)
     else let r' = r\<lparr>rf_reference := reference, rf_status := Rf_Completed, rf_completed_at := Some (now e)\<rparr>;
              db = create_transaction p ''refund'' (- rf_amount r') (save_refund r' db);
              db = (if refunded_in {Rf_Completed} db (py_id p) \<ge> py_amount p
                then save_payment (p\<lparr>py_status := Pay_Refunded\<rparr>) db else db)
       in (r', announce ''payment.refunded'' (py_id p) db))"

definition finalize_confirmed_refund :: "env \<Rightarrow> nat \<Rightarrow> nat \<Rightarrow> string \<Rightarrow> fin_db \<Rightarrow> pay_error + (refund \<times> fin_db)" where
  "finalize_confirmed_refund e w k reference db = (case refund_by_id db k of None \<Rightarrow> Inl Row_Missing
     | Some r \<Rightarrow> (case payment_of db w (rf_payment r) of None \<Rightarrow> Inl Row_Missing
       | Some p \<Rightarrow> Inr (complete_confirmed_refund e p r reference db)))"

definition create_refund :: "env \<Rightarrow> outside \<Rightarrow> nat \<Rightarrow> payment \<Rightarrow> rat \<Rightarrow> string \<Rightarrow> string \<Rightarrow> fin_db \<Rightarrow> (pay_error + refund) \<times> fin_db" where
  "create_refund e out w given amount reason key db =
    (if py_workspace given \<noteq> w then (Inl Wrong_Workspace, db)
     else if amount \<le> 0 then (Inl Amount_Not_Positive, db)
     else if strip key = [] \<or> 255 < length (strip key) then (Inl Bad_Key, db)
     else (case prepare_refund w (py_id given) amount reason (strip key) db of
         Inl err \<Rightarrow> (Inl err, db)
       | Inr (Replayed r, db) \<Rightarrow> (Inr r, db)
       | Inr (Confirmed r, db) \<Rightarrow> then_finish db (finalize_confirmed_refund e w (rf_id r) (rf_reference r) db)
       | Inr (Asked r p gw, db) \<Rightarrow> (case call_refund_gateway out gw p r of
           None \<Rightarrow> (Inl Gateway_Failed, snd (then_finish db (set_refund (rf_id r) (\<lambda>x. x\<lparr>rf_status := Rf_Processing\<rparr>) db)))
         | Some rp \<Rightarrow>
             if refund_confirmed rp then
               (let reference = confirmed_reference (rf_id r) rp in
                case set_refund (rf_id r) (\<lambda>x. x\<lparr>rf_reference := reference, rf_status := Rf_Processing\<rparr>) db of
                  Inl err \<Rightarrow> (Inl err, db)
                | Inr (_, db) \<Rightarrow> then_finish db (finalize_confirmed_refund e w (rf_id r) reference db))
             else (case set_refund (rf_id r) (\<lambda>x. x\<lparr>rf_reference := rp_reference rp,
                  rf_status := (if rp_success rp \<and> lower (rp_status rp) = ''pending'' then Rf_Pending else Rf_Failed)\<rparr>) db of
                  Inl err \<Rightarrow> (Inl err, db)
                | Inr (x, db) \<Rightarrow> if rf_status x = Rf_Pending then (Inr x, db) else (Inl Not_Confirmed, db)))))"

subsection \<open>What the gateway reports by itself\<close>

text \<open>\<open>None\<close> is the \<open>ValueError\<close> of an amount the currency has no places for, or none above nothing.\<close>

definition to_minor_units :: "rat \<Rightarrow> currency \<Rightarrow> int option" where
  "to_minor_units amount cur = (let quantized = quantize_half_even (decimal_places cur) amount;
       minor = quantized * 10 ^ decimal_places cur in
     if amount \<noteq> quantized then None
     else if of_int \<lfloor>minor\<rfloor> \<noteq> minor \<or> minor \<le> 0 then None
     else Some \<lfloor>minor\<rfloor>)"

definition currency_by_id :: "fin_db \<Rightarrow> nat \<Rightarrow> currency option" where
  "currency_by_id db c = first (filter (\<lambda>x. cur_id x = c) (currencies (base db)))"

text \<open>Whether the event is about what the payment is for; the minor units may raise.\<close>

definition event_matches :: "fin_db \<Rightarrow> gateway \<Rightarrow> payment \<Rightarrow> event_answer \<Rightarrow> pay_error + bool" where
  "event_matches db gw p ev =
    (if py_amount p \<le> 0 \<or> total_of_order db p \<notin> {None, Some (py_amount p)} \<or>
        total_of_invoice db p \<notin> {None, Some (py_amount p)} \<or>
        (gw_type gw = ''stripe'' \<and> (ev_minor ev = None \<or> ev_currency ev = [])) then Inr False
     else (case currency_by_id db (py_currency p) of None \<Rightarrow> Inl Row_Missing
       | Some cur \<Rightarrow> bind_r (case ev_minor ev of None \<Rightarrow> Inr True
            | Some n \<Rightarrow> (case to_minor_units (py_amount p) cur of None \<Rightarrow> Inl Bad_Minor_Units | Some m \<Rightarrow> Inr (n = m))) (\<lambda>same.
           Inr (same \<and> (ev_currency ev = [] \<or> upper (ev_currency ev) = upper (cur_code cur))))))"

definition mentions :: "string \<Rightarrow> string \<Rightarrow> bool" where
  "mentions word s = list_ex (\<lambda>k. take (length word) (drop k s) = word) [0 ..< length s]"

definition webhook_payment :: "fin_db \<Rightarrow> gateway \<Rightarrow> string \<Rightarrow> payment option" where
  "webhook_payment db gw reference =
     latest_by py_id (filter (\<lambda>p. py_gateway p = Some (gw_id gw) \<and> py_reference p = reference) (payments db))"

definition webhook_response :: "bool \<Rightarrow> response" where
  "webhook_response ok = \<lparr>rp_success = ok, rp_status = (if ok then ''succeeded'' else ''failed''), rp_reference = ''''\<rparr>"

text \<open>
  The payment is looked for on the whole deployment but locked in the caller's workspace for the
  completion.
\<close>

definition handle_webhook :: "env \<Rightarrow> outside \<Rightarrow> nat \<Rightarrow> gateway \<Rightarrow> string \<Rightarrow> string \<Rightarrow> fin_db \<Rightarrow> (pay_error + unit) \<times> fin_db" where
  "handle_webhook e out w gw type payload db = (case plugin_of out gw of None \<Rightarrow> (Inr (), db)
   | Some plugin \<Rightarrow>
     let ev = read_event plugin type payload in
     if \<not> ev_success ev \<or> ev_intent ev = [] then (Inr (), db)
     else (case webhook_payment db gw (ev_intent ev) of None \<Rightarrow> (Inr (), db)
     | Some p \<Rightarrow> (case event_matches db gw p ev of
         Inl err \<Rightarrow> (Inl err, db)
       | Inr False \<Rightarrow> (Inr (), db)
       | Inr True \<Rightarrow>
           if py_status p \<notin> {Pay_Pending, Pay_Processing} then (Inr (), db)
           else if mentions ''succeeded'' (lower type) then
             (let db = save_payment (p\<lparr>py_status := Pay_Processing, py_response := webhook_response True\<rparr>) db;
                  (res, db) = then_finish db (complete_confirmed_payment e out w (py_id p) (py_status p) db)
              in (map_sum id (\<lambda>_. ()) res, db))
           else if mentions ''failed'' (lower type) then
             (Inr (), announce ''payment.failed'' (py_id p)
                (save_payment (p\<lparr>py_status := Pay_Failed, py_response := webhook_response False\<rparr>) db))
           else (Inr (), db))))"

end
