(* ===== verification/Payment_Books.thy ===== *)
theory Payment_Books
  imports Payments
begin

text \<open>
  The books of the payments. What is promised of them is an abstract machine of six kinds of steps
  (\<open>book_step\<close>: start, touch, book, reserve, move, give back) that keeps \<open>books_ok\<close>; the calls of
  \<open>PaymentService\<close>, each one whole, are shown to be runs of it, so that what the machine keeps holds
  after any calls. Between the transactions of one call another may run: what that does to the
  books is at the end.
\<close>

subsection \<open>What the books say of a payment\<close>

abbreviation closed :: "payment \<Rightarrow> bool" where
  "closed p \<equiv> py_status p \<in> {Pay_Completed, Pay_Refunded}"

abbreviation reserved_of :: "fin_db \<Rightarrow> nat \<Rightarrow> rat" where
  "reserved_of \<equiv> refunded_in {Rf_Pending, Rf_Processing, Rf_Completed}"

definition ledger_of :: "fin_db \<Rightarrow> nat \<Rightarrow> ledger_row list" where
  "ledger_of db i = filter (\<lambda>l. lg_payment l = i) (ledger db)"

definition bookings :: "fin_db \<Rightarrow> nat \<Rightarrow> nat" where
  "bookings db i = count_where (\<lambda>l. lg_type l = ''payment'') (ledger_of db i)"

definition balance :: "fin_db \<Rightarrow> nat \<Rightarrow> rat" where
  "balance db i = (\<Sum>l\<leftarrow>ledger_of db i. lg_amount l)"

definition payment_books :: "fin_db \<Rightarrow> payment \<Rightarrow> bool" where
  "payment_books db p \<longleftrightarrow> 0 < py_amount p \<and> reserved_of db (py_id p) \<le> py_amount p \<and>
     balance db (py_id p) = of_nat (bookings db (py_id p)) * py_amount p - refunded_in {Rf_Completed} db (py_id p) \<and>
     (if closed p then response_succeeded (py_response p) \<and> 0 < bookings db (py_id p)
      else refunds_of db (py_id p) = [] \<and> bookings db (py_id p) = 0)"

definition books_ok :: "fin_db \<Rightarrow> bool" where
  "books_ok db \<longleftrightarrow> distinct (map py_id (payments db)) \<and> distinct (map rf_id (refunds db)) \<and>
     distinct (map (\<lambda>r. (rf_payment r, rf_key r)) (refunds db)) \<and>
     (\<forall>r \<in> set (refunds db). rf_payment r \<in> py_id ` set (payments db) \<and> 0 < rf_amount r) \<and>
     (\<forall>l \<in> set (ledger db). lg_payment l \<in> py_id ` set (payments db)) \<and>
     (\<forall>p \<in> set (payments db). payment_books db p)"

lemma refunded_in_of: "refunded_in sts db i = (\<Sum>r\<leftarrow>refunds_of db i. if rf_status r \<in> sts then rf_amount r else 0)"
proof -
  have "(\<Sum>r\<leftarrow>rs. if rf_payment r = i \<and> rf_status r \<in> sts then rf_amount r else 0) =
    (\<Sum>r\<leftarrow>filter (\<lambda>r. rf_payment r = i) rs. if rf_status r \<in> sts then rf_amount r else 0)" for rs
    by (induction rs) auto
  then show ?thesis by (simp only: refunded_in_def refunds_of_def)
qed

lemma payment_books_cong:
  assumes "refunds_of db' (py_id p) = refunds_of db (py_id p)" "ledger_of db' (py_id p) = ledger_of db (py_id p)"
    "py_id p' = py_id p" "py_amount p' = py_amount p" "closed p' = closed p" "closed p \<Longrightarrow> py_response p' = py_response p"
  shows "payment_books db' p' = payment_books db p"
  using assms by (simp add: payment_books_def refunded_in_of bookings_def balance_def)

lemma refunds_of_append: "refunds db' = refunds db @ [r] \<Longrightarrow>
    refunds_of db' i = refunds_of db i @ (if rf_payment r = i then [r] else [])"
  by (simp add: refunds_of_def)

lemma ledger_of_append: "ledger db' = ledger db @ [l] \<Longrightarrow>
    ledger_of db' i = ledger_of db i @ (if lg_payment l = i then [l] else [])"
  by (simp add: ledger_of_def)

lemma refunds_of_same: "refunds db' = refunds db \<Longrightarrow> refunds_of db' i = refunds_of db i"
  by (simp add: refunds_of_def)

lemma ledger_of_same: "ledger db' = ledger db \<Longrightarrow> ledger_of db' i = ledger_of db i"
  by (simp add: ledger_of_def)

lemma filter_update_other:
  "distinct (map key xs) \<Longrightarrow> r \<in> set xs \<Longrightarrow> \<not> P r \<Longrightarrow> \<not> P r' \<Longrightarrow>
    filter P (update_where (\<lambda>x. key x = key r) (\<lambda>_. r') xs) = filter P xs"
proof (induction xs)
  case (Cons a xs)
  show ?case
  proof (cases "a = r")
    case True
    with Cons.prems have "key r \<notin> key ` set xs" by simp
    with True Cons.prems show ?thesis by (simp add: table_simps update_where_key_none)
  next
    case False
    with Cons.prems have "r \<in> set xs" "key a \<noteq> key r" by auto
    with Cons show ?thesis by (simp add: table_simps)
  qed
qed simp

lemma update_members:
  "x \<in> set (update_where (\<lambda>x. key x = key p) (\<lambda>_. p') xs) \<Longrightarrow> x = p' \<or> x \<in> set xs \<and> key x \<noteq> key p"
  by (auto simp: set_update_where split: if_splits)

lemma update_keys: "f p' = f p \<Longrightarrow> distinct (map key xs) \<Longrightarrow> p \<in> set xs \<Longrightarrow>
    map f (update_where (\<lambda>x. key x = key p) (\<lambda>_. p') xs) = map f xs"
  by (induction xs) (auto simp: table_simps update_where_key_none)

subsection \<open>The abstract machine\<close>

inductive book_step :: "fin_db \<Rightarrow> fin_db \<Rightarrow> bool" where
  start: "py_id p \<notin> py_id ` set (payments db) \<Longrightarrow> \<not> closed p \<Longrightarrow> 0 < py_amount p \<Longrightarrow> payments db' = payments db @ [p] \<Longrightarrow>
    refunds db' = refunds db \<Longrightarrow> ledger db' = ledger db \<Longrightarrow> book_step db db'"
| touch: "p \<in> set (payments db) \<Longrightarrow> \<not> closed p \<Longrightarrow> \<not> closed p' \<Longrightarrow> py_id p' = py_id p \<Longrightarrow> py_amount p' = py_amount p \<Longrightarrow>
    payments db' = update_where (\<lambda>x. py_id x = py_id p) (\<lambda>_. p') (payments db) \<Longrightarrow>
    refunds db' = refunds db \<Longrightarrow> ledger db' = ledger db \<Longrightarrow> book_step db db'"
| book: "p \<in> set (payments db) \<Longrightarrow> closed p' \<Longrightarrow> response_succeeded (py_response p') \<Longrightarrow> py_id p' = py_id p \<Longrightarrow>
    py_amount p' = py_amount p \<Longrightarrow> payments db' = update_where (\<lambda>x. py_id x = py_id p) (\<lambda>_. p') (payments db) \<Longrightarrow>
    refunds db' = refunds db \<Longrightarrow> ledger db' = ledger db @ [l] \<Longrightarrow> lg_payment l = py_id p \<Longrightarrow> lg_type l = ''payment'' \<Longrightarrow>
    lg_amount l = py_amount p \<Longrightarrow> book_step db db'"
| reserve: "p \<in> set (payments db) \<Longrightarrow> closed p \<Longrightarrow> rf_payment r = py_id p \<Longrightarrow> rf_id r \<notin> rf_id ` set (refunds db) \<Longrightarrow>
    rf_key r \<notin> rf_key ` set (refunds_of db (py_id p)) \<Longrightarrow> 0 < rf_amount r \<Longrightarrow> rf_status r = Rf_Processing \<Longrightarrow>
    reserved_of db (py_id p) + rf_amount r \<le> py_amount p \<Longrightarrow> refunds db' = refunds db @ [r] \<Longrightarrow>
    payments db' = payments db \<Longrightarrow> ledger db' = ledger db \<Longrightarrow> book_step db db'"
| move: "r \<in> set (refunds db) \<Longrightarrow> rf_status r = Rf_Processing \<Longrightarrow> rf_status r' \<noteq> Rf_Completed \<Longrightarrow> rf_id r' = rf_id r \<Longrightarrow>
    rf_payment r' = rf_payment r \<Longrightarrow> rf_key r' = rf_key r \<Longrightarrow> rf_amount r' = rf_amount r \<Longrightarrow>
    refunds db' = update_where (\<lambda>x. rf_id x = rf_id r) (\<lambda>_. r') (refunds db) \<Longrightarrow>
    payments db' = payments db \<Longrightarrow> ledger db' = ledger db \<Longrightarrow> book_step db db'"
| give: "r \<in> set (refunds db) \<Longrightarrow> rf_status r = Rf_Processing \<Longrightarrow> rf_status r' = Rf_Completed \<Longrightarrow> rf_id r' = rf_id r \<Longrightarrow>
    rf_payment r' = rf_payment r \<Longrightarrow> rf_key r' = rf_key r \<Longrightarrow> rf_amount r' = rf_amount r \<Longrightarrow>
    refunds db' = update_where (\<lambda>x. rf_id x = rf_id r) (\<lambda>_. r') (refunds db) \<Longrightarrow>
    p \<in> set (payments db) \<Longrightarrow> py_id p = rf_payment r \<Longrightarrow> p' \<in> {p, p\<lparr>py_status := Pay_Refunded\<rparr>} \<Longrightarrow>
    payments db' = update_where (\<lambda>x. py_id x = py_id p) (\<lambda>_. p') (payments db) \<Longrightarrow>
    ledger db' = ledger db @ [l] \<Longrightarrow> lg_payment l = rf_payment r \<Longrightarrow> lg_type l = ''refund'' \<Longrightarrow> lg_amount l = - rf_amount r \<Longrightarrow>
    book_step db db'"

subsection \<open>The machine keeps the books\<close>

text \<open>A payment whose refunds and ledger rows are what they were is kept as it was.\<close>

lemma kept_books:
  assumes "books_ok db" "q \<in> set (payments db)" "refunds_of db' (py_id q) = refunds_of db (py_id q)"
    "ledger_of db' (py_id q) = ledger_of db (py_id q)"
  shows "payment_books db' q"
  using assms payment_books_cong [of db' q db q] by (simp add: books_ok_def)

lemma refunded_in_update:
  assumes "distinct (map rf_id (refunds db))" "r \<in> set (refunds db)" "rf_payment r' = rf_payment r" "rf_amount r' = rf_amount r"
    "refunds db' = update_where (\<lambda>x. rf_id x = rf_id r) (\<lambda>_. r') (refunds db)"
  shows "refunded_in sts db' (rf_payment r) = refunded_in sts db (rf_payment r) +
    (if rf_status r' \<in> sts then rf_amount r else 0) - (if rf_status r \<in> sts then rf_amount r else 0)"
  unfolding refunded_in_def assms(5)
  by (subst sum_update_where [OF assms(1,2)]) (simp add: assms(3,4))

lemma refunds_of_update_other:
  assumes "distinct (map rf_id (refunds db))" "r \<in> set (refunds db)" "rf_payment r' = rf_payment r" "rf_payment r \<noteq> i"
    "refunds db' = update_where (\<lambda>x. rf_id x = rf_id r) (\<lambda>_. r') (refunds db)"
  shows "refunds_of db' i = refunds_of db i"
  unfolding refunds_of_def assms(5) by (rule filter_update_other [OF assms(1,2)]) (use assms in simp_all)

lemma refunds_of_touched:
  assumes "r \<in> set (refunds db)" "rf_payment r = i"
  shows "refunds_of db i \<noteq> []"
  using assms by (auto simp: refunds_of_def filter_empty_conv)

lemma no_refunds_of: "books_ok db \<Longrightarrow> i \<notin> py_id ` set (payments db) \<Longrightarrow> refunds_of db i = [] \<and> ledger_of db i = []"
  by (fastforce simp: books_ok_def refunds_of_def ledger_of_def filter_empty_conv)

lemma step_start:
  assumes "books_ok db" "py_id p \<notin> py_id ` set (payments db)" "\<not> closed p" "0 < py_amount p" "payments db' = payments db @ [p]"
    "refunds db' = refunds db" "ledger db' = ledger db"
  shows "books_ok db'"
proof -
  have "payment_books db' p" using no_refunds_of [OF assms(1,2)] assms(3,4)
    by (simp add: payment_books_def refunded_in_of bookings_def balance_def table_simps refunds_of_same [OF assms(6)] ledger_of_same [OF assms(7)])
  moreover have "payment_books db' q" if "q \<in> set (payments db)" for q
    by (rule kept_books [OF assms(1) that]) (simp_all add: refunds_of_same [OF assms(6)] ledger_of_same [OF assms(7)])
  ultimately show ?thesis using assms by (auto simp: books_ok_def)
qed

lemma step_touch:
  assumes "books_ok db" "p \<in> set (payments db)" "\<not> closed p" "\<not> closed p'" "py_id p' = py_id p" "py_amount p' = py_amount p"
    "payments db' = update_where (\<lambda>x. py_id x = py_id p) (\<lambda>_. p') (payments db)" "refunds db' = refunds db" "ledger db' = ledger db"
  shows "books_ok db'"
proof -
  have k: "refunds_of db' i = refunds_of db i" "ledger_of db' i = ledger_of db i" for i
    by (rule refunds_of_same, rule assms(8)) (rule ledger_of_same, rule assms(9))
  have ids: "map py_id (payments db') = map py_id (payments db)"
    unfolding assms(7) by (rule update_keys) (use assms in \<open>simp_all add: books_ok_def\<close>)
  have "payment_books db' p'" using payment_books_cong [of db' p db p'] assms k by (simp add: books_ok_def)
  moreover have "payment_books db' q" if "q \<in> set (payments db)" for q by (rule kept_books [OF assms(1) that]) (rule k)+
  ultimately have "\<forall>q \<in> set (payments db'). payment_books db' q" using assms(7) update_members by metis
  moreover have "py_id ` set (payments db') = py_id ` set (payments db)" using ids by (metis set_map)
  ultimately show ?thesis using assms(1,8,9) ids by (simp add: books_ok_def)
qed

lemma step_book:
  assumes "books_ok db" "p \<in> set (payments db)" "closed p'" "response_succeeded (py_response p')" "py_id p' = py_id p"
    "py_amount p' = py_amount p" "payments db' = update_where (\<lambda>x. py_id x = py_id p) (\<lambda>_. p') (payments db)"
    "refunds db' = refunds db" "ledger db' = ledger db @ [l]" "lg_payment l = py_id p" "lg_type l = ''payment''" "lg_amount l = py_amount p"
  shows "books_ok db'"
proof -
  have r: "refunds_of db' i = refunds_of db i" for i using assms(8) by (rule refunds_of_same)
  have l: "ledger_of db' i = ledger_of db i @ (if i = py_id p then [l] else [])" for i
    using ledger_of_append [OF assms(9)] assms(10) by simp
  have ids: "map py_id (payments db') = map py_id (payments db)"
    unfolding assms(7) by (rule update_keys) (use assms in \<open>simp_all add: books_ok_def\<close>)
  have p: "payment_books db p" using assms(1,2) by (simp add: books_ok_def)
  have b: "bookings db' (py_id p) = Suc (bookings db (py_id p))" "balance db' (py_id p) = balance db (py_id p) + py_amount p"
    using assms(11,12) by (simp_all add: bookings_def balance_def l count_where_def)
  have s: "refunded_in sts db' i = refunded_in sts db i" for sts i by (simp add: refunded_in_of r)
  from p have "payment_books db' p'" using assms(3-6)
    by (simp add: payment_books_def b s field_simps)
  moreover have "payment_books db' q" if "q \<in> set (payments db)" "py_id q \<noteq> py_id p" for q
    by (rule kept_books [OF assms(1) that(1)]) (use that in \<open>simp_all add: r l\<close>)
  ultimately have "\<forall>q \<in> set (payments db'). payment_books db' q" using assms(7) update_members by metis
  moreover have "py_id ` set (payments db') = py_id ` set (payments db)" using ids by (metis set_map)
  ultimately show ?thesis using assms(1,2,8,9,10) ids by (auto simp: books_ok_def)
qed

lemma step_reserve:
  assumes "books_ok db" "p \<in> set (payments db)" "closed p" "rf_payment r = py_id p" "rf_id r \<notin> rf_id ` set (refunds db)"
    "rf_key r \<notin> rf_key ` set (refunds_of db (py_id p))" "0 < rf_amount r" "rf_status r = Rf_Processing"
    "reserved_of db (py_id p) + rf_amount r \<le> py_amount p" "refunds db' = refunds db @ [r]"
    "payments db' = payments db" "ledger db' = ledger db"
  shows "books_ok db'"
proof -
  have l: "ledger_of db' i = ledger_of db i" for i using assms(12) by (rule ledger_of_same)
  have r: "refunds_of db' i = refunds_of db i @ (if i = py_id p then [r] else [])" for i
    using refunds_of_append [OF assms(10)] assms(4) by simp
  have s: "refunded_in sts db' (py_id p) = refunded_in sts db (py_id p) + (if Rf_Processing \<in> sts then rf_amount r else 0)" for sts
    by (simp add: refunded_in_of r assms(8))
  have key: "(rf_payment r, rf_key r) \<notin> (\<lambda>r. (rf_payment r, rf_key r)) ` set (refunds db)"
    using assms(4,6) by (auto simp: refunds_of_def image_iff)
  have "payment_books db p" using assms(1,2) by (simp add: books_ok_def)
  then have "payment_books db' p" using assms(3,9) by (simp add: payment_books_def s bookings_def balance_def l)
  moreover have "payment_books db' q" if "q \<in> set (payments db)" "py_id q \<noteq> py_id p" for q
    by (rule kept_books [OF assms(1) that(1)]) (use that in \<open>simp_all add: r l\<close>)
  moreover have "q = p" if "q \<in> set (payments db)" "py_id q = py_id p" for q
    using that assms(1,2) by (auto simp: books_ok_def distinct_map dest: inj_onD)
  ultimately have "\<forall>q \<in> set (payments db'). payment_books db' q" using assms(11) by metis
  then show ?thesis using assms(1,2,4,5,7,10-12) key by (auto simp: books_ok_def)
qed

lemma refund_row_update:
  assumes "books_ok db" "r \<in> set (refunds db)" "rf_id r' = rf_id r" "rf_payment r' = rf_payment r" "rf_key r' = rf_key r"
    "rf_amount r' = rf_amount r" "refunds db' = update_where (\<lambda>x. rf_id x = rf_id r) (\<lambda>_. r') (refunds db)"
  shows "distinct (map rf_id (refunds db'))" "distinct (map (\<lambda>r. (rf_payment r, rf_key r)) (refunds db'))"
    "\<forall>r \<in> set (refunds db'). rf_payment r \<in> py_id ` set (payments db) \<and> 0 < rf_amount r"
    "refunded_in sts db' (rf_payment r) = refunded_in sts db (rf_payment r) +
      (if rf_status r' \<in> sts then rf_amount r else 0) - (if rf_status r \<in> sts then rf_amount r else 0)"
    "rf_payment r \<noteq> i \<Longrightarrow> refunds_of db' i = refunds_of db i"
proof -
  have d: "distinct (map rf_id (refunds db))" using assms(1) by (simp add: books_ok_def)
  show "distinct (map rf_id (refunds db'))" "distinct (map (\<lambda>r. (rf_payment r, rf_key r)) (refunds db'))"
    unfolding assms(7) by (subst update_keys [OF _ d assms(2)]; use assms in \<open>simp add: books_ok_def\<close>)+
  show "\<forall>r \<in> set (refunds db'). rf_payment r \<in> py_id ` set (payments db) \<and> 0 < rf_amount r"
  proof
    fix x assume "x \<in> set (refunds db')"
    then have "x = r' \<or> x \<in> set (refunds db)" unfolding assms(7) using update_members by metis
    with assms(1,2,4,6) show "rf_payment x \<in> py_id ` set (payments db) \<and> 0 < rf_amount x" by (auto simp: books_ok_def)
  qed
  show "refunded_in sts db' (rf_payment r) = refunded_in sts db (rf_payment r) +
      (if rf_status r' \<in> sts then rf_amount r else 0) - (if rf_status r \<in> sts then rf_amount r else 0)"
    by (rule refunded_in_update [OF d assms(2,4,6,7)])
  show "refunds_of db' i = refunds_of db i" if "rf_payment r \<noteq> i"
    by (rule refunds_of_update_other [OF d assms(2,4) that assms(7)])
qed

lemma refunded_is_closed:
  assumes "books_ok db" "r \<in> set (refunds db)" "p \<in> set (payments db)" "py_id p = rf_payment r"
  shows "closed p"
proof (rule ccontr)
  assume "\<not> closed p"
  with assms(1,3) have "refunds_of db (py_id p) = []" by (auto simp: books_ok_def payment_books_def)
  with assms(2,4) show False by (auto simp: refunds_of_def filter_empty_conv)
qed

lemma same_payment:
  "books_ok db \<Longrightarrow> p \<in> set (payments db) \<Longrightarrow> q \<in> set (payments db) \<Longrightarrow> py_id q = py_id p \<Longrightarrow> q = p"
  by (auto simp: books_ok_def distinct_map dest: inj_onD)

lemma step_move:
  assumes "books_ok db" "r \<in> set (refunds db)" "rf_status r = Rf_Processing" "rf_status r' \<noteq> Rf_Completed" "rf_id r' = rf_id r"
    "rf_payment r' = rf_payment r" "rf_key r' = rf_key r" "rf_amount r' = rf_amount r"
    "refunds db' = update_where (\<lambda>x. rf_id x = rf_id r) (\<lambda>_. r') (refunds db)" "payments db' = payments db" "ledger db' = ledger db"
  shows "books_ok db'"
proof -
  note u = refund_row_update [OF assms(1,2,5-9)]
  have l: "ledger_of db' i = ledger_of db i" for i using assms(11) by (rule ledger_of_same)
  have "payment_books db' p" if "p \<in> set (payments db)" for p
  proof (cases "py_id p = rf_payment r")
    case True
    have "payment_books db p" "closed p" "0 < rf_amount r"
      using assms(1) that refunded_is_closed [OF assms(1,2) that True] assms(2) by (auto simp: books_ok_def)
    with True show ?thesis using assms(3,4) by (auto simp: payment_books_def u(4) bookings_def balance_def l)
  next
    case False
    show ?thesis by (rule kept_books [OF assms(1) that]) (use u(5) False l in auto)
  qed
  then show ?thesis using u(1-3) assms(1,10,11) by (simp add: books_ok_def)
qed

lemma step_give:
  assumes "books_ok db" "r \<in> set (refunds db)" "rf_status r = Rf_Processing" "rf_status r' = Rf_Completed" "rf_id r' = rf_id r"
    "rf_payment r' = rf_payment r" "rf_key r' = rf_key r" "rf_amount r' = rf_amount r"
    "refunds db' = update_where (\<lambda>x. rf_id x = rf_id r) (\<lambda>_. r') (refunds db)"
    "p \<in> set (payments db)" "py_id p = rf_payment r" "p' \<in> {p, p\<lparr>py_status := Pay_Refunded\<rparr>}"
    "payments db' = update_where (\<lambda>x. py_id x = py_id p) (\<lambda>_. p') (payments db)"
    "ledger db' = ledger db @ [l]" "lg_payment l = rf_payment r" "lg_type l = ''refund''" "lg_amount l = - rf_amount r"
  shows "books_ok db'"
proof -
  note u = refund_row_update [OF assms(1,2,5-9)]
  have p': "py_id p' = py_id p" "py_amount p' = py_amount p" "py_response p' = py_response p" using assms(12) by auto
  have cl: "closed p" by (rule refunded_is_closed [OF assms(1,2,10,11)])
  have l: "ledger_of db' i = ledger_of db i @ (if i = rf_payment r then [l] else [])" for i
    using ledger_of_append [OF assms(14)] assms(15) by simp
  have b: "bookings db' (py_id p) = bookings db (py_id p)" "balance db' (py_id p) = balance db (py_id p) - rf_amount r"
    using assms(11,16,17) by (simp_all add: bookings_def balance_def l count_where_def)
  have ids: "map py_id (payments db') = map py_id (payments db)"
    unfolding assms(13) by (rule update_keys) (use assms p' in \<open>simp_all add: books_ok_def\<close>)
  have "payment_books db p" using assms(1,10) by (simp add: books_ok_def)
  then have "payment_books db' p'" using cl assms(3,4,11,12) u(4)
    by (auto simp: payment_books_def p' b [unfolded assms(11)])
  moreover have "payment_books db' q" if "q \<in> set (payments db)" "py_id q \<noteq> py_id p" for q
    by (rule kept_books [OF assms(1) that(1)]) (use that assms(11) u(5) in \<open>simp_all add: l\<close>)
  ultimately have "\<forall>q \<in> set (payments db'). payment_books db' q" using assms(13) update_members by metis
  moreover have "py_id ` set (payments db') = py_id ` set (payments db)" using ids by (metis set_map)
  moreover have "rf_payment r \<in> py_id ` set (payments db)" using assms(10,11) by force
  ultimately show ?thesis using assms(1,14,15) u(1-3) ids by (auto simp: books_ok_def)
qed

lemma book_step_keeps: "book_step db db' \<Longrightarrow> books_ok db \<Longrightarrow> books_ok db'"
  by (induction rule: book_step.induct)
    ((rule step_start; assumption), (rule step_touch; assumption), (rule step_book; assumption),
     (rule step_reserve; assumption), (rule step_move; assumption), (rule step_give; assumption))

interpretation book_machine: state_machine book_step books_ok
  by unfold_locales (rule book_step_keeps; assumption)

subsection \<open>What settling leaves alone\<close>

lemma payment_of_Some: "payment_of db w i = Some p \<Longrightarrow> p \<in> set (payments db) \<and> py_id p = i \<and> py_workspace p = w"
  by (auto simp: payment_of_def dest: first_filter_SomeD)

lemma refund_by_id_Some: "refund_by_id db k = Some r \<Longrightarrow> r \<in> set (refunds db) \<and> rf_id r = k"
  by (auto simp: refund_by_id_def dest: first_filter_SomeD)

lemma save_payment_simps [simp]: "refunds (save_payment p db) = refunds db" "ledger (save_payment p db) = ledger db"
  "base (save_payment p db) = base db" "shop (save_payment p db) = shop db"
  by (simp_all add: save_payment_def)

lemma save_refund_simps [simp]: "payments (save_refund r db) = payments db" "ledger (save_refund r db) = ledger db"
  by (simp_all add: save_refund_def)

lemma announce_simps [simp]: "payments (announce n i db) = payments db" "refunds (announce n i db) = refunds db"
  "ledger (announce n i db) = ledger db" "base (announce n i db) = base db"
  by (simp_all add: announce_def)

lemma create_transaction_simps [simp]: "payments (create_transaction p t x db) = payments db"
  "refunds (create_transaction p t x db) = refunds db" "base (create_transaction p t x db) = base db"
  by (simp_all add: create_transaction_def)

lemma settle_order_frame:
  "settle_order e w p db = Inr db' \<Longrightarrow> payments db' = payments db \<and> refunds db' = refunds db \<and> ledger db' = ledger db \<and> base db' = base db"
  by (auto simp: settle_order_def split: option.splits sum.splits)

lemma update_consignment_frame:
  "update_consignment_status out w i new db = Inr db' \<Longrightarrow>
    payments db' = payments db \<and> refunds db' = refunds db \<and> ledger db' = ledger db \<and> base db' = base db"
  by (auto simp: update_consignment_status_def Let_def split: if_splits)

lemma settle_invoice_frame:
  "settle_invoice e out w p db = Inr db' \<Longrightarrow> payments db' = payments db \<and> refunds db' = refunds db \<and> ledger db' = ledger db"
  by (auto simp: settle_invoice_def bind_r_Inr dest!: update_consignment_frame split: option.splits sum.splits)

abbreviation booked_row :: "payment \<Rightarrow> ledger_row" where
  "booked_row p \<equiv> \<lparr>lg_payment = py_id p, lg_type = ''payment'', lg_amount = py_amount p, lg_customer = py_customer p,
     lg_currency = py_currency p, lg_invoice = py_invoice p\<rparr>"

abbreviation completed_at :: "env \<Rightarrow> payment \<Rightarrow> payment" where
  "completed_at e p \<equiv> p\<lparr>py_status := Pay_Completed, py_completed_at := Some (now e)\<rparr>"

lemma complete_payment_spec:
  assumes "complete_confirmed_payment e out w i old db = Inr (p', db')"
  shows "\<exists>p. payment_of db w i = Some p \<and> (if py_status p = Pay_Completed then p' = p \<and> db' = db
    else response_succeeded (py_response p) \<and> p' = completed_at e p \<and>
      payments db' = update_where (\<lambda>x. py_id x = i) (\<lambda>_. p') (payments db) \<and> refunds db' = refunds db \<and>
      ledger db' = ledger db @ [booked_row p])"
proof -
  from assms obtain p where p: "payment_of db w i = Some p" by (auto simp: complete_confirmed_payment_def split: option.splits)
  show ?thesis
  proof (cases "py_status p = Pay_Completed")
    case True
    with assms p show ?thesis by (auto simp: complete_confirmed_payment_def)
  next
    case False
    with assms p obtain d1 d2 where s: "response_succeeded (py_response p)" "p' = completed_at e p"
      "settle_order e w p' (create_transaction p' ''payment'' (py_amount p') (save_payment p' db)) = Inr d1"
      "settle_invoice e out w p' d1 = Inr d2"
      "db' = announce ''payment.completed'' i (d2\<lparr>pay_audits := pay_audits d2 @ [(i, old)],
         base := on_payment_completed e (base d2) (py_invoice p')\<rparr>)"
      by (auto simp: complete_confirmed_payment_def Let_def bind_r_Inr split: if_splits)
    have "py_id p = i" using payment_of_Some [OF p] by simp
    then show ?thesis using p False s(1,2) settle_order_frame [OF s(3)] settle_invoice_frame [OF s(4)] unfolding s(5)
      by (simp add: create_transaction_def save_payment_def)
  qed
qed

lemma complete_payment_runs:
  assumes "complete_confirmed_payment e out w i old db = Inr (p', db')"
  shows "book_step\<^sup>*\<^sup>* db db'"
proof -
  from complete_payment_spec [OF assms] obtain p where p: "payment_of db w i = Some p"
    "if py_status p = Pay_Completed then p' = p \<and> db' = db
     else response_succeeded (py_response p) \<and> p' = completed_at e p \<and>
      payments db' = update_where (\<lambda>x. py_id x = i) (\<lambda>_. p') (payments db) \<and> refunds db' = refunds db \<and>
      ledger db' = ledger db @ [booked_row p]" by blast
  show ?thesis
  proof (cases "py_status p = Pay_Completed")
    case False
    with p payment_of_Some [OF p(1)] have "book_step db db'"
      by (intro book_step.book [of p db p' db' "booked_row p"]) auto
    then show ?thesis by (rule r_into_rtranclp)
  qed (use p in simp)
qed

lemma then_finish_runs:
  assumes "then_finish db r = (res, db')" "\<And>x d. r = Inr (x, d) \<Longrightarrow> book_step\<^sup>*\<^sup>* db d"
  shows "book_step\<^sup>*\<^sup>* db db'"
  using assms by (auto simp: then_finish_def split: sum.splits)

lemma touch_runs:
  assumes "p \<in> set (payments db)" "\<not> closed p" "\<not> closed p'" "py_id p' = py_id p" "py_amount p' = py_amount p"
  shows "book_step\<^sup>*\<^sup>* db (save_payment p' db)"
  by (rule r_into_rtranclp, rule book_step.touch [OF assms]) (simp_all add: save_payment_def assms(4))

lemma check_Inr: "check cs = Inr () \<longleftrightarrow> (\<forall>c \<in> set cs. \<not> fst c)"
  by (auto simp: check_def split: option.splits dest: first_filter_SomeD) (auto simp: filter_empty_conv)

lemma closed_succeeded: "books_ok db \<Longrightarrow> p \<in> set (payments db) \<Longrightarrow> closed p \<Longrightarrow> response_succeeded (py_response p)"
  by (auto simp: books_ok_def payment_books_def)

lemma answered_open: "answered_status rp \<notin> {Pay_Completed, Pay_Refunded}"
  by (simp add: answered_status_def)

subsection \<open>The calls are runs of the machine\<close>

lemma claim_cases:
  assumes "claim_payment w i manual db = Inr (c, db')"
  obtains p where "payment_of db w i = Some p" "c = Already p" "db' = db" "py_status p = Pay_Completed"
  | p where "payment_of db w i = Some p" "c = Stored (py_status p)" "db' = db" "py_status p \<noteq> Pay_Completed" "response_succeeded (py_response p)"
  | p gw where "payment_of db w i = Some p" "c = Claimed (p\<lparr>py_status := Pay_Processing\<rparr>) gw (py_status p)"
      "db' = save_payment (p\<lparr>py_status := Pay_Processing\<rparr>) db" "py_status p \<noteq> Pay_Completed" "\<not> response_succeeded (py_response p)"
      "linked_gateway db p = Some gw" "py_status p = Pay_Processing \<Longrightarrow> manual"
proof -
  from assms obtain p where p: "payment_of db w i = Some p" by (auto simp: claim_payment_def split: option.splits)
  show thesis
  proof (cases "py_status p = Pay_Completed \<or> response_succeeded (py_response p)")
    case True
    with assms p that(1,2) show thesis by (auto simp: claim_payment_def split: if_splits)
  next
    case False
    with assms p that(3) show thesis by (auto simp: claim_payment_def Let_def bind_r_Inr check_Inr)
  qed
qed

lemma payment_of_save:
  assumes "books_ok db" "payment_of db w i = Some p" "py_id p' = py_id p" "py_workspace p' = py_workspace p"
  shows "payment_of (save_payment p' db) w i = Some p'"
  using first_filter_update [of py_id "payments db" p p' "\<lambda>p. py_id p = i \<and> py_workspace p = w"] assms payment_of_Some [OF assms(2)]
  by (simp add: payment_of_def save_payment_def books_ok_def)

lemma touch_books: "books_ok db \<Longrightarrow> book_step\<^sup>*\<^sup>* db db' \<Longrightarrow> books_ok db'"
  by (rule book_machine.reachable_inv)

lemma process_runs:
  assumes "books_ok db" "process_payment e out w given d manual db = (res, db')"
  shows "book_step\<^sup>*\<^sup>* db db'"
proof (cases "py_workspace given = w")
  case True
  let ?i = "py_id given"
  show ?thesis
  proof (cases "claim_payment w ?i manual db")
    case (Inr cd)
    obtain c db1 where cd: "cd = (c, db1)" by fastforce
    from Inr cd have "claim_payment w ?i manual db = Inr (c, db1)" by simp
    then show ?thesis
    proof (cases rule: claim_cases)
      case (1 p)
      with assms(2) True Inr cd show ?thesis by (simp add: process_payment_def)
    next
      case (2 p)
      with assms(2) True Inr cd have "then_finish db (complete_confirmed_payment e out w ?i (py_status p) db) = (res, db')"
        by (simp add: process_payment_def)
      then show ?thesis by (rule then_finish_runs) (rule complete_payment_runs)
    next
      case (3 p gw)
      let ?p = "p\<lparr>py_status := Pay_Processing\<rparr>"
      have p: "p \<in> set (payments db)" "py_id p = ?i" "py_workspace p = w" using payment_of_Some [OF 3(1)] by simp_all
      have op: "\<not> closed p" using closed_succeeded [OF assms(1) p(1)] 3(4,5) by auto
      have r1: "book_step\<^sup>*\<^sup>* db db1" unfolding 3(3) by (rule touch_runs [OF p(1) op]) simp_all
      have p1: "payment_of db1 w ?i = Some ?p" unfolding 3(3) by (rule payment_of_save [OF assms(1) 3(1)]) simp_all
      have m1: "?p \<in> set (payments db1)" using payment_of_Some [OF p1] by simp
      have "book_step\<^sup>*\<^sup>* db1 db'"
      proof (cases "gateway_answer out manual gw ?p d")
        case None
        with assms(2) True Inr cd 3(2) p1 have "db' = save_payment (?p\<lparr>py_status := (if manual then Pay_Failed else Pay_Processing), py_response := no_response\<rparr>) db1"
          by (simp add: process_payment_def record_failure_def)
        then show ?thesis using touch_runs [OF m1] by simp
      next
        case (Some rp)
        let ?q = "?p\<lparr>py_reference := rp_reference rp, py_response := rp, py_status := answered_status rp\<rparr>"
        have rec: "record_answer w ?i rp db1 = Inr (?q, save_payment ?q db1)" using p1 by (simp add: record_answer_def Let_def)
        have r2: "book_step\<^sup>*\<^sup>* db1 (save_payment ?q db1)"
          using touch_runs [OF m1, of ?q] answered_open [of rp] by simp
        have "book_step\<^sup>*\<^sup>* (save_payment ?q db1) db'"
        proof (cases "response_succeeded rp")
          case yes: True
          with assms(2) True Inr cd 3(2) Some rec have
            "then_finish (save_payment ?q db1) (complete_confirmed_payment e out w ?i (py_status p) (save_payment ?q db1)) = (res, db')"
            by (simp add: process_payment_def)
          then show ?thesis by (rule then_finish_runs) (rule complete_payment_runs)
        next
          case False
          with assms(2) True Inr cd 3(2) Some rec show ?thesis
            by (cases "answered_status rp = Pay_Failed") (simp_all add: process_payment_def)
        qed
        with r2 show ?thesis by (rule rtranclp_trans)
      qed
      with r1 show ?thesis by (rule rtranclp_trans)
    qed
  qed (use assms(2) True in \<open>simp add: process_payment_def\<close>)
qed (use assms(2) in \<open>simp add: process_payment_def\<close>)

lemma webhook_cases:
  assumes "handle_webhook e out w gw type payload db = (res, db')"
  obtains "db' = db"
  | p r where "webhook_payment db gw (py_reference p) = Some p" "py_status p \<in> {Pay_Pending, Pay_Processing}"
      "then_finish (save_payment (p\<lparr>py_status := Pay_Processing, py_response := webhook_response True\<rparr>) db)
         (complete_confirmed_payment e out w (py_id p) (py_status p)
           (save_payment (p\<lparr>py_status := Pay_Processing, py_response := webhook_response True\<rparr>) db)) = (r, db')"
      "res = map_sum id (\<lambda>_. ()) r"
  | p where "webhook_payment db gw (py_reference p) = Some p" "py_status p \<in> {Pay_Pending, Pay_Processing}"
      "db' = announce ''payment.failed'' (py_id p) (save_payment (p\<lparr>py_status := Pay_Failed, py_response := webhook_response False\<rparr>) db)"
proof (cases "plugin_of out gw")
  case (Some plugin)
  let ?ev = "read_event plugin type payload"
  show thesis
  proof (cases "webhook_payment db gw (ev_intent ?ev)")
    case (Some p)
    then have f: "py_reference p = ev_intent ?ev" by (auto simp: webhook_payment_def dest: latest_by_in)
    show thesis
    proof (cases "event_matches db gw p ?ev = Inr True \<and> ev_success ?ev \<and> ev_intent ?ev \<noteq> [] \<and> py_status p \<in> {Pay_Pending, Pay_Processing}")
      case True
      show thesis
      proof (cases "mentions ''succeeded'' (lower type)")
        case s: True
        obtain r where r: "then_finish (save_payment (p\<lparr>py_status := Pay_Processing, py_response := webhook_response True\<rparr>) db)
           (complete_confirmed_payment e out w (py_id p) (py_status p)
             (save_payment (p\<lparr>py_status := Pay_Processing, py_response := webhook_response True\<rparr>) db)) = (r, db')" "res = map_sum id (\<lambda>_. ()) r"
          using assms \<open>plugin_of out gw = Some plugin\<close> Some True s by (auto simp: handle_webhook_def Let_def split: prod.splits)
        show thesis by (rule that(2) [OF _ _ r]) (use Some True f in simp_all)
      next
        case False
        have wp: "webhook_payment db gw (py_reference p) = Some p" "py_status p \<in> {Pay_Pending, Pay_Processing}"
          using Some f True by simp_all
        from assms \<open>plugin_of out gw = Some plugin\<close> Some True False have "db' = db \<or> db' = announce ''payment.failed'' (py_id p)
            (save_payment (p\<lparr>py_status := Pay_Failed, py_response := webhook_response False\<rparr>) db)"
          by (auto simp: handle_webhook_def Let_def split: if_splits)
        then show thesis using that(1) that(3) [OF wp] by blast
      qed
    next
      case False
      with assms \<open>plugin_of out gw = Some plugin\<close> Some show thesis
        by (intro that(1)) (auto simp add: handle_webhook_def Let_def split: if_splits sum.splits bool.splits)
    qed
  next
    case None
    with assms Some have "db' = db" by (cases "ev_success ?ev \<and> ev_intent ?ev \<noteq> []") (auto simp: handle_webhook_def Let_def)
    then show thesis by (rule that(1))
  qed
next
  case None
  with assms have "db' = db" by (auto simp: handle_webhook_def)
  then show thesis by (rule that(1))
qed

lemma webhook_runs:
  assumes "handle_webhook e out w gw type payload db = (res, db')"
  shows "book_step\<^sup>*\<^sup>* db db'"
  using assms
proof (cases rule: webhook_cases)
  case (2 p r)
  let ?p = "p\<lparr>py_status := Pay_Processing, py_response := webhook_response True\<rparr>"
  have "p \<in> set (payments db)" using 2(1) by (auto simp: webhook_payment_def dest: latest_by_in)
  then have "book_step\<^sup>*\<^sup>* db (save_payment ?p db)" using 2(2) by (intro touch_runs) auto
  moreover have "book_step\<^sup>*\<^sup>* (save_payment ?p db) db'" using 2(3) by (rule then_finish_runs) (rule complete_payment_runs)
  ultimately show ?thesis by (rule rtranclp_trans)
next
  case (3 p)
  have p: "p \<in> set (payments db)" using 3(1) by (auto simp: webhook_payment_def dest: latest_by_in)
  have "book_step db db'"
    by (rule book_step.touch [of p _ "p\<lparr>py_status := Pay_Failed, py_response := webhook_response False\<rparr>"])
      (use p 3(2) in \<open>auto simp: 3(3) save_payment_def\<close>)
  then show ?thesis by (rule r_into_rtranclp)
qed simp

lemma update_where_same: "distinct (map key xs) \<Longrightarrow> p \<in> set xs \<Longrightarrow> update_where (\<lambda>x. key x = key p) (\<lambda>_. p) xs = xs"
  by (auto simp: update_where_def distinct_map dest: inj_onD intro!: map_idI)

lemma refund_by_id_mem: "books_ok db \<Longrightarrow> r \<in> set (refunds db) \<Longrightarrow> refund_by_id db (rf_id r) = Some r"
proof -
  assume "books_ok db" "r \<in> set (refunds db)"
  then have "filter (\<lambda>x. rf_id x = rf_id r) (refunds db) \<noteq> []" "\<forall>x \<in> set (filter (\<lambda>x. rf_id x = rf_id r) (refunds db)). x = r"
    by (auto simp: filter_empty_conv books_ok_def distinct_map dest: inj_onD)
  then show ?thesis by (cases "filter (\<lambda>x. rf_id x = rf_id r) (refunds db)") (auto simp: refund_by_id_def)
qed

abbreviation given_row :: "payment \<Rightarrow> rat \<Rightarrow> ledger_row" where
  "given_row p amount \<equiv> \<lparr>lg_payment = py_id p, lg_type = ''refund'', lg_amount = - amount, lg_customer = py_customer p,
     lg_currency = py_currency p, lg_invoice = py_invoice p\<rparr>"

lemma complete_refund_spec:
  assumes "books_ok db" "p \<in> set (payments db)" "rf_status r \<noteq> Rf_Completed"
    "complete_confirmed_refund e p r reference db = (r', db')"
  shows "r' = r\<lparr>rf_reference := reference, rf_status := Rf_Completed, rf_completed_at := Some (now e)\<rparr> \<and>
    refunds db' = update_where (\<lambda>x. rf_id x = rf_id r) (\<lambda>_. r') (refunds db) \<and>
    ledger db' = ledger db @ [given_row p (rf_amount r)] \<and>
    (\<exists>p' \<in> {p, p\<lparr>py_status := Pay_Refunded\<rparr>}. payments db' = update_where (\<lambda>x. py_id x = py_id p) (\<lambda>_. p') (payments db))"
  using assms update_where_same [of py_id "payments db" p]
  by (auto simp: complete_confirmed_refund_def Let_def create_transaction_def save_refund_def save_payment_def books_ok_def)

lemma finalize_refund_runs:
  assumes "books_ok db" "finalize_confirmed_refund e w k reference db = Inr (r', db')" "refund_by_id db k = Some r"
    "rf_status r \<in> {Rf_Processing, Rf_Completed}"
  shows "book_step\<^sup>*\<^sup>* db db'"
proof -
  from assms(2,3) obtain p where p: "payment_of db w (rf_payment r) = Some p"
    and c: "complete_confirmed_refund e p r reference db = (r', db')"
    by (auto simp: finalize_confirmed_refund_def split: option.splits)
  note m = payment_of_Some [OF p] and rm = refund_by_id_Some [OF assms(3)]
  show ?thesis
  proof (cases "rf_status r = Rf_Completed")
    case True
    with c show ?thesis by (simp add: complete_confirmed_refund_def)
  next
    case False
    from complete_refund_spec [OF assms(1) _ False c] m obtain p' where s:
      "r' = r\<lparr>rf_reference := reference, rf_status := Rf_Completed, rf_completed_at := Some (now e)\<rparr>"
      "refunds db' = update_where (\<lambda>x. rf_id x = rf_id r) (\<lambda>_. r') (refunds db)"
      "ledger db' = ledger db @ [given_row p (rf_amount r)]" "p' \<in> {p, p\<lparr>py_status := Pay_Refunded\<rparr>}"
      "payments db' = update_where (\<lambda>x. py_id x = py_id p) (\<lambda>_. p') (payments db)" by blast
    have "book_step db db'"
      by (rule book_step.give [OF _ _ _ _ _ _ _ s(2) _ _ s(4,5,3)]) (use m rm False assms(4) s(1) in simp_all)
    then show ?thesis by (rule r_into_rtranclp)
  qed
qed

lemma move_runs:
  assumes "books_ok db" "refund_by_id db k = Some r" "rf_status r = Rf_Processing" "set_refund k f db = Inr (x, db')"
    "rf_status (f r) \<noteq> Rf_Completed" "rf_id (f r) = rf_id r" "rf_payment (f r) = rf_payment r" "rf_key (f r) = rf_key r"
    "rf_amount (f r) = rf_amount r"
  shows "book_step\<^sup>*\<^sup>* db db'" "x = f r" "books_ok db'" "refund_by_id db' k = Some x"
proof -
  note rm = refund_by_id_Some [OF assms(2)]
  from assms(2,4) have s: "x = f r" "db' = save_refund (f r) db" by (auto simp: set_refund_def)
  have "book_step db db'"
    by (rule book_step.move [of r _ "f r"]) (use rm assms s(2) in \<open>simp_all add: save_refund_def\<close>)
  then show r: "book_step\<^sup>*\<^sup>* db db'" by (rule r_into_rtranclp)
  show "x = f r" by (rule s(1))
  show ok: "books_ok db'" by (rule touch_books [OF assms(1) r])
  have "f r \<in> set (refunds db')" using rm assms(6) by (auto simp: s(2) save_refund_def set_update_where image_iff)
  then show "refund_by_id db' k = Some x" using refund_by_id_mem [OF ok] rm assms(6) s(1) by metis
qed

lemma refunds_of_mem: "r \<in> set (refunds_of db i) \<longleftrightarrow> r \<in> set (refunds db) \<and> rf_payment r = i"
  by (auto simp: refunds_of_def)

lemma prepare_cases:
  assumes "books_ok db" "prepare_refund w i amount reason key db = Inr (c, db')" "0 < amount"
  obtains r where "c = Replayed r" "db' = db" "r \<in> set (refunds_of db i)" "rf_key r = key" "rf_amount r = amount" "rf_reason r = reason"
      "rf_status r \<in> {Rf_Completed, Rf_Pending, Rf_Failed}" "payment_of db w i \<noteq> None"
  | r where "c = Confirmed r" "db' = db" "refund_by_id db (rf_id r) = Some r" "rf_status r = Rf_Processing"
      "payment_of db w i \<noteq> None" "rf_key r = key" "rf_amount r = amount" "rf_payment r = i" "rf_reason r = reason"
  | r p gw where "c = Asked r p gw" "book_step\<^sup>*\<^sup>* db db'" "refund_by_id db' (rf_id r) = Some r" "rf_status r = Rf_Processing"
      "payment_of db w i = Some p" "py_status p = Pay_Completed" "rf_key r = key" "rf_amount r = amount" "rf_payment r = i"
      "rf_reason r = reason" "payments db' = payments db"
proof -
  from assms(2) obtain p where p: "payment_of db w i = Some p" by (auto simp: prepare_refund_def split: option.splits)
  note m = payment_of_Some [OF p]
  show thesis
  proof (cases "first (filter (\<lambda>r. rf_key r = key) (refunds_of db i))")
    case (Some r)
    then have r: "r \<in> set (refunds db)" "rf_payment r = i" "rf_key r = key" by (auto simp: refunds_of_mem dest: first_filter_SomeD)
    have id: "refund_by_id db (rf_id r) = Some r" by (rule refund_by_id_mem [OF assms(1) r(1)])
    show thesis
    proof (cases "rf_status r = Rf_Processing")
      case True
      with assms(2) p Some have c: "py_status p = Pay_Completed" "rf_amount r = amount" "rf_reason r = reason" "db' = db"
        "c = (if rf_reference r \<noteq> [] then Confirmed r else Asked r p (the (linked_gateway db p)))"
        by (auto simp: prepare_refund_def Let_def bind_r_Inr check_Inr split: if_splits)
      show thesis
      proof (cases "rf_reference r = []")
        case t: True
        show thesis by (rule that(3)) (use c t id True p r in simp_all)
      next
        case False
        show thesis by (rule that(2)) (use c False id True p r in simp_all)
      qed
    next
      case False
      then have st: "rf_status r \<in> {Rf_Completed, Rf_Pending, Rf_Failed}" by (cases "rf_status r") simp_all
      with assms(2) p Some have c: "c = Replayed r" "db' = db" "rf_amount r = amount" "rf_reason r = reason"
        by (auto simp: prepare_refund_def Let_def split: if_splits)
      show thesis by (rule that(1)) (use c r st p in \<open>simp_all add: refunds_of_mem\<close>)
    qed
  next
    case None
    let ?r = "\<lparr>rf_id = fresh_id rf_id (refunds db), rf_payment = i, rf_key = key, rf_amount = amount,
      rf_reason = reason, rf_status = Rf_Processing, rf_reference = '''', rf_completed_at = None\<rparr>"
    from assms(2) p None have c: "py_status p = Pay_Completed" "c = Asked ?r p (the (linked_gateway db p))"
      "reserved_of db i + amount \<le> py_amount p" "db' = db\<lparr>refunds := refunds db @ [?r]\<rparr>"
      by (auto simp: prepare_refund_def Let_def bind_r_Inr check_Inr split: if_splits)
    have key: "key \<notin> rf_key ` set (refunds_of db i)" using None by (auto simp: filter_empty_conv)
    have "book_step db db'"
      by (rule book_step.reserve [of p _ ?r]) (use m c(1,3) key assms(3) fresh_id_notin [of rf_id "refunds db"] in \<open>simp_all add: c(4)\<close>)
    then have run: "book_step\<^sup>*\<^sup>* db db'" by (rule r_into_rtranclp)
    have "?r \<in> set (refunds db')" by (simp add: c(4))
    then have "refund_by_id db' (rf_id ?r) = Some ?r" by (rule refund_by_id_mem [OF touch_books [OF assms(1) run]])
    with run show thesis by (intro that(3) [OF c(2)]) (use p c(1,4) in simp_all)
  qed
qed

lemma refund_runs:
  assumes "books_ok db" "create_refund e out w given amount reason key db = (res, db')"
  shows "book_step\<^sup>*\<^sup>* db db'"
proof (cases "py_workspace given = w \<and> 0 < amount \<and> strip key \<noteq> [] \<and> length (strip key) \<le> 255")
  case True
  let ?i = "py_id given"
  show ?thesis
  proof (cases "prepare_refund w ?i amount reason (strip key) db")
    case (Inl err)
    with assms(2) True show ?thesis by (auto simp: create_refund_def split: if_splits)
  next
    case (Inr cd)
    obtain c db1 where cd: "cd = (c, db1)" by fastforce
    with Inr have pr: "prepare_refund w ?i amount reason (strip key) db = Inr (c, db1)" by simp
    from True have pos: "0 < amount" by simp
    from assms(1) pr pos show ?thesis
    proof (cases rule: prepare_cases)
      case (1 r)
      with assms(2) True pr show ?thesis by (auto simp: create_refund_def split: if_splits)
    next
      case (2 r)
      with assms(2) True pr have "then_finish db (finalize_confirmed_refund e w (rf_id r) (rf_reference r) db) = (res, db')"
        by (auto simp: create_refund_def split: if_splits)
      then show ?thesis
        by (rule then_finish_runs) (rule finalize_refund_runs [OF assms(1) _ 2(3)]; use 2(4) in simp)
    next
      case (3 r p gw)
      have ok: "books_ok db1" by (rule touch_books [OF assms(1) 3(2)])
      have call: "create_refund e out w given amount reason key db =
         (case call_refund_gateway out gw p r of
           None \<Rightarrow> (Inl Gateway_Failed, snd (then_finish db1 (set_refund (rf_id r) (\<lambda>x. x\<lparr>rf_status := Rf_Processing\<rparr>) db1)))
         | Some rp \<Rightarrow>
             if refund_confirmed rp then
               (let reference = confirmed_reference (rf_id r) rp in
                case set_refund (rf_id r) (\<lambda>x. x\<lparr>rf_reference := reference, rf_status := Rf_Processing\<rparr>) db1 of
                  Inl err \<Rightarrow> (Inl err, db1)
                | Inr (_, db) \<Rightarrow> then_finish db (finalize_confirmed_refund e w (rf_id r) reference db))
             else (case set_refund (rf_id r) (\<lambda>x. x\<lparr>rf_reference := rp_reference rp,
                  rf_status := (if rp_success rp \<and> lower (rp_status rp) = ''pending'' then Rf_Pending else Rf_Failed)\<rparr>) db1 of
                  Inl err \<Rightarrow> (Inl err, db1)
                | Inr (x, db) \<Rightarrow> if rf_status x = Rf_Pending then (Inr x, db) else (Inl Not_Confirmed, db)))"
        unfolding create_refund_def using True pr 3(1) by simp
      have set: "set_refund (rf_id r) f db1 = Inr (f r, save_refund (f r) db1)" for f using 3(3) by (simp add: set_refund_def)
      have run: "book_step\<^sup>*\<^sup>* db1 (save_refund (f r) db1)" "books_ok (save_refund (f r) db1)"
        "refund_by_id (save_refund (f r) db1) (rf_id r) = Some (f r)"
        if "rf_status (f r) \<noteq> Rf_Completed" "rf_id (f r) = rf_id r" "rf_payment (f r) = rf_payment r" "rf_key (f r) = rf_key r"
          "rf_amount (f r) = rf_amount r" for f
        using move_runs [OF ok 3(3,4) set [of f] that] by simp_all
      have "book_step\<^sup>*\<^sup>* db1 db'"
      proof (cases "call_refund_gateway out gw p r")
        case None
        with assms(2) have "db' = save_refund (r\<lparr>rf_status := Rf_Processing\<rparr>) db1" unfolding call set then_finish_def by simp
        then show ?thesis using run(1) [of "\<lambda>x. x\<lparr>rf_status := Rf_Processing\<rparr>"] by simp
      next
        case (Some rp)
        show ?thesis
        proof (cases "refund_confirmed rp")
          case conf: True
          let ?f = "\<lambda>x. x\<lparr>rf_reference := confirmed_reference (rf_id r) rp, rf_status := Rf_Processing\<rparr>"
          from assms(2) Some conf have "then_finish (save_refund (?f r) db1) (finalize_confirmed_refund e w (rf_id r)
              (confirmed_reference (rf_id r) rp) (save_refund (?f r) db1)) = (res, db')" unfolding call set by (simp add: Let_def)
          then have "book_step\<^sup>*\<^sup>* (save_refund (?f r) db1) db'"
            by (rule then_finish_runs) (rule finalize_refund_runs [OF run(2) _ run(3)]; simp)
          with run(1) [of ?f] show ?thesis by simp
        next
          case False
          let ?f = "\<lambda>x. x\<lparr>rf_reference := rp_reference rp,
             rf_status := (if rp_success rp \<and> lower (rp_status rp) = ''pending'' then Rf_Pending else Rf_Failed)\<rparr>"
          from assms(2) Some False have "db' = save_refund (?f r) db1" unfolding call set by (auto split: if_splits)
          then show ?thesis using run(1) [of ?f] by simp
        qed
      qed
      with 3(2) show ?thesis by (rule rtranclp_trans)
    qed
  qed
next
  case False
  with assms(2) show ?thesis by (auto simp: create_refund_def split: if_splits)
qed

lemma create_cases:
  assumes "create_payment e draw w customer amount cur gw order bill pm db = Some (Inr (p, db'))"
  obtains order' bill' number where "0 < amount" "cu_workspace customer = w" "gw_workspace gw = w" "gw_active gw"
    "order_to_pay db w (cu_id customer) amount order = Inr order'"
    "invoice_to_pay db w (cu_id customer) amount order' bill = Inr bill'" "currency_fits db w bill' cur"
    "method_fits w (cu_id customer) (gw_id gw) pm = Inr ()" "generate_payment_number e draw w db = Some number"
    "number \<notin> py_number ` set (payments db)" "db' = db\<lparr>payments := payments db @ [p]\<rparr>"
    "p = \<lparr>py_id = fresh_id py_id (payments db), py_workspace = w, py_customer = cu_id customer,
          py_invoice = map_option inv_id bill', py_order = map_option od_id order', py_number = number,
          py_gateway = Some (gw_id gw), py_amount = amount, py_currency = cur_id cur, py_status = Pay_Pending,
          py_reference = '''', py_response = no_response, py_completed_at = None\<rparr>"
  using assms
  by (auto simp: create_payment_def bind_r_Inr check_Inr insert_payment_def split: sum.splits if_splits)

lemma create_runs:
  assumes "create_payment e draw w customer amount cur gw order bill pm db = Some (Inr (p, db'))"
  shows "book_step\<^sup>*\<^sup>* db db'"
proof -
  obtain order' :: "order_row option" and bill' :: "invoice option" and number where s: "0 < amount" "db' = db\<lparr>payments := payments db @ [p]\<rparr>"
    "p = \<lparr>py_id = fresh_id py_id (payments db), py_workspace = w, py_customer = cu_id customer,
          py_invoice = map_option inv_id bill', py_order = map_option od_id order', py_number = number,
          py_gateway = Some (gw_id gw), py_amount = amount, py_currency = cur_id cur, py_status = Pay_Pending,
          py_reference = '''', py_response = no_response, py_completed_at = None\<rparr>"
    by (rule create_cases [OF assms]) (rule that; assumption)
  have "book_step db db'"
    by (rule book_step.start [of p]) (use s(1) fresh_id_notin [of py_id "payments db"] in \<open>simp_all add: s(2,3)\<close>)
  then show ?thesis by (rule r_into_rtranclp)
qed

subsection \<open>Any calls\<close>

inductive pay_call :: "fin_db \<Rightarrow> fin_db \<Rightarrow> bool" where
  started: "create_payment e draw w customer amount cur gw order bill pm db = Some (Inr (p, db')) \<Longrightarrow> pay_call db db'"
| processed: "process_payment e out w given d manual db = (res, db') \<Longrightarrow> pay_call db db'"
| returned: "create_refund e out w given amount reason key db = (r, db') \<Longrightarrow> pay_call db db'"
| reported: "handle_webhook e out w gw type payload db = (u, db') \<Longrightarrow> pay_call db db'"

lemma call_runs: "pay_call db db' \<Longrightarrow> books_ok db \<Longrightarrow> book_step\<^sup>*\<^sup>* db db'"
  by (induction rule: pay_call.induct) (blast intro: create_runs process_runs refund_runs webhook_runs)+

interpretation call_machine: state_machine pay_call books_ok
  by unfold_locales (rule touch_books, assumption, rule call_runs)

subsection \<open>What the books show\<close>

text \<open>
  C31: Every call of the payment service, on whatever it is called and whatever the gateway answers or
  raises, is a run of the abstract machine, and so keeps the books.
\<close>

theorem calls_refine_the_books:
  assumes "pay_call db db'" "books_ok db"
  shows "book_step\<^sup>*\<^sup>* db db' \<and> books_ok db'"
  using call_runs [OF assms] touch_books [OF assms(2)] by blast

text \<open>
  C5: After any calls the ledger of a payment adds up: it is the amount as often as it was booked less
  what was given back, it is never negative, a payment is booked exactly when it was completed, and
  what is given back or about to be never exceeds what was paid.
\<close>

theorem ledger_adds_up:
  assumes "pay_call\<^sup>*\<^sup>* db db'" "books_ok db" "p \<in> set (payments db')"
  shows "balance db' (py_id p) = of_nat (bookings db' (py_id p)) * py_amount p - refunded_in {Rf_Completed} db' (py_id p) \<and>
    0 \<le> balance db' (py_id p) \<and> (0 < bookings db' (py_id p) \<longleftrightarrow> py_status p \<in> {Pay_Completed, Pay_Refunded}) \<and>
    refunded_in {Rf_Pending, Rf_Processing, Rf_Completed} db' (py_id p) \<le> py_amount p"
proof -
  have ok: "books_ok db'" by (rule call_machine.reachable_inv [OF assms(1,2)])
  then have b: "payment_books db' p" using assms(3) by (simp add: books_ok_def)
  have le: "refunded_in {Rf_Completed} db' (py_id p) \<le> reserved_of db' (py_id p)"
    unfolding refunded_in_def using ok by (intro sum_list_mono) (auto simp: books_ok_def)
  have none: "refunds_of db' (py_id p) = [] \<Longrightarrow> refunded_in sts db' (py_id p) = 0" for sts by (simp add: refunded_in_of)
  have eq: "balance db' (py_id p) = of_nat (bookings db' (py_id p)) * py_amount p - refunded_in {Rf_Completed} db' (py_id p)"
    and res: "reserved_of db' (py_id p) \<le> py_amount p" using b by (simp_all add: payment_books_def)
  have many: "py_amount p \<le> of_nat (bookings db' (py_id p)) * py_amount p" if "0 < bookings db' (py_id p)"
    using that b by (simp add: payment_books_def)
  have "0 < bookings db' (py_id p) \<longleftrightarrow> closed p" using b by (auto simp: payment_books_def split: if_splits)
  moreover have "0 \<le> balance db' (py_id p)"
  proof (cases "closed p")
    case True
    then have "0 < bookings db' (py_id p)" using b by (simp add: payment_books_def)
    with many le res show ?thesis unfolding eq by linarith
  next
    case False
    then have "refunds_of db' (py_id p) = []" "bookings db' (py_id p) = 0" using b by (simp_all add: payment_books_def)
    with none show ?thesis unfolding eq by simp
  qed
  ultimately show ?thesis using eq res by blast
qed

lemma completed_stays:
  assumes "payment_of db w (py_id given) = Some p" "py_status p = Pay_Completed" "py_workspace given = w"
  shows "process_payment e out w given d manual db = (Inr p, db)"
  using assms by (simp add: process_payment_def claim_payment_def)

lemma finished_runs:
  assumes "books_ok db0" "bookings db0 i = bookings db i" "then_finish db0 (complete_confirmed_payment e out w i old db0) = (Inr p', db')"
    "payment_of db0 w i = Some p0" "py_status p0 \<noteq> Pay_Completed"
  shows "payment_of db' w i = Some p' \<and> py_status p' = Pay_Completed \<and> bookings db' i = Suc (bookings db i)"
proof -
  have c: "complete_confirmed_payment e out w i old db0 = Inr (p', db')" using assms(3) by (auto simp: then_finish_def split: sum.splits)
  note m = payment_of_Some [OF assms(4)]
  from complete_payment_spec [OF c] assms(4,5) have s: "p' = completed_at e p0"
    "payments db' = update_where (\<lambda>x. py_id x = i) (\<lambda>_. p') (payments db0)" "ledger db' = ledger db0 @ [booked_row p0]" by auto
  have "payments db' = payments (save_payment p' db0)" using s(1,2) m by (simp add: save_payment_def)
  then have "payment_of db' w i = Some p'" using payment_of_save [OF assms(1,4), of p'] s(1) by (simp add: payment_of_def)
  moreover have "bookings db' i = Suc (bookings db0 i)" using m by (simp add: bookings_def ledger_of_append [OF s(3)] table_simps)
  ultimately show ?thesis using assms(2) s(1) by simp
qed

text \<open>
  A payment is booked by the call that completes it, once; processing it again, with whatever
  details and whatever the gateway would answer now, returns it and changes nothing.
\<close>

theorem completed_once:
  assumes "process_payment e out w given d manual db = (Inr p, db')" "py_status p = Pay_Completed" "books_ok db"
    "payment_of db w (py_id given) = Some before"
  shows "bookings db' (py_id given) = bookings db (py_id given) + (if py_status before = Pay_Completed then 0 else 1) \<and>
    process_payment e' out' w given d' manual' db' = (Inr p, db')"
proof -
  let ?i = "py_id given"
  have w: "py_workspace given = w" using assms(1) by (auto simp: process_payment_def split: if_splits)
  have bk: "bookings (save_payment q d) i = bookings d i" for q d i by (simp add: bookings_def ledger_of_same [of "save_payment q d" d])
  from assms(1) w obtain c db1 where "claim_payment w ?i manual db = Inr (c, db1)"
    by (auto simp: process_payment_def split: sum.splits)
  then show ?thesis
  proof (cases rule: claim_cases)
    case (1 q)
    with completed_stays [OF 1(1,4) w] assms(1,4) show ?thesis by simp
  next
    case (2 q)
    with assms(1) w have f: "then_finish db (complete_confirmed_payment e out w ?i (py_status q) db) = (Inr p, db')"
      using \<open>claim_payment w ?i manual db = Inr (c, db1)\<close> by (simp add: process_payment_def)
    from finished_runs [OF assms(3) refl f 2(1,4)] have "payment_of db' w ?i = Some p" "bookings db' ?i = Suc (bookings db ?i)" by simp_all
    with completed_stays [OF _ assms(2) w] assms(4) 2 show ?thesis by simp
  next
    case (3 q gw)
    let ?p = "q\<lparr>py_status := Pay_Processing\<rparr>"
    have p1: "payment_of db1 w ?i = Some ?p" unfolding 3(3) by (rule payment_of_save [OF assms(3) 3(1)]) simp_all
    have q: "q \<in> set (payments db)" using payment_of_Some [OF 3(1)] by simp
    have op: "\<not> closed q" using closed_succeeded [OF assms(3) q] 3(4,5) by auto
    have ok1: "books_ok db1" unfolding 3(3) by (rule touch_books [OF assms(3)], rule touch_runs [OF q op]) simp_all
    from assms(1) w 3(2) \<open>claim_payment w ?i manual db = Inr (c, db1)\<close> obtain rp where rp: "gateway_answer out manual gw ?p d = Some rp"
      by (auto simp: process_payment_def split: option.splits)
    let ?q = "?p\<lparr>py_reference := rp_reference rp, py_response := rp, py_status := answered_status rp\<rparr>"
    have rec: "record_answer w ?i rp db1 = Inr (?q, save_payment ?q db1)" using p1 by (simp add: record_answer_def Let_def)
    have yes: "response_succeeded rp"
    proof (rule ccontr)
      assume "\<not> response_succeeded rp"
      with assms(1) w 3(2) \<open>claim_payment w ?i manual db = Inr (c, db1)\<close> rp rec have "p = ?q"
        by (cases "answered_status rp = Pay_Failed") (auto simp: process_payment_def)
      with assms(2) answered_open [of rp] show False by simp
    qed
    with assms(1) w 3(2) \<open>claim_payment w ?i manual db = Inr (c, db1)\<close> rp rec have
      f: "then_finish (save_payment ?q db1) (complete_confirmed_payment e out w ?i (py_status q) (save_payment ?q db1)) = (Inr p, db')"
      by (simp add: process_payment_def)
    have m1: "?p \<in> set (payments db1)" using payment_of_Some [OF p1] by simp
    have ok2: "books_ok (save_payment ?q db1)"
      by (rule touch_books [OF ok1], rule touch_runs [OF m1]) (use answered_open [of rp] in simp_all)
    have p2: "payment_of (save_payment ?q db1) w ?i = Some ?q" by (rule payment_of_save [OF ok1 p1]) simp_all
    have "py_status ?q \<noteq> Pay_Completed" using answered_open [of rp] by simp
    from finished_runs [OF ok2 _ f p2 this, of db] have "payment_of db' w ?i = Some p" "bookings db' ?i = Suc (bookings db ?i)"
      by (simp_all add: bk 3(3))
    with completed_stays [OF _ assms(2) w] assms(4) 3(1,4) show ?thesis by simp
  qed
qed

end
