(* ===== verification/Payment_Settling.thy ===== *)
theory Payment_Settling
  imports Payment_Books
begin

text \<open>
  What the calls of \<open>PaymentService\<close> mean to whoever makes them: what a new attempt is for, that a
  number is found, that a refund repeated under its key is answered and not given again, that a
  report of the gateway's moves nothing it does not vouch for, and that a bill of the platform
  settled through a gateway is acted on once. The last section shows what the code does not
  exclude: booking twice.
\<close>

subsection \<open>A refund under its key\<close>

lemma payment_stays:
  assumes "payment_of db w i \<noteq> None" "payments db' = update_where (\<lambda>x. py_id x = py_id p) (\<lambda>_. p') (payments db)"
    "p \<in> set (payments db)" "py_id p' = py_id p" "py_workspace p' = py_workspace p" "distinct (map py_id (payments db))"
  shows "payment_of db' w i \<noteq> None"
proof -
  from assms(1) obtain q where q: "q \<in> set (payments db)" "py_id q = i" "py_workspace q = w"
    by (auto dest: payment_of_Some)
  have "\<exists>q' \<in> set (payments db'). py_id q' = i \<and> py_workspace q' = w"
  proof (cases "py_id q = py_id p")
    case True
    with q(1) assms(3,6) have "q = p" by (auto simp: distinct_map dest: inj_onD)
    with q assms(2,4,5) show ?thesis by (auto simp: set_update_where)
  qed (use q assms(2) in \<open>auto simp: set_update_where\<close>)
  then show ?thesis unfolding payment_of_def first_filter_None by blast
qed

lemma finalized_refund:
  assumes "books_ok db" "finalize_confirmed_refund e w k reference db = Inr (r', db')" "refund_by_id db k = Some r"
    "rf_status r = Rf_Processing" "payment_of db w i \<noteq> None"
  shows "r' \<in> set (refunds db')" "rf_payment r' = rf_payment r" "rf_key r' = rf_key r" "rf_amount r' = rf_amount r"
    "rf_reason r' = rf_reason r" "rf_status r' = Rf_Completed" "payment_of db' w i \<noteq> None" "books_ok db'"
proof -
  from assms(2,3) obtain p where p: "payment_of db w (rf_payment r) = Some p"
    and c: "complete_confirmed_refund e p r reference db = (r', db')"
    by (auto simp: finalize_confirmed_refund_def split: option.splits)
  note m = payment_of_Some [OF p] and rm = refund_by_id_Some [OF assms(3)]
  from complete_refund_spec [OF assms(1) _ _ c] m assms(4) obtain p' where s:
    "r' = r\<lparr>rf_reference := reference, rf_status := Rf_Completed, rf_completed_at := Some (now e)\<rparr>"
    "refunds db' = update_where (\<lambda>x. rf_id x = rf_id r) (\<lambda>_. r') (refunds db)" "p' \<in> {p, p\<lparr>py_status := Pay_Refunded\<rparr>}"
    "payments db' = update_where (\<lambda>x. py_id x = py_id p) (\<lambda>_. p') (payments db)" by auto
  show "r' \<in> set (refunds db')" using rm by (auto simp: s(2) set_update_where image_iff)
  show "rf_payment r' = rf_payment r" "rf_key r' = rf_key r" "rf_amount r' = rf_amount r" "rf_reason r' = rf_reason r"
    "rf_status r' = Rf_Completed" by (simp_all add: s(1))
  show "payment_of db' w i \<noteq> None"
    by (rule payment_stays [OF assms(5) s(4)]) (use m s(3) assms(1) in \<open>auto simp: books_ok_def\<close>)
  show "books_ok db'" by (rule touch_books [OF assms(1)], rule finalize_refund_runs [OF assms(1-3)]) (simp add: assms(4))
qed

lemma refund_found:
  assumes "books_ok db" "r \<in> set (refunds db)" "rf_payment r = i" "rf_key r = key"
  shows "first (filter (\<lambda>r. rf_key r = key) (refunds_of db i)) = Some r"
proof -
  have "x = r" if "x \<in> set (refunds db)" "rf_payment x = i" "rf_key x = key" for x
    using that assms by (auto simp: books_ok_def distinct_map dest: inj_onD)
  then have "\<forall>x \<in> set (filter (\<lambda>r. rf_key r = key) (refunds_of db i)). x = r" by (auto simp: refunds_of_mem)
  moreover have "filter (\<lambda>r. rf_key r = key) (refunds_of db i) \<noteq> []"
    using assms by (auto simp: filter_empty_conv refunds_of_mem)
  ultimately show ?thesis by (cases "filter (\<lambda>r. rf_key r = key) (refunds_of db i)") auto
qed

lemma refund_answer:
  assumes "create_refund e out w given amount reason key db = (Inr r, db')" "books_ok db"
  shows "r \<in> set (refunds db') \<and> rf_payment r = py_id given \<and> rf_key r = strip key \<and> rf_amount r = amount \<and>
    rf_reason r = reason \<and> rf_status r \<in> {Rf_Completed, Rf_Pending, Rf_Failed} \<and> payment_of db' w (py_id given) \<noteq> None \<and> books_ok db' \<and>
    py_workspace given = w \<and> 0 < amount \<and> strip key \<noteq> [] \<and> length (strip key) \<le> 255"
proof -
  from assms(1) have v: "py_workspace given = w" "0 < amount" "strip key \<noteq> []" "length (strip key) \<le> 255"
    by (auto simp: create_refund_def split: if_splits)
  have ok': "books_ok db'" by (rule touch_books [OF assms(2) refund_runs [OF assms(2,1)]])
  obtain c db1 where pr: "prepare_refund w (py_id given) amount reason (strip key) db = Inr (c, db1)"
    using assms(1) v by (auto simp: create_refund_def split: sum.splits)
  from assms(2) pr v(2) have "r \<in> set (refunds db') \<and> rf_payment r = py_id given \<and> rf_key r = strip key \<and> rf_amount r = amount \<and>
    rf_reason r = reason \<and> rf_status r \<in> {Rf_Completed, Rf_Pending, Rf_Failed} \<and> payment_of db' w (py_id given) \<noteq> None"
  proof (cases rule: prepare_cases)
    case (1 q)
    with assms(1) v pr have "r = q" "db' = db" by (auto simp: create_refund_def)
    with 1 show ?thesis by (simp add: refunds_of_mem)
  next
    case (2 q)
    with assms(1) v pr have "finalize_confirmed_refund e w (rf_id q) (rf_reference q) db = Inr (r, db')"
      by (auto simp: create_refund_def then_finish_def split: sum.splits)
    from finalized_refund [OF assms(2) this 2(3,4,5)] 2(6-9) show ?thesis by simp
  next
    case (3 q p gw)
    have ok: "books_ok db1" by (rule touch_books [OF assms(2) 3(2)])
    have pay: "payment_of db1 w (py_id given) \<noteq> None" using 3(5,11) by (simp add: payment_of_def)
    from assms(1) v pr 3(1) obtain rp where rp: "call_refund_gateway out gw p q = Some rp"
      by (auto simp: create_refund_def split: option.splits)
    have set: "set_refund (rf_id q) f db1 = Inr (f q, save_refund (f q) db1)" for f using 3(3) by (simp add: set_refund_def)
    show ?thesis
    proof (cases "refund_confirmed rp")
      case True
      let ?q = "q\<lparr>rf_reference := confirmed_reference (rf_id q) rp, rf_status := Rf_Processing\<rparr>"
      note mv = move_runs [OF ok 3(3,4) set [of "\<lambda>x. x\<lparr>rf_reference := confirmed_reference (rf_id q) rp, rf_status := Rf_Processing\<rparr>"], simplified]
      from assms(1) v pr 3(1) rp True have "finalize_confirmed_refund e w (rf_id q) (confirmed_reference (rf_id q) rp) (save_refund ?q db1) = Inr (r, db')"
        by (auto simp: create_refund_def Let_def set then_finish_def split: sum.splits)
      from finalized_refund [OF mv(3) this mv(4), of "py_id given"] pay 3(6-10) show ?thesis by (simp add: payment_of_def)
    next
      case False
      let ?q = "q\<lparr>rf_reference := rp_reference rp,
             rf_status := (if rp_success rp \<and> lower (rp_status rp) = ''pending'' then Rf_Pending else Rf_Failed)\<rparr>"
      from assms(1) v pr 3(1) rp False have r: "r = ?q" "db' = save_refund ?q db1" "rf_status ?q = Rf_Pending"
        by (auto simp: create_refund_def set split: if_splits)
      have "q \<in> set (refunds db1)" using refund_by_id_Some [OF 3(3)] by simp
      then have "?q \<in> set (refunds db')" by (auto simp: r(2) save_refund_def set_update_where image_iff)
      then show ?thesis using r(3) pay 3(6-10) unfolding r(1) by (simp add: payment_of_def r(2))
    qed
  qed
  with ok' v show ?thesis by blast
qed

text \<open>
  C24: A refund that was answered is answered again under its key, whatever the gateway would say now: the
  same refund comes back and nothing is written or given. Under the same key nothing else is given
  either: another amount or reason is refused.
\<close>

theorem refund_key_holds:
  assumes "create_refund e out w given amount reason key db = (Inr r, db')" "books_ok db"
  shows "create_refund e' out' w given amount reason key db' = (Inr r, db') \<and> rf_amount r = amount \<and>
    (0 < amount' \<and> (amount' \<noteq> amount \<or> reason' \<noteq> reason) \<longrightarrow>
       create_refund e' out' w given amount' reason' key db' = (Inl Key_Reused, db'))"
proof -
  note a = refund_answer [OF assms]
  have f: "first (filter (\<lambda>r. rf_key r = strip key) (refunds_of db' (py_id given))) = Some r"
    by (rule refund_found) (use a in simp_all)
  from a obtain p where p: "payment_of db' w (py_id given) = Some p" by blast
  have "prepare_refund w (py_id given) amount reason (strip key) db' = Inr (Replayed r, db')"
    unfolding prepare_refund_def using a f p by auto
  moreover have "prepare_refund w (py_id given) amount' reason' (strip key) db' = Inl Key_Reused"
    if "amount' \<noteq> amount \<or> reason' \<noteq> reason"
    unfolding prepare_refund_def using a f p that by auto
  ultimately show ?thesis using a by (auto simp: create_refund_def)
qed

subsection \<open>What an attempt is for\<close>

lemma order_to_pay_Some:
  assumes "order_to_pay db w c amount given = Inr (Some r)"
  shows "order_of (shop db) w (od_id r) = Some r \<and> od_customer r = c \<and> od_total r = amount \<and> od_payment r \<noteq> ''paid'' \<and>
    od_status r \<notin> {''cancelled'', ''refunded''} \<and>
    \<not> attempts db w {Pay_Completed} (\<lambda>p. py_order p = Some (od_id r)) \<and>
    \<not> attempts db w {Pay_Pending, Pay_Processing} (\<lambda>p. py_order p = Some (od_id r))"
  using assms order_of_Some
  by (fastforce simp: order_to_pay_def bind_r_Inr check_Inr split: option.splits if_splits)

lemma invoice_to_pay_Some:
  assumes "invoice_to_pay db w c amount order given = Inr (Some v)"
  shows "v \<in> set (invoices (base db)) \<and> inv_workspace v = w \<and> inv_customer v = c \<and> inv_total v = amount \<and> inv_status v \<noteq> Inv_Paid \<and>
    \<not> attempts db w {Pay_Completed} (\<lambda>p. py_invoice p = Some (inv_id v)) \<and>
    \<not> attempts db w {Pay_Pending, Pay_Processing} (\<lambda>p. py_invoice p = Some (inv_id v))"
  using assms
  by (auto simp: invoice_to_pay_def bind_r_Inr check_Inr split: option.splits if_splits dest!: first_filter_SomeD)

text \<open>
  A new attempt is for exactly what is owed and by whom: the customer's own order or invoice, its
  whole total in the invoice's currency, under a number nobody has; neither is settled, and no
  attempt for either is under way or has succeeded.
\<close>

theorem attempt_is_for_what_is_owed:
  assumes "create_payment e draw w customer amount cur gw order bill pm db = Some (Inr (p, db'))"
  shows "payments db' = payments db @ [p] \<and> 0 < py_amount p \<and> py_status p = Pay_Pending \<and>
    py_number p \<notin> py_number ` set (payments db) \<and>
    (\<forall>j. py_order p = Some j \<longrightarrow> (\<exists>r. order_of (shop db) w j = Some r \<and> od_customer r = cu_id customer \<and>
       od_total r = py_amount p \<and> od_payment r \<noteq> ''paid'' \<and> od_status r \<notin> {''cancelled'', ''refunded''})) \<and>
    (\<forall>i. py_invoice p = Some i \<longrightarrow> (\<exists>v \<in> set (invoices (base db)). inv_id v = i \<and> inv_workspace v = w \<and>
       inv_customer v = cu_id customer \<and> inv_total v = py_amount p \<and> inv_currency v = py_currency p \<and> inv_status v \<noteq> Inv_Paid)) \<and>
    (\<forall>q \<in> set (payments db). py_workspace q = w \<and> py_status q \<in> {Pay_Pending, Pay_Processing, Pay_Completed} \<longrightarrow>
       (py_order q = None \<or> py_order q \<noteq> py_order p) \<and> (py_invoice q = None \<or> py_invoice q \<noteq> py_invoice p))"
proof -
  obtain order' :: "order_row option" and bill' :: "invoice option" and number where s: "0 < amount"
    "order_to_pay db w (cu_id customer) amount order = Inr order'"
    "invoice_to_pay db w (cu_id customer) amount order' bill = Inr bill'" "currency_fits db w bill' cur"
    "number \<notin> py_number ` set (payments db)" "db' = db\<lparr>payments := payments db @ [p]\<rparr>"
    "p = \<lparr>py_id = fresh_id py_id (payments db), py_workspace = w, py_customer = cu_id customer,
          py_invoice = map_option inv_id bill', py_order = map_option od_id order', py_number = number,
          py_gateway = Some (gw_id gw), py_amount = amount, py_currency = cur_id cur, py_status = Pay_Pending,
          py_reference = '''', py_response = no_response, py_completed_at = None\<rparr>"
    by (rule create_cases [OF assms]) (rule that; assumption)
  have o: "order_of (shop db) w (od_id r) = Some r \<and> od_customer r = cu_id customer \<and> od_total r = amount \<and> od_payment r \<noteq> ''paid'' \<and>
    od_status r \<notin> {''cancelled'', ''refunded''} \<and> \<not> attempts db w {Pay_Completed} (\<lambda>p. py_order p = Some (od_id r)) \<and>
    \<not> attempts db w {Pay_Pending, Pay_Processing} (\<lambda>p. py_order p = Some (od_id r))" if "order' = Some r" for r
    using order_to_pay_Some s(2) that by simp
  have v: "v \<in> set (invoices (base db)) \<and> inv_workspace v = w \<and> inv_customer v = cu_id customer \<and> inv_total v = amount \<and>
    inv_status v \<noteq> Inv_Paid \<and> inv_currency v = cur_id cur \<and> \<not> attempts db w {Pay_Completed} (\<lambda>p. py_invoice p = Some (inv_id v)) \<and>
    \<not> attempts db w {Pay_Pending, Pay_Processing} (\<lambda>p. py_invoice p = Some (inv_id v))" if "bill' = Some v" for v
    using invoice_to_pay_Some s(3,4) that by (simp add: currency_fits_def)
  have none: "which q \<Longrightarrow> False" if "q \<in> set (payments db)" "py_workspace q = w" "py_status q \<in> {Pay_Pending, Pay_Processing, Pay_Completed}"
      "\<not> attempts db w {Pay_Completed} which" "\<not> attempts db w {Pay_Pending, Pay_Processing} which" for q which
    using that by (auto simp: attempts_def list_ex_iff)
  have alone: "py_order q = None \<or> py_order q \<noteq> py_order p" "py_invoice q = None \<or> py_invoice q \<noteq> py_invoice p"
    if q: "q \<in> set (payments db)" "py_workspace q = w" "py_status q \<in> {Pay_Pending, Pay_Processing, Pay_Completed}" for q
  proof -
    show "py_order q = None \<or> py_order q \<noteq> py_order p"
    proof (cases order')
      case (Some r)
      with none [OF q, of "\<lambda>p. py_order p = Some (od_id r)"] o have "py_order q \<noteq> Some (od_id r)" by blast
      with Some show ?thesis by (simp add: s(7))
    qed (cases "py_order q", simp_all add: s(7))
    show "py_invoice q = None \<or> py_invoice q \<noteq> py_invoice p"
    proof (cases bill')
      case (Some x)
      with none [OF q, of "\<lambda>p. py_invoice p = Some (inv_id x)"] v have "py_invoice q \<noteq> Some (inv_id x)" by blast
      with Some show ?thesis by (simp add: s(7))
    qed (cases "py_invoice q", simp_all add: s(7))
  qed
  show ?thesis using s(1,5) o v alone by (intro conjI) (auto simp: s(6,7))
qed

subsection \<open>Numbers\<close>

text \<open>
  The search for a payment number ends exactly when a number none of the workspace's payments has is
  drawn at some time, with the first such; when everything that can be drawn is taken it never ends.
\<close>

theorem number_search_ends:
  "(generate_payment_number e draw w db = Some n \<longleftrightarrow>
     (\<exists>k. n = number_head e @ draw k \<and> n \<notin> py_number ` {p \<in> set (payments db). py_workspace p = w} \<and>
       (\<lambda>j. number_head e @ draw j) ` {..<k} \<subseteq> py_number ` {p \<in> set (payments db). py_workspace p = w})) \<and>
   (generate_payment_number e draw w db = None \<longleftrightarrow>
     range (\<lambda>k. number_head e @ draw k) \<subseteq> py_number ` {p \<in> set (payments db). py_workspace p = w})"
proof -
  define used where "used = map py_number (filter (\<lambda>p. py_workspace p = w) (payments db))"
  define d where "d = (\<lambda>k. number_head e @ draw k)"
  have u: "set used = py_number ` {p \<in> set (payments db). py_workspace p = w}" by (simp add: used_def)
  have found: "pick_number d used 0 = Some n \<longleftrightarrow> (\<exists>k. n = d k \<and> n \<notin> set used \<and> d ` {..<k} \<subseteq> set used)" for n
  proof
    assume "pick_number d used 0 = Some n"
    from pick_number_Some [OF this] obtain m where "n = d m" "d m \<notin> set used" "\<forall>j \<in> {0 ..< m}. d j \<in> set used" by blast
    then show "\<exists>k. n = d k \<and> n \<notin> set used \<and> d ` {..<k} \<subseteq> set used" by (intro exI [of _ m]) auto
  next
    assume "\<exists>k. n = d k \<and> n \<notin> set used \<and> d ` {..<k} \<subseteq> set used"
    then obtain k where "n = d k" "d k \<notin> set used" "\<And>j. j < k \<Longrightarrow> d (0 + j) \<in> set used" by auto
    with pick_number_skips [of k d 0 used] show "pick_number d used 0 = Some n" by simp
  qed
  have "pick_number d used 0 = None \<longleftrightarrow> range d \<subseteq> set used"
  proof
    assume n: "pick_number d used 0 = None"
    show "range d \<subseteq> set used"
    proof (rule ccontr)
      assume "\<not> range d \<subseteq> set used"
      then obtain k where "d k \<notin> set used" by blast
      define m where "m = (LEAST k. d k \<notin> set used)"
      have "d m \<notin> set used" unfolding m_def by (rule LeastI) fact
      moreover have "d j \<in> set used" if "j < m" for j using not_less_Least [of j "\<lambda>k. d k \<notin> set used"] that by (simp add: m_def)
      ultimately have "pick_number d used 0 = Some (d m)" using found [of "d m"] by blast
      with n show False by simp
    qed
  next
    assume "range d \<subseteq> set used"
    with found show "pick_number d used 0 = None" by (metis not_None_eq rangeI subsetD)
  qed
  moreover have "generate_payment_number e draw w db = pick_number d used 0"
    by (simp add: generate_payment_number_def d_def used_def)
  ultimately show ?thesis using found [of n] unfolding u [symmetric] d_def by simp
qed

subsection \<open>What the gateway reports\<close>

lemma minor_exact:
  "to_minor_units amount cur = Some n \<longleftrightarrow> of_int n = amount * 10 ^ decimal_places cur \<and> 0 < n"
proof -
  let ?x = "amount * 10 ^ decimal_places cur" and ?r = "round_half_even (amount * 10 ^ decimal_places cur)"
  have q: "quantize_half_even (decimal_places cur) amount = of_int ?r / 10 ^ decimal_places cur" by (rule half_even.q_rnd)
  have "amount = quantize_half_even (decimal_places cur) amount \<longleftrightarrow> ?x = of_int ?r" unfolding q by (auto simp: field_simps)
  then have "to_minor_units amount cur = Some n \<longleftrightarrow> ?x = of_int ?r \<and> 0 < ?r \<and> n = ?r"
    by (auto simp: to_minor_units_def Let_def q)
  also have "\<dots> \<longleftrightarrow> of_int n = ?x \<and> 0 < n"
  proof
    assume "of_int n = ?x \<and> 0 < n"
    then have "?r = n" using half_even.rnd_int [of n] by simp
    with \<open>of_int n = ?x \<and> 0 < n\<close> show "?x = of_int ?r \<and> 0 < ?r \<and> n = ?r" by simp
  qed simp
  finally show ?thesis .
qed

text \<open>
  An amount has minor units exactly when they say it exactly: there are such units for what the
  currency has places for, and no rounding anywhere.
\<close>

theorem minor_units_exact:
  "to_minor_units amount cur = Some n \<longleftrightarrow> of_int n = amount * 10 ^ decimal_places cur \<and> 0 < n"
  by (rule minor_exact)

text \<open>
  A report moves only what it vouches for. Where it changes anything, the plugin of that very gateway
  has verified it, the payment it names was made through that gateway under the reference it gives
  and is still under way, and the report's amount and currency, which stripe's always has, are the
  payment's own to the last minor unit.
\<close>

theorem report_vouches_for_what_it_moves:
  "handle_webhook e out w gw type payload db = (Inr (), db) \<or> (\<exists>err. handle_webhook e out w gw type payload db = (Inl err, db)) \<or>
    (\<exists>plugin p cur. plugin_of out gw = Some plugin \<and> ev_success (read_event plugin type payload) \<and> p \<in> set (payments db) \<and>
       py_gateway p = Some (gw_id gw) \<and> py_reference p = ev_intent (read_event plugin type payload) \<and> py_reference p \<noteq> [] \<and>
       py_status p \<in> {Pay_Pending, Pay_Processing} \<and> currency_by_id db (py_currency p) = Some cur \<and>
       (ev_minor (read_event plugin type payload) = None \<and> gw_type gw \<noteq> ''stripe'' \<or>
        (\<exists>n. ev_minor (read_event plugin type payload) = Some n \<and> of_int n = py_amount p * 10 ^ decimal_places cur)) \<and>
       (ev_currency (read_event plugin type payload) = [] \<and> gw_type gw \<noteq> ''stripe'' \<or>
        upper (ev_currency (read_event plugin type payload)) = upper (cur_code cur)))"
proof (cases "plugin_of out gw")
  case (Some plugin)
  let ?ev = "read_event plugin type payload"
  show ?thesis
  proof (cases "ev_success ?ev \<and> ev_intent ?ev \<noteq> [] \<and> webhook_payment db gw (ev_intent ?ev) \<noteq> None")
    case True
    then obtain p where p: "webhook_payment db gw (ev_intent ?ev) = Some p" by blast
    then have m: "p \<in> set (payments db)" "py_gateway p = Some (gw_id gw)" "py_reference p = ev_intent ?ev"
      by (auto simp: webhook_payment_def dest: latest_by_in)
    show ?thesis
    proof (cases "event_matches db gw p ?ev = Inr True \<and> py_status p \<in> {Pay_Pending, Pay_Processing}")
      case match: True
      then have "event_matches db gw p ?ev = Inr True" by blast
      then obtain cur where c: "currency_by_id db (py_currency p) = Some cur"
        and a: "(case ev_minor ?ev of None \<Rightarrow> Inr True
            | Some n \<Rightarrow> (case to_minor_units (py_amount p) cur of None \<Rightarrow> Inl Bad_Minor_Units | Some m \<Rightarrow> Inr (n = m))) = Inr True"
        and u: "ev_currency ?ev = [] \<or> upper (ev_currency ?ev) = upper (cur_code cur)"
        and t: "gw_type gw = ''stripe'' \<Longrightarrow> ev_minor ?ev \<noteq> None \<and> ev_currency ?ev \<noteq> []"
        by (auto simp: event_matches_def bind_r_Inr split: if_splits option.splits)
      have "of_int n = py_amount p * 10 ^ decimal_places cur" if "ev_minor ?ev = Some n" for n
        using a that minor_exact [of "py_amount p" cur n] by (auto split: option.splits)
      with t have "ev_minor ?ev = None \<and> gw_type gw \<noteq> ''stripe'' \<or>
        (\<exists>n. ev_minor ?ev = Some n \<and> of_int n = py_amount p * 10 ^ decimal_places cur)" by (cases "ev_minor ?ev") auto
      moreover from u t have "ev_currency ?ev = [] \<and> gw_type gw \<noteq> ''stripe'' \<or> upper (ev_currency ?ev) = upper (cur_code cur)" by blast
      ultimately show ?thesis using Some True m c match by (intro disjI2 exI [of _ plugin] exI [of _ p] exI [of _ cur]) simp
    next
      case False
      with Some True p show ?thesis by (auto simp: handle_webhook_def Let_def split: sum.splits bool.splits)
    qed
  next
    case False
    with Some show ?thesis by (auto simp: handle_webhook_def Let_def)
  qed
qed (simp add: handle_webhook_def)

subsection \<open>Bills settled through a gateway\<close>

lemma queue_again: "ent_ok db \<Longrightarrow> queue_renewal e (queue_renewal e db (Some i)) (Some i) = queue_renewal e db (Some i)"
  using renew_again [of e db i _ _ e] by (auto simp: queue_renewal_def split: sum.split prod.split)

text \<open>
  C23: A bill settled through a gateway is acted on once. Completing its payment is heard three times, as
  the save of the paid row, as \<open>invoice.paid\<close> and as \<open>payment.completed\<close>; the platform's database
  is afterwards what a single renewal makes of the one in which just the invoice is marked as paid.
\<close>

theorem settled_bill_buys_once:
  assumes "complete_confirmed_payment e out w i old db = Inr (p, db')" "payment_of db w i = Some before"
    "py_status before \<noteq> Pay_Completed" "py_invoice before = Some j" "invoice_by_id (base db) j = Some v" "ent_ok (base db)"
  shows "base db' = queue_renewal e (invoice_marked e j (base db)) (Some j)"
proof -
  let ?p = "completed_at e before" and ?b = "invoice_marked e j (base db)"
  let ?q = "\<lambda>b. queue_renewal e b (Some j)"
  from assms(1-3) obtain d1 d2 where s:
    "settle_order e w ?p (create_transaction ?p ''payment'' (py_amount ?p) (save_payment ?p db)) = Inr d1"
    "settle_invoice e out w ?p d1 = Inr d2" "base db' = on_payment_completed e (base d2) (py_invoice ?p)"
    by (auto simp: complete_confirmed_payment_def Let_def bind_r_Inr split: if_splits)
  have b1: "base d1 = base db" using settle_order_frame [OF s(1)] by simp
  have ok: "ent_ok ?b" using assms(6) by (simp add: ent_ok_def invoice_marked_def)
  note again = queue_again [OF ok]
  from s(2) assms(4,5) b1 obtain b d where saved: "on_invoice_saved e ?b (paid_invoice (today e) v) False = Inr b"
    and cons: "update_consignment_status out w j ''PAID'' (d1\<lparr>base := b\<rparr>) = Inr d"
    and d2: "base d2 = on_invoice_paid e (base d) (invoice_by_id (base d) j)"
    by (auto simp: settle_invoice_def bind_r_Inr split: sum.splits)
  have id: "inv_id v = j" using assms(5) by (auto simp: invoice_by_id_def dest: first_filter_SomeD)
  have bd: "base d = b" using update_consignment_frame [OF cons] by simp
  have b: "b = ?b \<or> b = ?q ?b"
    using saved id by (auto simp: on_invoice_saved_def bind_r_Inr paid_invoice_def split: if_splits)
  have "inv_id x = j" if "invoice_by_id b j = Some x" for x
    using that by (auto simp: invoice_by_id_def dest: first_filter_SomeD)
  then have "base d2 = b \<or> base d2 = ?q b"
    unfolding d2 bd by (cases "invoice_by_id b j") (auto simp: on_invoice_paid_def queue_renewal_def)
  with b again have "base d2 = ?b \<or> base d2 = ?q ?b" by auto
  with again assms(4) s(3) show ?thesis by (auto simp: on_payment_completed_def)
qed

subsection \<open>What is not excluded\<close>

text \<open>
  A payment given back in full is no longer completed, but its confirmation is still stored:
  processing it again completes it and books its amount a second time.
\<close>

lemma refunded_is_booked_again:
  assumes "payment_of db w (py_id given) = Some p" "py_workspace given = w" "py_status p = Pay_Refunded"
    "response_succeeded (py_response p)" "py_order p = None" "py_invoice p = None"
  shows "\<exists>db'. process_payment e out w given d manual db = (Inr (completed_at e p), db') \<and>
    bookings db' (py_id given) = Suc (bookings db (py_id given))"
  using assms payment_of_Some [OF assms(1)]
  by (simp add: process_payment_def claim_payment_def complete_confirmed_payment_def Let_def settle_order_def settle_invoice_def
    then_finish_def bookings_def ledger_of_def create_transaction_def announce_def table_simps)

text \<open>
  The answer of the gateway is stored without looking at what became of the payment while it was
  asked: an answer that comes after a report has completed the payment opens it again, and it is
  booked twice.
\<close>

lemma late_answer_books_again:
  assumes "payment_of db w i = Some p" "py_status p = Pay_Completed" "response_succeeded rp" "py_order p = None" "py_invoice p = None"
    "distinct (map py_id (payments db))"
  shows "\<exists>q db1 db2. record_answer w i rp db = Inr (q, db1) \<and> complete_confirmed_payment e out w i old db1 = Inr (completed_at e q, db2) \<and>
    bookings db2 i = Suc (bookings db i)"
proof -
  let ?q = "p\<lparr>py_reference := rp_reference rp, py_response := rp, py_status := answered_status rp\<rparr>"
  note m = payment_of_Some [OF assms(1)]
  have r: "record_answer w i rp db = Inr (?q, save_payment ?q db)" using assms(1) by (simp add: record_answer_def Let_def)
  have p1: "payment_of (save_payment ?q db) w i = Some ?q"
    using first_filter_update [of py_id "payments db" p ?q "\<lambda>p. py_id p = i \<and> py_workspace p = w"] assms(1,6) m
    by (simp add: payment_of_def save_payment_def)
  have st: "answered_status rp = Pay_Processing" using assms(3) by (simp add: answered_status_def)
  have "\<exists>db2. complete_confirmed_payment e out w i old (save_payment ?q db) = Inr (completed_at e ?q, db2) \<and> bookings db2 i = Suc (bookings db i)"
    using p1 assms m st by (simp add: complete_confirmed_payment_def Let_def settle_order_def settle_invoice_def
      bookings_def ledger_of_def create_transaction_def announce_def table_simps)
  with r show ?thesis by blast
qed

text \<open>
  A failed attempt can be processed again, and is not asked whether another has paid the invoice
  since: the gateway is asked for the same money a second time.
\<close>

lemma failed_attempt_is_taken_up:
  assumes "payment_of db w i = Some p" "py_status p = Pay_Failed" "\<not> response_succeeded (py_response p)" "linked_gateway db p = Some gw"
    "0 < py_amount p" "py_order p = None" "py_invoice p = Some j" "invoice_by_id (base db) j = Some v" "inv_total v = py_amount p"
    "inv_status v = Inv_Paid" "q \<in> set (payments db)" "py_invoice q = Some j" "py_status q = Pay_Completed"
  shows "claim_payment w i manual db = Inr (Claimed (p\<lparr>py_status := Pay_Processing\<rparr>) gw Pay_Failed,
    save_payment (p\<lparr>py_status := Pay_Processing\<rparr>) db)"
  using assms(1-9) by (simp add: claim_payment_def check_def total_of_order_def total_of_invoice_def Let_def)

end
