(* ===== verification/Bill_Payment.thy ===== *)
theory Bill_Payment
  imports Payment_Settling
begin

text \<open>
  Starting to pay a bill of the platform (\<open>platform/services/bill_payment.py\<close>): finding the bill by its
  number for the workspace it bills, refusing one with nothing to pay, choosing the management
  workspace's gateway, handing back the attempt under way or making a new one, and asking the gateway
  for what the payer needs. The workspace the calls into \<open>finance\<close> are bound to, the management
  workspace, is an argument here: the bill that was found is one of its own.
\<close>

subsection \<open>The calls\<close>

datatype bill_refusal = Platform_Missing | Invoice_Not_Found | Invoice_Settled | Invoice_Cancelled | Nothing_To_Pay
  | Gateway_Not_Found | No_Gateway | Payment_Under_Way string pay_status | Refused pay_error | Raised pay_error
  | Gateway_Unavailable | Intent_Raised

definition find_bill :: "env \<Rightarrow> platform_db \<Rightarrow> nat \<Rightarrow> string \<Rightarrow> bill_refusal + invoice" where
  "find_bill e db w invoice_number = (case get_platform_workspace e db of None \<Rightarrow> Inl Platform_Missing
   | Some platform \<Rightarrow> let number = strip invoice_number in
       if \<not> startswith (invoice_number_prefix w) number then Inl Invoice_Not_Found
       else (case first (filter (\<lambda>v. inv_workspace v = ws_id platform \<and> inv_number v = number) (invoices db)) of
           None \<Rightarrow> Inl Invoice_Not_Found | Some v \<Rightarrow> Inr v))"

definition refuse_unpayable :: "invoice \<Rightarrow> bill_refusal + unit" where
  "refuse_unpayable v = (if inv_status v = Inv_Paid then Inl Invoice_Settled
     else if inv_status v = Inv_Cancelled then Inl Invoice_Cancelled
     else if inv_total v \<le> 0 then Inl Nothing_To_Pay else Inr ())"

definition choose_gateway :: "fin_db \<Rightarrow> nat \<Rightarrow> nat option \<Rightarrow> bill_refusal + gateway" where
  "choose_gateway db platform named =
    (let open_ones = filter (\<lambda>g. gw_workspace g = platform \<and> gw_active g) (gateways db) in
     case named of
       Some i \<Rightarrow> (case first (filter (\<lambda>g. gw_id g = i) open_ones) of None \<Rightarrow> Inl Gateway_Not_Found | Some g \<Rightarrow> Inr g)
     | None \<Rightarrow> (case earliest_by gw_id open_ones of None \<Rightarrow> Inl No_Gateway | Some g \<Rightarrow> Inr g))"

definition under_way :: "fin_db \<Rightarrow> nat \<Rightarrow> invoice \<Rightarrow> payment option" where
  "under_way db platform v = earliest_by py_id (filter (\<lambda>p. py_workspace p = platform \<and> py_invoice p = Some (inv_id v) \<and>
     py_status p \<in> {Pay_Pending, Pay_Processing}) (payments db))"

text \<open>What \<open>create_payment\<close> raises is a refusal when it is a \<open>PaymentFailed\<close>, and goes through otherwise.\<close>

definition refusal_of :: "pay_error \<Rightarrow> bill_refusal" where
  "refusal_of err = (if err \<in> {Wrong_Workspace, Row_Missing, Number_Taken} then Raised err else Refused err)"

definition customer_by_id :: "fin_db \<Rightarrow> nat \<Rightarrow> customer option" where
  "customer_by_id db c = first (filter (\<lambda>x. cu_id x = c) (customers (base db)))"

definition resume_or_raise :: "env \<Rightarrow> (nat \<Rightarrow> string) \<Rightarrow> nat \<Rightarrow> invoice \<Rightarrow> gateway \<Rightarrow> fin_db
    \<Rightarrow> (bill_refusal + (payment \<times> fin_db)) option" where
  "resume_or_raise e draw platform v gw db = (case under_way db platform v of
     Some p \<Rightarrow> Some (if py_status p = Pay_Pending \<and> py_gateway p = Some (gw_id gw) \<and> py_amount p = inv_total v \<and> py_currency p = inv_currency v
        then Inr (p, db) else Inl (Payment_Under_Way (py_number p) (py_status p)))
   | None \<Rightarrow> (case customer_by_id db (inv_customer v) of None \<Rightarrow> Some (Inl (Raised Row_Missing))
     | Some customer \<Rightarrow> (case currency_by_id db (inv_currency v) of None \<Rightarrow> Some (Inl (Raised Row_Missing))
       | Some cur \<Rightarrow> map_option (map_sum refusal_of id)
           (create_payment e draw platform customer (inv_total v) cur gw None (Some v) None db))))"

definition payment_intent :: "plugin \<Rightarrow> payment \<Rightarrow> fin_db \<Rightarrow> bill_refusal + (string \<times> payment \<times> fin_db)" where
  "payment_intent plugin p db = (case open_intent plugin p of None \<Rightarrow> Inl Intent_Raised
   | Some i \<Rightarrow> if i \<noteq> [] \<and> py_reference p \<noteq> i
       then let p' = p\<lparr>py_reference := i\<rparr> in Inr (i, p', save_payment p' db)
       else Inr (i, p, db))"

record started =
  st_invoice :: invoice
  st_payment :: payment
  st_gateway :: gateway
  st_intent :: string

definition with_intent :: "outside \<Rightarrow> invoice \<Rightarrow> gateway \<Rightarrow> payment \<Rightarrow> fin_db \<Rightarrow> (bill_refusal + started) \<times> fin_db" where
  "with_intent out v gw p db = (case plugin_of out gw of None \<Rightarrow> (Inl Gateway_Unavailable, db)
     | Some plugin \<Rightarrow> (case payment_intent plugin p db of Inl err \<Rightarrow> (Inl err, db)
       | Inr (i, p, db) \<Rightarrow> (Inr \<lparr>st_invoice = v, st_payment = p, st_gateway = gw, st_intent = i\<rparr>, db)))"

definition start_payment :: "env \<Rightarrow> outside \<Rightarrow> (nat \<Rightarrow> string) \<Rightarrow> nat \<Rightarrow> string \<Rightarrow> nat option \<Rightarrow> fin_db
    \<Rightarrow> ((bill_refusal + started) \<times> fin_db) option" where
  "start_payment e out draw w invoice_number gateway_id db =
    (case bind_r (find_bill e (base db) w invoice_number) (\<lambda>v. bind_r (refuse_unpayable v) (\<lambda>_.
         bind_r (choose_gateway db (inv_workspace v) gateway_id) (\<lambda>gw. Inr (v, gw)))) of
       Inl err \<Rightarrow> Some (Inl err, db)
     | Inr (v, gw) \<Rightarrow> map_option (\<lambda>res. case res of Inl err \<Rightarrow> (Inl err, db) | Inr (p, db) \<Rightarrow> with_intent out v gw p db)
         (resume_or_raise e draw (inv_workspace v) v gw db))"

subsection \<open>Whose bill it is\<close>

lemma find_bill_Inr:
  assumes "find_bill e db w n = Inr v"
  shows "v \<in> set (invoices db) \<and> inv_number v = strip n \<and> startswith (invoice_number_prefix w) (strip n) \<and>
    (\<exists>platform. get_platform_workspace e db = Some platform \<and> inv_workspace v = ws_id platform)"
  using assms by (auto simp: find_bill_def Let_def split: option.splits if_splits dest: first_filter_SomeD)

text \<open>
  Nobody reaches another's bill: the number under which a workspace finds a bill is, for every other
  workspace, one that does not exist, whatever it asks, and asking changes nothing.
\<close>

theorem bill_is_found_by_its_workspace:
  assumes "find_bill e (base db) w number = Inr v" "w' \<noteq> w"
  shows "start_payment e out draw w' number gateway_id db = Some (Inl Invoice_Not_Found, db)"
proof -
  note f = find_bill_Inr [OF assms(1)]
  have "\<not> startswith (invoice_number_prefix w') (strip number)" using f prefix_apart assms(2) by blast
  then have "find_bill e (base db) w' number = Inl Invoice_Not_Found" using f by (auto simp: find_bill_def Let_def)
  then show ?thesis by (simp add: start_payment_def)
qed

lemma choose_gateway_Inr:
  "choose_gateway db platform named = Inr g \<Longrightarrow> g \<in> set (gateways db) \<and> gw_workspace g = platform \<and> gw_active g"
  by (auto simp: choose_gateway_def Let_def split: option.splits dest!: first_SomeD earliest_by_in)

lemma with_intent_db:
  assumes "with_intent out v gw p db = (res, db')"
  shows "db' = db \<and> (\<forall>st. res = Inr st \<longrightarrow> st_payment st = p) \<or>
    (\<exists>i. db' = save_payment (p\<lparr>py_reference := i\<rparr>) db \<and> (\<forall>st. res = Inr st \<longrightarrow> st_payment st = p\<lparr>py_reference := i\<rparr>))"
    "res = Inr st \<Longrightarrow> st_invoice st = v \<and> st_gateway st = gw"
  using assms by (auto simp: with_intent_def payment_intent_def Let_def split: option.splits sum.splits if_splits)

lemma start_cases:
  assumes "start_payment e out draw w number gid db = Some (res, db')"
  obtains err where "res = Inl err" "db' = db"
  | v gw p db1 where "find_bill e (base db) w number = Inr v" "refuse_unpayable v = Inr ()" "choose_gateway db (inv_workspace v) gid = Inr gw"
      "resume_or_raise e draw (inv_workspace v) v gw db = Some (Inr (p, db1))" "with_intent out v gw p db1 = (res, db')"
proof (cases "bind_r (find_bill e (base db) w number) (\<lambda>v. bind_r (refuse_unpayable v) (\<lambda>_.
         bind_r (choose_gateway db (inv_workspace v) gid) (\<lambda>gw. Inr (v, gw))))")
  case (Inl err)
  with assms have "res = Inl err" "db' = db" by (auto simp: start_payment_def)
  then show thesis by (rule that(1))
next
  case (Inr vg)
  obtain v gw where vg: "vg = (v, gw)" by fastforce
  with Inr have f: "find_bill e (base db) w number = Inr v" "refuse_unpayable v = Inr ()" "choose_gateway db (inv_workspace v) gid = Inr gw"
    by (auto simp: bind_r_Inr)
  from assms Inr vg obtain r where r: "resume_or_raise e draw (inv_workspace v) v gw db = Some r"
    "(case r of Inl err \<Rightarrow> (Inl err, db) | Inr (p, db) \<Rightarrow> with_intent out v gw p db) = (res, db')"
    by (auto simp: start_payment_def)
  show thesis
  proof (cases r)
    case (Inl err)
    with r(2) have "res = Inl err" "db' = db" by auto
    then show thesis by (rule that(1))
  next
    case (Inr s)
    with r that(2) [OF f] show thesis by (cases s) simp
  qed
qed

subsection \<open>One attempt\<close>

lemma created_frame: "create_payment e draw w customer amount cur gw order bill pm db = Some (Inr (p, db')) \<Longrightarrow>
    db' = db\<lparr>payments := payments db @ [p]\<rparr> \<and> py_id p = fresh_id py_id (payments db) \<and> py_status p = Pay_Pending \<and> py_workspace p = w \<and>
    py_gateway p = Some (gw_id gw) \<and> py_amount p = amount \<and> py_currency p = cur_id cur"
  by (erule create_cases) simp

lemma created_invoice:
  assumes "create_payment e draw w customer amount cur gw None (Some v) pm db = Some (Inr (p, db'))"
  shows "py_invoice p = Some (inv_id v)"
  using assms
  by (auto simp: create_payment_def bind_r_Inr insert_payment_def order_to_pay_def invoice_to_pay_def split: sum.splits if_splits option.splits
      dest!: first_filter_SomeD)

lemma in_set_nonempty: "x \<in> set xs \<Longrightarrow> xs \<noteq> []"
  by auto

lemma map_sum_Inr: "map_sum f id s = Inr y \<longleftrightarrow> s = Inr y"
  by (cases s) auto

lemma earliest_single [simp]: "earliest_by key [x] = Some x"
  by (simp add: earliest_by_def)

lemma resume_spec:
  assumes "resume_or_raise e draw w v gw db = Some (Inr (p, db1))" "distinct (map py_id (payments db))"
  shows "base db1 = base db \<and> shop db1 = shop db \<and> gateways db1 = gateways db \<and> ledger db1 = ledger db \<and> refunds db1 = refunds db \<and>
    (payments db1 = payments db \<or> payments db1 = payments db @ [p]) \<and> distinct (map py_id (payments db1)) \<and> under_way db1 w v = Some p \<and>
    py_status p = Pay_Pending \<and> py_gateway p = Some (gw_id gw) \<and> py_amount p = inv_total v \<and> py_currency p = inv_currency v"
proof (cases "under_way db w v")
  case None
  then have none: "filter (\<lambda>p. py_workspace p = w \<and> py_invoice p = Some (inv_id v) \<and> py_status p \<in> {Pay_Pending, Pay_Processing}) (payments db) = []"
    by (simp add: under_way_def)
  from assms(1) None obtain customer cur where c: "currency_by_id db (inv_currency v) = Some cur"
    "create_payment e draw w customer (inv_total v) cur gw None (Some v) None db = Some (Inr (p, db1))"
    by (auto simp: resume_or_raise_def map_sum_Inr split: option.splits)
  have cid: "cur_id cur = inv_currency v" using c(1) by (auto simp: currency_by_id_def dest: first_filter_SomeD)
  note f = created_frame [OF c(2)] and i = created_invoice [OF c(2)]
  have "under_way db1 w v = Some p" using f i none by (simp add: under_way_def)
  moreover have "distinct (map py_id (payments db1))" using f assms(2) fresh_id_notin [of py_id "payments db"] by simp
  ultimately show ?thesis using f cid by simp
next
  case (Some q)
  with assms show ?thesis by (auto simp: resume_or_raise_def split: if_splits)
qed

lemma under_way_update:
  assumes "under_way db w v = Some p" "distinct (map py_id (payments db))" "py_workspace p' = py_workspace p" "py_invoice p' = py_invoice p"
    "py_status p' = py_status p" "py_id p' = py_id p"
  shows "under_way (save_payment p' db) w v = Some p'"
proof -
  let ?P = "\<lambda>p. py_workspace p = w \<and> py_invoice p = Some (inv_id v) \<and> py_status p \<in> {Pay_Pending, Pay_Processing}"
  let ?ps = "filter ?P (payments (save_payment p' db))"
  have p: "p \<in> set (payments db)" "?P p" using assms(1) by (auto simp: under_way_def dest: earliest_by_in)
  have m: "p' \<in> set ?ps" using p assms(3-6) by (auto simp: save_payment_def set_update_where image_iff)
  have "?ps \<noteq> []" using m by (rule in_set_nonempty)
  then have "earliest_by py_id ?ps \<noteq> None" by (simp only: earliest_by_None not_False_eq_True)
  then obtain y where y: "earliest_by py_id ?ps = Some y" by blast
  have le: "py_id y \<le> py_id p'" by (rule earliest_by_min [OF y m])
  have y1: "y \<in> set (update_where (\<lambda>x. py_id x = py_id p') (\<lambda>_. p') (payments db))" "?P y"
    using earliest_by_in [OF y] by (simp_all add: save_payment_def)
  from update_members [OF y1(1)] assms(6) have y': "y = p' \<or> y \<in> set (payments db) \<and> py_id y \<noteq> py_id p" by simp
  have "py_id p \<le> py_id y" if "y \<in> set (payments db)"
    using earliest_by_min [of py_id "filter ?P (payments db)" p y] assms(1) that y1(2) by (simp add: under_way_def)
  with y' le assms(6) have "y = p'" by fastforce
  with y show ?thesis by (simp add: under_way_def)
qed

text \<open>
  What is started is for the bill as it stands: its whole total, through an active gateway of the
  management workspace whose bill it is, which is neither paid nor cancelled. Nothing is booked or
  settled by it: only the one payment is new, or only its reference.
\<close>

theorem started_for_the_bill:
  assumes "start_payment e out draw w number gid db = Some (Inr st, db')" "distinct (map py_id (payments db))"
  shows "find_bill e (base db) w number = Inr (st_invoice st) \<and> inv_status (st_invoice st) \<noteq> Inv_Paid \<and>
    inv_status (st_invoice st) \<noteq> Inv_Cancelled \<and> 0 < inv_total (st_invoice st) \<and>
    st_gateway st \<in> set (gateways db) \<and> gw_active (st_gateway st) \<and> gw_workspace (st_gateway st) = inv_workspace (st_invoice st) \<and>
    py_amount (st_payment st) = inv_total (st_invoice st) \<and> py_status (st_payment st) = Pay_Pending \<and>
    under_way db' (inv_workspace (st_invoice st)) (st_invoice st) = Some (st_payment st) \<and>
    base db' = base db \<and> shop db' = shop db \<and> ledger db' = ledger db \<and> refunds db' = refunds db \<and>
    (\<exists>extra. map py_id (payments db') = map py_id (payments db) @ extra \<and> length extra \<le> 1)"
  using assms(1)
proof (cases rule: start_cases)
  case (2 v gw p db1)
  note r = resume_spec [OF 2(4) assms(2)]
  have st: "st_invoice st = v" "st_gateway st = gw" using with_intent_db(2) [OF 2(5)] by simp_all
  note g = choose_gateway_Inr [OF 2(3)]
  have up: "refuse_unpayable v = Inr () \<Longrightarrow> inv_status v \<noteq> Inv_Paid \<and> inv_status v \<noteq> Inv_Cancelled \<and> 0 < inv_total v"
    by (auto simp: refuse_unpayable_def split: if_splits)
  have ids: "\<exists>extra. map py_id (payments db1) = map py_id (payments db) @ extra \<and> length extra \<le> 1" using r by auto
  have mem: "p \<in> set (payments db1)" "py_id p = py_id p" using r by (auto simp: under_way_def dest: earliest_by_in)
  from with_intent_db(1) [OF 2(5)] show ?thesis
  proof (elim disjE exE conjE)
    assume "db' = db1" "\<forall>s. Inr st = Inr s \<longrightarrow> st_payment s = p"
    with 2(1,2) st g up r ids show ?thesis by simp
  next
    fix i assume i: "db' = save_payment (p\<lparr>py_reference := i\<rparr>) db1" "\<forall>s. Inr st = Inr s \<longrightarrow> st_payment s = p\<lparr>py_reference := i\<rparr>"
    let ?p = "p\<lparr>py_reference := i\<rparr>"
    have u: "under_way db' (inv_workspace v) v = Some ?p" unfolding i(1) by (rule under_way_update) (use r in simp_all)
    have "map py_id (payments db') = map py_id (payments db1)"
      using update_keys [of py_id ?p p py_id "payments db1"] r mem by (simp add: i(1) save_payment_def)
    with ids have "\<exists>extra. map py_id (payments db') = map py_id (payments db) @ extra \<and> length extra \<le> 1" by simp
    with 2(1,2) st g up r u i show ?thesis by simp
  qed
qed simp

lemma resumed_again:
  assumes "under_way db w v = Some p" "py_status p = Pay_Pending" "resume_or_raise e draw w v gw db = Some r"
  shows "r = Inr (p, db) \<or> (\<exists>err. r = Inl err)"
  using assms by (auto simp: resume_or_raise_def split: if_splits)

lemma with_intent_ids:
  assumes "with_intent out v gw p db = (res, db')" "distinct (map py_id (payments db))" "p \<in> set (payments db)"
  shows "map py_id (payments db') = map py_id (payments db) \<and> (\<forall>st. res = Inr st \<longrightarrow> py_id (st_payment st) = py_id p)"
  using with_intent_db(1) [OF assms(1)]
proof (elim disjE exE conjE)
  fix i assume i: "db' = save_payment (p\<lparr>py_reference := i\<rparr>) db" "\<forall>st. res = Inr st \<longrightarrow> st_payment st = p\<lparr>py_reference := i\<rparr>"
  then show ?thesis using update_keys [of py_id "p\<lparr>py_reference := i\<rparr>" p py_id "payments db"] assms(2,3) by (simp add: save_payment_def)
qed simp

lemma started_ids:
  assumes "start_payment e out draw w number gid db = Some (Inr st, db')" "distinct (map py_id (payments db))"
  shows "\<exists>extra. map py_id (payments db') = map py_id (payments db) @ extra \<and> length extra \<le> 1"
  using assms(1)
proof (cases rule: start_cases)
  case (2 v gw p db1)
  note r = resume_spec [OF 2(4) assms(2)]
  then have "p \<in> set (payments db1)" by (auto simp: under_way_def dest: earliest_by_in)
  from with_intent_ids [OF 2(5) _ this] r show ?thesis by auto
qed simp

text \<open>
  What stays true while the attempt is under way: the bill is found under the number, can be paid, and
  the attempt with this id is the one under way, still pending.
\<close>

definition attempt_open :: "env \<Rightarrow> nat \<Rightarrow> string \<Rightarrow> nat \<Rightarrow> fin_db \<Rightarrow> bool" where
  "attempt_open e w number i db \<longleftrightarrow> distinct (map py_id (payments db)) \<and> (\<exists>v p. find_bill e (base db) w number = Inr v \<and>
     refuse_unpayable v = Inr () \<and> under_way db (inv_workspace v) v = Some p \<and> py_id p = i \<and> py_status p = Pay_Pending)"

lemma with_intent_open:
  assumes "with_intent out v gw p db = (res, db')" "attempt_open e w number (py_id p) db" "find_bill e (base db) w number = Inr v"
    and "under_way db (inv_workspace v) v = Some p"
  shows "attempt_open e w number (py_id p) db' \<and> map py_id (payments db') = map py_id (payments db) \<and>
    (\<forall>st. res = Inr st \<longrightarrow> py_id (st_payment st) = py_id p)"
proof -
  have p: "p \<in> set (payments db)" using assms(4) by (auto simp: under_way_def dest: earliest_by_in)
  have d: "distinct (map py_id (payments db))" "refuse_unpayable v = Inr ()" "py_status p = Pay_Pending"
    using assms(2-4) by (auto simp: attempt_open_def)
  note ids = with_intent_ids [OF assms(1) d(1) p]
  from with_intent_db(1) [OF assms(1)] have "attempt_open e w number (py_id p) db'"
  proof (elim disjE exE conjE)
    assume "db' = db"
    with assms(2) show ?thesis by simp
  next
    fix i assume i: "db' = save_payment (p\<lparr>py_reference := i\<rparr>) db"
    have "under_way db' (inv_workspace v) v = Some (p\<lparr>py_reference := i\<rparr>)" unfolding i by (rule under_way_update) (use assms(4) d in simp_all)
    moreover have "base db' = base db" by (simp add: i)
    ultimately show ?thesis using ids d assms(3) by (simp add: attempt_open_def)
  qed
  with ids show ?thesis by simp
qed

lemma started_open:
  assumes "start_payment e out draw w number gid db = Some (Inr st, db')" "distinct (map py_id (payments db))"
  shows "attempt_open e w number (py_id (st_payment st)) db'"
  using assms(1)
proof (cases rule: start_cases)
  case (2 v gw p db1)
  note r = resume_spec [OF 2(4) assms(2)]
  then have "attempt_open e w number (py_id p) db1" "find_bill e (base db1) w number = Inr v" "under_way db1 (inv_workspace v) v = Some p"
    using 2(1,2) by (simp_all add: attempt_open_def)
  from with_intent_open [OF 2(5) this] show ?thesis by simp
qed simp

lemma asked_once_more:
  assumes "attempt_open e w number i db" "platform_slug e' = platform_slug e"
  obtains res db' where "start_payment e' out draw w number gid db = Some (res, db')" "attempt_open e w number i db'"
    "map py_id (payments db') = map py_id (payments db)" "\<forall>again. res = Inr again \<longrightarrow> py_id (st_payment again) = i"
proof -
  from assms(1) obtain v p where v: "find_bill e (base db) w number = Inr v" "refuse_unpayable v = Inr ()"
    "under_way db (inv_workspace v) v = Some p" "py_id p = i" "py_status p = Pay_Pending" by (auto simp: attempt_open_def)
  have "get_platform_workspace e' (base db) = get_platform_workspace e (base db)" using assms(2) by (simp add: get_platform_workspace_def)
  with v(1) have f: "find_bill e' (base db) w number = Inr v" by (simp add: find_bill_def)
  show thesis
  proof (cases "choose_gateway db (inv_workspace v) gid")
    case (Inl err)
    with f v(2) have "start_payment e' out draw w number gid db = Some (Inl err, db)" by (simp add: start_payment_def)
    from that [OF this assms(1)] show thesis by simp
  next
    case (Inr g)
    obtain s where s: "resume_or_raise e' draw (inv_workspace v) v g db = Some s" "s = Inr (p, db) \<or> (\<exists>err. s = Inl err)"
      using v(3) by (auto simp: resume_or_raise_def)
    show thesis
    proof (cases "s = Inr (p, db)")
      case True
      obtain res db' where w: "with_intent out v g p db = (res, db')" by fastforce
      with True s(1) f v(2) Inr have "start_payment e' out draw w number gid db = Some (res, db')" by (simp add: start_payment_def)
      moreover from with_intent_open [OF w _ v(1,3)] assms(1) v(4) have "attempt_open e w number i db'"
        "map py_id (payments db') = map py_id (payments db)" "\<forall>again. res = Inr again \<longrightarrow> py_id (st_payment again) = i" by simp_all
      ultimately show thesis by (rule that)
    next
      case False
      with s f v(2) Inr have "\<exists>err. start_payment e' out draw w number gid db = Some (Inl err, db)" by (auto simp: start_payment_def)
      then obtain err where "start_payment e' out draw w number gid db = Some (Inl err, db)" by blast
      from that [OF this assms(1)] show thesis by simp
    qed
  qed
qed

text \<open>
  The calls that come after, one behind the other: each with its own moment, settings, plugins, drawn numbers and
  gateway, on what the one before left. \<open>None\<close> is a call that does not end.
\<close>

fun ask_again :: "nat \<Rightarrow> string \<Rightarrow> (env \<times> outside \<times> (nat \<Rightarrow> string) \<times> nat option) list \<Rightarrow> fin_db
    \<Rightarrow> ((bill_refusal + started) list \<times> fin_db) option" where
  "ask_again w number [] db = Some ([], db)"
| "ask_again w number ((e, out, draw, gid) # calls) db = (case start_payment e out draw w number gid db of None \<Rightarrow> None
     | Some (res, db) \<Rightarrow> (case ask_again w number calls db of None \<Rightarrow> None | Some (answers, db) \<Rightarrow> Some (res # answers, db)))"

text \<open>
  C25: Asking again opens no second attempt. However often a payment of the bill is asked for after it was
  started, through whichever gateways, whatever numbers are drawn and whatever the gateways answer, refusals among
  them: every call ends, no payment is added by any of them, and a call that is answered at all is answered with
  the first attempt. It takes that the management workspace is the same throughout, and that nothing else settles the attempt between.
\<close>

theorem asking_twice_is_one_attempt:
  assumes "start_payment e out draw w number gid db = Some (Inr st, db')" "distinct (map py_id (payments db))"
    "\<forall>(e', _) \<in> set calls. platform_slug e' = platform_slug e"
  shows "\<exists>answers db''. ask_again w number calls db' = Some (answers, db'') \<and> length answers = length calls \<and>
    map py_id (payments db'') = map py_id (payments db') \<and>
    (\<forall>again. Inr again \<in> set answers \<longrightarrow> py_id (st_payment again) = py_id (st_payment st)) \<and>
    (\<exists>extra. map py_id (payments db') = map py_id (payments db) @ extra \<and> length extra \<le> 1)"
proof -
  have "\<exists>answers db2. ask_again w number calls db1 = Some (answers, db2) \<and> length answers = length calls \<and>
      map py_id (payments db2) = map py_id (payments db1) \<and> (\<forall>again. Inr again \<in> set answers \<longrightarrow> py_id (st_payment again) = py_id (st_payment st))"
    if "attempt_open e w number (py_id (st_payment st)) db1" for db1
    using assms(3) that
  proof (induction calls arbitrary: db1)
    case (Cons c calls)
    obtain e' out' draw' gid' where c: "c = (e', out', draw', gid')" by (metis surj_pair)
    with Cons.prems(1) have "platform_slug e' = platform_slug e" by simp
    from asked_once_more [OF Cons.prems(2) this] obtain res db2 where s: "start_payment e' out' draw' w number gid' db1 = Some (res, db2)"
      "attempt_open e w number (py_id (st_payment st)) db2" "map py_id (payments db2) = map py_id (payments db1)"
      "\<forall>again. res = Inr again \<longrightarrow> py_id (st_payment again) = py_id (st_payment st)" .
    from Cons.IH [OF _ s(2)] Cons.prems(1) obtain answers db3 where "ask_again w number calls db2 = Some (answers, db3)"
      "length answers = length calls" "map py_id (payments db3) = map py_id (payments db2)"
      "\<forall>again. Inr again \<in> set answers \<longrightarrow> py_id (st_payment again) = py_id (st_payment st)" by auto
    with s c show ?case by auto
  qed simp
  from this [OF started_open [OF assms(1,2)]] started_ids [OF assms(1,2)] show ?thesis by blast
qed

end
