(* ===== verification/Witnesses_Payments.thy ===== *)
theory Witnesses_Payments
  imports Samples Bill_Payment
begin

text \<open>
  The properties of payments, applied to the platform's workspace with a bank gateway confirmed by
  hand: a loose payment of 40 that is processed and given back, and the bill of July that is paid.
\<close>

definition bank :: gateway where
  "bank = \<lparr>gw_id = 1, gw_workspace = 1, gw_name = ''Bank'', gw_type = ''bank_transfer'', gw_active = True\<rparr>"

definition yes :: response where
  "yes = \<lparr>rp_success = True, rp_status = ''Completed'', rp_reference = ''ref''\<rparr>"

definition out1 :: outside where
  "out1 = \<lparr>plugin_of = (\<lambda>_. Some \<lparr>confirm_payment = (\<lambda>_ _. Some yes), refund_payment = (\<lambda>_ _ _ _. Some yes),
     read_event = (\<lambda>_ _. \<lparr>ev_success = False, ev_intent = '''', ev_minor = None, ev_currency = ''''\<rparr>), open_intent = (\<lambda>_. Some ''intent'')\<rparr>),
     excluded_ids = (\<lambda>_ _ _. [])\<rparr>"

definition slip :: details where
  "slip = \<lparr>dt_intent = '''', dt_reference = ''slip''\<rparr>"

definition loose :: payment where
  "loose = \<lparr>py_id = 1, py_workspace = 1, py_customer = 1, py_invoice = None, py_order = None, py_number = ''PAY-20250722-00001'',
     py_gateway = Some 1, py_amount = 40, py_currency = 2, py_status = Pay_Pending, py_reference = '''',
     py_response = no_response, py_completed_at = None\<rparr>"

definition no_shop :: shop_db where
  "no_shop = \<lparr>warehouses = [], products = [], variants = [], inventories = [], orders = [], order_items = [], reservations = [],
     shop_audits = [], emitted = [], committed = []\<rparr>"

definition fin0 :: fin_db where
  "fin0 = \<lparr>base = july_db, shop = no_shop, invoice_orders = [], gateways = [bank], payments = [loose], refunds = [], ledger = [],
     consignments = [], freight_codes = [], pay_audits = [], fin_events = []\<rparr>"

lemma fin0_ok: "books_ok fin0"
  by (simp add: books_ok_def payment_books_def refunds_of_def ledger_of_def refunded_in_def bookings_def balance_def fin0_def loose_def
      count_where_def)

lemmas process_calls = process_payment_def claim_payment_def payment_of_def response_succeeded_def no_response_def linked_gateway_def
  gateway_by_id_def check_def total_of_order_def total_of_invoice_def gateway_answer_def record_answer_def answered_status_def save_payment_def
  update_where_def complete_confirmed_payment_def settle_order_def settle_invoice_def then_finish_def create_transaction_def announce_def Let_def

lemma lower_words [simp]: "lower ''completed'' = ''completed''" "lower ''Completed'' = ''completed''" "lower '''' = ''''"
  "lower ''succeeded'' = ''succeeded''"
  by code_simp+

definition done1 :: payment where
  "done1 = loose\<lparr>py_status := Pay_Completed, py_reference := ''slip'', py_completed_at := Some noon,
     py_response := \<lparr>rp_success = True, rp_status = ''completed'', rp_reference = ''slip''\<rparr>\<rparr>"

definition fin1 :: fin_db where
  "fin1 = fin0\<lparr>payments := [done1], ledger := [booked_row loose], pay_audits := [(1, Pay_Pending)], fin_events := [(''payment.completed'', 1)]\<rparr>"

lemma processed1: "process_payment env0 out1 1 loose slip True fin0 = (Inr done1, fin1)"
  by (simp add: process_calls on_payment_completed_def queue_renewal_def fin0_def fin1_def loose_def done1_def bank_def slip_def)

lemma fin1_ok: "books_ok fin1"
  by (rule touch_books [OF fin0_ok process_runs [OF fin0_ok processed1]])

theorem calls_refine_the_books_witness:
  "pay_call fin0 fin1 \<and> book_step\<^sup>*\<^sup>* fin0 fin1"
proof -
  have c: "pay_call fin0 fin1" by (rule pay_call.processed [OF processed1])
  from calls_refine_the_books [OF c fin0_ok] c show ?thesis by blast
qed

theorem ledger_adds_up_witness:
  "pay_call fin0 fin1 \<and> 0 < bookings fin1 1 \<and> balance fin1 1 = of_nat (bookings fin1 1) * 40 - refunded_in {Rf_Completed} fin1 1"
proof -
  have c: "pay_call fin0 fin1" by (rule pay_call.processed [OF processed1])
  then have r: "pay_call\<^sup>*\<^sup>* fin0 fin1" by blast
  have m: "done1 \<in> set (payments fin1)" by (simp add: fin1_def)
  from ledger_adds_up [OF r fin0_ok m] c show ?thesis by (simp add: done1_def loose_def)
qed

theorem completed_once_witness:
  "process_payment env0 out1 1 loose slip True fin0 = (Inr done1, fin1) \<and> bookings fin1 1 = Suc (bookings fin0 1) \<and>
    process_payment env0 out1 1 loose slip False fin1 = (Inr done1, fin1)"
proof -
  have d: "py_status done1 = Pay_Completed" by (simp add: done1_def)
  have b: "payment_of fin0 1 (py_id loose) = Some loose" by (simp add: payment_of_def fin0_def loose_def)
  from completed_once [OF processed1 d fin0_ok b, where e' = env0 and out' = out1 and d' = slip and manual' = False] processed1
  show ?thesis by (simp add: loose_def)
qed

lemma returned1: "\<exists>r db. create_refund env0 out1 1 loose 15 ''torn'' '' key '' fin1 = (Inr r, db)"
  by (simp add: create_refund_def prepare_refund_def payment_of_def refunds_of_def check_def linked_gateway_def gateway_by_id_def
      refunded_in_def call_refund_gateway_def refund_confirmed_def confirmed_reference_def set_refund_def refund_by_id_def
      save_refund_def update_where_def finalize_confirmed_refund_def then_finish_def strip_def whitespace_def Let_def
      fin1_def fin0_def done1_def loose_def bank_def out1_def yes_def fresh_id_def split_beta)

theorem refund_key_holds_witness:
  "\<exists>r db. create_refund env0 out1 1 loose 15 ''torn'' '' key '' fin1 = (Inr r, db) \<and> rf_amount r = 15 \<and>
     create_refund env0 out1 1 loose 15 ''torn'' '' key '' db = (Inr r, db) \<and>
     create_refund env0 out1 1 loose 20 ''torn'' '' key '' db = (Inl Key_Reused, db)"
proof -
  obtain r db where c: "create_refund env0 out1 1 loose 15 ''torn'' '' key '' fin1 = (Inr r, db)" using returned1 by blast
  from refund_key_holds [OF c fin1_ok, where e' = env0 and out' = out1 and amount' = 20 and reason' = "''torn''"] c show ?thesis
    by auto
qed

abbreviation payer :: customer where
  "payer \<equiv> \<lparr>cu_id = 1, cu_workspace = 1, cu_user = 7\<rparr>"

definition small_bill :: invoice where
  "small_bill = july_invoice\<lparr>inv_total := 20\<rparr>"

lemma small_bill_simps [simp]: "inv_id small_bill = 1" "inv_workspace small_bill = 1" "inv_customer small_bill = 1" "inv_total small_bill = 20"
  "inv_status small_bill = Inv_Sent" "inv_currency small_bill = 2"
  by (simp_all add: small_bill_def) (simp_all add: july_invoice_def)

definition fin3 :: fin_db where
  "fin3 = fin0\<lparr>base := july_db\<lparr>invoices := [small_bill]\<rparr>\<rparr>"

lemma drawn: "generate_payment_number env0 (\<lambda>_. ''00007'') 1 fin3 = Some (number_head env0 @ ''00007'')"
  by (simp add: generate_payment_number_def fin3_def fin0_def loose_def pick_number.simps number_head_def)

lemma bill_owed: "invoice_to_pay fin3 1 1 20 None (Some small_bill) = Inr (Some small_bill)"
  by (simp add: invoice_to_pay_def check_def attempts_def fin3_def fin0_def loose_def)

lemma number_new: "number_head env0 @ ''00007'' \<notin> py_number ` set (payments fin3)"
  by (simp add: fin3_def fin0_def loose_def number_head_def)

lemma started1: "\<exists>p db. create_payment env0 (\<lambda>_. ''00007'') 1 payer 20 nzd bank None (Some small_bill) None fin3 = Some (Inr (p, db)) \<and>
    py_invoice p = Some 1"
  using number_new bill_owed drawn
  by (simp add: create_payment_def order_to_pay_def check_def method_fits_def bank_def insert_payment_def
      currency_fits_def nzd_def)

theorem attempt_is_for_what_is_owed_witness:
  "\<exists>p db. create_payment env0 (\<lambda>_. ''00007'') 1 payer 20 nzd bank None (Some small_bill) None fin3 = Some (Inr (p, db)) \<and>
    py_invoice p = Some 1 \<and> py_amount p = 20 \<and> py_currency p = 2"
proof -
  obtain p db where c: "create_payment env0 (\<lambda>_. ''00007'') 1 payer 20 nzd bank None (Some small_bill) None fin3 = Some (Inr (p, db))"
    "py_invoice p = Some 1" using started1 by blast
  from attempt_is_for_what_is_owed [OF c(1)] c(2) have "py_amount p = 20 \<and> py_currency p = 2" by (auto simp: fin3_def)
  with c show ?thesis by blast
qed

definition for_july :: payment where
  "for_july = loose\<lparr>py_invoice := Some 1, py_response := yes\<rparr>"

definition fin2 :: fin_db where
  "fin2 = fin0\<lparr>payments := [for_july]\<rparr>"

lemma completed2: "\<exists>p db. complete_confirmed_payment env0 out1 1 1 Pay_Pending fin2 = Inr (p, db)"
  by (simp add: complete_confirmed_payment_def payment_of_def response_succeeded_def settle_order_def settle_invoice_def
      on_invoice_saved_def update_consignment_status_def invoice_by_id_def create_transaction_def save_payment_def Let_def
      paid_invoice_def is_platform_bill_def fin2_def fin0_def for_july_def loose_def yes_def)

theorem settled_bill_buys_once_witness:
  "\<exists>p db. complete_confirmed_payment env0 out1 1 1 Pay_Pending fin2 = Inr (p, db) \<and>
     base db = queue_renewal env0 (invoice_marked env0 1 july_db) (Some 1)"
proof -
  obtain p db where c: "complete_confirmed_payment env0 out1 1 1 Pay_Pending fin2 = Inr (p, db)" using completed2 by blast
  have f: "payment_of fin2 1 1 = Some for_july" "py_status for_july \<noteq> Pay_Completed" "py_invoice for_july = Some 1"
    "invoice_by_id (base fin2) 1 = Some july_invoice" "ent_ok (base fin2)"
    by (simp_all add: payment_of_def invoice_by_id_def ent_ok_def fin2_def fin0_def for_july_def loose_def)
  from settled_bill_buys_once [OF c f] c show ?thesis by (intro exI [of _ p] exI [of _ db]) (simp add: fin2_def fin0_def)
qed

subsection \<open>Paying the bill of July\<close>

lemma bill_found: "find_bill env0 (base fin3) 2 ''PLAT-2-202507'' = Inr small_bill"
proof -
  have "inv_number small_bill = ''PLAT-2-202507''" by (simp add: small_bill_def)
  then show ?thesis
    by (simp add: find_bill_def get_platform_workspace_def fin3_def fin0_def strip_def whitespace_def startswith_def
        invoice_number_prefix_def invoice_prefix_def)
qed

lemma bank_chosen: "choose_gateway fin3 1 None = Inr bank"
  by (simp add: choose_gateway_def fin3_def fin0_def bank_def)

lemma raised1: "\<exists>p db. resume_or_raise env0 (\<lambda>_. ''00007'') 1 small_bill bank fin3 = Some (Inr (p, db))"
proof -
  have "under_way fin3 1 small_bill = None" by (simp add: under_way_def fin3_def fin0_def loose_def)
  moreover have "customer_by_id fin3 1 = Some payer" "currency_by_id fin3 2 = Some nzd"
    by (simp_all add: customer_by_id_def currency_by_id_def fin3_def fin0_def july_db_def) (simp add: db0_def nzd_def)
  ultimately show ?thesis using started1 by (auto simp: resume_or_raise_def)
qed

lemma start1: "\<exists>st db. start_payment env0 out1 (\<lambda>_. ''00007'') 2 ''PLAT-2-202507'' None fin3 = Some (Inr st, db)"
proof -
  obtain p db where "resume_or_raise env0 (\<lambda>_. ''00007'') 1 small_bill bank fin3 = Some (Inr (p, db))" using raised1 by blast
  then show ?thesis using bill_found bank_chosen
    by (auto simp: start_payment_def refuse_unpayable_def with_intent_def payment_intent_def out1_def Let_def)
qed

lemma fin3_ids: "distinct (map py_id (payments fin3))"
  by (simp add: fin3_def fin0_def)

theorem bill_is_found_by_its_workspace_witness:
  "find_bill env0 (base fin3) 2 ''PLAT-2-202507'' = Inr small_bill \<and>
    start_payment env0 out1 (\<lambda>_. ''00007'') 20 ''PLAT-2-202507'' None fin3 = Some (Inl Invoice_Not_Found, fin3)"
  using bill_found bill_is_found_by_its_workspace [OF bill_found, of 20 out1 "\<lambda>_. ''00007''" None] by simp

theorem started_for_the_bill_witness:
  "\<exists>st db. start_payment env0 out1 (\<lambda>_. ''00007'') 2 ''PLAT-2-202507'' None fin3 = Some (Inr st, db) \<and> py_amount (st_payment st) = 20"
proof -
  obtain st db where s: "start_payment env0 out1 (\<lambda>_. ''00007'') 2 ''PLAT-2-202507'' None fin3 = Some (Inr st, db)" using start1 by blast
  from started_for_the_bill [OF s fin3_ids] bill_found have "py_amount (st_payment st) = 20" by auto
  with s show ?thesis by blast
qed

theorem asking_twice_is_one_attempt_witness:
  "\<exists>st db answers db'. start_payment env0 out1 (\<lambda>_. ''00007'') 2 ''PLAT-2-202507'' None fin3 = Some (Inr st, db) \<and>
    ask_again 2 ''PLAT-2-202507'' [(env0, out1, (\<lambda>_. ''00008''), Some 99), (env0, out1, (\<lambda>_. ''00009''), None)] db = Some (answers, db') \<and>
    length answers = 2 \<and> map py_id (payments db') = map py_id (payments db)"
proof -
  let ?calls = "[(env0, out1, (\<lambda>_. ''00008''), Some 99), (env0, out1, (\<lambda>_. ''00009''), None)] :: (env \<times> outside \<times> (nat \<Rightarrow> string) \<times> nat option) list"
  obtain st db where s: "start_payment env0 out1 (\<lambda>_. ''00007'') 2 ''PLAT-2-202507'' None fin3 = Some (Inr st, db)" using start1 by blast
  have "\<forall>(e', _) \<in> set ?calls. platform_slug e' = platform_slug env0" by simp
  from asking_twice_is_one_attempt [OF s fin3_ids this] s show ?thesis by auto
qed

end
