(* ===== verification/Store_Data.thy ===== *)
theory Store_Data
  imports Payments
begin

text \<open>
  The rows of the storefront: carts, discount rules, coupons, gift cards, addresses, collection
  points, freight services, scheduled prices and wallets, beside the tables of the shop and of
  finance (\<open>fin\<close>). A row holds the columns the services read or write.

  The column of an amount of money has two decimal places: what is saved in it is rounded half to
  even there, while the object in memory keeps what the service assigned. \<open>cents\<close> is that rounding.
  A default ordering by name compares by code point, whatever collation the database is set to.
\<close>

subsection \<open>JSON\<close>

text \<open>
  What a JSON column holds. A float is kept as the number its shortest decimal text denotes, which
  is what \<open>Decimal(str(value))\<close> reads; the keys of an object are distinct.
\<close>

datatype json = J_Null | J_Bool bool | J_Int int | J_Float rat | J_Str string | J_List "json list" | J_Obj "(string \<times> json) list"

subsection \<open>Discounts\<close>

datatype discount_kind = Percentage | Fixed_Amount | Free_Shipping | Buy_X_Get_Y | Other_Kind
datatype discount_target = Whole_Order | Some_Products | Some_Categories | Other_Target

record discount_rule =
  dr_id :: nat
  dr_workspace :: nat
  dr_kind :: discount_kind
  dr_value :: rat
  dr_target :: discount_target
  dr_products :: "nat list"
  dr_categories :: "nat list"
  dr_minimum :: "rat option"
  dr_maximum :: "rat option"
  dr_active :: bool
  dr_created :: moment

record coupon =
  cp_id :: nat
  cp_workspace :: nat
  cp_rule :: nat
  cp_code :: string
  cp_limit :: "nat option"
  cp_customer_limit :: "nat option"
  cp_used :: nat
  cp_from :: moment
  cp_until :: "moment option"
  cp_active :: bool

record gift_card =
  gc_id :: nat
  gc_workspace :: nat
  gc_code :: string
  gc_balance :: rat
  gc_currency :: nat
  gc_customer :: "nat option"
  gc_active :: bool
  gc_expires :: "date option"

subsection \<open>Carts and where an order goes\<close>

record cart =
  ct_id :: nat
  ct_workspace :: nat
  ct_customer :: "nat option"
  ct_session :: string
  ct_updated :: moment

record cart_item =
  ci_id :: nat
  ci_cart :: nat
  ci_product :: nat
  ci_variant :: "nat option"
  ci_quantity :: int
  ci_price :: rat

text \<open>The owner of an address is a row of any table; \<open>ad_customer\<close> is it when it is a customer.\<close>

record address =
  ad_id :: nat
  ad_workspace :: nat
  ad_customer :: "nat option"
  ad_country :: string
  ad_state :: string

record store =
  st_id :: nat
  st_workspace :: nat

record pickup_point =
  pp_id :: nat
  pp_workspace :: nat
  pp_name :: string
  pp_fee :: rat
  pp_active :: bool
  pp_default :: bool
  pp_order :: nat

record freight_service =
  fs_id :: nat
  fs_workspace :: nat
  fs_name :: string
  fs_code :: string
  fs_base :: rat
  fs_per_kg :: rat
  fs_config :: json
  fs_active :: bool
  fs_order :: nat

subsection \<open>Prices and wallets\<close>

datatype price_status = Price_Pending | Price_Active | Price_Cancelled

record price_change =
  ph_id :: nat
  ph_workspace :: nat
  ph_product :: nat
  ph_old :: rat
  ph_new :: rat
  ph_effective :: moment
  ph_by :: nat
  ph_reason :: string
  ph_status :: price_status

record wallet =
  wl_id :: nat
  wl_workspace :: nat
  wl_customer :: nat
  wl_cash :: rat
  wl_credit :: rat
  wl_currency :: nat
  wl_limit :: rat

record wallet_row =
  wt_wallet :: nat
  wt_customer :: nat
  wt_type :: string
  wt_amount :: rat
  wt_currency :: nat
  wt_cash :: bool
  wt_source :: string
  wt_source_id :: "nat option"
  wt_description :: string
  wt_by :: "nat option"

record invoice_settings =
  is_workspace :: nat
  is_prefix :: string
  is_due_days :: nat
  is_active :: bool

text \<open>
  \<open>order_freight\<close> and \<open>item_products\<close> are the freight service of an order and the product of an
  invoice line; \<open>placed\<close> the entries of the audit log \<open>log_create\<close> makes for orders. \<open>custom_settings\<close>
  is the JSON column of that name of the settings of each workspace that has them.
\<close>

record store_db =
  fin :: fin_db
  discount_rules :: "discount_rule list"
  coupons :: "coupon list"
  gift_cards :: "gift_card list"
  carts :: "cart list"
  cart_items :: "cart_item list"
  addresses :: "address list"
  stores :: "store list"
  pickup_points :: "pickup_point list"
  freight_services :: "freight_service list"
  price_changes :: "price_change list"
  wallets :: "wallet list"
  wallet_rows :: "wallet_row list"
  invoice_settings_rows :: "invoice_settings list"
  order_freight :: "(nat \<times> nat) list"
  item_products :: "(nat \<times> nat) list"
  placed :: "(nat \<times> rat) list"
  custom_settings :: "(nat \<times> json) list"

definition cents :: "rat \<Rightarrow> rat" where
  "cents = quantize_half_even 2"

definition in_shop :: "(shop_db \<Rightarrow> shop_db) \<Rightarrow> store_db \<Rightarrow> store_db" where
  "in_shop f db = db\<lparr>fin := (fin db)\<lparr>shop := f (shop (fin db))\<rparr>\<rparr>"

definition stored_order :: "order_row \<Rightarrow> order_row" where
  "stored_order r = r\<lparr>od_subtotal := cents (od_subtotal r), od_shipping := cents (od_shipping r), od_tax := cents (od_tax r),
     od_discount := cents (od_discount r), od_total := cents (od_total r)\<rparr>"

definition variant_of :: "shop_db \<Rightarrow> nat \<Rightarrow> variant option" where
  "variant_of db v = first (filter (\<lambda>x. va_id x = v) (variants db))"

definition rule_of :: "store_db \<Rightarrow> nat \<Rightarrow> discount_rule option" where
  "rule_of db i = first (filter (\<lambda>r. dr_id r = i) (discount_rules db))"

text \<open>A number of Python is false when it is absent or zero.\<close>

definition given_rat :: "rat option \<Rightarrow> rat option" where
  "given_rat x = (if x = Some 0 then None else x)"

definition given_nat :: "nat option \<Rightarrow> nat option" where
  "given_nat x = (if x = Some 0 then None else x)"

lemma given_rat_simps [simp]: "given_rat None = None" "given_rat (Some x) = (if x = 0 then None else Some x)"
  by (simp_all add: given_rat_def)

lemma given_nat_simps [simp]: "given_nat None = None" "given_nat (Some n) = (if n = 0 then None else Some n)"
  by (simp_all add: given_nat_def)

lemma given_rat_SomeD: "given_rat x = Some y \<Longrightarrow> x = Some y \<and> y \<noteq> 0"
  by (auto simp: given_rat_def split: if_splits)

lemma cents_exact: "on_grid 2 x \<Longrightarrow> cents x = x"
  by (simp add: cents_def half_even.q_exact)

lemma cents_nonneg: "0 \<le> x \<Longrightarrow> 0 \<le> cents x"
  by (simp add: cents_def half_even.q_nonneg)

lemma cents_mono: "x \<le> y \<Longrightarrow> cents x \<le> cents y"
  by (simp add: cents_def half_even.q_mono)

lemma cents_on_grid: "on_grid 2 (cents x)"
  by (simp add: cents_def half_even.q_on_grid)

lemma in_shop_simps [simp]:
  "shop (fin (in_shop f db)) = f (shop (fin db))" "base (fin (in_shop f db)) = base (fin db)"
  "discount_rules (in_shop f db) = discount_rules db" "coupons (in_shop f db) = coupons db"
  "gift_cards (in_shop f db) = gift_cards db" "carts (in_shop f db) = carts db" "cart_items (in_shop f db) = cart_items db"
  by (simp_all add: in_shop_def)

end
