(* ===== verification/Discounts.thy ===== *)
theory Discounts
  imports Store_Data
begin

text \<open>
  Discounts of an order (\<open>marketing/services/discount_service.py\<close>): what a coupon takes off, the
  discount rules that apply by themselves, and gift cards.

  A call works for one workspace, its argument \<open>w\<close>. Items are the order items in memory, of an order
  or made from a cart. What the code answers as a dictionary of a discount and a shipping discount
  is a pair.
\<close>

subsection \<open>Gift cards\<close>

definition gift_card_has_expired :: "env \<Rightarrow> date option \<Rightarrow> bool" where
  "gift_card_has_expired e expires = (case expires of None \<Rightarrow> False | Some d \<Rightarrow> d < today e)"

definition order_currency :: "store_db \<Rightarrow> nat \<Rightarrow> string" where
  "order_currency db w = get_default_currency_for_workspace (workspace_by_id (base (fin db)) w)"

definition code_of_currency :: "store_db \<Rightarrow> nat \<Rightarrow> string option" where
  "code_of_currency db c = map_option cur_code (first (filter (\<lambda>x. cur_id x = c) (currencies (base (fin db)))))"

definition gift_card_matches_context :: "store_db \<Rightarrow> nat \<Rightarrow> nat option \<Rightarrow> gift_card \<Rightarrow> bool" where
  "gift_card_matches_context db w customer g =
    (if customer \<noteq> None \<and> gc_customer g \<noteq> None \<and> gc_customer g \<noteq> customer then False
     else case code_of_currency db (gc_currency g) of None \<Rightarrow> True | Some c \<Rightarrow> c = order_currency db w)"

definition active_gift_card :: "store_db \<Rightarrow> nat \<Rightarrow> string \<Rightarrow> gift_card option" where
  "active_gift_card db w code = first (filter (\<lambda>g. gc_workspace g = w \<and> gc_code g = code \<and> gc_active g) (gift_cards db))"

definition calculate_gift_card_amount :: "env \<Rightarrow> nat \<Rightarrow> string \<Rightarrow> rat \<Rightarrow> rat \<Rightarrow> nat option \<Rightarrow> store_db \<Rightarrow> rat" where
  "calculate_gift_card_amount e w code subtotal existing customer db =
    (case active_gift_card db w (upper code) of None \<Rightarrow> 0
     | Some g \<Rightarrow> if gift_card_has_expired e (gc_expires g) then 0
       else if \<not> gift_card_matches_context db w customer g then 0
       else max (min (gc_balance g) (subtotal - existing)) 0)"

subsection \<open>What a rule takes off\<close>

definition product_matches :: "shop_db \<Rightarrow> discount_rule \<Rightarrow> order_item \<Rightarrow> bool" where
  "product_matches sh r i \<longleftrightarrow> oi_product i \<in> set (dr_products r) \<or>
     (case oi_variant i of None \<Rightarrow> False | Some v \<Rightarrow> (case variant_of sh v of None \<Rightarrow> False
        | Some x \<Rightarrow> va_product x \<in> set (dr_products r)))"

definition category_matches :: "shop_db \<Rightarrow> discount_rule \<Rightarrow> order_item \<Rightarrow> bool" where
  "category_matches sh r i = (case product_of sh (oi_product i) of None \<Rightarrow> False
     | Some p \<Rightarrow> list_ex (\<lambda>c. c \<in> set (dr_categories r)) (pd_categories p))"

text \<open>\<open>if maximum_discount: discount = min(discount, maximum_discount)\<close>.\<close>

definition capped :: "rat option \<Rightarrow> rat \<Rightarrow> rat" where
  "capped m d = (case given_rat m of None \<Rightarrow> d | Some c \<Rightarrow> min d c)"

definition discount_on :: "discount_rule \<Rightarrow> discount_kind \<Rightarrow> rat \<Rightarrow> rat" where
  "discount_on r k applicable = (if applicable = 0 then 0
     else if k = Percentage then capped (dr_maximum r) (applicable * dr_value r / 100) else dr_value r)"

definition calculate_product_discount :: "shop_db \<Rightarrow> discount_rule \<Rightarrow> order_item list \<Rightarrow> discount_kind \<Rightarrow> rat" where
  "calculate_product_discount sh r items k = discount_on r k (\<Sum>i\<leftarrow>filter (product_matches sh r) items. oi_subtotal i)"

definition calculate_category_discount :: "shop_db \<Rightarrow> discount_rule \<Rightarrow> order_item list \<Rightarrow> discount_kind \<Rightarrow> rat" where
  "calculate_category_discount sh r items k = discount_on r k (\<Sum>i\<leftarrow>filter (category_matches sh r) items. oi_subtotal i)"

text \<open>The branches on the kind and the target of a rule, the same with a coupon and without.\<close>

definition rule_amount :: "shop_db \<Rightarrow> discount_rule \<Rightarrow> order_item list \<Rightarrow> rat \<Rightarrow> rat" where
  "rule_amount sh r items subtotal = (case dr_kind r of
     Percentage \<Rightarrow> (case dr_target r of Whole_Order \<Rightarrow> subtotal * dr_value r / 100
       | Some_Products \<Rightarrow> calculate_product_discount sh r items Percentage
       | Some_Categories \<Rightarrow> calculate_category_discount sh r items Percentage
       | Other_Target \<Rightarrow> 0)
   | Fixed_Amount \<Rightarrow> (case dr_target r of Whole_Order \<Rightarrow> dr_value r
       | Some_Products \<Rightarrow> calculate_product_discount sh r items Fixed_Amount
       | Some_Categories \<Rightarrow> calculate_category_discount sh r items Fixed_Amount
       | Other_Target \<Rightarrow> 0)
   | _ \<Rightarrow> 0)"

definition limited_amount :: "shop_db \<Rightarrow> discount_rule \<Rightarrow> order_item list \<Rightarrow> rat \<Rightarrow> rat" where
  "limited_amount sh r items subtotal = min (capped (dr_maximum r) (rule_amount sh r items subtotal)) subtotal"

text \<open>The large value that stands for free shipping.\<close>

definition free_shipping_mark :: rat where
  "free_shipping_mark = 99999999 / 100"

definition below_minimum :: "discount_rule \<Rightarrow> rat \<Rightarrow> bool" where
  "below_minimum r subtotal = (case given_rat (dr_minimum r) of None \<Rightarrow> False | Some m \<Rightarrow> subtotal < m)"

subsection \<open>Coupons\<close>

datatype coupon_problem = Not_Yet_Valid | Coupon_Expired | Limit_Reached | Customer_Limit_Reached | Purchase_Below rat

definition uses_by :: "store_db \<Rightarrow> nat \<Rightarrow> nat \<Rightarrow> nat \<Rightarrow> nat" where
  "uses_by db w customer coupon = count_where (\<lambda>r. od_workspace r = w \<and> od_customer r = customer \<and> od_coupon r = Some coupon)
     (orders (shop (fin db)))"

definition validate_coupon :: "env \<Rightarrow> nat \<Rightarrow> coupon \<Rightarrow> discount_rule \<Rightarrow> rat \<Rightarrow> nat option \<Rightarrow> store_db \<Rightarrow> coupon_problem option" where
  "validate_coupon e w c r subtotal customer db =
    (if now e < cp_from c then Some Not_Yet_Valid
     else if (case cp_until c of None \<Rightarrow> False | Some u \<Rightarrow> u < now e) then Some Coupon_Expired
     else if (case given_nat (cp_limit c) of None \<Rightarrow> False | Some l \<Rightarrow> l \<le> cp_used c) then Some Limit_Reached
     else if (case (customer, given_nat (cp_customer_limit c)) of (Some cu, Some l) \<Rightarrow> l \<le> uses_by db w cu (cp_id c) | _ \<Rightarrow> False)
     then Some Customer_Limit_Reached
     else case given_rat (dr_minimum r) of None \<Rightarrow> None | Some m \<Rightarrow> if subtotal < m then Some (Purchase_Below m) else None)"

definition active_coupon :: "store_db \<Rightarrow> nat \<Rightarrow> string \<Rightarrow> coupon option" where
  "active_coupon db w code = first (filter (\<lambda>c. cp_workspace c = w \<and> cp_code c = code \<and> cp_active c) (coupons db))"

text \<open>The rule of a coupon exists: the column is a protected foreign key.\<close>

definition calculate_coupon_discount :: "env \<Rightarrow> nat \<Rightarrow> string \<Rightarrow> order_item list \<Rightarrow> rat \<Rightarrow> nat option \<Rightarrow> store_db \<Rightarrow> rat \<times> rat" where
  "calculate_coupon_discount e w code items subtotal customer db =
    (case active_coupon db w (upper code) of None \<Rightarrow> (0, 0)
     | Some c \<Rightarrow> (case rule_of db (cp_rule c) of None \<Rightarrow> (0, 0)
       | Some r \<Rightarrow> if validate_coupon e w c r subtotal customer db \<noteq> None then (0, 0)
         else if below_minimum r subtotal then (0, 0)
         else (limited_amount (shop (fin db)) r items subtotal, if dr_kind r = Free_Shipping then free_shipping_mark else 0)))"

subsection \<open>Rules that apply by themselves\<close>

definition ships_free :: "shop_db \<Rightarrow> discount_rule \<Rightarrow> order_item list \<Rightarrow> bool" where
  "ships_free sh r items \<longleftrightarrow> dr_kind r = Free_Shipping \<and> (case dr_target r of Whole_Order \<Rightarrow> True
     | Some_Products \<Rightarrow> list_ex (product_matches sh r) items
     | Some_Categories \<Rightarrow> list_ex (category_matches sh r) items
     | Other_Target \<Rightarrow> False)"

definition auto_step :: "shop_db \<Rightarrow> order_item list \<Rightarrow> rat \<Rightarrow> discount_rule \<Rightarrow> rat \<times> rat \<Rightarrow> rat \<times> rat" where
  "auto_step sh items subtotal r found = (if below_minimum r subtotal then found
     else let amount = limited_amount sh r items subtotal in
       (if fst found < amount then amount else fst found, if ships_free sh r items then free_shipping_mark else snd found))"

definition matching_rules :: "store_db \<Rightarrow> nat \<Rightarrow> discount_rule list" where
  "matching_rules db w = rev (sort_key dr_created (filter (\<lambda>r. dr_workspace r = w \<and> dr_active r) (discount_rules db)))"

definition calculate_auto_discount :: "nat \<Rightarrow> order_item list \<Rightarrow> rat \<Rightarrow> store_db \<Rightarrow> rat \<times> rat" where
  "calculate_auto_discount w items subtotal db = fold (auto_step (shop (fin db)) items subtotal) (matching_rules db w) (0, 0)"

subsection \<open>The discount of an order\<close>

record order_discount =
  oc_discount :: rat
  oc_shipping :: rat
  oc_coupon :: rat
  oc_gift :: rat

definition calculate_order_discount :: "env \<Rightarrow> nat \<Rightarrow> order_item list \<Rightarrow> rat \<Rightarrow> string \<Rightarrow> string \<Rightarrow> nat option \<Rightarrow> store_db \<Rightarrow> order_discount" where
  "calculate_order_discount e w items subtotal coupon_code gift_code customer db =
    (let (discount, shipping) = (if coupon_code \<noteq> [] then calculate_coupon_discount e w coupon_code items subtotal customer db
           else calculate_auto_discount w items subtotal db);
         gift = (if gift_code \<noteq> [] then calculate_gift_card_amount e w gift_code subtotal discount customer db else 0)
     in \<lparr>oc_discount = discount, oc_shipping = shipping, oc_coupon = discount, oc_gift = gift\<rparr>)"

subsection \<open>Applying to an order that is there\<close>

definition items_of :: "store_db \<Rightarrow> nat \<Rightarrow> order_item list" where
  "items_of db j = filter (\<lambda>i. oi_order i = j) (order_items (shop (fin db)))"

text \<open>The caller's row is changed and saved whole; the use is counted whatever the coupon gave.\<close>

definition apply_coupon_to_order :: "env \<Rightarrow> nat \<Rightarrow> order_row \<Rightarrow> string \<Rightarrow> nat option \<Rightarrow> store_db \<Rightarrow> (rat \<times> order_row) \<times> store_db" where
  "apply_coupon_to_order e w given code customer db =
    (let (discount, shipping) = calculate_coupon_discount e w code (items_of db (od_id given)) (od_subtotal given) customer db;
         order = given\<lparr>od_discount := discount, od_shipping := (if 0 < shipping then 0 else od_shipping given)\<rparr>;
         order = order\<lparr>od_total := od_subtotal order + od_shipping order + od_tax order - od_discount order\<rparr>;
         db = in_shop (save_order (stored_order order)) db
     in ((discount, order), db\<lparr>coupons := (case first (filter (\<lambda>c. cp_workspace c = w \<and> cp_code c = upper code) (coupons db)) of
           None \<Rightarrow> coupons db
         | Some c \<Rightarrow> update_where (\<lambda>x. cp_id x = cp_id c) (\<lambda>_. c\<lparr>cp_used := cp_used c + 1\<rparr>) (coupons db))\<rparr>))"

datatype gift_refusal = Card_Not_Applicable | Card_Expired | Card_Of_Another

definition save_amounts :: "nat \<Rightarrow> rat \<Rightarrow> rat \<Rightarrow> shop_db \<Rightarrow> shop_db" where
  "save_amounts j discount due sh = sh\<lparr>orders := update_where (\<lambda>x. od_id x = j)
     (\<lambda>x. x\<lparr>od_discount := cents discount, od_total := cents due\<rparr>) (orders sh)\<rparr>"

text \<open>Taking an amount from a card, which is closed when nothing is left.\<close>

definition debit_card :: "gift_card \<Rightarrow> rat \<Rightarrow> store_db \<Rightarrow> store_db" where
  "debit_card g amount db = db\<lparr>gift_cards := update_where (\<lambda>x. gc_id x = gc_id g)
     (\<lambda>x. x\<lparr>gc_balance := cents (gc_balance g - amount), gc_active := (gc_balance g - amount \<noteq> 0 \<and> gc_active g)\<rparr>) (gift_cards db)\<rparr>"

definition apply_gift_card_to_order :: "env \<Rightarrow> nat \<Rightarrow> order_row \<Rightarrow> string \<Rightarrow> store_db
    \<Rightarrow> gift_refusal + ((rat \<times> order_row) \<times> store_db)" where
  "apply_gift_card_to_order e w given code db =
    (case active_gift_card db w (upper code) of None \<Rightarrow> Inl Card_Not_Applicable
     | Some g \<Rightarrow> if gift_card_has_expired e (gc_expires g) then Inl Card_Expired
       else if \<not> gift_card_matches_context db w (Some (od_customer given)) g then Inl Card_Of_Another
       else let amount = min (gc_balance g) (max (od_total given) 0) in
         if amount \<le> 0 then Inl Card_Not_Applicable
         else let discount = od_discount given + amount;
                  due = max (od_subtotal given + od_shipping given + od_tax given - discount) 0;
                  order = given\<lparr>od_discount := discount, od_total := due\<rparr>
              in Inr ((amount, order), debit_card g amount (in_shop (save_amounts (od_id given) discount due) db)))"

subsection \<open>What the columns promise\<close>

text \<open>
  Rules and items as the forms of the back office make them: no negative values. The columns alone
  do not forbid one.
\<close>

definition rule_ok :: "discount_rule \<Rightarrow> bool" where
  "rule_ok r \<longleftrightarrow> 0 \<le> dr_value r \<and> (case dr_maximum r of None \<Rightarrow> True | Some m \<Rightarrow> 0 \<le> m)"

definition discounts_ok :: "store_db \<Rightarrow> bool" where
  "discounts_ok db \<longleftrightarrow> (\<forall>r \<in> set (discount_rules db). rule_ok r)"

lemma capped_nonneg: "rule_ok r \<Longrightarrow> 0 \<le> d \<Longrightarrow> 0 \<le> capped (dr_maximum r) d"
  by (auto simp: capped_def rule_ok_def given_rat_def split: option.splits if_splits)

lemma capped_le: "capped m d \<le> d"
  by (auto simp: capped_def split: option.splits)

lemma discount_on_nonneg: "rule_ok r \<Longrightarrow> 0 \<le> a \<Longrightarrow> 0 \<le> discount_on r k a"
  by (auto simp: discount_on_def intro!: capped_nonneg) (simp_all add: rule_ok_def)

lemma filtered_sum_nonneg: "\<forall>i \<in> set items. 0 \<le> oi_subtotal i \<Longrightarrow> 0 \<le> (\<Sum>i\<leftarrow>filter P items. oi_subtotal i)"
  by (intro sum_list_nonneg) auto

lemma rule_amount_nonneg: "rule_ok r \<Longrightarrow> \<forall>i \<in> set items. 0 \<le> oi_subtotal i \<Longrightarrow> 0 \<le> subtotal \<Longrightarrow> 0 \<le> rule_amount sh r items subtotal"
  by (auto simp: rule_amount_def calculate_product_discount_def calculate_category_discount_def
      split: discount_kind.splits discount_target.splits intro!: discount_on_nonneg filtered_sum_nonneg)
    (simp_all add: rule_ok_def)

lemma limited_bounds:
  assumes "rule_ok r" "\<forall>i \<in> set items. 0 \<le> oi_subtotal i" "0 \<le> subtotal"
  shows "0 \<le> limited_amount sh r items subtotal" "limited_amount sh r items subtotal \<le> subtotal"
  using capped_nonneg [OF assms(1) rule_amount_nonneg [OF assms]] assms(3) by (simp_all add: limited_amount_def)

lemma rule_of_SomeD: "rule_of db i = Some r \<Longrightarrow> r \<in> set (discount_rules db) \<and> dr_id r = i"
  by (auto simp: rule_of_def dest: first_filter_SomeD)

lemma coupon_bounds:
  assumes "discounts_ok db" "\<forall>i \<in> set items. 0 \<le> oi_subtotal i" "0 \<le> subtotal"
  shows "0 \<le> fst (calculate_coupon_discount e w code items subtotal customer db) \<and>
    fst (calculate_coupon_discount e w code items subtotal customer db) \<le> subtotal"
proof -
  have "rule_ok r" if "rule_of db i = Some r" for i r
    using rule_of_SomeD [OF that] assms(1) by (simp add: discounts_ok_def)
  then show ?thesis using limited_bounds [OF _ assms(2,3)] assms(3)
    by (auto simp: calculate_coupon_discount_def split: option.splits)
qed

subsection \<open>The best of the rules\<close>

definition eligible_rules :: "store_db \<Rightarrow> nat \<Rightarrow> rat \<Rightarrow> discount_rule set" where
  "eligible_rules db w subtotal = {r \<in> set (discount_rules db). dr_workspace r = w \<and> dr_active r \<and> \<not> below_minimum r subtotal}"

lemma auto_fold:
  "fold (auto_step sh items subtotal) rs (d, s) =
    (fold (\<lambda>r m. max m (limited_amount sh r items subtotal)) (filter (\<lambda>r. \<not> below_minimum r subtotal) rs) d,
     if list_ex (\<lambda>r. \<not> below_minimum r subtotal \<and> ships_free sh r items) rs then free_shipping_mark else s)"
  by (induction rs arbitrary: d s) (auto simp: auto_step_def Let_def max_def)

lemma fold_max: "fold (\<lambda>x m. max m (f x)) xs (d::'a::linorder) = Max (insert d (f ` set xs))"
proof (induction xs arbitrary: d)
  case (Cons x xs)
  have "Max (insert (max d (f x)) (f ` set xs)) = Max (insert d (insert (f x) (f ` set xs)))"
    by (cases "f ` set xs = {}") (simp_all add: max.assoc)
  with Cons show ?case by simp
qed simp

lemma auto_discount:
  "calculate_auto_discount w items subtotal db =
    (Max (insert 0 ((\<lambda>r. limited_amount (shop (fin db)) r items subtotal) ` eligible_rules db w subtotal)),
     if \<exists>r \<in> eligible_rules db w subtotal. ships_free (shop (fin db)) r items then free_shipping_mark else 0)"
proof -
  have s: "set (matching_rules db w) = {r \<in> set (discount_rules db). dr_workspace r = w \<and> dr_active r}"
    by (simp add: matching_rules_def)
  then have "set (filter (\<lambda>r. \<not> below_minimum r subtotal) (matching_rules db w)) = eligible_rules db w subtotal"
    by (auto simp: eligible_rules_def)
  moreover have "list_ex (\<lambda>r. \<not> below_minimum r subtotal \<and> ships_free sh r items) (matching_rules db w) \<longleftrightarrow>
      (\<exists>r \<in> eligible_rules db w subtotal. ships_free sh r items)" for sh
    using s by (auto simp: list_ex_iff eligible_rules_def)
  ultimately show ?thesis by (simp add: calculate_auto_discount_def auto_fold fold_max)
qed

lemma finite_eligible [simp]: "finite (eligible_rules db w subtotal)"
  by (simp add: eligible_rules_def)

lemma auto_le: "r \<in> eligible_rules db w subtotal \<Longrightarrow>
    limited_amount (shop (fin db)) r items subtotal \<le> fst (calculate_auto_discount w items subtotal db)"
  by (simp add: auto_discount)

lemma auto_bounds:
  assumes "0 \<le> subtotal"
  shows "0 \<le> fst (calculate_auto_discount w items subtotal db)" "fst (calculate_auto_discount w items subtotal db) \<le> subtotal"
  using assms by (auto simp: auto_discount limited_amount_def)

subsection \<open>Cards\<close>

lemma active_gift_card_SomeD: "active_gift_card db w code = Some g \<Longrightarrow>
    g \<in> set (gift_cards db) \<and> gc_workspace g = w \<and> gc_code g = code \<and> gc_active g"
  by (auto simp: active_gift_card_def dest: first_filter_SomeD)

lemma gift_amount_bounds:
  assumes "\<forall>g \<in> set (gift_cards db). 0 \<le> gc_balance g"
  shows "0 \<le> calculate_gift_card_amount e w code subtotal existing customer db"
    "existing \<le> subtotal \<Longrightarrow> calculate_gift_card_amount e w code subtotal existing customer db \<le> subtotal - existing"
  using assms by (auto simp: calculate_gift_card_amount_def split: option.splits dest: active_gift_card_SomeD)

definition cards_ok :: "store_db \<Rightarrow> bool" where
  "cards_ok db \<longleftrightarrow> distinct (map gc_id (gift_cards db)) \<and> (\<forall>g \<in> set (gift_cards db). on_grid 2 (gc_balance g) \<and> 0 \<le> gc_balance g)"

definition on_cards :: "store_db \<Rightarrow> rat" where
  "on_cards db = (\<Sum>g\<leftarrow>gift_cards db. gc_balance g)"

lemma on_grid_diff: "on_grid p x \<Longrightarrow> on_grid p y \<Longrightarrow> on_grid p (x - y)"
  using on_grid_add [of p x "- y"] on_grid_uminus [of p y] by simp

lemma debit_card_effect:
  assumes ok: "cards_ok db" and g: "g \<in> set (gift_cards db)" "gc_active g" and a: "on_grid 2 amount" "0 \<le> amount" "amount \<le> gc_balance g"
  shows "cards_ok (debit_card g amount db)" "on_cards (debit_card g amount db) = on_cards db - amount"
    "\<exists>g' \<in> set (gift_cards (debit_card g amount db)). gc_id g' = gc_id g \<and> gc_balance g' = gc_balance g - amount \<and>
       (gc_active g' \<longleftrightarrow> gc_balance g' \<noteq> 0)"
    "x \<in> set (gift_cards db) \<Longrightarrow> gc_id x \<noteq> gc_id g \<Longrightarrow> x \<in> set (gift_cards (debit_card g amount db))"
proof -
  from ok g have b: "on_grid 2 (gc_balance g - amount)" by (auto simp: cards_ok_def intro: on_grid_diff a(1))
  then have c: "cents (gc_balance g - amount) = gc_balance g - amount" by (rule cents_exact)
  let ?f = "\<lambda>x. x\<lparr>gc_balance := gc_balance g - amount, gc_active := (gc_balance g - amount \<noteq> 0 \<and> gc_active g)\<rparr>"
  have d: "gift_cards (debit_card g amount db) = update_where (\<lambda>x. gc_id x = gc_id g) ?f (gift_cards db)"
    by (simp add: debit_card_def c)
  from ok have dist: "distinct (map gc_id (gift_cards db))" by (simp add: cards_ok_def)
  show "cards_ok (debit_card g amount db)" unfolding cards_ok_def d
    using ok a b by (auto simp: cards_ok_def map_update_where set_update_where)
  show "on_cards (debit_card g amount db) = on_cards db - amount"
    unfolding on_cards_def d sum_update_where [where key = gc_id and g = gc_balance, OF dist g(1)] by simp
  show "\<exists>g' \<in> set (gift_cards (debit_card g amount db)). gc_id g' = gc_id g \<and> gc_balance g' = gc_balance g - amount \<and>
       (gc_active g' \<longleftrightarrow> gc_balance g' \<noteq> 0)"
    unfolding d set_update_where using g by (intro bexI [of _ "?f g"]) (auto simp: image_iff)
  show "x \<in> set (gift_cards (debit_card g amount db))" if "x \<in> set (gift_cards db)" "gc_id x \<noteq> gc_id g"
    unfolding d set_update_where using that by force
qed

subsection \<open>Properties\<close>

text \<open>
  Without a code the discount of an order is that of the best rule: the greatest of what the active
  rules of the workspace whose minimum is reached take off, and nothing when none takes off
  anything. It never exceeds the subtotal, and shipping is free exactly when one of them says so.
\<close>

theorem auto_discount_is_best:
  assumes "0 \<le> subtotal"
  shows "let (discount, shipping) = calculate_auto_discount w items subtotal db in
    (discount = 0 \<or> (\<exists>r \<in> eligible_rules db w subtotal. discount = limited_amount (shop (fin db)) r items subtotal)) \<and>
    (\<forall>r \<in> eligible_rules db w subtotal. limited_amount (shop (fin db)) r items subtotal \<le> discount) \<and>
    0 \<le> discount \<and> discount \<le> subtotal \<and>
    (0 < shipping \<longleftrightarrow> (\<exists>r \<in> eligible_rules db w subtotal. ships_free (shop (fin db)) r items))"
proof -
  let ?f = "\<lambda>r. limited_amount (shop (fin db)) r items subtotal" and ?E = "eligible_rules db w subtotal"
  have "Max (insert 0 (?f ` ?E)) \<in> insert 0 (?f ` ?E)" by (rule Max_in) simp_all
  then have "fst (calculate_auto_discount w items subtotal db) = 0 \<or>
      (\<exists>r \<in> ?E. fst (calculate_auto_discount w items subtotal db) = ?f r)" by (auto simp: auto_discount)
  moreover have "0 < snd (calculate_auto_discount w items subtotal db) \<longleftrightarrow> (\<exists>r \<in> ?E. ships_free (shop (fin db)) r items)"
    by (simp add: auto_discount free_shipping_mark_def)
  ultimately show ?thesis using auto_bounds [OF assms] auto_le by (simp add: split_beta)
qed

text \<open>
  A code is never worth more than no code: the rule of a coupon that is active applies by itself to
  everyone, so with the code an order gets at most the discount it gets without, and the coupon's
  own limits are void.
\<close>

theorem coupon_never_beats_none:
  assumes "discounts_ok db" "0 \<le> subtotal" "\<forall>i \<in> set items. 0 \<le> oi_subtotal i"
    and "\<forall>r \<in> set (discount_rules db). dr_workspace r = w \<and> dr_active r"
  shows "fst (calculate_coupon_discount e w code items subtotal customer db) \<le> fst (calculate_auto_discount w items subtotal db)"
proof -
  have "r \<in> eligible_rules db w subtotal" if "rule_of db i = Some r" "\<not> below_minimum r subtotal" for i r
    using rule_of_SomeD [OF that(1)] that(2) assms(4) by (simp add: eligible_rules_def)
  from auto_le [OF this] auto_bounds [OF assms(2)] show ?thesis
    by (auto simp: calculate_coupon_discount_def split: option.splits)
qed

text \<open>
  Paying with a gift card moves money and makes none: it is refused and nothing is written, or the
  amount is positive, at most the balance and the total of the order, the cards together hold that
  much less and the order is due that much less. No other card changes, none is overdrawn, and the
  card is closed exactly when nothing is left on it.
\<close>

theorem gift_card_moves_money:
  assumes ok: "cards_ok db" and grid: "on_grid 2 (od_total given)"
    and adds_up: "od_total given = od_subtotal given + od_shipping given + od_tax given - od_discount given"
    and result: "apply_gift_card_to_order e w given code db = Inr ((amount, order), db')"
  shows "0 < amount \<and> amount \<le> od_total given \<and> on_cards db' = on_cards db - amount \<and> od_total order = od_total given - amount \<and>
    od_total order = od_subtotal order + od_shipping order + od_tax order - od_discount order \<and> cards_ok db' \<and>
    (\<exists>g \<in> set (gift_cards db). \<exists>g' \<in> set (gift_cards db'). active_gift_card db w (upper code) = Some g \<and> gc_id g' = gc_id g \<and>
       gc_balance g' = gc_balance g - amount \<and> (gc_active g' \<longleftrightarrow> gc_balance g' \<noteq> 0) \<and>
       (\<forall>x \<in> set (gift_cards db). gc_id x \<noteq> gc_id g \<longrightarrow> x \<in> set (gift_cards db')))"
proof -
  from result obtain g :: gift_card where g: "active_gift_card db w (upper code) = Some g"
    by (cases "active_gift_card db w (upper code)") (simp_all add: apply_gift_card_to_order_def)
  define paid where "paid = min (gc_balance g) (max (od_total given) 0)"
  from result have fits: "\<not> gift_card_has_expired e (gc_expires g)" "gift_card_matches_context db w (Some (od_customer given)) g" "\<not> paid \<le> 0"
    by (simp_all add: apply_gift_card_to_order_def g Let_def paid_def [symmetric] split: if_split_asm)
  then have "apply_gift_card_to_order e w given code db = Inr ((paid, given\<lparr>od_discount := od_discount given + paid,
        od_total := max (od_subtotal given + od_shipping given + od_tax given - (od_discount given + paid)) 0\<rparr>),
      debit_card g paid (in_shop (save_amounts (od_id given) (od_discount given + paid)
        (max (od_subtotal given + od_shipping given + od_tax given - (od_discount given + paid)) 0)) db))"
    by (simp add: apply_gift_card_to_order_def g Let_def paid_def [symmetric])
  with result have p: "paid = amount" and order: "order = given\<lparr>od_discount := od_discount given + amount,
        od_total := max (od_subtotal given + od_shipping given + od_tax given - (od_discount given + amount)) 0\<rparr>"
    and db': "db' = debit_card g amount (in_shop (save_amounts (od_id given) (od_discount given + amount)
        (max (od_subtotal given + od_shipping given + od_tax given - (od_discount given + amount)) 0)) db)" by auto
  from p fits(3) have amount: "amount = min (gc_balance g) (max (od_total given) 0)" "0 < amount" by (simp_all add: paid_def)
  let ?mid = "in_shop (save_amounts (od_id given) (od_discount given + amount)
      (max (od_subtotal given + od_shipping given + od_tax given - (od_discount given + amount)) 0)) db"
  from active_gift_card_SomeD [OF g] have gm: "g \<in> set (gift_cards ?mid)" "gc_active g" by auto
  from ok have okm: "cards_ok ?mid" by (simp add: cards_ok_def)
  have "on_grid 2 amount" using ok gm grid unfolding amount(1) by (auto simp: cards_ok_def max_def intro!: on_grid_min)
  moreover have le: "0 \<le> amount" "amount \<le> gc_balance g" "amount \<le> od_total given" using amount by auto
  ultimately have eff: "cards_ok db'" "on_cards db' = on_cards ?mid - amount"
    "\<exists>g' \<in> set (gift_cards db'). gc_id g' = gc_id g \<and> gc_balance g' = gc_balance g - amount \<and> (gc_active g' \<longleftrightarrow> gc_balance g' \<noteq> 0)"
    "\<And>x. x \<in> set (gift_cards ?mid) \<Longrightarrow> gc_id x \<noteq> gc_id g \<Longrightarrow> x \<in> set (gift_cards db')"
    unfolding db' using debit_card_effect [OF okm gm, of amount] by blast+
  have "on_cards ?mid = on_cards db" by (simp add: on_cards_def)
  moreover have "od_total order = od_total given - amount" "od_total order = od_subtotal order + od_shipping order + od_tax order - od_discount order"
    using adds_up le by (simp_all add: order)
  moreover from eff(3) obtain g' where "g' \<in> set (gift_cards db')" "gc_id g' = gc_id g" "gc_balance g' = gc_balance g - amount"
    "gc_active g' \<longleftrightarrow> gc_balance g' \<noteq> 0" by blast
  moreover have "\<forall>x \<in> set (gift_cards db). gc_id x \<noteq> gc_id g \<longrightarrow> x \<in> set (gift_cards db')" using eff(4) by simp
  moreover have "g \<in> set (gift_cards db)" using gm(1) by simp
  ultimately show ?thesis using amount(2) le(3) eff(1,2) g by metis
qed

end
