(* ===== verification/Conditions.thy ===== *)
theory Conditions
  imports Store_Data
begin

text \<open>
  JSON values as Python reads them, and the condition engine (\<open>core/condition_engine.py\<close>).

  Reading a value that has another type than the code expects raises; so does \<open>Decimal(str(value))\<close>
  of what is no number. A text that \<open>Decimal\<close> reads as an infinity or a NaN is refused here
  (\<open>Not_Finite_Value\<close>), although the code would go on with it.

  The engine evaluates a condition in a context of decimals and of dictionaries of decimals, the
  contexts the services build. The provider of customer fields, the only one registered, answers
  None in them: they name no customer. \<open>float_value\<close> is the exact value of the double nearest to a
  decimal.
\<close>

datatype json_error = Type_Error | Bad_Decimal | Not_Finite_Value | Zero_Division | Unknown_Operator | Bad_Rule | No_Rule_Matches
  | Product_Missing | Value_Missing | Template_Unknown

subsection \<open>Values\<close>

definition truth :: "json \<Rightarrow> bool" where
  "truth j = (case j of J_Null \<Rightarrow> False | J_Bool b \<Rightarrow> b | J_Int n \<Rightarrow> n \<noteq> 0 | J_Float r \<Rightarrow> r \<noteq> 0 | J_Str s \<Rightarrow> s \<noteq> []
     | J_List xs \<Rightarrow> xs \<noteq> [] | J_Obj kvs \<Rightarrow> kvs \<noteq> [])"

text \<open>\<open>value.get(key, default)\<close>.\<close>

definition lookup :: "(string \<times> json) list \<Rightarrow> string \<Rightarrow> json \<Rightarrow> json" where
  "lookup kvs k d = (case map_of kvs k of None \<Rightarrow> d | Some v \<Rightarrow> v)"

definition object_of :: "json \<Rightarrow> json_error + (string \<times> json) list" where
  "object_of j = (case j of J_Obj kvs \<Rightarrow> Inr kvs | _ \<Rightarrow> Inl Type_Error)"

subsection \<open>Reading decimals\<close>

text \<open>The grammar of \<open>Decimal\<close>: a sign, digits with a point, an exponent; or an infinity or a NaN.\<close>

definition signed :: "string \<Rightarrow> bool \<times> string" where
  "signed s = (case s of [] \<Rightarrow> (False, []) | c # rest \<Rightarrow> if c = CHR ''-'' then (True, rest) else if c = CHR ''+'' then (False, rest)
     else (False, s))"

definition int_text :: "string \<Rightarrow> int option" where
  "int_text s = (let (neg, d) = signed s in map_option (\<lambda>n. if neg then - int n else int n) (int_of d))"

definition scaled :: "nat \<Rightarrow> int \<Rightarrow> rat" where
  "scaled n e = (if 0 \<le> e then of_nat n * 10 ^ nat e else of_nat n / 10 ^ nat (- e))"

definition is_exponent :: "char \<Rightarrow> bool" where
  "is_exponent c \<longleftrightarrow> c = CHR ''e'' \<or> c = CHR ''E''"

definition plain_number :: "string \<Rightarrow> (nat \<times> nat) option" where
  "plain_number s = (let (whole, _, part) = partition CHR ''.'' s in map_option (\<lambda>n. (n, length part)) (int_of (whole @ part)))"

definition decimal_of :: "string \<Rightarrow> number" where
  "decimal_of text = (let (neg, s) = signed (filter (\<lambda>c. c \<noteq> CHR ''_'') (strip text));
       mantissa = takeWhile (\<lambda>c. \<not> is_exponent c) s; rest = dropWhile (\<lambda>c. \<not> is_exponent c) s;
       power = (if rest = [] then Some 0 else int_text (tl rest))
     in if lower s = ''inf'' \<or> lower s = ''infinity'' \<or> take 3 (lower s) = ''nan'' \<and> list_all ascii_digit (drop 3 s) \<or>
          take 4 (lower s) = ''snan'' \<and> list_all ascii_digit (drop 4 s) then Not_Finite
     else case (plain_number mantissa, power) of
       (Some (n, places), Some e) \<Rightarrow> Number ((if neg then - 1 else 1) * scaled n (e - int places)) | _ \<Rightarrow> Not_A_Number)"

definition decimal_text :: "string \<Rightarrow> json_error + rat" where
  "decimal_text s = (case decimal_of s of Number x \<Rightarrow> Inr x | Not_A_Number \<Rightarrow> Inl Bad_Decimal | Not_Finite \<Rightarrow> Inl Not_Finite_Value)"

text \<open>\<open>Decimal(str(value))\<close>.\<close>

definition decimal_value :: "json \<Rightarrow> json_error + rat" where
  "decimal_value j = (case j of J_Int n \<Rightarrow> Inr (of_int n) | J_Float r \<Rightarrow> Inr r | J_Str s \<Rightarrow> decimal_text s | _ \<Rightarrow> Inl Bad_Decimal)"

lemmas decimal_reading = decimal_of_def Let_def signed_def strip_def whitespace_def lower_def lower_of_def upper_letter_def is_exponent_def
  plain_number_def int_of_def int_text_def ascii_digit_def digit_value_def scaled_def

lemma decimal_of_examples:
  "decimal_of '' 12.50'' = Number (25/2)" "decimal_of ''-3e2'' = Number (-300)" "decimal_of ''.5'' = Number (1/2)"
  "decimal_of ''1E-2'' = Number (1/100)" "decimal_of ''1.2.3'' = Not_A_Number"
  by (simp_all add: decimal_reading)

subsection \<open>Comparing\<close>

datatype context_value = C_Dec rat | C_Dict "(string \<times> rat) list"

text \<open>A decimal equals the int or the double of the same exact value, and a bool as an int.\<close>

definition dec_eq :: "(rat \<Rightarrow> rat) \<Rightarrow> rat \<Rightarrow> json \<Rightarrow> bool" where
  "dec_eq float_value a j = (case j of J_Int n \<Rightarrow> a = of_int n | J_Float r \<Rightarrow> a = float_value r | J_Bool b \<Rightarrow> a = (if b then 1 else 0)
     | _ \<Rightarrow> False)"

definition dict_eq :: "(rat \<Rightarrow> rat) \<Rightarrow> (string \<times> rat) list \<Rightarrow> json \<Rightarrow> bool" where
  "dict_eq float_value d j = (case j of J_Obj kvs \<Rightarrow> set (map fst d) = set (map fst kvs) \<and>
       list_all (\<lambda>(k, a). case map_of kvs k of None \<Rightarrow> False | Some v \<Rightarrow> dec_eq float_value a v) d
     | _ \<Rightarrow> False)"

definition ordering :: "string \<Rightarrow> bool" where
  "ordering op \<longleftrightarrow> op \<in> {''>'', ''>='', ''<'', ''<=''}"

definition compare_numbers :: "rat \<Rightarrow> string \<Rightarrow> rat \<Rightarrow> json_error + bool" where
  "compare_numbers a op x = (if op = ''=='' then Inr (a = x) else if op = ''!='' then Inr (a \<noteq> x) else if op = ''>'' then Inr (x < a)
     else if op = ''>='' then Inr (x \<le> a) else if op = ''<'' then Inr (a < x) else if op = ''<='' then Inr (a \<le> x)
     else if op \<in> {''in'', ''not_in'', ''contains''} then Inl Type_Error else Inl Unknown_Operator)"

definition compare_other :: "bool \<Rightarrow> (json_error + bool) \<Rightarrow> (json_error + bool) \<Rightarrow> string \<Rightarrow> json_error + bool" where
  "compare_other same inside holds op = (if op = ''=='' then Inr same else if op = ''!='' then Inr (\<not> same)
     else if ordering op then Inl Type_Error
     else if op = ''in'' then inside else if op = ''not_in'' then bind_r inside (\<lambda>b. Inr (\<not> b))
     else if op = ''contains'' then holds else Inl Unknown_Operator)"

definition compare_decimal :: "(rat \<Rightarrow> rat) \<Rightarrow> rat \<Rightarrow> string \<Rightarrow> json \<Rightarrow> json_error + bool" where
  "compare_decimal float_value a op expected = (case expected of
     J_Int n \<Rightarrow> compare_numbers a op (of_int n)
   | J_Float r \<Rightarrow> compare_numbers a op r
   | J_Bool b \<Rightarrow> Inl Bad_Decimal
   | J_List xs \<Rightarrow> compare_other False (Inr (list_ex (dec_eq float_value a) xs)) (Inl Type_Error) op
   | J_Obj kvs \<Rightarrow> compare_other False (Inr False) (Inl Type_Error) op
   | _ \<Rightarrow> compare_other False (Inl Type_Error) (Inl Type_Error) op)"

definition compare_dict :: "(rat \<Rightarrow> rat) \<Rightarrow> (string \<times> rat) list \<Rightarrow> string \<Rightarrow> json \<Rightarrow> json_error + bool" where
  "compare_dict float_value d op expected = compare_other (dict_eq float_value d expected)
     (case expected of J_List xs \<Rightarrow> Inr (list_ex (dict_eq float_value d) xs) | _ \<Rightarrow> Inl Type_Error)
     (case expected of J_Str k \<Rightarrow> Inr (k \<in> set (map fst d)) | J_List _ \<Rightarrow> Inl Type_Error | J_Obj _ \<Rightarrow> Inl Type_Error | _ \<Rightarrow> Inr False) op"

definition compare :: "(rat \<Rightarrow> rat) \<Rightarrow> context_value option \<Rightarrow> json \<Rightarrow> json \<Rightarrow> json_error + bool" where
  "compare float_value actual op expected = (case actual of None \<Rightarrow> Inr False
     | Some a \<Rightarrow> (case (a, expected) of (C_Dec _, J_Bool _) \<Rightarrow> Inl Bad_Decimal
       | _ \<Rightarrow> (case op of J_Str name \<Rightarrow> (case a of C_Dec x \<Rightarrow> compare_decimal float_value x name expected
              | C_Dict d \<Rightarrow> compare_dict float_value d name expected)
           | _ \<Rightarrow> Inl Unknown_Operator)))"

subsection \<open>Fields\<close>

type_synonym fields = "(string \<times> context_value) list"

definition nested_value :: "fields \<Rightarrow> string list \<Rightarrow> context_value option" where
  "nested_value ctx path = (case path of [k] \<Rightarrow> map_of ctx k
     | [k, l] \<Rightarrow> (case map_of ctx k of Some (C_Dict d) \<Rightarrow> map_option C_Dec (map_of d l) | _ \<Rightarrow> None)
     | _ \<Rightarrow> None)"

definition get_field_value :: "fields \<Rightarrow> string \<Rightarrow> context_value option" where
  "get_field_value ctx field = (if CHR ''.'' \<in> set field
     then if takeWhile (\<lambda>c. c \<noteq> CHR ''.'') field = ''customer'' then None else nested_value ctx (split_on CHR ''.'' field)
     else map_of ctx field)"

subsection \<open>Conditions\<close>

definition evaluate_leaf :: "(rat \<Rightarrow> rat) \<Rightarrow> fields \<Rightarrow> (string \<times> json) list \<Rightarrow> json_error + bool" where
  "evaluate_leaf float_value ctx kvs =
    (let field = lookup kvs ''field'' J_Null; op = lookup kvs ''operator'' J_Null in
     if \<not> truth field \<or> \<not> truth op then Inl Bad_Rule
     else case field of J_Str f \<Rightarrow> compare float_value (get_field_value ctx f) op (lookup kvs ''value'' J_Null) | _ \<Rightarrow> Inl Type_Error)"

lemma size_lookup: "map_of kvs k = Some v \<Longrightarrow> size v < size (J_Obj kvs)"
proof (induction kvs)
  case (Cons kv kvs)
  then show ?case by (cases kv) (auto split: if_splits)
qed simp

function evaluate :: "(rat \<Rightarrow> rat) \<Rightarrow> fields \<Rightarrow> json \<Rightarrow> json_error + bool"
  and evaluate_all :: "(rat \<Rightarrow> rat) \<Rightarrow> fields \<Rightarrow> json list \<Rightarrow> json_error + bool"
  and evaluate_any :: "(rat \<Rightarrow> rat) \<Rightarrow> fields \<Rightarrow> json list \<Rightarrow> json_error + bool"
  and evaluate_rule :: "(rat \<Rightarrow> rat) \<Rightarrow> fields \<Rightarrow> json \<Rightarrow> json_error + bool" where
  "evaluate fv ctx c = (case c of J_Null \<Rightarrow> Inr True
     | J_Obj kvs \<Rightarrow> (case map_of kvs ''rules'' of None \<Rightarrow> Inr True
       | Some rules \<Rightarrow> if \<not> truth rules then Inr True
           else if lookup kvs ''operator'' (J_Str ''AND'') = J_Str ''AND'' then
             (case rules of J_List rs \<Rightarrow> evaluate_all fv ctx rs | _ \<Rightarrow> Inl Type_Error)
           else if lookup kvs ''operator'' (J_Str ''AND'') = J_Str ''OR'' then
             (case rules of J_List rs \<Rightarrow> evaluate_any fv ctx rs | _ \<Rightarrow> Inl Type_Error)
           else Inl Unknown_Operator)
     | _ \<Rightarrow> Inl Type_Error)"
| "evaluate_all fv ctx [] = Inr True"
| "evaluate_all fv ctx (r # rs) = (case evaluate_rule fv ctx r of Inl err \<Rightarrow> Inl err
     | Inr b \<Rightarrow> if b then evaluate_all fv ctx rs else Inr False)"
| "evaluate_any fv ctx [] = Inr False"
| "evaluate_any fv ctx (r # rs) = (case evaluate_rule fv ctx r of Inl err \<Rightarrow> Inl err
     | Inr b \<Rightarrow> if b then Inr True else evaluate_any fv ctx rs)"
| "evaluate_rule fv ctx r = (case r of
       J_Obj kvs \<Rightarrow> if ''rules'' \<in> set (map fst kvs) then evaluate fv ctx (J_Obj kvs) else evaluate_leaf fv ctx kvs
     | _ \<Rightarrow> Inl Type_Error)"
  by pat_completeness auto

termination
proof (relation "measure (\<lambda>x. case x of Inl (Inl (_, _, c)) \<Rightarrow> 2 * size c | Inl (Inr (_, _, rs)) \<Rightarrow> 2 * size_list size rs
    | Inr (Inl (_, _, rs)) \<Rightarrow> 2 * size_list size rs | Inr (Inr (_, _, r)) \<Rightarrow> 2 * size r + 1)", goal_cases)
  case 1
  then show ?case by simp
qed (auto dest!: size_lookup)

declare evaluate.simps [simp del] evaluate_rule.simps [simp del]

end
