(* ===== verification/Freight.thy ===== *)
theory Freight
  imports Conditions
begin

text \<open>
  What carrying a parcel costs (\<open>delivery/services/freight_calculator.py\<close>): the billing weight, the
  choice of a pricing rule, the three ways to price a weight, and the templates the back office
  fills in (\<open>delivery/schemas/freight_templates.py\<close>). A price names a number or a product, whose
  price is then looked up (\<open>shop/services/freight_price_resolver.py\<close>,
  \<open>shop/services/product_price_service.py\<close>).

  A call answers a cost or what it raises. \<open>float_value\<close> is the exact value of the double nearest to
  a decimal; \<open>via_float\<close> the shortest decimal text of it.
\<close>

subsection \<open>Scheduled prices\<close>

definition get_effective_price :: "store_db \<Rightarrow> moment \<Rightarrow> product \<Rightarrow> json_error + rat" where
  "get_effective_price db at_time p = (if \<not> pd_active p then Inl Product_Missing
     else case latest_by ph_effective (filter (\<lambda>h. ph_product h = pd_id p \<and> ph_effective h \<le> at_time \<and> ph_status h = Price_Active)
         (price_changes db)) of
       Some h \<Rightarrow> Inr (ph_new h) | None \<Rightarrow> Inr (pd_price p))"

definition set_price :: "nat \<Rightarrow> rat \<Rightarrow> store_db \<Rightarrow> store_db" where
  "set_price i price = in_shop (\<lambda>sh. sh\<lparr>products := update_where (\<lambda>p. pd_id p = i) (\<lambda>p. p\<lparr>pd_price := cents price\<rparr>) (products sh)\<rparr>)"

definition schedule_price_change :: "env \<Rightarrow> product \<Rightarrow> rat \<Rightarrow> moment \<Rightarrow> nat \<Rightarrow> string \<Rightarrow> store_db \<Rightarrow> json_error + (price_change \<times> store_db)" where
  "schedule_price_change e p price effective_at user reason db = bind_r (get_effective_price db (now e) p) (\<lambda>current.
     let due = effective_at \<le> now e;
         h = \<lparr>ph_id = fresh_id ph_id (price_changes db), ph_workspace = pd_workspace p, ph_product = pd_id p, ph_old = cents current,
           ph_new = cents price, ph_effective = effective_at, ph_by = user, ph_reason = reason,
           ph_status = (if due then Price_Active else Price_Pending)\<rparr>;
         db = (if due then set_price (pd_id p) price db else db)
     in Inr (h, db\<lparr>price_changes := price_changes db @ [h]\<rparr>))"

text \<open>The pending changes that are due, the newest first, which is the order of the table.\<close>

definition due_changes :: "env \<Rightarrow> store_db \<Rightarrow> price_change list" where
  "due_changes e db = rev (sort_key ph_effective (filter (\<lambda>h. ph_effective h \<le> now e \<and> ph_status h = Price_Pending) (price_changes db)))"

definition activate :: "price_change \<Rightarrow> store_db \<Rightarrow> store_db" where
  "activate h db = (let db = set_price (ph_product h) (ph_new h) db in
     db\<lparr>price_changes := update_where (\<lambda>x. ph_id x = ph_id h) (\<lambda>x. x\<lparr>ph_status := Price_Active\<rparr>) (price_changes db)\<rparr>)"

definition activate_pending_price_changes :: "env \<Rightarrow> store_db \<Rightarrow> nat \<times> store_db" where
  "activate_pending_price_changes e db = (let due = due_changes e db in (length due, fold activate due db))"

text \<open>
  Of several changes of a product that fall due together, the oldest is written last: what the
  product then costs is the price of the earliest, while the effective price is that of the latest.
\<close>

definition price_of :: "store_db \<Rightarrow> nat \<Rightarrow> rat option" where
  "price_of db i = map_option pd_price (product_of (shop (fin db)) i)"

lemma first_filter_update_price:
  "first (filter (\<lambda>p. pd_id p = i) (update_where (\<lambda>p. pd_id p = j) (\<lambda>p. p\<lparr>pd_price := x\<rparr>) ps)) =
    map_option (\<lambda>p. if pd_id p = j then p\<lparr>pd_price := x\<rparr> else p) (first (filter (\<lambda>p. pd_id p = i) ps))"
  by (induction ps) (auto simp: table_simps)

lemma price_of_activate: "price_of (activate h db) i =
    (if ph_product h = i then map_option (\<lambda>_. cents (ph_new h)) (price_of db i) else price_of db i)"
proof -
  have "price_of (db\<lparr>price_changes := hs\<rparr>) i = price_of db i" for db hs by (simp add: price_of_def)
  then have "price_of (activate h db) i = price_of (set_price (ph_product h) (ph_new h) db) i" by (simp add: activate_def Let_def)
  also have "\<dots> = (if ph_product h = i then map_option (\<lambda>_. cents (ph_new h)) (price_of db i) else price_of db i)"
    by (auto simp: price_of_def set_price_def product_of_def first_filter_update_price option.map_comp comp_def
        dest: first_filter_SomeD intro!: option.map_cong0 option.map_cong)
  finally show ?thesis .
qed

lemma price_of_fold: "price_of (fold activate hs db) i = (case rev (filter (\<lambda>h. ph_product h = i) hs) of [] \<Rightarrow> price_of db i
    | h # _ \<Rightarrow> map_option (\<lambda>_. cents (ph_new h)) (price_of db i))"
  by (induction hs arbitrary: db) (auto simp: price_of_activate option.map_comp comp_def split: list.splits)

lemma oldest_due_price_wins:
  assumes "filter (\<lambda>h. ph_product h = i) (due_changes e db) = hs @ [h]" "price_of db i = Some x"
  shows "price_of (snd (activate_pending_price_changes e db)) i = Some (cents (ph_new h)) \<and>
    (\<forall>g \<in> set hs. ph_effective h \<le> ph_effective g)"
proof -
  have "sorted (rev (map ph_effective (due_changes e db)))"
    by (simp add: due_changes_def rev_map [symmetric])
  then have "sorted_wrt (\<lambda>a b. ph_effective b \<le> ph_effective a) (due_changes e db)" by (simp add: sorted_wrt_rev sorted_wrt_map)
  then have "sorted_wrt (\<lambda>a b. ph_effective b \<le> ph_effective a) (hs @ [h])" unfolding assms(1) [symmetric] by (rule sorted_wrt_filter)
  then show ?thesis using assms(2) by (auto simp: activate_pending_price_changes_def Let_def price_of_fold assms(1) sorted_wrt_append)
qed

subsection \<open>The price a configuration names\<close>

text \<open>A key as the database reads it: an int, the whole part of a float, a text of an int.\<close>

definition key_value :: "json \<Rightarrow> json_error + int" where
  "key_value j = (case j of J_Int n \<Rightarrow> Inr n | J_Float r \<Rightarrow> Inr (if 0 \<le> r then \<lfloor>r\<rfloor> else \<lceil>r\<rceil>) | J_Bool b \<Rightarrow> Inr (if b then 1 else 0)
     | J_Str s \<Rightarrow> (case int_text (strip s) of Some n \<Rightarrow> Inr n | None \<Rightarrow> Inl Type_Error) | _ \<Rightarrow> Inl Type_Error)"

definition get_freight_price_value :: "env \<Rightarrow> nat \<Rightarrow> store_db \<Rightarrow> json \<Rightarrow> json_error + rat" where
  "get_freight_price_value e w db j = (case j of
     J_Obj kvs \<Rightarrow> let product_id = lookup kvs ''product_id'' J_Null in
       if truth product_id then bind_r (key_value product_id) (\<lambda>i.
         case first (filter (\<lambda>p. pd_workspace p = w \<and> int (pd_id p) = i \<and> pd_active p) (products (shop (fin db)))) of
           None \<Rightarrow> Inl Product_Missing | Some p \<Rightarrow> get_effective_price db (now e) p)
       else decimal_value (lookup kvs ''price'' (J_Int 0))
   | _ \<Rightarrow> decimal_value j)"

subsection \<open>Billing weight\<close>

definition given_decimal :: "rat option \<Rightarrow> bool" where
  "given_decimal x \<longleftrightarrow> given_rat x \<noteq> None"

definition calculate_billing_weight :: "rat \<Rightarrow> rat option \<Rightarrow> rat option \<Rightarrow> rat option \<Rightarrow> int option \<Rightarrow> rat" where
  "calculate_billing_weight actual l b h factor = (case (given_rat l, given_rat b, given_rat h, factor) of
     (Some l, Some b, Some h, Some f) \<Rightarrow> if f = 0 then actual else max actual (cents (l * b * h / of_int f))
   | _ \<Rightarrow> actual)"

subsection \<open>Choosing a rule\<close>

text \<open>What \<open>normalize_conditions\<close> does with one entry of a list.\<close>

definition engine_rule :: "json \<Rightarrow> json option" where
  "engine_rule c = (case c of J_Obj kvs \<Rightarrow>
       if lookup kvs ''type'' J_Null = J_Str ''weight_gte''
       then Some (J_Obj [(''field'', J_Str ''freight.weight''), (''operator'', J_Str ''>=''), (''value'', lookup kvs ''value'' J_Null)])
       else if lookup kvs ''type'' J_Null = J_Str ''order_amount_gte''
       then Some (J_Obj [(''field'', J_Str ''freight.order_amount''), (''operator'', J_Str ''>=''), (''value'', lookup kvs ''value'' J_Null)])
       else if ''field'' \<in> set (map fst kvs) \<and> ''operator'' \<in> set (map fst kvs) then Some c else None
     | _ \<Rightarrow> None)"

definition normalize_conditions :: "json \<Rightarrow> json option" where
  "normalize_conditions c = (case c of
     J_Obj kvs \<Rightarrow> if ''rules'' \<in> set (map fst kvs) then Some c else None
   | J_List cs \<Rightarrow> let rules = List.map_filter engine_rule cs in
       if rules = [] then None else Some (J_Obj [(''operator'', J_Str ''AND''), (''rules'', J_List rules)])
   | _ \<Rightarrow> None)"

text \<open>
  \<open>sorted(key=...)\<close> by priority, 999 where there is none: numbers compare with numbers and texts
  with texts, anything else raises as soon as there are two. Priorities that are lists are refused
  here, although Python compares them.
\<close>

definition number_key :: "json \<Rightarrow> rat option" where
  "number_key j = (case j of J_Int n \<Rightarrow> Some (of_int n) | J_Float r \<Rightarrow> Some r | J_Bool b \<Rightarrow> Some (if b then 1 else 0) | _ \<Rightarrow> None)"

definition text_key :: "json \<Rightarrow> string option" where
  "text_key j = (case j of J_Str s \<Rightarrow> Some s | _ \<Rightarrow> None)"

fun objects :: "json list \<Rightarrow> json_error + ((string \<times> json) list) list" where
  "objects [] = Inr []"
| "objects (j # js) = bind_r (object_of j) (\<lambda>kvs. bind_r (objects js) (\<lambda>rest. Inr (kvs # rest)))"

definition priority :: "(string \<times> json) list \<Rightarrow> json" where
  "priority r = lookup r ''priority'' (J_Int 999)"

definition sorted_by :: "('a \<Rightarrow> json) \<Rightarrow> 'a list \<Rightarrow> json_error + 'a list" where
  "sorted_by key rs = (if length rs \<le> 1 then Inr rs
     else if list_all (\<lambda>r. number_key (key r) \<noteq> None) rs then Inr (sort_key (\<lambda>r. the (number_key (key r))) rs)
     else if list_all (\<lambda>r. text_key (key r) \<noteq> None) rs then Inr (sort_key (\<lambda>r. the (text_key (key r))) rs)
     else Inl Type_Error)"

fun first_match :: "(rat \<Rightarrow> rat) \<Rightarrow> fields \<Rightarrow> ((string \<times> json) list) list \<Rightarrow> json_error + ((string \<times> json) list) option" where
  "first_match fv ctx [] = Inr None"
| "first_match fv ctx (r # rs) = (let raw = lookup r ''conditions'' J_Null in
     case normalize_conditions raw of
       None \<Rightarrow> if \<not> truth raw then Inr (Some r) else first_match fv ctx rs
     | Some c \<Rightarrow> bind_r (evaluate fv ctx c) (\<lambda>b. if b then Inr (Some r) else first_match fv ctx rs))"

definition find_matching_rule :: "(rat \<Rightarrow> rat) \<Rightarrow> (string \<times> json) list \<Rightarrow> fields \<Rightarrow> json_error + ((string \<times> json) list) option" where
  "find_matching_rule fv config ctx = (let rules = lookup config ''pricing_rules'' (J_List []) in
     if \<not> truth rules then Inr None
     else case rules of J_List rs \<Rightarrow> bind_r (objects rs) (\<lambda>rs. bind_r (sorted_by priority rs) (first_match fv ctx)) | _ \<Rightarrow> Inl Type_Error)"

definition rules_for_mode :: "(string \<times> json) list \<Rightarrow> (string \<times> json) list" where
  "rules_for_mode p = (let ptype = lookup p ''type'' J_Null in
     if ptype = J_Str ''free'' then [(''fixed_price'', J_Int 0)]
     else if ptype = J_Str ''linear'' \<and> lookup p ''base'' J_Null \<noteq> J_Null \<and> lookup p ''per_kg'' J_Null \<noteq> J_Null
     then [(''base'', lookup p ''base'' J_Null), (''per_kg'', lookup p ''per_kg'' J_Null)]
     else [(''first_unit'', lookup p ''first_unit'' (J_Obj [])), (''additional_unit'', lookup p ''additional_unit'' (J_Obj []))])"

text \<open>\<open>{**config, ...}\<close>: the new entries hide those of the configuration.\<close>

definition resolve_conditional_config :: "(rat \<Rightarrow> rat) \<Rightarrow> (string \<times> json) list \<Rightarrow> fields \<Rightarrow> json_error + (string \<times> json) list" where
  "resolve_conditional_config fv config ctx = (if lookup config ''mode'' (J_Str ''linear'') \<noteq> J_Str ''conditional'' then Inr config
     else bind_r (find_matching_rule fv config ctx) (\<lambda>found. case found of None \<Rightarrow> Inl No_Rule_Matches
       | Some r \<Rightarrow> if r = [] then Inl No_Rule_Matches
         else bind_r (object_of (lookup r ''pricing'' (J_Obj []))) (\<lambda>p. Inr ([(''mode'', J_Str ''linear''), (''rules'', J_Obj (rules_for_mode p)),
           (''min_charge'', lookup r ''min_charge'' J_Null),
           (''surcharges'', lookup r ''surcharges'' (lookup config ''surcharges'' (J_List []))),
           (''discounts'', lookup r ''discounts'' (J_List []))] @ config))))"

subsection \<open>Pricing a weight\<close>

definition step_cost :: "(rat \<Rightarrow> rat) \<Rightarrow> (json \<Rightarrow> json_error + rat) \<Rightarrow> rat \<Rightarrow> (string \<times> json) list \<Rightarrow> json_error + rat" where
  "step_cost fv price weight rules =
    bind_r (decimal_value (lookup rules ''first_weight'' (J_Int 0))) (\<lambda>first_weight.
    bind_r (price (lookup rules ''first_price'' (J_Int 0))) (\<lambda>first_price.
    bind_r (decimal_value (lookup rules ''additional_weight'' (J_Int 1))) (\<lambda>additional_weight.
    bind_r (price (lookup rules ''additional_price'' (J_Int 0))) (\<lambda>additional_price.
      if weight \<le> first_weight then Inr first_price
      else if additional_weight = 0 then Inl Zero_Division
      else Inr (first_price + of_int \<lceil>fv ((weight - first_weight) / additional_weight)\<rceil> * additional_price)))))"

definition linear_cost :: "(json \<Rightarrow> json_error + rat) \<Rightarrow> rat \<Rightarrow> (string \<times> json) list \<Rightarrow> json_error + rat" where
  "linear_cost price weight rules =
    (if lookup rules ''fixed_price'' J_Null \<noteq> J_Null then decimal_value (lookup rules ''fixed_price'' J_Null)
     else if lookup rules ''base'' J_Null \<noteq> J_Null \<and> lookup rules ''per_kg'' J_Null \<noteq> J_Null
     then bind_r (decimal_value (lookup rules ''base'' J_Null)) (\<lambda>base_cost.
       bind_r (decimal_value (lookup rules ''per_kg'' J_Null)) (\<lambda>per_kg. Inr (base_cost + weight * per_kg)))
     else let first_unit = lookup rules ''first_unit'' (J_Obj []); additional_unit = lookup rules ''additional_unit'' (J_Obj []) in
       if truth first_unit \<or> truth additional_unit
       then bind_r (price first_unit) (\<lambda>first_price. bind_r (price additional_unit) (\<lambda>additional_price.
         if weight \<le> 1 then Inr first_price else Inr (first_price + (weight - 1) * additional_price)))
       else bind_r (decimal_value (lookup rules ''unit_price'' (J_Int 0))) (\<lambda>unit_price.
         bind_r (decimal_value (lookup rules ''min_charge'' (J_Int 0))) (\<lambda>min_charge. Inr (max (weight * unit_price) min_charge))))"

fun tier_limits :: "json list \<Rightarrow> json_error + (rat \<times> (string \<times> json) list) list" where
  "tier_limits [] = Inr []"
| "tier_limits (t # ts) = bind_r (object_of t) (\<lambda>t. bind_r (decimal_value (lookup t ''max_kg'' (J_Int 0))) (\<lambda>m.
     bind_r (tier_limits ts) (\<lambda>rest. Inr ((m, t) # rest))))"

definition tier_price :: "(json \<Rightarrow> json_error + rat) \<Rightarrow> (string \<times> json) list \<Rightarrow> json_error + rat" where
  "tier_price price t = price (lookup t ''price'' (J_Int 0))"

definition tiers_cost :: "(json \<Rightarrow> json_error + rat) \<Rightarrow> rat \<Rightarrow> json list \<Rightarrow> json_error + rat" where
  "tiers_cost price weight ts = bind_r (tier_limits ts) (\<lambda>limits.
     let sorted_tiers = sort_key fst limits in
       case first (filter (\<lambda>(m, t). weight \<le> m) sorted_tiers) of
         Some (m, t) \<Rightarrow> tier_price price t | None \<Rightarrow> tier_price price (snd (last sorted_tiers)))"

fun band_cost :: "(json \<Rightarrow> json_error + rat) \<Rightarrow> bool \<Rightarrow> rat \<Rightarrow> json list \<Rightarrow> json_error + rat" where
  "band_cost price fixed weight [] = Inr 0"
| "band_cost price fixed weight (t # ts) = bind_r (object_of t) (\<lambda>kvs.
     bind_r (decimal_value (lookup kvs ''min'' (J_Int 0))) (\<lambda>t_min.
     bind_r (decimal_value (lookup kvs ''max'' (J_Int 999999))) (\<lambda>t_max.
       if t_min \<le> weight \<and> weight < t_max
       then bind_r (tier_price price kvs) (\<lambda>p. Inr (if fixed then p else weight * p))
       else band_cost price fixed weight ts)))"

definition tier_cost :: "(json \<Rightarrow> json_error + rat) \<Rightarrow> rat \<Rightarrow> (string \<times> json) list \<Rightarrow> json \<Rightarrow> json_error + rat" where
  "tier_cost price weight config rules =
    (case (case rules of J_Obj rs \<Rightarrow> lookup rs ''tiers'' J_Null | _ \<Rightarrow> J_Null) of
       J_List (t # ts) \<Rightarrow> tiers_cost price weight (t # ts)
     | _ \<Rightarrow> band_cost price (lookup config ''match_type'' (J_Str ''unit_price'') = J_Str ''fixed_price'') weight
         (case rules of J_List ts \<Rightarrow> ts | _ \<Rightarrow> []))"

definition calculate_base_shipping_cost :: "(rat \<Rightarrow> rat) \<Rightarrow> (json \<Rightarrow> json_error + rat) \<Rightarrow> rat \<Rightarrow> (string \<times> json) list \<Rightarrow> json_error + rat" where
  "calculate_base_shipping_cost fv price weight config =
    (let mode = lookup config ''mode'' (J_Str ''linear''); rules = lookup config ''rules'' (J_Obj []) in
     if mode = J_Str ''step'' then bind_r (object_of rules) (step_cost fv price weight)
     else if mode = J_Str ''linear'' then bind_r (object_of rules) (linear_cost price weight)
     else if mode = J_Str ''tier'' then tier_cost price weight config rules
     else Inr 0)"

text \<open>The context is \<open>None\<close>, or empty, when the caller gave none.\<close>

definition calculate_shipping_cost :: "(rat \<Rightarrow> rat) \<Rightarrow> (json \<Rightarrow> json_error + rat) \<Rightarrow> rat \<Rightarrow> (string \<times> json) list \<Rightarrow> fields \<Rightarrow> json_error + rat" where
  "calculate_shipping_cost fv price weight config ctx =
    bind_r (if lookup config ''mode'' J_Null = J_Str ''conditional'' \<and> ctx \<noteq> [] then resolve_conditional_config fv config ctx else Inr config)
      (calculate_base_shipping_cost fv price weight)"

subsection \<open>Templates\<close>

text \<open>What \<open>dec\<close> makes of a form value: nothing, a float, or the value itself when it is none.\<close>

definition form_decimal :: "(rat \<Rightarrow> rat) \<Rightarrow> json \<Rightarrow> json option" where
  "form_decimal via_float j = (case j of J_Null \<Rightarrow> None | J_Bool b \<Rightarrow> Some (J_Float (if b then 1 else 0))
     | J_Int n \<Rightarrow> Some (J_Float (via_float (of_int n)))
     | J_Str s \<Rightarrow> if s = [] then None else (case decimal_of s of Number x \<Rightarrow> Some (J_Float (via_float x)) | _ \<Rightarrow> Some j)
     | _ \<Rightarrow> Some j)"

definition required :: "json option \<Rightarrow> json_error + json" where
  "required v = (case v of None \<Rightarrow> Inl Value_Missing | Some j \<Rightarrow> Inr j)"

text \<open>The mode of each template file under \<open>delivery/freight_pricing_templates\<close>.\<close>

definition template_mode :: "string \<Rightarrow> string option" where
  "template_mode template = map_of [(''flat_rate'', ''linear''), (''base_plus_per_kg'', ''linear''), (''first_kg_then_per_kg'', ''step''),
     (''weight_tiers'', ''tier''), (''free_over_amount'', ''conditional''), (''free_over_weight'', ''conditional''),
     (''first_cbm_then_per_cbm'', ''linear'')] template"

definition template_config :: "string \<Rightarrow> json \<Rightarrow> string \<Rightarrow> (string \<times> json) list \<Rightarrow> json list \<Rightarrow> (string \<times> json) list \<Rightarrow> (string \<times> json) list" where
  "template_config mode currency unit rules choices extra =
     [(''mode'', J_Str mode)] @ (if truth currency then [(''currency'', currency)] else []) @
     [(''unit'', J_Str unit), (''rules'', J_Obj rules), (''pricing_rules'', J_List choices), (''surcharges'', J_List []),
      (''discounts'', J_List [])] @ extra"

fun form_tiers :: "(rat \<Rightarrow> rat) \<Rightarrow> json list \<Rightarrow> json_error + (json \<times> json) list" where
  "form_tiers via_float [] = Inr []"
| "form_tiers via_float (row # others) = (case row of
     J_Obj kvs \<Rightarrow> bind_r (required (form_decimal via_float (lookup kvs ''max_kg'' J_Null))) (\<lambda>mk.
       bind_r (required (form_decimal via_float (lookup kvs ''price'' J_Null))) (\<lambda>pr.
       bind_r (form_tiers via_float others) (\<lambda>rest. Inr ((mk, pr) # rest))))
   | _ \<Rightarrow> Inl Value_Missing)"

definition free_over :: "string \<Rightarrow> json \<Rightarrow> json \<Rightarrow> json \<Rightarrow> json list" where
  "free_over kind threshold fb fk =
     [J_Obj [(''priority'', J_Int 1), (''conditions'', J_List [J_Obj [(''type'', J_Str kind), (''value'', threshold)]]),
        (''pricing'', J_Obj [(''type'', J_Str ''free'')])],
      J_Obj [(''priority'', J_Int 2), (''conditions'', J_List []),
        (''pricing'', J_Obj [(''type'', J_Str ''linear''), (''base'', fb), (''per_kg'', fk)])]]"

definition not_positive :: "json \<Rightarrow> json_error + bool" where
  "not_positive j = (case number_key j of Some x \<Rightarrow> Inr (x \<le> 0) | None \<Rightarrow> Inl Type_Error)"

text \<open>
  The configuration, the base price and the price per kilogram. \<open>loads\<close> is \<open>json.loads\<close>.
\<close>

definition form_params_to_config :: "(string \<Rightarrow> json option) \<Rightarrow> (rat \<Rightarrow> rat) \<Rightarrow> string \<Rightarrow> (string \<times> json) list
    \<Rightarrow> json_error + ((string \<times> json) list \<times> json \<times> json)" where
  "form_params_to_config loads via_float template form = (case template_mode template of None \<Rightarrow> Inl Template_Unknown
   | Some mode \<Rightarrow> let currency = lookup form ''currency'' J_Null; dec = (\<lambda>k. form_decimal via_float (lookup form k J_Null));
       finish = (\<lambda>unit rules choices extra base_price per_kg.
         Inr (template_config mode currency unit rules choices (extra @ [(''template_id'', J_Str template)]), base_price, per_kg)) in
     if template = ''flat_rate'' then bind_r (required (dec ''amount'')) (\<lambda>amount.
       finish ''kg'' [(''fixed_price'', amount)] [] [] amount (J_Int 0))
     else if template = ''base_plus_per_kg'' then bind_r (required (dec ''base'')) (\<lambda>b. bind_r (required (dec ''per_kg'')) (\<lambda>k.
       finish ''kg'' [(''base'', b), (''per_kg'', k)] [] [] b k))
     else if template = ''first_kg_then_per_kg'' then bind_r (required (dec ''first_weight'')) (\<lambda>fw. bind_r (required (dec ''first_price'')) (\<lambda>fp.
       bind_r (required (dec ''additional_weight'')) (\<lambda>aw. bind_r (required (dec ''additional_price'')) (\<lambda>ap.
       finish ''kg'' [(''first_weight'', fw), (''first_price'', fp), (''additional_weight'', aw), (''additional_price'', ap)] [] [] fp (J_Int 0)))))
     else if template = ''weight_tiers'' then
       (case (case lookup form ''tiers'' J_Null of J_Str s \<Rightarrow> loads s | j \<Rightarrow> Some j) of
          Some (J_List (t # ts)) \<Rightarrow> bind_r (form_tiers via_float (t # ts)) (\<lambda>out. bind_r (sorted_by fst out) (\<lambda>out.
            finish ''kg'' [(''tiers'', J_List (map (\<lambda>(m, p). J_Obj [(''max_kg'', m), (''price'', p)]) out))] [] [] (snd (hd out)) (J_Int 0)))
        | _ \<Rightarrow> Inl Value_Missing)
     else if template = ''free_over_amount'' then bind_r (required (dec ''threshold_amount'')) (\<lambda>t. bind_r (required (dec ''fallback_base'')) (\<lambda>fb.
       bind_r (required (dec ''fallback_per_kg'')) (\<lambda>fk. finish ''kg'' [] (free_over ''order_amount_gte'' t fb fk) [] fb fk)))
     else if template = ''free_over_weight'' then bind_r (required (dec ''threshold_kg'')) (\<lambda>t. bind_r (required (dec ''fallback_base'')) (\<lambda>fb.
       bind_r (required (dec ''fallback_per_kg'')) (\<lambda>fk. finish ''kg'' [] (free_over ''weight_gte'' t fb fk) [] fb fk)))
     else bind_r (required (dec ''first_cbm'')) (\<lambda>fc. bind_r (required (dec ''first_cbm_price'')) (\<lambda>fp.
       bind_r (required (dec ''additional_cbm_price'')) (\<lambda>ap.
       let most = (case dec ''max_weight_kg'' of None \<Rightarrow> J_Int 0 | Some m \<Rightarrow> m) in
       bind_r (case dec ''volumetric_factor'' of None \<Rightarrow> Inr (J_Int 5000)
         | Some v \<Rightarrow> bind_r (not_positive v) (\<lambda>b. Inr (if b then J_Int 5000 else v))) (\<lambda>factor.
       bind_r (key_value factor) (\<lambda>n. finish ''cbm'' [(''first_cbm'', fc), (''first_cbm_price'', fp), (''additional_cbm_price'', ap),
         (''max_weight_kg'', most), (''volumetric_factor'', factor)] [] [(''volumetric_weight_factor'', J_Int n)] fp (J_Int 0)))))))"

end
