(* ===== verification/Freight_Typing.thy ===== *)
theory Freight_Typing
  imports Freight
begin

text \<open>
  Which freight configurations price every parcel: a typing of the JSON they are made of, and what
  the templates of the back office come to.
\<close>

subsection \<open>Typed configurations\<close>

definition numeric :: "json \<Rightarrow> bool" where
  "numeric j = (case j of J_Int n \<Rightarrow> 0 \<le> n | J_Float r \<Rightarrow> 0 \<le> r | _ \<Rightarrow> False)"

definition entry :: "(json \<Rightarrow> bool) \<Rightarrow> string \<Rightarrow> (string \<times> json) list \<Rightarrow> bool" where
  "entry P k kvs = (case map_of kvs k of None \<Rightarrow> True | Some j \<Rightarrow> P j)"

definition nullable :: "(json \<Rightarrow> bool) \<Rightarrow> json \<Rightarrow> bool" where
  "nullable P j \<longleftrightarrow> j = J_Null \<or> P j"

definition price_typed :: "json \<Rightarrow> bool" where
  "price_typed j \<longleftrightarrow> numeric j \<or> (case j of J_Obj kvs \<Rightarrow> \<not> truth (lookup kvs ''product_id'' J_Null) \<and> entry numeric ''price'' kvs | _ \<Rightarrow> False)"

definition step_typed :: "(string \<times> json) list \<Rightarrow> bool" where
  "step_typed rs \<longleftrightarrow> entry numeric ''first_weight'' rs \<and> entry price_typed ''first_price'' rs \<and>
     entry (\<lambda>j. numeric j \<and> truth j) ''additional_weight'' rs \<and> entry price_typed ''additional_price'' rs"

definition linear_typed :: "(string \<times> json) list \<Rightarrow> bool" where
  "linear_typed rs \<longleftrightarrow> entry (nullable numeric) ''fixed_price'' rs \<and> entry (nullable numeric) ''base'' rs \<and> entry (nullable numeric) ''per_kg'' rs \<and>
     entry price_typed ''first_unit'' rs \<and> entry price_typed ''additional_unit'' rs \<and>
     entry numeric ''unit_price'' rs \<and> entry numeric ''min_charge'' rs"

definition tier_typed :: "json \<Rightarrow> bool" where
  "tier_typed t = (case t of J_Obj kvs \<Rightarrow> entry numeric ''max_kg'' kvs \<and> entry numeric ''min'' kvs \<and> entry numeric ''max'' kvs \<and>
       entry price_typed ''price'' kvs | _ \<Rightarrow> False)"

definition tiers_typed :: "json \<Rightarrow> bool" where
  "tiers_typed rules = (case rules of J_List ts \<Rightarrow> list_all tier_typed ts
     | J_Obj rs \<Rightarrow> (case lookup rs ''tiers'' J_Null of J_List ts \<Rightarrow> list_all tier_typed ts | _ \<Rightarrow> True) | _ \<Rightarrow> True)"

text \<open>The fields that hold a decimal or nothing.\<close>

definition numeric_field :: "string \<Rightarrow> bool" where
  "numeric_field f \<longleftrightarrow> f \<in> {''weight'', ''freight.weight'', ''freight.order_amount''}"

definition comparison :: "string \<Rightarrow> bool" where
  "comparison op \<longleftrightarrow> op \<in> {''=='', ''!='', ''>'', ''>='', ''<'', ''<=''}"

inductive typed_rule :: "json \<Rightarrow> bool" where
  leaf: "map_of kvs ''field'' = Some (J_Str f) \<Longrightarrow> numeric_field f \<Longrightarrow> map_of kvs ''operator'' = Some (J_Str op) \<Longrightarrow> comparison op \<Longrightarrow>
    map_of kvs ''value'' = Some v \<Longrightarrow> numeric v \<Longrightarrow> ''rules'' \<notin> set (map fst kvs) \<Longrightarrow> typed_rule (J_Obj kvs)"
| group: "map_of kvs ''rules'' = Some (J_List rs) \<Longrightarrow> lookup kvs ''operator'' (J_Str ''AND'') \<in> {J_Str ''AND'', J_Str ''OR''} \<Longrightarrow>
    (\<And>r. r \<in> set rs \<Longrightarrow> typed_rule r) \<Longrightarrow> typed_rule (J_Obj kvs)"

definition conditions_typed :: "json \<Rightarrow> bool" where
  "conditions_typed raw \<longleftrightarrow> (\<forall>c. normalize_conditions raw = Some c \<longrightarrow> typed_rule c)"

definition choice_typed :: "json \<Rightarrow> bool" where
  "choice_typed j = (case j of J_Obj r \<Rightarrow> number_key (priority r) \<noteq> None \<and> conditions_typed (lookup r ''conditions'' J_Null) \<and>
       (case map_of r ''pricing'' of Some (J_Obj p) \<Rightarrow> entry (nullable numeric) ''base'' p \<and> entry (nullable numeric) ''per_kg'' p \<and>
          entry price_typed ''first_unit'' p \<and> entry price_typed ''additional_unit'' p | _ \<Rightarrow> False)
     | _ \<Rightarrow> False)"

definition unconditional :: "json \<Rightarrow> bool" where
  "unconditional j = (case j of J_Obj r \<Rightarrow> \<not> truth (lookup r ''conditions'' J_Null) | _ \<Rightarrow> False)"

definition config_typed :: "(string \<times> json) list \<Rightarrow> bool" where
  "config_typed config = (let mode = lookup config ''mode'' (J_Str ''linear''); rules = lookup config ''rules'' (J_Obj []) in
     if mode = J_Str ''conditional'' then (case lookup config ''pricing_rules'' (J_List []) of
       J_List js \<Rightarrow> list_all choice_typed js \<and> list_ex unconditional js | _ \<Rightarrow> False)
     else if mode = J_Str ''step'' then (case rules of J_Obj rs \<Rightarrow> step_typed rs | _ \<Rightarrow> False)
     else if mode = J_Str ''linear'' then (case rules of J_Obj rs \<Rightarrow> linear_typed rs | _ \<Rightarrow> False)
     else mode = J_Str ''tier'' \<longrightarrow> tiers_typed rules)"

definition ctx_typed :: "fields \<Rightarrow> bool" where
  "ctx_typed ctx \<longleftrightarrow> ctx \<noteq> [] \<and> (\<forall>f. numeric_field f \<longrightarrow> (case get_field_value ctx f of Some (C_Dict _) \<Rightarrow> False | _ \<Rightarrow> True))"

subsection \<open>Typed values are read\<close>

definition costs :: "json_error + rat \<Rightarrow> bool" where
  "costs r = (case r of Inr x \<Rightarrow> 0 \<le> x | Inl _ \<Rightarrow> False)"

lemma costs_iff: "costs r \<longleftrightarrow> (\<exists>x. r = Inr x \<and> 0 \<le> x)"
  by (auto simp: costs_def split: sum.splits)

lemma entry_lookup: "entry P k kvs \<Longrightarrow> P d \<Longrightarrow> P (lookup kvs k d)"
  by (auto simp: entry_def lookup_def split: option.splits)

lemma numeric_value: "numeric j \<Longrightarrow> costs (decimal_value j)"
  by (auto simp: numeric_def decimal_value_def costs_def split: json.splits)

lemma numeric_int [simp]: "numeric (J_Int n) \<longleftrightarrow> 0 \<le> n" "numeric (J_Float r) \<longleftrightarrow> 0 \<le> r" "\<not> numeric J_Null"
  by (simp_all add: numeric_def)

lemma price_typed_int [simp]: "price_typed (J_Int n) \<longleftrightarrow> 0 \<le> n" "price_typed (J_Float r) \<longleftrightarrow> 0 \<le> r" "price_typed (J_Obj [])"
  by (simp_all add: price_typed_def lookup_def truth_def entry_def numeric_def)

lemma price_value: "price_typed j \<Longrightarrow> costs (get_freight_price_value e w db j)"
  by (auto simp: price_typed_def get_freight_price_value_def Let_def split: json.splits
      dest: entry_lookup [where d = "J_Int 0"] intro!: numeric_value)
    (auto simp: numeric_def decimal_value_def costs_def split: json.splits)

lemma entry_decimal: "entry numeric k kvs \<Longrightarrow> numeric d \<Longrightarrow> \<exists>x. decimal_value (lookup kvs k d) = Inr x \<and> 0 \<le> x"
  using numeric_value [OF entry_lookup] by (simp add: costs_iff)

text \<open>A float is at least zero when the number is: what \<open>float_value\<close> is relied on for.\<close>

definition float_sound :: "(rat \<Rightarrow> rat) \<Rightarrow> bool" where
  "float_sound fv \<longleftrightarrow> (\<forall>x. 0 \<le> x \<longrightarrow> 0 \<le> fv x)"

text \<open>What a price is looked up by: an interface of the calculator, and what it relies on.\<close>

locale prices =
  fixes price :: "json \<Rightarrow> json_error + rat"
  assumes typed_price: "price_typed j \<Longrightarrow> costs (price j)"
begin

lemma entry_price: "entry price_typed k kvs \<Longrightarrow> price_typed d \<Longrightarrow> \<exists>x. price (lookup kvs k d) = Inr x \<and> 0 \<le> x"
  using typed_price entry_lookup by (simp add: costs_iff) blast

lemma step_costs:
  assumes "step_typed rs" "0 \<le> weight" "float_sound fv"
  shows "costs (step_cost fv price weight rs)"
proof -
  from assms(1) have t: "entry numeric ''first_weight'' rs" "entry price_typed ''first_price'' rs" "entry price_typed ''additional_price'' rs"
    by (simp_all add: step_typed_def)
  from entry_decimal [OF t(1), of "J_Int 0"] obtain fw where fw: "decimal_value (lookup rs ''first_weight'' (J_Int 0)) = Inr fw" "0 \<le> fw" by auto
  from entry_price [OF t(2), of "J_Int 0"] obtain fp where fp: "price (lookup rs ''first_price'' (J_Int 0)) = Inr fp" "0 \<le> fp" by auto
  from entry_price [OF t(3), of "J_Int 0"] obtain ap where ap: "price (lookup rs ''additional_price'' (J_Int 0)) = Inr ap" "0 \<le> ap" by auto
  have "numeric (lookup rs ''additional_weight'' (J_Int 1)) \<and> truth (lookup rs ''additional_weight'' (J_Int 1))"
    using assms(1) entry_lookup [where P = "\<lambda>j. numeric j \<and> truth j" and d = "J_Int 1"] by (simp add: step_typed_def truth_def)
  then obtain aw where aw: "decimal_value (lookup rs ''additional_weight'' (J_Int 1)) = Inr aw" "0 < aw"
    by (cases "lookup rs ''additional_weight'' (J_Int 1)") (auto simp: decimal_value_def truth_def numeric_def)
  show ?thesis
  proof (cases "weight \<le> fw")
    case False
    then have "0 \<le> fv ((weight - fw) / aw)" using aw(2) assms(3) by (simp add: float_sound_def)
    then have "0 \<le> \<lceil>fv ((weight - fw) / aw)\<rceil>" by linarith
    then have "0 \<le> fp + of_int \<lceil>fv ((weight - fw) / aw)\<rceil> * ap" using fp(2) ap(2) by simp
    with False fw fp ap aw show ?thesis by (simp add: step_cost_def costs_def)
  qed (use fw fp ap aw in \<open>simp add: step_cost_def costs_def\<close>)
qed

lemma nullable_value: "entry (nullable numeric) k rs \<Longrightarrow> lookup rs k J_Null \<noteq> J_Null \<Longrightarrow> \<exists>x. decimal_value (lookup rs k J_Null) = Inr x \<and> 0 \<le> x"
  using entry_lookup [of "nullable numeric" k rs J_Null] numeric_value by (auto simp: nullable_def costs_iff)

lemma linear_costs:
  assumes "linear_typed rs" "0 \<le> weight"
  shows "costs (linear_cost price weight rs)"
proof -
  consider (fixed) "lookup rs ''fixed_price'' J_Null \<noteq> J_Null"
    | (per_kg) "lookup rs ''fixed_price'' J_Null = J_Null" "lookup rs ''base'' J_Null \<noteq> J_Null" "lookup rs ''per_kg'' J_Null \<noteq> J_Null"
    | (units) "lookup rs ''fixed_price'' J_Null = J_Null" "\<not> (lookup rs ''base'' J_Null \<noteq> J_Null \<and> lookup rs ''per_kg'' J_Null \<noteq> J_Null)" by blast
  then show ?thesis
  proof cases
    case fixed
    with assms(1) nullable_value [of "''fixed_price''" rs] show ?thesis by (auto simp: linear_cost_def linear_typed_def costs_def)
  next
    case per_kg
    with assms nullable_value [of "''base''" rs] nullable_value [of "''per_kg''" rs] show ?thesis
      by (auto simp: linear_cost_def linear_typed_def costs_def)
  next
    case units
    from assms(1) have t: "entry price_typed ''first_unit'' rs" "entry price_typed ''additional_unit'' rs" "entry numeric ''unit_price'' rs"
      "entry numeric ''min_charge'' rs" by (simp_all add: linear_typed_def)
    from entry_price [OF t(1), of "J_Obj []"] obtain fp where "price (lookup rs ''first_unit'' (J_Obj [])) = Inr fp" "0 \<le> fp" by auto
    moreover from entry_price [OF t(2), of "J_Obj []"] obtain ap where "price (lookup rs ''additional_unit'' (J_Obj [])) = Inr ap" "0 \<le> ap" by auto
    moreover from entry_decimal [OF t(3), of "J_Int 0"] obtain u where "decimal_value (lookup rs ''unit_price'' (J_Int 0)) = Inr u" "0 \<le> u" by auto
    moreover from entry_decimal [OF t(4), of "J_Int 0"] obtain m where "decimal_value (lookup rs ''min_charge'' (J_Int 0)) = Inr m" "0 \<le> m" by auto
    ultimately show ?thesis using units by (auto simp: linear_cost_def Let_def costs_def)
  qed
qed

lemma tier_price_costs: "tier_typed (J_Obj t) \<Longrightarrow> costs (tier_price price t)"
  using entry_price [of "''price''" t "J_Int 0"] by (auto simp: tier_typed_def tier_price_def costs_iff)

lemma tier_limits_typed: "list_all tier_typed ts \<Longrightarrow> \<exists>ls. tier_limits ts = Inr ls \<and> length ls = length ts \<and> (\<forall>l \<in> set ls. tier_typed (J_Obj (snd l)))"
proof (induction ts)
  case (Cons t ts)
  then obtain kvs where t: "t = J_Obj kvs" "tier_typed (J_Obj kvs)" by (cases t) (simp_all add: tier_typed_def)
  then obtain m where "decimal_value (lookup kvs ''max_kg'' (J_Int 0)) = Inr m" using entry_decimal [of "''max_kg''" kvs "J_Int 0"] by (auto simp: tier_typed_def)
  moreover obtain ls where "tier_limits ts = Inr ls" "length ls = length ts" "\<forall>l \<in> set ls. tier_typed (J_Obj (snd l))" using Cons by auto
  ultimately show ?case using t by (auto simp: object_of_def)
qed simp

lemma tiers_costs: "list_all tier_typed ts \<Longrightarrow> ts \<noteq> [] \<Longrightarrow> costs (tiers_cost price weight ts)"
proof -
  assume "list_all tier_typed ts" "ts \<noteq> []"
  with tier_limits_typed obtain ls where ls: "tier_limits ts = Inr ls" "ls \<noteq> []" "\<forall>l \<in> set ls. tier_typed (J_Obj (snd l))"
    by (metis length_0_conv)
  then have "tier_typed (J_Obj (snd (last (sort_key fst ls))))" using last_in_set [of "sort_key fst ls"]
    by (metis length_0_conv length_sort set_sort)
  moreover have "tier_typed (J_Obj (snd l))" if "first (filter P (sort_key fst ls)) = Some l" for P l
    using first_filter_SomeD [OF that] ls(3) by simp
  ultimately show ?thesis using tier_price_costs by (auto simp: tiers_cost_def ls(1) Let_def split: option.splits)
qed

lemma band_costs: "list_all tier_typed ts \<Longrightarrow> 0 \<le> weight \<Longrightarrow> costs (band_cost price fixed weight ts)"
proof (induction ts)
  case (Cons t ts)
  then obtain kvs where t: "t = J_Obj kvs" "tier_typed (J_Obj kvs)" by (cases t) (simp_all add: tier_typed_def)
  from t(2) obtain lo hi where "decimal_value (lookup kvs ''min'' (J_Int 0)) = Inr lo" "decimal_value (lookup kvs ''max'' (J_Int 999999)) = Inr hi"
    using entry_decimal [of "''min''" kvs "J_Int 0"] entry_decimal [of "''max''" kvs "J_Int 999999"] by (auto simp: tier_typed_def)
  moreover obtain p where "tier_price price kvs = Inr p" "0 \<le> p" using tier_price_costs [OF t(2)] by (auto simp: costs_iff)
  ultimately show ?case using Cons t by (auto simp: object_of_def costs_iff)
qed (simp add: costs_def)

lemma tier_costs: "tiers_typed rules \<Longrightarrow> 0 \<le> weight \<Longrightarrow> costs (tier_cost price weight config rules)"
  using tiers_costs band_costs [of _ weight] band_costs [of "[]" weight]
  by (auto simp: tier_cost_def tiers_typed_def split: json.splits list.splits)

lemma base_costs:
  assumes "config_typed config" "0 \<le> weight" "lookup config ''mode'' (J_Str ''linear'') \<noteq> J_Str ''conditional''" "float_sound fv"
  shows "costs (calculate_base_shipping_cost fv price weight config)"
proof -
  have "costs (bind_r (object_of j) f)" if "case j of J_Obj rs \<Rightarrow> P rs | _ \<Rightarrow> False" "\<And>rs. P rs \<Longrightarrow> costs (f rs)" for j P f
    using that by (cases j) (simp_all add: object_of_def)
  from this [OF _ step_costs [OF _ assms(2,4)]] this [OF _ linear_costs [OF _ assms(2)]] tier_costs [OF _ assms(2)] assms(1,3)
  show ?thesis by (auto simp: calculate_base_shipping_cost_def config_typed_def Let_def costs_def)
qed

end

subsection \<open>Typed conditions are decided\<close>

lemma compare_typed:
  assumes "numeric v" "comparison op" "\<And>d. actual \<noteq> Some (C_Dict d)"
  shows "\<exists>b. compare fv actual (J_Str op) v = Inr b"
proof (cases actual)
  case None
  then show ?thesis by (auto simp: compare_def)
next
  case (Some a)
  with assms(3) obtain x where "actual = Some (C_Dec x)" by (cases a) auto
  with assms(1,2) show ?thesis
    by (cases v) (auto simp: compare_def compare_decimal_def compare_numbers_def comparison_def numeric_def)
qed

lemma evaluate_all_typed: "(\<And>r. r \<in> set rs \<Longrightarrow> \<exists>b. evaluate_rule fv ctx r = Inr b) \<Longrightarrow> \<exists>b. evaluate_all fv ctx rs = Inr b"
  by (induction rs) (force split: sum.splits)+

lemma evaluate_any_typed: "(\<And>r. r \<in> set rs \<Longrightarrow> \<exists>b. evaluate_rule fv ctx r = Inr b) \<Longrightarrow> \<exists>b. evaluate_any fv ctx rs = Inr b"
  by (induction rs) (force split: sum.splits)+

lemma map_of_key: "map_of kvs k = Some v \<Longrightarrow> k \<in> set (map fst kvs)"
  using domI [of "map_of kvs" k v] by (simp add: dom_map_of_conv_image_fst)

lemma typed_rule_decides:
  assumes "ctx_typed ctx"
  shows "typed_rule c \<Longrightarrow> \<exists>b. evaluate_rule fv ctx c = Inr b"
proof (induction rule: typed_rule.induct)
  case (leaf kvs f op v)
  have "f \<noteq> []" "op \<noteq> []" using leaf.hyps by (auto simp: numeric_field_def comparison_def)
  moreover have "get_field_value ctx f \<noteq> Some (C_Dict d)" for d
    using assms leaf.hyps(2) by (auto simp: ctx_typed_def split: option.splits)
  then obtain b where "compare fv (get_field_value ctx f) (J_Str op) v = Inr b"
    using compare_typed [OF leaf.hyps(6,4), where actual = "get_field_value ctx f"] by blast
  ultimately show ?case using leaf.hyps(1,3,5,7)
    by (simp add: evaluate_rule.simps evaluate_leaf_def lookup_def truth_def)
next
  case (group kvs rs)
  then have "\<exists>b. evaluate_all fv ctx rs = Inr b" "\<exists>b. evaluate_any fv ctx rs = Inr b"
    by (auto intro!: evaluate_all_typed evaluate_any_typed)
  with group.hyps(1,2) map_of_key [OF group.hyps(1)] show ?case
    by (auto simp: evaluate_rule.simps evaluate.simps)
qed

lemma typed_condition_decides:
  assumes "ctx_typed ctx" "typed_rule c" "normalize_conditions raw = Some c"
  shows "\<exists>b. evaluate fv ctx c = Inr b"
proof -
  from assms(3) obtain kvs where c: "c = J_Obj kvs" "''rules'' \<in> set (map fst kvs)"
    by (auto simp: normalize_conditions_def Let_def split: json.splits if_splits)
  then have "evaluate_rule fv ctx c = evaluate fv ctx c" by (simp add: evaluate_rule.simps)
  with typed_rule_decides [OF assms(1,2)] show ?thesis by metis
qed

lemma unconditional_obj [simp]: "unconditional (J_Obj r) \<longleftrightarrow> \<not> truth (lookup r ''conditions'' J_Null)"
  by (simp add: unconditional_def)

lemma choice_typed_pricing: "choice_typed (J_Obj r) \<Longrightarrow> \<exists>p. map_of r ''pricing'' = Some (J_Obj p) \<and> entry (nullable numeric) ''base'' p \<and>
    entry (nullable numeric) ''per_kg'' p \<and> entry price_typed ''first_unit'' p \<and> entry price_typed ''additional_unit'' p"
  by (cases "map_of r ''pricing''"; cases "the (map_of r ''pricing'')") (simp_all add: choice_typed_def)

lemma first_match_typed:
  assumes "ctx_typed ctx"
  shows "list_all choice_typed (map J_Obj rs) \<Longrightarrow> list_ex unconditional (map J_Obj rs) \<Longrightarrow>
    \<exists>r \<in> set rs. first_match fv ctx rs = Inr (Some r)"
proof (induction rs)
  case (Cons r rs)
  let ?raw = "lookup r ''conditions'' J_Null"
  have c: "conditions_typed ?raw" using Cons.prems by (simp add: choice_typed_def)
  show ?case
  proof (cases "normalize_conditions ?raw")
    case None
    show ?thesis
    proof (cases "truth ?raw")
      case True
      with Cons.prems have "list_ex unconditional (map J_Obj rs)" by simp
      with Cons True None show ?thesis by auto
    qed (use None in simp)
  next
    case (Some n)
    with c obtain b where b: "evaluate fv ctx n = Inr b" using typed_condition_decides [OF assms _ Some] by (auto simp: conditions_typed_def)
    have "truth ?raw" using Some by (cases ?raw) (auto simp: normalize_conditions_def truth_def map_filter_def)
    with Cons.prems have "list_ex unconditional (map J_Obj rs)" by simp
    with Cons b Some show ?thesis by auto
  qed
qed simp

lemma objects_typed: "list_all choice_typed js \<Longrightarrow> \<exists>rs. objects js = Inr rs \<and> js = map J_Obj rs"
proof (induction js)
  case (Cons j js)
  then obtain r rs where "j = J_Obj r" "objects js = Inr rs" "js = map J_Obj rs" by (cases j) (auto simp: choice_typed_def)
  then show ?case by (intro exI [of _ "r # rs"]) (simp add: object_of_def)
qed simp

lemma sorted_by_typed: "list_all choice_typed (map J_Obj rs) \<Longrightarrow> \<exists>rs'. sorted_by priority rs = Inr rs' \<and> mset rs' = mset rs"
  by (auto simp: sorted_by_def choice_typed_def list_all_iff)

lemma matching_rule_typed:
  assumes "ctx_typed ctx" "lookup config ''pricing_rules'' (J_List []) = J_List js" "list_all choice_typed js" "list_ex unconditional js"
  shows "\<exists>r. find_matching_rule fv config ctx = Inr (Some r) \<and> choice_typed (J_Obj r)"
proof -
  from objects_typed [OF assms(3)] obtain rs where rs: "objects js = Inr rs" "js = map J_Obj rs" by auto
  from sorted_by_typed [of rs] assms(3) rs(2) obtain rs' where s: "sorted_by priority rs = Inr rs'" "mset rs' = mset rs" by auto
  from s(2) have set: "set rs' = set rs" by (metis set_mset_mset)
  then have "list_all choice_typed (map J_Obj rs')" "list_ex unconditional (map J_Obj rs')"
    using assms(3,4) rs(2) by (auto simp: list_all_iff list_ex_iff)
  from first_match_typed [OF assms(1) this] obtain r where "r \<in> set rs'" "first_match fv ctx rs' = Inr (Some r)" by blast
  moreover have "truth (J_List js)" using assms(4) by (cases js) (simp_all add: truth_def)
  ultimately show ?thesis using assms(2,3) rs s(1) set by (auto simp: find_matching_rule_def list_all_iff)
qed

lemma rules_for_mode_typed:
  assumes "entry (nullable numeric) ''base'' p" "entry (nullable numeric) ''per_kg'' p" "entry price_typed ''first_unit'' p" "entry price_typed ''additional_unit'' p"
  shows "linear_typed (rules_for_mode p)"
proof -
  have "nullable numeric (lookup p ''base'' J_Null)" "nullable numeric (lookup p ''per_kg'' J_Null)"
    "price_typed (lookup p ''first_unit'' (J_Obj []))" "price_typed (lookup p ''additional_unit'' (J_Obj []))"
    using entry_lookup [OF assms(1)] entry_lookup [OF assms(2)] entry_lookup [OF assms(3)] entry_lookup [OF assms(4)]
    by (simp_all add: nullable_def)
  then show ?thesis by (simp add: rules_for_mode_def Let_def linear_typed_def entry_def nullable_def) auto
qed

lemma resolved_typed:
  assumes "config_typed config" "ctx_typed ctx" "lookup config ''mode'' J_Null = J_Str ''conditional''"
  shows "\<exists>config'. resolve_conditional_config fv config ctx = Inr config' \<and> config_typed config' \<and>
    lookup config' ''mode'' (J_Str ''linear'') \<noteq> J_Str ''conditional''"
proof -
  from assms(3) have mode: "lookup config ''mode'' (J_Str ''linear'') = J_Str ''conditional''"
    by (auto simp: lookup_def split: option.splits)
  with assms(1) obtain js where js: "lookup config ''pricing_rules'' (J_List []) = J_List js" "list_all choice_typed js" "list_ex unconditional js"
    by (auto simp: config_typed_def Let_def split: json.splits)
  from matching_rule_typed [OF assms(2) js] obtain r where r: "find_matching_rule fv config ctx = Inr (Some r)" "choice_typed (J_Obj r)" by blast
  from choice_typed_pricing [OF r(2)] obtain p where p: "map_of r ''pricing'' = Some (J_Obj p)" "entry (nullable numeric) ''base'' p" "entry (nullable numeric) ''per_kg'' p"
    "entry price_typed ''first_unit'' p" "entry price_typed ''additional_unit'' p" by blast
  then have "r \<noteq> []" "lookup r ''pricing'' (J_Obj []) = J_Obj p" by (auto simp: lookup_def)
  with mode r(1) have "resolve_conditional_config fv config ctx = Inr ([(''mode'', J_Str ''linear''), (''rules'', J_Obj (rules_for_mode p)),
      (''min_charge'', lookup r ''min_charge'' J_Null), (''surcharges'', lookup r ''surcharges'' (lookup config ''surcharges'' (J_List []))),
      (''discounts'', lookup r ''discounts'' (J_List []))] @ config)" (is "_ = Inr ?c")
    by (simp add: resolve_conditional_config_def object_of_def)
  moreover have m: "lookup ?c ''mode'' d = J_Str ''linear''" "lookup ?c ''rules'' d = J_Obj (rules_for_mode p)" for d
    by (simp_all add: lookup_def)
  then have "config_typed ?c" using rules_for_mode_typed [OF p(2-5)] by (simp only: config_typed_def Let_def m) simp
  moreover have "lookup ?c ''mode'' (J_Str ''linear'') \<noteq> J_Str ''conditional''" by (simp add: lookup_def)
  ultimately show ?thesis by blast
qed

interpretation freight: prices "get_freight_price_value e w db" for e w db
  by unfold_locales (rule price_value)

subsection \<open>What the templates are meant to cost\<close>

text \<open>
  A form of numbers, and what its template promises for a parcel: \<open>f\<close> holds the numbers by the names
  of the fields.
\<close>

definition numbers :: "string list \<Rightarrow> (string \<Rightarrow> rat) \<Rightarrow> (string \<times> json) list" where
  "numbers ks f = map (\<lambda>k. (k, J_Float (f k))) ks"

definition template_fields :: "string \<Rightarrow> string list" where
  "template_fields template = (if template = ''flat_rate'' then [''amount'']
     else if template = ''base_plus_per_kg'' then [''base'', ''per_kg'']
     else if template = ''first_kg_then_per_kg'' then [''first_weight'', ''first_price'', ''additional_weight'', ''additional_price'']
     else if template = ''free_over_amount'' then [''threshold_amount'', ''fallback_base'', ''fallback_per_kg'']
     else if template = ''free_over_weight'' then [''threshold_kg'', ''fallback_base'', ''fallback_per_kg'']
     else [''first_cbm'', ''first_cbm_price'', ''additional_cbm_price''])"

definition template_price :: "(rat \<Rightarrow> rat) \<Rightarrow> string \<Rightarrow> (string \<Rightarrow> rat) \<Rightarrow> rat \<Rightarrow> rat \<Rightarrow> rat" where
  "template_price fv template f weight order_amount = (if template = ''flat_rate'' then f ''amount''
     else if template = ''base_plus_per_kg'' then f ''base'' + weight * f ''per_kg''
     else if template = ''first_kg_then_per_kg'' then
       if weight \<le> f ''first_weight'' then f ''first_price''
       else f ''first_price'' + of_int \<lceil>fv ((weight - f ''first_weight'') / f ''additional_weight'')\<rceil> * f ''additional_price''
     else if template = ''free_over_amount'' \<and> f ''threshold_amount'' \<le> order_amount
       \<or> template = ''free_over_weight'' \<and> f ''threshold_kg'' \<le> weight then 0
     else f ''fallback_base'' + weight * f ''fallback_per_kg'')"

definition freight_context :: "rat \<Rightarrow> rat \<Rightarrow> fields" where
  "freight_context weight order_amount =
     [(''freight'', C_Dict [(''weight'', weight), (''order_amount'', order_amount)]), (''weight'', C_Dec weight)]"

lemma freight_context_typed: "ctx_typed (freight_context weight order_amount)"
  by (auto simp: ctx_typed_def freight_context_def numeric_field_def get_field_value_def nested_value_def)

lemmas template_reading = form_params_to_config_def template_mode_def numbers_def template_fields_def lookup_def form_decimal_def required_def

lemmas cost_reading = calculate_shipping_cost_def calculate_base_shipping_cost_def object_of_def decimal_value_def

lemma number_price [simp]: "get_freight_price_value e w db (J_Float x) = Inr x" "get_freight_price_value e w db (J_Int n) = Inr (of_int n)"
  "get_freight_price_value e w db (J_Obj []) = Inr 0"
  by (simp_all add: get_freight_price_value_def decimal_value_def lookup_def Let_def truth_def)

lemma free_over_resolves:
  assumes "field = (if kind = ''weight_gte'' then ''freight.weight'' else ''freight.order_amount'')" "kind \<in> {''weight_gte'', ''order_amount_gte''}"
    and "get_field_value ctx field = Some (C_Dec x)" "map_of config ''mode'' = Some (J_Str ''conditional'')"
    and "map_of config ''pricing_rules'' = Some (J_List (free_over kind (J_Float t) (J_Float b) (J_Float k)))" "ctx \<noteq> []"
  shows "calculate_shipping_cost fv (get_freight_price_value e w db) weight config ctx = Inr (if t \<le> x then 0 else b + weight * k)"
proof -
  have field: "(if kind = ''weight_gte'' then J_Str ''freight.weight'' else J_Str ''freight.order_amount'') = J_Str field" "field \<noteq> []"
    using assms(1) by auto
  have n: "normalize_conditions (J_List [J_Obj [(''type'', J_Str kind), (''value'', J_Float t)]]) =
      Some (J_Obj [(''operator'', J_Str ''AND''), (''rules'', J_List [J_Obj [(''field'', J_Str field), (''operator'', J_Str ''>=''), (''value'', J_Float t)]])])"
    using assms(1,2) by (auto simp: normalize_conditions_def engine_rule_def lookup_def map_filter_def)
  have ev: "evaluate fv ctx (J_Obj [(''operator'', J_Str ''AND''), (''rules'', J_List [J_Obj [(''field'', J_Str field), (''operator'', J_Str ''>=''),
      (''value'', J_Float t)]])]) = Inr (t \<le> x)"
    using assms(3) field(2) by (simp add: evaluate.simps evaluate_rule.simps evaluate_leaf_def lookup_def truth_def compare_def
        compare_decimal_def compare_numbers_def)
  have "find_matching_rule fv config ctx = Inr (if t \<le> x
      then Some [(''priority'', J_Int 1), (''conditions'', J_List [J_Obj [(''type'', J_Str kind), (''value'', J_Float t)]]),
        (''pricing'', J_Obj [(''type'', J_Str ''free'')])]
      else Some [(''priority'', J_Int 2), (''conditions'', J_List []),
        (''pricing'', J_Obj [(''type'', J_Str ''linear''), (''base'', J_Float b), (''per_kg'', J_Float k)])])"
    using assms(5) n ev by (simp add: find_matching_rule_def free_over_def lookup_def truth_def object_of_def sorted_by_def priority_def
        number_key_def normalize_conditions_def)
  with assms(4,6) show ?thesis
    by (simp add: calculate_shipping_cost_def lookup_def resolve_conditional_config_def object_of_def rules_for_mode_def Let_def
        calculate_base_shipping_cost_def linear_cost_def decimal_value_def)
qed

lemma template_configs:
  "form_params_to_config loads via_float ''flat_rate'' (numbers (template_fields ''flat_rate'') f) =
    Inr (template_config ''linear'' J_Null ''kg'' [(''fixed_price'', J_Float (f ''amount''))] [] [(''template_id'', J_Str ''flat_rate'')],
      J_Float (f ''amount''), J_Int 0)"
  "form_params_to_config loads via_float ''base_plus_per_kg'' (numbers (template_fields ''base_plus_per_kg'') f) =
    Inr (template_config ''linear'' J_Null ''kg'' [(''base'', J_Float (f ''base'')), (''per_kg'', J_Float (f ''per_kg''))] []
      [(''template_id'', J_Str ''base_plus_per_kg'')], J_Float (f ''base''), J_Float (f ''per_kg''))"
  "form_params_to_config loads via_float ''first_kg_then_per_kg'' (numbers (template_fields ''first_kg_then_per_kg'') f) =
    Inr (template_config ''step'' J_Null ''kg'' [(''first_weight'', J_Float (f ''first_weight'')), (''first_price'', J_Float (f ''first_price'')),
        (''additional_weight'', J_Float (f ''additional_weight'')), (''additional_price'', J_Float (f ''additional_price''))] []
      [(''template_id'', J_Str ''first_kg_then_per_kg'')], J_Float (f ''first_price''), J_Int 0)"
  "form_params_to_config loads via_float ''free_over_amount'' (numbers (template_fields ''free_over_amount'') f) =
    Inr (template_config ''conditional'' J_Null ''kg'' [] (free_over ''order_amount_gte'' (J_Float (f ''threshold_amount'')) (J_Float (f ''fallback_base''))
        (J_Float (f ''fallback_per_kg''))) [(''template_id'', J_Str ''free_over_amount'')], J_Float (f ''fallback_base''), J_Float (f ''fallback_per_kg''))"
  "form_params_to_config loads via_float ''free_over_weight'' (numbers (template_fields ''free_over_weight'') f) =
    Inr (template_config ''conditional'' J_Null ''kg'' [] (free_over ''weight_gte'' (J_Float (f ''threshold_kg'')) (J_Float (f ''fallback_base''))
        (J_Float (f ''fallback_per_kg''))) [(''template_id'', J_Str ''free_over_weight'')], J_Float (f ''fallback_base''), J_Float (f ''fallback_per_kg''))"
  "form_params_to_config loads via_float ''first_cbm_then_per_cbm'' (numbers (template_fields ''first_cbm_then_per_cbm'') f) =
    Inr (template_config ''linear'' J_Null ''cbm'' [(''first_cbm'', J_Float (f ''first_cbm'')), (''first_cbm_price'', J_Float (f ''first_cbm_price'')),
        (''additional_cbm_price'', J_Float (f ''additional_cbm_price'')), (''max_weight_kg'', J_Int 0), (''volumetric_factor'', J_Int 5000)] []
      [(''volumetric_weight_factor'', J_Int 5000), (''template_id'', J_Str ''first_cbm_then_per_cbm'')], J_Float (f ''first_cbm_price''), J_Int 0)"
  by (simp_all add: template_reading key_value_def)

lemma lookup_single: "lookup [] k d = d" "lookup ((k', v) # kvs) k d = (if k = k' then v else lookup kvs k d)"
  by (simp_all add: lookup_def)

lemma template_entries: "lookup (template_config mode currency unit rules choices extra) ''mode'' d = J_Str mode"
  "lookup (template_config mode currency unit rules choices extra) ''rules'' d = J_Obj rules"
  "map_of (template_config mode currency unit rules choices extra) ''mode'' = Some (J_Str mode)"
  "map_of (template_config mode currency unit rules choices extra) ''pricing_rules'' = Some (J_List choices)"
  by (simp_all add: template_config_def lookup_def)

subsection \<open>Properties\<close>

text \<open>
  C37: A typed configuration prices every parcel: whatever the mode and the weight, the calculation
  raises nothing, a rule is found when the prices are conditional, and the cost is no less than zero.
\<close>

theorem typed_config_prices:
  assumes "config_typed config" "ctx_typed ctx" "0 \<le> weight" "float_sound fv"
  shows "\<exists>cost. calculate_shipping_cost fv (get_freight_price_value e w db) weight config ctx = Inr cost \<and> 0 \<le> cost"
proof (cases "lookup config ''mode'' J_Null = J_Str ''conditional''")
  case True
  have ctx: "ctx \<noteq> []" using assms(2) by (simp add: ctx_typed_def)
  from resolved_typed [OF assms(1,2) True] obtain config' where c: "resolve_conditional_config fv config ctx = Inr config'" "config_typed config'"
    "lookup config' ''mode'' (J_Str ''linear'') \<noteq> J_Str ''conditional''" by blast
  from freight.base_costs [OF c(2) assms(3) c(3) assms(4), where e = e and w = w and db = db] True ctx c(1) show ?thesis
    by (simp add: calculate_shipping_cost_def costs_iff)
next
  case False
  then have "lookup config ''mode'' (J_Str ''linear'') \<noteq> J_Str ''conditional''" by (auto simp: lookup_def split: option.splits)
  from freight.base_costs [OF assms(1,3) this assms(4), where e = e and w = w and db = db] False show ?thesis
    by (simp add: calculate_shipping_cost_def costs_iff)
qed

text \<open>
  C38: A template costs what its form says: for the five templates of numbers below, the configuration
  made from a form of numbers is priced, for any parcel and order, at what the template promises. The one
  exception is an additional weight of 0, which the form accepts: a parcel heavier than the first weight then raises
  the division by zero.
\<close>

theorem template_costs_what_it_says:
  assumes "template \<in> {''flat_rate'', ''base_plus_per_kg'', ''first_kg_then_per_kg'', ''free_over_amount'', ''free_over_weight''}"
    and "form_params_to_config loads via_float template (numbers (template_fields template) f) = Inr (config, base_price, per_kg)"
  shows "calculate_shipping_cost fv (get_freight_price_value e w db) weight config (freight_context weight order_amount) =
    (if template = ''first_kg_then_per_kg'' \<and> f ''additional_weight'' = 0 \<and> f ''first_weight'' < weight then Inl Zero_Division
     else Inr (template_price fv template f weight order_amount))"
proof -
  have ctx: "freight_context weight order_amount \<noteq> []" "get_field_value (freight_context weight order_amount) ''freight.weight'' = Some (C_Dec weight)"
    "get_field_value (freight_context weight order_amount) ''freight.order_amount'' = Some (C_Dec order_amount)"
    by (simp_all add: freight_context_def get_field_value_def nested_value_def)
  consider (flat) "template = ''flat_rate''" | (per_kg) "template = ''base_plus_per_kg''" | (first_kg) "template = ''first_kg_then_per_kg''"
    | (amount) "template = ''free_over_amount''" | (weight) "template = ''free_over_weight''"
    using assms(1) by (simp only: insert_iff empty_iff) (elim disjE; simp)
  then show ?thesis
  proof cases
    case flat
    with assms(2) have c: "config = template_config ''linear'' J_Null ''kg'' [(''fixed_price'', J_Float (f ''amount''))] []
        [(''template_id'', J_Str ''flat_rate'')]" by (auto simp: template_configs)
    show ?thesis unfolding c flat by (simp add: cost_reading template_entries linear_cost_def template_price_def lookup_single)
  next
    case per_kg
    with assms(2) have c: "config = template_config ''linear'' J_Null ''kg'' [(''base'', J_Float (f ''base'')), (''per_kg'', J_Float (f ''per_kg''))] []
        [(''template_id'', J_Str ''base_plus_per_kg'')]" by (auto simp: template_configs)
    show ?thesis unfolding c per_kg by (simp add: cost_reading template_entries linear_cost_def template_price_def lookup_single)
  next
    case first_kg
    with assms(2) have c: "config = template_config ''step'' J_Null ''kg'' [(''first_weight'', J_Float (f ''first_weight'')),
        (''first_price'', J_Float (f ''first_price'')), (''additional_weight'', J_Float (f ''additional_weight'')),
        (''additional_price'', J_Float (f ''additional_price''))] [] [(''template_id'', J_Str ''first_kg_then_per_kg'')]" by (auto simp: template_configs)
    show ?thesis unfolding c first_kg
      by (simp add: cost_reading template_entries step_cost_def template_price_def lookup_single)
  next
    case amount
    with assms(2) have c: "config = template_config ''conditional'' J_Null ''kg'' [] (free_over ''order_amount_gte'' (J_Float (f ''threshold_amount''))
        (J_Float (f ''fallback_base'')) (J_Float (f ''fallback_per_kg''))) [(''template_id'', J_Str ''free_over_amount'')]" by (auto simp: template_configs)
    show ?thesis unfolding c amount
      using free_over_resolves [OF refl _ _ template_entries(3) template_entries(4) ctx(1), where kind = "''order_amount_gte''"] ctx(3)
      by (simp add: template_price_def)
  next
    case weight
    with assms(2) have c: "config = template_config ''conditional'' J_Null ''kg'' [] (free_over ''weight_gte'' (J_Float (f ''threshold_kg''))
        (J_Float (f ''fallback_base'')) (J_Float (f ''fallback_per_kg''))) [(''template_id'', J_Str ''free_over_weight'')]" by (auto simp: template_configs)
    show ?thesis unfolding c weight
      using free_over_resolves [OF refl _ _ template_entries(3) template_entries(4) ctx(1), where kind = "''weight_gte''"] ctx(2)
      by (simp add: template_price_def)
  qed
qed

text \<open>The template of cubic metres carries everything for nothing: no mode reads what it writes.\<close>

lemma cubic_template_is_free:
  assumes "form_params_to_config loads via_float ''first_cbm_then_per_cbm'' (numbers (template_fields ''first_cbm_then_per_cbm'') f) =
    Inr (config, base_price, per_kg)"
  shows "calculate_shipping_cost fv (get_freight_price_value e w db) weight config ctx = Inr 0 \<and> base_price = J_Float (f ''first_cbm_price'')"
proof -
  from assms have c: "config = template_config ''linear'' J_Null ''cbm'' [(''first_cbm'', J_Float (f ''first_cbm'')),
      (''first_cbm_price'', J_Float (f ''first_cbm_price'')), (''additional_cbm_price'', J_Float (f ''additional_cbm_price'')),
      (''max_weight_kg'', J_Int 0), (''volumetric_factor'', J_Int 5000)] [] [(''volumetric_weight_factor'', J_Int 5000),
      (''template_id'', J_Str ''first_cbm_then_per_cbm'')]" "base_price = J_Float (f ''first_cbm_price'')" by (auto simp: template_configs)
  show ?thesis unfolding c by (simp add: cost_reading template_entries linear_cost_def Let_def lookup_single truth_def)
qed

text \<open>So does a rule whose pricing has a type the resolution does not know.\<close>

lemma unknown_pricing_is_free:
  assumes "lookup p ''type'' J_Null \<notin> {J_Str ''free'', J_Str ''linear''}" "map_of p ''first_unit'' = None" "map_of p ''additional_unit'' = None"
  shows "linear_cost price weight (rules_for_mode p) = Inr (max 0 0)"
  using assms by (simp add: rules_for_mode_def Let_def linear_cost_def lookup_def truth_def decimal_value_def)

end
