(* ===== verification/Invoicing.thy ===== *)
theory Invoicing
  imports Store_Data
begin

text \<open>
  Invoices and tax rates of a workspace (\<open>finance/services/invoice_service.py\<close>). The calls that save
  an invoice save the row as the caller holds it. The brand of an invoice and its PDF are left out.
\<close>

datatype invoice_error = Not_This_Workspace | Number_Unreadable | Number_In_Use | Paid_Already | Listener_Raised

subsection \<open>Numbers\<close>

definition invoice_settings_of :: "store_db \<Rightarrow> nat \<Rightarrow> invoice_settings option" where
  "invoice_settings_of db w = first (filter (\<lambda>s. is_workspace s = w \<and> is_active s) (invoice_settings_rows db))"

definition default_due_days :: "store_db \<Rightarrow> nat \<Rightarrow> nat" where
  "default_due_days db w = (case invoice_settings_of db w of Some s \<Rightarrow> is_due_days s | None \<Rightarrow> 30)"

definition invoice_prefix_of :: "store_db \<Rightarrow> nat \<Rightarrow> string" where
  "invoice_prefix_of db w = (case invoice_settings_of db w of Some s \<Rightarrow> is_prefix s | None \<Rightarrow> ''INV-'')"

definition zfill :: "nat \<Rightarrow> string \<Rightarrow> string" where
  "zfill k s = replicate (k - length s) CHR ''0'' @ s"

definition used_numbers :: "store_db \<Rightarrow> nat \<Rightarrow> string list" where
  "used_numbers db w = map inv_number (filter (\<lambda>v. inv_workspace v = w) (invoices (base (fin db))))"

definition last_numbered :: "store_db \<Rightarrow> nat \<Rightarrow> string \<Rightarrow> invoice option" where
  "last_numbered db w prefix = latest_by inv_id (filter (\<lambda>v. inv_workspace v = w \<and> startswith prefix (inv_number v)) (invoices (base (fin db))))"

definition next_invoice_number :: "store_db \<Rightarrow> nat \<Rightarrow> invoice_error + nat" where
  "next_invoice_number db w = (let prefix = invoice_prefix_of db w in case last_numbered db w prefix of None \<Rightarrow> Inr 1
     | Some v \<Rightarrow> let part = strip (drop (length prefix) (inv_number v)) in
         if isdigit part then (case int_of part of Some n \<Rightarrow> Inr (n + 1) | None \<Rightarrow> Inl Number_Unreadable) else Inr 1)"

definition numbered :: "store_db \<Rightarrow> nat \<Rightarrow> nat \<Rightarrow> string" where
  "numbered db w n = invoice_prefix_of db w @ zfill 4 (show_nat n)"

text \<open>The number is counted up until it is free; \<open>None\<close> would be a search that does not end.\<close>

definition generate_invoice_number :: "nat \<Rightarrow> store_db \<Rightarrow> (invoice_error + string) option" where
  "generate_invoice_number w db = (case next_invoice_number db w of Inl err \<Rightarrow> Some (Inl err)
     | Inr n \<Rightarrow> map_option Inr (pick_number (\<lambda>k. numbered db w (n + k)) (used_numbers db w) 0))"

subsection \<open>Creating an invoice from an order\<close>

definition lines_of_order :: "store_db \<Rightarrow> nat \<Rightarrow> order_item list" where
  "lines_of_order db j = filter (\<lambda>i. oi_order i = j) (order_items (shop (fin db)))"

definition name_of_product :: "store_db \<Rightarrow> nat \<Rightarrow> string" where
  "name_of_product db p = (case product_of (shop (fin db)) p of Some x \<Rightarrow> pd_name x | None \<Rightarrow> '''')"

definition invoice_line :: "store_db \<Rightarrow> nat \<Rightarrow> nat \<Rightarrow> order_item \<Rightarrow> invoice_item" where
  "invoice_line db bill i item = \<lparr>it_id = i, it_invoice = bill, it_description = name_of_product db (oi_product item),
     it_quantity = of_int (oi_quantity item), it_unit_price = cents (oi_price item), it_subtotal = cents (oi_subtotal item), it_tax = 0,
     it_tax_type = Tax_Default\<rparr>"

definition invoice_of_order :: "env \<Rightarrow> nat \<Rightarrow> order_row \<Rightarrow> currency \<Rightarrow> string \<Rightarrow> store_db \<Rightarrow> invoice" where
  "invoice_of_order e w order cur number db = \<lparr>inv_id = 0, inv_workspace = w, inv_customer = od_customer order, inv_number = number,
     inv_status = Inv_Draft, inv_subtotal = cents (od_subtotal order), inv_tax = cents (od_tax order), inv_total = cents (od_total order),
     inv_currency = cur_id cur, issue_date = today e, due_date = today e + int (default_due_days db w), paid_date = None, inv_notes = ''''\<rparr>"

definition write_order_invoice :: "invoice \<Rightarrow> order_row \<Rightarrow> store_db \<Rightarrow> invoice_error + (invoice \<times> store_db)" where
  "write_order_invoice v order db = (case create_invoice v (base (fin db)) of Inl _ \<Rightarrow> Inl Number_In_Use
     | Inr (v, b) \<Rightarrow> let items = lines_of_order db (od_id order); i = fresh_id it_id (invoice_items b);
           ls = map (\<lambda>(k, item). invoice_line db (inv_id v) (i + k) item) (enumerate 0 items)
         in Inr (v, db\<lparr>fin := (fin db)\<lparr>base := b\<lparr>invoice_items := invoice_items b @ ls\<rparr>,
               invoice_orders := invoice_orders (fin db) @ [(inv_id v, od_id order)]\<rparr>,
             item_products := item_products db @ map (\<lambda>(k, item). (i + k, oi_product item)) (enumerate 0 items)\<rparr>))"

definition create_invoice_from_order :: "env \<Rightarrow> nat \<Rightarrow> order_row \<Rightarrow> currency \<Rightarrow> store_db
    \<Rightarrow> (invoice_error + (invoice \<times> store_db)) option" where
  "create_invoice_from_order e w order cur db = (if od_workspace order \<noteq> w then Some (Inl Not_This_Workspace)
     else map_option (\<lambda>number. bind_r number (\<lambda>number. write_order_invoice (invoice_of_order e w order cur number db) order db))
       (generate_invoice_number w db))"

subsection \<open>Sending, settling and cancelling\<close>

definition save_invoice :: "invoice \<Rightarrow> platform_db \<Rightarrow> platform_db" where
  "save_invoice v db = db\<lparr>invoices := update_where (\<lambda>x. inv_id x = inv_id v) (\<lambda>_. v) (invoices db)\<rparr>"

definition in_base :: "(platform_db \<Rightarrow> platform_db) \<Rightarrow> store_db \<Rightarrow> store_db" where
  "in_base f db = db\<lparr>fin := (fin db)\<lparr>base := f (base (fin db))\<rparr>\<rparr>"

definition send_invoice :: "nat \<Rightarrow> invoice \<Rightarrow> store_db \<Rightarrow> invoice_error + (invoice \<times> store_db)" where
  "send_invoice w given db = (if inv_workspace given \<noteq> w then Inl Not_This_Workspace
     else let v = given\<lparr>inv_status := Inv_Sent\<rparr>; db = in_base (save_invoice v) db
       in Inr (v, db\<lparr>fin := announce ''invoice.sent'' (inv_id v) (fin db)\<rparr>))"

text \<open>The platform hears of the saved row and, after the commit, of the event.\<close>

definition mark_invoice_paid :: "env \<Rightarrow> nat \<Rightarrow> invoice \<Rightarrow> store_db \<Rightarrow> invoice_error + (invoice \<times> store_db)" where
  "mark_invoice_paid e w given db = (if inv_workspace given \<noteq> w then Inl Not_This_Workspace
     else let v = paid_invoice (today e) given in
       case on_invoice_saved e (save_invoice v (base (fin db))) v False of Inl _ \<Rightarrow> Inl Listener_Raised
       | Inr b \<Rightarrow> Inr (v, db\<lparr>fin := announce ''invoice.paid'' (inv_id v) ((fin db)\<lparr>base := on_invoice_paid e b (Some v)\<rparr>)\<rparr>))"

definition cancel_invoice :: "nat \<Rightarrow> invoice \<Rightarrow> string \<Rightarrow> store_db \<Rightarrow> invoice_error + (invoice \<times> store_db)" where
  "cancel_invoice w given reason db = (if inv_workspace given \<noteq> w then Inl Not_This_Workspace
     else if inv_status given = Inv_Paid then Inl Paid_Already
     else let v = given\<lparr>inv_status := Inv_Cancelled, inv_notes := inv_notes given @ [CHR 10, CHR 10] @ ''Cancelled: '' @ reason\<rparr>
       in Inr (v, in_base (save_invoice v) db))"

subsection \<open>Tax rates\<close>

definition active_rates :: "store_db \<Rightarrow> nat \<Rightarrow> tax_rate list" where
  "active_rates db w = sort_key tr_name (filter (\<lambda>r. tr_workspace r = w \<and> tr_active r) (tax_rates (base (fin db))))"

definition rate_at :: "store_db \<Rightarrow> nat \<Rightarrow> string \<Rightarrow> string \<Rightarrow> tax_rate option" where
  "rate_at db w land state = first (filter (\<lambda>r. tr_country r = land \<and> tr_state r = state) (active_rates db w))"

definition tax_at :: "tax_rate \<Rightarrow> rat \<Rightarrow> rat" where
  "tax_at r amount = cents (amount * tr_rate r / 100)"

definition invoice_tax :: "nat \<Rightarrow> rat \<Rightarrow> address option \<Rightarrow> store_db \<Rightarrow> rat" where
  "invoice_tax w amount place db = (case place of None \<Rightarrow> 0
     | Some a \<Rightarrow> (case first (filter (\<lambda>r. tr_country r = ad_country a) (active_rates db w)) of None \<Rightarrow> 0 | Some r \<Rightarrow> tax_at r amount))"

definition create_tax_rate :: "nat \<Rightarrow> string \<Rightarrow> rat \<Rightarrow> string \<Rightarrow> string \<Rightarrow> bool \<Rightarrow> store_db \<Rightarrow> tax_rate \<times> store_db" where
  "create_tax_rate w name rate land state active db =
    (let r = \<lparr>tr_id = fresh_id tr_id (tax_rates (base (fin db))), tr_workspace = w, tr_name = name, tr_country = land, tr_state = state,
        tr_rate = cents rate, tr_active = active\<rparr>
     in (r, in_base (\<lambda>b. b\<lparr>tax_rates := tax_rates b @ [r]\<rparr>) db))"

definition calculate_tax :: "nat \<Rightarrow> rat \<Rightarrow> string \<Rightarrow> string \<Rightarrow> store_db \<Rightarrow> rat" where
  "calculate_tax w amount land state db = (case rate_at db w land state of Some r \<Rightarrow> tax_at r amount
     | None \<Rightarrow> (case rate_at db w land '''' of Some r \<Rightarrow> tax_at r amount | None \<Rightarrow> 0))"

definition get_applicable_tax_rate :: "nat \<Rightarrow> string \<Rightarrow> string \<Rightarrow> store_db \<Rightarrow> tax_rate option" where
  "get_applicable_tax_rate w land state db = (case (if state = [] then None else rate_at db w land state) of Some r \<Rightarrow> Some r
     | None \<Rightarrow> rate_at db w land '''')"

subsection \<open>The search ends\<close>

lemma zero_digit: "digit_value CHR ''0'' = 0" "ascii_digit CHR ''0''"
  by (simp_all add: digit_value_def ascii_digit_def)

lemma int_of_zero: "s \<noteq> [] \<Longrightarrow> int_of (CHR ''0'' # s) = int_of s"
  by (simp add: int_of_def zero_digit)

lemma int_of_zfill: "s \<noteq> [] \<Longrightarrow> int_of (zfill k s) = int_of s"
proof -
  assume s: "s \<noteq> []"
  then have "int_of (replicate m CHR ''0'' @ s) = int_of s" for m
    by (induction m) (simp_all add: int_of_zero)
  then show ?thesis by (simp only: zfill_def)
qed

lemma numbered_inject [simp]: "numbered db w m = numbered db w n \<longleftrightarrow> m = n"
proof
  assume "numbered db w m = numbered db w n"
  then have "int_of (zfill 4 (show_nat m)) = int_of (zfill 4 (show_nat n))" by (simp add: numbered_def)
  then show "m = n" by (simp add: int_of_zfill)
qed simp

lemma pick_counted:
  assumes "inj draw"
  shows "\<exists>m. pick_number draw used 0 = Some (draw m) \<and> draw m \<notin> set used \<and> (\<forall>j < m. draw j \<in> set used)"
proof -
  have "\<exists>m. draw m \<notin> set used"
  proof (rule ccontr)
    assume "\<not> ?thesis"
    then have "range draw \<subseteq> set used" by auto
    with assms finite_imageD [of draw UNIV] finite_subset show False by (metis List.finite_set infinite_UNIV_nat)
  qed
  then show ?thesis using number_drawn by blast
qed

lemma number_always: "generate_invoice_number w db \<noteq> None"
proof -
  have "inj (\<lambda>k. numbered db w (n + k))" for n by (rule injI) simp
  from pick_counted [OF this] have "pick_number (\<lambda>k. numbered db w (n + k)) (used_numbers db w) 0 \<noteq> None" for n by fastforce
  then show ?thesis by (auto simp: generate_invoice_number_def split: sum.splits)
qed

lemma map_enumerate: "map (\<lambda>(k, x). g x) (enumerate n xs) = map g xs"
  by (induction xs arbitrary: n) simp_all

subsection \<open>Properties\<close>

text \<open>
  C39: Numbering an invoice ends, and with a number of the workspace's form (its prefix, then at least four digits) that
  no invoice of it has, the first free one counting up: from 1 when no invoice of the workspace starts with the prefix;
  otherwise from the number after the one that the latest of them, by id, has behind the prefix, or from 1
  when that is not written in digits. It raises only when that is digits for \<open>isdigit\<close> which \<open>int\<close> does not read.
\<close>

theorem invoice_number_is_free:
  "let prefix = invoice_prefix_of db w; used = used_numbers db w;
     mine = filter (\<lambda>v. inv_workspace v = w \<and> startswith prefix (inv_number v)) (invoices (base (fin db)));
     counted = (\<lambda>n. \<exists>m. generate_invoice_number w db = Some (Inr (prefix @ zfill 4 (show_nat (n + m)))) \<and>
       prefix @ zfill 4 (show_nat (n + m)) \<notin> set used \<and> (\<forall>j < m. prefix @ zfill 4 (show_nat (n + j)) \<in> set used))
   in if mine = [] then counted 1
     else \<exists>v \<in> set mine. (\<forall>u \<in> set mine. inv_id u \<le> inv_id v) \<and>
       (let part = strip (drop (length prefix) (inv_number v)) in
          if \<not> isdigit part then counted 1
          else case int_of part of Some n \<Rightarrow> counted (n + 1) | None \<Rightarrow> generate_invoice_number w db = Some (Inl Number_Unreadable))"
proof -
  let ?prefix = "invoice_prefix_of db w"
  let ?mine = "filter (\<lambda>v. inv_workspace v = w \<and> startswith ?prefix (inv_number v)) (invoices (base (fin db)))"
  have counted: "\<exists>m. generate_invoice_number w db = Some (Inr (?prefix @ zfill 4 (show_nat (n + m)))) \<and>
      ?prefix @ zfill 4 (show_nat (n + m)) \<notin> set (used_numbers db w) \<and> (\<forall>j < m. ?prefix @ zfill 4 (show_nat (n + j)) \<in> set (used_numbers db w))"
    if "next_invoice_number db w = Inr n" for n
  proof -
    have "inj (\<lambda>k. numbered db w (n + k))" by (rule injI) simp
    from pick_counted [OF this, of "used_numbers db w"] that show ?thesis by (auto simp: generate_invoice_number_def numbered_def)
  qed
  show ?thesis
  proof (cases "?mine = []")
    case True
    then have "next_invoice_number db w = Inr 1" by (simp add: next_invoice_number_def last_numbered_def latest_by_def Let_def)
    from counted [OF this] True show ?thesis by (simp only: Let_def if_True simp_thms)
  next
    case False
    then have "last_numbered db w ?prefix \<noteq> None" unfolding last_numbered_def latest_by_None .
    then obtain v where v: "last_numbered db w ?prefix = Some v" by blast
    then have in_mine: "v \<in> set ?mine" "\<forall>u \<in> set ?mine. inv_id u \<le> inv_id v"
      using latest_by_in [of inv_id ?mine v] latest_by_max [of inv_id ?mine v] by (auto simp: last_numbered_def)
    let ?part = "strip (drop (length ?prefix) (inv_number v))"
    have next_number: "next_invoice_number db w =
        (if isdigit ?part then case int_of ?part of Some n \<Rightarrow> Inr (n + 1) | None \<Rightarrow> Inl Number_Unreadable else Inr 1)"
      by (simp add: next_invoice_number_def v Let_def)
    have "if \<not> isdigit ?part then \<exists>m. generate_invoice_number w db = Some (Inr (?prefix @ zfill 4 (show_nat (1 + m)))) \<and>
        ?prefix @ zfill 4 (show_nat (1 + m)) \<notin> set (used_numbers db w) \<and> (\<forall>j < m. ?prefix @ zfill 4 (show_nat (1 + j)) \<in> set (used_numbers db w))
      else case int_of ?part of Some n \<Rightarrow> \<exists>m. generate_invoice_number w db = Some (Inr (?prefix @ zfill 4 (show_nat (n + 1 + m)))) \<and>
          ?prefix @ zfill 4 (show_nat (n + 1 + m)) \<notin> set (used_numbers db w) \<and> (\<forall>j < m. ?prefix @ zfill 4 (show_nat (n + 1 + j)) \<in> set (used_numbers db w))
        | None \<Rightarrow> generate_invoice_number w db = Some (Inl Number_Unreadable)"
      using counted next_number by (cases "int_of ?part") (auto simp: generate_invoice_number_def)
    with in_mine False show ?thesis unfolding Let_def by (simp only: if_False) blast
  qed
qed

text \<open>
  An invoice made from an order bills it as it is: its subtotal, tax and total are the order's, a line
  stands for each item of the order with its quantity and price, and the lines add up to what the
  items do. It is a draft under a number no other invoice of the workspace has.
\<close>

theorem order_invoice_bills_the_order:
  assumes made: "create_invoice_from_order e w order cur db = Some (Inr (v, db'))" and ok: "invoices_ok (base (fin db))"
    and grid: "\<forall>i \<in> set (lines_of_order db (od_id order)). on_grid 2 (oi_subtotal i) \<and> on_grid 2 (oi_price i)"
  shows "inv_status v = Inv_Draft \<and> inv_total v = cents (od_total order) \<and> inv_subtotal v = cents (od_subtotal order) \<and>
    inv_tax v = cents (od_tax order) \<and> inv_number v \<notin> set (used_numbers db w) \<and> v \<in> set (invoices (base (fin db'))) \<and>
    (inv_id v, od_id order) \<in> set (invoice_orders (fin db')) \<and>
    map (\<lambda>t. (it_quantity t, it_unit_price t, it_subtotal t)) (Billing.items_of (base (fin db')) v) =
      map (\<lambda>i. (of_int (oi_quantity i), oi_price i, oi_subtotal i)) (lines_of_order db (od_id order)) \<and>
    (\<Sum>t\<leftarrow>Billing.items_of (base (fin db')) v. it_subtotal t) = (\<Sum>i\<leftarrow>lines_of_order db (od_id order). oi_subtotal i)"
proof -
  from made obtain number where n: "generate_invoice_number w db = Some (Inr number)"
    and wr: "write_order_invoice (invoice_of_order e w order cur number db) order db = Inr (v, db')"
    by (auto simp: create_invoice_from_order_def bind_r_Inr split: if_splits)
  from wr obtain b where c: "create_invoice (invoice_of_order e w order cur number db) (base (fin db)) = Inr (v, b)"
    by (auto simp: write_order_invoice_def Let_def split: sum.splits)
  let ?items = "lines_of_order db (od_id order)" and ?i = "fresh_id it_id (invoice_items b)"
  let ?ls = "map (\<lambda>(k, item). invoice_line db (inv_id v) (?i + k) item) (enumerate 0 ?items)"
  from wr have db': "base (fin db') = b\<lparr>invoice_items := invoice_items b @ ?ls\<rparr>" "invoice_orders (fin db') = invoice_orders (fin db) @ [(inv_id v, od_id order)]"
    unfolding write_order_invoice_def c by (auto simp: Let_def)
  note new = create_invoice_Inr [OF c ok] and tables = create_invoice_tables [OF c]
  have v: "inv_status v = Inv_Draft" "inv_total v = cents (od_total order)" "inv_subtotal v = cents (od_subtotal order)" "inv_tax v = cents (od_tax order)"
    "inv_number v = number" by (simp_all add: new(1) invoice_of_order_def)
  have free: "number \<notin> set (used_numbers db w)"
    using new(4) by (auto simp: used_numbers_def invoice_taken_def list_ex_iff invoice_of_order_def)
  have mine: "filter (\<lambda>t. it_invoice t = inv_id v) ?ls = ?ls" by (auto simp: filter_id_conv invoice_line_def)
  have items: "Billing.items_of (base (fin db')) v = ?ls"
  proof -
    have "filter (\<lambda>t. it_invoice t = inv_id v) (invoice_items b) = []" using new(5) tables by (simp add: filter_empty_conv)
    moreover have "invoice_items (base (fin db')) = invoice_items b @ ?ls" by (simp add: db'(1))
    ultimately show ?thesis by (simp only: Billing.items_of_def filter_append mine append_Nil)
  qed
  have exact: "map f ?ls = map g ?items" if "\<And>k i. i \<in> set ?items \<Longrightarrow> f (invoice_line db (inv_id v) k i) = g i" for f :: "invoice_item \<Rightarrow> 'a" and g
  proof -
    have "map f ?ls = map (\<lambda>(k, i). g i) (enumerate 0 ?items)" using that by (auto dest: in_set_zipE simp: enumerate_eq_zip)
    also have "\<dots> = map g ?items" by (rule map_enumerate)
    finally show ?thesis .
  qed
  have "map (\<lambda>t. (it_quantity t, it_unit_price t, it_subtotal t)) ?ls = map (\<lambda>i. (of_int (oi_quantity i), oi_price i, oi_subtotal i)) ?items"
    by (rule exact) (simp add: invoice_line_def cents_exact grid)
  moreover have "map it_subtotal ?ls = map oi_subtotal ?items" by (rule exact) (simp add: invoice_line_def cents_exact grid)
  ultimately show ?thesis using v free by (simp only: items) (simp add: db' new(2))
qed

text \<open>
  A tax is the one of the rate for the state where there is one and of the country otherwise; both
  ways of asking agree.
\<close>

lemma tax_is_of_the_applicable_rate:
  assumes "state \<noteq> []"
  shows "calculate_tax w amount land state db = (case get_applicable_tax_rate w land state db of Some r \<Rightarrow> tax_at r amount | None \<Rightarrow> 0)"
  using assms by (simp add: calculate_tax_def get_applicable_tax_rate_def split: option.splits)

end
