(* ===== verification/Checkout.thy ===== *)
theory Checkout
  imports Discounts Freight_Typing Invoicing
begin

text \<open>
  From a cart to an order (\<open>shop/services/order_service.py\<close>): the totals that are shown and charged,
  the point an order is collected from, and placing the order: its rows, the stock it holds, the
  coupon it uses, the gift card it spends, its invoice and, when a card has paid all of it, its
  payment. \<open>create_order\<close> places one without a cart.

  A call works for one workspace \<open>w\<close>. The digits of an order number are drawn at random (\<open>draw\<close>), until
  the workspace has no order of that number; \<open>None\<close> is a search that does not end. A call that raises
  leaves nothing behind. The order in memory keeps unrounded amounts until it is read again.
\<close>

subsection \<open>Totals\<close>

definition item_subtotal :: "cart_item \<Rightarrow> rat" where
  "item_subtotal i = ci_price i * of_int (ci_quantity i)"

definition items_in_cart :: "store_db \<Rightarrow> nat \<Rightarrow> cart_item list" where
  "items_in_cart db c = filter (\<lambda>i. ci_cart i = c) (cart_items db)"

definition order_item_of :: "nat \<Rightarrow> nat \<Rightarrow> shop_db \<Rightarrow> cart_item \<Rightarrow> order_item" where
  "order_item_of i order sh c = (let p = product_of sh (ci_product c); v = (case ci_variant c of None \<Rightarrow> None | Some v \<Rightarrow> variant_of sh v) in
     \<lparr>oi_id = i, oi_order = order, oi_product = ci_product c, oi_variant = ci_variant c,
      oi_product_name = (case p of Some x \<Rightarrow> pd_name x | None \<Rightarrow> ''''),
      oi_variant_name = (case v of Some x \<Rightarrow> va_name x | None \<Rightarrow> ''''),
      oi_sku = (case v of Some x \<Rightarrow> va_sku x | None \<Rightarrow> (case p of Some x \<Rightarrow> pd_sku x | None \<Rightarrow> '''')),
      oi_quantity = ci_quantity c, oi_price = ci_price c, oi_subtotal = item_subtotal c\<rparr>)"

definition item_weight :: "shop_db \<Rightarrow> cart_item \<Rightarrow> rat" where
  "item_weight sh i =
    (case (case ci_variant i of None \<Rightarrow> None | Some v \<Rightarrow> (case variant_of sh v of None \<Rightarrow> None | Some x \<Rightarrow> given_rat (va_weight x))) of
       Some x \<Rightarrow> x
     | None \<Rightarrow> (case product_of sh (ci_product i) of None \<Rightarrow> 0 | Some p \<Rightarrow> (case given_rat (pd_weight p) of Some x \<Rightarrow> x | None \<Rightarrow> 0)))"

definition calculate_cart_weight :: "store_db \<Rightarrow> nat \<Rightarrow> rat" where
  "calculate_cart_weight db c = (\<Sum>i\<leftarrow>items_in_cart db c. item_weight (shop (fin db)) i * of_int (ci_quantity i))"

definition calculate_freight_service_cost :: "env \<Rightarrow> (rat \<Rightarrow> rat) \<Rightarrow> nat \<Rightarrow> freight_service \<Rightarrow> rat \<Rightarrow> rat \<Rightarrow> store_db \<Rightarrow> json_error + rat" where
  "calculate_freight_service_cost e fv w s weight order_amount db =
    (if \<not> truth (fs_config s) then Inr (fs_base s + weight * fs_per_kg s)
     else bind_r (object_of (fs_config s)) (\<lambda>config.
       calculate_shipping_cost fv (get_freight_price_value e w db) weight config
         (if lookup config ''mode'' J_Null = J_Str ''conditional'' then freight_context weight order_amount else [])))"

definition freight_service_of :: "store_db \<Rightarrow> nat \<Rightarrow> nat option \<Rightarrow> freight_service option" where
  "freight_service_of db w i = (case given_nat i of None \<Rightarrow> None
     | Some i \<Rightarrow> first (filter (\<lambda>s. fs_id s = i \<and> fs_workspace s = w \<and> fs_active s) (freight_services db)))"

definition service_by_code :: "store_db \<Rightarrow> nat \<Rightarrow> string \<Rightarrow> freight_service option" where
  "service_by_code db w code = (if code = [] then None
     else first (sort_key (\<lambda>s. (fs_order s, fs_name s)) (filter (\<lambda>s. fs_workspace s = w \<and> fs_code s = code \<and> fs_active s) (freight_services db))))"

definition calculate_cart_shipping :: "env \<Rightarrow> (rat \<Rightarrow> rat) \<Rightarrow> nat \<Rightarrow> string \<Rightarrow> nat option \<Rightarrow> rat \<Rightarrow> rat \<Rightarrow> store_db \<Rightarrow> json_error + rat" where
  "calculate_cart_shipping e fv w method service weight order_amount db =
    (case freight_service_of db w service of Some s \<Rightarrow> calculate_freight_service_cost e fv w s weight order_amount db
     | None \<Rightarrow> (case service_by_code db w method of Some s \<Rightarrow> calculate_freight_service_cost e fv w s weight order_amount db
       | None \<Rightarrow> Inr (if method = ''express'' then 20 else 10)))"

text \<open>The rate for the state, else for the country, else for nowhere in particular, else any.\<close>

definition rate_for :: "store_db \<Rightarrow> nat \<Rightarrow> address option \<Rightarrow> tax_rate option" where
  "rate_for db w place =
    (case (case place of None \<Rightarrow> None
           | Some a \<Rightarrow> if ad_country a = [] then None
               else (case (if ad_state a = [] then None else rate_at db w (ad_country a) (ad_state a)) of Some r \<Rightarrow> Some r
                 | None \<Rightarrow> rate_at db w (ad_country a) '''')) of
       Some r \<Rightarrow> Some r
     | None \<Rightarrow> (case rate_at db w '''' '''' of Some r \<Rightarrow> Some r | None \<Rightarrow> first (active_rates db w)))"

definition calculate_order_tax :: "nat \<Rightarrow> rat \<Rightarrow> address option \<Rightarrow> store_db \<Rightarrow> rat" where
  "calculate_order_tax w subtotal place db = (case rate_for db w place of None \<Rightarrow> 0 | Some r \<Rightarrow> tax_at r subtotal)"

record totals =
  to_subtotal :: rat
  to_discount :: rat
  to_shipping :: rat
  to_tax :: rat
  to_total :: rat
  to_free :: rat
  to_coupon :: rat
  to_gift :: rat

text \<open>How the customer wants the order, and what was typed at the checkout; no text is the empty one.\<close>

record wish =
  fulfilment :: string
  ship_method :: string
  service_id :: "nat option"
  coupon_code :: string
  gift_code :: string

definition calculate_order_totals :: "env \<Rightarrow> (rat \<Rightarrow> rat) \<Rightarrow> nat \<Rightarrow> cart \<Rightarrow> wish \<Rightarrow> address option \<Rightarrow> pickup_point option \<Rightarrow> store_db
    \<Rightarrow> json_error + totals" where
  "calculate_order_totals e fv w c q place point db = (let lines = items_in_cart db (ct_id c) in
     if lines = [] then Inr \<lparr>to_subtotal = 0, to_discount = 0, to_shipping = 0, to_tax = 0, to_total = 0, to_free = 0, to_coupon = 0, to_gift = 0\<rparr>
     else let subtotal = (\<Sum>i\<leftarrow>lines. item_subtotal i); sh = shop (fin db);
       d = calculate_order_discount e w (map (order_item_of 0 0 sh) lines) subtotal (coupon_code q) (gift_code q) (ct_customer c) db in
     bind_r (if fulfilment q = ''pickup'' then Inr (case point of Some p \<Rightarrow> pp_fee p | None \<Rightarrow> 0)
        else calculate_cart_shipping e fv w (ship_method q) (service_id q) (calculate_cart_weight db (ct_id c)) subtotal db) (\<lambda>cost.
     let shipping = (if 0 < oc_shipping d then 0 else cost); tax = calculate_order_tax w subtotal place db;
         discount = (if 0 < oc_gift d then oc_discount d + oc_gift d else oc_discount d)
     in Inr \<lparr>to_subtotal = subtotal, to_discount = discount, to_shipping = shipping, to_tax = tax,
          to_total = max (subtotal + shipping + tax - discount) 0, to_free = oc_shipping d, to_coupon = oc_coupon d, to_gift = oc_gift d\<rparr>))"

subsection \<open>Where an order is collected\<close>

datatype checkout_error = Other_Workspace | Other_Store | Cart_Missing | Cart_Is_Empty | Address_Required | No_Such_Point | Point_Required
  | Not_Their_Address | Freight_Raised json_error | Coupon_Unknown | Coupon_Refused coupon_problem | Card_Unknown | Card_Has_Expired
  | Card_Of_Other | Card_Currency | Card_Is_Empty | Customer_Missing | Listener_Failed | Order_Missing | Bad_Quantity | Product_Unknown | Negative_Amount
  | Discount_Too_High

datatype point_choice = No_Point | Point_Id nat | Point_Row pickup_point

definition default_point :: "store_db \<Rightarrow> nat \<Rightarrow> pickup_point option" where
  "default_point db w = first (sort_key (\<lambda>p. (pp_order p, pp_name p)) (filter (\<lambda>p. pp_workspace p = w \<and> pp_active p \<and> pp_default p) (pickup_points db)))"

definition resolve_pickup_point :: "nat \<Rightarrow> string \<Rightarrow> point_choice \<Rightarrow> store_db \<Rightarrow> checkout_error + pickup_point option" where
  "resolve_pickup_point w method choice db = (if method \<noteq> ''pickup'' then Inr None
     else bind_r (case choice of
         Point_Id i \<Rightarrow> (case first (filter (\<lambda>p. pp_id p = i \<and> pp_workspace p = w \<and> pp_active p) (pickup_points db)) of
           None \<Rightarrow> Inl No_Such_Point | Some p \<Rightarrow> Inr p)
       | Point_Row p \<Rightarrow> Inr p
       | No_Point \<Rightarrow> (case default_point db w of None \<Rightarrow> Inl Point_Required | Some p \<Rightarrow> Inr p))
       (\<lambda>p. if pp_workspace p \<noteq> w then Inl Other_Workspace else Inr (Some p)))"

definition address_fits :: "nat \<Rightarrow> nat option \<Rightarrow> address option \<Rightarrow> checkout_error + unit" where
  "address_fits w customer place = (case place of None \<Rightarrow> Inr ()
     | Some a \<Rightarrow> if ad_workspace a \<noteq> w then Inl Other_Workspace
         else if customer = None \<or> ad_customer a \<noteq> customer then Inl Not_Their_Address else Inr ())"

subsection \<open>The coupon and the card of a checkout\<close>

definition coupon_to_record :: "env \<Rightarrow> nat \<Rightarrow> string \<Rightarrow> rat \<Rightarrow> nat option \<Rightarrow> store_db \<Rightarrow> checkout_error + coupon option" where
  "coupon_to_record e w code subtotal customer db = (if upper (strip code) = [] then Inr None
     else case active_coupon db w (upper (strip code)) of None \<Rightarrow> Inl Coupon_Unknown
       | Some c \<Rightarrow> (case rule_of db (cp_rule c) of None \<Rightarrow> Inl Coupon_Unknown
         | Some r \<Rightarrow> (case validate_coupon e w c r subtotal customer db of Some problem \<Rightarrow> Inl (Coupon_Refused problem) | None \<Rightarrow> Inr (Some c))))"

definition card_to_debit :: "env \<Rightarrow> nat \<Rightarrow> string \<Rightarrow> totals \<Rightarrow> nat option \<Rightarrow> store_db \<Rightarrow> checkout_error + (gift_card \<times> rat) option" where
  "card_to_debit e w code t customer db = (if code = [] then Inr None
     else case active_gift_card db w (upper (strip code)) of None \<Rightarrow> Inl Card_Unknown
     | Some g \<Rightarrow> if gift_card_has_expired e (gc_expires g) then Inl Card_Has_Expired
       else if gc_customer g \<noteq> None \<and> gc_customer g \<noteq> customer then Inl Card_Of_Other
       else if code_of_currency db (gc_currency g) \<noteq> Some (order_currency db w) then Inl Card_Currency
       else let amount = min (gc_balance g) (max (to_subtotal t + to_shipping t + to_tax t - to_coupon t) 0) in
         if amount \<le> 0 then Inl Card_Is_Empty else Inr (Some (g, amount)))"

subsection \<open>Writing the order\<close>

definition order_head :: "env \<Rightarrow> string" where
  "order_head e = ''ORD-'' @ show_year_month (today e) @ zero_pad 2 (nat (day_of_month (today e))) @ ''-''"

definition generate_order_number :: "env \<Rightarrow> (nat \<Rightarrow> string) \<Rightarrow> nat \<Rightarrow> store_db \<Rightarrow> string option" where
  "generate_order_number e draw w db = pick_number (\<lambda>k. order_head e @ draw k)
     (map od_number (filter (\<lambda>r. od_workspace r = w) (orders (shop (fin db))))) 0"

definition insert_order :: "order_row \<Rightarrow> shop_db \<Rightarrow> shop_db" where
  "insert_order r sh = sh\<lparr>orders := orders sh @ [stored_order r]\<rparr>"

definition add_item :: "order_item \<Rightarrow> shop_db \<Rightarrow> shop_db" where
  "add_item i sh = sh\<lparr>order_items := order_items sh @ [i\<lparr>oi_id := fresh_id oi_id (order_items sh), oi_price := cents (oi_price i),
     oi_subtotal := cents (oi_subtotal i)\<rparr>]\<rparr>"

definition add_items :: "order_item list \<Rightarrow> shop_db \<Rightarrow> shop_db" where
  "add_items = fold add_item"

definition empty_cart :: "nat \<Rightarrow> store_db \<Rightarrow> store_db" where
  "empty_cart c db = db\<lparr>cart_items := filter (\<lambda>i. ci_cart i \<noteq> c) (cart_items db)\<rparr>"

definition count_use :: "coupon option \<Rightarrow> store_db \<Rightarrow> store_db" where
  "count_use c db = (case c of None \<Rightarrow> db
     | Some c \<Rightarrow> db\<lparr>coupons := update_where (\<lambda>x. cp_id x = cp_id c) (\<lambda>x. x\<lparr>cp_used := cp_used x + 1\<rparr>) (coupons db)\<rparr>)"

definition spend :: "(gift_card \<times> rat) option \<Rightarrow> store_db \<Rightarrow> store_db" where
  "spend debit db = (case debit of None \<Rightarrow> db | Some (g, amount) \<Rightarrow> debit_card g amount db)"

text \<open>What is held when stock cannot be: the order goes on with the error written on it.\<close>

definition hold_stock :: "nat \<Rightarrow> order_row \<Rightarrow> store_db \<Rightarrow> order_row \<times> store_db" where
  "hold_stock w order db = (case reserve_stock_for_order w order (shop (fin db)) of
     (Inr r, sh) \<Rightarrow> (r, in_shop (\<lambda>_. sh) db)
   | (Inl err, sh) \<Rightarrow> (order\<lparr>stock_error := (case order_of sh w (od_id order) of Some r \<Rightarrow> stock_error r | None \<Rightarrow> stock_error order)\<rparr>,
       in_shop (\<lambda>_. sh) db))"

definition CURRENCY_NAMES :: "(string \<times> string) list" where
  "CURRENCY_NAMES = [(''USD'', ''US Dollar''), (''NZD'', ''New Zealand Dollar''), (''CNY'', ''Chinese Yuan''), (''EUR'', ''Euro''),
     (''GBP'', ''British Pound''), (''JPY'', ''Japanese Yen'')]"

definition order_currency_row :: "nat \<Rightarrow> store_db \<Rightarrow> currency \<times> store_db" where
  "order_currency_row w db = (let code = order_currency db w; all = sort_key cur_code (currencies (base (fin db))) in
     case first (filter (\<lambda>c. cur_code c = code \<and> cur_active c) all) of Some c \<Rightarrow> (c, db)
     | None \<Rightarrow> (case first (filter cur_active all) of Some c \<Rightarrow> (c, db)
       | None \<Rightarrow> (case first (filter (\<lambda>c. cur_code c = code) all) of Some c \<Rightarrow> (c, db)
         | None \<Rightarrow> let c = \<lparr>cur_id = fresh_id cur_id (currencies (base (fin db))), cur_code = code,
               cur_name = (case map_of CURRENCY_NAMES code of Some n \<Rightarrow> n | None \<Rightarrow> code), decimal_places = 2, cur_active = True\<rparr>
             in (c, in_base (\<lambda>b. b\<lparr>currencies := currencies b @ [c]\<rparr>) db))))"

text \<open>An invoice that cannot be made is left out.\<close>

definition create_invoice_for_order :: "env \<Rightarrow> nat \<Rightarrow> order_row \<Rightarrow> store_db \<Rightarrow> (invoice option \<times> store_db) option" where
  "create_invoice_for_order e w order db = (let (cur, db) = order_currency_row w db in
     map_option (\<lambda>res. case res of Inl _ \<Rightarrow> (None, db) | Inr (v, db') \<Rightarrow> (Some v, db')) (create_invoice_from_order e w order cur db))"

text \<open>
  A first payment attempt for an order, through the first gateway that can settle it; \<open>supports\<close> is
  what the plugin of a gateway's type says of a way of fulfilment. One that cannot be made is left out.
\<close>

definition gateway_for :: "(string \<Rightarrow> string \<Rightarrow> bool) \<Rightarrow> nat \<Rightarrow> order_row \<Rightarrow> store_db \<Rightarrow> gateway option" where
  "gateway_for supports w order db = first (filter (\<lambda>g. supports (gw_type g) (od_fulfillment order))
     (sort_key gw_name (filter (\<lambda>g. gw_workspace g = w \<and> gw_active g) (gateways (fin db)))))"

definition create_payment_for_order :: "env \<Rightarrow> (nat \<Rightarrow> string) \<Rightarrow> (string \<Rightarrow> string \<Rightarrow> bool) \<Rightarrow> nat \<Rightarrow> order_row \<Rightarrow> invoice option \<Rightarrow> store_db
    \<Rightarrow> (payment option \<times> store_db) option" where
  "create_payment_for_order e draw supports w order bill db = (let (cur, db) = order_currency_row w db in
     case (gateway_for supports w order db, first (filter (\<lambda>c. cu_id c = od_customer order) (customers (base (fin db))))) of
       (Some g, Some c) \<Rightarrow> map_option (\<lambda>res. case res of Inl _ \<Rightarrow> (None, db) | Inr (p, f) \<Rightarrow> (Some p, db\<lparr>fin := f\<rparr>))
         (create_payment e draw w c (od_total order) cur g (Some order) bill None (fin db))
     | _ \<Rightarrow> Some (None, db))"

definition settle_free_order :: "env \<Rightarrow> nat \<Rightarrow> order_row \<Rightarrow> invoice option \<Rightarrow> bool \<Rightarrow> store_db \<Rightarrow> checkout_error + store_db" where
  "settle_free_order e w order bill by_card db = (if od_total order \<noteq> 0 \<or> \<not> by_card then Inr db
     else case mark_as_paid e w order True (shop (fin db)) of Inl _ \<Rightarrow> Inl Order_Missing
     | Inr (_, sh) \<Rightarrow> let db = in_shop (\<lambda>_. sh) db in
         case bill of None \<Rightarrow> Inr db
         | Some v \<Rightarrow> (case on_invoice_saved e (invoice_marked e (inv_id v) (base (fin db))) (paid_invoice (today e) v) False of
             Inl _ \<Rightarrow> Inl Listener_Failed | Inr b \<Rightarrow> Inr (in_base (\<lambda>_. b) db)))"

definition announce_order :: "order_row \<Rightarrow> store_db \<Rightarrow> store_db" where
  "announce_order order db = in_shop (emit ''order.created'' (od_id order)) (db\<lparr>placed := placed db @ [(od_id order, od_total order)]\<rparr>)"

definition new_order :: "nat \<Rightarrow> nat \<Rightarrow> nat \<Rightarrow> store \<Rightarrow> string \<Rightarrow> string \<Rightarrow> pickup_point option \<Rightarrow> rat \<Rightarrow> rat \<Rightarrow> rat \<Rightarrow> rat \<Rightarrow> rat \<Rightarrow> coupon option
    \<Rightarrow> address option \<Rightarrow> address option \<Rightarrow> string \<Rightarrow> order_row" where
  "new_order i w customer st number method point subtotal shipping tax discount due c ship bill note =
    \<lparr>od_id = i, od_workspace = w, od_customer = customer, od_store = st_id st, od_number = number, od_status = ''pending'',
     od_payment = ''pending'', od_fulfillment = method, od_pickup_point = map_option pp_id point, od_subtotal = subtotal, od_shipping = shipping,
     od_tax = tax, od_discount = discount, od_total = due, od_coupon = map_option cp_id c, od_ship_to = map_option ad_id ship,
     od_bill_to = map_option ad_id bill, deduction_event = ''payment_confirmed'', deducted_at = None, stock_error = '''',
     reservations_managed = True, paid_at = None, shipped_at = None, delivered_at = None, admin_note = note\<rparr>"

text \<open>Everything that is looked at before anything is written.\<close>

record checked =
  ch_cart :: cart
  ch_point :: "pickup_point option"
  ch_bill_to :: "address option"
  ch_totals :: totals
  ch_coupon :: "coupon option"
  ch_card :: "(gift_card \<times> rat) option"

definition check_cart :: "env \<Rightarrow> (rat \<Rightarrow> rat) \<Rightarrow> nat \<Rightarrow> cart \<Rightarrow> store \<Rightarrow> address option \<Rightarrow> address option \<Rightarrow> wish \<Rightarrow> point_choice \<Rightarrow> store_db
    \<Rightarrow> checkout_error + checked" where
  "check_cart e fv w given st ship bill q choice db =
    (if ct_workspace given \<noteq> w \<or> st_workspace st \<noteq> w then Inl Other_Workspace
     else case first (filter (\<lambda>c. ct_id c = ct_id given \<and> ct_workspace c = w) (carts db)) of None \<Rightarrow> Inl Cart_Missing
     | Some c \<Rightarrow>
       if items_in_cart db (ct_id c) = [] then Inl Cart_Is_Empty
       else if fulfilment q = ''shipping'' \<and> ship = None then Inl Address_Required
       else bind_r (resolve_pickup_point w (fulfilment q) choice db) (\<lambda>point.
         let bill = (case bill of None \<Rightarrow> ship | Some a \<Rightarrow> Some a) in
         bind_r (address_fits w (ct_customer c) ship) (\<lambda>_. bind_r (address_fits w (ct_customer c) bill) (\<lambda>_.
         bind_r (case calculate_order_totals e fv w c q ship point db of Inl err \<Rightarrow> Inl (Freight_Raised err) | Inr t \<Rightarrow> Inr t) (\<lambda>t.
         bind_r (if coupon_code q = [] then Inr None else coupon_to_record e w (coupon_code q) (to_subtotal t) (ct_customer c) db) (\<lambda>coupon.
         bind_r (card_to_debit e w (gift_code q) t (ct_customer c) db) (\<lambda>debit.
           Inr \<lparr>ch_cart = c, ch_point = point, ch_bill_to = bill, ch_totals = t, ch_coupon = coupon, ch_card = debit\<rparr>)))))))"

definition final_discount :: "checked \<Rightarrow> rat" where
  "final_discount k = (case ch_card k of None \<Rightarrow> to_discount (ch_totals k) | Some (_, amount) \<Rightarrow> to_coupon (ch_totals k) + amount)"

definition final_total :: "checked \<Rightarrow> rat" where
  "final_total k = (let t = ch_totals k in case ch_card k of None \<Rightarrow> to_total t
     | Some _ \<Rightarrow> max (to_subtotal t + to_shipping t + to_tax t - final_discount k) 0)"

definition order_from :: "nat \<Rightarrow> nat \<Rightarrow> store \<Rightarrow> string \<Rightarrow> wish \<Rightarrow> checked \<Rightarrow> nat \<Rightarrow> address option \<Rightarrow> string \<Rightarrow> order_row" where
  "order_from i w st number q k customer ship note = (let t = ch_totals k in
     new_order i w customer st number (fulfilment q) (ch_point k) (to_subtotal t) (to_shipping t) (to_tax t) (final_discount k) (final_total k)
       (ch_coupon k) ship (ch_bill_to k) note)"

definition write_order :: "order_row \<Rightarrow> freight_service option \<Rightarrow> cart_item list \<Rightarrow> store_db \<Rightarrow> store_db" where
  "write_order order service lines db = in_shop (\<lambda>sh. add_items (map (order_item_of 0 (od_id order) sh) lines) (insert_order order sh))
     (db\<lparr>order_freight := order_freight db @ (case service of None \<Rightarrow> [] | Some s \<Rightarrow> [(od_id order, fs_id s)])\<rparr>)"

definition create_order_from_cart :: "env \<Rightarrow> (nat \<Rightarrow> string) \<Rightarrow> (rat \<Rightarrow> rat) \<Rightarrow> nat \<Rightarrow> cart \<Rightarrow> store \<Rightarrow> address option \<Rightarrow> address option \<Rightarrow> wish
    \<Rightarrow> point_choice \<Rightarrow> string \<Rightarrow> store_db \<Rightarrow> (checkout_error + (order_row \<times> store_db)) option" where
  "create_order_from_cart e draw fv w given st ship bill q choice note db =
    (case check_cart e fv w given st ship bill q choice db of Inl err \<Rightarrow> Some (Inl err)
     | Inr k \<Rightarrow> (case generate_order_number e draw w db of None \<Rightarrow> None
       | Some number \<Rightarrow> (case ct_customer (ch_cart k) of None \<Rightarrow> Some (Inl Customer_Missing)
         | Some customer \<Rightarrow>
           let lines = items_in_cart db (ct_id (ch_cart k));
               order = order_from (fresh_id od_id (orders (shop (fin db)))) w st number q k customer ship note;
               (order, db) = hold_stock w order (write_order order (freight_service_of db w (service_id q)) lines db);
               db = spend (ch_card k) (count_use (ch_coupon k) (empty_cart (ct_id (ch_cart k)) db))
           in map_option (\<lambda>(bill, db). bind_r (settle_free_order e w order bill (ch_card k \<noteq> None) db) (\<lambda>db.
                Inr (order, announce_order order db))) (create_invoice_for_order e w order db))))"

end
