(* ===== verification/Checkout_Laws.thy ===== *)
theory Checkout_Laws
  imports Checkout
begin

text \<open>
  What placing an order from a cart comes to: what each step of it may change, and the properties of
  the whole.
\<close>

subsection \<open>The steps of a checkout\<close>

lemma checkout_checked:
  assumes "create_order_from_cart e draw fv w given st ship bill q choice note db = Some (Inr (order, db'))"
  obtains k where "check_cart e fv w given st ship bill q choice db = Inr k"
  using assms by (cases "check_cart e fv w given st ship bill q choice db") (simp_all add: create_order_from_cart_def)

lemma checkout_steps:
  assumes "create_order_from_cart e draw fv w given st ship bill q choice note db = Some (Inr (order, db'))"
    and k: "check_cart e fv w given st ship bill q choice db = Inr k"
  obtains number customer db1 paper db3 db4 where
    "generate_order_number e draw w db = Some number"
    "ct_customer (ch_cart k) = Some customer"
    "hold_stock w (order_from (fresh_id od_id (orders (shop (fin db)))) w st number q k customer ship note)
       (write_order (order_from (fresh_id od_id (orders (shop (fin db)))) w st number q k customer ship note)
         (freight_service_of db w (service_id q)) (items_in_cart db (ct_id (ch_cart k))) db) = (order, db1)"
    "create_invoice_for_order e w order (spend (ch_card k) (count_use (ch_coupon k) (empty_cart (ct_id (ch_cart k)) db1))) = Some (paper, db3)"
    "settle_free_order e w order paper (ch_card k \<noteq> None) db3 = Inr db4" "db' = announce_order order db4"
proof -
  from assms(1) k obtain number where n: "generate_order_number e draw w db = Some number"
    by (cases "generate_order_number e draw w db") (simp_all add: create_order_from_cart_def)
  from assms(1) k n obtain customer where c: "ct_customer (ch_cart k) = Some customer"
    by (cases "ct_customer (ch_cart k)") (simp_all add: create_order_from_cart_def)
  let ?o = "order_from (fresh_id od_id (orders (shop (fin db)))) w st number q k customer ship note"
  obtain held db1 where h: "hold_stock w ?o (write_order ?o (freight_service_of db w (service_id q)) (items_in_cart db (ct_id (ch_cart k))) db) = (held, db1)"
    by fastforce
  let ?db2 = "spend (ch_card k) (count_use (ch_coupon k) (empty_cart (ct_id (ch_cart k)) db1))"
  from assms(1) k n c h obtain paper db3 where i: "create_invoice_for_order e w held ?db2 = Some (paper, db3)"
    by (cases "create_invoice_for_order e w held ?db2") (auto simp: create_order_from_cart_def Let_def)
  from assms(1) have f: "bind_r (settle_free_order e w held paper (ch_card k \<noteq> None) db3) (\<lambda>db. Inr (held, announce_order held db)) = Inr (order, db')"
    by (simp add: create_order_from_cart_def k n c h i Let_def)
  then obtain db4 where s: "settle_free_order e w held paper (ch_card k \<noteq> None) db3 = Inr db4" "held = order" "db' = announce_order order db4"
    by (auto simp: bind_r_Inr)
  show thesis by (rule that [OF n c h [unfolded s(2)] i [unfolded s(2)] s(1) [unfolded s(2)] s(3)])
qed

subsection \<open>What the steps leave alone\<close>

lemma write_order_tables:
  "cart_items (write_order o' s ls db) = cart_items db" "coupons (write_order o' s ls db) = coupons db"
  "gift_cards (write_order o' s ls db) = gift_cards db" "carts (write_order o' s ls db) = carts db"
  "base (fin (write_order o' s ls db)) = base (fin db)" "discount_rules (write_order o' s ls db) = discount_rules db"
  by (simp_all add: write_order_def)

lemma hold_stock_tables:
  assumes "hold_stock w o' db = (r, db1)"
  shows "cart_items db1 = cart_items db" "coupons db1 = coupons db" "gift_cards db1 = gift_cards db" "carts db1 = carts db"
    "base (fin db1) = base (fin db)" "discount_rules db1 = discount_rules db"
  using assms by (auto simp: hold_stock_def split: prod.splits sum.splits)

lemma in_base_simps [simp]:
  "shop (fin (in_base f db)) = shop (fin db)" "base (fin (in_base f db)) = f (base (fin db))"
  "discount_rules (in_base f db) = discount_rules db" "coupons (in_base f db) = coupons db"
  "gift_cards (in_base f db) = gift_cards db" "carts (in_base f db) = carts db" "cart_items (in_base f db) = cart_items db"
  by (simp_all add: in_base_def)

lemma paying_steps_tables [simp]:
  "shop (fin (spend d db)) = shop (fin db)" "shop (fin (count_use c db)) = shop (fin db)" "shop (fin (empty_cart i db)) = shop (fin db)"
  "base (fin (spend d db)) = base (fin db)" "base (fin (count_use c db)) = base (fin db)" "base (fin (empty_cart i db)) = base (fin db)"
  "cart_items (spend d db) = cart_items db" "cart_items (count_use c db) = cart_items db"
  "coupons (spend d db) = coupons db" "coupons (empty_cart i db) = coupons db"
  "gift_cards (count_use c db) = gift_cards db" "gift_cards (empty_cart i db) = gift_cards db"
  "discount_rules (spend d db) = discount_rules db" "discount_rules (count_use c db) = discount_rules db"
  "discount_rules (empty_cart i db) = discount_rules db"
  by (simp_all add: spend_def count_use_def empty_cart_def debit_card_def split: option.splits prod.splits)

lemma write_invoice_tables:
  assumes "create_invoice_from_order e w order cur db = Some (Inr (v, db'))"
  shows "shop (fin db') = shop (fin db)" "cart_items db' = cart_items db" "coupons db' = coupons db" "gift_cards db' = gift_cards db"
    "discount_rules db' = discount_rules db"
proof -
  from assms obtain number where "write_order_invoice (invoice_of_order e w order cur number db) order db = Inr (v, db')"
    by (auto simp: create_invoice_from_order_def bind_r_Inr split: if_splits)
  then show "shop (fin db') = shop (fin db)" "cart_items db' = cart_items db" "coupons db' = coupons db" "gift_cards db' = gift_cards db"
    "discount_rules db' = discount_rules db"
    by (auto simp: write_order_invoice_def Let_def split: sum.splits)
qed

lemma order_currency_row_tables:
  assumes "order_currency_row w db = (cur, db')"
  shows "shop (fin db') = shop (fin db)" "cart_items db' = cart_items db" "coupons db' = coupons db" "gift_cards db' = gift_cards db"
    "discount_rules db' = discount_rules db"
  using assms by (auto simp: order_currency_row_def Let_def split: option.splits)

lemma invoice_tables:
  assumes "create_invoice_for_order e w order db = Some (paper, db')"
  shows "shop (fin db') = shop (fin db)" "cart_items db' = cart_items db" "coupons db' = coupons db" "gift_cards db' = gift_cards db"
    "discount_rules db' = discount_rules db"
proof -
  obtain cur db1 where c: "order_currency_row w db = (cur, db1)" by fastforce
  from assms obtain res where r: "create_invoice_from_order e w order cur db1 = Some res"
    "(paper, db') = (case res of Inl _ \<Rightarrow> (None, db1) | Inr (v, db') \<Rightarrow> (Some v, db'))"
    by (auto simp: create_invoice_for_order_def c)
  have "db' = db1 \<or> (\<exists>v. create_invoice_from_order e w order cur db1 = Some (Inr (v, db')))"
    using r by (cases res) auto
  then show "shop (fin db') = shop (fin db)" "cart_items db' = cart_items db" "coupons db' = coupons db" "gift_cards db' = gift_cards db"
    "discount_rules db' = discount_rules db"
    using order_currency_row_tables [OF c] write_invoice_tables by metis+
qed

lemma settle_tables:
  assumes "settle_free_order e w order paper b db = Inr db'"
  shows "cart_items db' = cart_items db" "coupons db' = coupons db" "gift_cards db' = gift_cards db" "discount_rules db' = discount_rules db"
    "shop (fin db') = shop (fin db) \<or> (\<exists>r. mark_as_paid e w order True (shop (fin db)) = Inr (r, shop (fin db')))"
  using assms by (auto simp: settle_free_order_def Let_def split: if_splits sum.splits option.splits)

lemma announce_tables [simp]:
  "cart_items (announce_order o' db) = cart_items db" "coupons (announce_order o' db) = coupons db"
  "gift_cards (announce_order o' db) = gift_cards db" "discount_rules (announce_order o' db) = discount_rules db"
  "shop (fin (announce_order o' db)) = emit ''order.created'' (od_id o') (shop (fin db))"
  by (simp_all add: announce_order_def in_shop_def)

lemma check_cart_Inr:
  assumes "check_cart e fv w given st ship bill q choice db = Inr k"
  shows "ct_id (ch_cart k) = ct_id given" "ct_workspace (ch_cart k) = w" "ct_workspace given = w" "st_workspace st = w"
    "items_in_cart db (ct_id given) \<noteq> []"
    "calculate_order_totals e fv w (ch_cart k) q ship (ch_point k) db = Inr (ch_totals k)"
    "(if coupon_code q = [] then Inr None else coupon_to_record e w (coupon_code q) (to_subtotal (ch_totals k)) (ct_customer (ch_cart k)) db) = Inr (ch_coupon k)"
    "card_to_debit e w (gift_code q) (ch_totals k) (ct_customer (ch_cart k)) db = Inr (ch_card k)"
proof -
  from assms obtain c where c: "first (filter (\<lambda>c. ct_id c = ct_id given \<and> ct_workspace c = w) (carts db)) = Some c"
    "ct_workspace given = w" "st_workspace st = w" "items_in_cart db (ct_id c) \<noteq> []"
    by (auto simp: check_cart_def split: if_splits option.splits)
  then have ids: "ct_id c = ct_id given" "ct_workspace c = w" by (auto dest: first_filter_SomeD)
  from assms c ids obtain point t coupon debit where
    "calculate_order_totals e fv w c q ship point db = Inr t"
    "(if coupon_code q = [] then Inr None else coupon_to_record e w (coupon_code q) (to_subtotal t) (ct_customer c) db) = Inr coupon"
    "card_to_debit e w (gift_code q) t (ct_customer c) db = Inr debit"
    "k = \<lparr>ch_cart = c, ch_point = point, ch_bill_to = (case bill of None \<Rightarrow> ship | Some a \<Rightarrow> Some a), ch_totals = t, ch_coupon = coupon, ch_card = debit\<rparr>"
    by (auto simp: check_cart_def bind_r_Inr Let_def split: if_split_asm sum.splits)
  with c ids show "ct_id (ch_cart k) = ct_id given" "ct_workspace (ch_cart k) = w" "ct_workspace given = w" "st_workspace st = w"
    "items_in_cart db (ct_id given) \<noteq> []"
    "calculate_order_totals e fv w (ch_cart k) q ship (ch_point k) db = Inr (ch_totals k)"
    "(if coupon_code q = [] then Inr None else coupon_to_record e w (coupon_code q) (to_subtotal (ch_totals k)) (ct_customer (ch_cart k)) db) = Inr (ch_coupon k)"
    "card_to_debit e w (gift_code q) (ch_totals k) (ct_customer (ch_cart k)) db = Inr (ch_card k)"
    by (simp_all split: if_splits)
qed

text \<open>The cart, the coupons and the cards after a checkout.\<close>

lemma checkout_tables:
  assumes "create_order_from_cart e draw fv w given st ship bill q choice note db = Some (Inr (order, db'))"
    "check_cart e fv w given st ship bill q choice db = Inr k"
  shows "cart_items db' = filter (\<lambda>i. ci_cart i \<noteq> ct_id given) (cart_items db)"
    "coupons db' = coupons (count_use (ch_coupon k) db)" "gift_cards db' = gift_cards (spend (ch_card k) db)"
    "discount_rules db' = discount_rules db"
proof -
  from checkout_steps [OF assms] obtain number customer db1 paper db3 db4 where
    h: "hold_stock w (order_from (fresh_id od_id (orders (shop (fin db)))) w st number q k customer ship note)
       (write_order (order_from (fresh_id od_id (orders (shop (fin db)))) w st number q k customer ship note)
         (freight_service_of db w (service_id q)) (items_in_cart db (ct_id (ch_cart k))) db) = (order, db1)"
    and i: "create_invoice_for_order e w order (spend (ch_card k) (count_use (ch_coupon k) (empty_cart (ct_id (ch_cart k)) db1))) = Some (paper, db3)"
    and s: "settle_free_order e w order paper (ch_card k \<noteq> None) db3 = Inr db4" and a: "db' = announce_order order db4" .
  note t = hold_stock_tables [OF h] invoice_tables [OF i] settle_tables(1-4) [OF s]
  have spend_frame: "gift_cards x = gift_cards y \<Longrightarrow> gift_cards (spend d x) = gift_cards (spend d y)" for d x y
    by (simp add: spend_def debit_card_def split: option.splits prod.splits)
  show "cart_items db' = filter (\<lambda>i. ci_cart i \<noteq> ct_id given) (cart_items db)"
    using check_cart_Inr(1) [OF assms(2)] by (simp add: a t write_order_tables) (simp add: empty_cart_def t write_order_tables)
  show "coupons db' = coupons (count_use (ch_coupon k) db)"
    by (simp add: a t write_order_tables) (simp add: count_use_def empty_cart_def t write_order_tables split: option.splits)
  show "gift_cards db' = gift_cards (spend (ch_card k) db)"
    unfolding a announce_tables t(9) t(13) using t(3) by (simp add: a t) (rule spend_frame, simp add: t write_order_tables)
  show "discount_rules db' = discount_rules db" by (simp add: a t write_order_tables)
qed

end
