(* ===== verification/Checkout_Orders.thy ===== *)
theory Checkout_Orders
  imports Checkout_Laws
begin

text \<open>
  The rows a checkout leaves behind: the order, its lines and what it holds of the stock.
\<close>

subsection \<open>The order, its lines and its stock\<close>

lemma reserve_items_frame:
  assumes "reserve_stock_for_order w given db = (res, db')" "sound db"
  shows "order_items db' = order_items db \<and> map od_id (orders db') = map od_id (orders db)"
proof (cases "reserve_stock_atomic w given db")
  case (Inl err)
  with assms(1) show ?thesis by (auto simp: reserve_stock_for_order_def record_stock_error_def update_where_def)
next
  case (Inr x)
  with assms(1) have "reserve_stock_atomic w given db = Inr (fst x, db')" by (auto simp: reserve_stock_for_order_def split: prod.splits)
  then obtain order where r: "reserve_locked w order db = Inr (fst x, db')" by (auto simp: reserve_stock_atomic_def locked_Inr)
  show ?thesis
  proof (cases "deducted_at order")
    case None
    from assms(2) have ok: "stock_ok db" by (simp add: sound_def)
    from reserve_locked_spec [OF r ok None] obtain db1 where m: "reserves_more (items_of_order db (od_id order)) db db1"
      and d: "db' = save_order (fst x) db1" by metis
    from m have f: "db1 = db\<lparr>inventories := inventories db1, reservations := reservations db1\<rparr>" by (simp add: reserves_more_def)
    have "order_items db1 = order_items db" "orders db1 = orders db" by (subst f, simp)+
    then show ?thesis by (simp add: d save_order_def update_where_def)
  qed (use r in \<open>simp add: reserve_locked_def\<close>)
qed

lemma deduct_lines:
  assumes "deduct_stock e w given db = (res, db')" "sound db"
  shows "order_items db' = order_items db"
proof (cases "deduct_stock_atomic e w given db")
  case (Inl err)
  with assms(1) show ?thesis by (auto simp: deduct_stock_def record_stock_error_def)
next
  case (Inr x)
  with assms(1) have "deduct_stock_atomic e w given db = Inr (fst x, db')" by (auto simp: deduct_stock_def split: prod.splits)
  then obtain order where o: "order_of db w (od_id given) = Some order" and d: "deduct_locked e w order db = Inr (fst x, db')"
    by (auto simp: deduct_stock_atomic_def locked_Inr)
  show ?thesis
  proof (cases "deducted_at order")
    case None
    have ow: "od_workspace order = w" "od_id order = od_id given" using order_of_Some [OF o] by auto
    have ok: "stock_ok db" "distinct (map od_id (orders db))" using assms(2) by (simp_all add: sound_def)
    from deduct_locked_spec [OF d ok(1) None ow(1) _ ok(2)] o ow(2) show ?thesis by metis
  qed (use d in \<open>simp add: deduct_locked_def\<close>)
qed

lemma pay_lines:
  assumes "mark_as_paid e w given b db = Inr (order, db')" "sound db"
  shows "order_items db' = order_items db"
proof -
  from assms(1) obtain r where m: "mark_locked e w b r db = (order, db')" by (auto simp: mark_as_paid_def locked_Inr)
  let ?paid = "r\<lparr>od_payment := ''paid'', paid_at := Some (now e)\<rparr>"
  let ?db = "save_order ?paid db"
  obtain res db2 where ds: "deduct_stock e w ?paid ?db = (res, db2)" by fastforce
  have "sound ?db \<and> conserves db ?db" by (rule sound_frame [OF assms(2)]) simp_all
  then have l: "order_items db2 = order_items db" using deduct_lines [OF ds] by (simp add: save_order_def)
  have "db' = snd (mark_locked e w b r db)" using m by simp
  also have "order_items \<dots> = order_items db"
    unfolding mark_locked_def using ds l by (cases res) (simp_all add: Let_def emit_def audit_order_def save_order_def)
  finally show ?thesis .
qed

text \<open>A line as it is stored, whatever number it is given; the lines of an order.\<close>

definition stored_line :: "order_item \<Rightarrow> order_item" where
  "stored_line i = i\<lparr>oi_id := 0, oi_price := cents (oi_price i), oi_subtotal := cents (oi_subtotal i)\<rparr>"

definition lines_in :: "shop_db \<Rightarrow> nat \<Rightarrow> order_item list" where
  "lines_in sh j = map (\<lambda>i. i\<lparr>oi_id := 0\<rparr>) (filter (\<lambda>i. oi_order i = j) (order_items sh))"

definition items_have_orders :: "shop_db \<Rightarrow> bool" where
  "items_have_orders sh \<longleftrightarrow> (\<forall>i \<in> set (order_items sh). oi_order i \<in> od_id ` set (orders sh))"

lemma lines_in_add_item: "lines_in (add_item i sh) j = lines_in sh j @ (if oi_order i = j then [stored_line i] else [])"
  by (simp add: lines_in_def add_item_def stored_line_def)

lemma lines_in_add_items: "lines_in (add_items is sh) j = lines_in sh j @ map stored_line (filter (\<lambda>i. oi_order i = j) is)"
  by (induction "is" arbitrary: sh) (simp_all add: add_items_def lines_in_add_item)

lemma add_items_frame: "inventories (add_items is sh) = inventories sh" "reservations (add_items is sh) = reservations sh"
  "orders (add_items is sh) = orders sh" "products (add_items is sh) = products sh" "variants (add_items is sh) = variants sh"
  by (induction "is" arbitrary: sh) (simp_all add: add_items_def add_item_def)

lemma order_item_of_order [simp]: "oi_order (order_item_of i j sh c) = j"
  by (simp add: order_item_of_def Let_def)

lemma lines_of_new: "od_id r \<notin> od_id ` set (orders sh) \<Longrightarrow> items_have_orders sh \<Longrightarrow> lines_in (insert_order r sh) (od_id r) = []"
  by (simp add: lines_in_def insert_order_def items_have_orders_def filter_empty_conv) metis

lemma written_lines:
  assumes "od_id r \<notin> od_id ` set (orders (shop (fin db)))" "items_have_orders (shop (fin db))"
  shows "lines_in (shop (fin (write_order r s ls db))) (od_id r) = map (stored_line \<circ> order_item_of 0 (od_id r) (shop (fin db))) ls"
  using lines_of_new [OF assms] by (simp add: write_order_def lines_in_add_items filter_map o_def)

lemma stored_order_id [simp]: "od_id (stored_order r) = od_id r"
  by (simp add: stored_order_def)

lemma write_order_sound:
  assumes "sound (shop (fin db))" "od_id r \<notin> od_id ` set (orders (shop (fin db)))"
  shows "sound (shop (fin (write_order r s ls db)))"
proof -
  let ?sh = "shop (fin (write_order r s ls db))"
  have same: "inventories ?sh = inventories (shop (fin db))" "reservations ?sh = reservations (shop (fin db))"
    "orders ?sh = orders (shop (fin db)) @ [stored_order r]"
    by (simp_all add: write_order_def add_items_frame insert_order_def)
  have "stock_ok ?sh" using stock_frame(1) [OF same(1,2)] assms(1) by (simp add: sound_def)
  then show ?thesis using assms by (simp add: sound_def same(3) image_iff) 
qed

lemma held_effect:
  assumes "hold_stock w r db = (order, db1)" "sound (shop (fin db))"
  shows "sound (shop (fin db1))" "order_items (shop (fin db1)) = order_items (shop (fin db))"
    "map od_id (orders (shop (fin db1))) = map od_id (orders (shop (fin db)))"
proof -
  obtain res sh where h: "reserve_stock_for_order w r (shop (fin db)) = (res, sh)" by fastforce
  have "shop (fin db1) = sh" using assms(1) by (auto simp: hold_stock_def h split: sum.splits)
  with reserve_sound [OF h assms(2)] reserve_items_frame [OF h assms(2)] show "sound (shop (fin db1))"
    "order_items (shop (fin db1)) = order_items (shop (fin db))" "map od_id (orders (shop (fin db1))) = map od_id (orders (shop (fin db)))"
    by simp_all
qed

lemma held_id: "hold_stock w r db = (order, db1) \<Longrightarrow> od_id order = od_id r"
  by (auto simp: hold_stock_def reserve_stock_for_order_def reserve_stock_atomic_def locked_Inr reserve_locked_def bind_r_Inr Let_def
      dest: order_of_Some split: sum.splits prod.splits if_splits)

lemma lines_in_frame: "order_items sh' = order_items sh \<Longrightarrow> lines_in sh' j = lines_in sh j"
  by (simp add: lines_in_def)

lemma checkout_order_lines:
  assumes placed: "create_order_from_cart e draw fv w given st ship bill q choice note db = Some (Inr (order, db'))"
    and ok: "sound (shop (fin db))" "items_have_orders (shop (fin db))"
  shows "od_id order = fresh_id od_id (orders (shop (fin db)))" "sound (shop (fin db'))"
    "lines_in (shop (fin db')) (od_id order) =
       map (stored_line \<circ> order_item_of 0 (od_id order) (shop (fin db))) (items_in_cart db (ct_id given))"
proof -
  from checkout_checked [OF placed] obtain k where k: "check_cart e fv w given st ship bill q choice db = Inr k" .
  from checkout_steps [OF placed k] obtain number customer db1 paper db3 db4 where
    h: "hold_stock w (order_from (fresh_id od_id (orders (shop (fin db)))) w st number q k customer ship note)
       (write_order (order_from (fresh_id od_id (orders (shop (fin db)))) w st number q k customer ship note)
         (freight_service_of db w (service_id q)) (items_in_cart db (ct_id (ch_cart k))) db) = (order, db1)"
    and i: "create_invoice_for_order e w order (spend (ch_card k) (count_use (ch_coupon k) (empty_cart (ct_id (ch_cart k)) db1))) = Some (paper, db3)"
    and s: "settle_free_order e w order paper (ch_card k \<noteq> None) db3 = Inr db4" and a: "db' = announce_order order db4" .
  let ?r = "order_from (fresh_id od_id (orders (shop (fin db)))) w st number q k customer ship note"
  let ?wr = "write_order ?r (freight_service_of db w (service_id q)) (items_in_cart db (ct_id (ch_cart k))) db"
  have rid: "od_id ?r = fresh_id od_id (orders (shop (fin db)))" by (simp add: order_from_def new_order_def Let_def)
  have new: "od_id ?r \<notin> od_id ` set (orders (shop (fin db)))" unfolding rid by (rule fresh_id_notin)
  show id: "od_id order = fresh_id od_id (orders (shop (fin db)))" using held_id [OF h] rid by simp
  note eff = held_effect [OF h write_order_sound [OF ok(1) new]]
  have sh3: "shop (fin db3) = shop (fin db1)" using invoice_tables(1) [OF i] by simp
  have f4: "sound (shop (fin db4)) \<and> order_items (shop (fin db4)) = order_items (shop (fin db1))"
  proof (cases "shop (fin db4) = shop (fin db3)")
    case False
    with settle_tables(5) [OF s] obtain r where m: "mark_as_paid e w order True (shop (fin db3)) = Inr (r, shop (fin db4))" by blast
    from pay_sound [OF m] pay_lines [OF m] eff(1) show ?thesis by (simp add: sh3)
  qed (simp add: sh3 eff(1))
  have f5: "inventories (emit n j x) = inventories x \<and> reservations (emit n j x) = reservations x \<and> orders (emit n j x) = orders x \<and>
      order_items (emit n j x) = order_items x" for n j x by (simp add: emit_def)
  have "sound (emit n j x)" if "sound x" for n j x 
    by (rule sound_frame [OF that, THEN conjunct1]) (simp_all only: f5)
  then show "sound (shop (fin db'))" unfolding a announce_tables using f4 by blast
  have "lines_in (shop (fin db')) (od_id order) = lines_in (shop (fin ?wr)) (od_id ?r)"
    unfolding id rid by (rule lines_in_frame) (simp only: a announce_tables f5 f4 eff(2))
  also have "\<dots> = map (stored_line \<circ> order_item_of 0 (od_id ?r) (shop (fin db))) (items_in_cart db (ct_id (ch_cart k)))"
    by (rule written_lines [OF new ok(2)])
  finally show "lines_in (shop (fin db')) (od_id order) =
       map (stored_line \<circ> order_item_of 0 (od_id order) (shop (fin db))) (items_in_cart db (ct_id given))"
    using id rid check_cart_Inr(1) [OF k] by simp
qed

subsection \<open>What is charged\<close>

lemma cents_cents [simp]: "cents (cents x) = cents x"
  by (rule cents_exact) (rule cents_on_grid)

lemma written_order:
  assumes "od_id r \<notin> od_id ` set (orders (shop (fin db)))" "order_of (shop (fin (write_order r s ls db))) w (od_id r) = Some x"
  shows "x = stored_order r"
proof -
  have "x \<in> set (orders (shop (fin (write_order r s ls db))))" "od_id x = od_id r" using order_of_Some [OF assms(2)] by simp_all
  then have "x \<in> set (orders (shop (fin db))) \<or> x = stored_order r" by (auto simp: write_order_def add_items_frame insert_order_def)
  with assms(1) \<open>od_id x = od_id r\<close> show ?thesis by (metis imageI)
qed

lemma held_amounts:
  assumes "hold_stock w r (write_order r s ls db) = (order, db1)" "od_id r \<notin> od_id ` set (orders (shop (fin db)))"
  shows "cents (od_total order) = cents (od_total r) \<and> cents (od_discount order) = cents (od_discount r)"
proof (cases "reserve_stock_for_order w r (shop (fin (write_order r s ls db)))")
  case (Pair res sh)
  show ?thesis
  proof (cases res)
    case (Inl err)
    with assms(1) Pair show ?thesis by (auto simp: hold_stock_def)
  next
    case (Inr x)
    then have "reserve_stock_atomic w r (shop (fin (write_order r s ls db))) = Inr (x, sh)"
      using Pair by (auto simp: reserve_stock_for_order_def split: sum.splits)
    then obtain y where y: "order_of (shop (fin (write_order r s ls db))) w (od_id r) = Some y"
      "reserve_locked w y (shop (fin (write_order r s ls db))) = Inr (x, sh)" by (auto simp: reserve_stock_atomic_def locked_Inr)
    have "od_total x = od_total y \<and> od_discount x = od_discount y" using y(2)
      by (auto simp: reserve_locked_def bind_r_Inr Let_def split: if_splits)
    moreover have "x = order" using assms(1) Pair Inr by (simp add: hold_stock_def)
    ultimately show ?thesis using written_order [OF assms(2) y(1)] by (simp add: stored_order_def)
  qed
qed

lemma checkout_amounts:
  assumes placed: "create_order_from_cart e draw fv w given st ship bill q choice note db = Some (Inr (order, db'))"
    and k: "check_cart e fv w given st ship bill q choice db = Inr k"
  shows "cents (od_total order) = cents (final_total k)" "cents (od_discount order) = cents (final_discount k)"
proof -
  from checkout_steps [OF placed k] obtain number customer db1 paper db3 db4 where
    h: "hold_stock w (order_from (fresh_id od_id (orders (shop (fin db)))) w st number q k customer ship note)
       (write_order (order_from (fresh_id od_id (orders (shop (fin db)))) w st number q k customer ship note)
         (freight_service_of db w (service_id q)) (items_in_cart db (ct_id (ch_cart k))) db) = (order, db1)" .
  have "od_id (order_from (fresh_id od_id (orders (shop (fin db)))) w st number q k customer ship note) \<notin> od_id ` set (orders (shop (fin db)))"
    unfolding order_from_def new_order_def Let_def order_row.select_convs by (rule fresh_id_notin)
  from held_amounts [OF h this] show "cents (od_total order) = cents (final_total k)" "cents (od_discount order) = cents (final_discount k)"
    by (simp_all add: order_from_def new_order_def Let_def)
qed

text \<open>What the totals of a cart that has lines are made of.\<close>

lemma totals_parts:
  assumes "calculate_order_totals e fv w c q place point db = Inr t" "items_in_cart db (ct_id c) \<noteq> []"
  obtains d where "d = calculate_order_discount e w (map (order_item_of 0 0 (shop (fin db))) (items_in_cart db (ct_id c)))
      (to_subtotal t) (coupon_code q) (gift_code q) (ct_customer c) db"
    "to_coupon t = oc_coupon d" "to_gift t = oc_gift d" "to_discount t = (if 0 < oc_gift d then oc_discount d + oc_gift d else oc_discount d)"
    "to_total t = max (to_subtotal t + to_shipping t + to_tax t - to_discount t) 0" "oc_discount d = oc_coupon d"
    "to_subtotal t = (\<Sum>i\<leftarrow>items_in_cart db (ct_id c). item_subtotal i)"
proof -
  let ?s = "\<Sum>i\<leftarrow>items_in_cart db (ct_id c). item_subtotal i"
  let ?d = "calculate_order_discount e w (map (order_item_of 0 0 (shop (fin db))) (items_in_cart db (ct_id c))) ?s (coupon_code q) (gift_code q) (ct_customer c) db"
  from assms obtain cost where t: "t = \<lparr>to_subtotal = ?s, to_discount = (if 0 < oc_gift ?d then oc_discount ?d + oc_gift ?d else oc_discount ?d),
      to_shipping = (if 0 < oc_shipping ?d then 0 else cost), to_tax = calculate_order_tax w ?s place db,
      to_total = max (?s + (if 0 < oc_shipping ?d then 0 else cost) + calculate_order_tax w ?s place db
        - (if 0 < oc_gift ?d then oc_discount ?d + oc_gift ?d else oc_discount ?d)) 0,
      to_free = oc_shipping ?d, to_coupon = oc_coupon ?d, to_gift = oc_gift ?d\<rparr>"
    by (auto simp: calculate_order_totals_def Let_def bind_r_Inr)
  have "oc_discount ?d = oc_coupon ?d" by (simp add: calculate_order_discount_def split: prod.splits)
  then show thesis by (intro that [of ?d]) (simp_all add: t)
qed

lemma card_to_debit_Some:
  assumes "card_to_debit e w code t customer db = Inr (Some (g, amount))"
  shows "active_gift_card db w (upper (strip code)) = Some g" "0 < amount" "code \<noteq> []"
    "amount = min (gc_balance g) (max (to_subtotal t + to_shipping t + to_tax t - to_coupon t) 0)"
  using assms by (auto simp: card_to_debit_def Let_def split: if_splits option.splits)

lemma card_to_debit_None: "card_to_debit e w code t customer db = Inr None \<longleftrightarrow> code = []"
  by (auto simp: card_to_debit_def Let_def split: option.splits)

lemma gift_part:
  assumes "active_gift_card db w (upper code) = Some g"
  shows "calculate_gift_card_amount e w code subtotal existing customer db \<le> max (min (gc_balance g) (subtotal - existing)) 0"
  using assms by (simp add: calculate_gift_card_amount_def)

subsection \<open>Coupons\<close>

definition within_limits :: "store_db \<Rightarrow> bool" where
  "within_limits db \<longleftrightarrow> distinct (map cp_id (coupons db)) \<and>
     (\<forall>c \<in> set (coupons db). case given_nat (cp_limit c) of None \<Rightarrow> True | Some l \<Rightarrow> cp_used c \<le> l)"

lemma coupon_to_record_Some:
  assumes "coupon_to_record e w code subtotal customer db = Inr (Some c)"
  shows "c \<in> set (coupons db)" "cp_workspace c = w" "cp_active c" "cp_code c = upper (strip code)"
    "case given_nat (cp_limit c) of None \<Rightarrow> True | Some l \<Rightarrow> cp_used c < l" "cp_from c \<le> now e"
    "case cp_until c of None \<Rightarrow> True | Some u \<Rightarrow> now e \<le> u"
proof -
  from assms obtain r where a: "active_coupon db w (upper (strip code)) = Some c" "validate_coupon e w c r subtotal customer db = None"
    by (auto simp: coupon_to_record_def split: if_splits option.splits)
  then show "c \<in> set (coupons db)" "cp_workspace c = w" "cp_active c" "cp_code c = upper (strip code)"
    by (auto simp: active_coupon_def dest: first_filter_SomeD)
  from a(2) show "case given_nat (cp_limit c) of None \<Rightarrow> True | Some l \<Rightarrow> cp_used c < l" "cp_from c \<le> now e"
    "case cp_until c of None \<Rightarrow> True | Some u \<Rightarrow> now e \<le> u"
    by (auto simp: validate_coupon_def not_less not_le split: if_splits option.splits)
qed

lemma count_use_within:
  assumes "within_limits db" "\<And>x. c = Some x \<Longrightarrow> x \<in> set (coupons db) \<and> (case given_nat (cp_limit x) of None \<Rightarrow> True | Some l \<Rightarrow> cp_used x < l)"
  shows "within_limits (count_use c db)"
proof (cases c)
  case (Some x)
  with assms(2) have x: "x \<in> set (coupons db)" "case given_nat (cp_limit x) of None \<Rightarrow> True | Some l \<Rightarrow> cp_used x < l" by auto
  from assms(1) have d: "distinct (map cp_id (coupons db))" by (simp add: within_limits_def)
  have eq: "y = x" if "y \<in> set (coupons db)" "cp_id y = cp_id x" for y
    using d x(1) that by (auto simp: distinct_map inj_on_def)
  have "case given_nat (cp_limit y) of None \<Rightarrow> True | Some l \<Rightarrow> cp_used (y\<lparr>cp_used := Suc (cp_used y)\<rparr>) \<le> l" if "y \<in> set (coupons db)" "cp_id y = cp_id x" for y
    using x(2) eq [OF that] by (simp split: option.splits)
  then show ?thesis using assms(1) Some
    by (auto simp: count_use_def within_limits_def set_update_where map_update_where)
qed (use assms(1) in \<open>simp add: count_use_def\<close>)

text \<open>Checkouts one after the other, of whatever carts, by whomever and whenever.\<close>

inductive checkouts :: "store_db \<Rightarrow> store_db \<Rightarrow> bool" where
  none: "checkouts db db"
| one_more: "checkouts db db1 \<Longrightarrow>
    create_order_from_cart e draw fv w given st ship bill q choice note db1 = Some (Inr (order, db2)) \<Longrightarrow> checkouts db db2"

lemma recorded_coupon:
  assumes "check_cart e fv w given st ship bill q choice db = Inr k" "ch_coupon k = Some c"
  shows "coupon_to_record e w (coupon_code q) (to_subtotal (ch_totals k)) (ct_customer (ch_cart k)) db = Inr (Some c)"
  using check_cart_Inr(7) [OF assms(1)] assms(2) by (simp split: if_splits)

lemma checkout_within:
  assumes "create_order_from_cart e draw fv w given st ship bill q choice note db = Some (Inr (order, db'))" "within_limits db"
  shows "within_limits db'"
proof -
  from checkout_checked [OF assms(1)] obtain k where k: "check_cart e fv w given st ship bill q choice db = Inr k" .
  have "within_limits (count_use (ch_coupon k) db)"
    using coupon_to_record_Some [OF recorded_coupon [OF k]] by (intro count_use_within [OF assms(2)]) blast
  then show ?thesis using checkout_tables(2) [OF assms(1) k] by (simp add: within_limits_def)
qed

lemma invoice_is_tried: "create_invoice_for_order e w order db \<noteq> None"
proof -
  obtain cur db1 where c: "order_currency_row w db = (cur, db1)" by fastforce
  have "generate_invoice_number w db1 \<noteq> None" using number_always [of w db1] .
  then have "create_invoice_from_order e w order cur db1 \<noteq> None" by (auto simp: create_invoice_from_order_def)
  then show ?thesis by (simp add: create_invoice_for_order_def c)
qed

text \<open>
  The code is looked up as it was typed for the discount, and without the blanks around it for the
  use: typed with a blank, it takes nothing off and is used up all the same.
\<close>

lemma padded_code_is_spent:
  assumes placed: "create_order_from_cart e draw fv w given st ship bill q choice note db = Some (Inr (order, db'))"
    and k: "check_cart e fv w given st ship bill q choice db = Inr k" and c: "ch_coupon k = Some c"
    and typed: "active_coupon db w (upper (coupon_code q)) = None"
  shows "to_coupon (ch_totals k) = 0 \<and> (\<exists>c' \<in> set (coupons db'). cp_id c' = cp_id c \<and> cp_used c' = cp_used c + 1)"
proof -
  have lines: "items_in_cart db (ct_id (ch_cart k)) \<noteq> []" using check_cart_Inr(1,5) [OF k] by simp
  have code: "coupon_code q \<noteq> []" using check_cart_Inr(7) [OF k] c by auto
  from totals_parts [OF check_cart_Inr(6) [OF k] lines] obtain d where
    d: "d = calculate_order_discount e w (map (order_item_of 0 0 (shop (fin db))) (items_in_cart db (ct_id (ch_cart k))))
      (to_subtotal (ch_totals k)) (coupon_code q) (gift_code q) (ct_customer (ch_cart k)) db" "to_coupon (ch_totals k) = oc_coupon d" by metis
  then have "to_coupon (ch_totals k) = 0" using code typed by (simp add: calculate_order_discount_def calculate_coupon_discount_def)
  moreover have "c \<in> set (coupons db)" using coupon_to_record_Some(1) [OF recorded_coupon [OF k c]] .
  then have "c\<lparr>cp_used := cp_used c + 1\<rparr> \<in> set (coupons db')"
    unfolding checkout_tables(2) [OF placed k] by (simp add: c count_use_def set_update_where)
  ultimately show ?thesis by (intro conjI bexI [of _ "c\<lparr>cp_used := cp_used c + 1\<rparr>"]) simp_all
qed

text \<open>The columns of an order are rounded one by one: half a cent off a price, and they do not add up.\<close>

lemma stored_order_does_not_add_up:
  "\<exists>r. od_total r = od_subtotal r + od_shipping r + od_tax r - od_discount r \<and>
     od_total (stored_order r) \<noteq> od_subtotal (stored_order r) + od_shipping (stored_order r) + od_tax (stored_order r) - od_discount (stored_order r)"
proof -
  let ?r = "(undefined :: order_row)\<lparr>od_subtotal := 1001 / 100, od_shipping := 0, od_tax := 0, od_discount := 1001 / 200, od_total := 1001 / 200\<rparr>"
  have "cents (1001 / 100) = 1001 / 100" "cents (1001 / 200) = 5" "cents 0 = 0"
    by (simp_all add: cents_def quantize_half_even_def round_half_even_def Let_def)
  then show ?thesis by (intro exI [of _ ?r]) (simp add: stored_order_def)
qed

lemma checkout_goes_through:
  assumes k: "check_cart e fv w given st ship bill q choice db = Inr k"
    and number: "order_head e @ draw n \<notin> set (map od_number (filter (\<lambda>r. od_workspace r = w) (orders (shop (fin db)))))"
    and customer: "ct_customer (ch_cart k) = Some customer" and due: "ch_card k = None \<or> cents (final_total k) \<noteq> 0"
  shows "\<exists>order db'. create_order_from_cart e draw fv w given st ship bill q choice note db = Some (Inr (order, db'))"
proof -
  obtain number where n: "generate_order_number e draw w db = Some number"
    using number_drawn [where draw = "\<lambda>k. order_head e @ draw k", OF number] by (auto simp: generate_order_number_def)
  let ?o = "order_from (fresh_id od_id (orders (shop (fin db)))) w st number q k customer ship note"
  let ?wr = "write_order ?o (freight_service_of db w (service_id q)) (items_in_cart db (ct_id (ch_cart k))) db"
  obtain held db1 where h: "hold_stock w ?o ?wr = (held, db1)" by fastforce
  let ?db2 = "spend (ch_card k) (count_use (ch_coupon k) (empty_cart (ct_id (ch_cart k)) db1))"
  obtain paper db3 where i: "create_invoice_for_order e w held ?db2 = Some (paper, db3)"
    using invoice_is_tried [of e w held ?db2] by fastforce
  have "od_id ?o \<notin> od_id ` set (orders (shop (fin db)))"
    unfolding order_from_def new_order_def Let_def order_row.select_convs by (rule fresh_id_notin)
  from held_amounts [OF h this] have t: "cents (od_total held) = cents (final_total k)"
    by (simp add: order_from_def new_order_def Let_def)
  have "od_total held \<noteq> 0 \<or> ch_card k = None"
  proof (rule ccontr)
    assume "\<not> (od_total held \<noteq> 0 \<or> ch_card k = None)"
    with due t have "cents (0 :: rat) \<noteq> 0" by auto
    then show False using cents_exact [OF on_grid_zero] by blast
  qed
  then have "settle_free_order e w held paper (ch_card k \<noteq> None) db3 = Inr db3" by (auto simp: settle_free_order_def)
  then show ?thesis by (simp add: create_order_from_cart_def k n customer h i Let_def bind_r_def)
qed

text \<open>A card that pays all of it marks the order as paid: only that can fail then.\<close>

lemma checkout_by_card:
  assumes k: "check_cart e fv w given st ship bill q choice db = Inr k"
    and number: "order_head e @ draw n \<notin> set (map od_number (filter (\<lambda>r. od_workspace r = w) (orders (shop (fin db)))))"
    and customer: "ct_customer (ch_cart k) = Some customer"
  shows "(\<exists>order db'. create_order_from_cart e draw fv w given st ship bill q choice note db = Some (Inr (order, db'))) \<or>
    (\<exists>err \<in> {Order_Missing, Listener_Failed}. create_order_from_cart e draw fv w given st ship bill q choice note db = Some (Inl err))"
proof -
  obtain number where n: "generate_order_number e draw w db = Some number"
    using number_drawn [where draw = "\<lambda>k. order_head e @ draw k", OF number] by (auto simp: generate_order_number_def)
  let ?o = "order_from (fresh_id od_id (orders (shop (fin db)))) w st number q k customer ship note"
  let ?wr = "write_order ?o (freight_service_of db w (service_id q)) (items_in_cart db (ct_id (ch_cart k))) db"
  obtain held db1 where h: "hold_stock w ?o ?wr = (held, db1)" by fastforce
  let ?db2 = "spend (ch_card k) (count_use (ch_coupon k) (empty_cart (ct_id (ch_cart k)) db1))"
  obtain paper db3 where i: "create_invoice_for_order e w held ?db2 = Some (paper, db3)"
    using invoice_is_tried [of e w held ?db2] by fastforce
  have run: "create_order_from_cart e draw fv w given st ship bill q choice note db =
      Some (bind_r (settle_free_order e w held paper (ch_card k \<noteq> None) db3) (\<lambda>db. Inr (held, announce_order held db)))"
    by (simp add: create_order_from_cart_def k n customer h i Let_def)
  have "(\<exists>db4. settle_free_order e w held paper (ch_card k \<noteq> None) db3 = Inr db4) \<or>
      (\<exists>err \<in> {Order_Missing, Listener_Failed}. settle_free_order e w held paper (ch_card k \<noteq> None) db3 = Inl err)"
    by (auto simp: settle_free_order_def Let_def split: sum.split option.split)
  then show ?thesis unfolding run by (auto simp: bind_r_def)
qed

subsection \<open>Properties\<close>

text \<open>
  C21: However many checkouts follow one another, no coupon is used more often than it may be.
\<close>

theorem coupon_limits_hold:
  assumes "checkouts db db'" "within_limits db"
  shows "\<forall>c \<in> set (coupons db'). case given_nat (cp_limit c) of None \<Rightarrow> True | Some l \<Rightarrow> cp_used c \<le> l"
proof -
  from assms have "within_limits db'"
    by (induction rule: checkouts.induct) (simp_all add: checkout_within)
  then show ?thesis by (simp add: within_limits_def)
qed

text \<open>
  C20: A checkout turns a cart into an order and nothing else: the order is a new one, its lines are those
  of the cart, at the prices of the cart and with its subtotals in whole cents; the cart is left
  empty and the other carts as they were; what is held of the stock is still no more than there is.
\<close>

theorem checkout_moves_the_cart:
  assumes "create_order_from_cart e draw fv w given st ship bill q choice note db = Some (Inr (order, db'))"
    and "sound (shop (fin db))" "items_have_orders (shop (fin db))"
  shows "od_id order \<notin> od_id ` set (orders (shop (fin db))) \<and>
    lines_in (shop (fin db')) (od_id order) =
      map (\<lambda>i. stored_line (order_item_of 0 (od_id order) (shop (fin db)) i)) (items_in_cart db (ct_id given)) \<and>
    lines_in (shop (fin db')) (od_id order) \<noteq> [] \<and>
    cart_items db' = filter (\<lambda>i. ci_cart i \<noteq> ct_id given) (cart_items db) \<and> sound (shop (fin db'))"
proof -
  note o = checkout_order_lines [OF assms]
  from checkout_checked [OF assms(1)] obtain k where k: "check_cart e fv w given st ship bill q choice db = Inr k" .
  have "od_id order \<notin> od_id ` set (orders (shop (fin db)))" unfolding o(1) by (rule fresh_id_notin)
  with o(2,3) checkout_tables(1) [OF assms(1) k] check_cart_Inr(5) [OF k] show ?thesis by (simp add: o_def)
qed

text \<open>
  C19: What is charged is never more than what was quoted for the cart, nor less than nothing. Without a
  gift card it is the quote; with one, the order and what the card pays make up the whole of the
  goods, the shipping and the tax less the coupon.
\<close>

theorem charged_no_more_than_quoted:
  assumes placed: "create_order_from_cart e draw fv w given st ship bill q choice note db = Some (Inr (order, db'))"
    and k: "check_cart e fv w given st ship bill q choice db = Inr k"
    and typed: "strip (gift_code q) = gift_code q" and "0 \<le> to_shipping (ch_totals k)" "0 \<le> to_tax (ch_totals k)"
  shows "let t = ch_totals k; paid = cents (od_total order) in 0 \<le> paid \<and> paid \<le> cents (to_total t) \<and>
    (case ch_card k of None \<Rightarrow> paid = cents (to_total t)
     | Some (g, amount) \<Rightarrow> 0 < amount \<and> amount \<le> gc_balance g \<and>
         final_total k + amount = to_subtotal t + to_shipping t + to_tax t - to_coupon t \<and> paid = cents (final_total k))"
proof -
  let ?t = "ch_totals k"
  note paid = checkout_amounts(1) [OF placed k]
  have lines: "items_in_cart db (ct_id (ch_cart k)) \<noteq> []" using check_cart_Inr(1,5) [OF k] by simp
  from totals_parts [OF check_cart_Inr(6) [OF k] lines] obtain d where
    d: "d = calculate_order_discount e w (map (order_item_of 0 0 (shop (fin db))) (items_in_cart db (ct_id (ch_cart k))))
      (to_subtotal ?t) (coupon_code q) (gift_code q) (ct_customer (ch_cart k)) db"
    and t: "to_coupon ?t = oc_coupon d" "to_discount ?t = (if 0 < oc_gift d then oc_discount d + oc_gift d else oc_discount d)"
      "to_total ?t = max (to_subtotal ?t + to_shipping ?t + to_tax ?t - to_discount ?t) 0" "oc_discount d = oc_coupon d" by metis
  show ?thesis
  proof (cases "ch_card k")
    case None
    then show ?thesis using paid t(3) cents_nonneg [of "to_total ?t"] by (simp add: final_total_def)
  next
    case (Some x)
    obtain g amount where x: "x = (g, amount)" by fastforce
    have card: "card_to_debit e w (gift_code q) ?t (ct_customer (ch_cart k)) db = Inr (Some (g, amount))"
      using check_cart_Inr(8) [OF k] Some x by simp
    note c = card_to_debit_Some [OF card]
    from c(1) have g: "active_gift_card db w (upper (gift_code q)) = Some g" by (simp add: typed)
    have "oc_gift d \<le> max (min (gc_balance g) (to_subtotal ?t - oc_coupon d)) 0"
      using gift_part [OF g] c(3) by (auto simp: d calculate_order_discount_def split: prod.splits)
    then have less: "oc_gift d \<le> amount" using c(2) assms(4,5) by (auto simp: c(4) t(1) min_def max_def split: if_splits)
    have ft: "final_total k = to_subtotal ?t + to_shipping ?t + to_tax ?t - to_coupon ?t - amount"
      using c(2,4) by (auto simp: final_total_def final_discount_def Some x Let_def min_def max_def split: if_splits)
    moreover have "0 \<le> final_total k" "final_total k \<le> to_total ?t"
      using less c(2) t ft by (auto simp: final_total_def Some x Let_def max_def split: if_splits)
    ultimately show ?thesis using c(2,4) paid cents_nonneg cents_mono by (auto simp: Some x Let_def)
  qed
qed

text \<open>
  C22: A cart of a customer that passes the checks is ordered, and empty then: neither too little stock nor an invoice that cannot be
  made stops it, as long as a free number is drawn. Two things may: the cart of a guest, whom the checks let through, is
  refused for want of a customer; and where a gift card pays all of it, the order is marked as paid at
  once, which can fail, in the listener of its invoice above all.
\<close>

theorem checked_cart_is_ordered:
  assumes k: "check_cart e fv w given st ship bill q choice db = Inr k"
    and number: "order_head e @ draw n \<notin> set (map od_number (filter (\<lambda>r. od_workspace r = w) (orders (shop (fin db)))))"
  shows "case ct_customer (ch_cart k) of
      None \<Rightarrow> create_order_from_cart e draw fv w given st ship bill q choice note db = Some (Inl Customer_Missing)
    | Some customer \<Rightarrow> (\<exists>order db'. create_order_from_cart e draw fv w given st ship bill q choice note db = Some (Inr (order, db')) \<and>
          items_in_cart db' (ct_id given) = []) \<or>
        ch_card k \<noteq> None \<and> cents (final_total k) = 0 \<and>
          (\<exists>err \<in> {Order_Missing, Listener_Failed}. create_order_from_cart e draw fv w given st ship bill q choice note db = Some (Inl err))"
proof (cases "ct_customer (ch_cart k)")
  case None
  have "generate_order_number e draw w db \<noteq> None"
    using number_drawn [where draw = "\<lambda>k. order_head e @ draw k", OF number] by (auto simp: generate_order_number_def)
  then show ?thesis using None k by (auto simp: create_order_from_cart_def)
next
  case (Some customer)
  have "items_in_cart db' (ct_id given) = []"
    if "create_order_from_cart e draw fv w given st ship bill q choice note db = Some (Inr (order, db'))" for order db'
    using checkout_tables(1) [OF that k] by (simp add: items_in_cart_def filter_empty_conv)
  moreover have "(\<exists>order db'. create_order_from_cart e draw fv w given st ship bill q choice note db = Some (Inr (order, db'))) \<or>
      ch_card k \<noteq> None \<and> cents (final_total k) = 0 \<and>
        (\<exists>err \<in> {Order_Missing, Listener_Failed}. create_order_from_cart e draw fv w given st ship bill q choice note db = Some (Inl err))"
  proof (cases "ch_card k = None \<or> cents (final_total k) \<noteq> 0")
    case True
    from checkout_goes_through [where draw = draw, OF k number Some True] show ?thesis by (rule disjI1)
  next
    case False
    then have "ch_card k \<noteq> None" "cents (final_total k) = 0" by simp_all
    with checkout_by_card [where draw = draw, OF k number Some, of "note"] show ?thesis by (elim disjE) (simp_all only: simp_thms)
  qed
  ultimately show ?thesis unfolding Some option.case by blast
qed

end
