(* ===== verification/Direct_Orders.thy ===== *)
theory Direct_Orders
  imports Checkout_Orders
begin

text \<open>
  Placing an order without a cart (\<open>OrderService.create_order\<close>): staff or an agent says what is wanted,
  or what it comes to. A quantity is the integer \<open>int\<close> reads and an amount the number \<open>Decimal\<close> reads;
  the texts the caller adds, beside the note of the staff, are left out. Nothing is held of the
  stock, and no invoice is made.
\<close>

record wanted =
  wi_product :: nat
  wi_variant :: "nat option"
  wi_quantity :: int

record amounts =
  am_subtotal :: rat
  am_shipping :: rat
  am_tax :: rat
  am_discount :: rat

definition catalogue_price :: "product \<Rightarrow> variant option \<Rightarrow> rat" where
  "catalogue_price p v = (case v of None \<Rightarrow> pd_price p | Some x \<Rightarrow> (case va_price x of None \<Rightarrow> pd_price p | Some c \<Rightarrow> c))"

definition direct_item :: "product \<Rightarrow> variant option \<Rightarrow> int \<Rightarrow> order_item" where
  "direct_item p v n = \<lparr>oi_id = 0, oi_order = 0, oi_product = pd_id p, oi_variant = map_option va_id v, oi_product_name = pd_name p,
     oi_variant_name = (case v of None \<Rightarrow> '''' | Some x \<Rightarrow> va_name x), oi_sku = (case v of None \<Rightarrow> pd_sku p | Some x \<Rightarrow> va_sku x),
     oi_quantity = n, oi_price = catalogue_price p v, oi_subtotal = catalogue_price p v * of_int n\<rparr>"

definition prepare_item :: "nat \<Rightarrow> shop_db \<Rightarrow> wanted \<Rightarrow> checkout_error + order_item" where
  "prepare_item w sh i = (case product_in sh w (wi_product i) of None \<Rightarrow> Inl Product_Unknown
     | Some p \<Rightarrow> if wi_quantity i \<le> 0 \<or> 10000 < wi_quantity i then Inl Bad_Quantity
       else case given_nat (wi_variant i) of None \<Rightarrow> Inr (direct_item p None (wi_quantity i))
         | Some v \<Rightarrow> (case variant_in sh (pd_id p) v of None \<Rightarrow> Inl Product_Unknown
             | Some x \<Rightarrow> Inr (direct_item p (Some x) (wi_quantity i))))"

fun prepare_items :: "nat \<Rightarrow> shop_db \<Rightarrow> wanted list \<Rightarrow> checkout_error + order_item list" where
  "prepare_items w sh [] = Inr []"
| "prepare_items w sh (i # is) = bind_r (prepare_item w sh i) (\<lambda>x. bind_r (prepare_items w sh is) (\<lambda>xs. Inr (x # xs)))"

text \<open>The goods and what they come to: those wanted, or the subtotal the caller gives.\<close>

definition goods :: "nat \<Rightarrow> shop_db \<Rightarrow> wanted list \<Rightarrow> amounts \<Rightarrow> checkout_error + (order_item list \<times> rat)" where
  "goods w sh wants a = (if wants = [] then Inr ([], am_subtotal a)
     else bind_r (prepare_items w sh wants) (\<lambda>xs. Inr (xs, \<Sum>i\<leftarrow>xs. oi_subtotal i)))"

definition amounts_refused :: "rat \<Rightarrow> amounts \<Rightarrow> checkout_error option" where
  "amounts_refused subtotal a =
    (if min (min subtotal (am_shipping a)) (min (am_tax a) (am_discount a)) < 0 then Some Negative_Amount
     else if subtotal + am_shipping a + am_tax a < am_discount a then Some Discount_Too_High else None)"

definition check_direct :: "nat \<Rightarrow> customer \<Rightarrow> store \<Rightarrow> address option \<Rightarrow> address option \<Rightarrow> string \<Rightarrow> point_choice \<Rightarrow> wanted list \<Rightarrow> amounts \<Rightarrow> store_db
    \<Rightarrow> checkout_error + (pickup_point option \<times> order_item list \<times> rat)" where
  "check_direct w customer st ship bill method choice wants a db =
    (if cu_workspace customer \<noteq> w \<or> st_workspace st \<noteq> w then Inl Other_Workspace
     else if method = ''shipping'' \<and> ship = None then Inl Address_Required
     else bind_r (resolve_pickup_point w method choice db) (\<lambda>point.
       let bill = (case bill of None \<Rightarrow> ship | Some x \<Rightarrow> Some x) in
       bind_r (address_fits w (Some (cu_id customer)) ship) (\<lambda>_. bind_r (address_fits w (Some (cu_id customer)) bill) (\<lambda>_.
       bind_r (goods w (shop (fin db)) wants a) (\<lambda>(xs, subtotal).
         case amounts_refused subtotal a of Some err \<Rightarrow> Inl err | None \<Rightarrow> Inr (point, xs, subtotal))))))"

definition direct_order :: "nat \<Rightarrow> nat \<Rightarrow> customer \<Rightarrow> store \<Rightarrow> string \<Rightarrow> string \<Rightarrow> pickup_point option \<Rightarrow> rat \<Rightarrow> amounts \<Rightarrow> address option \<Rightarrow> address option \<Rightarrow> string
    \<Rightarrow> order_row" where
  "direct_order i w customer st number method point subtotal a ship bill note =
     new_order i w (cu_id customer) st number method point subtotal (am_shipping a) (am_tax a) (am_discount a)
       (subtotal + am_shipping a + am_tax a - am_discount a) None ship (case bill of None \<Rightarrow> ship | Some x \<Rightarrow> Some x) note"

definition create_order :: "env \<Rightarrow> (nat \<Rightarrow> string) \<Rightarrow> nat \<Rightarrow> customer \<Rightarrow> store \<Rightarrow> address option \<Rightarrow> address option \<Rightarrow> string \<Rightarrow> point_choice \<Rightarrow> wanted list
    \<Rightarrow> amounts \<Rightarrow> string \<Rightarrow> store_db \<Rightarrow> (checkout_error + (order_row \<times> store_db)) option" where
  "create_order e draw w customer st ship bill method choice wants a note db =
    (case check_direct w customer st ship bill method choice wants a db of Inl err \<Rightarrow> Some (Inl err)
     | Inr (point, xs, subtotal) \<Rightarrow> map_option (\<lambda>number.
         let order = direct_order (fresh_id od_id (orders (shop (fin db)))) w customer st number method point subtotal a ship bill note in
         Inr (order, in_shop (\<lambda>sh. emit ''order.created'' (od_id order)
           (add_items (map (\<lambda>x. x\<lparr>oi_order := od_id order\<rparr>) xs) (insert_order order sh))) db))
       (generate_order_number e draw w db))"

subsection \<open>What is prepared\<close>

lemma prepared_item: "prepare_item w sh i = Inr x \<Longrightarrow>
    oi_product x = wi_product i \<and> oi_quantity x = wi_quantity i \<and> 1 \<le> wi_quantity i \<and> wi_quantity i \<le> 10000 \<and>
    oi_subtotal x = oi_price x * of_int (oi_quantity x) \<and> (\<exists>p \<in> set (products sh). pd_id p = wi_product i \<and> pd_workspace p = w)"
  by (auto simp: prepare_item_def direct_item_def product_in_def dest!: first_filter_SomeD split: option.splits if_splits)

lemma prepared_items: "prepare_items w sh wants = Inr xs \<Longrightarrow>
    list_all2 (\<lambda>i x. oi_product x = wi_product i \<and> oi_quantity x = wi_quantity i \<and> 1 \<le> wi_quantity i \<and> wi_quantity i \<le> 10000 \<and>
      oi_subtotal x = oi_price x * of_int (oi_quantity x) \<and> (\<exists>p \<in> set (products sh). pd_id p = wi_product i \<and> pd_workspace p = w)) wants xs"
proof (induction wants arbitrary: xs)
  case (Cons i wants)
  then obtain x ys where "prepare_item w sh i = Inr x" "prepare_items w sh wants = Inr ys" "xs = x # ys" by (auto simp: bind_r_Inr)
  with Cons.IH prepared_item [of w sh i x] show ?case by simp
qed simp

lemma check_direct_Inr:
  assumes "check_direct w customer st ship bill method choice wants a db = Inr (point, xs, subtotal)"
  shows "goods w (shop (fin db)) wants a = Inr (xs, subtotal)" "amounts_refused subtotal a = None"
    "cu_workspace customer = w" "st_workspace st = w"
  using assms by (auto simp: check_direct_def bind_r_Inr Let_def split: if_splits option.splits)

lemma goods_cost: "goods w sh wants a = Inr (xs, subtotal) \<Longrightarrow> subtotal = (if wants = [] then am_subtotal a else \<Sum>i\<leftarrow>xs. oi_subtotal i)"
  by (auto simp: goods_def bind_r_Inr split: if_splits)

subsection \<open>Properties\<close>

text \<open>
  An order placed without a cart is for what was asked and adds up: each thing wanted is a line of a
  product of the workspace, between one and ten thousand pieces at the price of the catalogue; the
  total is the goods, the shipping and the tax less the discount, and none of them is negative.
\<close>

theorem direct_order_adds_up:
  assumes placed: "create_order e draw w customer st ship bill method choice wants a note db = Some (Inr (order, db'))"
    and items: "items_have_orders (shop (fin db))" "wants \<noteq> []"
  shows "od_total order = od_subtotal order + od_shipping order + od_tax order - od_discount order \<and>
    0 \<le> od_total order \<and> 0 \<le> od_discount order \<and> 0 \<le> od_subtotal order \<and> od_id order \<notin> od_id ` set (orders (shop (fin db))) \<and>
    (\<exists>xs. od_subtotal order = (\<Sum>x\<leftarrow>xs. oi_price x * of_int (oi_quantity x)) \<and>
       lines_in (shop (fin db')) (od_id order) = map (\<lambda>x. stored_line (x\<lparr>oi_order := od_id order\<rparr>)) xs \<and>
       list_all2 (\<lambda>i x. oi_product x = wi_product i \<and> oi_quantity x = wi_quantity i \<and> 1 \<le> wi_quantity i \<and> wi_quantity i \<le> 10000 \<and>
         (\<exists>p \<in> set (products (shop (fin db))). pd_id p = wi_product i \<and> pd_workspace p = w)) wants xs)"
proof -
  from placed obtain point xs subtotal number where c: "check_direct w customer st ship bill method choice wants a db = Inr (point, xs, subtotal)"
    and o': "order = direct_order (fresh_id od_id (orders (shop (fin db)))) w customer st number method point subtotal a ship bill note"
    and d: "db' = in_shop (\<lambda>sh. emit ''order.created'' (od_id order)
        (add_items (map (\<lambda>x. x\<lparr>oi_order := od_id order\<rparr>) xs) (insert_order order sh))) db"
    by (auto simp: create_order_def Let_def split: sum.splits)
  note ok = check_direct_Inr [OF c]
  have am: "od_subtotal order = subtotal" "od_total order = subtotal + am_shipping a + am_tax a - am_discount a"
    "od_shipping order = am_shipping a" "od_tax order = am_tax a" "od_discount order = am_discount a"
    "od_id order = fresh_id od_id (orders (shop (fin db)))"
    by (simp_all add: o' direct_order_def new_order_def)
  have new: "od_id order \<notin> od_id ` set (orders (shop (fin db)))" unfolding am(6) by (rule fresh_id_notin)
  from ok(2) have pos: "0 \<le> subtotal" "0 \<le> am_discount a" "am_discount a \<le> subtotal + am_shipping a + am_tax a"
    by (simp_all add: amounts_refused_def not_less split: if_splits)
  from ok(1) items(2) have p: "prepare_items w (shop (fin db)) wants = Inr xs" by (auto simp: goods_def bind_r_Inr)
  note rows = prepared_items [OF p]
  have "\<forall>x \<in> set xs. oi_subtotal x = oi_price x * of_int (oi_quantity x)"
    using rows by (auto simp: list_all2_conv_all_nth in_set_conv_nth)
  then have "subtotal = (\<Sum>x\<leftarrow>xs. oi_price x * of_int (oi_quantity x))"
    using goods_cost [OF ok(1)] items(2) by (simp cong: map_cong)
  moreover have "lines_in (shop (fin db')) (od_id order) = map (\<lambda>x. stored_line (x\<lparr>oi_order := od_id order\<rparr>)) xs"
  proof -
    have "lines_in (shop (fin db')) (od_id order) =
        lines_in (add_items (map (\<lambda>x. x\<lparr>oi_order := od_id order\<rparr>) xs) (insert_order order (shop (fin db)))) (od_id order)"
      by (rule lines_in_frame) (simp add: d emit_def)
    then show ?thesis using lines_of_new [OF new items(1)] by (simp add: lines_in_add_items filter_map o_def)
  qed
  ultimately show ?thesis using pos new am list_all2_mono [OF rows] by auto
qed

end
