(* ===== verification/Wallets.thy ===== *)
theory Wallets
  imports Store_Data
begin

text \<open>
  Wallets (\<open>finance/services/wallet_service.py\<close>): a wallet of cash and credit per customer of a
  workspace, and the transactions that move them. A transaction is recorded on the wallet as the
  caller holds it, without a lock.
\<close>

datatype wallet_error = Wrong_Owner | No_Currency | Bad_Balance_Type | Insufficient_Funds

definition pick_currency :: "store_db \<Rightarrow> nat \<Rightarrow> currency option" where
  "pick_currency db w = (let all = sort_key cur_code (currencies (base (fin db))) in
     case first (filter (\<lambda>c. cur_code c = get_default_currency_for_workspace (workspace_by_id (base (fin db)) w)) all) of
       Some c \<Rightarrow> Some c | None \<Rightarrow> first all)"

definition wallet_of :: "store_db \<Rightarrow> nat \<Rightarrow> nat \<Rightarrow> wallet option" where
  "wallet_of db w customer = first (filter (\<lambda>x. wl_workspace x = w \<and> wl_customer x = customer) (wallets db))"

definition get_or_create_wallet :: "nat \<Rightarrow> customer \<Rightarrow> currency option \<Rightarrow> store_db \<Rightarrow> wallet_error + (wallet \<times> store_db)" where
  "get_or_create_wallet w customer cur db = (if cu_workspace customer \<noteq> w then Inl Wrong_Owner
     else case (case cur of Some c \<Rightarrow> Some c | None \<Rightarrow> pick_currency db w) of None \<Rightarrow> Inl No_Currency
     | Some c \<Rightarrow> (case wallet_of db w (cu_id customer) of Some x \<Rightarrow> Inr (x, db)
       | None \<Rightarrow> let x = \<lparr>wl_id = fresh_id wl_id (wallets db), wl_workspace = w, wl_customer = cu_id customer, wl_cash = 0, wl_credit = 0,
            wl_currency = cur_id c, wl_limit = 0\<rparr> in Inr (x, db\<lparr>wallets := wallets db @ [x]\<rparr>)))"

definition balance_of :: "bool \<Rightarrow> wallet \<Rightarrow> rat" where
  "balance_of cash x = (if cash then wl_cash x else wl_credit x)"

definition move :: "bool \<Rightarrow> rat \<Rightarrow> wallet \<Rightarrow> wallet" where
  "move cash new x = (if cash then x\<lparr>wl_cash := new\<rparr> else x\<lparr>wl_credit := new\<rparr>)"

text \<open>Only the column of the balance is written, with what the caller's wallet comes to.\<close>

definition record_wallet_transaction :: "nat \<Rightarrow> wallet \<Rightarrow> rat \<Rightarrow> string \<Rightarrow> string \<Rightarrow> string \<Rightarrow> nat option \<Rightarrow> string \<Rightarrow> nat option \<Rightarrow> store_db
    \<Rightarrow> wallet_error + (wallet_row \<times> wallet \<times> store_db)" where
  "record_wallet_transaction w given amount balance_type type source source_id description user db =
    (if wl_workspace given \<noteq> w then Inl Wrong_Owner
     else if balance_type \<notin> {''cash'', ''credit''} then Inl Bad_Balance_Type
     else let cash = (balance_type = ''cash''); new = balance_of cash given + amount in
       if amount < 0 \<and> new < 0 then Inl Insufficient_Funds
       else let r = \<lparr>wt_wallet = wl_id given, wt_customer = wl_customer given, wt_type = type, wt_amount = cents amount,
            wt_currency = wl_currency given, wt_cash = cash, wt_source = source, wt_source_id = source_id,
            wt_description = or_else description type, wt_by = user\<rparr>
         in Inr (r, move cash new given, db\<lparr>wallet_rows := wallet_rows db @ [r],
              wallets := update_where (\<lambda>x. wl_id x = wl_id given) (move cash (cents new)) (wallets db)\<rparr>))"

subsection \<open>What a wallet holds\<close>

definition moved :: "store_db \<Rightarrow> nat \<Rightarrow> bool \<Rightarrow> rat" where
  "moved db i cash = (\<Sum>r\<leftarrow>filter (\<lambda>r. wt_wallet r = i \<and> wt_cash r = cash) (wallet_rows db). wt_amount r)"

definition wallets_ok :: "store_db \<Rightarrow> bool" where
  "wallets_ok db \<longleftrightarrow> distinct (map wl_id (wallets db)) \<and> distinct (map (\<lambda>x. (wl_workspace x, wl_customer x)) (wallets db)) \<and>
     (\<forall>x \<in> set (wallets db). \<forall>cash. 0 \<le> balance_of cash x \<and> on_grid 2 (balance_of cash x) \<and> moved db (wl_id x) cash = balance_of cash x) \<and>
     (\<forall>r \<in> set (wallet_rows db). \<exists>x \<in> set (wallets db). wl_id x = wt_wallet r)"

text \<open>A call on the wallet as it is stored then, of whole cents.\<close>

inductive wallet_step :: "store_db \<Rightarrow> store_db \<Rightarrow> bool" where
  opened: "get_or_create_wallet w customer cur db = Inr (x, db') \<Longrightarrow> wallet_step db db'"
| recorded: "x \<in> set (wallets db) \<Longrightarrow> on_grid 2 amount \<Longrightarrow>
    record_wallet_transaction w x amount balance_type type source source_id description user db = Inr (r, x', db') \<Longrightarrow> wallet_step db db'"

inductive_cases wallet_stepE: "wallet_step db db'"

lemma balance_of_move: "balance_of c (move cash new x) = (if c = cash then new else balance_of c x)"
  "wl_id (move cash new x) = wl_id x" "wl_workspace (move cash new x) = wl_workspace x" "wl_customer (move cash new x) = wl_customer x"
  by (auto simp: balance_of_def move_def)

lemma moved_append: "wallet_rows db' = wallet_rows db @ [r] \<Longrightarrow>
    moved db' i cash = moved db i cash + (if wt_wallet r = i \<and> wt_cash r = cash then wt_amount r else 0)"
  by (simp add: moved_def)

lemma wallets_ok_none: "wallets_ok db \<Longrightarrow> i \<notin> wl_id ` set (wallets db) \<Longrightarrow> moved db i cash = 0"
proof -
  assume "wallets_ok db" "i \<notin> wl_id ` set (wallets db)"
  then have "filter (\<lambda>r. wt_wallet r = i \<and> wt_cash r = cash) (wallet_rows db) = []"
    unfolding wallets_ok_def filter_empty_conv by (metis image_eqI)
  then show ?thesis by (simp add: moved_def)
qed

lemma wallets_okD: "wallets_ok db \<Longrightarrow> x \<in> set (wallets db) \<Longrightarrow>
    0 \<le> balance_of cash x \<and> on_grid 2 (balance_of cash x) \<and> moved db (wl_id x) cash = balance_of cash x"
  unfolding wallets_ok_def by blast

lemma opened_ok:
  assumes "get_or_create_wallet w customer cur db = Inr (x, db')" "wallets_ok db"
  shows "wallets_ok db'"
proof (cases "wallet_of db w (cu_id customer)")
  case None
  with assms(1) have x: "x = \<lparr>wl_id = fresh_id wl_id (wallets db), wl_workspace = w, wl_customer = cu_id customer, wl_cash = 0, wl_credit = 0,
      wl_currency = wl_currency x, wl_limit = 0\<rparr>" and db': "db' = db\<lparr>wallets := wallets db @ [x]\<rparr>"
    by (auto simp: get_or_create_wallet_def Let_def split: if_splits option.splits)
  have i: "wl_id x = fresh_id wl_id (wallets db)" "wl_workspace x = w" "wl_customer x = cu_id customer" by (subst x, simp)+
  then have new: "wl_id x \<notin> wl_id ` set (wallets db)" using fresh_id_notin by auto
  have "(w, cu_id customer) \<notin> (\<lambda>x. (wl_workspace x, wl_customer x)) ` set (wallets db)"
    using None by (auto simp: wallet_of_def filter_empty_conv)
  moreover have "balance_of cash x = 0" for cash by (subst x) (simp add: balance_of_def)
  moreover have "moved db' i cash = moved db i cash" for i cash by (simp add: moved_def db')
  moreover have "wallets db' = wallets db @ [x]" "wallet_rows db' = wallet_rows db" by (simp_all add: db')
  ultimately show ?thesis using assms(2) new wallets_ok_none [OF assms(2) new] i(2,3)
    unfolding wallets_ok_def by (simp add: ball_Un)
next
  case (Some y)
  with assms show ?thesis by (auto simp: get_or_create_wallet_def split: if_splits option.splits)
qed

lemma recorded_effect:
  assumes "record_wallet_transaction w given amount balance_type type source source_id description user db = Inr (r, x', db')"
  obtains cash where "balance_type = (if cash then ''cash'' else ''credit'')" "wallet_rows db' = wallet_rows db @ [r]"
    "wallets db' = update_where (\<lambda>x. wl_id x = wl_id given) (move cash (cents (balance_of cash given + amount))) (wallets db)"
    "wt_wallet r = wl_id given" "wt_cash r = cash" "wt_amount r = cents amount" "0 \<le> amount \<or> 0 \<le> balance_of cash given + amount"
    "x' = move cash (balance_of cash given + amount) given"
  using assms that [of "balance_type = ''cash''"]
  by (auto simp: record_wallet_transaction_def Let_def split: if_splits)

lemma recorded_cash:
  assumes "record_wallet_transaction w given amount ''cash'' type source source_id description user db = Inr (r, x', db')"
  shows "wallet_rows db' = wallet_rows db @ [r]" "wt_wallet r = wl_id given" "wt_cash r" "wt_amount r = cents amount"
    "wallets db' = update_where (\<lambda>x. wl_id x = wl_id given) (move True (cents (wl_cash given + amount))) (wallets db)"
  using assms by (auto simp: record_wallet_transaction_def Let_def balance_of_def split: if_splits)

lemma recorded_ok:
  assumes rec: "record_wallet_transaction w x amount balance_type type source source_id description user db = Inr (r, x', db')"
    and ok: "wallets_ok db" and x: "x \<in> set (wallets db)" and grid: "on_grid 2 amount"
  shows "wallets_ok db'"
proof -
  from recorded_effect [OF rec] obtain cash where rw: "wallet_rows db' = wallet_rows db @ [r]"
    and wl: "wallets db' = update_where (\<lambda>y. wl_id y = wl_id x) (move cash (cents (balance_of cash x + amount))) (wallets db)"
    and r: "wt_wallet r = wl_id x" "wt_cash r = cash" "wt_amount r = cents amount" and pos: "0 \<le> amount \<or> 0 \<le> balance_of cash x + amount" .
  from wallets_okD [OF ok x] have b: "0 \<le> balance_of cash x" "on_grid 2 (balance_of cash x)" by blast+
  with grid have new: "cents (balance_of cash x + amount) = balance_of cash x + amount" "on_grid 2 (balance_of cash x + amount)"
    by (simp_all add: cents_exact on_grid_add)
  have a: "cents amount = amount" using grid by (rule cents_exact)
  have same: "y = x" if "y \<in> set (wallets db)" "wl_id y = wl_id x" for y
    using ok x that by (auto simp: wallets_ok_def distinct_map inj_on_def)
  have "0 \<le> balance_of c y' \<and> on_grid 2 (balance_of c y') \<and> moved db' (wl_id y') c = balance_of c y'" if y': "y' \<in> set (wallets db')" for y' c
  proof -
    from y' obtain y where y: "y \<in> set (wallets db)" "y' = (if wl_id y = wl_id x then move cash (balance_of cash x + amount) y else y)"
      by (auto simp: wl set_update_where new)
    have yok: "0 \<le> balance_of c y \<and> on_grid 2 (balance_of c y) \<and> moved db (wl_id y) c = balance_of c y" by (rule wallets_okD [OF ok y(1)])
    show ?thesis
    proof (cases "wl_id y = wl_id x")
      case True
      with same y have "y = x" by simp
      with y(2) yok b new pos a r show ?thesis by (auto simp: balance_of_move moved_append [OF rw])
    next
      case False
      then have "moved db' (wl_id y) c = moved db (wl_id y) c" using r(1) by (simp add: moved_append [OF rw])
      with False y(2) yok show ?thesis by metis
    qed
  qed
  moreover have "map wl_id (wallets db') = map wl_id (wallets db)" "map (\<lambda>x. (wl_workspace x, wl_customer x)) (wallets db') = map (\<lambda>x. (wl_workspace x, wl_customer x)) (wallets db)"
    by (simp_all add: wl map_update_where balance_of_move)
  moreover from this(1) have "wl_id ` set (wallets db') = wl_id ` set (wallets db)" by (metis list.set_map)
  ultimately have ids: "wl_id ` set (wallets db') = wl_id ` set (wallets db)" "distinct (map wl_id (wallets db'))"
    "distinct (map (\<lambda>x. (wl_workspace x, wl_customer x)) (wallets db'))"
    and bal: "\<forall>x \<in> set (wallets db'). \<forall>c. 0 \<le> balance_of c x \<and> on_grid 2 (balance_of c x) \<and> moved db' (wl_id x) c = balance_of c x"
    using ok by (simp_all add: wallets_ok_def)
  have "\<forall>q \<in> set (wallet_rows db). wt_wallet q \<in> wl_id ` set (wallets db)" using ok unfolding wallets_ok_def by (metis image_eqI)
  then have "\<forall>q \<in> set (wallet_rows db'). wt_wallet q \<in> wl_id ` set (wallets db')" using r(1) x by (simp add: rw ids(1))
  then have "\<forall>q \<in> set (wallet_rows db'). \<exists>y \<in> set (wallets db'). wl_id y = wt_wallet q" by (metis imageE)
  with ids(2,3) bal show ?thesis unfolding wallets_ok_def by blast
qed

interpretation wallet_machine: state_machine wallet_step wallets_ok
  by unfold_locales (auto elim!: wallet_stepE intro: opened_ok recorded_ok)

subsection \<open>Properties\<close>

text \<open>
  C40: No run of openings and transactions overdraws a wallet, as long as each transaction is on the wallet as it is
  stored at that moment and of whole cents: both balances stay at least zero, are the sums of their transactions, a customer
  has one wallet in a workspace, and what would take a balance below zero is refused. Without a fresh
  reading the sums do not hold (the lemma below).
\<close>

theorem wallets_never_overdrawn:
  assumes "wallet_step\<^sup>*\<^sup>* db db'" "wallets_ok db"
  shows "wallets_ok db' \<and> (\<forall>x \<in> set (wallets db'). 0 \<le> wl_cash x \<and> 0 \<le> wl_credit x \<and>
    wl_cash x = moved db' (wl_id x) True \<and> wl_credit x = moved db' (wl_id x) False \<and>
    wallet_of db' (wl_workspace x) (wl_customer x) = Some x \<and>
    (\<forall>cash amount type source source_id description user. amount < 0 \<longrightarrow> (if cash then wl_cash x else wl_credit x) + amount < 0 \<longrightarrow>
       record_wallet_transaction (wl_workspace x) x amount (if cash then ''cash'' else ''credit'') type source source_id description user db'
         = Inl Insufficient_Funds))"
proof -
  have refused: "\<forall>cash amount type source source_id description user. amount < 0 \<longrightarrow> (if cash then wl_cash x else wl_credit x) + amount < 0 \<longrightarrow>
      record_wallet_transaction (wl_workspace x) x amount (if cash then ''cash'' else ''credit'') type source source_id description user db'
        = Inl Insufficient_Funds" for x
    by (simp add: record_wallet_transaction_def balance_of_def Let_def)
  have ok: "wallets_ok db'" using wallet_machine.reachable_inv [OF assms] .
  have one: "wallet_of db' (wl_workspace x) (wl_customer x) = Some x" if x: "x \<in> set (wallets db')" for x
  proof -
    from x have "wallet_of db' (wl_workspace x) (wl_customer x) \<noteq> None" by (auto simp: wallet_of_def filter_empty_conv)
    then obtain y where y: "wallet_of db' (wl_workspace x) (wl_customer x) = Some y" by blast
    then have "y \<in> set (wallets db') \<and> (wl_workspace y, wl_customer y) = (wl_workspace x, wl_customer x)"
      by (auto simp: wallet_of_def dest: first_filter_SomeD)
    with ok x have "y = x" by (auto simp: wallets_ok_def distinct_map inj_on_def)
    with y show ?thesis by simp
  qed
  have "0 \<le> wl_cash x \<and> 0 \<le> wl_credit x \<and> wl_cash x = moved db' (wl_id x) True \<and> wl_credit x = moved db' (wl_id x) False"
    if "x \<in> set (wallets db')" for x
    using wallets_okD [OF ok that, of True] wallets_okD [OF ok that, of False] by (simp add: balance_of_def)
  with ok one refused show ?thesis by blast
qed

text \<open>
  Two transactions on the same reading of a wallet: the second is written over the first, which is
  lost from the balance although its row stays.
\<close>

lemma stale_wallet_loses_a_transaction:
  assumes one: "record_wallet_transaction w x a ''cash'' type source source_id description user db = Inr (r1, x1, db1)"
    and two: "record_wallet_transaction w x b ''cash'' type source source_id description user db1 = Inr (r2, x2, db2)"
    and x: "x \<in> set (wallets db)" and ok: "wallets_ok db" and grid: "on_grid 2 a" "on_grid 2 b"
  shows "moved db2 (wl_id x) True = wl_cash x + a + b \<and> (\<exists>y \<in> set (wallets db2). wl_id y = wl_id x \<and> wl_cash y = wl_cash x + b)"
proof -
  note r1 = recorded_cash [OF one] and r2 = recorded_cash [OF two]
  have b: "on_grid 2 (wl_cash x)" "wl_cash x = moved db (wl_id x) True"
    using wallets_okD [OF ok x, of True] unfolding balance_of_def by (simp_all only: if_True)
  have "moved db2 (wl_id x) True = wl_cash x + a + b"
    using r1 r2 b(2) grid by (simp add: moved_append [OF r2(1)] moved_append [OF r1(1)] cents_exact)
  moreover have "move True (cents (wl_cash x + b)) (move True (cents (wl_cash x + a)) x) \<in> set (wallets db2)"
    using x by (force simp: r1(5) r2(5) set_update_where balance_of_move)
  moreover have "cents (wl_cash x + b) = wl_cash x + b" using b(1) grid by (simp add: cents_exact on_grid_add)
  moreover have "wl_id (move True p (move True q x)) = wl_id x" "wl_cash (move True p (move True q x)) = p" for p q by (simp_all add: move_def)
  ultimately show ?thesis by metis
qed

end
