(* ===== verification/Carts.thy ===== *)
theory Carts
  imports Conditions
begin

text \<open>
  Carts (\<open>shop/services/cart_service.py\<close>) and what a shop tells its visitors of its stock
  (\<open>shop/services/storefront_display_service.py\<close>).

  A quantity is an unsigned column of 32 bits: saving another value raises. A call that raises
  leaves nothing behind.
\<close>

subsection \<open>What the storefront shows\<close>

definition SKU_DISPLAY_CHOICES :: "string list" where
  "SKU_DISPLAY_CHOICES = [''hidden'', ''plain'', ''full'']"

definition STOCK_DISPLAY_CHOICES :: "string list" where
  "STOCK_DISPLAY_CHOICES = [''hidden'', ''status'', ''low_only'', ''exact'']"

definition OUT_OF_STOCK_POLICY_CHOICES :: "string list" where
  "OUT_OF_STOCK_POLICY_CHOICES = [''hide'', ''show'', ''notify'', ''backorder'']"

record display =
  sku_display :: string
  stock_display :: string
  out_of_stock_policy :: string

definition display_defaults :: display where
  "display_defaults = \<lparr>sku_display = ''plain'', stock_display = ''status'', out_of_stock_policy = ''show''\<rparr>"

text \<open>Following the path through objects; nothing when something on it is not one.\<close>

fun node_at :: "string list \<Rightarrow> json \<Rightarrow> (string \<times> json) list option" where
  "node_at [] j = (case j of J_Obj kvs \<Rightarrow> Some kvs | _ \<Rightarrow> None)"
| "node_at (k # ks) j = (case j of J_Obj kvs \<Rightarrow> node_at ks (lookup kvs k (J_Obj [])) | _ \<Rightarrow> None)"

definition chosen :: "(string \<times> json) list \<Rightarrow> string \<Rightarrow> string list \<Rightarrow> string \<Rightarrow> string" where
  "chosen kvs k choices fallback = (case lookup kvs k J_Null of J_Str s \<Rightarrow> if s \<in> set choices then s else fallback | _ \<Rightarrow> fallback)"

definition get_storefront_display_settings :: "store_db \<Rightarrow> nat \<Rightarrow> display" where
  "get_storefront_display_settings db w =
    (case node_at [''shop'', ''storefront_display''] (case map_of (custom_settings db) w of Some (J_Obj kvs) \<Rightarrow> J_Obj kvs | _ \<Rightarrow> J_Obj []) of
       None \<Rightarrow> display_defaults
     | Some kvs \<Rightarrow> \<lparr>sku_display = chosen kvs ''sku_display'' SKU_DISPLAY_CHOICES (sku_display display_defaults),
         stock_display = chosen kvs ''stock_display'' STOCK_DISPLAY_CHOICES (stock_display display_defaults),
         out_of_stock_policy = chosen kvs ''out_of_stock_policy'' OUT_OF_STOCK_POLICY_CHOICES (out_of_stock_policy display_defaults)\<rparr>)"

definition strip_sku_prefix :: "string \<Rightarrow> string \<Rightarrow> string" where
  "strip_sku_prefix sku prefix = (let code = strip sku; token = strip prefix in
     if code = [] \<or> token = [] then code
     else if length token < length code \<and> upper (take (length token) code) = upper token then drop (length token) code else code)"

definition available_units :: "shop_db \<Rightarrow> product \<Rightarrow> variant option \<Rightarrow> int option" where
  "available_units sh p v = (if \<not> pd_track p then None
     else case v of Some x \<Rightarrow> Some (max 0 (va_stock x))
     | None \<Rightarrow> let active = filter (\<lambda>x. va_product x = pd_id p \<and> va_active x) (variants sh) in
         if active \<noteq> [] then Some (\<Sum>x\<leftarrow>active. max 0 (va_stock x)) else Some (max 0 (pd_stock p)))"

definition product_stock_level :: "shop_db \<Rightarrow> product \<Rightarrow> int option" where
  "product_stock_level sh p = available_units sh p None"

record shown_stock =
  in_stock :: bool
  low_stock :: bool
  purchasable :: bool
  shown_quantity :: "int option"

definition resolve_product_stock :: "shop_db \<Rightarrow> product \<Rightarrow> display \<Rightarrow> shown_stock" where
  "resolve_product_stock sh p d = (let level = product_stock_level sh p;
       here = (case level of None \<Rightarrow> True | Some n \<Rightarrow> 0 < n);
       low = (case level of None \<Rightarrow> False | Some n \<Rightarrow> 0 < n \<and> n \<le> pd_low p)
     in \<lparr>in_stock = here, low_stock = low, purchasable = (here \<or> out_of_stock_policy d = ''backorder''),
         shown_quantity = (if stock_display d = ''exact'' \<or> stock_display d = ''low_only'' \<and> low then level else None)\<rparr>)"

definition allows_backorder :: "store_db \<Rightarrow> nat \<Rightarrow> bool" where
  "allows_backorder db w \<longleftrightarrow> out_of_stock_policy (get_storefront_display_settings db w) = ''backorder''"

subsection \<open>Finding a cart\<close>

datatype cart_error = Foreign_Object | Several_Carts | Foreign_Variant | Too_Few int | Out_Of_Range

definition insert_cart :: "cart \<Rightarrow> store_db \<Rightarrow> cart \<times> store_db" where
  "insert_cart c db = (let c = c\<lparr>ct_id := fresh_id ct_id (carts db)\<rparr> in (c, db\<lparr>carts := carts db @ [c]\<rparr>))"

definition get_or_create_cart :: "env \<Rightarrow> nat \<Rightarrow> customer \<Rightarrow> store_db \<Rightarrow> cart_error + (cart \<times> store_db)" where
  "get_or_create_cart e w cu db = (if cu_workspace cu \<noteq> w then Inl Foreign_Object
     else Inr (case latest_by ct_updated (filter (\<lambda>c. ct_workspace c = w \<and> ct_customer c = Some (cu_id cu)) (carts db)) of
       Some c \<Rightarrow> (c, db)
     | None \<Rightarrow> insert_cart \<lparr>ct_id = 0, ct_workspace = w, ct_customer = Some (cu_id cu), ct_session = '''', ct_updated = now e\<rparr> db))"

definition guest_carts :: "store_db \<Rightarrow> nat \<Rightarrow> string \<Rightarrow> cart list" where
  "guest_carts db w key = filter (\<lambda>c. ct_workspace c = w \<and> ct_session c = key \<and> ct_customer c = None) (carts db)"

definition get_or_create_guest_cart :: "env \<Rightarrow> nat \<Rightarrow> string \<Rightarrow> store_db \<Rightarrow> cart_error + (cart \<times> store_db)" where
  "get_or_create_guest_cart e w key db = (case guest_carts db w key of
       [] \<Rightarrow> Inr (insert_cart \<lparr>ct_id = 0, ct_workspace = w, ct_customer = None, ct_session = key, ct_updated = now e\<rparr> db)
     | [c] \<Rightarrow> Inr (c, db) | _ \<Rightarrow> Inl Several_Carts)"

subsection \<open>Changing a cart\<close>

definition line_for :: "store_db \<Rightarrow> nat \<Rightarrow> nat \<Rightarrow> nat option \<Rightarrow> cart_item option" where
  "line_for db c p v = first (filter (\<lambda>i. ci_cart i = c \<and> ci_product i = p \<and> ci_variant i = v) (cart_items db))"

definition save_line :: "cart_item \<Rightarrow> store_db \<Rightarrow> cart_error + store_db" where
  "save_line i db = (if ci_quantity i < 0 \<or> 2 ^ 32 \<le> ci_quantity i then Inl Out_Of_Range
     else Inr (db\<lparr>cart_items := update_where (\<lambda>x. ci_id x = ci_id i) (\<lambda>_. i) (cart_items db)\<rparr>))"

definition merge_line :: "nat \<Rightarrow> cart_item \<Rightarrow> store_db \<Rightarrow> cart_error + store_db" where
  "merge_line c g db = (case line_for db c (ci_product g) (ci_variant g) of
     Some i \<Rightarrow> save_line (i\<lparr>ci_quantity := ci_quantity i + ci_quantity g\<rparr>) db
   | None \<Rightarrow> save_line (g\<lparr>ci_cart := c\<rparr>) db)"

fun merge_lines :: "nat \<Rightarrow> cart_item list \<Rightarrow> store_db \<Rightarrow> cart_error + store_db" where
  "merge_lines c [] db = Inr db"
| "merge_lines c (g # gs) db = bind_r (merge_line c g db) (merge_lines c gs)"

definition delete_cart :: "nat \<Rightarrow> store_db \<Rightarrow> store_db" where
  "delete_cart c db = db\<lparr>carts := filter (\<lambda>x. ct_id x \<noteq> c) (carts db), cart_items := filter (\<lambda>i. ci_cart i \<noteq> c) (cart_items db)\<rparr>"

definition lines_of_cart :: "store_db \<Rightarrow> nat \<Rightarrow> cart_item list" where
  "lines_of_cart db c = filter (\<lambda>i. ci_cart i = c) (cart_items db)"

definition merge_guest_cart_to_customer :: "env \<Rightarrow> nat \<Rightarrow> string \<Rightarrow> customer \<Rightarrow> store_db \<Rightarrow> cart_error + (cart \<times> store_db)" where
  "merge_guest_cart_to_customer e w key cu db = (case latest_by ct_updated (guest_carts db w key) of
     None \<Rightarrow> get_or_create_cart e w cu db
   | Some g \<Rightarrow> bind_r (get_or_create_cart e w cu db) (\<lambda>(c, db).
       bind_r (merge_lines (ct_id c) (lines_of_cart db (ct_id g)) db) (\<lambda>db. Inr (c, delete_cart (ct_id g) db))))"

definition stock_for :: "nat \<Rightarrow> product \<Rightarrow> variant option \<Rightarrow> int \<Rightarrow> store_db \<Rightarrow> cart_error + unit" where
  "stock_for w p v n db = (if allows_backorder db w then Inr ()
     else case available_units (shop (fin db)) p v of None \<Rightarrow> Inr () | Some k \<Rightarrow> if k < n then Inl (Too_Few k) else Inr ())"

definition current_price :: "product \<Rightarrow> variant option \<Rightarrow> rat" where
  "current_price p v = (case v of None \<Rightarrow> pd_price p | Some x \<Rightarrow> (case given_rat (va_price x) of None \<Rightarrow> pd_price p | Some c \<Rightarrow> c))"

definition insert_line :: "nat \<Rightarrow> product \<Rightarrow> variant option \<Rightarrow> int \<Rightarrow> store_db \<Rightarrow> cart_error + (cart_item \<times> store_db)" where
  "insert_line c p v n db = (if n < 0 \<or> 2 ^ 32 \<le> n then Inl Out_Of_Range
     else let i = \<lparr>ci_id = fresh_id ci_id (cart_items db), ci_cart = c, ci_product = pd_id p, ci_variant = map_option va_id v,
         ci_quantity = n, ci_price = current_price p v\<rparr> in Inr (i, db\<lparr>cart_items := cart_items db @ [i]\<rparr>))"

definition foreign_variant :: "nat \<Rightarrow> variant option \<Rightarrow> bool" where
  "foreign_variant p v = (case v of None \<Rightarrow> False | Some x \<Rightarrow> va_product x \<noteq> p)"

definition add_to_cart :: "nat \<Rightarrow> cart \<Rightarrow> product \<Rightarrow> int \<Rightarrow> variant option \<Rightarrow> store_db \<Rightarrow> cart_error + (cart_item \<times> store_db)" where
  "add_to_cart w c p n v db = (if pd_workspace p \<noteq> w \<or> ct_workspace c \<noteq> w then Inl Foreign_Object
     else if foreign_variant (pd_id p) v then Inl Foreign_Variant
     else bind_r (stock_for w p v n db) (\<lambda>_. case line_for db (ct_id c) (pd_id p) (map_option va_id v) of
         Some i \<Rightarrow> let i = i\<lparr>ci_quantity := ci_quantity i + n\<rparr> in bind_r (save_line i db) (\<lambda>db. Inr (i, db))
       | None \<Rightarrow> insert_line (ct_id c) p v n db))"

text \<open>The line's product and variant are read from their tables.\<close>

definition update_cart_item_quantity :: "nat \<Rightarrow> cart_item \<Rightarrow> product \<Rightarrow> variant option \<Rightarrow> int \<Rightarrow> store_db \<Rightarrow> cart_error + (cart_item \<times> store_db)" where
  "update_cart_item_quantity w i p v n db = (if foreign_variant (pd_id p) v then Inl Foreign_Variant
     else bind_r (stock_for w p v n db) (\<lambda>_. let i = i\<lparr>ci_quantity := n\<rparr> in bind_r (save_line i db) (\<lambda>db. Inr (i, db))))"

definition remove_from_cart :: "cart_item \<Rightarrow> store_db \<Rightarrow> store_db" where
  "remove_from_cart i db = db\<lparr>cart_items := filter (\<lambda>x. ci_id x \<noteq> ci_id i) (cart_items db)\<rparr>"

definition clear_cart :: "cart \<Rightarrow> store_db \<Rightarrow> store_db" where
  "clear_cart c db = db\<lparr>cart_items := filter (\<lambda>i. ci_cart i \<noteq> ct_id c) (cart_items db)\<rparr>"

definition line_subtotal :: "cart_item \<Rightarrow> rat" where
  "line_subtotal i = ci_price i * of_int (ci_quantity i)"

definition calculate_cart_total :: "cart \<Rightarrow> store_db \<Rightarrow> rat" where
  "calculate_cart_total c db = (\<Sum>i\<leftarrow>lines_of_cart db (ct_id c). line_subtotal i)"

record cart_summary =
  cs_cart :: nat
  cs_items :: nat
  cs_quantity :: int
  cs_subtotal :: rat
  cs_guest :: bool

definition get_cart_summary :: "cart \<Rightarrow> store_db \<Rightarrow> cart_summary" where
  "get_cart_summary c db = (let is = lines_of_cart db (ct_id c) in
     \<lparr>cs_cart = ct_id c, cs_items = length is, cs_quantity = (\<Sum>i\<leftarrow>is. ci_quantity i), cs_subtotal = calculate_cart_total c db,
      cs_guest = (ct_customer c = None)\<rparr>)"

end
