(* ===== verification/Cart_Laws.thy ===== *)
theory Cart_Laws
  imports Carts
begin

text \<open>
  What the operations of a cart do to what is in it: how many pieces of a product each cart has, and
  what the cart comes to.
\<close>

subsection \<open>Pieces in a cart\<close>

definition pieces :: "store_db \<Rightarrow> nat \<Rightarrow> nat \<Rightarrow> nat option \<Rightarrow> int" where
  "pieces db c p v = (\<Sum>i\<leftarrow>cart_items db. if ci_cart i = c \<and> ci_product i = p \<and> ci_variant i = v then ci_quantity i else 0)"

definition lines_apart :: "store_db \<Rightarrow> bool" where
  "lines_apart db \<longleftrightarrow> distinct (map ct_id (carts db)) \<and> distinct (map ci_id (cart_items db))"

definition one_line_each :: "store_db \<Rightarrow> bool" where
  "one_line_each db \<longleftrightarrow> distinct (map (\<lambda>i. (ci_cart i, ci_product i, ci_variant i)) (cart_items db))"

lemma line_for_SomeD: "line_for db c p v = Some i \<Longrightarrow> i \<in> set (cart_items db) \<and> ci_cart i = c \<and> ci_product i = p \<and> ci_variant i = v"
  by (auto simp: line_for_def dest: first_filter_SomeD)

lemma line_for_None: "line_for db c p v = None \<longleftrightarrow> (\<forall>i \<in> set (cart_items db). \<not> (ci_cart i = c \<and> ci_product i = p \<and> ci_variant i = v))"
  by (auto simp: line_for_def filter_empty_conv)

lemma save_line_Inr: "save_line i db = Inr db' \<longleftrightarrow> 0 \<le> ci_quantity i \<and> ci_quantity i < 2 ^ 32 \<and>
    db' = db\<lparr>cart_items := update_where (\<lambda>x. ci_id x = ci_id i) (\<lambda>_. i) (cart_items db)\<rparr>"
  by (auto simp: save_line_def)

lemma saved_line:
  assumes "save_line i' db = Inr db'" "lines_apart db" "i \<in> set (cart_items db)" "ci_id i' = ci_id i"
  shows "pieces db' c p v = pieces db c p v
      + ((if ci_cart i' = c \<and> ci_product i' = p \<and> ci_variant i' = v then ci_quantity i' else 0)
       - (if ci_cart i = c \<and> ci_product i = p \<and> ci_variant i = v then ci_quantity i else 0))"
    "lines_apart db'" "carts db' = carts db" "y \<in> set (cart_items db) \<Longrightarrow> ci_id y \<noteq> ci_id i \<Longrightarrow> y \<in> set (cart_items db')"
    "i' \<in> set (cart_items db')"
proof -
  have d: "cart_items db' = update_where (\<lambda>x. ci_id x = ci_id i) (\<lambda>_. i') (cart_items db)" "carts db' = carts db"
    using assms(1,4) by (auto simp: save_line_Inr)
  have u: "distinct (map ci_id (cart_items db))" using assms(2) by (simp add: lines_apart_def)
  show "pieces db' c p v = pieces db c p v
      + ((if ci_cart i' = c \<and> ci_product i' = p \<and> ci_variant i' = v then ci_quantity i' else 0)
       - (if ci_cart i = c \<and> ci_product i = p \<and> ci_variant i = v then ci_quantity i else 0))"
    unfolding pieces_def d(1) by (rule sum_update_where [OF u assms(3)])
  have "map ci_id (cart_items db') = map ci_id (cart_items db)" unfolding d(1) by (rule map_update_where) (simp add: assms(4))
  then show "lines_apart db'" using assms(2) by (simp add: lines_apart_def d(2))
  show "carts db' = carts db" by (rule d(2))
  show "y \<in> set (cart_items db) \<Longrightarrow> ci_id y \<noteq> ci_id i \<Longrightarrow> y \<in> set (cart_items db')"
    by (force simp: d(1) set_update_where)
  show "i' \<in> set (cart_items db')" using assms(3) by (force simp: d(1) set_update_where)
qed

text \<open>A call raises or keeps the rows apart.\<close>

lemma inserted_line:
  assumes "insert_line c p v n db = Inr (i, db')" "lines_apart db"
  shows "lines_apart db'" "pieces db' x q u = pieces db x q u + (if x = c \<and> q = pd_id p \<and> u = map_option va_id v then n else 0)"
    "i \<in> set (cart_items db')" "ci_quantity i = n" "ci_cart i = c" "ci_product i = pd_id p" "ci_variant i = map_option va_id v"
    "lines_of_cart db' x = lines_of_cart db x @ (if x = c then [i] else [])" "carts db' = carts db" "fin db' = fin db"
    "custom_settings db' = custom_settings db" "0 \<le> n"
  using assms distinct_fresh [of ci_id "cart_items db" i]
  by (auto simp: insert_line_def Let_def pieces_def lines_apart_def lines_of_cart_def split: if_splits)

subsection \<open>Merging\<close>

lemma merged_line:
  assumes "merge_line c g db = Inr db'" "lines_apart db" "g \<in> set (cart_items db)" "ci_cart g \<noteq> c"
  shows "lines_apart db'" "carts db' = carts db" 
    "x \<noteq> ci_cart g \<Longrightarrow> pieces db' x p v = pieces db x p v + (if x = c \<and> ci_product g = p \<and> ci_variant g = v then ci_quantity g else 0)"
    "y \<in> set (cart_items db) \<Longrightarrow> ci_cart y = ci_cart g \<Longrightarrow> ci_id y \<noteq> ci_id g \<Longrightarrow> y \<in> set (cart_items db')"
proof -
  have "lines_apart db' \<and> carts db' = carts db \<and>
    (x \<noteq> ci_cart g \<longrightarrow> pieces db' x p v = pieces db x p v + (if x = c \<and> ci_product g = p \<and> ci_variant g = v then ci_quantity g else 0)) \<and>
    (y \<in> set (cart_items db) \<longrightarrow> ci_cart y = ci_cart g \<longrightarrow> ci_id y \<noteq> ci_id g \<longrightarrow> y \<in> set (cart_items db'))"
  proof (cases "line_for db c (ci_product g) (ci_variant g)")
    case None
    with assms(1) have s: "save_line (g\<lparr>ci_cart := c\<rparr>) db = Inr db'" by (simp add: merge_line_def)
    note r = saved_line [OF s assms(2,3)]
    then show ?thesis by auto
  next
    case (Some i)
    then have i: "i \<in> set (cart_items db)" "ci_cart i = c" "ci_product i = ci_product g" "ci_variant i = ci_variant g"
      using line_for_SomeD by auto
    from assms(1) Some have s: "save_line (i\<lparr>ci_quantity := ci_quantity i + ci_quantity g\<rparr>) db = Inr db'" by (simp add: merge_line_def)
    note r = saved_line [OF s assms(2) i(1)]
    have "ci_id y \<noteq> ci_id i" if "y \<in> set (cart_items db)" "ci_cart y = ci_cart g"
      using that assms(2,4) i(1,2) by (auto simp: lines_apart_def distinct_map inj_on_def)
    with r i show ?thesis by auto
  qed
  then show "lines_apart db'" "carts db' = carts db" 
    "x \<noteq> ci_cart g \<Longrightarrow> pieces db' x p v = pieces db x p v + (if x = c \<and> ci_product g = p \<and> ci_variant g = v then ci_quantity g else 0)"
    "y \<in> set (cart_items db) \<Longrightarrow> ci_cart y = ci_cart g \<Longrightarrow> ci_id y \<noteq> ci_id g \<Longrightarrow> y \<in> set (cart_items db')" by blast+
qed

lemma merged_lines:
  "merge_lines c gs db = Inr db' \<Longrightarrow> lines_apart db \<Longrightarrow> distinct (map ci_id gs) \<Longrightarrow>
    (\<And>g. g \<in> set gs \<Longrightarrow> g \<in> set (cart_items db) \<and> ci_cart g = k) \<Longrightarrow> k \<noteq> c \<Longrightarrow>
    lines_apart db' \<and> carts db' = carts db \<and>
    (\<forall>x p v. x \<noteq> k \<longrightarrow> pieces db' x p v = pieces db x p v +
       (if x = c then \<Sum>g\<leftarrow>gs. if ci_product g = p \<and> ci_variant g = v then ci_quantity g else 0 else 0))"
proof (induction gs arbitrary: db)
  case (Cons g gs)
  from Cons.prems(1) obtain db1 where s: "merge_line c g db = Inr db1" "merge_lines c gs db1 = Inr db'" by (auto simp: bind_r_Inr)
  have g: "g \<in> set (cart_items db)" "ci_cart g = k" using Cons.prems(4) [of g] by auto
  then have "ci_cart g \<noteq> c" using Cons.prems(5) by simp
  note m = merged_line [OF s(1) Cons.prems(2) g(1) this]
  have "h \<in> set (cart_items db1) \<and> ci_cart h = k" if "h \<in> set gs" for h
    using Cons.prems(3) Cons.prems(4) [of h] that m(4) g(2) by (auto simp: image_iff)
  with Cons.IH [OF s(2) m(1) _ _ Cons.prems(5)] Cons.prems(3) have r: "lines_apart db'" "carts db' = carts db1"
    "x \<noteq> k \<Longrightarrow> pieces db' x p v = pieces db1 x p v +
       (if x = c then \<Sum>g\<leftarrow>gs. if ci_product g = p \<and> ci_variant g = v then ci_quantity g else 0 else 0)" for x p v by auto
  then show ?case using m(2,3) g(2) by auto
qed simp

lemma found_cart:
  assumes "get_or_create_cart e w cu db = Inr (c, db')"
  shows "cart_items db' = cart_items db" "ct_customer c = Some (cu_id cu)" "ct_workspace c = w"
    "c \<in> set (carts db) \<and> db' = db \<or> ct_id c = fresh_id ct_id (carts db) \<and> carts db' = carts db @ [c]"
  using assms by (auto simp: get_or_create_cart_def insert_cart_def Let_def dest: latest_by_in split: if_splits option.splits)

lemma found_cart_apart: "get_or_create_cart e w cu db = Inr (c, db') \<Longrightarrow> lines_apart db \<Longrightarrow> lines_apart db'"
  using found_cart [of e w cu db c db'] distinct_fresh [of ct_id "carts db" c] by (auto simp: lines_apart_def)

lemma pieces_of_lines: "pieces db c p v = (\<Sum>g\<leftarrow>lines_of_cart db c. if ci_product g = p \<and> ci_variant g = v then ci_quantity g else 0)"
proof -
  have "(\<Sum>i\<leftarrow>xs. if ci_cart i = c \<and> ci_product i = p \<and> ci_variant i = v then ci_quantity i else 0)
      = (\<Sum>g\<leftarrow>filter (\<lambda>i. ci_cart i = c) xs. if ci_product g = p \<and> ci_variant g = v then ci_quantity g else 0)" for xs
    by (induction xs) auto
  then show ?thesis by (simp add: pieces_def lines_of_cart_def)
qed

lemma pieces_deleted: "x \<noteq> g \<Longrightarrow> pieces (delete_cart g db) x p v = pieces db x p v"
proof -
  assume x: "x \<noteq> g"
  have "(\<Sum>i\<leftarrow>filter (\<lambda>i. ci_cart i \<noteq> g) xs. if ci_cart i = x \<and> ci_product i = p \<and> ci_variant i = v then ci_quantity i else 0)
      = (\<Sum>i\<leftarrow>xs. if ci_cart i = x \<and> ci_product i = p \<and> ci_variant i = v then ci_quantity i else 0)" for xs
    using x by (induction xs) auto
  then show ?thesis by (simp add: pieces_def delete_cart_def)
qed

lemma guest_found: "latest_by ct_updated (guest_carts db w key) = Some g \<Longrightarrow> g \<in> set (carts db) \<and> ct_customer g = None"
  by (drule latest_by_in) (simp add: guest_carts_def)

text \<open>
  The stock is compared with what is added now, not with what the cart then has: what could be added
  once can be added again, whatever the stock.
\<close>

lemma adding_again_passes:
  assumes added: "add_to_cart w c p n v db = Inr (i, db')" and ok: "lines_apart db"
    and fits: "0 \<le> ci_quantity i + n" "ci_quantity i + n < 2 ^ 32"
  shows "\<exists>j db2. add_to_cart w c p n v db' = Inr (j, db2) \<and> ci_quantity j = ci_quantity i + n"
proof -
  have g: "\<not> (pd_workspace p \<noteq> w \<or> ct_workspace c \<noteq> w)" "\<not> foreign_variant (pd_id p) v" "stock_for w p v n db = Inr ()"
    using added by (auto simp: add_to_cart_def bind_r_Inr split: if_splits)
  obtain j where j: "line_for db' (ct_id c) (pd_id p) (map_option va_id v) = Some j" "ci_quantity j = ci_quantity i"
    and same: "fin db' = fin db" "custom_settings db' = custom_settings db"
  proof (cases "line_for db (ct_id c) (pd_id p) (map_option va_id v)")
    case None
    with added g have ins: "insert_line (ct_id c) p v n db = Inr (i, db')" by (auto simp: add_to_cart_def)
    from None have "filter (\<lambda>i. ci_cart i = ct_id c \<and> ci_product i = pd_id p \<and> ci_variant i = map_option va_id v) (cart_items db) = []"
      by (auto simp: line_for_None filter_empty_conv)
    then have "line_for db' (ct_id c) (pd_id p) (map_option va_id v) = Some i"
      using ins by (auto simp: line_for_def insert_line_def Let_def split: if_splits)
    then show thesis using inserted_line [OF ins ok] by (intro that) simp_all
  next
    case (Some j)
    with added g have s: "save_line i db = Inr db'" and i: "i = j\<lparr>ci_quantity := ci_quantity j + n\<rparr>"
      by (auto simp: add_to_cart_def bind_r_Inr Let_def)
    note j = line_for_SomeD [OF Some]
    have u: "distinct (map ci_id (cart_items db))" using ok by (simp add: lines_apart_def)
    have "line_for db' (ct_id c) (pd_id p) (map_option va_id v) = Some i"
      using first_filter_update [OF u, where x = j and y = i and P = "\<lambda>i. ci_cart i = ct_id c \<and> ci_product i = pd_id p \<and> ci_variant i = map_option va_id v"]
        j Some s by (simp add: line_for_def save_line_Inr i)
    then show thesis using s by (intro that) (simp_all add: save_line_Inr)
  qed
  have "allows_backorder db' w = allows_backorder db w" by (simp only: allows_backorder_def get_storefront_display_settings_def same(2))
  then have "stock_for w p v n db' = Inr ()" using g(3) by (simp only: stock_for_def same(1))
  then show ?thesis using g(1,2) j fits by (simp add: add_to_cart_def save_line_def Let_def)
qed

subsection \<open>Properties\<close>

text \<open>
  Signing in loses nothing of what a visitor had put into the cart: afterwards the customer's cart
  has, of every product and variant, the pieces it had and those of the visitor's cart, which is
  gone; every other cart is as it was.
\<close>

theorem merge_keeps_every_piece:
  assumes merged: "merge_guest_cart_to_customer e w key cu db = Inr (c, db')" and ok: "lines_apart db"
    and guest: "latest_by ct_updated (guest_carts db w key) = Some g"
  shows "ct_customer c = Some (cu_id cu) \<and> ct_id g \<notin> ct_id ` set (carts db') \<and>
    (\<forall>p v. pieces db' (ct_id c) p v = pieces db (ct_id c) p v + pieces db (ct_id g) p v) \<and>
    (\<forall>x p v. x \<noteq> ct_id c \<and> x \<noteq> ct_id g \<longrightarrow> pieces db' x p v = pieces db x p v)"
proof -
  from merged guest obtain db1 db2 where f: "get_or_create_cart e w cu db = Inr (c, db1)"
    and m: "merge_lines (ct_id c) (lines_of_cart db1 (ct_id g)) db1 = Inr db2" and d: "db' = delete_cart (ct_id g) db2"
    by (auto simp: merge_guest_cart_to_customer_def bind_r_Inr)
  note c = found_cart [OF f]
  have ne: "ct_id g \<noteq> ct_id c"
    using c(4) c(2) guest_found [OF guest] ok by (auto simp: lines_apart_def distinct_map inj_on_def)
  note ok1 = found_cart_apart [OF f ok]
  have "distinct (map ci_id (lines_of_cart db1 (ct_id g)))"
    using ok1 by (simp add: lines_apart_def lines_of_cart_def distinct_map_filter)
  from merged_lines [OF m ok1 this _ ne] have r: "x \<noteq> ct_id g \<Longrightarrow> pieces db2 x p v = pieces db1 x p v +
      (if x = ct_id c then pieces db1 (ct_id g) p v else 0)" for x p v
    by (auto simp: lines_of_cart_def pieces_of_lines)
  have "pieces db1 x p v = pieces db x p v" for x p v by (simp add: pieces_def c(1))
  with r ne c(2) show ?thesis by (auto simp: d pieces_deleted) (auto simp: delete_cart_def)
qed

text \<open>
  Adding to a cart adds what was asked and nothing else: the cart has that many more pieces of the
  product and variant, every other count is as it was, the cart comes to that many times the price
  of the line more, and each product and variant keeps one line in a cart.
\<close>

theorem adding_adds_exactly:
  assumes added: "add_to_cart w c p n v db = Inr (i, db')" and ok: "lines_apart db"
  shows "lines_apart db' \<and> i \<in> set (cart_items db') \<and> (one_line_each db \<longrightarrow> one_line_each db') \<and>
    (\<forall>x q u. pieces db' x q u = pieces db x q u + (if x = ct_id c \<and> q = pd_id p \<and> u = map_option va_id v then n else 0)) \<and>
    calculate_cart_total c db' = calculate_cart_total c db + ci_price i * of_int n \<and>
    (\<forall>k. \<not> allows_backorder db w \<and> available_units (shop (fin db)) p v = Some k \<longrightarrow> n \<le> k)"
proof -
  have stock: "\<forall>k. \<not> allows_backorder db w \<and> available_units (shop (fin db)) p v = Some k \<longrightarrow> n \<le> k"
    using added by (auto simp: add_to_cart_def stock_for_def split: if_splits)
  show ?thesis
  proof (cases "line_for db (ct_id c) (pd_id p) (map_option va_id v)")
    case None
    with added have "insert_line (ct_id c) p v n db = Inr (i, db')" by (auto simp: add_to_cart_def bind_r_Inr split: if_splits)
    note r = inserted_line [OF this ok]
    have "one_line_each db \<longrightarrow> one_line_each db'"
      using None \<open>insert_line (ct_id c) p v n db = Inr (i, db')\<close>
      by (auto simp: one_line_each_def insert_line_def Let_def line_for_None split: if_splits) metis
    then show ?thesis using r(1,2,3) r(8) stock by (auto simp: calculate_cart_total_def line_subtotal_def r(4))
  next
    case (Some j)
    with added have s: "save_line i db = Inr db'" and i: "i = j\<lparr>ci_quantity := ci_quantity j + n\<rparr>"
      by (auto simp: add_to_cart_def bind_r_Inr Let_def split: if_splits)
    have j: "j \<in> set (cart_items db)" "ci_cart j = ct_id c" "ci_product j = pd_id p" "ci_variant j = map_option va_id v"
      using line_for_SomeD [OF Some] by auto
    have "ci_id i = ci_id j" by (simp add: i)
    note r = saved_line [OF s ok j(1) this]
    have d: "cart_items db' = update_where (\<lambda>x. ci_id x = ci_id j) (\<lambda>_. i) (cart_items db)" using s by (simp add: save_line_Inr i)
    have u: "distinct (map ci_id (cart_items db))" using ok by (simp add: lines_apart_def)
    have t: "calculate_cart_total c x = (\<Sum>k\<leftarrow>cart_items x. if ci_cart k = ct_id c then line_subtotal k else 0)" for x
      unfolding calculate_cart_total_def lines_of_cart_def by (rule sum_list_map_filter')
    have "calculate_cart_total c db' = calculate_cart_total c db + ci_price i * of_int n"
      unfolding t d sum_update_where [OF u j(1)] by (simp add: i j(2) line_subtotal_def algebra_simps)
    moreover have "one_line_each db \<longrightarrow> one_line_each db'"
    proof -
      have "(ci_cart i, ci_product i, ci_variant i) = (ci_cart x, ci_product x, ci_variant x)" if "x \<in> set (cart_items db)" "ci_id x = ci_id j" for x
        using u j(1) that by (auto simp: i distinct_map inj_on_def)
      then have "map (\<lambda>i. (ci_cart i, ci_product i, ci_variant i)) (cart_items db') = map (\<lambda>i. (ci_cart i, ci_product i, ci_variant i)) (cart_items db)"
        unfolding d update_where_def by auto
      then show ?thesis by (simp add: one_line_each_def)
    qed
    ultimately show ?thesis using r(1,2,5) stock by (auto simp: i j)
  qed
qed

end
