(* ===== verification/Samples_Store.thy ===== *)
theory Samples_Store
  imports Samples Direct_Orders Wallets Cart_Laws
begin

text \<open>
  The storefront of workspace 2 the properties of the shop are applied to: a mug of 12.50, of which
  the cart of customer 1 has four, a coupon of ten percent that may be used once, a gift card with
  48 on it, and a counter where orders are collected for 5.
\<close>

definition mug :: product where
  "mug = \<lparr>pd_id = 1, pd_workspace = 2, pd_name = ''Mug'', pd_sku = ''M'', pd_price = 25 / 2, pd_categories = [], pd_active = True,
     pd_track = True, pd_stock = 4, pd_weight = Some (1/2), pd_low = 10\<rparr>"

definition mug_shop :: shop_db where
  "mug_shop = \<lparr>warehouses = [], products = [mug], variants = [], inventories = [], orders = [], order_items = [], reservations = [],
     shop_audits = [], emitted = [], committed = []\<rparr>"

definition cart1 :: cart where
  "cart1 = \<lparr>ct_id = 1, ct_workspace = 2, ct_customer = Some 1, ct_session = '''', ct_updated = 0\<rparr>"

definition guest_cart :: cart where
  "guest_cart = \<lparr>ct_id = 2, ct_workspace = 2, ct_customer = None, ct_session = ''key'', ct_updated = 0\<rparr>"

definition mugs :: cart_item where
  "mugs = \<lparr>ci_id = 1, ci_cart = 1, ci_product = 1, ci_variant = None, ci_quantity = 4, ci_price = 25 / 2\<rparr>"

definition more_mugs :: cart_item where
  "more_mugs = \<lparr>ci_id = 2, ci_cart = 2, ci_product = 1, ci_variant = None, ci_quantity = 3, ci_price = 25 / 2\<rparr>"

definition tenth_off :: discount_rule where
  "tenth_off = \<lparr>dr_id = 1, dr_workspace = 2, dr_kind = Percentage, dr_value = 10, dr_target = Whole_Order, dr_products = [],
     dr_categories = [], dr_minimum = None, dr_maximum = None, dr_active = True, dr_created = 0\<rparr>"

definition ten :: coupon where
  "ten = \<lparr>cp_id = 1, cp_workspace = 2, cp_rule = 1, cp_code = ''TEN'', cp_limit = Some 1, cp_customer_limit = None, cp_used = 0,
     cp_from = 0, cp_until = None, cp_active = True\<rparr>"

definition gift :: gift_card where
  "gift = \<lparr>gc_id = 1, gc_workspace = 2, gc_code = ''G1'', gc_balance = 48, gc_currency = 2, gc_customer = None, gc_active = True,
     gc_expires = None\<rparr>"

definition counter :: pickup_point where
  "counter = \<lparr>pp_id = 1, pp_workspace = 2, pp_name = ''Counter'', pp_fee = 5, pp_active = True, pp_default = True, pp_order = 0\<rparr>"

definition corner :: store where
  "corner = \<lparr>st_id = 1, st_workspace = 2\<rparr>"

definition store0 :: store_db where
  "store0 = \<lparr>fin = \<lparr>base = db0, shop = mug_shop, invoice_orders = [], gateways = [], payments = [], refunds = [], ledger = [],
       consignments = [], freight_codes = [], pay_audits = [], fin_events = []\<rparr>,
     discount_rules = [tenth_off], coupons = [ten], gift_cards = [gift], carts = [cart1, guest_cart], cart_items = [mugs, more_mugs],
     addresses = [], stores = [corner], pickup_points = [counter], freight_services = [], price_changes = [],
     wallets = [], wallet_rows = [], invoice_settings_rows = [], order_freight = [], item_products = [], placed = [],
     custom_settings = []\<rparr>"

definition collect :: wish where
  "collect = \<lparr>fulfilment = ''pickup'', ship_method = '''', service_id = None, coupon_code = ''TEN'', gift_code = ''G1''\<rparr>"

lemmas store_rows = mug_def mug_shop_def cart1_def guest_cart_def mugs_def more_mugs_def tenth_off_def ten_def gift_def counter_def
  corner_def collect_def store0_def

lemma codes [simp]: "upper ''TEN'' = ''TEN''" "strip ''TEN'' = ''TEN''" "upper ''G1'' = ''G1''" "strip ''G1'' = ''G1''"
  by (simp_all add: upper_def upper_char_def strip_def whitespace_def)

lemma found0 [simp]: "active_coupon store0 2 ''TEN'' = Some ten" "rule_of store0 (Suc 0) = Some tenth_off" "active_gift_card store0 2 ''G1'' = Some gift"
  "rule_of store0 (cp_rule ten) = Some tenth_off" "items_in_cart store0 (Suc 0) = [mugs]" "gift_card_matches_context store0 2 c gift"
  "order_currency store0 2 = ''NZD''" "code_of_currency store0 2 = Some ''NZD''"
  by (simp_all add: active_coupon_def rule_of_def active_gift_card_def items_in_cart_def gift_card_matches_context_def order_currency_def
      code_of_currency_def store0_def ten_def tenth_off_def gift_def mugs_def more_mugs_def db0_def workspace_by_id_def)

lemma gift_open: "gc_expires gift = None"
  by (simp add: gift_def)

lemma valid0 [simp]: "validate_coupon env0 2 ten tenth_off s c store0 = None"
  by (simp add: validate_coupon_def ten_def tenth_off_def split: option.split)

lemma half_off: "limited_amount sh tenth_off items s = (if 0 \<le> s then s / 10 else s)"
  by (simp add: limited_amount_def rule_amount_def capped_def discount_on_def tenth_off_def)

lemma discount0: "calculate_order_discount env0 2 items 50 ''TEN'' ''G1'' c store0 =
    \<lparr>oc_discount = 5, oc_shipping = 0, oc_coupon = 5, oc_gift = 45\<rparr>"
  by (simp add: calculate_order_discount_def calculate_coupon_discount_def half_off below_minimum_def calculate_gift_card_amount_def
      gift_card_has_expired_def) (simp add: tenth_off_def gift_def)

definition quote :: totals where
  "quote = \<lparr>to_subtotal = 50, to_discount = 50, to_shipping = 5, to_tax = 0, to_total = 5, to_free = 0, to_coupon = 5, to_gift = 45\<rparr>"

lemma tax0: "calculate_order_tax 2 s a store0 = 0"
  by (simp add: calculate_order_tax_def rate_for_def rate_at_def active_rates_def store0_def db0_def split: option.split)

lemma quoted: "calculate_order_totals env0 id 2 cart1 collect None (Some counter) store0 = Inr quote"
  using discount0 [of "map (order_item_of 0 0 (shop (fin store0))) [mugs]" "Some 1"]
  by (simp add: calculate_order_totals_def cart1_def collect_def item_subtotal_def tax0 quote_def Let_def) (simp add: mugs_def counter_def)

definition checked0 :: checked where
  "checked0 = \<lparr>ch_cart = cart1, ch_point = Some counter, ch_bill_to = None, ch_totals = quote, ch_coupon = Some ten, ch_card = Some (gift, 48)\<rparr>"

lemma checked: "check_cart env0 id 2 cart1 corner None None collect No_Point store0 = Inr checked0"
proof -
  have "resolve_pickup_point 2 ''pickup'' No_Point store0 = Inr (Some counter)"
    by (simp add: resolve_pickup_point_def default_point_def store0_def counter_def)
  moreover have "coupon_to_record env0 2 ''TEN'' 50 (Some 1) store0 = Inr (Some ten)" by (simp add: coupon_to_record_def)
  moreover have "card_to_debit env0 2 ''G1'' quote (Some 1) store0 = Inr (Some (gift, 48))"
    by (simp add: card_to_debit_def quote_def Let_def gift_card_has_expired_def) (simp add: gift_def)
  moreover have "first (filter (\<lambda>c. ct_id c = ct_id cart1 \<and> ct_workspace c = 2) (carts store0)) = Some cart1"
    by (simp add: store0_def cart1_def guest_cart_def)
  ultimately show ?thesis using quoted
    by (simp add: check_cart_def checked0_def address_fits_def Let_def)
      (simp add: cart1_def corner_def collect_def quote_def)
qed

lemma store0_ok: "sound (shop (fin store0))" "items_have_orders (shop (fin store0))" "within_limits store0" "lines_apart store0" "cards_ok store0"
  "discounts_ok store0" "invoices_ok (base (fin store0))"
  by (simp_all add: sound_def stock_ok_def shop_ok_def never_oversold_def in_state_def quantity_at_def reserved_at_def items_have_orders_def
      within_limits_def lines_apart_def cards_ok_def discounts_ok_def rule_ok_def invoices_ok_def store_rows on_grid_def)

lemma placed0: "\<exists>order db. create_order_from_cart env0 (\<lambda>_. ''00001'') id 2 cart1 corner None None collect No_Point '''' store0 = Some (Inr (order, db))"
proof (rule checkout_goes_through [OF checked])
  show "order_head env0 @ ''00001'' \<notin> set (map od_number (filter (\<lambda>r. od_workspace r = 2) (orders (shop (fin store0)))))"
    by (simp add: store_rows)
qed (simp_all add: checked0_def cart1_def final_total_def final_discount_def quote_def cents_def quantize_half_even_def round_half_even_def)

end
