(* ===== verification/Witnesses_Store.thy ===== *)
theory Witnesses_Store
  imports Samples_Store
begin

text \<open>
  The properties of discounts, freight, invoices, wallets, carts and placing an order, applied to the
  storefront of \<open>Samples_Store\<close>.
\<close>

definition buyer :: customer where
  "buyer = \<lparr>cu_id = 1, cu_workspace = 2, cu_user = 7\<rparr>"

theorem auto_discount_is_best_witness:
  "fst (calculate_auto_discount 2 [] 50 store0) = 5"
proof -
  have e: "eligible_rules store0 2 50 = {tenth_off}"
    by (auto simp: eligible_rules_def below_minimum_def store0_def tenth_off_def)
  have "(0 :: rat) \<le> 50" by simp
  from auto_discount_is_best [OF this, of 2 "[]" store0] show ?thesis
    by (auto simp: split_beta e half_off)
qed

theorem coupon_never_beats_none_witness:
  "fst (calculate_coupon_discount env0 2 ''TEN'' [] 50 None store0) = 5 \<and> 5 \<le> fst (calculate_auto_discount 2 [] 50 store0)"
proof -
  have c: "fst (calculate_coupon_discount env0 2 ''TEN'' [] 50 None store0) = 5"
    by (simp add: calculate_coupon_discount_def half_off below_minimum_def) (simp add: tenth_off_def)
  have "\<forall>r \<in> set (discount_rules store0). dr_workspace r = 2 \<and> dr_active r" by (simp add: store0_def tenth_off_def)
  from coupon_never_beats_none [OF store0_ok(6) _ _ this, of 50 "[]" env0 "''TEN''" None] c show ?thesis by simp
qed

definition mug_order :: order_row where
  "mug_order = \<lparr>od_id = 1, od_workspace = 2, od_customer = 1, od_store = 1, od_number = ''ORD-1'', od_status = ''pending'',
     od_payment = ''pending'', od_fulfillment = ''pickup'', od_pickup_point = None, od_subtotal = 50, od_shipping = 0, od_tax = 0,
     od_discount = 0, od_total = 50, od_coupon = None, od_ship_to = None, od_bill_to = None,
     deduction_event = ''payment_confirmed'', deducted_at = None, stock_error = '''', reservations_managed = True,
     paid_at = None, shipped_at = None, delivered_at = None, admin_note = ''''\<rparr>"

theorem gift_card_moves_money_witness:
  "\<exists>order db. apply_gift_card_to_order env0 2 mug_order ''G1'' store0 = Inr ((48, order), db) \<and> od_total order = 2 \<and> on_cards db = 0"
proof -
  obtain order db where r: "apply_gift_card_to_order env0 2 mug_order ''G1'' store0 = Inr ((48, order), db)"
    by (simp add: apply_gift_card_to_order_def gift_card_has_expired_def Let_def gift_open) (simp add: gift_def mug_order_def)
  have g: "on_grid 2 (od_total mug_order)" by (simp add: mug_order_def on_grid_def)
  have "od_total mug_order = od_subtotal mug_order + od_shipping mug_order + od_tax mug_order - od_discount mug_order" by (simp add: mug_order_def)
  from gift_card_moves_money [OF store0_ok(5) g this r] r show ?thesis by (simp add: on_cards_def store0_def gift_def mug_order_def)
qed

abbreviation flat_config :: "(string \<times> json) list" where
  "flat_config \<equiv> [(''mode'', J_Str ''linear''), (''rules'', J_Obj [(''base'', J_Int 4), (''per_kg'', J_Float (3/2))])]"

theorem typed_config_prices_witness:
  "\<exists>cost. calculate_shipping_cost id (get_freight_price_value env0 2 store0) 2 flat_config (freight_context 2 50) = Inr cost \<and> 0 \<le> cost"
proof (rule typed_config_prices)
  show "config_typed flat_config" by (simp add: config_typed_def lookup_def linear_typed_def entry_def nullable_def)
qed (simp_all add: freight_context_typed float_sound_def)

theorem template_costs_what_it_says_witness:
  "\<exists>config b k. form_params_to_config (\<lambda>_. None) id ''base_plus_per_kg'' (numbers [''base'', ''per_kg''] (\<lambda>k. if k = ''base'' then 4 else 3/2)) = Inr (config, b, k) \<and>
     calculate_shipping_cost id (get_freight_price_value env0 2 store0) 2 config (freight_context 2 50) = Inr 7"
proof -
  let ?f = "\<lambda>k. if k = ''base'' then 4 else 3/2 :: rat"
  obtain config b k where c: "form_params_to_config (\<lambda>_. None) id ''base_plus_per_kg'' (numbers (template_fields ''base_plus_per_kg'') ?f) = Inr (config, b, k)"
    by (simp add: template_reading)
  have "''base_plus_per_kg'' \<in> {''flat_rate'', ''base_plus_per_kg'', ''first_kg_then_per_kg'', ''free_over_amount'', ''free_over_weight''}"
    by simp
  from template_costs_what_it_says [OF this c, of id env0 2 store0 2 50] c show ?thesis
    by (auto simp: template_price_def template_fields_def)
qed

definition mug_line :: order_item where
  "mug_line = \<lparr>oi_id = 1, oi_order = 1, oi_product = 1, oi_variant = None, oi_product_name = ''Mug'', oi_variant_name = '''', oi_sku = ''M'',
     oi_quantity = 4, oi_price = 25 / 2, oi_subtotal = 50\<rparr>"

definition ordered0 :: store_db where
  "ordered0 = in_shop (\<lambda>sh. sh\<lparr>orders := [mug_order], order_items := [mug_line]\<rparr>) store0"

lemma billed0: "\<exists>v db. create_invoice_from_order env0 2 mug_order (hd (currencies db0)) ordered0 = Some (Inr (v, db))"
proof -
  have n: "next_invoice_number ordered0 2 = Inr 1"
    by (simp add: next_invoice_number_def last_numbered_def Let_def ordered0_def store0_def)
  then obtain number where g: "generate_invoice_number 2 ordered0 = Some (Inr number)"
    using number_always [of 2 ordered0] by (auto simp: generate_invoice_number_def)
  have "\<exists>v db. write_order_invoice (invoice_of_order env0 2 mug_order (hd (currencies db0)) number ordered0) mug_order ordered0 = Inr (v, db)"
    by (simp add: write_order_invoice_def create_invoice_def invoice_taken_def ordered0_def store0_def Let_def)
  then show ?thesis using g by (simp add: create_invoice_from_order_def) (simp add: mug_order_def)
qed

theorem order_invoice_bills_the_order_witness:
  "\<exists>v db. create_invoice_from_order env0 2 mug_order (hd (currencies db0)) ordered0 = Some (Inr (v, db)) \<and> inv_total v = 50"
proof -
  obtain v db where m: "create_invoice_from_order env0 2 mug_order (hd (currencies db0)) ordered0 = Some (Inr (v, db))" using billed0 by blast
  have ok: "invoices_ok (base (fin ordered0))" using store0_ok(7) by (simp add: ordered0_def)
  have g: "on_grid 2 50" "on_grid 2 (25/2)" by (simp_all add: on_grid_def)
  have "\<forall>i \<in> set (lines_of_order ordered0 (od_id mug_order)). on_grid 2 (oi_subtotal i) \<and> on_grid 2 (oi_price i)"
    using g by (simp add: lines_of_order_def ordered0_def store0_def mug_shop_def mug_line_def)
  from order_invoice_bills_the_order [OF m ok this] m cents_exact [OF g(1)] show ?thesis by (auto simp: mug_order_def)
qed

text \<open>A wallet is opened and seven and a half are paid in.\<close>

theorem wallets_never_overdrawn_witness:
  "\<exists>x db r x' db'. get_or_create_wallet 2 buyer (Some (hd (currencies db0))) store0 = Inr (x, db) \<and>
     record_wallet_transaction 2 x (15/2) ''cash'' ''topup'' ''desk'' None ''paid in'' None db = Inr (r, x', db') \<and>
     (\<exists>y \<in> set (wallets db'). wl_cash y = 15/2 \<and> moved db' (wl_id y) True = 15/2)"
proof -
  obtain x db where o: "get_or_create_wallet 2 buyer (Some (hd (currencies db0))) store0 = Inr (x, db)" "wallets db = [x]" "wl_workspace x = 2" "wl_cash x = 0"
    by (simp add: get_or_create_wallet_def wallet_of_def Let_def store0_def buyer_def)
  have g: "on_grid 2 (15/2)" by (simp add: on_grid_def)
  obtain r x' db' where r: "record_wallet_transaction 2 x (15/2) ''cash'' ''topup'' ''desk'' None ''paid in'' None db = Inr (r, x', db')"
    using o(3) by (simp add: record_wallet_transaction_def Let_def)
  have "wallet_step store0 db" by (rule wallet_step.opened [OF o(1)])
  moreover have "wallet_step db db'" using wallet_step.recorded [OF _ g r] o(2) by simp
  ultimately have "wallet_step\<^sup>*\<^sup>* store0 db'" by simp
  moreover have "wallets_ok store0" by (simp add: wallets_ok_def store0_def)
  ultimately have "\<forall>y \<in> set (wallets db'). wl_cash y = moved db' (wl_id y) True" using wallets_never_overdrawn by blast
  moreover have "wallets db' = [x\<lparr>wl_cash := 15/2\<rparr>]" using recorded_cash(5) [OF r] o(2,4) cents_exact [OF g]
    by (simp add: update_where_def move_def)
  ultimately show ?thesis using o(1) r by auto
qed

theorem merge_keeps_every_piece_witness:
  "\<exists>c db. merge_guest_cart_to_customer env0 2 ''key'' buyer store0 = Inr (c, db) \<and> pieces db (ct_id c) 1 None = 7"
proof -
  have g: "latest_by ct_updated (guest_carts store0 2 ''key'') = Some guest_cart"
    by (simp add: guest_carts_def latest_by_def store0_def cart1_def guest_cart_def)
  have f: "get_or_create_cart env0 2 buyer store0 = Inr (cart1, store0)"
    by (simp add: get_or_create_cart_def latest_by_def store0_def cart1_def guest_cart_def buyer_def)
  obtain db where m: "merge_guest_cart_to_customer env0 2 ''key'' buyer store0 = Inr (cart1, db)"
    by (simp add: merge_guest_cart_to_customer_def g f)
      (simp add: lines_of_cart_def merge_line_def line_for_def save_line_def store_rows)
  from merge_keeps_every_piece [OF m store0_ok(4) g] m show ?thesis by (auto simp: pieces_def store_rows)
qed

theorem adding_adds_exactly_witness:
  "\<exists>i db. add_to_cart 2 cart1 mug 4 None store0 = Inr (i, db) \<and> pieces db 1 1 None = 8"
proof -
  obtain i db where a: "add_to_cart 2 cart1 mug 4 None store0 = Inr (i, db)"
    by (simp add: add_to_cart_def stock_for_def allows_backorder_def get_storefront_display_settings_def foreign_variant_def available_units_def
        line_for_def save_line_def store_rows Let_def lookup_def chosen_def display_defaults_def)
  from adding_adds_exactly [OF a store0_ok(4)] a show ?thesis by (auto simp: pieces_def store_rows)
qed

theorem coupon_limits_hold_witness:
  "\<exists>db. checkouts store0 db \<and> (\<forall>c \<in> set (coupons db). cp_limit c = Some 1 \<longrightarrow> cp_used c \<le> 1)"
proof -
  obtain order db where p: "create_order_from_cart env0 (\<lambda>_. ''00001'') id 2 cart1 corner None None collect No_Point '''' store0 = Some (Inr (order, db))"
    using placed0 by blast
  have c: "checkouts store0 db" by (rule checkouts.one_more [OF checkouts.none p])
  have "cp_used x \<le> 1" if "x \<in> set (coupons db)" "cp_limit x = Some 1" for x
    using coupon_limits_hold [OF c store0_ok(3)] that by fastforce
  with c show ?thesis by blast
qed

theorem checkout_moves_the_cart_witness:
  "\<exists>order db. create_order_from_cart env0 (\<lambda>_. ''00001'') id 2 cart1 corner None None collect No_Point '''' store0 = Some (Inr (order, db)) \<and>
     cart_items db = [more_mugs]"
proof -
  obtain order db where p: "create_order_from_cart env0 (\<lambda>_. ''00001'') id 2 cart1 corner None None collect No_Point '''' store0 = Some (Inr (order, db))"
    using placed0 by blast
  from checkout_moves_the_cart [OF p store0_ok(1,2)] p show ?thesis by (auto simp: store_rows)
qed

theorem charged_no_more_than_quoted_witness:
  "\<exists>order db. create_order_from_cart env0 (\<lambda>_. ''00001'') id 2 cart1 corner None None collect No_Point '''' store0 = Some (Inr (order, db)) \<and>
     cents (od_total order) \<le> cents 5"
proof -
  obtain order db where p: "create_order_from_cart env0 (\<lambda>_. ''00001'') id 2 cart1 corner None None collect No_Point '''' store0 = Some (Inr (order, db))"
    using placed0 by blast
  have "strip (gift_code collect) = gift_code collect" "0 \<le> to_shipping (ch_totals checked0)" "0 \<le> to_tax (ch_totals checked0)"
    by (simp_all add: collect_def checked0_def quote_def)
  from charged_no_more_than_quoted [OF p checked this] p show ?thesis by (auto simp: Let_def checked0_def quote_def)
qed

theorem checked_cart_is_ordered_witness:
  "\<exists>order db. create_order_from_cart env0 (\<lambda>_. ''00001'') id 2 cart1 corner None None collect No_Point '''' store0 = Some (Inr (order, db)) \<and>
     items_in_cart db 1 = []"
proof -
  have n: "order_head env0 @ (\<lambda>_. ''00001'') 0 \<notin> set (map od_number (filter (\<lambda>r. od_workspace r = 2) (orders (shop (fin store0)))))"
    by (simp add: store_rows)
  have "ct_customer (ch_cart checked0) = Some 1" "ch_card checked0 = None \<or> cents (final_total checked0) \<noteq> 0"
    by (simp_all add: checked0_def cart1_def final_total_def final_discount_def quote_def cents_def quantize_half_even_def round_half_even_def)
  with checked_cart_is_ordered [where draw = "\<lambda>_. ''00001''", OF checked n, of "''''"] show ?thesis by (auto simp: cart1_def)
qed

theorem direct_order_adds_up_witness:
  "\<exists>order db. create_order env0 (\<lambda>_. ''00001'') 2 buyer corner None None ''pickup'' No_Point
      [\<lparr>wi_product = 1, wi_variant = None, wi_quantity = 2\<rparr>] \<lparr>am_subtotal = 0, am_shipping = 5, am_tax = 0, am_discount = 1\<rparr> '''' store0 =
      Some (Inr (order, db)) \<and> 0 \<le> od_total order"
proof -
  let ?w = "[\<lparr>wi_product = 1, wi_variant = None, wi_quantity = 2\<rparr>] :: wanted list"
  let ?a = "\<lparr>am_subtotal = 0, am_shipping = 5, am_tax = 0, am_discount = 1\<rparr>"
  have r: "resolve_pickup_point 2 ''pickup'' No_Point store0 = Inr (Some counter)"
    by (simp add: resolve_pickup_point_def default_point_def store0_def counter_def)
  have "order_head env0 @ (\<lambda>_. ''00001'') 0 \<notin> set (map od_number (filter (\<lambda>r. od_workspace r = 2) (orders (shop (fin store0)))))"
    by (simp add: store_rows)
  from number_drawn [where draw = "\<lambda>k. order_head env0 @ ''00001''", OF this] obtain n where
    n: "generate_order_number env0 (\<lambda>_. ''00001'') 2 store0 = Some n" by (auto simp: generate_order_number_def)
  have "product_in (shop (fin store0)) 2 (Suc 0) = Some mug" by (simp add: product_in_def store_rows)
  then have "goods 2 (shop (fin store0)) ?w ?a = Inr ([direct_item mug None 2], 25)"
    by (simp add: goods_def prepare_item_def direct_item_def catalogue_price_def) (simp add: mug_def)
  then have c: "check_direct 2 buyer corner None None ''pickup'' No_Point ?w ?a store0 = Inr (Some counter, [direct_item mug None 2], 25)"
    by (simp add: check_direct_def r address_fits_def amounts_refused_def buyer_def corner_def)
  obtain order db where p: "create_order env0 (\<lambda>_. ''00001'') 2 buyer corner None None ''pickup'' No_Point ?w ?a '''' store0 = Some (Inr (order, db))"
    using c n by (simp add: create_order_def Let_def)
  from direct_order_adds_up [OF p store0_ok(2)] p show ?thesis by auto
qed

theorem invoice_number_is_free_witness: "generate_invoice_number 2 store0 = Some (Inr ''INV-0001'')"
proof -
  have s: "invoice_prefix_of store0 2 = ''INV-''" "invoices (base (fin store0)) = []" "used_numbers store0 2 = []"
    by (simp_all add: invoice_prefix_of_def invoice_settings_of_def used_numbers_def store0_def)
  obtain m where m: "generate_invoice_number 2 store0 = Some (Inr (''INV-'' @ zfill 4 (show_nat (1 + m))))" "\<forall>j. \<not> j < m"
    using invoice_number_is_free [where w = 2 and db = store0] by (auto simp: Let_def s)
  from m(2) have "m = 0" by (metis gr0I)
  moreover have "zfill 4 (show_nat (1 + 0)) = ''0001''" by code_simp
  ultimately show ?thesis using m(1) by simp
qed

end
