(* ===== verification/Archive_Storage.thy ===== *)
theory Archive_Storage
  imports Activation
begin

text \<open>
  Where an archive of an extension's data may be written (\<open>extensions/archive_storage.py\<close>): the
  storage the deployment names for it, refused when it is or might be the storage media are served
  from, and the directory one archive is written to. The storages a deployment configures are
  Django's; of each the attributes the module reads are kept, and \<open>so_object\<close> stands for the
  identity of the object. \<open>os.path.realpath\<close>, which asks the file system, is a parameter.
\<close>

subsection \<open>The storages of a deployment\<close>

record storage =
  so_object :: nat
  custom_domain :: string
  bucket_name :: string
  location :: string

text \<open>The settings the module reads, and \<open>storages\<close>; the empty string stands for an unset value.\<close>

record archive_settings =
  named_storage :: string
  named_prefix :: string
  storages :: "string \<Rightarrow> storage option"
  media_root :: string
  realpath :: "string \<Rightarrow> string"

text \<open>
  The reasons of \<open>ArchiveNotConfigured\<close>, in the order of the checks; \<open>No_Default\<close> is the
  \<open>InvalidStorageError\<close> of a deployment that configures no default storage.
\<close>

datatype unconfigured = No_Alias | Served_Alias string | Not_In_Storages string | No_Default | Same_As_Default
  | Behind_Cdn | Served_Bucket string | Inside_Media string

definition DEFAULT_PREFIX :: string where "DEFAULT_PREFIX = ''extension-archives''"

definition SERVED_ALIASES :: "string list" where "SERVED_ALIASES = [''default'', ''staticfiles'']"

definition storage_alias :: "archive_settings \<Rightarrow> string" where
  "storage_alias s = strip (named_storage s)"

text \<open>\<open>str.strip('/')\<close> and \<open>str.rstrip('/')\<close>.\<close>

definition rstrip_slash :: "string \<Rightarrow> string" where
  "rstrip_slash s = rev (dropWhile (\<lambda>c. c = CHR ''/'') (rev s))"

definition strip_slash :: "string \<Rightarrow> string" where
  "strip_slash s = rstrip_slash (dropWhile (\<lambda>c. c = CHR ''/'') s)"

definition prefix_of :: "archive_settings \<Rightarrow> string" where
  "prefix_of s = or_else (strip_slash (strip (named_prefix s))) DEFAULT_PREFIX"

definition bucket_of :: "storage \<Rightarrow> string option" where
  "bucket_of so = (if bucket_name so = [] then None else Some (bucket_name so))"

definition inside :: "string \<Rightarrow> string \<Rightarrow> bool" where
  "inside path directory = startswith (rstrip_slash directory @ ''/'') path"

definition filesystem_overlap :: "archive_settings \<Rightarrow> storage \<Rightarrow> string" where
  "filesystem_overlap s so =
    (if location so = [] \<or> bucket_of so \<noteq> None then []
     else if media_root s = [] then []
     else let a = realpath s (location so); m = realpath s (media_root s) in
       if a = m \<or> inside a m \<or> inside m a then m else [])"

definition refuse_served_storage :: "archive_settings \<Rightarrow> storage \<Rightarrow> unconfigured option" where
  "refuse_served_storage s so = (case storages s ''default'' of
     None \<Rightarrow> Some No_Default
   | Some served \<Rightarrow>
       if so_object so = so_object served then Some Same_As_Default
       else if custom_domain so \<noteq> [] then Some Behind_Cdn
       else if bucket_of so \<noteq> None \<and> bucket_of so = bucket_of served then Some (Served_Bucket (bucket_name so))
       else if filesystem_overlap s so \<noteq> [] then Some (Inside_Media (filesystem_overlap s so))
       else None)"

definition archive_storage :: "archive_settings \<Rightarrow> unconfigured + storage" where
  "archive_storage s =
    (if storage_alias s = [] then Inl No_Alias
     else if storage_alias s \<in> set SERVED_ALIASES then Inl (Served_Alias (storage_alias s))
     else case storages s (storage_alias s) of None \<Rightarrow> Inl (Not_In_Storages (storage_alias s))
     | Some so \<Rightarrow> (case refuse_served_storage s so of Some p \<Rightarrow> Inl p | None \<Rightarrow> Inr so))"

definition is_configured :: "archive_settings \<Rightarrow> bool" where
  "is_configured s = (case archive_storage s of Inl _ \<Rightarrow> False | Inr _ \<Rightarrow> True)"

subsection \<open>Where one archive lives\<close>

text \<open>\<open>posixpath.join\<close> of two parts.\<close>

definition path_join :: "string \<Rightarrow> string \<Rightarrow> string" where
  "path_join a b = (if startswith ''/'' b then b else if a = [] \<or> last a = CHR ''/'' then a @ b else a @ ''/'' @ b)"

definition extension_root :: "archive_settings \<Rightarrow> nat \<Rightarrow> string \<Rightarrow> string" where
  "extension_root s w key = path_join (path_join (prefix_of s) (''workspace-'' @ show_nat w)) key"

text \<open>\<open>%Y%m%dT%H%M%SZ\<close> of a moment in UTC.\<close>

definition second_of_day :: "moment \<Rightarrow> nat" where
  "second_of_day t = nat ((t mod day_us) div 1000000)"

definition stamp :: "moment \<Rightarrow> string" where
  "stamp t = (let d = day_of t; n = second_of_day t in
     zero_pad 4 (nat (year_of d)) @ zero_pad 2 (nat (month_of d)) @ zero_pad 2 (nat (day_of_month d)) @ ''T'' @
     zero_pad 2 (n div 3600) @ zero_pad 2 (n div 60 mod 60) @ zero_pad 2 (n mod 60) @ ''Z'')"

definition archive_directory :: "archive_settings \<Rightarrow> nat \<Rightarrow> string \<Rightarrow> moment \<Rightarrow> string" where
  "archive_directory s w key t = path_join (extension_root s w key) (stamp t)"

subsection \<open>Archives are not served\<close>

text \<open>The storage archives go to is none of what the deployment serves, whichever way it is reached.\<close>

lemma archive_storage_is_not_served:
  assumes "archive_storage s = Inr so" "storages s ''default'' = Some served"
  shows "so_object so \<noteq> so_object served" "custom_domain so = []"
    "bucket_name so = [] \<or> bucket_name so \<noteq> bucket_name served"
    "location so = [] \<or> bucket_name so \<noteq> [] \<or> media_root s = [] \<or> filesystem_overlap s so = []"
    "storage_alias s \<notin> {''default'', ''staticfiles''}"
proof -
  from assms(1) have r: "refuse_served_storage s so = None" and a: "storage_alias s \<notin> set SERVED_ALIASES"
    by (auto simp: archive_storage_def split: if_splits option.splits)
  show "so_object so \<noteq> so_object served" "custom_domain so = []"
      "bucket_name so = [] \<or> bucket_name so \<noteq> bucket_name served"
      "location so = [] \<or> bucket_name so \<noteq> [] \<or> media_root s = [] \<or> filesystem_overlap s so = []"
    using r assms(2) by (auto simp: refuse_served_storage_def bucket_of_def split: if_splits)
  show "storage_alias s \<notin> {''default'', ''staticfiles''}" using a by (simp add: SERVED_ALIASES_def)
qed

subsection \<open>Archives do not share a directory\<close>

lemma zero_pad_inject: "0 < w \<Longrightarrow> m < 10 ^ w \<Longrightarrow> n < 10 ^ w \<Longrightarrow> zero_pad w m = zero_pad w n \<longleftrightarrow> m = n"
  by (metis int_of_zero_pad option.inject)

lemma second_of_day_bound: "second_of_day t < 86400"
proof -
  have "t mod day_us < day_us" by simp
  then have "(t mod day_us) div 1000000 < 86400" by simp
  then show ?thesis by (simp add: second_of_day_def)
qed

lemma clock_inject:
  assumes "(m::nat) div 3600 = n div 3600" "m div 60 mod 60 = n div 60 mod 60" "m mod 60 = n mod 60"
  shows "m = n"
proof -
  have "k = (k div 3600) * 3600 + (k div 60 mod 60) * 60 + k mod 60" for k :: nat
  proof -
    have "k div 60 * 60 + k mod 60 = k" "k div 60 div 60 * 60 + k div 60 mod 60 = k div 60" by (rule div_mult_mod_eq)+
    moreover have "k div 3600 = k div 60 div 60" by (simp add: div_mult2_eq [symmetric])
    ultimately show ?thesis by linarith
  qed
  from this [of m] this [of n] assms show ?thesis by simp
qed

definition four_digit_year :: "moment \<Rightarrow> bool" where
  "four_digit_year t \<longleftrightarrow> 0 \<le> year_of (day_of t) \<and> year_of (day_of t) < 10000"

lemma stamp_inject:
  assumes s: "stamp t = stamp u" and y: "four_digit_year t" "four_digit_year u"
  shows "day_of t = day_of u" "second_of_day t = second_of_day u"
proof -
  let ?d = "day_of t" and ?e = "day_of u" and ?m = "second_of_day t" and ?n = "second_of_day u"
  have parts: "1 \<le> month_of d" "month_of d \<le> 12" "1 \<le> day_of_month d" "day_of_month d \<le> 31" for d
    using civil_parts [of d] by (auto simp: valid_ymd_def days_in_month_def leap_day_def split: if_splits)
  have z: "zero_pad 4 (nat (year_of ?d)) = zero_pad 4 (nat (year_of ?e))"
    "zero_pad 2 (nat (month_of ?d)) = zero_pad 2 (nat (month_of ?e))"
    "zero_pad 2 (nat (day_of_month ?d)) = zero_pad 2 (nat (day_of_month ?e))"
    "zero_pad 2 (?m div 3600) = zero_pad 2 (?n div 3600)"
    "zero_pad 2 (?m div 60 mod 60) = zero_pad 2 (?n div 60 mod 60)"
    "zero_pad 2 (?m mod 60) = zero_pad 2 (?n mod 60)"
    using s unfolding stamp_def Let_def by (simp_all del: zero_pad_numeral)
  have p: "zero_pad 2 a = zero_pad 2 b \<Longrightarrow> a < 100 \<Longrightarrow> b < 100 \<Longrightarrow> a = b" for a b
    using zero_pad_inject [of 2 a b] by (simp del: zero_pad_numeral)
  have "nat (year_of ?d) = nat (year_of ?e)" using z(1) zero_pad_inject [of 4 "nat (year_of ?d)" "nat (year_of ?e)"] y
    by (simp add: four_digit_year_def nat_less_iff del: zero_pad_numeral)
  then have "year_of ?d = year_of ?e" using y unfolding four_digit_year_def by linarith
  moreover have "nat (month_of ?d) = nat (month_of ?e)"
    by (rule p [OF z(2)]) (use parts(1,2) [of ?d] parts(1,2) [of ?e] in linarith)+
  then have "month_of ?d = month_of ?e" using parts(1) [of ?d] parts(1) [of ?e] by linarith
  moreover have "nat (day_of_month ?d) = nat (day_of_month ?e)"
    by (rule p [OF z(3)]) (use parts(3,4) [of ?d] parts(3,4) [of ?e] in linarith)+
  then have "day_of_month ?d = day_of_month ?e" using parts(3) [of ?d] parts(3) [of ?e] by linarith
  ultimately have "civil ?d = civil ?e" by (simp add: year_of_def month_of_def day_of_month_def prod_eq_iff)
  then show "?d = ?e" using civil_sound [of ?d] civil_sound [of ?e] by (cases "civil ?e") auto
  show "?m = ?n"
  proof (rule clock_inject)
    show "?m div 3600 = ?n div 3600" by (rule p [OF z(4)]) (use second_of_day_bound [of t] second_of_day_bound [of u] in simp_all)
    show "?m div 60 mod 60 = ?n div 60 mod 60" by (rule p [OF z(5)]) (simp_all add: less_trans [OF mod_less_divisor])
    show "?m mod 60 = ?n mod 60" by (rule p [OF z(6)]) (simp_all add: less_trans [OF mod_less_divisor])
  qed
qed

lemma split_at_first: "x \<notin> set a \<Longrightarrow> x \<notin> set c \<Longrightarrow> a @ x # b = c @ x # d \<Longrightarrow> a = c \<and> b = d"
proof (induction a arbitrary: c)
  case Nil
  then show ?case by (cases c) auto
next
  case (Cons y a)
  then show ?case by (cases c) auto
qed

lemma rstrip_slash_last: "rstrip_slash s = [] \<or> last (rstrip_slash s) \<noteq> CHR ''/''"
proof -
  let ?r = "dropWhile (\<lambda>c. c = CHR ''/'') (rev s)"
  show ?thesis using hd_dropWhile [of "\<lambda>c. c = CHR ''/''" "rev s"]
    by (cases "?r = []") (auto simp: rstrip_slash_def last_rev simp del: set_rev)
qed

lemma prefix_of_proper: "prefix_of s \<noteq> [] \<and> last (prefix_of s) \<noteq> CHR ''/''"
  using rstrip_slash_last [of "dropWhile (\<lambda>c. c = CHR ''/'') (strip (named_prefix s))"]
  by (auto simp: prefix_of_def or_else_def strip_slash_def DEFAULT_PREFIX_def)

lemma archive_directory_eq:
  assumes "CHR ''/'' \<notin> set key" "key \<noteq> []"
  shows "archive_directory s w key t = prefix_of s @ ''/workspace-'' @ show_nat w @ CHR ''/'' # key @ CHR ''/'' # stamp t"
proof -
  have slash: "show_digit (n mod 10) \<noteq> CHR ''/''" for n
    using ascii_show_digit [of "n mod 10"] by (auto simp: ascii_digit_def)
  have d: "\<not> startswith ''/'' (stamp t)" by (simp add: startswith_def stamp_def Let_def slash)
  have k: "\<not> startswith ''/'' key" using assms by (cases key) (auto simp: startswith_def)
  have "CHR ''/'' \<notin> set (show_nat w)" by (rule show_nat_no) (simp add: ascii_digit_def)
  then have l: "last (show_nat w) \<noteq> CHR ''/''" using last_in_set [OF show_nat_nonempty, of w] by metis
  have m: "last key \<noteq> CHR ''/''" using assms(1) last_in_set [OF assms(2)] by metis
  show ?thesis using prefix_of_proper [of s] d k l m assms(2)
    by (simp add: archive_directory_def extension_root_def path_join_def startswith_def)
qed

text \<open>Two archives share a directory only when they are of one workspace, one extension and one second.\<close>

lemma archive_directory_inject:
  assumes "archive_directory s w k t = archive_directory s v l u" "four_digit_year t" "four_digit_year u"
    and "CHR ''/'' \<notin> set k" "k \<noteq> []" "CHR ''/'' \<notin> set l" "l \<noteq> []"
  shows "w = v" "k = l" "day_of t = day_of u" "second_of_day t = second_of_day u"
proof -
  have no: "CHR ''/'' \<notin> set (show_nat n)" for n by (rule show_nat_no) (simp add: ascii_digit_def)
  have e: "show_nat w @ CHR ''/'' # k @ CHR ''/'' # stamp t = show_nat v @ CHR ''/'' # l @ CHR ''/'' # stamp u"
    using assms(1) archive_directory_eq [OF assms(4,5), of s w t] archive_directory_eq [OF assms(6,7), of s v u] by simp
  from split_at_first [OF no no e] have 1: "w = v" "k @ CHR ''/'' # stamp t = l @ CHR ''/'' # stamp u" by simp_all
  from split_at_first [OF assms(4) assms(6) 1(2)] have 2: "k = l" "stamp t = stamp u" by simp_all
  from 1 2 stamp_inject [OF 2(2) assms(2,3)] show "w = v" "k = l" "day_of t = day_of u" "second_of_day t = second_of_day u"
    by simp_all
qed

end
