(* ===== verification/Archive.thy ===== *)
theory Archive
  imports Archive_Storage
begin

text \<open>
  Archiving the data of an extension and bringing it back (\<open>extensions/archive.py\<close>): what may be
  archived, writing the tables to storage and reading them back, the claim and the sealing of a
  run, the restore, and the sweep.

  The tables are the deployment's own, so what Django knows of them is data of the model: a
  \<open>model\<close> carries the columns, the many-to-many fields and the relations pointing at it that the
  module reads. Rows are kept in the order of their keys. Rows of join tables Django makes are
  pairs of keys. What stands for code outside the repository is a parameter of \<open>archive_env\<close>:
  the storage backend's \<open>save\<close>, the row writer of Django's serializer and its reader, the
  checksum, the delete of a queryset with what it reports, and the converters of an extension.
  The manifest of an archive is a JSON document: it is kept as the record it holds, since only
  whole documents are compared. The other files are text, of which every character outside ASCII
  takes two bytes in the encoding used.

  A run is three transactions, the claim, the sealing and, when something failed, the release;
  writing and reading storage lie between them. \<open>archive\<close> composes them for a run nobody
  interferes with; the steps are definitions of their own so that interleavings can be stated.
\<close>

subsection \<open>Tables\<close>

datatype column = Null_Value | Ref nat | Words string | Keys "nat list"

record row =
  rw_key :: nat
  rw_values :: "(string \<times> column) list"

text \<open>Tables by their label, and join tables by that of their model: pairs of owner and target.\<close>

record data =
  tabs :: "string \<Rightarrow> row list"
  links :: "string \<Rightarrow> (nat \<times> nat) list"

text \<open>
  A many-to-many field: the label of what it points at and whether that has a workspace relation,
  and its join table, with whether Django made it.
\<close>

record many =
  mm_field :: string
  mm_target :: string
  mm_scoped :: bool
  mm_through :: string
  mm_auto :: bool

text \<open>
  A relation pointing at a model: the model it comes from, its field there (through a join table
  when it is many-to-many), the label of the model the join table was made for when it comes from
  one, and whether the query that asks about it can be made at all.
\<close>

record reverse_relation =
  rl_model :: string
  rl_field :: string
  rl_through :: "string option"
  rl_made_for :: "string option"
  rl_asks :: bool

record model =
  md_label :: string
  md_app :: string
  md_columns :: "(string \<times> string option) list"
  md_many :: "many list"
  md_related :: "reverse_relation list"

subsection \<open>Archives\<close>

text \<open>One row as it is written: the label in small letters, the key, the fields.\<close>

record stored_row =
  sr_model :: string
  sr_key :: nat
  sr_values :: "(string \<times> column) list"

record table_entry =
  te_model :: string
  te_file :: string
  te_rows :: nat
  te_checksum :: string
  te_bytes :: nat

record archive_manifest =
  am_format :: nat
  am_extension :: string
  am_workspace :: nat
  am_slug :: string
  am_directory :: string
  am_archived_at :: moment
  am_status_before :: "ext_status option"
  am_reason_before :: string
  am_changed_at :: "moment option"
  am_config :: string
  am_migrations :: "(string \<times> string) list"
  am_tables :: "table_entry list"
  am_joins :: "(string \<times> nat) list"
  am_total :: nat

datatype content = Lines string | Manifest_File archive_manifest | Not_A_Manifest

type_synonym files = "string \<Rightarrow> content option"

text \<open>
  \<open>archive_state\<close>, a JSON object: what a run notes when it starts, when it ends and when it fails.
  Moments are written with \<open>isoformat\<close> and read back with \<open>fromisoformat\<close>, its inverse.
\<close>

record archive_state =
  previous_status :: "ext_status option"
  previous_reason :: string
  previous_changed_at :: "moment option"
  started_at :: "moment option"
  finished_at :: "moment option"
  st_location :: string
  st_rows :: nat
  st_tables :: nat
  st_error :: string
  failed_at :: "moment option"
  restored_at :: "moment option"
  restored_rows :: nat
  restored_from :: string

definition no_state :: archive_state where
  "no_state = \<lparr>previous_status = None, previous_reason = [], previous_changed_at = None, started_at = None,
     finished_at = None, st_location = [], st_rows = 0, st_tables = 0, st_error = [], failed_at = None,
     restored_at = None, restored_rows = 0, restored_from = []\<rparr>"

record extension_row = ext_record +
  archive_location :: string
  archive_state :: archive_state

text \<open>
  The state a run works on: the tables, the extension records, the migrations applied, the files
  in storage, and the workspaces whose cached answers were forgotten (\<open>invalidate\<close>), in order.
\<close>

record world =
  rows_of :: data
  ext_rows :: "extension_row list"
  applied :: "(string \<times> string) list"
  stored :: files
  forgotten :: "nat list"

text \<open>\<open>ArchiveNotConfigured\<close>, \<open>ArchiveRefused\<close> with its code and details, any other exception.\<close>

datatype archive_error = Unconfigured unconfigured | Refused string "string list" | Failed string

datatype converted = Converted "stored_row list" | Refuses | Not_A_List | Breaks string

type_synonym converter = "archive_manifest \<Rightarrow> string \<Rightarrow> stored_row list \<Rightarrow> converted"

record archive_env =
  ae_now :: moment
  ae_settings :: archive_settings
  ae_registry :: "manifest list"
  ae_declares :: "string \<Rightarrow> string list"
  ae_converters :: "string \<Rightarrow> (string \<times> converter) list"
  ae_models :: "string \<Rightarrow> model option"
  ae_after_days :: nat
  ae_stuck_setting :: "int option"
  ae_dump :: "stored_row \<Rightarrow> string"
  ae_load :: "string \<Rightarrow> stored_row option"
  ae_checksum :: "string \<Rightarrow> string"
  ae_save :: "files \<Rightarrow> string \<Rightarrow> content \<Rightarrow> string + (string \<times> files)"
  ae_delete :: "data \<Rightarrow> string \<Rightarrow> nat \<Rightarrow> string + (data \<times> (string \<times> nat) list)"

definition FORMAT_VERSION :: nat where "FORMAT_VERSION = 1"
definition MANIFEST_NAME :: string where "MANIFEST_NAME = ''manifest.json''"
definition REASON_ARCHIVING :: string where "REASON_ARCHIVING = ''archiving''"
definition REASON_ARCHIVED :: string where "REASON_ARCHIVED = ''archived''"
definition REASON_ARCHIVE_FAILED :: string where "REASON_ARCHIVE_FAILED = ''archive_failed''"
definition REASON_ARCHIVE_INTERRUPTED :: string where "REASON_ARCHIVE_INTERRUPTED = ''archive_interrupted''"
definition REASON_RESTORING :: string where "REASON_RESTORING = ''restoring''"
definition REASON_RESTORE_FAILED :: string where "REASON_RESTORE_FAILED = ''restore_failed''"
definition REASON_RESTORE_INTERRUPTED :: string where "REASON_RESTORE_INTERRUPTED = ''restore_interrupted''"

lemmas archive_reasons = REASON_ARCHIVING_def REASON_ARCHIVED_def REASON_ARCHIVE_FAILED_def
  REASON_ARCHIVE_INTERRUPTED_def REASON_RESTORING_def REASON_RESTORE_FAILED_def REASON_RESTORE_INTERRUPTED_def

definition error_code :: "archive_error \<Rightarrow> string" where
  "error_code e = (case e of Unconfigured _ \<Rightarrow> ''ArchiveNotConfigured'' | Refused c _ \<Rightarrow> c | Failed c \<Rightarrow> c)"

subsection \<open>What may be archived\<close>

definition manifest_of :: "archive_env \<Rightarrow> string \<Rightarrow> archive_error + manifest" where
  "manifest_of e key = (case get_manifest (ae_registry e) key of
     None \<Rightarrow> Inl (Refused ''unknown_extension'' [])
   | Some m \<Rightarrow> if \<not> is_activatable m then Inl (Refused ''not_activatable'' []) else Inr m)"

definition ext_row :: "world \<Rightarrow> nat \<Rightarrow> string \<Rightarrow> extension_row option" where
  "ext_row W w key = first (filter (\<lambda>r. xr_workspace r = w \<and> xr_key r = key) (ext_rows W))"

definition row_by_id :: "world \<Rightarrow> nat \<Rightarrow> extension_row option" where
  "row_by_id W i = first (filter (\<lambda>r. xr_id r = i) (ext_rows W))"

definition save_ext :: "extension_row \<Rightarrow> world \<Rightarrow> world" where
  "save_ext r W = W\<lparr>ext_rows := update_where (\<lambda>x. xr_id x = xr_id r) (\<lambda>_. r) (ext_rows W),
     forgotten := forgotten W @ [xr_workspace r]\<rparr>"

definition record_for :: "world \<Rightarrow> nat \<Rightarrow> string \<Rightarrow> archive_error + extension_row" where
  "record_for W w key = (case ext_row W w key of None \<Rightarrow> Inl (Refused ''not_used'' []) | Some r \<Rightarrow> Inr r)"

text \<open>The model a declared label names, when it has a workspace relation.\<close>

definition scoped_model :: "archive_env \<Rightarrow> string \<Rightarrow> archive_error + model" where
  "scoped_model e label = (case ae_models e label of
     None \<Rightarrow> Inl (Refused ''unknown_model'' [label])
   | Some m \<Rightarrow> if list_ex (\<lambda>(name, target). name = ''workspace'' \<and> target \<noteq> None) (md_columns m) then Inr m
       else Inl (Refused ''unscoped_model'' [md_label m]))"

fun scoped_models :: "archive_env \<Rightarrow> string list \<Rightarrow> archive_error + model list" where
  "scoped_models e [] = Inr []"
| "scoped_models e (l # ls) = bind_r (scoped_model e l) (\<lambda>m. bind_r (scoped_models e ls) (\<lambda>ms. Inr (m # ms)))"

text \<open>What a model points at among \<open>labels\<close>, itself apart.\<close>

definition waits_for :: "string set \<Rightarrow> model \<Rightarrow> string set" where
  "waits_for labels m = {l. l \<in> labels \<and> l \<noteq> md_label m \<and>
     (list_ex (\<lambda>(_, target). target = Some l) (md_columns m) \<or> list_ex (\<lambda>f. mm_target f = l) (md_many m))}"

definition ready :: "string set \<Rightarrow> string set \<Rightarrow> model \<Rightarrow> bool" where
  "ready labels placed m \<longleftrightarrow> (\<forall>(_, target) \<in> set (md_columns m). case target of None \<Rightarrow> True
       | Some l \<Rightarrow> l \<in> labels \<longrightarrow> l \<noteq> md_label m \<longrightarrow> l \<in> placed) \<and>
     (\<forall>f \<in> set (md_many m). mm_target f \<in> labels \<longrightarrow> mm_target f \<noteq> md_label m \<longrightarrow> mm_target f \<in> placed)"

lemma ready_iff: "ready labels placed m \<longleftrightarrow> waits_for labels m \<subseteq> placed"
  by (auto simp: ready_def waits_for_def list_ex_iff split: option.splits)

function place :: "string set \<Rightarrow> string set \<Rightarrow> model list \<Rightarrow> model list" where
  "place labels placed remaining =
    (if remaining = [] then []
     else let now = filter (ready labels placed) remaining in
       if now = [] then remaining
       else let placed = placed \<union> md_label ` set now in
         now @ place labels placed (filter (\<lambda>m. md_label m \<notin> placed) remaining))"
  by pat_completeness auto
termination
proof (relation "measure (\<lambda>(labels, placed, remaining). length remaining)")
  fix labels placed :: "string set" and remaining now :: "model list" and placed' :: "string set"
  assume "remaining \<noteq> []" and now: "now = filter (ready labels placed) remaining" "now \<noteq> []"
    and placed': "placed' = placed \<union> md_label ` set now"
  from now(2) obtain m where "m \<in> set now" by (cases now) auto
  with now(1) have m: "m \<in> set remaining" "m \<in> set now" by simp_all
  then have "\<not> md_label m \<notin> placed'" by (simp add: placed')
  with m(1) have "length (filter (\<lambda>m. md_label m \<notin> placed') remaining) < length remaining"
    by (rule length_filter_less)
  then show "((labels, placed', filter (\<lambda>m. md_label m \<notin> placed') remaining), labels, placed, remaining)
      \<in> measure (\<lambda>(labels, placed, remaining). length remaining)" by simp
qed simp

declare place.simps [simp del]

definition parents_first :: "model list \<Rightarrow> model list" where
  "parents_first models = place (set (map md_label models)) {} models"

definition archivable_models :: "archive_env \<Rightarrow> string \<Rightarrow> archive_error + model list" where
  "archivable_models e key = bind_r (scoped_models e (ae_declares e key)) (\<lambda>models.
     if models = [] then Inl (Refused ''no_data_models'' []) else Inr (parents_first models))"

definition joined_through :: "model \<Rightarrow> many list" where
  "joined_through m = filter mm_auto (md_many m)"

definition through_labels :: "model list \<Rightarrow> string list" where
  "through_labels models = concat (map (\<lambda>m. map mm_through (joined_through m)) models)"

subsection \<open>Whose rows they are\<close>

definition row_workspace :: "row \<Rightarrow> nat option" where
  "row_workspace r = (case map_of (rw_values r) ''workspace'' of Some (Ref n) \<Rightarrow> Some n | _ \<Rightarrow> None)"

text \<open>\<open>model._base_manager.filter(workspace=...)\<close>, in the order of the keys.\<close>

definition of_workspace :: "nat \<Rightarrow> row list \<Rightarrow> row list" where
  "of_workspace w rows = filter (\<lambda>r. row_workspace r = Some w) rows"

text \<open>\<open>refuse_outside_references\<close>: whether a relation holds a row that points at the workspace's rows.\<close>

definition points_at :: "data \<Rightarrow> model \<Rightarrow> nat \<Rightarrow> reverse_relation \<Rightarrow> bool" where
  "points_at D m w rl = (if \<not> rl_asks rl then True
     else let targets = map rw_key (of_workspace w (tabs D (md_label m))) in
       case rl_through rl of
         None \<Rightarrow> list_ex (\<lambda>r. case map_of (rw_values r) (rl_field rl) of Some (Ref k) \<Rightarrow> k \<in> set targets | _ \<Rightarrow> False)
           (tabs D (rl_model rl))
       | Some t \<Rightarrow> list_ex (\<lambda>(_, b). b \<in> set targets) (links D t))"

definition outside_relation :: "string list \<Rightarrow> reverse_relation \<Rightarrow> bool" where
  "outside_relation owned rl \<longleftrightarrow> rl_model rl \<notin> set owned \<and>
     (case rl_made_for rl of Some l \<Rightarrow> l \<notin> set owned | None \<Rightarrow> True)"

definition refuse_outside_references :: "data \<Rightarrow> nat \<Rightarrow> model list \<Rightarrow> archive_error option" where
  "refuse_outside_references D w models = (let owned = map md_label models in
     first (concat (map (\<lambda>m. map (\<lambda>rl. Refused ''outside_references'' [md_label m, rl_model rl])
       (filter (\<lambda>rl. outside_relation owned rl \<and> points_at D m w rl) (md_related m))) models)))"

text \<open>\<open>refuse_split_joins\<close>: a join of a row of the workspace with a row that is not.\<close>

definition split_join :: "data \<Rightarrow> nat \<Rightarrow> model \<Rightarrow> many \<Rightarrow> bool" where
  "split_join D w m f \<longleftrightarrow> mm_scoped f \<and>
     list_ex (\<lambda>(a, b). a \<in> set (map rw_key (of_workspace w (tabs D (md_label m)))) \<and>
       \<not> list_ex (\<lambda>r. rw_key r = b \<and> row_workspace r = Some w) (tabs D (mm_target f))) (links D (mm_through f))"

definition refuse_split_joins :: "data \<Rightarrow> nat \<Rightarrow> model list \<Rightarrow> archive_error option" where
  "refuse_split_joins D w models = first (concat (map (\<lambda>m.
     map (\<lambda>f. Refused ''cross_workspace_join'' [md_label m, mm_field f]) (filter (split_join D w m) (joined_through m)))
     models))"

definition row_counts :: "data \<Rightarrow> nat \<Rightarrow> model list \<Rightarrow> (string \<times> nat) list" where
  "row_counts D w models = map (\<lambda>m. (md_label m, length (of_workspace w (tabs D (md_label m))))) models"

subsection \<open>Writing the archive\<close>

text \<open>The last migration applied to an app, the empty string when there is none.\<close>

definition latest_migration :: "(string \<times> string) list \<Rightarrow> string \<Rightarrow> string" where
  "latest_migration ms app = fold max (map snd (filter (\<lambda>(a, _). a = app) ms)) []"

definition migrations_of :: "(string \<times> string) list \<Rightarrow> model list \<Rightarrow> (string \<times> string) list" where
  "migrations_of ms models = map (\<lambda>m. (md_app m, latest_migration ms (md_app m))) models"

text \<open>Lines, checksum and size of a file; an unterminated last line counts.\<close>

definition line_feed :: char where "line_feed = char_of (10::nat)"

definition encoded_size :: "string \<Rightarrow> nat" where
  "encoded_size t = sum_list (map (\<lambda>c. if (of_char c :: nat) < 128 then 1 else 2) t)"

definition digest :: "archive_env \<Rightarrow> string \<Rightarrow> nat \<times> string \<times> nat" where
  "digest e t = (length (filter (\<lambda>c. c = line_feed) t) + (if t \<noteq> [] \<and> last t \<noteq> line_feed then 1 else 0),
     ''sha256:'' @ ae_checksum e t, encoded_size t)"

definition save_file :: "archive_env \<Rightarrow> files \<Rightarrow> string \<Rightarrow> content \<Rightarrow> archive_error option \<times> files" where
  "save_file e st name c = (case ae_save e st name c of Inl cls \<Rightarrow> (Some (Failed cls), st)
     | Inr (saved, st') \<Rightarrow> (if saved \<noteq> name then Some (Refused ''storage_renamed_file'' [saved]) else None, st'))"

definition joined_keys :: "data \<Rightarrow> many \<Rightarrow> nat \<Rightarrow> nat list" where
  "joined_keys D f k = map snd (filter (\<lambda>(a, _). a = k) (links D (mm_through f)))"

text \<open>A row as the serializer writes it: its fields and, for each join Django made, the keys it joins to.\<close>

definition stored_of :: "data \<Rightarrow> model \<Rightarrow> row \<Rightarrow> stored_row" where
  "stored_of D m r = \<lparr>sr_model = lower (md_label m), sr_key = rw_key r,
     sr_values = rw_values r @ map (\<lambda>f. (mm_field f, Keys (joined_keys D f (rw_key r)))) (joined_through m)\<rparr>"

definition table_text :: "archive_env \<Rightarrow> data \<Rightarrow> nat \<Rightarrow> model \<Rightarrow> string" where
  "table_text e D w m = concat (map (\<lambda>r. ae_dump e (stored_of D m r)) (of_workspace w (tabs D (md_label m))))"

definition file_of :: "model \<Rightarrow> string" where
  "file_of m = md_label m @ ''.jsonl''"

definition entry_of :: "archive_env \<Rightarrow> model \<Rightarrow> string \<Rightarrow> table_entry" where
  "entry_of e m t = (case digest e t of (n, c, b) \<Rightarrow>
     \<lparr>te_model = md_label m, te_file = file_of m, te_rows = n, te_checksum = c, te_bytes = b\<rparr>)"

fun write_tables :: "archive_env \<Rightarrow> data \<Rightarrow> nat \<Rightarrow> string \<Rightarrow> files \<Rightarrow> model list \<Rightarrow> (archive_error + table_entry list) \<times> files" where
  "write_tables e D w dir st [] = (Inr [], st)"
| "write_tables e D w dir st (m # ms) = (let t = table_text e D w m in
     case save_file e st (path_join dir (file_of m)) (Lines t) of
       (Some err, st) \<Rightarrow> (Inl err, st)
     | (None, st) \<Rightarrow> (case write_tables e D w dir st ms of
           (Inl err, st) \<Rightarrow> (Inl err, st)
         | (Inr es, st) \<Rightarrow> (Inr (entry_of e m t # es), st)))"

text \<open>How many join rows of each join table were written inside the rows that own them.\<close>

definition join_count :: "data \<Rightarrow> nat \<Rightarrow> model list \<Rightarrow> string \<Rightarrow> nat" where
  "join_count D w models l = sum_list (map (\<lambda>m. sum_list (map (\<lambda>f. sum_list (map (\<lambda>r. length (joined_keys D f (rw_key r)))
       (of_workspace w (tabs D (md_label m))))) (filter (\<lambda>f. mm_through f = l) (joined_through m)))) models)"

definition join_counts :: "data \<Rightarrow> nat \<Rightarrow> model list \<Rightarrow> (string \<times> nat) list" where
  "join_counts D w models = map (\<lambda>l. (l, join_count D w models l)) (remdups (through_labels models))"

definition manifest_for :: "world \<Rightarrow> nat \<Rightarrow> string \<Rightarrow> extension_row \<Rightarrow> model list \<Rightarrow> string \<Rightarrow> moment \<Rightarrow> archive_state
    \<Rightarrow> table_entry list \<Rightarrow> archive_manifest" where
  "manifest_for W w slug r models dir t previous entries = \<lparr>am_format = FORMAT_VERSION, am_extension = xr_key r,
     am_workspace = w, am_slug = slug, am_directory = dir, am_archived_at = t,
     am_status_before = previous_status previous, am_reason_before = previous_reason previous,
     am_changed_at = previous_changed_at previous, am_config = xr_config r,
     am_migrations = migrations_of (applied W) models, am_tables = entries,
     am_joins = join_counts (rows_of W) w models, am_total = sum_list (map te_rows entries)\<rparr>"

definition export_run :: "archive_env \<Rightarrow> world \<Rightarrow> nat \<Rightarrow> string \<Rightarrow> extension_row \<Rightarrow> model list \<Rightarrow> moment \<Rightarrow> archive_state
    \<Rightarrow> (archive_error + archive_manifest) \<times> files" where
  "export_run e W w slug r models t previous =
    (let dir = archive_directory (ae_settings e) w (xr_key r) t in
     if stored W (path_join dir MANIFEST_NAME) \<noteq> None then (Inl (Refused ''archive_exists'' [dir]), stored W)
     else case write_tables e (rows_of W) w dir (stored W) models of
       (Inl err, st) \<Rightarrow> (Inl err, st)
     | (Inr entries, st) \<Rightarrow>
         (let p = manifest_for W w slug r models dir t previous entries in
          case save_file e st (path_join dir MANIFEST_NAME) (Manifest_File p) of
            (Some err, st) \<Rightarrow> (Inl err, st)
          | (None, st) \<Rightarrow> (Inr p, st)))"

text \<open>What a file reads as: \<open>_digest_stored\<close>, on text; a document in its place is other bytes.\<close>

definition reads_as :: "archive_env \<Rightarrow> content \<Rightarrow> table_entry \<Rightarrow> bool" where
  "reads_as e c entry = (case c of Lines t \<Rightarrow> digest e t = (te_rows entry, te_checksum entry, te_bytes entry) | _ \<Rightarrow> False)"

definition check_file :: "archive_env \<Rightarrow> files \<Rightarrow> string \<Rightarrow> table_entry \<Rightarrow> archive_error option" where
  "check_file e st dir entry = (case st (path_join dir (te_file entry)) of
     None \<Rightarrow> Some (Refused ''missing_file'' [path_join dir (te_file entry)])
   | Some c \<Rightarrow> if reads_as e c entry then None else Some (Refused ''checksum_mismatch'' [te_model entry]))"

fun first_error :: "('a \<Rightarrow> 'e option) \<Rightarrow> 'a list \<Rightarrow> 'e option" where
  "first_error f [] = None"
| "first_error f (x # xs) = (case f x of Some err \<Rightarrow> Some err | None \<Rightarrow> first_error f xs)"

definition verify :: "archive_env \<Rightarrow> files \<Rightarrow> archive_manifest \<Rightarrow> archive_error option" where
  "verify e st p = (case first_error (check_file e st (am_directory p)) (am_tables p) of Some err \<Rightarrow> Some err
   | None \<Rightarrow> (case st (path_join (am_directory p) MANIFEST_NAME) of
        Some (Manifest_File q) \<Rightarrow> if q = p then None else Some (Refused ''manifest_mismatch'' [])
      | Some (Lines _) \<Rightarrow> Some (Refused ''manifest_unreadable'' [])
      | Some Not_A_Manifest \<Rightarrow> Some (Refused ''manifest_mismatch'' [])
      | None \<Rightarrow> Some (Refused ''manifest_unreadable'' [])))"


subsection \<open>A run\<close>

definition archive_limit :: "archive_env \<Rightarrow> moment \<Rightarrow> moment" where
  "archive_limit e t = t - days_delta (int (ae_after_days e))"

definition claimed :: "moment \<Rightarrow> nat option \<Rightarrow> extension_row \<Rightarrow> extension_row" where
  "claimed t user r = r\<lparr>archive_state := no_state\<lparr>previous_status := Some (xr_status r), previous_reason := xr_reason r,
       previous_changed_at := Some (xr_changed_at r), started_at := Some t\<rparr>,
     xr_status := Ext_Archiving, xr_reason := REASON_ARCHIVING, xr_changed_at := t, xr_changed_by := user\<rparr>"

definition claim :: "archive_env \<Rightarrow> world \<Rightarrow> nat \<Rightarrow> string \<Rightarrow> moment \<Rightarrow> nat option \<Rightarrow> bool
    \<Rightarrow> archive_error + (extension_row \<times> world)" where
  "claim e W w key t user ignore_age = bind_r (record_for W w key) (\<lambda>r.
     if xr_status r \<notin> {Ext_Inactive, Ext_Paused} then Inl (Refused ''not_archivable'' [])
     else if \<not> ignore_age \<and> archive_limit e t < xr_changed_at r then Inl (Refused ''too_soon'' [])
     else Inr (claimed t user r, save_ext (claimed t user r) W))"

text \<open>Deleting the workspace's rows, children first, and what each delete reports, added up.\<close>

fun delete_tables :: "archive_env \<Rightarrow> nat \<Rightarrow> data \<Rightarrow> string list \<Rightarrow> string + (data \<times> (string \<times> nat) list)" where
  "delete_tables e w D [] = Inr (D, [])"
| "delete_tables e w D (l # ls) = bind_r (ae_delete e D l w) (\<lambda>(D, counts).
     bind_r (delete_tables e w D ls) (\<lambda>(D, more_counts). Inr (D, counts @ more_counts)))"

definition deleted_rows :: "(string \<times> nat) list \<Rightarrow> string \<Rightarrow> nat" where
  "deleted_rows counts l = sum_list (map snd (filter (\<lambda>(k, _). k = l) counts))"

text \<open>\<open>{table: rows}\<close> of an archive, the join tables over it.\<close>

definition exported_rows :: "archive_manifest \<Rightarrow> string \<Rightarrow> nat option" where
  "exported_rows p = map_of (rev (map (\<lambda>t. (te_model t, te_rows t)) (am_tables p)) ) ++ map_of (am_joins p)"

definition exported_labels :: "archive_manifest \<Rightarrow> string list" where
  "exported_labels p = sort (remdups (map te_model (am_tables p) @ map fst (am_joins p)))"

definition unexpected_labels :: "archive_manifest \<Rightarrow> model list \<Rightarrow> (string \<times> nat) list \<Rightarrow> string list" where
  "unexpected_labels p models counts = sort (remdups (filter
     (\<lambda>l. deleted_rows counts l \<noteq> 0 \<and> l \<notin> set (exported_labels p) \<and> l \<notin> set (through_labels models)) (map fst counts)))"

definition miscounted :: "archive_manifest \<Rightarrow> (string \<times> nat) list \<Rightarrow> string list" where
  "miscounted p counts = filter (\<lambda>l. exported_rows p l \<noteq> Some (deleted_rows counts l)) (exported_labels p)"

definition sealed :: "moment \<Rightarrow> archive_manifest \<Rightarrow> extension_row \<Rightarrow> extension_row" where
  "sealed t p r = r\<lparr>xr_status := Ext_Archived, xr_reason := REASON_ARCHIVED, xr_changed_at := t,
     archive_location := am_directory p,
     archive_state := (archive_state r)\<lparr>finished_at := Some t, st_location := am_directory p, st_rows := am_total p,
       st_tables := length (am_tables p), st_error := [], failed_at := None\<rparr>\<rparr>"

text \<open>\<open>_delete_and_seal\<close>: one transaction, with the record read afresh.\<close>

definition delete_and_seal :: "archive_env \<Rightarrow> world \<Rightarrow> nat \<Rightarrow> extension_row \<Rightarrow> model list \<Rightarrow> archive_manifest \<Rightarrow> moment
    \<Rightarrow> archive_error + (extension_row \<times> world)" where
  "delete_and_seal e W w r models p t = (case row_by_id W (xr_id r) of
     None \<Rightarrow> Inl (Failed ''DoesNotExist'')
   | Some fresh \<Rightarrow>
       if xr_status fresh \<noteq> Ext_Archiving then Inl (Refused ''status_changed'' [])
       else case refuse_outside_references (rows_of W) w models of Some err \<Rightarrow> Inl err
       | None \<Rightarrow> (case delete_tables e w (rows_of W) (map md_label (rev models)) of
           Inl cls \<Rightarrow> Inl (Failed cls)
         | Inr (D, counts) \<Rightarrow>
             if unexpected_labels p models counts \<noteq> []
             then Inl (Refused ''deleted_outside_archive'' (unexpected_labels p models counts))
             else (case miscounted p counts of
                 l # _ \<Rightarrow> Inl (Refused ''row_count_changed'' [l])
               | [] \<Rightarrow> Inr (sealed t p fresh, save_ext (sealed t p fresh) (W\<lparr>rows_of := D\<rparr>)))))"

definition status_before :: "extension_row \<Rightarrow> string \<Rightarrow> ext_status" where
  "status_before r reason = (if reason \<in> {REASON_RESTORE_FAILED, REASON_RESTORE_INTERRUPTED} then Ext_Archived
     else case previous_status (archive_state r) of
       Some s \<Rightarrow> if s \<in> {Ext_Inactive, Ext_Paused} then s else Ext_Inactive
     | None \<Rightarrow> Ext_Inactive)"

definition moment_before :: "archive_env \<Rightarrow> extension_row \<Rightarrow> string \<Rightarrow> moment" where
  "moment_before e r reason = (if reason \<in> {REASON_RESTORE_FAILED, REASON_RESTORE_INTERRUPTED} then ae_now e
     else case previous_changed_at (archive_state r) of Some t \<Rightarrow> t | None \<Rightarrow> ae_now e)"

definition put_back :: "archive_env \<Rightarrow> string \<Rightarrow> moment \<Rightarrow> string \<Rightarrow> extension_row \<Rightarrow> extension_row" where
  "put_back e reason t code r = r\<lparr>xr_status := status_before r reason, xr_reason := reason,
     xr_changed_at := moment_before e r reason,
     archive_state := (archive_state r)\<lparr>st_error := code, failed_at := Some t\<rparr>\<rparr>"

text \<open>\<open>_release\<close>: of a record that somebody else has moved nothing is written.\<close>

definition release_run :: "archive_env \<Rightarrow> world \<Rightarrow> nat \<Rightarrow> archive_error \<Rightarrow> string \<Rightarrow> world" where
  "release_run e W i err reason = (case row_by_id W i of None \<Rightarrow> W
   | Some fresh \<Rightarrow>
       if xr_status fresh \<noteq> (if reason = REASON_ARCHIVE_FAILED then Ext_Archiving else Ext_Restoring) then W
       else save_ext (put_back e reason (ae_now e) (error_code err) fresh) W)"

text \<open>The checks made before the claim.\<close>

definition archive_checks :: "archive_env \<Rightarrow> world \<Rightarrow> nat \<Rightarrow> string \<Rightarrow> archive_error + model list" where
  "archive_checks e W w key =
     bind_r (case archive_storage (ae_settings e) of Inl p \<Rightarrow> Inl (Unconfigured p) | Inr so \<Rightarrow> Inr so) (\<lambda>_.
     bind_r (manifest_of e key) (\<lambda>_.
     bind_r (archivable_models e key) (\<lambda>models.
       case refuse_outside_references (rows_of W) w models of Some err \<Rightarrow> Inl err
       | None \<Rightarrow> (case refuse_split_joins (rows_of W) w models of Some err \<Rightarrow> Inl err | None \<Rightarrow> Inr models))))"

text \<open>
  \<open>archive\<close> without anybody else at work: the answer, and the state it leaves. Storage keeps what was
  written to it also when the run fails.
\<close>

definition archive :: "archive_env \<Rightarrow> world \<Rightarrow> nat \<Rightarrow> string \<Rightarrow> string \<Rightarrow> nat option \<Rightarrow> moment \<Rightarrow> bool
    \<Rightarrow> (archive_error + extension_row) \<times> world" where
  "archive e W w slug key user t ignore_age = (case archive_checks e W w key of
     Inl err \<Rightarrow> (Inl err, W)
   | Inr models \<Rightarrow> (case claim e W w key t user ignore_age of
       Inl err \<Rightarrow> (Inl err, W)
     | Inr (r, W1) \<Rightarrow> (case export_run e W1 w slug r models t (archive_state r) of
         (Inl err, st) \<Rightarrow> (Inl err, release_run e (W1\<lparr>stored := st\<rparr>) (xr_id r) err REASON_ARCHIVE_FAILED)
       | (Inr p, st) \<Rightarrow> (case verify e st p of
           Some err \<Rightarrow> (Inl err, release_run e (W1\<lparr>stored := st\<rparr>) (xr_id r) err REASON_ARCHIVE_FAILED)
         | None \<Rightarrow> (case delete_and_seal e (W1\<lparr>stored := st\<rparr>) w r models p t of
             Inl err \<Rightarrow> (Inl err, release_run e (W1\<lparr>stored := st\<rparr>) (xr_id r) err REASON_ARCHIVE_FAILED)
           | Inr (r', W2) \<Rightarrow> (Inr r', W2))))))"

subsection \<open>Restoring\<close>

definition from_ext :: "ext_error \<Rightarrow> archive_error" where
  "from_ext err = (case err of Ext_Error c d \<Rightarrow> Refused c d | Raised s \<Rightarrow> Failed s | Unknown_Skin s \<Rightarrow> Failed s)"

definition restoring :: "archive_env \<Rightarrow> nat option \<Rightarrow> extension_row \<Rightarrow> extension_row" where
  "restoring e user r = r\<lparr>xr_status := Ext_Restoring, xr_reason := REASON_RESTORING, xr_changed_at := ae_now e,
     xr_changed_by := user\<rparr>"

definition begin_restore :: "archive_env \<Rightarrow> world \<Rightarrow> nat \<Rightarrow> string \<Rightarrow> nat option \<Rightarrow> string
    \<Rightarrow> archive_error + (extension_row \<times> world)" where
  "begin_restore e W w key user actor =
     bind_r (case require_manageable (ae_registry e) key actor of Inl err \<Rightarrow> Inl (from_ext err) | Inr m \<Rightarrow> Inr m) (\<lambda>_.
     bind_r (case archive_storage (ae_settings e) of Inl p \<Rightarrow> Inl (Unconfigured p) | Inr so \<Rightarrow> Inr so) (\<lambda>_.
     bind_r (manifest_of e key) (\<lambda>_.
     bind_r (record_for W w key) (\<lambda>r.
       if xr_status r \<noteq> Ext_Archived then Inl (Refused ''not_archived'' [])
       else if archive_location r = [] then Inl (Refused ''no_archive_location'' [])
       else Inr (restoring e user r, save_ext (restoring e user r) W)))))"

definition read_manifest :: "files \<Rightarrow> string \<Rightarrow> archive_error + archive_manifest" where
  "read_manifest st dir = (case st (path_join dir MANIFEST_NAME) of
     None \<Rightarrow> Inl (Refused ''archive_missing'' [])
   | Some (Manifest_File p) \<Rightarrow> Inr p
   | Some _ \<Rightarrow> Inl (Refused ''manifest_unreadable'' []))"

definition check_archive :: "archive_manifest \<Rightarrow> nat \<Rightarrow> string \<Rightarrow> archive_error option" where
  "check_archive p w key = (if am_format p \<noteq> FORMAT_VERSION then Some (Refused ''unsupported_format'' [])
     else if am_extension p \<noteq> key then Some (Refused ''wrong_extension'' [])
     else if am_workspace p \<noteq> w then Some (Refused ''wrong_workspace'' []) else None)"

definition check_migrations :: "archive_env \<Rightarrow> world \<Rightarrow> archive_manifest \<Rightarrow> string \<Rightarrow> model list \<Rightarrow> archive_error option" where
  "check_migrations e W p key models = first_error (\<lambda>app.
     let was = (case map_of (rev (am_migrations p)) app of Some m \<Rightarrow> m | None \<Rightarrow> []); now = latest_migration (applied W) app in
     if was = now \<or> app \<in> set (map fst (ae_converters e key)) then None
     else Some (Refused ''migrations_changed'' [app, was, now])) (sort (remdups (map md_app models)))"

text \<open>
  \<open>str.splitlines\<close>: a line ends at a line feed, a carriage return (with or without a line feed), and
  at the characters 11, 12, 28 to 30 and 133; beyond these characters also at U+2028 and U+2029.
\<close>

definition line_end :: "char \<Rightarrow> bool" where
  "line_end c \<longleftrightarrow> (of_char c :: nat) \<in> {10, 11, 12, 13, 28, 29, 30, 133}"

fun split_lines :: "string \<Rightarrow> string \<Rightarrow> string list" where
  "split_lines acc [] = (if acc = [] then [] else [rev acc])"
| "split_lines acc (c # t) = (if line_end c
     then rev acc # (case t of d # t' \<Rightarrow> if of_char c = (13::nat) \<and> of_char d = (10::nat) then split_lines [] t'
         else split_lines [] t | [] \<Rightarrow> [])
     else split_lines (c # acc) t)"

fun read_lines :: "archive_env \<Rightarrow> string list \<Rightarrow> archive_error + stored_row list" where
  "read_lines e [] = Inr []"
| "read_lines e (l # ls) = (if strip l = [] then read_lines e ls
     else case ae_load e (strip l) of None \<Rightarrow> Inl (Refused ''unreadable_row'' [])
     | Some r \<Rightarrow> bind_r (read_lines e ls) (\<lambda>rs. Inr (r # rs)))"

definition read_rows :: "archive_env \<Rightarrow> string \<Rightarrow> archive_error + stored_row list" where
  "read_rows e t = read_lines e (split_lines [] t)"

definition convert_rows :: "converter \<Rightarrow> archive_manifest \<Rightarrow> string \<Rightarrow> stored_row list \<Rightarrow> archive_error + stored_row list" where
  "convert_rows f p label rows = (case f p label rows of Converted rs \<Rightarrow> Inr rs
     | Refuses \<Rightarrow> Inl (Refused ''converter_refused'' [label])
     | Not_A_List \<Rightarrow> Inl (Refused ''converter_refused'' [label]) | Breaks cls \<Rightarrow> Inl (Failed cls))"

definition app_of :: "string \<Rightarrow> string" where
  "app_of label = fst (partition CHR ''.'' label)"

definition read_table :: "archive_env \<Rightarrow> files \<Rightarrow> archive_manifest \<Rightarrow> string \<Rightarrow> table_entry \<Rightarrow> archive_error + stored_row list" where
  "read_table e st p key entry = (case check_file e st (am_directory p) entry of Some err \<Rightarrow> Inl err
   | None \<Rightarrow> (case st (path_join (am_directory p) (te_file entry)) of
       Some (Lines t) \<Rightarrow> bind_r (read_rows e t) (\<lambda>rows.
          case map_of (ae_converters e key) (app_of (te_model entry)) of
            Some f \<Rightarrow> convert_rows f p (te_model entry) rows | None \<Rightarrow> Inr rows)
     | _ \<Rightarrow> Inr []))"

fun read_tables :: "archive_env \<Rightarrow> files \<Rightarrow> archive_manifest \<Rightarrow> string \<Rightarrow> table_entry list
    \<Rightarrow> archive_error + (string \<times> stored_row list) list" where
  "read_tables e st p key [] = Inr []"
| "read_tables e st p key (t # ts) = bind_r (read_table e st p key t) (\<lambda>rows.
     bind_r (read_tables e st p key ts) (\<lambda>rest. Inr ((te_model t, rows) # rest)))"


subsection \<open>Loading\<close>

definition wrong_row :: "nat \<Rightarrow> string \<Rightarrow> stored_row \<Rightarrow> archive_error option" where
  "wrong_row w label r = (if lower (sr_model r) \<noteq> lower label then Some (Refused ''wrong_table'' [label])
     else if map_of (sr_values r) ''workspace'' \<noteq> Some (Ref w) then Some (Refused ''foreign_rows'' [label]) else None)"

definition refuse_foreign_rows :: "data \<Rightarrow> nat \<Rightarrow> model \<Rightarrow> stored_row list \<Rightarrow> archive_error option" where
  "refuse_foreign_rows D w m rows = (case first_error (wrong_row w (md_label m)) rows of Some err \<Rightarrow> Some err
   | None \<Rightarrow> if list_ex (\<lambda>x. rw_key x \<in> set (map sr_key rows) \<and> row_workspace x \<noteq> Some w) (tabs D (md_label m))
       then Some (Refused ''key_conflict'' [md_label m]) else None)"

text \<open>
  Saving a row read back: under the key it had, in its place among the rows, and its joins replaced
  by those it was written with.
\<close>

definition put_row :: "row \<Rightarrow> row list \<Rightarrow> row list" where
  "put_row r rows = filter (\<lambda>x. rw_key x < rw_key r) rows @ r # filter (\<lambda>x. rw_key r < rw_key x) rows"

definition unstored :: "model \<Rightarrow> stored_row \<Rightarrow> row" where
  "unstored m sr = \<lparr>rw_key = sr_key sr,
     rw_values = filter (\<lambda>(n, _). n \<notin> set (map mm_field (joined_through m))) (sr_values sr)\<rparr>"

definition put_joins :: "stored_row \<Rightarrow> many \<Rightarrow> (nat \<times> nat) list \<Rightarrow> (nat \<times> nat) list" where
  "put_joins sr f joins = (case map_of (sr_values sr) (mm_field f) of
     Some (Keys ks) \<Rightarrow> filter (\<lambda>(a, _). a \<noteq> sr_key sr) joins @ map (\<lambda>k. (sr_key sr, k)) ks
   | _ \<Rightarrow> joins)"

definition load_row :: "model \<Rightarrow> stored_row \<Rightarrow> data \<Rightarrow> data" where
  "load_row m sr D = \<lparr>tabs = (tabs D)(md_label m := put_row (unstored m sr) (tabs D (md_label m))),
     links = fold (\<lambda>f L. L(mm_through f := put_joins sr f (L (mm_through f)))) (joined_through m) (links D)\<rparr>"

fun load_models :: "nat \<Rightarrow> (string \<Rightarrow> stored_row list) \<Rightarrow> data \<Rightarrow> model list \<Rightarrow> archive_error + (data \<times> nat)" where
  "load_models w tables D [] = Inr (D, 0)"
| "load_models w tables D (m # ms) = (case refuse_foreign_rows D w m (tables (md_label m)) of Some err \<Rightarrow> Inl err
   | None \<Rightarrow> bind_r (load_models w tables (fold (load_row m) (tables (md_label m)) D) ms)
       (\<lambda>(D, n). Inr (D, length (tables (md_label m)) + n)))"

definition restored :: "moment \<Rightarrow> archive_manifest \<Rightarrow> nat \<Rightarrow> extension_row \<Rightarrow> extension_row" where
  "restored t p n r = r\<lparr>xr_status := Ext_Active, xr_reason := [], xr_changed_at := t, xr_activated_at := Some t,
     archive_state := (archive_state r)\<lparr>restored_at := Some t, restored_rows := n, restored_from := am_directory p,
       st_error := [], failed_at := None\<rparr>\<rparr>"

definition table_rows :: "(string \<times> stored_row list) list \<Rightarrow> string \<Rightarrow> stored_row list" where
  "table_rows tables l = (case map_of (rev tables) l of Some rs \<Rightarrow> rs | None \<Rightarrow> [])"

definition load_run :: "archive_env \<Rightarrow> world \<Rightarrow> nat \<Rightarrow> extension_row \<Rightarrow> model list \<Rightarrow> archive_manifest
    \<Rightarrow> (string \<times> stored_row list) list \<Rightarrow> archive_error + (extension_row \<times> world)" where
  "load_run e W w r models p tables = (case row_by_id W (xr_id r) of
     None \<Rightarrow> Inl (Failed ''DoesNotExist'')
   | Some fresh \<Rightarrow> if xr_status fresh \<noteq> Ext_Restoring then Inl (Refused ''status_changed'' [])
       else bind_r (load_models w (table_rows tables) (rows_of W) models) (\<lambda>(D, n).
         Inr (restored (ae_now e) p n fresh, save_ext (restored (ae_now e) p n fresh) (W\<lparr>rows_of := D\<rparr>))))"

definition restore_steps :: "archive_env \<Rightarrow> world \<Rightarrow> nat \<Rightarrow> string \<Rightarrow> extension_row \<Rightarrow> archive_error + (extension_row \<times> world)" where
  "restore_steps e W w key r = bind_r (read_manifest (stored W) (archive_location r)) (\<lambda>p.
     case check_archive p w key of Some err \<Rightarrow> Inl err
     | None \<Rightarrow> bind_r (archivable_models e key) (\<lambda>models.
        case check_migrations e W p key models of Some err \<Rightarrow> Inl err
        | None \<Rightarrow> bind_r (read_tables e (stored W) p key (am_tables p)) (\<lambda>tables. load_run e W w r models p tables)))"

definition finish_restore :: "archive_env \<Rightarrow> world \<Rightarrow> nat \<Rightarrow> string \<Rightarrow> (archive_error + extension_row) \<times> world" where
  "finish_restore e W w key = (case archive_storage (ae_settings e) of Inl p \<Rightarrow> (Inl (Unconfigured p), W)
   | Inr _ \<Rightarrow> (case manifest_of e key of Inl err \<Rightarrow> (Inl err, W)
   | Inr _ \<Rightarrow> (case record_for W w key of Inl err \<Rightarrow> (Inl err, W)
   | Inr r \<Rightarrow> if xr_status r \<noteq> Ext_Restoring then (Inl (Refused ''not_restoring'' []), W)
       else (case restore_steps e W w key r of
           Inl err \<Rightarrow> (Inl err, release_run e W (xr_id r) err REASON_RESTORE_FAILED)
         | Inr (r', W') \<Rightarrow> (Inr r', W')))))"

definition restore :: "archive_env \<Rightarrow> world \<Rightarrow> nat \<Rightarrow> string \<Rightarrow> nat option \<Rightarrow> string \<Rightarrow> (archive_error + extension_row) \<times> world" where
  "restore e W w key user actor = (case begin_restore e W w key user actor of
     Inl err \<Rightarrow> (Inl err, W) | Inr (_, W) \<Rightarrow> finish_restore e W w key)"

subsection \<open>The sweep\<close>

definition stuck_minutes :: "archive_env \<Rightarrow> int" where
  "stuck_minutes e = (case ae_stuck_setting e of Some n \<Rightarrow> max 1 n | None \<Rightarrow> 60)"

definition due_records :: "archive_env \<Rightarrow> world \<Rightarrow> moment \<Rightarrow> nat option \<Rightarrow> string option \<Rightarrow> bool \<Rightarrow> extension_row list" where
  "due_records e W t w key ignore_age =
    (let keys = filter (\<lambda>k. case key of Some k' \<Rightarrow> k = k' | None \<Rightarrow> True)
        (map mf_key (filter (\<lambda>m. is_activatable m \<and> ae_declares e (mf_key m) \<noteq> []) (all_manifests (ae_registry e))))
     in sort_key (\<lambda>r. (xr_changed_at r, xr_workspace r, xr_key r)) (filter (\<lambda>r. xr_key r \<in> set keys \<and>
       xr_status r \<in> {Ext_Inactive, Ext_Paused} \<and> (case w of Some v \<Rightarrow> xr_workspace r = v | None \<Rightarrow> True) \<and>
       (ignore_age \<or> xr_changed_at r \<le> archive_limit e t)) (ext_rows W)))"

definition is_stuck :: "archive_env \<Rightarrow> moment \<Rightarrow> extension_row \<Rightarrow> bool" where
  "is_stuck e t r \<longleftrightarrow> xr_status r \<in> {Ext_Archiving, Ext_Restoring} \<and>
     xr_changed_at r \<le> t - seconds_delta (60 * stuck_minutes e)"

definition interrupted :: "extension_row \<Rightarrow> string" where
  "interrupted r = (if xr_status r = Ext_Archiving then REASON_ARCHIVE_INTERRUPTED else REASON_RESTORE_INTERRUPTED)"

definition release_one :: "archive_env \<Rightarrow> moment \<Rightarrow> extension_row \<Rightarrow> world \<Rightarrow> world" where
  "release_one e t r W = (case row_by_id W (xr_id r) of None \<Rightarrow> W
   | Some fresh \<Rightarrow> if xr_status fresh \<noteq> xr_status r then W
       else save_ext (put_back e (interrupted r) t (interrupted r) fresh) W)"

definition release_stuck :: "archive_env \<Rightarrow> moment \<Rightarrow> world \<Rightarrow> world" where
  "release_stuck e t W = fold (release_one e t)
     (sort_key (\<lambda>r. (xr_workspace r, xr_key r)) (filter (is_stuck e t) (ext_rows W))) W"

text \<open>
  \<open>sweep\<close>, where \<open>slug_of\<close> is the slug of a workspace: what became of each due record, in the order
  they were taken, and the state left. A dry run reads only.
\<close>

definition sweep_one :: "archive_env \<Rightarrow> (nat \<Rightarrow> string) \<Rightarrow> moment \<Rightarrow> bool \<Rightarrow> extension_row
    \<Rightarrow> (nat \<times> string \<times> (archive_error + extension_row)) list \<times> world
    \<Rightarrow> (nat \<times> string \<times> (archive_error + extension_row)) list \<times> world" where
  "sweep_one e slug_of t ignore_age r acc = (let w = xr_workspace r; (answer, W) =
       archive e (snd acc) w (slug_of w) (xr_key r) None t ignore_age in
     (fst acc @ [(w, xr_key r, answer)], W))"

definition limited :: "nat option \<Rightarrow> 'a list \<Rightarrow> 'a list" where
  "limited limit xs = (case limit of Some n \<Rightarrow> if n = 0 then xs else take n xs | None \<Rightarrow> xs)"

definition sweep :: "archive_env \<Rightarrow> (nat \<Rightarrow> string) \<Rightarrow> world \<Rightarrow> moment \<Rightarrow> nat option \<Rightarrow> string option \<Rightarrow> nat option \<Rightarrow> bool
    \<Rightarrow> archive_error + ((nat \<times> string \<times> (archive_error + extension_row)) list \<times> world)" where
  "sweep e slug_of W t w key limit ignore_age = (case archive_storage (ae_settings e) of Inl p \<Rightarrow> Inl (Unconfigured p)
   | Inr _ \<Rightarrow> (let W = release_stuck e t W in
       Inr (fold (sweep_one e slug_of t ignore_age) (limited limit (due_records e W t w key ignore_age)) ([], W))))"

definition dry_run :: "archive_env \<Rightarrow> world \<Rightarrow> extension_row \<Rightarrow> archive_error + (string \<times> nat) list" where
  "dry_run e W r = bind_r (manifest_of e (xr_key r)) (\<lambda>_. bind_r (archivable_models e (xr_key r)) (\<lambda>models.
     case refuse_outside_references (rows_of W) (xr_workspace r) models of Some err \<Rightarrow> Inl err
     | None \<Rightarrow> (case refuse_split_joins (rows_of W) (xr_workspace r) models of Some err \<Rightarrow> Inl err
         | None \<Rightarrow> Inr (row_counts (rows_of W) (xr_workspace r) models))))"

end
