(* ===== verification/Archive_Laws.thy ===== *)
theory Archive_Laws
  imports Archive "HOL-Library.Sublist" "HOL-Library.Multiset"
begin

text \<open>
  What the archive rests on and what follows: the order tables are written and deleted in; what a
  delete of Django's is documented to do (\<open>removal\<close>) and that a sealed archive then holds exactly
  the rows that are gone; that a run that fails leaves the rows and the record's standing as they
  were; and that a restore brings back what was archived.
\<close>

subsection \<open>Parents first\<close>

lemma place_Nil [simp]: "place labels placed [] = []"
  by (subst place.simps) simp

lemma set_place: "set (place labels placed ms) \<subseteq> set ms"
proof (induction labels placed ms rule: place.induct)
  case (1 labels placed ms)
  show ?case
  proof (cases "ms = [] \<or> filter (ready labels placed) ms = []")
    case True
    then show ?thesis by (subst place.simps) (auto simp: Let_def)
  next
    case False
    then show ?thesis using 1 by (subst place.simps) (auto simp: Let_def)
  qed
qed

lemma place_perm:
  assumes "distinct (map md_label ms)" "md_label ` set ms \<inter> placed = {}"
  shows "mset (place labels placed ms) = mset ms"
  using assms
proof (induction labels placed ms rule: place.induct)
  case (1 labels placed ms)
  let ?now = "filter (ready labels placed) ms" and ?left = "\<lambda>P. filter (\<lambda>m. md_label m \<notin> P) ms"
  let ?P = "placed \<union> md_label ` set ?now"
  show ?case
  proof (cases "ms = [] \<or> ?now = []")
    case True
    then show ?thesis by (subst place.simps) (auto simp: Let_def)
  next
    case False
    have inj: "inj_on md_label (set ms)" using 1(2) by (simp add: distinct_map)
    have left: "?left ?P = filter (\<lambda>m. \<not> ready labels placed m) ms"
      using 1(3) inj by (auto intro!: filter_cong simp: inj_on_def)
    have "mset (place labels ?P (?left ?P)) = mset (?left ?P)"
      by (rule 1(1)) (use False 1(2) in \<open>auto simp: distinct_map inj_on_def\<close>)
    then have "mset (place labels placed ms) = mset ?now + mset (?left ?P)"
      using False by (subst place.simps) (simp add: Let_def)
    also have "\<dots> = mset ms" unfolding left by (metis mset_filter multiset_partition)
    finally show ?thesis .
  qed
qed

lemma parents_first_perm: "distinct (map md_label ms) \<Longrightarrow> mset (parents_first ms) = mset ms"
  unfolding parents_first_def by (rule place_perm) simp_all

text \<open>Where no tables point at each other in a circle, every model comes after those it points at.\<close>

lemma place_order:
  assumes "\<And>m. m \<in> set ms \<Longrightarrow> waits_for labels m \<subseteq> placed \<union> md_label ` set ms"
    and "\<And>m l. m \<in> set ms \<Longrightarrow> l \<in> waits_for labels m \<Longrightarrow> rank l < (rank (md_label m) :: nat)"
    and "place labels placed ms = xs @ m # ys"
  shows "waits_for labels m \<subseteq> placed \<union> md_label ` set xs"
  using assms
proof (induction labels placed ms arbitrary: xs rule: place.induct)
  case (1 labels placed ms)
  let ?now = "filter (ready labels placed) ms"
  let ?P = "placed \<union> md_label ` set ?now"
  let ?left = "filter (\<lambda>m. md_label m \<notin> ?P) ms"
  have ms: "ms \<noteq> []" using 1(4) by auto
  have now: "?now \<noteq> []"
  proof
    assume none: "?now = []"
    define x where "x = arg_min_on (\<lambda>m. rank (md_label m)) (set ms)"
    have x: "x \<in> set ms" "\<And>y. y \<in> set ms \<Longrightarrow> rank (md_label x) \<le> rank (md_label y)"
      using ms arg_min_if_finite [of "set ms" "\<lambda>m. rank (md_label m)"] arg_min_least [of "set ms" _ "\<lambda>m. rank (md_label m)"]
      by (auto simp: x_def)
    have "waits_for labels x \<subseteq> placed"
    proof
      fix l assume l: "l \<in> waits_for labels x"
      have "l \<notin> md_label ` set ms" using 1(3) [OF x(1) l] x(2) by fastforce
      then show "l \<in> placed" using 1(2) [OF x(1)] l by blast
    qed
    then show False using none x(1) by (auto simp: filter_empty_conv ready_iff)
  qed
  have eq: "?now @ place labels ?P ?left = xs @ m # ys"
    using 1(4) ms now by (subst (asm) place.simps) (simp add: Let_def)
  show ?case
  proof (cases "length xs < length ?now")
    case True
    then have "m = ?now ! length xs" using eq by (metis nth_append nth_append_length)
    then have "m \<in> set ?now" using True nth_mem by metis
    then show ?thesis by (auto simp: ready_iff)
  next
    case False
    then obtain zs where xs: "xs = ?now @ zs" and rest: "place labels ?P ?left = zs @ m # ys"
      using eq by (auto simp: append_eq_append_conv2)
    have "waits_for labels m \<subseteq> ?P \<union> md_label ` set zs"
    proof (rule 1(1) [OF ms refl now refl _ _ rest])
      fix x assume "x \<in> set ?left"
      then have "x \<in> set ms" by simp
      from 1(2) [OF this] show "waits_for labels x \<subseteq> ?P \<union> md_label ` set ?left" by auto
    next
      fix x l assume "x \<in> set ?left" "l \<in> waits_for labels x"
      then show "rank l < rank (md_label x)" using 1(3) [of x l] by simp
    qed
    then show ?thesis by (auto simp: xs)
  qed
qed

lemma parents_first_order:
  assumes "\<And>m l. m \<in> set ms \<Longrightarrow> l \<in> waits_for (md_label ` set ms) m \<Longrightarrow> rank l < (rank (md_label m) :: nat)"
    and "parents_first ms = xs @ m # ys"
  shows "waits_for (md_label ` set ms) m \<subseteq> md_label ` set xs"
  using place_order [of ms "md_label ` set ms" "{}" rank xs m ys] assms
  by (auto simp: parents_first_def waits_for_def)


subsection \<open>What a delete is documented to do\<close>

text \<open>Whether a row points at a row that is gone, through a relation Django knows of.\<close>

definition touched :: "archive_env \<Rightarrow> data \<Rightarrow> data \<Rightarrow> string \<Rightarrow> row \<Rightarrow> bool" where
  "touched e D D' k r \<longleftrightarrow> (\<exists>m rl i. ae_models e (md_label m) = Some m \<and> rl \<in> set (md_related m) \<and> rl_model rl = k \<and>
     rl_through rl = None \<and> map_of (rw_values r) (rl_field rl) = Some (Ref i) \<and>
     i \<in> rw_key ` set (tabs D (md_label m)) \<and> i \<notin> rw_key ` set (tabs D' (md_label m)))"

text \<open>
  From one state of the tables to another with some rows gone: every row that is gone is reported,
  under the label of its table; a row that stays keeps its key and its workspace, and all of it when
  it pointed at none of the rows gone; no join row outlives the row that owns it.
\<close>

definition removal :: "archive_env \<Rightarrow> data \<Rightarrow> data \<Rightarrow> (string \<times> nat) list \<Rightarrow> bool" where
  "removal e D D' counts \<longleftrightarrow>
    (\<forall>k. subseq (map rw_key (tabs D' k)) (map rw_key (tabs D k)) \<and> subseq (links D' k) (links D k) \<and>
       length (tabs D k) + length (links D k) = length (tabs D' k) + length (links D' k) + deleted_rows counts k) \<and>
    (\<forall>k. \<forall>r' \<in> set (tabs D' k). \<exists>r \<in> set (tabs D k). rw_key r = rw_key r' \<and> row_workspace r = row_workspace r') \<and>
    (\<forall>k. \<forall>r \<in> set (tabs D k). rw_key r \<in> rw_key ` set (tabs D' k) \<longrightarrow> \<not> touched e D D' k r \<longrightarrow> r \<in> set (tabs D' k)) \<and>
    (\<forall>m f a b. ae_models e (md_label m) = Some m \<longrightarrow> f \<in> set (joined_through m) \<longrightarrow> (a, b) \<in> set (links D' (mm_through f)) \<longrightarrow>
       a \<in> rw_key ` set (tabs D (md_label m)) \<longrightarrow> a \<in> rw_key ` set (tabs D' (md_label m)))"

text \<open>\<open>QuerySet.delete\<close>: a removal that leaves no row of the queryset.\<close>

definition honest_delete :: "archive_env \<Rightarrow> bool" where
  "honest_delete e \<longleftrightarrow> (\<forall>D l w D' counts. ae_delete e D l w = Inr (D', counts) \<longrightarrow>
     removal e D D' counts \<and> of_workspace w (tabs D' l) = [])"

lemma removalD:
  assumes "removal e D D' counts"
  shows "subseq (map rw_key (tabs D' k)) (map rw_key (tabs D k))" "subseq (links D' k) (links D k)"
    "length (tabs D k) + length (links D k) = length (tabs D' k) + length (links D' k) + deleted_rows counts k"
    "\<And>r'. r' \<in> set (tabs D' k) \<Longrightarrow> \<exists>r \<in> set (tabs D k). rw_key r = rw_key r' \<and> row_workspace r = row_workspace r'"
    "\<And>r. r \<in> set (tabs D k) \<Longrightarrow> rw_key r \<in> rw_key ` set (tabs D' k) \<Longrightarrow> \<not> touched e D D' k r \<Longrightarrow> r \<in> set (tabs D' k)"
    "\<And>m f a b. ae_models e (md_label m) = Some m \<Longrightarrow> f \<in> set (joined_through m) \<Longrightarrow> (a, b) \<in> set (links D' (mm_through f)) \<Longrightarrow>
       a \<in> rw_key ` set (tabs D (md_label m)) \<Longrightarrow> a \<in> rw_key ` set (tabs D' (md_label m))"
  using assms unfolding removal_def by blast+

lemma deleted_rows_append [simp]: "deleted_rows (xs @ ys) k = deleted_rows xs k + deleted_rows ys k"
  by (simp add: deleted_rows_def)

lemma removal_keys: "removal e D D' c \<Longrightarrow> rw_key ` set (tabs D' k) \<subseteq> rw_key ` set (tabs D k)"
proof
  fix i assume d: "removal e D D' c" and "i \<in> rw_key ` set (tabs D' k)"
  then obtain r' where r': "r' \<in> set (tabs D' k)" "i = rw_key r'" by blast
  from removalD(4) [OF d r'(1)] obtain r where "r \<in> set (tabs D k)" "rw_key r = rw_key r'" by blast
  then show "i \<in> rw_key ` set (tabs D k)" using r'(2) by (intro image_eqI [of i rw_key r]) simp_all
qed

lemma subseq_subset: "subseq xs ys \<Longrightarrow> set xs \<subseteq> set ys"
  by (induction rule: list_emb.induct) auto

text \<open>What points at a row gone early or late points at a row gone in the whole.\<close>

lemma touched_trans:
  assumes "removal e D E c" "removal e E F d" "\<not> touched e D F k r"
  shows "\<not> touched e D E k r" "\<not> touched e E F k r"
proof -
  have "rw_key ` set (tabs F l) \<subseteq> rw_key ` set (tabs E l)" "rw_key ` set (tabs E l) \<subseteq> rw_key ` set (tabs D l)" for l
    using removal_keys [OF assms(2)] removal_keys [OF assms(1)] by simp_all
  note sub = subsetD [OF this(1)] subsetD [OF this(2)]
  show "\<not> touched e D E k r" using assms(3) sub(1) unfolding touched_def by metis
  show "\<not> touched e E F k r" using assms(3) sub(2) unfolding touched_def by metis
qed

lemma removal_refl: "removal e D D []"
  by (auto simp: removal_def deleted_rows_def)

lemma removal_trans:
  assumes 1: "removal e D E c" and 2: "removal e E F d"
  shows "removal e D F (c @ d)"
  unfolding removal_def
proof (intro conjI allI ballI impI)
  fix k
  show "subseq (map rw_key (tabs F k)) (map rw_key (tabs D k))" "subseq (links F k) (links D k)"
    using removalD(1,2) [OF 1, of k] removalD(1,2) [OF 2, of k] by (blast intro: subseq_order.order_trans)+
  show "length (tabs D k) + length (links D k) = length (tabs F k) + length (links F k) + deleted_rows (c @ d) k"
    using removalD(3) [OF 1, of k] removalD(3) [OF 2, of k] by simp
next
  fix k r' assume "r' \<in> set (tabs F k)"
  then show "\<exists>r \<in> set (tabs D k). rw_key r = rw_key r' \<and> row_workspace r = row_workspace r'"
    using removalD(4) [OF 2, of r' k] removalD(4) [OF 1, of _ k] by metis
next
  fix k r assume r: "r \<in> set (tabs D k)" "rw_key r \<in> rw_key ` set (tabs F k)" "\<not> touched e D F k r"
  note t = touched_trans [OF 1 2 r(3)]
  have "r \<in> set (tabs E k)" using removalD(5) [OF 1 r(1) _ t(1)] subsetD [OF removal_keys [OF 2] r(2)] .
  from removalD(5) [OF 2 this r(2) t(2)] show "r \<in> set (tabs F k)" .
next
  fix m f a b
  assume m: "ae_models e (md_label m) = Some m" "f \<in> set (joined_through m)" "(a, b) \<in> set (links F (mm_through f))"
    "a \<in> rw_key ` set (tabs D (md_label m))"
  have "(a, b) \<in> set (links E (mm_through f))" using m(3) subseq_subset [OF removalD(2) [OF 2]] by blast
  from removalD(6) [OF 1 m(1,2) this m(4)] show "a \<in> rw_key ` set (tabs F (md_label m))"
    by (rule removalD(6) [OF 2 m(1,2,3)])
qed

lemma removal_no_workspace:
  assumes "removal e D D' c" "of_workspace w (tabs D k) = []"
  shows "of_workspace w (tabs D' k) = []"
  using assms(2) removalD(4) [OF assms(1), of _ k] unfolding of_workspace_def filter_empty_conv by metis

lemma delete_tables_removal:
  assumes "honest_delete e"
  shows "delete_tables e w D ls = Inr (D', counts) \<Longrightarrow>
    removal e D D' counts \<and> (\<forall>l \<in> set ls. of_workspace w (tabs D' l) = [])"
proof (induction ls arbitrary: D D' counts)
  case Nil
  then show ?case by (simp add: removal_refl)
next
  case (Cons l ls)
  from Cons.prems obtain E c d where del: "ae_delete e D l w = Inr (E, c)" and rest: "delete_tables e w E ls = Inr (D', d)"
    and counts: "counts = c @ d"
    by (auto simp: bind_r_Inr)
  have e: "removal e D E c" "of_workspace w (tabs E l) = []" using assms del unfolding honest_delete_def by blast+
  note r = Cons.IH [OF rest]
  have "removal e D D' counts" unfolding counts using removal_trans [OF e(1)] r by blast
  moreover have "of_workspace w (tabs D' l) = []" using removal_no_workspace [OF _ e(2)] r by blast
  ultimately show ?case using r by simp
qed


subsection \<open>Counting\<close>

lemma subseq_same_length: "subseq xs ys \<Longrightarrow> length xs = length ys \<Longrightarrow> xs = ys"
  by (metis subseq_order.antisym subseq_same_length)

text \<open>A table of which as many rows are gone as the workspace had, and none of the workspace's is left.\<close>

lemma exact_removal:
  assumes d: "removal e D D' c" and dist: "distinct (map rw_key (tabs D k))" and l: "links D k = []"
    and none: "of_workspace w (tabs D' k) = []" and n: "deleted_rows c k = length (of_workspace w (tabs D k))"
  shows "map rw_key (tabs D' k) = map rw_key (filter (\<lambda>r. row_workspace r \<noteq> Some w) (tabs D k))"
proof -
  let ?own = "\<lambda>r. row_workspace r = Some w" and ?T = "tabs D k"
  define P where "P i \<longleftrightarrow> i \<in> rw_key ` {r \<in> set ?T. \<not> ?own r}" for i
  have inj: "r = r'" if "r \<in> set ?T" "r' \<in> set ?T" "rw_key r = rw_key r'" for r r'
    using dist that by (auto simp: distinct_map inj_on_def)
  have P: "P (rw_key r) \<longleftrightarrow> \<not> ?own r" if "r \<in> set ?T" for r using that inj by (auto simp: P_def image_iff)
  have others: "filter P (map rw_key ?T) = map rw_key (filter (\<lambda>r. \<not> ?own r) ?T)"
    using P by (simp add: filter_map comp_def cong: filter_cong)
  have "filter P (map rw_key (tabs D' k)) = map rw_key (tabs D' k)"
  proof (rule filter_True, rule ballI)
    fix i assume "i \<in> set (map rw_key (tabs D' k))"
    then obtain r' where r': "r' \<in> set (tabs D' k)" "i = rw_key r'" by auto
    from removalD(4) [OF d r'(1)] obtain r where r: "r \<in> set ?T" "rw_key r = rw_key r'" "row_workspace r = row_workspace r'"
      by blast
    have "\<not> ?own r'" using none r'(1) by (auto simp: of_workspace_def filter_empty_conv)
    then show "P i" using P [OF r(1)] r(2,3) r'(2) by simp
  qed
  then have sub: "subseq (map rw_key (tabs D' k)) (map rw_key (filter (\<lambda>r. \<not> ?own r) ?T))"
    using subseq_filter [OF removalD(1) [OF d, of k], of P] others by simp
  have "links D' k = []" using removalD(2) [OF d, of k] l by simp
  then have "length ?T = length (tabs D' k) + length (filter ?own ?T)"
    using removalD(3) [OF d, of k] l n by (simp add: of_workspace_def)
  moreover have "length (filter ?own ?T) + length (filter (\<lambda>r. \<not> ?own r) ?T) = length ?T"
    by (rule sum_length_filter_compl)
  ultimately show ?thesis using subseq_same_length [OF sub] by simp
qed

lemma same_keys_same_rows:
  assumes keys: "map rw_key xs = map rw_key ys" and dist: "distinct (map rw_key ys)" and sub: "set ys \<subseteq> set xs"
  shows "xs = ys"
proof (rule nth_equalityI)
  show len: "length xs = length ys" using map_eq_imp_length_eq [OF keys] .
  fix i assume i: "i < length xs"
  then have "ys ! i \<in> set xs" using sub len by auto
  then obtain j where j: "j < length xs" "xs ! j = ys ! i" by (auto simp: in_set_conv_nth)
  have "map rw_key xs ! j = map rw_key xs ! i" using j i len keys by (metis nth_map)
  then have "map rw_key ys ! j = map rw_key ys ! i" unfolding keys .
  then have "j = i" using nth_eq_iff_index_eq [OF dist, of j i] i j(1) len by (metis length_map)
  then show "xs ! i = ys ! i" using j(2) by simp
qed

lemma nothing_removed:
  assumes d: "removal e D D' c" and dist: "distinct (map rw_key (tabs D k))" and n: "deleted_rows c k = 0"
    and t: "\<And>r. r \<in> set (tabs D k) \<Longrightarrow> \<not> touched e D D' k r"
  shows "tabs D' k = tabs D k" "links D' k = links D k"
proof -
  have le: "length (tabs D' k) \<le> length (tabs D k)" "length (links D' k) \<le> length (links D k)"
    using list_emb_length [OF removalD(1) [OF d, of k]] list_emb_length [OF removalD(2) [OF d, of k]] by simp_all
  then have len: "length (tabs D' k) = length (tabs D k)" "length (links D' k) = length (links D k)"
    using removalD(3) [OF d, of k] n by linarith+
  show "links D' k = links D k" by (rule subseq_same_length [OF removalD(2) [OF d] len(2)])
  have keys: "map rw_key (tabs D' k) = map rw_key (tabs D k)"
    using subseq_same_length [OF removalD(1) [OF d, of k]] len(1) by simp
  have sub: "r \<in> set (tabs D' k)" if "r \<in> set (tabs D k)" for r
  proof (rule removalD(5) [OF d that _ t [OF that]])
    have "set (map rw_key (tabs D' k)) = set (map rw_key (tabs D k))" using keys by simp
    then show "rw_key r \<in> rw_key ` set (tabs D' k)" using that by simp
  qed
  show "tabs D' k = tabs D k" by (rule same_keys_same_rows [OF keys dist subsetI [OF sub]])
qed

text \<open>The rows written for a table; of each the serializer makes one line, ended by a line feed and with none inside.\<close>

definition written_rows :: "data \<Rightarrow> nat \<Rightarrow> model \<Rightarrow> stored_row list" where
  "written_rows D w m = map (stored_of D m) (of_workspace w (tabs D (md_label m)))"

lemma table_text_written: "table_text e D w m = concat (map (ae_dump e) (written_rows D w m))"
  by (simp add: table_text_def written_rows_def comp_def)

definition one_line :: "archive_env \<Rightarrow> stored_row \<Rightarrow> bool" where
  "one_line e r \<longleftrightarrow> (\<exists>b. ae_dump e r = b @ [line_feed] \<and> line_feed \<notin> set b)"

definition writes_lines :: "archive_env \<Rightarrow> data \<Rightarrow> nat \<Rightarrow> model list \<Rightarrow> bool" where
  "writes_lines e D w models \<longleftrightarrow> (\<forall>m \<in> set models. \<forall>r \<in> set (written_rows D w m). one_line e r)"

lemma filter_no_line_feed: "line_feed \<notin> set b \<Longrightarrow> filter (\<lambda>c. c = line_feed) b = []"
  by (auto simp: filter_empty_conv)

lemma text_lines:
  assumes "\<And>r. r \<in> set rs \<Longrightarrow> one_line e r"
  shows "length (filter (\<lambda>c. c = line_feed) (concat (map (ae_dump e) rs))) = length rs \<and>
    (rs \<noteq> [] \<longrightarrow> last (concat (map (ae_dump e) rs)) = line_feed)"
  using assms
proof (induction rs rule: rev_induct)
  case (snoc r rs)
  from snoc.prems [of r] obtain b where b: "ae_dump e r = b @ [line_feed]" "line_feed \<notin> set b" by (auto simp: one_line_def)
  from snoc show ?case by (simp add: b filter_no_line_feed)
qed simp

lemma digest_text:
  assumes "writes_lines e D w models" "m \<in> set models"
  shows "fst (digest e (table_text e D w m)) = length (of_workspace w (tabs D (md_label m)))"
proof -
  have one: "one_line e r" if "r \<in> set (written_rows D w m)" for r using assms that by (simp add: writes_lines_def)
  let ?rs = "written_rows D w m"
  note t = text_lines [of ?rs e, OF one]
  have n: "length (of_workspace w (tabs D (md_label m))) = length ?rs" by (simp add: written_rows_def)
  show ?thesis
  proof (cases "?rs = []")
    case True
    then show ?thesis unfolding n digest_def table_text_written by simp
  next
    case False
    then have "last (concat (map (ae_dump e) ?rs)) = line_feed" using t by simp
    then show ?thesis unfolding n digest_def table_text_written using t by simp
  qed
qed

subsection \<open>A finished run, step by step\<close>

lemma save_ext_simps [simp]:
  "rows_of (save_ext r W) = rows_of W" "applied (save_ext r W) = applied W" "stored (save_ext r W) = stored W"
  "ext_rows (save_ext r W) = update_where (\<lambda>x. xr_id x = xr_id r) (\<lambda>_. r) (ext_rows W)"
  by (simp_all add: save_ext_def)

lemma archive_InrE:
  assumes "archive e W w slug key user t ignore_age = (Inr r, W')"
  obtains models c W1 p st where "archive_checks e W w key = Inr models"
    "claim e W w key t user ignore_age = Inr (c, W1)"
    "export_run e W1 w slug c models t (archive_state c) = (Inr p, st)" "verify e st p = None"
    "delete_and_seal e (W1\<lparr>stored := st\<rparr>) w c models p t = Inr (r, W')"
  using assms by (auto simp: archive_def split: sum.splits prod.splits option.splits)

lemma claim_InrE:
  assumes "claim e W w key t user ignore_age = Inr (c, W1)"
  obtains r where "ext_row W w key = Some r" "xr_status r \<in> {Ext_Inactive, Ext_Paused}"
    "ignore_age \<or> xr_changed_at r \<le> archive_limit e t" "c = claimed t user r" "W1 = save_ext c W"
  using assms by (auto simp: claim_def record_for_def bind_r_Inr not_less split: option.splits if_splits)

lemma seal_InrE:
  assumes "delete_and_seal e W w c models p t = Inr (r, W')"
  obtains fresh D counts where "row_by_id W (xr_id c) = Some fresh" "xr_status fresh = Ext_Archiving"
    "refuse_outside_references (rows_of W) w models = None"
    "delete_tables e w (rows_of W) (map md_label (rev models)) = Inr (D, counts)"
    "unexpected_labels p models counts = []" "miscounted p counts = []"
    "r = sealed t p fresh" "W' = save_ext (sealed t p fresh) (W\<lparr>rows_of := D\<rparr>)"
  using assms by (auto simp: delete_and_seal_def split: option.splits if_splits sum.splits prod.splits list.splits)

lemma archive_checks_InrE:
  assumes "archive_checks e W w key = Inr models"
  obtains so m where "archive_storage (ae_settings e) = Inr so" "manifest_of e key = Inr m"
    "archivable_models e key = Inr models" "refuse_outside_references (rows_of W) w models = None"
    "refuse_split_joins (rows_of W) w models = None"
  using assms by (auto simp: archive_checks_def bind_r_Inr split: sum.splits option.splits)

lemma write_tables_entries:
  "write_tables e D w dir st ms = (Inr es, st') \<Longrightarrow> es = map (\<lambda>m. entry_of e m (table_text e D w m)) ms"
proof (induction ms arbitrary: st es)
  case (Cons m ms)
  then show ?case
    by (cases "save_file e st (path_join dir (file_of m)) (Lines (table_text e D w m))")
      (auto simp: Let_def split: option.splits sum.splits prod.splits)
qed simp

lemma export_InrE:
  assumes "export_run e W w slug c models t previous = (Inr p, st)"
  obtains dir st1 where "dir = archive_directory (ae_settings e) w (xr_key c) t"
    "stored W (path_join dir MANIFEST_NAME) = None"
    "write_tables e (rows_of W) w dir (stored W) models = (Inr (am_tables p), st1)"
    "save_file e st1 (path_join dir MANIFEST_NAME) (Manifest_File p) = (None, st)"
    "p = manifest_for W w slug c models dir t previous (am_tables p)"
proof -
  let ?dir = "archive_directory (ae_settings e) w (xr_key c) t"
  from assms have none: "stored W (path_join ?dir MANIFEST_NAME) = None"
    by (auto simp: export_run_def Let_def split: if_splits)
  obtain a st1 where wt: "write_tables e (rows_of W) w ?dir (stored W) models = (a, st1)" by fastforce
  with assms none obtain es where a: "a = Inr es" by (cases a) (simp_all add: export_run_def)
  let ?p = "manifest_for W w slug c models ?dir t previous es"
  obtain b st2 where sv: "save_file e st1 (path_join ?dir MANIFEST_NAME) (Manifest_File ?p) = (b, st2)" by fastforce
  from assms none wt a sv have b: "b = None" "p = ?p" "st = st2"
    by (cases b; simp add: export_run_def Let_def)+
  have es: "am_tables p = es" by (simp add: b manifest_for_def)
  show ?thesis by (rule that [OF refl none]) (use wt a sv b es in simp_all)
qed

lemma verify_None:
  assumes "verify e st p = None"
  shows "st (path_join (am_directory p) MANIFEST_NAME) = Some (Manifest_File p)"
    and "entry \<in> set (am_tables p) \<Longrightarrow>
      \<exists>c. st (path_join (am_directory p) (te_file entry)) = Some c \<and> reads_as e c entry"
proof -
  have fe: "first_error f xs = None \<longleftrightarrow> (\<forall>x \<in> set xs. f x = None)" for f :: "table_entry \<Rightarrow> archive_error option" and xs
    by (induction xs) (auto split: option.splits)
  from assms have none: "first_error (check_file e st (am_directory p)) (am_tables p) = None"
    by (auto simp: verify_def split: option.splits)
  show "st (path_join (am_directory p) MANIFEST_NAME) = Some (Manifest_File p)"
    using assms none by (auto simp: verify_def split: option.splits content.splits if_splits)
  show "entry \<in> set (am_tables p) \<Longrightarrow>
      \<exists>c. st (path_join (am_directory p) (te_file entry)) = Some c \<and> reads_as e c entry"
    using none unfolding fe by (auto simp: check_file_def split: option.splits if_splits)
qed

text \<open>The counts a sealed run was checked against.\<close>

lemma exported_entry:
  assumes "am_tables p = map (\<lambda>m. entry_of e m (f m)) ms" "distinct (map md_label ms)" "m \<in> set ms"
    and "md_label m \<notin> fst ` set (am_joins p)"
  shows "exported_rows p (md_label m) = Some (te_rows (entry_of e m (f m)))" "md_label m \<in> set (exported_labels p)"
proof -
  have lab: "te_model (entry_of e m' t) = md_label m'" for m' t by (simp add: entry_of_def split: prod.splits)
  let ?es = "map (\<lambda>m. (md_label m, te_rows (entry_of e m (f m)))) ms"
  have d: "distinct (map fst (rev ?es))" using assms(2) by (simp add: rev_map [symmetric] comp_def)
  have "map_of (rev ?es) (md_label m) = Some (te_rows (entry_of e m (f m)))"
    by (rule map_of_is_SomeI [OF d]) (use assms(3) in auto)
  moreover have "map_of (am_joins p) (md_label m) = None" using assms(4) by (simp add: map_of_eq_None_iff)
  ultimately show "exported_rows p (md_label m) = Some (te_rows (entry_of e m (f m)))"
    by (simp add: exported_rows_def assms(1) comp_def lab map_add_def)
  show "md_label m \<in> set (exported_labels p)" using assms(1,3) by (auto simp: exported_labels_def lab)
qed

lemma miscounted_None: "miscounted p counts = [] \<Longrightarrow> l \<in> set (exported_labels p) \<Longrightarrow>
    exported_rows p l = Some (deleted_rows counts l)"
  by (simp add: miscounted_def filter_empty_conv)

lemma unexpected_None:
  assumes "unexpected_labels p models counts = []" "l \<notin> set (exported_labels p)" "l \<notin> set (through_labels models)"
  shows "deleted_rows counts l = 0"
proof (cases "l \<in> fst ` set counts")
  case True
  have "set (unexpected_labels p models counts) = {}" by (simp add: assms(1))
  then show ?thesis using assms(2,3) True by (auto simp: unexpected_labels_def)
next
  case False
  then have "filter (\<lambda>(k, _). k = l) counts = []" by (force simp: filter_empty_conv)
  then show ?thesis by (simp add: deleted_rows_def)
qed


subsection \<open>What the record says\<close>

definition ext_rows_ok :: "world \<Rightarrow> bool" where
  "ext_rows_ok W \<longleftrightarrow> distinct (map xr_id (ext_rows W)) \<and> distinct (map (\<lambda>r. (xr_workspace r, xr_key r)) (ext_rows W))"

lemma ext_row_Some: "ext_row W w k = Some r \<Longrightarrow> r \<in> set (ext_rows W) \<and> xr_workspace r = w \<and> xr_key r = k"
  by (auto simp: ext_row_def dest: first_filter_SomeD)

lemma row_by_id_Some: "row_by_id W i = Some r \<Longrightarrow> r \<in> set (ext_rows W) \<and> xr_id r = i"
  by (auto simp: row_by_id_def dest: first_filter_SomeD)

lemma ext_row_member:
  assumes "ext_rows_ok W" "r \<in> set (ext_rows W)"
  shows "ext_row W (xr_workspace r) (xr_key r) = Some r" "row_by_id W (xr_id r) = Some r"
proof -
  have inj: "x = r" if "x \<in> set (ext_rows W)" "(xr_workspace x, xr_key x) = (xr_workspace r, xr_key r) \<or> xr_id x = xr_id r" for x
    using assms that by (auto simp: ext_rows_ok_def distinct_map inj_on_def)
  show "ext_row W (xr_workspace r) (xr_key r) = Some r"
    by (cases "ext_row W (xr_workspace r) (xr_key r)")
      (use assms(2) inj in \<open>auto simp: ext_row_def filter_empty_conv dest!: first_filter_SomeD\<close>)
  show "row_by_id W (xr_id r) = Some r"
    by (cases "row_by_id W (xr_id r)")
      (use assms(2) inj in \<open>auto simp: row_by_id_def filter_empty_conv dest!: first_filter_SomeD\<close>)
qed

text \<open>Saving a record under its own id, workspace and key.\<close>

lemma save_ext_ok:
  assumes ok: "ext_rows_ok W" and r: "r \<in> set (ext_rows W)"
    and same: "xr_id r' = xr_id r" "xr_workspace r' = xr_workspace r" "xr_key r' = xr_key r"
  shows "ext_rows_ok (save_ext r' W)" "ext_rows (save_ext r' W) = map (\<lambda>x. if x = r then r' else x) (ext_rows W)"
    "r' \<in> set (ext_rows (save_ext r' W))"
proof -
  have "xr_id x = xr_id r \<longleftrightarrow> x = r" if "x \<in> set (ext_rows W)" for x
    using ok r that by (auto simp: ext_rows_ok_def distinct_map inj_on_def)
  then show rows: "ext_rows (save_ext r' W) = map (\<lambda>x. if x = r then r' else x) (ext_rows W)"
    by (auto simp: update_where_def same(1))
  have "map xr_id (ext_rows (save_ext r' W)) = map xr_id (ext_rows W)"
    "map (\<lambda>r. (xr_workspace r, xr_key r)) (ext_rows (save_ext r' W)) = map (\<lambda>r. (xr_workspace r, xr_key r)) (ext_rows W)"
    unfolding rows by (auto simp: same)
  then show "ext_rows_ok (save_ext r' W)" using ok unfolding ext_rows_ok_def by metis
  show "r' \<in> set (ext_rows (save_ext r' W))" unfolding rows using r by (auto simp: image_iff)
qed

text \<open>What is asked of the tables and of what Django knows of them.\<close>

definition registered :: "archive_env \<Rightarrow> bool" where
  "registered e \<longleftrightarrow> (\<forall>l m. ae_models e l = Some m \<longrightarrow> ae_models e (md_label m) = Some m \<and>
     (\<forall>rl \<in> set (md_related m). rl_through rl = None \<longrightarrow> rl_made_for rl = None))"

definition tables_apart :: "model list \<Rightarrow> bool" where
  "tables_apart models \<longleftrightarrow> distinct (map md_label models) \<and> distinct (through_labels models) \<and>
     set (map md_label models) \<inter> set (through_labels models) = {}"

definition keyed :: "data \<Rightarrow> model list \<Rightarrow> bool" where
  "keyed D models \<longleftrightarrow> (\<forall>k. distinct (map rw_key (tabs D k))) \<and> (\<forall>m \<in> set models. links D (md_label m) = []) \<and>
     (\<forall>l \<in> set (through_labels models). tabs D l = [])"

lemma scoped_models_registered: "scoped_models e ls = Inr ms \<Longrightarrow> m \<in> set ms \<Longrightarrow> \<exists>l. ae_models e l = Some m"
proof (induction ls arbitrary: ms)
  case (Cons l ls)
  then show ?case by (auto simp: bind_r_Inr scoped_model_def split: option.splits if_splits)
qed simp

lemma archivable_registered:
  assumes "archivable_models e key = Inr models" "registered e" "m \<in> set models"
  shows "ae_models e (md_label m) = Some m"
proof -
  from assms(1) obtain ms where "scoped_models e (ae_declares e key) = Inr ms" "models = parents_first ms"
    by (auto simp: archivable_models_def bind_r_Inr split: if_splits)
  with assms(3) set_place [of "set (map md_label ms)" "{}" ms] scoped_models_registered [of e "ae_declares e key" ms m]
  obtain l where "ae_models e l = Some m" by (auto simp: parents_first_def)
  then show ?thesis using assms(2) unfolding registered_def by blast
qed

lemma no_outside_reference:
  assumes "refuse_outside_references D w models = None" "m \<in> set models" "rl \<in> set (md_related m)"
    "outside_relation (map md_label models) rl"
  shows "\<not> points_at D m w rl"
  using assms by (auto simp: refuse_outside_references_def Let_def filter_empty_conv)

text \<open>The tables after a sealed run: of the extension's only the others' rows are left, and no other table has changed.\<close>

lemma sealed_tables:
  assumes del: "removal e D D' counts" "\<And>m. m \<in> set models \<Longrightarrow> of_workspace w (tabs D' (md_label m)) = []"
    and ref: "refuse_outside_references D w models = None"
    and ok: "registered e" "tables_apart models" "keyed D models" "\<And>m. m \<in> set models \<Longrightarrow> ae_models e (md_label m) = Some m"
    and own: "\<And>m. m \<in> set models \<Longrightarrow> deleted_rows counts (md_label m) = length (of_workspace w (tabs D (md_label m)))"
    and others: "\<And>k. k \<notin> md_label ` set models \<Longrightarrow> k \<notin> set (through_labels models) \<Longrightarrow> deleted_rows counts k = 0"
  shows "\<And>m. m \<in> set models \<Longrightarrow> map rw_key (tabs D' (md_label m))
      = map rw_key (filter (\<lambda>r. row_workspace r \<noteq> Some w) (tabs D (md_label m)))"
    and "\<And>k. k \<notin> md_label ` set models \<Longrightarrow> k \<notin> set (through_labels models) \<Longrightarrow> tabs D' k = tabs D k \<and> links D' k = links D k"
proof -
  have dist: "distinct (map rw_key (tabs D k))" for k using ok(3) by (simp add: keyed_def)
  show keys: "map rw_key (tabs D' (md_label m)) = map rw_key (filter (\<lambda>r. row_workspace r \<noteq> Some w) (tabs D (md_label m)))"
    if "m \<in> set models" for m
    by (rule exact_removal [OF del(1) dist _ del(2) [OF that] own [OF that]]) (use ok(3) that in \<open>simp add: keyed_def\<close>)
  fix k assume k: "k \<notin> md_label ` set models" "k \<notin> set (through_labels models)"
  have "\<not> touched e D D' k r" if r: "r \<in> set (tabs D k)" for r
  proof
    assume "touched e D D' k r"
    then obtain m rl i where m: "ae_models e (md_label m) = Some m" "rl \<in> set (md_related m)" "rl_model rl = k"
      "rl_through rl = None" "map_of (rw_values r) (rl_field rl) = Some (Ref i)"
      "i \<in> rw_key ` set (tabs D (md_label m))" "i \<notin> rw_key ` set (tabs D' (md_label m))"
      unfolding touched_def by blast
    have "md_label m \<in> md_label ` set models"
    proof (rule ccontr)
      assume n: "md_label m \<notin> md_label ` set models"
      show False
      proof (cases "md_label m \<in> set (through_labels models)")
        case True
        then show False using m(6) ok(3) by (simp add: keyed_def)
      next
        case False
        have len: "length (tabs D (md_label m)) \<le> length (tabs D' (md_label m))"
          using removalD(3) [OF del(1), of "md_label m"] others [OF n False]
            list_emb_length [OF removalD(2) [OF del(1), of "md_label m"]] by linarith
        then have "map rw_key (tabs D' (md_label m)) = map rw_key (tabs D (md_label m))"
          using subseq_same_length [OF removalD(1) [OF del(1), of "md_label m"]]
            list_emb_length [OF removalD(1) [OF del(1), of "md_label m"]] by simp
        then have "set (map rw_key (tabs D' (md_label m))) = set (map rw_key (tabs D (md_label m)))" by simp
        then show False using m(6,7) by simp
      qed
    qed
    then obtain m0 where m0: "m0 \<in> set models" "md_label m0 = md_label m" by auto
    have "m0 = m" using ok(4) [OF m0(1)] m(1) unfolding m0(2) by simp
    with m0(1) have mm: "m \<in> set models" by simp
    have "rl_made_for rl = None" using ok(1) m(1,2,4) unfolding registered_def by blast
    then have "outside_relation (map md_label models) rl" using k(1) m(3) by (simp add: outside_relation_def)
    from no_outside_reference [OF ref mm m(2) this] have np: "\<not> points_at D m w rl" .
    have "set (map rw_key (tabs D' (md_label m))) = set (map rw_key (filter (\<lambda>r. row_workspace r \<noteq> Some w) (tabs D (md_label m))))"
      using keys [OF mm] by simp
    then have i: "i \<in> set (map rw_key (of_workspace w (tabs D (md_label m))))" using m(6,7) by (auto simp: of_workspace_def)
    have "r \<in> set (tabs D (rl_model rl))" using r m(3) by simp
    then have "points_at D m w rl" using m(4,5) i
      by (cases "rl_asks rl") (auto simp: points_at_def Let_def list_ex_iff simp del: set_map intro!: bexI [of _ r])
    with np show False ..
  qed
  from nothing_removed [OF del(1) dist others [OF k] this] show "tabs D' k = tabs D k \<and> links D' k = links D k" by blast
qed


subsection \<open>Nothing is lost\<close>

text \<open>The counts of a run nobody interfered with.\<close>

lemma sealed_counts:
  assumes mis: "miscounted p counts = []" and un: "unexpected_labels p models counts = []"
    and t: "am_tables p = map (\<lambda>m. entry_of e m (table_text e D w m)) models" and j: "am_joins p = join_counts D w models"
    and lines: "writes_lines e D w models" and ap: "tables_apart models"
  shows "m \<in> set models \<Longrightarrow> deleted_rows counts (md_label m) = length (of_workspace w (tabs D (md_label m)))"
    and "l \<in> set (through_labels models) \<Longrightarrow> deleted_rows counts l = join_count D w models l"
    and "k \<notin> md_label ` set models \<Longrightarrow> k \<notin> set (through_labels models) \<Longrightarrow> deleted_rows counts k = 0"
proof -
  have dist: "distinct (map md_label models)" and disj: "md_label ` set models \<inter> set (through_labels models) = {}"
    using ap by (auto simp: tables_apart_def)
  have joins: "fst ` set (am_joins p) = set (through_labels models)" by (simp add: j join_counts_def image_image)
  show "deleted_rows counts (md_label m) = length (of_workspace w (tabs D (md_label m)))" if m: "m \<in> set models"
  proof -
    have "md_label m \<notin> fst ` set (am_joins p)" using m disj unfolding joins by blast
    note x = exported_entry [OF t dist m this]
    have "te_rows (entry_of e m (table_text e D w m)) = length (of_workspace w (tabs D (md_label m)))"
      using digest_text [OF lines m] by (cases "digest e (table_text e D w m)") (simp add: entry_of_def)
    with x(1) miscounted_None [OF mis x(2)] show ?thesis by simp
  qed
  show "deleted_rows counts l = join_count D w models l" if l: "l \<in> set (through_labels models)"
  proof -
    have "l \<in> set (exported_labels p)" using l joins by (auto simp: exported_labels_def)
    from miscounted_None [OF mis this] have "exported_rows p l = Some (deleted_rows counts l)" .
    moreover have "map_of (am_joins p) l = Some (join_count D w models l)"
      using l by (simp add: j join_counts_def map_of_map_restrict)
    ultimately show ?thesis by (simp add: exported_rows_def map_add_def)
  qed
  show "deleted_rows counts k = 0" if k: "k \<notin> md_label ` set models" "k \<notin> set (through_labels models)"
  proof (rule unexpected_None [OF un _ k(2)])
    have lab: "te_model (entry_of e m t) = md_label m" for m t by (simp add: entry_of_def split: prod.splits)
    show "k \<notin> set (exported_labels p)" using k joins by (auto simp: exported_labels_def t lab)
  qed
qed


lemma claim_rows:
  assumes "claim e W w key t user ignore_age = Inr (c, W1)" "ext_rows_ok W"
  obtains r where "ext_row W w key = Some r" "xr_status r \<in> {Ext_Inactive, Ext_Paused}" "c = claimed t user r"
    "W1 = save_ext c W" "ext_rows_ok W1" "row_by_id (W1\<lparr>stored := st\<rparr>) (xr_id c) = Some c"
    "xr_workspace c = w" "xr_key c = key" "ext_rows W1 = map (\<lambda>x. if x = r then c else x) (ext_rows W)"
proof -
  from assms(1) obtain r where r: "ext_row W w key = Some r" "xr_status r \<in> {Ext_Inactive, Ext_Paused}"
    "c = claimed t user r" "W1 = save_ext c W" by (rule claim_InrE)
  have m: "r \<in> set (ext_rows W)" "xr_workspace r = w" "xr_key r = key" using ext_row_Some [OF r(1)] by simp_all
  have same: "xr_id c = xr_id r" "xr_workspace c = xr_workspace r" "xr_key c = xr_key r" by (simp_all add: r(3) claimed_def)
  note s = save_ext_ok [OF assms(2) m(1) same]
  have "row_by_id (W1\<lparr>stored := st\<rparr>) (xr_id c) = row_by_id W1 (xr_id c)" by (simp add: row_by_id_def)
  also have "\<dots> = Some c" using ext_row_member(2) [OF s(1) s(3)] by (simp add: r(4))
  finally show ?thesis using that [OF r(1-4)] s r(4) m same by simp
qed

text \<open>
  The columns of a record that say where it stands, without the reason and the bookkeeping of runs.
\<close>

definition standing :: "extension_row \<Rightarrow> nat \<times> nat \<times> string \<times> ext_status \<times> moment \<times> string \<times> string \<times> moment option" where
  "standing r = (xr_id r, xr_workspace r, xr_key r, xr_status r, xr_changed_at r, xr_config r, archive_location r,
     xr_activated_at r)"

lemma released_standing:
  assumes "ext_row W w key = Some r" "ext_rows_ok W" "claim e W w key t user ignore_age = Inr (c, W1)"
  shows "map standing (ext_rows (release_run e (W1\<lparr>stored := st\<rparr>) (xr_id c) err REASON_ARCHIVE_FAILED))
      = map standing (ext_rows W)"
    and "rows_of (release_run e (W1\<lparr>stored := st\<rparr>) (xr_id c) err REASON_ARCHIVE_FAILED) = rows_of W"
proof -
  from assms(3,2) obtain r' where r: "ext_row W w key = Some r'" "xr_status r' \<in> {Ext_Inactive, Ext_Paused}" "c = claimed t user r'"
    "W1 = save_ext c W" "ext_rows_ok W1" "row_by_id (W1\<lparr>stored := st\<rparr>) (xr_id c) = Some c"
    "ext_rows W1 = map (\<lambda>x. if x = r' then c else x) (ext_rows W)" by (rule claim_rows)
  let ?b = "put_back e REASON_ARCHIVE_FAILED (ae_now e) (error_code err) c"
  have st: "xr_status c = Ext_Archiving" by (simp add: r(3) claimed_def)
  have rel: "release_run e (W1\<lparr>stored := st\<rparr>) (xr_id c) err REASON_ARCHIVE_FAILED = save_ext ?b (W1\<lparr>stored := st\<rparr>)"
    using r(6) st by (simp add: release_run_def)
  have same: "xr_id ?b = xr_id c" by (simp add: put_back_def)
  have sb: "standing ?b = standing r'" using r(2)
    by (simp add: standing_def put_back_def status_before_def moment_before_def r(3) claimed_def no_state_def archive_reasons)
  have cm: "c \<in> set (ext_rows W1)" using row_by_id_Some [OF r(6)] by simp
  have id: "xr_id x = xr_id c \<longleftrightarrow> x = c" if "x \<in> set (ext_rows W1)" for x
    using r(5) cm that by (auto simp: ext_rows_ok_def distinct_map inj_on_def)
  have "map standing (ext_rows (save_ext ?b (W1\<lparr>stored := st\<rparr>))) = map (\<lambda>x. if x = c then standing ?b else standing x) (ext_rows W1)"
    using id by (simp add: update_where_def same)
  also have "\<dots> = map standing (ext_rows W)"
  proof -
    have "(if y = c then standing ?b else standing y) = standing x"
      if "x \<in> set (ext_rows W)" "y = (if x = r' then c else x)" for x y
    proof (cases "x = r'")
      case False
      moreover have "xr_id x \<noteq> xr_id c"
        using ext_row_Some [OF r(1)] that(1) False assms(2) by (auto simp: ext_rows_ok_def distinct_map inj_on_def r(3) claimed_def)
      ultimately show ?thesis using that by auto
    qed (use that sb in simp)
    then show ?thesis unfolding r(7) by simp
  qed
  finally show "map standing (ext_rows (release_run e (W1\<lparr>stored := st\<rparr>) (xr_id c) err REASON_ARCHIVE_FAILED))
      = map standing (ext_rows W)" unfolding rel .
  show "rows_of (release_run e (W1\<lparr>stored := st\<rparr>) (xr_id c) err REASON_ARCHIVE_FAILED) = rows_of W"
    unfolding rel by (simp add: r(4))
qed

text \<open>
  C35: A run that fails, at whatever step, leaves every row of every table, and the records stand where
  they stood: the extension is on the status it had, since the moment it had it.
\<close>

theorem failed_archive_keeps_everything:
  assumes "archive e W w slug key user t ignore_age = (Inl err, W')" "ext_rows_ok W"
  shows "rows_of W' = rows_of W \<and> map standing (ext_rows W') = map standing (ext_rows W)"
proof (cases "archive_checks e W w key")
  case (Inl a)
  then show ?thesis using assms(1) by (simp add: archive_def)
next
  case checks: (Inr models)
  show ?thesis
  proof (cases "claim e W w key t user ignore_age")
    case (Inl a)
    then show ?thesis using assms(1) checks by (simp add: archive_def)
  next
    case claim: (Inr cw)
    obtain c W1 where cw: "cw = (c, W1)" by fastforce
    from claim cw obtain r where r: "ext_row W w key = Some r" by (auto elim: claim_InrE)
    have "\<exists>st. W' = release_run e (W1\<lparr>stored := st\<rparr>) (xr_id c) err REASON_ARCHIVE_FAILED"
      using assms(1) checks claim cw by (auto simp: archive_def split: sum.splits prod.splits option.splits)
    then show ?thesis using released_standing [OF r assms(2) claim [unfolded cw]] by auto
  qed
qed

text \<open>The parts of a finished run.\<close>

lemma archive_parts:
  assumes run: "archive e W w slug key user t ignore_age = (Inr r, W')" and ok: "ext_rows_ok W"
  obtains models c p st D counts r0 where "archivable_models e key = Inr models"
    "ext_row W w key = Some r0" "c = claimed t user r0"
    "export_run e (save_ext c W) w slug c models t (archive_state c) = (Inr p, st)" "verify e st p = None"
    "refuse_outside_references (rows_of W) w models = None" "refuse_split_joins (rows_of W) w models = None"
    "delete_tables e w (rows_of W) (map md_label (rev models)) = Inr (D, counts)"
    "unexpected_labels p models counts = []" "miscounted p counts = []"
    "r = sealed t p c" "rows_of W' = D" "stored W' = st" "applied W' = applied W" "ext_rows_ok W'" "ext_row W' w key = Some r"
    "xr_key c = key"
proof -
  from run obtain models c W1 p st where a: "archive_checks e W w key = Inr models"
    "claim e W w key t user ignore_age = Inr (c, W1)"
    "export_run e W1 w slug c models t (archive_state c) = (Inr p, st)" "verify e st p = None"
    "delete_and_seal e (W1\<lparr>stored := st\<rparr>) w c models p t = Inr (r, W')" by (rule archive_InrE)
  from a(1) obtain so m where m: "archivable_models e key = Inr models" "refuse_split_joins (rows_of W) w models = None"
    by (rule archive_checks_InrE)
  from a(2) ok obtain r0 where r0: "ext_row W w key = Some r0" "c = claimed t user r0" "W1 = save_ext c W" "ext_rows_ok W1"
    "row_by_id (W1\<lparr>stored := st\<rparr>) (xr_id c) = Some c" "xr_workspace c = w" "xr_key c = key" by (rule claim_rows)
  from a(5) obtain fresh D counts where s: "row_by_id (W1\<lparr>stored := st\<rparr>) (xr_id c) = Some fresh"
    "refuse_outside_references (rows_of (W1\<lparr>stored := st\<rparr>)) w models = None"
    "delete_tables e w (rows_of (W1\<lparr>stored := st\<rparr>)) (map md_label (rev models)) = Inr (D, counts)"
    "unexpected_labels p models counts = []" "miscounted p counts = []" "r = sealed t p fresh"
    "W' = save_ext (sealed t p fresh) (W1\<lparr>stored := st, rows_of := D\<rparr>)" by (rule seal_InrE)
  have f: "fresh = c" using s(1) r0(5) by simp
  have cm: "c \<in> set (ext_rows (W1\<lparr>stored := st, rows_of := D\<rparr>))" using row_by_id_Some [OF r0(5)] by simp
  have ok1: "ext_rows_ok (W1\<lparr>stored := st, rows_of := D\<rparr>)" using r0(4) by (simp add: ext_rows_ok_def)
  have same: "xr_id (sealed t p c) = xr_id c" "xr_workspace (sealed t p c) = xr_workspace c" "xr_key (sealed t p c) = xr_key c"
    by (simp_all add: sealed_def)
  note se = save_ext_ok [OF ok1 cm same]
  show ?thesis
    by (rule that [OF m(1) r0(1,2)])
      (use a(3,4) m(2) s r0 f se ext_row_member(1) [OF se(1,3)] in \<open>simp_all add: sealed_def\<close>)
qed


lemma export_tables:
  assumes "export_run e (save_ext c W) w slug c models t previous = (Inr p, st)"
  shows "am_tables p = map (\<lambda>m. entry_of e m (table_text e (rows_of W) w m)) models"
    "am_joins p = join_counts (rows_of W) w models" "am_directory p = archive_directory (ae_settings e) w (xr_key c) t"
    "am_format p = FORMAT_VERSION" "am_extension p = xr_key c" "am_workspace p = w"
    "am_migrations p = migrations_of (applied W) models" "am_total p = sum_list (map te_rows (am_tables p))"
proof -
  from assms obtain dir st1 where x: "dir = archive_directory (ae_settings e) w (xr_key c) t"
    "write_tables e (rows_of (save_ext c W)) w dir (stored (save_ext c W)) models = (Inr (am_tables p), st1)"
    "p = manifest_for (save_ext c W) w slug c models dir t previous (am_tables p)" by (rule export_InrE)
  show "am_tables p = map (\<lambda>m. entry_of e m (table_text e (rows_of W) w m)) models"
    using write_tables_entries [OF x(2)] by simp
  show "am_joins p = join_counts (rows_of W) w models" "am_directory p = archive_directory (ae_settings e) w (xr_key c) t"
    "am_format p = FORMAT_VERSION" "am_extension p = xr_key c" "am_workspace p = w"
    "am_migrations p = migrations_of (applied W) models" "am_total p = sum_list (map te_rows (am_tables p))"
    by (subst x(3), simp add: manifest_for_def x(1))+
qed

lemma archived_tables:
  assumes run: "archive e W w slug key user t ignore_age = (Inr r, W')" and models: "archivable_models e key = Inr models"
    and laws: "honest_delete e" "writes_lines e (rows_of W) w models" "registered e"
    and ok: "tables_apart models" "keyed (rows_of W) models" "ext_rows_ok W"
  shows "\<exists>counts. removal e (rows_of W) (rows_of W') counts \<and>
    (\<forall>m \<in> set models. map rw_key (tabs (rows_of W') (md_label m))
        = map rw_key (filter (\<lambda>x. row_workspace x \<noteq> Some w) (tabs (rows_of W) (md_label m)))) \<and>
    (\<forall>l \<in> set (through_labels models). deleted_rows counts l = join_count (rows_of W) w models l) \<and>
    (\<forall>k. k \<notin> md_label ` set models \<longrightarrow> k \<notin> set (through_labels models) \<longrightarrow>
        tabs (rows_of W') k = tabs (rows_of W) k \<and> links (rows_of W') k = links (rows_of W) k)"
proof -
  from run ok(3) obtain models' c p st D counts r0 where a: "archivable_models e key = Inr models'"
    "export_run e (save_ext c W) w slug c models' t (archive_state c) = (Inr p, st)"
    "refuse_outside_references (rows_of W) w models' = None"
    "delete_tables e w (rows_of W) (map md_label (rev models')) = Inr (D, counts)"
    "unexpected_labels p models' counts = []" "miscounted p counts = []" "rows_of W' = D" by (rule archive_parts)
  have mm: "models' = models" using a(1) models by simp
  note a = a [unfolded mm]
  note ex = export_tables [OF a(2)]
  note c = sealed_counts [OF a(6,5) ex(1,2) laws(2) ok(1)]
  have del: "removal e (rows_of W) D counts" "\<And>m. m \<in> set models \<Longrightarrow> of_workspace w (tabs D (md_label m)) = []"
    using delete_tables_removal [OF laws(1) a(4)] by auto
  have reg: "ae_models e (md_label m) = Some m" if "m \<in> set models" for m
    by (rule archivable_registered [OF models laws(3) that])
  have s: "(\<forall>m \<in> set models. map rw_key (tabs D (md_label m))
        = map rw_key (filter (\<lambda>x. row_workspace x \<noteq> Some w) (tabs (rows_of W) (md_label m)))) \<and>
      (\<forall>k. k \<notin> md_label ` set models \<longrightarrow> k \<notin> set (through_labels models) \<longrightarrow>
        tabs D k = tabs (rows_of W) k \<and> links D k = links (rows_of W) k)"
    using sealed_tables [of e "rows_of W" D counts models w] del a(3) laws(3) ok(1,2) reg c(1,3) by blast
  show ?thesis by (rule exI [of _ counts]) (use del(1) s c(2) a(7) in simp)
qed

text \<open>
  C8: An archived extension: storage holds the manifest and, for every table, a file that reads as the
  rows the workspace had there; of the extension's tables exactly those rows are gone; and no other
  table has changed.
\<close>

theorem archive_holds_what_is_gone:
  assumes run: "archive e W w slug key user t ignore_age = (Inr r, W')" and models: "archivable_models e key = Inr models"
    and laws: "honest_delete e" "writes_lines e (rows_of W) w models" "registered e"
    and ok: "tables_apart models" "keyed (rows_of W) models" "ext_rows_ok W"
  shows "ext_row W' w key = Some r \<and> xr_status r = Ext_Archived \<and>
    (\<exists>p. stored W' (path_join (archive_location r) MANIFEST_NAME) = Some (Manifest_File p) \<and>
      am_tables p = map (\<lambda>m. entry_of e m (table_text e (rows_of W) w m)) models \<and>
      (\<forall>entry \<in> set (am_tables p). \<exists>c. stored W' (path_join (archive_location r) (te_file entry)) = Some c \<and> reads_as e c entry)) \<and>
    (\<forall>m \<in> set models. map rw_key (tabs (rows_of W') (md_label m))
        = map rw_key (filter (\<lambda>x. row_workspace x \<noteq> Some w) (tabs (rows_of W) (md_label m)))) \<and>
    (\<forall>k. k \<notin> md_label ` set models \<longrightarrow> k \<notin> set (through_labels models) \<longrightarrow>
      tabs (rows_of W') k = tabs (rows_of W) k \<and> links (rows_of W') k = links (rows_of W) k)"
proof -
  from run ok(3) obtain models' c p st D counts r0 where a: "archivable_models e key = Inr models'"
    "export_run e (save_ext c W) w slug c models' t (archive_state c) = (Inr p, st)" "verify e st p = None"
    "r = sealed t p c" "stored W' = st" "ext_row W' w key = Some r" by (rule archive_parts)
  have mm: "models' = models" using a(1) models by simp
  note ex = export_tables [OF a(2) [unfolded mm]]
  have loc: "archive_location r = am_directory p" "xr_status r = Ext_Archived" by (simp_all add: a(4) sealed_def)
  have "\<exists>p. stored W' (path_join (archive_location r) MANIFEST_NAME) = Some (Manifest_File p) \<and>
      am_tables p = map (\<lambda>m. entry_of e m (table_text e (rows_of W) w m)) models \<and>
      (\<forall>entry \<in> set (am_tables p). \<exists>c. stored W' (path_join (archive_location r) (te_file entry)) = Some c \<and> reads_as e c entry)"
    using verify_None [OF a(3)] ex(1) unfolding loc a(5) by blast
  then show ?thesis using archived_tables [OF assms] a(6) loc(2) by blast
qed

end
