(* ===== verification/Archive_Restore.thy ===== *)
theory Archive_Restore
  imports Archive_Laws
begin

text \<open>
  Restoring what was archived: the files of a finished run are read back as the rows they were
  written from, and loading them puts every row and every join where it was.
\<close>

subsection \<open>Reading the lines back\<close>

text \<open>
  What the round trip asks of the serializer: a row is one line that no character but the final line
  feed ends, and the reader of rows reads it back. The storage keeps what it was given under the
  name it answers.
\<close>

definition faithful_row :: "archive_env \<Rightarrow> stored_row \<Rightarrow> bool" where
  "faithful_row e r \<longleftrightarrow> (\<exists>b. ae_dump e r = b @ [line_feed] \<and> list_all (\<lambda>c. \<not> line_end c) b \<and> strip b = b \<and> b \<noteq> [] \<and>
     ae_load e b = Some r)"

definition faithful_rows :: "archive_env \<Rightarrow> data \<Rightarrow> nat \<Rightarrow> model list \<Rightarrow> bool" where
  "faithful_rows e D w models \<longleftrightarrow> (\<forall>m \<in> set models. \<forall>r \<in> set (written_rows D w m). faithful_row e r)"

definition honest_save :: "archive_env \<Rightarrow> bool" where
  "honest_save e \<longleftrightarrow> (\<forall>st n c n' st'. ae_save e st n c = Inr (n', st') \<longrightarrow> st' = st(n' \<mapsto> c))"

lemma line_feed_ends [simp]: "line_end line_feed" "of_char line_feed = (10::nat)"
  by (simp_all add: line_end_def line_feed_def)

lemma faithful_lines: "faithful_rows e D w models \<Longrightarrow> writes_lines e D w models"
  unfolding faithful_rows_def faithful_row_def writes_lines_def one_line_def by (metis line_feed_ends(1) list_all_iff)

lemma split_lines_body: "list_all (\<lambda>c. \<not> line_end c) b \<Longrightarrow>
    split_lines acc (b @ line_feed # t) = (rev acc @ b) # split_lines [] t"
  by (induction b arbitrary: acc) (cases t; simp)+

definition body :: "archive_env \<Rightarrow> stored_row \<Rightarrow> string" where
  "body e r = butlast (ae_dump e r)"

lemma body_spec:
  assumes "faithful_row e r"
  shows "ae_dump e r = body e r @ [line_feed]" "list_all (\<lambda>c. \<not> line_end c) (body e r)" "strip (body e r) = body e r"
    "body e r \<noteq> []" "ae_load e (body e r) = Some r"
proof -
  from assms obtain b where b: "ae_dump e r = b @ [line_feed]" "list_all (\<lambda>c. \<not> line_end c) b" "strip b = b" "b \<noteq> []"
    "ae_load e b = Some r" unfolding faithful_row_def by meson
  then have "body e r = b" by (simp add: body_def)
  with b show "ae_dump e r = body e r @ [line_feed]" "list_all (\<lambda>c. \<not> line_end c) (body e r)" "strip (body e r) = body e r"
    "body e r \<noteq> []" "ae_load e (body e r) = Some r" by simp_all
qed

lemma read_rows_written:
  assumes "\<And>r. r \<in> set rs \<Longrightarrow> faithful_row e r"
  shows "read_rows e (concat (map (ae_dump e) rs)) = Inr rs"
proof -
  have "split_lines [] (concat (map (ae_dump e) rs)) = map (body e) rs" using assms
  proof (induction rs)
    case (Cons r rs)
    note b = body_spec [OF Cons.prems [of r]]
    show ?case using Cons by (simp add: b(1) split_lines_body [OF b(2)])
  qed simp
  moreover have "read_lines e (map (body e) rs) = Inr rs" using assms
    by (induction rs) (simp_all add: body_spec(3-5))
  ultimately show ?thesis by (simp add: read_rows_def)
qed

subsection \<open>The files of a run\<close>

definition plain_names :: "model list \<Rightarrow> bool" where
  "plain_names models \<longleftrightarrow> (\<forall>m \<in> set models. \<not> startswith ''/'' (file_of m))"

lemma path_join_inject: "\<not> startswith ''/'' x \<Longrightarrow> \<not> startswith ''/'' y \<Longrightarrow> path_join d x = path_join d y \<longleftrightarrow> x = y"
  by (simp add: path_join_def)

lemma manifest_name_plain [simp]: "\<not> startswith ''/'' MANIFEST_NAME" "file_of m \<noteq> MANIFEST_NAME" "MANIFEST_NAME \<noteq> file_of m"
proof -
  have "last (file_of m) = CHR ''l''" "last MANIFEST_NAME = CHR ''n''" by (simp_all add: file_of_def MANIFEST_NAME_def)
  then show "file_of m \<noteq> MANIFEST_NAME" "MANIFEST_NAME \<noteq> file_of m" by auto
qed (simp add: MANIFEST_NAME_def startswith_def)

lemma file_of_inject [simp]: "file_of m = file_of n \<longleftrightarrow> md_label m = md_label n"
  by (simp add: file_of_def)

lemma save_file_None:
  assumes "honest_save e" "save_file e st n c = (None, st')"
  shows "st' = st(n \<mapsto> c)"
proof -
  from assms(2) have "ae_save e st n c = Inr (n, st')"
    by (auto simp: save_file_def split: sum.splits prod.splits if_splits)
  with assms(1) show ?thesis unfolding honest_save_def by blast
qed

lemma written_files:
  assumes save: "honest_save e"
  shows "write_tables e D w dir st ms = (Inr es, st') \<Longrightarrow> plain_names ms \<Longrightarrow> distinct (map md_label ms) \<Longrightarrow>
    (\<forall>m \<in> set ms. st' (path_join dir (file_of m)) = Some (Lines (table_text e D w m))) \<and>
    (\<forall>n. n \<notin> (\<lambda>m. path_join dir (file_of m)) ` set ms \<longrightarrow> st' n = st n)"
proof (induction ms arbitrary: st es)
  case (Cons m ms)
  obtain a st1 where s1: "save_file e st (path_join dir (file_of m)) (Lines (table_text e D w m)) = (a, st1)" by fastforce
  with Cons.prems(1) have a: "a = None" by (cases a) (simp_all add: Let_def)
  obtain b st2 where w2: "write_tables e D w dir st1 ms = (b, st2)" by fastforce
  with Cons.prems(1) s1 a obtain es2 where b: "b = Inr es2" "st' = st2" by (cases b) (simp_all add: Let_def)
  have st1: "st1 = st(path_join dir (file_of m) \<mapsto> Lines (table_text e D w m))" using save_file_None [OF save] s1 a by blast
  have pl: "plain_names ms" "distinct (map md_label ms)" "md_label m \<notin> md_label ` set ms" "\<not> startswith ''/'' (file_of m)"
    using Cons.prems(2,3) by (auto simp: plain_names_def)
  note IH = Cons.IH [OF w2 [unfolded b(1) b(2) [symmetric]] pl(1,2)]
  have fresh: "path_join dir (file_of m) \<notin> (\<lambda>m. path_join dir (file_of m)) ` set ms"
    using pl(1,3,4) by (auto simp: plain_names_def path_join_inject)
  have "st' (path_join dir (file_of m)) = Some (Lines (table_text e D w m))" using IH fresh by (simp add: st1)
  then show ?case using IH by (auto simp: st1)
qed simp

lemma exported_files:
  assumes save: "honest_save e" and ex: "export_run e (save_ext c W) w slug c models t previous = (Inr p, st)"
    and pl: "plain_names models" "distinct (map md_label models)"
  shows "st (path_join (am_directory p) MANIFEST_NAME) = Some (Manifest_File p)"
    "m \<in> set models \<Longrightarrow> st (path_join (am_directory p) (file_of m)) = Some (Lines (table_text e (rows_of W) w m))"
proof -
  let ?W = "save_ext c W"
  from ex obtain dir st1 where x: "dir = archive_directory (ae_settings e) w (xr_key c) t"
    "write_tables e (rows_of ?W) w dir (stored ?W) models = (Inr (am_tables p), st1)"
    "save_file e st1 (path_join dir MANIFEST_NAME) (Manifest_File p) = (None, st)" by (rule export_InrE)
  have dir: "am_directory p = dir" using export_tables(3) [OF ex] x(1) by simp
  have st: "st = st1(path_join dir MANIFEST_NAME \<mapsto> Manifest_File p)" by (rule save_file_None [OF save x(3)])
  show "st (path_join (am_directory p) MANIFEST_NAME) = Some (Manifest_File p)" by (simp add: dir st)
  show "st (path_join (am_directory p) (file_of m)) = Some (Lines (table_text e (rows_of W) w m))" if m: "m \<in> set models"
  proof -
    have "st1 (path_join dir (file_of m)) = Some (Lines (table_text e (rows_of W) w m))"
      using written_files [OF save x(2) pl] m by simp
    then show ?thesis using pl(1) m by (simp add: dir st path_join_inject plain_names_def)
  qed
qed

lemma entry_of_simps [simp]: "te_model (entry_of e m t) = md_label m" "te_file (entry_of e m t) = file_of m"
  by (simp_all add: entry_of_def split: prod.splits)

lemma reads_as_entry [simp]: "reads_as e (Lines t) (entry_of e m t)"
  by (simp add: reads_as_def entry_of_def split: prod.splits)

lemma read_tables_written:
  assumes rows: "\<And>m r. m \<in> set ms \<Longrightarrow> r \<in> set (written_rows D w m) \<Longrightarrow> faithful_row e r" and conv: "ae_converters e key = []"
    and files: "\<And>m. m \<in> set ms \<Longrightarrow> st (path_join (am_directory p) (file_of m)) = Some (Lines (table_text e D w m))"
  shows "read_tables e st p key (map (\<lambda>m. entry_of e m (table_text e D w m)) ms)
    = Inr (map (\<lambda>m. (md_label m, written_rows D w m)) ms)"
  using rows files
proof (induction ms)
  case (Cons m ms)
  have f: "st (path_join (am_directory p) (file_of m)) = Some (Lines (table_text e D w m))" using Cons.prems by simp
  have "read_table e st p key (entry_of e m (table_text e D w m)) = Inr (written_rows D w m)"
    using read_rows_written [of "written_rows D w m" e] Cons.prems(1) [of m]
    by (simp add: read_table_def check_file_def f conv table_text_written)
  moreover have "read_tables e st p key (map (\<lambda>m. entry_of e m (table_text e D w m)) ms)
      = Inr (map (\<lambda>m. (md_label m, written_rows D w m)) ms)"
  proof (rule Cons.IH)
    show "faithful_row e r" if "n \<in> set ms" "r \<in> set (written_rows D w n)" for n r
      using Cons.prems(1) [of n r] that by simp
    show "st (path_join (am_directory p) (file_of n)) = Some (Lines (table_text e D w n))" if "n \<in> set ms" for n
      using Cons.prems(2) [of n] that by simp
  qed
  ultimately show ?case by simp
qed simp

lemma table_rows_written:
  assumes "distinct (map md_label ms)" "m \<in> set ms"
  shows "table_rows (map (\<lambda>m. (md_label m, written_rows D w m)) ms) (md_label m) = written_rows D w m"
proof -
  let ?es = "map (\<lambda>m. (md_label m, written_rows D w m)) ms"
  have d: "distinct (map fst (rev ?es))" using assms(1) by (simp add: rev_map [symmetric] comp_def)
  have "map_of (rev ?es) (md_label m) = Some (written_rows D w m)"
    by (rule map_of_is_SomeI [OF d]) (use assms(2) in auto)
  then show ?thesis by (simp add: table_rows_def)
qed

lemma first_error_None: "(\<And>x. x \<in> set xs \<Longrightarrow> f x = None) \<Longrightarrow> first_error f xs = None"
  by (induction xs) simp_all

lemma migrations_unmoved:
  assumes "am_migrations p = migrations_of (applied W) models"
  shows "check_migrations e W p key models = None"
  unfolding check_migrations_def Let_def
proof (rule first_error_None)
  fix app assume "app \<in> set (sort (remdups (map md_app models)))"
  then have app: "app \<in> fst ` set (migrations_of (applied W) models)" by (force simp: migrations_of_def)
  have "map_of (rev (migrations_of (applied W) models)) app = Some (latest_migration (applied W) app)"
  proof -
    from app have "map_of (rev (migrations_of (applied W) models)) app \<noteq> None" by (simp add: map_of_eq_None_iff)
    then obtain v where v: "map_of (rev (migrations_of (applied W) models)) app = Some v" by blast
    from map_of_SomeD [OF this] have "v = latest_migration (applied W) app" by (auto simp: migrations_of_def)
    with v show ?thesis by simp
  qed
  then show "(if (case map_of (rev (am_migrations p)) app of Some m \<Rightarrow> m | None \<Rightarrow> []) = latest_migration (applied W) app \<or>
      app \<in> set (map fst (ae_converters e key)) then None
      else Some (Refused ''migrations_changed'' [app, case map_of (rev (am_migrations p)) app of Some m \<Rightarrow> m | None \<Rightarrow> [],
        latest_migration (applied W) app])) = None"
    by (simp add: assms)
qed


subsection \<open>Loading rows into their places\<close>

definition in_order :: "row list \<Rightarrow> bool" where
  "in_order rows \<longleftrightarrow> sorted (map rw_key rows) \<and> distinct (map rw_key rows)"

lemma in_order_sorted_wrt: "in_order rows \<longleftrightarrow> sorted_wrt (<) (map rw_key rows)"
  by (simp add: in_order_def strict_sorted_iff)

lemma in_order_unique:
  assumes "in_order xs" "in_order ys" "set xs = set ys"
  shows "xs = ys"
proof (rule map_sorted_distinct_set_unique)
  show "inj_on rw_key (set xs \<union> set ys)" using assms by (simp add: in_order_def distinct_map)
qed (use assms in \<open>simp_all add: in_order_def\<close>)

lemma put_row_order:
  assumes "in_order rows"
  shows "in_order (put_row r rows)" "set (put_row r rows) = insert r {x \<in> set rows. rw_key x \<noteq> rw_key r}"
proof -
  have "sorted_wrt (<) (map rw_key (put_row r rows))"
    using assms by (auto simp: in_order_sorted_wrt put_row_def sorted_wrt_append sorted_wrt_map intro: sorted_wrt_filter)
  then show "in_order (put_row r rows)" by (simp add: in_order_sorted_wrt)
  show "set (put_row r rows) = insert r {x \<in> set rows. rw_key x \<noteq> rw_key r}" by (auto simp: put_row_def)
qed

lemma put_rows:
  "in_order rows \<Longrightarrow> distinct (map rw_key rs) \<Longrightarrow>
    in_order (fold put_row rs rows) \<and> set (fold put_row rs rows) = set rs \<union> {x \<in> set rows. rw_key x \<notin> rw_key ` set rs}"
proof (induction rs arbitrary: rows)
  case (Cons r rs)
  note p = put_row_order [OF Cons.prems(1), of r]
  have "in_order (fold put_row rs (put_row r rows)) \<and> set (fold put_row rs (put_row r rows))
      = set rs \<union> {x \<in> set (put_row r rows). rw_key x \<notin> rw_key ` set rs}"
    using Cons.IH [OF p(1)] Cons.prems(2) by simp
  then show ?case using Cons.prems(2) unfolding p(2) by auto
qed simp

lemma refill:
  assumes "in_order rows"
  shows "fold put_row (filter P rows) (filter (\<lambda>r. \<not> P r) rows) = rows"
proof -
  have sub: "in_order (filter Q rows)" for Q
    using assms by (simp add: in_order_def distinct_map_filter sorted_filter)
  have inj: "x = y" if "x \<in> set rows" "y \<in> set rows" "rw_key x = rw_key y" for x y
    using assms that by (auto simp: in_order_def distinct_map inj_on_def)
  note p = put_rows [OF sub [of "\<lambda>r. \<not> P r"], of "filter P rows"]
  have d: "distinct (map rw_key (filter P rows))" using sub [of P] by (simp add: in_order_def)
  show ?thesis
    by (rule in_order_unique) (use p [OF d] assms inj in auto)
qed

text \<open>A row's fields are its own columns; the joins are written beside them under other names.\<close>

definition fields_apart :: "data \<Rightarrow> model \<Rightarrow> bool" where
  "fields_apart D m \<longleftrightarrow> distinct (map mm_field (joined_through m)) \<and>
     (\<forall>r \<in> set (tabs D (md_label m)). fst ` set (rw_values r) \<inter> set (map mm_field (joined_through m)) = {})"

lemma unstored_stored:
  assumes "fields_apart D m" "r \<in> set (tabs D (md_label m))"
  shows "unstored m (stored_of D m r) = r"
proof -
  let ?F = "set (map mm_field (joined_through m))"
  have own: "fst ` set (rw_values r) \<inter> ?F = {}" using assms by (simp add: fields_apart_def)
  have "filter (\<lambda>(n, _). n \<notin> ?F) (rw_values r) = rw_values r"
    by (rule filter_True) (use own in force)
  moreover have "filter (\<lambda>(n, _). n \<notin> ?F) (map (\<lambda>f. (mm_field f, Keys (joined_keys D f (rw_key r)))) (joined_through m)) = []"
    by (auto simp: filter_empty_conv)
  ultimately show ?thesis by (simp add: unstored_def stored_of_def)
qed

lemma stored_join:
  assumes "fields_apart D m" "r \<in> set (tabs D (md_label m))" "f \<in> set (joined_through m)"
  shows "map_of (sr_values (stored_of D m r)) (mm_field f) = Some (Keys (joined_keys D f (rw_key r)))"
proof -
  have "map_of (rw_values r) (mm_field f) = None"
    using assms by (auto simp: fields_apart_def map_of_eq_None_iff)
  moreover have "map_of (map (\<lambda>f. (mm_field f, Keys (joined_keys D f (rw_key r)))) (joined_through m)) (mm_field f)
      = Some (Keys (joined_keys D f (rw_key r)))"
    by (rule map_of_is_SomeI) (use assms in \<open>simp_all add: fields_apart_def comp_def\<close>)
  ultimately show ?thesis by (simp add: stored_of_def map_add_def)
qed

lemma lower_lower [simp]: "lower (lower s) = lower s"
proof -
  have "lower_of (lower_of c) = lower_of c" for c
    by (auto simp: lower_of_def upper_letter_def)
  then show ?thesis by (simp add: lower_def)
qed

text \<open>The tables of a model's data, once its rows are loaded.\<close>

lemma load_rows_tabs:
  "tabs (fold (load_row m) srs E) = (tabs E)(md_label m := fold put_row (map (unstored m) srs) (tabs E (md_label m)))"
  by (induction srs arbitrary: E) (simp_all add: load_row_def)

definition joins_after :: "stored_row list \<Rightarrow> many \<Rightarrow> (nat \<times> nat) list \<Rightarrow> (nat \<times> nat) list" where
  "joins_after srs f joins = fold (\<lambda>sr. put_joins sr f) srs joins"

lemma fold_links:
  assumes "distinct (map mm_through fs)"
  shows "(fold (\<lambda>f L. L(mm_through f := g f (L (mm_through f)))) fs L) l
    = (case find (\<lambda>f. mm_through f = l) fs of Some f \<Rightarrow> g f (L l) | None \<Rightarrow> L l)"
  using assms
proof (induction fs arbitrary: L)
  case (Cons f fs)
  show ?case
  proof (cases "mm_through f = l")
    case True
    then have "\<not> (\<exists>g. g \<in> set fs \<and> mm_through g = l)" using Cons.prems by (metis distinct.simps(2) image_eqI image_set list.simps(9))
    then have "find (\<lambda>f. mm_through f = l) fs = None" by (simp only: find_None_iff simp_thms)
    then show ?thesis using Cons True by simp
  next
    case False
    then show ?thesis using Cons by simp
  qed
qed simp

lemma load_rows_links:
  assumes "distinct (map mm_through (joined_through m))"
  shows "links (fold (load_row m) srs E) l = (case find (\<lambda>f. mm_through f = l) (joined_through m) of
      Some f \<Rightarrow> joins_after srs f (links E l) | None \<Rightarrow> links E l)"
proof (induction srs arbitrary: E)
  case Nil
  then show ?case by (simp add: joins_after_def split: option.splits)
next
  case (Cons sr srs)
  have "links (load_row m sr E) l = (case find (\<lambda>f. mm_through f = l) (joined_through m) of
      Some f \<Rightarrow> put_joins sr f (links E l) | None \<Rightarrow> links E l)"
    using fold_links [OF assms, of "put_joins sr" "links E" l] by (simp add: load_row_def)
  then show ?case using Cons by (simp add: joins_after_def split: option.splits)
qed


lemma set_joins_after:
  assumes "fields_apart D m" "f \<in> set (joined_through m)" "set rs \<subseteq> set (tabs D (md_label m))" "distinct (map rw_key rs)"
  shows "set (joins_after (map (stored_of D m) rs) f joins)
    = {(a, b) \<in> set joins. a \<notin> rw_key ` set rs} \<union> {(a, b) \<in> set (links D (mm_through f)). a \<in> rw_key ` set rs}"
  using assms(3,4)
proof (induction rs arbitrary: joins)
  case (Cons r rs)
  have sj: "map_of (sr_values (stored_of D m r)) (mm_field f) = Some (Keys (joined_keys D f (rw_key r)))"
    by (rule stored_join [OF assms(1) _ assms(2)]) (use Cons.prems in simp)
  let ?J = "put_joins (stored_of D m r) f joins"
  have key: "sr_key (stored_of D m r) = rw_key r" by (simp add: stored_of_def)
  have J: "set ?J = {(a, b) \<in> set joins. a \<noteq> rw_key r} \<union> {(a, b) \<in> set (links D (mm_through f)). a = rw_key r}"
    by (force simp: put_joins_def sj key joined_keys_def)
  have "set (joins_after (map (stored_of D m) (r # rs)) f joins) = set (joins_after (map (stored_of D m) rs) f ?J)"
    by (simp add: joins_after_def)
  also have "\<dots> = {(a, b) \<in> set ?J. a \<notin> rw_key ` set rs} \<union> {(a, b) \<in> set (links D (mm_through f)). a \<in> rw_key ` set rs}"
    by (rule Cons.IH) (use Cons.prems in simp_all)
  also have "\<dots> = {(a, b) \<in> set joins. a \<notin> rw_key ` set (r # rs)} \<union>
      {(a, b) \<in> set (links D (mm_through f)). a \<in> rw_key ` set (r # rs)}"
    unfolding J using Cons.prems(2) by auto
  finally show ?case .
qed (auto simp: joins_after_def)

lemma nothing_foreign:
  assumes "in_order (tabs D (md_label m))" "tabs E (md_label m) = filter (\<lambda>r. row_workspace r \<noteq> Some w) (tabs D (md_label m))"
  shows "refuse_foreign_rows E w m (written_rows D w m) = None"
proof -
  have "wrong_row w (md_label m) sr = None" if sr: "sr \<in> set (written_rows D w m)" for sr
  proof -
    from sr obtain r where r: "sr = stored_of D m r" "row_workspace r = Some w" by (auto simp: written_rows_def of_workspace_def)
    from r(2) have "map_of (rw_values r) ''workspace'' = Some (Ref w)"
      by (auto simp: row_workspace_def split: option.splits column.splits)
    then show ?thesis by (simp add: wrong_row_def r(1) stored_of_def map_add_def)
  qed
  then have "first_error (wrong_row w (md_label m)) (written_rows D w m) = None" by (rule first_error_None)
  moreover have "rw_key x \<notin> set (map sr_key (written_rows D w m))" if "x \<in> set (tabs E (md_label m))" for x
  proof
    assume "rw_key x \<in> set (map sr_key (written_rows D w m))"
    then obtain r where "r \<in> set (tabs D (md_label m))" "row_workspace r = Some w" "rw_key r = rw_key x"
      by (auto simp: written_rows_def of_workspace_def stored_of_def)
    moreover have "x \<in> set (tabs D (md_label m))" "row_workspace x \<noteq> Some w" using that assms(2) by auto
    ultimately show False using assms(1) by (auto simp: in_order_def distinct_map inj_on_def)
  qed
  ultimately show ?thesis by (auto simp: refuse_foreign_rows_def list_ex_iff)
qed

lemma through_labels_Cons: "through_labels (m # ms) = map mm_through (joined_through m) @ through_labels ms"
  by (simp add: through_labels_def)

lemma load_models_written:
  assumes "\<And>m. m \<in> set ms \<Longrightarrow> T (md_label m) = written_rows D w m"
    and "distinct (map md_label ms)" "distinct (through_labels ms)"
    and "\<And>m. m \<in> set ms \<Longrightarrow> fields_apart D m" "\<And>m. m \<in> set ms \<Longrightarrow> in_order (tabs D (md_label m))"
    and "\<And>m. m \<in> set ms \<Longrightarrow> tabs E (md_label m) = filter (\<lambda>r. row_workspace r \<noteq> Some w) (tabs D (md_label m))"
  shows "\<exists>E' n. load_models w T E ms = Inr (E', n) \<and> (\<forall>m \<in> set ms. tabs E' (md_label m) = tabs D (md_label m)) \<and>
    (\<forall>k. k \<notin> md_label ` set ms \<longrightarrow> tabs E' k = tabs E k) \<and>
    (\<forall>m \<in> set ms. \<forall>f \<in> set (joined_through m).
      links E' (mm_through f) = joins_after (written_rows D w m) f (links E (mm_through f))) \<and>
    (\<forall>l. l \<notin> set (through_labels ms) \<longrightarrow> links E' l = links E l)"
  using assms
proof (induction ms arbitrary: E)
  case (Cons m ms)
  let ?srs = "written_rows D w m"
  let ?E = "fold (load_row m) ?srs E"
  have T: "T (md_label m) = ?srs" and fa: "fields_apart D m" and io: "in_order (tabs D (md_label m))"
    and tE: "tabs E (md_label m) = filter (\<lambda>r. row_workspace r \<noteq> Some w) (tabs D (md_label m))"
    using Cons.prems(1,4,5,6) by simp_all
  have thr: "distinct (map mm_through (joined_through m))" "distinct (through_labels ms)"
    "set (map mm_through (joined_through m)) \<inter> set (through_labels ms) = {}"
    using Cons.prems(3) by (simp_all add: through_labels_Cons)
  have un: "map (unstored m) ?srs = of_workspace w (tabs D (md_label m))"
    using unstored_stored [OF fa] unfolding written_rows_def map_map of_workspace_def by (intro map_idI) simp
  have tabs1: "tabs ?E = (tabs E)(md_label m := tabs D (md_label m))"
    using refill [OF io, of "\<lambda>r. row_workspace r = Some w"] by (simp add: load_rows_tabs un tE of_workspace_def)
  have links1: "links ?E (mm_through f) = joins_after ?srs f (links E (mm_through f))" if "f \<in> set (joined_through m)" for f
  proof -
    have "find (\<lambda>g. mm_through g = mm_through f) (joined_through m) = Some f"
    proof (cases "find (\<lambda>g. mm_through g = mm_through f) (joined_through m)")
      case None
      then show ?thesis using that unfolding find_None_iff by blast
    next
      case (Some g)
      then have "g \<in> set (joined_through m)" "mm_through g = mm_through f" by (auto simp: find_Some_iff)
      then show ?thesis using Some that thr(1) by (auto simp: distinct_map inj_on_def)
    qed
    then show ?thesis by (simp add: load_rows_links [OF thr(1)])
  qed
  have links0: "links ?E l = links E l" if "l \<notin> set (map mm_through (joined_through m))" for l
  proof -
    have "find (\<lambda>g. mm_through g = l) (joined_through m) = None" using that by (auto simp: find_None_iff)
    then show ?thesis by (simp add: load_rows_links [OF thr(1)])
  qed
  have lab: "distinct (map md_label ms)" "md_label m \<notin> md_label ` set ms" using Cons.prems(2) by simp_all
  have "\<exists>E' n. load_models w T ?E ms = Inr (E', n) \<and> (\<forall>m \<in> set ms. tabs E' (md_label m) = tabs D (md_label m)) \<and>
    (\<forall>k. k \<notin> md_label ` set ms \<longrightarrow> tabs E' k = tabs ?E k) \<and>
    (\<forall>m \<in> set ms. \<forall>f \<in> set (joined_through m).
      links E' (mm_through f) = joins_after (written_rows D w m) f (links ?E (mm_through f))) \<and>
    (\<forall>l. l \<notin> set (through_labels ms) \<longrightarrow> links E' l = links ?E l)"
  proof (rule Cons.IH [OF _ lab(1) thr(2)])
    fix x assume x: "x \<in> set ms"
    then have ne: "md_label x \<noteq> md_label m" using lab(2) by (metis image_eqI)
    show "T (md_label x) = written_rows D w x" "fields_apart D x" "in_order (tabs D (md_label x))"
      using Cons.prems(1,4,5) x by simp_all
    show "tabs ?E (md_label x) = filter (\<lambda>r. row_workspace r \<noteq> Some w) (tabs D (md_label x))"
      using Cons.prems(6) [of x] x ne by (simp add: tabs1)
  qed
  then obtain E' n where E': "load_models w T ?E ms = Inr (E', n)" "\<forall>m \<in> set ms. tabs E' (md_label m) = tabs D (md_label m)"
    "\<forall>k. k \<notin> md_label ` set ms \<longrightarrow> tabs E' k = tabs ?E k"
    "\<forall>m \<in> set ms. \<forall>f \<in> set (joined_through m). links E' (mm_through f) = joins_after (written_rows D w m) f (links ?E (mm_through f))"
    "\<forall>l. l \<notin> set (through_labels ms) \<longrightarrow> links E' l = links ?E l" by blast
  have "load_models w T E (m # ms) = Inr (E', length ?srs + n)"
    using nothing_foreign [of D m E w, OF io tE] E'(1) by (simp add: T)
  moreover have "\<forall>x \<in> set (m # ms). tabs E' (md_label x) = tabs D (md_label x)"
    using E'(2,3) lab(2) by (simp add: tabs1)
  moreover have "\<forall>k. k \<notin> md_label ` set (m # ms) \<longrightarrow> tabs E' k = tabs E k" using E'(3) by (simp add: tabs1)
  moreover have "\<forall>x \<in> set (m # ms). \<forall>f \<in> set (joined_through x).
      links E' (mm_through f) = joins_after (written_rows D w x) f (links E (mm_through f))"
  proof (intro ballI)
    fix x f assume x: "x \<in> set (m # ms)" and f: "f \<in> set (joined_through x)"
    show "links E' (mm_through f) = joins_after (written_rows D w x) f (links E (mm_through f))"
    proof (cases "x \<in> set ms")
      case True
      then have "mm_through f \<in> set (through_labels ms)" using f by (auto simp: through_labels_def)
      then have "links ?E (mm_through f) = links E (mm_through f)" using thr(3) links0 by blast
      then show ?thesis using E'(4) True f by simp
    next
      case False
      then have "x = m" using x by simp
      moreover have "mm_through f \<notin> set (through_labels ms)" using f thr(3) unfolding \<open>x = m\<close> by auto
      ultimately show ?thesis using E'(5) links1 f by simp
    qed
  qed
  moreover have "\<forall>l. l \<notin> set (through_labels (m # ms)) \<longrightarrow> links E' l = links E l"
    using E'(5) links0 by (simp add: through_labels_Cons)
  ultimately show ?case by blast
qed simp


subsection \<open>The joins left after a delete\<close>

lemma filter_either: "(\<And>x. x \<in> set xs \<Longrightarrow> P x \<Longrightarrow> \<not> Q x) \<Longrightarrow>
    length (filter (\<lambda>x. P x \<or> Q x) xs) = length (filter P xs) + length (filter Q xs)"
  by (induction xs) auto

lemma count_joined:
  assumes "distinct (map rw_key rs)"
  shows "sum_list (map (\<lambda>r. length (joined_keys D f (rw_key r))) rs)
    = length (filter (\<lambda>x. fst x \<in> rw_key ` set rs) (links D (mm_through f)))"
  using assms
proof (induction rs)
  case (Cons r rs)
  let ?J = "links D (mm_through f)"
  have "length (filter (\<lambda>x. fst x = rw_key r \<or> fst x \<in> rw_key ` set rs) ?J)
      = length (filter (\<lambda>x. fst x = rw_key r) ?J) + length (filter (\<lambda>x. fst x \<in> rw_key ` set rs) ?J)"
    by (rule filter_either) (use Cons.prems in auto)
  moreover have "(\<lambda>(a, _). a = rw_key r) = (\<lambda>x :: nat \<times> nat. fst x = rw_key r)" by auto
  ultimately show ?case using Cons by (simp add: joined_keys_def)
qed simp

text \<open>The count of a join table is that of the one field that goes through it.\<close>

lemma sum_list_one:
  assumes "x \<in> set xs" "distinct (map g xs)"
  shows "sum_list (map (\<lambda>y. if g y = g x then c y else 0) xs) = (c x :: nat)"
  using assms
proof (induction xs)
  case (Cons y ys)
  have zero: "sum_list (map (\<lambda>z. if g z = k then c z else 0) ys) = 0" if "k \<notin> g ` set ys" for k
    using that by (induction ys) auto
  show ?case
  proof (cases "y = x")
    case True
    then show ?thesis using Cons.prems zero [of "g x"] by simp
  next
    case False
    then have "x \<in> set ys" "g y \<noteq> g x" using Cons.prems by (auto simp: image_iff)
    then show ?thesis using Cons by simp
  qed
qed simp

lemma sum_list_filter_if: "sum_list (map h (filter P xs)) = sum_list (map (\<lambda>x. if P x then h x else (0::nat)) xs)"
  by (induction xs) simp_all

lemma sum_list_concat_map: "sum_list (concat (map h xs)) = sum_list (map (\<lambda>x. sum_list (h x) :: nat) xs)"
  by (induction xs) simp_all

lemma join_count_one:
  assumes "m \<in> set models" "f \<in> set (joined_through m)" "distinct (through_labels models)"
  shows "join_count D w models (mm_through f)
    = sum_list (map (\<lambda>r. length (joined_keys D f (rw_key r))) (of_workspace w (tabs D (md_label m))))"
proof -
  let ?c = "\<lambda>x. sum_list (map (\<lambda>r. length (joined_keys D (snd x) (rw_key r))) (of_workspace w (tabs D (md_label (fst x)))))"
  let ?L = "concat (map (\<lambda>m. map (Pair m) (joined_through m)) models)"
  have L: "map (mm_through \<circ> snd) ?L = through_labels models"
    by (simp add: through_labels_def map_concat comp_def)
  have "join_count D w models (mm_through f) = sum_list (map (\<lambda>x. if (mm_through \<circ> snd) x = (mm_through \<circ> snd) (m, f) then ?c x else 0) ?L)"
    by (simp add: join_count_def sum_list_filter_if sum_list_concat_map map_concat comp_def cong: if_cong)
  also have "\<dots> = ?c (m, f)"
    by (rule sum_list_one) (use assms L in \<open>auto simp: comp_def\<close>)
  finally show ?thesis by simp
qed

lemma joins_left:
  assumes d: "removal e D D' counts" and m: "ae_models e (md_label m) = Some m" "f \<in> set (joined_through m)" "m \<in> set models"
    and dist: "distinct (map rw_key (tabs D (md_label m)))" "distinct (through_labels models)"
    and keys: "map rw_key (tabs D' (md_label m)) = map rw_key (filter (\<lambda>r. row_workspace r \<noteq> Some w) (tabs D (md_label m)))"
    and n: "deleted_rows counts (mm_through f) = join_count D w models (mm_through f)" and t: "tabs D (mm_through f) = []"
  shows "links D' (mm_through f)
    = filter (\<lambda>x. fst x \<notin> rw_key ` set (of_workspace w (tabs D (md_label m)))) (links D (mm_through f))"
proof -
  let ?own = "rw_key ` set (of_workspace w (tabs D (md_label m)))" and ?J = "links D (mm_through f)"
  have own: "i \<notin> rw_key ` set (tabs D' (md_label m))" "i \<in> rw_key ` set (tabs D (md_label m))" if "i \<in> ?own" for i
  proof -
    from that obtain r where r: "r \<in> set (tabs D (md_label m))" "row_workspace r = Some w" "i = rw_key r"
      by (auto simp: of_workspace_def)
    then show "i \<in> rw_key ` set (tabs D (md_label m))" by simp
    have "rw_key ` set (tabs D' (md_label m)) = set (map rw_key (filter (\<lambda>r. row_workspace r \<noteq> Some w) (tabs D (md_label m))))"
      using keys by (metis list.set_map)
    then show "i \<notin> rw_key ` set (tabs D' (md_label m))"
      using r dist(1) by (auto simp: distinct_map inj_on_def)
  qed
  have "fst x \<notin> ?own" if "x \<in> set (links D' (mm_through f))" for x
  proof
    assume x: "fst x \<in> ?own"
    have "(fst x, snd x) \<in> set (links D' (mm_through f))" using that by simp
    from removalD(6) [OF d m(1,2) this own(2) [OF x]] own(1) [OF x] show False by blast
  qed
  then have "filter (\<lambda>x. fst x \<notin> ?own) (links D' (mm_through f)) = links D' (mm_through f)" by (simp add: filter_True)
  then have sub: "subseq (links D' (mm_through f)) (filter (\<lambda>x. fst x \<notin> ?own) ?J)"
    using subseq_filter [OF removalD(2) [OF d, of "mm_through f"], of "\<lambda>x. fst x \<notin> ?own"] by simp
  have do: "distinct (map rw_key (of_workspace w (tabs D (md_label m))))"
    using dist(1) by (simp add: of_workspace_def distinct_map_filter)
  have "deleted_rows counts (mm_through f) = length (filter (\<lambda>x. fst x \<in> ?own) ?J)"
    using n join_count_one [OF m(3,2) dist(2), of D w] count_joined [OF do, of D f] by simp
  moreover have "tabs D' (mm_through f) = []" using removalD(1) [OF d, of "mm_through f"] t by (auto dest: list_emb_Nil2)
  ultimately have "length ?J = length (links D' (mm_through f)) + length (filter (\<lambda>x. fst x \<in> ?own) ?J)"
    using removalD(3) [OF d, of "mm_through f"] t by simp
  moreover have "length (filter (\<lambda>x. fst x \<in> ?own) ?J) + length (filter (\<lambda>x. fst x \<notin> ?own) ?J) = length ?J"
    by (rule sum_length_filter_compl)
  ultimately have "length (links D' (mm_through f)) = length (filter (\<lambda>x. fst x \<notin> ?own) ?J)" by linarith
  then show ?thesis by (rule subseq_same_length [OF sub])
qed


subsection \<open>There and back\<close>

text \<open>
  No row of another workspace in the extension's tables points at the workspace's rows there, so the
  delete leaves those rows as they are.
\<close>

definition others_apart :: "data \<Rightarrow> nat \<Rightarrow> model list \<Rightarrow> bool" where
  "others_apart D w models \<longleftrightarrow> (\<forall>m \<in> set models. \<forall>rl \<in> set (md_related m). \<forall>r \<in> set (tabs D (rl_model rl)).
     rl_through rl = None \<longrightarrow> row_workspace r \<noteq> Some w \<longrightarrow> (case map_of (rw_values r) (rl_field rl) of
       Some (Ref i) \<Rightarrow> i \<notin> rw_key ` set (of_workspace w (tabs D (md_label m))) | _ \<Rightarrow> True))"

definition restorable :: "archive_env \<Rightarrow> data \<Rightarrow> nat \<Rightarrow> model list \<Rightarrow> bool" where
  "restorable e D w models \<longleftrightarrow> (\<forall>k. in_order (tabs D k)) \<and> keyed D models \<and> tables_apart models \<and> plain_names models \<and>
     others_apart D w models \<and> (\<forall>m \<in> set models. fields_apart D m)"

lemma removed_owner:
  assumes models: "\<And>m. m \<in> set models \<Longrightarrow> ae_models e (md_label m) = Some m"
    and keys: "\<And>m. m \<in> set models \<Longrightarrow> map rw_key (tabs D' (md_label m))
        = map rw_key (filter (\<lambda>x. row_workspace x \<noteq> Some w) (tabs D (md_label m)))"
    and others: "\<And>k. k \<notin> md_label ` set models \<Longrightarrow> k \<notin> set (through_labels models) \<Longrightarrow> tabs D' k = tabs D k"
    and keyed: "keyed D models"
    and m: "ae_models e (md_label m) = Some m" "i \<in> rw_key ` set (tabs D (md_label m))" "i \<notin> rw_key ` set (tabs D' (md_label m))"
  shows "m \<in> set models \<and> i \<in> rw_key ` set (of_workspace w (tabs D (md_label m)))"
proof -
  have "md_label m \<notin> set (through_labels models)" using m(2) keyed by (auto simp: keyed_def)
  with others [of "md_label m"] m(2,3) have "md_label m \<in> md_label ` set models" by metis
  then obtain m0 where m0: "m0 \<in> set models" "md_label m0 = md_label m" by auto
  have "m0 = m" using models [OF m0(1)] m(1) unfolding m0(2) by simp
  with m0(1) have mm: "m \<in> set models" by simp
  have "rw_key ` set (tabs D' (md_label m)) = set (map rw_key (filter (\<lambda>x. row_workspace x \<noteq> Some w) (tabs D (md_label m))))"
    using keys [OF mm] by (metis list.set_map)
  with m(2,3) mm show ?thesis by (auto simp: of_workspace_def)
qed

lemma others_stay:
  assumes d: "removal e D D' counts" and models: "\<And>m. m \<in> set models \<Longrightarrow> ae_models e (md_label m) = Some m"
    and keys: "\<And>m. m \<in> set models \<Longrightarrow> map rw_key (tabs D' (md_label m))
        = map rw_key (filter (\<lambda>x. row_workspace x \<noteq> Some w) (tabs D (md_label m)))"
    and others: "\<And>k. k \<notin> md_label ` set models \<Longrightarrow> k \<notin> set (through_labels models) \<Longrightarrow> tabs D' k = tabs D k"
    and ok: "restorable e D w models" and m: "m \<in> set models"
  shows "tabs D' (md_label m) = filter (\<lambda>x. row_workspace x \<noteq> Some w) (tabs D (md_label m))"
proof (rule same_keys_same_rows [OF keys [OF m]])
  let ?F = "filter (\<lambda>x. row_workspace x \<noteq> Some w) (tabs D (md_label m))"
  have dist: "distinct (map rw_key (tabs D (md_label m)))" using ok by (simp add: restorable_def keyed_def)
  then show "distinct (map rw_key ?F)" by (simp add: distinct_map_filter)
  show "set ?F \<subseteq> set (tabs D' (md_label m))"
  proof
    fix r assume r: "r \<in> set ?F"
    have "rw_key r \<in> set (map rw_key (tabs D' (md_label m)))" unfolding keys [OF m] using r by simp
    then have stays: "rw_key r \<in> rw_key ` set (tabs D' (md_label m))" by simp
    have "\<not> touched e D D' (md_label m) r"
    proof
      assume "touched e D D' (md_label m) r"
      then obtain n rl i where n: "ae_models e (md_label n) = Some n" "rl \<in> set (md_related n)" "rl_model rl = md_label m"
        "rl_through rl = None" "map_of (rw_values r) (rl_field rl) = Some (Ref i)"
        "i \<in> rw_key ` set (tabs D (md_label n))" "i \<notin> rw_key ` set (tabs D' (md_label n))"
        unfolding touched_def by blast
      have "n \<in> set models \<and> i \<in> rw_key ` set (of_workspace w (tabs D (md_label n)))"
        by (rule removed_owner [OF models keys others _ n(1,6,7)]) (use ok in \<open>simp_all add: restorable_def\<close>)
      moreover have "others_apart D w models" using ok by (simp add: restorable_def)
      ultimately show False using n(2-5) r unfolding others_apart_def by fastforce
    qed
    from removalD(5) [OF d _ stays this] r show "r \<in> set (tabs D' (md_label m))" by simp
  qed
qed


lemma begin_restore_archived:
  assumes "ext_rows_ok W" "ext_row W w key = Some r" "xr_status r = Ext_Archived" "archive_location r \<noteq> []"
    and "archive_storage (ae_settings e) = Inr so" "manifest_of e key = Inr m"
  shows "begin_restore e W w key user ACTIVATION_SYSTEM = Inr (restoring e user r, save_ext (restoring e user r) W)"
    "ext_rows_ok (save_ext (restoring e user r) W)" "ext_row (save_ext (restoring e user r) W) w key = Some (restoring e user r)"
proof -
  have man: "get_manifest (ae_registry e) key = Some m" "is_activatable m"
    using assms(6) by (auto simp: manifest_of_def split: option.splits if_splits)
  have "require_manageable (ae_registry e) key ACTIVATION_SYSTEM = Inr m"
    by (simp add: require_manageable_def man can_manage_def can_discover_def)
  then show "begin_restore e W w key user ACTIVATION_SYSTEM = Inr (restoring e user r, save_ext (restoring e user r) W)"
    by (simp add: begin_restore_def assms record_for_def)
  have r: "r \<in> set (ext_rows W)" "xr_workspace r = w" "xr_key r = key" using ext_row_Some [OF assms(2)] by simp_all
  have same: "xr_id (restoring e user r) = xr_id r" "xr_workspace (restoring e user r) = xr_workspace r"
    "xr_key (restoring e user r) = xr_key r" by (simp_all add: restoring_def)
  note s = save_ext_ok [OF assms(1) r(1) same]
  show "ext_rows_ok (save_ext (restoring e user r) W)" by (rule s(1))
  show "ext_row (save_ext (restoring e user r) W) w key = Some (restoring e user r)"
    using ext_row_member(1) [OF s(1,3)] same r by simp
qed

lemma archive_directory_nonempty: "archive_directory s w key t \<noteq> []"
  by (simp add: archive_directory_def path_join_def stamp_def Let_def)

text \<open>The tables when the rows written are loaded into what the delete left.\<close>

lemma reloaded_tables:
  assumes d: "removal e D D' counts" and models: "\<And>m. m \<in> set models \<Longrightarrow> ae_models e (md_label m) = Some m"
    and keys: "\<And>m. m \<in> set models \<Longrightarrow> map rw_key (tabs D' (md_label m))
        = map rw_key (filter (\<lambda>x. row_workspace x \<noteq> Some w) (tabs D (md_label m)))"
    and n: "\<And>l. l \<in> set (through_labels models) \<Longrightarrow> deleted_rows counts l = join_count D w models l"
    and others: "\<And>k. k \<notin> md_label ` set models \<Longrightarrow> k \<notin> set (through_labels models) \<Longrightarrow>
        tabs D' k = tabs D k \<and> links D' k = links D k"
    and ok: "restorable e D w models" and T: "\<And>m. m \<in> set models \<Longrightarrow> T (md_label m) = written_rows D w m"
  shows "\<exists>E n. load_models w T D' models = Inr (E, n) \<and> (\<forall>k. tabs E k = tabs D k) \<and> (\<forall>k. set (links E k) = set (links D k))"
proof -
  have apart: "distinct (map md_label models)" "distinct (through_labels models)"
    "md_label ` set models \<inter> set (through_labels models) = {}" and keyed: "keyed D models"
    and fa: "\<And>m. m \<in> set models \<Longrightarrow> fields_apart D m" and io: "\<And>k. in_order (tabs D k)"
    using ok by (auto simp: restorable_def tables_apart_def)
  have left: "tabs D' (md_label m) = filter (\<lambda>r. row_workspace r \<noteq> Some w) (tabs D (md_label m))" if "m \<in> set models" for m
    by (rule others_stay [OF d models keys _ ok that]) (use others in blast)+
  obtain E n where E: "load_models w T D' models = Inr (E, n)" "\<forall>m \<in> set models. tabs E (md_label m) = tabs D (md_label m)"
    "\<forall>k. k \<notin> md_label ` set models \<longrightarrow> tabs E k = tabs D' k"
    "\<forall>m \<in> set models. \<forall>f \<in> set (joined_through m). links E (mm_through f) = joins_after (written_rows D w m) f (links D' (mm_through f))"
    "\<forall>l. l \<notin> set (through_labels models) \<longrightarrow> links E l = links D' l"
    using load_models_written [of models T D w D'] T apart(1,2) fa io left by blast
  have "tabs E k = tabs D k" for k
  proof (cases "k \<in> md_label ` set models")
    case True
    then show ?thesis using E(2) by auto
  next
    case no: False
    show ?thesis
    proof (cases "k \<in> set (through_labels models)")
      case True
      then have "tabs D k = []" using keyed by (simp add: keyed_def)
      moreover from this have "tabs D' k = []" using removalD(1) [OF d, of k] by (auto dest: list_emb_Nil2)
      ultimately show ?thesis using E(3) no by simp
    next
      case False
      then show ?thesis using E(3) others no by simp
    qed
  qed
  moreover have "set (links E k) = set (links D k)" for k
  proof (cases "k \<in> set (through_labels models)")
    case True
    then obtain m f where m: "m \<in> set models" "f \<in> set (joined_through m)" "k = mm_through f" by (auto simp: through_labels_def)
    let ?own = "of_workspace w (tabs D (md_label m))"
    have dist: "distinct (map rw_key (tabs D (md_label m)))" using io [of "md_label m"] by (simp add: in_order_def)
    have t: "tabs D (mm_through f) = []" using True keyed unfolding m(3) by (simp add: keyed_def)
    have J: "links D' (mm_through f) = filter (\<lambda>x. fst x \<notin> rw_key ` set ?own) (links D (mm_through f))"
      by (rule joins_left [OF d models [OF m(1)] m(2,1) dist apart(2) keys [OF m(1)] _ t]) (use n True m(3) in simp)
    have "set (links E k) = set (joins_after (map (stored_of D m) ?own) f (links D' (mm_through f)))"
      using E(4) m by (simp add: written_rows_def)
    also have "\<dots> = {(a, b) \<in> set (links D' (mm_through f)). a \<notin> rw_key ` set ?own} \<union>
        {(a, b) \<in> set (links D (mm_through f)). a \<in> rw_key ` set ?own}"
      by (rule set_joins_after [OF fa [OF m(1)] m(2)])
        (use dist in \<open>auto simp: of_workspace_def distinct_map_filter\<close>)
    also have "\<dots> = set (links D k)" unfolding J m(3) by auto
    finally show ?thesis .
  next
    case no: False
    show ?thesis
    proof (cases "k \<in> md_label ` set models")
      case True
      then have "links D k = []" using keyed by (auto simp: keyed_def)
      moreover from this have "links D' k = []" using removalD(2) [OF d, of k] by (auto dest: list_emb_Nil2)
      ultimately show ?thesis using E(5) no by simp
    next
      case False
      then show ?thesis using E(5) others no by simp
    qed
  qed
  ultimately show ?thesis using E(1) by blast
qed

text \<open>
  C9: An archived extension comes back, under conditions: restored in the name of the system it is active again, with
  every row of every table and every join as it was before the archive was taken. The conditions are these. Storage,
  delete and serializer keep their documented laws (\<open>honest_save\<close>, \<open>honest_delete\<close>, \<open>registered\<close>); each exported row is
  one line that is read back as the row (\<open>faithful_rows\<close>), so no text in it has a character that ends a line, for such a
  text is not read back (\<open>a_line_end_in_a_text_is_not_read_back\<close> in \<open>Witnesses_Archive\<close>); the extension registers no converters; and the
  tables are apart, keyed and in the order of their keys, with no row of another workspace that points at the archived ones (\<open>restorable\<close>).
\<close>

theorem restore_brings_back:
  assumes run: "archive e W w slug key user t ignore_age = (Inr r, W')" and models: "archivable_models e key = Inr models"
    and laws: "honest_delete e" "faithful_rows e (rows_of W) w models" "registered e" "honest_save e"
    and ok: "restorable e (rows_of W) w models" "ext_rows_ok W" "ae_converters e key = []"
  shows "\<exists>r2 W2. restore e W' w key user2 ACTIVATION_SYSTEM = (Inr r2, W2) \<and> ext_row W2 w key = Some r2 \<and>
    xr_status r2 = Ext_Active \<and> xr_config r2 = xr_config r \<and>
    (\<forall>k. tabs (rows_of W2) k = tabs (rows_of W) k) \<and> (\<forall>k. set (links (rows_of W2) k) = set (links (rows_of W) k))"
proof -
  have ap: "tables_apart models" "keyed (rows_of W) models" "plain_names models" "distinct (map md_label models)"
    using ok(1) by (auto simp: restorable_def tables_apart_def)
  from run obtain ms where ch: "archive_checks e W w key = Inr ms" by (rule archive_InrE)
  then obtain so m where som: "archive_storage (ae_settings e) = Inr so" "manifest_of e key = Inr m" by (rule archive_checks_InrE)
  from run ok(2) obtain models' c p st D counts r0 where a: "archivable_models e key = Inr models'"
    "export_run e (save_ext c W) w slug c models' t (archive_state c) = (Inr p, st)" "r = sealed t p c"
    "rows_of W' = D" "stored W' = st" "applied W' = applied W" "ext_rows_ok W'" "ext_row W' w key = Some r" "xr_key c = key"
    by (rule archive_parts)
  have mm: "models' = models" using a(1) models by simp
  note ex = export_tables [OF a(2) [unfolded mm]] and files = exported_files [OF laws(4) a(2) [unfolded mm] ap(3,4)]
  have loc: "archive_location r = am_directory p" "xr_status r = Ext_Archived" by (simp_all add: a(3) sealed_def)
  have ne: "archive_location r \<noteq> []" unfolding loc ex(3) by (rule archive_directory_nonempty)
  note br = begin_restore_archived [OF a(7,8) loc(2) ne som, of user2]
  let ?q = "restoring e user2 r"
  let ?W1 = "save_ext ?q W'"
  let ?tables = "map (\<lambda>m. (md_label m, written_rows (rows_of W) w m)) models"
  have tables: "read_tables e st p key (am_tables p) = Inr ?tables"
    unfolding ex(1) by (rule read_tables_written [OF _ ok(3) files(2)]) (use laws(2) in \<open>auto simp: faithful_rows_def\<close>)
  have reg: "ae_models e (md_label m) = Some m" if "m \<in> set models" for m
    by (rule archivable_registered [OF models laws(3) that])
  have "\<exists>E n. load_models w (table_rows ?tables) (rows_of W') models = Inr (E, n) \<and> (\<forall>k. tabs E k = tabs (rows_of W) k) \<and>
      (\<forall>k. set (links E k) = set (links (rows_of W) k))"
  proof -
    from archived_tables [OF run models laws(1) faithful_lines [OF laws(2)] laws(3) ap(1,2) ok(2)]
    obtain counts where c: "removal e (rows_of W) (rows_of W') counts"
      "\<And>m. m \<in> set models \<Longrightarrow> map rw_key (tabs (rows_of W') (md_label m))
          = map rw_key (filter (\<lambda>x. row_workspace x \<noteq> Some w) (tabs (rows_of W) (md_label m)))"
      "\<And>l. l \<in> set (through_labels models) \<Longrightarrow> deleted_rows counts l = join_count (rows_of W) w models l"
      "\<And>k. k \<notin> md_label ` set models \<Longrightarrow> k \<notin> set (through_labels models) \<Longrightarrow>
          tabs (rows_of W') k = tabs (rows_of W) k \<and> links (rows_of W') k = links (rows_of W) k" by blast
    have T: "table_rows ?tables (md_label m) = written_rows (rows_of W) w m" if "m \<in> set models" for m
      by (rule table_rows_written [OF ap(4) that])
    show ?thesis by (rule reloaded_tables [OF c(1) reg c(2,3,4) ok(1) T])
  qed
  then obtain E n where E: "load_models w (table_rows ?tables) (rows_of W') models = Inr (E, n)"
    "\<forall>k. tabs E k = tabs (rows_of W) k" "\<forall>k. set (links E k) = set (links (rows_of W) k)" by blast
  let ?r2 = "restored (ae_now e) p n ?q"
  let ?W2 = "save_ext ?r2 (?W1\<lparr>rows_of := E\<rparr>)"
  have q: "?q \<in> set (ext_rows ?W1)" "xr_status ?q = Ext_Restoring" "archive_location ?q = am_directory p"
    using ext_row_Some [OF br(3)] loc(1) by (simp_all add: restoring_def)
  have row: "row_by_id ?W1 (xr_id ?q) = Some ?q" by (rule ext_row_member(2) [OF br(2) q(1)])
  have "check_migrations e ?W1 p key models = None" by (rule migrations_unmoved) (simp add: ex(7) a(6))
  moreover have "check_archive p w key = None" by (simp add: check_archive_def ex(4,5,6) a(9))
  ultimately have "restore_steps e ?W1 w key ?q = Inr (?r2, ?W2)"
    using files(1) models tables row q E(1) by (simp add: restore_steps_def read_manifest_def a(5) load_run_def)
  then have "restore e W' w key user2 ACTIVATION_SYSTEM = (Inr ?r2, ?W2)"
    using br som q(2) by (simp add: restore_def finish_restore_def record_for_def)
  moreover have "ext_row ?W2 w key = Some ?r2"
  proof -
    have ok2: "ext_rows_ok (?W1\<lparr>rows_of := E\<rparr>)" "?q \<in> set (ext_rows (?W1\<lparr>rows_of := E\<rparr>))"
      using br(2) q(1) by (simp_all add: ext_rows_ok_def)
    have same: "xr_id ?r2 = xr_id ?q" "xr_workspace ?r2 = xr_workspace ?q" "xr_key ?r2 = xr_key ?q"
      by (simp_all add: restored_def)
    note s = save_ext_ok [OF ok2 same]
    show ?thesis using ext_row_member(1) [OF s(1,3)] same ext_row_Some [OF br(3)] by simp
  qed
  moreover have "xr_status ?r2 = Ext_Active" "xr_config ?r2 = xr_config r" by (simp_all add: restored_def restoring_def)
  moreover have "rows_of ?W2 = E" by simp
  ultimately show ?thesis using E(2,3) by metis
qed

end
