(* ===== verification/Samples_Archive.thy ===== *)
theory Samples_Archive
  imports Archive_Restore Samples
begin

text \<open>
  An extension with data: posts and their tags, of workspaces 7 and 8, archived for workspace 7.
  The stand-ins for what is not the repository's: a row is written as one line of its label and
  key, a checksum is the text itself, storage keeps what it is given under the name it is given,
  and deleting rows takes their join rows with them and says so.
\<close>

definition tag_model :: model where
  "tag_model = \<lparr>md_label = ''blog.Tag'', md_app = ''blog'',
     md_columns = [(''id'', None), (''workspace'', Some ''common.Workspace''), (''name'', None)], md_many = [],
     md_related = [\<lparr>rl_model = ''blog.Post_tags'', rl_field = ''tag'', rl_through = None, rl_made_for = None, rl_asks = True\<rparr>]\<rparr>"

definition tags_field :: many where
  "tags_field = \<lparr>mm_field = ''tags'', mm_target = ''blog.Tag'', mm_scoped = True, mm_through = ''blog.Post_tags'', mm_auto = True\<rparr>"

definition post_model :: model where
  "post_model = \<lparr>md_label = ''blog.Post'', md_app = ''blog'',
     md_columns = [(''id'', None), (''workspace'', Some ''common.Workspace''), (''title'', None)], md_many = [tags_field],
     md_related = [\<lparr>rl_model = ''shop.Page'', rl_field = ''post'', rl_through = None, rl_made_for = None, rl_asks = True\<rparr>]\<rparr>"

definition blog_models :: "string \<Rightarrow> model option" where
  "blog_models l = (if l = ''blog.Tag'' then Some tag_model else if l = ''blog.Post'' then Some post_model else None)"

definition sample_row :: "nat \<Rightarrow> nat \<Rightarrow> string \<Rightarrow> string \<Rightarrow> row" where
  "sample_row k w field text = \<lparr>rw_key = k, rw_values = [(''workspace'', Ref w), (field, Words text)]\<rparr>"

definition blog_data :: data where
  "blog_data = \<lparr>tabs = (\<lambda>l. if l = ''blog.Tag'' then [sample_row 5 7 ''name'' ''news'', sample_row 6 8 ''name'' ''offers'']
       else if l = ''blog.Post'' then [sample_row 1 7 ''title'' ''Hello'', sample_row 2 8 ''title'' ''Sale''] else []),
     links = (\<lambda>l. if l = ''blog.Post_tags'' then [(1, 5), (2, 6)] else [])\<rparr>"

definition plain_dump :: "stored_row \<Rightarrow> string" where
  "plain_dump r = sr_model r @ ''/'' @ show_nat (sr_key r) @ [line_feed]"

definition blog_written :: "stored_row list" where
  "blog_written = [stored_of blog_data tag_model (sample_row 5 7 ''name'' ''news''),
     stored_of blog_data post_model (sample_row 1 7 ''title'' ''Hello'')]"

definition plain_load :: "string \<Rightarrow> stored_row option" where
  "plain_load t = first (filter (\<lambda>r. plain_dump r = t @ [line_feed]) blog_written)"

definition plain_save :: "files \<Rightarrow> string \<Rightarrow> content \<Rightarrow> string + (string \<times> files)" where
  "plain_save st name c = Inr (name, st(name \<mapsto> c))"

definition goes :: "data \<Rightarrow> string \<Rightarrow> nat \<Rightarrow> nat list" where
  "goes D l w = map rw_key (of_workspace w (tabs D l))"

definition goes_too :: "data \<Rightarrow> string \<Rightarrow> nat \<Rightarrow> string \<Rightarrow> nat \<times> nat \<Rightarrow> bool" where
  "goes_too D l w k p \<longleftrightarrow> k = ''blog.Post_tags'' \<and>
     (l = ''blog.Post'' \<and> fst p \<in> set (goes D l w) \<or> l = ''blog.Tag'' \<and> snd p \<in> set (goes D l w))"

definition plain_delete :: "data \<Rightarrow> string \<Rightarrow> nat \<Rightarrow> string + (data \<times> (string \<times> nat) list)" where
  "plain_delete D l w = Inr (\<lparr>tabs = (tabs D)(l := filter (\<lambda>r. rw_key r \<notin> set (goes D l w)) (tabs D l)),
       links = (\<lambda>k. filter (\<lambda>p. \<not> goes_too D l w k p) (links D k))\<rparr>,
     [(l, length (filter (\<lambda>r. rw_key r \<in> set (goes D l w)) (tabs D l))),
      (''blog.Post_tags'', length (filter (goes_too D l w ''blog.Post_tags'') (links D ''blog.Post_tags'')))])"

definition vault :: archive_settings where
  "vault = \<lparr>named_storage = ''vault'', named_prefix = [], storages = (\<lambda>a.
       if a = ''default'' then Some \<lparr>so_object = 1, custom_domain = [], bucket_name = ''media'', location = []\<rparr>
       else if a = ''vault'' then Some \<lparr>so_object = 2, custom_domain = [], bucket_name = ''vault'', location = []\<rparr> else None),
     media_root = ''/srv/media'', realpath = id\<rparr>"

definition blog_env :: archive_env where
  "blog_env = \<lparr>ae_now = noon, ae_settings = vault, ae_registry = registry,
     ae_declares = (\<lambda>k. if k = ''blog'' then [''blog.Post'', ''blog.Tag''] else []), ae_converters = (\<lambda>_. []),
     ae_models = blog_models, ae_after_days = 30, ae_stuck_setting = None, ae_dump = plain_dump, ae_load = plain_load,
     ae_checksum = id, ae_save = plain_save, ae_delete = plain_delete\<rparr>"

definition left_blog :: extension_row where
  "left_blog = \<lparr>xr_id = 3, xr_workspace = 7, xr_key = ''blog'', xr_status = Ext_Inactive, xr_reason = '''',
     xr_config = ''{}'', xr_changed_at = midnight 739400, xr_changed_by = Some 7,
     xr_activated_at = Some (midnight 739300), archive_location = [], archive_state = no_state\<rparr>"

definition blog_world :: world where
  "blog_world = \<lparr>rows_of = blog_data, ext_rows = [left_blog], applied = [(''blog'', ''0001_initial''), (''blog'', ''0002_tags'')],
     stored = (\<lambda>_. None), forgotten = []\<rparr>"

end
