(* ===== verification/Witnesses_Archive.thy ===== *)
theory Witnesses_Archive
  imports Samples_Archive
begin

lemma noon_date: "year_of 739466 = 2025 \<and> month_of 739466 = 8 \<and> day_of_month 739466 = 3" by code_simp

lemma noon_stamp: "stamp noon = ''20250803T120000Z''"
  by (simp add: stamp_def Let_def noon_date second_of_day_def)

definition blog_dir :: string where "blog_dir = ''extension-archives/workspace-7/blog/20250803T120000Z''"

lemma noon_directory: "archive_directory vault 7 ''blog'' noon = blog_dir"
  by (simp add: archive_directory_def noon_stamp [simplified] extension_root_def path_join_def startswith_def prefix_of_def
    vault_def strip_slash_def rstrip_slash_def strip_def or_else_def DEFAULT_PREFIX_def show_nat_eval blog_dir_def)

lemma blog_checks: "archive_checks blog_env blog_world 7 ''blog'' = Inr [tag_model, post_model]"
  by code_simp

lemma blog_claim: "claim blog_env blog_world 7 ''blog'' noon (Some 7) False
    = Inr (claimed noon (Some 7) left_blog, save_ext (claimed noon (Some 7) left_blog) blog_world)"
  by (simp add: claim_def record_for_def ext_row_def blog_world_def left_blog_def archive_limit_def blog_env_def
      midnight_def days_delta_def)

lemma blog_texts:
  "table_text blog_env blog_data 7 tag_model = ''blog.tag/5'' @ [line_feed]"
  "table_text blog_env blog_data 7 post_model = ''blog.post/1'' @ [line_feed]"
  by code_simp+

definition blog_run :: extension_row where "blog_run = claimed noon (Some 7) left_blog"

lemma blog_run_simps [simp]: "xr_key blog_run = ''blog''" "xr_workspace blog_run = 7" "xr_id blog_run = 3"
  "xr_status blog_run = Ext_Archiving" "xr_config blog_run = ''{}''"
  by (simp_all add: blog_run_def claimed_def left_blog_def)

definition blog_entries :: "table_entry list" where
  "blog_entries = [entry_of blog_env tag_model (''blog.tag/5'' @ [line_feed]), entry_of blog_env post_model (''blog.post/1'' @ [line_feed])]"

definition blog_manifest :: archive_manifest where
  "blog_manifest = manifest_for blog_world 7 ''acme'' blog_run [tag_model, post_model] blog_dir noon (archive_state blog_run) blog_entries"

definition blog_files :: files where
  "blog_files = Map.empty(path_join blog_dir (file_of tag_model) \<mapsto> Lines (''blog.tag/5'' @ [line_feed]),
     path_join blog_dir (file_of post_model) \<mapsto> Lines (''blog.post/1'' @ [line_feed]),
     path_join blog_dir MANIFEST_NAME \<mapsto> Manifest_File blog_manifest)"

lemma save_blog: "save_file blog_env st n c = (None, st(n \<mapsto> c))"
  by (simp add: save_file_def blog_env_def plain_save_def)

lemma blog_world_simps [simp]: "world.stored (save_ext r blog_world) = Map.empty" "rows_of (save_ext r blog_world) = blog_data"
  "applied (save_ext r blog_world) = applied blog_world" "rows_of blog_world = blog_data" "world.stored blog_world = Map.empty"
  by (simp_all add: save_ext_def blog_world_def)

lemma blog_export: "export_run blog_env (save_ext blog_run blog_world) 7 ''acme'' blog_run [tag_model, post_model] noon (archive_state blog_run)
    = (Inr blog_manifest, blog_files)"
proof -
  have s: "ae_settings blog_env = vault" by (simp add: blog_env_def)
  have m: "manifest_for (save_ext blog_run blog_world) 7 ''acme'' blog_run [tag_model, post_model] blog_dir noon (archive_state blog_run) blog_entries = blog_manifest"
    by (simp add: manifest_for_def blog_manifest_def)
  show ?thesis using m
    by (simp add: export_run_def noon_directory s blog_texts save_blog Let_def blog_files_def blog_entries_def del: noon_def clock_simps)
qed

lemma blog_verify: "verify blog_env blog_files blog_manifest = None"
  by code_simp

lemma blog_seal: "isl (delete_and_seal blog_env (save_ext blog_run blog_world\<lparr>stored := blog_files\<rparr>) 7 blog_run
    [tag_model, post_model] blog_manifest noon) = False"
  by code_simp

lemma blog_archived: "\<exists>r W'. archive blog_env blog_world 7 ''acme'' ''blog'' (Some 7) noon False = (Inr r, W')"
proof -
  obtain r W' where "delete_and_seal blog_env (save_ext blog_run blog_world\<lparr>stored := blog_files\<rparr>) 7 blog_run
      [tag_model, post_model] blog_manifest noon = Inr (r, W')"
    using blog_seal by (cases "delete_and_seal blog_env (save_ext blog_run blog_world\<lparr>stored := blog_files\<rparr>) 7 blog_run
      [tag_model, post_model] blog_manifest noon") auto
  then show ?thesis
    by (simp add: archive_def blog_checks blog_claim [folded blog_run_def] blog_export blog_verify del: noon_def clock_simps)
qed

lemma blog_archivable: "archivable_models blog_env ''blog'' = Inr [tag_model, post_model]"
  by code_simp

lemma blog_delete: "honest_delete blog_env"
proof -
  have "removal blog_env D D' counts \<and> of_workspace w (tabs D' l) = []" if d: "plain_delete D l w = Inr (D', counts)" for D l w D' counts
  proof -
    have D': "D' = \<lparr>tabs = (tabs D)(l := filter (\<lambda>r. rw_key r \<notin> set (goes D l w)) (tabs D l)),
       links = (\<lambda>k. filter (\<lambda>p. \<not> goes_too D l w k p) (links D k))\<rparr>"
      and c: "counts = [(l, length (filter (\<lambda>r. rw_key r \<in> set (goes D l w)) (tabs D l))),
      (''blog.Post_tags'', length (filter (goes_too D l w ''blog.Post_tags'') (links D ''blog.Post_tags'')))]"
      using d by (simp_all add: plain_delete_def)
    have gone: "k \<noteq> ''blog.Post_tags'' \<Longrightarrow> \<not> goes_too D l w k p" for k p by (simp add: goes_too_def)
    have 1: "subseq (map rw_key (tabs D' k)) (map rw_key (tabs D k))" for k
      by (simp add: D' subseq_map)
    have 2: "subseq (links D' k) (links D k)" for k by (simp add: D')
    note a = sum_length_filter_compl [of "\<lambda>r. rw_key r \<in> set (goes D l w)" "tabs D l"]
      and b = sum_length_filter_compl [of "goes_too D l w ''blog.Post_tags''" "links D ''blog.Post_tags''"]
    have 3: "length (tabs D k) + length (links D k) = length (tabs D' k) + length (links D' k) + deleted_rows counts k" for k
    proof (cases "k = ''blog.Post_tags''")
      case True
      then show ?thesis using a b by (cases "l = k") (simp_all add: D' c deleted_rows_def)
    next
      case False
      then have "filter (\<lambda>p. \<not> goes_too D l w k p) (links D k) = links D k" by (simp add: gone)
      then show ?thesis using a False by (simp add: D' c deleted_rows_def del: list.inject)
    qed
    have 4: "\<forall>r' \<in> set (tabs D' k). \<exists>r \<in> set (tabs D k). rw_key r = rw_key r' \<and> row_workspace r = row_workspace r'" for k
      by (auto simp: D' split: if_splits)
    have 5: "\<forall>r \<in> set (tabs D k). rw_key r \<in> rw_key ` set (tabs D' k) \<longrightarrow> \<not> touched blog_env D D' k r \<longrightarrow> r \<in> set (tabs D' k)" for k
      by (auto simp: D' split: if_splits)
    have 6: "a \<in> rw_key ` set (tabs D' (md_label m))" if "ae_models blog_env (md_label m) = Some m" "f \<in> set (joined_through m)"
        "(a, b) \<in> set (links D' (mm_through f))" "a \<in> rw_key ` set (tabs D (md_label m))" for m f a b
    proof -
      from that(1,2) have m: "m = post_model" "f = tags_field"
        by (auto simp: blog_env_def blog_models_def joined_through_def tag_model_def post_model_def split: if_splits)
      from that(3) have "l = ''blog.Post'' \<longrightarrow> a \<notin> set (goes D l w)" by (auto simp: D' m tags_field_def goes_too_def)
      with that(4) show ?thesis by (auto simp: D' m post_model_def)
    qed
    have 7: "of_workspace w (tabs D' l) = []" by (auto simp: D' of_workspace_def goes_def filter_empty_conv)
    show ?thesis unfolding removal_def using 1 2 3 4 5 6 7 by blast
  qed
  then show ?thesis by (simp add: honest_delete_def blog_env_def)
qed

lemma blog_registered: "registered blog_env"
  by (auto simp: registered_def blog_env_def blog_models_def tag_model_def post_model_def split: if_splits)

lemma blog_saves: "honest_save blog_env"
  by (simp add: honest_save_def blog_env_def plain_save_def)

lemma written_blog_rows: "\<forall>m \<in> set [tag_model, post_model]. \<forall>r \<in> set (written_rows blog_data 7 m). r \<in> set blog_written"
  by code_simp

lemma blog_lines: "ae_dump blog_env (blog_written ! 0) = ''blog.tag/5'' @ [line_feed] \<and>
    ae_dump blog_env (blog_written ! 1) = ''blog.post/1'' @ [line_feed] \<and>
    ae_load blog_env ''blog.tag/5'' = Some (blog_written ! 0) \<and> ae_load blog_env ''blog.post/1'' = Some (blog_written ! 1) \<and>
    list_all (\<lambda>c. \<not> line_end c) ''blog.tag/5'' \<and> list_all (\<lambda>c. \<not> line_end c) ''blog.post/1'' \<and>
    strip ''blog.tag/5'' = ''blog.tag/5'' \<and> strip ''blog.post/1'' = ''blog.post/1''"
  by code_simp

lemma blog_faithful: "faithful_rows blog_env (rows_of blog_world) 7 [tag_model, post_model]"
proof -
  have "faithful_row blog_env (blog_written ! 0)" unfolding faithful_row_def
    by (rule exI [of _ "''blog.tag/5''"]) (use blog_lines in simp)
  moreover have "faithful_row blog_env (blog_written ! 1)" unfolding faithful_row_def
    by (rule exI [of _ "''blog.post/1''"]) (use blog_lines in simp)
  moreover have "set blog_written = {blog_written ! 0, blog_written ! 1}" by (simp add: blog_written_def)
  ultimately show ?thesis using written_blog_rows unfolding faithful_rows_def blog_world_simps by (metis insertE singletonD)
qed

lemma blog_apart: "tables_apart [tag_model, post_model]" "ext_rows_ok blog_world"
  by (simp_all add: tables_apart_def tag_model_def post_model_def through_labels_def joined_through_def tags_field_def
      ext_rows_ok_def blog_world_def)

lemma blog_restorable: "restorable blog_env (rows_of blog_world) 7 [tag_model, post_model]"
  unfolding restorable_def
  by (intro conjI blog_apart(1))
    (auto simp: in_order_def keyed_def plain_names_def others_apart_def fields_apart_def
      blog_data_def tag_model_def post_model_def through_labels_def joined_through_def tags_field_def sample_row_def
      file_of_def startswith_def)

lemma blog_keyed: "keyed (rows_of blog_world) [tag_model, post_model]"
  using blog_restorable by (simp add: restorable_def)

lemma failed_archive_keeps_everything_witness:
  "\<exists>err W'. archive blog_env blog_world 7 ''acme'' ''shop'' None noon False = (Inl err, W') \<and>
     rows_of W' = rows_of blog_world \<and> map standing (ext_rows W') = map standing (ext_rows blog_world)"
proof -
  have "isl (archive_checks blog_env blog_world 7 ''shop'')" by code_simp
  then obtain err where "archive_checks blog_env blog_world 7 ''shop'' = Inl err" by (auto simp: isl_def)
  then have a: "archive blog_env blog_world 7 ''acme'' ''shop'' None noon False = (Inl err, blog_world)" by (simp add: archive_def)
  show ?thesis using failed_archive_keeps_everything [OF a blog_apart(2)] a by blast
qed

lemma archive_holds_what_is_gone_witness:
  "\<exists>r W'. archive blog_env blog_world 7 ''acme'' ''blog'' (Some 7) noon False = (Inr r, W') \<and> xr_status r = Ext_Archived \<and>
     map rw_key (tabs (rows_of W') ''blog.Post'') = [2] \<and> map rw_key (tabs (rows_of W') ''blog.Tag'') = [6]"
proof -
  obtain r W' where a: "archive blog_env blog_world 7 ''acme'' ''blog'' (Some 7) noon False = (Inr r, W')"
    using blog_archived by blast
  note h = archive_holds_what_is_gone [OF a blog_archivable blog_delete faithful_lines [OF blog_faithful] blog_registered
    blog_apart(1) blog_keyed blog_apart(2)]
  have "map rw_key (filter (\<lambda>x. row_workspace x \<noteq> Some 7) (tabs (rows_of blog_world) ''blog.Post'')) = [2] \<and>
      map rw_key (filter (\<lambda>x. row_workspace x \<noteq> Some 7) (tabs (rows_of blog_world) ''blog.Tag'')) = [6]"
    by code_simp
  moreover have "md_label tag_model = ''blog.Tag''" "md_label post_model = ''blog.Post''"
    by (simp_all add: tag_model_def post_model_def)
  ultimately show ?thesis using h a by auto
qed

lemma restore_brings_back_witness:
  "\<exists>r W' r2 W2. archive blog_env blog_world 7 ''acme'' ''blog'' (Some 7) noon False = (Inr r, W') \<and>
     restore blog_env W' 7 ''blog'' None ACTIVATION_SYSTEM = (Inr r2, W2) \<and> xr_status r2 = Ext_Active \<and>
     tabs (rows_of W2) ''blog.Post'' = tabs blog_data ''blog.Post''"
proof -
  obtain r W' where a: "archive blog_env blog_world 7 ''acme'' ''blog'' (Some 7) noon False = (Inr r, W')"
    using blog_archived by blast
  have "ae_converters blog_env ''blog'' = []" by (simp add: blog_env_def)
  from restore_brings_back [OF a blog_archivable blog_delete blog_faithful blog_registered blog_saves blog_restorable
    blog_apart(2) this, of None] a show ?thesis by auto
qed

subsection \<open>What the model shows\<close>

text \<open>
  A title that holds the next-line character, which the serializer writes as it is: the archive is
  made, and the rows deleted; reading it back splits the row in two and refuses both.
\<close>

definition next_line :: char where "next_line = char_of (133::nat)"

definition titled_dump :: "stored_row \<Rightarrow> string" where
  "titled_dump r = (case map_of (sr_values r) ''title'' of
     Some (Words t) \<Rightarrow> sr_model r @ ''/'' @ t @ [line_feed] | _ \<Rightarrow> sr_model r @ [line_feed])"

definition long_post :: data where
  "long_post = \<lparr>tabs = (\<lambda>l. if l = ''blog.Post'' then [sample_row 1 7 ''title'' (''Hello'' @ next_line # ''World'')] else []),
     links = (\<lambda>_. [])\<rparr>"

definition titled_env :: archive_env where
  "titled_env = blog_env\<lparr>ae_dump := titled_dump,
     ae_load := (\<lambda>t. first (filter (\<lambda>r. titled_dump r = t @ [line_feed]) (written_rows long_post 7 post_model)))\<rparr>"

definition long_text :: string where
  "long_text = ''blog.post/Hello'' @ next_line # ''World'' @ [line_feed]"

lemma a_line_end_in_a_text_is_not_read_back:
  "table_text titled_env long_post 7 post_model = long_text \<and>
   ae_load titled_env (butlast long_text) = Some (stored_of long_post post_model (sample_row 1 7 ''title'' (''Hello'' @ next_line # ''World''))) \<and>
   digest titled_env long_text = (1, ''sha256:'' @ long_text, 23) \<and>
   read_rows titled_env long_text = Inl (archive_error.Refused ''unreadable_row'' [])"
  by code_simp

text \<open>
  A row edited between the export and the delete: the counts agree, so the run is sealed, and the
  edit is in neither the tables nor the archive.
\<close>

definition edited_data :: data where
  "edited_data = blog_data\<lparr>tabs := (tabs blog_data)(''blog.Post'' := [sample_row 1 7 ''title'' ''Bye'', sample_row 2 8 ''title'' ''Sale''])\<rparr>"

lemma an_edit_during_the_run_is_lost:
  "(case delete_and_seal blog_env (save_ext blog_run blog_world\<lparr>stored := blog_files, rows_of := edited_data\<rparr>) 7 blog_run
      [tag_model, post_model] blog_manifest noon of
     Inl _ \<Rightarrow> False
   | Inr (r, W) \<Rightarrow> xr_status r = Ext_Archived \<and> tabs (rows_of W) ''blog.Post'' = [sample_row 2 8 ''title'' ''Sale''] \<and>
       (case restore blog_env W 7 ''blog'' None ACTIVATION_SYSTEM of (Inl _, _) \<Rightarrow> False
        | (Inr _, W2) \<Rightarrow> tabs (rows_of W2) ''blog.Post'' = tabs blog_data ''blog.Post'' \<and>
            tabs (rows_of W2) ''blog.Post'' \<noteq> tabs edited_data ''blog.Post''))"
  by code_simp

text \<open>A converter is asked also when no migration has moved since the archive was written.\<close>

definition converter_env :: archive_env where
  "converter_env = blog_env\<lparr>ae_converters := (\<lambda>_. [(''blog'', \<lambda>_ _ _. Refuses)])\<rparr>"

lemma a_converter_runs_though_nothing_moved:
  "check_migrations blog_env blog_world blog_manifest ''blog'' [tag_model, post_model] = None \<and>
   read_tables converter_env blog_files blog_manifest ''blog'' blog_entries = Inl (archive_error.Refused ''converter_refused'' [''blog.Tag''])"
  by code_simp

end
