(* ===== verification/Control_Actions.thy ===== *)
theory Control_Actions
  imports Entitlements Rendering
begin

text \<open>
  What every write of the control plane goes through (\<open>platform/services/control_actions.py\<close>,
  \<open>control_audit.py\<close>): confirmation and reason, the ledger of requests by which a retry is answered
  instead of carried out again, the redaction of what is stored, and the audit trail.

  A value of a request or response is a \<open>control_value\<close>: JSON with the dates, moments, decimals and
  tuples the services put into it. A decimal carries how many places it is written with. The
  digest of a payload, \<open>sha256\<close> of its JSON text with sorted keys, is a function of the payload with
  its keys in order; nothing is assumed of it.
\<close>

subsection \<open>Values\<close>

datatype control_value = V_Null | V_Bool bool | V_Int int | V_Text string | V_Date date | V_Moment moment
  | V_Decimal nat rat | V_List "control_value list" | V_Tuple "control_value list" | V_Dict "(string \<times> control_value) list"

text \<open>\<open>datetime.isoformat\<close> of a moment in UTC.\<close>

definition iso_moment :: "moment \<Rightarrow> string" where
  "iso_moment t = (let s = nat ((t mod day_us) div 1000000); us = nat (t mod 1000000) in
     isoformat (day_of t) @ ''T'' @ zero_pad 2 (s div 3600) @ '':'' @ zero_pad 2 (s div 60 mod 60) @ '':'' @
     zero_pad 2 (s mod 60) @ (if us = 0 then [] else ''.'' @ zero_pad 6 us) @ ''+00:00'')"

subsection \<open>Redaction\<close>

definition SENSITIVE_KEYS :: "string list" where
  "SENSITIVE_KEYS = [''redis_url'', ''api_key'', ''platform_api_key'', ''agent_api_key'', ''database_url'',
     ''authorization'', ''cookie'', ''credentials'']"

definition is_sensitive_key :: "string \<Rightarrow> bool" where
  "is_sensitive_key key \<longleftrightarrow> (let n = replace_char (CHR ''-'') (CHR ''_'') (lower (strip key)) in
     n \<in> set SENSITIVE_KEYS \<or> contains ''password'' n \<or> contains ''secret'' n \<or> endswith ''_token'' n \<or> endswith ''_api_key'' n)"

fun redact_control_value :: "control_value \<Rightarrow> control_value" where
  "redact_control_value (V_Dict fs) =
     V_Dict (map (\<lambda>(k, v). (k, if is_sensitive_key k then V_Text ''[redacted]'' else redact_control_value v)) fs)"
| "redact_control_value (V_List vs) = V_List (map redact_control_value vs)"
| "redact_control_value (V_Tuple vs) = V_List (map redact_control_value vs)"
| "redact_control_value (V_Date d) = V_Text (isoformat d)"
| "redact_control_value (V_Moment t) = V_Text (iso_moment t)"
| "redact_control_value (V_Decimal p x) = V_Text (show_fixed p x)"
| "redact_control_value v = v"

subsection \<open>Requests\<close>

text \<open>
  What is read of a request: who makes it, whether \<open>confirm\<close> is true, the reason in its body (the empty
  string when there is none) and in its header, the idempotency key, and where it came from.
\<close>

record control_request =
  cq_user :: nat
  cq_confirm :: bool
  cq_reason :: string
  cq_reason_header :: string
  cq_key :: string
  cq_forwarded :: string
  cq_remote :: "string option"
  cq_id :: "string option"

definition require_confirmation :: "control_request \<Rightarrow> string + unit" where
  "require_confirmation q = (if cq_confirm q then Inr () else Inl ''confirm'')"

definition require_reason :: "control_request \<Rightarrow> string + string" where
  "require_reason q = (let reason = strip (or_else (cq_reason q) (cq_reason_header q)) in
     if length reason < 3 then Inl ''reason_required'' else Inr (take 500 reason))"

definition key_of :: "control_request \<Rightarrow> string + string" where
  "key_of q = (let key = strip (cq_key q) in
     if 8 \<le> length key \<and> length key \<le> 128 then Inr key else Inl ''idempotency_key'')"

subsection \<open>The ledger\<close>

record action_row =
  ac_id :: nat
  ac_user :: nat
  ac_key :: string
  ac_action :: string
  ac_target_type :: string
  ac_target_id :: string
  ac_hash :: string
  ac_result :: string
  ac_status :: "nat option"
  ac_body :: control_value
  ac_completed_at :: "moment option"

text \<open>The keys of every object in order, as \<open>json.dumps\<close> writes them with \<open>sort_keys\<close>.\<close>

fun sorted_keys :: "control_value \<Rightarrow> control_value" where
  "sorted_keys (V_Dict fs) = V_Dict (sort_key fst (map (\<lambda>(k, v). (k, sorted_keys v)) fs))"
| "sorted_keys (V_List vs) = V_List (map sorted_keys vs)"
| "sorted_keys (V_Tuple vs) = V_Tuple (map sorted_keys vs)"
| "sorted_keys v = v"

definition payload_hash :: "(control_value \<Rightarrow> string) \<Rightarrow> control_value \<Rightarrow> string" where
  "payload_hash sha payload = sha (sorted_keys (redact_control_value payload))"

datatype action_claim = New_Action action_row | Conflict string | Old_Answer nat control_value

definition action_of :: "action_row list \<Rightarrow> nat \<Rightarrow> string \<Rightarrow> action_row option" where
  "action_of rows user key = first (filter (\<lambda>r. ac_user r = user \<and> ac_key r = key) rows)"

definition new_action :: "action_row list \<Rightarrow> nat \<Rightarrow> string \<Rightarrow> string \<Rightarrow> string \<Rightarrow> string \<Rightarrow> string \<Rightarrow> action_row" where
  "new_action rows user key act ttype tid hash = \<lparr>ac_id = fresh_id ac_id rows, ac_user = user, ac_key = key,
     ac_action = act, ac_target_type = ttype, ac_target_id = tid, ac_hash = hash, ac_result = ''pending'',
     ac_status = None, ac_body = V_Dict [], ac_completed_at = None\<rparr>"

definition replay_of :: "action_row \<Rightarrow> string \<Rightarrow> string \<Rightarrow> string \<Rightarrow> string \<Rightarrow> action_claim" where
  "replay_of r act ttype tid hash =
    (if ac_action r \<noteq> act \<or> ac_target_type r \<noteq> ttype \<or> ac_target_id r \<noteq> tid \<or> ac_hash r \<noteq> hash
     then Conflict ''idempotency_key_reused''
     else case ac_status r of None \<Rightarrow> Conflict ''idempotency_request_incomplete''
     | Some s \<Rightarrow> Old_Answer s (ac_body r))"

definition claim_action :: "(control_value \<Rightarrow> string) \<Rightarrow> action_row list \<Rightarrow> control_request \<Rightarrow> string \<Rightarrow> string \<Rightarrow> string
    \<Rightarrow> control_value \<Rightarrow> string + (action_claim \<times> action_row list)" where
  "claim_action sha rows q act ttype tid payload = bind_r (key_of q) (\<lambda>key.
     let hash = payload_hash sha payload in
     case action_of rows (cq_user q) key of
       Some r \<Rightarrow> Inr (replay_of r act ttype tid hash, rows)
     | None \<Rightarrow> let r = new_action rows (cq_user q) key act ttype tid hash in Inr (New_Action r, rows @ [r]))"

definition completed :: "string \<Rightarrow> nat \<Rightarrow> control_value \<Rightarrow> moment \<Rightarrow> action_row \<Rightarrow> action_row" where
  "completed result status body t r = r\<lparr>ac_result := result, ac_status := Some status,
     ac_body := redact_control_value body, ac_completed_at := Some t\<rparr>"

definition complete_action :: "action_row \<Rightarrow> string \<Rightarrow> nat \<Rightarrow> control_value \<Rightarrow> moment \<Rightarrow> action_row list \<Rightarrow> action_row list" where
  "complete_action r result status body t rows =
     update_where (\<lambda>x. ac_id x = ac_id r) (completed result status body t) rows"

subsection \<open>The audit trail\<close>

record audit_event =
  ev_action :: string
  ev_target_type :: string
  ev_target_id :: string
  ev_reason :: string
  ev_result :: string
  ev_actor :: nat
  ev_request_id :: "string option"
  ev_source_ip :: "string option"
  ev_before :: control_value
  ev_after :: control_value

definition client_ip :: "control_request \<Rightarrow> string option" where
  "client_ip q = (let forwarded = strip (fst (partition CHR '','' (cq_forwarded q))) in
     if forwarded \<noteq> [] then Some forwarded
     else case cq_remote q of Some a \<Rightarrow> if a = [] then None else Some a | None \<Rightarrow> None)"

definition record_control_audit :: "control_request \<Rightarrow> string \<Rightarrow> string \<Rightarrow> string \<Rightarrow> string \<Rightarrow> control_value \<Rightarrow> control_value
    \<Rightarrow> string \<Rightarrow> audit_event list \<Rightarrow> audit_event list" where
  "record_control_audit q act ttype tid reason before after result trail = trail @
     [\<lparr>ev_action = act, ev_target_type = ttype, ev_target_id = tid, ev_reason = reason, ev_result = result,
       ev_actor = cq_user q, ev_request_id = cq_id q, ev_source_ip = client_ip q,
       ev_before = redact_control_value before, ev_after = redact_control_value after\<rparr>]"

subsection \<open>What redaction does\<close>

text \<open>JSON: no date, decimal or tuple is left in it.\<close>

fun plain_json :: "control_value \<Rightarrow> bool" where
  "plain_json (V_Dict fs) \<longleftrightarrow> (\<forall>(k, v) \<in> set fs. plain_json v)"
| "plain_json (V_List vs) \<longleftrightarrow> (\<forall>v \<in> set vs. plain_json v)"
| "plain_json (V_Tuple _) \<longleftrightarrow> False"
| "plain_json (V_Date _) \<longleftrightarrow> False"
| "plain_json (V_Moment _) \<longleftrightarrow> False"
| "plain_json (V_Decimal _ _) \<longleftrightarrow> False"
| "plain_json _ \<longleftrightarrow> True"

text \<open>The values under sensitive keys replaced by others, wherever they are.\<close>

fun tampered :: "(string \<Rightarrow> control_value \<Rightarrow> control_value) \<Rightarrow> control_value \<Rightarrow> control_value" where
  "tampered f (V_Dict fs) = V_Dict (map (\<lambda>(k, v). (k, if is_sensitive_key k then f k v else tampered f v)) fs)"
| "tampered f (V_List vs) = V_List (map (tampered f) vs)"
| "tampered f (V_Tuple vs) = V_Tuple (map (tampered f) vs)"
| "tampered f v = v"

lemma redact_plain: "plain_json (redact_control_value v)"
  by (induction v rule: redact_control_value.induct) auto

lemma redact_redacted: "redact_control_value (redact_control_value v) = redact_control_value v"
  by (induction v rule: redact_control_value.induct) auto

lemma redact_tampered: "redact_control_value (tampered f v) = redact_control_value v"
  by (induction f v rule: tampered.induct) auto

end
