(* ===== verification/Control_Workspaces.thy ===== *)
theory Control_Workspaces
  imports Control_Actions Conditions
begin

text \<open>
  What a superuser does to a workspace through the control plane (\<open>PlatformControlWorkspaceViewSet\<close> in
  \<open>platform/views/control_views.py\<close>): suspending and resuming it (\<open>provision_service.py\<close>), scheduling its
  deletion and cancelling that, its usage cap, and entitlements given and revoked (\<open>console_admin.py\<close>).

  A request is authenticated as a superuser before any of this. Of the response bodies the English
  details of a refusal are left out, and what \<open>_workspace_item\<close> says from tables that are not modelled
  (owner, domains, staff, cluster) is a parameter.
\<close>

subsection \<open>The state of the control plane\<close>

text \<open>The marks of a profile, the operations recorded, the ledger and the audit trail.\<close>

record marks =
  suspended_at :: "moment option"
  scheduled_deletion_at :: "moment option"

record operation =
  op_workspace :: nat
  op_kind :: string
  op_by :: nat
  op_details :: control_value
  op_completed_at :: moment

record control_world =
  cw_db :: platform_db
  cw_marks :: "nat \<Rightarrow> marks"
  cw_operations :: "operation list"
  cw_ledger :: "action_row list"
  cw_audit :: "audit_event list"

record control_env =
  ce_env :: env
  ce_registry :: "manifest list"
  ce_check :: ent_check
  ce_sha :: "control_value \<Rightarrow> string"
  ce_outside :: "platform_db \<Rightarrow> nat \<Rightarrow> (string \<times> control_value) list"

text \<open>
  How a request ends: carried out with a status and a body, answered with what an earlier one came to,
  refused by the ledger, refused for what it says (its code), or about something that is not there.
\<close>

datatype outcome = Answer nat control_value | Replay nat control_value | Conflicting string | Invalid string | Not_Found

definition no_marks :: marks where
  "no_marks = \<lparr>suspended_at = None, scheduled_deletion_at = None\<rparr>"

definition marks_of :: "control_world \<Rightarrow> nat \<Rightarrow> marks" where
  "marks_of W w = (case profile_of (cw_db W) w of Some p \<Rightarrow> cw_marks W (pf_id p) | None \<Rightarrow> no_marks)"

definition set_marks :: "nat \<Rightarrow> (marks \<Rightarrow> marks) \<Rightarrow> control_world \<Rightarrow> control_world" where
  "set_marks w f W = (case profile_of (cw_db W) w of None \<Rightarrow> W
     | Some p \<Rightarrow> W\<lparr>cw_marks := (cw_marks W)(pf_id p := f (cw_marks W (pf_id p)))\<rparr>)"

definition is_active :: "control_world \<Rightarrow> nat \<Rightarrow> bool" where
  "is_active W w = (case workspace_by_id (cw_db W) w of Some v \<Rightarrow> ws_active v | None \<Rightarrow> False)"

definition set_active :: "nat \<Rightarrow> bool \<Rightarrow> control_world \<Rightarrow> control_world" where
  "set_active w b W = W\<lparr>cw_db := (cw_db W)\<lparr>workspaces := update_where (\<lambda>v. ws_id v = w) (\<lambda>v. v\<lparr>ws_active := b\<rparr>)
     (workspaces (cw_db W))\<rparr>\<rparr>"

definition add_operation :: "control_env \<Rightarrow> nat \<Rightarrow> string \<Rightarrow> nat \<Rightarrow> control_value \<Rightarrow> control_world \<Rightarrow> control_world" where
  "add_operation E w kind user details W = W\<lparr>cw_operations := cw_operations W @
     [\<lparr>op_workspace = w, op_kind = kind, op_by = user, op_details = details, op_completed_at = now (ce_env E)\<rparr>]\<rparr>"

subsection \<open>Suspending and resuming\<close>

definition suspend_workspace :: "control_env \<Rightarrow> nat \<Rightarrow> nat \<Rightarrow> string \<Rightarrow> control_world \<Rightarrow> control_world" where
  "suspend_workspace E w user reason W = add_operation E w ''suspend'' user (V_Dict [(''reason'', V_Text reason)])
     (set_marks w (\<lambda>m. m\<lparr>suspended_at := Some (now (ce_env E))\<rparr>) (set_active w False W))"

definition resume_workspace :: "control_env \<Rightarrow> nat \<Rightarrow> nat \<Rightarrow> control_world \<Rightarrow> control_world" where
  "resume_workspace E w user W = add_operation E w ''resume'' user (V_Dict [])
     (set_marks w (\<lambda>m. m\<lparr>suspended_at := None\<rparr>) (set_active w True W))"

subsection \<open>Bodies\<close>

definition moment_value :: "moment option \<Rightarrow> control_value" where
  "moment_value t = (case t of Some t \<Rightarrow> V_Moment t | None \<Rightarrow> V_Null)"

definition moment_text :: "moment option \<Rightarrow> control_value" where
  "moment_text t = (case t of Some t \<Rightarrow> V_Text (iso_moment t) | None \<Rightarrow> V_Null)"

definition workspace_item :: "control_env \<Rightarrow> control_world \<Rightarrow> nat \<Rightarrow> control_value" where
  "workspace_item E W w = (case workspace_by_id (cw_db W) w of None \<Rightarrow> V_Dict []
     | Some v \<Rightarrow> V_Dict ([(''id'', V_Int (int (ws_id v))), (''name'', V_Text (ws_name v)), (''slug'', V_Text (ws_slug v)),
         (''is_active'', V_Bool (ws_active v)), (''is_platform'', V_Bool (is_platform_workspace (ce_env E) v)),
         (''suspended_at'', moment_value (suspended_at (marks_of W w))),
         (''scheduled_deletion_at'', moment_value (scheduled_deletion_at (marks_of W w))),
         (''placement_fence'', V_Int (case profile_of (cw_db W) w of Some p \<Rightarrow> int (placement_fence p) | None \<Rightarrow> 0))]
         @ ce_outside E (cw_db W) w))"

definition code_body :: "string \<Rightarrow> control_value" where
  "code_body code = V_Dict [(''code'', V_Text code)]"

text \<open>\<open>_entitlement_entry\<close> of \<open>console_admin\<close> and \<open>_entitlement_item\<close> of the view.\<close>

definition source_text :: "ent_source \<Rightarrow> string" where
  "source_text s = (case s of Purchased \<Rightarrow> ''purchased'' | Granted \<Rightarrow> ''granted'')"

definition status_text :: "ent_status \<Rightarrow> string" where
  "status_text s = (case s of Ent_Active \<Rightarrow> ''active'' | Ent_Grace \<Rightarrow> ''grace'' | Ent_Ended \<Rightarrow> ''ended'')"

definition entitlement_entry :: "entitlement \<Rightarrow> (string \<times> control_value) list" where
  "entitlement_entry r = [(''id'', V_Int (int (en_id r))), (''key'', V_Text (en_key r)),
     (''status'', V_Text (status_text (en_status r))), (''source'', V_Text (source_text (en_source r))),
     (''starts_at'', moment_text (Some (starts_at r))), (''current_period_end'', moment_text (current_period_end r)),
     (''reason'', V_Text (en_reason r))]"

definition entitlement_item :: "control_env \<Rightarrow> control_world \<Rightarrow> nat \<Rightarrow> entitlement \<Rightarrow> control_value" where
  "entitlement_item E W w r = V_Dict [(''id'', V_Int (int (en_id r))), (''key'', V_Text (en_key r)),
     (''status'', V_Text (status_text (en_status r))), (''source'', V_Text (source_text (en_source r))),
     (''starts_at'', moment_value (Some (starts_at r))), (''current_period_end'', moment_value (current_period_end r)),
     (''reason'', V_Text (en_reason r)), (''is_effective'', V_Bool (is_entitled (ce_env E) (cw_db W) (Some w) (en_key r)))]"

text \<open>\<open>_cap\<close> and \<open>usage_cap_entry\<close>.\<close>

definition cap_value :: "rat option \<Rightarrow> control_value" where
  "cap_value c = (case c of Some x \<Rightarrow> V_Text (show_fixed 2 (quantize_half_even 2 x)) | None \<Rightarrow> V_Null)"

definition usage_cap_entry :: "control_env \<Rightarrow> platform_db \<Rightarrow> nat \<Rightarrow> control_value" where
  "usage_cap_entry E db w =
    (let own = (case profile_of db w of Some p \<Rightarrow> monthly_usage_cap_points p | None \<Rightarrow> None) in
     V_Dict [(''workspace'', V_Int (int w)), (''cap_points'', cap_value own),
       (''default_cap_points'', cap_value (Some (default_cap_points (ce_env E)))),
       (''effective_cap_points'', cap_value (Some (monthly_cap (ce_env E) db w))),
       (''source'', V_Text (if own \<noteq> None then ''workspace'' else ''platform''))])"

subsection \<open>Entitlements given\<close>

datatype resumed = Nothing_To_Resume | Left_As ext_status | Refused_With string | Resumed ext_status

definition live_entitlement :: "env \<Rightarrow> platform_db \<Rightarrow> nat \<Rightarrow> string \<Rightarrow> entitlement option" where
  "live_entitlement e db w key = latest_by (\<lambda>r. (starts_at r, en_id r))
     (filter (\<lambda>r. en_workspace r = w \<and> en_key r = key \<and> live e (now e) r) (entitlements db))"

definition resume_if_paused :: "control_env \<Rightarrow> platform_db \<Rightarrow> nat \<Rightarrow> string \<Rightarrow> nat option \<Rightarrow> resumed \<times> platform_db" where
  "resume_if_paused E db w key user =
    (if key = KEY_BASE_PLAN then (Nothing_To_Resume, db)
     else case record_of db w key of None \<Rightarrow> (Nothing_To_Resume, db)
     | Some r \<Rightarrow>
         if \<not> (xr_status r = Ext_Paused \<and> xr_reason r = PAUSED_REASON) then (Left_As (xr_status r), db)
         else case activate (ce_env E) (ce_registry E) (ce_check E) db w key user None ACTIVATION_SYSTEM of
             Inr (r', db') \<Rightarrow> (Resumed (xr_status r'), db')
           | Inl (Ext_Error code _) \<Rightarrow> (Refused_With code, db)
           | Inl _ \<Rightarrow> (Refused_With ''resume_failed'', db))"

text \<open>The live row in the way, or the row granted and what became of the extension.\<close>

definition grant_entitlement :: "control_env \<Rightarrow> platform_db \<Rightarrow> nat \<Rightarrow> string \<Rightarrow> int option \<Rightarrow> string \<Rightarrow> nat option
    \<Rightarrow> (entitlement + (entitlement \<times> resumed)) \<times> platform_db" where
  "grant_entitlement E db w key months reason user = (case live_entitlement (ce_env E) db w key of
     Some r \<Rightarrow> (Inl r, db)
   | None \<Rightarrow> (let (row, db) = grant (ce_env E) db w key months None reason; (ext, db) = resume_if_paused E db w key user
       in (Inr (row, ext), db)))"

definition extension_key_exists :: "manifest list \<Rightarrow> string \<Rightarrow> bool" where
  "extension_key_exists reg key \<longleftrightarrow> key = KEY_BASE_PLAN \<or>
     (case get_manifest reg key of Some m \<Rightarrow> is_activatable m | None \<Rightarrow> False)"

subsection \<open>The calls\<close>

text \<open>The ledger around an action: carried out only by the request that claims its key.\<close>

definition with_claim :: "control_env \<Rightarrow> control_world \<Rightarrow> control_request \<Rightarrow> string \<Rightarrow> string \<Rightarrow> string \<Rightarrow> control_value
    \<Rightarrow> (action_row \<Rightarrow> control_world \<Rightarrow> outcome \<times> control_world) \<Rightarrow> outcome \<times> control_world" where
  "with_claim E W q act ttype tid payload perform = (case claim_action (ce_sha E) (cw_ledger W) q act ttype tid payload of
     Inl code \<Rightarrow> (Invalid code, W)
   | Inr (Conflict code, _) \<Rightarrow> (Conflicting code, W)
   | Inr (Old_Answer s body, _) \<Rightarrow> (Replay s body, W)
   | Inr (New_Action r, acs) \<Rightarrow> perform r (W\<lparr>cw_ledger := acs\<rparr>))"

definition finish :: "control_env \<Rightarrow> action_row \<Rightarrow> string \<Rightarrow> nat \<Rightarrow> control_value \<Rightarrow> control_world \<Rightarrow> control_world" where
  "finish E r result s body W = W\<lparr>cw_ledger := complete_action r result s body (now (ce_env E)) (cw_ledger W)\<rparr>"

definition audit :: "control_request \<Rightarrow> string \<Rightarrow> string \<Rightarrow> string \<Rightarrow> string \<Rightarrow> control_value \<Rightarrow> control_value \<Rightarrow> control_world \<Rightarrow> control_world" where
  "audit q act ttype tid reason before after W =
     W\<lparr>cw_audit := record_control_audit q act ttype tid reason before after ''succeeded'' (cw_audit W)\<rparr>"

definition standing_of :: "control_world \<Rightarrow> nat \<Rightarrow> control_value" where
  "standing_of W w = V_Dict [(''is_active'', V_Bool (is_active W w)), (''suspended_at'', moment_value (suspended_at (marks_of W w)))]"

definition deadline_of :: "control_world \<Rightarrow> nat \<Rightarrow> control_value" where
  "deadline_of W w = V_Dict [(''is_active'', V_Bool (is_active W w)),
     (''scheduled_deletion_at'', moment_value (scheduled_deletion_at (marks_of W w)))]"

datatype lifecycle = Suspend | Resume

definition operate :: "control_env \<Rightarrow> lifecycle \<Rightarrow> nat \<Rightarrow> nat \<Rightarrow> string \<Rightarrow> control_world \<Rightarrow> control_world" where
  "operate E kind w user reason W = (case kind of Suspend \<Rightarrow> suspend_workspace E w user reason W
     | Resume \<Rightarrow> resume_workspace E w user W)"

definition kind_action :: "lifecycle \<Rightarrow> string" where
  "kind_action kind = (case kind of Suspend \<Rightarrow> ''workspace.suspend'' | Resume \<Rightarrow> ''workspace.resume'')"

definition do_lifecycle :: "control_env \<Rightarrow> lifecycle \<Rightarrow> nat \<Rightarrow> control_request \<Rightarrow> string \<Rightarrow> action_row \<Rightarrow> control_world
    \<Rightarrow> outcome \<times> control_world" where
  "do_lifecycle E kind w q reason r W =
    (let before = standing_of W w; W = operate E kind w (cq_user q) reason W; body = workspace_item E W w;
       W = finish E r ''succeeded'' 200 body W in
     (Answer 200 body, audit q (kind_action kind) ''workspace'' (show_nat w) reason before (standing_of W w) W))"

text \<open>\<open>delete\<close>: only the first request sets the deadline and takes the workspace down.\<close>

definition schedule_deletion :: "control_env \<Rightarrow> nat \<Rightarrow> control_request \<Rightarrow> string \<Rightarrow> control_world \<Rightarrow> control_world" where
  "schedule_deletion E w q reason W =
    (let W = W\<lparr>cw_db := snd (get_or_create_profile (cw_db W) w)\<rparr> in
     if scheduled_deletion_at (marks_of W w) \<noteq> None then W
     else let before = V_Dict [(''is_active'', V_Bool (is_active W w)), (''scheduled_deletion_at'', V_Null)];
         due = now (ce_env E) + days_delta 30;
         W = set_marks w (\<lambda>m. m\<lparr>scheduled_deletion_at := Some due\<rparr>) (set_active w False W);
         W = add_operation E w ''delete'' (cq_user q) (V_Dict [(''soft'', V_Bool True), (''reason'', V_Text reason)]) W in
       audit q ''workspace.deletion_scheduled'' ''workspace'' (show_nat w) reason before
         (V_Dict [(''is_active'', V_Bool False), (''scheduled_deletion_at'', V_Moment due)]) W)"

definition do_delete :: "control_env \<Rightarrow> nat \<Rightarrow> control_request \<Rightarrow> string \<Rightarrow> action_row \<Rightarrow> control_world \<Rightarrow> outcome \<times> control_world" where
  "do_delete E w q reason r W = (let W = schedule_deletion E w q reason W; body = workspace_item E W w in
     (Answer 200 body, finish E r ''succeeded'' 200 body W))"

definition do_restore :: "control_env \<Rightarrow> nat \<Rightarrow> control_request \<Rightarrow> string \<Rightarrow> action_row \<Rightarrow> control_world \<Rightarrow> outcome \<times> control_world" where
  "do_restore E w q reason r W =
    (if scheduled_deletion_at (marks_of W w) = None
     then let body = code_body ''workspace_not_scheduled_for_deletion'' in (Answer 409 body, finish E r ''failed'' 409 body W)
     else let before = deadline_of W w; W = resume_workspace E w (cq_user q) W;
         W = set_marks w (\<lambda>m. m\<lparr>scheduled_deletion_at := None\<rparr>) W; body = workspace_item E W w;
         W = finish E r ''succeeded'' 200 body W in
       (Answer 200 body, audit q ''workspace.deletion_cancelled'' ''workspace'' (show_nat w) reason before
         (V_Dict [(''is_active'', V_Bool (is_active W w)), (''scheduled_deletion_at'', V_Null)]) W))"

text \<open>A cap as the request holds it: \<open>Decimal(str(value))\<close>; a JSON float is a decimal with its places.\<close>

definition cap_number :: "control_value \<Rightarrow> number option" where
  "cap_number v = (case v of V_Null \<Rightarrow> None | V_Int n \<Rightarrow> Some (Number (of_int n)) | V_Decimal _ x \<Rightarrow> Some (Number x)
     | V_Text s \<Rightarrow> Some (decimal_of s) | _ \<Rightarrow> Some Not_A_Number)"

definition do_cap :: "control_env \<Rightarrow> nat \<Rightarrow> control_value \<Rightarrow> control_request \<Rightarrow> string \<Rightarrow> action_row \<Rightarrow> control_world
    \<Rightarrow> outcome \<times> control_world" where
  "do_cap E w points q reason r W =
    (let before = usage_cap_entry E (cw_db W) w in
     case set_monthly_cap (cw_db W) w (cap_number points) of
       Inl _ \<Rightarrow> let body = code_body ''invalid_usage_cap'' in (Answer 400 body, finish E r ''failed'' 400 body W)
     | Inr (_, db) \<Rightarrow> let body = usage_cap_entry E db w in
         (Answer 200 body, audit q ''workspace.usage_cap_updated'' ''workspace'' (show_nat w) reason before body
           (finish E r ''succeeded'' 200 body (W\<lparr>cw_db := db\<rparr>))))"

definition extension_value :: "string \<Rightarrow> resumed \<Rightarrow> control_value" where
  "extension_value key x = (case x of Nothing_To_Resume \<Rightarrow> V_Null
     | Left_As s \<Rightarrow> V_Dict [(''key'', V_Text key), (''resumed'', V_Bool False), (''refusal'', V_Null)]
     | Refused_With code \<Rightarrow> V_Dict [(''key'', V_Text key), (''resumed'', V_Bool False), (''refusal'', code_body code)]
     | Resumed s \<Rightarrow> V_Dict [(''key'', V_Text key), (''resumed'', V_Bool True), (''refusal'', V_Null)])"

definition do_grant :: "control_env \<Rightarrow> nat \<Rightarrow> string \<Rightarrow> int option \<Rightarrow> control_request \<Rightarrow> string \<Rightarrow> action_row \<Rightarrow> control_world
    \<Rightarrow> outcome \<times> control_world" where
  "do_grant E w key months q reason r W =
    (case grant_entitlement E (cw_db W) w key months reason (Some (cq_user q)) of
       (Inl old, _) \<Rightarrow> let body = V_Dict [(''code'', V_Text ''already_entitled''), (''key'', V_Text key),
           (''entitlement'', V_Dict (entitlement_entry old))] in (Answer 409 body, finish E r ''failed'' 409 body W)
     | (Inr (row, x), db) \<Rightarrow> let body = V_Dict [(''workspace'', V_Int (int w)),
           (''entitlement'', V_Dict (entitlement_entry row @ [(''is_effective'', V_Bool True)])), (''extension'', extension_value key x)] in
         (Answer 201 body, audit q ''workspace.entitlement_granted'' ''workspace'' (show_nat w) reason (V_Dict []) body
           (finish E r ''succeeded'' 201 body (W\<lparr>cw_db := db\<rparr>))))"

definition revoked :: "string \<Rightarrow> entitlement \<Rightarrow> entitlement" where
  "revoked reason r = (if en_status r = Ent_Ended then r else r\<lparr>en_status := Ent_Ended, ended_reason := reason\<rparr>)"

definition entitlement_by_id :: "platform_db \<Rightarrow> nat \<Rightarrow> nat \<Rightarrow> entitlement option" where
  "entitlement_by_id db w i = first (filter (\<lambda>r. en_id r = i \<and> en_workspace r = w) (entitlements db))"

definition do_revoke :: "control_env \<Rightarrow> nat \<Rightarrow> entitlement \<Rightarrow> control_request \<Rightarrow> string \<Rightarrow> action_row \<Rightarrow> control_world
    \<Rightarrow> outcome \<times> control_world" where
  "do_revoke E w ent q reason r W =
    (let before = entitlement_item E W w ent;
       db = (cw_db W)\<lparr>entitlements := update_where (\<lambda>x. en_id x = en_id ent) (revoked reason) (entitlements (cw_db W))\<rparr>;
       W = W\<lparr>cw_db := db\<rparr>;
       body = V_Dict [(''workspace'', V_Int (int w)), (''entitlement'', entitlement_item E W w (revoked reason ent))] in
     (Answer 200 body, audit q ''workspace.entitlement_revoked'' ''workspace'' (show_nat w) reason
       (V_Dict [(''entitlement'', before)]) body (finish E r ''succeeded'' 200 body W)))"

subsection \<open>The handlers\<close>

text \<open>
  A request with what its handler reads of it. \<open>Set_Cap\<close> has \<open>None\<close> for a body without \<open>cap_points\<close>;
  a grant has the key, the months and \<open>never_expires\<close> of its body, null when they are missing.
\<close>

datatype control_call = Lifecycle lifecycle nat | Delete nat | Restore nat | Set_Cap nat "control_value option"
  | Grant nat control_value control_value control_value | Revoke nat nat

definition grant_key :: "manifest list \<Rightarrow> control_value \<Rightarrow> string + string" where
  "grant_key reg v = (case v of
     V_Text t \<Rightarrow> if extension_key_exists reg (strip t) then Inr (strip t) else Inl ''unknown_extension''
   | _ \<Rightarrow> Inl ''invalid_grant'')"

text \<open>\<open>never in (None, True, False)\<close> also holds of the numbers 0 and 1.\<close>

definition never_flag :: "control_value \<Rightarrow> bool option" where
  "never_flag v = (case v of V_Null \<Rightarrow> Some False | V_Bool b \<Rightarrow> Some b
     | V_Int n \<Rightarrow> if n = 0 then Some False else if n = 1 then Some True else None
     | V_Decimal _ x \<Rightarrow> if x = 0 then Some False else if x = 1 then Some True else None | _ \<Rightarrow> None)"

definition grant_months :: "control_value \<Rightarrow> control_value \<Rightarrow> string + int option" where
  "grant_months months never = (case never_flag never of None \<Rightarrow> Inl ''invalid_grant''
     | Some b \<Rightarrow> if b = (months \<noteq> V_Null) then Inl ''invalid_grant'' else if b then Inr None
         else case months of V_Int n \<Rightarrow> if 1 \<le> n \<and> n \<le> 120 then Inr (Some n) else Inl ''invalid_grant''
           | _ \<Rightarrow> Inl ''invalid_grant'')"

definition not_refused :: "string + 'a \<Rightarrow> control_world \<Rightarrow> ('a \<Rightarrow> outcome \<times> control_world) \<Rightarrow> outcome \<times> control_world" where
  "not_refused x W k = (case x of Inl code \<Rightarrow> (Invalid code, W) | Inr a \<Rightarrow> k a)"

definition months_value :: "int option \<Rightarrow> control_value" where
  "months_value m = (case m of Some n \<Rightarrow> V_Int n | None \<Rightarrow> V_Null)"

definition is_workspace :: "control_world \<Rightarrow> nat \<Rightarrow> bool" where
  "is_workspace W w \<longleftrightarrow> workspace_by_id (cw_db W) w \<noteq> None"

definition control :: "control_env \<Rightarrow> control_request \<Rightarrow> control_call \<Rightarrow> control_world \<Rightarrow> outcome \<times> control_world" where
  "control E q call W = (let reason_payload = (\<lambda>reason. V_Dict [(''reason'', V_Text reason)]) in case call of
     Lifecycle kind w \<Rightarrow> not_refused (require_confirmation q) W (\<lambda>_. not_refused (require_reason q) W (\<lambda>reason.
       if \<not> is_workspace W w then (Not_Found, W)
       else with_claim E W q (kind_action kind) ''workspace'' (show_nat w) (reason_payload reason) (do_lifecycle E kind w q reason)))
   | Delete w \<Rightarrow> not_refused (require_confirmation q) W (\<lambda>_. not_refused (require_reason q) W (\<lambda>reason.
       if \<not> is_workspace W w then (Not_Found, W)
       else with_claim E W q ''workspace.deletion_scheduled'' ''workspace'' (show_nat w) (reason_payload reason) (do_delete E w q reason)))
   | Restore w \<Rightarrow> not_refused (require_confirmation q) W (\<lambda>_. not_refused (require_reason q) W (\<lambda>reason.
       if \<not> is_workspace W w then (Not_Found, W)
       else with_claim E W q ''workspace.deletion_cancelled'' ''workspace'' (show_nat w) (reason_payload reason) (do_restore E w q reason)))
   | Set_Cap w points \<Rightarrow> if \<not> is_workspace W w then (Not_Found, W)
       else not_refused (require_confirmation q) W (\<lambda>_. case points of None \<Rightarrow> (Invalid ''invalid_usage_cap'', W)
         | Some v \<Rightarrow> not_refused (require_reason q) W (\<lambda>reason.
             with_claim E W q ''workspace.usage_cap_updated'' ''workspace'' (show_nat w)
               (V_Dict [(''cap_points'', v), (''reason'', V_Text reason)]) (do_cap E w v q reason)))
   | Grant w key months never \<Rightarrow> if \<not> is_workspace W w then (Not_Found, W)
       else not_refused (require_confirmation q) W (\<lambda>_. not_refused (grant_key (ce_registry E) key) W (\<lambda>key.
         not_refused (grant_months months never) W (\<lambda>months. not_refused (require_reason q) W (\<lambda>reason.
           with_claim E W q ''workspace.entitlement_granted'' ''workspace'' (show_nat w)
             (V_Dict [(''key'', V_Text key), (''months'', months_value months), (''reason'', V_Text reason)])
             (do_grant E w key months q reason)))))
   | Revoke w i \<Rightarrow> not_refused (require_confirmation q) W (\<lambda>_. not_refused (require_reason q) W (\<lambda>reason.
       if \<not> is_workspace W w then (Not_Found, W)
       else case entitlement_by_id (cw_db W) w i of None \<Rightarrow> (Not_Found, W)
       | Some ent \<Rightarrow> with_claim E W q ''workspace.entitlement_revoked'' ''workspace_entitlement'' (show_nat i)
           (V_Dict [(''workspace'', V_Int (int w)), (''reason'', V_Text reason)]) (do_revoke E w ent q reason))))"

end
