(* ===== verification/Packs.thy ===== *)
theory Packs
  imports Acquisitions
begin

text \<open>
  Plan packs (\<open>extensions/packs.py\<close>): the packs a deployment configures, and applying one. What the
  deployment names to obtain a refused extension is a parameter of \<open>apply_pack\<close>, and \<open>pack_obtainer\<close>
  what is relied on; the platform's own, \<open>pack_obtain\<close>, meets it.
\<close>

subsection \<open>The packs a deployment configures\<close>

text \<open>A field that is missing or empty is the empty string or list. The entry of a key may be \<open>None\<close>.\<close>

record raw_pack =
  rp_name :: string
  rp_name_zh :: string
  rp_description :: string
  rp_description_zh :: string
  rp_industries :: "string list"
  rp_extensions :: "string list"

definition empty_pack :: raw_pack where
  "empty_pack = \<lparr>rp_name = [], rp_name_zh = [], rp_description = [], rp_description_zh = [], rp_industries = [],
     rp_extensions = []\<rparr>"

text \<open>What a setting can hold: a mapping, a dotted path, something that is called, or anything else.\<close>

datatype packs_value = Mapping "(string \<times> raw_pack option) list" | Dotted string | Callable packs_value | Other_Value

record packs_settings =
  plan_packs :: "packs_value option"
  packs_file :: string
  read_json :: "string \<Rightarrow> packs_value option"
  import_name :: "string \<Rightarrow> packs_value option"

definition given_packs :: "packs_value option \<Rightarrow> packs_value option" where
  "given_packs v = (case v of Some (Mapping []) \<Rightarrow> None | Some (Dotted []) \<Rightarrow> None | _ \<Rightarrow> v)"

definition from_file :: "packs_settings \<Rightarrow> packs_value" where
  "from_file s = (case read_json s (packs_file s) of Some v \<Rightarrow> v | None \<Rightarrow> Mapping [])"

definition called :: "packs_value \<Rightarrow> packs_value" where
  "called v = (case v of Callable w \<Rightarrow> w | _ \<Rightarrow> v)"

definition mapping_of :: "packs_value \<Rightarrow> (string \<times> raw_pack option) list" where
  "mapping_of v = (case v of Mapping ps \<Rightarrow> ps | _ \<Rightarrow> [])"

definition configured_packs :: "packs_settings \<Rightarrow> (string \<times> raw_pack option) list" where
  "configured_packs s =
    (let packs = (case given_packs (plan_packs s) of Some v \<Rightarrow> v
       | None \<Rightarrow> if packs_file s = [] then Mapping [] else from_file s) in
     case packs of Dotted name \<Rightarrow> (case import_name s name of None \<Rightarrow> [] | Some v \<Rightarrow> mapping_of (called v))
     | v \<Rightarrow> mapping_of (called v))"

record pack =
  pk_key :: string
  pk_name :: string
  pk_name_zh :: string
  pk_description :: string
  pk_description_zh :: string
  pk_industries :: "string list"
  pk_extensions :: "string list"

definition as_pack :: "manifest list \<Rightarrow> string \<Rightarrow> raw_pack \<Rightarrow> pack" where
  "as_pack reg key d = \<lparr>pk_key = key, pk_name = or_else (rp_name d) key, pk_name_zh = rp_name_zh d,
     pk_description = rp_description d, pk_description_zh = rp_description_zh d, pk_industries = rp_industries d,
     pk_extensions = filter (\<lambda>k. get_manifest reg k \<noteq> None) (rp_extensions d)\<rparr>"

definition raw_of :: "raw_pack option \<Rightarrow> raw_pack" where
  "raw_of d = (case d of Some r \<Rightarrow> r | None \<Rightarrow> empty_pack)"

definition all_packs :: "packs_settings \<Rightarrow> manifest list \<Rightarrow> pack list" where
  "all_packs s reg = map (\<lambda>(key, d). as_pack reg key (raw_of d)) (configured_packs s)"

definition get_pack :: "packs_settings \<Rightarrow> manifest list \<Rightarrow> string \<Rightarrow> pack option" where
  "get_pack s reg key = (case map_of (configured_packs s) key of Some (Some d) \<Rightarrow> Some (as_pack reg key d) | _ \<Rightarrow> None)"

definition pack_for_industry :: "packs_settings \<Rightarrow> manifest list \<Rightarrow> string \<Rightarrow> pack option" where
  "pack_for_industry s reg industry = (if industry = [] then None
     else first (filter (\<lambda>p. industry \<in> set (pk_industries p)) (all_packs s reg)))"

subsection \<open>Applying a pack\<close>

datatype pack_outcome = Activated | Already_On | Skipped string

type_synonym obtainer = "platform_db \<Rightarrow> nat \<Rightarrow> manifest \<Rightarrow> bool \<times> platform_db"

definition NOT_ENTITLED :: string where "NOT_ENTITLED = ''not_entitled''"

text \<open>Nothing configured to obtain with: \<open>obtain\<close> is \<open>None\<close>.\<close>

definition ask_for :: "manifest list \<Rightarrow> obtainer option \<Rightarrow> platform_db \<Rightarrow> nat \<Rightarrow> string \<Rightarrow> bool \<times> platform_db" where
  "ask_for reg get db w key = (case get of None \<Rightarrow> (False, db)
     | Some f \<Rightarrow> (case get_manifest reg key of None \<Rightarrow> (False, db) | Some m \<Rightarrow> f db w m))"

text \<open>
  One key of a pack. Only an \<open>ExtensionError\<close> is reported in the row; anything else an activation
  raises ends the call, with what was committed before.
\<close>

definition apply_key :: "env \<Rightarrow> manifest list \<Rightarrow> ent_check \<Rightarrow> obtainer option \<Rightarrow> nat \<Rightarrow> nat option \<Rightarrow> string list
    \<Rightarrow> string \<Rightarrow> platform_db \<Rightarrow> (ext_error + pack_outcome) \<times> platform_db" where
  "apply_key e reg check get w user on key db =
    (if key \<in> set on then (Inr Already_On, db)
     else case activate e reg check db w key user None ACTIVATION_SYSTEM of
       Inr (_, db) \<Rightarrow> (Inr Activated, db)
     | Inl (Ext_Error code _) \<Rightarrow>
         if code \<noteq> NOT_ENTITLED then (Inr (Skipped code), db)
         else (case ask_for reg get db w key of
             (False, db) \<Rightarrow> (Inr (Skipped code), db)
           | (True, db) \<Rightarrow> (case activate e reg check db w key user None ACTIVATION_SYSTEM of
               Inr (_, db) \<Rightarrow> (Inr Activated, db)
             | Inl (Ext_Error second _) \<Rightarrow> (Inr (Skipped second), db)
             | Inl err \<Rightarrow> (Inl err, db)))
     | Inl err \<Rightarrow> (Inl err, db))"

fun apply_keys :: "env \<Rightarrow> manifest list \<Rightarrow> ent_check \<Rightarrow> obtainer option \<Rightarrow> nat \<Rightarrow> nat option \<Rightarrow> string list
    \<Rightarrow> string list \<Rightarrow> platform_db \<Rightarrow> (ext_error + (string \<times> pack_outcome) list) \<times> platform_db" where
  "apply_keys e reg check get w user on [] db = (Inr [], db)"
| "apply_keys e reg check get w user on (k # ks) db = (case apply_key e reg check get w user on k db of
     (Inl err, db) \<Rightarrow> (Inl err, db)
   | (Inr out, db) \<Rightarrow> (case apply_keys e reg check get w user on ks db of
       (Inl err, db) \<Rightarrow> (Inl err, db) | (Inr rows, db) \<Rightarrow> (Inr ((k, out) # rows), db)))"

definition apply_pack :: "env \<Rightarrow> packs_settings \<Rightarrow> manifest list \<Rightarrow> ent_check \<Rightarrow> obtainer option \<Rightarrow> platform_db
    \<Rightarrow> nat \<Rightarrow> string \<Rightarrow> nat option \<Rightarrow> (ext_error + (string \<times> pack_outcome) list) \<times> platform_db" where
  "apply_pack e s reg check get db w key user = (case get_pack s reg key of
     None \<Rightarrow> (Inl (Ext_Error ''unknown_pack'' []), db)
   | Some p \<Rightarrow> apply_keys e reg check get w user
       (filter (\<lambda>k. k \<in> set (pk_extensions p)) (active_keys db w)) (pk_extensions p) db)"

subsection \<open>What obtaining may do\<close>

definition hooks_quiet :: "manifest list \<Rightarrow> bool" where
  "hooks_quiet reg \<longleftrightarrow> (\<forall>m \<in> set reg. quiet (on_activate m))"

text \<open>From one state of the records to another with \<open>key\<close> possibly switched on, and no other record changed.\<close>

definition switches_only :: "nat \<Rightarrow> string \<Rightarrow> platform_db \<Rightarrow> platform_db \<Rightarrow> bool" where
  "switches_only w key db db' \<longleftrightarrow> ext_ok db' \<and>
     (\<forall>v k. (v, k) \<noteq> (w, key) \<longrightarrow> record_of db' v k = record_of db v k) \<and>
     (key \<in> set (active_keys db w) \<longrightarrow> key \<in> set (active_keys db' w))"

locale pack_obtainer =
  fixes reg :: "manifest list" and get :: obtainer
  assumes switches: "get db w m = (b, db') \<Longrightarrow> get_manifest reg (mf_key m) = Some m \<Longrightarrow> hooks_quiet reg \<Longrightarrow> ext_ok db \<Longrightarrow>
      switches_only w (mf_key m) db db'"
    and refuses: "get db w m = (False, db') \<Longrightarrow> get_manifest reg (mf_key m) = Some m \<Longrightarrow> hooks_quiet reg \<Longrightarrow> ext_ok db \<Longrightarrow>
      mf_key m \<in> set (active_keys db' w) \<longleftrightarrow> mf_key m \<in> set (active_keys db w)"

lemma switches_only_refl: "ext_ok db \<Longrightarrow> switches_only w k db db"
  by (simp add: switches_only_def)

lemma switches_only_active:
  assumes "switches_only w key db db'" "ext_ok db"
  shows "ext_ok db'" "v \<noteq> w \<Longrightarrow> l \<in> set (active_keys db' v) \<longleftrightarrow> l \<in> set (active_keys db v)"
    "l \<noteq> key \<Longrightarrow> l \<in> set (active_keys db' w) \<longleftrightarrow> l \<in> set (active_keys db w)"
    "l \<in> set (active_keys db w) \<Longrightarrow> l \<in> set (active_keys db' w)"
proof -
  show ok: "ext_ok db'" using assms(1) by (simp add: switches_only_def)
  have same: "l \<in> set (active_keys db' v) \<longleftrightarrow> l \<in> set (active_keys db v)" if "(v, l) \<noteq> (w, key)" for v l
    using assms(1) that by (simp add: switches_only_def active_keys_iff [OF ok] active_keys_iff [OF assms(2)])
  then show "v \<noteq> w \<Longrightarrow> l \<in> set (active_keys db' v) \<longleftrightarrow> l \<in> set (active_keys db v)"
    "l \<noteq> key \<Longrightarrow> l \<in> set (active_keys db' w) \<longleftrightarrow> l \<in> set (active_keys db w)" by simp_all
  show "l \<in> set (active_keys db w) \<Longrightarrow> l \<in> set (active_keys db' w)"
    using assms(1) same [of w l] by (cases "l = key") (simp_all add: switches_only_def)
qed

lemma activate_switches:
  assumes "activate e reg check db w key user config actor = Inr (r, db')" "hooks_quiet reg" "ext_ok db"
  shows "switches_only w key db db'" "key \<in> set (active_keys db' w)"
    "key \<in> set (active_keys db w) \<Longrightarrow> db' = db"
proof -
  from assms(1) obtain m where m: "require_manageable reg key actor = Inr m" by (auto simp: activate_def bind_r_Inr)
  then have q: "quiet (on_activate m)" using assms(2) get_manifest_Some [of reg key m]
    by (simp add: require_manageable_Inr hooks_quiet_def)
  from assms(1) m assms(3) q
  have "switches_only w key db db' \<and> key \<in> set (active_keys db' w) \<and> (key \<in> set (active_keys db w) \<longrightarrow> db' = db)"
  proof (cases rule: activate_cases)
    case already
    then show ?thesis using assms(3) by (simp add: switches_only_refl active_keys_iff)
  next
    case (switched r0 db0)
    note rec = switched_records [OF switched(1) assms(3) switched(5-8)]
    note sp = ensure_record_spec [OF switched(1) assms(3)]
    have on: "key \<in> set (active_keys db' w)" using rec switched(4) by (simp add: active_keys_iff)
    have off: "key \<notin> set (active_keys db w)"
      using sp(7) switched(2) by (auto simp: active_keys_iff [OF assms(3)])
    show ?thesis using rec on off by (simp add: switches_only_def)
  qed
  then show "switches_only w key db db'" "key \<in> set (active_keys db' w)" "key \<in> set (active_keys db w) \<Longrightarrow> db' = db"
    by simp_all
qed

context pack_obtainer
begin

lemma ask_for_switches:
  assumes "ask_for reg (Some get) db w key = (b, db')" "hooks_quiet reg" "ext_ok db"
  shows "switches_only w key db db'"
    "\<not> b \<Longrightarrow> key \<in> set (active_keys db' w) \<longleftrightarrow> key \<in> set (active_keys db w)"
proof -
  have "switches_only w key db db' \<and> (\<not> b \<longrightarrow> (key \<in> set (active_keys db' w) \<longleftrightarrow> key \<in> set (active_keys db w)))"
  proof (cases "get_manifest reg key")
    case None
    then show ?thesis using assms by (simp add: ask_for_def switches_only_refl)
  next
    case (Some m)
    then have k: "mf_key m = key" using get_manifest_Some by blast
    have g: "get db w m = (b, db')" using assms(1) Some by (simp add: ask_for_def)
    have m: "get_manifest reg (mf_key m) = Some m" using Some k by simp
    have "switches_only w key db db'" using switches [OF g m assms(2,3)] unfolding k .
    moreover have "\<not> b \<longrightarrow> (key \<in> set (active_keys db' w) \<longleftrightarrow> key \<in> set (active_keys db w))"
      using refuses [of db w m db', OF _ m assms(2,3)] g unfolding k by auto
    ultimately show ?thesis by blast
  qed
  then show "switches_only w key db db'" "\<not> b \<Longrightarrow> key \<in> set (active_keys db' w) \<longleftrightarrow> key \<in> set (active_keys db w)"
    by simp_all
qed

end

lemma switches_only_trans:
  assumes "switches_only w key a b" "switches_only w key b c"
  shows "switches_only w key a c"
  using assms by (simp add: switches_only_def)

text \<open>The outcome of a key says whether it is on.\<close>

definition pack_get_ok :: "manifest list \<Rightarrow> obtainer option \<Rightarrow> bool" where
  "pack_get_ok reg get \<longleftrightarrow> (case get of None \<Rightarrow> True | Some f \<Rightarrow> pack_obtainer reg f)"

lemma ask_for_ok:
  assumes "pack_get_ok reg get" "ask_for reg get db w key = (b, db')" "hooks_quiet reg" "ext_ok db"
  shows "switches_only w key db db'"
    "\<not> b \<Longrightarrow> key \<in> set (active_keys db' w) \<longleftrightarrow> key \<in> set (active_keys db w)"
proof -
  have "switches_only w key db db' \<and> (\<not> b \<longrightarrow> (key \<in> set (active_keys db' w) \<longleftrightarrow> key \<in> set (active_keys db w)))"
  proof (cases get)
    case None
    then show ?thesis using assms by (simp add: ask_for_def switches_only_refl)
  next
    case (Some f)
    then show ?thesis using assms pack_obtainer.ask_for_switches [of reg f db w key b db'] by (simp add: pack_get_ok_def)
  qed
  then show "switches_only w key db db'" "\<not> b \<Longrightarrow> key \<in> set (active_keys db' w) \<longleftrightarrow> key \<in> set (active_keys db w)" by simp_all
qed

lemma activate_entitled_first:
  "key \<in> set (active_keys db w) \<Longrightarrow> ext_ok db \<Longrightarrow> activate e reg check db w key user config actor = Inl err \<Longrightarrow>
    require_manageable reg key actor = Inl err"
  by (cases "require_manageable reg key actor") (auto simp: activate_def active_keys_iff ensure_record_def)

definition manageable_keys :: "manifest list \<Rightarrow> string list \<Rightarrow> bool" where
  "manageable_keys reg ks \<longleftrightarrow> (\<forall>k \<in> set ks. \<exists>m. require_manageable reg k ACTIVATION_SYSTEM = Inr m)"

lemma apply_key_cases:
  assumes "apply_key e reg check get w user on key db = (res, db')" "pack_get_ok reg get" "hooks_quiet reg" "ext_ok db"
    and "key \<in> set on \<longrightarrow> key \<in> set (active_keys db w)"
  shows "switches_only w key db db'"
    and "\<exists>m. require_manageable reg key ACTIVATION_SYSTEM = Inr m \<Longrightarrow> res = Inr out \<Longrightarrow>
      (\<exists>code. out = Skipped code) \<longleftrightarrow> key \<notin> set (active_keys db' w)"
proof -
  let ?act = "\<lambda>db. activate e reg check db w key user None ACTIVATION_SYSTEM"
  let ?on = "\<lambda>db. key \<in> set (active_keys db w)"
  have off: "\<not> ?on db1" if "?act db1 = Inl err" "ext_ok db1" "\<exists>m. require_manageable reg key ACTIVATION_SYSTEM = Inr m" for db1 err
    using activate_entitled_first [OF _ that(2,1)] that(3) by auto
  have "switches_only w key db db' \<and> ((\<exists>m. require_manageable reg key ACTIVATION_SYSTEM = Inr m) \<longrightarrow> (\<forall>out. res = Inr out \<longrightarrow>
      ((\<exists>code. out = Skipped code) \<longleftrightarrow> \<not> ?on db')))"
  proof (cases "key \<in> set on")
    case True
    then show ?thesis using assms by (auto simp: apply_key_def switches_only_refl)
  next
    case False
    show ?thesis
    proof (cases "?act db")
      case (Inr a)
      then obtain r db1 where a: "?act db = Inr (r, db1)" by (cases a) auto
      then have "res = Inr Activated" "db' = db1" using assms(1) False by (simp_all add: apply_key_def)
      with activate_switches [OF a assms(3,4)] show ?thesis by simp
    next
      case (Inl err)
      show ?thesis
      proof (cases err)
        case (Ext_Error code d)
        show ?thesis
        proof (cases "code = NOT_ENTITLED")
          case no: False
          then have "res = Inr (Skipped code)" "db' = db" using assms(1) False Inl Ext_Error by (simp_all add: apply_key_def)
          with off [OF Inl assms(4)] assms(4) show ?thesis by (simp add: switches_only_refl)
        next
          case True
          obtain b db1 where g: "ask_for reg get db w key = (b, db1)" by fastforce
          note g1 = ask_for_ok [OF assms(2) g assms(3,4)]
          have ok1: "ext_ok db1" using g1(1) by (simp add: switches_only_def)
          show ?thesis
          proof (cases b)
            case b: False
            then have "res = Inr (Skipped code)" "db' = db1" using assms(1) False Inl Ext_Error True g by (simp_all add: apply_key_def)
            with g1 b off [OF Inl assms(4)] show ?thesis by simp
          next
            case b: True
            show ?thesis
            proof (cases "?act db1")
              case (Inr a)
              then obtain r db2 where a: "?act db1 = Inr (r, db2)" by (cases a) auto
              then have "res = Inr Activated" "db' = db2" using assms(1) False Inl Ext_Error True g b by (simp_all add: apply_key_def)
              with activate_switches [OF a assms(3) ok1] switches_only_trans [OF g1(1)] show ?thesis by simp
            next
              case second: (Inl err2)
              then have "db' = db1" using assms(1) False Inl Ext_Error True g b
                by (cases err2) (simp_all add: apply_key_def)
              moreover have "res = Inr out \<longrightarrow> (\<exists>code. out = Skipped code)" for out
                using assms(1) False Inl Ext_Error True g b second by (cases err2) (auto simp: apply_key_def)
              ultimately show ?thesis using g1(1) off [OF second ok1] by auto
            qed
          qed
        qed
      qed (use assms False Inl in \<open>auto simp: apply_key_def switches_only_refl\<close>)
    qed
  qed
  then show "switches_only w key db db'" "\<exists>m. require_manageable reg key ACTIVATION_SYSTEM = Inr m \<Longrightarrow> res = Inr out \<Longrightarrow>
      (\<exists>code. out = Skipped code) \<longleftrightarrow> key \<notin> set (active_keys db' w)" by blast+
qed

text \<open>What the keys of a pack come to, whether the call ends well or is ended by an exception.\<close>

definition switched_on_among :: "nat \<Rightarrow> string list \<Rightarrow> platform_db \<Rightarrow> platform_db \<Rightarrow> bool" where
  "switched_on_among w ks db db' \<longleftrightarrow> ext_ok db' \<and>
     (\<forall>v k. (v \<noteq> w \<or> k \<notin> set ks) \<longrightarrow> record_of db' v k = record_of db v k) \<and>
     set (active_keys db w) \<subseteq> set (active_keys db' w)"

lemma apply_keys_switch:
  assumes "apply_keys e reg check get w user on ks db = (res, db')" "pack_get_ok reg get" "hooks_quiet reg" "ext_ok db"
    and "set on \<subseteq> set (active_keys db w)"
  shows "switched_on_among w ks db db'"
  using assms(1,4,5)
proof (induction ks arbitrary: db res)
  case Nil
  then show ?case by (simp add: switched_on_among_def)
next
  case (Cons k ks)
  obtain out db1 where a: "apply_key e reg check get w user on k db = (out, db1)" by fastforce
  have s: "switches_only w k db db1" by (rule apply_key_cases(1) [OF a assms(2,3) Cons.prems(2)]) (use Cons.prems(3) in blast)
  note act = switches_only_active [OF s Cons.prems(2)]
  have sub: "set (active_keys db w) \<subseteq> set (active_keys db1 w)" using act(4) by blast
  show ?case
  proof (cases out)
    case (Inl err)
    then have "db' = db1" using Cons.prems(1) a by simp
    then show ?thesis using s sub by (auto simp: switched_on_among_def switches_only_def)
  next
    case (Inr o1)
    then obtain res2 where r: "apply_keys e reg check get w user on ks db1 = (res2, db')"
      using Cons.prems(1) a by (auto split: prod.splits sum.splits)
    have "switched_on_among w ks db1 db'" by (rule Cons.IH [OF r act(1)]) (use Cons.prems(3) sub in blast)
    then show ?thesis using s sub by (auto simp: switched_on_among_def switches_only_def)
  qed
qed

lemma apply_keys_rows:
  assumes "apply_keys e reg check get w user on ks db = (Inr rows, db')" "pack_get_ok reg get" "hooks_quiet reg" "ext_ok db"
    and "set on \<subseteq> set (active_keys db w)" "manageable_keys reg ks" "distinct ks"
  shows "map fst rows = ks \<and> (\<forall>(k, out) \<in> set rows. (\<exists>code. out = Skipped code) \<longleftrightarrow> k \<notin> set (active_keys db' w))"
  using assms(1,4-)
proof (induction ks arbitrary: db rows)
  case (Cons k ks)
  obtain out db1 where a: "apply_key e reg check get w user on k db = (out, db1)" by fastforce
  from Cons.prems(1) a obtain o1 rest where o1: "out = Inr o1" and rows: "rows = (k, o1) # rest"
      and r: "apply_keys e reg check get w user on ks db1 = (Inr rest, db')"
    by (auto split: prod.splits sum.splits)
  have kon: "k \<in> set on \<longrightarrow> k \<in> set (active_keys db w)" using Cons.prems(3) by blast
  note s = apply_key_cases(1) [OF a assms(2,3) Cons.prems(2) kon]
  note act = switches_only_active [OF s Cons.prems(2)]
  have on1: "set on \<subseteq> set (active_keys db1 w)" using Cons.prems(3) act(4) by blast
  have m: "\<exists>m. require_manageable reg k ACTIVATION_SYSTEM = Inr m" "manageable_keys reg ks" "distinct ks" "k \<notin> set ks"
    using Cons.prems(4,5) by (auto simp: manageable_keys_def)
  note out1 = apply_key_cases(2) [OF a assms(2,3) Cons.prems(2) kon m(1) o1]
  have rest: "map fst rest = ks \<and> (\<forall>(k, out) \<in> set rest. (\<exists>code. out = Skipped code) \<longleftrightarrow> k \<notin> set (active_keys db' w))"
    by (rule Cons.IH [OF r act(1) on1 m(2,3)])
  have sw: "switched_on_among w ks db1 db'" by (rule apply_keys_switch [OF r assms(2,3) act(1) on1])
  then have "ext_ok db'" "record_of db' w k = record_of db1 w k" using m(4) by (simp_all add: switched_on_among_def)
  then have "k \<in> set (active_keys db' w) \<longleftrightarrow> k \<in> set (active_keys db1 w)" by (simp add: active_keys_iff act(1))
  with rest out1 show ?case by (simp add: rows)
qed simp

subsection \<open>The platform's own obtainer\<close>

text \<open>\<open>_obtain\<close> over \<open>pack_obtain\<close>: whatever it raises counts as a refusal.\<close>

definition platform_obtain :: "env \<Rightarrow> manifest list \<Rightarrow> ent_check \<Rightarrow> obtainer" where
  "platform_obtain e reg check db w m = (case workspace_by_id db w of None \<Rightarrow> (False, db)
     | Some v \<Rightarrow> (case pack_obtain e reg check db v m of (Inr b, db) \<Rightarrow> (b, db) | (Inl _, db) \<Rightarrow> (False, db)))"

lemma pack_obtain_free:
  assumes "pack_obtain e reg check db v m = (res, db')"
  shows "db' = db \<or> res = Inr True \<and> (\<exists>es r. activate e reg check (db\<lparr>entitlements := es\<rparr>) (ws_id v) (mf_key m) None None
      ACTIVATION_SYSTEM = Inr (r, db'))"
proof (cases "plan_for e db (mf_key m)")
  case None
  then show ?thesis using assms by (simp add: pack_obtain_def)
next
  case (Some plan)
  show ?thesis
  proof (cases "0 < pl_price plan")
    case True
    then show ?thesis using assms Some by (simp add: pack_obtain_def)
  next
    case free: False
    let ?ent = "entitle e reg check db v (mf_key m) plan None None None ACTIVATION_SYSTEM"
    obtain a db1 where a: "acquire e reg check db v (mf_key m) None ACTIVATION_SYSTEM = (a, db1)" by fastforce
    have "db1 = db \<or> (\<exists>x. a = Inr x) \<and> (\<exists>es r. activate e reg check (db\<lparr>entitlements := es\<rparr>) (ws_id v) (mf_key m) None None
        ACTIVATION_SYSTEM = Inr (r, db1))"
    proof (cases ?ent)
      case (Pair r db2)
      show ?thesis
      proof (cases r)
        case (Inl err)
        with Pair have "db2 = db" by (simp add: entitle_def Let_def split: sum.splits prod.splits)
        with Inl Pair a Some free show ?thesis
          by (auto simp: acquire_def entitled_answer_def split: sum.splits if_splits)
      next
        case (Inr x)
        with Pair have "\<exists>es r. activate e reg check (db\<lparr>entitlements := es\<rparr>) (ws_id v) (mf_key m) None None
            ACTIVATION_SYSTEM = Inr (r, db2)"
          by (auto simp: entitle_def Let_def split: sum.splits prod.splits)
        with Inr Pair a Some free show ?thesis
          by (auto simp: acquire_def entitled_answer_def split: sum.splits if_splits)
      qed
    qed
    moreover have "db' = db1 \<and> ((\<exists>x. a = Inr x) \<longrightarrow> res = Inr True)"
      using assms Some free a by (auto simp: pack_obtain_def split: sum.splits acq_error.splits ext_error.splits)
    ultimately show ?thesis by auto
  qed
qed

lemma platform_obtain_switches:
  assumes "platform_obtain e reg check db w m = (b, db')" "hooks_quiet reg" "ext_ok db"
  shows "switches_only w (mf_key m) db db' \<and>
    (\<not> b \<longrightarrow> (mf_key m \<in> set (active_keys db' w) \<longleftrightarrow> mf_key m \<in> set (active_keys db w)))"
proof (cases "workspace_by_id db w")
  case None
  then show ?thesis using assms by (simp add: platform_obtain_def switches_only_refl)
next
  case (Some v)
  then have w: "ws_id v = w" by (auto simp: workspace_by_id_def dest: first_filter_SomeD)
  obtain res db1 where p: "pack_obtain e reg check db v m = (res, db1)" by fastforce
  then have db': "db' = db1" "res = Inr True \<Longrightarrow> b" using assms(1) Some by (auto simp: platform_obtain_def split: sum.splits)
  from pack_obtain_free [OF p] show ?thesis
  proof
    assume "db1 = db"
    then show ?thesis using assms(3) by (simp add: db' switches_only_refl)
  next
    assume act: "res = Inr True \<and> (\<exists>es r. activate e reg check (db\<lparr>entitlements := es\<rparr>) (ws_id v) (mf_key m) None None
      ACTIVATION_SYSTEM = Inr (r, db1))"
    then obtain es r where a: "activate e reg check (db\<lparr>entitlements := es\<rparr>) w (mf_key m) None None ACTIVATION_SYSTEM = Inr (r, db1)"
      unfolding w by blast
    have "ext_ok (db\<lparr>entitlements := es\<rparr>)" using assms(3) by (simp add: ext_ok_def)
    from activate_switches(1) [OF a assms(2) this] have "switches_only w (mf_key m) db db1"
      by (simp add: switches_only_def record_of_def active_keys_def)
    then show ?thesis using act db' by simp
  qed
qed

interpretation platform: pack_obtainer reg "platform_obtain e reg check" for e reg check
  by unfold_locales (use platform_obtain_switches in blast)+

lemma platform_get_ok: "get \<in> {None, Some (platform_obtain e reg check)} \<Longrightarrow> pack_get_ok reg get"
  using platform.pack_obtainer_axioms by (auto simp: pack_get_ok_def)

subsection \<open>Properties\<close>

text \<open>
  Applying a pack only ever switches things on. However the call ends, every extension of the
  workspace that was active still is, no record but those the pack names has changed, and no other
  workspace's. When it answers, it has a row for each extension of the pack in its order, and the
  row says whether the extension is now on.
\<close>

theorem pack_only_switches_on:
  assumes "apply_pack e s reg check get db w key user = (res, db')" "get \<in> {None, Some (platform_obtain e reg check)}"
    and "hooks_quiet reg" "ext_ok db" "get_pack s reg key = Some p" "manageable_keys reg (pk_extensions p)" "distinct (pk_extensions p)"
  shows "set (active_keys db w) \<subseteq> set (active_keys db' w) \<and>
    (\<forall>v k. (v, k) \<notin> {w} \<times> set (pk_extensions p) \<longrightarrow> record_of db' v k = record_of db v k) \<and>
    (\<forall>rows. res = Inr rows \<longrightarrow> map fst rows = pk_extensions p \<and>
      (\<forall>k out. (k, out) \<in> set rows \<longrightarrow> ((\<exists>code. out = Skipped code) \<longleftrightarrow> k \<notin> set (active_keys db' w))))"
proof -
  let ?on = "filter (\<lambda>k. k \<in> set (pk_extensions p)) (active_keys db w)"
  have run: "apply_keys e reg check get w user ?on (pk_extensions p) db = (res, db')"
    using assms(1,5) by (simp add: apply_pack_def)
  have on: "set ?on \<subseteq> set (active_keys db w)" by auto
  note ok = platform_get_ok [OF assms(2)]
  have "switched_on_among w (pk_extensions p) db db'" by (rule apply_keys_switch [OF run ok assms(3,4) on])
  then have "set (active_keys db w) \<subseteq> set (active_keys db' w) \<and>
      (\<forall>v k. (v, k) \<notin> {w} \<times> set (pk_extensions p) \<longrightarrow> record_of db' v k = record_of db v k)"
    by (auto simp: switched_on_among_def)
  moreover have "map fst rows = pk_extensions p \<and>
      (\<forall>k out. (k, out) \<in> set rows \<longrightarrow> ((\<exists>code. out = Skipped code) \<longleftrightarrow> k \<notin> set (active_keys db' w)))" if "res = Inr rows" for rows
    using apply_keys_rows [OF run [unfolded that] ok assms(3,4) on assms(6,7)] by fast
  ultimately show ?thesis by blast
qed

lemma apply_keys_on: "set ks \<subseteq> set on \<Longrightarrow> apply_keys e reg check get w user on ks db = (Inr (map (\<lambda>k. (k, Already_On)) ks), db)"
  by (induction ks) (simp_all add: apply_key_def)

text \<open>A pack that was applied in full is applied: repeating it writes nothing and finds everything on.\<close>

theorem pack_applied_once:
  assumes "apply_pack e s reg check get db w key user = (Inr rows, db')" "get \<in> {None, Some (platform_obtain e reg check)}"
    and "hooks_quiet reg" "ext_ok db" "get_pack s reg key = Some p" "manageable_keys reg (pk_extensions p)" "distinct (pk_extensions p)"
    and "\<forall>k code. (k, Skipped code) \<notin> set rows"
  shows "apply_pack e s reg check get' db' w key user' = (Inr (map (\<lambda>k. (k, Already_On)) (pk_extensions p)), db')"
proof -
  let ?on = "filter (\<lambda>k. k \<in> set (pk_extensions p)) (active_keys db w)"
  have run: "apply_keys e reg check get w user ?on (pk_extensions p) db = (Inr rows, db')"
    using assms(1,5) by (simp add: apply_pack_def)
  have "map fst rows = pk_extensions p \<and>
      (\<forall>(k, out) \<in> set rows. (\<exists>code. out = Skipped code) \<longleftrightarrow> k \<notin> set (active_keys db' w))"
    by (rule apply_keys_rows [OF run platform_get_ok [OF assms(2)] assms(3,4) _ assms(6,7)]) auto
  then have r: "map fst rows = pk_extensions p" "\<And>k out. (k, out) \<in> set rows \<Longrightarrow> (\<exists>code. out = Skipped code) \<longleftrightarrow> k \<notin> set (active_keys db' w)"
    by auto
  have "k \<in> set (active_keys db' w)" if "k \<in> set (pk_extensions p)" for k
  proof -
    from that have "k \<in> fst ` set rows" using r(1) by (metis list.set_map)
    then obtain out where "(k, out) \<in> set rows" by auto
    with r(2) [of k out] assms(8) show ?thesis by (cases out) auto
  qed
  then have "set (pk_extensions p) \<subseteq> set (filter (\<lambda>k. k \<in> set (pk_extensions p)) (active_keys db' w))" by auto
  then show ?thesis using assms(5) by (simp add: apply_pack_def apply_keys_on)
qed

text \<open>
  A pack is listed under an industry only when it claims it, and it names nothing the deployment
  does not ship.
\<close>

lemma pack_for_industry_claims: "pack_for_industry s reg i = Some p \<Longrightarrow> i \<noteq> [] \<and> i \<in> set (pk_industries p) \<and> p \<in> set (all_packs s reg)"
  by (auto simp: pack_for_industry_def dest: first_filter_SomeD split: if_splits)

lemma packs_are_shipped: "p \<in> set (all_packs s reg) \<Longrightarrow> k \<in> set (pk_extensions p) \<Longrightarrow> get_manifest reg k \<noteq> None"
  by (auto simp: all_packs_def as_pack_def)

text \<open>A pack whose entry is \<open>None\<close> is listed, and cannot be applied.\<close>

lemma listed_pack_cannot_be_applied:
  "let s = \<lparr>plan_packs = Some (Mapping [(''boutique'', None)]), packs_file = [], read_json = (\<lambda>_. None), import_name = (\<lambda>_. None)\<rparr> in
   map pk_key (all_packs s reg) = [''boutique''] \<and>
   apply_pack e s reg check get db w ''boutique'' user = (Inl (Ext_Error ''unknown_pack'' []), db)"
  by (simp add: all_packs_def configured_packs_def given_packs_def called_def mapping_of_def as_pack_def apply_pack_def get_pack_def)

text \<open>An activation that raises something else ends the call, with what came before it switched on.\<close>

lemma raising_hook_ends_the_pack:
  "apply_key e reg check get w user on k db = (Inr out, db1) \<Longrightarrow> l \<notin> set on \<Longrightarrow>
   activate e reg check db1 w l user None ACTIVATION_SYSTEM = Inl (Raised msg) \<Longrightarrow>
   apply_keys e reg check get w user on (k # l # ks) db = (Inl (Raised msg), db1)"
  by (simp add: apply_key_def)

end
