(* ===== verification/Control_Laws.thy ===== *)
theory Control_Laws
  imports Control_Workspaces Packs
begin

text \<open>
  What the control plane promises: a request is carried out at most once and its retries are answered
  with what it came to; nothing changes without a confirmation, a reason and an entry in the audit
  trail; and what is stored of requests and answers has no value of a sensitive key. An action's
  contract with the ledger is the interface \<open>control_action\<close>, which every action meets.
\<close>

subsection \<open>The ledger\<close>

definition ledger_ok :: "action_row list \<Rightarrow> bool" where
  "ledger_ok acs \<longleftrightarrow> distinct (map ac_id acs) \<and> distinct (map (\<lambda>r. (ac_user r, ac_key r)) acs)"

lemma action_of_Some: "action_of acs u k = Some r \<Longrightarrow> r \<in> set acs \<and> ac_user r = u \<and> ac_key r = k"
  by (auto simp: action_of_def dest: first_filter_SomeD)

lemma action_of_mem:
  assumes "ledger_ok acs" "r \<in> set acs"
  shows "action_of acs (ac_user r) (ac_key r) = Some r"
proof -
  from assms(2) obtain x where x: "action_of acs (ac_user r) (ac_key r) = Some x"
    by (cases "action_of acs (ac_user r) (ac_key r)") (auto simp: action_of_def filter_empty_conv)
  from action_of_Some [OF x] assms have "x = r" by (auto simp: ledger_ok_def distinct_map inj_on_def)
  with x show ?thesis by simp
qed

lemma replay_is_old: "replay_of r act ttype tid hash \<noteq> New_Action x"
  by (auto simp: replay_of_def split: option.splits)

lemma claim_new:
  assumes "claim_action sha acs q act ttype tid payload = Inr (New_Action r, acs')" "ledger_ok acs"
  shows "acs' = acs @ [r]" "ledger_ok acs'" "key_of q = Inr (ac_key r)" "ac_user r = cq_user q" "ac_action r = act"
    "ac_target_type r = ttype" "ac_target_id r = tid" "ac_hash r = payload_hash sha payload"
    "complete_action r result s b t acs' = acs @ [completed result s b t r]"
proof -
  from assms(1) obtain key where k: "key_of q = Inr key" "action_of acs (cq_user q) key = None"
      "r = new_action acs (cq_user q) key act ttype tid (payload_hash sha payload)" "acs' = acs @ [r]"
    using replay_is_old by (fastforce simp: claim_action_def bind_r_Inr Let_def split: option.splits)
  show "acs' = acs @ [r]" "key_of q = Inr (ac_key r)" "ac_user r = cq_user q" "ac_action r = act"
    "ac_target_type r = ttype" "ac_target_id r = tid" "ac_hash r = payload_hash sha payload"
    using k by (simp_all add: new_action_def)
  have id: "ac_id r = fresh_id ac_id acs" using k(3) by (simp add: new_action_def)
  have "\<forall>x \<in> set acs. \<not> (ac_user x = cq_user q \<and> ac_key x = key)"
    using k(2) by (simp add: action_of_def filter_empty_conv)
  then show "ledger_ok acs'" using assms(2) id k(3) by (auto simp: ledger_ok_def k(4) new_action_def)
  have "ac_id x \<noteq> ac_id r" if "x \<in> set acs" for x using that id by (metis fresh_id_notin image_eqI)
  then show "complete_action r result s b t acs' = acs @ [completed result s b t r]"
    by (auto simp: complete_action_def k(4) update_where_def intro: map_idI)
qed

lemma claim_again:
  assumes "ledger_ok acs" "x \<in> set acs" "key_of q = Inr (ac_key x)" "ac_user x = cq_user q" "ac_action x = act"
    "ac_target_type x = ttype" "ac_target_id x = tid" "ac_hash x = payload_hash sha payload" "ac_status x = Some s"
  shows "claim_action sha acs q act ttype tid payload = Inr (Old_Answer s (ac_body x), acs)"
  using action_of_mem [OF assms(1,2)] assms(3-) by (simp add: claim_action_def replay_of_def)

subsection \<open>The contract of an action\<close>

definition workspace_ids :: "control_world \<Rightarrow> nat list" where
  "workspace_ids W = map ws_id (workspaces (cw_db W))"

definition entitlement_ids :: "control_world \<Rightarrow> (nat \<times> nat) set" where
  "entitlement_ids W = (\<lambda>r. (en_id r, en_workspace r)) ` set (entitlements (cw_db W))"

definition well_marked :: "control_world \<Rightarrow> bool" where
  "well_marked W \<longleftrightarrow> (\<forall>i. i \<notin> pf_id ` set (profiles (cw_db W)) \<longrightarrow> cw_marks W i = no_marks)"

text \<open>
  No value is kept under a key that names a credential, at any depth: the keys written out, as they read
  once trimmed, lowered and with their hyphens made underscores.
\<close>

definition credential_key :: "string \<Rightarrow> bool" where
  "credential_key key \<longleftrightarrow> (\<exists>n. n = map (\<lambda>c. if c = CHR ''-'' then CHR ''_'' else c) (lower (strip key)) \<and>
     (n \<in> {''redis_url'', ''api_key'', ''platform_api_key'', ''agent_api_key'', ''database_url'', ''authorization'', ''cookie'', ''credentials''} \<or>
      (\<exists>a b. n = a @ ''password'' @ b) \<or> (\<exists>a b. n = a @ ''secret'' @ b) \<or> (\<exists>a. n = a @ ''_token'') \<or> (\<exists>a. n = a @ ''_api_key'')))"

fun no_credentials :: "control_value \<Rightarrow> bool" where
  "no_credentials (V_Dict fs) \<longleftrightarrow> (\<forall>(k, v) \<in> set fs. if credential_key k then v = V_Text ''[redacted]'' else no_credentials v)"
| "no_credentials (V_List vs) \<longleftrightarrow> (\<forall>v \<in> set vs. no_credentials v)"
| "no_credentials (V_Tuple vs) \<longleftrightarrow> (\<forall>v \<in> set vs. no_credentials v)"
| "no_credentials _ \<longleftrightarrow> True"

lemma contains_iff: "contains xs ys \<longleftrightarrow> (\<exists>a b. ys = a @ xs @ b)"
proof (induction ys)
  case (Cons y ys)
  have "(\<exists>a b. y # ys = a @ xs @ b) \<longleftrightarrow> (\<exists>b. y # ys = xs @ b) \<or> (\<exists>a b. ys = a @ xs @ b)"
    by (metis append_Cons append_Nil list.exhaust list.sel(3))
  then show ?case using Cons by (simp add: startswith_iff)
qed simp

lemma endswith_iff: "endswith xs ys \<longleftrightarrow> (\<exists>a. ys = a @ xs)"
  by (simp add: endswith_def startswith_iff) (metis rev_append rev_rev_ident)

lemma sensitive_credential: "is_sensitive_key k \<longleftrightarrow> credential_key k"
  by (simp add: is_sensitive_key_def credential_key_def SENSITIVE_KEYS_def replace_char_def Let_def contains_iff endswith_iff)

lemma redact_no_credentials: "no_credentials (redact_control_value v)"
  by (induction v rule: redact_control_value.induct) (auto simp: sensitive_credential)

text \<open>The events of one action: who asked for it, and why.\<close>

definition signed_by :: "control_request \<Rightarrow> string \<Rightarrow> audit_event \<Rightarrow> bool" where
  "signed_by q reason ev \<longleftrightarrow> ev_actor ev = cq_user q \<and> ev_reason ev = reason \<and>
     no_credentials (ev_before ev) \<and> no_credentials (ev_after ev)"

definition unchanged :: "control_world \<Rightarrow> control_world \<Rightarrow> bool" where
  "unchanged W W' \<longleftrightarrow> cw_db W' = cw_db W \<and> cw_marks W' = cw_marks W \<and> cw_operations W' = cw_operations W"

locale control_action =
  fixes E :: control_env and q :: control_request and reason :: string
    and perform :: "action_row \<Rightarrow> control_world \<Rightarrow> outcome \<times> control_world" and ok :: bool
  assumes completes: "perform r W = (out, W') \<Longrightarrow> \<exists>s b result. out = Answer s b \<and>
      cw_ledger W' = complete_action r result s b (now (ce_env E)) (cw_ledger W)"
    and keeps: "perform r W = (out, W') \<Longrightarrow> ok \<Longrightarrow> workspace_ids W' = workspace_ids W \<and> entitlement_ids W \<subseteq> entitlement_ids W'"
    and audited: "perform r W = (out, W') \<Longrightarrow> well_marked W \<Longrightarrow> unchanged W W' \<and> cw_audit W' = cw_audit W \<or>
      (\<exists>ev. cw_audit W' = cw_audit W @ [ev] \<and> signed_by q reason ev)"
begin

lemma claimed_once:
  assumes "with_claim E W q act ttype tid payload perform = (out, W')" "ledger_ok (cw_ledger W)"
  shows "(\<nexists>s b. out = Answer s b) \<and> W' = W \<or> (\<exists>r s b result t acs. out = Answer s b \<and>
      claim_action (ce_sha E) (cw_ledger W) q act ttype tid payload = Inr (New_Action r, acs) \<and>
      perform r (W\<lparr>cw_ledger := acs\<rparr>) = (out, W') \<and>
      cw_ledger W' = cw_ledger W @ [completed result s b t r])"
proof (cases "claim_action (ce_sha E) (cw_ledger W) q act ttype tid payload")
  case (Inl a)
  then show ?thesis using assms(1) by (simp add: with_claim_def) blast
next
  case (Inr b)
  obtain cl acs where b: "b = (cl, acs)" by fastforce
  show ?thesis
  proof (cases cl)
    case (New_Action r)
    then have p: "perform r (W\<lparr>cw_ledger := acs\<rparr>) = (out, W')" using assms(1) Inr b by (simp add: with_claim_def)
    from completes [OF p] obtain s bd result where c: "out = Answer s bd"
        "cw_ledger W' = complete_action r result s bd (now (ce_env E)) acs" by auto
    have cl: "claim_action (ce_sha E) (cw_ledger W) q act ttype tid payload = Inr (New_Action r, acs)" using Inr b New_Action by simp
    note n = claim_new [OF cl assms(2)]
    have "cw_ledger W' = cw_ledger W @ [completed result s bd (now (ce_env E)) r]"
      unfolding c(2) by (rule n(9))
    with c(1) cl p show ?thesis by blast
  qed (use assms(1) Inr b in \<open>simp_all add: with_claim_def, blast+\<close>)
qed

end

subsection \<open>What the operations keep\<close>

definition tidy_hooks :: "manifest list \<Rightarrow> bool" where
  "tidy_hooks reg \<longleftrightarrow> (\<forall>m \<in> set reg. \<forall>f db w r db'. on_activate m = Some f \<longrightarrow> f db w r = Inr db' \<longrightarrow>
     map ws_id (workspaces db') = map ws_id (workspaces db) \<and> entitlements db' = entitlements db)"

definition same_places :: "platform_db \<Rightarrow> platform_db \<Rightarrow> bool" where
  "same_places db db' \<longleftrightarrow> map ws_id (workspaces db') = map ws_id (workspaces db) \<and> entitlements db' = entitlements db"

lemma same_places_simps [simp]: "same_places db db" "same_places db (invalidate w db') \<longleftrightarrow> same_places db db'"
  by (simp_all add: same_places_def)

lemma same_places_trans: "same_places a b \<Longrightarrow> same_places b c \<Longrightarrow> same_places a c"
  by (simp add: same_places_def)

lemma ensure_record_places: "ensure_record e db w k = (r, db') \<Longrightarrow> same_places db db'"
  by (auto simp: ensure_record_def Let_def same_places_def split: option.splits)

lemma save_settings_places: "same_places db (save_settings w s db)"
  by (simp add: save_settings_def same_places_def update_where_def comp_def if_distrib cong: if_cong)

lemma skin_places: "set_storefront_skin reg db w skin keys b = Inr (x, db') \<Longrightarrow> same_places db db'"
  using save_settings_places [of db w "settings_of db w"] save_settings_places
  by (auto simp: set_storefront_skin_def bind_r_Inr Let_def invalidate_storefront_def same_places_def split: if_splits)

lemma hook_places:
  assumes "run_hook (on_activate m) db w r = Inr db'" "tidy_hooks reg" "m \<in> set reg"
  shows "same_places db db'"
proof (cases "on_activate m")
  case None
  then show ?thesis using assms(1) by (simp add: run_hook_def)
next
  case (Some f)
  then have "f db w r = Inr db'" using assms(1) by (simp add: run_hook_def split: sum.splits)
  with Some assms(2,3) show ?thesis unfolding tidy_hooks_def same_places_def by blast
qed

lemma activate_places:
  assumes "activate e reg chk db w key user config actor = Inr (r, db')" "tidy_hooks reg"
  shows "same_places db db'"
proof -
  obtain r0 db0 where en: "ensure_record e db w key = (r0, db0)" by fastforce
  from assms(1) obtain m where "require_manageable reg key actor = Inr m" by (auto simp: activate_def bind_r_Inr)
  note m = this en
  have m0: "m \<in> set reg" using m(1) get_manifest_Some [of reg key m] by (simp add: require_manageable_Inr)
  note 1 = ensure_record_places [OF m(2)]
  show ?thesis
  proof (cases "xr_status r0 = Ext_Active")
    case True
    then have "db' = db0" using assms(1) m by (simp add: activate_def)
    with 1 show ?thesis by simp
  next
    case False
    with assms(1) m obtain cfg old r1 b where
      "switch_on reg db0 w key user b m old r1 = Inr (r, db')"
      by (auto simp: activate_def bind_r_Inr split: option.splits)
    then obtain db1 db2 where h: "run_hook (on_activate m) (audit_change w user r1 (Some (old, Ext_Active)) b
         (''Activated extension '' @ key @ ''.'') (save_record r1 db0)) w r1 = Inr db1"
      and s: "(if default_storefront_skin m = [] then Inr db1
        else bind_r (set_storefront_skin reg db1 w (default_storefront_skin m) (Some [mf_key m]) True)
          (\<lambda>(_, db). Inr db)) = Inr db2" and db': "db' = invalidate w db2"
      unfolding switch_on_def bind_r_Inr by blast
    have "same_places db0 (audit_change w user r1 (Some (old, Ext_Active)) b (''Activated extension '' @ key @ ''.'') (save_record r1 db0))"
      by (simp add: same_places_def audit_change_def save_record_def)
    moreover have "same_places (audit_change w user r1 (Some (old, Ext_Active)) b (''Activated extension '' @ key @ ''.'') (save_record r1 db0)) db1"
      by (rule hook_places [OF h assms(2) m0])
    moreover have "same_places db1 db2"
    proof (cases "default_storefront_skin m = []")
      case True
      then show ?thesis using s by simp
    next
      case False
      with s obtain x where "set_storefront_skin reg db1 w (default_storefront_skin m) (Some [mf_key m]) True = Inr (x, db2)"
        unfolding if_not_P [OF False] bind_r_Inr by force
      then show ?thesis by (rule skin_places)
    qed
    ultimately have "same_places db0 db2" by (meson same_places_trans)
    then show ?thesis using same_places_trans [OF 1] unfolding db' by simp
  qed
qed

lemma marks_simps [simp]: "workspace_ids (set_marks w f W) = workspace_ids W" "cw_db (set_marks w f W) = cw_db W" "cw_operations (set_marks w f W) = cw_operations W"
  "cw_ledger (set_marks w f W) = cw_ledger W" "cw_audit (set_marks w f W) = cw_audit W"
  by (simp_all add: set_marks_def workspace_ids_def split: option.splits)

lemma active_simps [simp]: "cw_marks (set_active w b W) = cw_marks W" "cw_ledger (set_active w b W) = cw_ledger W"
  "cw_audit (set_active w b W) = cw_audit W" "workspace_ids (set_active w b W) = workspace_ids W"
  "entitlements (cw_db (set_active w b W)) = entitlements (cw_db W)"
  by (simp_all add: set_active_def workspace_ids_def update_where_def comp_def if_distrib cong: if_cong)

lemma operation_simps [simp]: "workspace_ids (add_operation E w k u d W) = workspace_ids W" "cw_db (add_operation E w k u d W) = cw_db W" "cw_marks (add_operation E w k u d W) = cw_marks W"
  "cw_ledger (add_operation E w k u d W) = cw_ledger W" "cw_audit (add_operation E w k u d W) = cw_audit W"
  by (simp_all add: add_operation_def workspace_ids_def)

lemma finish_simps [simp]: "cw_db (finish E r res s b W) = cw_db W" "cw_marks (finish E r res s b W) = cw_marks W"
  "cw_operations (finish E r res s b W) = cw_operations W" "cw_audit (finish E r res s b W) = cw_audit W"
  "cw_ledger (finish E r res s b W) = complete_action r res s b (now (ce_env E)) (cw_ledger W)"
  by (simp_all add: finish_def)

lemma audit_simps [simp]: "cw_db (audit q a ty ti re b af W) = cw_db W" "cw_marks (audit q a ty ti re b af W) = cw_marks W"
  "cw_operations (audit q a ty ti re b af W) = cw_operations W" "cw_ledger (audit q a ty ti re b af W) = cw_ledger W"
  by (simp_all add: audit_def)

lemma audit_adds: "\<exists>ev. cw_audit (audit q a ty ti reason b af W) = cw_audit W @ [ev] \<and> signed_by q reason ev"
  by (simp add: audit_def record_control_audit_def signed_by_def redact_no_credentials)

lemma places_ids: "same_places (cw_db W) (cw_db W') \<Longrightarrow> workspace_ids W' = workspace_ids W \<and> entitlement_ids W' = entitlement_ids W"
  by (simp add: same_places_def workspace_ids_def entitlement_ids_def)

lemma operate_simps [simp]: "cw_ledger (operate E kind w u re W) = cw_ledger W" "cw_audit (operate E kind w u re W) = cw_audit W"
  "workspace_ids (operate E kind w u re W) = workspace_ids W"
  "entitlements (cw_db (operate E kind w u re W)) = entitlements (cw_db W)"
  by (cases kind; simp add: operate_def suspend_workspace_def resume_workspace_def)+

subsection \<open>Every action meets the contract\<close>

lemma lifecycle_done: "do_lifecycle E kind w q reason r W = (out, W') \<Longrightarrow> \<exists>body b af. out = Answer 200 body \<and>
    W' = audit q (kind_action kind) ''workspace'' (show_nat w) reason b af (finish E r ''succeeded'' 200 body (operate E kind w (cq_user q) reason W))"
  by (auto simp: do_lifecycle_def Let_def)

interpretation lifecycle_action: control_action E q reason "do_lifecycle E kind w q reason" True for E q reason kind w
proof
  fix r W out W'
  assume run: "do_lifecycle E kind w q reason r W = (out, W')"
  then obtain body b af where d: "out = Answer 200 body" "W' = audit q (kind_action kind) ''workspace'' (show_nat w) reason b af
      (finish E r ''succeeded'' 200 body (operate E kind w (cq_user q) reason W))" using lifecycle_done by blast
  show "\<exists>s b result. out = Answer s b \<and> cw_ledger W' = complete_action r result s b (now (ce_env E)) (cw_ledger W)"
    unfolding d by simp blast
  show "workspace_ids W' = workspace_ids W \<and> entitlement_ids W \<subseteq> entitlement_ids W'"
    using operate_simps(3,4) [of E kind w "cq_user q" reason W] unfolding d workspace_ids_def entitlement_ids_def by simp
  show "unchanged W W' \<and> cw_audit W' = cw_audit W \<or> (\<exists>ev. cw_audit W' = cw_audit W @ [ev] \<and> signed_by q reason ev)"
    using audit_adds [of q "kind_action kind" "''workspace''" "show_nat w" reason b af
      "finish E r ''succeeded'' 200 body (operate E kind w (cq_user q) reason W)"] unfolding d by simp
qed

lemma get_or_create_places: "get_or_create_profile db w = (p, db') \<Longrightarrow> same_places db db'"
  by (auto simp: get_or_create_profile_def Let_def same_places_def split: option.splits)

lemma scheduled_before:
  assumes "well_marked W" "scheduled_deletion_at (marks_of (W\<lparr>cw_db := snd (get_or_create_profile (cw_db W) w)\<rparr>) w) \<noteq> None"
  shows "snd (get_or_create_profile (cw_db W) w) = cw_db W"
proof (cases "profile_of (cw_db W) w")
  case None
  let ?p = "new_profile (cw_db W) w"
  have "filter (\<lambda>p. pf_workspace p = Some w) (profiles (cw_db W)) = []" using None by (simp add: profile_of_def)
  then have "profile_of (snd (get_or_create_profile (cw_db W) w)) w = Some ?p"
    using None by (simp add: get_or_create_profile_def profile_of_def new_profile_def Let_def)
  moreover have "cw_marks W (pf_id ?p) = no_marks" using assms(1) fresh_id_notin [of pf_id "profiles (cw_db W)"]
    unfolding well_marked_def by (simp add: new_profile_def)
  ultimately show ?thesis using assms(2) by (simp add: marks_of_def no_marks_def)
qed (simp add: get_or_create_profile_def)

lemma schedule_spec:
  "cw_ledger (schedule_deletion E w q reason W) = cw_ledger W"
  "workspace_ids (schedule_deletion E w q reason W) = workspace_ids W"
  "entitlement_ids (schedule_deletion E w q reason W) = entitlement_ids W"
  "well_marked W \<Longrightarrow> schedule_deletion E w q reason W = W \<or>
     (\<exists>ev. cw_audit (schedule_deletion E w q reason W) = cw_audit W @ [ev] \<and> signed_by q reason ev)"
proof -
  let ?W = "W\<lparr>cw_db := snd (get_or_create_profile (cw_db W) w)\<rparr>"
  obtain p db1 where g: "get_or_create_profile (cw_db W) w = (p, db1)" by fastforce
  have pl: "same_places (cw_db W) (cw_db ?W)" using get_or_create_places [OF g] g by simp
  have ids: "workspace_ids ?W = workspace_ids W" "entitlement_ids ?W = entitlement_ids W" using places_ids [OF pl] by simp_all
  define last where "last = add_operation E w ''delete'' (cq_user q) (V_Dict [(''soft'', V_Bool True), (''reason'', V_Text reason)])
      (set_marks w (\<lambda>m. m\<lparr>scheduled_deletion_at := Some (now (ce_env E) + days_delta 30)\<rparr>) (set_active w False ?W))"
  have st: "schedule_deletion E w q reason W = (if scheduled_deletion_at (marks_of ?W w) \<noteq> None then ?W
      else audit q ''workspace.deletion_scheduled'' ''workspace'' (show_nat w) reason
        (V_Dict [(''is_active'', V_Bool (is_active ?W w)), (''scheduled_deletion_at'', V_Null)])
        (V_Dict [(''is_active'', V_Bool False), (''scheduled_deletion_at'', V_Moment (now (ce_env E) + days_delta 30))]) last)"
    by (simp add: schedule_deletion_def last_def Let_def)
  have l: "cw_ledger last = cw_ledger W" "workspace_ids last = workspace_ids ?W" "entitlements (cw_db last) = entitlements (cw_db ?W)"
    "cw_audit last = cw_audit W" by (simp_all add: last_def)
  show "cw_ledger (schedule_deletion E w q reason W) = cw_ledger W" unfolding st using l by simp
  show "workspace_ids (schedule_deletion E w q reason W) = workspace_ids W" unfolding st using l ids
    by (simp add: workspace_ids_def)
  show "entitlement_ids (schedule_deletion E w q reason W) = entitlement_ids W" unfolding st using l ids
    by (simp add: entitlement_ids_def)
  assume wm: "well_marked W"
  show "schedule_deletion E w q reason W = W \<or>
     (\<exists>ev. cw_audit (schedule_deletion E w q reason W) = cw_audit W @ [ev] \<and> signed_by q reason ev)"
  proof (cases "scheduled_deletion_at (marks_of ?W w) = None")
    case True
    then show ?thesis unfolding st l(4) [symmetric] using audit_adds by auto
  next
    case False
    then have "cw_db ?W = cw_db W" using scheduled_before [OF wm] by simp
    then have "?W = W" by simp
    then show ?thesis unfolding st using False by simp
  qed
qed

interpretation delete_action: control_action E q reason "do_delete E w q reason" True for E q reason w
proof
  fix r W out W'
  assume run: "do_delete E w q reason r W = (out, W')"
  then obtain body where d: "out = Answer 200 body" "W' = finish E r ''succeeded'' 200 body (schedule_deletion E w q reason W)"
    by (auto simp: do_delete_def Let_def)
  show "\<exists>s b result. out = Answer s b \<and> cw_ledger W' = complete_action r result s b (now (ce_env E)) (cw_ledger W)"
    unfolding d by (simp add: schedule_spec(1)) blast
  show "workspace_ids W' = workspace_ids W \<and> entitlement_ids W \<subseteq> entitlement_ids W'"
    using schedule_spec(2,3) [of E w q reason W] unfolding d workspace_ids_def entitlement_ids_def by simp
  show "well_marked W \<Longrightarrow> unchanged W W' \<and> cw_audit W' = cw_audit W \<or> (\<exists>ev. cw_audit W' = cw_audit W @ [ev] \<and> signed_by q reason ev)"
    using schedule_spec(4) [of W E w q reason] unfolding d by (auto simp: unchanged_def)
qed

lemma restore_done:
  assumes "do_restore E w q reason r W = (out, W')"
  shows "(\<exists>body. out = Answer 409 body \<and> W' = finish E r ''failed'' 409 body W) \<or>
    (\<exists>body b af. out = Answer 200 body \<and> W' = audit q ''workspace.deletion_cancelled'' ''workspace'' (show_nat w) reason b af
      (finish E r ''succeeded'' 200 body (set_marks w (\<lambda>m. m\<lparr>scheduled_deletion_at := None\<rparr>) (operate E Resume w (cq_user q) reason W))))"
proof (cases "scheduled_deletion_at (marks_of W w) = None")
  case True
  then show ?thesis using assms by (auto simp: do_restore_def Let_def)
next
  case False
  let ?W = "set_marks w (\<lambda>m. m\<lparr>scheduled_deletion_at := None\<rparr>) (operate E Resume w (cq_user q) reason W)"
  have "out = Answer 200 (workspace_item E ?W w)" "\<exists>b af. W' = audit q ''workspace.deletion_cancelled'' ''workspace'' (show_nat w) reason b af
      (finish E r ''succeeded'' 200 (workspace_item E ?W w) ?W)"
    using assms False by (simp_all add: do_restore_def Let_def operate_def) blast
  then show ?thesis by blast
qed

interpretation restore_action: control_action E q reason "do_restore E w q reason" True for E q reason w
proof
  fix r W out W'
  assume run: "do_restore E w q reason r W = (out, W')"
  note d = restore_done [OF run]
  show "\<exists>s b result. out = Answer s b \<and> cw_ledger W' = complete_action r result s b (now (ce_env E)) (cw_ledger W)"
    using d by (elim disjE exE conjE) (simp, blast)+
  show "workspace_ids W' = workspace_ids W \<and> entitlement_ids W \<subseteq> entitlement_ids W'"
    using d operate_simps(3,4) [of E Resume w "cq_user q" reason W]
    by (elim disjE exE conjE) (simp_all add: workspace_ids_def entitlement_ids_def)
  show "unchanged W W' \<and> cw_audit W' = cw_audit W \<or> (\<exists>ev. cw_audit W' = cw_audit W @ [ev] \<and> signed_by q reason ev)"
    using d
  proof (elim disjE exE conjE)
    fix body b af
    let ?W = "finish E r ''succeeded'' 200 body (set_marks w (\<lambda>m. m\<lparr>scheduled_deletion_at := None\<rparr>) (operate E Resume w (cq_user q) reason W))"
    assume "W' = audit q ''workspace.deletion_cancelled'' ''workspace'' (show_nat w) reason b af ?W"
    moreover have "cw_audit ?W = cw_audit W" by simp
    ultimately show ?thesis using audit_adds by metis
  qed (simp add: unchanged_def)
qed

lemma cap_done:
  assumes "do_cap E w v q reason r W = (out, W')"
  shows "(\<exists>body. out = Answer 400 body \<and> W' = finish E r ''failed'' 400 body W) \<or>
    (\<exists>body b db. out = Answer 200 body \<and> same_places (cw_db W) db \<and>
      W' = audit q ''workspace.usage_cap_updated'' ''workspace'' (show_nat w) reason b body
        (finish E r ''succeeded'' 200 body (W\<lparr>cw_db := db\<rparr>)))"
proof (cases "set_monthly_cap (cw_db W) w (cap_number v)")
  case (Inl a)
  then show ?thesis using assms by (auto simp: do_cap_def Let_def)
next
  case (Inr a)
  obtain c db where a: "a = (c, db)" by fastforce
  obtain p db1 where g: "get_or_create_profile (cw_db W) w = (p, db1)" by fastforce
  have "same_places (cw_db W) db" using Inr a g get_or_create_places [OF g]
    by (auto simp: set_monthly_cap_def bind_r_Inr save_profile_def same_places_def)
  then show ?thesis using assms Inr a by (auto simp: do_cap_def Let_def)
qed

interpretation cap_action: control_action E q reason "do_cap E w v q reason" True for E q reason w v
proof
  fix r W out W'
  assume run: "do_cap E w v q reason r W = (out, W')"
  note d = cap_done [OF run]
  show "\<exists>s b result. out = Answer s b \<and> cw_ledger W' = complete_action r result s b (now (ce_env E)) (cw_ledger W)"
    using d by (elim disjE exE conjE) (simp, blast)+
  show "workspace_ids W' = workspace_ids W \<and> entitlement_ids W \<subseteq> entitlement_ids W'"
    using d by (elim disjE exE conjE) (simp_all add: workspace_ids_def entitlement_ids_def same_places_def)
  show "unchanged W W' \<and> cw_audit W' = cw_audit W \<or> (\<exists>ev. cw_audit W' = cw_audit W @ [ev] \<and> signed_by q reason ev)"
    using d
  proof (elim disjE exE conjE)
    fix body b db
    let ?W = "finish E r ''succeeded'' 200 body (W\<lparr>cw_db := db\<rparr>)"
    assume "W' = audit q ''workspace.usage_cap_updated'' ''workspace'' (show_nat w) reason b body ?W"
    moreover have "cw_audit ?W = cw_audit W" by simp
    ultimately show ?thesis using audit_adds by metis
  qed (simp add: unchanged_def)
qed

lemma grant_places:
  assumes "grant_entitlement E db w key months reason user = (Inr (row, x), db')" "tidy_hooks (ce_registry E)"
  shows "map ws_id (workspaces db') = map ws_id (workspaces db)" "entitlements db' = entitlements db @ [row]"
proof -
  obtain db1 where g: "grant (ce_env E) db w key months None reason = (row, db1)"
      and rs: "resume_if_paused E db1 w key user = (x, db')"
    using assms(1) by (auto simp: grant_entitlement_def Let_def split: option.splits prod.splits)
  have 1: "map ws_id (workspaces db1) = map ws_id (workspaces db)" "entitlements db1 = entitlements db @ [row]"
    using g by (auto simp: grant_def Let_def forget_read_only_def)
  have "same_places db1 db'"
  proof (cases "\<exists>r. activate (ce_env E) (ce_registry E) (ce_check E) db1 w key user None ACTIVATION_SYSTEM = Inr (r, db')")
    case True
    then show ?thesis using activate_places assms(2) by blast
  next
    case False
    then have "db' = db1" using rs
      by (auto simp: resume_if_paused_def split: if_splits option.splits sum.splits prod.splits ext_error.splits)
    then show ?thesis by simp
  qed
  with 1 show "map ws_id (workspaces db') = map ws_id (workspaces db)" "entitlements db' = entitlements db @ [row]"
    by (simp_all add: same_places_def)
qed

lemma grant_done:
  assumes "do_grant E w key months q reason r W = (out, W')"
  shows "(\<exists>body. out = Answer 409 body \<and> W' = finish E r ''failed'' 409 body W) \<or>
    (\<exists>body row x db. out = Answer 201 body \<and> grant_entitlement E (cw_db W) w key months reason (Some (cq_user q)) = (Inr (row, x), db) \<and>
      W' = audit q ''workspace.entitlement_granted'' ''workspace'' (show_nat w) reason (V_Dict []) body
        (finish E r ''succeeded'' 201 body (W\<lparr>cw_db := db\<rparr>)))"
proof -
  obtain res db where g: "grant_entitlement E (cw_db W) w key months reason (Some (cq_user q)) = (res, db)" by fastforce
  show ?thesis using assms g by (cases res) (auto simp: do_grant_def Let_def)
qed

interpretation grant_action: control_action E q reason "do_grant E w key months q reason" "tidy_hooks (ce_registry E)"
  for E q reason w key months
proof
  fix r W out W'
  assume run: "do_grant E w key months q reason r W = (out, W')"
  note d = grant_done [OF run]
  show "\<exists>s b result. out = Answer s b \<and> cw_ledger W' = complete_action r result s b (now (ce_env E)) (cw_ledger W)"
    using d by (elim disjE exE conjE) (simp, blast)+
  show "workspace_ids W' = workspace_ids W \<and> entitlement_ids W \<subseteq> entitlement_ids W'" if "tidy_hooks (ce_registry E)"
    using d
  proof (elim disjE exE conjE)
    fix body row x db
    assume g: "grant_entitlement E (cw_db W) w key months reason (Some (cq_user q)) = (Inr (row, x), db)"
      and "W' = audit q ''workspace.entitlement_granted'' ''workspace'' (show_nat w) reason (V_Dict []) body
        (finish E r ''succeeded'' 201 body (W\<lparr>cw_db := db\<rparr>))"
    then show ?thesis using grant_places [OF g that] by (auto simp: workspace_ids_def entitlement_ids_def)
  qed (simp add: workspace_ids_def entitlement_ids_def)
  show "unchanged W W' \<and> cw_audit W' = cw_audit W \<or> (\<exists>ev. cw_audit W' = cw_audit W @ [ev] \<and> signed_by q reason ev)"
    using d
  proof (elim disjE exE conjE)
    fix body row x db
    let ?W = "finish E r ''succeeded'' 201 body (W\<lparr>cw_db := db\<rparr>)"
    assume "W' = audit q ''workspace.entitlement_granted'' ''workspace'' (show_nat w) reason (V_Dict []) body ?W"
    moreover have "cw_audit ?W = cw_audit W" by simp
    ultimately show ?thesis using audit_adds by metis
  qed (simp add: unchanged_def)
qed

interpretation revoke_action: control_action E q reason "do_revoke E w ent q reason" True for E q reason w ent
proof
  fix r W out W'
  assume run: "do_revoke E w ent q reason r W = (out, W')"
  then obtain body b where d: "out = Answer 200 body"
    "W' = audit q ''workspace.entitlement_revoked'' ''workspace'' (show_nat w) reason b body (finish E r ''succeeded'' 200 body
      (W\<lparr>cw_db := (cw_db W)\<lparr>entitlements := update_where (\<lambda>x. en_id x = en_id ent) (revoked reason) (entitlements (cw_db W))\<rparr>\<rparr>))"
    by (auto simp: do_revoke_def Let_def)
  show "\<exists>s b result. out = Answer s b \<and> cw_ledger W' = complete_action r result s b (now (ce_env E)) (cw_ledger W)"
    unfolding d by simp blast
  have "(\<lambda>r. (en_id r, en_workspace r)) ` set (update_where (\<lambda>x. en_id x = en_id ent) (revoked reason) xs)
      = (\<lambda>r. (en_id r, en_workspace r)) ` set xs" for xs
    by (induction xs) (auto simp: update_where_def revoked_def)
  then show "workspace_ids W' = workspace_ids W \<and> entitlement_ids W \<subseteq> entitlement_ids W'"
    unfolding d by (simp add: workspace_ids_def entitlement_ids_def)
  show "unchanged W W' \<and> cw_audit W' = cw_audit W \<or> (\<exists>ev. cw_audit W' = cw_audit W @ [ev] \<and> signed_by q reason ev)"
    unfolding d using audit_adds [of q "''workspace.entitlement_revoked''" "''workspace''" "show_nat w" reason b body
      "finish E r ''succeeded'' 200 body
        (W\<lparr>cw_db := (cw_db W)\<lparr>entitlements := update_where (\<lambda>x. en_id x = en_id ent) (revoked reason) (entitlements (cw_db W))\<rparr>\<rparr>)"]
    by simp
qed

subsection \<open>Every call\<close>

lemma contract_weaken: "control_action E q reason perform True \<Longrightarrow> control_action E q reason perform b"
  unfolding control_action_def by blast

lemma is_workspace_iff: "is_workspace W w \<longleftrightarrow> w \<in> set (workspace_ids W)"
proof -
  have "workspace_by_id (cw_db W) w = None \<longleftrightarrow> w \<notin> set (workspace_ids W)"
    unfolding workspace_by_id_def first_filter_None workspace_ids_def by force
  then show ?thesis by (simp add: is_workspace_def)
qed

lemma entitlement_by_id_iff: "entitlement_by_id (cw_db W) w i \<noteq> None \<longleftrightarrow> (i, w) \<in> entitlement_ids W"
  unfolding entitlement_by_id_def first_filter_None entitlement_ids_def by force

text \<open>The claim a call makes, which does not depend on the clock or on what happened before it.\<close>

definition reaches :: "control_env \<Rightarrow> control_request \<Rightarrow> control_call \<Rightarrow> string \<Rightarrow> string \<Rightarrow> string \<Rightarrow> control_value \<Rightarrow> control_world \<Rightarrow> bool" where
  "reaches E q call act ttype tid payload W \<longleftrightarrow> (\<exists>reason perform.
     control E q call W = with_claim E W q act ttype tid payload perform \<and>
     cq_confirm q \<and> require_reason q = Inr reason \<and> control_action E q reason perform (tidy_hooks (ce_registry E)))"

definition claims :: "control_env \<Rightarrow> control_request \<Rightarrow> control_call \<Rightarrow> string \<Rightarrow> string \<Rightarrow> string \<Rightarrow> control_value \<Rightarrow> control_world \<Rightarrow> bool" where
  "claims E q call act ttype tid payload W \<longleftrightarrow> (\<forall>E' W'. ce_registry E' = ce_registry E \<longrightarrow> workspace_ids W' = workspace_ids W \<longrightarrow>
     entitlement_ids W \<subseteq> entitlement_ids W' \<longrightarrow> reaches E' q call act ttype tid payload W')"

lemma confirmed: "require_confirmation q = Inr u \<longleftrightarrow> cq_confirm q"
  by (simp add: require_confirmation_def)

lemma claimsI:
  assumes "\<And>E' W'. ce_registry E' = ce_registry E \<Longrightarrow> workspace_ids W' = workspace_ids W \<Longrightarrow>
      control E' q call W' = with_claim E' W' q act ttype tid payload (perform E')"
    and "\<And>E'. control_action E' q reason (perform E') (tidy_hooks (ce_registry E'))"
    and "cq_confirm q" "require_reason q = Inr reason"
  shows "claims E q call act ttype tid payload W"
  unfolding claims_def reaches_def using assms by blast

lemma control_form:
  "(\<exists>out. control E q call W = (out, W) \<and> (\<nexists>s b. out = Answer s b)) \<or>
   (\<exists>act ttype tid payload. claims E q call act ttype tid payload W)"
proof (cases "require_confirmation q")
  case (Inl a)
  then show ?thesis by (cases call) (simp_all add: control_def not_refused_def Let_def)
next
  case conf: (Inr u)
  then have cc: "cq_confirm q" by (simp add: confirmed)
  show ?thesis
  proof (cases "require_reason q")
    case (Inl a)
    then show ?thesis using conf
      by (cases call) (auto simp: control_def not_refused_def Let_def split: option.splits sum.splits)
  next
    case (Inr reason)
    note c = conf Inr
    show ?thesis
    proof (cases call)
      case (Lifecycle kind w)
      show ?thesis
      proof (cases "is_workspace W w")
        case True
        have "claims E q call (kind_action kind) ''workspace'' (show_nat w) (V_Dict [(''reason'', V_Text reason)]) W"
          by (rule claimsI [where perform = "\<lambda>E. do_lifecycle E kind w q reason"])
            (use True c cc contract_weaken [OF lifecycle_action.control_action_axioms] in
              \<open>simp_all add: Lifecycle control_def not_refused_def is_workspace_iff\<close>)
        then show ?thesis by blast
      qed (simp add: Lifecycle control_def not_refused_def c)
    next
      case (Delete w)
      show ?thesis
      proof (cases "is_workspace W w")
        case True
        have "claims E q call ''workspace.deletion_scheduled'' ''workspace'' (show_nat w) (V_Dict [(''reason'', V_Text reason)]) W"
          by (rule claimsI [where perform = "\<lambda>E. do_delete E w q reason"])
            (use True c cc contract_weaken [OF delete_action.control_action_axioms] in
              \<open>simp_all add: Delete control_def not_refused_def is_workspace_iff\<close>)
        then show ?thesis by blast
      qed (simp add: Delete control_def not_refused_def c)
    next
      case (Restore w)
      show ?thesis
      proof (cases "is_workspace W w")
        case True
        have "claims E q call ''workspace.deletion_cancelled'' ''workspace'' (show_nat w) (V_Dict [(''reason'', V_Text reason)]) W"
          by (rule claimsI [where perform = "\<lambda>E. do_restore E w q reason"])
            (use True c cc contract_weaken [OF restore_action.control_action_axioms] in
              \<open>simp_all add: Restore control_def not_refused_def is_workspace_iff\<close>)
        then show ?thesis by blast
      qed (simp add: Restore control_def not_refused_def c)
    next
      case (Set_Cap w v)
      show ?thesis
      proof (cases "is_workspace W w \<and> v \<noteq> None")
        case True
        then obtain x where x: "v = Some x" "is_workspace W w" by blast
        have "claims E q call ''workspace.usage_cap_updated'' ''workspace'' (show_nat w)
            (V_Dict [(''cap_points'', x), (''reason'', V_Text reason)]) W"
          by (rule claimsI [where perform = "\<lambda>E. do_cap E w x q reason"])
            (use x c cc contract_weaken [OF cap_action.control_action_axioms] in
              \<open>simp_all add: Set_Cap control_def not_refused_def is_workspace_iff\<close>)
        then show ?thesis by blast
      qed (auto simp: Set_Cap control_def not_refused_def c)
    next
      case (Grant w key months never)
      show ?thesis
      proof (cases "is_workspace W w")
        case True
        show ?thesis
        proof (cases "grant_key (ce_registry E) key")
          case (Inl a)
          then show ?thesis using True by (simp add: Grant control_def not_refused_def c)
        next
          case k: (Inr k)
          show ?thesis
          proof (cases "grant_months months never")
            case (Inl a)
            then show ?thesis using True k by (simp add: Grant control_def not_refused_def c)
          next
            case m: (Inr m)
            have "claims E q call ''workspace.entitlement_granted'' ''workspace'' (show_nat w)
                (V_Dict [(''key'', V_Text k), (''months'', months_value m), (''reason'', V_Text reason)]) W"
              by (rule claimsI [where perform = "\<lambda>E. do_grant E w k m q reason"])
                (use True k m c cc grant_action.control_action_axioms in
                  \<open>simp_all add: Grant control_def not_refused_def is_workspace_iff\<close>)
            then show ?thesis by blast
          qed
        qed
      qed (simp add: Grant control_def not_refused_def c)
    next
      case (Revoke w i)
      show ?thesis
      proof (cases "is_workspace W w \<and> entitlement_by_id (cw_db W) w i \<noteq> None")
        case True
        have "claims E q call ''workspace.entitlement_revoked'' ''workspace_entitlement'' (show_nat i)
            (V_Dict [(''workspace'', V_Int (int w)), (''reason'', V_Text reason)]) W"
          unfolding claims_def reaches_def
        proof (intro allI impI exI [of _ reason])
          fix E' :: control_env and W' :: control_world
          assume "workspace_ids W' = workspace_ids W" "entitlement_ids W \<subseteq> entitlement_ids W'"
          then have "entitlement_by_id (cw_db W') w i \<noteq> None" "is_workspace W' w"
            using True unfolding entitlement_by_id_iff is_workspace_iff by auto
          then obtain ent where "entitlement_by_id (cw_db W') w i = Some ent" "is_workspace W' w" by blast
          then show "\<exists>perform. control E' q call W' = with_claim E' W' q ''workspace.entitlement_revoked'' ''workspace_entitlement''
              (show_nat i) (V_Dict [(''workspace'', V_Int (int w)), (''reason'', V_Text reason)]) perform \<and>
              cq_confirm q \<and> require_reason q = Inr reason \<and> control_action E' q reason perform (tidy_hooks (ce_registry E'))"
            using c cc contract_weaken [OF revoke_action.control_action_axioms]
            by (intro exI [of _ "do_revoke E' w ent q reason"]) (simp add: Revoke control_def not_refused_def)
        qed
        then show ?thesis by blast
      qed (auto simp: Revoke control_def not_refused_def c)
    qed
  qed
qed

lemma completed_simps [simp]: "ac_id (completed res s b t r) = ac_id r" "ac_user (completed res s b t r) = ac_user r"
  "ac_key (completed res s b t r) = ac_key r" "ac_action (completed res s b t r) = ac_action r"
  "ac_target_type (completed res s b t r) = ac_target_type r" "ac_target_id (completed res s b t r) = ac_target_id r"
  "ac_hash (completed res s b t r) = ac_hash r" "ac_status (completed res s b t r) = Some s"
  "ac_body (completed res s b t r) = redact_control_value b"
  by (simp_all add: completed_def)

lemma control_step:
  assumes "control E q call W = (out, W')" "ledger_ok (cw_ledger W)"
  shows "(\<nexists>s b. out = Answer s b) \<and> W' = W \<or>
    (\<exists>act ttype tid payload s b x. out = Answer s b \<and> claims E q call act ttype tid payload W \<and>
       cw_ledger W' = cw_ledger W @ [x] \<and> ledger_ok (cw_ledger W') \<and> key_of q = Inr (ac_key x) \<and> ac_user x = cq_user q \<and>
       ac_action x = act \<and> ac_target_type x = ttype \<and> ac_target_id x = tid \<and> ac_hash x = payload_hash (ce_sha E) payload \<and>
       ac_status x = Some s \<and> ac_body x = redact_control_value b)"
proof (cases "\<exists>act ttype tid payload. claims E q call act ttype tid payload W")
  case False
  then show ?thesis using control_form [of E q call W] assms(1) by auto
next
  case True
  then obtain act ttype tid payload where cl: "claims E q call act ttype tid payload W" by blast
  then obtain reason perform where p: "control E q call W = with_claim E W q act ttype tid payload perform"
    "control_action E q reason perform (tidy_hooks (ce_registry E))" unfolding claims_def reaches_def by blast
  from control_action.claimed_once [OF p(2) assms(1) [unfolded p(1)] assms(2)]
  show ?thesis
  proof
    assume "\<exists>r s b result t acs. out = Answer s b \<and>
      claim_action (ce_sha E) (cw_ledger W) q act ttype tid payload = Inr (New_Action r, acs) \<and>
      perform r (W\<lparr>cw_ledger := acs\<rparr>) = (out, W') \<and> cw_ledger W' = cw_ledger W @ [completed result s b t r]"
    then obtain r s b result t acs where c: "out = Answer s b" "cw_ledger W' = cw_ledger W @ [completed result s b t r]"
      and n: "claim_action (ce_sha E) (cw_ledger W) q act ttype tid payload = Inr (New_Action r, acs)" by blast
    note n = claim_new [OF n assms(2)]
    have "ledger_ok (cw_ledger W')" using n(2) unfolding n(1) c(2) by (simp add: ledger_ok_def)
    with c n(3-8) cl show ?thesis by (intro disjI2 exI [of _ act] exI [of _ ttype] exI [of _ tid] exI [of _ payload]
        exI [of _ s] exI [of _ b] exI [of _ "completed result s b t r"]) simp
  qed simp
qed

lemma control_keeps:
  assumes "control E q call W = (out, W')" "ledger_ok (cw_ledger W)" "tidy_hooks (ce_registry E)"
  shows "workspace_ids W' = workspace_ids W \<and> entitlement_ids W \<subseteq> entitlement_ids W'"
proof (cases "\<exists>act ttype tid payload. claims E q call act ttype tid payload W")
  case False
  then show ?thesis using control_form [of E q call W] assms(1) by auto
next
  case True
  then obtain act ttype tid payload where cl: "claims E q call act ttype tid payload W" by blast
  then obtain reason perform where p: "control E q call W = with_claim E W q act ttype tid payload perform"
    "control_action E q reason perform (tidy_hooks (ce_registry E))" unfolding claims_def reaches_def by blast
  from control_action.claimed_once [OF p(2) assms(1) [unfolded p(1)] assms(2)]
  show ?thesis
  proof
    assume "\<exists>r s b result t acs. out = Answer s b \<and>
      claim_action (ce_sha E) (cw_ledger W) q act ttype tid payload = Inr (New_Action r, acs) \<and>
      perform r (W\<lparr>cw_ledger := acs\<rparr>) = (out, W') \<and> cw_ledger W' = cw_ledger W @ [completed result s b t r]"
    then obtain r acs where "perform r (W\<lparr>cw_ledger := acs\<rparr>) = (out, W')" by blast
    from control_action.keeps [OF p(2) this assms(3)] show ?thesis by (simp add: workspace_ids_def entitlement_ids_def)
  qed simp
qed

subsection \<open>Properties\<close>

text \<open>Requests served one after another, each at its own time.\<close>

definition served :: "(control_env \<times> control_request \<times> control_call) list \<Rightarrow> control_world \<Rightarrow> control_world" where
  "served xs W = fold (\<lambda>(E, q, call) W. snd (control E q call W)) xs W"

lemma served_keeps:
  assumes "\<forall>x \<in> set xs. tidy_hooks (ce_registry (fst x))" "ledger_ok (cw_ledger W)"
  shows "ledger_ok (cw_ledger (served xs W)) \<and> set (cw_ledger W) \<subseteq> set (cw_ledger (served xs W)) \<and>
    workspace_ids (served xs W) = workspace_ids W \<and> entitlement_ids W \<subseteq> entitlement_ids (served xs W)"
  using assms
proof (induction xs arbitrary: W)
  case (Cons x xs)
  obtain E q call where x: "x = (E, q, call)" by (metis surj_pair)
  obtain out W1 where c: "control E q call W = (out, W1)" by fastforce
  have "ledger_ok (cw_ledger W1) \<and> set (cw_ledger W) \<subseteq> set (cw_ledger W1)"
    using control_step [OF c Cons.prems(2)] Cons.prems(2) by auto
  moreover have "workspace_ids W1 = workspace_ids W \<and> entitlement_ids W \<subseteq> entitlement_ids W1"
    by (rule control_keeps [OF c Cons.prems(2)]) (use Cons.prems(1) x in simp)
  moreover have "served (x # xs) W = served xs W1" by (simp add: served_def x c)
  ultimately show ?case using Cons.IH [of W1] Cons.prems(1) by auto
qed (simp add: served_def)

text \<open>
  C13: A control action is carried out at most once. Whatever else is served in between, a request that
  was answered is answered again with the status it had and the body it had, credentials redacted,
  and nothing is changed by it.
\<close>

theorem retry_is_replayed:
  assumes "control E q call W = (Answer s b, W1)" "ledger_ok (cw_ledger W)"
    and "tidy_hooks (ce_registry E)" "\<forall>x \<in> set xs. tidy_hooks (ce_registry (fst x))"
    and "ce_registry E' = ce_registry E" "ce_sha E' = ce_sha E"
  shows "control E' q call (served xs W1) = (Replay s (redact_control_value b), served xs W1)"
proof -
  from control_step [OF assms(1,2)] obtain act ttype tid payload x where cl: "claims E q call act ttype tid payload W"
    and x: "cw_ledger W1 = cw_ledger W @ [x]" "ledger_ok (cw_ledger W1)" "key_of q = Inr (ac_key x)" "ac_user x = cq_user q"
      "ac_action x = act" "ac_target_type x = ttype" "ac_target_id x = tid" "ac_hash x = payload_hash (ce_sha E) payload"
      "ac_status x = Some s" "ac_body x = redact_control_value b" by auto
  note k1 = control_keeps [OF assms(1-3)]
  note k2 = served_keeps [OF assms(4) x(2)]
  have "reaches E' q call act ttype tid payload (served xs W1)" using cl k1 k2 assms(5) unfolding claims_def by auto
  then obtain perform where p: "control E' q call (served xs W1) = with_claim E' (served xs W1) q act ttype tid payload perform"
    unfolding reaches_def by blast
  have "claim_action (ce_sha E') (cw_ledger (served xs W1)) q act ttype tid payload
      = Inr (Old_Answer s (redact_control_value b), cw_ledger (served xs W1))"
    unfolding x(10) [symmetric] by (rule claim_again) (use k2 x assms(6) in auto)
  then show ?thesis unfolding p by (simp add: with_claim_def)
qed

text \<open>
  C14: Nothing changes without a confirmation, a reason and a witness: a call either leaves everything as
  it was, or only notes its answer, or its request was confirmed, gave a reason of at least three
  characters, and left one event in the audit trail that names who asked and why. In what the event keeps
  of before and after there is, at any depth, nothing but \<open>[redacted]\<close> under the eight names and the four patterns of
  \<open>credential_key\<close>; other names are kept as they are, \<open>token\<close> among them (the last lemma below).
\<close>

theorem no_change_unaudited:
  assumes "control E q call W = (out, W')" "ledger_ok (cw_ledger W)" "well_marked W"
  shows "W' = W \<or> unchanged W W' \<and> cw_audit W' = cw_audit W \<or>
    (cq_confirm q \<and> (\<exists>reason ev. require_reason q = Inr reason \<and> 3 \<le> length reason \<and> cw_audit W' = cw_audit W @ [ev] \<and>
       ev_actor ev = cq_user q \<and> ev_reason ev = reason \<and>
       no_credentials (ev_before ev) \<and> no_credentials (ev_after ev)))"
proof (cases "\<exists>act ttype tid payload. claims E q call act ttype tid payload W")
  case False
  then show ?thesis using control_form [of E q call W] assms(1) by auto
next
  case True
  then obtain act ttype tid payload where cl: "claims E q call act ttype tid payload W" by blast
  then obtain reason perform where p: "control E q call W = with_claim E W q act ttype tid payload perform"
    "control_action E q reason perform (tidy_hooks (ce_registry E))" "cq_confirm q" "require_reason q = Inr reason"
    unfolding claims_def reaches_def by blast
  have l: "3 \<le> length reason" using p(4) by (auto simp: require_reason_def Let_def split: if_splits)
  from control_action.claimed_once [OF p(2) assms(1) [unfolded p(1)] assms(2)]
  show ?thesis
  proof
    assume "\<exists>r s b result t acs. out = Answer s b \<and>
      claim_action (ce_sha E) (cw_ledger W) q act ttype tid payload = Inr (New_Action r, acs) \<and>
      perform r (W\<lparr>cw_ledger := acs\<rparr>) = (out, W') \<and> cw_ledger W' = cw_ledger W @ [completed result s b t r]"
    then obtain r acs where r: "perform r (W\<lparr>cw_ledger := acs\<rparr>) = (out, W')" by blast
    have "well_marked (W\<lparr>cw_ledger := acs\<rparr>)" using assms(3) by (simp add: well_marked_def)
    from control_action.audited [OF p(2) r this] show ?thesis
      using p(3,4) l by (auto simp: unchanged_def signed_by_def)
  qed simp
qed

text \<open>What keeps an extension from being switched on, its hook and its default skin included.\<close>

definition held_back :: "manifest list \<Rightarrow> ent_check \<Rightarrow> platform_db \<Rightarrow> nat \<Rightarrow> string \<Rightarrow> bool" where
  "held_back reg chk db w key \<longleftrightarrow> (\<forall>m. get_manifest reg key = Some m \<longrightarrow> can_manage m ACTIVATION_SYSTEM \<longrightarrow> is_activatable m \<longrightarrow>
     (\<exists>k \<in> set (requires m). k \<notin> set (compute_available_keys reg chk db (Some w) None)) \<or>
     (\<exists>p \<in> set (prerequisites m). \<not> is_met p db w) \<or>
     (\<exists>f d r msg. on_activate m = Some f \<and> f d w r = Inl msg) \<or>
     (strip (default_storefront_skin m) \<noteq> [] \<and> strip (default_storefront_skin m) \<notin> set (available_storefront_skins reg (Some [key]))))"

lemma switch_on_fails:
  assumes "switch_on reg db w key user b m old r' = Inl err"
  shows "(\<exists>f d r msg. on_activate m = Some f \<and> f d w r = Inl msg) \<or>
    (strip (default_storefront_skin m) \<noteq> [] \<and> strip (default_storefront_skin m) \<notin> set (available_storefront_skins reg (Some [mf_key m])))"
proof -
  let ?skin = "default_storefront_skin m"
  obtain db0 where db0: "switch_on reg db w key user b m old r' = bind_r (run_hook (on_activate m) db0 w r') (\<lambda>db.
     bind_r (if ?skin = [] then Inr db else bind_r (set_storefront_skin reg db w ?skin (Some [mf_key m]) True) (\<lambda>(_, db). Inr db))
       (\<lambda>db. Inr (r', invalidate w db)))"
    unfolding switch_on_def by blast
  show ?thesis
  proof (cases "run_hook (on_activate m) db0 w r'")
    case (Inl a)
    then show ?thesis by (auto simp: run_hook_def split: option.splits sum.splits)
  next
    case (Inr db1)
    then have "\<exists>e. validate_storefront_skin reg ?skin (Some [mf_key m]) = Inl e"
      using assms unfolding db0
      by (cases "validate_storefront_skin reg ?skin (Some [mf_key m])")
        (auto simp: set_storefront_skin_def bind_r_def Let_def split: if_splits)
    then show ?thesis by (auto simp: validate_storefront_skin_def Let_def split: if_splits)
  qed
qed

lemma activate_held_back:
  assumes "activate e reg chk db w key user None ACTIVATION_SYSTEM = Inl err"
    and "record_of db w key = Some r" "xr_status r = Ext_Paused"
    and "\<forall>m. get_manifest reg key = Some m \<longrightarrow> ext_entitled chk db w m = Inr True"
  shows "held_back reg chk db w key"
  unfolding held_back_def
proof (intro allI impI)
  fix m assume m: "get_manifest reg key = Some m" "can_manage m ACTIVATION_SYSTEM" "is_activatable m"
  then have rm: "require_manageable reg key ACTIVATION_SYSTEM = Inr m" by (simp add: require_manageable_Inr)
  have en: "ensure_record e db w key = (r, db)" using assms(2) by (simp add: ensure_record_def)
  have key: "mf_key m = key" using get_manifest_Some [OF m(1)] by simp
  let ?missing = "\<exists>k \<in> set (requires m). k \<notin> set (compute_available_keys reg chk db (Some w) None)"
  let ?unmet = "\<exists>p \<in> set (prerequisites m). \<not> is_met p db w"
  show "?missing \<or> ?unmet \<or>
     (\<exists>f d r msg. on_activate m = Some f \<and> f d w r = Inl msg) \<or>
     (strip (default_storefront_skin m) \<noteq> [] \<and> strip (default_storefront_skin m) \<notin> set (available_storefront_skins reg (Some [key])))"
  proof (cases "activation_refusal reg chk db w m r")
    case None
    then have "switch_on reg db w key user False m (xr_status r) (activated e user None r) = Inl err"
      using assms(1,3) rm en by (simp add: activate_def bind_r_def)
    from switch_on_fails [OF this] show ?thesis unfolding key by blast
  next
    case (Some x)
    then have "?missing \<or> ?unmet" using assms(3,4) m(1) by (auto simp: activation_refusal_def Let_def filter_empty_conv split: if_splits)
    then show ?thesis by blast
  qed
qed

text \<open>
  C33: An entitlement given to a workspace that has none for the key: it is entitled at once. An
  extension that the sweep had paused is on again, and available to the next request, with the
  configuration it had, unless something else holds it back: no such extension that the system may switch on,
  one it requires that is not available, a prerequisite that is not met, its hook, or a default skin nobody offers. A
  workspace that holds one gets no second. It takes hooks that leave records and entitlements alone.
\<close>

theorem grant_brings_back:
  assumes "grant_entitlement E db w key months reason user = (res, db')" "ext_ok db"
    and "ce_check E = Some (entitlement_check (ce_env E))" "hooks_quiet (ce_registry E)"
    and "\<forall>n. months = Some n \<longrightarrow> 1 \<le> n"
  shows "case res of
      Inl row \<Rightarrow> is_entitled (ce_env E) db (Some w) key \<and> db' = db
    | Inr (row, x) \<Rightarrow> \<not> is_entitled (ce_env E) db (Some w) key \<and> is_entitled (ce_env E) db' (Some w) key \<and>
        entitlements db' = entitlements db @ [row] \<and>
        (\<forall>st. x = Resumed st \<longrightarrow> (\<exists>r r'. record_of db w key = Some r \<and> xr_status r = Ext_Paused \<and> xr_reason r = PAUSED_REASON \<and>
           record_of db' w key = Some r' \<and> xr_status r' = Ext_Active \<and> xr_config r' = xr_config r \<and>
           fst (is_available e' (ce_registry E) (ce_check E) db' (Some w) key))) \<and>
        (\<forall>r. record_of db w key = Some r \<and> xr_status r = Ext_Paused \<and> xr_reason r = PAUSED_REASON \<and> key \<noteq> KEY_BASE_PLAN \<longrightarrow>
           x = Resumed Ext_Active \<or> held_back (ce_registry E) (ce_check E) db' w key)"
proof -
  let ?e = "ce_env E"
  have lv: "live_entitlement ?e db w key = None \<longleftrightarrow> \<not> is_entitled ?e db (Some w) key"
    by (auto simp: live_entitlement_def is_entitled_def entitled_at_def filter_empty_conv list_ex_iff)
  show ?thesis
  proof (cases "live_entitlement ?e db w key")
    case (Some row)
    then have "res = Inl row" "db' = db" using assms(1) by (simp_all add: grant_entitlement_def)
    then show ?thesis using lv Some by simp
  next
    case None
    obtain row db1 where g: "grant ?e db w key months None reason = (row, db1)" by fastforce
    obtain x db2 where rs: "resume_if_paused E db1 w key user = (x, db2)" by fastforce
    have res: "res = Inr (row, x)" "db' = db2" using assms(1) None g rs by (simp_all add: grant_entitlement_def)
    have db1: "entitlements db1 = entitlements db @ [row]" "ext_records db1 = ext_records db"
      using g by (auto simp: grant_def Let_def forget_read_only_def)
    have ok1: "ext_ok db1" using assms(2) db1(2) by (simp add: ext_ok_def)
    have "case months of Some n \<Rightarrow> 0 \<le> n | None \<Rightarrow> True" using assms(5) by (auto split: option.splits)
    then have ent1: "is_entitled ?e db1 (Some w) key" using grant_unlocks [OF g] by blast
    show ?thesis
    proof (cases "\<exists>r1. x = Resumed (xr_status r1) \<and> activate ?e (ce_registry E) (ce_check E) db1 w key user None ACTIVATION_SYSTEM = Inr (r1, db2)")
      case False
      then have "db2 = db1 \<and> (\<forall>st. x \<noteq> Resumed st)" using rs
        by (auto simp: resume_if_paused_def split: if_splits option.splits sum.splits prod.splits ext_error.splits)
      moreover have "held_back (ce_registry E) (ce_check E) db2 w key"
        if p: "record_of db w key = Some r" "xr_status r = Ext_Paused" "xr_reason r = PAUSED_REASON" "key \<noteq> KEY_BASE_PLAN" for r
      proof -
        have r: "record_of db1 w key = Some r" using p(1) record_of_cong [OF db1(2)] by simp
        obtain err where err: "activate ?e (ce_registry E) (ce_check E) db1 w key user None ACTIVATION_SYSTEM = Inl err"
          using False rs r p(2-4)
          by (cases "activate ?e (ce_registry E) (ce_check E) db1 w key user None ACTIVATION_SYSTEM") (auto simp: resume_if_paused_def)
        have "\<forall>m. get_manifest (ce_registry E) key = Some m \<longrightarrow> ext_entitled (ce_check E) db1 w m = Inr True"
          using ent1 get_manifest_Some by (auto simp: assms(3) ext_entitled_def entitlement_check_def)
        from activate_held_back [OF err r p(2) this] calculation show ?thesis by simp
      qed
      ultimately show ?thesis using None lv ent1 db1(1) by (simp add: res)
    next
      case True
      then obtain r1 where r1: "x = Resumed (xr_status r1)"
        "activate ?e (ce_registry E) (ce_check E) db1 w key user None ACTIVATION_SYSTEM = Inr (r1, db2)" by blast
      from rs r1(1) obtain r where r: "record_of db1 w key = Some r" "xr_status r = Ext_Paused" "xr_reason r = PAUSED_REASON"
        by (auto simp: resume_if_paused_def split: if_splits option.splits)
      from r1(2) obtain m where m: "require_manageable (ce_registry E) key ACTIVATION_SYSTEM = Inr m"
        by (auto simp: activate_def bind_r_Inr)
      have qm: "quiet (on_activate m)" using m assms(4) get_manifest_Some [of "ce_registry E" key m]
        by (simp add: require_manageable_Inr hooks_quiet_def)
      have off: "key \<notin> set (active_keys db1 w)" using r by (simp add: active_keys_iff [OF ok1])
      note av = platform_backend.activate_available [OF r1(2) [unfolded assms(3)] m ok1 qm off, of e']
      from r1(2) m ok1 qm have "entitlements db2 = entitlements db1 \<and> record_of db2 w key = Some r1 \<and> xr_config r1 = xr_config r"
      proof (cases rule: activate_cases)
        case already
        then show ?thesis using r by simp
      next
        case (switched r0 db0)
        note rec = switched_records [OF switched(1) ok1 switched(5-8)]
        note sp = ensure_record_spec [OF switched(1) ok1]
        have r0: "r0 = r" "db0 = db1" using sp(7) r(1) by auto
        have "xr_config r1 = xr_config r0"
          using r1(2) m switched(1-3) switch_on_Inr [of "ce_registry E" db0 w key user False m "xr_status r0" "activated ?e user None r0" r1 db2] qm
          by (simp add: activate_def activated_def)
        then show ?thesis using rec(2) [of w key] switched(9) r0 by simp
      qed
      moreover have "x = Resumed Ext_Active" using av r1(1) by simp
      ultimately show ?thesis using None lv ent1 db1 r av r1 record_of_cong [OF db1(2)]
        by (simp add: res assms(3) is_entitled_def entitled_at_def)
    qed
  qed
qed

subsection \<open>What the calls do not exclude\<close>

lemma set_active_sets: "is_workspace W w \<Longrightarrow> is_active (set_active w b W) w = b"
proof -
  have "workspace_by_id (cw_db (set_active w b W)) w = map_option (\<lambda>v. v\<lparr>ws_active := b\<rparr>) (workspace_by_id (cw_db W) w)"
  proof -
    have "first (filter (\<lambda>v. ws_id v = w) (update_where (\<lambda>v. ws_id v = w) (\<lambda>v. v\<lparr>ws_active := b\<rparr>) vs))
        = map_option (\<lambda>v. v\<lparr>ws_active := b\<rparr>) (first (filter (\<lambda>v. ws_id v = w) vs))" for vs
      by (induction vs) (auto simp: update_where_def)
    then show ?thesis by (simp add: workspace_by_id_def set_active_def)
  qed
  then show "is_workspace W w \<Longrightarrow> is_active (set_active w b W) w = b" by (auto simp: is_active_def is_workspace_def)
qed

text \<open>Cancelling a deletion resumes the workspace also when it had been suspended before.\<close>

lemma restore_lifts_a_suspension:
  assumes "profile_of (cw_db W) w = Some p" "suspended_at (marks_of W w) = Some t" "scheduled_deletion_at (marks_of W w) = Some d"
    and "is_workspace W w" "do_restore E w q reason r W = (out, W')"
  shows "is_active W' w \<and> marks_of W' w = no_marks"
proof -
  let ?W = "set_marks w (\<lambda>m. m\<lparr>scheduled_deletion_at := None\<rparr>) (resume_workspace E w (cq_user q) W)"
  have "cw_db W' = cw_db ?W \<and> cw_marks W' = cw_marks ?W" using assms(3,5) by (auto simp: do_restore_def Let_def)
  moreover have "cw_marks ?W = (cw_marks W)(pf_id p := (cw_marks W (pf_id p))\<lparr>suspended_at := None, scheduled_deletion_at := None\<rparr>)"
    using assms(1) by (simp add: set_marks_def resume_workspace_def add_operation_def set_active_def profile_of_def)
  moreover have "profile_of (cw_db ?W) w = Some p" using assms(1)
    by (simp add: resume_workspace_def set_active_def profile_of_def)
  moreover have "is_active ?W w" using assms(4)
    using set_active_sets [of W w True] by (simp add: is_active_def resume_workspace_def)
  ultimately show ?thesis by (simp add: is_active_def marks_of_def no_marks_def)
qed

text \<open>Resuming a workspace whose deletion is scheduled leaves the deadline: it is active, and due to go.\<close>

lemma resume_keeps_the_deadline:
  assumes "profile_of (cw_db W) w = Some p" "scheduled_deletion_at (marks_of W w) = Some d" "is_workspace W w"
    and "do_lifecycle E Resume w q reason r W = (out, W')"
  shows "is_active W' w \<and> scheduled_deletion_at (marks_of W' w) = Some d"
proof -
  let ?W = "resume_workspace E w (cq_user q) W"
  have "cw_db W' = cw_db ?W \<and> cw_marks W' = cw_marks ?W" using assms(4) by (auto simp: do_lifecycle_def Let_def operate_def)
  moreover have "cw_marks ?W = (cw_marks W)(pf_id p := (cw_marks W (pf_id p))\<lparr>suspended_at := None\<rparr>)"
    using assms(1) by (simp add: set_marks_def resume_workspace_def add_operation_def set_active_def profile_of_def)
  moreover have "profile_of (cw_db ?W) w = Some p" using assms(1)
    by (simp add: resume_workspace_def set_active_def profile_of_def)
  moreover have "is_active ?W w" using set_active_sets [of W w True] assms(3) by (simp add: is_active_def resume_workspace_def)
  ultimately show ?thesis using assms(1,2) by (simp add: is_active_def marks_of_def)
qed

text \<open>
  The ledger compares payloads after redaction: a request repeated under its key with another
  password, token or URL with credentials is taken for the same one, and answered as done.
\<close>

lemma a_corrected_secret_is_replayed:
  "claim_action sha acs q act ttype tid (tampered f payload) = claim_action sha acs q act ttype tid payload"
  by (simp add: claim_action_def payload_hash_def redact_tampered)

text \<open>A key that is just \<open>token\<close> is not among those that are redacted.\<close>

lemma token_is_not_redacted:
  "redact_control_value (V_Dict [(''token'', V_Text ''abc''), (''access_token'', V_Text ''abc'')])
     = V_Dict [(''token'', V_Text ''abc''), (''access_token'', V_Text ''[redacted]'')]"
  by code_simp

end
