(* ===== verification/Witnesses_Services.thy ===== *)
theory Witnesses_Services
  imports Samples_Buying Control_Laws
begin

text \<open>Each property of plan packs and of the control plane with hypotheses, applied to the sample deployment.\<close>

subsection \<open>Plan packs\<close>

lemma registry_hooks: "hooks_quiet registry" "tidy_hooks registry"
  by (auto simp: hooks_quiet_def tidy_hooks_def registry_def addon_def quiet_def)

lemma registry_finds: "get_manifest registry ''blog'' = Some (addon ''blog'')" "get_manifest registry ''shop'' = Some (addon ''shop'')"
  by (simp_all add: get_manifest_def registry_def addon_def)

lemma registry_manageable: "manageable_keys registry [''blog'', ''shop'']"
  by (simp add: manageable_keys_def require_manageable_Inr registry_finds)
    (simp add: addon_def can_manage_def can_discover_def is_activatable_def manifest_constants)

definition starter :: packs_settings where
  "starter = \<lparr>plan_packs = Some (Mapping [(''starter'', Some (empty_pack\<lparr>rp_extensions := [''blog'', ''shop'', ''gone'']\<rparr>))]),
     packs_file = [], read_json = (\<lambda>_. None), import_name = (\<lambda>_. None)\<rparr>"

lemma starter_pack: "get_pack starter registry ''starter''
    = Some (as_pack registry ''starter'' (empty_pack\<lparr>rp_extensions := [''blog'', ''shop'', ''gone'']\<rparr>))"
  by (simp add: get_pack_def configured_packs_def starter_def given_packs_def called_def mapping_of_def)

lemma starter_keys: "pk_extensions (as_pack registry ''starter'' (empty_pack\<lparr>rp_extensions := [''blog'', ''shop'', ''gone'']\<rparr>)) = [''blog'', ''shop'']"
  by (simp add: as_pack_def registry_finds) (simp add: get_manifest_def registry_def addon_def)

lemma db0_ext_ok: "ext_ok db0"
  by (simp add: ext_ok_def)

lemma pack_only_switches_on_witness:
  "\<exists>res db'. apply_pack env0 starter registry (Some (entitlement_check env0)) (Some (platform_obtain env0 registry (Some (entitlement_check env0))))
      db0 2 ''starter'' None = (res, db') \<and> set (active_keys db0 2) \<subseteq> set (active_keys db' 2)"
proof -
  let ?check = "Some (entitlement_check env0)"
  let ?get = "Some (platform_obtain env0 registry ?check)"
  obtain res db' where r: "apply_pack env0 starter registry ?check ?get db0 2 ''starter'' None = (res, db')" by fastforce
  have "?get \<in> {None, Some (platform_obtain env0 registry ?check)}" by simp
  from pack_only_switches_on [OF r this registry_hooks(1) db0_ext_ok starter_pack] r show ?thesis
    unfolding starter_keys using registry_manageable by auto
qed

definition both_on :: platform_db where
  "both_on = db0\<lparr>ext_records := [blog_record, blog_record\<lparr>xr_id := 2, xr_key := ''shop''\<rparr>]\<rparr>"

lemma pack_applied_once_witness:
  "apply_pack env0 starter registry None None both_on 2 ''starter'' (Some 7)
     = (Inr [(''blog'', Already_On), (''shop'', Already_On)], both_on)"
proof -
  have on: "active_keys both_on 2 = [''blog'', ''shop'']" by (simp add: both_on_def active_keys_def blog_record_def)
  have r: "apply_pack env0 starter registry None None both_on 2 ''starter'' None
      = (Inr [(''blog'', Already_On), (''shop'', Already_On)], both_on)"
    by (simp add: apply_pack_def starter_pack starter_keys on apply_key_def)
  have ok: "ext_ok both_on" by (simp add: both_on_def ext_ok_def blog_record_def)
  show ?thesis
    using pack_applied_once [OF r _ registry_hooks(1) ok starter_pack] registry_manageable
    unfolding starter_keys by simp
qed

subsection \<open>The control plane\<close>

definition control0 :: control_env where
  "control0 = \<lparr>ce_env = env0, ce_registry = registry, ce_check = Some (entitlement_check env0), ce_sha = (\<lambda>_. ''digest''),
     ce_outside = (\<lambda>_ _. [])\<rparr>"

definition ask0 :: control_request where
  "ask0 = \<lparr>cq_user = 1, cq_confirm = True, cq_reason = ''late payment'', cq_reason_header = [], cq_key = ''suspend-acme'',
     cq_forwarded = [], cq_remote = Some ''10.0.0.1'', cq_id = None\<rparr>"

definition world0 :: control_world where
  "world0 = \<lparr>cw_db = db0, cw_marks = (\<lambda>_. no_marks), cw_operations = [], cw_ledger = [], cw_audit = []\<rparr>"

lemma world0_ok: "ledger_ok (cw_ledger world0)" "well_marked world0"
  by (simp_all add: world0_def ledger_ok_def well_marked_def)

lemma ask0_passes: "require_confirmation ask0 = Inr ()" "require_reason ask0 = Inr ''late payment''" "key_of ask0 = Inr ''suspend-acme''"
  by code_simp+

lemma suspending_answers: "\<exists>body W'. do_lifecycle E kind w q reason r W = (Answer 200 body, W')"
  by (simp add: do_lifecycle_def Let_def)

lemma suspended0: "\<exists>body W. control control0 ask0 (Lifecycle Suspend 2) world0 = (Answer 200 body, W)"
  by (simp add: control_def not_refused_def ask0_passes is_workspace_def with_claim_def claim_action_def Let_def)
    (simp add: world0_def workspace_by_id_def action_of_def Let_def suspending_answers)

lemma retry_is_replayed_witness:
  "\<exists>body W. control control0 ask0 (Lifecycle Suspend 2) world0 = (Answer 200 body, W) \<and>
     control control0 ask0 (Lifecycle Suspend 2) (served [(control0, ask0\<lparr>cq_key := ''resume-acme''\<rparr>, Lifecycle Resume 2)] W)
       = (Replay 200 (redact_control_value body), served [(control0, ask0\<lparr>cq_key := ''resume-acme''\<rparr>, Lifecycle Resume 2)] W)"
proof -
  obtain body W where c: "control control0 ask0 (Lifecycle Suspend 2) world0 = (Answer 200 body, W)" using suspended0 by blast
  have t: "tidy_hooks (ce_registry control0)" by (simp add: control0_def registry_hooks)
  then have "\<forall>x \<in> set [(control0, ask0\<lparr>cq_key := ''resume-acme''\<rparr>, Lifecycle Resume 2)]. tidy_hooks (ce_registry (fst x))" by simp
  from retry_is_replayed [OF c world0_ok(1) t this refl refl] c show ?thesis by blast
qed

lemma suspending_shows: "do_lifecycle E Suspend w q reason r W = (out, W') \<Longrightarrow> cw_operations W' \<noteq> cw_operations W"
  by (auto simp: do_lifecycle_def operate_def suspend_workspace_def add_operation_def set_active_def Let_def)

lemma suspended_shows:
  assumes "control control0 ask0 (Lifecycle Suspend 2) world0 = (out, W)"
  shows "cw_operations W \<noteq> cw_operations world0"
proof -
  obtain r acs where "do_lifecycle control0 Suspend 2 ask0 ''late payment'' r (world0\<lparr>cw_ledger := acs\<rparr>) = (out, W)"
    using assms by (auto simp: control_def not_refused_def ask0_passes is_workspace_def with_claim_def claim_action_def Let_def
        world0_def workspace_by_id_def action_of_def)
  from suspending_shows [OF this] show ?thesis by simp
qed

lemma no_change_unaudited_witness:
  "\<exists>out W ev. control control0 ask0 (Lifecycle Suspend 2) world0 = (out, W) \<and> cw_audit W = cw_audit world0 @ [ev] \<and>
     ev_actor ev = 1 \<and> ev_reason ev = ''late payment'' \<and> no_credentials (ev_before ev) \<and> no_credentials (ev_after ev)"
proof -
  obtain out W where c: "control control0 ask0 (Lifecycle Suspend 2) world0 = (out, W)" by fastforce
  have "cq_user ask0 = 1" by (simp add: ask0_def)
  with no_change_unaudited [OF c world0_ok] c suspended_shows [OF c] show ?thesis by (auto simp: ask0_passes unchanged_def)
qed

definition lapsed_db :: platform_db where
  "lapsed_db = db0\<lparr>entitlements := [], ext_records := [paused noon blog_record]\<rparr>"

lemma blog_not_held_back: "\<not> held_back registry chk db w ''blog''"
  by (auto simp: held_back_def registry_finds addon_def can_manage_def can_discover_def is_activatable_def manifest_constants strip_def)

lemma lapsed_record: "record_of lapsed_db 2 ''blog'' = Some (paused noon blog_record)"
  by (simp add: record_of_def lapsed_db_def paused_def blog_record_def)

lemma grant_brings_back_witness:
  "\<exists>row db'. grant_entitlement control0 lapsed_db 2 ''blog'' (Some 1) ''goodwill'' None = (Inr (row, Resumed Ext_Active), db') \<and>
     is_entitled env0 db' (Some 2) ''blog'' \<and> fst (is_available env0 registry (Some (entitlement_check env0)) db' (Some 2) ''blog'')"
proof -
  obtain res db' where g: "grant_entitlement control0 lapsed_db 2 ''blog'' (Some 1) ''goodwill'' None = (res, db')" by fastforce
  have "ext_ok lapsed_db" "ce_check control0 = Some (entitlement_check (ce_env control0))" "hooks_quiet (ce_registry control0)"
    by (simp_all add: ext_ok_def lapsed_db_def control0_def registry_hooks)
  note gb = grant_brings_back [OF g this, of env0]
  have c: "ce_env control0 = env0" "ce_registry control0 = registry" "ce_check control0 = Some (entitlement_check env0)"
    by (simp_all add: control0_def)
  have paused: "xr_status (paused noon blog_record) = Ext_Paused" "xr_reason (paused noon blog_record) = PAUSED_REASON" "''blog'' \<noteq> KEY_BASE_PLAN"
    by (simp_all add: paused_def KEY_BASE_PLAN_def)
  show ?thesis
  proof (cases res)
    case (Inl row)
    then have "is_entitled env0 lapsed_db (Some 2) ''blog''" using gb [unfolded Inl c sum.case] by blast
    then show ?thesis by (simp add: is_entitled_def entitled_at_def lapsed_db_def)
  next
    case (Inr y)
    obtain row x where y: "y = (row, x)" by fastforce
    note gb = gb [unfolded Inr y c sum.case prod.case]
    have x: "x = Resumed Ext_Active" using gb lapsed_record paused blog_not_held_back by blast
    have "is_entitled env0 db' (Some 2) ''blog'' \<and> fst (is_available env0 registry (Some (entitlement_check env0)) db' (Some 2) ''blog'')"
      using gb x by blast
    then show ?thesis using g [unfolded Inr y x] by blast
  qed
qed

end
