(* ===== verification/Url.thy ===== *)
theory Url
  imports Text
begin

text \<open>
  What the program uses of \<open>urllib.parse\<close> and \<open>ipaddress\<close> (Python 3.12), on strings of U+0000 to
  U+00FF: \<open>urlsplit\<close> with the attributes of its answer, the text of an IP address, and \<open>int\<close> of a text.
  A call that raises \<open>ValueError\<close> is \<open>None\<close>. On these characters the NFKC check of \<open>urlsplit\<close>
  never refuses, so it is left out.
\<close>

subsection \<open>Characters\<close>

definition ascii :: "char \<Rightarrow> bool" where
  "ascii c \<longleftrightarrow> (of_char c :: nat) < 128"

text \<open>\<open>lower\<close> with the capital letters of Latin-1.\<close>

definition lowercase_of :: "char \<Rightarrow> char" where
  "lowercase_of c = (let n = (of_char c :: nat) in
     if 65 \<le> n \<and> n \<le> 90 \<or> 192 \<le> n \<and> n \<le> 222 \<and> n \<noteq> 215 then char_of (n + 32) else c)"

definition lowercase :: "string \<Rightarrow> string" where
  "lowercase = map lowercase_of"

definition hex_digit :: "char \<Rightarrow> bool" where
  "hex_digit c \<longleftrightarrow> ascii_digit c \<or> c \<in> set ''abcdefABCDEF''"

text \<open>The part before the first separator: \<open>s.split(sep)[0]\<close>.\<close>

definition before :: "char \<Rightarrow> string \<Rightarrow> string" where
  "before sep s = takeWhile (\<lambda>c. c \<noteq> sep) s"

subsection \<open>Integers\<close>

text \<open>
  \<open>int(s)\<close>: blanks around (those of C, U+0085 and U+00A0), a sign, and digits with single
  underscores between them, at most 4300 of them.
\<close>

definition int_blank :: "char \<Rightarrow> bool" where
  "int_blank c \<longleftrightarrow> (of_char c :: nat) \<in> {9, 10, 11, 12, 13, 32, 133, 160}"

definition int_strip :: "string \<Rightarrow> string" where
  "int_strip s = rev (dropWhile int_blank (rev (dropWhile int_blank s)))"

definition int_digits :: "string \<Rightarrow> nat option" where
  "int_digits s = (let groups = split_on CHR ''_'' s; ds = concat groups in
     if [] \<in> set groups \<or> 4300 < length ds then None else int_of ds)"

definition python_int :: "string \<Rightarrow> int option" where
  "python_int s = (case int_strip s of [] \<Rightarrow> None
     | c # r \<Rightarrow> if c = CHR ''-'' then map_option (\<lambda>n. - int n) (int_digits r)
         else if c = CHR ''+'' then map_option int (int_digits r)
         else map_option int (int_digits (c # r)))"

subsection \<open>IP addresses\<close>

definition octet :: "string \<Rightarrow> bool" where
  "octet s \<longleftrightarrow> s \<noteq> [] \<and> list_all ascii_digit s \<and> length s \<le> 3 \<and> \<not> (s \<noteq> ''0'' \<and> hd s = CHR ''0'') \<and>
     (case int_of s of Some n \<Rightarrow> n \<le> 255 | None \<Rightarrow> False)"

definition ipv4_text :: "string \<Rightarrow> bool" where
  "ipv4_text s \<longleftrightarrow> (let os = split_on CHR ''.'' s in length os = 4 \<and> list_all octet os)"

definition hextet :: "string \<Rightarrow> bool" where
  "hextet s \<longleftrightarrow> s \<noteq> [] \<and> list_all hex_digit s \<and> length s \<le> 4"

text \<open>The parts between colons; a final IPv4 part counts as two hextets.\<close>

definition ipv6_parts :: "string \<Rightarrow> string list option" where
  "ipv6_parts s = (let ps = split_on CHR '':'' s in
     if length ps < 3 then None
     else if CHR ''.'' \<in> set (last ps) then (if ipv4_text (last ps) then Some (butlast ps @ [''0'', ''0'']) else None)
     else Some ps)"

definition ipv6_groups :: "string list \<Rightarrow> bool" where
  "ipv6_groups ps \<longleftrightarrow> length ps \<le> 9 \<and> (case filter (\<lambda>i. ps ! i = []) [1..<length ps - 1] of
       [] \<Rightarrow> length ps = 8 \<and> list_all hextet ps
     | [i] \<Rightarrow> (let hi = (if hd ps = [] then i - 1 else i); rest = length ps - i - 1; lo = (if last ps = [] then rest - 1 else rest) in
         (hd ps = [] \<longrightarrow> hi = 0) \<and> (last ps = [] \<longrightarrow> lo = 0) \<and> hi + lo < 8 \<and>
         list_all hextet (take hi ps) \<and> list_all hextet (drop (length ps - lo) ps))
     | _ \<Rightarrow> False)"

definition ipv6_text :: "string \<Rightarrow> bool" where
  "ipv6_text s \<longleftrightarrow> CHR ''/'' \<notin> set s \<and> (let (addr, scoped, scope) = partition CHR ''%'' s in
     (scoped \<longrightarrow> scope \<noteq> [] \<and> CHR ''%'' \<notin> set scope) \<and> addr \<noteq> [] \<and>
     (case ipv6_parts addr of Some ps \<Rightarrow> ipv6_groups ps | None \<Rightarrow> False))"

text \<open>\<open>ip_address(s)\<close> does not raise.\<close>

definition ip_text :: "string \<Rightarrow> bool" where
  "ip_text s \<longleftrightarrow> ipv4_text s \<or> ipv6_text s"

subsection \<open>Splitting a URL\<close>

record url =
  u_scheme :: string
  u_netloc :: string
  u_path :: string
  u_query :: string
  u_fragment :: string

text \<open>\<open>_check_bracketed_netloc\<close>: what is in brackets is an IPv6 or a later kind of address.\<close>

definition future_ip :: "string \<Rightarrow> bool" where
  "future_ip s \<longleftrightarrow> (let (v, dot, r) = partition CHR ''.'' s in
     dot \<and> r \<noteq> [] \<and> hd v = CHR ''v'' \<and> tl v \<noteq> [] \<and> list_all hex_digit (tl v))"

definition bracketed_host_ok :: "string \<Rightarrow> bool" where
  "bracketed_host_ok s \<longleftrightarrow> (if startswith ''v'' s then future_ip s else ipv6_text s)"

definition bracketed_ok :: "string \<Rightarrow> bool" where
  "bracketed_ok netloc = (let (_, _, host_port) = rpartition CHR ''@'' netloc;
       (prefix, opened, bracketed) = partition CHR ''['' host_port in
     if opened then prefix = [] \<and> (let (host, _, port) = partition CHR '']'' bracketed in
         (port = [] \<or> hd port = CHR '':'') \<and> bracketed_host_ok host)
     else bracketed_host_ok (fst (partition CHR '':'' host_port)))"

definition netloc_ok :: "string \<Rightarrow> bool" where
  "netloc_ok netloc \<longleftrightarrow> (CHR ''['' \<in> set netloc \<longleftrightarrow> CHR '']'' \<in> set netloc) \<and>
     (CHR ''['' \<in> set netloc \<longrightarrow> bracketed_ok netloc)"

definition scheme_char :: "char \<Rightarrow> bool" where
  "scheme_char c \<longleftrightarrow> lower_letter c \<or> upper_letter c \<or> ascii_digit c \<or> c \<in> set ''+-.''"

text \<open>The leading control characters and blanks, and every tab and line end, are dropped.\<close>

definition cleaned :: "string \<Rightarrow> string" where
  "cleaned s = filter (\<lambda>c. (of_char c :: nat) \<notin> {9, 10, 13}) (dropWhile (\<lambda>c. (of_char c :: nat) \<le> 32) s)"

definition split_scheme :: "string \<Rightarrow> string \<times> string" where
  "split_scheme s = (let (a, colon, b) = partition CHR '':'' s in
     if colon \<and> a \<noteq> [] \<and> (lower_letter (hd a) \<or> upper_letter (hd a)) \<and> list_all scheme_char a
     then (lowercase a, b) else ([], s))"

definition split_netloc :: "string \<Rightarrow> string \<times> string" where
  "split_netloc s = (if startswith ''//'' s
     then (takeWhile (\<lambda>c. c \<notin> set ''/?#'') (drop 2 s), dropWhile (\<lambda>c. c \<notin> set ''/?#'') (drop 2 s)) else ([], s))"

definition urlsplit :: "string \<Rightarrow> url option" where
  "urlsplit s = (let (sch, r) = split_scheme (cleaned s); (net, r) = split_netloc r in
     if \<not> netloc_ok net then None
     else let (r, _, frag) = partition CHR ''#'' r; (pth, _, qry) = partition CHR ''?'' r in
       Some \<lparr>u_scheme = sch, u_netloc = net, u_path = pth, u_query = qry, u_fragment = frag\<rparr>)"

subsection \<open>The attributes of the answer\<close>

definition url_userinfo :: "url \<Rightarrow> string option \<times> string option" where
  "url_userinfo u = (let (info, have, _) = rpartition CHR ''@'' (u_netloc u) in
     if \<not> have then (None, None)
     else let (user, given, password) = partition CHR '':'' info in (Some user, if given then Some password else None))"

definition url_hostinfo :: "url \<Rightarrow> string \<times> string" where
  "url_hostinfo u = (let (_, _, info) = rpartition CHR ''@'' (u_netloc u); (_, opened, bracketed) = partition CHR ''['' info in
     if opened then (let (host, _, r) = partition CHR '']'' bracketed in (host, snd (snd (partition CHR '':'' r))))
     else (let (host, _, port) = partition CHR '':'' info in (host, port)))"

definition url_hostname :: "url \<Rightarrow> string option" where
  "url_hostname u = (let (host, percent, zone) = partition CHR ''%'' (fst (url_hostinfo u)) in
     if fst (url_hostinfo u) = [] then None else Some (lowercase host @ (if percent then CHR ''%'' # zone else [])))"

text \<open>The port, absent or a number; \<open>None\<close> where reading it raises.\<close>

definition url_port :: "url \<Rightarrow> nat option option" where
  "url_port u = (let p = snd (url_hostinfo u) in if p = [] then Some None
     else case int_of p of Some n \<Rightarrow> if length p \<le> 4300 \<and> n \<le> 65535 then Some (Some n) else None | None \<Rightarrow> None)"

end
