(* ===== verification/Tenancy_Data.thy ===== *)
theory Tenancy_Data
  imports Entitlements Url
begin

text \<open>
  The rows by which a request finds its workspace and its rights: hostnames
  (\<open>common/models/workspace_domain.py\<close>), users and staff (\<open>common/models/core.py\<close>, \<open>staff.py\<close>), the
  standing of customers, API keys (\<open>api_key.py\<close>), and what the cache keeps of them. The workspaces and
  their entitlements are those of \<^typ>\<open>platform_db\<close>.
\<close>

datatype domain_kind = System_Default | Custom
datatype verification = Unverified | Verified | Verification_Failed
datatype ssl_status = Ssl_None | Ssl_Pending | Ssl_Active | Ssl_Failed

record domain_row =
  dn_id :: nat
  dn_workspace :: nat
  dn_hostname :: string
  dn_kind :: domain_kind
  dn_verification :: verification
  dn_ssl :: ssl_status
  dn_primary :: bool

record user_row =
  us_id :: nat
  us_email :: string
  us_active :: bool
  us_superuser :: bool

text \<open>A value of a role's permission JSON: a flag, a list of actions, or something else.\<close>

datatype perm_value = Every bool | Actions "string list" | Odd_Value

type_synonym permissions = "(string \<times> perm_value) list"

record staff_role =
  ro_id :: nat
  ro_workspace :: nat
  ro_code :: string
  ro_name :: string
  ro_description :: string
  ro_permissions :: permissions
  ro_defaults :: permissions
  ro_owner_module :: string
  ro_system :: bool
  ro_active :: bool

record staff_member =
  sm_id :: nat
  sm_workspace :: nat
  sm_user :: nat
  sm_role :: nat
  sm_active :: bool

record shopper =
  sh_workspace :: nat
  sh_user :: nat
  sh_active :: bool

record api_key =
  ak_id :: nat
  ak_workspace :: nat
  ak_prefix :: string
  ak_secret_hash :: string
  ak_active :: bool
  ak_created_by :: "nat option"
  ak_expires_at :: "moment option"
  ak_last_used :: "moment option"

text \<open>
  A cached workspace is the row as it was. \<open>cache.set(key, None)\<close> keeps an entry that \<open>get\<close> cannot
  tell from none.
\<close>

datatype kept = Kept_Workspace workspace | Kept_Access bool bool | Kept_Url string | Kept_None

type_synonym tenant_cache = "string \<Rightarrow> (kept \<times> moment) option"

record tenant_db =
  tn_base :: platform_db
  tn_domains :: "domain_row list"
  tn_users :: "user_row list"
  tn_roles :: "staff_role list"
  tn_staff :: "staff_member list"
  tn_shoppers :: "shopper list"
  tn_keys :: "api_key list"
  tn_cache :: tenant_cache

definition kept_get :: "moment \<Rightarrow> string \<Rightarrow> tenant_cache \<Rightarrow> kept option" where
  "kept_get t k c = (case c k of Some (v, expiry) \<Rightarrow> if t < expiry \<and> v \<noteq> Kept_None then Some v else None | None \<Rightarrow> None)"

definition keep :: "env \<Rightarrow> string \<Rightarrow> kept \<Rightarrow> tenant_db \<Rightarrow> tenant_db" where
  "keep e k v db = db\<lparr>tn_cache := (tn_cache db)(k \<mapsto> (v, now e + seconds_delta (cache_ttl e)))\<rparr>"

definition unkeep :: "string \<Rightarrow> tenant_db \<Rightarrow> tenant_db" where
  "unkeep k db = db\<lparr>tn_cache := (tn_cache db)(k := None)\<rparr>"

definition tenant_by_id :: "tenant_db \<Rightarrow> nat \<Rightarrow> workspace option" where
  "tenant_by_id db w = workspace_by_id (tn_base db) w"

lemma keep_simps [simp]:
  "tn_base (keep e k v db) = tn_base db" "tn_domains (keep e k v db) = tn_domains db" "tn_users (keep e k v db) = tn_users db"
  "tn_roles (keep e k v db) = tn_roles db" "tn_staff (keep e k v db) = tn_staff db" "tn_shoppers (keep e k v db) = tn_shoppers db"
  "tn_keys (keep e k v db) = tn_keys db" "tn_base (unkeep k db) = tn_base db" "tn_domains (unkeep k db) = tn_domains db"
  "tn_users (unkeep k db) = tn_users db" "tn_roles (unkeep k db) = tn_roles db" "tn_staff (unkeep k db) = tn_staff db"
  "tn_shoppers (unkeep k db) = tn_shoppers db" "tn_keys (unkeep k db) = tn_keys db"
  by (simp_all add: keep_def unkeep_def)

lemma kept_get_keep: "kept_get t j (tn_cache (keep e k v db)) =
    (if j = k then (if t < now e + seconds_delta (cache_ttl e) \<and> v \<noteq> Kept_None then Some v else None) else kept_get t j (tn_cache db))"
  by (simp add: kept_get_def keep_def)

lemma kept_get_unkeep [simp]: "kept_get t j (tn_cache (unkeep k db)) = (if j = k then None else kept_get t j (tn_cache db))"
  by (simp add: kept_get_def unkeep_def)

subsection \<open>Cache keys\<close>

definition workspace_key :: "nat \<Rightarrow> string" where
  "workspace_key w = ''workspace:id:'' @ show_nat w"

definition base_url_key :: "nat \<Rightarrow> string" where
  "base_url_key w = ''workspace:frontend-base-url:'' @ show_nat w"

definition access_key :: "nat \<Rightarrow> nat \<Rightarrow> string" where
  "access_key u w = ''user_ws_access:'' @ show_nat u @ '':'' @ show_nat w"

definition domain_key_of :: "string \<Rightarrow> string" where
  "domain_key_of host = ''workspace:domain:'' @ host"

lemma colon_no_digit [simp]: "CHR '':'' \<notin> set (show_nat n)"
  by (rule show_nat_no) (simp add: ascii_digit_def)

lemma access_key_inject [simp]: "access_key u w = access_key u' w' \<longleftrightarrow> u = u' \<and> w = w'"
proof -
  have "u = u' \<and> w = w'" if "access_key u w = access_key u' w'"
  proof -
    have "show_nat u @ CHR '':'' # show_nat w = show_nat u' @ CHR '':'' # show_nat w'"
      using that by (simp add: access_key_def)
    then have "partition CHR '':'' (show_nat u @ CHR '':'' # show_nat w) = partition CHR '':'' (show_nat u' @ CHR '':'' # show_nat w')"
      by simp
    then show ?thesis by (simp add: partition_append)
  qed
  then show ?thesis by blast
qed

lemma key_neqs [simp]:
  "workspace_key w = workspace_key v \<longleftrightarrow> w = v" "base_url_key w = base_url_key v \<longleftrightarrow> w = v"
  "domain_key_of h = domain_key_of g \<longleftrightarrow> h = g"
  "workspace_key w \<noteq> base_url_key v" "base_url_key v \<noteq> workspace_key w" "workspace_key w \<noteq> access_key u v" "access_key u v \<noteq> workspace_key w"
  "workspace_key w \<noteq> domain_key_of h" "domain_key_of h \<noteq> workspace_key w" "base_url_key w \<noteq> access_key u v" "access_key u v \<noteq> base_url_key w"
  "base_url_key w \<noteq> domain_key_of h" "domain_key_of h \<noteq> base_url_key w" "access_key u v \<noteq> domain_key_of h" "domain_key_of h \<noteq> access_key u v"
  by (simp_all add: workspace_key_def base_url_key_def domain_key_of_def access_key_def)

end
