(* ===== verification/Domains.thy ===== *)
theory Domains
  imports Tenancy_Data
begin

text \<open>
  The hostnames of a workspace (\<open>common/models/workspace_domain.py\<close>): how a hostname is written, saving
  and deleting a row, the hostname every workspace gets from its cluster, custom hostnames, the public
  address of a workspace, and what the signal handlers of \<open>common/signals.py\<close> drop from the cache.
\<close>

subsection \<open>Hostnames\<close>

text \<open>\<open>normalize_hostname\<close>; \<open>None\<close> where \<open>urlparse\<close> raises \<open>ValueError\<close>.\<close>

definition normalize_hostname :: "string \<Rightarrow> string option" where
  "normalize_hostname value = (let raw = lowercase (strip value) in
     if raw = [] then Some []
     else map_option (\<lambda>u. let host = or_else (or_else (u_netloc u) (u_path u)) raw;
           host = lowercase (strip (before CHR '':'' (before CHR ''/'' host))) in
         if startswith ''www.'' host then drop 4 host else host)
       (urlsplit (if contains ''://'' raw then raw else ''//'' @ raw)))"

definition domain_key :: "string \<Rightarrow> string option" where
  "domain_key host = map_option domain_key_of (normalize_hostname host)"

subsection \<open>Dropping what is cached\<close>

text \<open>
  \<open>invalidate_workspace_cache\<close>: the hostnames the workspace has, its row and its address. A hostname
  of a row was normalized when it was saved; one that cannot be normalized again raises.
\<close>

definition hostnames_of :: "tenant_db \<Rightarrow> nat \<Rightarrow> string list" where
  "hostnames_of db w = filter (\<lambda>h. h \<noteq> []) (map dn_hostname (filter (\<lambda>d. dn_workspace d = w) (tn_domains db)))"

datatype domain_error = Bad_Url | Invalid_Domain string | Hostname_Taken | No_Domain | No_Workspace

fun drop_hosts :: "string list \<Rightarrow> tenant_db \<Rightarrow> domain_error + tenant_db" where
  "drop_hosts [] db = Inr db"
| "drop_hosts (h # hs) db = (case domain_key h of None \<Rightarrow> Inl Bad_Url | Some k \<Rightarrow> drop_hosts hs (unkeep k db))"

definition invalidate_workspace_cache :: "nat \<Rightarrow> tenant_db \<Rightarrow> domain_error + tenant_db" where
  "invalidate_workspace_cache w db = map_sum id (\<lambda>db. unkeep (base_url_key w) (unkeep (workspace_key w) db))
     (drop_hosts (hostnames_of db w) db)"

subsection \<open>Saving a row\<close>

text \<open>\<open>clean\<close>, after the hostname has been normalized.\<close>

definition clean_problem :: "domain_row \<Rightarrow> bool" where
  "clean_problem d \<longleftrightarrow> dn_kind d = System_Default \<and> dn_primary d \<or> dn_primary d \<and> dn_kind d \<noteq> Custom \<or>
     dn_primary d \<and> dn_verification d \<noteq> Verified"

text \<open>What \<open>full_clean\<close> compares with the other rows: the unique hostname and the two constraints.\<close>

definition conflict :: "domain_row \<Rightarrow> domain_row \<Rightarrow> bool" where
  "conflict d x \<longleftrightarrow> dn_id x \<noteq> dn_id d \<and> (dn_hostname x = dn_hostname d \<or>
     dn_workspace x = dn_workspace d \<and> (dn_kind d = System_Default \<and> dn_kind x = System_Default \<or> dn_primary d \<and> dn_primary x))"

definition clashes :: "domain_row \<Rightarrow> domain_row list \<Rightarrow> bool" where
  "clashes d rows \<longleftrightarrow> list_ex (conflict d) rows"

definition full_clean :: "domain_row \<Rightarrow> domain_row list \<Rightarrow> domain_error + domain_row" where
  "full_clean d rows = (case normalize_hostname (dn_hostname d) of None \<Rightarrow> Inl Bad_Url
     | Some h \<Rightarrow> let d' = d\<lparr>dn_hostname := h\<rparr> in
         if dn_hostname d = [] \<or> 255 < length (dn_hostname d) \<or> clean_problem d' \<or> clashes d' rows
         then Inl (Invalid_Domain h) else Inr d')"

text \<open>\<open>super().save()\<close> writes the row, or the given columns of it, and the signal drops the cache.\<close>

definition write_domain :: "domain_row \<Rightarrow> tenant_db \<Rightarrow> tenant_db" where
  "write_domain d db = db\<lparr>tn_domains :=
     (if dn_id d \<in> dn_id ` set (tn_domains db) then update_where (\<lambda>x. dn_id x = dn_id d) (\<lambda>_. d) (tn_domains db)
      else tn_domains db @ [d])\<rparr>"

definition demote_others :: "domain_row \<Rightarrow> tenant_db \<Rightarrow> tenant_db" where
  "demote_others d db = db\<lparr>tn_domains := update_where (\<lambda>x. dn_workspace x = dn_workspace d \<and> dn_kind x = Custom \<and>
     dn_primary x \<and> dn_id x \<noteq> dn_id d) (\<lambda>x. x\<lparr>dn_primary := False\<rparr>) (tn_domains db)\<rparr>"

fun delete_domains :: "domain_row list \<Rightarrow> tenant_db \<Rightarrow> domain_error + tenant_db" where
  "delete_domains [] db = Inr db"
| "delete_domains (d # ds) db = bind_r (invalidate_workspace_cache (dn_workspace d)
     (db\<lparr>tn_domains := filter (\<lambda>x. dn_id x \<noteq> dn_id d) (tn_domains db)\<rparr>)) (delete_domains ds)"

text \<open>
  \<open>save\<close> of a row as the caller holds it; \<open>whole\<close> is false when \<open>update_fields\<close> leaves the hostname out,
  so that the stored one stays.
\<close>

definition stored_hostname :: "domain_row \<Rightarrow> domain_row list \<Rightarrow> string" where
  "stored_hostname d rows = (case first (filter (\<lambda>x. dn_id x = dn_id d) rows) of Some x \<Rightarrow> dn_hostname x | None \<Rightarrow> dn_hostname d)"

definition save_domain :: "bool \<Rightarrow> domain_row \<Rightarrow> tenant_db \<Rightarrow> domain_error + (domain_row \<times> tenant_db)" where
  "save_domain whole d db = bind_r (full_clean d (tn_domains db)) (\<lambda>d'.
     let row = (if whole then d' else d'\<lparr>dn_hostname := stored_hostname d' (tn_domains db)\<rparr>) in
     bind_r (invalidate_workspace_cache (dn_workspace row) (write_domain row db)) (\<lambda>db.
     bind_r (if dn_kind d' = System_Default
         then delete_domains (filter (\<lambda>x. dn_workspace x = dn_workspace d' \<and> dn_kind x = System_Default \<and> dn_id x \<noteq> dn_id d') (tn_domains db)) db
         else Inr db) (\<lambda>db.
       Inr (d', if dn_primary d' then demote_others d' db else db))))"

subsection \<open>The hostname of the cluster\<close>

text \<open>The frontend address of the cluster a workspace is placed in; empty when it has none.\<close>

record domain_env =
  de_env :: env
  de_frontend :: "platform_db \<Rightarrow> nat \<Rightarrow> string option"
  de_debug :: bool
  de_local_http :: bool

definition compute_system_default_hostname :: "string \<Rightarrow> string option \<Rightarrow> string option" where
  "compute_system_default_hostname slug frontend = (case frontend of None \<Rightarrow> Some []
     | Some f \<Rightarrow> if f = [] then Some []
         else case urlsplit f of None \<Rightarrow> None
           | Some u \<Rightarrow> (case normalize_hostname (or_else (u_netloc u) (u_path u)) of None \<Rightarrow> None
               | Some n \<Rightarrow> if n = [] \<or> slug = [] then Some [] else normalize_hostname (slug @ ''.'' @ n)))"

definition new_domain :: "tenant_db \<Rightarrow> nat \<Rightarrow> string \<Rightarrow> domain_row" where
  "new_domain db w host = \<lparr>dn_id = fresh_id dn_id (tn_domains db), dn_workspace = w, dn_hostname = host, dn_kind = Custom,
     dn_verification = Unverified, dn_ssl = Ssl_None, dn_primary = False\<rparr>"

definition as_default :: "string \<Rightarrow> domain_row \<Rightarrow> domain_row" where
  "as_default host d = d\<lparr>dn_hostname := host, dn_kind := System_Default, dn_verification := Verified, dn_ssl := Ssl_None, dn_primary := False\<rparr>"

definition stale_defaults :: "nat \<Rightarrow> string \<Rightarrow> tenant_db \<Rightarrow> domain_row list" where
  "stale_defaults w host db = filter (\<lambda>x. dn_workspace x = w \<and> dn_kind x = System_Default \<and> dn_hostname x \<noteq> host) (tn_domains db)"

definition put_default :: "nat \<Rightarrow> string \<Rightarrow> tenant_db \<Rightarrow> domain_error + (domain_row \<times> tenant_db)" where
  "put_default w host db = save_domain True (as_default host
     (case first (filter (\<lambda>x. dn_workspace x = w \<and> dn_kind x = System_Default) (tn_domains db)) of
        Some d \<Rightarrow> d | None \<Rightarrow> new_domain db w host)) db"

text \<open>What was raised, if anything, and the rows: deleting the stale ones is a transaction of its own.\<close>

definition ensure_system_default :: "domain_env \<Rightarrow> workspace \<Rightarrow> tenant_db \<Rightarrow> domain_error option \<times> tenant_db" where
  "ensure_system_default D v db = (case compute_system_default_hostname (ws_slug v) (de_frontend D (tn_base db) (ws_id v)) of
     None \<Rightarrow> (Some Bad_Url, db)
   | Some host \<Rightarrow> if host = [] then (None, db)
       else case delete_domains (stale_defaults (ws_id v) host db) db of Inl err \<Rightarrow> (Some err, db)
       | Inr db1 \<Rightarrow> (case put_default (ws_id v) host db1 of Inl err \<Rightarrow> (Some err, db1) | Inr (_, db2) \<Rightarrow> (None, db2)))"

text \<open>
  Saving a workspace: the row, its default hostname, and the cache (\<open>create_workspace_settings\<close>). The
  row is written before the handlers run and stays when one raises.
\<close>

definition write_workspace :: "workspace \<Rightarrow> tenant_db \<Rightarrow> tenant_db" where
  "write_workspace v db = db\<lparr>tn_base := (tn_base db)\<lparr>workspaces :=
     update_where (\<lambda>x. ws_id x = ws_id v) (\<lambda>_. v) (workspaces (tn_base db))\<rparr>\<rparr>"

definition save_workspace :: "domain_env \<Rightarrow> workspace \<Rightarrow> tenant_db \<Rightarrow> domain_error option \<times> tenant_db" where
  "save_workspace D v db = (case ensure_system_default D v (write_workspace v db) of
     (Some err, db) \<Rightarrow> (Some err, db)
   | (None, db) \<Rightarrow> (case invalidate_workspace_cache (ws_id v) db of Inl err \<Rightarrow> (Some err, db) | Inr db \<Rightarrow> (None, db)))"

subsection \<open>Custom hostnames\<close>

text \<open>\<open>upsert_custom_workspace_domain\<close>, in one transaction; no row when there is no hostname.\<close>

definition custom_row :: "bool \<Rightarrow> verification option \<Rightarrow> ssl_status option \<Rightarrow> domain_row \<Rightarrow> domain_row" where
  "custom_row primary verified ssl d = d\<lparr>dn_kind := Custom, dn_primary := primary,
     dn_verification := (case verified of Some v \<Rightarrow> v | None \<Rightarrow> if primary then Verified else dn_verification d),
     dn_ssl := (case ssl of Some s \<Rightarrow> s | None \<Rightarrow> dn_ssl d)\<rparr>"

definition demote_for :: "nat \<Rightarrow> string \<Rightarrow> tenant_db \<Rightarrow> tenant_db" where
  "demote_for w host db = db\<lparr>tn_domains := update_where (\<lambda>x. dn_workspace x = w \<and> dn_kind x = Custom \<and> dn_primary x \<and>
     dn_hostname x \<noteq> host) (\<lambda>x. x\<lparr>dn_primary := False\<rparr>) (tn_domains db)\<rparr>"

definition upsert_custom :: "nat \<Rightarrow> string \<Rightarrow> bool \<Rightarrow> verification option \<Rightarrow> ssl_status option \<Rightarrow> tenant_db
    \<Rightarrow> domain_error + (domain_row option \<times> tenant_db)" where
  "upsert_custom w hostname primary verified ssl db = (case normalize_hostname hostname of None \<Rightarrow> Inl Bad_Url
     | Some host \<Rightarrow> if host = [] then Inr (None, db)
         else let existing = first (filter (\<lambda>x. dn_hostname x = host) (tn_domains db));
             db1 = (if primary then demote_for w host db else db) in
           case existing of
             Some d \<Rightarrow> if dn_workspace d \<noteq> w then Inl Hostname_Taken
               else map_sum id (map_prod Some id) (save_domain False (custom_row primary verified ssl d) db1)
           | None \<Rightarrow> map_sum id (map_prod Some id) (save_domain True (custom_row primary verified ssl (new_domain db1 w host)) db1))"

subsection \<open>The public address\<close>

definition with_port :: "string \<Rightarrow> nat \<Rightarrow> string" where
  "with_port host p = ''http://'' @ host @ '':'' @ show_nat p"

text \<open>The local address of a default hostname, when the cluster's frontend is served on localhost.\<close>

definition local_address :: "domain_env \<Rightarrow> workspace \<Rightarrow> string \<Rightarrow> tenant_db \<Rightarrow> domain_error + string option" where
  "local_address D v host db = (let frontend = de_frontend D (tn_base db) (ws_id v) in
     case urlsplit (case frontend of Some f \<Rightarrow> f | None \<Rightarrow> []) of None \<Rightarrow> Inl Bad_Url
     | Some u \<Rightarrow> (let name = (case url_hostname u of Some h \<Rightarrow> h | None \<Rightarrow> []); set_text = (\<lambda>t. t \<noteq> None \<and> t \<noteq> Some []) in
         case url_port u of Some (Some p) \<Rightarrow>
             if u_scheme u = ''http'' \<and> (name = ''localhost'' \<or> endswith ''.localhost'' name) \<and>
                \<not> set_text (fst (url_userinfo u)) \<and> \<not> set_text (snd (url_userinfo u)) \<and> p \<noteq> 0
             then (case compute_system_default_hostname (ws_slug v) frontend of None \<Rightarrow> Inl Bad_Url
               | Some d \<Rightarrow> Inr (if host = d then Some (with_port host p) else None))
             else Inr None
         | _ \<Rightarrow> Inr None))"

definition primary_domain :: "tenant_db \<Rightarrow> nat \<Rightarrow> domain_row option" where
  "primary_domain db w = earliest_by dn_hostname (filter (\<lambda>d. dn_workspace d = w \<and> dn_kind d = Custom \<and>
     dn_verification d = Verified \<and> dn_primary d) (tn_domains db))"

definition default_domain :: "tenant_db \<Rightarrow> nat \<Rightarrow> domain_row option" where
  "default_domain db w = earliest_by dn_hostname (filter (\<lambda>d. dn_workspace d = w \<and> dn_kind d = System_Default) (tn_domains db))"

text \<open>A cached address counts when it is one of https.\<close>

definition kept_url :: "env \<Rightarrow> string \<Rightarrow> tenant_db \<Rightarrow> string option" where
  "kept_url e key db = (case kept_get (now e) key (tn_cache db) of
     Some (Kept_Url u) \<Rightarrow> if startswith ''https://'' u then Some u else None | _ \<Rightarrow> None)"

definition resolve_base_url :: "domain_env \<Rightarrow> workspace option \<Rightarrow> string \<Rightarrow> tenant_db \<Rightarrow> domain_error + (string \<times> tenant_db)" where
  "resolve_base_url D ws override db = (case normalize_hostname override of None \<Rightarrow> Inl Bad_Url
     | Some h \<Rightarrow> if h \<noteq> [] then Inr (''https://'' @ h, db)
         else case ws of None \<Rightarrow> Inl No_Workspace
         | Some v \<Rightarrow> (let key = base_url_key (ws_id v); local_http = de_debug D \<and> de_local_http D; e = de_env D in
             case (if local_http then None else kept_url e key db) of Some u \<Rightarrow> Inr (u, db)
             | None \<Rightarrow> (case primary_domain db (ws_id v) of
                 Some d \<Rightarrow> let value = ''https://'' @ dn_hostname d in Inr (value, keep e key (Kept_Url value) db)
               | None \<Rightarrow> (case default_domain db (ws_id v) of None \<Rightarrow> Inl No_Domain
                   | Some d \<Rightarrow> let value = ''https://'' @ dn_hostname d in
                       if local_http then map_sum id (\<lambda>a. ((case a of Some l \<Rightarrow> l | None \<Rightarrow> value), db)) (local_address D v (dn_hostname d) db)
                       else Inr (value, keep e key (Kept_Url value) db)))))"

subsection \<open>One default, one primary, one owner of a hostname\<close>

definition domains_ok :: "domain_row list \<Rightarrow> bool" where
  "domains_ok rows \<longleftrightarrow> distinct (map dn_id rows) \<and> (\<forall>x \<in> set rows. \<not> clean_problem x \<and> \<not> clashes x rows)"

lemma domains_okD:
  assumes "domains_ok rows" "x \<in> set rows" "y \<in> set rows"
  shows "\<not> clean_problem x" "\<not> conflict x y"
  using assms by (auto simp: domains_ok_def clashes_def list_ex_iff)

lemma same_domain: "domains_ok rows \<Longrightarrow> x \<in> set rows \<Longrightarrow> y \<in> set rows \<Longrightarrow> dn_id x = dn_id y \<Longrightarrow> x = y"
  by (auto simp: domains_ok_def distinct_map inj_on_def)

lemma domains_ok_filter: "domains_ok rows \<Longrightarrow> domains_ok (filter P rows)"
  by (auto simp: domains_ok_def clashes_def list_ex_iff distinct_map inj_on_def)

text \<open>Taking the primary mark away keeps the rows sound.\<close>

lemma domains_ok_demote:
  assumes "domains_ok rows"
  shows "domains_ok (update_where P (\<lambda>x. x\<lparr>dn_primary := False\<rparr>) rows)"
proof -
  define f where "f = (\<lambda>x. if P x then x\<lparr>dn_primary := False\<rparr> else x)"
  have u: "update_where P (\<lambda>x. x\<lparr>dn_primary := False\<rparr>) rows = map f rows" by (simp add: update_where_def f_def)
  have f: "dn_id (f x) = dn_id x" "dn_hostname (f x) = dn_hostname x" "dn_workspace (f x) = dn_workspace x" "dn_kind (f x) = dn_kind x"
    "dn_verification (f x) = dn_verification x" "dn_primary (f x) \<Longrightarrow> dn_primary x" for x
    by (simp_all add: f_def split: if_splits)
  have "\<not> clean_problem (f x) \<and> \<not> conflict (f x) (f y)" if "x \<in> set rows" "y \<in> set rows" for x y
    using domains_okD [OF assms that] f(6) by (auto simp: conflict_def clean_problem_def f(1-5))
  then show ?thesis using assms unfolding u by (auto simp: domains_ok_def clashes_def list_ex_iff f(1) comp_def)
qed

text \<open>A row that is clean and clashes with no other can be written.\<close>

lemma conflict_sym: "conflict x y \<longleftrightarrow> conflict y x"
  by (auto simp: conflict_def)

lemma set_write_domain: "set (tn_domains (write_domain d db)) = insert d (set (filter (\<lambda>x. dn_id x \<noteq> dn_id d) (tn_domains db)))"
proof (cases "dn_id d \<in> dn_id ` set (tn_domains db)")
  case True
  then show ?thesis by (auto simp: write_domain_def set_update_where)
next
  case False
  then have "\<forall>x \<in> set (tn_domains db). dn_id x \<noteq> dn_id d" by (metis image_eqI)
  with False show ?thesis by (auto simp: write_domain_def)
qed

lemma domains_ok_write:
  assumes "domains_ok (tn_domains db)" "\<not> clean_problem d" "\<not> clashes d (tn_domains db)"
  shows "domains_ok (tn_domains (write_domain d db))"
proof -
  have "map dn_id (update_where (\<lambda>x. dn_id x = dn_id d) (\<lambda>_. d) (tn_domains db)) = map dn_id (tn_domains db)"
    by (rule map_update_where) simp
  then have "distinct (map dn_id (tn_domains (write_domain d db)))"
    using assms(1) by (auto simp: write_domain_def domains_ok_def)
  moreover have "\<not> clean_problem x \<and> \<not> conflict x y"
    if "x \<in> set (tn_domains (write_domain d db))" "y \<in> set (tn_domains (write_domain d db))" for x y
  proof -
    have new: "\<not> conflict d z \<and> \<not> conflict z d" if "z \<in> set (tn_domains db)" for z
      using assms(3) that conflict_sym [of z d] by (auto simp: clashes_def list_ex_iff)
    show ?thesis using that new assms(2) domains_okD [OF assms(1)] unfolding set_write_domain
      by (auto simp: conflict_def [of d d])
  qed
  ultimately show ?thesis by (simp add: domains_ok_def clashes_def list_ex_iff)
qed

text \<open>Dropping what is cached touches no table.\<close>

definition same_tables :: "tenant_db \<Rightarrow> tenant_db \<Rightarrow> bool" where
  "same_tables db db' \<longleftrightarrow> tn_base db' = tn_base db \<and> tn_domains db' = tn_domains db \<and> tn_users db' = tn_users db \<and>
     tn_roles db' = tn_roles db \<and> tn_staff db' = tn_staff db \<and> tn_shoppers db' = tn_shoppers db \<and> tn_keys db' = tn_keys db"

lemma drop_hosts_tables: "drop_hosts hs db = Inr db' \<Longrightarrow> same_tables db db'"
  by (induction hs db rule: drop_hosts.induct) (auto simp: same_tables_def split: option.splits)

lemma drop_hosts_kept:
  "drop_hosts hs db = Inr db' \<Longrightarrow> kept_get t k (tn_cache db') = (if k \<in> {j. \<exists>h \<in> set hs. domain_key h = Some j} then None else kept_get t k (tn_cache db))"
  by (induction hs db rule: drop_hosts.induct) (auto split: option.splits)

lemma invalidate_Inr:
  assumes "invalidate_workspace_cache w db = Inr db'"
  shows "same_tables db db'" "kept_get t (workspace_key w) (tn_cache db') = None" "kept_get t (base_url_key w) (tn_cache db') = None"
    "h \<in> set (hostnames_of db w) \<Longrightarrow> domain_key h = Some k \<Longrightarrow> kept_get t k (tn_cache db') = None"
    "kept_get t k (tn_cache db') \<noteq> None \<Longrightarrow> kept_get t k (tn_cache db') = kept_get t k (tn_cache db)"
proof -
  from assms obtain db1 where d: "drop_hosts (hostnames_of db w) db = Inr db1" "db' = unkeep (base_url_key w) (unkeep (workspace_key w) db1)"
    by (auto simp: invalidate_workspace_cache_def map_sum_def split: sum.splits)
  show "same_tables db db'" using drop_hosts_tables [OF d(1)] d(2) by (simp add: same_tables_def)
  show "kept_get t (workspace_key w) (tn_cache db') = None" "kept_get t (base_url_key w) (tn_cache db') = None" by (simp_all add: d(2))
  show "h \<in> set (hostnames_of db w) \<Longrightarrow> domain_key h = Some k \<Longrightarrow> kept_get t k (tn_cache db') = None"
    using drop_hosts_kept [OF d(1)] by (auto simp: d(2))
  show "kept_get t k (tn_cache db') \<noteq> None \<Longrightarrow> kept_get t k (tn_cache db') = kept_get t k (tn_cache db)"
    using drop_hosts_kept [OF d(1)] by (simp add: d(2) split: if_splits)
qed

lemma invalidate_domains [simp]: "invalidate_workspace_cache w db = Inr db' \<Longrightarrow> tn_domains db' = tn_domains db"
  using invalidate_Inr(1) by (simp add: same_tables_def)

lemma delete_domains_ok: "delete_domains ds db = Inr db' \<Longrightarrow> domains_ok (tn_domains db) \<Longrightarrow>
    domains_ok (tn_domains db') \<and> tn_domains db' = filter (\<lambda>x. dn_id x \<notin> dn_id ` set ds) (tn_domains db)"
proof (induction ds db rule: delete_domains.induct)
  case (2 d ds db)
  then obtain db1 where d: "invalidate_workspace_cache (dn_workspace d)
      (db\<lparr>tn_domains := filter (\<lambda>x. dn_id x \<noteq> dn_id d) (tn_domains db)\<rparr>) = Inr db1" "delete_domains ds db1 = Inr db'"
    by (auto simp: bind_r_Inr)
  have t: "tn_domains db1 = filter (\<lambda>x. dn_id x \<noteq> dn_id d) (tn_domains db)" using invalidate_domains [OF d(1)] by simp
  then have "domains_ok (tn_domains db1)" using 2(3) by (simp add: domains_ok_filter)
  with "2.IH" [of db1] d(2) show ?case by (auto simp: t conj_commute intro!: filter_cong)
qed simp

text \<open>What a save leaves: the row with its checks done, and nobody else's rows.\<close>

lemma full_clean_Inr:
  assumes "full_clean d rows = Inr d'"
  shows "\<exists>h. normalize_hostname (dn_hostname d) = Some h \<and> d' = d\<lparr>dn_hostname := h\<rparr>" "\<not> clean_problem d'" "\<not> clashes d' rows"
  using assms by (auto simp: full_clean_def Let_def split: option.splits if_splits)

lemma stored_hostname_in: "domains_ok rows \<Longrightarrow> x \<in> set rows \<Longrightarrow> dn_id x = dn_id d \<Longrightarrow> stored_hostname d rows = dn_hostname x"
proof -
  assume a: "domains_ok rows" "x \<in> set rows" "dn_id x = dn_id d"
  then obtain y where y: "first (filter (\<lambda>x. dn_id x = dn_id d) rows) = Some y"
    by (cases "first (filter (\<lambda>x. dn_id x = dn_id d) rows)") (auto simp: filter_empty_conv)
  have "y = x" using first_filter_SomeD [OF y] a same_domain by metis
  then show ?thesis by (simp add: stored_hostname_def y)
qed

lemma save_domain_Inr:
  assumes "save_domain whole d db = Inr (d', db')" "domains_ok (tn_domains db)"
    and "\<not> whole \<Longrightarrow> \<exists>x \<in> set (tn_domains db). dn_id x = dn_id d"
  obtains h row where "normalize_hostname (dn_hostname d) = Some h" "d' = d\<lparr>dn_hostname := h\<rparr>"
    "row = (if whole then d' else d'\<lparr>dn_hostname := stored_hostname d (tn_domains db)\<rparr>)"
    "same_tables (write_domain row db) db'" "domains_ok (tn_domains db')"
    "\<forall>t. kept_get t (base_url_key (dn_workspace d)) (tn_cache db') = None"
proof -
  from assms(1) obtain row db1 db2 where f: "full_clean d (tn_domains db) = Inr d'"
    and row: "row = (if whole then d' else d'\<lparr>dn_hostname := stored_hostname d' (tn_domains db)\<rparr>)"
    and w: "invalidate_workspace_cache (dn_workspace row) (write_domain row db) = Inr db1"
    and del: "(if dn_kind d' = System_Default
         then delete_domains (filter (\<lambda>x. dn_workspace x = dn_workspace d' \<and> dn_kind x = System_Default \<and> dn_id x \<noteq> dn_id d') (tn_domains db1)) db1
         else Inr db1) = Inr db2"
    and db': "db' = (if dn_primary d' then demote_others d' db2 else db2)"
    unfolding save_domain_def bind_r_Inr Let_def by blast
  note fc = full_clean_Inr [OF f]
  from fc(1) obtain h where h: "normalize_hostname (dn_hostname d) = Some h" "d' = d\<lparr>dn_hostname := h\<rparr>" by blast
  have st: "stored_hostname d' (tn_domains db) = stored_hostname d (tn_domains db)"
    if "\<not> whole" using assms(3) [OF that] by (auto simp: stored_hostname_def h(2) filter_empty_conv split: option.splits)
  have nc: "\<not> clashes row (tn_domains db)"
  proof (cases whole)
    case True
    then show ?thesis using fc(3) row by simp
  next
    case False
    then obtain x where x: "x \<in> set (tn_domains db)" "dn_id x = dn_id d" using assms(3) by blast
    have hn: "dn_hostname row = dn_hostname x" using False row stored_hostname_in [OF assms(2) x(1)] x(2) st by (simp add: h(2))
    have "\<not> conflict row y" if y: "y \<in> set (tn_domains db)" for y
    proof -
      have "\<not> conflict d' y" using fc(3) y by (auto simp: clashes_def list_ex_iff)
      moreover have "\<not> conflict x y" by (rule domains_okD(2) [OF assms(2) x(1) y])
      ultimately show ?thesis using hn x(2) row by (auto simp: conflict_def h(2) False)
    qed
    then show ?thesis by (simp add: clashes_def list_ex_iff)
  qed
  have nprob: "\<not> clean_problem row" using fc(2) row by (auto simp: clean_problem_def)
  have ok1: "domains_ok (tn_domains (write_domain row db))" by (rule domains_ok_write [OF assms(2) nprob nc])
  have t1: "tn_domains db1 = tn_domains (write_domain row db)" using invalidate_domains [OF w] .
  have same: "dn_id row = dn_id d'" "dn_workspace row = dn_workspace d'" "dn_kind row = dn_kind d'" "dn_primary row = dn_primary d'"
    using row by auto
  have mem: "row \<in> set (tn_domains db1)" by (simp add: t1 set_write_domain)
  have alone: "\<not> conflict row x" if "x \<in> set (tn_domains db1)" for x
    using domains_okD(2) [OF ok1, folded t1, OF mem that] .
  have "filter (\<lambda>x. dn_workspace x = dn_workspace d' \<and> dn_kind x = System_Default \<and> dn_id x \<noteq> dn_id d') (tn_domains db1) = []"
    if "dn_kind d' = System_Default"
    using alone that same by (auto simp: filter_empty_conv conflict_def)
  then have db2: "db2 = db1" using del by (auto split: if_splits)
  have "demote_others d' db1 = db1" if "dn_primary d'"
  proof -
    have "update_where (\<lambda>x. dn_workspace x = dn_workspace d' \<and> dn_kind x = Custom \<and> dn_primary x \<and> dn_id x \<noteq> dn_id d')
        (\<lambda>x. x\<lparr>dn_primary := False\<rparr>) (tn_domains db1) = tn_domains db1"
      by (rule update_where_none) (use alone that same in \<open>auto simp: conflict_def\<close>)
    then show ?thesis by (simp add: demote_others_def)
  qed
  then have eq: "db' = db1" using db' db2 by simp
  have "row = (if whole then d' else d'\<lparr>dn_hostname := stored_hostname d (tn_domains db)\<rparr>)" using row st by simp
  moreover have "dn_workspace row = dn_workspace d" using same h(2) by simp
  moreover note invalidate_Inr(1,3) [OF w]
  ultimately show ?thesis using h ok1 t1 eq by (intro that [of h row]) simp_all
qed

lemma same_tables_domains: "same_tables db db' \<Longrightarrow> tn_domains db' = tn_domains db"
  by (simp add: same_tables_def)

lemma put_default_ok: "put_default w host db = Inr (d', db') \<Longrightarrow> domains_ok (tn_domains db) \<Longrightarrow> domains_ok (tn_domains db')"
  unfolding put_default_def by (erule (1) save_domain_Inr) simp_all

lemma ensure_ok: "ensure_system_default D v db = (r, db') \<Longrightarrow> domains_ok (tn_domains db) \<Longrightarrow> domains_ok (tn_domains db')"
  by (auto simp: ensure_system_default_def split: option.splits if_splits sum.splits prod.splits
      dest: delete_domains_ok put_default_ok)

lemma save_workspace_ok: "save_workspace D v db = (r, db') \<Longrightarrow> domains_ok (tn_domains db) \<Longrightarrow> domains_ok (tn_domains db')"
  by (auto simp: save_workspace_def write_workspace_def split: option.splits sum.splits prod.splits dest: ensure_ok)

lemma first_hostname:
  assumes "domains_ok rows" "x \<in> set rows" "dn_hostname x = host"
  shows "first (filter (\<lambda>x. dn_hostname x = host) rows) = Some x"
proof (cases "first (filter (\<lambda>x. dn_hostname x = host) rows)")
  case None
  then show ?thesis using assms by (auto simp: filter_empty_conv)
next
  case (Some y)
  note y = first_filter_SomeD [OF Some]
  have "\<not> conflict y x" using domains_okD(2) [OF assms(1), of y x] y assms(2) by blast
  then have "dn_id y = dn_id x" using y assms(3) by (auto simp: conflict_def)
  then show ?thesis using same_domain [OF assms(1), of y x] y assms(2) Some by simp
qed

lemma upsert_some:
  "normalize_hostname hostname = Some host \<Longrightarrow> host \<noteq> [] \<Longrightarrow> upsert_custom w hostname primary verified ssl db \<noteq> Inr (None, db')"
  by (simp add: upsert_custom_def Let_def map_sum_def split: option.split sum.split prod.split)

lemma upsert_cases:
  assumes "upsert_custom w hostname primary verified ssl db = Inr (r, db')" "domains_ok (tn_domains db)"
  obtains (nothing) "r = None" "db' = db"
  | (saved) host d0 d h row where "normalize_hostname hostname = Some host" "host \<noteq> []" "normalize_hostname host = Some h" "r = Some d" "d = (custom_row primary verified ssl d0)\<lparr>dn_hostname := h\<rparr>"
      "dn_workspace d0 = w" "domains_ok (tn_domains (if primary then demote_for w host db else db))"
      "row = (if d0 \<in> set (tn_domains db) then d\<lparr>dn_hostname := dn_hostname d0\<rparr> else d)"
      "d0 \<in> set (tn_domains db) \<and> dn_hostname d0 = host \<or> dn_id d0 = fresh_id dn_id (tn_domains db)"
      "same_tables (write_domain row (if primary then demote_for w host db else db)) db'" "domains_ok (tn_domains db')"
      "\<forall>t. kept_get t (base_url_key w) (tn_cache db') = None"
proof -
  from assms(1) obtain host where host: "normalize_hostname hostname = Some host" by (auto simp: upsert_custom_def split: option.splits)
  show ?thesis
  proof (cases "host = []")
    case True
    then have "r = None" "db' = db" using assms(1) host by (simp_all add: upsert_custom_def)
    then show ?thesis by (rule nothing)
  next
    case False
    let ?db1 = "if primary then demote_for w host db else db"
    have ok1: "domains_ok (tn_domains ?db1)" using assms(2) domains_ok_demote by (simp add: demote_for_def)
    have ids: "map dn_id (tn_domains ?db1) = map dn_id (tn_domains db)"
      by (simp add: demote_for_def map_update_where)
    show ?thesis
    proof (cases "first (filter (\<lambda>x. dn_hostname x = host) (tn_domains db))")
      case (Some d0)
      note d0 = first_filter_SomeD [OF Some]
      from assms(1) host False Some obtain d where d: "dn_workspace d0 = w" "save_domain False (custom_row primary verified ssl d0) ?db1 = Inr (d, db')" "r = Some d"
        by (auto simp: upsert_custom_def Let_def map_sum_def split: if_splits sum.splits)
      let ?f = "\<lambda>x. if primary \<and> dn_workspace x = w \<and> dn_kind x = Custom \<and> dn_primary x \<and> dn_hostname x \<noteq> host then x\<lparr>dn_primary := False\<rparr> else x"
      have in1: "d0 \<in> set (tn_domains ?db1)" using d0 by (cases primary) (auto simp: demote_for_def set_update_where image_iff intro!: bexI [of _ d0])
      have id: "dn_id d0 = dn_id (custom_row primary verified ssl d0)" by (simp add: custom_row_def)
      from d(2) ok1 show ?thesis
      proof (rule save_domain_Inr)
        show "\<exists>x \<in> set (tn_domains ?db1). dn_id x = dn_id (custom_row primary verified ssl d0)" using in1 id by blast
      next
        fix h row assume "normalize_hostname (dn_hostname (custom_row primary verified ssl d0)) = Some h"
          "d = (custom_row primary verified ssl d0)\<lparr>dn_hostname := h\<rparr>"
          "row = (if False then d else d\<lparr>dn_hostname := stored_hostname (custom_row primary verified ssl d0) (tn_domains ?db1)\<rparr>)"
          "same_tables (write_domain row ?db1) db'" "domains_ok (tn_domains db')"
          "\<forall>t. kept_get t (base_url_key (dn_workspace (custom_row primary verified ssl d0))) (tn_cache db') = None"
        then show ?thesis using host False d d0 ok1 stored_hostname_in [OF ok1 in1 id]
          by (intro saved [of host h d d0 row]) (simp_all add: custom_row_def)
      qed
    next
      case None
      define n where "n = new_domain ?db1 w host"
      from assms(1) host False None obtain d where d: "save_domain True (custom_row primary verified ssl n) ?db1 = Inr (d, db')" "r = Some d"
        unfolding n_def
        by (auto simp: upsert_custom_def Let_def map_sum_def split: if_splits sum.splits)
      have id: "dn_id n = fresh_id dn_id (tn_domains db)" "dn_workspace n = w" "dn_hostname n = host"
        by (simp_all only: n_def new_domain_def fresh_id_def ids domain_row.simps)
      have notin: "n \<notin> set (tn_domains db)" using id(1) by (metis fresh_id_neq(1))
      from d(1) ok1 show ?thesis
      proof (rule save_domain_Inr)
        fix h row assume "normalize_hostname (dn_hostname (custom_row primary verified ssl n)) = Some h"
          "d = (custom_row primary verified ssl n)\<lparr>dn_hostname := h\<rparr>"
          "row = (if True then d else d\<lparr>dn_hostname := stored_hostname (custom_row primary verified ssl n) (tn_domains ?db1)\<rparr>)"
          "same_tables (write_domain row ?db1) db'" "domains_ok (tn_domains db')"
          "\<forall>t. kept_get t (base_url_key (dn_workspace (custom_row primary verified ssl n))) (tn_cache db') = None"
        then show ?thesis using host False d ok1 notin id
          by (intro saved [of host h d n row]) (simp_all add: custom_row_def)
      qed simp
    qed
  qed
qed

subsection \<open>What is accepted\<close>

lemma drop_hosts_total: "\<forall>h \<in> set hs. normalize_hostname h \<noteq> None \<Longrightarrow> \<exists>db'. drop_hosts hs db = Inr db'"
  by (induction hs arbitrary: db) (auto simp: domain_key_def)

lemma invalidate_total:
  assumes "\<forall>x \<in> set (tn_domains db). normalize_hostname (dn_hostname x) \<noteq> None"
  shows "\<exists>db'. invalidate_workspace_cache w db = Inr db'"
proof -
  have "\<forall>h \<in> set (hostnames_of db w). normalize_hostname h \<noteq> None" using assms by (auto simp: hostnames_of_def)
  from drop_hosts_total [OF this, of db] show ?thesis by (force simp: invalidate_workspace_cache_def)
qed

lemma save_custom_accepted:
  assumes "normalize_hostname (dn_hostname d) = Some (dn_hostname d)" "dn_hostname d \<noteq> []" "length (dn_hostname d) \<le> 255"
    and "dn_kind d = Custom" "\<not> clean_problem d" "\<not> clashes d (tn_domains db)" "stored_hostname d (tn_domains db) = dn_hostname d"
    and "\<forall>x \<in> set (tn_domains db). normalize_hostname (dn_hostname x) \<noteq> None"
  shows "\<exists>r. save_domain whole d db = Inr r"
proof -
  have same: "d\<lparr>dn_hostname := dn_hostname d\<rparr> = d" by simp
  have "\<forall>x \<in> set (tn_domains (write_domain d db)). normalize_hostname (dn_hostname x) \<noteq> None"
    using assms(1,8) unfolding set_write_domain by auto
  then obtain db1 where "invalidate_workspace_cache (dn_workspace d) (write_domain d db) = Inr db1" using invalidate_total by blast
  moreover have "full_clean d (tn_domains db) = Inr d" using assms by (simp add: full_clean_def)
  ultimately show ?thesis using assms(4,7) by (simp add: save_domain_def bind_r_def same)
qed

lemma primary_is_accepted:
  assumes "domains_ok (tn_domains db)" "normalize_hostname hostname = Some host" "host \<noteq> []"
    and "normalize_hostname host = Some host" "length host \<le> 255" "verified \<noteq> Some Unverified" "verified \<noteq> Some Verification_Failed"
    and "\<forall>x \<in> set (tn_domains db). normalize_hostname (dn_hostname x) \<noteq> None"
    and "\<forall>x \<in> set (tn_domains db). dn_hostname x = host \<longrightarrow> dn_workspace x = w"
  shows "\<exists>r. upsert_custom w hostname True verified ssl db = Inr r"
proof -
  let ?db1 = "demote_for w host db"
  define d0 where "d0 = (case first (filter (\<lambda>x. dn_hostname x = host) (tn_domains db)) of Some d \<Rightarrow> d | None \<Rightarrow> new_domain ?db1 w host)"
  define c where "c = custom_row True verified ssl d0"
  have ids: "map dn_id (tn_domains ?db1) = map dn_id (tn_domains db)" by (simp add: demote_for_def map_update_where)
  have mem1: "\<exists>y \<in> set (tn_domains db). dn_id y = dn_id x \<and> dn_hostname y = dn_hostname x \<and> dn_workspace y = dn_workspace x \<and>
      (dn_primary x \<longrightarrow> y = x \<and> \<not> (dn_workspace x = w \<and> dn_kind x = Custom \<and> dn_hostname x \<noteq> host))" if "x \<in> set (tn_domains ?db1)" for x
    using that by (auto simp: demote_for_def set_update_where)
  have d0: "dn_workspace d0 = w" "dn_hostname d0 = host"
    and known: "y \<in> set (tn_domains db) \<Longrightarrow> dn_hostname y = host \<Longrightarrow> y = d0"
    and fresh: "d0 \<in> set (tn_domains db) \<or> dn_id d0 = fresh_id dn_id (tn_domains db)" for y
  proof -
    show "dn_workspace d0 = w" "dn_hostname d0 = host"
      using assms(9) by (auto simp: d0_def new_domain_def dest: first_filter_SomeD split: option.splits)
    show "d0 \<in> set (tn_domains db) \<or> dn_id d0 = fresh_id dn_id (tn_domains db)"
      by (auto simp: d0_def new_domain_def fresh_id_def ids dest: first_filter_SomeD split: option.splits)
    assume y: "y \<in> set (tn_domains db)" "dn_hostname y = host"
    show "y = d0" using first_hostname [OF assms(1) y] by (simp add: d0_def)
  qed
  have c: "dn_id c = dn_id d0" "dn_hostname c = host" "dn_workspace c = w" "dn_kind c = Custom" "dn_primary c" "dn_verification c = Verified"
    using d0 assms(6,7) by (cases verified; cases "the verified"; simp add: c_def custom_row_def)+
  have "\<not> conflict c x" if x: "x \<in> set (tn_domains ?db1)" for x
  proof -
    obtain y where y: "y \<in> set (tn_domains db)" "dn_id y = dn_id x" "dn_hostname y = dn_hostname x" "dn_workspace y = dn_workspace x"
      "dn_primary x \<longrightarrow> y = x \<and> \<not> (dn_workspace x = w \<and> dn_kind x = Custom \<and> dn_hostname x \<noteq> host)" using mem1 [OF x] by blast
    have "dn_kind y = Custom" if "dn_primary y" using domains_okD(1) [OF assms(1) y(1) y(1)] that by (cases "dn_kind y") (auto simp: clean_problem_def)
    then show ?thesis using known [OF y(1)] y c by (auto simp: conflict_def)
  qed
  then have "\<not> clashes c (tn_domains ?db1)" by (auto simp: clashes_def list_ex_iff)
  moreover have "stored_hostname c (tn_domains ?db1) = host"
  proof (cases "first (filter (\<lambda>x. dn_id x = dn_id c) (tn_domains ?db1))")
    case (Some x)
    then have x: "x \<in> set (tn_domains ?db1)" "dn_id x = dn_id d0" using c(1) by (auto dest: first_filter_SomeD)
    from mem1 [OF x(1)] obtain y where y: "y \<in> set (tn_domains db)" "dn_id y = dn_id d0" "dn_hostname y = dn_hostname x" using x(2) by auto
    then have "y = d0" using fresh same_domain [OF assms(1), of y d0] by auto
    then show ?thesis using Some y(3) d0(2) by (simp add: stored_hostname_def)
  qed (simp add: stored_hostname_def c(2))
  moreover have "\<forall>x \<in> set (tn_domains ?db1). normalize_hostname (dn_hostname x) \<noteq> None" using mem1 assms(8) by metis
  moreover have "\<not> clean_problem c" using c by (simp add: clean_problem_def)
  ultimately have ok: "\<exists>r. save_domain whole c ?db1 = Inr r" for whole using c(2,4) assms(3-5) by (intro save_custom_accepted) simp_all
  show ?thesis
  proof (cases "first (filter (\<lambda>x. dn_hostname x = host) (tn_domains db))")
    case None
    then show ?thesis using ok [of True] assms(2,3) by (auto simp: upsert_custom_def Let_def c_def d0_def)
  next
    case (Some d)
    then have "d0 = d" by (simp add: d0_def)
    then show ?thesis using ok [of False] assms(2,3) d0(1) Some by (auto simp: upsert_custom_def Let_def c_def)
  qed
qed

subsection \<open>Properties\<close>

text \<open>What is done to hostnames, one call after another; a call that raises leaves what it left.\<close>

datatype domain_call = Save_Workspace workspace | Upsert nat string bool "verification option" "ssl_status option"
  | Save_Row domain_row | Delete_Rows "domain_row list"

definition after_domain_call :: "domain_env \<Rightarrow> domain_call \<Rightarrow> tenant_db \<Rightarrow> tenant_db" where
  "after_domain_call D call db = (case call of Save_Workspace v \<Rightarrow> snd (save_workspace D v db)
     | Upsert w h p vs ss \<Rightarrow> (case upsert_custom w h p vs ss db of Inr (_, db') \<Rightarrow> db' | Inl _ \<Rightarrow> db)
     | Save_Row d \<Rightarrow> (case save_domain True d db of Inr (_, db') \<Rightarrow> db' | Inl _ \<Rightarrow> db)
     | Delete_Rows ds \<Rightarrow> (case delete_domains ds db of Inr db' \<Rightarrow> db' | Inl _ \<Rightarrow> db))"

text \<open>
  C17: However hostnames are added, changed and deleted, and workspaces saved: every hostname belongs to
  one row, a workspace has at most one default and at most one primary hostname, and a primary one is
  a custom hostname that was verified.
\<close>

theorem hostnames_stay_sound:
  assumes "domains_ok (tn_domains db)"
  shows "domains_ok (tn_domains (fold (after_domain_call D) calls db))"
  using assms
proof (induction calls arbitrary: db)
  case (Cons c calls)
  have "domains_ok (tn_domains (after_domain_call D c db))"
  proof (cases c)
    case (Save_Workspace v)
    then show ?thesis using save_workspace_ok [OF _ Cons.prems, of D v] by (simp add: after_domain_call_def) (metis prod.collapse)
  next
    case (Upsert w h p vs ss)
    have "domains_ok (tn_domains db')" if "upsert_custom w h p vs ss db = Inr (r, db')" for r db'
      using upsert_cases [OF that Cons.prems] Cons.prems by metis
    with Upsert Cons.prems show ?thesis by (auto simp: after_domain_call_def split: sum.splits prod.splits)
  next
    case (Save_Row d)
    have "domains_ok (tn_domains db')" if "save_domain True d db = Inr (r, db')" for r db'
      using that Cons.prems by (rule save_domain_Inr) simp_all
    with Save_Row Cons.prems show ?thesis by (auto simp: after_domain_call_def split: sum.splits prod.splits)
  next
    case (Delete_Rows ds)
    then show ?thesis using delete_domains_ok [OF _ Cons.prems, of ds] Cons.prems by (auto simp: after_domain_call_def split: sum.splits)
  qed
  with Cons.IH show ?case by simp
qed simp

text \<open>
  C18: A hostname made primary is stored afterwards (as it was given, normalized once, or twice when its row is new)
  and is the one primary hostname of its workspace, verified, and the public
  address from the next question on, whatever was cached; the hostnames of other workspaces stay.
  A hostname of another workspace is refused as taken, and any other is accepted unless it is too long,
  does not stay as it is when it is normalized again (as one that starts with \<open>www.www.\<close>), or is given as
  failed, or a stored hostname cannot be read.
\<close>

theorem primary_is_the_address:
  assumes "domains_ok (tn_domains db)" "normalize_hostname hostname = Some host" "host \<noteq> []" "verified \<noteq> Some Unverified"
  shows "case upsert_custom (ws_id v) hostname True verified ssl db of
      Inl err \<Rightarrow> if \<exists>x \<in> set (tn_domains db). dn_hostname x = host \<and> dn_workspace x \<noteq> ws_id v then err = Hostname_Taken
        else normalize_hostname host \<noteq> Some host \<or> 255 < length host \<or> verified = Some Verification_Failed \<or>
          (\<exists>x \<in> set (tn_domains db). normalize_hostname (dn_hostname x) = None)
    | Inr (r, db') \<Rightarrow> (\<forall>x \<in> set (tn_domains db). dn_hostname x = host \<longrightarrow> dn_workspace x = ws_id v) \<and>
        (\<forall>x. dn_workspace x \<noteq> ws_id v \<longrightarrow> (x \<in> set (tn_domains db') \<longleftrightarrow> x \<in> set (tn_domains db))) \<and>
        (\<exists>x \<in> set (tn_domains db'). dn_workspace x = ws_id v \<and> (dn_hostname x = host \<or> normalize_hostname host = Some (dn_hostname x)) \<and>
           (\<forall>y \<in> set (tn_domains db'). dn_workspace y = ws_id v \<longrightarrow> (dn_primary y \<longleftrightarrow> y = x)) \<and> dn_verification x = Verified \<and>
           map_sum id fst (resolve_base_url D (Some v) [] db') = Inr (''https://'' @ dn_hostname x))"
proof (cases "upsert_custom (ws_id v) hostname True verified ssl db")
  case (Inl err)
  have "err = Hostname_Taken" if x: "x \<in> set (tn_domains db)" "dn_hostname x = host" "dn_workspace x \<noteq> ws_id v" for x
    using Inl assms(2,3) first_hostname [OF assms(1) x(1,2)] x(3) by (simp add: upsert_custom_def)
  moreover have "normalize_hostname host \<noteq> Some host \<or> 255 < length host \<or> verified = Some Verification_Failed \<or>
      (\<exists>x \<in> set (tn_domains db). normalize_hostname (dn_hostname x) = None)"
    if "\<forall>x \<in> set (tn_domains db). dn_hostname x = host \<longrightarrow> dn_workspace x = ws_id v"
    using primary_is_accepted [OF assms(1-3) _ _ assms(4) _ _ that, of ssl] Inl by force
  ultimately show ?thesis using Inl by auto
next
  case (Inr a)
  obtain r db' where a: "a = (r, db')" by fastforce
  let ?w = "ws_id v"
  let ?db1 = "demote_for ?w host db"
  have free: "dn_workspace x = ?w" if x: "x \<in> set (tn_domains db)" "dn_hostname x = host" for x
    using Inr assms(2,3) first_hostname [OF assms(1) x] by (auto simp: upsert_custom_def split: if_splits)
  from Inr [unfolded a] assms(1) obtain d0 d h row where h: "normalize_hostname host = Some h" and d: "r = Some d" "d = (custom_row True verified ssl d0)\<lparr>dn_hostname := h\<rparr>"
      "dn_workspace d0 = ?w" "domains_ok (tn_domains ?db1)"
      "row = (if d0 \<in> set (tn_domains db) then d\<lparr>dn_hostname := dn_hostname d0\<rparr> else d)"
      "d0 \<in> set (tn_domains db) \<and> dn_hostname d0 = host \<or> dn_id d0 = fresh_id dn_id (tn_domains db)"
      "same_tables (write_domain row ?db1) db'" "domains_ok (tn_domains db')" "\<forall>t. kept_get t (base_url_key ?w) (tn_cache db') = None"
  proof (rule upsert_cases)
    assume "r = None" "db' = db"
    then show thesis using Inr a upsert_some [OF assms(2,3)] by metis
  qed (use assms(2) in auto)
  have set: "set (tn_domains db') = insert row (set (filter (\<lambda>x. dn_id x \<noteq> dn_id row) (tn_domains ?db1)))"
    using same_tables_domains [OF d(7)] set_write_domain by simp
  have row: "dn_workspace row = ?w" "dn_primary row" "dn_kind row = Custom" "dn_id row = dn_id d0"
    using d(2,3,5) by (auto simp: custom_row_def)
  have mem: "row \<in> set (tn_domains db')" by (simp add: set)
  have ver: "dn_verification row = Verified" using domains_okD(1) [OF d(8) mem mem] row by (simp add: clean_problem_def)
  have only: "dn_primary y \<longleftrightarrow> y = row" if "y \<in> set (tn_domains db')" "dn_workspace y = ?w" for y
    using domains_okD(2) [OF d(8) mem that(1)] that(2) row same_domain [OF d(8) that(1) mem] by (auto simp: conflict_def)
  have others: "x \<in> set (tn_domains db') \<longleftrightarrow> x \<in> set (tn_domains db)" if "dn_workspace x \<noteq> ?w" for x
  proof -
    have in1: "x \<in> set (tn_domains ?db1) \<longleftrightarrow> x \<in> set (tn_domains db)" using that
      by (auto simp: demote_for_def set_update_where image_iff intro!: bexI [of _ x])
    have "dn_id x \<noteq> dn_id row" if "x \<in> set (tn_domains db)"
      using d(3,6) that \<open>dn_workspace x \<noteq> ?w\<close> same_domain [OF assms(1), of x d0] unfolding row(4) by (metis fresh_id_neq(2))
    with in1 show ?thesis using that row(1) by (auto simp: set)
  qed
  have fl: "filter (\<lambda>d. dn_workspace d = ?w \<and> dn_kind d = Custom \<and> dn_verification d = Verified \<and> dn_primary d) (tn_domains db') \<noteq> []"
    using mem row ver by (auto simp: filter_empty_conv)
  then obtain x where x: "primary_domain db' ?w = Some x" by (cases "primary_domain db' ?w") (simp_all add: primary_domain_def)
  have "x = row" using earliest_by_in [OF x [unfolded primary_domain_def]] only by auto
  then have "map_sum id fst (resolve_base_url D (Some v) [] db') = Inr (''https://'' @ dn_hostname row)"
    using x d(9) by (simp add: resolve_base_url_def normalize_hostname_def lowercase_def strip_def kept_url_def Let_def)
  moreover have "dn_hostname row = host \<or> normalize_hostname host = Some (dn_hostname row)"
    using d(2,5,6) h by (auto dest: fresh_id_neq(1))
  ultimately show ?thesis using Inr a free others only ver mem row(1) by auto
qed

end
