(* ===== verification/Tenancy.thy ===== *)
theory Tenancy
  imports Domains
begin

text \<open>
  How a request finds its workspace (\<open>common/middleware.py\<close>): the paths outside any workspace, the token,
  the session, the header and the hostname, what is cached of them, the membership check, and the
  workspace bound for the queries of the request (\<open>common/managers.py\<close>). Verifying a token is
  \<open>simplejwt\<close>'s and a parameter: it answers the claims of a valid token. The session, the
  authenticated user and the host Django accepts are read from the request.
\<close>

subsection \<open>Requests\<close>

text \<open>A claim as it comes out of JSON or the session: what \<open>int\<close> is asked of.\<close>

datatype claim = Claim_Int int | Claim_Text string | Claim_Other

definition claim_int :: "claim \<Rightarrow> int option" where
  "claim_int c = (case c of Claim_Int n \<Rightarrow> Some n | Claim_Text s \<Rightarrow> python_int s | Claim_Other \<Rightarrow> None)"

record token =
  tk_workspace :: "claim option"
  tk_user :: "claim option"

record request =
  rq_path :: string
  rq_method :: string
  rq_authorization :: string
  rq_workspace_header :: string
  rq_session :: "claim option"
  rq_forwarded_host :: string
  rq_host :: "string option"
  rq_api_key :: "string option"
  rq_api_secret :: "string option"
  rq_user :: "user_row option"

datatype extra_paths = Bare_Path string | Paths "string list"

record tenant_env =
  te_env :: env
  te_extra_public :: extra_paths
  te_is_prod :: bool
  te_bypass :: bool
  te_decode :: "string \<Rightarrow> token option"

datatype tenant_error = Hostname_Error | Host_Not_Allowed

subsection \<open>Paths outside any workspace\<close>

definition PUBLIC_PATHS :: "string list" where
  "PUBLIC_PATHS = [''/api/v1/auth/'', ''/api/v1/platform/'', ''/api/v1/internal/'', ''/api/v1/health/'',
     ''/api/v1/invitations/preview/'', ''/api/v1/invitations/accept/'', ''/api/schema/'', ''/api/docs/'', ''/api/redoc/'',
     ''/admin/'', ''/.well-known/'', ''/api/v1/stripe/webhook/'', ''/media/'', ''/images/'', ''/static/'']"

definition TENANT_BOOTSTRAP_PATHS :: "string list" where
  "TENANT_BOOTSTRAP_PATHS = [''/api/v1/workspaces/'', ''/api/v1/workspaces'']"

definition public_path_prefixes :: "extra_paths \<Rightarrow> string list" where
  "public_path_prefixes extra = PUBLIC_PATHS @ filter (\<lambda>p. p \<noteq> []) (case extra of Bare_Path p \<Rightarrow> [p] | Paths ps \<Rightarrow> ps)"

definition is_public :: "tenant_env \<Rightarrow> string \<Rightarrow> bool" where
  "is_public T path \<longleftrightarrow> list_ex (\<lambda>p. startswith p path) (public_path_prefixes (te_extra_public T))"

subsection \<open>Finding a workspace\<close>

text \<open>
  \<open>_get_workspace_by_id\<close>: a cached row counts while it says active. An id out of the range of the
  column has no row.
\<close>

definition active_row :: "tenant_db \<Rightarrow> int \<Rightarrow> workspace option" where
  "active_row db n = (if n < 0 then None else case tenant_by_id db (nat n) of Some v \<Rightarrow> if ws_active v then Some v else None | None \<Rightarrow> None)"

definition id_key :: "int \<Rightarrow> string" where
  "id_key n = (if n < 0 then ''workspace:id:-'' @ show_nat (nat (- n)) else workspace_key (nat n))"

definition get_workspace_by_id :: "env \<Rightarrow> claim \<Rightarrow> tenant_db \<Rightarrow> workspace option \<times> tenant_db" where
  "get_workspace_by_id e c db = (case claim_int c of None \<Rightarrow> (None, db)
     | Some n \<Rightarrow> (case kept_get (now e) (id_key n) (tn_cache db) of
         Some (Kept_Workspace v) \<Rightarrow> if ws_active v then (Some v, db) else (None, unkeep (id_key n) db)
       | _ \<Rightarrow> let r = active_row db n in
           (r, keep e (id_key n) (case r of Some v \<Rightarrow> Kept_Workspace v | None \<Rightarrow> Kept_None) db)))"

text \<open>\<open>_get_workspace_by_domain\<close>: a hostname that was verified, of an active workspace.\<close>

definition workspace_of_hostname :: "tenant_db \<Rightarrow> string \<Rightarrow> workspace option" where
  "workspace_of_hostname db h = (case first (filter (\<lambda>d. dn_hostname d = h \<and> dn_verification d = Verified \<and>
       (case tenant_by_id db (dn_workspace d) of Some v \<Rightarrow> ws_active v | None \<Rightarrow> False)) (tn_domains db)) of
     None \<Rightarrow> None | Some d \<Rightarrow> tenant_by_id db (dn_workspace d))"

definition get_workspace_by_domain :: "env \<Rightarrow> string \<Rightarrow> tenant_db \<Rightarrow> (tenant_error + workspace option) \<times> tenant_db" where
  "get_workspace_by_domain e host db = (case normalize_hostname host of None \<Rightarrow> (Inl Hostname_Error, db)
     | Some h \<Rightarrow> if h = [] then (Inr None, db)
         else case domain_key h of None \<Rightarrow> (Inl Hostname_Error, db)
         | Some k \<Rightarrow> (case kept_get (now e) k (tn_cache db) of
             Some (Kept_Workspace v) \<Rightarrow> (Inr (Some v), db)
           | _ \<Rightarrow> let r = workspace_of_hostname db h in
               (Inr r, keep e k (case r of Some v \<Rightarrow> Kept_Workspace v | None \<Rightarrow> Kept_None) db)))"

subsection \<open>Tokens\<close>

definition bearer :: "request \<Rightarrow> string option" where
  "bearer q = (if startswith ''Bearer '' (rq_authorization q) then Some (drop 7 (rq_authorization q)) else None)"

text \<open>\<open>_decode_jwt_workspace_id\<close>: a claim that is no number makes the token as good as invalid.\<close>

definition decode_workspace :: "tenant_env \<Rightarrow> request \<Rightarrow> int option \<times> bool" where
  "decode_workspace T q = (case bearer q of None \<Rightarrow> (None, False)
     | Some raw \<Rightarrow> (case te_decode T raw of None \<Rightarrow> (None, False)
       | Some t \<Rightarrow> (case tk_workspace t of None \<Rightarrow> (None, True)
         | Some c \<Rightarrow> (case claim_int c of Some n \<Rightarrow> (Some n, True) | None \<Rightarrow> (None, False)))))"

definition superuser_can_override :: "tenant_env \<Rightarrow> request \<Rightarrow> tenant_db \<Rightarrow> bool" where
  "superuser_can_override T q db \<longleftrightarrow> te_bypass T \<and> (case bearer q of None \<Rightarrow> False
     | Some raw \<Rightarrow> (case te_decode T raw of None \<Rightarrow> False
       | Some t \<Rightarrow> (case tk_user t of None \<Rightarrow> False
         | Some c \<Rightarrow> (case claim_int c of None \<Rightarrow> False
           | Some n \<Rightarrow> list_ex (\<lambda>u. int (us_id u) = n \<and> us_superuser u \<and> us_active u) (tn_users db)))))"

subsection \<open>Resolving\<close>

definition host_of :: "request \<Rightarrow> tenant_error + string" where
  "host_of q = (if rq_forwarded_host q \<noteq> [] then Inr (strip (before CHR '':'' (rq_forwarded_host q)))
     else case rq_host q of Some h \<Rightarrow> Inr (strip (before CHR '':'' h)) | None \<Rightarrow> Inl Host_Not_Allowed)"

definition resolve_workspace :: "tenant_env \<Rightarrow> request \<Rightarrow> tenant_db \<Rightarrow> (tenant_error + workspace option) \<times> tenant_db" where
  "resolve_workspace T q db = (let e = te_env T; by_id = (\<lambda>c. map_prod Inr id (get_workspace_by_id e c db)) in
     case decode_workspace T q of
       (Some n, _) \<Rightarrow> if superuser_can_override T q db \<and> rq_workspace_header q \<noteq> []
         then by_id (Claim_Text (rq_workspace_header q)) else by_id (Claim_Int n)
     | (None, valid) \<Rightarrow> (case rq_session q of Some c \<Rightarrow> by_id c
       | None \<Rightarrow> if te_is_prod T \<and> valid then (Inr None, db)
           else if rq_workspace_header q \<noteq> [] then by_id (Claim_Text (rq_workspace_header q))
           else case host_of q of Inl err \<Rightarrow> (Inl err, db)
             | Inr h \<Rightarrow> if h = [] then (Inr None, db) else get_workspace_by_domain e h db))"

subsection \<open>Membership\<close>

definition is_staff :: "tenant_db \<Rightarrow> nat \<Rightarrow> nat \<Rightarrow> bool" where
  "is_staff db w u \<longleftrightarrow> list_ex (\<lambda>m. sm_workspace m = w \<and> sm_user m = u \<and> sm_active m) (tn_staff db)"

definition is_shopper :: "tenant_db \<Rightarrow> nat \<Rightarrow> nat \<Rightarrow> bool" where
  "is_shopper db w u \<longleftrightarrow> list_ex (\<lambda>c. sh_workspace c = w \<and> sh_user c = u \<and> sh_active c) (tn_shoppers db)"

text \<open>\<open>_hydrate_workspace_access\<close>: whether the user is staff and a customer, cached for a while.\<close>

definition hydrate_access :: "tenant_env \<Rightarrow> user_row option \<Rightarrow> workspace \<Rightarrow> tenant_db \<Rightarrow> (bool \<times> bool) \<times> tenant_db" where
  "hydrate_access T user v db = (case user of None \<Rightarrow> ((False, False), db)
     | Some u \<Rightarrow> if us_superuser u \<and> te_bypass T then ((True, False), db)
         else let e = te_env T; k = access_key (us_id u) (ws_id v) in
           case kept_get (now e) k (tn_cache db) of Some (Kept_Access s c) \<Rightarrow> ((s, c), db)
           | _ \<Rightarrow> let s = is_staff db (ws_id v) (us_id u); c = is_shopper db (ws_id v) (us_id u) in
               ((s, c), keep e k (Kept_Access s c) db))"

subsection \<open>Dispatching\<close>

text \<open>
  What becomes of a request: handed to the view with the workspace bound (to the request and to the
  thread) and the flags, or without one; refused for want of a workspace or a membership; or an error.
\<close>

datatype reply = To_View workspace bool bool | To_View_Unbound | Workspace_Required | Access_Denied | Raised tenant_error

definition delegates :: "request \<Rightarrow> bool" where
  "delegates q \<longleftrightarrow> rq_api_key q \<noteq> None"

definition dispatch :: "tenant_env \<Rightarrow> request \<Rightarrow> tenant_db \<Rightarrow> reply \<times> tenant_db" where
  "dispatch T q db =
    (if is_public T (rq_path q) then (To_View_Unbound, db)
     else case resolve_workspace T q db of
       (Inl err, db) \<Rightarrow> (Raised err, db)
     | (Inr None, db) \<Rightarrow> (if rq_path q \<in> set TENANT_BOOTSTRAP_PATHS \<or> delegates q then To_View_Unbound else Workspace_Required, db)
     | (Inr (Some v), db) \<Rightarrow> (let ((s, c), db) = hydrate_access T (rq_user q) v db in
         case rq_user q of
           Some u \<Rightarrow> if \<not> us_superuser u \<and> \<not> s \<and> \<not> c then (Access_Denied, db) else (To_View v s c, db)
         | None \<Rightarrow> (To_View v s c, db)))"

text \<open>
  \<open>TenantScopedManager.get_queryset\<close>: the rows a view sees through \<open>objects\<close>, none without a
  workspace. The binding holds while the view runs and is cleared before and after.
\<close>

definition bound_to :: "reply \<Rightarrow> nat option" where
  "bound_to r = (case r of To_View v _ _ \<Rightarrow> Some (ws_id v) | _ \<Rightarrow> None)"

definition tenant_objects :: "nat option \<Rightarrow> ('a \<Rightarrow> nat) \<Rightarrow> 'a list \<Rightarrow> 'a list" where
  "tenant_objects bound workspace_of rows = (case bound of None \<Rightarrow> [] | Some w \<Rightarrow> filter (\<lambda>r. workspace_of r = w) rows)"

definition call_middleware :: "tenant_env \<Rightarrow> request \<Rightarrow> nat option \<Rightarrow> tenant_db \<Rightarrow> reply \<times> nat option \<times> tenant_db" where
  "call_middleware T q left_over db = (let (r, db) = dispatch T q db in (r, None, db))"

subsection \<open>Requests that have no workspace yet\<close>

text \<open>\<open>resolve_workspace_for_public_request\<close>: the first of the header and the hosts that names one.\<close>

fun first_domain :: "env \<Rightarrow> string list \<Rightarrow> tenant_db \<Rightarrow> (tenant_error + workspace option) \<times> tenant_db" where
  "first_domain e [] db = (Inr None, db)"
| "first_domain e (raw # raws) db = (let host = before CHR '':'' (strip (before CHR '','' raw)) in
     if host = [] then first_domain e raws db
     else case get_workspace_by_domain e host db of (Inr None, db) \<Rightarrow> first_domain e raws db | r \<Rightarrow> r)"

definition resolve_for_public_request :: "tenant_env \<Rightarrow> request \<Rightarrow> workspace option \<Rightarrow> string \<Rightarrow> tenant_db
    \<Rightarrow> (tenant_error + workspace option) \<times> tenant_db" where
  "resolve_for_public_request T q bound extra_host db = (case bound of Some v \<Rightarrow> (Inr (Some v), db)
     | None \<Rightarrow> (let e = te_env T;
         (r, db) = (if rq_workspace_header q \<noteq> [] then get_workspace_by_id e (Claim_Text (rq_workspace_header q)) db else (None, db)) in
         case r of Some v \<Rightarrow> (Inr (Some v), db)
         | None \<Rightarrow> (case rq_host q of None \<Rightarrow> (Inl Host_Not_Allowed, db)
           | Some h \<Rightarrow> first_domain e [extra_host, rq_forwarded_host q, h] db)))"

end
