(* ===== verification/Tenancy_Laws.thy ===== *)
theory Tenancy_Laws
  imports Tenancy
begin

text \<open>
  What the middleware promises: a request that reaches a view with a workspace has the one its token,
  session, header or hostname names, active, and a signed-in user belongs to it; the queries of the
  view see no other workspace's rows. It holds while the cache says what the tables say, which requests
  keep true; the lemmas at the end show what makes it say something else.
\<close>

subsection \<open>What the cache says\<close>

definition ids_sound :: "tenant_db \<Rightarrow> bool" where
  "ids_sound db \<longleftrightarrow> (\<forall>t n v. kept_get t (id_key n) (tn_cache db) = Some v \<longrightarrow> (\<exists>w. v = Kept_Workspace w \<and> active_row db n = Some w))"

definition hosts_sound :: "tenant_db \<Rightarrow> bool" where
  "hosts_sound db \<longleftrightarrow> (\<forall>t h v. kept_get t (domain_key_of h) (tn_cache db) = Some v \<longrightarrow>
     (\<exists>w. v = Kept_Workspace w \<and> workspace_of_hostname db h = Some w))"

definition access_sound :: "tenant_db \<Rightarrow> bool" where
  "access_sound db \<longleftrightarrow> (\<forall>t u w v. kept_get t (access_key u w) (tn_cache db) = Some v \<longrightarrow> v = Kept_Access (is_staff db w u) (is_shopper db w u))"

definition cache_sound :: "tenant_db \<Rightarrow> bool" where
  "cache_sound db \<longleftrightarrow> ids_sound db \<and> hosts_sound db \<and> access_sound db"

lemmas sound_defs = ids_sound_def hosts_sound_def access_sound_def

lemma id_key_neqs [simp]:
  "id_key n = id_key m \<longleftrightarrow> n = m" "id_key n \<noteq> domain_key_of h" "domain_key_of h \<noteq> id_key n" "id_key n \<noteq> access_key u w" "access_key u w \<noteq> id_key n"
proof -
  have minus: "CHR ''-'' # s \<noteq> show_nat k" "show_nat k \<noteq> CHR ''-'' # s" for s k
    by (metis list.set_intros(1) minus_no_digit(2))+
  show "id_key n = id_key m \<longleftrightarrow> n = m" using minus by (auto simp: id_key_def workspace_key_def split: if_splits)
  show "id_key n \<noteq> domain_key_of h" "domain_key_of h \<noteq> id_key n" "id_key n \<noteq> access_key u w" "access_key u w \<noteq> id_key n"
    by (simp_all add: id_key_def workspace_key_def domain_key_of_def access_key_def)
qed

lemma tenant_by_id_Some: "tenant_by_id db w = Some v \<Longrightarrow> ws_id v = w"
  by (auto simp: tenant_by_id_def workspace_by_id_def dest: first_filter_SomeD)

lemma active_row_Some: "active_row db n = Some v \<Longrightarrow> tenant_by_id db (ws_id v) = Some v \<and> ws_active v \<and> int (ws_id v) = n"
  using tenant_by_id_Some [of db "nat n" v] by (auto simp: active_row_def split: if_splits option.splits)

lemma workspace_of_hostname_Some:
  assumes "workspace_of_hostname db h = Some v"
  shows "tenant_by_id db (ws_id v) = Some v \<and> ws_active v \<and>
    (\<exists>d \<in> set (tn_domains db). dn_hostname d = h \<and> dn_verification d = Verified \<and> dn_workspace d = ws_id v)"
proof -
  from assms obtain d where d: "first (filter (\<lambda>d. dn_hostname d = h \<and> dn_verification d = Verified \<and>
      (case tenant_by_id db (dn_workspace d) of Some v \<Rightarrow> ws_active v | None \<Rightarrow> False)) (tn_domains db)) = Some d"
    "tenant_by_id db (dn_workspace d) = Some v" by (auto simp: workspace_of_hostname_def split: option.splits)
  from first_filter_SomeD [OF d(1)] d(2) have "d \<in> set (tn_domains db)" "dn_hostname d = h" "dn_verification d = Verified" "ws_active v" by simp_all
  moreover have "ws_id v = dn_workspace d" using d(2) by (auto simp: tenant_by_id_def workspace_by_id_def dest: first_filter_SomeD)
  ultimately show ?thesis using d(2) by auto
qed

text \<open>Dropping and keeping what the tables say keeps the cache sound.\<close>

lemma tables_reads:
  assumes "same_tables db db'"
  shows "active_row db' n = active_row db n" "workspace_of_hostname db' h = workspace_of_hostname db h"
    "is_staff db' w u = is_staff db w u" "is_shopper db' w u = is_shopper db w u" "tenant_by_id db' w = tenant_by_id db w"
    "superuser_can_override T q db' = superuser_can_override T q db"
proof -
  have t: "tenant_by_id db' = tenant_by_id db" using assms by (auto simp: same_tables_def tenant_by_id_def)
  then show "tenant_by_id db' w = tenant_by_id db w" by simp
  show "active_row db' n = active_row db n" by (simp add: active_row_def t)
  show "workspace_of_hostname db' h = workspace_of_hostname db h" using assms unfolding workspace_of_hostname_def t by (simp add: same_tables_def)
  show "is_staff db' w u = is_staff db w u" "is_shopper db' w u = is_shopper db w u"
    "superuser_can_override T q db' = superuser_can_override T q db"
    using assms by (simp_all add: is_staff_def is_shopper_def superuser_can_override_def same_tables_def cong: option.case_cong)
qed

lemma same_tables_keep [simp]: "same_tables db (keep e k v db)" "same_tables db (unkeep k db)" "same_tables db db"
  by (simp_all add: same_tables_def)

lemma same_tables_trans: "same_tables a b \<Longrightarrow> same_tables b c \<Longrightarrow> same_tables a c"
  by (simp add: same_tables_def)

lemmas kept_reads = tables_reads [OF same_tables_keep(1)] tables_reads [OF same_tables_keep(2)]

lemma keep_none_sound [simp]:
  "ids_sound db \<Longrightarrow> ids_sound (keep e k Kept_None db)" "hosts_sound db \<Longrightarrow> hosts_sound (keep e k Kept_None db)"
  "access_sound db \<Longrightarrow> access_sound (keep e k Kept_None db)"
  by (simp_all add: sound_defs kept_get_keep kept_reads)

lemma unkeep_sound [simp]:
  "ids_sound db \<Longrightarrow> ids_sound (unkeep k db)" "hosts_sound db \<Longrightarrow> hosts_sound (unkeep k db)" "access_sound db \<Longrightarrow> access_sound (unkeep k db)"
  by (simp_all add: sound_defs kept_reads)

lemma keep_id_sound [simp]:
  "ids_sound db \<Longrightarrow> active_row db n = Some w \<Longrightarrow> ids_sound (keep e (id_key n) (Kept_Workspace w) db)"
  "hosts_sound db \<Longrightarrow> hosts_sound (keep e (id_key n) v db)" "access_sound db \<Longrightarrow> access_sound (keep e (id_key n) v db)"
  by (simp_all add: sound_defs kept_get_keep kept_reads)

lemma keep_host_sound [simp]:
  "hosts_sound db \<Longrightarrow> workspace_of_hostname db h = Some w \<Longrightarrow> hosts_sound (keep e (domain_key_of h) (Kept_Workspace w) db)"
  "ids_sound db \<Longrightarrow> ids_sound (keep e (domain_key_of h) v db)" "access_sound db \<Longrightarrow> access_sound (keep e (domain_key_of h) v db)"
  by (simp_all add: sound_defs kept_get_keep kept_reads)

lemma keep_access_sound [simp]:
  "access_sound db \<Longrightarrow> access_sound (keep e (access_key u w) (Kept_Access (is_staff db w u) (is_shopper db w u)) db)"
  "ids_sound db \<Longrightarrow> ids_sound (keep e (access_key u w) v db)" "hosts_sound db \<Longrightarrow> hosts_sound (keep e (access_key u w) v db)"
  by (auto simp: sound_defs kept_get_keep kept_reads)

subsection \<open>The look-ups\<close>

lemma by_id_sound:
  assumes "get_workspace_by_id e c db = (r, db')" "ids_sound db"
  shows "ids_sound db' \<and> (hosts_sound db \<longrightarrow> hosts_sound db') \<and> (access_sound db \<longrightarrow> access_sound db') \<and> same_tables db db' \<and>
    (\<forall>v. r = Some v \<longrightarrow> (\<exists>n. claim_int c = Some n \<and> active_row db n = Some v))"
proof (cases "claim_int c")
  case None
  then show ?thesis using assms by (auto simp: get_workspace_by_id_def)
next
  case (Some n)
  note n = Some
  show ?thesis
  proof (cases "kept_get (now e) (id_key n) (tn_cache db)")
    case None
    then show ?thesis using assms n by (cases "active_row db n") (auto simp: get_workspace_by_id_def Let_def)
  next
    case (Some k)
    then obtain w where "k = Kept_Workspace w" "active_row db n = Some w" using assms(2) unfolding ids_sound_def by blast
    then show ?thesis using assms Some n by (auto simp: get_workspace_by_id_def split: if_splits)
  qed
qed

text \<open>A hostname is written in its normal form when normalizing it again changes nothing.\<close>

definition normal_host :: "string \<Rightarrow> bool" where
  "normal_host host \<longleftrightarrow> (\<forall>h. normalize_hostname host = Some h \<longrightarrow> normalize_hostname h = Some h)"

lemma by_domain_sound:
  assumes "get_workspace_by_domain e host db = (r, db')" "hosts_sound db"
  shows "same_tables db db' \<and> (normal_host host \<longrightarrow> hosts_sound db') \<and> (ids_sound db \<longrightarrow> ids_sound db') \<and> (access_sound db \<longrightarrow> access_sound db') \<and>
    (\<forall>v. r = Inr (Some v) \<longrightarrow> (\<exists>h g. normalize_hostname host = Some h \<and> (g = h \<or> normalize_hostname h = Some g) \<and> workspace_of_hostname db g = Some v))"
proof (cases "normalize_hostname host")
  case None
  then show ?thesis using assms by (auto simp: get_workspace_by_domain_def)
next
  case (Some h)
  note h = Some
  show ?thesis
  proof (cases "h = [] \<or> normalize_hostname h = None")
    case True
    then show ?thesis using assms h by (auto simp: get_workspace_by_domain_def domain_key_def split: if_splits)
  next
    case False
    then obtain g where g: "normalize_hostname h = Some g" by auto
    show ?thesis
    proof (cases "kept_get (now e) (domain_key_of g) (tn_cache db)")
      case None
      have "normal_host host \<Longrightarrow> g = h" using h g by (simp add: normal_host_def)
      then show ?thesis using assms h g False None
        by (cases "workspace_of_hostname db h") (auto simp: get_workspace_by_domain_def domain_key_def Let_def)
    next
      case (Some k)
      then obtain w where "k = Kept_Workspace w" "workspace_of_hostname db g = Some w" using assms(2) unfolding hosts_sound_def by blast
      then show ?thesis using assms h g False Some by (auto simp: get_workspace_by_domain_def domain_key_def)
    qed
  qed
qed

lemma hydrate_sound:
  assumes "hydrate_access T user v db = ((s, c), db')" "access_sound db"
  shows "access_sound db' \<and> (ids_sound db \<longrightarrow> ids_sound db') \<and> (hosts_sound db \<longrightarrow> hosts_sound db') \<and> same_tables db db' \<and>
    (\<forall>u. user = Some u \<and> \<not> us_superuser u \<longrightarrow> s = is_staff db (ws_id v) (us_id u) \<and> c = is_shopper db (ws_id v) (us_id u))"
proof (cases user)
  case None
  then show ?thesis using assms by (simp add: hydrate_access_def)
next
  case (Some u)
  note u = Some
  show ?thesis
  proof (cases "kept_get (now (te_env T)) (access_key (us_id u) (ws_id v)) (tn_cache db)")
    case None
    show ?thesis
    proof (cases "us_superuser u \<and> te_bypass T")
      case True
      then show ?thesis using assms u by (simp add: hydrate_access_def)
    next
      case False
      then have nb: "(us_superuser u \<and> te_bypass T) = False" by simp
      have "s = is_staff db (ws_id v) (us_id u)" "c = is_shopper db (ws_id v) (us_id u)" "db' = keep (te_env T)
          (access_key (us_id u) (ws_id v)) (Kept_Access (is_staff db (ws_id v) (us_id u)) (is_shopper db (ws_id v) (us_id u))) db"
        using assms(1) u None by (auto simp: hydrate_access_def Let_def nb)
      then show ?thesis using assms(2) u by simp
    qed
  next
    case (Some k)
    then have "k = Kept_Access (is_staff db (ws_id v) (us_id u)) (is_shopper db (ws_id v) (us_id u))"
      using assms(2) unfolding access_sound_def by blast
    then show ?thesis using assms u Some by (auto simp: hydrate_access_def Let_def split: if_splits)
  qed
qed

text \<open>
  Which of the ways to find a workspace is taken: the number the request gives, by its token (or, for a
  superuser who may, by the header), its session or its header; without any, its hostname.
\<close>

definition claim_of :: "tenant_env \<Rightarrow> request \<Rightarrow> tenant_db \<Rightarrow> claim option" where
  "claim_of T q db = (case fst (decode_workspace T q) of
     Some n \<Rightarrow> Some (if superuser_can_override T q db \<and> rq_workspace_header q \<noteq> [] then Claim_Text (rq_workspace_header q) else Claim_Int n)
   | None \<Rightarrow> (case rq_session q of Some c \<Rightarrow> Some c
     | None \<Rightarrow> if rq_workspace_header q \<noteq> [] then Some (Claim_Text (rq_workspace_header q)) else None))"

lemma resolve_cases:
  assumes "resolve_workspace T q db = (r, db')"
  obtains (by_id) c x where "get_workspace_by_id (te_env T) c db = (x, db')" "r = Inr x" "claim_of T q db = Some c"
      "decode_workspace T q = (None, True) \<longrightarrow> rq_session q = None \<longrightarrow> \<not> te_is_prod T"
  | (by_host) h where "get_workspace_by_domain (te_env T) h db = (r, db')" "host_of q = Inr h" "claim_of T q db = None"
      "decode_workspace T q = (None, True) \<longrightarrow> rq_session q = None \<longrightarrow> \<not> te_is_prod T"
  | (nothing) "db' = db" "\<forall>v. r \<noteq> Inr (Some v)"
proof -
  obtain n valid where dw: "decode_workspace T q = (n, valid)" by fastforce
  show ?thesis
  proof (cases "n = None \<and> rq_session q = None \<and> te_is_prod T \<and> valid")
    case True
    then have e: "db' = db" "r = Inr None" using assms dw by (simp_all add: resolve_workspace_def Let_def)
    show ?thesis by (rule nothing) (simp_all add: e)
  next
    case np: False
    then have prod: "decode_workspace T q = (None, True) \<longrightarrow> rq_session q = None \<longrightarrow> \<not> te_is_prod T" using dw by auto
    show ?thesis
    proof (cases "claim_of T q db")
      case (Some c)
      then have "resolve_workspace T q db = map_prod Inr id (get_workspace_by_id (te_env T) c db)"
        using dw np by (auto simp: resolve_workspace_def claim_of_def Let_def split: option.splits if_splits)
      then obtain x where "get_workspace_by_id (te_env T) c db = (x, db')" "r = Inr x"
        using assms by (cases "get_workspace_by_id (te_env T) c db") (simp add: map_prod_def)
      then show ?thesis using Some prod by (rule by_id)
    next
      case None
      then have none: "n = None" "rq_session q = None" "rq_workspace_header q = []"
        using dw by (auto simp: claim_of_def split: option.splits if_splits)
      then have rw: "resolve_workspace T q db = (case host_of q of Inl err \<Rightarrow> (Inl err, db)
          | Inr h \<Rightarrow> if h = [] then (Inr None, db) else get_workspace_by_domain (te_env T) h db)"
        using dw np by (auto simp: resolve_workspace_def Let_def)
      show ?thesis
      proof (cases "host_of q")
        case (Inl err)
        then have e: "db' = db" "r = Inl err" using assms rw by simp_all
        show ?thesis by (rule nothing) (simp_all add: e)
      next
        case (Inr h)
        show ?thesis
        proof (cases "h = []")
          case True
          then have e: "db' = db" "r = Inr None" using assms rw Inr by simp_all
          show ?thesis by (rule nothing) (simp_all add: e)
        next
          case False
          then have "get_workspace_by_domain (te_env T) h db = (r, db')" using assms rw Inr by simp
          then show ?thesis using Inr None prod by (rule by_host)
        qed
      qed
    qed
  qed
qed

text \<open>A verified domain of the workspace whose name is the host of the request in its normal form (or the normal form of that).\<close>

definition host_names :: "request \<Rightarrow> tenant_db \<Rightarrow> nat \<Rightarrow> bool" where
  "host_names q db w \<longleftrightarrow> (\<exists>host h. host_of q = Inr host \<and> normalize_hostname host = Some h \<and>
     (\<exists>d \<in> set (tn_domains db). (dn_hostname d = h \<or> normalize_hostname h = Some (dn_hostname d)) \<and> dn_verification d = Verified \<and> dn_workspace d = w))"

lemma resolve_sound:
  assumes "resolve_workspace T q db = (r, db')" "cache_sound db"
  shows "same_tables db db' \<and> ids_sound db' \<and> access_sound db' \<and> ((\<forall>h. host_of q = Inr h \<longrightarrow> normal_host h) \<longrightarrow> hosts_sound db') \<and>
    (\<forall>v. r = Inr (Some v) \<longrightarrow> tenant_by_id db (ws_id v) = Some v \<and> ws_active v \<and>
       (decode_workspace T q = (None, True) \<longrightarrow> rq_session q = None \<longrightarrow> \<not> te_is_prod T) \<and>
       (case claim_of T q db of Some c \<Rightarrow> claim_int c = Some (int (ws_id v)) | None \<Rightarrow> host_names q db (ws_id v)))"
  using assms(1)
proof (cases rule: resolve_cases)
  case (by_id c x)
  note s = by_id_sound [OF by_id(1)]
  have "tenant_by_id db (ws_id v) = Some v \<and> ws_active v \<and> claim_int c = Some (int (ws_id v))" if "r = Inr (Some v)" for v
  proof -
    have "x = Some v" using that by_id(2) by simp
    then obtain m where m: "claim_int c = Some m" "active_row db m = Some v" using s assms(2) by (auto simp: cache_sound_def)
    show ?thesis using active_row_Some [OF m(2)] m(1) by simp
  qed
  then show ?thesis using s assms(2) by_id(3,4) by (auto simp: cache_sound_def)
next
  case (by_host host)
  note s = by_domain_sound [OF by_host(1)]
  have "tenant_by_id db (ws_id v) = Some v \<and> ws_active v \<and> host_names q db (ws_id v)" if v: "r = Inr (Some v)" for v
  proof -
    have "hosts_sound db" using assms(2) by (simp add: cache_sound_def)
    with s v obtain h g where g: "normalize_hostname host = Some h" "g = h \<or> normalize_hostname h = Some g" "workspace_of_hostname db g = Some v" by blast
    from workspace_of_hostname_Some [OF g(3)] obtain d where d: "d \<in> set (tn_domains db)" "dn_hostname d = g"
      "dn_verification d = Verified" "dn_workspace d = ws_id v" "tenant_by_id db (ws_id v) = Some v" "ws_active v" by blast
    then have "dn_hostname d = h \<or> normalize_hostname h = Some (dn_hostname d)" using g(2) by simp
    then show ?thesis using d g(1) by_host(2) unfolding host_names_def by blast
  qed
  then show ?thesis using s assms(2) by_host(2-4) by (auto simp: cache_sound_def)
next
  case nothing
  then show ?thesis using assms(2) by (simp add: cache_sound_def)
qed

lemma dispatch_to_view:
  assumes "dispatch T q db = (To_View v s c, db')"
  obtains db1 where "resolve_workspace T q db = (Inr (Some v), db1)" "hydrate_access T (rq_user q) v db1 = ((s, c), db')"
    "\<forall>u. rq_user q = Some u \<longrightarrow> us_superuser u \<or> s \<or> c"
  using assms by (auto simp: dispatch_def split: if_splits prod.splits sum.splits option.splits)

subsection \<open>Properties\<close>


subsection \<open>What makes the cache say something else\<close>

text \<open>
  Deleting a hostname drops the entries of the hostnames that are left: the deleted one goes on naming
  the workspace until its entry runs out.
\<close>

lemma deleted_domain_still_resolves:
  assumes "kept_get (now e) (domain_key_of h) (tn_cache db) = Some (Kept_Workspace v)" "delete_domains [d] db = Inr db'"
    and "dn_hostname d = h" "h \<noteq> []" "normalize_hostname h = Some h"
    and "\<forall>x \<in> set (tn_domains db). dn_id x \<noteq> dn_id d \<longrightarrow> domain_key (dn_hostname x) \<noteq> Some (domain_key_of h)"
  shows "get_workspace_by_domain e h db' = (Inr (Some v), db') \<and> d \<notin> set (tn_domains db')"
proof -
  let ?db = "db\<lparr>tn_domains := filter (\<lambda>x. dn_id x \<noteq> dn_id d) (tn_domains db)\<rparr>"
  have inv: "invalidate_workspace_cache (dn_workspace d) ?db = Inr db'" using assms(2) by (auto simp: bind_r_Inr)
  then obtain db1 where d: "drop_hosts (hostnames_of ?db (dn_workspace d)) ?db = Inr db1"
      "db' = unkeep (base_url_key (dn_workspace d)) (unkeep (workspace_key (dn_workspace d)) db1)"
    by (auto simp: invalidate_workspace_cache_def map_sum_def split: sum.splits)
  have "\<nexists>g. g \<in> set (hostnames_of ?db (dn_workspace d)) \<and> domain_key g = Some (domain_key_of h)"
    using assms(6) by (auto simp: hostnames_of_def)
  then have "kept_get (now e) (domain_key_of h) (tn_cache db') = Some (Kept_Workspace v)"
    using drop_hosts_kept [OF d(1), of "now e" "domain_key_of h"] assms(1) by (auto simp: d(2))
  moreover have "tn_domains db' = filter (\<lambda>x. dn_id x \<noteq> dn_id d) (tn_domains db)" using invalidate_domains [OF inv] by simp
  ultimately show ?thesis using assms(4,5) by (simp add: get_workspace_by_domain_def domain_key_def)
qed

text \<open>Nothing drops what is kept of a membership: somebody taken off the staff is staff until it runs out.\<close>

lemma kept_access_outlives_the_membership:
  assumes "kept_get (now (te_env T)) (access_key (us_id u) (ws_id v)) (tn_cache db) = Some (Kept_Access True c)"
    and "\<not> (us_superuser u \<and> te_bypass T)"
  shows "fst (hydrate_access T (Some u) v (db\<lparr>tn_staff := []\<rparr>)) = (True, c)"
  using assms by (auto simp: hydrate_access_def Let_def)

text \<open>The membership check is only for a user of the session: a token is read later, in the view.\<close>

lemma token_request_is_not_refused: "rq_user q = None \<Longrightarrow> fst (dispatch T q db) \<noteq> Access_Denied"
  by (auto simp: dispatch_def split: prod.splits sum.splits option.splits)

end
