(* ===== verification/Request_Access.thy ===== *)
theory Request_Access
  imports Tenancy_Laws
begin

text \<open>
  What else decides about a request before its view runs: the API key that binds a workspace
  (\<open>src/config/authentication.py\<close>, \<open>common/models/api_key.py\<close>), and the refusal of writes from a workspace
  whose plan has lapsed (\<open>platform/middleware.py\<close>) with its exemptions (\<open>core/read_only.py\<close>). The digest
  of a secret is a function; what \<open>simplejwt\<close> and the session answer is read from the request.
\<close>

subsection \<open>API keys\<close>

datatype auth_error = Invalid_Key | Key_Expired | Key_Inactive | Invalid_Secret

definition key_expired :: "moment \<Rightarrow> api_key \<Rightarrow> bool" where
  "key_expired t k \<longleftrightarrow> (case ak_expires_at k of None \<Rightarrow> False | Some x \<Rightarrow> x \<le> t)"

definition key_usable :: "moment \<Rightarrow> api_key \<Rightarrow> bool" where
  "key_usable t k \<longleftrightarrow> ak_active k \<and> \<not> key_expired t k"

definition verify_secret :: "(string \<Rightarrow> string) \<Rightarrow> string \<Rightarrow> api_key \<Rightarrow> bool" where
  "verify_secret sha secret k \<longleftrightarrow> sha secret = ak_secret_hash k"

definition record_usage :: "moment \<Rightarrow> api_key \<Rightarrow> tenant_db \<Rightarrow> tenant_db" where
  "record_usage t k db = db\<lparr>tn_keys := update_where (\<lambda>x. ak_id x = ak_id k) (\<lambda>x. x\<lparr>ak_last_used := Some t\<rparr>) (tn_keys db)\<rparr>"

text \<open>\<open>create_key\<close> with the prefix and secret drawn: the row, with the digest only.\<close>

definition create_key :: "(string \<Rightarrow> string) \<Rightarrow> string \<Rightarrow> string \<Rightarrow> nat \<Rightarrow> nat option \<Rightarrow> moment option \<Rightarrow> tenant_db \<Rightarrow> api_key \<times> tenant_db" where
  "create_key sha prefix secret w user expires db =
    (let k = \<lparr>ak_id = fresh_id ak_id (tn_keys db), ak_workspace = w, ak_prefix = prefix, ak_secret_hash = sha secret,
         ak_active = True, ak_created_by = user, ak_expires_at = expires, ak_last_used = None\<rparr>
     in (k, db\<lparr>tn_keys := tn_keys db @ [k]\<rparr>))"

definition user_by_id :: "tenant_db \<Rightarrow> nat \<Rightarrow> user_row option" where
  "user_by_id db u = first (filter (\<lambda>x. us_id x = u) (tn_users db))"

text \<open>
  Who the key speaks for, its workspace and the flags; \<open>Inr None\<close> when a header is missing. The creator
  of a key may be nobody.
\<close>

definition key_of_prefix :: "tenant_db \<Rightarrow> string \<Rightarrow> api_key option" where
  "key_of_prefix db prefix = first (filter (\<lambda>k. ak_prefix k = prefix) (tn_keys db))"

definition authenticate_key :: "tenant_env \<Rightarrow> (string \<Rightarrow> string) \<Rightarrow> request \<Rightarrow> tenant_db
    \<Rightarrow> (auth_error + (api_key \<times> workspace \<times> user_row option \<times> bool \<times> bool) option) \<times> tenant_db" where
  "authenticate_key T sha q db = (case (rq_api_key q, rq_api_secret q) of
     (Some prefix, Some secret) \<Rightarrow>
       if prefix = [] \<or> secret = [] then (Inr None, db)
       else (case key_of_prefix db prefix of None \<Rightarrow> (Inl Invalid_Key, db)
       | Some k \<Rightarrow> let t = now (te_env T) in
           if \<not> key_usable t k then (Inl (if key_expired t k then Key_Expired else Key_Inactive), db)
           else if \<not> verify_secret sha secret k then (Inl Invalid_Secret, db)
           else (case tenant_by_id db (ak_workspace k) of None \<Rightarrow> (Inl Invalid_Key, db)
             | Some v \<Rightarrow> let user = (case ak_created_by k of Some u \<Rightarrow> user_by_id db u | None \<Rightarrow> None);
                 ((s, c), db) = hydrate_access T user v (record_usage t k db) in
               (Inr (Some (k, v, user, s, c)), db)))
   | _ \<Rightarrow> (Inr None, db))"

subsection \<open>Exemptions from read-only mode\<close>

text \<open>A mark with its condition, which may raise; what is marked of a view: its actions, the function under it, itself, its class.\<close>

datatype mark = Always | Only_When "request \<Rightarrow> unit + bool"

record view =
  vw_action :: "string \<Rightarrow> string option"
  vw_method_mark :: "string \<Rightarrow> mark option"
  vw_handler_mark :: "mark option"
  vw_own_mark :: "mark option"
  vw_class_mark :: "mark option"
  vw_has_class :: bool

definition condition_holds :: "mark \<Rightarrow> request \<Rightarrow> bool" where
  "condition_holds m q = (case m of Always \<Rightarrow> True | Only_When p \<Rightarrow> (case p q of Inr b \<Rightarrow> b | Inl _ \<Rightarrow> True))"

definition candidates :: "view \<Rightarrow> request \<Rightarrow> mark option list" where
  "candidates v q = (if vw_has_class v
     then (case vw_action v (lower (rq_method q)) of Some a \<Rightarrow> [vw_method_mark v a] | None \<Rightarrow> []) @ [vw_handler_mark v] else [])
     @ [vw_own_mark v] @ (if vw_has_class v then [vw_class_mark v] else [])"

definition is_exempt :: "view \<Rightarrow> request \<Rightarrow> bool" where
  "is_exempt v q = (case first (filter (\<lambda>m. m \<noteq> None) (candidates v q)) of
     Some (Some m) \<Rightarrow> condition_holds m q | _ \<Rightarrow> False)"

subsection \<open>Refusing writes\<close>

definition SAFE_METHODS :: "string list" where
  "SAFE_METHODS = [''GET'', ''HEAD'', ''OPTIONS'', ''TRACE'']"

definition written_workspace :: "request \<Rightarrow> nat option \<Rightarrow> tenant_db \<Rightarrow> nat option" where
  "written_workspace q bound db = (case bound of Some w \<Rightarrow> Some w
     | None \<Rightarrow> (case rq_api_key q of None \<Rightarrow> None
       | Some prefix \<Rightarrow> if prefix = [] then None else map_option ak_workspace (key_of_prefix db prefix)))"

text \<open>Whether the write is refused, and the database with the answer it keeps.\<close>

definition refuse_write :: "tenant_env \<Rightarrow> request \<Rightarrow> view \<Rightarrow> nat option \<Rightarrow> tenant_db \<Rightarrow> bool \<times> tenant_db" where
  "refuse_write T q v bound db = (let e = te_env T in
     if \<not> read_only_when_unentitled e \<or> rq_method q \<in> set SAFE_METHODS \<or> is_exempt v q then (False, db)
     else case written_workspace q bound db of None \<Rightarrow> (False, db)
     | Some w \<Rightarrow> (let (b, base) = is_read_only (base_plan_entitled e) e (tn_base db) (Some w) in (b, db\<lparr>tn_base := base\<rparr>)))"

subsection \<open>The way to the view\<close>

text \<open>
  The middlewares in their order, then the authentication of the view. What the view acts for is the
  key's workspace when a key was accepted, and the bound one otherwise.
\<close>

datatype served = Stopped reply | Read_Only | Unauthenticated auth_error | Acts_For "nat option"

definition serve :: "tenant_env \<Rightarrow> (string \<Rightarrow> string) \<Rightarrow> request \<Rightarrow> view \<Rightarrow> tenant_db \<Rightarrow> served \<times> tenant_db" where
  "serve T sha q v db = (let (r, db) = dispatch T q db in
     case r of Workspace_Required \<Rightarrow> (Stopped r, db) | Access_Denied \<Rightarrow> (Stopped r, db) | Raised _ \<Rightarrow> (Stopped r, db)
     | _ \<Rightarrow> (let (refused, db) = refuse_write T q v (bound_to r) db in
         if refused then (Read_Only, db)
         else case authenticate_key T sha q db of
           (Inl err, db) \<Rightarrow> (Unauthenticated err, db)
         | (Inr None, db) \<Rightarrow> (Acts_For (bound_to r), db)
         | (Inr (Some (k, w, _)), db) \<Rightarrow> (Acts_For (Some (ws_id w)), db)))"

subsection \<open>Properties\<close>

text \<open>
  C11: A key opens its own workspace and no other: whoever is let in by headers has sent the prefix of a
  stored key that is active and not expired, with a secret of its digest; the workspace is the key's;
  and all that is written is when the key was used. A request without both headers is left to the other
  ways to sign in.
\<close>

theorem key_opens_its_workspace:
  assumes "authenticate_key T sha q db = (r, db')"
  shows "case r of
      Inr (Some (k, v, user, s, c)) \<Rightarrow> k \<in> set (tn_keys db) \<and> rq_api_key q = Some (ak_prefix k) \<and> ak_active k \<and>
        (\<forall>x. ak_expires_at k = Some x \<longrightarrow> now (te_env T) < x) \<and> (\<exists>secret. rq_api_secret q = Some secret \<and> sha secret = ak_secret_hash k) \<and>
        tenant_by_id db (ak_workspace k) = Some v \<and> ws_id v = ak_workspace k \<and>
        same_tables (record_usage (now (te_env T)) k db) db' \<and>
        (access_sound db \<longrightarrow> (\<forall>u. user = Some u \<longrightarrow> \<not> us_superuser u \<longrightarrow> s = is_staff db (ws_id v) (us_id u) \<and> c = is_shopper db (ws_id v) (us_id u)))
    | _ \<Rightarrow> db' = db"
proof (cases r)
  case (Inl err)
  then show ?thesis using assms
    by (auto simp: authenticate_key_def Let_def split: option.splits if_splits prod.splits)
next
  case (Inr x)
  show ?thesis
  proof (cases x)
    case None
    then show ?thesis using assms Inr
      by (auto simp: authenticate_key_def Let_def split: option.splits if_splits prod.splits)
  next
    case (Some y)
    obtain k v user s c where y: "y = (k, v, user, s, c)" by (metis surj_pair)
    from assms Inr Some y obtain prefix secret where a: "rq_api_key q = Some prefix" "rq_api_secret q = Some secret" "key_of_prefix db prefix = Some k"
        "key_usable (now (te_env T)) k" "verify_secret sha secret k" "tenant_by_id db (ak_workspace k) = Some v"
        "hydrate_access T user v (record_usage (now (te_env T)) k db) = ((s, c), db')"
      by (auto simp: authenticate_key_def Let_def split: option.splits if_splits prod.splits)
    let ?db = "record_usage (now (te_env T)) k db"
    have k: "k \<in> set (tn_keys db)" "ak_prefix k = prefix" using a(3) first_filter_SomeD by (auto simp: key_of_prefix_def dest: first_filter_SomeD)
    have t: "same_tables ?db db'" using a(7) by (auto simp: hydrate_access_def Let_def split: option.splits if_splits kept.splits)
    have rd: "is_staff ?db w u = is_staff db w u" "is_shopper ?db w u = is_shopper db w u" "tn_cache ?db = tn_cache db" for w u
      by (simp_all add: record_usage_def is_staff_def is_shopper_def)
    have "access_sound ?db" if "access_sound db" using that by (simp add: access_sound_def rd)
    then have "access_sound db \<longrightarrow> (\<forall>u. user = Some u \<longrightarrow> \<not> us_superuser u \<longrightarrow> s = is_staff db (ws_id v) (us_id u) \<and> c = is_shopper db (ws_id v) (us_id u))"
      using hydrate_sound [OF a(7)] rd by auto
    moreover have "\<forall>x. ak_expires_at k = Some x \<longrightarrow> now (te_env T) < x" "ak_active k" using a(4) by (auto simp: key_usable_def key_expired_def)
    ultimately show ?thesis using Inr Some y k a(1,2,5,6) t tenant_by_id_Some [OF a(6)] by (simp add: verify_secret_def)
  qed
qed

lemma lookup_tables:
  "get_workspace_by_id e c db = (x, db') \<Longrightarrow> same_tables db db'"
  "get_workspace_by_domain e h db = (y, db') \<Longrightarrow> same_tables db db'"
  "hydrate_access T u v db = (z, db') \<Longrightarrow> same_tables db db'"
  by (auto simp: get_workspace_by_id_def get_workspace_by_domain_def hydrate_access_def Let_def split: option.splits kept.splits if_splits)

lemma resolve_tables: "resolve_workspace T q db = (x, db') \<Longrightarrow> same_tables db db'"
  by (erule resolve_cases) (simp_all add: lookup_tables)

lemma dispatch_tables: "dispatch T q db = (r, db') \<Longrightarrow> same_tables db db'"
  by (auto simp: dispatch_def split: if_splits prod.splits sum.splits option.splits
      dest!: resolve_tables lookup_tables(3) intro: same_tables_trans)

text \<open>
  C10: A workspace whose plan has lapsed is not written. When read-only mode is on and a write, by a method
  that is not safe to a view that is not exempt, reaches the view for a workspace, then the workspace the
  question is asked about was entitled to its base plan at that moment, or the answer still kept in the cache
  said it may write. That workspace is the one the request is bound to when it is bound to one and the written one
  otherwise: the written one, unless the request sent a stored API key of the written workspace while bound to another (the
  first lemma below is that case).
\<close>

theorem lapsed_workspace_is_not_written:
  assumes "serve T sha q v db = (Acts_For (Some w), db')" "read_only_when_unentitled (te_env T)"
    and "rq_method q \<notin> set SAFE_METHODS" "\<not> is_exempt v q"
  shows "\<exists>asked. (bound_to (fst (dispatch T q db)) = Some asked \<or> bound_to (fst (dispatch T q db)) = None \<and> asked = w) \<and>
    (asked = w \<or> (\<exists>k \<in> set (tn_keys db). rq_api_key q = Some (ak_prefix k) \<and> ak_workspace k = w)) \<and>
    (case cache_get (now (te_env T)) (read_only_key asked) (cached (tn_base db)) of
       None \<Rightarrow> is_entitled (te_env T) (tn_base db) (Some asked) KEY_BASE_PLAN
     | Some kept \<Rightarrow> \<not> truthy kept)"
proof -
  let ?e = "te_env T"
  obtain r db1 where d: "dispatch T q db = (r, db1)" by fastforce
  obtain refused db2 where f: "refuse_write T q v (bound_to r) db1 = (refused, db2)" by fastforce
  obtain a db3 where k: "authenticate_key T sha q db2 = (a, db3)" by fastforce
  have t1: "same_tables db db1" by (rule dispatch_tables [OF d])
  have nr: "\<not> refused" and acts: "bound_to r = Some w \<and> a = Inr None \<or> (\<exists>ky x y. a = Inr (Some (ky, x, y)) \<and> ws_id x = w)"
    using assms(1) d f k by (auto simp: serve_def split: reply.splits if_splits sum.splits option.splits prod.splits)
  have "tn_keys db2 = tn_keys db1"
    using f by (auto simp: refuse_write_def Let_def split: if_splits option.splits prod.splits)
  then have keys: "tn_keys db2 = tn_keys db" "tn_keys db1 = tn_keys db" using t1 by (simp_all add: same_tables_def)
  have key: "\<exists>ky \<in> set (tn_keys db). rq_api_key q = Some (ak_prefix ky) \<and> ak_workspace ky = w \<and> key_of_prefix db (ak_prefix ky) = Some ky \<and> ak_prefix ky \<noteq> []"
    if "\<not> (bound_to r = Some w \<and> a = Inr None)"
  proof -
    from that acts obtain ky x y where a: "a = Inr (Some (ky, x, y))" "ws_id x = w" by auto
    obtain user s c where y: "y = (user, s, c)" by (metis surj_pair)
    from k a y obtain prefix where p: "rq_api_key q = Some prefix" "prefix \<noteq> []" "key_of_prefix db2 prefix = Some ky" "tenant_by_id db2 (ak_workspace ky) = Some x"
      by (auto simp: authenticate_key_def Let_def split: option.splits if_splits prod.splits)
    then have "ky \<in> set (tn_keys db)" "ak_prefix ky = prefix" using keys by (auto simp: key_of_prefix_def dest: first_filter_SomeD)
    moreover have "key_of_prefix db prefix = Some ky" using p(3) keys by (simp add: key_of_prefix_def)
    ultimately show ?thesis using p a(2) tenant_by_id_Some [OF p(4)] by auto
  qed
  obtain asked where asked: "written_workspace q (bound_to r) db1 = Some asked"
      "bound_to r = Some asked \<or> bound_to r = None \<and> asked = w"
  proof (cases "bound_to r")
    case None
    with key have "written_workspace q (bound_to r) db1 = Some w"
      using keys by (auto simp: written_workspace_def key_of_prefix_def)
    then show thesis using None that by blast
  qed (use that in \<open>simp add: written_workspace_def\<close>)
  have "\<not> fst (is_read_only (base_plan_entitled ?e) ?e (tn_base db1) (Some asked))"
    using f nr asked(1) assms(2-4) by (auto simp: refuse_write_def Let_def split: prod.splits)
  moreover have b: "tn_base db1 = tn_base db" using t1 by (simp add: same_tables_def)
  ultimately have "\<not> fst (ask_read_only (base_plan_entitled ?e) ?e (tn_base db) asked)" using assms(2) by (simp add: is_read_only_def)
  then have "case cache_get (now ?e) (read_only_key asked) (cached (tn_base db)) of
      None \<Rightarrow> is_entitled ?e (tn_base db) (Some asked) KEY_BASE_PLAN | Some kept \<Rightarrow> \<not> truthy kept"
    using read_only.ask_fresh read_only.ask_cached by (auto split: option.split)
  moreover have "asked = w \<or> (\<exists>k \<in> set (tn_keys db). rq_api_key q = Some (ak_prefix k) \<and> ak_workspace k = w)"
    using asked(2) key by (cases "bound_to r = Some w \<and> a = Inr None") auto
  ultimately show ?thesis using asked(2) d by auto
qed

text \<open>
  A key used on the host of another workspace: the question is asked about the host's workspace, and
  the write is made in the key's.
\<close>

lemma key_writes_through_another_host:
  assumes "dispatch T q db = (To_View u s c, db1)" "refuse_write T q v (Some (ws_id u)) db1 = (False, db2)"
    and "authenticate_key T sha q db2 = (Inr (Some (k, x, y)), db3)"
  shows "serve T sha q v db = (Acts_For (Some (ak_workspace k)), db3)"
proof -
  obtain user a b where y: "y = (user, a, b)" by (metis surj_pair)
  have "ws_id x = ak_workspace k" using key_opens_its_workspace [OF assms(3) [unfolded y]] by simp
  then show ?thesis using assms by (simp add: serve_def bound_to_def)
qed

text \<open>The key of a workspace that was suspended is accepted: only the key's own mark is looked at.\<close>

lemma key_of_a_suspended_workspace:
  assumes "rq_api_key q = Some (ak_prefix k)" "rq_api_secret q = Some secret" "ak_prefix k \<noteq> []" "secret \<noteq> []"
    and "key_of_prefix db (ak_prefix k) = Some k" "key_usable (now (te_env T)) k" "sha secret = ak_secret_hash k"
    and "tenant_by_id db (ak_workspace k) = Some w" "\<not> ws_active w"
  shows "\<exists>user s c. fst (authenticate_key T sha q db) = Inr (Some (k, w, user, s, c))"
  using assms by (simp add: authenticate_key_def verify_secret_def Let_def split: prod.split)

end
