(* ===== verification/Staff_Rights.thy ===== *)
theory Staff_Rights
  imports Request_Access
begin

text \<open>
  Who may do what in a workspace (\<open>core/permissions.py\<close>): the permission classes of the views, over the
  staff and the permission JSON of their roles; and where roles come from
  (\<open>common/role_registry.py\<close>, \<open>common/services/role_provisioning.py\<close>).
\<close>

subsection \<open>Permission JSON\<close>

definition permission_action_allowed :: "perm_value \<Rightarrow> string \<Rightarrow> bool" where
  "permission_action_allowed v action = (case v of Every b \<Rightarrow> b | Actions xs \<Rightarrow> ''*'' \<in> set xs \<or> action \<in> set xs | Odd_Value \<Rightarrow> False)"

text \<open>The key of the module decides when there is one, else the wildcard key.\<close>

definition permissions_allow :: "permissions \<Rightarrow> string \<Rightarrow> string \<Rightarrow> bool" where
  "permissions_allow perms modl action = (case map_of perms modl of
     Some v \<Rightarrow> permission_action_allowed v action
   | None \<Rightarrow> (case map_of perms ''*'' of Some v \<Rightarrow> permission_action_allowed v action | None \<Rightarrow> False))"

subsection \<open>Staff\<close>

definition role_by_id :: "tenant_db \<Rightarrow> nat \<Rightarrow> staff_role option" where
  "role_by_id db i = first (filter (\<lambda>r. ro_id r = i) (tn_roles db))"

definition staff_row :: "staff_member list \<Rightarrow> nat \<Rightarrow> nat \<Rightarrow> staff_member option" where
  "staff_row rows w u = first (filter (\<lambda>m. sm_workspace m = w \<and> sm_user m = u \<and> sm_active m) rows)"

definition role_of_staff :: "tenant_db \<Rightarrow> staff_member list \<Rightarrow> nat \<Rightarrow> nat \<Rightarrow> staff_role option" where
  "role_of_staff db rows w u = (case staff_row rows w u of None \<Rightarrow> None | Some m \<Rightarrow> role_by_id db (sm_role m))"

definition bypasses :: "tenant_env \<Rightarrow> user_row option \<Rightarrow> bool" where
  "bypasses T user \<longleftrightarrow> (case user of Some u \<Rightarrow> us_superuser u \<and> te_bypass T | None \<Rightarrow> False)"

text \<open>\<open>StaffMember.objects\<close> of a request: those of the workspace its thread is bound to.\<close>

definition scoped_staff :: "nat option \<Rightarrow> tenant_db \<Rightarrow> staff_member list" where
  "scoped_staff bound db = tenant_objects bound sm_workspace (tn_staff db)"

text \<open>\<open>_has_workspace_role\<close>: against the workspace of the object.\<close>

definition has_workspace_role :: "tenant_env \<Rightarrow> user_row option \<Rightarrow> nat option \<Rightarrow> bool \<Rightarrow> tenant_db \<Rightarrow> bool" where
  "has_workspace_role T user ws admin_only db = (case (user, ws) of
     (Some u, Some w) \<Rightarrow> bypasses T user \<or> (case staff_row (tn_staff db) w (us_id u) of None \<Rightarrow> False
       | Some m \<Rightarrow> \<not> admin_only \<or> (case role_by_id db (sm_role m) of Some r \<Rightarrow> ro_code r = ''admin'' | None \<Rightarrow> False))
   | _ \<Rightarrow> False)"

subsection \<open>The permission classes\<close>

definition is_workspace_admin :: "tenant_env \<Rightarrow> nat option \<Rightarrow> user_row option \<Rightarrow> nat option \<Rightarrow> tenant_db \<Rightarrow> bool" where
  "is_workspace_admin T bound user ws db = (case (user, ws) of
     (Some u, Some w) \<Rightarrow> bypasses T user \<or> (case role_of_staff db (scoped_staff bound db) w (us_id u) of
         Some r \<Rightarrow> ro_code r = ''admin'' | None \<Rightarrow> False)
   | _ \<Rightarrow> False)"

definition is_workspace_staff :: "tenant_env \<Rightarrow> nat option \<Rightarrow> user_row option \<Rightarrow> nat option \<Rightarrow> tenant_db \<Rightarrow> bool" where
  "is_workspace_staff T bound user ws db = (case (user, ws) of
     (Some u, Some w) \<Rightarrow> bypasses T user \<or> staff_row (scoped_staff bound db) w (us_id u) \<noteq> None
   | _ \<Rightarrow> False)"

definition object_workspace :: "nat option \<Rightarrow> nat option \<Rightarrow> nat option" where
  "object_workspace obj ws = (case obj of Some w \<Rightarrow> Some w | None \<Rightarrow> ws)"

definition admin_object_permission :: "tenant_env \<Rightarrow> user_row option \<Rightarrow> nat option \<Rightarrow> nat option \<Rightarrow> tenant_db \<Rightarrow> bool" where
  "admin_object_permission T user ws obj db = has_workspace_role T user (object_workspace obj ws) True db"

definition staff_object_permission :: "tenant_env \<Rightarrow> user_row option \<Rightarrow> nat option \<Rightarrow> nat option \<Rightarrow> tenant_db \<Rightarrow> bool" where
  "staff_object_permission T user ws obj db = has_workspace_role T user (object_workspace obj ws) False db"

definition REST_SAFE :: "string list" where
  "REST_SAFE = [''GET'', ''HEAD'', ''OPTIONS'']"

definition staff_read_admin_write :: "tenant_env \<Rightarrow> string \<Rightarrow> nat option \<Rightarrow> user_row option \<Rightarrow> nat option \<Rightarrow> tenant_db \<Rightarrow> bool" where
  "staff_read_admin_write T verb bound user ws db = (if verb \<in> set REST_SAFE
     then is_workspace_staff T bound user ws db else is_workspace_admin T bound user ws db)"

definition read_write_object_permission :: "tenant_env \<Rightarrow> string \<Rightarrow> user_row option \<Rightarrow> nat option \<Rightarrow> nat option \<Rightarrow> tenant_db \<Rightarrow> bool" where
  "read_write_object_permission T verb user ws obj db = has_workspace_role T user (object_workspace obj ws) (verb \<notin> set REST_SAFE) db"

definition read_only_or_superuser :: "string \<Rightarrow> user_row option \<Rightarrow> bool" where
  "read_only_or_superuser verb user \<longleftrightarrow> verb \<in> set REST_SAFE \<or> (case user of Some u \<Rightarrow> us_superuser u | None \<Rightarrow> False)"

text \<open>\<open>HasPermission\<close>: the last part of the dotted name is the action, what is before it the module.\<close>

fun join_on :: "char \<Rightarrow> string list \<Rightarrow> string" where
  "join_on sep [] = []"
| "join_on sep [w] = w"
| "join_on sep (w # ws) = w @ sep # join_on sep ws"

definition has_permission :: "nat option \<Rightarrow> user_row option \<Rightarrow> nat option \<Rightarrow> string \<Rightarrow> tenant_db \<Rightarrow> bool" where
  "has_permission bound user ws required db = (case (user, ws) of
     (Some u, Some w) \<Rightarrow> required = [] \<or> (case role_of_staff db (scoped_staff bound db) w (us_id u) of None \<Rightarrow> False
       | Some r \<Rightarrow> ro_code r = ''admin'' \<or> (let parts = split_on CHR ''.'' required in
           3 \<le> length parts \<and> permissions_allow (ro_permissions r) (join_on CHR ''.'' (butlast parts)) (last parts)))
   | _ \<Rightarrow> False)"

text \<open>\<open>IsOwnerOrStaff\<close>, of an object that names the user it belongs to.\<close>

definition owner_or_staff :: "nat option \<Rightarrow> user_row \<Rightarrow> nat option \<Rightarrow> nat option \<Rightarrow> tenant_db \<Rightarrow> bool" where
  "owner_or_staff bound u ws owner db \<longleftrightarrow>
     (case ws of Some w \<Rightarrow> staff_row (scoped_staff bound db) w (us_id u) \<noteq> None | None \<Rightarrow> False) \<or> owner = Some (us_id u)"

text \<open>\<open>CanManagePayments\<close> and \<open>CanManageInvoices\<close>.\<close>

definition PAYMENT_ACTIONS :: "(string \<times> string) list" where
  "PAYMENT_ACTIONS = [(''create'', ''finance.payment.create''), (''update'', ''finance.payment.update''),
     (''partial_update'', ''finance.payment.update''), (''destroy'', ''finance.payment.delete''), (''list'', ''finance.payment.read''),
     (''retrieve'', ''finance.payment.read''), (''process'', ''finance.payment.update''), (''intent'', ''finance.payment.create''),
     (''mark_paid'', ''finance.payment.update''), (''refund'', ''finance.payment.update'')]"

definition INVOICE_ACTIONS :: "(string \<times> string) list" where
  "INVOICE_ACTIONS = [(''create'', ''finance.invoice.create''), (''update'', ''finance.invoice.update''),
     (''partial_update'', ''finance.invoice.update''), (''destroy'', ''finance.invoice.delete''), (''list'', ''finance.invoice.read''),
     (''retrieve'', ''finance.invoice.read''), (''send'', ''finance.invoice.update'')]"

definition required_for :: "(string \<times> string) list \<Rightarrow> string \<Rightarrow> string option \<Rightarrow> string" where
  "required_for actions fallback action = (case action of Some a \<Rightarrow> (case map_of actions a of Some p \<Rightarrow> p | None \<Rightarrow> fallback) | None \<Rightarrow> fallback)"

definition may_manage :: "tenant_env \<Rightarrow> staff_member list \<Rightarrow> user_row option \<Rightarrow> nat option \<Rightarrow> string \<Rightarrow> tenant_db \<Rightarrow> bool" where
  "may_manage T rows user ws required db = (case (user, ws) of
     (Some u, Some w) \<Rightarrow> bypasses T user \<or> (case role_of_staff db rows w (us_id u) of None \<Rightarrow> False
       | Some r \<Rightarrow> ro_code r = ''admin'' \<or> (let (modl, dot, action) = rpartition CHR ''.'' required in
           dot \<and> permissions_allow (ro_permissions r) modl action))
   | _ \<Rightarrow> False)"

definition can_manage_payments :: "tenant_env \<Rightarrow> user_row option \<Rightarrow> nat option \<Rightarrow> string option \<Rightarrow> tenant_db \<Rightarrow> bool" where
  "can_manage_payments T user ws action db = may_manage T (tn_staff db) user ws (required_for PAYMENT_ACTIONS ''finance.payment.read'' action) db"

definition can_process_refunds :: "tenant_env \<Rightarrow> user_row option \<Rightarrow> nat option \<Rightarrow> tenant_db \<Rightarrow> bool" where
  "can_process_refunds T user ws db = can_manage_payments T user ws (Some ''refund'') db"

definition can_manage_invoices :: "tenant_env \<Rightarrow> nat option \<Rightarrow> user_row option \<Rightarrow> nat option \<Rightarrow> string option \<Rightarrow> tenant_db \<Rightarrow> bool" where
  "can_manage_invoices T bound user ws action db =
     may_manage T (scoped_staff bound db) user ws (required_for INVOICE_ACTIONS ''finance.invoice.read'' action) db"

subsection \<open>Dotted names\<close>

lemma split_on_nonempty [simp]: "split_on c s \<noteq> []"
  by (induction s) (auto split: list.splits)

lemma split_on_none: "c \<notin> set s \<Longrightarrow> split_on c s = [s]"
  by (induction s) auto

lemma split_on_append: "split_on c (a @ c # b) = split_on c a @ split_on c b"
  by (induction a) (auto split: list.splits)

lemma join_split: "join_on c (split_on c s) = s"
proof (induction s)
  case (Cons a s)
  then show ?case by (cases "(c, split_on c s)" rule: join_on.cases) auto
qed simp

text \<open>A name of at least three parts splits the same way from the left and from the right.\<close>

lemma dotted_name:
  assumes "CHR ''.'' \<notin> set b" "CHR ''.'' \<in> set a"
  shows "3 \<le> length (split_on CHR ''.'' (a @ CHR ''.'' # b))"
    and "join_on CHR ''.'' (butlast (split_on CHR ''.'' (a @ CHR ''.'' # b))) = a" "last (split_on CHR ''.'' (a @ CHR ''.'' # b)) = b"
    and "rpartition CHR ''.'' (a @ CHR ''.'' # b) = (a, True, b)"
proof -
  obtain x y where a: "a = x @ CHR ''.'' # y" using split_list [OF assms(2)] by blast
  have two: "2 \<le> length (split_on CHR ''.'' a)" unfolding a split_on_append
    by (cases "split_on CHR ''.'' x"; cases "split_on CHR ''.'' y") auto
  then show "3 \<le> length (split_on CHR ''.'' (a @ CHR ''.'' # b))" using assms(1) by (simp add: split_on_append split_on_none)
  show "join_on CHR ''.'' (butlast (split_on CHR ''.'' (a @ CHR ''.'' # b))) = a" "last (split_on CHR ''.'' (a @ CHR ''.'' # b)) = b"
    using assms(1) by (simp_all add: split_on_append split_on_none join_split butlast_append)
  show "rpartition CHR ''.'' (a @ CHR ''.'' # b) = (a, True, b)" using assms(1) by (rule rpartition_append)
qed

lemma map_of_cases: "(case map_of xs a of Some p \<Rightarrow> p | None \<Rightarrow> d) \<in> insert d (snd ` set xs)"
  by (auto split: option.split dest!: map_of_SomeD intro!: image_eqI)

lemma required_names:
  "required_for PAYMENT_ACTIONS ''finance.payment.read'' action
     \<in> (\<lambda>b. ''finance.payment'' @ CHR ''.'' # b) ` {''create'', ''update'', ''delete'', ''read''}"
  "required_for INVOICE_ACTIONS ''finance.invoice.read'' action
     \<in> (\<lambda>b. ''finance.invoice'' @ CHR ''.'' # b) ` {''create'', ''update'', ''delete'', ''read''}"
proof -
  have "required_for xs d action \<in> insert d (snd ` set xs)" for xs d
    using map_of_cases [where xs = xs and a = "the action" and d = d] by (cases action) (simp_all add: required_for_def)
  note this [of PAYMENT_ACTIONS "''finance.payment.read''"] this [of INVOICE_ACTIONS "''finance.invoice.read''"]
  then show "required_for PAYMENT_ACTIONS ''finance.payment.read'' action
     \<in> (\<lambda>b. ''finance.payment'' @ CHR ''.'' # b) ` {''create'', ''update'', ''delete'', ''read''}"
    "required_for INVOICE_ACTIONS ''finance.invoice.read'' action
     \<in> (\<lambda>b. ''finance.invoice'' @ CHR ''.'' # b) ` {''create'', ''update'', ''delete'', ''read''}"
    by (auto simp: PAYMENT_ACTIONS_def INVOICE_ACTIONS_def)
qed

subsection \<open>Staff of one workspace\<close>

lemma staff_row_scoped [simp]: "staff_row (scoped_staff (Some w) db) w u = staff_row (tn_staff db) w u"
  by (simp add: staff_row_def scoped_staff_def tenant_objects_def conj_ac cong: conj_cong)

lemma role_of_staff_scoped [simp]: "role_of_staff db (scoped_staff (Some w) db) w u = role_of_staff db (tn_staff db) w u"
  by (simp add: role_of_staff_def)

text \<open>\<open>HasPermission\<close> on a name of at least three parts.\<close>

lemma may_manage_has_permission:
  assumes "\<not> bypasses T user" "CHR ''.'' \<notin> set b" "CHR ''.'' \<in> set a"
  shows "may_manage T (scoped_staff ws db) user ws (a @ CHR ''.'' # b) db = has_permission ws user ws (a @ CHR ''.'' # b) db"
  using assms dotted_name [OF assms(2,3)]
  by (auto simp: may_manage_def has_permission_def Let_def split: option.splits)

subsection \<open>Properties\<close>

text \<open>
  The two classes of the finance views decide like \<open>HasPermission\<close> does for the permission they ask
  for, although they look the staff up and take the name apart in another way: for everyone but a
  superuser that bypasses the checks, and whatever the action.
\<close>

theorem finance_rights_as_declared:
  assumes "\<not> bypasses T user"
  shows "can_manage_payments T user ws action db = has_permission ws user ws (required_for PAYMENT_ACTIONS ''finance.payment.read'' action) db \<and>
    can_process_refunds T user ws db = has_permission ws user ws ''finance.payment.update'' db \<and>
    can_manage_invoices T ws user ws action db = has_permission ws user ws (required_for INVOICE_ACTIONS ''finance.invoice.read'' action) db"
proof -
  have scoped: "may_manage T (tn_staff db) user ws p db = may_manage T (scoped_staff ws db) user ws p db" for p
    by (auto simp: may_manage_def split: option.splits)
  have names: "may_manage T (scoped_staff ws db) user ws p db = has_permission ws user ws p db"
    if "p \<in> (\<lambda>b. m @ CHR ''.'' # b) ` {''create'', ''update'', ''delete'', ''read''}" "CHR ''.'' \<in> set m" for p m
    using that(1) by (elim imageE insertE emptyE) (simp_all only:, simp_all add: may_manage_has_permission [OF assms _ that(2)])
  have pay: "can_manage_payments T user ws act db = has_permission ws user ws (required_for PAYMENT_ACTIONS ''finance.payment.read'' act) db" for act
    unfolding can_manage_payments_def scoped by (rule names [OF required_names(1)]) simp
  have bill: "can_manage_invoices T ws user ws action db = has_permission ws user ws (required_for INVOICE_ACTIONS ''finance.invoice.read'' action) db"
    unfolding can_manage_invoices_def by (rule names [OF required_names(2)]) simp
  have "required_for PAYMENT_ACTIONS ''finance.payment.read'' (Some ''refund'') = ''finance.payment.update''"
    by (simp add: required_for_def PAYMENT_ACTIONS_def)
  with pay [of "Some ''refund''"] pay bill show ?thesis by (simp add: can_process_refunds_def)
qed

text \<open>
  Everything the classes decide about a request bound to a workspace, for an object of it that belongs
  to \<open>owner\<close>.
\<close>

definition rights_in :: "tenant_env \<Rightarrow> nat \<Rightarrow> user_row option \<Rightarrow> string \<Rightarrow> string \<Rightarrow> string option \<Rightarrow> nat option \<Rightarrow> tenant_db \<Rightarrow> bool list" where
  "rights_in T w user verb required action owner db = (let b = Some w in
     [is_workspace_admin T b user b db, is_workspace_staff T b user b db, admin_object_permission T user b b db,
      staff_object_permission T user b b db, staff_read_admin_write T verb b user b db, read_write_object_permission T verb user b b db,
      has_permission b user b required db, can_manage_payments T user b action db, can_process_refunds T user b db,
      can_manage_invoices T b user b action db, (case user of Some u \<Rightarrow> owner_or_staff b u b owner db | None \<Rightarrow> False)])"

lemma first_filter_map: "(\<And>x. P (f x) = P x) \<Longrightarrow> first (filter P (map f xs)) = map_option f (first (filter P xs))"
  by (induction xs) (simp_all add: first_def)

text \<open>What a role allows: its code and its permissions.\<close>

definition grants :: "tenant_db \<Rightarrow> nat \<Rightarrow> (string \<times> permissions) option" where
  "grants db i = map_option (\<lambda>r. (ro_code r, ro_permissions r)) (role_by_id db i)"

definition staff_of :: "tenant_db \<Rightarrow> nat \<Rightarrow> staff_member list" where
  "staff_of db w = filter (\<lambda>m. sm_workspace m = w) (tn_staff db)"

lemma staff_row_of: "staff_row (tn_staff db) w u = first (filter (\<lambda>m. sm_user m = u \<and> sm_active m) (staff_of db w))"
  by (simp add: staff_row_def staff_of_def conj_ac cong: conj_cong)

lemma role_code: "(case x of Some r \<Rightarrow> ro_code r = c | None \<Rightarrow> False) \<longleftrightarrow> map_option fst (map_option (\<lambda>r. (ro_code r, ro_permissions r)) x) = Some c"
  by (cases x) simp_all

lemma role_grant: "(case x of None \<Rightarrow> False | Some r \<Rightarrow> ro_code r = ''admin'' \<or> P (ro_permissions r))
    \<longleftrightarrow> (case map_option (\<lambda>r. (ro_code r, ro_permissions r)) x of None \<Rightarrow> False | Some (c, p) \<Rightarrow> c = ''admin'' \<or> P p)"
  by (cases x) simp_all

lemma rights_from_grants:
  assumes "staff_of db' w = staff_of db w" "\<forall>m \<in> set (staff_of db w). grants db' (sm_role m) = grants db (sm_role m)"
  shows "rights_in T w user verb required action owner db' = rights_in T w user verb required action owner db"
proof -
  have row: "staff_row (tn_staff db') w u = staff_row (tn_staff db) w u" for u by (simp add: staff_row_of assms(1))
  have role: "map_option (\<lambda>r. (ro_code r, ro_permissions r)) (role_by_id db' (sm_role m))
      = map_option (\<lambda>r. (ro_code r, ro_permissions r)) (role_by_id db (sm_role m))" if "staff_row (tn_staff db) w u = Some m" for u m
    using assms(2) first_filter_SomeD [OF that [unfolded staff_row_of]] by (simp add: grants_def)
  have same: "map_option (\<lambda>r. (ro_code r, ro_permissions r)) (role_of_staff db' (tn_staff db') w u)
      = map_option (\<lambda>r. (ro_code r, ro_permissions r)) (role_of_staff db (tn_staff db) w u)" for u
    unfolding role_of_staff_def row using role by (simp split: option.split)
  have obj: "has_workspace_role T user (Some w) a db' = has_workspace_role T user (Some w) a db" for a
  proof (cases user)
    case (Some u)
    show ?thesis using role by (cases "staff_row (tn_staff db) w (us_id u)") (simp_all add: Some has_workspace_role_def row role_code)
  qed (simp add: has_workspace_role_def)
  have hp: "has_permission (Some w) user (Some w) p db' = has_permission (Some w) user (Some w) p db" for p
    unfolding has_permission_def Let_def
    by (cases user) (simp_all add: same
      role_grant [where P = "\<lambda>q. 3 \<le> length (split_on CHR ''.'' p) \<and> permissions_allow q (join_on CHR ''.'' (butlast (split_on CHR ''.'' p))) (last (split_on CHR ''.'' p))"])
  have cm: "may_manage T (tn_staff db') user (Some w) p db' = may_manage T (tn_staff db) user (Some w) p db" for p
    unfolding may_manage_def Let_def
    by (cases user) (simp_all add: role_grant [where P = "\<lambda>q. case rpartition CHR ''.'' p of (modl, dot, action) \<Rightarrow> dot \<and> permissions_allow q modl action"] same)
  have scoped: "may_manage T (scoped_staff (Some w) d) user (Some w) p d = may_manage T (tn_staff d) user (Some w) p d" for p d
    by (cases user) (simp_all add: may_manage_def)
  have admin: "is_workspace_admin T (Some w) user (Some w) db' = is_workspace_admin T (Some w) user (Some w) db"
    by (cases user) (simp_all add: is_workspace_admin_def role_code same)
  have staff: "is_workspace_staff T (Some w) user (Some w) db' = is_workspace_staff T (Some w) user (Some w) db"
    by (cases user) (simp_all add: is_workspace_staff_def row)
  have own: "owner_or_staff (Some w) u (Some w) owner db' = owner_or_staff (Some w) u (Some w) owner db" for u
    by (simp add: owner_or_staff_def row)
  have owner: "(case user of None \<Rightarrow> False | Some u \<Rightarrow> owner_or_staff (Some w) u (Some w) owner db')
      = (case user of None \<Rightarrow> False | Some u \<Rightarrow> owner_or_staff (Some w) u (Some w) owner db)"
    by (cases user) (simp_all add: own)
  show ?thesis
    unfolding rights_in_def Let_def staff_read_admin_write_def admin_object_permission_def staff_object_permission_def
      read_write_object_permission_def can_manage_payments_def can_process_refunds_def can_manage_invoices_def object_workspace_def option.case
      admin staff obj hp cm scoped owner by (rule refl)
qed

text \<open>
  C12: Nobody's rights in a workspace come from another one: they depend on its own staff and on what the
  roles of its staff grant, and on nothing else in the database.
\<close>

theorem rights_do_not_cross:
  assumes "staff_of db' w = staff_of db w" "\<forall>m \<in> set (staff_of db w). grants db' (sm_role m) = grants db (sm_role m)"
  shows "rights_in T w user verb required action owner db' = rights_in T w user verb required action owner db"
  using assms by (rule rights_from_grants)

text \<open>
  A role that was switched off grants what it did: \<open>is_active\<close> of a role is not looked at, though the
  answer to deleting a system role says to clear it instead.
\<close>

lemma switched_off_role_still_grants:
  "rights_in T w user verb required action owner
     (db\<lparr>tn_roles := update_where (\<lambda>r. ro_id r = i) (\<lambda>r. r\<lparr>ro_active := False\<rparr>) (tn_roles db)\<rparr>)
   = rights_in T w user verb required action owner db"
proof -
  let ?f = "\<lambda>r. if ro_id r = i then r\<lparr>ro_active := False\<rparr> else r"
  have "role_by_id (db\<lparr>tn_roles := update_where (\<lambda>r. ro_id r = i) (\<lambda>r. r\<lparr>ro_active := False\<rparr>) (tn_roles db)\<rparr>) j
      = map_option ?f (role_by_id db j)" for j
    unfolding role_by_id_def update_where_def by (simp add: first_filter_map del: filter_map)
  then have "grants (db\<lparr>tn_roles := update_where (\<lambda>r. ro_id r = i) (\<lambda>r. r\<lparr>ro_active := False\<rparr>) (tn_roles db)\<rparr>) j = grants db j" for j
    by (cases "role_by_id db j") (simp_all add: grants_def)
  then show ?thesis by (intro rights_from_grants) (simp_all add: staff_of_def)
qed

text \<open>A superuser that bypasses the other classes is held to \<open>HasPermission\<close>.\<close>

lemma superuser_without_staff_row:
  assumes "bypasses T (Some u)" "staff_row (tn_staff db) w (us_id u) = None" "required \<noteq> []"
  shows "is_workspace_admin T (Some w) (Some u) (Some w) db \<and> \<not> has_permission (Some w) (Some u) (Some w) required db"
  using assms by (simp add: is_workspace_admin_def has_permission_def role_of_staff_def)

end
