(* ===== verification/Staff_Roles.thy ===== *)
theory Staff_Roles
  imports Staff_Rights "HOL-Library.Multiset"
begin

text \<open>
  Where the roles of a workspace come from: the registry in which the modules declare them with the
  permissions they offer (\<open>common/role_registry.py\<close>), putting the declared roles into a workspace
  (\<open>common/services/role_provisioning.py\<close>), and what the workspace's administrators do with them
  (\<open>StaffRoleViewSet\<close> in \<open>common/views.py\<close>).
\<close>

subsection \<open>The registry\<close>

record role_definition =
  rd_code :: string
  rd_name :: string
  rd_description :: string
  rd_defaults :: permissions
  rd_owner :: string
  rd_order :: int

record permission_module =
  pm_key :: string
  pm_label :: string
  pm_owner :: string
  pm_group :: string
  pm_actions :: "(string \<times> string) list"
  pm_order :: int

record role_registry =
  rr_roles :: "role_definition list"
  rr_modules :: "permission_module list"

text \<open>A dict keeps the place of a key that is assigned again.\<close>

definition put_by :: "('a \<Rightarrow> string) \<Rightarrow> 'a \<Rightarrow> 'a list \<Rightarrow> 'a list" where
  "put_by key x xs = (if list_ex (\<lambda>y. key y = key x) xs then update_where (\<lambda>y. key y = key x) (\<lambda>_. x) xs else xs @ [x])"

definition register_role :: "role_definition \<Rightarrow> role_registry \<Rightarrow> role_registry option" where
  "register_role d R = (if rd_code d = [] then None else Some (R\<lparr>rr_roles := put_by rd_code d (rr_roles R)\<rparr>))"

definition get_role :: "role_registry \<Rightarrow> string \<Rightarrow> role_definition option" where
  "get_role R code = first (filter (\<lambda>d. rd_code d = code) (rr_roles R))"

definition all_roles :: "role_registry \<Rightarrow> role_definition list" where
  "all_roles R = sort_key (\<lambda>d. (rd_order d, rd_owner d, rd_code d)) (rr_roles R)"

text \<open>Registering a permission module again adds the actions it did not have.\<close>

definition merge_modules :: "permission_module \<Rightarrow> permission_module \<Rightarrow> permission_module" where
  "merge_modules old m = \<lparr>pm_key = pm_key m, pm_label = or_else (pm_label m) (pm_label old),
     pm_owner = or_else (pm_owner m) (pm_owner old), pm_group = or_else (pm_group m) (pm_group old),
     pm_actions = pm_actions old @ filter (\<lambda>a. fst a \<notin> fst ` set (pm_actions old)) (pm_actions m),
     pm_order = min (pm_order m) (pm_order old)\<rparr>"

definition register_permission_module :: "permission_module \<Rightarrow> role_registry \<Rightarrow> role_registry option" where
  "register_permission_module m R = (if pm_key m = [] then None
     else let m' = (case first (filter (\<lambda>x. pm_key x = pm_key m) (rr_modules R)) of Some old \<Rightarrow> merge_modules old m | None \<Rightarrow> m) in
       Some (R\<lparr>rr_modules := put_by pm_key m' (rr_modules R)\<rparr>))"

definition all_permission_modules :: "role_registry \<Rightarrow> permission_module list" where
  "all_permission_modules R = sort_key (\<lambda>m. (pm_order m, pm_group m, pm_key m)) (rr_modules R)"

subsection \<open>Provisioning\<close>

text \<open>Two permission dicts are equal when they have the same keys with equal values.\<close>

definition same_permissions :: "permissions \<Rightarrow> permissions \<Rightarrow> bool" where
  "same_permissions p q \<longleftrightarrow> list_all (\<lambda>k. map_of p k = map_of q k) (map fst (p @ q))"

record provision_result =
  pr_created :: "string list"
  pr_updated :: "string list"
  pr_skipped :: "string list"

definition role_in :: "nat \<Rightarrow> string \<Rightarrow> staff_role list \<Rightarrow> staff_role option" where
  "role_in w code rs = first (filter (\<lambda>r. ro_workspace r = w \<and> ro_code r = code) rs)"

definition new_role :: "nat \<Rightarrow> role_definition \<Rightarrow> staff_role list \<Rightarrow> staff_role" where
  "new_role w d rs = \<lparr>ro_id = fresh_id ro_id rs, ro_workspace = w, ro_code = rd_code d, ro_name = rd_name d,
     ro_description = rd_description d, ro_permissions = rd_defaults d, ro_defaults = rd_defaults d,
     ro_owner_module = rd_owner d, ro_system = True, ro_active = True\<rparr>"

definition refreshed :: "role_definition \<Rightarrow> staff_role \<Rightarrow> staff_role" where
  "refreshed d r = r\<lparr>ro_name := rd_name d, ro_description := rd_description d,
     ro_defaults := (if same_permissions (ro_defaults r) (rd_defaults d) then ro_defaults r else rd_defaults d),
     ro_owner_module := rd_owner d, ro_system := True\<rparr>"

definition provision_role :: "nat \<Rightarrow> role_definition \<Rightarrow> provision_result \<times> staff_role list \<Rightarrow> provision_result \<times> staff_role list" where
  "provision_role w d = (\<lambda>(res, rs). case role_in w (rd_code d) rs of
     None \<Rightarrow> (res\<lparr>pr_created := pr_created res @ [rd_code d]\<rparr>, rs @ [new_role w d rs])
   | Some r \<Rightarrow> if refreshed d r \<noteq> r
       then (res\<lparr>pr_updated := pr_updated res @ [rd_code d]\<rparr>, update_where (\<lambda>x. ro_id x = ro_id r) (refreshed d) rs)
       else (res\<lparr>pr_skipped := pr_skipped res @ [rd_code d]\<rparr>, rs))"

definition provision_system_roles :: "nat \<Rightarrow> role_definition list \<Rightarrow> tenant_db \<Rightarrow> provision_result \<times> tenant_db" where
  "provision_system_roles w defs db =
    (let (res, rs) = fold (provision_role w) defs (\<lparr>pr_created = [], pr_updated = [], pr_skipped = []\<rparr>, tn_roles db)
     in (res, db\<lparr>tn_roles := rs\<rparr>))"

definition restore_role_to_defaults :: "staff_role \<Rightarrow> tenant_db \<Rightarrow> bool \<times> tenant_db" where
  "restore_role_to_defaults r db =
    (if ro_defaults r = [] \<or> same_permissions (ro_permissions r) (ro_defaults r) then (False, db)
     else (True, db\<lparr>tn_roles := update_where (\<lambda>x. ro_id x = ro_id r) (\<lambda>x. x\<lparr>ro_permissions := ro_defaults r\<rparr>) (tn_roles db)\<rparr>))"

text \<open>\<open>init_system_roles\<close>: every active workspace, or the one named.\<close>

definition init_system_roles :: "nat option \<Rightarrow> role_registry \<Rightarrow> tenant_db \<Rightarrow> tenant_db" where
  "init_system_roles only R db = fold (\<lambda>v db. snd (provision_system_roles (ws_id v) (all_roles R) db))
     (filter (\<lambda>v. ws_active v \<and> (case only of None \<Rightarrow> True | Some w \<Rightarrow> ws_id v = w)) (workspaces (tn_base db))) db"

subsection \<open>Roles in the hands of administrators\<close>

text \<open>
  \<open>StaffRoleViewSet\<close>, once its permission classes let a request in. \<open>slugify\<close> is Django's and a
  parameter; of the roles of invitations, which protect theirs from deletion too, only the ids are needed.
\<close>

datatype role_error = No_Role | Duplicate_Code | System_Role | Role_In_Use | No_Defaults

text \<open>The first free code: the base, then the base with 1, 2, 3 and so on after it.\<close>

definition numbered_code :: "string \<Rightarrow> nat \<Rightarrow> string" where
  "numbered_code base n = (if n = 0 then base else base @ CHR ''_'' # show_nat n)"

lemma numbered_code_inj: "numbered_code base n = numbered_code base m \<longleftrightarrow> n = m"
  by (auto simp: numbered_code_def split: if_splits)

function free_code :: "string list \<Rightarrow> string \<Rightarrow> nat \<Rightarrow> string" where
  "free_code taken base n = (if numbered_code base n \<in> set taken then free_code taken base (Suc n) else numbered_code base n)"
  by pat_completeness auto
termination
proof (relation "measure (\<lambda>(taken, base, n). card {x \<in> set taken. \<exists>k \<ge> n. x = numbered_code base k})")
  fix taken :: "string list" and base :: string and n :: nat
  assume "numbered_code base n \<in> set taken"
  moreover have "numbered_code base n \<notin> {x \<in> set taken. \<exists>k \<ge> Suc n. x = numbered_code base k}" using numbered_code_inj by auto
  ultimately have "{x \<in> set taken. \<exists>k \<ge> Suc n. x = numbered_code base k} \<subset> {x \<in> set taken. \<exists>k \<ge> n. x = numbered_code base k}"
    by (auto intro: Suc_leD)
  then have "card {x \<in> set taken. \<exists>k \<ge> Suc n. x = numbered_code base k} < card {x \<in> set taken. \<exists>k \<ge> n. x = numbered_code base k}"
    by (rule psubset_card_mono [rotated]) simp
  then show "((taken, base, Suc n), (taken, base, n)) \<in> measure (\<lambda>(taken, base, n). card {x \<in> set taken. \<exists>k \<ge> n. x = numbered_code base k})"
    by simp
qed simp

declare free_code.simps [simp del]

lemma free_code_free: "free_code taken base n \<notin> set taken"
  by (induction taken base n rule: free_code.induct) (subst free_code.simps, simp)

definition codes_in :: "nat \<Rightarrow> staff_role list \<Rightarrow> string list" where
  "codes_in w rs = map ro_code (filter (\<lambda>r. ro_workspace r = w) rs)"

record role_fields =
  rf_name :: string
  rf_code :: "string option"
  rf_description :: string
  rf_permissions :: permissions
  rf_active :: bool

text \<open>\<open>perform_create\<close>: a code that was given may be taken, which the table refuses.\<close>

definition code_of_name :: "(string \<Rightarrow> string) \<Rightarrow> string \<Rightarrow> string" where
  "code_of_name slugify name = replace_char CHR ''-'' CHR ''_'' (upper (slugify name))"

definition create_role :: "(string \<Rightarrow> string) \<Rightarrow> nat \<Rightarrow> role_fields \<Rightarrow> staff_role list \<Rightarrow> role_error + staff_role list" where
  "create_role slugify w f rs = (let code = (case rf_code f of Some c \<Rightarrow> if c = [] then free_code (codes_in w rs) (code_of_name slugify (rf_name f)) 0 else c
         | None \<Rightarrow> free_code (codes_in w rs) (code_of_name slugify (rf_name f)) 0) in
     if code \<in> set (codes_in w rs) then Inl Duplicate_Code
     else Inr (rs @ [\<lparr>ro_id = fresh_id ro_id rs, ro_workspace = w, ro_code = code, ro_name = rf_name f, ro_description = rf_description f,
       ro_permissions = rf_permissions f, ro_defaults = [], ro_owner_module = [], ro_system = False, ro_active = rf_active f\<rparr>]))"

text \<open>\<open>get_object\<close>: a role of the request's workspace.\<close>

definition own_role :: "nat \<Rightarrow> nat \<Rightarrow> staff_role list \<Rightarrow> staff_role option" where
  "own_role w i rs = first (filter (\<lambda>r. ro_workspace r = w \<and> ro_id r = i) rs)"

text \<open>\<open>perform_update\<close>; what was not sent of the fields is what the role has.\<close>

definition update_role :: "nat \<Rightarrow> nat \<Rightarrow> (staff_role \<Rightarrow> role_fields) \<Rightarrow> staff_role list \<Rightarrow> role_error + staff_role list" where
  "update_role w i sent rs = (case own_role w i rs of None \<Rightarrow> Inl No_Role
     | Some r \<Rightarrow> let f = sent r; code = (case rf_code f of Some c \<Rightarrow> if ro_system r then ro_code r else c | None \<Rightarrow> ro_code r) in
         if code \<noteq> ro_code r \<and> code \<in> set (codes_in w rs) then Inl Duplicate_Code
         else Inr (update_where (\<lambda>x. ro_id x = i) (\<lambda>x. x\<lparr>ro_code := code, ro_name := rf_name f, ro_description := rf_description f,
           ro_permissions := rf_permissions f, ro_active := rf_active f\<rparr>) rs))"

definition destroy_role :: "nat list \<Rightarrow> nat \<Rightarrow> nat \<Rightarrow> tenant_db \<Rightarrow> role_error + tenant_db" where
  "destroy_role invited w i db = (case own_role w i (tn_roles db) of None \<Rightarrow> Inl No_Role
     | Some r \<Rightarrow> if ro_system r then Inl System_Role
         else if i \<in> sm_role ` set (tn_staff db) \<or> i \<in> set invited then Inl Role_In_Use
         else Inr (db\<lparr>tn_roles := filter (\<lambda>x. ro_id x \<noteq> i) (tn_roles db)\<rparr>))"

definition restore_defaults :: "nat \<Rightarrow> nat \<Rightarrow> tenant_db \<Rightarrow> role_error + (bool \<times> tenant_db)" where
  "restore_defaults w i db = (case own_role w i (tn_roles db) of None \<Rightarrow> Inl No_Role
     | Some r \<Rightarrow> if \<not> ro_system r \<or> ro_defaults r = [] then Inl No_Defaults else Inr (restore_role_to_defaults r db))"

datatype role_call = Create_Role nat role_fields | Update_Role nat nat "staff_role \<Rightarrow> role_fields" | Destroy_Role nat nat
  | Restore_Defaults nat nat | Sync_Roles nat "role_definition list"

text \<open>One call after another; a call that is refused changes nothing.\<close>

definition after_role_call :: "(string \<Rightarrow> string) \<Rightarrow> nat list \<Rightarrow> role_call \<Rightarrow> tenant_db \<Rightarrow> tenant_db" where
  "after_role_call slugify invited call db = (case call of
     Create_Role w f \<Rightarrow> (case create_role slugify w f (tn_roles db) of Inr rs \<Rightarrow> db\<lparr>tn_roles := rs\<rparr> | Inl _ \<Rightarrow> db)
   | Update_Role w i sent \<Rightarrow> (case update_role w i sent (tn_roles db) of Inr rs \<Rightarrow> db\<lparr>tn_roles := rs\<rparr> | Inl _ \<Rightarrow> db)
   | Destroy_Role w i \<Rightarrow> (case destroy_role invited w i db of Inr db' \<Rightarrow> db' | Inl _ \<Rightarrow> db)
   | Restore_Defaults w i \<Rightarrow> (case restore_defaults w i db of Inr (_, db') \<Rightarrow> db' | Inl _ \<Rightarrow> db)
   | Sync_Roles w defs \<Rightarrow> snd (provision_system_roles w defs db))"

subsection \<open>One role after another\<close>

definition roles_ok :: "staff_role list \<Rightarrow> bool" where
  "roles_ok rs \<longleftrightarrow> distinct (map ro_id rs) \<and> distinct (map (\<lambda>r. (ro_workspace r, ro_code r)) rs)"

definition settled :: "nat \<Rightarrow> staff_role list \<Rightarrow> role_definition \<Rightarrow> bool" where
  "settled w rs d \<longleftrightarrow> (\<exists>r. role_in w (rd_code d) rs = Some r \<and> refreshed d r = r)"

lemma same_permissions_refl [simp]: "same_permissions p p"
  by (simp add: same_permissions_def list_all_iff)

lemma same_permissions_iff: "same_permissions p q \<longleftrightarrow> map_of p = map_of q"
proof
  assume a: "same_permissions p q"
  show "map_of p = map_of q"
  proof
    fix k
    show "map_of p k = map_of q k" using a
      by (cases "k \<in> fst ` set p \<union> fst ` set q") (auto simp: same_permissions_def list_all_iff map_of_eq_None_iff [THEN iffD2])
  qed
qed (simp add: same_permissions_def list_all_iff)

lemma refreshed_simps [simp]:
  "ro_id (refreshed d r) = ro_id r" "ro_workspace (refreshed d r) = ro_workspace r" "ro_code (refreshed d r) = ro_code r"
  "ro_permissions (refreshed d r) = ro_permissions r" "ro_active (refreshed d r) = ro_active r"
  "refreshed d (refreshed d r) = refreshed d r" "refreshed d (new_role w d rs) = new_role w d rs"
  by (simp_all add: refreshed_def new_role_def)

lemma role_in_append: "role_in w c (rs @ [n]) = (case role_in w c rs of None \<Rightarrow> if ro_workspace n = w \<and> ro_code n = c then Some n else None | Some r \<Rightarrow> Some r)"
  by (cases "filter (\<lambda>r. ro_workspace r = w \<and> ro_code r = c) rs") (simp_all add: role_in_def)

lemma role_in_refreshed: "role_in w c (update_where (\<lambda>x. ro_id x = i) (refreshed d) rs)
    = map_option (\<lambda>x. if ro_id x = i then refreshed d x else x) (role_in w c rs)"
  unfolding role_in_def update_where_def by (rule first_filter_map) simp

lemma role_in_SomeD: "role_in w c rs = Some r \<Longrightarrow> r \<in> set rs \<and> ro_workspace r = w \<and> ro_code r = c"
  unfolding role_in_def by (drule first_filter_SomeD) simp

lemma role_in_NoneD: "role_in w c rs = None \<Longrightarrow> r \<in> set rs \<Longrightarrow> (ro_workspace r, ro_code r) \<noteq> (w, c)"
  unfolding role_in_def first_filter_None by auto

text \<open>What a role grants, by its id, among some rows.\<close>

definition grant_of :: "staff_role list \<Rightarrow> nat \<Rightarrow> (string \<times> permissions) option" where
  "grant_of rs i = map_option (\<lambda>r. (ro_code r, ro_permissions r)) (first (filter (\<lambda>r. ro_id r = i) rs))"

lemma grants_of: "grants db i = grant_of (tn_roles db) i"
  by (simp add: grants_def role_by_id_def grant_of_def)

definition keeps :: "nat \<Rightarrow> staff_role list \<Rightarrow> staff_role list \<Rightarrow> bool" where
  "keeps w rs rs' \<longleftrightarrow> roles_ok rs' \<and> ro_id ` set rs \<subseteq> ro_id ` set rs' \<and> (\<forall>i \<in> ro_id ` set rs. grant_of rs' i = grant_of rs i) \<and>
     filter (\<lambda>r. ro_workspace r \<noteq> w) rs' = filter (\<lambda>r. ro_workspace r \<noteq> w) rs"

lemma keeps_trans: "keeps w rs ss \<Longrightarrow> keeps w ss ts \<Longrightarrow> keeps w rs ts"
  unfolding keeps_def by (metis subset_iff subset_trans)

lemma keeps_new: "roles_ok rs \<Longrightarrow> role_in w (rd_code d) rs = None \<Longrightarrow> keeps w rs (rs @ [new_role w d rs])"
proof -
  assume ok: "roles_ok rs" and none: "role_in w (rd_code d) rs = None"
  have "grant_of (rs @ [new_role w d rs]) i = grant_of rs i" if "i \<in> ro_id ` set rs" for i
  proof -
    have "fresh_id ro_id rs \<noteq> i" using that by auto
    then show ?thesis by (simp add: grant_of_def new_role_def)
  qed
  moreover have "roles_ok (rs @ [new_role w d rs])"
    using ok role_in_NoneD [OF none] fresh_id_notin [of ro_id rs] by (force simp: roles_ok_def new_role_def)
  moreover have "ro_workspace (new_role w d rs) = w" by (simp add: new_role_def)
  ultimately show ?thesis by (auto simp: keeps_def)
qed

lemma keeps_refreshed:
  assumes "roles_ok rs" "role_in w c rs = Some r"
  shows "keeps w rs (update_where (\<lambda>x. ro_id x = ro_id r) (refreshed d) rs)"
proof -
  let ?f = "\<lambda>x. if ro_id x = ro_id r then refreshed d x else x"
  have r: "r \<in> set rs" "ro_workspace r = w" using role_in_SomeD [OF assms(2)] by simp_all
  have ids: "map ro_id (map ?f rs) = map ro_id rs" "map (\<lambda>x. (ro_workspace x, ro_code x)) (map ?f rs) = map (\<lambda>x. (ro_workspace x, ro_code x)) rs"
    by simp_all
  have g: "grant_of (map ?f rs) i = grant_of rs i" for i
    unfolding grant_of_def by (subst first_filter_map) (simp_all add: option.map_comp comp_def if_distrib cong: if_cong)
  have other: "?f x = x" if "x \<in> set rs" "ro_workspace x \<noteq> w" for x
    using that r assms(1) by (auto simp: roles_ok_def distinct_map dest: inj_onD)
  have "filter (\<lambda>x. ro_workspace x \<noteq> w) (map ?f rs) = map ?f (filter (\<lambda>x. ro_workspace x \<noteq> w) rs)"
    by (simp add: filter_map comp_def if_distrib cong: if_cong)
  also have "\<dots> = filter (\<lambda>x. ro_workspace x \<noteq> w) rs" using other by (intro map_idI) simp
  finally have "filter (\<lambda>x. ro_workspace x \<noteq> w) (map ?f rs) = filter (\<lambda>x. ro_workspace x \<noteq> w) rs" .
  moreover have "roles_ok (map ?f rs)" using assms(1) unfolding roles_ok_def ids .
  moreover have "ro_id ` set rs \<subseteq> ro_id ` set (map ?f rs)" unfolding set_map [symmetric] ids ..
  ultimately show ?thesis using g unfolding keeps_def update_where_def by blast
qed

lemma provision_role_step:
  assumes "roles_ok rs" "provision_role w d (res, rs) = (res', rs')"
  shows "keeps w rs rs' \<and> settled w rs' d \<and> (\<forall>e. rd_code e \<noteq> rd_code d \<longrightarrow> settled w rs e \<longrightarrow> settled w rs' e)"
proof (cases "role_in w (rd_code d) rs")
  case None
  then have rs': "rs' = rs @ [new_role w d rs]" using assms(2) by (simp add: provision_role_def)
  have n: "ro_workspace (new_role w d rs) = w" "ro_code (new_role w d rs) = rd_code d" by (simp_all add: new_role_def)
  have "settled w rs' d" by (simp add: settled_def rs' role_in_append None n)
  moreover have "settled w rs' e" if "settled w rs e" for e using that by (auto simp: settled_def rs' role_in_append)
  ultimately show ?thesis using keeps_new [OF assms(1) None] rs' by blast
next
  case (Some r)
  show ?thesis
  proof (cases "refreshed d r = r")
    case True
    then have "rs' = rs" using assms(2) Some by (simp add: provision_role_def)
    then show ?thesis using True Some assms(1) by (auto simp: settled_def keeps_def)
  next
    case False
    then have rs': "rs' = update_where (\<lambda>x. ro_id x = ro_id r) (refreshed d) rs" using assms(2) Some by (simp add: provision_role_def)
    have "settled w rs' d" by (simp add: settled_def rs' role_in_refreshed Some)
    moreover have "settled w rs' e" if e: "settled w rs e" "rd_code e \<noteq> rd_code d" for e
    proof -
      obtain x where x: "role_in w (rd_code e) rs = Some x" "refreshed e x = x" using e(1) by (auto simp: settled_def)
      have "x \<in> set rs" "r \<in> set rs" "ro_code x \<noteq> ro_code r" using role_in_SomeD [OF x(1)] role_in_SomeD [OF Some] e(2) by auto
      then have "ro_id x \<noteq> ro_id r" using assms(1) by (auto simp: roles_ok_def distinct_map dest: inj_onD)
      then show ?thesis using x by (simp add: settled_def rs' role_in_refreshed)
    qed
    ultimately show ?thesis using keeps_refreshed [OF assms(1) Some] rs' by blast
  qed
qed

lemma provision_fold:
  assumes "roles_ok rs" "distinct (map rd_code ds)" "fold (provision_role w) ds (res, rs) = (res', rs')"
  shows "keeps w rs rs' \<and> (\<forall>d \<in> set ds. settled w rs' d) \<and> (\<forall>e. rd_code e \<notin> rd_code ` set ds \<longrightarrow> settled w rs e \<longrightarrow> settled w rs' e)"
  using assms
proof (induction ds arbitrary: res rs)
  case Nil
  then show ?case by (auto simp: keeps_def)
next
  case (Cons d ds)
  obtain res1 rs1 where s: "provision_role w d (res, rs) = (res1, rs1)" by fastforce
  note step = provision_role_step [OF Cons.prems(1) s]
  have "fold (provision_role w) ds (res1, rs1) = (res', rs')" "roles_ok rs1" "distinct (map rd_code ds)" "rd_code d \<notin> rd_code ` set ds"
    using Cons.prems s step by (simp_all add: keeps_def)
  note rest = Cons.IH [OF this(2,3,1)] and this(4)
  then show ?case using step keeps_trans by auto
qed

lemma provision_settled:
  assumes "\<forall>d \<in> set ds. settled w rs d"
  shows "fold (provision_role w) ds (res, rs) = (res\<lparr>pr_skipped := pr_skipped res @ map rd_code ds\<rparr>, rs)"
  using assms
proof (induction ds arbitrary: res)
  case (Cons d ds)
  have "provision_role w d (res, rs) = (res\<lparr>pr_skipped := pr_skipped res @ [rd_code d]\<rparr>, rs)"
    using Cons.prems by (auto simp: settled_def provision_role_def)
  then show ?case using Cons by simp
qed simp

text \<open>A role as its declaration says, whatever it grants.\<close>

definition as_declared :: "role_definition \<Rightarrow> staff_role \<Rightarrow> bool" where
  "as_declared d r \<longleftrightarrow> ro_name r = rd_name d \<and> ro_description r = rd_description d \<and> same_permissions (ro_defaults r) (rd_defaults d) \<and>
     ro_owner_module r = rd_owner d \<and> ro_system r"

lemma refreshed_as_declared: "refreshed d r = r \<Longrightarrow> as_declared d r"
  unfolding refreshed_def as_declared_def by (cases r) (auto split: if_splits)

subsection \<open>Properties\<close>

text \<open>
  C15: Provisioning the declared roles of a workspace leaves everybody's rights as they were, in it and in
  every other workspace; every declaration then has its role, with the declared names and defaults;
  other workspaces' roles stay as they are; and provisioning again does nothing.
\<close>

theorem provisioning_changes_no_rights:
  assumes "roles_ok (tn_roles db)" "\<forall>m \<in> set (tn_staff db). sm_role m \<in> ro_id ` set (tn_roles db)"
    and "distinct (map rd_code defs)" "provision_system_roles w defs db = (res, db')"
  shows "roles_ok (tn_roles db') \<and>
    rights_in T v user verb required action owner db' = rights_in T v user verb required action owner db \<and>
    (\<forall>d \<in> set defs. \<exists>r. role_in w (rd_code d) (tn_roles db') = Some r \<and> as_declared d r) \<and>
    filter (\<lambda>r. ro_workspace r \<noteq> w) (tn_roles db') = filter (\<lambda>r. ro_workspace r \<noteq> w) (tn_roles db) \<and>
    provision_system_roles w defs db' = (\<lparr>pr_created = [], pr_updated = [], pr_skipped = map rd_code defs\<rparr>, db')"
proof -
  let ?none = "\<lparr>pr_created = [], pr_updated = [], pr_skipped = []\<rparr>"
  obtain rs' where f: "fold (provision_role w) defs (?none, tn_roles db) = (res, rs')" and db': "db' = db\<lparr>tn_roles := rs'\<rparr>"
    using assms(4) by (auto simp: provision_system_roles_def split: prod.splits)
  note all = provision_fold [OF assms(1,3) f]
  have staff: "staff_of db' v = staff_of db v" by (simp add: db' staff_of_def)
  have "grants db' (sm_role m) = grants db (sm_role m)" if "m \<in> set (staff_of db v)" for m
    using that all assms(2) by (auto simp: staff_of_def grants_of db' keeps_def)
  then have rights: "rights_in T v user verb required action owner db' = rights_in T v user verb required action owner db"
    using staff by (intro rights_from_grants) auto
  have again: "provision_system_roles w defs db' = (\<lparr>pr_created = [], pr_updated = [], pr_skipped = map rd_code defs\<rparr>, db')"
    using all provision_settled [of defs w rs' ?none] by (simp add: provision_system_roles_def db')
  have "\<forall>d \<in> set defs. \<exists>r. role_in w (rd_code d) rs' = Some r \<and> as_declared d r"
    using all refreshed_as_declared by (auto simp: settled_def)
  then show ?thesis using all rights again by (simp add: keeps_def db')
qed

text \<open>The declarations of a registry have different codes, as provisioning takes them to.\<close>

lemma put_by_distinct: "distinct (map key xs) \<Longrightarrow> distinct (map key (put_by key x xs))"
  by (auto simp: put_by_def map_update_where list_ex_iff)

lemma registered_distinct: "distinct (map rd_code (rr_roles R)) \<Longrightarrow> register_role d R = Some R' \<Longrightarrow> distinct (map rd_code (rr_roles R'))"
  by (auto simp: register_role_def put_by_distinct split: if_splits)

lemma all_roles_distinct: "distinct (map rd_code (rr_roles R)) \<Longrightarrow> distinct (map rd_code (all_roles R))"
proof -
  assume "distinct (map rd_code (rr_roles R))"
  moreover have "mset (map rd_code (all_roles R)) = mset (map rd_code (rr_roles R))" by (simp only: all_roles_def mset_map mset_sort)
  ultimately show ?thesis by (metis mset_eq_imp_distinct_iff)
qed

text \<open>Restoring a role gives it its defaults and no other role anything; doing it again does nothing.\<close>

lemma restored_role:
  assumes "roles_ok (tn_roles db)" "r \<in> set (tn_roles db)" "ro_defaults r \<noteq> []"
  shows "grants (snd (restore_role_to_defaults r db)) (ro_id r) \<noteq> None \<and>
    map_of (snd (the (grants (snd (restore_role_to_defaults r db)) (ro_id r)))) = map_of (ro_defaults r) \<and>
    (\<forall>i. i \<noteq> ro_id r \<longrightarrow> grants (snd (restore_role_to_defaults r db)) i = grants db i)"
proof -
  let ?f = "\<lambda>x. if ro_id x = ro_id r then x\<lparr>ro_permissions := ro_defaults r\<rparr> else x"
  have own: "first (filter (\<lambda>x. ro_id x = ro_id r) (tn_roles db)) = Some r"
    using assms(1,2) by (cases "first (filter (\<lambda>x. ro_id x = ro_id r) (tn_roles db))")
      (auto simp: filter_empty_conv roles_ok_def distinct_map dest!: first_filter_SomeD dest: inj_onD)
  have upd: "first (filter (\<lambda>x. ro_id x = i) (map ?f (tn_roles db))) = map_option ?f (first (filter (\<lambda>x. ro_id x = i) (tn_roles db)))" for i
    by (rule first_filter_map) simp
  show ?thesis
  proof (cases "same_permissions (ro_permissions r) (ro_defaults r)")
    case True
    then show ?thesis using own by (simp add: restore_role_to_defaults_def grants_of grant_of_def same_permissions_iff)
  next
    case False
    then have "snd (restore_role_to_defaults r db) = db\<lparr>tn_roles := map ?f (tn_roles db)\<rparr>"
      using assms(3) by (simp add: restore_role_to_defaults_def update_where_def)
    moreover have "grant_of (map ?f (tn_roles db)) i = map_option (\<lambda>r. (ro_code r, ro_permissions r)) (map_option ?f (first (filter (\<lambda>x. ro_id x = i) (tn_roles db))))" for i
      unfolding grant_of_def upd ..
    moreover have "map_option (\<lambda>r. (ro_code r, ro_permissions r)) (map_option ?f (first (filter (\<lambda>x. ro_id x = i) (tn_roles db)))) = grant_of (tn_roles db) i" if "i \<noteq> ro_id r" for i
      using that unfolding grant_of_def by (cases "first (filter (\<lambda>x. ro_id x = i) (tn_roles db))") (auto dest: first_filter_SomeD)
    ultimately show ?thesis using own by (simp add: grants_of)
  qed
qed

subsection \<open>What administrators cannot undo\<close>

definition survive :: "staff_role list \<Rightarrow> staff_role list \<Rightarrow> bool" where
  "survive rs rs' \<longleftrightarrow> (\<forall>r \<in> set rs. ro_system r \<longrightarrow>
     (\<exists>r' \<in> set rs'. ro_id r' = ro_id r \<and> ro_workspace r' = ro_workspace r \<and> ro_code r' = ro_code r \<and> ro_system r'))"

lemma survive_refl [simp]: "survive rs rs"
  by (auto simp: survive_def)

lemma survive_append [simp]: "survive rs (rs @ new)"
  by (auto simp: survive_def)

lemma survive_trans: "survive rs ss \<Longrightarrow> survive ss ts \<Longrightarrow> survive rs ts"
  unfolding survive_def by metis

lemma survive_update:
  assumes "\<And>x. P x \<Longrightarrow> x \<in> set rs \<Longrightarrow> ro_system x \<Longrightarrow> ro_id (f x) = ro_id x \<and> ro_workspace (f x) = ro_workspace x \<and> ro_code (f x) = ro_code x \<and> ro_system (f x)"
  shows "survive rs (update_where P f rs)"
  unfolding survive_def set_update_where
proof (intro ballI impI)
  fix r assume r: "r \<in> set rs" "ro_system r"
  show "\<exists>r' \<in> (\<lambda>x. if P x then f x else x) ` set rs. ro_id r' = ro_id r \<and> ro_workspace r' = ro_workspace r \<and> ro_code r' = ro_code r \<and> ro_system r'"
    using r assms [of r] by (intro bexI [of _ "if P r then f r else r"]) auto
qed

lemma survive_provision: "provision_role w d (res, rs) = (res', rs') \<Longrightarrow> survive rs rs'"
  by (auto simp: provision_role_def refreshed_def intro!: survive_update split: option.splits if_splits)

lemma provision_survive:
  "fold (provision_role w) ds (res, rs) = (res', rs') \<Longrightarrow> roles_ok rs \<Longrightarrow> roles_ok rs' \<and> ro_id ` set rs \<subseteq> ro_id ` set rs' \<and> survive rs rs'"
proof (induction ds arbitrary: res rs)
  case (Cons d ds)
  obtain res1 rs1 where s: "provision_role w d (res, rs) = (res1, rs1)" by fastforce
  have k: "keeps w rs rs1" using provision_role_step [OF Cons.prems(2) s] by blast
  with Cons.IH [of res1 rs1] Cons.prems s show ?case
    using survive_trans [OF survive_provision [OF s]] by (simp add: keeps_def) blast
qed simp

text \<open>The rows in which roles may stand, with the staff that has them.\<close>

definition staffed :: "tenant_db \<Rightarrow> bool" where
  "staffed db \<longleftrightarrow> roles_ok (tn_roles db) \<and> (\<forall>m \<in> set (tn_staff db). sm_role m \<in> ro_id ` set (tn_roles db))"

definition role_step :: "tenant_db \<Rightarrow> tenant_db \<Rightarrow> bool" where
  "role_step db db' \<longleftrightarrow> staffed db' \<and> tn_staff db' = tn_staff db \<and> survive (tn_roles db) (tn_roles db')"

lemma role_step_refl: "staffed db \<Longrightarrow> role_step db db"
  by (simp add: role_step_def)

lemma role_step_rows:
  "staffed db \<Longrightarrow> roles_ok rs \<Longrightarrow> ro_id ` set (tn_roles db) \<subseteq> ro_id ` set rs \<Longrightarrow> survive (tn_roles db) rs \<Longrightarrow> role_step db (db\<lparr>tn_roles := rs\<rparr>)"
  by (auto simp: role_step_def staffed_def)

lemma codes_in_iff: "c \<in> set (codes_in w rs) \<longleftrightarrow> (w, c) \<in> (\<lambda>r. (ro_workspace r, ro_code r)) ` set rs"
  by (auto simp: codes_in_def)

lemma create_role_step:
  assumes "staffed db" "create_role slugify w f (tn_roles db) = Inr rs"
  shows "role_step db (db\<lparr>tn_roles := rs\<rparr>)"
proof -
  obtain r where r: "rs = tn_roles db @ [r]" "ro_id r = fresh_id ro_id (tn_roles db)" "ro_workspace r = w" "ro_code r \<notin> set (codes_in w (tn_roles db))"
    using assms(2) by (auto simp: create_role_def Let_def split: if_splits)
  have "roles_ok rs" using assms(1) r fresh_id_notin [of ro_id "tn_roles db"] by (auto simp: staffed_def roles_ok_def codes_in_iff)
  then show ?thesis using assms(1) r by (intro role_step_rows) auto
qed

lemma own_role_SomeD: "own_role w i rs = Some r \<Longrightarrow> r \<in> set rs \<and> ro_workspace r = w \<and> ro_id r = i"
  unfolding own_role_def by (drule first_filter_SomeD) simp

lemma distinct_replace:
  assumes "distinct (map g xs)" "x \<in> set xs" "g' \<notin> g ` set xs \<or> g' = g x" "\<And>y. y \<in> set xs \<Longrightarrow> g (f y) = (if y = x then g' else g y)"
  shows "distinct (map g (map f xs))"
proof -
  have g: "inj_on g (set xs)" "distinct xs" using assms(1) by (simp_all add: distinct_map)
  have "inj_on (\<lambda>y. if y = x then g' else g y) (set xs)"
  proof (rule inj_onI)
    fix y z assume yz: "y \<in> set xs" "z \<in> set xs" "(if y = x then g' else g y) = (if z = x then g' else g z)"
    have "g' \<noteq> g v" if "v \<in> set xs" "v \<noteq> x" for v
      using assms(3) that inj_on_eq_iff [OF g(1) that(1) assms(2)] by auto
    then show "y = z" using yz inj_onD [OF g(1) _ yz(1,2)] by (cases "y = x"; cases "z = x") auto
  qed
  then have "inj_on (g \<circ> f) (set xs)" using assms(4) by (simp add: inj_on_def)
  with g(2) show ?thesis by (simp add: distinct_map)
qed

lemma update_role_step:
  assumes "staffed db" "update_role w i sent (tn_roles db) = Inr rs"
  shows "role_step db (db\<lparr>tn_roles := rs\<rparr>)"
proof -
  obtain r where r: "own_role w i (tn_roles db) = Some r" using assms(2) by (auto simp: update_role_def split: option.splits)
  note own = own_role_SomeD [OF r]
  define code where "code = (case rf_code (sent r) of Some c \<Rightarrow> if ro_system r then ro_code r else c | None \<Rightarrow> ro_code r)"
  define f where "f = (\<lambda>x :: staff_role. x\<lparr>ro_code := code, ro_name := rf_name (sent r), ro_description := rf_description (sent r),
           ro_permissions := rf_permissions (sent r), ro_active := rf_active (sent r)\<rparr>)"
  have u: "rs = update_where (\<lambda>x. ro_id x = i) f (tn_roles db)" "code = ro_code r \<or> code \<notin> set (codes_in w (tn_roles db))"
    using assms(2) r by (auto simp: update_role_def f_def code_def Let_def split: if_splits)
  have f: "ro_id (f x) = ro_id x" "ro_workspace (f x) = ro_workspace x" "ro_system (f x) = ro_system x" "ro_code (f x) = code" for x
    by (simp_all add: f_def)
  have ok: "roles_ok (tn_roles db)" using assms(1) by (simp add: staffed_def)
  have one: "x = r" if "x \<in> set (tn_roles db)" "ro_id x = i" for x
    using that own ok by (simp add: roles_ok_def distinct_map inj_on_def)
  have "distinct (map (\<lambda>r. (ro_workspace r, ro_code r)) (map (\<lambda>x. if ro_id x = i then f x else x) (tn_roles db)))"
  proof (rule distinct_replace [where x = r and g' = "(w, code)"])
    show "(w, code) \<notin> (\<lambda>r. (ro_workspace r, ro_code r)) ` set (tn_roles db) \<or> (w, code) = (ro_workspace r, ro_code r)"
      using u(2) own by (auto simp: codes_in_iff)
  next
    fix y assume y: "y \<in> set (tn_roles db)"
    have "ro_id y = i \<longleftrightarrow> y = r" using one [OF y] own by blast
    then show "(ro_workspace (if ro_id y = i then f y else y), ro_code (if ro_id y = i then f y else y)) = (if y = r then (w, code) else (ro_workspace y, ro_code y))"
      using own f by simp
  qed (use ok own in \<open>auto simp: roles_ok_def\<close>)
  moreover have "map ro_id (map (\<lambda>x. if ro_id x = i then f x else x) (tn_roles db)) = map ro_id (tn_roles db)" using f by simp
  ultimately have "roles_ok rs" using ok unfolding u(1) update_where_def roles_ok_def by metis
  moreover have "ro_id ` set (tn_roles db) \<subseteq> ro_id ` set rs" using f unfolding u(1) set_update_where image_image by (auto split: if_splits)
  moreover have "survive (tn_roles db) rs" unfolding u(1)
  proof (rule survive_update)
    fix x assume x: "ro_id x = i" "x \<in> set (tn_roles db)" "ro_system x"
    have "x = r" using x by (intro one)
    with x show "ro_id (f x) = ro_id x \<and> ro_workspace (f x) = ro_workspace x \<and> ro_code (f x) = ro_code x \<and> ro_system (f x)"
      by (simp add: f code_def split: option.split)
  qed
  ultimately show ?thesis by (rule role_step_rows [OF assms(1)])
qed

lemma destroy_role_step:
  assumes "staffed db" "destroy_role invited w i db = Inr db'"
  shows "role_step db db'"
proof -
  obtain r where r: "own_role w i (tn_roles db) = Some r" "\<not> ro_system r" "i \<notin> sm_role ` set (tn_staff db)"
      "db' = db\<lparr>tn_roles := filter (\<lambda>x. ro_id x \<noteq> i) (tn_roles db)\<rparr>"
    using assms(2) by (auto simp: destroy_role_def split: option.splits if_splits)
  note own = own_role_SomeD [OF r(1)]
  have one: "x = r" if "x \<in> set (tn_roles db)" "ro_id x = i" for x
    using that own assms(1) by (auto simp: staffed_def roles_ok_def distinct_map dest: inj_onD)
  have sv: "survive (tn_roles db) (filter (\<lambda>x. ro_id x \<noteq> i) (tn_roles db))"
    unfolding survive_def using one r(2) by force
  have "sm_role m \<in> ro_id ` set (filter (\<lambda>x. ro_id x \<noteq> i) (tn_roles db))" if m: "m \<in> set (tn_staff db)" for m
  proof -
    obtain x where "x \<in> set (tn_roles db)" "ro_id x = sm_role m" using assms(1) m by (fastforce simp: staffed_def)
    moreover have "sm_role m \<noteq> i" using r(3) m by blast
    ultimately show ?thesis by (intro image_eqI [of _ _ x]) simp_all
  qed
  moreover have "roles_ok (filter (\<lambda>x. ro_id x \<noteq> i) (tn_roles db))" using assms(1) by (simp add: staffed_def roles_ok_def distinct_map_filter)
  ultimately have "staffed db'" by (simp add: r(4) staffed_def)
  then show ?thesis using sv by (simp add: role_step_def r(4))
qed

lemma restore_step:
  assumes "staffed db" "restore_defaults w i db = Inr (b, db')"
  shows "role_step db db'"
proof -
  obtain r where r: "own_role w i (tn_roles db) = Some r" using assms(2) by (auto simp: restore_defaults_def split: option.splits)
  have "db' = db \<or> db' = db\<lparr>tn_roles := update_where (\<lambda>x. ro_id x = ro_id r) (\<lambda>x. x\<lparr>ro_permissions := ro_defaults r\<rparr>) (tn_roles db)\<rparr>"
    using assms(2) r by (auto simp: restore_defaults_def restore_role_to_defaults_def split: if_splits)
  moreover have "role_step db (db\<lparr>tn_roles := update_where (\<lambda>x. ro_id x = ro_id r) (\<lambda>x. x\<lparr>ro_permissions := ro_defaults r\<rparr>) (tn_roles db)\<rparr>)"
  proof (rule role_step_rows [OF assms(1)])
    show "roles_ok (update_where (\<lambda>x. ro_id x = ro_id r) (\<lambda>x. x\<lparr>ro_permissions := ro_defaults r\<rparr>) (tn_roles db))"
      using assms(1) by (simp add: staffed_def roles_ok_def map_update_where)
    show "ro_id ` set (tn_roles db) \<subseteq> ro_id ` set (update_where (\<lambda>x. ro_id x = ro_id r) (\<lambda>x. x\<lparr>ro_permissions := ro_defaults r\<rparr>) (tn_roles db))"
      unfolding set_map [symmetric] by (simp add: map_update_where del: set_map)
  qed (simp add: survive_update)
  ultimately show ?thesis using role_step_refl [OF assms(1)] by metis
qed

lemma sync_step:
  assumes "staffed db"
  shows "role_step db (snd (provision_system_roles w defs db))"
proof -
  let ?none = "\<lparr>pr_created = [], pr_updated = [], pr_skipped = []\<rparr>"
  obtain res rs where f: "fold (provision_role w) defs (?none, tn_roles db) = (res, rs)" by fastforce
  from provision_survive [OF f] assms have "role_step db (db\<lparr>tn_roles := rs\<rparr>)"
    by (intro role_step_rows) (simp_all add: staffed_def)
  then show ?thesis by (simp add: provision_system_roles_def f)
qed

lemma role_call_step: "staffed db \<Longrightarrow> role_step db (after_role_call slugify invited call db)"
  by (cases call) (auto simp: after_role_call_def role_step_refl sync_step
      dest: create_role_step update_role_step destroy_role_step restore_step split: sum.split)

text \<open>
  C16: Whatever administrators do with the roles of their workspaces and however often declarations are
  synced: a system role stays in its workspace under its code; no two roles of a workspace share a
  code; and every member of the staff keeps a role that exists.
\<close>

theorem system_roles_survive:
  assumes "roles_ok (tn_roles db)" "\<forall>m \<in> set (tn_staff db). sm_role m \<in> ro_id ` set (tn_roles db)"
  shows "let db' = fold (after_role_call slugify invited) calls db in
    roles_ok (tn_roles db') \<and> (\<forall>m \<in> set (tn_staff db'). sm_role m \<in> ro_id ` set (tn_roles db')) \<and>
    survive (tn_roles db) (tn_roles db')"
proof -
  have "role_step db (fold (after_role_call slugify invited) calls db)" if "staffed db"
    using that
  proof (induction calls arbitrary: db)
    case (Cons c calls)
    have s: "role_step db (after_role_call slugify invited c db)" by (rule role_call_step [OF Cons.prems])
    then have "role_step (after_role_call slugify invited c db) (fold (after_role_call slugify invited) calls (after_role_call slugify invited c db))"
      by (intro Cons.IH) (simp add: role_step_def)
    with s show ?case by (auto simp: role_step_def intro: survive_trans)
  qed (simp add: role_step_refl)
  then show ?thesis using assms by (simp add: staffed_def role_step_def Let_def)
qed

end
