(* ===== verification/Invitations.thy ===== *)
theory Invitations
  imports Staff_Roles
begin

text \<open>
  Inviting people to the staff of a workspace (\<open>common/services/invitation_service.py\<close>,
  \<open>common/models/invitation.py\<close>) and the endpoints around it (\<open>common/views.py\<close>). An invitation is sent to an
  address with a secret token of which the digest is stored; it is pending until it is accepted, revoked
  or expired, and can be sent again. The digest is a function; the token and the uuid drawn are arguments.
  Sending the mail is left out: what it raises is logged and changes nothing.
\<close>

subsection \<open>Rows\<close>

datatype invite_status = Iv_Pending | Iv_Accepted | Iv_Revoked | Iv_Expired

record invitation =
  iv_id :: nat
  iv_uuid :: string
  iv_workspace :: nat
  iv_email :: string
  iv_role :: nat
  iv_invited_by :: "nat option"
  iv_token_hash :: string
  iv_status :: invite_status
  iv_expires_at :: moment
  iv_accepted_at :: "moment option"
  iv_accepted_by :: "nat option"
  iv_revoked_at :: "moment option"
  iv_message :: string

record invite_db =
  id_tenants :: tenant_db
  id_rows :: "invitation list"

datatype invite_error = Email_Missing | Foreign_Role | Staff_Already | Invited_Already | Wrong_Status | Not_Yours
  | Accepted_Already | Was_Revoked | Has_Expired | Other_Address | Workspace_Inactive | Token_Missing | Token_Unknown
  | Token_Mismatch | Row_Refused | Too_Long | Role_Not_Found | No_Invitation

definition is_expired :: "moment \<Rightarrow> invitation \<Rightarrow> bool" where
  "is_expired t i \<longleftrightarrow> iv_expires_at i \<le> t"

definition effective_status :: "moment \<Rightarrow> invitation \<Rightarrow> invite_status" where
  "effective_status t i = (if iv_status i = Iv_Pending \<and> is_expired t i then Iv_Expired else iv_status i)"

text \<open>
  The rows may hold one pending invitation of a workspace for an address, and no token or uuid twice.
  Writing columns of a row by its id.
\<close>

definition collides :: "invitation \<Rightarrow> invitation \<Rightarrow> bool" where
  "collides i x \<longleftrightarrow> iv_id x \<noteq> iv_id i \<and> (iv_token_hash x = iv_token_hash i \<or> iv_uuid x = iv_uuid i \<or>
     iv_workspace x = iv_workspace i \<and> iv_email x = iv_email i \<and> iv_status x = Iv_Pending \<and> iv_status i = Iv_Pending)"

definition write_invitation :: "nat \<Rightarrow> (invitation \<Rightarrow> invitation) \<Rightarrow> invite_db \<Rightarrow> invite_db" where
  "write_invitation i f db = db\<lparr>id_rows := update_where (\<lambda>x. iv_id x = i) f (id_rows db)\<rparr>"

text \<open>\<open>mark_expired\<close>, \<open>mark_revoked\<close> and \<open>mark_accepted\<close>: the invitation as the caller holds it, and the columns written.\<close>

definition mark_expired :: "invitation \<Rightarrow> invite_db \<Rightarrow> invitation \<times> invite_db" where
  "mark_expired i db = (if iv_status i = Iv_Pending
     then (i\<lparr>iv_status := Iv_Expired\<rparr>, write_invitation (iv_id i) (\<lambda>x. x\<lparr>iv_status := Iv_Expired\<rparr>) db) else (i, db))"

definition mark_revoked :: "moment \<Rightarrow> invitation \<Rightarrow> invite_db \<Rightarrow> invitation \<times> invite_db" where
  "mark_revoked t i db = (i\<lparr>iv_status := Iv_Revoked, iv_revoked_at := Some t\<rparr>,
     write_invitation (iv_id i) (\<lambda>x. x\<lparr>iv_status := Iv_Revoked, iv_revoked_at := Some t\<rparr>) db)"

definition mark_accepted :: "moment \<Rightarrow> nat \<Rightarrow> invitation \<Rightarrow> invite_db \<Rightarrow> invitation \<times> invite_db" where
  "mark_accepted t u i db = (i\<lparr>iv_status := Iv_Accepted, iv_accepted_at := Some t, iv_accepted_by := Some u\<rparr>,
     write_invitation (iv_id i) (\<lambda>x. x\<lparr>iv_status := Iv_Accepted, iv_accepted_at := Some t, iv_accepted_by := Some u\<rparr>) db)"

subsection \<open>How long an invitation lasts\<close>

text \<open>
  What may be sent as hours, and what \<open>int\<close> makes of it: a fraction is cut, a text may be a number, an
  infinite float (JSON allows \<open>1e999\<close>) raises what nobody catches.
\<close>

datatype hours_value = Hours int | Fraction rat | Infinite | Written string | No_Number

definition MAX_EXPIRY_HOURS :: int where "MAX_EXPIRY_HOURS = 24 * 14"

definition int_of_hours :: "int \<Rightarrow> hours_value \<Rightarrow> int option" where
  "int_of_hours fallback v = (case v of Hours n \<Rightarrow> Some n
     | Fraction q \<Rightarrow> Some (if q < 0 then - \<lfloor>- q\<rfloor> else \<lfloor>q\<rfloor>)
     | Infinite \<Rightarrow> None
     | Written s \<Rightarrow> Some (case python_int s of Some n \<Rightarrow> n | None \<Rightarrow> fallback)
     | No_Number \<Rightarrow> Some fallback)"

definition expiry_hours :: "int \<Rightarrow> hours_value option \<Rightarrow> int option" where
  "expiry_hours fallback requested = map_option (\<lambda>n. if n < 1 then 1 else if MAX_EXPIRY_HOURS < n then MAX_EXPIRY_HOURS else n)
     (case requested of None \<Rightarrow> Some fallback | Some v \<Rightarrow> int_of_hours fallback v)"

definition expires :: "env \<Rightarrow> int \<Rightarrow> moment" where
  "expires e hours = now e + seconds_delta (3600 * hours)"

subsection \<open>The service\<close>

record invite_env =
  ie_env :: env
  ie_hours :: int
  ie_hash :: "string \<Rightarrow> string"

definition same_address :: "string \<Rightarrow> string \<Rightarrow> bool" where
  "same_address a b \<longleftrightarrow> lower a = lower b"

text \<open>Whether an active member of the staff has the address; \<open>bound\<close> is the workspace of the thread.\<close>

definition staff_address :: "nat option \<Rightarrow> nat \<Rightarrow> string \<Rightarrow> tenant_db \<Rightarrow> bool" where
  "staff_address bound w email db \<longleftrightarrow> list_ex (\<lambda>m. sm_workspace m = w \<and> sm_active m \<and>
     list_ex (\<lambda>u. us_id u = sm_user m \<and> same_address (us_email u) email) (tn_users db)) (scoped_staff bound db)"

definition pending_for :: "nat \<Rightarrow> string \<Rightarrow> invite_db \<Rightarrow> invitation option" where
  "pending_for w email db = first (filter (\<lambda>i. iv_workspace i = w \<and> same_address (iv_email i) email \<and> iv_status i = Iv_Pending) (id_rows db))"

text \<open>\<open>create\<close>, in one transaction: a refusal leaves nothing behind.\<close>

definition new_invitation :: "invite_env \<Rightarrow> nat \<Rightarrow> nat option \<Rightarrow> string \<Rightarrow> staff_role \<Rightarrow> int \<Rightarrow> string \<Rightarrow> string \<Rightarrow> string \<Rightarrow> invite_db \<Rightarrow> invitation" where
  "new_invitation E w actor email r hours message token uuid db = \<lparr>iv_id = fresh_id iv_id (id_rows db), iv_uuid = uuid, iv_workspace = w,
     iv_email = email, iv_role = ro_id r, iv_invited_by = actor, iv_token_hash = ie_hash E token, iv_status = Iv_Pending,
     iv_expires_at = expires (ie_env E) hours, iv_accepted_at = None, iv_accepted_by = None, iv_revoked_at = None, iv_message = message\<rparr>"

definition insert_invitation :: "invitation \<Rightarrow> invite_db \<Rightarrow> invite_error + (invitation \<times> invite_db)" where
  "insert_invitation i db = (if list_ex (collides i) (id_rows db) then Inl Row_Refused else Inr (i, db\<lparr>id_rows := id_rows db @ [i]\<rparr>))"

definition create_invitation :: "invite_env \<Rightarrow> nat option \<Rightarrow> nat \<Rightarrow> nat option \<Rightarrow> string \<Rightarrow> staff_role \<Rightarrow> hours_value option \<Rightarrow> string
    \<Rightarrow> string \<Rightarrow> string \<Rightarrow> invite_db \<Rightarrow> invite_error + (invitation \<times> invite_db)" where
  "create_invitation E bound w actor email r hours message token uuid db = (let email = lower (strip email) in
     if email = [] then Inl Email_Missing
     else if ro_workspace r \<noteq> w then Inl Foreign_Role
     else if staff_address bound w email (id_tenants db) then Inl Staff_Already
     else bind_r (case pending_for w email db of None \<Rightarrow> Inr db
         | Some i \<Rightarrow> if is_expired (now (ie_env E)) i then Inr (snd (mark_expired i db)) else Inl Invited_Already) (\<lambda>db.
       case expiry_hours (ie_hours E) hours of None \<Rightarrow> Inl Too_Long
       | Some h \<Rightarrow> insert_invitation (new_invitation E w actor email r h message token uuid db) db))"

definition resend :: "invite_env \<Rightarrow> nat \<Rightarrow> invitation \<Rightarrow> hours_value option \<Rightarrow> string \<Rightarrow> invite_db \<Rightarrow> invite_error + (invitation \<times> invite_db)" where
  "resend E w i hours token db =
    (if iv_workspace i \<noteq> w then Inl Not_Yours
     else if iv_status i \<notin> {Iv_Pending, Iv_Expired} then Inl Wrong_Status
     else case expiry_hours (ie_hours E) hours of None \<Rightarrow> Inl Too_Long
     | Some h \<Rightarrow> let f = (\<lambda>x. x\<lparr>iv_token_hash := ie_hash E token, iv_status := Iv_Pending, iv_expires_at := expires (ie_env E) h\<rparr>) in
         if list_ex (collides (f i)) (id_rows db) then Inl Row_Refused
         else Inr (f i, write_invitation (iv_id i) f db))"

definition revoke :: "env \<Rightarrow> nat \<Rightarrow> invitation \<Rightarrow> invite_db \<Rightarrow> invite_error + (invitation \<times> invite_db)" where
  "revoke e w i db = (if iv_workspace i \<noteq> w then Inl Not_Yours
     else if iv_status i = Iv_Accepted then Inl Accepted_Already
     else Inr (mark_revoked (now e) i db))"

definition find_invitation_by_token :: "invite_env \<Rightarrow> string \<Rightarrow> string option \<Rightarrow> invite_db \<Rightarrow> invite_error + (invitation \<times> invite_db)" where
  "find_invitation_by_token E token uuid db =
    (if token = [] then Inl Token_Missing
     else case first (filter (\<lambda>i. iv_token_hash i = ie_hash E token) (id_rows db)) of None \<Rightarrow> Inl Token_Unknown
     | Some i \<Rightarrow> if uuid \<notin> {None, Some [], Some (iv_uuid i)} then Inl Token_Mismatch
         else if iv_status i = Iv_Pending \<and> is_expired (now (ie_env E)) i then Inr (mark_expired i db) else Inr (i, db))"

text \<open>\<open>accept_invitation\<close>, in one transaction: what is marked before an error is undone by it.\<close>

definition make_staff :: "nat \<Rightarrow> nat \<Rightarrow> nat \<Rightarrow> tenant_db \<Rightarrow> tenant_db" where
  "make_staff w u r db = db\<lparr>tn_staff :=
     (if list_ex (\<lambda>m. sm_workspace m = w \<and> sm_user m = u) (tn_staff db)
      then update_where (\<lambda>m. sm_workspace m = w \<and> sm_user m = u) (\<lambda>m. m\<lparr>sm_role := r, sm_active := True\<rparr>) (tn_staff db)
      else tn_staff db @ [\<lparr>sm_id = fresh_id sm_id (tn_staff db), sm_workspace = w, sm_user = u, sm_role = r, sm_active = True\<rparr>])\<rparr>"

definition accept_invitation :: "env \<Rightarrow> invitation \<Rightarrow> user_row \<Rightarrow> invite_db \<Rightarrow> invite_error + (invitation \<times> invite_db)" where
  "accept_invitation e i u db =
    (if iv_status i = Iv_Accepted then Inl Accepted_Already
     else if iv_status i = Iv_Revoked then Inl Was_Revoked
     else if iv_status i = Iv_Expired \<or> is_expired (now e) i then Inl Has_Expired
     else if \<not> same_address (us_email u) (iv_email i) then Inl Other_Address
     else if \<not> (case tenant_by_id (id_tenants db) (iv_workspace i) of Some v \<Rightarrow> ws_active v | None \<Rightarrow> False) then Inl Workspace_Inactive
     else Inr (mark_accepted (now e) (us_id u) i
       (db\<lparr>id_tenants := make_staff (iv_workspace i) (us_id u) (iv_role i) (id_tenants db)\<rparr>)))"

subsection \<open>The endpoints\<close>

text \<open>The addresses of a request: cleaned, without the empty ones, each once in the order given.\<close>

definition clean_emails :: "string list \<Rightarrow> string option \<Rightarrow> string list option" where
  "clean_emails emails single = (let es = filter (\<lambda>x. x \<noteq> []) (map (\<lambda>x. lower (strip x))
       (emails @ (case single of Some x \<Rightarrow> [x] | None \<Rightarrow> []))); ds = rev (remdups (rev es)) in
     if ds = [] \<or> 100 < length ds then None else Some ds)"

text \<open>\<open>create\<close> of the view set: an address after the other, with the token and uuid drawn for it.\<close>

fun invite_each :: "invite_env \<Rightarrow> nat \<Rightarrow> nat \<Rightarrow> staff_role \<Rightarrow> hours_value option \<Rightarrow> string \<Rightarrow> (string \<times> string \<times> string) list \<Rightarrow> invite_db
    \<Rightarrow> (invitation list \<times> (string \<times> invite_error) list) \<times> invite_db" where
  "invite_each E w actor r hours message [] db = (([], []), db)"
| "invite_each E w actor r hours message ((email, token, uuid) # es) db =
    (case create_invitation E (Some w) w (Some actor) email r hours message token uuid db of
       Inl err \<Rightarrow> (let ((is, errs), db) = invite_each E w actor r hours message es db in ((is, (email, err) # errs), db))
     | Inr (i, db) \<Rightarrow> (let ((is, errs), db) = invite_each E w actor r hours message es db in ((i # is, errs), db)))"

definition own_invitation :: "nat \<Rightarrow> string \<Rightarrow> invite_db \<Rightarrow> invitation option" where
  "own_invitation w uuid db = first (filter (\<lambda>i. iv_workspace i = w \<and> iv_uuid i = uuid) (id_rows db))"

datatype invite_call = Invite nat nat nat "hours_value option" string "(string \<times> string \<times> string) list"
  | Listing nat | Revoke nat string | Resend nat string "hours_value option" string
  | Preview string "string option" | Accept string "string option" user_row

definition invite_call_result :: "invite_env \<Rightarrow> invite_call \<Rightarrow> invite_db \<Rightarrow> invite_error option \<times> invite_db" where
  "invite_call_result E call db = (let e = ie_env E in case call of
     Invite w actor role hours message es \<Rightarrow> (case own_role w role (tn_roles (id_tenants db)) of None \<Rightarrow> (Some Role_Not_Found, db)
       | Some r \<Rightarrow> (None, snd (invite_each E w actor r hours message es db)))
   | Listing w \<Rightarrow> (None, db\<lparr>id_rows := update_where (\<lambda>i. iv_workspace i = w \<and> iv_status i = Iv_Pending \<and> is_expired (now e) i)
       (\<lambda>i. i\<lparr>iv_status := Iv_Expired\<rparr>) (id_rows db)\<rparr>)
   | Revoke w uuid \<Rightarrow> (case own_invitation w uuid db of None \<Rightarrow> (Some No_Invitation, db)
       | Some i \<Rightarrow> (case revoke e w i db of Inl err \<Rightarrow> (Some err, db) | Inr (_, db) \<Rightarrow> (None, db)))
   | Resend w uuid hours token \<Rightarrow> (case own_invitation w uuid db of None \<Rightarrow> (Some No_Invitation, db)
       | Some i \<Rightarrow> (case resend E w i hours token db of Inl err \<Rightarrow> (Some err, db) | Inr (_, db) \<Rightarrow> (None, db)))
   | Preview token uuid \<Rightarrow> (case find_invitation_by_token E token uuid db of Inl err \<Rightarrow> (Some err, db) | Inr (_, db) \<Rightarrow> (None, db))
   | Accept token uuid u \<Rightarrow> (case find_invitation_by_token E token uuid db of Inl err \<Rightarrow> (Some err, db)
       | Inr (i, db) \<Rightarrow> (case accept_invitation e i u db of Inl err \<Rightarrow> (Some err, db) | Inr (_, db) \<Rightarrow> (None, db))))"

subsection \<open>Sound rows\<close>

definition invites_ok :: "invitation list \<Rightarrow> bool" where
  "invites_ok rows \<longleftrightarrow> distinct (map iv_id rows) \<and> (\<forall>x \<in> set rows. \<forall>y \<in> set rows. \<not> collides x y)"

lemma invites_okD: "invites_ok rows \<Longrightarrow> x \<in> set rows \<Longrightarrow> y \<in> set rows \<Longrightarrow> iv_id x = iv_id y \<Longrightarrow> x = y"
  by (auto simp: invites_ok_def distinct_map inj_on_def)

lemma collides_sym: "collides x y \<longleftrightarrow> collides y x"
  by (auto simp: collides_def)

lemma write_rows: "invites_ok (id_rows db) \<Longrightarrow> i \<in> set (id_rows db) \<Longrightarrow>
    id_rows (write_invitation (iv_id i) f db) = map (\<lambda>x. if x = i then f i else x) (id_rows db)"
  by (auto simp: write_invitation_def update_where_def intro!: map_cong dest: invites_okD)

lemma write_tenants [simp]: "id_tenants (write_invitation j f db) = id_tenants db"
  by (simp add: write_invitation_def)

lemma write_ok:
  assumes "invites_ok (id_rows db)" "i \<in> set (id_rows db)" "iv_id (f i) = iv_id i" "\<forall>x \<in> set (id_rows db). \<not> collides (f i) x"
  shows "invites_ok (id_rows (write_invitation (iv_id i) f db))"
proof -
  define g where "g = (\<lambda>x. if x = i then f i else x)"
  have rows: "id_rows (write_invitation (iv_id i) f db) = map g (id_rows db)" by (simp add: write_rows [OF assms(1,2)] g_def)
  have ids: "map iv_id (map g (id_rows db)) = map iv_id (id_rows db)" using assms(3) by (simp add: g_def)
  have "\<not> collides (g x) (g y)" if "x \<in> set (id_rows db)" "y \<in> set (id_rows db)" for x y
    using that assms(1,4) collides_sym [of x "f i"] by (auto simp: g_def invites_ok_def collides_def [of "f i" "f i"])
  then show ?thesis using assms(1) unfolding rows invites_ok_def ids by auto
qed

text \<open>Leaving the pending state collides with nothing.\<close>

lemma leaves_pending:
  assumes "invites_ok rows" "i \<in> set rows" "x \<in> set rows" "iv_status j \<noteq> Iv_Pending"
    and "iv_id j = iv_id i" "iv_token_hash j = iv_token_hash i" "iv_uuid j = iv_uuid i"
  shows "\<not> collides j x"
  using assms by (auto simp: invites_ok_def collides_def)

subsection \<open>What a call may do\<close>

definition came_by :: "invitation list \<Rightarrow> staff_member \<Rightarrow> bool" where
  "came_by rows m \<longleftrightarrow> sm_active m \<and> (\<exists>i \<in> set rows. iv_status i = Iv_Accepted \<and> iv_workspace i = sm_workspace m \<and>
     iv_accepted_by i = Some (sm_user m) \<and> iv_role i = sm_role m)"

definition invite_step :: "invite_db \<Rightarrow> invite_db \<Rightarrow> bool" where
  "invite_step db db' \<longleftrightarrow> invites_ok (id_rows db') \<and> (\<forall>i \<in> set (id_rows db). iv_status i = Iv_Accepted \<longrightarrow> i \<in> set (id_rows db')) \<and>
     (\<forall>m \<in> set (tn_staff (id_tenants db')). m \<in> set (tn_staff (id_tenants db)) \<or> came_by (id_rows db') m) \<and>
     id_tenants db' = (id_tenants db)\<lparr>tn_staff := tn_staff (id_tenants db')\<rparr>"

lemma invite_step_refl: "invites_ok (id_rows db) \<Longrightarrow> invite_step db db"
  by (simp add: invite_step_def)

lemma invite_step_trans: "invite_step a b \<Longrightarrow> invite_step b c \<Longrightarrow> invite_step a c"
proof -
  assume ab: "invite_step a b" and bc: "invite_step b c"
  have "came_by (id_rows c) m" if "came_by (id_rows b) m" for m using that bc by (auto simp: came_by_def invite_step_def)
  moreover have "id_tenants c = (id_tenants a)\<lparr>tn_staff := tn_staff (id_tenants c)\<rparr>"
    using ab bc unfolding invite_step_def by (metis tenant_db.update_convs(5) tenant_db.surjective tenant_db.select_convs(5))
  ultimately show ?thesis using ab bc unfolding invite_step_def by blast
qed

lemma write_step:
  assumes "invites_ok (id_rows db)" "i \<in> set (id_rows db)" "iv_status i \<noteq> Iv_Accepted" "iv_id (f i) = iv_id i"
    and "\<forall>x \<in> set (id_rows db). \<not> collides (f i) x"
  shows "invite_step db (write_invitation (iv_id i) f db)"
  using write_ok [where f = f, OF assms(1,2,4,5)] assms(3) by (auto simp: invite_step_def write_rows [OF assms(1,2)] intro!: image_eqI)

lemma expire_step:
  assumes "invites_ok (id_rows db)" "i \<in> set (id_rows db)"
  shows "invite_step db (snd (mark_expired i db))"
proof (cases "iv_status i = Iv_Pending")
  case True
  have "invite_step db (write_invitation (iv_id i) (\<lambda>x. x\<lparr>iv_status := Iv_Expired\<rparr>) db)"
    by (rule write_step [OF assms]) (use leaves_pending [OF assms] True in auto)
  with True show ?thesis by (simp add: mark_expired_def)
qed (simp add: mark_expired_def invite_step_refl assms)

lemma insert_step:
  assumes "invites_ok (id_rows db)" "insert_invitation j db = Inr (i, db')" "iv_id j = fresh_id iv_id (id_rows db)"
  shows "invite_step db db'"
proof -
  have db': "db' = db\<lparr>id_rows := id_rows db @ [j]\<rparr>" "\<forall>x \<in> set (id_rows db). \<not> collides j x"
    using assms(2) by (auto simp: insert_invitation_def list_ex_iff split: if_splits)
  have "invites_ok (id_rows db @ [j])" using assms(1,3) db'(2) fresh_id_notin [of iv_id "id_rows db"] collides_sym
    by (auto simp: invites_ok_def collides_def [of j j])
  then show ?thesis by (simp add: invite_step_def db')
qed

lemma create_step:
  assumes "invites_ok (id_rows db)" "create_invitation E bound w actor email r hours message token uuid db = Inr (i, db')"
  shows "invite_step db db'"
proof -
  let ?m = "lower (strip email)"
  obtain db1 h where s: "invite_step db db1" and
      ins: "insert_invitation (new_invitation E w actor ?m r h message token uuid db1) db1 = Inr (i, db')"
  proof (cases "pending_for w ?m db")
    case None
    then show thesis using assms that [OF invite_step_refl [OF assms(1)]]
      by (auto simp: create_invitation_def Let_def split: if_splits option.splits)
  next
    case (Some x)
    then have x: "x \<in> set (id_rows db)" by (auto simp: pending_for_def dest: first_filter_SomeD)
    show thesis using assms Some that [OF expire_step [OF assms(1) x]]
      by (auto simp: create_invitation_def Let_def split: if_splits option.splits)
  qed
  have "invite_step db1 db'" using s ins by (intro insert_step [OF _ ins]) (simp_all add: invite_step_def new_invitation_def)
  with s show ?thesis by (rule invite_step_trans)
qed

lemma invite_each_step: "invite_each E w actor r hours message es db = (x, db') \<Longrightarrow> invites_ok (id_rows db) \<Longrightarrow> invite_step db db'"
proof (induction es arbitrary: db x)
  case Nil
  then show ?case by (simp add: invite_step_refl)
next
  case (Cons e es)
  obtain email token uuid where e: "e = (email, token, uuid)" by (metis surj_pair)
  show ?case
  proof (cases "create_invitation E (Some w) w (Some actor) email r hours message token uuid db")
    case (Inl err)
    then show ?thesis using Cons e by (auto split: prod.splits)
  next
    case (Inr a)
    obtain i db1 where a: "a = (i, db1)" by fastforce
    have s: "invite_step db db1" using create_step [OF Cons.prems(2)] Inr a by blast
    then have "invite_step db1 db'" using Cons e Inr a by (auto simp: invite_step_def [of db db1] split: prod.splits)
    with s show ?thesis by (rule invite_step_trans)
  qed
qed

lemma own_invitation_in: "own_invitation w uuid db = Some i \<Longrightarrow> i \<in> set (id_rows db) \<and> iv_workspace i = w"
  by (auto simp: own_invitation_def dest: first_filter_SomeD)

lemma resend_step:
  assumes "invites_ok (id_rows db)" "i \<in> set (id_rows db)" "resend E w i hours token db = Inr (j, db')"
  shows "invite_step db db'"
  using assms by (auto simp: resend_def Let_def list_ex_iff intro!: write_step split: if_splits option.splits)

lemma revoke_step:
  assumes "invites_ok (id_rows db)" "i \<in> set (id_rows db)" "revoke e w i db = Inr (j, db')"
  shows "invite_step db db'"
proof -
  have na: "iv_status i \<noteq> Iv_Accepted" and db': "db' = write_invitation (iv_id i) (\<lambda>x. x\<lparr>iv_status := Iv_Revoked, iv_revoked_at := Some (now e)\<rparr>) db"
    using assms(3) by (auto simp: revoke_def mark_revoked_def split: if_splits)
  show ?thesis unfolding db'
    by (rule write_step [OF assms(1,2) na]) (use leaves_pending [OF assms(1,2)] in auto)
qed

lemma find_step:
  assumes "invites_ok (id_rows db)" "find_invitation_by_token E token uuid db = Inr (i, db')"
  shows "invite_step db db' \<and> i \<in> set (id_rows db')"
proof -
  obtain x where x: "x \<in> set (id_rows db)" "(i, db') = mark_expired x db \<or> i = x \<and> db' = db"
    using assms(2) by (auto simp: find_invitation_by_token_def dest: first_filter_SomeD split: option.splits if_splits)
  have "i \<in> set (id_rows db')" if "(i, db') = mark_expired x db"
    using that x(1) by (auto simp: mark_expired_def write_rows [OF assms(1) x(1)] split: if_splits)
  then show ?thesis using x expire_step [OF assms(1) x(1)] invite_step_refl [OF assms(1)] by (metis snd_conv)
qed

lemma make_staff_members:
  "m \<in> set (tn_staff (make_staff w u r t)) \<Longrightarrow> m \<in> set (tn_staff t) \<or> sm_workspace m = w \<and> sm_user m = u \<and> sm_role m = r \<and> sm_active m"
  by (auto simp: make_staff_def set_update_where split: if_splits)

lemma make_staff_new: "\<exists>m \<in> set (tn_staff (make_staff w u r t)). sm_workspace m = w \<and> sm_user m = u \<and> sm_role m = r \<and> sm_active m"
proof (cases "list_ex (\<lambda>m. sm_workspace m = w \<and> sm_user m = u) (tn_staff t)")
  case True
  then obtain m where "m \<in> set (tn_staff t)" "sm_workspace m = w" "sm_user m = u" by (auto simp: list_ex_iff)
  with True show ?thesis by (intro bexI [of _ "m\<lparr>sm_role := r, sm_active := True\<rparr>"]) (auto simp: make_staff_def set_update_where intro!: image_eqI [of _ _ m])
qed (simp add: make_staff_def)

lemma make_staff_others: "(sm_workspace m, sm_user m) \<noteq> (w, u) \<Longrightarrow> m \<in> set (tn_staff (make_staff w u r t)) \<longleftrightarrow> m \<in> set (tn_staff t)"
  by (auto simp: make_staff_def set_update_where image_iff intro!: bexI [of _ m])

definition accepted_row :: "moment \<Rightarrow> nat \<Rightarrow> invitation \<Rightarrow> invitation" where
  "accepted_row t u i = i\<lparr>iv_status := Iv_Accepted, iv_accepted_at := Some t, iv_accepted_by := Some u\<rparr>"

lemma accept_Inr:
  assumes "accept_invitation e i u db = Inr (j, db')" "invites_ok (id_rows db)" "i \<in> set (id_rows db)"
  shows "iv_status i = Iv_Pending" "\<not> is_expired (now e) i" "same_address (us_email u) (iv_email i)"
    "\<exists>v. tenant_by_id (id_tenants db) (iv_workspace i) = Some v \<and> ws_active v"
    "id_tenants db' = make_staff (iv_workspace i) (us_id u) (iv_role i) (id_tenants db)"
    "id_rows db' = map (\<lambda>x. if x = i then accepted_row (now e) (us_id u) i else x) (id_rows db)"
    "invites_ok (id_rows db')" "j = accepted_row (now e) (us_id u) i"
proof -
  let ?db = "db\<lparr>id_tenants := make_staff (iv_workspace i) (us_id u) (iv_role i) (id_tenants db)\<rparr>"
  have st: "iv_status i \<notin> {Iv_Accepted, Iv_Revoked, Iv_Expired}" "\<not> is_expired (now e) i" "same_address (us_email u) (iv_email i)"
      "\<exists>v. tenant_by_id (id_tenants db) (iv_workspace i) = Some v \<and> ws_active v"
      "j = accepted_row (now e) (us_id u) i" "db' = write_invitation (iv_id i) (accepted_row (now e) (us_id u)) ?db"
    using assms(1) by (auto simp: accept_invitation_def mark_accepted_def accepted_row_def [abs_def] split: if_splits option.splits)
  then show "\<not> is_expired (now e) i" "same_address (us_email u) (iv_email i)" "j = accepted_row (now e) (us_id u) i"
    "\<exists>v. tenant_by_id (id_tenants db) (iv_workspace i) = Some v \<and> ws_active v" by simp_all
  show "iv_status i = Iv_Pending" using st(1) by (cases "iv_status i") auto
  show "id_tenants db' = make_staff (iv_workspace i) (us_id u) (iv_role i) (id_tenants db)" by (simp add: st(6))
  have rows: "invites_ok (id_rows ?db)" "i \<in> set (id_rows ?db)" using assms(2,3) by simp_all
  show "id_rows db' = map (\<lambda>x. if x = i then accepted_row (now e) (us_id u) i else x) (id_rows db)"
    using write_rows [OF rows] by (simp add: st(6))
  show "invites_ok (id_rows db')" unfolding st(6)
    by (rule write_ok [OF rows]) (use leaves_pending [OF rows] in \<open>auto simp: accepted_row_def\<close>)
qed

lemma accept_step:
  assumes "invites_ok (id_rows db)" "i \<in> set (id_rows db)" "accept_invitation e i u db = Inr (j, db')"
  shows "invite_step db db'"
proof -
  note a = accept_Inr [OF assms(3,1,2)]
  have new: "accepted_row (now e) (us_id u) i \<in> set (id_rows db')" using assms(2) by (auto simp: a(6))
  have kept: "x \<in> set (id_rows db')" if "x \<in> set (id_rows db)" "iv_status x = Iv_Accepted" for x
    using that a(1) by (auto simp: a(6) intro!: image_eqI)
  have "m \<in> set (tn_staff (id_tenants db)) \<or> came_by (id_rows db') m" if m: "m \<in> set (tn_staff (id_tenants db'))" for m
  proof (cases "m \<in> set (tn_staff (id_tenants db))")
    case False
    then show ?thesis using make_staff_members [OF m [unfolded a(5)]] unfolding came_by_def
      by (intro disjI2 conjI bexI [OF _ new]) (simp_all add: accepted_row_def)
  qed simp
  then show ?thesis using a(7) kept by (simp add: invite_step_def) (simp add: a(5) make_staff_def)
qed

lemma listing_step:
  assumes "invites_ok (id_rows db)"
  shows "invite_step db (db\<lparr>id_rows := update_where (\<lambda>i. iv_workspace i = w \<and> iv_status i = Iv_Pending \<and> is_expired t i)
       (\<lambda>i. i\<lparr>iv_status := Iv_Expired\<rparr>) (id_rows db)\<rparr>)"
proof -
  define g where "g = (\<lambda>i. if iv_workspace i = w \<and> iv_status i = Iv_Pending \<and> is_expired t i then i\<lparr>iv_status := Iv_Expired\<rparr> else i)"
  have u: "update_where (\<lambda>i. iv_workspace i = w \<and> iv_status i = Iv_Pending \<and> is_expired t i) (\<lambda>i. i\<lparr>iv_status := Iv_Expired\<rparr>) (id_rows db) = map g (id_rows db)"
    by (simp add: update_where_def g_def)
  have g: "iv_id (g x) = iv_id x" "iv_token_hash (g x) = iv_token_hash x" "iv_uuid (g x) = iv_uuid x" "iv_workspace (g x) = iv_workspace x"
    "iv_email (g x) = iv_email x" "iv_status (g x) = Iv_Pending \<Longrightarrow> iv_status x = Iv_Pending" "iv_status x = Iv_Accepted \<Longrightarrow> g x = x" for x
    by (simp_all add: g_def split: if_splits)
  have ids: "map iv_id (map g (id_rows db)) = map iv_id (id_rows db)" by (simp add: g(1))
  have "\<not> collides (g x) (g y)" if xy: "x \<in> set (id_rows db)" "y \<in> set (id_rows db)" for x y
  proof
    assume "collides (g x) (g y)"
    then have "collides x y" using g(6) [of x] g(6) [of y] by (simp add: collides_def g(1-5)) metis
    then show False using xy assms by (simp add: invites_ok_def)
  qed
  then have "invites_ok (map g (id_rows db))" using assms unfolding invites_ok_def ids by auto
  then show ?thesis using g(7) by (auto simp: invite_step_def u intro!: image_eqI)
qed

lemma invite_call_step: "invites_ok (id_rows db) \<Longrightarrow> invite_step db (snd (invite_call_result E call db))"
proof (cases call)
  case (Invite w actor role hours message es)
  assume ok: "invites_ok (id_rows db)"
  show ?thesis
  proof (cases "own_role w role (tn_roles (id_tenants db))")
    case (Some r)
    obtain x db' where e: "invite_each E w actor r hours message es db = (x, db')" by fastforce
    from invite_each_step [OF this ok] show ?thesis using Some by (simp add: invite_call_result_def Let_def Invite e)
  qed (simp add: invite_call_result_def Let_def Invite invite_step_refl ok)
next
  case (Accept token uuid u)
  assume ok: "invites_ok (id_rows db)"
  show ?thesis
  proof (cases "find_invitation_by_token E token uuid db")
    case (Inr a)
    obtain i db1 where a: "a = (i, db1)" by fastforce
    note f = find_step [OF ok Inr [unfolded a]]
    then have ok1: "invites_ok (id_rows db1)" by (simp add: invite_step_def)
    have "invite_step db1 db'" if "accept_invitation (ie_env E) i u db1 = Inr (j, db')" for j db' using accept_step [OF ok1 _ that] f by blast
    then show ?thesis using f Inr a by (auto simp: invite_call_result_def Let_def Accept split: sum.split intro: invite_step_trans)
  qed (simp add: invite_call_result_def Let_def Accept invite_step_refl ok)
qed (auto simp: invite_call_result_def Let_def listing_step invite_step_refl dest!: own_invitation_in
    dest: revoke_step resend_step find_step split: option.split sum.split)

subsection \<open>Properties\<close>

text \<open>
  Accepting makes the person one of the staff: the token is that of a pending invitation to the person's
  address that has not run out, into an active workspace; afterwards the person has the invited role
  there and is active, nobody else's place has changed, the invitation is accepted by the person and no
  other is touched; and the token opens nothing any more.
\<close>

theorem invitation_makes_staff:
  assumes "invites_ok (id_rows db)" "invite_call_result E (Accept token uuid u) db = (None, db')"
  shows "\<exists>i \<in> set (id_rows db). iv_token_hash i = ie_hash E token \<and> iv_status i = Iv_Pending \<and> now (ie_env E) < iv_expires_at i \<and>
    same_address (us_email u) (iv_email i) \<and> (\<exists>v. tenant_by_id (id_tenants db) (iv_workspace i) = Some v \<and> ws_active v) \<and>
    (\<exists>m \<in> set (tn_staff (id_tenants db')). sm_workspace m = iv_workspace i \<and> sm_user m = us_id u \<and> sm_role m = iv_role i \<and> sm_active m) \<and>
    (\<forall>m. (sm_workspace m, sm_user m) \<noteq> (iv_workspace i, us_id u) \<longrightarrow>
       (m \<in> set (tn_staff (id_tenants db')) \<longleftrightarrow> m \<in> set (tn_staff (id_tenants db)))) \<and>
    id_rows db' = map (\<lambda>x. if x = i then accepted_row (now (ie_env E)) (us_id u) i else x) (id_rows db) \<and>
    invite_call_result E (Accept token None v) db' = (Some Accepted_Already, db')"
proof -
  let ?e = "ie_env E"
  obtain i0 db1 where f: "find_invitation_by_token E token uuid db = Inr (i0, db1)"
    using assms(2) by (auto simp: invite_call_result_def Let_def split: sum.splits)
  obtain j where acc: "accept_invitation ?e i0 u db1 = Inr (j, db')"
    using assms(2) f by (auto simp: invite_call_result_def Let_def split: sum.splits)
  have "iv_status i0 \<noteq> Iv_Expired" "\<not> is_expired (now ?e) i0" using acc by (auto simp: accept_invitation_def split: if_splits)
  then have same: "db1 = db" and i0: "first (filter (\<lambda>i. iv_token_hash i = ie_hash E token) (id_rows db)) = Some i0" and t: "token \<noteq> []"
    using f by (auto simp: find_invitation_by_token_def mark_expired_def split: option.splits if_splits)
  note mem = first_filter_SomeD [OF i0]
  note a = accept_Inr [OF acc [unfolded same] assms(1)]
  then have i: "i0 \<in> set (id_rows db)" "iv_token_hash i0 = ie_hash E token" using mem by simp_all
  note a = a [OF i(1)]
  have "first (filter (\<lambda>x. iv_token_hash x = ie_hash E token) (id_rows db')) = Some (accepted_row (now ?e) (us_id u) i0)"
    unfolding a(6) using i0 i(2) by (subst first_filter_map) (simp_all add: accepted_row_def)
  then have again: "invite_call_result E (Accept token None v) db' = (Some Accepted_Already, db')"
    using t by (simp add: invite_call_result_def Let_def find_invitation_by_token_def accept_invitation_def accepted_row_def)
  show ?thesis using a i again make_staff_new make_staff_others unfolding a(5)
    by (intro bexI [OF _ i(1)]) (auto simp: is_expired_def)
qed

text \<open>
  Whatever the endpoints are asked, by whom and when: at most one invitation of a workspace is pending for
  an address and no token serves two; an accepted invitation stays as it is; and everybody who is on the
  staff and was not, or has another role than before, has it from an invitation of that workspace with
  that role, accepted by that person. Nothing else of the workspaces changes.
\<close>

theorem staff_come_by_invitation:
  assumes "invites_ok (id_rows db)"
  shows "let db' = fold (\<lambda>(E, call) db. snd (invite_call_result E call db)) calls db in
    invites_ok (id_rows db') \<and> (\<forall>i \<in> set (id_rows db). iv_status i = Iv_Accepted \<longrightarrow> i \<in> set (id_rows db')) \<and>
    (\<forall>m \<in> set (tn_staff (id_tenants db')). m \<in> set (tn_staff (id_tenants db)) \<or> came_by (id_rows db') m) \<and>
    id_tenants db' = (id_tenants db)\<lparr>tn_staff := tn_staff (id_tenants db')\<rparr>"
proof -
  have "invite_step db (fold (\<lambda>(E, call) db. snd (invite_call_result E call db)) calls db)"
    using assms
  proof (induction calls arbitrary: db)
    case (Cons c calls)
    obtain E call where c: "c = (E, call)" by fastforce
    have s: "invite_step db (snd (invite_call_result E call db))" by (rule invite_call_step [OF Cons.prems])
    then have "invites_ok (id_rows (snd (invite_call_result E call db)))" by (simp add: invite_step_def)
    from invite_step_trans [OF s Cons.IH [OF this]] show ?case by (simp add: c)
  qed (simp add: invite_step_refl)
  then show ?thesis by (simp add: Let_def invite_step_def)
qed

subsection \<open>What is not prevented\<close>

text \<open>
  Accepting looks at the invitation as it was read: one that is revoked before the transaction of
  \<open>accept_invitation\<close> begins is accepted all the same.
\<close>

lemma revoked_invitation_is_accepted:
  assumes "accept_invitation e i u db = Inr (j, db')" "revoke e (iv_workspace i) i db = Inr (k, db1)"
  shows "\<exists>db2. accept_invitation e i u db1 = Inr (j, db2)"
  using assms by (auto simp: accept_invitation_def revoke_def mark_revoked_def mark_accepted_def split: if_splits)

text \<open>An expired invitation cannot be sent again while a newer one to the same address is pending: the table refuses the row.\<close>

lemma resend_refused_by_the_table:
  assumes "x \<in> set (id_rows db)" "iv_id x \<noteq> iv_id i" "iv_workspace x = iv_workspace i" "iv_email x = iv_email i"
    and "iv_status x = Iv_Pending" "iv_status i = Iv_Expired"
  shows "resend E (iv_workspace i) i None token db = Inl Row_Refused"
  using assms by (auto simp: resend_def expiry_hours_def Let_def list_ex_iff collides_def split: option.splits)

end
