(* ===== verification/Witnesses_Tenancy.thy ===== *)
theory Witnesses_Tenancy
  imports Samples Invitations
begin

text \<open>
  Each property of hostnames, requests, API keys, staff rights, roles and invitations with hypotheses, applied to the
  sample deployment with one hostname, a member of the staff, two roles and an API key.
\<close>

subsection \<open>The sample\<close>

definition ann :: user_row where
  "ann = \<lparr>us_id = 7, us_email = ''ann@acme.nz'', us_active = True, us_superuser = False\<rparr>"

definition clerk :: staff_role where
  "clerk = \<lparr>ro_id = 1, ro_workspace = 2, ro_code = ''clerk'', ro_name = ''Clerk'', ro_description = [],
     ro_permissions = [(''finance.payment'', Actions [''read'', ''create''])], ro_defaults = [], ro_owner_module = [],
     ro_system = True, ro_active = True\<rparr>"

definition acme_host :: domain_row where
  "acme_host = \<lparr>dn_id = 1, dn_workspace = 2, dn_hostname = ''acme.bfg.shop'', dn_kind = System_Default,
     dn_verification = Verified, dn_ssl = Ssl_None, dn_primary = False\<rparr>"

definition acme_key :: api_key where
  "acme_key = \<lparr>ak_id = 1, ak_workspace = 2, ak_prefix = ''pk1'', ak_secret_hash = ''digest'', ak_active = True,
     ak_created_by = Some 7, ak_expires_at = None, ak_last_used = None\<rparr>"

definition base_month :: entitlement where
  "base_month = blog_month\<lparr>en_id := 2, en_key := KEY_BASE_PLAN, current_period_end := None\<rparr>"

definition tenants0 :: tenant_db where
  "tenants0 = \<lparr>tn_base = db0\<lparr>entitlements := [blog_month, base_month]\<rparr>, tn_domains = [acme_host], tn_users = [ann],
     tn_roles = [clerk], tn_staff = [\<lparr>sm_id = 1, sm_workspace = 2, sm_user = 7, sm_role = 1, sm_active = True\<rparr>],
     tn_shoppers = [], tn_keys = [acme_key], tn_cache = (\<lambda>_. None)\<rparr>"

definition tenancy0 :: tenant_env where
  "tenancy0 = \<lparr>te_env = env0, te_extra_public = Paths [], te_is_prod = True, te_bypass = True,
     te_decode = (\<lambda>raw. if raw = ''token'' then Some \<lparr>tk_workspace = Some (Claim_Int 2), tk_user = Some (Claim_Int 7)\<rparr> else None)\<rparr>"

definition order_post :: request where
  "order_post = \<lparr>rq_path = ''/api/v1/orders/'', rq_method = ''POST'', rq_authorization = ''Bearer token'',
     rq_workspace_header = [], rq_session = None, rq_forwarded_host = [], rq_host = Some ''acme.bfg.shop'',
     rq_api_key = None, rq_api_secret = None, rq_user = Some ann\<rparr>"

lemma tenants0_simps [simp]:
  "tn_base tenants0 = db0\<lparr>entitlements := [blog_month, base_month]\<rparr>" "tn_domains tenants0 = [acme_host]" "tn_users tenants0 = [ann]"
  "tn_roles tenants0 = [clerk]" "tn_staff tenants0 = [\<lparr>sm_id = 1, sm_workspace = 2, sm_user = 7, sm_role = 1, sm_active = True\<rparr>]"
  "tn_shoppers tenants0 = []" "tn_keys tenants0 = [acme_key]" "tn_cache tenants0 = (\<lambda>_. None)"
  by (simp_all add: tenants0_def)

lemma tenancy0_simps [simp]: "te_env tenancy0 = env0" "te_bypass tenancy0" "te_is_prod tenancy0"
  by (simp_all add: tenancy0_def)

lemma request_simps [simp]: "rq_method order_post = ''POST''" "rq_api_key order_post = None" "rq_user order_post = Some ann"
  "us_id ann = 7" "\<not> us_superuser ann"
  by (simp_all add: order_post_def ann_def)

lemma acme_tenant [simp]: "tenant_by_id tenants0 2 = Some acme"
  by (simp add: tenant_by_id_def workspace_by_id_def)

lemma order_token [simp]: "decode_workspace tenancy0 order_post = (Some 2, True)"
  by (simp add: decode_workspace_def bearer_def order_post_def startswith_def tenancy0_def claim_int_def)

lemma order_path [simp]: "\<not> is_public tenancy0 (rq_path order_post)"
  by (simp add: is_public_def public_path_prefixes_def PUBLIC_PATHS_def order_post_def tenancy0_def startswith_def)

lemma order_superuser [simp]: "\<not> superuser_can_override tenancy0 order_post tenants0"
  by (simp add: superuser_can_override_def bearer_def order_post_def startswith_def tenancy0_def claim_int_def)

lemma order_resolved: "resolve_workspace tenancy0 order_post tenants0 = (Inr (Some acme), keep env0 (id_key 2) (Kept_Workspace acme) tenants0)"
proof -
  have "get_workspace_by_id env0 (Claim_Int 2) tenants0 = (Some acme, keep env0 (id_key 2) (Kept_Workspace acme) tenants0)"
    by (simp add: get_workspace_by_id_def claim_int_def kept_get_def active_row_def)
  then show ?thesis by (simp add: resolve_workspace_def Let_def)
qed

lemma ann_hydrated: "\<exists>db'. hydrate_access tenancy0 (Some ann) acme (keep env0 (id_key 2) (Kept_Workspace acme) tenants0) = ((True, False), db')
    \<and> same_tables tenants0 db'"
  by (simp add: hydrate_access_def Let_def kept_get_keep) (simp add: kept_get_def is_staff_def is_shopper_def same_tables_def)

lemma order_dispatched: "\<exists>db'. dispatch tenancy0 order_post tenants0 = (To_View acme True False, db') \<and> same_tables tenants0 db'"
  using ann_hydrated order_resolved by (auto simp: dispatch_def)

lemma tenants0_cache: "cache_sound tenants0"
  by (simp add: cache_sound_def sound_defs kept_get_def)

text \<open>The same customer on the shop's own hostname, with no token, session or header.\<close>

definition shop_get :: request where
  "shop_get = order_post\<lparr>rq_authorization := [], rq_host := Some ''Acme.bfg.shop:8000''\<rparr>"

lemma shop_simps [simp]: "decode_workspace tenancy0 shop_get = (None, False)" "rq_session shop_get = None" "rq_workspace_header shop_get = []"
  "\<not> is_public tenancy0 (rq_path shop_get)" "rq_user shop_get = Some ann"
  using order_path by (simp_all add: shop_get_def order_post_def decode_workspace_def bearer_def startswith_def)

lemma shop_host: "host_of shop_get = Inr ''Acme.bfg.shop''" "normalize_hostname ''Acme.bfg.shop'' = Some ''acme.bfg.shop''"
  "normalize_hostname ''acme.bfg.shop'' = Some ''acme.bfg.shop''"
  by code_simp+

lemma shop_dispatched: "\<exists>s c db'. dispatch tenancy0 shop_get tenants0 = (To_View acme s c, db')"
proof -
  have "workspace_of_hostname tenants0 ''acme.bfg.shop'' = Some acme" by (simp add: workspace_of_hostname_def acme_host_def)
  then have "get_workspace_by_domain env0 ''Acme.bfg.shop'' tenants0
      = (Inr (Some acme), keep env0 (domain_key_of ''acme.bfg.shop'') (Kept_Workspace acme) tenants0)"
    by (simp add: get_workspace_by_domain_def shop_host domain_key_def kept_get_def)
  then have "resolve_workspace tenancy0 shop_get tenants0
      = (Inr (Some acme), keep env0 (domain_key_of ''acme.bfg.shop'') (Kept_Workspace acme) tenants0)"
    by (simp add: resolve_workspace_def shop_host Let_def)
  then show ?thesis
    by (simp add: dispatch_def hydrate_access_def Let_def kept_get_keep) (simp add: kept_get_def is_staff_def Let_def, rule exI [of _ True], simp)
qed


subsection \<open>Keys and lapsed plans\<close>

definition key_post :: request where
  "key_post = order_post\<lparr>rq_authorization := [], rq_api_key := Some ''pk1'', rq_api_secret := Some ''secret'', rq_user := None\<rparr>"

definition plain_view :: view where
  "plain_view = \<lparr>vw_action = (\<lambda>_. None), vw_method_mark = (\<lambda>_. None), vw_handler_mark = None, vw_own_mark = None,
     vw_class_mark = None, vw_has_class = True\<rparr>"

lemma key_opens_its_workspace_witness:
  "\<exists>user s c db'. authenticate_key tenancy0 (\<lambda>_. ''digest'') key_post tenants0 = (Inr (Some (acme_key, acme, user, s, c)), db')
     \<and> same_tables (record_usage noon acme_key tenants0) db'"
proof -
  have "key_usable noon acme_key" by (simp add: key_usable_def key_expired_def acme_key_def)
  then have "\<exists>user s c db'. authenticate_key tenancy0 (\<lambda>_. ''digest'') key_post tenants0 = (Inr (Some (acme_key, acme, user, s, c)), db')"
    by (simp add: authenticate_key_def key_post_def key_of_prefix_def verify_secret_def acme_key_def Let_def split: prod.split)
  then obtain user s c db' where k: "authenticate_key tenancy0 (\<lambda>_. ''digest'') key_post tenants0 = (Inr (Some (acme_key, acme, user, s, c)), db')" by blast
  from key_opens_its_workspace [OF k] k show ?thesis by auto
qed

lemma base_entitled: "is_entitled env0 (db0\<lparr>entitlements := [blog_month, base_month]\<rparr>) (Some 2) KEY_BASE_PLAN"
  by (simp add: is_entitled_def entitled_at_def live_def base_month_def blog_month_def KEY_BASE_PLAN_def midnight_def)

lemma lapsed_workspace_is_not_written_witness:
  "\<exists>db'. serve tenancy0 (\<lambda>_. ''digest'') order_post plain_view tenants0 = (Acts_For (Some 2), db')
     \<and> is_entitled env0 (tn_base tenants0) (Some 2) KEY_BASE_PLAN"
proof -
  obtain db1 where d: "dispatch tenancy0 order_post tenants0 = (To_View acme True False, db1)" "same_tables tenants0 db1" using order_dispatched by blast
  have b: "tn_base db1 = db0\<lparr>entitlements := [blog_month, base_month]\<rparr>" using d(2) by (simp add: same_tables_def)
  have ne: "\<not> is_exempt plain_view order_post" by (simp add: is_exempt_def candidates_def plain_view_def)
  have "\<not> fst (is_read_only (base_plan_entitled env0) env0 (tn_base db1) (Some 2))"
    using base_entitled by (simp add: is_read_only_def ask_read_only_def base_plan_entitled_def cache_get_def b)
  then obtain base where "is_read_only (base_plan_entitled env0) env0 (tn_base db1) (Some 2) = (False, base)"
    by (metis (full_types) prod.collapse)
  then obtain db2 where f: "refuse_write tenancy0 order_post plain_view (Some 2) db1 = (False, db2)"
    using ne by (simp add: refuse_write_def SAFE_METHODS_def written_workspace_def Let_def)
  have sv: "serve tenancy0 (\<lambda>_. ''digest'') order_post plain_view tenants0 = (Acts_For (Some 2), db2)"
    using f by (simp add: serve_def d(1) bound_to_def authenticate_key_def)
  have "is_entitled (te_env tenancy0) (tn_base tenants0) (Some 2) KEY_BASE_PLAN"
    using lapsed_workspace_is_not_written [OF sv] ne by (simp add: SAFE_METHODS_def d(1) bound_to_def cache_get_def)
  then show ?thesis unfolding tenancy0_simps using sv by blast
qed

subsection \<open>Hostnames\<close>

lemma acme_host_ok: "domains_ok (tn_domains tenants0)"
  by (simp add: domains_ok_def clashes_def conflict_def clean_problem_def acme_host_def)

definition hosts0 :: domain_env where
  "hosts0 = \<lparr>de_env = env0, de_frontend = (\<lambda>_ _. Some ''https://bfg.shop''), de_debug = False, de_local_http = False\<rparr>"

lemma hostnames_stay_sound_witness:
  "domains_ok (tn_domains (fold (after_domain_call hosts0)
     [Upsert 2 ''Shop.Acme.nz'' True None None, Save_Workspace acme, Delete_Rows [acme_host]] tenants0))"
  using acme_host_ok by (rule hostnames_stay_sound)

lemma acme_normal: "normalize_hostname ''Shop.Acme.nz'' = Some ''shop.acme.nz''"
  by code_simp

lemma acme_normals: "normalize_hostname ''shop.acme.nz'' = Some ''shop.acme.nz''" "normalize_hostname ''acme.bfg.shop'' = Some ''acme.bfg.shop''"
  by code_simp+

lemma primary_is_the_address_witness:
  "\<exists>r db' x. upsert_custom 2 ''Shop.Acme.nz'' True None None tenants0 = Inr (r, db') \<and>
     x \<in> set (tn_domains db') \<and> dn_workspace x = 2 \<and> dn_hostname x = ''shop.acme.nz'' \<and>
     (\<forall>y \<in> set (tn_domains db'). dn_workspace y = 2 \<longrightarrow> (dn_primary y \<longleftrightarrow> y = x)) \<and> dn_verification x = Verified \<and>
     map_sum id fst (resolve_base_url hosts0 (Some acme) [] db') = Inr (''https://'' @ dn_hostname x)"
  using primary_is_the_address [OF acme_host_ok acme_normal, where v = acme and verified = None and ssl = None and D = hosts0] acme_normals
  by (cases "upsert_custom 2 ''Shop.Acme.nz'' True None None tenants0") (auto simp: acme_host_def split: if_splits)

subsection \<open>Staff and roles\<close>

lemma finance_rights_as_declared_witness:
  "can_manage_payments tenancy0 (Some ann) (Some 2) (Some ''create'') tenants0 \<and>
   has_permission (Some 2) (Some ann) (Some 2) ''finance.payment.create'' tenants0"
proof -
  have "\<not> bypasses tenancy0 (Some ann)" by (simp add: bypasses_def)
  moreover have "can_manage_payments tenancy0 (Some ann) (Some 2) (Some ''create'') tenants0"
    by (simp add: can_manage_payments_def may_manage_def bypasses_def required_for_def PAYMENT_ACTIONS_def role_of_staff_def staff_row_def
        role_by_id_def clerk_def rpartition_def permissions_allow_def permission_action_allowed_def)
  ultimately show ?thesis using finance_rights_as_declared [of tenancy0 "Some ann" "Some 2" "Some ''create''" tenants0]
    by (simp add: required_for_def PAYMENT_ACTIONS_def)
qed

definition with_foreign_admin :: tenant_db where
  "with_foreign_admin = tenants0\<lparr>tn_staff := tn_staff tenants0 @ [\<lparr>sm_id = 2, sm_workspace = 1, sm_user = 7, sm_role = 2, sm_active = True\<rparr>],
     tn_roles := tn_roles tenants0 @ [clerk\<lparr>ro_id := 2, ro_workspace := 1, ro_code := ''admin''\<rparr>]\<rparr>"

lemma rights_do_not_cross_witness:
  "rights_in tenancy0 2 (Some ann) ''POST'' ''shop.product.create'' None None with_foreign_admin
   = rights_in tenancy0 2 (Some ann) ''POST'' ''shop.product.create'' None None tenants0"
  by (rule rights_do_not_cross) (simp_all add: staff_of_def grants_def role_by_id_def with_foreign_admin_def clerk_def)

definition seller :: role_definition where
  "seller = \<lparr>rd_code = ''seller'', rd_name = ''Seller'', rd_description = [], rd_defaults = [(''shop.order'', Actions [''read''])],
     rd_owner = ''shop'', rd_order = 20\<rparr>"

definition clerk_role :: role_definition where
  "clerk_role = \<lparr>rd_code = ''clerk'', rd_name = ''Clerk'', rd_description = [], rd_defaults = [(''finance.payment'', Actions [''read''])],
     rd_owner = ''finance'', rd_order = 10\<rparr>"

lemma clerk_ok: "roles_ok (tn_roles tenants0)" "\<forall>m \<in> set (tn_staff tenants0). sm_role m \<in> ro_id ` set (tn_roles tenants0)"
  by (simp_all add: roles_ok_def clerk_def)

lemma provisioning_changes_no_rights_witness:
  "\<exists>res db'. provision_system_roles 2 [clerk_role, seller] tenants0 = (res, db') \<and> pr_created res = [''seller''] \<and> pr_updated res = [''clerk''] \<and>
     rights_in tenancy0 2 (Some ann) ''POST'' ''finance.payment.create'' None None db'
       = rights_in tenancy0 2 (Some ann) ''POST'' ''finance.payment.create'' None None tenants0 \<and>
     provision_system_roles 2 [clerk_role, seller] db' = (\<lparr>pr_created = [], pr_updated = [], pr_skipped = [''clerk'', ''seller'']\<rparr>, db')"
proof -
  obtain res db' where p: "provision_system_roles 2 [clerk_role, seller] tenants0 = (res, db')" by fastforce
  have "pr_created (fst (provision_system_roles 2 [clerk_role, seller] tenants0)) = [''seller'']"
    "pr_updated (fst (provision_system_roles 2 [clerk_role, seller] tenants0)) = [''clerk'']"
    by (simp_all add: provision_system_roles_def provision_role_def role_in_def clerk_def clerk_role_def seller_def refreshed_def
        same_permissions_def update_where_def new_role_def)
  moreover have d: "distinct (map rd_code [clerk_role, seller])" by (simp add: clerk_role_def seller_def)
  moreover have "map rd_code [clerk_role, seller] = [''clerk'', ''seller'']" by (simp add: clerk_role_def seller_def)
  ultimately show ?thesis using provisioning_changes_no_rights [OF clerk_ok d p] p by simp
qed

lemma system_roles_survive_witness:
  "survive (tn_roles tenants0) (tn_roles (fold (after_role_call id [])
     [Destroy_Role 2 1, Create_Role 2 \<lparr>rf_name = ''Clerk'', rf_code = None, rf_description = [], rf_permissions = [], rf_active = True\<rparr>,
      Sync_Roles 2 [seller]] tenants0))"
  using system_roles_survive [OF clerk_ok] by (simp only: Let_def)

subsection \<open>Invitations\<close>

definition bob :: user_row where
  "bob = \<lparr>us_id = 9, us_email = ''Bob@Acme.nz'', us_active = True, us_superuser = False\<rparr>"

definition to_bob :: invitation where
  "to_bob = \<lparr>iv_id = 1, iv_uuid = ''u1'', iv_workspace = 2, iv_email = ''bob@acme.nz'', iv_role = 1, iv_invited_by = Some 7,
     iv_token_hash = ''digest'', iv_status = Iv_Pending, iv_expires_at = noon + 1, iv_accepted_at = None, iv_accepted_by = None,
     iv_revoked_at = None, iv_message = []\<rparr>"

definition invites0 :: invite_db where
  "invites0 = \<lparr>id_tenants = tenants0, id_rows = [to_bob]\<rparr>"

definition inviting0 :: invite_env where
  "inviting0 = \<lparr>ie_env = env0, ie_hours = 48, ie_hash = (\<lambda>_. ''digest'')\<rparr>"

lemma invites0_ok: "invites_ok (id_rows invites0)"
  by (simp add: invites0_def invites_ok_def collides_def)

lemma bob_address: "same_address (us_email bob) (iv_email to_bob)"
  by code_simp

lemma bob_accepts: "\<exists>db'. invite_call_result inviting0 (Accept ''secret'' None bob) invites0 = (None, db')"
proof -
  have "find_invitation_by_token inviting0 ''secret'' None invites0 = Inr (to_bob, invites0)"
    by (simp add: find_invitation_by_token_def inviting0_def invites0_def is_expired_def to_bob_def)
  moreover have "\<exists>r. accept_invitation env0 to_bob bob invites0 = Inr r"
    using bob_address by (simp add: accept_invitation_def is_expired_def invites0_def) (simp add: to_bob_def)
  ultimately show ?thesis by (auto simp: invite_call_result_def Let_def inviting0_def)
qed

lemma invitation_makes_staff_witness:
  "\<exists>db'. invite_call_result inviting0 (Accept ''secret'' None bob) invites0 = (None, db') \<and>
     (\<exists>m \<in> set (tn_staff (id_tenants db')). sm_workspace m = 2 \<and> sm_user m = 9 \<and> sm_role m = 1 \<and> sm_active m) \<and>
     invite_call_result inviting0 (Accept ''secret'' None ann) db' = (Some Accepted_Already, db')"
proof -
  obtain db' where a: "invite_call_result inviting0 (Accept ''secret'' None bob) invites0 = (None, db')" using bob_accepts by blast
  have row: "id_rows invites0 = [to_bob]" "iv_workspace to_bob = 2" "iv_role to_bob = 1" "us_id bob = 9"
    by (simp_all add: invites0_def to_bob_def bob_def)
  from invitation_makes_staff [OF invites0_ok a, of ann] a show ?thesis by (auto simp: row)
qed

lemma staff_come_by_invitation_witness:
  "\<forall>m \<in> set (tn_staff (id_tenants (fold (\<lambda>(E, call) db. snd (invite_call_result E call db))
      [(inviting0, Resend 2 ''u1'' None ''other''), (inviting0, Accept ''other'' None bob), (inviting0, Revoke 2 ''u1'')] invites0))).
     m \<in> set (tn_staff (id_tenants invites0)) \<or> came_by (id_rows (fold (\<lambda>(E, call) db. snd (invite_call_result E call db))
      [(inviting0, Resend 2 ''u1'' None ''other''), (inviting0, Accept ''other'' None bob), (inviting0, Revoke 2 ''u1'')] invites0)) m"
  using staff_come_by_invitation [OF invites0_ok, of "[(inviting0, Resend 2 ''u1'' None ''other''), (inviting0, Accept ''other'' None bob), (inviting0, Revoke 2 ''u1'')]"]
  unfolding Let_def by blast

end
