(* ===== verification/Spec2Isabelle.thy ===== *)
theory Spec2Isabelle
  imports Witnesses Witnesses_Buying Witnesses_Platform Witnesses_Control
    Witnesses_Shop Witnesses_Payments Witnesses_Store Witnesses_Archive
    Witnesses_Services Witnesses_Tenancy
begin

text \<open>
  A verification library for the BFG workspace server, a Django application that serves many
  shops ("workspaces") from one deployment and bills them for what they use. All paths below are
  under \<open>src/bfg2/bfg/\<close>, those that start with \<open>src/\<close> apart.

  \<^bold>\<open>The program.\<close> One workspace of a deployment, named by \<open>PLATFORM_WORKSPACE_SLUG\<close>, manages it: it prices
  meters and add-ons, issues the bills of the others and receives their payments. The parts and how
  they call each other:

  \<^item> metered calls are recorded at the price in force (\<open>platform/services/pricing.py\<close>, \<open>usage.py\<close>);
  \<^item> currencies and their rates (\<open>platform/services/exchange_rates.py\<close>, \<open>common/onboarding\<close>);
  \<^item> extensions a workspace can switch on, each declared by a manifest (\<open>common/extensions/\<close>), and
    the entitlements that allow it to (\<open>platform/services/entitlements.py\<close>, \<open>read_only.py\<close>);
  \<^item> the monthly run that bills usage and renewals (\<open>platform/services/billing.py\<close>), the sale of an
    add-on (\<open>acquisitions.py\<close>), and what a paid bill buys (\<open>renewals.py\<close>, \<open>platform/handlers.py\<close>);
  \<^item> who owns a workspace (\<open>ownership.py\<close>), where it is placed (\<open>placement_queue.py\<close>), and the numbers an
    operator can change (\<open>platform_variables.py\<close>);
  \<^item> in every workspace, the stock of its shop and the orders that take from it
    (\<open>shop/services/inventory_service.py\<close>, \<open>order_service.py\<close>) and the payments and refunds of orders and
    invoices (\<open>finance/services/payment_service.py\<close>); a bill of the platform is an invoice of the
    management workspace and is paid like any other (\<open>platform/services/bill_payment.py\<close>);
  \<^item> what a visitor of a shop is shown and puts into a cart (\<open>shop/services/cart_service.py\<close>,
    \<open>storefront_display_service.py\<close>), the discounts, coupons and gift cards
    (\<open>marketing/services/discount_service.py\<close>) and the freight (\<open>delivery/services/freight_calculator.py\<close>,
    \<open>core/condition_engine.py\<close>, \<open>delivery/schemas/freight_templates.py\<close>) an order costs, placing the order
    (\<open>order_service.py\<close> again), its invoice (\<open>finance/services/invoice_service.py\<close>) and the wallet of a
    customer (\<open>wallet_service.py\<close>);
  \<^item> the data of an extension that is taken out of the tables into files and put back
    (\<open>common/extensions/archive.py\<close>), and packs of extensions that come with a plan (\<open>packs.py\<close>);
  \<^item> the control plane, by which an operator suspends, deletes, caps and grants with a confirmation, a reason and
    a key against repeats (\<open>platform/services/control_actions.py\<close>, \<open>control_audit.py\<close>,
    \<open>platform/views/control_views.py\<close>);
  \<^item> how a request finds its workspace, by token, session, header or hostname (\<open>common/middleware.py\<close>,
    \<open>common/managers.py\<close>, \<open>common/services/domain_service.py\<close>), signs in by an API key
    (\<open>src/config/authentication.py\<close>), is refused a write when the plan has lapsed (\<open>platform/middleware.py\<close>,
    \<open>core/read_only.py\<close>), and what the staff may do there (\<open>core/permissions.py\<close>,
    \<open>common/services/role_provisioning.py\<close>, \<open>invitation_service.py\<close>).

  \<^bold>\<open>The theories\<close>, in the order they build on each other:

  \<^item> \<open>Prelude\<close>: tables as lists of rows, the queryset operations on them, error results, the interface
    \<open>state_machine\<close>. \<open>Decimals\<close>: the two roundings of \<open>decimal\<close> and the interface \<open>rounding\<close> both meet.
    \<open>Calendar\<close>: dates as ordinals, moments as microseconds, the proleptic Gregorian calendar,
    \<open>add_months\<close>. \<open>Text\<close>, \<open>Rendering\<close>: the string operations and the formats of numbers and dates.
  \<^item> \<open>Platform_Data\<close>: one record per model class, the database as a record of tables, the settings of a
    deployment as the record \<open>env\<close>, the cache.
  \<^item> \<open>Pricing_Usage\<close>, \<open>Exchange_Rates\<close>, \<open>Ownership\<close>, \<open>Platform_Variables\<close>: the services of those names.
  \<^item> \<open>Bill_Numbers\<close>: the two kinds of bill number and their readers, and the interface \<open>bill_scheme\<close>
    that both meet: a number is read back as what it was written for.
  \<^item> \<open>Manifest\<close>, \<open>Extensions\<close>, \<open>Activation\<close>: manifests and their registry; which extensions are available;
    switching them on and off. \<open>Activation\<close> states what it relies on an entitlement check for as the
    interface \<open>entitlement_backend\<close>; \<open>Entitlements\<close> provides it with the platform's own check.
  \<^item> \<open>Cached_Answers\<close>: the interface of a yes-or-no answer that is kept for a minute; the overdue answer
    (\<open>Billing\<close>) and the read-only answer (\<open>Entitlements\<close>) meet it.
  \<^item> \<open>Billing\<close>, \<open>Billing_Run\<close>: the lines of a bill, one turn of the run, the run, and its properties.
    \<open>Acquisitions\<close> and \<open>Renewals\<close>: buying an add-on; what a paid bill buys and who hears of it.
  \<^item> \<open>Placement_Queue\<close>: the reservation queue as operations and as a state machine (\<open>queue_step\<close>).
  \<^item> \<open>Stock\<close>, \<open>Order_Stock\<close>: the rows of a warehouse and what an order reserves, takes and gives back, with
    payment, cancellation and status as steps of the state machine \<open>order_step\<close>; its invariant \<open>sound\<close>
    says that no warehouse promises more than it has and that no piece is lost.
  \<^item> \<open>Payments\<close>: the payment service. \<open>Payment_Books\<close>: what is promised of it as an abstract machine
    (\<open>book_step\<close>, with the invariant \<open>books_ok\<close>), and that every call is a run of it. \<open>Payment_Settling\<close>: what
    the calls mean to who makes them, and what they do not exclude. \<open>Bill_Payment\<close>: starting to pay a
    bill. Completing a payment calls \<open>Order_Stock\<close> for the order and \<open>Renewals\<close> for the bill.
  \<^item> \<open>Store_Data\<close>: the rows of the storefront, beside the tables of the shop and of finance, and JSON.
    \<open>Discounts\<close>, \<open>Invoicing\<close>, \<open>Wallets\<close>: the services of those names. \<open>Conditions\<close>, \<open>Freight\<close>: what JSON
    conditions and configurations say of a parcel, the templates that make them, and the prices of
    products; \<open>Freight_Typing\<close>: a typing of configurations that makes every parcel have a price, with
    the interface \<open>prices\<close> of what a price is looked up by. \<open>Carts\<close> and \<open>Cart_Laws\<close>: carts, and what is in
    them. \<open>Checkout\<close>: from a cart to an order, step by step; \<open>Checkout_Laws\<close>: what each step leaves alone;
    \<open>Checkout_Orders\<close>: what the whole comes to. \<open>Direct_Orders\<close>: an order without a cart.
  \<^item> \<open>Archive_Storage\<close>, \<open>Archive\<close>: files and their digests; the runs that export, verify and delete the rows of an
    extension and the steps that restore them, each failure putting the extension back on the status and clock it had.
    \<open>Archive_Laws\<close>: what is gone is in the files, and a failed archive keeps everything; \<open>Archive_Restore\<close>: what is read back.
    \<open>Packs\<close>: applying a pack only switches on.
  \<^item> \<open>Control_Actions\<close>, \<open>Control_Workspaces\<close>: the ledger of requests, redaction and audit trail; the operations on
    a workspace. \<open>Control_Laws\<close>: the interface \<open>control_action\<close> of an operation with the ledger and the trail, which
    every operation meets, and what follows of retries and of what is kept of credentials.
  \<^item> \<open>Url\<close>, \<open>Tenancy_Data\<close>: \<open>urlsplit\<close>; users, staff, customers, hostnames, keys and the cache of requests.
    \<open>Domains\<close>: hostnames, their invariant \<open>domains_ok\<close> and the public address. \<open>Tenancy\<close>: from the path of a request to
    the view and the rows it sees; \<open>Tenancy_Laws\<close>: that this is the workspace the request names while the cache
    says what the tables say (\<open>cache_sound\<close>), and what makes it say something else. \<open>Request_Access\<close>: API keys and the
    refusal of writes. \<open>Staff_Rights\<close>, \<open>Staff_Roles\<close>, \<open>Invitations\<close>: what a role allows, how roles
    are provisioned and changed, and how people come to have one.
  \<^item> \<open>Samples\<close>, \<open>Samples_Buying\<close>, \<open>Samples_Store\<close>, \<open>Samples_Archive\<close>: a small deployment, its monthly run, its
    acquisitions and the storefront of one workspace; \<open>Witnesses\<close>, \<open>Witnesses_Buying\<close>,
    \<open>Witnesses_Platform\<close>, \<open>Witnesses_Control\<close>, \<open>Witnesses_Shop\<close>, \<open>Witnesses_Payments\<close>, \<open>Witnesses_Store\<close>,
    \<open>Witnesses_Archive\<close>, \<open>Witnesses_Services\<close>, \<open>Witnesses_Tenancy\<close>: each property with hypotheses, applied to it or to a small shop.

  \<^bold>\<open>How the code is modelled.\<close> A service call that runs in \<open>transaction.atomic\<close> answers an error or the
  new database; what it queues with \<open>on_commit\<close> is applied to the database it answers. A table is the
  list of its rows in primary-key order, and \<open>fresh_id\<close> is the next key. A \<open>Decimal\<close> is a rational
  number; where the code rounds, so does the model, at the same places and in the same mode, and an
  amount of the storefront is rounded half to even when it is saved in a column (\<open>cents\<close>). Foreign
  keys hold keys. The unique index on an invoice's number is modelled (\<open>Integrity_Error\<close>), and so is
  the retry it causes, three times as in the code (\<open>NUMBER_ATTEMPTS\<close>): \<open>try_numbers\<close> takes that bound as
  its fuel, and it is proved that the first attempt always succeeds when nothing else runs. The
  pruning of extensions whose requirements are missing is shown to end because each further pass is
  over fewer keys. The search for a free payment number may not end: it is a \<open>partial_function\<close>, and it
  is proved when it does; the same search numbers orders and invoices, and for invoices it always ends.
  A call of the payment service is several transactions, and answers the
  database of those that were committed also when a later one raises.

  What is not under \<open>src/\<close> or is supplied by a deployment is a parameter: the reference feed
  (\<open>_fetch\<close>, a function from a base currency to what was published), the hooks, prerequisites and
  configuration cleaners of a manifest, the entitlement check where \<open>Activation\<close> is about any of them,
  the conversion of a decimal to a JSON float (\<open>via_float\<close>, with \<open>float_laws\<close>), the payment gateways and
  what extensions exclude from a consignment update (\<open>outside\<close>), the digits drawn for the number of a
  payment or an order (\<open>draw\<close>), the conversion of a quotient to a float before it is rounded up (\<open>fv\<close>,
  with \<open>float_sound\<close>: what is not negative stays so), \<open>json.loads\<close> (\<open>loads\<close>) and which ways of fulfilment a
  gateway supports (\<open>supports\<close>), the serializer, storage and cascading delete of an archive (fields of
  \<open>archive_env\<close>, with the laws \<open>honest_save\<close>, \<open>honest_delete\<close>, \<open>registered\<close> and \<open>faithful_rows\<close>), the digests of
  secrets and payloads, what a token decodes to (\<open>te_decode\<close>) and \<open>slugify\<close>. Nothing is assumed of the gateways, the exclusions, the digits, \<open>loads\<close>
  and \<open>supports\<close>.

  \<^bold>\<open>What the lemmas show.\<close> Each theory ends with its properties, under the heading of that name:
  that usage, prices, rates and caps are what was entered and history is never rewritten; that a bill
  adds up, is issued once, and says what it charges for; that buying, paying and renewing give exactly
  what was paid for, once, however often they are reported; that the sweep of lapsed periods takes
  nothing away early and nothing twice; that an extension is available exactly as far as what it
  requires; that a workspace has one owner; that the placement queue never overbooks and its fences
  only rise; that the log of variable changes has no gap; that stock is never oversold, is taken once
  and is given back; that the ledger of a payment adds up, a payment is booked by one call and a
  refund is given once under its key, and no refunds exceed the payment; that a bill settled
  through a gateway is acted on once; and that a checkout charges no more than was quoted, keeps to
  the limits of coupons, takes from a gift card what it takes off the order, and moves the whole cart
  into an order the invoice then bills; that archived rows are in files that read as they did, and come back; that
  a control action is carried out once and leaves a trail without the values of named credentials; that a request, a key and a member of the
  staff reach one workspace only, that roles keep their rights, and that people join by an invitation to their address.
  Some promises hold under conditions that the code does not enforce: a wallet that is freshly read, a cache that
  is true, rows without line ends inside a text, a key used on its own host. They are hypotheses, or cases of the
  conclusion, and the text above each property names them. Where a call at an unlucky moment breaks such a promise, a lemma
  says so (\<open>Payment_Settling\<close>, \<open>Order_Stock.status_saves_the_given_row\<close>,
  \<open>Wallets.stale_wallet_loses_a_transaction\<close>, \<open>Checkout_Orders.padded_code_is_spent\<close>,
  \<open>Cart_Laws.adding_again_passes\<close>).

  \<^bold>\<open>Not modelled.\<close> Views other than those named, serializers, URLs, admin and migrations are
  glue around the services; the bearer classes of \<open>authentication.py\<close> wrap a third-party package. The console and the listings of the platform only query what the
  modelled services keep, and the wrappers that guard extension events and endpoints keep no state. The creation of a workspace is the onboarding scaffold of other apps.
  Products and their identifiers, stores, content, messages and tickets are created, read and changed with little logic
  of their own; promotions are a query by dates, and what parcels and consignments hold comes from carriers. The batch service cannot be
  constructed, since it imports a module that does not exist. Sending mail is left out: its failures are logged and change
  nothing. So is the \<open>try\<close> around the provisioning of a role, which logs a failure of the database and goes on. Symbols, descriptions and timestamps
  no modelled service reads are left out of the records. Logging is left out. Two requests
  at once are modelled only where the code serialises them by a lock or a unique index, as sequences
  of calls.
\<close>

end
